(* ===== verification/Prelude.thy ===== *)
theory Prelude
  imports Main "HOL-Library.Word"
begin

text \<open>
  Shared material: results with errors as values, the theorem collections of the
  development, and the generic list lemmas that the component theories use.

  A Go function that returns a value and an error is modelled by a function into
  \<open>'e + 'a\<close> (\<open>Inl\<close> the error).  A method on the database is modelled by explicit state
  passing, \<open>'s \<Rightarrow> ('e + 'a) \<times> 's\<close>.  A method that opens a transaction is the body of the
  transaction under \<open>in_tx\<close>: an error return runs the deferred rollback, a normal return
  commits.
\<close>

section \<open>Theorem collections\<close>

named_theorems sql_simps \<open>rewriting rules of the table operations\<close>
named_theorems frame_simps \<open>which part of the database an operation leaves alone\<close>
named_theorems codec_simps \<open>lengths and round trips of the byte encodings\<close>

section \<open>Transactions\<close>

type_synonym bytes = "8 word list"

definition in_tx :: "('s \<Rightarrow> 'e + ('a \<times> 's)) \<Rightarrow> 's \<Rightarrow> ('e + 'a) \<times> 's" where
  "in_tx body s = (case body s of Inl e \<Rightarrow> (Inl e, s) | Inr (x, s') \<Rightarrow> (Inr x, s'))"

lemma in_tx_Inl [simp]: "body s = Inl e \<Longrightarrow> in_tx body s = (Inl e, s)"
  by (simp add: in_tx_def)

lemma in_tx_Inr [simp]: "body s = Inr (x, s') \<Longrightarrow> in_tx body s = (Inr x, s')"
  by (simp add: in_tx_def)

lemma in_tx_InrD: "in_tx body s = (Inr x, s') \<Longrightarrow> body s = Inr (x, s')"
  by (auto simp: in_tx_def split: sum.splits prod.splits)

lemma in_tx_InlD: "in_tx body s = (Inl e, s') \<Longrightarrow> s' = s \<and> body s = Inl e"
  by (auto simp: in_tx_def split: sum.splits prod.splits)

lemma in_tx_cases:
  assumes "in_tx body s = (r, s')"
  obtains (rollback) e where "r = Inl e" and "s' = s" and "body s = Inl e"
    | (commit) x where "r = Inr x" and "body s = Inr (x, s')"
  using assms by (cases r) (auto dest: in_tx_InlD in_tx_InrD)

text \<open>Whatever the body keeps on success, the transaction keeps on every outcome.\<close>

lemma in_tx_invariant:
  assumes "in_tx body s = (r, s')" and "P s"
    and "\<And>x t. body s = Inr (x, t) \<Longrightarrow> P t"
  shows "P s'"
  using assms(1) by (cases rule: in_tx_cases) (use assms(2,3) in auto)

section \<open>Error propagation\<close>

text \<open>
  \<open>andthen m k\<close> is \<open>x, err := m; if err != nil { return err }; k x\<close>.
\<close>

definition andthen :: "'e + 'a \<Rightarrow> ('a \<Rightarrow> 'e + 'b) \<Rightarrow> 'e + 'b" where
  "andthen m k = (case m of Inl e \<Rightarrow> Inl e | Inr x \<Rightarrow> k x)"

definition ensure :: "bool \<Rightarrow> 'e \<Rightarrow> 'e + unit" where
  "ensure b e = (if b then Inr () else Inl e)"

definition from_option :: "'e \<Rightarrow> 'a option \<Rightarrow> 'e + 'a" where
  "from_option e x = (case x of None \<Rightarrow> Inl e | Some y \<Rightarrow> Inr y)"

definition map_err :: "('e \<Rightarrow> 'f) \<Rightarrow> 'e + 'a \<Rightarrow> 'f + 'a" where
  "map_err f m = (case m of Inl e \<Rightarrow> Inl (f e) | Inr x \<Rightarrow> Inr x)"

lemma andthen_simps [simp]: "andthen (Inl e) k = Inl e" "andthen (Inr x) k = k x"
  by (simp_all add: andthen_def)

lemma andthen_Inr: "andthen m k = Inr y \<longleftrightarrow> (\<exists>x. m = Inr x \<and> k x = Inr y)"
  by (cases m) auto

lemma ensure_Inr: "ensure b e = Inr u \<longleftrightarrow> b"
  by (simp add: ensure_def)

lemma ensure_True [simp]: "b \<Longrightarrow> ensure b e = Inr ()"
  by (simp add: ensure_def)

lemma ensure_False [simp]: "\<not> b \<Longrightarrow> ensure b e = Inl e"
  by (simp add: ensure_def)

lemma from_option_Inr: "from_option e x = Inr y \<longleftrightarrow> x = Some y"
  by (cases x) (auto simp: from_option_def)

lemma from_option_simps [simp]: "from_option e None = Inl e" "from_option e (Some x) = Inr x"
  by (simp_all add: from_option_def)

lemma map_err_Inr: "map_err f m = Inr y \<longleftrightarrow> m = Inr y"
  by (cases m) (auto simp: map_err_def)

lemma map_err_simps [simp]: "map_err f (Inl e) = Inl (f e)" "map_err f (Inr x) = Inr x"
  by (simp_all add: map_err_def)

lemmas result_Inr = andthen_Inr ensure_Inr from_option_Inr map_err_Inr

section \<open>Invariants of transition systems\<close>

text \<open>The contract of a component whose operations are steps on a state: every step keeps the
  invariant, hence every reachable state has it.\<close>

locale invariant_system =
  fixes step :: "'s \<Rightarrow> 's \<Rightarrow> bool" and inv :: "'s \<Rightarrow> bool"
  assumes step_keeps: "step s t \<Longrightarrow> inv s \<Longrightarrow> inv t"
begin

lemma reachable_inv: "step\<^sup>*\<^sup>* s t \<Longrightarrow> inv s \<Longrightarrow> inv t"
  by (induction rule: rtranclp_induct) (auto intro: step_keeps)

end

section \<open>Generic list lemmas\<close>

lemma find_None_iff_key: "find (\<lambda>r. key r = k) t = None \<longleftrightarrow> k \<notin> key ` set t"
  by (auto simp: find_None_iff)

lemma find_SomeD: "find p t = Some r \<Longrightarrow> r \<in> set t \<and> p r"
  by (auto simp: find_Some_iff)

lemma find_distinct_key:
  assumes "distinct (map key t)" and "r \<in> set t"
  shows "find (\<lambda>x. key x = key r) t = Some r"
  using assms by (induction t) (auto simp: rev_image_eqI)

lemma find_append: "find p (xs @ ys) = (case find p xs of None \<Rightarrow> find p ys | Some x \<Rightarrow> Some x)"
  by (induction xs) auto

lemma distinct_key_unique:
  "distinct (map key t) \<Longrightarrow> r \<in> set t \<Longrightarrow> r' \<in> set t \<Longrightarrow> key r = key r' \<Longrightarrow> r = r'"
  by (metis find_distinct_key option.inject)

lemma distinct_map_filter_key: "distinct (map key t) \<Longrightarrow> distinct (map key (filter p t))"
  by (induction t) auto

lemma filter_key_le1:
  "distinct (map key t) \<Longrightarrow> (\<And>r. p r \<Longrightarrow> key r = k) \<Longrightarrow> length (filter p t) \<le> 1"
proof (induction t)
  case Nil
  then show ?case by simp
next
  case (Cons a t)
  show ?case
  proof (cases "p a")
    case True
    with Cons.prems have "key a = k" by blast
    then have "\<forall>r \<in> set t. \<not> p r"
      using Cons.prems by (metis distinct.simps(2) image_eqI list.set_map list.simps(9))
    then have "filter p t = []" by (simp add: filter_empty_conv)
    with True show ?thesis by simp
  next
    case False
    with Cons show ?thesis by simp
  qed
qed

end
