(* ===== verification/GoText.thy ===== *)
theory GoText
  imports Prelude
begin

text \<open>
  Go strings are byte strings.  The model uses \<open>string\<close> (a list of 8-bit characters), so
  \<open>length\<close> is Go's \<open>len\<close>.  Where the code converts to \<open>[]rune\<close> the UTF-8 decoder of the Go
  language is written out here: a byte that does not start a valid sequence counts as one
  replacement rune.
\<close>

section \<open>Bytes and runes\<close>

definition byte_values :: "string \<Rightarrow> nat list" where
  "byte_values s = map of_char s"

definition bytes_of :: "string \<Rightarrow> bytes" where
  "bytes_of s = map (\<lambda>c. of_nat (of_char c)) s"

lemma length_bytes_of [simp]: "length (bytes_of s) = length s"
  by (simp add: bytes_of_def)

lemma bytes_of_inject [simp]: "bytes_of s = bytes_of t \<longleftrightarrow> s = t"
proof -
  have "(of_nat (of_char a) :: 8 word) = of_nat (of_char b) \<longleftrightarrow> a = b" for a b :: char
  proof
    assume "(of_nat (of_char a) :: 8 word) = of_nat (of_char b)"
    then have "of_char a mod (256 :: nat) = of_char b mod 256"
      by (simp add: word_of_nat_eq_iff take_bit_eq_mod)
    then show "a = b" by simp
  qed simp
  then have "inj (\<lambda>c :: char. (of_nat (of_char c) :: 8 word))"
    by (simp add: inj_def)
  then show ?thesis
    by (simp add: bytes_of_def inj_map_eq_map)
qed

definition cont_byte :: "nat \<Rightarrow> bool" where
  "cont_byte b \<longleftrightarrow> 128 \<le> b \<and> b \<le> 191"

text \<open>
  \<open>utf8_tail b0 r\<close>: the rune that starts with the non-ASCII byte \<open>b0\<close> and the number of
  continuation bytes it takes from \<open>r\<close>; \<open>None\<close> when the sequence is invalid.
\<close>

definition utf8_tail :: "nat \<Rightarrow> nat list \<Rightarrow> (nat \<times> nat) option" where
  "utf8_tail b0 r =
    (if 194 \<le> b0 \<and> b0 \<le> 223 then
       (case r of b1 # _ \<Rightarrow>
          if cont_byte b1 then Some ((b0 - 192) * 64 + (b1 - 128), 1) else None
        | _ \<Rightarrow> None)
     else if 224 \<le> b0 \<and> b0 \<le> 239 then
       (case r of b1 # b2 # _ \<Rightarrow>
          if (if b0 = 224 then 160 else 128) \<le> b1 \<and> b1 \<le> (if b0 = 237 then 159 else 191)
             \<and> cont_byte b2
          then Some ((b0 - 224) * 4096 + (b1 - 128) * 64 + (b2 - 128), 2) else None
        | _ \<Rightarrow> None)
     else if 240 \<le> b0 \<and> b0 \<le> 244 then
       (case r of b1 # b2 # b3 # _ \<Rightarrow>
          if (if b0 = 240 then 144 else 128) \<le> b1 \<and> b1 \<le> (if b0 = 244 then 143 else 191)
             \<and> cont_byte b2 \<and> cont_byte b3
          then Some ((b0 - 240) * 262144 + (b1 - 128) * 4096 + (b2 - 128) * 64 + (b3 - 128), 3)
          else None
        | _ \<Rightarrow> None)
     else None)"

fun runes_of_bytes :: "nat list \<Rightarrow> nat list" where
  "runes_of_bytes [] = []"
| "runes_of_bytes (b # r) =
    (if b < 128 then b # runes_of_bytes r
     else case utf8_tail b r of
            None \<Rightarrow> 65533 # runes_of_bytes r
          | Some (c, n) \<Rightarrow> c # runes_of_bytes (drop n r))"

definition runes :: "string \<Rightarrow> nat list" where
  "runes s = runes_of_bytes (byte_values s)"

definition rune_count :: "string \<Rightarrow> nat" where
  "rune_count s = length (runes s)"

fun utf8_bytes :: "nat list \<Rightarrow> bool" where
  "utf8_bytes [] = True"
| "utf8_bytes (b # r) =
    (if b < 128 then utf8_bytes r
     else case utf8_tail b r of None \<Rightarrow> False | Some (c, n) \<Rightarrow> utf8_bytes (drop n r))"

definition valid_utf8 :: "string \<Rightarrow> bool" where
  "valid_utf8 s \<longleftrightarrow> utf8_bytes (byte_values s)"

lemma runes_of_bytes_length: "length (runes_of_bytes bs) \<le> length bs"
proof (induction bs rule: runes_of_bytes.induct)
  case 1
  then show ?case by simp
next
  case (2 b r)
  show ?case
  proof (cases "b < 128")
    case True
    with 2 show ?thesis by simp
  next
    case False
    show ?thesis
    proof (cases "utf8_tail b r")
      case None
      with False 2 show ?thesis by simp
    next
      case (Some cn)
      obtain c n where cn: "cn = (c, n)" by (cases cn)
      have "length (runes_of_bytes (drop n r)) \<le> length (drop n r)"
        using "2.IH"(3)[OF False Some cn[symmetric]] cn by simp
      also have "\<dots> \<le> length r" by simp
      finally show ?thesis using False Some cn by simp
    qed
  qed
qed

lemma rune_count_le_length: "rune_count s \<le> length s"
  using runes_of_bytes_length[of "byte_values s"] by (simp add: rune_count_def runes_def byte_values_def)

lemma runes_of_bytes_ascii: "\<forall>b \<in> set bs. b < 128 \<Longrightarrow> runes_of_bytes bs = bs"
  by (induction bs) auto

definition ascii :: "string \<Rightarrow> bool" where
  "ascii s \<longleftrightarrow> (\<forall>c \<in> set s. (of_char c :: nat) < 128)"

lemma rune_count_ascii: "ascii s \<Longrightarrow> rune_count s = length s"
  by (simp add: rune_count_def runes_def byte_values_def ascii_def runes_of_bytes_ascii)

lemma runes_Nil_iff: "runes s = [] \<longleftrightarrow> s = []"
  by (cases s) (auto simp: runes_def byte_values_def split: option.splits)

section \<open>White space, case and digits\<close>

text \<open>\<open>unicode.IsSpace\<close>, the set that \<open>strings.TrimSpace\<close> removes.\<close>

definition is_space :: "nat \<Rightarrow> bool" where
  "is_space r \<longleftrightarrow> r \<in> {9, 10, 11, 12, 13, 32, 133, 160, 5760, 8232, 8233, 8239, 8287, 12288}
     \<or> 8192 \<le> r \<and> r \<le> 8202"

definition blank :: "string \<Rightarrow> bool" where
  "blank s \<longleftrightarrow> list_all is_space (runes s)"
  \<comment> \<open>\<open>strings.TrimSpace(s) == ""\<close>\<close>

lemma blank_Nil [simp]: "blank []"
  by (simp add: blank_def runes_def byte_values_def)

definition lower_char :: "char \<Rightarrow> char" where
  "lower_char c = (if 65 \<le> (of_char c :: nat) \<and> (of_char c :: nat) \<le> 90
                   then char_of ((of_char c :: nat) + 32) else c)"

text \<open>
  \<open>strings.ToLower\<close>: bytewise on ASCII strings.  On other strings Go maps every rune through
  the Unicode tables, which are the parameter \<open>ulow\<close>.
\<close>

definition to_lower :: "(string \<Rightarrow> string) \<Rightarrow> string \<Rightarrow> string" where
  "to_lower ulow s = (if ascii s then map lower_char s else ulow s)"

definition is_digit :: "char \<Rightarrow> bool" where
  "is_digit c \<longleftrightarrow> 48 \<le> (of_char c :: nat) \<and> (of_char c :: nat) \<le> 57"

definition is_alnum :: "char \<Rightarrow> bool" where
  "is_alnum c \<longleftrightarrow> is_digit c \<or> 65 \<le> (of_char c :: nat) \<and> (of_char c :: nat) \<le> 90
     \<or> 97 \<le> (of_char c :: nat) \<and> (of_char c :: nat) \<le> 122"

fun digits_value :: "nat \<Rightarrow> string \<Rightarrow> nat" where
  "digits_value acc [] = acc"
| "digits_value acc (c # cs) = digits_value (10 * acc + (of_char c - 48)) cs"

lemma of_char_lower: "(of_char (lower_char c) :: nat) =
  (if 65 \<le> (of_char c :: nat) \<and> (of_char c :: nat) \<le> 90 then of_char c + 32 else of_char c)"
  by (simp add: lower_char_def)

lemma lower_char_idem [simp]: "lower_char (lower_char c) = lower_char c"
proof -
  have "\<not> (65 \<le> (of_char (lower_char c) :: nat) \<and> (of_char (lower_char c) :: nat) \<le> 90)"
    by (auto simp: of_char_lower)
  then show ?thesis by (subst lower_char_def) (rule if_not_P)
qed

lemma to_lower_ascii_idem: "ascii s \<Longrightarrow> to_lower u (to_lower u s) = to_lower u s"
proof -
  assume s: "ascii s"
  have "ascii (map lower_char s)"
    using s by (auto simp: ascii_def of_char_lower)
  with s show ?thesis by (simp add: to_lower_def)
qed

text \<open>\<open>strings.Split\<close> on a one-byte separator, \<open>strings.Cut\<close>, prefixes and substrings.\<close>

fun split_on :: "char \<Rightarrow> string \<Rightarrow> string list" where
  "split_on c [] = [[]]"
| "split_on c (x # xs) =
    (if x = c then [] # split_on c xs
     else case split_on c xs of [] \<Rightarrow> [[x]] | y # ys \<Rightarrow> (x # y) # ys)"

lemma split_on_nonempty [simp]: "split_on c s \<noteq> []"
  by (induction s) (auto split: list.splits)

fun join_with :: "string \<Rightarrow> string list \<Rightarrow> string" where
  "join_with sep [] = []"
| "join_with sep [x] = x"
| "join_with sep (x # y # xs) = x @ sep @ join_with sep (y # xs)"

lemma split_join_inverse: "join_with [c] (split_on c s) = s"
proof (induction s)
  case Nil
  then show ?case by simp
next
  case (Cons x xs)
  obtain y ys where y: "split_on c xs = y # ys"
    by (meson neq_Nil_conv split_on_nonempty)
  show ?case
    using Cons y by (cases ys) auto
qed

lemma split_on_no_sep: "p \<in> set (split_on c s) \<Longrightarrow> c \<notin> set p"
proof (induction s arbitrary: p)
  case Nil
  then show ?case by simp
next
  case (Cons x xs)
  then show ?case by (auto split: if_splits list.splits)
qed

fun cut_at :: "char \<Rightarrow> string \<Rightarrow> (string \<times> string) option" where
  "cut_at c [] = None"
| "cut_at c (x # xs) =
    (if x = c then Some ([], xs) else map_option (\<lambda>(a, b). (x # a, b)) (cut_at c xs))"

lemma cut_at_Some: "cut_at c s = Some (a, b) \<Longrightarrow> s = a @ c # b \<and> c \<notin> set a"
  by (induction s arbitrary: a) (auto split: if_splits)

lemma cut_at_append: "c \<notin> set a \<Longrightarrow> cut_at c (a @ c # b) = Some (a, b)"
  by (induction a) auto

fun has_prefix :: "string \<Rightarrow> string \<Rightarrow> bool" where
  "has_prefix [] s = True"
| "has_prefix (p # ps) [] = False"
| "has_prefix (p # ps) (c # cs) = (p = c \<and> has_prefix ps cs)"

lemma has_prefix_iff: "has_prefix p s \<longleftrightarrow> (\<exists>r. s = p @ r)"
  by (induction p s rule: has_prefix.induct) auto

definition has_suffix :: "string \<Rightarrow> string \<Rightarrow> bool" where
  "has_suffix p s \<longleftrightarrow> has_prefix (rev p) (rev s)"

lemma has_suffix_iff: "has_suffix p s \<longleftrightarrow> (\<exists>r. s = r @ p)"
  by (auto simp: has_suffix_def has_prefix_iff) (metis rev_append rev_rev_ident)

fun has_infix :: "string \<Rightarrow> string \<Rightarrow> bool" where
  "has_infix p [] = (p = [])"
| "has_infix p (c # cs) = (has_prefix p (c # cs) \<or> has_infix p cs)"

lemma has_infix_iff: "has_infix p s \<longleftrightarrow> (\<exists>a b. s = a @ p @ b)"
proof (induction s)
  case Nil
  then show ?case by auto
next
  case (Cons c cs)
  note IH = Cons.IH
  show ?case
  proof
    assume h: "has_infix p (c # cs)"
    show "\<exists>a b. c # cs = a @ p @ b"
    proof (cases "has_prefix p (c # cs)")
      case True
      then obtain b where "c # cs = [] @ p @ b" by (auto simp: has_prefix_iff)
      then show ?thesis by blast
    next
      case False
      with h Cons obtain a b where "cs = a @ p @ b" by auto
      then have "c # cs = (c # a) @ p @ b" by simp
      then show ?thesis by blast
    qed
  next
    assume "\<exists>a b. c # cs = a @ p @ b"
    then obtain a b where ab: "c # cs = a @ p @ b" by blast
    show "has_infix p (c # cs)"
    proof (cases a)
      case Nil
      with ab have "has_prefix p (c # cs)" by (simp add: has_prefix_iff)
      then show ?thesis by simp
    next
      case (Cons a0 a')
      with ab have "\<exists>a b. cs = a @ p @ b" by auto
      with IH show ?thesis by simp
    qed
  qed
qed

end
