(* ===== verification/Sql.thy ===== *)
theory Sql
  imports Prelude "HOL-Library.List_Lexorder" "HOL-Library.Char_ord" "HOL-Library.Product_Lexorder"
begin

text \<open>
  The part of SQL that the repository code uses, over tables that are lists of rows: a
  conditional \<open>UPDATE\<close> and its affected-row count, \<open>DELETE\<close>, a single-row \<open>SELECT\<close>, an
  \<open>INSERT\<close> that fails on a duplicate primary key, and the keyset page
  \<open>ORDER BY created DESC, id DESC LIMIT n\<close>.  Two interfaces state what the services rely on:
  \<open>keyed_table\<close> for the point operations and \<open>keyset_listing\<close> for the pages.
  Text columns compare bytewise, which is the list order over characters.
\<close>

section \<open>Statements\<close>

definition sql_update :: "('r \<Rightarrow> bool) \<Rightarrow> ('r \<Rightarrow> 'r) \<Rightarrow> 'r list \<Rightarrow> 'r list" where
  "sql_update p f t = map (\<lambda>r. if p r then f r else r) t"

definition sql_affected :: "('r \<Rightarrow> bool) \<Rightarrow> 'r list \<Rightarrow> nat" where
  "sql_affected p t = length (filter p t)"

definition sql_delete :: "('r \<Rightarrow> bool) \<Rightarrow> 'r list \<Rightarrow> 'r list" where
  "sql_delete p t = filter (\<lambda>r. \<not> p r) t"

definition sql_get :: "('r \<Rightarrow> 'k) \<Rightarrow> 'k \<Rightarrow> 'r list \<Rightarrow> 'r option" where
  "sql_get key k t = find (\<lambda>r. key r = k) t"

definition sql_insert :: "('r \<Rightarrow> 'k) \<Rightarrow> 'r \<Rightarrow> 'r list \<Rightarrow> 'r list option" where
  "sql_insert key r t = (if key r \<in> set (map key t) then None else Some (t @ [r]))"

lemma set_sql_update [sql_simps]: "set (sql_update p f t) = (\<lambda>r. if p r then f r else r) ` set t"
  by (simp add: sql_update_def)

lemma set_sql_delete [sql_simps]: "set (sql_delete p t) = {r \<in> set t. \<not> p r}"
  by (auto simp: sql_delete_def)

lemma sql_affected_pos [sql_simps]: "0 < sql_affected p t \<longleftrightarrow> (\<exists>r \<in> set t. p r)"
  by (auto simp: sql_affected_def filter_empty_conv)

lemma sql_affected_0 [sql_simps]: "sql_affected p t = 0 \<longleftrightarrow> (\<forall>r \<in> set t. \<not> p r)"
  by (auto simp: sql_affected_def filter_empty_conv)

lemma sql_affected_1D: "sql_affected p t = Suc 0 \<Longrightarrow> \<exists>r \<in> set t. p r"
  using sql_affected_pos[of p t] by simp

lemma sql_affected_le1:
  "distinct (map key t) \<Longrightarrow> (\<And>r. p r \<Longrightarrow> key r = k) \<Longrightarrow> sql_affected p t \<le> 1"
  unfolding sql_affected_def by (rule filter_key_le1)

lemma map_sql_update: "(\<And>r. key (f r) = key r) \<Longrightarrow> map key (sql_update p f t) = map key t"
  by (induction t) (auto simp: sql_update_def)

lemma distinct_sql_delete: "distinct (map key t) \<Longrightarrow> distinct (map key (sql_delete p t))"
  by (simp add: sql_delete_def distinct_map_filter_key)

lemma sql_update_cong_id: "(\<And>r. r \<in> set t \<Longrightarrow> \<not> p r) \<Longrightarrow> sql_update p f t = t"
  by (induction t) (auto simp: sql_update_def)

lemma sql_delete_id: "(\<And>r. r \<in> set t \<Longrightarrow> \<not> p r) \<Longrightarrow> sql_delete p t = t"
  by (induction t) (auto simp: sql_delete_def)

lemma sql_insert_Some [sql_simps]:
  "sql_insert key r t = Some t' \<longleftrightarrow> key r \<notin> key ` set t \<and> t' = t @ [r]"
  by (auto simp: sql_insert_def)

section \<open>Tables with a primary key\<close>

locale keyed_table =
  fixes key :: "'r \<Rightarrow> 'k"
    and get :: "'k \<Rightarrow> 'r list \<Rightarrow> 'r option"
    and ins :: "'r \<Rightarrow> 'r list \<Rightarrow> 'r list option"
    and modify :: "('r \<Rightarrow> bool) \<Rightarrow> ('r \<Rightarrow> 'r) \<Rightarrow> 'r list \<Rightarrow> 'r list"
    and remove :: "('r \<Rightarrow> bool) \<Rightarrow> 'r list \<Rightarrow> 'r list"
  assumes get_SomeD: "get k t = Some r \<Longrightarrow> r \<in> set t \<and> key r = k"
    and get_mem: "distinct (map key t) \<Longrightarrow> r \<in> set t \<Longrightarrow> get (key r) t = Some r"
    and get_None: "get k t = None \<longleftrightarrow> k \<notin> key ` set t"
    and ins_Some: "ins r t = Some t' \<longleftrightarrow> key r \<notin> key ` set t \<and> t' = t @ [r]"
    and set_modify: "set (modify p f t) = (\<lambda>r. if p r then f r else r) ` set t"
    and keys_modify: "(\<And>r. key (f r) = key r) \<Longrightarrow> map key (modify p f t) = map key t"
    and set_remove: "set (remove p t) = {r \<in> set t. \<not> p r}"
    and keys_remove: "distinct (map key t) \<Longrightarrow> distinct (map key (remove p t))"
begin

lemma get_iff: "distinct (map key t) \<Longrightarrow> get k t = Some r \<longleftrightarrow> r \<in> set t \<and> key r = k"
  using get_SomeD get_mem by blast

lemma keys_ins: "distinct (map key t) \<Longrightarrow> ins r t = Some t' \<Longrightarrow> distinct (map key t')"
  by (auto simp: ins_Some)

lemma get_ins:
  assumes "distinct (map key t)" and "ins r t = Some t'"
  shows "get k t' = (if k = key r then Some r else get k t)"
proof -
  have d: "distinct (map key t')" by (rule keys_ins[OF assms])
  have t': "set t' = insert r (set t)" and fresh: "key r \<notin> key ` set t"
    using assms(2) by (auto simp: ins_Some)
  show ?thesis
  proof (cases "k = key r")
    case True
    then show ?thesis using get_mem[OF d] t' by simp
  next
    case False
    show ?thesis
    proof (cases "get k t")
      case None
      then have "get k t' = None" using False t' by (auto simp: get_None)
      with None False show ?thesis by simp
    next
      case (Some x)
      then have "get k t' = Some x" using get_iff[OF d] get_SomeD[OF Some] t' by auto
      with Some False show ?thesis by simp
    qed
  qed
qed

lemma get_modify:
  assumes "distinct (map key t)" and "\<And>r. key (f r) = key r"
  shows "get k (modify p f t) = map_option (\<lambda>r. if p r then f r else r) (get k t)"
proof -
  have d: "distinct (map key (modify p f t))"
    using assms by (simp add: keys_modify)
  show ?thesis
  proof (cases "get k t")
    case None
    have "key ` set (modify p f t) = key ` set t"
      using keys_modify[of f p t, OF assms(2)] by (metis list.set_map)
    then have "get k (modify p f t) = None" using None by (simp add: get_None)
    with None show ?thesis by simp
  next
    case (Some r)
    then have r: "r \<in> set t" "key r = k" by (auto dest: get_SomeD)
    have "get k (modify p f t) = Some (if p r then f r else r)"
      unfolding get_iff[OF d] using r assms(2) by (auto simp: set_modify)
    with Some show ?thesis by simp
  qed
qed

lemma get_remove:
  assumes "distinct (map key t)"
  shows "get k (remove p t) = (case get k t of None \<Rightarrow> None | Some r \<Rightarrow> if p r then None else Some r)"
proof (cases "get k t")
  case None
  then have "get k (remove p t) = None" by (auto simp: get_None set_remove)
  with None show ?thesis by simp
next
  case (Some r)
  then have r: "r \<in> set t" "key r = k" by (auto dest: get_SomeD)
  show ?thesis
  proof (cases "p r")
    case True
    have "k \<notin> key ` set (remove p t)"
      using r True distinct_key_unique[OF assms] by (auto simp: set_remove)
    with Some True show ?thesis by (simp add: get_None)
  next
    case False
    then have "get k (remove p t) = Some r"
      unfolding get_iff[OF keys_remove[OF assms]] using r by (simp add: set_remove)
    with Some False show ?thesis by simp
  qed
qed

end

lemma keyed_table_sql:
  "keyed_table key (sql_get key) (sql_insert key) sql_update sql_delete"
proof
  fix k t r
  show "sql_get key k t = Some r \<Longrightarrow> r \<in> set t \<and> key r = k"
    by (auto simp: sql_get_def dest: find_SomeD)
next
  fix t r
  show "distinct (map key t) \<Longrightarrow> r \<in> set t \<Longrightarrow> sql_get key (key r) t = Some r"
    by (simp add: sql_get_def find_distinct_key)
next
  fix k t
  show "sql_get key k t = None \<longleftrightarrow> k \<notin> key ` set t"
    unfolding sql_get_def by (rule find_None_iff_key)
qed (auto simp: sql_simps map_sql_update distinct_sql_delete)

section \<open>Keyset pages\<close>

text \<open>
  \<open>before\<close> is the position of the last row of the previous page; \<open>limit\<close> is the \<open>LIMIT\<close>
  parameter.
\<close>

definition newest_first :: "('r \<Rightarrow> 'p::linorder) \<Rightarrow> 'r list \<Rightarrow> 'r list" where
  "newest_first pos t = rev (sort_key pos t)"

definition keyset_page :: "('r \<Rightarrow> 'p::linorder) \<Rightarrow> ('r \<Rightarrow> bool) \<Rightarrow> 'p option \<Rightarrow> nat \<Rightarrow> 'r list \<Rightarrow> 'r list" where
  "keyset_page pos p before limit t =
     take limit (newest_first pos
       (filter (\<lambda>r. p r \<and> (case before of None \<Rightarrow> True | Some b \<Rightarrow> pos r < b)) t))"

lemma set_newest_first [simp]: "set (newest_first pos t) = set t"
  by (simp add: newest_first_def)

lemma length_newest_first [simp]: "length (newest_first pos t) = length t"
  by (simp add: newest_first_def)

lemma newest_first_filter: "newest_first pos (filter p t) = filter p (newest_first pos t)"
  by (simp add: newest_first_def filter_sort flip: rev_filter)

lemma newest_first_strict:
  assumes "distinct (map pos t)"
  shows "sorted_wrt (\<lambda>a b. pos b < pos a) (newest_first pos t)"
proof -
  have "distinct (map pos (sort_key pos t))"
    using assms by (simp add: distinct_map)
  then have "sorted_wrt (<) (map pos (sort_key pos t))"
    by (simp add: strict_sorted_iff)
  then show ?thesis
    by (simp add: newest_first_def sorted_wrt_map sorted_wrt_rev)
qed

lemma strict_filter_below:
  fixes pos :: "'r \<Rightarrow> 'p::linorder"
  assumes "sorted_wrt (\<lambda>a b. pos b < pos a) S" and "k < length S"
  shows "filter (\<lambda>r. pos r < pos (S ! k)) S = drop (Suc k) S"
  using assms
proof (induction S arbitrary: k)
  case Nil
  then show ?case by simp
next
  case (Cons a S)
  show ?case
  proof (cases k)
    case 0
    have "filter (\<lambda>r. pos r < pos a) S = S"
      using Cons.prems(1) by (simp add: filter_id_conv)
    with 0 show ?thesis by simp
  next
    case (Suc j)
    then have j: "j < length S" using Cons.prems(2) by simp
    then have "\<not> pos a < pos (S ! j)"
      using Cons.prems(1) by (simp add: less_not_sym)
    with Suc Cons j show ?thesis by simp
  qed
qed

text \<open>
  The services fetch one row more than the page size; its presence proves that a next page
  exists.  \<open>page_and_next\<close> is that page with the position for the next request, and
  \<open>read_pages\<close> a client that follows the positions.
\<close>

definition page_and_next :: "('r \<Rightarrow> 'p) \<Rightarrow> nat \<Rightarrow> 'r list \<Rightarrow> 'r list \<times> 'p option" where
  "page_and_next pos limit rows =
    (if limit < length rows \<and> limit \<noteq> 0
     then (take limit rows, Some (pos (last (take limit rows))))
     else (take limit rows, None))"

fun read_pages :: "nat \<Rightarrow> ('p option \<Rightarrow> 'r list \<times> 'p option) \<Rightarrow> 'p option \<Rightarrow> 'r list" where
  "read_pages 0 f c = []"
| "read_pages (Suc k) f c =
    (case f c of (rs, None) \<Rightarrow> rs | (rs, Some p) \<Rightarrow> rs @ read_pages k f (Some p))"

locale keyset_listing =
  fixes pos :: "'r \<Rightarrow> 'p::linorder"
    and sel :: "'q \<Rightarrow> 'r \<Rightarrow> bool"
    and page :: "'q \<Rightarrow> 'p option \<Rightarrow> nat \<Rightarrow> 'r list \<Rightarrow> 'r list"
  assumes page_first: "page q None n t = take n (filter (sel q) (newest_first pos t))"
    and page_next: "page q (Some b) n t =
      take n (filter (\<lambda>r. sel q r \<and> pos r < b) (newest_first pos t))"
begin

lemma page_sound: "r \<in> set (page q c n t) \<Longrightarrow> r \<in> set t \<and> sel q r"
  by (cases c) (auto simp: page_first page_next dest: in_set_takeD)

lemma page_length: "length (page q c n t) \<le> n"
  by (cases c) (simp_all add: page_first page_next)

lemma page_after:
  assumes "distinct (map pos t)" and "k < length (filter (sel q) (newest_first pos t))"
  shows "page q (Some (pos (filter (sel q) (newest_first pos t) ! k))) n t =
    take n (drop (Suc k) (filter (sel q) (newest_first pos t)))"
proof -
  let ?S = "filter (sel q) (newest_first pos t)"
  have "sorted_wrt (\<lambda>a b. pos b < pos a) ?S"
    using newest_first_strict[OF assms(1)] by (rule sorted_wrt_filter)
  from strict_filter_below[OF this assms(2)] show ?thesis
    by (simp add: page_next conj_commute flip: filter_filter)
qed

text \<open>
  Following the positions from the first page returns every selected row once, newest first.
\<close>

lemma read_pages_from:
  assumes d: "distinct (map pos t)" and n: "0 < n"
    and S: "S = filter (sel q) (newest_first pos t)"
    and c: "c = (if j = 0 then None else Some (pos (S ! (j - 1))))"
    and j: "j \<le> length S" and k: "length S - j < k"
  shows "read_pages k (\<lambda>c. page_and_next pos n (page q c (Suc n) t)) c = drop j S"
  using c j k
proof (induction k arbitrary: c j)
  case 0
  then show ?case by simp
next
  case (Suc k)
  have page: "page q c (Suc n) t = take (Suc n) (drop j S)"
  proof (cases j)
    case 0
    with Suc.prems(1) show ?thesis by (simp add: page_first S)
  next
    case (Suc i)
    with Suc.prems(1,2) show ?thesis using page_after[OF d, of i q "Suc n"] S by simp
  qed
  show ?case
  proof (cases "n < length (drop j S)")
    case False
    then have "take n (take (Suc n) (drop j S)) = drop j S" by simp
    with False show ?thesis by (simp add: page page_and_next_def)
  next
    case True
    then have len: "j + n < length S" by simp
    have last: "last (take n (drop j S)) = S ! (j + n - 1)"
      using True n by (simp add: last_conv_nth)
    have tk: "take n (take (Suc n) (drop j S)) = take n (drop j S)" by simp
    have "page_and_next pos n (page q c (Suc n) t)
        = (take n (drop j S), Some (pos (S ! (j + n - 1))))"
      using True n last unfolding page page_and_next_def tk by simp
    moreover have "read_pages k (\<lambda>c. page_and_next pos n (page q c (Suc n) t))
        (Some (pos (S ! (j + n - 1)))) = drop (j + n) S"
      using Suc.IH[of "Some (pos (S ! (j + n - 1)))" "j + n"] len n Suc.prems(3) by simp
    moreover have "drop (j + n) S = drop n (drop j S)" by (simp add: add.commute)
    ultimately show ?thesis by (simp del: drop_drop)
  qed
qed

lemma read_pages_all:
  assumes "distinct (map pos t)" and "0 < n" and "length t < k"
  shows "read_pages k (\<lambda>c. page_and_next pos n (page q c (Suc n) t)) None
    = filter (sel q) (newest_first pos t)"
proof -
  have "length (filter (sel q) (newest_first pos t)) \<le> length t"
    by (metis length_filter_le length_newest_first)
  with assms(3) have "length (filter (sel q) (newest_first pos t)) - 0 < k" by simp
  from read_pages_from[OF assms(1,2) refl _ _ this, of None] show ?thesis by simp
qed

end

lemma keyset_listing_page:
  "keyset_listing pos sel (\<lambda>q before limit t. keyset_page pos (sel q) before limit t)"
  by unfold_locales (simp_all add: keyset_page_def newest_first_filter)

end
