(* ===== verification/Policy.thy ===== *)
theory Policy
  imports Prelude
begin

text \<open>
  \<open>internal/vault/policy.go\<close>: the vault authorization policy.  Scopes and roles are the Go
  string types, so that the \<open>default\<close> branches for a value outside the declared constants are
  branches of the model; identifiers are strings and the empty string is "not set".
\<close>

section \<open>Roles, scopes, actions\<close>

abbreviation RoleAdmin :: string where "RoleAdmin \<equiv> ''admin''"
abbreviation RoleMember :: string where "RoleMember \<equiv> ''member''"
abbreviation ScopePersonal :: string where "ScopePersonal \<equiv> ''personal''"
abbreviation ScopeShared :: string where "ScopeShared \<equiv> ''shared''"

datatype action = ActionRead | ActionUpdate | ActionDelete | ActionRestore | ActionPurge
  | ActionHistory | ActionHistoryRestore | ActionFavorite | ActionTag | ActionExport
  | ActionOther string

record item_view =
  iv_scope :: string
  iv_owner :: string
  iv_creator :: string

definition policyItem :: "string \<Rightarrow> string \<Rightarrow> string \<Rightarrow> item_view" where
  "policyItem sc own cre = \<lparr>iv_scope = sc, iv_owner = own, iv_creator = cre\<rparr>"

definition IsSelf :: "string \<Rightarrow> item_view \<Rightarrow> bool" where
  "IsSelf actor it =
    (if iv_scope it = ScopePersonal then iv_owner it \<noteq> '''' \<and> iv_owner it = actor
     else if iv_scope it = ScopeShared then iv_creator it \<noteq> '''' \<and> iv_creator it = actor
     else False)"

definition CanReadItem :: "string \<Rightarrow> item_view \<Rightarrow> bool" where
  "CanReadItem actor it =
    (if iv_scope it = ScopeShared then True else iv_owner it \<noteq> '''' \<and> iv_owner it = actor)"

fun Can :: "string \<Rightarrow> string \<Rightarrow> item_view \<Rightarrow> action \<Rightarrow> bool" where
  "Can role actor it a =
    (if actor = '''' then False
     else case a of
       ActionRead \<Rightarrow> CanReadItem actor it
     | ActionHistory \<Rightarrow> CanReadItem actor it
     | ActionUpdate \<Rightarrow> IsSelf actor it
     | ActionDelete \<Rightarrow> IsSelf actor it
     | ActionRestore \<Rightarrow> IsSelf actor it
     | ActionPurge \<Rightarrow> IsSelf actor it
     | ActionHistoryRestore \<Rightarrow> IsSelf actor it
     | ActionFavorite \<Rightarrow> IsSelf actor it
     | ActionTag \<Rightarrow> IsSelf actor it
     | ActionExport \<Rightarrow> IsSelf actor it
     | ActionOther _ \<Rightarrow> False)"

declare Can.simps [simp del]

definition CanCreate :: "string \<Rightarrow> string \<Rightarrow> string \<Rightarrow> string \<Rightarrow> string \<Rightarrow> bool" where
  "CanCreate role actor sc own cre =
    (if actor = '''' then False
     else if sc = ScopePersonal then own = actor \<and> cre = ''''
     else if sc = ScopeShared then cre = actor \<and> own = ''''
     else False)"

datatype policy_error = ErrOwnershipImmutable

definition ValidateImmutableOwnership ::
  "item_view \<Rightarrow> string option \<Rightarrow> string option \<Rightarrow> string option \<Rightarrow> policy_error + unit" where
  "ValidateImmutableOwnership cur sc own cre =
    (if sc \<noteq> None \<and> the sc \<noteq> iv_scope cur then Inl ErrOwnershipImmutable
     else if own \<noteq> None \<and> the own \<noteq> iv_owner cur then Inl ErrOwnershipImmutable
     else if cre \<noteq> None \<and> the cre \<noteq> iv_creator cur then Inl ErrOwnershipImmutable
     else Inr ())"

definition CanReference :: "string \<Rightarrow> item_view \<Rightarrow> item_view \<Rightarrow> bool" where
  "CanReference actor src tgt =
    (if \<not> CanReadItem actor tgt then False
     else if iv_scope src = ScopeShared \<and> iv_scope tgt \<noteq> ScopeShared then False
     else True)"

section \<open>The contract of the policy\<close>

text \<open>
  What the item service relies on: a write right implies the read right, and a right names
  an actor.  \<open>wf\<close> is the ownership shape of the rows the database admits.
\<close>

definition owned_view :: "item_view \<Rightarrow> bool" where
  "owned_view it \<longleftrightarrow>
     iv_scope it = ScopePersonal \<and> iv_owner it \<noteq> '''' \<and> iv_creator it = ''''
   \<or> iv_scope it = ScopeShared \<and> iv_owner it = '''' \<and> iv_creator it \<noteq> ''''"

definition write_action :: "action \<Rightarrow> bool" where
  "write_action a \<longleftrightarrow> a \<in> {ActionUpdate, ActionDelete, ActionRestore, ActionPurge,
     ActionHistoryRestore, ActionFavorite, ActionTag, ActionExport}"

locale vault_policy =
  fixes can :: "string \<Rightarrow> string \<Rightarrow> 'i \<Rightarrow> action \<Rightarrow> bool"
    and subject :: "'i \<Rightarrow> string"
    and wf :: "'i \<Rightarrow> bool"
  assumes write_iff: "wf it \<Longrightarrow> write_action a \<Longrightarrow>
      can role actor it a \<longleftrightarrow> actor \<noteq> '''' \<and> actor = subject it"
    and write_reads: "can role actor it a \<Longrightarrow> write_action a \<Longrightarrow> can role' actor it ActionRead"
    and role_free: "can role actor it a = can role' actor it a"
begin

lemma single_writer:
  "wf it \<Longrightarrow> write_action a \<Longrightarrow> write_action b \<Longrightarrow> can r1 x it a \<Longrightarrow> can r2 y it b \<Longrightarrow> x = y"
  by (simp add: write_iff)

lemma write_rights_equal:
  "wf it \<Longrightarrow> write_action a \<Longrightarrow> write_action b \<Longrightarrow> can r1 x it a = can r2 x it b"
  by (simp add: write_iff)

end

definition view_subject :: "item_view \<Rightarrow> string" where
  "view_subject it = (if iv_owner it = '''' then iv_creator it else iv_owner it)"

interpretation policy: vault_policy Can view_subject owned_view
proof
  fix it a role actor
  assume "owned_view it" and "write_action a"
  then show "Can role actor it a \<longleftrightarrow> actor \<noteq> '''' \<and> actor = view_subject it"
    by (cases a) (auto simp: Can.simps IsSelf_def owned_view_def view_subject_def write_action_def)
next
  fix it a role actor role'
  assume "Can role actor it a" and "write_action a"
  then show "Can role' actor it ActionRead"
    by (cases a) (auto simp: Can.simps IsSelf_def CanReadItem_def write_action_def split: if_splits)
next
  fix it a role actor role'
  show "Can role actor it a = Can role' actor it a"
    by (simp add: Can.simps)
qed

lemma Can_actor: "Can role actor it a \<Longrightarrow> actor \<noteq> ''''"
  by (simp add: Can.simps split: if_splits)

lemma Can_write_subject:
  "owned_view it \<Longrightarrow> write_action a \<Longrightarrow> Can role actor it a \<Longrightarrow> view_subject it = actor"
  by (simp add: policy.write_iff)

lemma CanCreate_owned:
  "CanCreate role actor sc own cre \<Longrightarrow> owned_view (policyItem sc own cre) \<and>
     view_subject (policyItem sc own cre) = actor"
  by (auto simp: CanCreate_def owned_view_def policyItem_def view_subject_def split: if_splits)

text \<open>On rows of the shape the database admits, the mutating rights, including export,
  belong to exactly one actor: the owner of a personal item or the creator of a shared one.
  The role, administrator or member, makes no difference.\<close>

theorem write_right_iff_subject:
  assumes "owned_view it" and "write_action a"
  shows "Can role actor it a \<longleftrightarrow> actor = view_subject it"
proof -
  have "view_subject it \<noteq> ''''"
    using assms(1) by (auto simp: owned_view_def view_subject_def)
  then show ?thesis
    using policy.write_iff[OF assms, of role actor] by auto
qed

theorem write_right_iff_subject_witness:
  "owned_view (policyItem ''shared'' '''' ''u1'') \<and> write_action ActionTag \<and>
   \<not> Can ''admin'' ''u2'' (policyItem ''shared'' '''' ''u1'') ActionTag \<and>
   Can ''member'' ''u1'' (policyItem ''shared'' '''' ''u1'') ActionTag"
proof -
  have o: "owned_view (policyItem ''shared'' '''' ''u1'')" and w: "write_action ActionTag"
    by (simp_all add: owned_view_def policyItem_def write_action_def)
  show ?thesis
    using o w write_right_iff_subject[OF o w, of "''admin''" "''u2''"]
      write_right_iff_subject[OF o w, of "''member''" "''u1''"]
    by (simp add: view_subject_def policyItem_def)
qed

text \<open>A personal item is invisible to everyone but its owner: every action, reading and
  reading history included, is denied to any other actor, administrators too.\<close>

theorem personal_item_owner_only:
  assumes "iv_scope it = ScopePersonal" and "actor \<noteq> iv_owner it"
  shows "\<not> Can role actor it a"
  using assms by (cases a) (simp_all add: Can.simps CanReadItem_def IsSelf_def)

theorem personal_item_owner_only_witness:
  "iv_scope (policyItem ''personal'' ''u1'' '''') = ScopePersonal \<and>
   \<not> Can ''admin'' ''root'' (policyItem ''personal'' ''u1'' '''') ActionHistory"
  using personal_item_owner_only[of "policyItem ''personal'' ''u1'' ''''" "''root''" "''admin''" ActionHistory]
  by (simp add: policyItem_def)

text \<open>A reference the policy admits can be followed by everyone who can read the source:
  if the actor may read the source item and point it at the target, then every reader of the
  source may read the target.\<close>

theorem reference_visible_to_all_readers:
  assumes "owned_view src" and "owned_view tgt"
    and "CanReadItem actor src" and "CanReference actor src tgt"
    and "CanReadItem other src"
  shows "CanReadItem other tgt"
  using assms
  by (auto simp: CanReadItem_def CanReference_def owned_view_def split: if_splits)

theorem reference_visible_to_all_readers_witness:
  "CanReadItem ''u1'' (policyItem ''shared'' '''' ''u2'') \<and>
   CanReference ''u1'' (policyItem ''shared'' '''' ''u1'') (policyItem ''shared'' '''' ''u2'') \<and>
   CanReadItem ''u3'' (policyItem ''shared'' '''' ''u2'')"
proof -
  have "CanReadItem ''u3'' (policyItem ''shared'' '''' ''u2'')"
    by (rule reference_visible_to_all_readers[of "policyItem ''shared'' '''' ''u1''" _ "''u1''"])
       (simp_all add: owned_view_def CanReadItem_def CanReference_def policyItem_def)
  then show ?thesis by (simp add: CanReadItem_def CanReference_def policyItem_def)
qed

lemma ValidateImmutableOwnership_iff:
  "ValidateImmutableOwnership cur sc own cre = Inr () \<longleftrightarrow>
     sc \<in> {None, Some (iv_scope cur)} \<and> own \<in> {None, Some (iv_owner cur)} \<and>
     cre \<in> {None, Some (iv_creator cur)}"
  by (cases sc; cases own; cases cre) (auto simp: ValidateImmutableOwnership_def)

end
