(* ===== verification/Schema.thy ===== *)
theory Schema
  imports GoText Sql Policy
begin

text \<open>
  The database of \<open>migrations/0001..0004\<close>: one record per table row, the database as a record
  of tables, the declared constraints (primary keys, \<open>UNIQUE\<close>, \<open>CHECK\<close>, foreign keys) as
  conditions of the inserts, and \<open>ON DELETE CASCADE\<close> as part of the deletes.

  Instants are integers: nanoseconds since the Unix epoch.  The columns hold them in a
  fixed-width UTC format, whose bytewise order is the order of the instants.
\<close>

type_synonym time = int

definition second_ns :: int where "second_ns = 1000000000"
definition minute_ns :: int where "minute_ns = 60 * second_ns"
definition hour_ns :: int where "hour_ns = 60 * minute_ns"
definition day_ns :: int where "day_ns = 24 * hour_ns"

lemmas duration_defs = second_ns_def minute_ns_def hour_ns_def day_ns_def

section \<open>Rows\<close>

record user_row =
  u_id :: string
  u_norm :: string
  u_display :: string
  u_role :: string
  u_status :: string
  u_must_change :: bool
  u_hash :: string
  u_created :: time
  u_updated :: time
  u_idle :: int

record session_row =
  s_id :: string
  s_public :: string
  s_user :: string
  s_created :: time
  s_abs :: time
  s_idle :: time
  s_revoked :: "time option"

record attempt_row =
  a_user :: string
  a_source :: string
  a_created :: time

record item_row =
  it_id :: string
  it_scope :: string
  it_owner :: "string option"
  it_creator :: "string option"
  it_type :: string
  it_favorite :: bool
  it_pver :: "16 word"
  it_nonce :: bytes
  it_ct :: bytes
  it_rev :: nat
  it_created :: time
  it_updated :: time
  it_deleted :: "time option"

record version_row =
  v_item :: string
  v_rev :: nat
  v_pver :: "16 word"
  v_nonce :: bytes
  v_ct :: bytes
  v_created :: time

record audit_row =
  e_id :: string
  e_event :: string
  e_actor :: string
  e_ttype :: string
  e_tid :: string
  e_result :: string
  e_req :: string
  e_created :: time
  e_source :: "string option"
  e_source_scope :: "string option"
  e_target_scope :: "string option"

record idem_row =
  k_scope :: string
  k_key :: string
  k_fp :: string
  k_status :: string
  k_res :: "string option"
  k_created :: time
  k_expires :: time

record db =
  users :: "user_row list"
  sessions :: "session_row list"
  attempts :: "attempt_row list"
  items :: "item_row list"
  versions :: "version_row list"
  audits :: "audit_row list"
  idem :: "idem_row list"
  settings :: "(string \<times> string) list"
  sysstate :: "(string \<times> string) list"

definition empty_db :: db where
  "empty_db = \<lparr>users = [], sessions = [], attempts = [], items = [], versions = [],
     audits = [], idem = [], settings = [], sysstate = [(''initialized'', ''0'')]\<rparr>"

text \<open>
  The acting principal of a request (\<open>auth.Principal\<close>), as \<open>Authenticate\<close> builds it.
\<close>

record session_info =
  si_id :: string
  si_created :: time
  si_expires :: time
  si_idle :: time
  si_current :: bool

record principal =
  p_user :: string
  p_username :: string
  p_role :: string
  p_must_change :: bool
  p_idle :: int
  p_session :: session_info

section \<open>Constraints and cascades\<close>

datatype constraint_error = UniqueViolation | CheckViolation | ForeignKeyViolation

definition item_types :: "string list" where
  "item_types = [''login'', ''ssh_key'', ''credit_card'', ''identity'', ''secure_note'', ''secret'']"

definition user_check :: "user_row \<Rightarrow> bool" where
  "user_check u \<longleftrightarrow> u_role u \<in> set [''admin'', ''member''] \<and>
     u_status u \<in> set [''active'', ''disabled''] \<and> 5 \<le> u_idle u \<and> u_idle u \<le> 30"

definition insert_user :: "user_row \<Rightarrow> db \<Rightarrow> constraint_error + db" where
  "insert_user u d =
    (if \<not> user_check u then Inl CheckViolation
     else if u_norm u \<in> set (map u_norm (users d)) then Inl UniqueViolation
     else case sql_insert u_id u (users d) of None \<Rightarrow> Inl UniqueViolation
       | Some t \<Rightarrow> Inr (d\<lparr>users := t\<rparr>))"

definition insert_session :: "session_row \<Rightarrow> db \<Rightarrow> constraint_error + db" where
  "insert_session s d =
    (if s_user s \<notin> set (map u_id (users d)) then Inl ForeignKeyViolation
     else if s_public s \<in> set (map s_public (sessions d)) then Inl UniqueViolation
     else case sql_insert s_id s (sessions d) of None \<Rightarrow> Inl UniqueViolation
       | Some t \<Rightarrow> Inr (d\<lparr>sessions := t\<rparr>))"

definition item_check :: "item_row \<Rightarrow> bool" where
  "item_check r \<longleftrightarrow>
     (it_scope r = ScopePersonal \<and> it_owner r \<noteq> None \<and> it_creator r = None
      \<or> it_scope r = ScopeShared \<and> it_owner r = None \<and> it_creator r \<noteq> None)
     \<and> it_type r \<in> set item_types \<and> it_pver r \<noteq> 0 \<and> 1 \<le> it_rev r"

definition item_refs :: "db \<Rightarrow> item_row \<Rightarrow> bool" where
  "item_refs d r \<longleftrightarrow>
     (case it_owner r of None \<Rightarrow> True | Some u \<Rightarrow> u \<in> set (map u_id (users d))) \<and>
     (case it_creator r of None \<Rightarrow> True | Some u \<Rightarrow> u \<in> set (map u_id (users d)))"

definition insert_item_row :: "item_row \<Rightarrow> db \<Rightarrow> constraint_error + db" where
  "insert_item_row r d =
    (if \<not> item_check r then Inl CheckViolation
     else if \<not> item_refs d r then Inl ForeignKeyViolation
     else case sql_insert it_id r (items d) of None \<Rightarrow> Inl UniqueViolation
       | Some t \<Rightarrow> Inr (d\<lparr>items := t\<rparr>))"

definition version_key :: "version_row \<Rightarrow> string \<times> nat" where
  "version_key v = (v_item v, v_rev v)"

definition insert_version_row :: "version_row \<Rightarrow> db \<Rightarrow> constraint_error + db" where
  "insert_version_row v d =
    (if v_item v \<notin> set (map it_id (items d)) then Inl ForeignKeyViolation
     else if v_rev v < 1 \<or> v_pver v = 0 then Inl CheckViolation
     else case sql_insert version_key v (versions d) of None \<Rightarrow> Inl UniqueViolation
       | Some t \<Rightarrow> Inr (d\<lparr>versions := t\<rparr>))"

text \<open>\<open>DELETE FROM vault_items\<close> cascades to the archived versions.\<close>

definition delete_item_rows :: "(item_row \<Rightarrow> bool) \<Rightarrow> db \<Rightarrow> db" where
  "delete_item_rows p d =
    (let gone = map it_id (filter p (items d)) in
     d\<lparr>items := sql_delete p (items d),
       versions := sql_delete (\<lambda>v. v_item v \<in> set gone) (versions d)\<rparr>)"

text \<open>
  \<open>DELETE FROM users\<close> cascades to sessions and to the vault items the user owns or created,
  and through them to the versions.
\<close>

definition item_of_user :: "string \<Rightarrow> item_row \<Rightarrow> bool" where
  "item_of_user uid r \<longleftrightarrow> it_owner r = Some uid \<or> it_creator r = Some uid"

definition delete_user_row :: "string \<Rightarrow> db \<Rightarrow> db" where
  "delete_user_row uid d =
    (delete_item_rows (item_of_user uid) d)\<lparr>
      users := sql_delete (\<lambda>u. u_id u = uid) (users d),
      sessions := sql_delete (\<lambda>s. s_user s = uid) (sessions d)\<rparr>"

definition idem_key :: "idem_row \<Rightarrow> string \<times> string" where
  "idem_key k = (k_scope k, k_key k)"

text \<open>A key/value table with \<open>ON CONFLICT(key) DO UPDATE\<close>.\<close>

definition kv_get :: "string \<Rightarrow> (string \<times> string) list \<Rightarrow> string option" where
  "kv_get k t = map_of t k"

definition kv_put :: "string \<Rightarrow> string \<Rightarrow> (string \<times> string) list \<Rightarrow> (string \<times> string) list" where
  "kv_put k v t = (k, v) # filter (\<lambda>e. fst e \<noteq> k) t"

lemma kv_get_put [simp]: "kv_get k (kv_put k' v t) = (if k = k' then Some v else kv_get k t)"
  by (induction t) (auto simp: kv_get_def kv_put_def)

interpretation user_table: keyed_table u_id "sql_get u_id" "sql_insert u_id" sql_update sql_delete
  by (rule keyed_table_sql)

interpretation session_table: keyed_table s_id "sql_get s_id" "sql_insert s_id" sql_update sql_delete
  by (rule keyed_table_sql)

interpretation item_table: keyed_table it_id "sql_get it_id" "sql_insert it_id" sql_update sql_delete
  by (rule keyed_table_sql)

interpretation version_table:
  keyed_table version_key "sql_get version_key" "sql_insert version_key" sql_update sql_delete
  by (rule keyed_table_sql)

interpretation idem_table:
  keyed_table idem_key "sql_get idem_key" "sql_insert idem_key" sql_update sql_delete
  by (rule keyed_table_sql)

section \<open>The integrity of the vault tables\<close>

definition user_ids :: "db \<Rightarrow> string set" where
  "user_ids d = set (map u_id (users d))"

definition tables_ok :: "db \<Rightarrow> bool" where
  "tables_ok d \<longleftrightarrow>
     distinct (map it_id (items d)) \<and> distinct (map version_key (versions d)) \<and>
     (\<forall>r \<in> set (items d). item_check r \<and> item_refs d r) \<and>
     (\<forall>v \<in> set (versions d). \<exists>r \<in> set (items d). it_id r = v_item v)"

lemma insert_user_InrD:
  "insert_user u d = Inr d' \<Longrightarrow> d' = d\<lparr>users := users d @ [u]\<rparr> \<and> user_check u
     \<and> u_id u \<notin> user_ids d \<and> u_norm u \<notin> u_norm ` set (users d)"
  by (auto simp: insert_user_def user_ids_def sql_simps split: if_splits option.splits)

lemma insert_session_InrD:
  "insert_session s d = Inr d' \<Longrightarrow> d' = d\<lparr>sessions := sessions d @ [s]\<rparr>
     \<and> s_user s \<in> user_ids d \<and> s_id s \<notin> s_id ` set (sessions d)
     \<and> s_public s \<notin> s_public ` set (sessions d)"
  by (auto simp: insert_session_def user_ids_def sql_simps split: if_splits option.splits)

lemma insert_item_row_InrD:
  "insert_item_row r d = Inr d' \<Longrightarrow> d' = d\<lparr>items := items d @ [r]\<rparr> \<and> item_check r
     \<and> item_refs d r \<and> it_id r \<notin> it_id ` set (items d)"
  by (auto simp: insert_item_row_def sql_simps split: if_splits option.splits)

lemma insert_version_row_InrD:
  "insert_version_row v d = Inr d' \<Longrightarrow> d' = d\<lparr>versions := versions d @ [v]\<rparr>
     \<and> v_item v \<in> it_id ` set (items d) \<and> version_key v \<notin> version_key ` set (versions d)"
  by (auto simp: insert_version_row_def sql_simps split: if_splits option.splits)

lemma insert_version_row_ok:
  "v_item v \<in> it_id ` set (items d) \<Longrightarrow> 1 \<le> v_rev v \<Longrightarrow> v_pver v \<noteq> 0 \<Longrightarrow>
   version_key v \<notin> version_key ` set (versions d) \<Longrightarrow>
   insert_version_row v d = Inr (d\<lparr>versions := versions d @ [v]\<rparr>)"
  by (auto simp: insert_version_row_def sql_insert_def)

lemma item_refs_cong: "users d = users d' \<Longrightarrow> item_refs d = item_refs d'"
  by (rule ext) (simp add: item_refs_def cong: option.case_cong)

lemma tables_ok_cong:
  "items d' = items d \<Longrightarrow> versions d' = versions d \<Longrightarrow> users d' = users d \<Longrightarrow>
   tables_ok d' = tables_ok d"
  by (simp add: tables_ok_def item_refs_cong[of d' d])

lemma tables_ok_insert_item:
  assumes "tables_ok d" and "insert_item_row r d = Inr d'"
  shows "tables_ok d'"
proof -
  note h = insert_item_row_InrD[OF assms(2)]
  then have "item_refs d' = item_refs d" by (intro item_refs_cong) simp
  with h assms(1) show ?thesis by (auto simp: tables_ok_def)
qed

lemma tables_ok_delete_items:
  assumes "tables_ok d"
  shows "tables_ok (delete_item_rows p d)"
proof -
  let ?d = "delete_item_rows p d"
  have refs: "item_refs ?d = item_refs d"
    by (intro item_refs_cong) (simp add: delete_item_rows_def Let_def)
  have "\<exists>r \<in> set (items ?d). it_id r = v_item v" if v: "v \<in> set (versions ?d)" for v
  proof -
    from v have "v \<in> set (versions d)" and n: "v_item v \<notin> it_id ` {r \<in> set (items d). p r}"
      by (auto simp: delete_item_rows_def Let_def sql_simps)
    with assms obtain r where r: "r \<in> set (items d)" "it_id r = v_item v"
      by (auto simp: tables_ok_def)
    with n have "\<not> p r" by (metis (mono_tags, lifting) imageI mem_Collect_eq)
    with r show ?thesis by (auto simp: delete_item_rows_def Let_def sql_simps)
  qed
  moreover have "\<forall>r \<in> set (items ?d). item_check r \<and> item_refs ?d r"
    using assms unfolding refs by (auto simp: tables_ok_def delete_item_rows_def Let_def sql_simps)
  moreover have "distinct (map it_id (items ?d))" "distinct (map version_key (versions ?d))"
    using assms by (simp_all add: tables_ok_def delete_item_rows_def Let_def distinct_sql_delete)
  ultimately show ?thesis by (simp add: tables_ok_def)
qed

lemma tables_ok_delete_user:
  assumes "tables_ok d"
  shows "tables_ok (delete_user_row uid d)"
proof -
  let ?e = "delete_item_rows (item_of_user uid) d" and ?d = "delete_user_row uid d"
  have e: "tables_ok ?e" by (rule tables_ok_delete_items[OF assms])
  have same: "items ?d = items ?e" "versions ?d = versions ?e"
    by (simp_all add: delete_user_row_def)
  have "item_refs ?d r" if r: "r \<in> set (items ?e)" for r
  proof -
    from r have "\<not> item_of_user uid r" and "r \<in> set (items d)"
      by (auto simp: delete_item_rows_def Let_def sql_simps)
    with assms have "item_refs d r" and n: "it_owner r \<noteq> Some uid" "it_creator r \<noteq> Some uid"
      by (auto simp: tables_ok_def item_of_user_def)
    then show ?thesis
      by (auto simp: item_refs_def delete_user_row_def sql_simps split: option.splits)
  qed
  with e show ?thesis by (simp add: tables_ok_def same)
qed

lemma delete_item_rows_frame [frame_simps]:
  "users (delete_item_rows p d) = users d" "sessions (delete_item_rows p d) = sessions d"
  "audits (delete_item_rows p d) = audits d" "idem (delete_item_rows p d) = idem d"
  "attempts (delete_item_rows p d) = attempts d" "settings (delete_item_rows p d) = settings d"
  "sysstate (delete_item_rows p d) = sysstate d"
  by (simp_all add: delete_item_rows_def Let_def)

end
