(* ===== verification/AuditLog.thy ===== *)
theory AuditLog
  imports Schema
begin

text \<open>
  \<open>internal/audit\<close>: the event allowlist (\<open>events.go\<close>), the validated write that joins the
  caller's transaction and the keyset-paged reads (\<open>service.go\<close>).
\<close>

section \<open>Events\<close>

definition allowlist :: "string list" where
  "allowlist = [''setup.success'', ''setup.failure'', ''auth.login.success'',
    ''auth.login.failure'', ''auth.logout'', ''auth.session.revoked'', ''auth.password.changed'',
    ''user.created'', ''user.disabled'', ''user.enabled'', ''user.deleted'',
    ''user.sessions.revoked'', ''vault.item.created'', ''vault.item.updated'',
    ''vault.item.viewed'', ''vault.item.trashed'', ''vault.item.restored'',
    ''vault.item.purged'', ''vault.item.history_restored'', ''vault.item.moved'',
    ''vault.secret.revealed'', ''vault.secret.copied'', ''transfer.exported'',
    ''transfer.imported'', ''backup.config.updated'', ''backup.run'', ''backup.restore'',
    ''backup.maintenance'', ''database.migration'', ''backup.retention.deleted'']"

abbreviation Anonymous :: string where "Anonymous \<equiv> ''anonymous''"

record event =
  ev_name :: string
  ev_actor :: string
  ev_ttype :: string
  ev_tid :: string
  ev_result :: string
  ev_source :: string
  ev_source_scope :: string
  ev_target_scope :: string
  ev_req :: string

definition mk_event :: "string \<Rightarrow> string \<Rightarrow> string \<Rightarrow> string \<Rightarrow> string \<Rightarrow> event" where
  "mk_event name actor ttype tid res =
    \<lparr>ev_name = name, ev_actor = actor, ev_ttype = ttype, ev_tid = tid, ev_result = res,
     ev_source = '''', ev_source_scope = '''', ev_target_scope = '''', ev_req = ''''\<rparr>"

definition ValidEventName :: "string \<Rightarrow> bool" where
  "ValidEventName name \<longleftrightarrow> name \<in> set allowlist"

datatype audit_error = ErrEventNotAllowed | ErrFieldTooLong | ErrInvalidResult
  | ErrAuditInvalidScope | AuditFault | AuditConstraint constraint_error

section \<open>Recording\<close>

text \<open>
  The service's clock, id generator and injected fault, and the correlation id that the
  context carries, are the fields of \<open>audit_env\<close>: \<open>au_ids\<close> is the stream of fresh ids, and an
  id is a function of how many events there are.
\<close>

record audit_env =
  au_fault :: bool
  au_now :: time
  au_id :: "nat \<Rightarrow> string"
  au_req :: string

definition nullableString :: "string \<Rightarrow> string option" where
  "nullableString v = (if v = '''' then None else Some v)"

definition event_error :: "event \<Rightarrow> audit_error option" where
  "event_error e =
    (if \<not> ValidEventName (ev_name e) then Some ErrEventNotAllowed
     else if ev_result e \<noteq> ''success'' \<and> ev_result e \<noteq> ''failure'' then Some ErrInvalidResult
     else if 64 < length (ev_name e) \<or> 32 < length (ev_ttype e) \<or> 64 < length (ev_tid e)
             \<or> 64 < length (ev_actor e) \<or> 64 < length (ev_source e) then Some ErrFieldTooLong
     else if ev_source_scope e \<noteq> '''' \<and> ev_source_scope e \<noteq> ''personal''
             \<and> ev_source_scope e \<noteq> ''shared'' then Some ErrAuditInvalidScope
     else if ev_target_scope e \<noteq> '''' \<and> ev_target_scope e \<noteq> ''personal''
             \<and> ev_target_scope e \<noteq> ''shared'' then Some ErrAuditInvalidScope
     else None)"

definition event_row :: "audit_env \<Rightarrow> string \<Rightarrow> event \<Rightarrow> audit_row" where
  "event_row E rid e =
    \<lparr>e_id = rid, e_event = ev_name e,
     e_actor = (if ev_actor e = '''' then Anonymous else ev_actor e),
     e_ttype = ev_ttype e, e_tid = ev_tid e, e_result = ev_result e,
     e_req = (if ev_req e = '''' then au_req E else ev_req e), e_created = au_now E,
     e_source = nullableString (ev_source e),
     e_source_scope = nullableString (ev_source_scope e),
     e_target_scope = nullableString (ev_target_scope e)\<rparr>"

definition Record :: "audit_env \<Rightarrow> event \<Rightarrow> db \<Rightarrow> audit_error + db" where
  "Record E e d =
    (if au_fault E then Inl AuditFault
     else case event_error e of Some err \<Rightarrow> Inl err
     | None \<Rightarrow>
        (case sql_insert e_id (event_row E (au_id E (length (audits d))) e) (audits d) of
           None \<Rightarrow> Inl (AuditConstraint UniqueViolation)
         | Some t \<Rightarrow> Inr (d\<lparr>audits := t\<rparr>)))"

lemma Record_InrD:
  "Record E e d = Inr d' \<Longrightarrow>
     d' = d\<lparr>audits := audits d @ [event_row E (au_id E (length (audits d))) e]\<rparr>
     \<and> event_error e = None \<and> \<not> au_fault E"
  by (auto simp: Record_def sql_simps split: if_splits option.splits)

lemma Record_frame [frame_simps]:
  assumes "Record E e d = Inr d'"
  shows "users d' = users d" "sessions d' = sessions d" "items d' = items d"
    "versions d' = versions d" "idem d' = idem d" "attempts d' = attempts d"
    "settings d' = settings d" "sysstate d' = sysstate d"
  using Record_InrD[OF assms] by simp_all

lemma Record_tables_ok: "Record E e d = Inr d' \<Longrightarrow> tables_ok d \<Longrightarrow> tables_ok d'"
  by (subst tables_ok_cong[of d' d]) (auto dest: Record_frame)

lemma event_row_fields:
  "e_event (event_row E i e) = ev_name e" "e_tid (event_row E i e) = ev_tid e"
  "e_result (event_row E i e) = ev_result e"
  by (simp_all add: event_row_def)

text \<open>
  The invariant of the audit table: allowlisted names, results in the CHECK domain, bounded
  fields, a resolved or anonymous actor, distinct ids.
\<close>

definition audit_row_ok :: "audit_row \<Rightarrow> bool" where
  "audit_row_ok r \<longleftrightarrow> e_event r \<in> set allowlist \<and> e_result r \<in> {''success'', ''failure''} \<and>
     length (e_tid r) \<le> 64 \<and> length (e_actor r) \<le> 64 \<and> e_actor r \<noteq> '''' \<and>
     length (e_ttype r) \<le> 32"

definition audit_ok :: "db \<Rightarrow> bool" where
  "audit_ok d \<longleftrightarrow> distinct (map e_id (audits d)) \<and> (\<forall>r \<in> set (audits d). audit_row_ok r)"

text \<open>A successful audit write appends exactly one row, stamped with the event, and keeps
  the audit table valid; every other table is untouched.  A write that is refused (unknown
  event name, bad result, oversized field, injected fault, duplicate id) yields no database.\<close>

theorem Record_appends_valid_row:
  assumes "audit_ok d" and "Record E e d = Inr d'"
  shows "audit_ok d' \<and> (\<exists>r. d' = d\<lparr>audits := audits d @ [r]\<rparr> \<and> e_event r = ev_name e
     \<and> e_created r = au_now E \<and> e_actor r = (if ev_actor e = '''' then Anonymous else ev_actor e))"
proof -
  let ?r = "event_row E (au_id E (length (audits d))) e"
  from Record_InrD[OF assms(2)] have d': "d' = d\<lparr>audits := audits d @ [?r]\<rparr>"
    and ok: "event_error e = None" by auto
  from assms(2) have fresh: "e_id ?r \<notin> e_id ` set (audits d)"
    by (auto simp: Record_def sql_simps split: if_splits option.splits)
  have "audit_row_ok ?r"
    using ok by (auto simp: event_error_def audit_row_ok_def event_row_def ValidEventName_def
        split: if_splits)
  with assms(1) fresh have "audit_ok d'" by (auto simp: audit_ok_def d')
  with d' show ?thesis by (auto simp: event_row_def)
qed

definition sample_env :: audit_env where
  "sample_env = \<lparr>au_fault = False, au_now = 5, au_id = (\<lambda>n. replicate n (CHR ''x'')), au_req = ''r''\<rparr>"

theorem Record_appends_valid_row_witness:
  "audit_ok empty_db \<and> (\<exists>d'. Record sample_env (mk_event ''user.created'' ''u1'' ''user'' ''u2'' ''success'') empty_db
      = Inr d' \<and> audit_ok d')"
proof -
  have "audit_ok empty_db" by (simp add: audit_ok_def empty_db_def)
  moreover obtain d' where "Record sample_env (mk_event ''user.created'' ''u1'' ''user'' ''u2'' ''success'') empty_db = Inr d'"
    by (simp add: Record_def sample_env_def event_error_def mk_event_def ValidEventName_def
        allowlist_def empty_db_def sql_insert_def)
  ultimately show ?thesis using Record_appends_valid_row by blast
qed

section \<open>Reading\<close>

definition audit_pos :: "audit_row \<Rightarrow> time \<times> string" where
  "audit_pos r = (e_created r, e_id r)"

record audit_filter =
  af_actor :: "string option"
  af_event :: string
  af_result :: string
  af_from :: "time option"
  af_to :: "time option"

definition audit_sel :: "audit_filter \<Rightarrow> audit_row \<Rightarrow> bool" where
  "audit_sel f r \<longleftrightarrow>
     (case af_actor f of None \<Rightarrow> True | Some a \<Rightarrow> e_actor r = a) \<and>
     (af_event f = '''' \<or> e_event r = af_event f) \<and>
     (af_result f = '''' \<or> e_result r = af_result f) \<and>
     (case af_from f of None \<Rightarrow> True | Some t \<Rightarrow> t \<le> e_created r) \<and>
     (case af_to f of None \<Rightarrow> True | Some t \<Rightarrow> e_created r \<le> t)"

definition audit_query ::
  "audit_filter \<Rightarrow> (time \<times> string) option \<Rightarrow> nat \<Rightarrow> db \<Rightarrow> audit_row list \<times> (time \<times> string) option" where
  "audit_query f before limit d =
     page_and_next audit_pos limit (keyset_page audit_pos (audit_sel f) before (Suc limit) (audits d))"

definition Activity ::
  "string \<Rightarrow> (time \<times> string) option \<Rightarrow> nat \<Rightarrow> db \<Rightarrow> audit_row list \<times> (time \<times> string) option" where
  "Activity actor before limit d =
     audit_query \<lparr>af_actor = Some actor, af_event = '''', af_result = '''', af_from = None,
       af_to = None\<rparr> before limit d"

definition SystemInRange ::
  "string \<Rightarrow> string \<Rightarrow> time option \<Rightarrow> time option \<Rightarrow> (time \<times> string) option \<Rightarrow> nat \<Rightarrow> db \<Rightarrow>
   audit_row list \<times> (time \<times> string) option" where
  "SystemInRange ev res lo hi before limit d =
     audit_query \<lparr>af_actor = None, af_event = ev, af_result = res, af_from = lo, af_to = hi\<rparr>
       before limit d"

interpretation audit_pages: keyset_listing audit_pos audit_sel
  "\<lambda>f before limit t. keyset_page audit_pos (audit_sel f) before limit t"
  by (rule keyset_listing_page)

lemma audit_pos_distinct: "audit_ok d \<Longrightarrow> distinct (map audit_pos (audits d))"
  by (simp add: audit_ok_def audit_pos_def distinct_map inj_on_def)

definition sample_log :: db where
  "sample_log = empty_db\<lparr>audits :=
     [event_row sample_env ''a'' (mk_event ''auth.logout'' ''u1'' ''session'' ''s1'' ''success''),
      event_row sample_env ''b'' (mk_event ''auth.logout'' ''u2'' ''session'' ''s2'' ''success'')]\<rparr>"

definition every_event :: audit_filter where
  "every_event = \<lparr>af_actor = None, af_event = '''', af_result = '''', af_from = None, af_to = None\<rparr>"

lemma sample_log_ok: "audit_ok sample_log"
  by (simp add: audit_ok_def sample_log_def audit_row_ok_def event_row_def mk_event_def
      sample_env_def allowlist_def)

text \<open>following the returned positions page by page lists every matching audit event
  exactly once, newest first, for every page size; no event is skipped or repeated at a page
  boundary.  The number of requests a client needs is bounded by the number of rows.\<close>

theorem audit_paging_complete:
  assumes "audit_ok d" and "0 < limit" and "length (audits d) < k"
  shows "read_pages k (\<lambda>before. audit_query f before limit d) None
     = filter (audit_sel f) (newest_first audit_pos (audits d))"
  unfolding audit_query_def
  by (rule audit_pages.read_pages_all[OF audit_pos_distinct[OF assms(1)] assms(2,3)])

theorem audit_paging_complete_witness:
  "read_pages 3 (\<lambda>before. audit_query every_event before 1 sample_log) None
     = filter (audit_sel every_event) (newest_first audit_pos (audits sample_log))"
  by (rule audit_paging_complete[OF sample_log_ok]) (simp_all add: sample_log_def)

text \<open>A member's activity page holds only events of that member.\<close>

theorem Activity_own_events:
  assumes "r \<in> set (fst (Activity actor before limit d))"
  shows "e_actor r = actor \<and> r \<in> set (audits d)"
proof -
  let ?f = "\<lparr>af_actor = Some actor, af_event = '''', af_result = '''', af_from = None, af_to = None\<rparr>"
  have "r \<in> set (keyset_page audit_pos (audit_sel ?f) before (Suc limit) (audits d))"
    using assms by (auto simp: Activity_def audit_query_def page_and_next_def
        split: if_splits dest: in_set_takeD)
  then show ?thesis by (auto dest: audit_pages.page_sound simp: audit_sel_def)
qed

theorem Activity_own_events_witness:
  "\<exists>r. r \<in> set (fst (Activity ''u1'' None 5 sample_log)) \<and> e_actor r = ''u1''"
proof -
  let ?r = "event_row sample_env ''a'' (mk_event ''auth.logout'' ''u1'' ''session'' ''s1'' ''success'')"
  have "?r \<in> set (fst (Activity ''u1'' None 5 sample_log))"
    by (simp add: Activity_def audit_query_def page_and_next_def keyset_page_def newest_first_def
        sample_log_def empty_db_def audit_sel_def event_row_def mk_event_def sample_env_def)
  with Activity_own_events[OF this] show ?thesis by blast
qed

end
