(* ===== verification/Crypto.thy ===== *)
theory Crypto
  imports GoText
begin

text \<open>
  \<open>internal/platform/crypto\<close>: the additional authenticated data of a payload
  (\<open>aad.go\<close>) and the versioned payload encryption (\<open>payload.go\<close>).  The AEAD itself
  (XChaCha20-Poly1305 of \<open>golang.org/x/crypto\<close>) is third-party code and therefore a parameter
  of the model: a record with the two operations \<open>seal\<close> and \<open>aead_open\<close>.  The random nonce is an
  argument of \<open>Encrypt\<close>.
\<close>

section \<open>Little- and big-endian integers\<close>

fun le_bytes :: "nat \<Rightarrow> nat \<Rightarrow> bytes" where
  "le_bytes 0 v = []"
| "le_bytes (Suc n) v = of_nat (v mod 256) # le_bytes n (v div 256)"

fun le_value :: "bytes \<Rightarrow> nat" where
  "le_value [] = 0"
| "le_value (b # bs) = unat b + 256 * le_value bs"

definition be_bytes :: "nat \<Rightarrow> nat \<Rightarrow> bytes" where
  "be_bytes n v = rev (le_bytes n v)"

lemma length_le_bytes [simp, codec_simps]: "length (le_bytes n v) = n"
  by (induction n arbitrary: v) auto

lemma length_be_bytes [simp, codec_simps]: "length (be_bytes n v) = n"
  by (simp add: be_bytes_def)

lemma unat_of_nat_byte: "unat (of_nat (v mod 256) :: 8 word) = v mod 256"
  by (simp add: unat_of_nat take_bit_eq_mod)

lemma le_value_le_bytes [codec_simps]: "le_value (le_bytes n v) = v mod 256 ^ n"
proof (induction n arbitrary: v)
  case 0
  then show ?case by simp
next
  case (Suc n)
  have "v mod (256 * 256 ^ n) = v mod 256 + 256 * (v div 256 mod 256 ^ n)"
    by (simp add: mod_mult2_eq algebra_simps)
  then show ?case using Suc by (simp add: unat_of_nat_byte del: of_nat_mod)
qed

lemma le_bytes_inject: "x < 256 ^ n \<Longrightarrow> y < 256 ^ n \<Longrightarrow> le_bytes n x = le_bytes n y \<longleftrightarrow> x = y"
  by (metis le_value_le_bytes mod_less)

section \<open>Prefix codes\<close>

text \<open>
  The binary formats of the program concatenate fields.  A field encoding is safe to
  concatenate when the encoded field determines where it ends.
\<close>

locale prefix_code =
  fixes enc :: "'a \<Rightarrow> 'b list" and valid :: "'a \<Rightarrow> bool"
  assumes enc_split: "valid x \<Longrightarrow> valid y \<Longrightarrow> enc x @ r = enc y @ s \<Longrightarrow> x = y \<and> r = s"
    and enc_nonempty: "enc x \<noteq> []"
begin

lemma enc_inject: "valid x \<Longrightarrow> valid y \<Longrightarrow> enc x = enc y \<Longrightarrow> x = y"
  using enc_split[of x y "[]" "[]"] by simp

lemma concat_inject:
  "\<forall>x \<in> set xs. valid x \<Longrightarrow> \<forall>y \<in> set ys. valid y \<Longrightarrow>
   concat (map enc xs) = concat (map enc ys) \<Longrightarrow> xs = ys"
proof (induction xs arbitrary: ys)
  case Nil
  then show ?case using enc_nonempty by (cases ys) auto
next
  case (Cons x xs)
  show ?case
  proof (cases ys)
    case Nil
    with Cons.prems(3) enc_nonempty show ?thesis by simp
  next
    case (Cons y ys')
    from Cons.prems Cons have "x = y \<and> concat (map enc xs) = concat (map enc ys')"
      by (intro enc_split) auto
    with Cons.IH[of ys'] Cons.prems Cons show ?thesis by simp
  qed
qed

end

lemma append_eq_len: "length a = length b \<Longrightarrow> a @ r = b @ s \<longleftrightarrow> a = b \<and> r = s"
  by auto

section \<open>AAD\<close>

record AAD =
  ItemID :: string
  Scope :: string
  SubjectID :: string
  PayloadVersionOf :: "16 word"
  RevisionOf :: "64 word"

definition aadDomain :: bytes where
  "aadDomain = bytes_of ''tiny-password/vault-payload/aad/v1''"

text \<open>A length-prefixed field: \<open>PutUint32\<close> of \<open>uint32(len(field))\<close>, then the field.\<close>

definition aad_field :: "string \<Rightarrow> bytes" where
  "aad_field f = le_bytes 4 (length f mod 2 ^ 32) @ bytes_of f"

definition aad_encode :: "AAD \<Rightarrow> bytes" where
  "aad_encode a = aadDomain @ concat (map aad_field [ItemID a, Scope a, SubjectID a])
     @ le_bytes 2 (unat (PayloadVersionOf a)) @ le_bytes 8 (unat (RevisionOf a))"

definition short_field :: "string \<Rightarrow> bool" where
  "short_field f \<longleftrightarrow> length f < 2 ^ 32"

interpretation aad: prefix_code aad_field short_field
proof
  fix x y r s
  assume "short_field x" "short_field y" and eq: "aad_field x @ r = aad_field y @ s"
  then have len: "length x < 256 ^ 4" "length y < 256 ^ 4" by (simp_all add: short_field_def)
  from eq have "le_bytes 4 (length x) @ bytes_of x @ r = le_bytes 4 (length y) @ bytes_of y @ s"
    using len by (simp add: aad_field_def)
  then have "le_bytes 4 (length x) = le_bytes 4 (length y)" and *: "bytes_of x @ r = bytes_of y @ s"
    by (simp_all add: append_eq_len)
  then have "length x = length y" using le_bytes_inject[OF len] by simp
  with * show "x = y \<and> r = s" by (simp add: append_eq_len)
next
  fix x
  have "length (aad_field x) = 4 + length x" by (simp add: aad_field_def)
  then show "aad_field x \<noteq> []" by auto
qed

definition AAD_ok :: "AAD \<Rightarrow> bool" where
  "AAD_ok a \<longleftrightarrow> short_field (ItemID a) \<and> short_field (Scope a) \<and> short_field (SubjectID a)"

lemma unat_lt_16: "unat (x :: 16 word) < 256 ^ 2"
  using unsigned_less[of x] by simp

lemma unat_lt_64: "unat (x :: 64 word) < 256 ^ 8"
  using unsigned_less[of x] by simp

lemma aad_encode_inject:
  assumes "AAD_ok a" and "AAD_ok b" and "aad_encode a = aad_encode b"
  shows "a = b"
proof -
  from assms(3) have
    "aad_field (ItemID a) @ aad_field (Scope a) @ aad_field (SubjectID a)
       @ le_bytes 2 (unat (PayloadVersionOf a)) @ le_bytes 8 (unat (RevisionOf a))
     = aad_field (ItemID b) @ aad_field (Scope b) @ aad_field (SubjectID b)
       @ le_bytes 2 (unat (PayloadVersionOf b)) @ le_bytes 8 (unat (RevisionOf b))"
    by (simp add: aad_encode_def)
  then have f: "ItemID a = ItemID b \<and> Scope a = Scope b \<and> SubjectID a = SubjectID b"
    and "le_bytes 2 (unat (PayloadVersionOf a)) @ le_bytes 8 (unat (RevisionOf a)) =
         le_bytes 2 (unat (PayloadVersionOf b)) @ le_bytes 8 (unat (RevisionOf b))"
    using assms(1,2) by (auto simp: AAD_ok_def dest!: aad.enc_split[rotated 2])
  then have "le_bytes 2 (unat (PayloadVersionOf a)) = le_bytes 2 (unat (PayloadVersionOf b))"
    and "le_bytes 8 (unat (RevisionOf a)) = le_bytes 8 (unat (RevisionOf b))"
    by (simp_all add: append_eq_len)
  then have "unat (PayloadVersionOf a) = unat (PayloadVersionOf b)"
    and "unat (RevisionOf a) = unat (RevisionOf b)"
    using le_bytes_inject unat_lt_16 unat_lt_64 by blast+
  with f show ?thesis
    by (intro AAD.equality) (auto intro: unsigned_word_eqI)
qed

datatype aad_error = AadItemIdRequired | AadPersonalOwnerRequired | AadSharedCreatorRequired
  | AadUnknownScope | AadPayloadVersionRequired | AadRevisionRequired

definition ValidateAAD :: "AAD \<Rightarrow> aad_error + unit" where
  "ValidateAAD a =
    (if ItemID a = '''' then Inl AadItemIdRequired
     else if Scope a = ''personal'' \<and> SubjectID a = '''' then Inl AadPersonalOwnerRequired
     else if Scope a = ''shared'' \<and> SubjectID a = '''' then Inl AadSharedCreatorRequired
     else if Scope a \<noteq> ''personal'' \<and> Scope a \<noteq> ''shared'' then Inl AadUnknownScope
     else if PayloadVersionOf a = 0 then Inl AadPayloadVersionRequired
     else if RevisionOf a = 0 then Inl AadRevisionRequired
     else Inr ())"

section \<open>Payload encryption\<close>

text \<open>
  The AEAD: \<open>seal key nonce plaintext aad\<close> and \<open>aead_open key nonce ciphertext aad\<close>, which
  authenticates.
\<close>

record aead =
  seal :: "bytes \<Rightarrow> bytes \<Rightarrow> bytes \<Rightarrow> bytes \<Rightarrow> bytes"
  aead_open :: "bytes \<Rightarrow> bytes \<Rightarrow> bytes \<Rightarrow> bytes \<Rightarrow> bytes option"

text \<open>
  The documented behaviour of an AEAD that the code relies on: opening what was sealed gives
  the plaintext back, the tag makes the ciphertext 16 bytes longer, and a ciphertext that
  was sealed under one nonce and one AAD does not open under another.
\<close>

definition aead_opens :: "aead \<Rightarrow> bool" where
  "aead_opens A \<longleftrightarrow> (\<forall>k n p a. aead_open A k n (seal A k n p a) a = Some p)"

definition aead_tagged :: "aead \<Rightarrow> bool" where
  "aead_tagged A \<longleftrightarrow> (\<forall>k n p a. length (seal A k n p a) = length p + 16)"

definition aead_authentic :: "aead \<Rightarrow> bool" where
  "aead_authentic A \<longleftrightarrow>
     (\<forall>k n p a n' a' q. aead_open A k n' (seal A k n p a) a' = Some q \<longrightarrow> n' = n \<and> a' = a)"

definition PayloadVersion :: "16 word" where
  "PayloadVersion = 1"

definition keySize :: nat where "keySize = 32"
definition nonceSize :: nat where "nonceSize = 24"

definition NewMasterKey :: "bytes \<Rightarrow> bytes option" where
  "NewMasterKey raw = (if length raw \<noteq> keySize then None else Some raw)"

record encrypted_payload =
  ep_version :: "16 word"
  ep_nonce :: bytes
  ep_ciphertext :: bytes

definition ep_encode :: "encrypted_payload \<Rightarrow> bytes" where
  "ep_encode p = le_bytes 2 (unat (ep_version p)) @ ep_nonce p @ ep_ciphertext p"

datatype crypto_error = PayloadTooShort | UnsupportedPayloadVersion
  | PayloadAuthenticationFailed | NonceLength

definition DecodeEncryptedPayload :: "bytes \<Rightarrow> crypto_error + encrypted_payload" where
  "DecodeEncryptedPayload blob =
    (if length blob < 2 + nonceSize + 16 then Inl PayloadTooShort
     else let v = of_nat (le_value (take 2 blob)) :: 16 word in
       if v \<noteq> PayloadVersion then Inl UnsupportedPayloadVersion
       else Inr \<lparr>ep_version = v, ep_nonce = take nonceSize (drop 2 blob),
                 ep_ciphertext = drop (2 + nonceSize) blob\<rparr>)"

definition Encrypt :: "aead \<Rightarrow> bytes \<Rightarrow> bytes \<Rightarrow> bytes \<Rightarrow> AAD \<Rightarrow> encrypted_payload" where
  "Encrypt A key nonce plaintext aad =
     \<lparr>ep_version = PayloadVersion, ep_nonce = nonce,
      ep_ciphertext = seal A key nonce plaintext (aad_encode aad)\<rparr>"

definition Decrypt :: "aead \<Rightarrow> bytes \<Rightarrow> encrypted_payload \<Rightarrow> AAD \<Rightarrow> crypto_error + bytes" where
  "Decrypt A key p aad =
    (if ep_version p \<noteq> PayloadVersion then Inl UnsupportedPayloadVersion
     else case aead_open A key (ep_nonce p) (ep_ciphertext p) (aad_encode aad) of
            None \<Rightarrow> Inl PayloadAuthenticationFailed
          | Some plaintext \<Rightarrow> Inr plaintext)"

definition EncryptEncoded :: "aead \<Rightarrow> bytes \<Rightarrow> bytes \<Rightarrow> bytes \<Rightarrow> AAD \<Rightarrow> bytes" where
  "EncryptEncoded A key nonce plaintext aad = ep_encode (Encrypt A key nonce plaintext aad)"

definition DecryptEncoded :: "aead \<Rightarrow> bytes \<Rightarrow> bytes \<Rightarrow> AAD \<Rightarrow> crypto_error + bytes" where
  "DecryptEncoded A key blob aad =
    (case DecodeEncryptedPayload blob of Inl e \<Rightarrow> Inl e | Inr p \<Rightarrow> Decrypt A key p aad)"

definition DecryptColumns ::
  "aead \<Rightarrow> bytes \<Rightarrow> 16 word \<Rightarrow> bytes \<Rightarrow> bytes \<Rightarrow> AAD \<Rightarrow> crypto_error + bytes" where
  "DecryptColumns A key version nonce ciphertext aad =
    (if length nonce \<noteq> nonceSize then Inl NonceLength
     else Decrypt A key \<lparr>ep_version = version, ep_nonce = nonce, ep_ciphertext = ciphertext\<rparr> aad)"

lemma Decrypt_Encrypt:
  "aead_opens A \<Longrightarrow> Decrypt A key (Encrypt A key nonce p aad) aad = Inr p"
  by (simp add: Decrypt_def Encrypt_def aead_opens_def)

lemma DecryptColumns_Encrypt:
  assumes "aead_opens A" and "length nonce = nonceSize"
  shows "DecryptColumns A key (ep_version (Encrypt A key nonce p aad))
     (ep_nonce (Encrypt A key nonce p aad)) (ep_ciphertext (Encrypt A key nonce p aad)) aad = Inr p"
  using assms by (simp add: DecryptColumns_def Decrypt_def Encrypt_def aead_opens_def)

lemma DecodeEncryptedPayload_encode:
  assumes "length (ep_nonce p) = nonceSize" and "16 \<le> length (ep_ciphertext p)"
    and "ep_version p = PayloadVersion"
  shows "DecodeEncryptedPayload (ep_encode p) = Inr p"
proof -
  have "of_nat (le_value (le_bytes 2 (unat (ep_version p)))) = ep_version p"
    using unat_lt_16[of "ep_version p"] by (simp add: le_value_le_bytes)
  then show ?thesis
    using assms by (simp add: DecodeEncryptedPayload_def ep_encode_def nonceSize_def)
qed

text \<open>the stored blob form round-trips: decrypting the encoded encryption of a payload
  under the same key and AAD gives the payload back, for any AEAD that opens what it seals
  and appends a 16-byte tag, and any 24-byte nonce.\<close>

theorem encoded_roundtrip:
  assumes "aead_opens A" and "aead_tagged A" and "length nonce = nonceSize"
  shows "DecryptEncoded A key (EncryptEncoded A key nonce p aad) aad = Inr p"
proof -
  have "DecodeEncryptedPayload (ep_encode (Encrypt A key nonce p aad)) = Inr (Encrypt A key nonce p aad)"
    using assms by (intro DecodeEncryptedPayload_encode) (auto simp: Encrypt_def aead_tagged_def)
  then show ?thesis
    using assms(1) by (simp add: DecryptEncoded_def EncryptEncoded_def Decrypt_Encrypt)
qed

text \<open>
  A concrete AEAD with the documented behaviour, for the witnesses: the ciphertext carries
  the nonce and the AAD length-prefixed in unary, and 16 tag bytes.
\<close>

definition unary_field :: "bytes \<Rightarrow> bytes" where
  "unary_field f = concat (map (\<lambda>b. [1, b]) f) @ [0]"

fun strip_field :: "bytes \<Rightarrow> bytes \<Rightarrow> bytes option" where
  "strip_field [] (b # bs) = (if b = 0 then Some bs else None)"
| "strip_field (f # fs) (b # c # bs) = (if b = 1 \<and> c = f then strip_field fs bs else None)"
| "strip_field _ _ = None"

definition toy_seal :: "bytes \<Rightarrow> bytes \<Rightarrow> bytes \<Rightarrow> bytes \<Rightarrow> bytes" where
  "toy_seal k n p a = unary_field n @ unary_field a @ p @ replicate 16 7"

definition toy_open :: "bytes \<Rightarrow> bytes \<Rightarrow> bytes \<Rightarrow> bytes \<Rightarrow> bytes option" where
  "toy_open k n c a =
    (case strip_field n c of None \<Rightarrow> None
     | Some c1 \<Rightarrow> (case strip_field a c1 of None \<Rightarrow> None
        | Some c2 \<Rightarrow> if length c2 < 16 then None else Some (take (length c2 - 16) c2)))"

definition toy_aead :: aead where
  "toy_aead = \<lparr>seal = toy_seal, aead_open = toy_open\<rparr>"

lemma strip_unary [simp]: "strip_field f (unary_field f @ r) = Some r"
  by (induction f) (auto simp: unary_field_def)

lemma strip_unary_eq: "strip_field f' (unary_field f @ r) = Some r' \<Longrightarrow> f' = f \<and> r' = r"
proof (induction f arbitrary: f')
  case Nil
  then show ?case by (cases f'; cases r) (auto simp: unary_field_def split: if_splits)
next
  case (Cons x f)
  then show ?case by (cases f') (auto simp: unary_field_def split: if_splits)
qed

lemma toy_opens: "aead_opens toy_aead"
  by (simp add: aead_opens_def toy_aead_def toy_seal_def toy_open_def)

lemma toy_authentic: "aead_authentic toy_aead"
  by (auto simp: aead_authentic_def toy_aead_def toy_seal_def toy_open_def
      split: option.splits if_splits dest!: strip_unary_eq)

text \<open>A tagged variant that keeps the length law: the AAD and nonce are not stored.\<close>

definition tag_aead :: aead where
  "tag_aead = \<lparr>seal = (\<lambda>k n p a. p @ replicate 16 7),
     aead_open = (\<lambda>k n c a. if length c < 16 then None else Some (take (length c - 16) c))\<rparr>"

lemma tag_aead_laws: "aead_opens tag_aead" "aead_tagged tag_aead"
  by (simp_all add: aead_opens_def aead_tagged_def tag_aead_def)

definition sample_aad :: AAD where
  "sample_aad = \<lparr>ItemID = ''item-1'', Scope = ''personal'', SubjectID = ''u1'',
     PayloadVersionOf = 1, RevisionOf = 3\<rparr>"

theorem encoded_roundtrip_witness:
  "DecryptEncoded tag_aead (replicate 32 1)
     (EncryptEncoded tag_aead (replicate 32 1) (replicate 24 9) [104, 105] sample_aad) sample_aad
   = Inr [104, 105]"
  by (rule encoded_roundtrip[OF tag_aead_laws]) (simp add: nonceSize_def)

text \<open>a payload is bound to its row.  A ciphertext sealed for one item, scope, subject,
  version and revision does not decrypt under the AAD of any other combination (no relocation
  between rows or history versions), because the length-prefixed AAD encoding is injective.\<close>

theorem payload_bound_to_row:
  assumes "aead_authentic A" and "AAD_ok a" and "AAD_ok b"
    and "DecryptColumns A key v n (ep_ciphertext (Encrypt A key nonce p a)) b = Inr q"
  shows "b = a \<and> n = nonce \<and> v = PayloadVersion"
proof -
  from assms(4) have o: "aead_open A key n (seal A key nonce p (aad_encode a)) (aad_encode b) = Some q"
    and v: "v = PayloadVersion"
    by (auto simp: DecryptColumns_def Decrypt_def Encrypt_def split: if_splits option.splits)
  from o assms(1) have "n = nonce" and "aad_encode b = aad_encode a"
    unfolding aead_authentic_def by blast+
  with v assms(2,3) show ?thesis by (auto dest: aad_encode_inject)
qed

theorem payload_bound_to_row_witness:
  "(sample_aad :: AAD) = sample_aad \<and> replicate 24 (9 :: 8 word) = replicate 24 9
    \<and> (1 :: 16 word) = PayloadVersion"
proof (rule payload_bound_to_row[OF toy_authentic, of sample_aad sample_aad])
  show "AAD_ok sample_aad" "AAD_ok sample_aad"
    by (simp_all add: AAD_ok_def sample_aad_def short_field_def)
  show "DecryptColumns toy_aead (replicate 32 1) 1 (replicate 24 9)
     (ep_ciphertext (Encrypt toy_aead (replicate 32 1) (replicate 24 9) [104] sample_aad)) sample_aad
     = Inr [104]"
    using DecryptColumns_Encrypt[OF toy_opens, of "replicate 24 9" "replicate 32 1" "[104]" sample_aad]
    by (simp add: Encrypt_def PayloadVersion_def nonceSize_def)
qed

lemma ValidateAAD_iff:
  "ValidateAAD a = Inr () \<longleftrightarrow> ItemID a \<noteq> '''' \<and> Scope a \<in> {''personal'', ''shared''} \<and>
     SubjectID a \<noteq> '''' \<and> PayloadVersionOf a \<noteq> 0 \<and> RevisionOf a \<noteq> 0"
  by (auto simp: ValidateAAD_def)

end
