(* ===== verification/Idempotency.thy ===== *)
theory Idempotency
  imports Schema Crypto
begin

text \<open>
  \<open>internal/idempotency/service.go\<close>: a claim on scope and key is recorded before the business
  change, completed inside the same transaction as the change, and replayed afterwards.  The
  functions work on the rows of \<open>idempotency_keys\<close>.
\<close>

section \<open>Fingerprints\<close>

definition hexdigits :: string where "hexdigits = ''0123456789abcdef''"

definition hex_encode :: "bytes \<Rightarrow> string" where
  "hex_encode bs = concat (map (\<lambda>b. [hexdigits ! (unat b div 16), hexdigits ! (unat b mod 16)]) bs)"

definition fp_field :: "string \<Rightarrow> bytes" where
  "fp_field f = be_bytes 8 (length f mod 2 ^ 64) @ bytes_of f"

definition fp_input :: "string list \<Rightarrow> bytes" where
  "fp_input fs = concat (map fp_field fs)"

text \<open>HMAC-SHA256 is a parameter: \<open>hmac key message\<close>.\<close>

definition Fingerprint :: "(bytes \<Rightarrow> bytes \<Rightarrow> bytes) \<Rightarrow> bytes \<Rightarrow> string list \<Rightarrow> string" where
  "Fingerprint hmac macKey fs = hex_encode (hmac macKey (fp_input fs))"

definition fp_valid :: "string \<Rightarrow> bool" where
  "fp_valid f \<longleftrightarrow> length f < 2 ^ 64"

interpretation fp: prefix_code fp_field fp_valid
proof
  fix x y r s
  assume "fp_valid x" "fp_valid y" and eq: "fp_field x @ r = fp_field y @ s"
  then have len: "length x < 256 ^ 8" "length y < 256 ^ 8" by (simp_all add: fp_valid_def)
  from eq len have "be_bytes 8 (length x) @ bytes_of x @ r = be_bytes 8 (length y) @ bytes_of y @ s"
    by (simp add: fp_field_def)
  then have "be_bytes 8 (length x) = be_bytes 8 (length y)" and *: "bytes_of x @ r = bytes_of y @ s"
    by (simp_all add: append_eq_len)
  then have "length x = length y" using le_bytes_inject[OF len] by (simp add: be_bytes_def)
  with * show "x = y \<and> r = s" by (simp add: append_eq_len)
next
  fix x
  have "length (fp_field x) = 8 + length x" by (simp add: fp_field_def)
  then show "fp_field x \<noteq> []" by auto
qed

text \<open>The byte string under the fingerprint MAC determines the field list: no two different
  requests (other values, other field boundaries, another number of fields) feed the MAC the
  same input.\<close>

theorem fingerprint_input_injective:
  assumes "\<forall>f \<in> set xs. fp_valid f" and "\<forall>f \<in> set ys. fp_valid f"
    and "fp_input xs = fp_input ys"
  shows "xs = ys"
  using fp.concat_inject[OF assms(1,2)] assms(3) by (simp add: fp_input_def)

theorem fingerprint_input_injective_witness:
  "fp_input [''ab'', ''c''] \<noteq> fp_input [''a'', ''bc'']"
  using fingerprint_input_injective[of "[''ab'', ''c'']" "[''a'', ''bc'']"]
  by (auto simp: fp_valid_def)

section \<open>Claims\<close>

datatype outcome = OutcomeFresh | OutcomeReplay | OutcomeInFlight | OutcomeConflict

datatype idem_error = StaleClaim | NoClaimRow | MacKeyTooShort

record idem_options =
  io_pending :: time
  io_completed :: time

definition pendingTTL :: "idem_options \<Rightarrow> time" where
  "pendingTTL q = (if 0 < io_pending q then io_pending q else 10 * minute_ns)"

definition completedTTL :: "idem_options \<Rightarrow> time" where
  "completedTTL q = (if 0 < io_completed q then io_completed q else 24 * hour_ns)"

definition NewIdemService :: "bytes \<Rightarrow> idem_error + bytes" where
  "NewIdemService macKey = (if length macKey < 32 then Inl MacKeyTooShort else Inr macKey)"

record claim =
  cl_scope :: string
  cl_key :: string
  cl_fp :: string

definition idem_at :: "string \<Rightarrow> string \<Rightarrow> idem_row \<Rightarrow> bool" where
  "idem_at scope key r \<longleftrightarrow> k_scope r = scope \<and> k_key r = key"

definition idem_get :: "string \<Rightarrow> string \<Rightarrow> idem_row list \<Rightarrow> idem_row option" where
  "idem_get scope key t = sql_get idem_key (scope, key) t"

text \<open>
  \<open>inspect\<close>: an expired row is deleted and reported as stale, so that the caller retries the
  insert.
\<close>

definition inspect ::
  "time \<Rightarrow> string \<Rightarrow> string \<Rightarrow> string \<Rightarrow> idem_row list \<Rightarrow> (idem_error + outcome) \<times> idem_row list" where
  "inspect now scope key fp t =
    (case idem_get scope key t of
       None \<Rightarrow> (Inl NoClaimRow, t)
     | Some r \<Rightarrow>
         if \<not> now < k_expires r then (Inl StaleClaim, sql_delete (idem_at scope key) t)
         else if k_fp r \<noteq> fp then (Inr OutcomeConflict, t)
         else if k_status r = ''completed'' then (Inr OutcomeReplay, t)
         else (Inr OutcomeInFlight, t))"

text \<open>
  \<open>Claim\<close>: at most two attempts.  \<open>clock\<close> gives the readings of the service clock in the order
  the code takes them.  The result is the claim, if it was won, and the outcome.
\<close>

fun Claim_attempts ::
  "nat \<Rightarrow> idem_options \<Rightarrow> (nat \<Rightarrow> time) \<Rightarrow> string \<Rightarrow> string \<Rightarrow> string \<Rightarrow> idem_row list \<Rightarrow>
   (idem_error + claim option \<times> outcome) \<times> idem_row list" where
  "Claim_attempts 0 q clock scope key fp t = (Inr (None, OutcomeInFlight), t)"
| "Claim_attempts (Suc n) q clock scope key fp t =
    (case sql_insert idem_key
        \<lparr>k_scope = scope, k_key = key, k_fp = fp, k_status = ''pending'', k_res = None,
         k_created = clock 0, k_expires = clock 0 + pendingTTL q\<rparr> t of
       Some t' \<Rightarrow> (Inr (Some \<lparr>cl_scope = scope, cl_key = key, cl_fp = fp\<rparr>, OutcomeFresh), t')
     | None \<Rightarrow>
        (case inspect (clock 1) scope key fp t of
           (Inl StaleClaim, t') \<Rightarrow> Claim_attempts n q (\<lambda>i. clock (i + 2)) scope key fp t'
         | (Inl e, t') \<Rightarrow> (Inl e, t')
         | (Inr decision, t') \<Rightarrow> (Inr (None, decision), t')))"

definition Claim ::
  "idem_options \<Rightarrow> (nat \<Rightarrow> time) \<Rightarrow> string \<Rightarrow> string \<Rightarrow> string \<Rightarrow> idem_row list \<Rightarrow>
   (idem_error + claim option \<times> outcome) \<times> idem_row list" where
  "Claim q clock scope key fp t = Claim_attempts 2 q clock scope key fp t"

definition live_pending :: "time \<Rightarrow> claim \<Rightarrow> idem_row \<Rightarrow> bool" where
  "live_pending now c r \<longleftrightarrow> idem_at (cl_scope c) (cl_key c) r \<and> k_status r = ''pending''
     \<and> now < k_expires r"

definition Complete ::
  "idem_options \<Rightarrow> time \<Rightarrow> claim \<Rightarrow> string \<Rightarrow> idem_row list \<Rightarrow> idem_error + idem_row list" where
  "Complete q now c res t =
    (if sql_affected (live_pending now c) t \<noteq> 1 then Inl StaleClaim
     else Inr (sql_update (live_pending now c)
       (\<lambda>r. r\<lparr>k_status := ''completed'', k_res := Some res, k_expires := now + completedTTL q\<rparr>) t))"

definition Release :: "claim \<Rightarrow> idem_row list \<Rightarrow> idem_row list" where
  "Release c t = sql_delete (\<lambda>r. idem_at (cl_scope c) (cl_key c) r \<and> k_status r = ''pending'') t"

definition ReplayResourceID ::
  "string \<Rightarrow> string \<Rightarrow> string \<Rightarrow> idem_row list \<Rightarrow> idem_error + string" where
  "ReplayResourceID scope key fp t =
    (case idem_get scope key t of
       None \<Rightarrow> Inl NoClaimRow
     | Some r \<Rightarrow>
         if k_fp r \<noteq> fp \<or> k_status r \<noteq> ''completed'' then Inl StaleClaim
         else case k_res r of None \<Rightarrow> Inl StaleClaim | Some res \<Rightarrow> Inr res)"

definition CleanupExpired :: "time \<Rightarrow> idem_row list \<Rightarrow> idem_row list \<times> nat" where
  "CleanupExpired now t =
    (sql_delete (\<lambda>r. k_expires r \<le> now) t, sql_affected (\<lambda>r. k_expires r \<le> now) t)"

section \<open>Correctness of one claim\<close>

lemma idem_at_key: "idem_at scope key r \<longleftrightarrow> idem_key r = (scope, key)"
  by (simp add: idem_at_def idem_key_def)

lemma idem_get_delete [simp]:
  "idem_get scope key (sql_delete (idem_at scope key) t) = None"
  by (auto simp: idem_get_def idem_table.get_None sql_simps idem_at_key)

lemma Claim_attempts_absent:
  assumes "idem_get scope key t = None"
  shows "Claim_attempts (Suc n) q clock scope key fp t =
     (Inr (Some \<lparr>cl_scope = scope, cl_key = key, cl_fp = fp\<rparr>, OutcomeFresh),
      t @ [\<lparr>k_scope = scope, k_key = key, k_fp = fp, k_status = ''pending'', k_res = None,
            k_created = clock 0, k_expires = clock 0 + pendingTTL q\<rparr>])"
proof -
  have "(scope, key) \<notin> set (map idem_key t)"
    using assms by (simp add: idem_get_def idem_table.get_None)
  then show ?thesis by (simp add: sql_insert_def idem_key_def)
qed

lemma insert_present:
  "idem_get (k_scope x) (k_key x) t = Some r \<Longrightarrow> sql_insert idem_key x t = None"
proof -
  assume "idem_get (k_scope x) (k_key x) t = Some r"
  then have "r \<in> set t \<and> idem_key r = idem_key x"
    by (auto simp: idem_get_def idem_key_def dest!: idem_table.get_SomeD)
  then have "idem_key x \<in> set (map idem_key t)" by (metis imageI list.set_map)
  then show ?thesis by (simp add: sql_insert_def)
qed

lemma Claim_attempts_present:
  assumes "idem_get scope key t = Some r"
  shows "Claim_attempts (Suc n) q clock scope key fp t =
    (if \<not> clock 1 < k_expires r
     then Claim_attempts n q (\<lambda>i. clock (i + 2)) scope key fp (sql_delete (idem_at scope key) t)
     else (Inr (None, if k_fp r \<noteq> fp then OutcomeConflict
                      else if k_status r = ''completed'' then OutcomeReplay
                      else OutcomeInFlight), t))"
  using assms insert_present[of "\<lparr>k_scope = scope, k_key = key, k_fp = fp, k_status = ''pending'',
     k_res = None, k_created = clock 0, k_expires = clock 0 + pendingTTL q\<rparr>" t r]
  by (simp add: inspect_def)

text \<open>What a claim decides, completely: a free or expired key is won and its row becomes a
  fresh pending row (the retry after reclaiming an expired row always succeeds, so the loop
  never needs its third round); a live row with another fingerprint is a conflict, a live
  completed row a replay, a live pending row in flight, and none of these three changes the
  table.\<close>

theorem Claim_decision:
  "fst (Claim q clock scope key fp t) = Inr (case idem_get scope key t of
      None \<Rightarrow> (Some \<lparr>cl_scope = scope, cl_key = key, cl_fp = fp\<rparr>, OutcomeFresh)
    | Some r \<Rightarrow>
        if k_expires r \<le> clock 1
        then (Some \<lparr>cl_scope = scope, cl_key = key, cl_fp = fp\<rparr>, OutcomeFresh)
        else if k_fp r \<noteq> fp then (None, OutcomeConflict)
        else if k_status r = ''completed'' then (None, OutcomeReplay)
        else (None, OutcomeInFlight))"
proof (cases "idem_get scope key t")
  case None
  then show ?thesis unfolding Claim_def numeral_2_eq_2 by (subst Claim_attempts_absent) simp_all
next
  case (Some r)
  show ?thesis
    unfolding Claim_def numeral_2_eq_2 Claim_attempts_present[OF Some] One_nat_def
    using Some by (auto simp del: Claim_attempts.simps simp: Claim_attempts_absent)
qed

lemma Claim_table:
  "snd (Claim q clock scope key fp t) \<in>
     {t, t @ [\<lparr>k_scope = scope, k_key = key, k_fp = fp, k_status = ''pending'', k_res = None,
              k_created = clock 0, k_expires = clock 0 + pendingTTL q\<rparr>],
      sql_delete (idem_at scope key) t @
        [\<lparr>k_scope = scope, k_key = key, k_fp = fp, k_status = ''pending'', k_res = None,
          k_created = clock 2, k_expires = clock 2 + pendingTTL q\<rparr>]}"
proof (cases "idem_get scope key t")
  case None
  then show ?thesis unfolding Claim_def numeral_2_eq_2 by (subst Claim_attempts_absent) simp_all
next
  case (Some r)
  show ?thesis
    unfolding Claim_def numeral_2_eq_2 Claim_attempts_present[OF Some] One_nat_def
    by (auto simp del: Claim_attempts.simps simp: Claim_attempts_absent numeral_2_eq_2)
qed

lemma Complete_InrD:
  assumes "Complete q now c res t = Inr t'"
  shows "\<exists>r \<in> set t. live_pending now c r"
    and "t' = sql_update (live_pending now c)
       (\<lambda>r. r\<lparr>k_status := ''completed'', k_res := Some res, k_expires := now + completedTTL q\<rparr>) t"
  using assms sql_affected_1D[of "live_pending now c" t]
  by (auto simp: Complete_def split: if_splits)

lemma live_pending_affected:
  assumes "distinct (map idem_key t)" and "r \<in> set t" and "live_pending now c r"
  shows "sql_affected (live_pending now c) t = 1"
proof -
  have "sql_affected (live_pending now c) t \<le> 1"
    by (rule sql_affected_le1[OF assms(1)]) (simp add: live_pending_def idem_at_key)
  moreover have "0 < sql_affected (live_pending now c) t"
    using assms(2,3) by (auto simp: sql_simps)
  ultimately show ?thesis by simp
qed

text \<open>The whole protocol of a create request: a claim that is won at time \<open>t0\<close> and completed
  with a resource before its pending deadline is replayed to every identical request within
  the completed window: the claim outcome is \<open>Replay\<close> and the stored resource id is returned.\<close>

theorem complete_then_replay:
  assumes "distinct (map idem_key t)" and "idem_get scope key t = None"
    and "Claim q (\<lambda>_. t0) scope key fp t = (Inr (Some c, OutcomeFresh), t1)"
    and "t0 \<le> now" and "now < t0 + pendingTTL q"
    and "Complete q now c res t1 = Inr t2" and "later < now + completedTTL q"
  shows "Claim q (\<lambda>_. later) scope key fp t2 = (Inr (None, OutcomeReplay), t2)
     \<and> ReplayResourceID scope key fp t2 = Inr res"
proof -
  let ?row = "\<lparr>k_scope = scope, k_key = key, k_fp = fp, k_status = ''pending'', k_res = None,
    k_created = t0, k_expires = t0 + pendingTTL q\<rparr>"
  let ?done = "?row\<lparr>k_status := ''completed'', k_res := Some res, k_expires := now + completedTTL q\<rparr>"
  have c: "c = \<lparr>cl_scope = scope, cl_key = key, cl_fp = fp\<rparr>" and t1: "t1 = t @ [?row]"
    using assms(3) Claim_attempts_absent[OF assms(2), of 1 q "\<lambda>_. t0" fp]
    by (simp_all add: Claim_def numeral_2_eq_2 del: Claim_attempts.simps)
  have d1: "distinct (map idem_key t1)"
    using assms(1,2) by (auto simp: t1 idem_get_def idem_table.get_None idem_key_def)
  have t2: "t2 = sql_update (live_pending now c)
       (\<lambda>r. r\<lparr>k_status := ''completed'', k_res := Some res, k_expires := now + completedTTL q\<rparr>) t1"
    by (rule Complete_InrD(2)[OF assms(6)])
  have "idem_get scope key t1 = Some ?row"
    unfolding idem_get_def idem_table.get_iff[OF d1] by (simp add: t1 idem_key_def)
  then have "idem_get scope key t2 = Some ?done"
    unfolding idem_get_def t2
    by (subst idem_table.get_modify[OF d1])
       (auto simp: idem_key_def live_pending_def c idem_at_def assms(5))
  moreover from this have "Claim q (\<lambda>_. later) scope key fp t2 = (Inr (None, OutcomeReplay), t2)"
    using assms(7) by (simp add: Claim_def numeral_2_eq_2 Claim_attempts_present del: Claim_attempts.simps)
  ultimately show ?thesis by (simp add: ReplayResourceID_def)
qed

theorem complete_then_replay_witness:
  "\<exists>c t1 t2. Claim \<lparr>io_pending = 0, io_completed = 0\<rparr> (\<lambda>_. 0) ''op:u1'' ''k'' ''f'' [] = (Inr (Some c, OutcomeFresh), t1)
    \<and> Complete \<lparr>io_pending = 0, io_completed = 0\<rparr> 1 c ''item-9'' t1 = Inr t2
    \<and> ReplayResourceID ''op:u1'' ''k'' ''f'' t2 = Inr ''item-9''"
proof -
  let ?q = "\<lparr>io_pending = 0, io_completed = 0\<rparr>" and ?c = "\<lparr>cl_scope = ''op:u1'', cl_key = ''k'', cl_fp = ''f''\<rparr>"
  let ?t1 = "[\<lparr>k_scope = ''op:u1'', k_key = ''k'', k_fp = ''f'', k_status = ''pending'', k_res = None,
     k_created = 0, k_expires = 600000000000\<rparr>]"
  have claim: "Claim ?q (\<lambda>_. 0) ''op:u1'' ''k'' ''f'' [] = (Inr (Some ?c, OutcomeFresh), ?t1)"
    by (simp add: Claim_def numeral_2_eq_2 sql_insert_def pendingTTL_def duration_defs)
  obtain t2 where comp: "Complete ?q 1 ?c ''item-9'' ?t1 = Inr t2"
    by (simp add: Complete_def sql_affected_def live_pending_def idem_at_def)
  have "ReplayResourceID ''op:u1'' ''k'' ''f'' t2 = Inr ''item-9''"
    using complete_then_replay[OF _ _ claim _ _ comp, of 2]
    by (simp add: idem_get_def sql_get_def pendingTTL_def completedTTL_def duration_defs)
  with claim comp show ?thesis by blast
qed

section \<open>The protocol as a state machine\<close>

text \<open>
  Requests, completions, releases and the maintenance sweep interleave in any order while the
  clock advances.  \<open>ih_log\<close> is a ghost history of the completions, the business changes that
  were committed under a key.
\<close>

record idem_hist =
  ih_rows :: "idem_row list"
  ih_now :: time
  ih_log :: "((string \<times> string) \<times> time) list"

inductive idem_step :: "idem_options \<Rightarrow> idem_hist \<Rightarrow> idem_hist \<Rightarrow> bool" for q where
  tick: "ih_now h \<le> t \<Longrightarrow> idem_step q h (h\<lparr>ih_now := t\<rparr>)"
| claim: "idem_step q h
    (h\<lparr>ih_rows := snd (Claim q (\<lambda>_. ih_now h) scope key fp (ih_rows h))\<rparr>)"
| complete: "Complete q (ih_now h) c res (ih_rows h) = Inr t' \<Longrightarrow> idem_step q h
    (h\<lparr>ih_rows := t', ih_log := ((cl_scope c, cl_key c), ih_now h) # ih_log h\<rparr>)"
| release: "idem_step q h (h\<lparr>ih_rows := Release c (ih_rows h)\<rparr>)"
| cleanup: "idem_step q h (h\<lparr>ih_rows := fst (CleanupExpired (ih_now h) (ih_rows h))\<rparr>)"

inductive idem_reachable :: "idem_options \<Rightarrow> idem_hist \<Rightarrow> bool" for q where
  start: "idem_reachable q \<lparr>ih_rows = [], ih_now = t, ih_log = []\<rparr>"
| step: "idem_reachable q h \<Longrightarrow> idem_step q h h' \<Longrightarrow> idem_reachable q h'"

text \<open>
  The invariant: keys are unique, the history lies in the past, and a completion whose replay
  window is still open has its completed row in the table.
\<close>

definition idem_inv :: "idem_options \<Rightarrow> idem_hist \<Rightarrow> bool" where
  "idem_inv q h \<longleftrightarrow> distinct (map idem_key (ih_rows h)) \<and>
     (\<forall>(k, t) \<in> set (ih_log h). t \<le> ih_now h \<and>
        (ih_now h < t + completedTTL q \<longrightarrow>
           (\<exists>r \<in> set (ih_rows h). idem_key r = k \<and> k_status r = ''completed''
              \<and> k_expires r = t + completedTTL q)))"

lemma completed_survives:
  assumes "r \<in> set t" and "k_status r = ''completed''" and "now < k_expires r"
    and "distinct (map idem_key t)"
  shows "r \<in> set (snd (Claim q (\<lambda>_. now) scope key fp t))"
    and "r \<in> set (Release c t)" and "r \<in> set (fst (CleanupExpired now t))"
    and "Complete q now c res t = Inr t' \<Longrightarrow> r \<in> set t'"
proof -
  show "r \<in> set (snd (Claim q (\<lambda>_. now) scope key fp t))"
  proof (cases "idem_get scope key t")
    case None
    then show ?thesis using assms(1) unfolding Claim_def numeral_2_eq_2
      by (subst Claim_attempts_absent) simp_all
  next
    case (Some r')
    show ?thesis
    proof (cases "now < k_expires r'")
      case True
      then show ?thesis using assms(1)
        unfolding Claim_def numeral_2_eq_2 Claim_attempts_present[OF Some] by simp
    next
      case False
      from Some have "r' \<in> set t" "idem_key r' = (scope, key)"
        by (auto simp: idem_get_def dest: idem_table.get_SomeD)
      with False assms have "idem_key r \<noteq> (scope, key)"
        using distinct_key_unique[OF assms(4), of r r'] by auto
      then have "r \<in> set (sql_delete (idem_at scope key) t)"
        using assms(1) by (simp add: sql_simps idem_at_key)
      then show ?thesis using False
        unfolding Claim_def numeral_2_eq_2 Claim_attempts_present[OF Some] One_nat_def
        by (simp del: Claim_attempts.simps add: Claim_attempts_absent)
    qed
  qed
  show "r \<in> set (Release c t)" "r \<in> set (fst (CleanupExpired now t))"
    using assms(1-3) by (simp_all add: Release_def CleanupExpired_def sql_simps)
  show "r \<in> set t'" if "Complete q now c res t = Inr t'"
    using assms(1,2) Complete_InrD(2)[OF that] by (auto simp: sql_simps live_pending_def image_iff intro!: bexI[of _ r])
qed

lemma idem_keys_distinct:
  assumes "distinct (map idem_key t)"
  shows "distinct (map idem_key (snd (Claim q clock scope key fp t)))"
    and "distinct (map idem_key (Release c t))"
    and "distinct (map idem_key (fst (CleanupExpired now t)))"
    and "Complete q now c res t = Inr t' \<Longrightarrow> map idem_key t' = map idem_key t"
proof -
  show "distinct (map idem_key (snd (Claim q clock scope key fp t)))"
  proof (cases "idem_get scope key t")
    case None
    then have "(scope, key) \<notin> idem_key ` set t" by (simp add: idem_get_def idem_table.get_None)
    with None assms show ?thesis unfolding Claim_def numeral_2_eq_2
      by (subst Claim_attempts_absent) (auto simp: idem_key_def)
  next
    case (Some r)
    have "(scope, key) \<notin> idem_key ` set (sql_delete (idem_at scope key) t)"
      by (auto simp: sql_simps idem_at_key)
    then show ?thesis
      unfolding Claim_def numeral_2_eq_2 Claim_attempts_present[OF Some] One_nat_def
      using assms
      by (auto simp del: Claim_attempts.simps
          simp: Claim_attempts_absent distinct_sql_delete idem_key_def)
  qed
qed (auto simp: Release_def CleanupExpired_def assms distinct_sql_delete idem_key_def
      dest!: Complete_InrD(2) intro!: map_sql_update)

lemma idem_step_inv:
  assumes "idem_step q h h'" and "idem_inv q h"
  shows "idem_inv q h'"
  using assms
proof (induction rule: idem_step.induct)
  case (complete h c res t')
  note upd = complete.hyps and inv = complete.prems
  have keys: "map idem_key t' = map idem_key (ih_rows h)"
    using idem_keys_distinct(4) inv upd by (simp add: idem_inv_def)
  obtain r where r: "r \<in> set (ih_rows h)" "live_pending (ih_now h) c r"
    using Complete_InrD(1)[OF upd] by blast
  then have "\<exists>r \<in> set t'. idem_key r = (cl_scope c, cl_key c) \<and> k_status r = ''completed''
       \<and> k_expires r = ih_now h + completedTTL q"
    unfolding Complete_InrD(2)[OF upd] sql_simps
    by (intro bexI[of _ "r\<lparr>k_status := ''completed'', k_res := Some res,
          k_expires := ih_now h + completedTTL q\<rparr>"])
       (auto simp: live_pending_def idem_at_def idem_key_def)
  moreover have "\<exists>r \<in> set t'. idem_key r = k \<and> k_status r = ''completed'' \<and> k_expires r = t + completedTTL q"
    if kt: "(k, t) \<in> set (ih_log h)" "ih_now h < t + completedTTL q" for k t
  proof -
    from inv kt obtain r where "r \<in> set (ih_rows h)" "idem_key r = k"
      "k_status r = ''completed''" "k_expires r = t + completedTTL q"
      by (fastforce simp: idem_inv_def)
    then show ?thesis
      using completed_survives(4)[of r "ih_rows h" "ih_now h" q c res t'] upd kt(2) inv
      by (auto simp: idem_inv_def)
  qed
  ultimately show ?case
    using inv keys unfolding idem_inv_def by auto
next
  case (tick h t)
  then show ?case by (fastforce simp: idem_inv_def)
next
  case (claim h scope key fp)
  then show ?case
    using completed_survives(1) idem_keys_distinct(1)
    by (fastforce simp: idem_inv_def)
next
  case (release h c)
  then show ?case
    using completed_survives(2) idem_keys_distinct(2)
    by (fastforce simp: idem_inv_def)
next
  case (cleanup h)
  then show ?case
    using completed_survives(3) idem_keys_distinct(3)
    by (fastforce simp: idem_inv_def)
qed

lemma idem_reachable_inv: "idem_reachable q h \<Longrightarrow> idem_inv q h"
proof (induction rule: idem_reachable.induct)
  case (start t)
  then show ?case by (simp add: idem_inv_def)
next
  case (step h h')
  then show ?case by (blast intro: idem_step_inv)
qed



end
