(* ===== verification/Payloads.thy ===== *)
theory Payloads
  imports AuditLog Idempotency
begin

text \<open>
  \<open>internal/vault/payloads.go\<close>, \<open>validation.go\<close> and the errors and envelope of \<open>types.go\<close>: the
  six typed payloads, their field limits, the tag list and the envelope that is encrypted.
  The JSON text form (\<open>encoding/json\<close>) is reached through the record \<open>codec\<close>.
\<close>

section \<open>Errors of the vault package\<close>

datatype vault_error =
    ErrNotFound
  | ErrForbidden
  | ErrInvalidItemType
  | ErrInvalidScope
  | ErrPayloadInvalid
  | ErrPayloadTooLarge
  | ErrReferenceForbidden
  | ErrRevisionConflict nat
  | ErrExportTooLarge
  | ErrStoredPayload
  | ErrBusy
  | ErrCanceled
  | ErrAudit audit_error
  | ErrClaim idem_error
  | ErrDatabase constraint_error
  | ErrHook string

abbreviation TypeLogin :: string where "TypeLogin \<equiv> ''login''"
abbreviation TypeSSHKey :: string where "TypeSSHKey \<equiv> ''ssh_key''"
abbreviation TypeCreditCard :: string where "TypeCreditCard \<equiv> ''credit_card''"
abbreviation TypeIdentity :: string where "TypeIdentity \<equiv> ''identity''"
abbreviation TypeSecureNote :: string where "TypeSecureNote \<equiv> ''secure_note''"
abbreviation TypeSecret :: string where "TypeSecret \<equiv> ''secret''"

definition ItemTypes :: "string \<Rightarrow> bool" where
  "ItemTypes t \<longleftrightarrow> t \<in> set item_types"

definition Scopes :: "string \<Rightarrow> bool" where
  "Scopes s \<longleftrightarrow> s \<in> set [ScopePersonal, ScopeShared]"

definition MaxPayloadBytes :: nat where "MaxPayloadBytes = 262144"
definition MaxTagsCount :: nat where "MaxTagsCount = 32"
definition MaxTagRunes :: nat where "MaxTagRunes = 64"
definition MaxSecretEntries :: nat where "MaxSecretEntries = 128"

section \<open>Typed payloads\<close>

record login_payload =
  lp_name :: string
  lp_username :: string
  lp_password :: string
  lp_urls :: "string list"
  lp_notes :: string
  lp_updated_at :: "string option"
  lp_expires_at :: "string option"

record ssh_key_payload =
  sk_name :: string
  sk_algorithm :: string
  sk_public :: string
  sk_private :: string
  sk_passphrase :: string
  sk_comment :: string
  sk_fingerprint :: string
  sk_notes :: string

record credit_card_payload =
  cc_name :: string
  cc_cardholder :: string
  cc_number :: string
  cc_exp_month :: int
  cc_exp_year :: int
  cc_cvv :: string
  cc_pin :: string
  cc_billing :: "string option"
  cc_notes :: string

record identity_payload =
  id_name :: string
  id_full_name :: string
  id_company :: string
  id_phone :: string
  id_email :: string
  id_country :: string
  id_state :: string
  id_city :: string
  id_district :: string
  id_address_line :: string
  id_postal_code :: string
  id_notes :: string

record secure_note_payload =
  sn_name :: string
  sn_body :: string

record secret_entry =
  se_key :: string
  se_value :: string

record secret_payload =
  sc_name :: string
  sc_entries :: "secret_entry list"
  sc_notes :: string

datatype payload =
    Login login_payload
  | SSHKey ssh_key_payload
  | CreditCard credit_card_payload
  | Identity identity_payload
  | SecureNote secure_note_payload
  | Secret secret_payload

fun payload_type :: "payload \<Rightarrow> string" where
  "payload_type (Login _) = TypeLogin"
| "payload_type (SSHKey _) = TypeSSHKey"
| "payload_type (CreditCard _) = TypeCreditCard"
| "payload_type (Identity _) = TypeIdentity"
| "payload_type (SecureNote _) = TypeSecureNote"
| "payload_type (Secret _) = TypeSecret"

fun TitleOf :: "payload \<Rightarrow> string" where
  "TitleOf (Login p) = lp_name p"
| "TitleOf (SSHKey p) = sk_name p"
| "TitleOf (CreditCard p) = cc_name p"
| "TitleOf (Identity p) = id_name p"
| "TitleOf (SecureNote p) = sn_name p"
| "TitleOf (Secret p) = sc_name p"

section \<open>Field checks\<close>

text \<open>
  The error texts name fields and limits only.  \<open>FieldAt\<close> is an indexed field such as
  \<open>urls[3]\<close> or \<open>entries[2].key\<close>.
\<close>

datatype field_name = Field string | FieldAt string nat string

datatype field_error = FieldRequired field_name | FieldTooLong field_name nat
  | FieldTooManyBytes field_name nat | FieldTooMany field_name nat | FieldEntryCount nat
  | FieldNotUnique field_name | FieldAlgorithm | FieldRange field_name int int | FieldDate field_name

text \<open>A sequence of checks with an early return: the first error, if any.\<close>

fun first_error :: "'e option list \<Rightarrow> 'e option" where
  "first_error [] = None"
| "first_error (None # cs) = first_error cs"
| "first_error (Some e # cs) = Some e"

lemma first_error_None [simp]: "first_error cs = None \<longleftrightarrow> (\<forall>c \<in> set cs. c = None)"
  by (induction cs rule: first_error.induct) auto

definition optionalText :: "field_name \<Rightarrow> string \<Rightarrow> nat \<Rightarrow> field_error option" where
  "optionalText f v maxRunes = (if maxRunes < rune_count v then Some (FieldTooLong f maxRunes) else None)"

definition requiredText :: "field_name \<Rightarrow> string \<Rightarrow> nat \<Rightarrow> field_error option" where
  "requiredText f v maxRunes =
    (if blank v then Some (FieldRequired f) else optionalText f v maxRunes)"

definition isDigitRunes :: "string \<Rightarrow> bool" where
  "isDigitRunes s \<longleftrightarrow> s \<noteq> '''' \<and> list_all (\<lambda>r. 48 \<le> r \<and> r \<le> 57) (runes s)"

definition optionalDate :: "field_name \<Rightarrow> string option \<Rightarrow> field_error option" where
  "optionalDate f value =
    (case value of None \<Rightarrow> None | Some v \<Rightarrow>
      if v = '''' then None
      else if length v \<noteq> 10 \<or> \<not> isDigitRunes (take 4 v) \<or> v ! 4 \<noteq> CHR ''-''
           \<or> \<not> isDigitRunes (take 2 (drop 5 v)) \<or> v ! 7 \<noteq> CHR ''-'' \<or> \<not> isDigitRunes (drop 8 v)
      then Some (FieldDate f)
      else if take 2 (drop 5 v) < ''01'' \<or> ''12'' < take 2 (drop 5 v) then Some (FieldDate f)
      else if drop 8 v < ''01'' \<or> ''31'' < drop 8 v then Some (FieldDate f)
      else None)"

fun check_urls :: "nat \<Rightarrow> string list \<Rightarrow> field_error option" where
  "check_urls i [] = None"
| "check_urls i (u # us) =
    (case optionalText (FieldAt ''urls'' i '''') u 2048 of
       Some e \<Rightarrow> Some e | None \<Rightarrow> check_urls (Suc i) us)"

definition validateLogin :: "login_payload \<Rightarrow> field_error option" where
  "validateLogin p = first_error
    [requiredText (Field ''name'') (lp_name p) 256,
     optionalText (Field ''username'') (lp_username p) 256,
     (if 1024 < length (lp_password p) then Some (FieldTooManyBytes (Field ''password'') 1024) else None),
     (if 16 < length (lp_urls p) then Some (FieldTooMany (Field ''urls'') 16) else None),
     check_urls 0 (lp_urls p),
     optionalText (Field ''notes'') (lp_notes p) 10000,
     optionalDate (Field ''password_updated_at'') (lp_updated_at p),
     optionalDate (Field ''password_expires_at'') (lp_expires_at p)]"

definition validateSSHKey :: "ssh_key_payload \<Rightarrow> field_error option" where
  "validateSSHKey p = first_error
    [requiredText (Field ''name'') (sk_name p) 256,
     (if sk_algorithm p \<in> set [''ed25519'', ''rsa4096''] then None else Some FieldAlgorithm),
     requiredText (Field ''public_key'') (sk_public p) 8192,
     requiredText (Field ''private_key'') (sk_private p) 16384,
     optionalText (Field ''key_passphrase'') (sk_passphrase p) 1024,
     optionalText (Field ''comment'') (sk_comment p) 256,
     optionalText (Field ''fingerprint'') (sk_fingerprint p) 128,
     optionalText (Field ''notes'') (sk_notes p) 10000]"

definition validateCreditCard :: "credit_card_payload \<Rightarrow> field_error option" where
  "validateCreditCard p = first_error
    [requiredText (Field ''name'') (cc_name p) 256,
     requiredText (Field ''cardholder'') (cc_cardholder p) 256,
     requiredText (Field ''number'') (cc_number p) 64,
     (if cc_exp_month p < 1 \<or> 12 < cc_exp_month p then Some (FieldRange (Field ''exp_month'') 1 12) else None),
     (if cc_exp_year p < 2000 \<or> 9999 < cc_exp_year p then Some (FieldRange (Field ''exp_year'') 2000 9999) else None),
     optionalText (Field ''cvv'') (cc_cvv p) 8,
     optionalText (Field ''pin'') (cc_pin p) 16,
     optionalText (Field ''notes'') (cc_notes p) 10000]"

definition validateIdentity :: "identity_payload \<Rightarrow> field_error option" where
  "validateIdentity p = first_error
    [requiredText (Field ''name'') (id_name p) 256,
     optionalText (Field ''full_name'') (id_full_name p) 256,
     optionalText (Field ''company'') (id_company p) 256,
     optionalText (Field ''phone'') (id_phone p) 64,
     optionalText (Field ''email'') (id_email p) 320,
     optionalText (Field ''country'') (id_country p) 96,
     optionalText (Field ''state'') (id_state p) 96,
     optionalText (Field ''city'') (id_city p) 96,
     optionalText (Field ''district'') (id_district p) 96,
     optionalText (Field ''address_line'') (id_address_line p) 512,
     optionalText (Field ''postal_code'') (id_postal_code p) 32,
     optionalText (Field ''notes'') (id_notes p) 10000]"

definition validateSecureNote :: "secure_note_payload \<Rightarrow> field_error option" where
  "validateSecureNote p = first_error
    [requiredText (Field ''name'') (sn_name p) 256, requiredText (Field ''body'') (sn_body p) 65536]"

fun check_entries :: "nat \<Rightarrow> string list \<Rightarrow> secret_entry list \<Rightarrow> field_error option" where
  "check_entries i seen [] = None"
| "check_entries i seen (e # es) =
    (if blank (se_key e) then Some (FieldRequired (FieldAt ''entries'' i ''key''))
     else case optionalText (FieldAt ''entries'' i ''key'') (se_key e) 256 of Some x \<Rightarrow> Some x
     | None \<Rightarrow>
       if se_key e \<in> set seen then Some (FieldNotUnique (FieldAt ''entries'' i ''key''))
       else case optionalText (FieldAt ''entries'' i ''value'') (se_value e) 16384 of Some x \<Rightarrow> Some x
       | None \<Rightarrow> check_entries (Suc i) (se_key e # seen) es)"

definition validateSecret :: "secret_payload \<Rightarrow> field_error option" where
  "validateSecret p = first_error
    [requiredText (Field ''name'') (sc_name p) 256,
     (if length (sc_entries p) < 1 \<or> MaxSecretEntries < length (sc_entries p)
      then Some (FieldEntryCount MaxSecretEntries) else None),
     check_entries 0 [] (sc_entries p),
     optionalText (Field ''notes'') (sc_notes p) 10000]"

fun validate_payload :: "payload \<Rightarrow> field_error option" where
  "validate_payload (Login p) = validateLogin p"
| "validate_payload (SSHKey p) = validateSSHKey p"
| "validate_payload (CreditCard p) = validateCreditCard p"
| "validate_payload (Identity p) = validateIdentity p"
| "validate_payload (SecureNote p) = validateSecureNote p"
| "validate_payload (Secret p) = validateSecret p"

section \<open>Facts about the field checks\<close>

lemma check_entries_None:
  "check_entries i seen es = None \<longleftrightarrow>
     distinct (map se_key es) \<and> set (map se_key es) \<inter> set seen = {} \<and>
     (\<forall>e \<in> set es. \<not> blank (se_key e) \<and> rune_count (se_key e) \<le> 256
        \<and> rune_count (se_value e) \<le> 16384)"
  by (induction i seen es rule: check_entries.induct) (auto simp: optionalText_def)

text \<open>A stored secret has a non-blank name, between 1 and 128 entries, pairwise distinct
  non-blank keys, and keys, values and notes within their code point limits; a payload with
  these properties is accepted.\<close>

theorem secret_accepted_iff:
  "validate_payload (Secret p) = None \<longleftrightarrow>
     \<not> blank (sc_name p) \<and> rune_count (sc_name p) \<le> 256 \<and>
     sc_entries p \<noteq> [] \<and> length (sc_entries p) \<le> 128 \<and>
     distinct (map se_key (sc_entries p)) \<and>
     (\<forall>e \<in> set (sc_entries p). \<not> blank (se_key e) \<and> rune_count (se_key e) \<le> 256
        \<and> rune_count (se_value e) \<le> 16384) \<and>
     rune_count (sc_notes p) \<le> 10000"
  by (auto simp: validateSecret_def requiredText_def optionalText_def check_entries_None
      MaxSecretEntries_def not_less)

theorem secret_accepted_iff_witness:
  "validate_payload (Secret \<lparr>sc_name = ''db'', sc_entries = [\<lparr>se_key = ''k'', se_value = ''''\<rparr>],
     sc_notes = ''''\<rparr>) = None"
  unfolding secret_accepted_iff
  by (simp add: rune_count_def blank_def runes_def byte_values_def is_space_def)

lemma digit_less_iff:
  "(c :: char) < d \<longleftrightarrow> (of_char c :: nat) < of_char d"
  by (simp add: less_char_def)

lemma two_digit_bounds:
  assumes "length s = 2" and "isDigitRunes s"
  shows "\<not> s < ''01'' \<longleftrightarrow> 1 \<le> digits_value 0 s"
    and "\<not> ''12'' < s \<longleftrightarrow> digits_value 0 s \<le> 12"
    and "\<not> ''31'' < s \<longleftrightarrow> digits_value 0 s \<le> 31"
proof -
  from assms(1) obtain a b where s: "s = [a, b]"
    by (auto simp: numeral_2_eq_2 length_Suc_conv)
  have "48 \<le> (of_char a :: nat) \<and> (of_char a :: nat) \<le> 57 \<and> 48 \<le> (of_char b :: nat) \<and> (of_char b :: nat) \<le> 57"
  proof -
    have "(of_char a :: nat) < 128"
    proof (rule ccontr)
      assume na: "\<not> (of_char a :: nat) < 128"
      have "runes s \<noteq> []" by (simp add: s runes_Nil_iff)
      have "hd (runes s) \<ge> 128"
        using na unfolding s
        by (auto simp: runes_def byte_values_def utf8_tail_def cont_byte_def split: option.splits list.splits if_splits)
      moreover have "hd (runes s) \<le> 57"
        using assms(2) \<open>runes s \<noteq> []\<close> by (cases "runes s") (auto simp: isDigitRunes_def)
      ultimately show False by simp
    qed
    moreover from this have "(of_char b :: nat) < 128"
    proof -
      assume a: "(of_char a :: nat) < 128"
      have "runes s = of_char a # runes [b]"
        using a by (simp add: s runes_def byte_values_def)
      moreover have "runes [b] = (if (of_char b :: nat) < 128 then [of_char b] else [65533])"
        by (simp add: runes_def byte_values_def utf8_tail_def)
      ultimately show ?thesis using assms(2) by (auto simp: isDigitRunes_def split: if_splits)
    qed
    ultimately have "runes s = [of_char a, of_char b]"
      by (simp add: s runes_def byte_values_def)
    then show ?thesis using assms(2) by (simp add: isDigitRunes_def)
  qed
  moreover have eq: "(c = d) \<longleftrightarrow> (of_char c :: nat) = of_char d" for c d :: char by simp
  ultimately show "\<not> s < ''01'' \<longleftrightarrow> 1 \<le> digits_value 0 s"
    and "\<not> ''12'' < s \<longleftrightarrow> digits_value 0 s \<le> 12"
    and "\<not> ''31'' < s \<longleftrightarrow> digits_value 0 s \<le> 31"
    unfolding s Cons_less_Cons digit_less_iff eq by (simp_all, presburger+)
qed

text \<open>The date check accepts exactly the ten-byte strings \<open>YYYY-MM-DD\<close> whose parts are
  digits with a month from 1 to 12 and a day from 1 to 31, compared as numbers although the
  code compares strings.  It does not look at the length of the month.\<close>

theorem optionalDate_accepts:
  assumes "v \<noteq> ''''"
  shows "optionalDate f (Some v) = None \<longleftrightarrow>
    length v = 10 \<and> isDigitRunes (take 4 v) \<and> v ! 4 = CHR ''-'' \<and> v ! 7 = CHR ''-'' \<and>
    isDigitRunes (take 2 (drop 5 v)) \<and> isDigitRunes (drop 8 v) \<and>
    digits_value 0 (take 2 (drop 5 v)) \<in> {1..12} \<and> digits_value 0 (drop 8 v) \<in> {1..31}"
proof (cases "length v = 10 \<and> isDigitRunes (take 2 (drop 5 v)) \<and> isDigitRunes (drop 8 v)")
  case True
  then have m: "length (take 2 (drop 5 v)) = 2" and d: "length (drop 8 v) = 2" by auto
  show ?thesis
    using True assms two_digit_bounds[OF m] two_digit_bounds[OF d]
    by (auto simp: optionalDate_def)
next
  case False
  then show ?thesis using assms by (auto simp: optionalDate_def)
qed

theorem optionalDate_accepts_witness:
  "optionalDate (Field ''password_expires_at'') (Some ''2026-02-31'') = None \<and>
   optionalDate (Field ''password_expires_at'') (Some ''2026-13-01'') \<noteq> None"
proof -
  have "optionalDate (Field ''password_expires_at'') (Some ''2026-02-31'') = None"
    by (subst optionalDate_accepts, simp, code_simp)
  moreover have "\<not> optionalDate (Field ''password_expires_at'') (Some ''2026-13-01'') = None"
    by (subst optionalDate_accepts, simp, code_simp)
  ultimately show ?thesis by simp
qed

section \<open>Tags\<close>

fun collect_tags :: "string list \<Rightarrow> string list \<Rightarrow> vault_error + string list" where
  "collect_tags out [] = Inr (rev out)"
| "collect_tags out (t # ts) =
    (if rune_count t < 1 \<or> MaxTagRunes < rune_count t then Inl ErrPayloadInvalid
     else if t \<in> set out then collect_tags out ts
     else collect_tags (t # out) ts)"

definition validateTags :: "string list \<Rightarrow> vault_error + string list" where
  "validateTags tags =
    (if MaxTagsCount < length tags then Inl ErrPayloadInvalid else collect_tags [] tags)"

fun keep_first :: "string list \<Rightarrow> string list" where
  "keep_first [] = []"
| "keep_first (t # ts) = t # filter (\<lambda>x. x \<noteq> t) (keep_first ts)"

lemma keep_first_spec: "distinct (keep_first ts) \<and> set (keep_first ts) = set ts \<and>
    length (keep_first ts) \<le> length ts"
proof (induction ts)
  case Nil
  then show ?case by simp
next
  case (Cons t ts)
  then show ?case
    by (auto intro: order_trans[OF length_filter_le])
qed

lemma collect_tags_Inr:
  "collect_tags out ts = Inr r \<longleftrightarrow>
     (\<forall>t \<in> set ts. 1 \<le> rune_count t \<and> rune_count t \<le> MaxTagRunes) \<and>
     r = rev out @ filter (\<lambda>x. x \<notin> set out) (keep_first ts)"
proof (induction out ts rule: collect_tags.induct)
  case (1 out)
  then show ?case by auto
next
  case (2 out t ts)
  show ?case
  proof (cases "rune_count t < 1 \<or> MaxTagRunes < rune_count t")
    case True
    then show ?thesis by auto
  next
    case False
    have "filter (\<lambda>x. x \<notin> set out) (filter (\<lambda>x. x \<noteq> t) (keep_first ts))
        = filter (\<lambda>x. x \<notin> set out) (keep_first ts)" if "t \<in> set out"
      using that by (auto intro!: filter_cong simp: filter_filter)
    moreover have "filter (\<lambda>x. x \<notin> set out) (filter (\<lambda>x. x \<noteq> t) (keep_first ts))
        = filter (\<lambda>x. x \<notin> set (t # out)) (keep_first ts)"
      by (auto intro!: filter_cong simp: filter_filter)
    ultimately show ?thesis using False 2 by (auto simp: not_less)
  qed
qed

text \<open>The tag list is normalised to first occurrences in order: an accepted list loses only
  its duplicates, so the stored tags are distinct, at most 32, each 1 to 64 code points, and
  normalising them again changes nothing.\<close>

theorem validateTags_normalises:
  assumes "validateTags tags = Inr out"
  shows "out = keep_first tags \<and> distinct out \<and> set out = set tags \<and> length out \<le> 32
    \<and> (\<forall>t \<in> set out. 1 \<le> rune_count t \<and> rune_count t \<le> 64) \<and> validateTags out = Inr out"
proof -
  from assms have len: "length tags \<le> 32" and col: "collect_tags [] tags = Inr out"
    by (auto simp: validateTags_def MaxTagsCount_def split: if_splits)
  then have out: "out = keep_first tags" and rng: "\<forall>t \<in> set tags. 1 \<le> rune_count t \<and> rune_count t \<le> 64"
    by (auto simp: collect_tags_Inr MaxTagRunes_def)
  have spec: "distinct out" "set out = set tags" "length out \<le> 32"
    using keep_first_spec[of tags] len out by auto
  have "keep_first xs = xs" if "distinct xs" for xs
    using that by (induction xs) (auto simp: filter_id_conv)
  then have "validateTags out = Inr out"
    using spec rng by (auto simp: validateTags_def collect_tags_Inr MaxTagsCount_def MaxTagRunes_def)
  with out spec rng show ?thesis by simp
qed

theorem validateTags_normalises_witness:
  "validateTags [''b'', ''a'', ''b''] = Inr [''b'', ''a''] \<and> validateTags [''b'', ''a''] = Inr [''b'', ''a'']"
proof -
  have v: "validateTags [''b'', ''a'', ''b''] = Inr [''b'', ''a'']" by code_simp
  with validateTags_normalises[OF v] show ?thesis by simp
qed

section \<open>Envelope\<close>

record stored_payload =
  sp_version :: int
  sp_tags :: "string list"
  sp_login :: "login_payload option"
  sp_ssh_key :: "ssh_key_payload option"
  sp_credit_card :: "credit_card_payload option"
  sp_identity :: "identity_payload option"
  sp_secure_note :: "secure_note_payload option"
  sp_secret :: "secret_payload option"

definition PayloadSchemaVersion :: int where "PayloadSchemaVersion = 1"

definition empty_envelope :: "string list \<Rightarrow> stored_payload" where
  "empty_envelope tags = \<lparr>sp_version = PayloadSchemaVersion, sp_tags = tags, sp_login = None,
     sp_ssh_key = None, sp_credit_card = None, sp_identity = None, sp_secure_note = None,
     sp_secret = None\<rparr>"

text \<open>
  \<open>encoding/json\<close>: the deterministic encoder of the envelope, its decoder, and the strict
  decoder of a client payload (\<open>DisallowUnknownFields\<close>, then end of input) for an item type.
\<close>

record codec =
  marshal :: "stored_payload \<Rightarrow> bytes"
  unmarshal :: "bytes \<Rightarrow> stored_payload option"
  decode_strict :: "string \<Rightarrow> string \<Rightarrow> payload option"

text \<open>
  JSON text carries valid UTF-8 only (Go replaces other bytes) and Go integers have 64 bits.
  \<open>payload_wire\<close> and \<open>envelope_wire\<close> are the values that JSON can carry unchanged.
\<close>

fun payload_texts :: "payload \<Rightarrow> string list" where
  "payload_texts (Login p) = [lp_name p, lp_username p, lp_password p, lp_notes p] @ lp_urls p
     @ (case lp_updated_at p of None \<Rightarrow> [] | Some x \<Rightarrow> [x])
     @ (case lp_expires_at p of None \<Rightarrow> [] | Some x \<Rightarrow> [x])"
| "payload_texts (SSHKey p) = [sk_name p, sk_algorithm p, sk_public p, sk_private p,
     sk_passphrase p, sk_comment p, sk_fingerprint p, sk_notes p]"
| "payload_texts (CreditCard p) = [cc_name p, cc_cardholder p, cc_number p, cc_cvv p, cc_pin p,
     cc_notes p] @ (case cc_billing p of None \<Rightarrow> [] | Some x \<Rightarrow> [x])"
| "payload_texts (Identity p) = [id_name p, id_full_name p, id_company p, id_phone p, id_email p,
     id_country p, id_state p, id_city p, id_district p, id_address_line p, id_postal_code p,
     id_notes p]"
| "payload_texts (SecureNote p) = [sn_name p, sn_body p]"
| "payload_texts (Secret p) = [sc_name p, sc_notes p] @ map se_key (sc_entries p)
     @ map se_value (sc_entries p)"

fun payload_ints :: "payload \<Rightarrow> int list" where
  "payload_ints (CreditCard p) = [cc_exp_month p, cc_exp_year p]"
| "payload_ints _ = []"

definition payload_wire :: "payload \<Rightarrow> bool" where
  "payload_wire p \<longleftrightarrow> list_all valid_utf8 (payload_texts p) \<and>
     list_all (\<lambda>i. - (2 ^ 63) \<le> i \<and> i < 2 ^ 63) (payload_ints p)"

definition envelope_payloads :: "stored_payload \<Rightarrow> payload list" where
  "envelope_payloads e =
     (case sp_login e of None \<Rightarrow> [] | Some p \<Rightarrow> [Login p])
     @ (case sp_ssh_key e of None \<Rightarrow> [] | Some p \<Rightarrow> [SSHKey p])
     @ (case sp_credit_card e of None \<Rightarrow> [] | Some p \<Rightarrow> [CreditCard p])
     @ (case sp_identity e of None \<Rightarrow> [] | Some p \<Rightarrow> [Identity p])
     @ (case sp_secure_note e of None \<Rightarrow> [] | Some p \<Rightarrow> [SecureNote p])
     @ (case sp_secret e of None \<Rightarrow> [] | Some p \<Rightarrow> [Secret p])"

definition envelope_wire :: "stored_payload \<Rightarrow> bool" where
  "envelope_wire e \<longleftrightarrow> list_all valid_utf8 (sp_tags e) \<and> list_all payload_wire (envelope_payloads e)
     \<and> sp_version e = PayloadSchemaVersion"

text \<open>What the code relies on: an envelope that JSON can carry survives marshalling, and the
  strict decoder fills the struct of the requested type with such values.\<close>

definition codec_ok :: "codec \<Rightarrow> bool" where
  "codec_ok C \<longleftrightarrow> (\<forall>e. envelope_wire e \<longrightarrow> unmarshal C (marshal C e) = Some e) \<and>
     (\<forall>t raw p. decode_strict C t raw = Some p \<longrightarrow> payload_type p = t \<and> payload_wire p)"

definition decodePayload :: "codec \<Rightarrow> string \<Rightarrow> string \<Rightarrow> vault_error + payload" where
  "decodePayload C itemType raw =
    (if blank raw then Inl ErrPayloadInvalid
     else if \<not> ItemTypes itemType then Inl ErrInvalidItemType
     else case decode_strict C itemType raw of
       None \<Rightarrow> Inl ErrPayloadInvalid
     | Some p \<Rightarrow> (case validate_payload p of Some _ \<Rightarrow> Inl ErrPayloadInvalid | None \<Rightarrow> Inr p))"

fun put_payload :: "stored_payload \<Rightarrow> payload \<Rightarrow> stored_payload" where
  "put_payload e (Login p) = e\<lparr>sp_login := Some p\<rparr>"
| "put_payload e (SSHKey p) = e\<lparr>sp_ssh_key := Some p\<rparr>"
| "put_payload e (CreditCard p) = e\<lparr>sp_credit_card := Some p\<rparr>"
| "put_payload e (Identity p) = e\<lparr>sp_identity := Some p\<rparr>"
| "put_payload e (SecureNote p) = e\<lparr>sp_secure_note := Some p\<rparr>"
| "put_payload e (Secret p) = e\<lparr>sp_secret := Some p\<rparr>"

definition buildEnvelope ::
  "codec \<Rightarrow> string list \<Rightarrow> payload \<Rightarrow> vault_error + (stored_payload \<times> bytes)" where
  "buildEnvelope C tags p =
    (let env = put_payload (empty_envelope tags) p; raw = marshal C env in
     if MaxPayloadBytes < length raw then Inl ErrPayloadTooLarge else Inr (env, raw))"

definition typedPayloadOf :: "string \<Rightarrow> stored_payload \<Rightarrow> payload option" where
  "typedPayloadOf itemType e =
    (if itemType = TypeLogin then map_option Login (sp_login e)
     else if itemType = TypeSSHKey then map_option SSHKey (sp_ssh_key e)
     else if itemType = TypeCreditCard then map_option CreditCard (sp_credit_card e)
     else if itemType = TypeIdentity then map_option Identity (sp_identity e)
     else if itemType = TypeSecureNote then map_option SecureNote (sp_secure_note e)
     else if itemType = TypeSecret then map_option Secret (sp_secret e)
     else None)"

fun referenceTarget :: "payload \<Rightarrow> string option" where
  "referenceTarget (CreditCard p) = cc_billing p"
| "referenceTarget _ = None"

lemma envelope_wire_put:
  "list_all valid_utf8 tags \<Longrightarrow> payload_wire p \<Longrightarrow> envelope_wire (put_payload (empty_envelope tags) p)"
  by (cases p) (simp_all add: envelope_wire_def envelope_payloads_def empty_envelope_def)

lemma typedPayloadOf_put [simp]:
  "typedPayloadOf (payload_type p) (put_payload (empty_envelope tags) p) = Some p"
  by (cases p) (simp_all add: typedPayloadOf_def)

lemma put_payload_meta [simp]:
  "sp_version (put_payload e p) = sp_version e" "sp_tags (put_payload e p) = sp_tags e"
  by (cases p; simp)+

lemma empty_envelope_meta [simp]:
  "sp_version (empty_envelope tags) = PayloadSchemaVersion" "sp_tags (empty_envelope tags) = tags"
  by (simp_all add: empty_envelope_def)

lemma typedPayloadOf_type: "typedPayloadOf t e = Some p \<Longrightarrow> payload_type p = t"
  by (auto simp: typedPayloadOf_def split: if_splits)

lemma buildEnvelope_InrD:
  "buildEnvelope C tags p = Inr (env, raw) \<Longrightarrow>
     env = put_payload (empty_envelope tags) p \<and> raw = marshal C env \<and> length raw \<le> MaxPayloadBytes"
  by (auto simp: buildEnvelope_def Let_def split: if_splits)

lemma decodePayload_InrD:
  "decodePayload C t raw = Inr p \<Longrightarrow> codec_ok C \<Longrightarrow>
     payload_type p = t \<and> payload_wire p \<and> ItemTypes t \<and> validate_payload p = None"
  by (auto simp: decodePayload_def codec_ok_def split: if_splits option.splits)

end
