(* ===== verification/VaultRepo.thy ===== *)
theory VaultRepo
  imports Payloads
begin

text \<open>
  \<open>internal/vault/repository.go\<close>: the statements on \<open>vault_items\<close> and \<open>item_versions\<close>, and the
  row projections.  A statement that can violate a constraint returns the violation.
\<close>

section \<open>Projections\<close>

record meta =
  m_id :: string
  m_title :: string
  m_type :: string
  m_scope :: string
  m_owner :: "string option"
  m_creator :: "string option"
  m_creator_name :: string
  m_favorite :: bool
  m_rev :: nat
  m_created :: time
  m_updated :: time
  m_deleted :: "time option"

definition toMeta :: "item_row \<Rightarrow> meta" where
  "toMeta r = \<lparr>m_id = it_id r, m_title = '''', m_type = it_type r, m_scope = it_scope r,
     m_owner = it_owner r, m_creator = it_creator r, m_creator_name = '''',
     m_favorite = it_favorite r, m_rev = it_rev r, m_created = it_created r,
     m_updated = it_updated r, m_deleted = it_deleted r\<rparr>"

definition null_string :: "string option \<Rightarrow> string" where
  "null_string x = (case x of None \<Rightarrow> '''' | Some s \<Rightarrow> s)"

definition nullable :: "string \<Rightarrow> string option" where
  "nullable s = (if s = '''' then None else Some s)"

definition policyView :: "item_row \<Rightarrow> item_view" where
  "policyView r = policyItem (it_scope r) (null_string (it_owner r)) (null_string (it_creator r))"

lemma policyView_simps [simp]:
  "iv_scope (policyView r) = it_scope r" "iv_owner (policyView r) = null_string (it_owner r)"
  "iv_creator (policyView r) = null_string (it_creator r)"
  by (simp_all add: policyView_def policyItem_def)

lemma null_string_nullable [simp]: "null_string (nullable s) = s"
  by (simp add: null_string_def nullable_def)

section \<open>Statements\<close>

definition MaxHistoryVersions :: nat where "MaxHistoryVersions = 10"

definition insertItem :: "item_row \<Rightarrow> db \<Rightarrow> constraint_error + db" where
  "insertItem r d = insert_item_row (r\<lparr>it_deleted := None\<rparr>) d"

definition getItem :: "string \<Rightarrow> db \<Rightarrow> item_row option" where
  "getItem iid d = sql_get it_id iid (items d)"

definition version_of :: "item_row \<Rightarrow> version_row" where
  "version_of r = \<lparr>v_item = it_id r, v_rev = it_rev r, v_pver = it_pver r, v_nonce = it_nonce r,
     v_ct = it_ct r, v_created = it_updated r\<rparr>"

definition insertVersion :: "item_row \<Rightarrow> db \<Rightarrow> constraint_error + db" where
  "insertVersion r d = insert_version_row (version_of r) d"

text \<open>\<open>SELECT revision ... ORDER BY revision DESC LIMIT 10\<close>.\<close>

definition revisions_of :: "string \<Rightarrow> db \<Rightarrow> nat list" where
  "revisions_of iid d = map v_rev (filter (\<lambda>v. v_item v = iid) (versions d))"

definition newest_revisions :: "string \<Rightarrow> db \<Rightarrow> nat list" where
  "newest_revisions iid d = take MaxHistoryVersions (rev (sort (revisions_of iid d)))"

definition pruneVersions :: "string \<Rightarrow> db \<Rightarrow> db" where
  "pruneVersions iid d = d\<lparr>versions :=
     sql_delete (\<lambda>v. v_item v = iid \<and> v_rev v \<notin> set (newest_revisions iid d)) (versions d)\<rparr>"

definition at_revision :: "string \<Rightarrow> nat \<Rightarrow> item_row \<Rightarrow> bool" where
  "at_revision iid rv r \<longleftrightarrow> it_id r = iid \<and> it_rev r = rv \<and> it_deleted r = None"

definition updateItem ::
  "item_row \<Rightarrow> encrypted_payload \<Rightarrow> bool \<Rightarrow> time \<Rightarrow> db \<Rightarrow> constraint_error + (bool \<times> db)" where
  "updateItem cur enc fav updatedAt d =
    andthen (insertVersion cur d) (\<lambda>d1.
      if sql_affected (at_revision (it_id cur) (it_rev cur)) (items d1) \<noteq> 1 then Inr (False, d1)
      else Inr (True, pruneVersions (it_id cur) (d1\<lparr>items :=
        sql_update (at_revision (it_id cur) (it_rev cur))
          (\<lambda>r. r\<lparr>it_pver := ep_version enc, it_nonce := ep_nonce enc, it_ct := ep_ciphertext enc,
                it_rev := it_rev r + 1, it_favorite := fav, it_updated := updatedAt\<rparr>)
          (items d1)\<rparr>)))"

definition listHistory :: "string \<Rightarrow> nat \<Rightarrow> nat \<Rightarrow> db \<Rightarrow> (nat \<times> time) list" where
  "listHistory iid before limit d =
     map (\<lambda>v. (v_rev v, v_created v))
       (keyset_page v_rev (\<lambda>v. v_item v = iid) (if before = 0 then None else Some before)
          limit (versions d))"

definition getHistoryVersion :: "string \<Rightarrow> nat \<Rightarrow> db \<Rightarrow> version_row option" where
  "getHistoryVersion iid rv d = sql_get version_key (iid, rv) (versions d)"

definition setDeletedAt :: "string \<Rightarrow> time option \<Rightarrow> db \<Rightarrow> bool \<times> db" where
  "setDeletedAt iid at d =
    (let p = (\<lambda>r. it_id r = iid \<and> (case at of None \<Rightarrow> it_deleted r \<noteq> None | Some _ \<Rightarrow> it_deleted r = None))
     in (sql_affected p (items d) = 1,
         d\<lparr>items := sql_update p (\<lambda>r. r\<lparr>it_deleted := at\<rparr>) (items d)\<rparr>))"

definition deleteItemCompletely :: "string \<Rightarrow> db \<Rightarrow> db" where
  "deleteItemCompletely iid d = delete_item_rows (\<lambda>r. it_id r = iid) d"

definition deleteItemAtRevision :: "string \<Rightarrow> nat \<Rightarrow> db \<Rightarrow> bool \<times> db" where
  "deleteItemAtRevision iid rv d =
     (sql_affected (at_revision iid rv) (items d) = 1, delete_item_rows (at_revision iid rv) d)"

definition expiredTrashIDs :: "time \<Rightarrow> db \<Rightarrow> string list" where
  "expiredTrashIDs cutoff d = sort (map it_id
     (filter (\<lambda>r. case it_deleted r of None \<Rightarrow> False | Some t \<Rightarrow> t \<le> cutoff) (items d)))"

definition currentRevision :: "string \<Rightarrow> db \<Rightarrow> nat option" where
  "currentRevision iid d =
    (case getItem iid d of None \<Rightarrow> None
     | Some r \<Rightarrow> if it_deleted r \<noteq> None then None else Some (it_rev r))"

definition item_pos :: "item_row \<Rightarrow> time \<times> string" where
  "item_pos r = (it_updated r, it_id r)"

definition listRows ::
  "(item_row \<Rightarrow> bool) \<Rightarrow> (time \<times> string) option \<Rightarrow> nat \<Rightarrow> db \<Rightarrow> item_row list" where
  "listRows p before limit d =
     keyset_page item_pos p before (if limit = 0 then length (items d) else limit) (items d)"

section \<open>The retained history\<close>

text \<open>
  \<open>history_exact\<close>: the archived versions of an item at revision \<open>n\<close> are exactly the last ten
  revisions before \<open>n\<close>, no more and without gaps.
\<close>

definition archived_revisions :: "string \<Rightarrow> db \<Rightarrow> nat set" where
  "archived_revisions iid d = set (revisions_of iid d)"

definition history_exact :: "db \<Rightarrow> bool" where
  "history_exact d \<longleftrightarrow> (\<forall>r \<in> set (items d).
     archived_revisions (it_id r) d = {max 1 (it_rev r - 10) ..< it_rev r})"

lemma archived_revisions_iff:
  "n \<in> archived_revisions iid d \<longleftrightarrow> (\<exists>v \<in> set (versions d). v_item v = iid \<and> v_rev v = n)"
  by (auto simp: revisions_of_def archived_revisions_def)

lemma distinct_revisions_of:
  "distinct (map version_key (versions d)) \<Longrightarrow> distinct (revisions_of iid d)"
  by (auto simp: revisions_of_def distinct_map inj_on_def version_key_def)

lemma newest_of_interval:
  assumes "distinct L" and "set L = {a..n}"
  shows "set (take k (rev (sort L))) = {max a (Suc n - k)..n}"
proof -
  have "sort L = [a..<Suc n]"
    using assms
    by (intro sorted_distinct_set_unique)
       (simp_all add: atLeastLessThanSuc_atLeastAtMost del: upt_Suc)
  then have "take k (rev (sort L)) = rev (drop (Suc n - a - k) [a..<Suc n])"
    by (simp add: take_rev del: upt_Suc)
  also have "set \<dots> = {a + (Suc n - a - k)..<Suc n}"
    by (simp add: drop_upt del: upt_Suc)
  also have "\<dots> = {max a (Suc n - k)..n}" by auto
  finally show ?thesis .
qed

lemma getItem_iff: "tables_ok d \<Longrightarrow> getItem iid d = Some r \<longleftrightarrow> r \<in> set (items d) \<and> it_id r = iid"
  unfolding getItem_def tables_ok_def by (rule item_table.get_iff) simp

lemma getItem_SomeD: "getItem iid d = Some r \<Longrightarrow> r \<in> set (items d) \<and> it_id r = iid"
  unfolding getItem_def by (rule item_table.get_SomeD)

lemma at_revision_unique:
  "tables_ok d \<Longrightarrow> getItem iid d = Some r \<Longrightarrow> it_deleted r = None \<Longrightarrow>
   sql_affected (at_revision iid (it_rev r)) (items d) = 1"
proof -
  assume ok: "tables_ok d" and g: "getItem iid d = Some r" and nd: "it_deleted r = None"
  have "sql_affected (at_revision iid (it_rev r)) (items d) \<le> 1"
    using ok by (intro sql_affected_le1[where key = it_id and k = iid]) (auto simp: tables_ok_def at_revision_def)
  moreover have "0 < sql_affected (at_revision iid (it_rev r)) (items d)"
    using getItem_SomeD[OF g] nd by (auto simp: sql_simps at_revision_def)
  ultimately show ?thesis by simp
qed

definition bump :: "encrypted_payload \<Rightarrow> bool \<Rightarrow> time \<Rightarrow> item_row \<Rightarrow> item_row" where
  "bump enc fav at r = r\<lparr>it_pver := ep_version enc, it_nonce := ep_nonce enc,
     it_ct := ep_ciphertext enc, it_rev := it_rev r + 1, it_favorite := fav, it_updated := at\<rparr>"

lemma bump_simps [simp]:
  "it_id (bump e f t r) = it_id r" "it_scope (bump e f t r) = it_scope r"
  "it_owner (bump e f t r) = it_owner r" "it_creator (bump e f t r) = it_creator r"
  "it_type (bump e f t r) = it_type r" "it_rev (bump e f t r) = Suc (it_rev r)"
  "it_pver (bump e f t r) = ep_version e" "it_nonce (bump e f t r) = ep_nonce e"
  "it_ct (bump e f t r) = ep_ciphertext e" "it_favorite (bump e f t r) = f"
  "it_updated (bump e f t r) = t" "it_created (bump e f t r) = it_created r"
  "it_deleted (bump e f t r) = it_deleted r"
  by (simp_all add: bump_def)

text \<open>
  The effect of an applied update on the tables: one row replaced, the superseded row archived,
  the history pruned.
\<close>

definition updated_db :: "item_row \<Rightarrow> encrypted_payload \<Rightarrow> bool \<Rightarrow> time \<Rightarrow> db \<Rightarrow> db" where
  "updated_db cur enc fav at d = pruneVersions (it_id cur)
     (d\<lparr>versions := versions d @ [version_of cur],
        items := sql_update (at_revision (it_id cur) (it_rev cur)) (bump enc fav at) (items d)\<rparr>)"

lemma pruneVersions_frame [simp]:
  "items (pruneVersions iid d) = items d" "users (pruneVersions iid d) = users d"
  "audits (pruneVersions iid d) = audits d" "idem (pruneVersions iid d) = idem d"
  "sessions (pruneVersions iid d) = sessions d"
  by (simp_all add: pruneVersions_def)

lemma updateItem_InrD:
  assumes "updateItem cur enc fav at d = Inr (True, d')"
  shows "d' = updated_db cur enc fav at d"
proof -
  from assms obtain d1 where ins: "insertVersion cur d = Inr d1"
    and d': "d' = pruneVersions (it_id cur) (d1\<lparr>items :=
        sql_update (at_revision (it_id cur) (it_rev cur)) (bump enc fav at) (items d1)\<rparr>)"
    by (auto simp: updateItem_def result_Inr bump_def[abs_def] split: if_splits)
  have "d1 = d\<lparr>versions := versions d @ [version_of cur]\<rparr>"
    using insert_version_row_InrD ins by (auto simp: insertVersion_def)
  then show ?thesis unfolding d' updated_db_def by simp
qed

text \<open>Under the invariant an update of a live row that was read in the same transaction always
  applies: archiving cannot collide with an existing version.\<close>

lemma updateItem_applies:
  assumes ok: "tables_ok d" and hist: "history_exact d" and g: "getItem iid d = Some cur"
    and nd: "it_deleted cur = None"
  shows "updateItem cur enc fav at d = Inr (True, updated_db cur enc fav at d)"
proof -
  from getItem_SomeD[OF g] have mem: "cur \<in> set (items d)" and iid: "it_id cur = iid" by auto
  from ok mem have chk: "it_pver cur \<noteq> 0" "1 \<le> it_rev cur"
    by (auto simp: tables_ok_def item_check_def)
  have "version_key (version_of cur) \<notin> version_key ` set (versions d)"
  proof
    assume "version_key (version_of cur) \<in> version_key ` set (versions d)"
    then have "it_rev cur \<in> archived_revisions (it_id cur) d"
      by (auto simp: archived_revisions_iff version_key_def version_of_def image_iff)
    with hist mem show False by (auto simp: history_exact_def)
  qed
  with chk mem have ins: "insertVersion cur d = Inr (d\<lparr>versions := versions d @ [version_of cur]\<rparr>)"
    unfolding insertVersion_def by (intro insert_version_row_ok) (auto simp: version_of_def)
  have "sql_affected (at_revision (it_id cur) (it_rev cur)) (items d) = 1"
    using at_revision_unique[OF ok g nd] iid by simp
  then show ?thesis
    by (simp add: updateItem_def ins updated_db_def bump_def[abs_def])
qed

lemma updated_db_items:
  "set (items (updated_db cur enc fav at d)) =
     (\<lambda>r. if at_revision (it_id cur) (it_rev cur) r then bump enc fav at r else r) ` set (items d)"
  by (simp add: updated_db_def sql_simps)

lemma updated_db_versions:
  "set (versions (updated_db cur enc fav at d)) \<subseteq> insert (version_of cur) (set (versions d))"
  by (auto simp: updated_db_def pruneVersions_def sql_simps)

lemma archived_other:
  "iid \<noteq> it_id cur \<Longrightarrow> archived_revisions iid (updated_db cur enc fav at d) = archived_revisions iid d"
  by (auto simp: set_eq_iff archived_revisions_iff updated_db_def pruneVersions_def sql_simps version_of_def)

lemma archived_same:
  assumes ok: "tables_ok d" and hist: "history_exact d" and mem: "cur \<in> set (items d)"
  shows "archived_revisions (it_id cur) (updated_db cur enc fav at d)
    = {max 1 (Suc (it_rev cur) - 10) ..< Suc (it_rev cur)}"
proof -
  let ?d1 = "d\<lparr>versions := versions d @ [version_of cur],
        items := sql_update (at_revision (it_id cur) (it_rev cur)) (bump enc fav at) (items d)\<rparr>"
  have rev1: "1 \<le> it_rev cur" using ok mem by (auto simp: tables_ok_def item_check_def)
  have old: "archived_revisions (it_id cur) d = {max 1 (it_rev cur - 10) ..< it_rev cur}"
    using hist mem by (auto simp: history_exact_def)
  have "archived_revisions (it_id cur) ?d1 = insert (it_rev cur) (archived_revisions (it_id cur) d)"
    by (simp add: archived_revisions_def revisions_of_def version_of_def)
  also have "\<dots> = {max 1 (it_rev cur - 10) .. it_rev cur}"
    unfolding old using rev1 by auto
  finally have set1: "set (revisions_of (it_id cur) ?d1) = {max 1 (it_rev cur - 10) .. it_rev cur}"
    by (simp add: archived_revisions_def)
  have "it_rev cur \<notin> set (revisions_of (it_id cur) d)"
    using old by (simp add: archived_revisions_def)
  then have dist: "distinct (revisions_of (it_id cur) ?d1)"
    using distinct_revisions_of[of d "it_id cur"] ok
    by (auto simp: revisions_of_def version_of_def tables_ok_def)
  have "set (newest_revisions (it_id cur) ?d1) = {max 1 (Suc (it_rev cur) - 10) .. it_rev cur}"
    unfolding newest_revisions_def MaxHistoryVersions_def newest_of_interval[OF dist set1]
    using rev1 by (auto simp: max_def)
  moreover have "archived_revisions (it_id cur) (updated_db cur enc fav at d)
      = set (revisions_of (it_id cur) ?d1) \<inter> set (newest_revisions (it_id cur) ?d1)"
    by (auto simp: archived_revisions_def revisions_of_def updated_db_def pruneVersions_def sql_simps)
  ultimately show ?thesis unfolding set1 using rev1 by (auto simp: max_def split: if_splits)
qed

lemma updated_db_history:
  assumes ok: "tables_ok d" and hist: "history_exact d" and g: "getItem iid d = Some cur"
    and nd: "it_deleted cur = None"
  shows "history_exact (updated_db cur enc fav at d)"
  unfolding history_exact_def
proof
  fix r assume "r \<in> set (items (updated_db cur enc fav at d))"
  then obtain r0 where r0: "r0 \<in> set (items d)"
    and r: "r = (if at_revision (it_id cur) (it_rev cur) r0 then bump enc fav at r0 else r0)"
    by (auto simp: updated_db_items)
  have mem: "cur \<in> set (items d)" using getItem_SomeD[OF g] by simp
  show "archived_revisions (it_id r) (updated_db cur enc fav at d) = {max 1 (it_rev r - 10)..<it_rev r}"
  proof (cases "it_id r0 = it_id cur")
    case True
    then have "r0 = cur"
      using ok r0 mem distinct_key_unique[of it_id "items d"] by (auto simp: tables_ok_def)
    with r nd have "r = bump enc fav at cur" by (simp add: at_revision_def)
    then show ?thesis using archived_same[OF ok hist mem] by simp
  next
    case False
    then have "r = r0" using r by (simp add: at_revision_def)
    then show ?thesis using False r0 hist by (simp add: archived_other history_exact_def)
  qed
qed

lemma updated_db_tables_ok:
  assumes ok: "tables_ok d" and hist: "history_exact d" and g: "getItem iid d = Some cur"
    and pv: "ep_version enc \<noteq> 0"
  shows "tables_ok (updated_db cur enc fav at d)"
proof -
  let ?d' = "updated_db cur enc fav at d"
  have mem: "cur \<in> set (items d)" using getItem_SomeD[OF g] by simp
  have ids: "map it_id (items ?d') = map it_id (items d)"
    by (simp add: updated_db_def map_sql_update)
  have refs: "item_refs ?d' = item_refs d" by (intro item_refs_cong) (simp add: updated_db_def)
  have rows: "item_check r \<and> item_refs ?d' r" if "r \<in> set (items ?d')" for r
    using that ok pv unfolding refs
    by (auto simp: updated_db_items tables_ok_def item_check_def item_refs_def)
  have "it_rev cur \<notin> archived_revisions (it_id cur) d"
    using hist mem by (auto simp: history_exact_def)
  then have "version_key (version_of cur) \<notin> version_key ` set (versions d)"
    by (auto simp: archived_revisions_iff version_key_def version_of_def image_iff)
  then have dv: "distinct (map version_key (versions ?d'))"
    using ok by (auto simp: updated_db_def pruneVersions_def tables_ok_def intro!: distinct_sql_delete)
  have "it_id ` set (items ?d') = it_id ` set (items d)"
    using ids by (metis list.set_map)
  moreover have "v_item v \<in> it_id ` set (items d)" if "v \<in> set (versions ?d')" for v
  proof -
    from that have "v = version_of cur \<or> v \<in> set (versions d)"
      using updated_db_versions by blast
    then show ?thesis
    proof
      assume "v = version_of cur"
      with mem show ?thesis by (simp add: version_of_def)
    next
      assume "v \<in> set (versions d)"
      with ok show ?thesis by (metis imageI tables_ok_def)
    qed
  qed
  ultimately have "\<exists>r \<in> set (items ?d'). it_id r = v_item v" if "v \<in> set (versions ?d')" for v
    using that by (metis imageE)
  with ids rows dv ok show ?thesis by (simp add: tables_ok_def)
qed

end
