(* ===== verification/VaultService.thy ===== *)
theory VaultService
  imports VaultRepo
begin

text \<open>
  \<open>internal/vault/service.go\<close>: the item lifecycle.  The record \<open>venv\<close> holds what the service was
  built with (master key, AEAD, JSON codec, audit service, clocks) and what one operation
  draws: fresh item ids and encryption nonces, in the order of the draws; \<open>ve_ulow\<close> is the
  Unicode part of \<open>strings.ToLower\<close>.  Every operation is a
  state passing function on the database; a transaction is the body under \<open>in_tx\<close>.
\<close>

section \<open>Environment, details and row encryption\<close>

record venv =
  ve_aead :: aead
  ve_key :: bytes
  ve_codec :: codec
  ve_audit :: audit_env
  ve_idem :: idem_options
  ve_now :: time
  ve_ids :: "nat \<Rightarrow> string"
  ve_nonces :: "nat \<Rightarrow> bytes"
  ve_ulow :: "string \<Rightarrow> string"

text \<open>The documented behaviour the service relies on.\<close>

definition venv_ok :: "venv \<Rightarrow> bool" where
  "venv_ok V \<longleftrightarrow> aead_opens (ve_aead V) \<and> codec_ok (ve_codec V)
     \<and> (\<forall>i. length (ve_nonces V i) = nonceSize)"

record detail =
  dt_meta :: meta
  dt_tags :: "string list"
  dt_payload :: payload

definition AADFor ::
  "string \<Rightarrow> string \<Rightarrow> string \<Rightarrow> string \<Rightarrow> 16 word \<Rightarrow> nat \<Rightarrow> AAD" where
  "AADFor iid sc own cre pv rv =
     \<lparr>ItemID = iid, Scope = sc, SubjectID = (if own = '''' then cre else own),
      PayloadVersionOf = pv, RevisionOf = of_nat rv\<rparr>"

definition row_aad :: "item_row \<Rightarrow> 16 word \<Rightarrow> nat \<Rightarrow> AAD" where
  "row_aad r pv rv =
     AADFor (it_id r) (it_scope r) (null_string (it_owner r)) (null_string (it_creator r)) pv rv"

text \<open>
  \<open>decryptRow\<close>: canonical plaintext, typed payload and envelope.  The decrypt hook and the
  phase timings of \<open>decryptRowWithProfile\<close> observe only.
\<close>

definition open_envelope :: "venv \<Rightarrow> string \<Rightarrow> bytes \<Rightarrow> vault_error + (bytes \<times> payload \<times> stored_payload)" where
  "open_envelope V itemType raw =
    andthen (from_option ErrStoredPayload (unmarshal (ve_codec V) raw)) (\<lambda>env.
    andthen (ensure (sp_version env = PayloadSchemaVersion) ErrStoredPayload) (\<lambda>_.
    andthen (from_option ErrStoredPayload (typedPayloadOf itemType env)) (\<lambda>p.
    Inr (raw, p, env))))"

definition decryptRow :: "venv \<Rightarrow> item_row \<Rightarrow> vault_error + (bytes \<times> payload \<times> stored_payload)" where
  "decryptRow V r =
    andthen (map_err (\<lambda>_. ErrStoredPayload)
        (DecryptColumns (ve_aead V) (ve_key V) (it_pver r) (it_nonce r) (it_ct r)
           (row_aad r (it_pver r) (it_rev r))))
      (open_envelope V (it_type r))"

definition creator_name :: "db \<Rightarrow> string \<Rightarrow> string" where
  "creator_name d uid = (case sql_get u_id uid (users d) of None \<Rightarrow> '''' | Some u \<Rightarrow> u_display u)"

definition attachCreatorNames :: "db \<Rightarrow> meta list \<Rightarrow> meta list" where
  "attachCreatorNames d ms = map (\<lambda>m.
     case m_creator m of
       Some c \<Rightarrow> if m_scope m = ScopeShared then m\<lparr>m_creator_name := creator_name d c\<rparr> else m
     | None \<Rightarrow> m) ms"

definition decorateDetail :: "db \<Rightarrow> detail \<Rightarrow> detail" where
  "decorateDetail d dt =
    dt\<lparr>dt_meta := hd (attachCreatorNames d [(dt_meta dt)\<lparr>m_title := TitleOf (dt_payload dt)\<rparr>])\<rparr>"

definition item_event :: "string \<Rightarrow> principal \<Rightarrow> string \<Rightarrow> event" where
  "item_event name a iid = mk_event name (p_user a) ''item'' iid ''success''"

definition audit_in :: "venv \<Rightarrow> event \<Rightarrow> db \<Rightarrow> vault_error + db" where
  "audit_in V e d = map_err ErrAudit (Record (ve_audit V) e d)"

definition complete_claim :: "venv \<Rightarrow> claim option \<Rightarrow> string \<Rightarrow> db \<Rightarrow> vault_error + db" where
  "complete_claim V c res d =
    (case c of None \<Rightarrow> Inr d
     | Some cl \<Rightarrow> (case Complete (ve_idem V) (ve_now V) cl res (idem d) of
         Inl e \<Rightarrow> Inl (ErrClaim e) | Inr t \<Rightarrow> Inr (d\<lparr>idem := t\<rparr>)))"

text \<open>Ownership is derived from the acting principal: the owner of a personal item, the creator
  of a shared one.\<close>

definition owner_for :: "string \<Rightarrow> principal \<Rightarrow> string" where
  "owner_for sc a = (if sc = ScopePersonal then p_user a else '''')"

definition creator_for :: "string \<Rightarrow> principal \<Rightarrow> string" where
  "creator_for sc a = (if sc = ScopePersonal then '''' else p_user a)"

text \<open>The row literal of \<open>Create\<close>, \<open>moveOnce\<close> and the import: revision 1, sealed under the new
  row's own AAD with the \<open>k\<close>-th nonce.\<close>

definition sealed_item ::
  "venv \<Rightarrow> nat \<Rightarrow> string \<Rightarrow> string \<Rightarrow> principal \<Rightarrow> string \<Rightarrow> bool \<Rightarrow> bytes \<Rightarrow> item_row" where
  "sealed_item V k iid sc a itemType fav plaintext =
    (let own = owner_for sc a; cre = creator_for sc a;
         enc = Encrypt (ve_aead V) (ve_key V) (ve_nonces V k) plaintext
                 (AADFor iid sc own cre PayloadVersion 1)
     in \<lparr>it_id = iid, it_scope = sc, it_owner = nullable own, it_creator = nullable cre,
         it_type = itemType, it_favorite = fav, it_pver = ep_version enc,
         it_nonce = ep_nonce enc, it_ct = ep_ciphertext enc, it_rev = 1,
         it_created = ve_now V, it_updated = ve_now V, it_deleted = None\<rparr>)"

definition checkReference :: "principal \<Rightarrow> item_view \<Rightarrow> string \<Rightarrow> db \<Rightarrow> vault_error + unit" where
  "checkReference a src ref d =
    andthen (from_option ErrReferenceForbidden (getItem ref d)) (\<lambda>t.
    andthen (ensure (it_type t = TypeIdentity) ErrReferenceForbidden) (\<lambda>_.
    ensure (CanReference (p_user a) src (policyView t)) ErrReferenceForbidden))"

definition check_reference_of :: "principal \<Rightarrow> item_view \<Rightarrow> payload \<Rightarrow> db \<Rightarrow> vault_error + unit" where
  "check_reference_of a src p d =
    (case referenceTarget p of None \<Rightarrow> Inr () | Some ref \<Rightarrow> checkReference a src ref d)"

section \<open>Create and read\<close>

record create_input =
  ci_type :: string
  ci_scope :: string
  ci_tags :: "string list"
  ci_favorite :: bool
  ci_payload :: string

definition create_row ::
  "venv \<Rightarrow> principal \<Rightarrow> create_input \<Rightarrow> db \<Rightarrow> vault_error + (item_row \<times> stored_payload \<times> payload)" where
  "create_row V a i d =
    andthen (ensure (ItemTypes (ci_type i)) ErrInvalidItemType) (\<lambda>_.
    andthen (ensure (Scopes (ci_scope i)) ErrInvalidScope) (\<lambda>_.
    andthen (decodePayload (ve_codec V) (ci_type i) (ci_payload i)) (\<lambda>p.
    andthen (validateTags (ci_tags i)) (\<lambda>tags.
    let own = owner_for (ci_scope i) a; cre = creator_for (ci_scope i) a;
        view = policyItem (ci_scope i) own cre in
    andthen (ensure (CanCreate (p_role a) (p_user a) (iv_scope view) own cre) ErrForbidden) (\<lambda>_.
    andthen (check_reference_of a view p d) (\<lambda>_.
    andthen (buildEnvelope (ve_codec V) tags p) (\<lambda>(env, plaintext).
    let row = sealed_item V 0 (ve_ids V 0) (ci_scope i) a (ci_type i) (ci_favorite i) plaintext in
    andthen (ensure (it_owner row \<noteq> None \<or> it_creator row \<noteq> None) ErrInvalidScope) (\<lambda>_.
    Inr (row, env, p)))))))))"

definition create_tx ::
  "venv \<Rightarrow> principal \<Rightarrow> item_row \<Rightarrow> claim option \<Rightarrow> db \<Rightarrow> vault_error + (unit \<times> db)" where
  "create_tx V a row c d =
    andthen (map_err ErrDatabase (insertItem row d)) (\<lambda>d1.
    andthen (complete_claim V c (it_id row) d1) (\<lambda>d2.
    andthen (audit_in V (item_event ''vault.item.created'' a (it_id row)) d2) (\<lambda>d3.
    Inr ((), d3))))"

definition Create ::
  "venv \<Rightarrow> principal option \<Rightarrow> create_input \<Rightarrow> claim option \<Rightarrow> db \<Rightarrow> (vault_error + detail) \<times> db" where
  "Create V actor i c d =
    (case actor of None \<Rightarrow> (Inl ErrForbidden, d)
     | Some a \<Rightarrow>
       (case create_row V a i d of Inl e \<Rightarrow> (Inl e, d)
        | Inr (row, env, p) \<Rightarrow>
          (case in_tx (create_tx V a row c) d of
             (Inl e, d') \<Rightarrow> (Inl e, d')
           | (Inr _, d') \<Rightarrow> (Inr (decorateDetail d'
               \<lparr>dt_meta = toMeta row, dt_tags = sp_tags env, dt_payload = p\<rparr>), d'))))"

text \<open>The candidate an operation may see: known, live and readable.\<close>

definition readable_row :: "principal \<Rightarrow> string \<Rightarrow> action \<Rightarrow> db \<Rightarrow> vault_error + item_row" where
  "readable_row a iid act d =
    andthen (from_option ErrNotFound (getItem iid d)) (\<lambda>r.
    andthen (ensure (it_deleted r = None \<and> Can (p_role a) (p_user a) (policyView r) act) ErrNotFound)
      (\<lambda>_. Inr r))"

definition Get :: "venv \<Rightarrow> principal option \<Rightarrow> string \<Rightarrow> db \<Rightarrow> (vault_error + detail) \<times> db" where
  "Get V actor iid d =
    (case actor of None \<Rightarrow> (Inl ErrForbidden, d)
     | Some a \<Rightarrow>
       (case andthen (readable_row a iid ActionRead d) (\<lambda>r.
             andthen (decryptRow V r) (\<lambda>(raw, p, env). Inr (r, p, env))) of
          Inl e \<Rightarrow> (Inl e, d)
        | Inr (r, p, env) \<Rightarrow>
          (case (if it_type r \<noteq> TypeSecret
                 then audit_in V (item_event ''vault.item.viewed'' a iid) d else Inr d) of
             Inl e \<Rightarrow> (Inl e, d)
           | Inr d' \<Rightarrow> (Inr (decorateDetail d'
               \<lparr>dt_meta = toMeta r, dt_tags = sp_tags env, dt_payload = p\<rparr>), d'))))"

record list_filter =
  lf_scope :: string
  lf_type :: string
  lf_favorite :: "bool option"
  lf_tag :: string

definition own_or_shared :: "string \<Rightarrow> item_row \<Rightarrow> bool" where
  "own_or_shared uid r \<longleftrightarrow>
     it_scope r = ScopePersonal \<and> it_owner r = Some uid \<or> it_scope r = ScopeShared"

text \<open>The \<open>WHERE\<close> clause that \<open>List\<close> assembles.\<close>

definition list_where :: "string \<Rightarrow> list_filter \<Rightarrow> item_row \<Rightarrow> bool" where
  "list_where uid f r \<longleftrightarrow> it_deleted r = None \<and>
     (if lf_scope f = '''' then own_or_shared uid r
      else if lf_scope f = ScopePersonal then it_scope r = ScopePersonal \<and> it_owner r = Some uid
      else it_scope r = ScopeShared) \<and>
     (lf_type f = '''' \<or> it_type r = lf_type f) \<and>
     (case lf_favorite f of None \<Rightarrow> True | Some b \<Rightarrow> it_favorite r = b)"

text \<open>The loop over the fetched rows: re-check the policy, decrypt for the title.\<close>

fun titled_rows :: "venv \<Rightarrow> string \<Rightarrow> item_row list \<Rightarrow> vault_error + meta list" where
  "titled_rows V uid [] = Inr []"
| "titled_rows V uid (r # rs) =
    (if \<not> CanReadItem uid (policyView r) then titled_rows V uid rs
     else andthen (decryptRow V r) (\<lambda>(raw, p, env).
          andthen (titled_rows V uid rs) (\<lambda>ms.
          Inr ((toMeta r)\<lparr>m_title := TitleOf p\<rparr> # ms))))"

end
