(* ===== verification/VaultWrite.thy ===== *)
theory VaultWrite
  imports VaultService
begin

text \<open>
  The writing operations on an existing item: \<open>Update\<close> with its cross-vault move, the favorite
  and tag changes, the secret-field events (\<open>service.go\<close>), the trash (\<open>trash.go\<close>) and the history
  (\<open>history.go\<close>).
\<close>

section \<open>Update and move\<close>

record update_input =
  ui_revision :: nat
  ui_tags :: "string list option"
  ui_favorite :: "bool option"
  ui_payload :: string
  ui_scope :: "string option"
  ui_claim :: "claim option"

text \<open>The failure branch of every compare-and-set: the current revision, if still visible.\<close>

definition conflict_error :: "string \<Rightarrow> db \<Rightarrow> vault_error" where
  "conflict_error iid d =
    (case currentRevision iid d of None \<Rightarrow> ErrNotFound | Some n \<Rightarrow> ErrRevisionConflict n)"

definition new_tags :: "string list option \<Rightarrow> string list \<Rightarrow> vault_error + string list" where
  "new_tags req old = (case req of None \<Rightarrow> Inr old | Some ts \<Rightarrow> validateTags ts)"

definition new_favorite :: "bool option \<Rightarrow> bool \<Rightarrow> bool" where
  "new_favorite req old = (case req of None \<Rightarrow> old | Some b \<Rightarrow> b)"

text \<open>
  The common write of \<open>updateOnce\<close>, \<open>applyMetadataChange\<close> and \<open>RestoreHistory\<close>: encrypt under the
  next revision's AAD, compare and set, audit.
\<close>

definition reseal_row :: "venv \<Rightarrow> item_row \<Rightarrow> bytes \<Rightarrow> encrypted_payload" where
  "reseal_row V r plaintext = Encrypt (ve_aead V) (ve_key V) (ve_nonces V 0) plaintext
     (row_aad r PayloadVersion (it_rev r + 1))"

definition write_revision ::
  "venv \<Rightarrow> principal \<Rightarrow> string \<Rightarrow> item_row \<Rightarrow> bytes \<Rightarrow> bool \<Rightarrow> db \<Rightarrow> vault_error + db" where
  "write_revision V a name r plaintext fav d =
    andthen (map_err ErrDatabase (updateItem r (reseal_row V r plaintext) fav (ve_now V) d))
      (\<lambda>(applied, d1).
        if \<not> applied then Inl (conflict_error (it_id r) d1)
        else audit_in V (item_event name a (it_id r)) d1)"

definition moveOnce ::
  "venv \<Rightarrow> principal \<Rightarrow> item_row \<Rightarrow> string \<Rightarrow> update_input \<Rightarrow> db \<Rightarrow> vault_error + (detail \<times> db)" where
  "moveOnce V a source targetScope i d =
    (let own = owner_for targetScope a; cre = creator_for targetScope a;
         view = policyItem targetScope own cre in
    andthen (ensure (CanCreate (p_role a) (p_user a) (iv_scope view) own cre) ErrForbidden) (\<lambda>_.
    andthen (decodePayload (ve_codec V) (it_type source) (ui_payload i)) (\<lambda>p.
    andthen (check_reference_of a view p d) (\<lambda>_.
    andthen (decryptRow V source) (\<lambda>(_, _, oldEnv).
    andthen (new_tags (ui_tags i) (sp_tags oldEnv)) (\<lambda>tags.
    andthen (buildEnvelope (ve_codec V) tags p) (\<lambda>(env, plaintext).
    let target = sealed_item V 0 (ve_ids V 0) targetScope a (it_type source)
                   (new_favorite (ui_favorite i) (it_favorite source)) plaintext in
    andthen (map_err ErrDatabase (insertItem target d)) (\<lambda>d1.
    andthen (audit_in V (item_event ''vault.item.created'' a (it_id target)) d1) (\<lambda>d2.
    andthen (audit_in V ((item_event ''vault.item.moved'' a (it_id target))
        \<lparr>ev_source := it_id source, ev_source_scope := it_scope source,
         ev_target_scope := targetScope\<rparr>) d2) (\<lambda>d3.
    andthen (complete_claim V (ui_claim i) (it_id target) d3) (\<lambda>d4.
    let del = deleteItemAtRevision (it_id source) (it_rev source) d4 in
    if \<not> fst del then Inl (conflict_error (it_id source) (snd del))
    else Inr (decorateDetail (snd del)
      \<lparr>dt_meta = toMeta target, dt_tags = sp_tags env, dt_payload = p\<rparr>, snd del))))))))))))"

text \<open>The part of \<open>updateOnce\<close> after the revision check and the move branch.\<close>

definition change_payload ::
  "venv \<Rightarrow> principal \<Rightarrow> item_row \<Rightarrow> update_input \<Rightarrow> db \<Rightarrow> vault_error + (detail \<times> db)" where
  "change_payload V a r i d =
    andthen (decodePayload (ve_codec V) (it_type r) (ui_payload i)) (\<lambda>p.
    andthen (check_reference_of a (policyView r) p d) (\<lambda>_.
    andthen (decryptRow V r) (\<lambda>(oldRaw, oldPayload, oldEnv).
    andthen (new_tags (ui_tags i) (sp_tags oldEnv)) (\<lambda>tags.
    let fav = new_favorite (ui_favorite i) (it_favorite r) in
    andthen (buildEnvelope (ve_codec V) tags p) (\<lambda>(env, plaintext).
    if plaintext = oldRaw \<and> fav = it_favorite r
    then Inr (decorateDetail d
      \<lparr>dt_meta = toMeta r, dt_tags = sp_tags oldEnv, dt_payload = oldPayload\<rparr>, d)
    else
      andthen (write_revision V a ''vault.item.updated'' r plaintext fav d) (\<lambda>d'.
      Inr (decorateDetail d'
        \<lparr>dt_meta = (toMeta r)\<lparr>m_favorite := fav, m_rev := it_rev r + 1, m_updated := ve_now V\<rparr>,
         dt_tags = sp_tags env, dt_payload = p\<rparr>, d')))))))"

definition update_body ::
  "venv \<Rightarrow> principal \<Rightarrow> string \<Rightarrow> update_input \<Rightarrow> db \<Rightarrow> vault_error + (detail \<times> db)" where
  "update_body V a iid i d =
    andthen (readable_row a iid ActionRead d) (\<lambda>r.
    andthen (ensure (Can (p_role a) (p_user a) (policyView r) ActionUpdate) ErrForbidden) (\<lambda>_.
    andthen (ensure (it_rev r = ui_revision i) (ErrRevisionConflict (it_rev r))) (\<lambda>_.
    case ui_scope i of
      Some sc \<Rightarrow> if sc \<noteq> it_scope r then moveOnce V a r sc i d else change_payload V a r i d
    | None \<Rightarrow> change_payload V a r i d)))"

definition updateOnce ::
  "venv \<Rightarrow> principal option \<Rightarrow> string \<Rightarrow> update_input \<Rightarrow> db \<Rightarrow> (vault_error + detail) \<times> db" where
  "updateOnce V actor iid i d =
    (case actor of None \<Rightarrow> (Inl ErrForbidden, d)
     | Some a \<Rightarrow>
        if ui_revision i < 1 then (Inl ErrPayloadInvalid, d)
        else if (case ui_scope i of None \<Rightarrow> False | Some sc \<Rightarrow> \<not> Scopes sc) then (Inl ErrInvalidScope, d)
        else in_tx (update_body V a iid i) d)"

text \<open>
  \<open>Update\<close>: at most three attempts.  \<open>busy k\<close> tells that attempt \<open>k\<close> loses its snapshot to a
  concurrent writer and is rolled back by the engine; \<open>others k\<close> is what the other connections
  commit during the delay before attempt \<open>k + 1\<close>; \<open>cancelled k\<close> that the request ended during
  that delay.
\<close>

record contention =
  busy :: "nat \<Rightarrow> bool"
  others :: "nat \<Rightarrow> db \<Rightarrow> db"
  cancelled :: "nat \<Rightarrow> bool"

fun update_attempts ::
  "nat \<Rightarrow> nat \<Rightarrow> contention \<Rightarrow> (db \<Rightarrow> (vault_error + detail) \<times> db) \<Rightarrow> db \<Rightarrow> (vault_error + detail) \<times> db" where
  "update_attempts 0 k W op d = (Inl ErrBusy, d)"
| "update_attempts (Suc n) k W op d =
    (if \<not> busy W k then op d
     else if n = 0 then (Inl ErrBusy, d)
     else let d1 = others W k d in
       if cancelled W k then (Inl ErrCanceled, d1) else update_attempts n (k + 1) W op d1)"

definition Update ::
  "venv \<Rightarrow> contention \<Rightarrow> principal option \<Rightarrow> string \<Rightarrow> update_input \<Rightarrow> db \<Rightarrow> (vault_error + detail) \<times> db" where
  "Update V W actor iid i d = update_attempts 3 0 W (updateOnce V actor iid i) d"

section \<open>Favorite and tags\<close>

definition metadata_body ::
  "venv \<Rightarrow> principal \<Rightarrow> string \<Rightarrow> bool option \<Rightarrow> string list option \<Rightarrow> action \<Rightarrow> db \<Rightarrow> vault_error + (detail \<times> db)" where
  "metadata_body V a iid fav tags act d =
    andthen (readable_row a iid ActionRead d) (\<lambda>r.
    andthen (ensure (Can (p_role a) (p_user a) (policyView r) act) ErrForbidden) (\<lambda>_.
    andthen (decryptRow V r) (\<lambda>(oldRaw, p, oldEnv).
    andthen (new_tags tags (sp_tags oldEnv)) (\<lambda>newTags.
    let newFav = new_favorite fav (it_favorite r) in
    andthen (buildEnvelope (ve_codec V) newTags p) (\<lambda>(env, plaintext).
    if plaintext = oldRaw \<and> newFav = it_favorite r
    then Inr (\<lparr>dt_meta = toMeta r, dt_tags = sp_tags oldEnv, dt_payload = p\<rparr>, d)
    else
      andthen (write_revision V a ''vault.item.updated'' r plaintext newFav d) (\<lambda>d'.
      Inr (\<lparr>dt_meta = (toMeta r)\<lparr>m_favorite := newFav, m_rev := it_rev r + 1, m_updated := ve_now V\<rparr>,
            dt_tags = sp_tags env, dt_payload = p\<rparr>, d')))))))"

definition applyMetadataChange ::
  "venv \<Rightarrow> principal option \<Rightarrow> string \<Rightarrow> bool option \<Rightarrow> string list option \<Rightarrow> action \<Rightarrow> db \<Rightarrow> (vault_error + detail) \<times> db" where
  "applyMetadataChange V actor iid fav tags act d =
    (case actor of None \<Rightarrow> (Inl ErrForbidden, d)
     | Some a \<Rightarrow> in_tx (metadata_body V a iid fav tags act) d)"

definition SetFavorite ::
  "venv \<Rightarrow> principal option \<Rightarrow> string \<Rightarrow> bool \<Rightarrow> db \<Rightarrow> (vault_error + unit) \<times> db" where
  "SetFavorite V actor iid fav d =
    (case applyMetadataChange V actor iid (Some fav) None ActionFavorite d of
       (Inl e, d') \<Rightarrow> (Inl e, d') | (Inr _, d') \<Rightarrow> (Inr (), d'))"

definition SetTags ::
  "venv \<Rightarrow> principal option \<Rightarrow> string \<Rightarrow> string list \<Rightarrow> db \<Rightarrow> (vault_error + unit) \<times> db" where
  "SetTags V actor iid tags d =
    (case applyMetadataChange V actor iid None (Some tags) ActionTag d of
       (Inl e, d') \<Rightarrow> (Inl e, d') | (Inr _, d') \<Rightarrow> (Inr (), d'))"

definition secretFields :: "string list" where
  "secretFields = [''password'', ''key_passphrase'', ''private_key'', ''cvv'', ''pin'', ''number'']"

definition RecordSecretEvent ::
  "venv \<Rightarrow> principal option \<Rightarrow> string \<Rightarrow> string \<Rightarrow> string \<Rightarrow> db \<Rightarrow> vault_error + db" where
  "RecordSecretEvent V actor iid kind field d =
    andthen (from_option ErrForbidden actor) (\<lambda>a.
    andthen (ensure (field \<in> set secretFields) ErrPayloadInvalid) (\<lambda>_.
    andthen (readable_row a iid ActionRead d) (\<lambda>_.
    andthen (ensure (kind = ''copy'' \<or> kind = ''reveal'') ErrPayloadInvalid) (\<lambda>_.
    audit_in V (item_event
      (if kind = ''copy'' then ''vault.secret.copied'' else ''vault.secret.revealed'') a iid) d))))"

section \<open>Trash\<close>

definition TrashRetentionDays :: int where "TrashRetentionDays = 30"

definition trash_body :: "venv \<Rightarrow> principal \<Rightarrow> string \<Rightarrow> db \<Rightarrow> vault_error + (unit \<times> db)" where
  "trash_body V a iid d =
    andthen (readable_row a iid ActionRead d) (\<lambda>r.
    andthen (ensure (Can (p_role a) (p_user a) (policyView r) ActionDelete) ErrForbidden) (\<lambda>_.
    let upd = setDeletedAt iid (Some (ve_now V)) d in
    if \<not> fst upd then Inl ErrNotFound
    else andthen (audit_in V (item_event ''vault.item.trashed'' a iid) (snd upd)) (\<lambda>d2. Inr ((), d2))))"

definition Trash :: "venv \<Rightarrow> principal option \<Rightarrow> string \<Rightarrow> db \<Rightarrow> (vault_error + unit) \<times> db" where
  "Trash V actor iid d =
    (case actor of None \<Rightarrow> (Inl ErrForbidden, d) | Some a \<Rightarrow> in_tx (trash_body V a iid) d)"

text \<open>A trashed item that the actor may see and change.\<close>

definition trashed_row :: "principal \<Rightarrow> string \<Rightarrow> action \<Rightarrow> db \<Rightarrow> vault_error + item_row" where
  "trashed_row a iid act d =
    andthen (from_option ErrNotFound (getItem iid d)) (\<lambda>r.
    andthen (ensure (Can (p_role a) (p_user a) (policyView r) ActionRead) ErrNotFound) (\<lambda>_.
    andthen (ensure (Can (p_role a) (p_user a) (policyView r) act) ErrForbidden) (\<lambda>_.
    andthen (ensure (it_deleted r \<noteq> None) ErrNotFound) (\<lambda>_. Inr r))))"

definition restore_body :: "venv \<Rightarrow> principal \<Rightarrow> string \<Rightarrow> db \<Rightarrow> vault_error + (item_row \<times> db)" where
  "restore_body V a iid d =
    andthen (trashed_row a iid ActionRestore d) (\<lambda>r.
    let upd = setDeletedAt iid None d in
    if \<not> fst upd then Inl ErrNotFound
    else andthen (audit_in V (item_event ''vault.item.restored'' a iid) (snd upd)) (\<lambda>d2. Inr (r, d2)))"

text \<open>The detail of a restored item is built from the row read before the update, and the
  creator name is attached to a copy that is dropped.\<close>

definition RestoreTrashed ::
  "venv \<Rightarrow> principal option \<Rightarrow> string \<Rightarrow> db \<Rightarrow> (vault_error + detail) \<times> db" where
  "RestoreTrashed V actor iid d =
    (case actor of None \<Rightarrow> (Inl ErrForbidden, d)
     | Some a \<Rightarrow>
       (case in_tx (restore_body V a iid) d of
          (Inl e, d') \<Rightarrow> (Inl e, d')
        | (Inr r, d') \<Rightarrow>
          (case decryptRow V r of
             Inl e \<Rightarrow> (Inl e, d')
           | Inr (raw, p, env) \<Rightarrow> (Inr \<lparr>dt_meta = (toMeta r)\<lparr>m_title := TitleOf p\<rparr>,
               dt_tags = sp_tags env, dt_payload = p\<rparr>, d'))))"

definition purge_body :: "venv \<Rightarrow> principal \<Rightarrow> string \<Rightarrow> db \<Rightarrow> vault_error + (unit \<times> db)" where
  "purge_body V a iid d =
    andthen (trashed_row a iid ActionPurge d) (\<lambda>r.
    andthen (audit_in V (item_event ''vault.item.purged'' a iid) (deleteItemCompletely iid d))
      (\<lambda>d2. Inr ((), d2)))"

definition Purge :: "venv \<Rightarrow> principal option \<Rightarrow> string \<Rightarrow> db \<Rightarrow> (vault_error + unit) \<times> db" where
  "Purge V actor iid d =
    (case actor of None \<Rightarrow> (Inl ErrForbidden, d) | Some a \<Rightarrow> in_tx (purge_body V a iid) d)"

definition ListTrash ::
  "venv \<Rightarrow> principal option \<Rightarrow> (time \<times> string) option \<Rightarrow> nat \<Rightarrow> db \<Rightarrow> vault_error + meta list" where
  "ListTrash V actor before limit d =
    andthen (from_option ErrForbidden actor) (\<lambda>a.
    andthen (titled_rows V (p_user a)
        (listRows (\<lambda>r. it_deleted r \<noteq> None \<and> own_or_shared (p_user a) r) before limit d))
      (\<lambda>ms. Inr (attachCreatorNames d ms)))"

fun purge_all :: "venv \<Rightarrow> string list \<Rightarrow> db \<Rightarrow> vault_error + db" where
  "purge_all V [] d = Inr d"
| "purge_all V (iid # ids) d =
    andthen (audit_in V (mk_event ''vault.item.purged'' Anonymous ''item'' iid ''success'')
        (deleteItemCompletely iid d))
      (purge_all V ids)"

definition PurgeExpiredTrash :: "venv \<Rightarrow> db \<Rightarrow> (vault_error + nat) \<times> db" where
  "PurgeExpiredTrash V d = in_tx (\<lambda>d.
    let ids = expiredTrashIDs (ve_now V - TrashRetentionDays * day_ns) d in
    andthen (purge_all V ids d) (\<lambda>d'. Inr (length ids, d'))) d"

section \<open>History\<close>

text \<open>
  \<open>before\<close> is the parsed cursor: \<open>None\<close> when the parameter is absent, \<open>Some None\<close> when
  \<open>fmt.Sscanf\<close> rejects it.
\<close>

definition ListHistory ::
  "venv \<Rightarrow> principal option \<Rightarrow> string \<Rightarrow> nat option option \<Rightarrow> nat \<Rightarrow> db \<Rightarrow> vault_error + (nat \<times> time) list" where
  "ListHistory V actor iid before limit d =
    andthen (from_option ErrForbidden actor) (\<lambda>a.
    andthen (readable_row a iid ActionHistory d) (\<lambda>_.
    case before of
      None \<Rightarrow> Inr (listHistory iid 0 limit d)
    | Some None \<Rightarrow> Inl ErrNotFound
    | Some (Some n) \<Rightarrow> if n = 0 then Inl ErrNotFound else Inr (listHistory iid n limit d)))"

definition restore_history_body ::
  "venv \<Rightarrow> principal \<Rightarrow> string \<Rightarrow> nat \<Rightarrow> db \<Rightarrow> vault_error + (detail \<times> db)" where
  "restore_history_body V a iid revision d =
    andthen (readable_row a iid ActionHistory d) (\<lambda>r.
    andthen (ensure (Can (p_role a) (p_user a) (policyView r) ActionHistoryRestore) ErrForbidden) (\<lambda>_.
    andthen (from_option ErrNotFound (getHistoryVersion iid revision d)) (\<lambda>v.
    andthen (map_err (\<lambda>_. ErrStoredPayload)
        (DecryptColumns (ve_aead V) (ve_key V) (v_pver v) (v_nonce v) (v_ct v)
           (row_aad r (v_pver v) (v_rev v)))) (\<lambda>plaintext.
    andthen (open_envelope V (it_type r) plaintext) (\<lambda>(_, p, env).
    andthen (write_revision V a ''vault.item.history_restored'' r plaintext (it_favorite r) d) (\<lambda>d'.
    Inr (\<lparr>dt_meta = (toMeta r)\<lparr>m_title := TitleOf p, m_rev := it_rev r + 1, m_updated := ve_now V\<rparr>,
          dt_tags = sp_tags env, dt_payload = p\<rparr>, d')))))))"

definition RestoreHistory ::
  "venv \<Rightarrow> principal option \<Rightarrow> string \<Rightarrow> nat \<Rightarrow> db \<Rightarrow> (vault_error + detail) \<times> db" where
  "RestoreHistory V actor iid revision d =
    (case actor of None \<Rightarrow> (Inl ErrForbidden, d)
     | Some a \<Rightarrow> if revision = 0 then (Inl ErrNotFound, d)
         else in_tx (restore_history_body V a iid revision) d)"

end
