(* ===== verification/VaultScan.thy ===== *)
theory VaultScan
  imports VaultService
begin

text \<open>
  The decrypt-and-filter reads: \<open>List\<close> and \<open>ExportAll\<close> of \<open>service.go\<close>, \<open>search.go\<close> and
  \<open>health.go\<close>.  The SQL predicate narrows the candidates, every candidate is decrypted in memory.
\<close>

section \<open>Matching\<close>

definition containsTag :: "string list \<Rightarrow> string \<Rightarrow> bool" where
  "containsTag tags tag \<longleftrightarrow> tag \<in> set tags"

definition newline :: string where "newline = [CHR 0x0A]"

fun searchable_fields :: "payload \<Rightarrow> string list" where
  "searchable_fields (Login p) = [lp_name p, lp_username p] @ lp_urls p @ [lp_notes p]"
| "searchable_fields (SSHKey p) = [sk_name p, sk_comment p, sk_fingerprint p, sk_notes p]"
| "searchable_fields (CreditCard p) = [cc_name p, cc_cardholder p, cc_notes p]"
| "searchable_fields (Identity p) = [id_name p, id_full_name p, id_company p, id_notes p]"
| "searchable_fields (SecureNote p) = [sn_name p, sn_body p]"
| "searchable_fields (Secret p) = [sc_name p]"

definition searchableText :: "payload \<Rightarrow> string list \<Rightarrow> string" where
  "searchableText p tags =
     join_with newline tags @ concat (map (\<lambda>f. newline @ f) (searchable_fields p))"

definition matchQuery :: "venv \<Rightarrow> string \<Rightarrow> string \<Rightarrow> payload \<Rightarrow> string list \<Rightarrow> bool" where
  "matchQuery V query tag p tags =
    (let q = to_lower (ve_ulow V) query in
     if tag \<noteq> '''' \<and> \<not> containsTag tags tag then False
     else if q = '''' then True
     else has_infix q (to_lower (ve_ulow V) (searchableText p tags)))"

section \<open>Scanning\<close>

definition searchBatchSize :: nat where "searchBatchSize = 5000"

fun match_rows :: "venv \<Rightarrow> (payload \<Rightarrow> string list \<Rightarrow> bool) \<Rightarrow> item_row list \<Rightarrow> vault_error + meta list" where
  "match_rows V m [] = Inr []"
| "match_rows V m (r # rs) =
    andthen (decryptRow V r) (\<lambda>(raw, p, env).
    andthen (match_rows V m rs) (\<lambda>ms.
    Inr (if m p (sp_tags env) then (toMeta r)\<lparr>m_title := TitleOf p\<rparr> # ms else ms)))"

text \<open>The rows of the candidate set below the cursor, newest first, and the row fetch as a
  prefix of them.\<close>

definition candidates :: "(item_row \<Rightarrow> bool) \<Rightarrow> (time \<times> string) option \<Rightarrow> db \<Rightarrow> item_row list" where
  "candidates p cur d = filter (\<lambda>r. p r \<and> (case cur of None \<Rightarrow> True | Some b \<Rightarrow> item_pos r < b))
     (newest_first item_pos (items d))"

lemma listRows_take:
  "0 < n \<Longrightarrow> listRows p cur n d = take n (candidates p cur d)"
  by (simp add: listRows_def candidates_def keyset_page_def newest_first_filter)

lemma listRows_all: "listRows p cur 0 d = candidates p cur d"
proof -
  have "length (candidates p cur d) \<le> length (items d)"
    unfolding candidates_def by (metis length_filter_le length_newest_first)
  then show ?thesis
    by (simp add: listRows_def candidates_def keyset_page_def newest_first_filter)
qed

lemma candidates_mem: "r \<in> set (candidates p cur d) \<Longrightarrow> r \<in> set (items d) \<and> p r"
  by (auto simp: candidates_def)

lemma listRows_mem: "r \<in> set (listRows p cur n d) \<Longrightarrow> r \<in> set (items d) \<and> p r"
  by (cases "n = 0") (auto simp: listRows_all listRows_take dest: candidates_mem in_set_takeD)

lemma item_pos_distinct: "tables_ok d \<Longrightarrow> distinct (map item_pos (items d))"
  by (auto simp: tables_ok_def item_pos_def distinct_map inj_on_def)

lemma candidates_after:
  assumes ok: "tables_ok d" and n: "0 < n" and ne: "take n (candidates p cur d) \<noteq> []"
  shows "candidates p (Some (item_pos (last (take n (candidates p cur d))))) d
    = drop n (candidates p cur d)"
proof -
  let ?C = "candidates p cur d" and ?S = "newest_first item_pos (items d)"
  have sw: "sorted_wrt (\<lambda>a b. item_pos b < item_pos a) ?C"
    unfolding candidates_def
    by (rule sorted_wrt_filter[OF newest_first_strict[OF item_pos_distinct[OF ok]]])
  define k where "k = min n (length ?C) - 1"
  have k: "k < length ?C"
    using ne n by (cases ?C) (auto simp: k_def min_def)
  have last: "last (take n ?C) = ?C ! k"
    using ne n by (auto simp: k_def last_conv_nth min.commute)
  
  have mem: "?C ! k \<in> set ?C" using k by simp
  have "candidates p (Some (item_pos (?C ! k))) d = filter (\<lambda>r. item_pos r < item_pos (?C ! k)) ?C"
    using mem by (auto simp: candidates_def intro!: filter_cong split: option.splits)
  also have "\<dots> = drop (Suc k) ?C" by (rule strict_filter_below[OF sw k])
  also have "drop (Suc k) ?C = drop n ?C"
    using n k by (cases "n \<le> length ?C") (auto simp: k_def min_def)
  finally show ?thesis unfolding last .
qed

text \<open>Every fetch moves the cursor down: fewer rows lie below the last row of the batch.\<close>

definition below :: "(time \<times> string) option \<Rightarrow> item_row \<Rightarrow> bool" where
  "below cur r \<longleftrightarrow> (case cur of None \<Rightarrow> True | Some b \<Rightarrow> item_pos r < b)"

lemma below_last:
  assumes "r \<in> set (candidates p cur d)"
  shows "length (filter (below (Some (item_pos r))) (items d)) < length (filter (below cur) (items d))"
proof -
  from assms have r: "r \<in> set (items d)" "below cur r"
    by (auto simp: candidates_def below_def)
  then have "below cur x" if "below (Some (item_pos r)) x" for x
    using that by (cases cur) (auto simp: below_def dest: less_trans)
  then have "filter (below (Some (item_pos r))) (items d)
      = filter (below (Some (item_pos r))) (filter (below cur) (items d))"
    by (auto simp: filter_filter intro: filter_cong)
  also have "length \<dots> < length (filter (below cur) (items d))"
    using r by (intro length_filter_less[of r]) (auto simp: below_def)
  finally show ?thesis .
qed

function scan_matches ::
  "venv \<Rightarrow> (item_row \<Rightarrow> bool) \<Rightarrow> (payload \<Rightarrow> string list \<Rightarrow> bool) \<Rightarrow> (time \<times> string) option \<Rightarrow> nat \<Rightarrow> db \<Rightarrow>
   meta list \<Rightarrow> vault_error + meta list" where
  "scan_matches V p m cur limit d matched =
    (if limit < length matched then Inr matched
     else let rows = listRows p cur searchBatchSize d in
       if rows = [] then Inr matched
       else case match_rows V m rows of
         Inl e \<Rightarrow> Inl e
       | Inr ms \<Rightarrow> scan_matches V p m (Some (item_pos (last rows))) limit d (matched @ ms))"
  by pat_completeness auto

termination
proof (relation "measure (\<lambda>(V, p, m, cur, limit, d, matched). length (filter (below cur) (items d)))",
    goal_cases)
  case 1
  then show ?case by simp
next
  case (2 V p m cur limit d matched rows ms)
  have "last rows \<in> set rows" using 2(3) by simp
  then have "last rows \<in> set (candidates p cur d)"
    unfolding 2(2) by (simp add: listRows_take searchBatchSize_def) (erule in_set_takeD)
  from below_last[OF this] show ?case by simp
qed

declare scan_matches.simps [simp del]

section \<open>List and search\<close>

definition filter_error :: "string \<Rightarrow> string \<Rightarrow> vault_error option" where
  "filter_error sc ty =
    (if sc \<noteq> '''' \<and> \<not> Scopes sc then Some ErrInvalidScope
     else if ty \<noteq> '''' \<and> \<not> ItemTypes ty then Some ErrInvalidItemType
     else None)"

definition List_items ::
  "venv \<Rightarrow> principal option \<Rightarrow> list_filter \<Rightarrow> (time \<times> string) option \<Rightarrow> nat \<Rightarrow> db \<Rightarrow> vault_error + meta list" where
  "List_items V actor f before limit d =
    andthen (from_option ErrForbidden actor) (\<lambda>a.
    case filter_error (lf_scope f) (lf_type f) of Some e \<Rightarrow> Inl e
    | None \<Rightarrow>
      if lf_tag f \<noteq> ''''
      then scan_matches V (list_where (p_user a) f) (matchQuery V '''' (lf_tag f)) before limit d []
      else andthen (titled_rows V (p_user a) (listRows (list_where (p_user a) f) before limit d))
        (\<lambda>ms. Inr (attachCreatorNames d ms)))"

record search_input =
  qi_query :: string
  qi_scope :: string
  qi_type :: string
  qi_tag :: string

definition search_where :: "string \<Rightarrow> search_input \<Rightarrow> item_row \<Rightarrow> bool" where
  "search_where uid i = list_where uid
     \<lparr>lf_scope = qi_scope i, lf_type = qi_type i, lf_favorite = None, lf_tag = ''''\<rparr>"

definition Search ::
  "venv \<Rightarrow> principal option \<Rightarrow> search_input \<Rightarrow> (time \<times> string) option \<Rightarrow> nat \<Rightarrow> db \<Rightarrow> vault_error + meta list" where
  "Search V actor i before limit d =
    andthen (from_option ErrForbidden actor) (\<lambda>a.
    case filter_error (qi_scope i) (qi_type i) of Some e \<Rightarrow> Inl e
    | None \<Rightarrow> scan_matches V (search_where (p_user a) i)
        (matchQuery V (qi_query i) (qi_tag i)) before limit d [])"

section \<open>Export\<close>

record export_item =
  ex_meta :: meta
  ex_tags :: "string list"
  ex_payload :: payload

definition exportMaxItems :: nat where "exportMaxItems = 512 - 2"

definition export_where :: "string \<Rightarrow> item_row \<Rightarrow> bool" where
  "export_where uid r \<longleftrightarrow> it_deleted r = None \<and>
     (it_scope r = ScopePersonal \<and> it_owner r = Some uid
      \<or> it_scope r = ScopeShared \<and> it_creator r = Some uid)"

fun export_rows :: "venv \<Rightarrow> principal \<Rightarrow> item_row list \<Rightarrow> vault_error + export_item list" where
  "export_rows V a [] = Inr []"
| "export_rows V a (r # rs) =
    (if \<not> Can (p_role a) (p_user a) (policyView r) ActionExport then export_rows V a rs
     else andthen (decryptRow V r) (\<lambda>(raw, p, env).
          andthen (export_rows V a rs) (\<lambda>xs.
          Inr (\<lparr>ex_meta = (toMeta r)\<lparr>m_title := TitleOf p\<rparr>, ex_tags = sp_tags env,
                ex_payload = p\<rparr> # xs))))"

definition ExportAll :: "venv \<Rightarrow> principal option \<Rightarrow> db \<Rightarrow> vault_error + export_item list" where
  "ExportAll V actor d =
    andthen (from_option ErrForbidden actor) (\<lambda>a.
    let rows = listRows (export_where (p_user a)) None (exportMaxItems + 1) d in
    if exportMaxItems < length rows then Inl ErrExportTooLarge else export_rows V a rows)"

definition IDExists :: "string \<Rightarrow> db \<Rightarrow> bool" where
  "IDExists iid d \<longleftrightarrow> 0 < length (filter (\<lambda>r. it_id r = iid) (items d))"

end
