(* ===== verification/VaultInvariant.thy ===== *)
theory VaultInvariant
  imports VaultWrite VaultScan
begin

text \<open>
  The invariant of the vault tables: the declared constraints hold, the history of every item
  is exactly its last ten superseded revisions, every row has one subject, and every current
  row and every archived version decrypts, under the AAD of its own row and revision, to the
  marshalled envelope of a payload of the row's type.
\<close>

section \<open>Sealed content\<close>

definition content :: "venv \<Rightarrow> string list \<Rightarrow> payload \<Rightarrow> bytes" where
  "content V tags p = marshal (ve_codec V) (put_payload (empty_envelope tags) p)"

definition wire_ok :: "string list \<Rightarrow> payload \<Rightarrow> bool" where
  "wire_ok tags p \<longleftrightarrow> list_all valid_utf8 tags \<and> payload_wire p"

definition holds :: "venv \<Rightarrow> 16 word \<Rightarrow> bytes \<Rightarrow> bytes \<Rightarrow> AAD \<Rightarrow> string list \<Rightarrow> payload \<Rightarrow> bool" where
  "holds V pv nonce ct aad tags p \<longleftrightarrow> wire_ok tags p \<and>
     DecryptColumns (ve_aead V) (ve_key V) pv nonce ct aad = Inr (content V tags p)"

definition row_holds :: "venv \<Rightarrow> item_row \<Rightarrow> string list \<Rightarrow> payload \<Rightarrow> bool" where
  "row_holds V r tags p \<longleftrightarrow> payload_type p = it_type r \<and>
     holds V (it_pver r) (it_nonce r) (it_ct r) (row_aad r (it_pver r) (it_rev r)) tags p"

definition version_holds :: "venv \<Rightarrow> item_row \<Rightarrow> version_row \<Rightarrow> string list \<Rightarrow> payload \<Rightarrow> bool" where
  "version_holds V r v tags p \<longleftrightarrow> payload_type p = it_type r \<and>
     holds V (v_pver v) (v_nonce v) (v_ct v) (row_aad r (v_pver v) (v_rev v)) tags p"

definition vault_inv :: "venv \<Rightarrow> db \<Rightarrow> bool" where
  "vault_inv V d \<longleftrightarrow> tables_ok d \<and> history_exact d \<and>
     (\<forall>r \<in> set (items d). owned_view (policyView r) \<and> (\<exists>tags p. row_holds V r tags p)) \<and>
     (\<forall>v \<in> set (versions d). \<forall>r \<in> set (items d). it_id r = v_item v \<longrightarrow>
        (\<exists>tags p. version_holds V r v tags p))"

lemma unmarshal_content:
  "venv_ok V \<Longrightarrow> wire_ok tags p \<Longrightarrow>
     unmarshal (ve_codec V) (content V tags p) = Some (put_payload (empty_envelope tags) p)"
  by (simp add: venv_ok_def codec_ok_def content_def wire_ok_def envelope_wire_put)

lemma open_content:
  "venv_ok V \<Longrightarrow> wire_ok tags p \<Longrightarrow> payload_type p = t \<Longrightarrow>
     open_envelope V t (content V tags p) = Inr (content V tags p, p, put_payload (empty_envelope tags) p)"
  by (auto simp: open_envelope_def unmarshal_content)

lemma decryptRow_holds:
  assumes "venv_ok V" and "row_holds V r tags p"
  shows "decryptRow V r = Inr (content V tags p, p, put_payload (empty_envelope tags) p)"
  using assms by (simp add: decryptRow_def row_holds_def holds_def open_content)

lemma holds_Encrypt:
  assumes "venv_ok V" and "wire_ok tags p"
    and "enc = Encrypt (ve_aead V) (ve_key V) (ve_nonces V k) (content V tags p) aad"
  shows "holds V (ep_version enc) (ep_nonce enc) (ep_ciphertext enc) aad tags p"
  using assms by (simp add: holds_def DecryptColumns_Encrypt venv_ok_def)

lemma ep_version_Encrypt [simp]: "ep_version (Encrypt A k n p a) = PayloadVersion"
  by (simp add: Encrypt_def)

lemma PayloadVersion_neq_0 [simp]: "PayloadVersion \<noteq> 0"
  by (simp add: PayloadVersion_def)

lemma row_aad_cong:
  "it_id r = it_id r' \<Longrightarrow> it_scope r = it_scope r' \<Longrightarrow> it_owner r = it_owner r' \<Longrightarrow>
   it_creator r = it_creator r' \<Longrightarrow> row_aad r = row_aad r'"
  by (intro ext) (simp add: row_aad_def)

lemma row_aad_simps [simp]:
  "row_aad (bump e f t r) = row_aad r" "row_aad (r\<lparr>it_deleted := x\<rparr>) = row_aad r"
  by (rule row_aad_cong; simp)+

lemma row_holds_deleted [simp]: "row_holds V (r\<lparr>it_deleted := x\<rparr>) = row_holds V r"
  by (intro ext) (simp add: row_holds_def)

lemma version_holds_cong [simp]:
  "version_holds V (r\<lparr>it_deleted := x\<rparr>) = version_holds V r"
  "version_holds V (bump e f t r) = version_holds V r"
  by (intro ext, simp add: version_holds_def)+

lemma policyView_cong [simp]:
  "policyView (r\<lparr>it_deleted := x\<rparr>) = policyView r" "policyView (bump e f t r) = policyView r"
  by (simp_all add: policyView_def policyItem_def)

section \<open>Table changes that keep the invariant\<close>

lemma vault_inv_cong:
  "items d' = items d \<Longrightarrow> versions d' = versions d \<Longrightarrow> users d' = users d \<Longrightarrow>
   vault_inv V d' = vault_inv V d"
  by (simp add: vault_inv_def tables_ok_cong[of d' d] history_exact_def archived_revisions_def
      revisions_of_def)

lemma vault_inv_insert:
  assumes inv: "vault_inv V d" and ins: "insertItem r d = Inr d'"
    and own: "owned_view (policyView r)" and rev: "it_rev r = 1" and h: "row_holds V r tags p"
  shows "vault_inv V d'"
proof -
  let ?r = "r\<lparr>it_deleted := None\<rparr>"
  from ins have i: "insert_item_row ?r d = Inr d'" by (simp add: insertItem_def)
  note D = insert_item_row_InrD[OF i]
  have ok: "tables_ok d'" by (rule tables_ok_insert_item[OF _ i]) (use inv in \<open>simp add: vault_inv_def\<close>)
  have fresh: "it_id r \<notin> it_id ` set (items d)" using D by auto
  have vs: "v_item v \<noteq> it_id r" if "v \<in> set (versions d)" for v
  proof -
    have "v_item v \<in> it_id ` set (items d)"
      using inv that unfolding vault_inv_def tables_ok_def by (metis imageI)
    with fresh show ?thesis by metis
  qed
  have "archived_revisions (it_id r) d' = {}"
    using vs D by (auto simp: archived_revisions_def revisions_of_def)
  moreover have "archived_revisions x d' = archived_revisions x d" for x
    using D by (simp add: archived_revisions_def revisions_of_def)
  ultimately have "history_exact d'"
    using inv D rev by (auto simp: history_exact_def vault_inv_def)
  moreover have "\<exists>tags p. version_holds V q v tags p"
    if "v \<in> set (versions d')" "q \<in> set (items d')" "it_id q = v_item v" for v q
    using that D inv vs[of v] by (auto simp: vault_inv_def)
  ultimately show ?thesis
    using ok inv D own h by (auto simp: vault_inv_def)
qed

lemma vault_inv_delete:
  assumes "vault_inv V d"
  shows "vault_inv V (delete_item_rows p d)"
proof -
  let ?d = "delete_item_rows p d"
  have ok: "tables_ok ?d" using assms by (simp add: vault_inv_def tables_ok_delete_items)
  have keep: "r \<in> set (items ?d) \<longleftrightarrow> r \<in> set (items d) \<and> \<not> p r"
    and vs: "set (versions ?d) \<subseteq> set (versions d)" for r
    by (auto simp: delete_item_rows_def Let_def sql_simps)
  have "archived_revisions (it_id r) ?d = archived_revisions (it_id r) d"
    if r: "r \<in> set (items d)" "\<not> p r" for r
  proof -
    have gone: "it_id x \<noteq> it_id r" if "x \<in> set (items d)" "p x" for x
      using r that assms distinct_key_unique[of it_id "items d" x r]
      by (auto simp: vault_inv_def tables_ok_def)
    then have "filter (\<lambda>v. v_item v = it_id r) (versions ?d) = filter (\<lambda>v. v_item v = it_id r) (versions d)"
      by (auto simp: delete_item_rows_def Let_def sql_delete_def filter_filter
          dest: gone intro!: filter_cong)
    then show ?thesis by (simp add: archived_revisions_def revisions_of_def)
  qed
  with assms keep have "history_exact ?d" by (auto simp: history_exact_def vault_inv_def)
  with ok assms keep vs show ?thesis by (auto simp: vault_inv_def)
qed

lemma vault_inv_users:
  assumes "vault_inv V d" and "items d' = items d" and "versions d' = versions d"
    and "tables_ok d'"
  shows "vault_inv V d'"
  using assms by (simp add: vault_inv_def history_exact_def archived_revisions_def revisions_of_def)

lemma vault_inv_delete_user:
  assumes "vault_inv V d"
  shows "vault_inv V (delete_user_row uid d)"
proof (rule vault_inv_users)
  show "vault_inv V (delete_item_rows (item_of_user uid) d)" by (rule vault_inv_delete[OF assms])
  show "tables_ok (delete_user_row uid d)"
    using assms by (simp add: vault_inv_def tables_ok_delete_user)
qed (simp_all add: delete_user_row_def)

lemma vault_inv_set_deleted:
  assumes "vault_inv V d"
  shows "vault_inv V (snd (setDeletedAt iid at d))"
proof -
  define q :: "item_row \<Rightarrow> bool" where "q = (\<lambda>r. it_id r = iid \<and>
    (case at of None \<Rightarrow> it_deleted r \<noteq> None | Some _ \<Rightarrow> it_deleted r = None))"
  let ?d = "d\<lparr>items := sql_update q (\<lambda>r. r\<lparr>it_deleted := at\<rparr>) (items d)\<rparr>"
  have eq: "snd (setDeletedAt iid at d) = ?d" by (simp add: setDeletedAt_def Let_def q_def)
  have mem: "\<exists>r0 \<in> set (items d). r = r0 \<or> r = r0\<lparr>it_deleted := at\<rparr>" if "r \<in> set (items ?d)" for r
    using that by (auto simp: sql_simps split: if_splits)
  have ids: "map it_id (items ?d) = map it_id (items d)" by (simp add: map_sql_update)
  then have idset: "it_id ` set (items ?d) = it_id ` set (items d)" by (metis list.set_map)
  have refs: "item_refs ?d = item_refs d" by (intro item_refs_cong) simp
  have rows: "item_check r \<and> item_refs ?d r" if "r \<in> set (items ?d)" for r
    using mem[OF that] assms unfolding refs
    by (auto simp: vault_inv_def tables_ok_def item_check_def item_refs_def)
  have vs: "\<exists>r \<in> set (items ?d). it_id r = v_item v" if "v \<in> set (versions d)" for v
  proof -
    from that assms have "v_item v \<in> it_id ` set (items d)"
      by (auto simp: vault_inv_def tables_ok_def image_iff) metis
    then show ?thesis unfolding idset[symmetric] by (auto simp: image_iff)
  qed
  have "tables_ok ?d"
    using rows vs ids assms by (simp add: tables_ok_def vault_inv_def)
  moreover have "archived_revisions x ?d = archived_revisions x d" for x
    by (simp add: archived_revisions_def revisions_of_def)
  then have "history_exact ?d"
    using assms mem unfolding history_exact_def vault_inv_def by fastforce
  ultimately show ?thesis
    using assms mem unfolding eq vault_inv_def by fastforce
qed

lemma vault_inv_update:
  assumes inv: "vault_inv V d" and g: "getItem iid d = Some cur" and nd: "it_deleted cur = None"
    and h: "row_holds V (bump enc fav at cur) tags p" and pv: "ep_version enc \<noteq> 0"
  shows "vault_inv V (updated_db cur enc fav at d)"
proof -
  let ?d = "updated_db cur enc fav at d"
  from inv have ok: "tables_ok d" and hist: "history_exact d" by (auto simp: vault_inv_def)
  have mem: "cur \<in> set (items d)" using getItem_SomeD[OF g] by simp
  have uniq: "r = cur" if "r \<in> set (items d)" "it_id r = it_id cur" for r
    using that mem ok distinct_key_unique[of it_id "items d" r cur] by (auto simp: tables_ok_def)
  have row: "r \<in> set (items d) \<and> it_id r \<noteq> it_id cur \<or> r = bump enc fav at cur"
    if r: "r \<in> set (items ?d)" for r
  proof -
    from r obtain r0 where r0: "r0 \<in> set (items d)"
      and eq: "r = (if at_revision (it_id cur) (it_rev cur) r0 then bump enc fav at r0 else r0)"
      by (auto simp: updated_db_items)
    show ?thesis
    proof (cases "it_id r0 = it_id cur")
      case True
      with r0 have "r0 = cur" by (rule uniq)
      with nd eq show ?thesis by (simp add: at_revision_def)
    next
      case False
      with r0 eq show ?thesis by (simp add: at_revision_def)
    qed
  qed
  have old: "\<exists>tags p. version_holds V cur (version_of cur) tags p"
    using inv mem by (auto simp: vault_inv_def version_holds_def row_holds_def version_of_def)
  have "\<exists>tags p. version_holds V r v tags p"
    if r: "r \<in> set (items ?d)" and v: "v \<in> set (versions ?d)" and e: "it_id r = v_item v" for r v
  proof -
    from v have "v = version_of cur \<or> v \<in> set (versions d)" using updated_db_versions by blast
    with row[OF r] e inv mem old show ?thesis
      by (fastforce simp: vault_inv_def version_of_def)
  qed
  moreover have "owned_view (policyView r) \<and> (\<exists>tags p. row_holds V r tags p)"
    if r: "r \<in> set (items ?d)" for r
    using row[OF r] inv mem h by (auto simp: vault_inv_def)
  ultimately show ?thesis
    using updated_db_tables_ok[OF ok hist g pv] updated_db_history[OF ok hist g nd]
    unfolding vault_inv_def by blast
qed

section \<open>The operations keep the invariant\<close>

lemma validateTags_wire:
  "validateTags tags = Inr out \<Longrightarrow> list_all valid_utf8 tags \<Longrightarrow> list_all valid_utf8 out"
  using keep_first_spec[of tags]
  by (auto simp: validateTags_def collect_tags_Inr list_all_iff split: if_splits)

lemma new_tags_wire:
  "new_tags req old = Inr out \<Longrightarrow> list_all valid_utf8 old \<Longrightarrow>
   (\<forall>ts. req = Some ts \<longrightarrow> list_all valid_utf8 ts) \<Longrightarrow> list_all valid_utf8 out"
  by (auto simp: new_tags_def split: option.splits dest: validateTags_wire)

lemma audit_in_InrD:
  "audit_in V e d = Inr d' \<Longrightarrow> \<exists>r. d' = d\<lparr>audits := audits d @ [r]\<rparr>"
  by (auto simp: audit_in_def map_err_Inr dest!: Record_InrD)

lemma audit_in_inv: "audit_in V e d = Inr d' \<Longrightarrow> vault_inv W d' = vault_inv W d"
  by (rule vault_inv_cong) (auto dest!: audit_in_InrD)

lemma complete_claim_InrD: "complete_claim V c res d = Inr d' \<Longrightarrow> \<exists>t. d' = d\<lparr>idem := t\<rparr>"
  by (cases c) (auto simp: complete_claim_def split: sum.splits intro: exI[of _ "idem d"])

lemma complete_claim_inv: "complete_claim V c res d = Inr d' \<Longrightarrow> vault_inv W d' = vault_inv W d"
  by (rule vault_inv_cong) (auto dest!: complete_claim_InrD)

lemma readable_row_InrD:
  "readable_row a iid act d = Inr r \<Longrightarrow>
     getItem iid d = Some r \<and> it_deleted r = None \<and> Can (p_role a) (p_user a) (policyView r) act"
  by (auto simp: readable_row_def result_Inr)

lemma trashed_row_InrD:
  "trashed_row a iid act d = Inr r \<Longrightarrow>
     getItem iid d = Some r \<and> it_deleted r \<noteq> None \<and> Can (p_role a) (p_user a) (policyView r) act"
  by (auto simp: trashed_row_def result_Inr)

lemma vault_inv_row:
  "vault_inv V d \<Longrightarrow> getItem iid d = Some r \<Longrightarrow>
     owned_view (policyView r) \<and> (\<exists>tags p. row_holds V r tags p)"
  by (auto simp: vault_inv_def dest!: getItem_SomeD)

lemma owned_nullable:
  "CanCreate role u sc (owner_for sc a) (creator_for sc a) \<Longrightarrow>
   owned_view (policyItem sc (owner_for sc a) (creator_for sc a))"
  using CanCreate_owned by blast

lemma sealed_item_view:
  "policyView (sealed_item V k iid sc a t fav raw) = policyItem sc (owner_for sc a) (creator_for sc a)"
  by (simp add: policyView_def sealed_item_def Let_def)

lemma sealed_item_holds:
  assumes "venv_ok V" and "wire_ok tags p" and "payload_type p = t"
    and "raw = content V tags p"
  shows "row_holds V (sealed_item V k iid sc a t fav raw) tags p"
proof -
  let ?r = "sealed_item V k iid sc a t fav raw"
  have "row_aad ?r (it_pver ?r) (it_rev ?r)
      = AADFor iid sc (owner_for sc a) (creator_for sc a) PayloadVersion 1"
    by (simp add: row_aad_def sealed_item_def Let_def)
  then show ?thesis
    using assms holds_Encrypt[OF assms(1,2), of _ k]
    by (simp add: row_holds_def sealed_item_def Let_def)
qed

lemma sealed_item_simps [simp]:
  "it_id (sealed_item V k iid sc a t fav raw) = iid" "it_rev (sealed_item V k iid sc a t fav raw) = 1"
  "it_type (sealed_item V k iid sc a t fav raw) = t"
  "it_scope (sealed_item V k iid sc a t fav raw) = sc"
  "it_favorite (sealed_item V k iid sc a t fav raw) = fav"
  "it_deleted (sealed_item V k iid sc a t fav raw) = None"
  "it_updated (sealed_item V k iid sc a t fav raw) = ve_now V"
  "(sealed_item V k iid sc a t fav raw)\<lparr>it_deleted := None\<rparr> = sealed_item V k iid sc a t fav raw"
  by (simp_all add: sealed_item_def Let_def)

lemma create_row_InrD:
  assumes "create_row V a i d = Inr (row, env, p)" and "venv_ok V" and "list_all valid_utf8 (ci_tags i)"
  shows "\<exists>tags. validateTags (ci_tags i) = Inr tags \<and> wire_ok tags p \<and> payload_type p = ci_type i
    \<and> env = put_payload (empty_envelope tags) p
    \<and> row = sealed_item V 0 (ve_ids V 0) (ci_scope i) a (ci_type i) (ci_favorite i) (content V tags p)
    \<and> row_holds V row tags p \<and> owned_view (policyView row) \<and> view_subject (policyView row) = p_user a
    \<and> decodePayload (ve_codec V) (ci_type i) (ci_payload i) = Inr p"
proof -
  from assms(1) obtain tags raw where
    dec: "decodePayload (ve_codec V) (ci_type i) (ci_payload i) = Inr p"
    and tg: "validateTags (ci_tags i) = Inr tags"
    and cc: "CanCreate (p_role a) (p_user a) (ci_scope i) (owner_for (ci_scope i) a) (creator_for (ci_scope i) a)"
    and be: "buildEnvelope (ve_codec V) tags p = Inr (env, raw)"
    and row0: "row = sealed_item V 0 (ve_ids V 0) (ci_scope i) a (ci_type i) (ci_favorite i) raw"
    by (auto simp: create_row_def Let_def result_Inr policyItem_def split: prod.splits)
  from buildEnvelope_InrD[OF be] have env: "env = put_payload (empty_envelope tags) p"
    and raw: "raw = content V tags p" by (auto simp: content_def)
  note row = row0[unfolded raw]
  have pw: "payload_wire p" "payload_type p = ci_type i"
    using decodePayload_InrD[OF dec] assms(2) by (auto simp: venv_ok_def)
  then have w: "wire_ok tags p"
    using validateTags_wire[OF tg assms(3)] by (simp add: wire_ok_def)
  have "row_holds V row tags p"
    unfolding row by (rule sealed_item_holds[OF assms(2) w pw(2) refl])
  moreover have "owned_view (policyView row)" "view_subject (policyView row) = p_user a"
    using CanCreate_owned[OF cc] by (simp_all add: row sealed_item_view)
  ultimately show ?thesis
    using dec tg w pw row env by blast
qed

end
