(* ===== verification/SampleVault.thy ===== *)
theory SampleVault
  imports VaultInvariant "HOL-Library.Countable"
begin

text \<open>
  A concrete vault for the witnesses: a codec with the documented behaviour (the envelopes of
  the samples have short encodings, every other envelope is encoded by its number), the
  concrete AEAD of the theory of the encryption, two users.
\<close>

section \<open>Envelopes can be numbered\<close>

instance login_payload_ext :: (countable) countable
proof (rule countable_classI)
  fix r r' :: "'a login_payload_scheme"
  let ?f = "\<lambda>r :: 'a login_payload_scheme. to_nat (lp_name r, lp_username r, lp_password r, lp_urls r, lp_notes r, lp_updated_at r, lp_expires_at r, login_payload.more r)"
  assume "?f r = ?f r'"
  then show "r = r'" by (cases r; cases r') simp
qed

instance ssh_key_payload_ext :: (countable) countable
proof (rule countable_classI)
  fix r r' :: "'a ssh_key_payload_scheme"
  let ?f = "\<lambda>r :: 'a ssh_key_payload_scheme. to_nat (sk_name r, sk_algorithm r, sk_public r, sk_private r, sk_passphrase r, sk_comment r, sk_fingerprint r, sk_notes r, ssh_key_payload.more r)"
  assume "?f r = ?f r'"
  then show "r = r'" by (cases r; cases r') simp
qed

instance credit_card_payload_ext :: (countable) countable
proof (rule countable_classI)
  fix r r' :: "'a credit_card_payload_scheme"
  let ?f = "\<lambda>r :: 'a credit_card_payload_scheme. to_nat (cc_name r, cc_cardholder r, cc_number r, cc_exp_month r, cc_exp_year r, cc_cvv r, cc_pin r, cc_billing r, cc_notes r, credit_card_payload.more r)"
  assume "?f r = ?f r'"
  then show "r = r'" by (cases r; cases r') simp
qed

instance identity_payload_ext :: (countable) countable
proof (rule countable_classI)
  fix r r' :: "'a identity_payload_scheme"
  let ?f = "\<lambda>r :: 'a identity_payload_scheme. to_nat (id_name r, id_full_name r, id_company r, id_phone r, id_email r, id_country r, id_state r, id_city r, id_district r, id_address_line r, id_postal_code r, id_notes r, identity_payload.more r)"
  assume "?f r = ?f r'"
  then show "r = r'" by (cases r; cases r') simp
qed

instance secure_note_payload_ext :: (countable) countable
proof (rule countable_classI)
  fix r r' :: "'a secure_note_payload_scheme"
  let ?f = "\<lambda>r :: 'a secure_note_payload_scheme. to_nat (sn_name r, sn_body r, secure_note_payload.more r)"
  assume "?f r = ?f r'"
  then show "r = r'" by (cases r; cases r') simp
qed

instance secret_entry_ext :: (countable) countable
proof (rule countable_classI)
  fix r r' :: "'a secret_entry_scheme"
  let ?f = "\<lambda>r :: 'a secret_entry_scheme. to_nat (se_key r, se_value r, secret_entry.more r)"
  assume "?f r = ?f r'"
  then show "r = r'" by (cases r; cases r') simp
qed

instance secret_payload_ext :: (countable) countable
proof (rule countable_classI)
  fix r r' :: "'a secret_payload_scheme"
  let ?f = "\<lambda>r :: 'a secret_payload_scheme. to_nat (sc_name r, sc_entries r, sc_notes r, secret_payload.more r)"
  assume "?f r = ?f r'"
  then show "r = r'" by (cases r; cases r') simp
qed

instance stored_payload_ext :: (countable) countable
proof (rule countable_classI)
  fix r r' :: "'a stored_payload_scheme"
  let ?f = "\<lambda>r :: 'a stored_payload_scheme. to_nat (sp_version r, sp_tags r, sp_login r, sp_ssh_key r, sp_credit_card r, sp_identity r, sp_secure_note r, sp_secret r, stored_payload.more r)"
  assume "?f r = ?f r'"
  then show "r = r'" by (cases r; cases r') simp
qed

section \<open>The sample vault\<close>

definition note1 :: payload where
  "note1 = SecureNote \<lparr>sn_name = ''a'', sn_body = ''b''\<rparr>"

definition note2 :: payload where
  "note2 = SecureNote \<lparr>sn_name = ''c'', sn_body = ''d''\<rparr>"

definition env1 :: stored_payload where "env1 = put_payload (empty_envelope [''t'']) note1"
definition env2 :: stored_payload where "env2 = put_payload (empty_envelope [''t'']) note2"

definition sample_marshal :: "stored_payload \<Rightarrow> bytes" where
  "sample_marshal e = (if e = env1 then [1] else if e = env2 then [2] else 0 # replicate (to_nat e) 0)"

fun sample_unmarshal :: "bytes \<Rightarrow> stored_payload option" where
  "sample_unmarshal [] = None"
| "sample_unmarshal (b # bs) =
    (if b = 1 then Some env1 else if b = 2 then Some env2 else Some (from_nat (length bs)))"

definition sample_decode :: "string \<Rightarrow> string \<Rightarrow> payload option" where
  "sample_decode t raw =
    (if t \<noteq> TypeSecureNote then None
     else if raw = ''note1'' then Some note1
     else if raw = ''note2'' then Some note2 else None)"

definition sample_codec :: codec where
  "sample_codec = \<lparr>marshal = sample_marshal, unmarshal = sample_unmarshal,
     decode_strict = sample_decode\<rparr>"

lemma sample_codec_ok: "codec_ok sample_codec"
  by (auto simp: codec_ok_def sample_codec_def sample_marshal_def sample_decode_def note1_def
      note2_def payload_wire_def split: if_splits) code_simp+

definition sample_vault :: venv where
  "sample_vault = \<lparr>ve_aead = toy_aead, ve_key = replicate 32 1, ve_codec = sample_codec,
     ve_audit = sample_env, ve_idem = \<lparr>io_pending = 0, io_completed = 0\<rparr>, ve_now = 7,
     ve_ids = (\<lambda>i. ''item'' @ replicate i (CHR ''x'')), ve_nonces = (\<lambda>i. replicate 24 (of_nat i)),
     ve_ulow = (\<lambda>s. s)\<rparr>"

lemma sample_vault_ok: "venv_ok sample_vault"
  by (simp add: venv_ok_def sample_vault_def toy_opens sample_codec_ok nonceSize_def)

definition sample_user :: "string \<Rightarrow> string \<Rightarrow> user_row" where
  "sample_user uid role = \<lparr>u_id = uid, u_norm = uid, u_display = uid, u_role = role,
     u_status = ''active'', u_must_change = False, u_hash = ''h'', u_created = 0, u_updated = 0,
     u_idle = 30\<rparr>"

definition sample_principal :: "string \<Rightarrow> string \<Rightarrow> principal" where
  "sample_principal uid role = \<lparr>p_user = uid, p_username = uid, p_role = role,
     p_must_change = False, p_idle = 30, p_session = \<lparr>si_id = ''s'', si_created = 0,
     si_expires = 100, si_idle = 50, si_current = True\<rparr>\<rparr>"

definition sample_db :: db where
  "sample_db = empty_db\<lparr>users := [sample_user ''u1'' ''admin'', sample_user ''u2'' ''member'']\<rparr>"

lemma sample_db_inv: "vault_inv V sample_db"
  by (simp add: vault_inv_def tables_ok_def history_exact_def sample_db_def empty_db_def)

definition sample_item :: item_row where
  "sample_item = sealed_item sample_vault 0 ''item'' ScopePersonal (sample_principal ''u1'' ''admin'')
     TypeSecureNote False [1]"

text \<open>The database after \<open>u1\<close> created one note.\<close>

definition sample_db1 :: db where
  "sample_db1 = sample_db\<lparr>items := [sample_item]\<rparr>"

lemma wire_samples: "wire_ok [''t''] note1" "wire_ok [''t''] note2"
  by code_simp+

lemma content_samples: "content sample_vault [''t''] note1 = [1]" "content sample_vault [''t''] note2 = [2]"
proof -
  have "env2 \<noteq> env1" by (simp add: env1_def env2_def note1_def note2_def empty_envelope_def)
  then show "content sample_vault [''t''] note1 = [1]" "content sample_vault [''t''] note2 = [2]"
    by (simp_all add: content_def sample_vault_def sample_codec_def sample_marshal_def
        env1_def[symmetric] env2_def[symmetric])
qed

lemma sample_item_holds: "row_holds sample_vault sample_item [''t''] note1"
  unfolding sample_item_def
  by (rule sealed_item_holds[OF sample_vault_ok wire_samples(1)])
     (simp_all add: content_samples, simp add: note1_def)

lemma sample_item_simps [simp]:
  "it_id sample_item = ''item''" "it_scope sample_item = ScopePersonal" "it_rev sample_item = 1"
  "it_owner sample_item = Some ''u1''" "it_creator sample_item = None"
  "it_type sample_item = TypeSecureNote" "it_deleted sample_item = None"
  "it_favorite sample_item = False" "it_pver sample_item = PayloadVersion"
  "it_updated sample_item = 7"
  by (simp_all add: sample_item_def sealed_item_def Let_def owner_for_def creator_for_def nullable_def
      sample_principal_def sample_vault_def Encrypt_def)

lemma sample_db1_inv: "vault_inv sample_vault sample_db1"
proof -
  have "insertItem sample_item sample_db = Inr sample_db1"
    by (simp add: insertItem_def insert_item_row_def item_check_def item_refs_def sample_db_def
        empty_db_def sql_insert_def sample_db1_def sample_user_def item_types_def)
  moreover have "owned_view (policyView sample_item)"
    by (simp add: owned_view_def null_string_def)
  ultimately show ?thesis
    by (rule vault_inv_insert[OF sample_db_inv _ _ _ sample_item_holds]) simp
qed

lemma sample_getItem: "getItem ''item'' sample_db1 = Some sample_item"
  by (simp add: getItem_def sql_get_def sample_db1_def)

end
