(* ===== verification/VaultSafety.thy ===== *)
theory VaultSafety
  imports SampleVault
begin

text \<open>
  The vault as a transition system: one step per service call, with any principal and any
  input; the invariant holds in every reachable state.  Then what the single operations do.
\<close>

section \<open>What the operations change\<close>

lemma insertItem_InrD:
  "insertItem r d = Inr d' \<Longrightarrow> d' = d\<lparr>items := items d @ [r\<lparr>it_deleted := None\<rparr>]\<rparr>
     \<and> it_id r \<notin> it_id ` set (items d)"
  by (auto simp: insertItem_def dest!: insert_item_row_InrD)

lemma create_tx_InrD:
  assumes "create_tx V a row c d = Inr (u, d')"
  shows "\<exists>d1. insertItem row d = Inr d1 \<and> items d' = items d1 \<and> versions d' = versions d1
     \<and> users d' = users d1"
  using assms
  by (auto simp: create_tx_def result_Inr dest!: audit_in_InrD complete_claim_InrD)

lemma write_revision_InrD:
  assumes "write_revision V a name r raw fav d = Inr d'"
  shows "\<exists>e. d' = (updated_db r (reseal_row V r raw) fav (ve_now V) d)\<lparr>audits := audits d @ [e]\<rparr>"
  using assms
  by (auto simp: write_revision_def result_Inr split: if_splits
      dest!: updateItem_InrD audit_in_InrD) (auto simp: updated_db_def)

lemma write_revision_inv:
  assumes V: "venv_ok V" and inv: "vault_inv V d" and g: "getItem iid d = Some r"
    and nd: "it_deleted r = None" and w: "wire_ok tags p" and t: "payload_type p = it_type r"
    and wr: "write_revision V a name r (content V tags p) fav d = Inr d'"
  shows "vault_inv V d'"
proof -
  let ?enc = "reseal_row V r (content V tags p)"
  have h: "holds V (ep_version ?enc) (ep_nonce ?enc) (ep_ciphertext ?enc)
      (row_aad r PayloadVersion (it_rev r + 1)) tags p"
    by (rule holds_Encrypt[OF V w]) (simp add: reseal_row_def)
  have v: "ep_version ?enc = PayloadVersion" by (simp add: reseal_row_def)
  have "row_holds V (bump ?enc fav (ve_now V) r) tags p"
    using h v t by (simp add: row_holds_def)
  then have "vault_inv V (updated_db r ?enc fav (ve_now V) d)"
    by (rule vault_inv_update[OF inv g nd]) (simp add: v)
  moreover obtain e where "d' = (updated_db r ?enc fav (ve_now V) d)\<lparr>audits := audits d @ [e]\<rparr>"
    using write_revision_InrD[OF wr] by blast
  ultimately show ?thesis using vault_inv_cong by (metis (no_types) db.select_convs(1,4,5) db.surjective db.update_convs(6))
qed

lemma readable_content:
  assumes "venv_ok V" and "vault_inv V d" and "readable_row a iid act d = Inr r"
  obtains tags p where "getItem iid d = Some r" "it_deleted r = None" "row_holds V r tags p"
    "wire_ok tags p" "payload_type p = it_type r"
    "decryptRow V r = Inr (content V tags p, p, put_payload (empty_envelope tags) p)"
proof -
  from readable_row_InrD[OF assms(3)] have g: "getItem iid d = Some r" "it_deleted r = None" by auto
  from vault_inv_row[OF assms(2) g(1)] obtain tags p where h: "row_holds V r tags p" by blast
  then show thesis
    using that[OF g h] decryptRow_holds[OF assms(1) h] by (simp add: row_holds_def holds_def)
qed

lemma buildEnvelope_content:
  "buildEnvelope (ve_codec V) tags p = Inr (env, raw) \<Longrightarrow>
     env = put_payload (empty_envelope tags) p \<and> raw = content V tags p"
  by (auto simp: content_def dest!: buildEnvelope_InrD)

definition wire_request :: "update_input \<Rightarrow> bool" where
  "wire_request i \<longleftrightarrow> (\<forall>ts. ui_tags i = Some ts \<longrightarrow> list_all valid_utf8 ts)"

lemma change_payload_inv:
  assumes V: "venv_ok V" and inv: "vault_inv V d" and g: "readable_row a iid act d = Inr r"
    and i: "wire_request i" and ch: "change_payload V a r i d = Inr (dt, d')"
  shows "vault_inv V d'"
proof -
  from readable_content[OF V inv g] obtain tags0 p0 where
    gi: "getItem iid d = Some r" "it_deleted r = None" and h0: "row_holds V r tags0 p0"
    and w0: "wire_ok tags0 p0"
    and dec: "decryptRow V r = Inr (content V tags0 p0, p0, put_payload (empty_envelope tags0) p0)"
    by metis
  from ch dec obtain p tags env raw where
    p: "decodePayload (ve_codec V) (it_type r) (ui_payload i) = Inr p"
    and tg: "new_tags (ui_tags i) tags0 = Inr tags"
    and be: "buildEnvelope (ve_codec V) tags p = Inr (env, raw)"
    and fin: "d' = d \<or> write_revision V a ''vault.item.updated'' r raw
        (new_favorite (ui_favorite i) (it_favorite r)) d = Inr d'"
    by (auto simp: change_payload_def Let_def result_Inr split: if_splits prod.splits)
  have pw: "payload_wire p" "payload_type p = it_type r"
    using decodePayload_InrD[OF p] V by (auto simp: venv_ok_def)
  have w: "wire_ok tags p"
    using new_tags_wire[OF tg] w0 i pw by (auto simp: wire_ok_def wire_request_def)
  from fin show ?thesis
  proof
    assume "d' = d"
    with inv show ?thesis by simp
  next
    assume "write_revision V a ''vault.item.updated'' r raw
        (new_favorite (ui_favorite i) (it_favorite r)) d = Inr d'"
    then show ?thesis
      using write_revision_inv[OF V inv gi w pw(2)] buildEnvelope_content[OF be] by simp
  qed
qed

lemma moveOnce_InrD:
  assumes V: "venv_ok V" and inv: "vault_inv V d" and g: "readable_row a iid act d = Inr r"
    and i: "wire_request i" and mv: "moveOnce V a r sc i d = Inr (dt, d')"
  obtains tags p d1 d4 target where
    "target = sealed_item V 0 (ve_ids V 0) sc a (it_type r)
       (new_favorite (ui_favorite i) (it_favorite r)) (content V tags p)"
    "row_holds V target tags p" "owned_view (policyView target)"
    "decodePayload (ve_codec V) (it_type r) (ui_payload i) = Inr p"
    "insertItem target d = Inr d1" "vault_inv V d1"
    "items d4 = items d1" "versions d4 = versions d1" "users d4 = users d1" "vault_inv V d4"
    "deleteItemAtRevision (it_id r) (it_rev r) d4 = (True, d')"
    "dt_payload dt = p" "dt_tags dt = tags" "m_id (dt_meta dt) = it_id target"
proof -
  from readable_content[OF V inv g] obtain tags0 p0 where
    w0: "wire_ok tags0 p0"
    and dec: "decryptRow V r = Inr (content V tags0 p0, p0, put_payload (empty_envelope tags0) p0)"
    by metis
  let ?fav = "new_favorite (ui_favorite i) (it_favorite r)"
  let ?target = "\<lambda>raw. sealed_item V 0 (ve_ids V 0) sc a (it_type r) ?fav raw"
  from mv dec obtain p tags env raw d1 d2 d3 d4 where
    cc: "CanCreate (p_role a) (p_user a) sc (owner_for sc a) (creator_for sc a)"
    and p: "decodePayload (ve_codec V) (it_type r) (ui_payload i) = Inr p"
    and tg: "new_tags (ui_tags i) tags0 = Inr tags"
    and be: "buildEnvelope (ve_codec V) tags p = Inr (env, raw)"
    and ins: "insertItem (?target raw) d = Inr d1"
    and au: "audit_in V (item_event ''vault.item.created'' a (ve_ids V 0)) d1 = Inr d2"
      "audit_in V ((item_event ''vault.item.moved'' a (ve_ids V 0))
        \<lparr>ev_source := it_id r, ev_source_scope := it_scope r, ev_target_scope := sc\<rparr>) d2 = Inr d3"
    and cl: "complete_claim V (ui_claim i) (ve_ids V 0) d3 = Inr d4"
    and del: "fst (deleteItemAtRevision (it_id r) (it_rev r) d4)"
      "d' = snd (deleteItemAtRevision (it_id r) (it_rev r) d4)"
    and dt: "dt = decorateDetail d' \<lparr>dt_meta = toMeta (?target raw), dt_tags = sp_tags env, dt_payload = p\<rparr>"
    by (auto simp: moveOnce_def Let_def result_Inr policyItem_def split: if_splits prod.splits)
  have raw: "raw = content V tags p" and env: "env = put_payload (empty_envelope tags) p"
    using buildEnvelope_content[OF be] by auto
  have pw: "payload_wire p" "payload_type p = it_type r"
    using decodePayload_InrD[OF p] V by (auto simp: venv_ok_def)
  have w: "wire_ok tags p"
    using new_tags_wire[OF tg] w0 i pw by (auto simp: wire_ok_def wire_request_def)
  have h: "row_holds V (?target raw) tags p" by (rule sealed_item_holds[OF V w pw(2) raw])
  have own: "owned_view (policyView (?target raw))"
    using CanCreate_owned[OF cc] by (simp add: sealed_item_view)
  have inv1: "vault_inv V d1" by (rule vault_inv_insert[OF inv ins own _ h]) simp
  from au cl have fr: "items d4 = items d1" "versions d4 = versions d1" "users d4 = users d1"
    by (auto dest!: audit_in_InrD complete_claim_InrD)
  have inv4: "vault_inv V d4" using inv1 vault_inv_cong[OF fr] by simp
  have m: "m_id (dt_meta dt) = ve_ids V 0" "dt_payload dt = p" "dt_tags dt = tags"
    by (auto simp: dt env decorateDetail_def attachCreatorNames_def toMeta_def split: option.splits)
  show thesis
    by (rule that[OF refl _ _ p ins[unfolded raw] inv1 fr inv4])
       (use h own m raw del in \<open>simp_all add: prod_eq_iff\<close>)
qed

lemma delete_at_revision_inv:
  "vault_inv V d \<Longrightarrow> deleteItemAtRevision iid rv d = (b, d') \<Longrightarrow> vault_inv V d'"
  by (auto simp: deleteItemAtRevision_def intro: vault_inv_delete)

lemma update_body_inv:
  assumes V: "venv_ok V" and inv: "vault_inv V d" and i: "wire_request i"
    and up: "update_body V a iid i d = Inr (dt, d')"
  shows "vault_inv V d'"
proof -
  from up obtain r where g: "readable_row a iid ActionRead d = Inr r"
    and cases: "(\<exists>sc. moveOnce V a r sc i d = Inr (dt, d')) \<or> change_payload V a r i d = Inr (dt, d')"
    by (auto simp: update_body_def result_Inr split: option.splits if_splits)
  from cases show ?thesis
  proof
    assume "\<exists>sc. moveOnce V a r sc i d = Inr (dt, d')"
    then obtain sc where mv: "moveOnce V a r sc i d = Inr (dt, d')" ..
    show ?thesis
      by (rule moveOnce_InrD[OF V inv g i mv]) (rule delete_at_revision_inv)
  next
    assume "change_payload V a r i d = Inr (dt, d')"
    then show ?thesis by (rule change_payload_inv[OF V inv g i])
  qed
qed

lemma metadata_body_inv:
  assumes V: "venv_ok V" and inv: "vault_inv V d"
    and w: "\<forall>ts. tags = Some ts \<longrightarrow> list_all valid_utf8 ts"
    and md: "metadata_body V a iid fav tags act d = Inr (dt, d')"
  shows "vault_inv V d'"
proof -
  from md obtain r where g: "readable_row a iid ActionRead d = Inr r"
    by (auto simp: metadata_body_def result_Inr)
  from readable_content[OF V inv g] obtain tags0 p where
    gi: "getItem iid d = Some r" "it_deleted r = None"
    and w0: "wire_ok tags0 p" and t: "payload_type p = it_type r"
    and dec: "decryptRow V r = Inr (content V tags0 p, p, put_payload (empty_envelope tags0) p)"
    by metis
  from md g dec obtain tags' env raw where
    tg: "new_tags tags tags0 = Inr tags'"
    and be: "buildEnvelope (ve_codec V) tags' p = Inr (env, raw)"
    and fin: "d' = d \<or> write_revision V a ''vault.item.updated'' r raw
        (new_favorite fav (it_favorite r)) d = Inr d'"
    by (auto simp: metadata_body_def Let_def result_Inr split: if_splits prod.splits)
  have w': "wire_ok tags' p"
    using new_tags_wire[OF tg _ w] w0 by (auto simp: wire_ok_def)
  from fin show ?thesis
  proof
    assume "d' = d"
    with inv show ?thesis by simp
  next
    assume "write_revision V a ''vault.item.updated'' r raw (new_favorite fav (it_favorite r)) d = Inr d'"
    then show ?thesis
      using write_revision_inv[OF V inv gi w' t] buildEnvelope_content[OF be] by simp
  qed
qed

lemma restore_history_content:
  assumes V: "venv_ok V" and inv: "vault_inv V d"
    and rh: "restore_history_body V a iid n d = Inr (dt, d')"
  obtains r v tags p where "readable_row a iid ActionHistory d = Inr r"
    "Can (p_role a) (p_user a) (policyView r) ActionHistoryRestore"
    "getHistoryVersion iid n d = Some v" "version_holds V r v tags p"
    "dt_payload dt = p" "dt_tags dt = tags"
    "write_revision V a ''vault.item.history_restored'' r (content V tags p) (it_favorite r) d = Inr d'"
proof -
  from rh obtain r v where g: "readable_row a iid ActionHistory d = Inr r"
    and v: "getHistoryVersion iid n d = Some v"
    by (auto simp: restore_history_body_def result_Inr)
  from readable_row_InrD[OF g] getItem_SomeD have r: "r \<in> set (items d)" "it_id r = iid" by blast+
  from v have "v \<in> set (versions d)" "v_item v = iid"
    by (auto simp: getHistoryVersion_def version_key_def dest!: version_table.get_SomeD)
  with inv r obtain tags p where h: "version_holds V r v tags p"
    by (fastforce simp: vault_inv_def)
  then have dec: "DecryptColumns (ve_aead V) (ve_key V) (v_pver v) (v_nonce v) (v_ct v)
      (row_aad r (v_pver v) (v_rev v)) = Inr (content V tags p)"
    and op: "open_envelope V (it_type r) (content V tags p)
      = Inr (content V tags p, p, put_payload (empty_envelope tags) p)"
    using open_content[OF V] by (auto simp: version_holds_def holds_def)
  from rh g v show thesis
    by (intro that[OF g _ v h]) (auto simp: restore_history_body_def result_Inr dec op)
qed

lemma restore_history_inv:
  assumes V: "venv_ok V" and inv: "vault_inv V d"
    and rh: "restore_history_body V a iid n d = Inr (dt, d')"
  shows "vault_inv V d'"
proof (rule restore_history_content[OF V inv rh])
  fix r v tags p
  assume g: "readable_row a iid ActionHistory d = Inr r" and h: "version_holds V r v tags p"
    and w: "write_revision V a ''vault.item.history_restored'' r (content V tags p) (it_favorite r) d = Inr d'"
  from readable_row_InrD[OF g] have gi: "getItem iid d = Some r" "it_deleted r = None" by auto
  from h have "wire_ok tags p" "payload_type p = it_type r" by (auto simp: version_holds_def holds_def)
  from write_revision_inv[OF V inv gi this w] show "vault_inv V d'" .
qed

lemma trash_body_inv:
  "vault_inv V d \<Longrightarrow> trash_body W a iid d = Inr (u, d') \<Longrightarrow> vault_inv V d'"
  by (auto simp: trash_body_def Let_def result_Inr audit_in_inv vault_inv_set_deleted split: if_splits)

lemma restore_body_inv:
  "vault_inv V d \<Longrightarrow> restore_body W a iid d = Inr (u, d') \<Longrightarrow> vault_inv V d'"
  by (auto simp: restore_body_def Let_def result_Inr audit_in_inv vault_inv_set_deleted split: if_splits)

lemma purge_body_inv:
  "vault_inv V d \<Longrightarrow> purge_body W a iid d = Inr (u, d') \<Longrightarrow> vault_inv V d'"
  by (auto simp: purge_body_def result_Inr audit_in_inv deleteItemCompletely_def vault_inv_delete)

lemma purge_all_inv:
  "purge_all W ids d = Inr d' \<Longrightarrow> vault_inv V d \<Longrightarrow> vault_inv V d'"
  by (induction W ids d rule: purge_all.induct)
     (auto simp: result_Inr audit_in_inv deleteItemCompletely_def vault_inv_delete)

section \<open>The transition system\<close>

definition same_vault :: "venv \<Rightarrow> venv \<Rightarrow> bool" where
  "same_vault V W \<longleftrightarrow> venv_ok W \<and> ve_aead W = ve_aead V \<and> ve_key W = ve_key V \<and> ve_codec W = ve_codec V"

lemma vault_inv_same: "same_vault V W \<Longrightarrow> vault_inv W d = vault_inv V d"
  by (simp add: same_vault_def vault_inv_def row_holds_def version_holds_def holds_def content_def)

text \<open>
  \<open>user_call V actor d d'\<close>: one call of a service operation by \<open>actor\<close>, with any input.  Request
  texts come out of a JSON decoder and hold valid UTF-8.
\<close>

inductive user_call :: "venv \<Rightarrow> principal option \<Rightarrow> db \<Rightarrow> db \<Rightarrow> bool" for V actor where
  create: "list_all valid_utf8 (ci_tags i) \<Longrightarrow> user_call V actor d (snd (Create V actor i c d))"
| get: "user_call V actor d (snd (Get V actor iid d))"
| update: "wire_request u \<Longrightarrow> user_call V actor d (snd (updateOnce V actor iid u d))"
| favorite: "user_call V actor d (snd (SetFavorite V actor iid b d))"
| tags: "list_all valid_utf8 ts \<Longrightarrow> user_call V actor d (snd (SetTags V actor iid ts d))"
| secret_event: "RecordSecretEvent V actor iid kind field d = Inr d' \<Longrightarrow> user_call V actor d d'"
| trash: "user_call V actor d (snd (Trash V actor iid d))"
| restore: "user_call V actor d (snd (RestoreTrashed V actor iid d))"
| purge: "user_call V actor d (snd (Purge V actor iid d))"
| restore_history: "user_call V actor d (snd (RestoreHistory V actor iid n d))"

text \<open>
  A step of the system: a user call, under any clock, fresh ids and nonces, the expiry of the
  trash, or a change of the users table by the user service.
\<close>

inductive vault_step :: "venv \<Rightarrow> db \<Rightarrow> db \<Rightarrow> bool" for V where
  call: "same_vault V W \<Longrightarrow> user_call W actor d d' \<Longrightarrow> vault_step V d d'"
| purge_expired: "vault_step V d (snd (PurgeExpiredTrash W d))"
| add_user: "insert_user u d = Inr d' \<Longrightarrow> vault_step V d d'"
| delete_user: "vault_step V d (delete_user_row uid d)"

lemma snd_in_tx_inv:
  "vault_inv V d \<Longrightarrow> (\<And>x d'. body d = Inr (x, d') \<Longrightarrow> vault_inv V d') \<Longrightarrow> vault_inv V (snd (in_tx body d))"
  by (cases "body d") (auto simp: in_tx_def)

lemma Create_inv:
  assumes V: "venv_ok V" and inv: "vault_inv V d" and w: "list_all valid_utf8 (ci_tags i)"
  shows "vault_inv V (snd (Create V actor i c d))"
proof (cases actor)
  case None
  with inv show ?thesis by (simp add: Create_def)
next
  case (Some a)
  show ?thesis
  proof (cases "create_row V a i d")
    case (Inl e)
    with Some inv show ?thesis by (simp add: Create_def)
  next
    case (Inr x)
    then obtain row env p where row: "create_row V a i d = Inr (row, env, p)" by (cases x) auto
    from create_row_InrD[OF row V w] obtain tags where
      h: "row_holds V row tags p" and own: "owned_view (policyView row)" and rev: "it_rev row = 1"
      by auto
    have "vault_inv V (snd (in_tx (create_tx V a row c) d))"
    proof (rule snd_in_tx_inv[OF inv])
      fix x d' assume "create_tx V a row c d = Inr (x, d')"
      from create_tx_InrD[OF this] obtain d1 where ins: "insertItem row d = Inr d1"
        and "items d' = items d1" "versions d' = versions d1" "users d' = users d1" by blast
      with vault_inv_insert[OF inv ins own rev h] show "vault_inv V d'"
        using vault_inv_cong by metis
    qed
    moreover have "snd (Create V actor i c d) = snd (in_tx (create_tx V a row c) d)"
      using row Some by (simp add: Create_def split: prod.splits sum.splits)
    ultimately show ?thesis by simp
  qed
qed

lemma Get_items: "\<exists>x. snd (Get V actor iid d) = d\<lparr>audits := audits d @ x\<rparr>"
  by (auto simp: Get_def split: option.splits sum.splits prod.splits if_splits
      dest!: audit_in_InrD intro: exI[of _ "[]"])

lemma insert_user_inv:
  assumes "insert_user u d = Inr d'" and inv: "vault_inv V d"
  shows "vault_inv V d'"
proof -
  have d': "d' = d\<lparr>users := users d @ [u]\<rparr>" using assms by (auto dest: insert_user_InrD)
  then have "item_refs d r \<Longrightarrow> item_refs d' r" for r
    by (auto simp: item_refs_def split: option.splits)
  with inv d' have "tables_ok d'" by (auto simp: vault_inv_def tables_ok_def)
  with inv d' show ?thesis by (intro vault_inv_users[OF inv]) simp_all
qed

lemma applyMetadataChange_inv:
  assumes "venv_ok V" and "vault_inv V d"
    and "\<forall>ts. tags = Some ts \<longrightarrow> list_all valid_utf8 ts"
  shows "vault_inv V (snd (applyMetadataChange V actor iid fav tags act d))"
  using assms by (cases actor)
    (auto simp: applyMetadataChange_def intro: snd_in_tx_inv metadata_body_inv)

lemma SetFavorite_snd: "snd (SetFavorite V actor iid b d)
    = snd (applyMetadataChange V actor iid (Some b) None ActionFavorite d)"
  by (simp add: SetFavorite_def split: prod.splits sum.splits)

lemma SetTags_snd: "snd (SetTags V actor iid ts d)
    = snd (applyMetadataChange V actor iid None (Some ts) ActionTag d)"
  by (simp add: SetTags_def split: prod.splits sum.splits)

lemma RestoreTrashed_snd: "snd (RestoreTrashed V actor iid d)
    = (case actor of None \<Rightarrow> d | Some a \<Rightarrow> snd (in_tx (restore_body V a iid) d))"
  by (simp add: RestoreTrashed_def split: option.splits prod.splits sum.splits)

lemma user_call_keeps:
  assumes "user_call V actor d d'" and "venv_ok V" and "vault_inv V d"
  shows "vault_inv V d'"
  using assms
proof (induction rule: user_call.induct)
  case (create i d c)
  then show ?case by (intro Create_inv)
next
  case (get d iid)
  then show ?case
    using Get_items[of V actor iid d] by (auto simp: vault_inv_cong[of "d\<lparr>audits := x\<rparr>" d for x])
next
  case (update u d iid)
  then show ?case by (auto simp: updateOnce_def intro!: snd_in_tx_inv
        intro: update_body_inv split: option.splits)
next
  case (favorite d iid b)
  then show ?case unfolding SetFavorite_snd by (intro applyMetadataChange_inv) auto
next
  case (tags ts d iid)
  then show ?case unfolding SetTags_snd by (intro applyMetadataChange_inv) auto
next
  case (secret_event iid kind field d d')
  then show ?case by (auto simp: RecordSecretEvent_def result_Inr audit_in_inv)
next
  case (trash d iid)
  then show ?case
    by (auto simp: Trash_def split: option.splits intro!: snd_in_tx_inv intro: trash_body_inv)
next
  case (restore d iid)
  then show ?case unfolding RestoreTrashed_snd
    by (auto split: option.splits intro!: snd_in_tx_inv intro: restore_body_inv)
next
  case (purge d iid)
  then show ?case
    by (auto simp: Purge_def split: option.splits intro!: snd_in_tx_inv intro: purge_body_inv)
next
  case (restore_history d iid n)
  then show ?case by (auto simp: RestoreHistory_def split: option.splits intro!: snd_in_tx_inv
        intro: restore_history_inv)
qed

lemma vault_step_keeps:
  assumes "vault_step V d d'" and "vault_inv V d"
  shows "vault_inv V d'"
  using assms
proof (induction rule: vault_step.induct)
  case (call W actor d d')
  then have "venv_ok W" "vault_inv W d" by (auto simp: vault_inv_same same_vault_def)
  with user_call_keeps[OF call(2)] call(1) show ?case by (simp add: vault_inv_same)
next
  case (purge_expired d W)
  then show ?case
    by (auto simp: PurgeExpiredTrash_def Let_def result_Inr intro!: snd_in_tx_inv intro: purge_all_inv)
next
  case (add_user u d d')
  then show ?case by (rule insert_user_inv)
next
  case (delete_user d uid)
  then show ?case by (rule vault_inv_delete_user)
qed

interpretation vault_system: invariant_system "vault_step V" "vault_inv V"
  by unfold_locales (rule vault_step_keeps)

text \<open>C1: in every state that service calls can reach from the empty database, by any sequence
  of calls with any actors and inputs, the tables satisfy their constraints, every item has
  exactly one subject, the archive of every item is exactly its last ten superseded revisions,
  and every current row and archived version decrypts under the AAD of its own row and
  revision to a payload of the row's type: no operation can leave an unreadable item.\<close>

theorem reachable_vault_inv:
  assumes "(vault_step V)\<^sup>*\<^sup>* empty_db d"
  shows "vault_inv V d"
proof -
  have "vault_inv V empty_db"
    by (simp add: vault_inv_def tables_ok_def history_exact_def empty_db_def)
  from vault_system.reachable_inv[OF assms this] show ?thesis .
qed

theorem reachable_vault_inv_witness:
  "vault_inv sample_vault (snd (Create sample_vault (Some (sample_principal ''u1'' ''admin''))
     \<lparr>ci_type = TypeSecureNote, ci_scope = ScopePersonal, ci_tags = [], ci_favorite = True,
      ci_payload = ''note1''\<rparr> None (empty_db\<lparr>users := [sample_user ''u1'' ''admin'']\<rparr>)))"
proof (rule reachable_vault_inv)
  let ?d = "empty_db\<lparr>users := [sample_user ''u1'' ''admin'']\<rparr>"
  have "insert_user (sample_user ''u1'' ''admin'') empty_db = Inr ?d"
    by (simp add: insert_user_def user_check_def sample_user_def empty_db_def sql_insert_def)
  then have u: "vault_step sample_vault empty_db ?d" by (rule vault_step.add_user)
  have "vault_step sample_vault ?d (snd (Create sample_vault (Some (sample_principal ''u1'' ''admin''))
     \<lparr>ci_type = TypeSecureNote, ci_scope = ScopePersonal, ci_tags = [], ci_favorite = True,
      ci_payload = ''note1''\<rparr> None ?d))"
    by (rule vault_step.call[OF _ user_call.create]) (simp_all add: same_vault_def sample_vault_ok)
  with u show "(vault_step sample_vault)\<^sup>*\<^sup>* empty_db (snd (Create sample_vault
     (Some (sample_principal ''u1'' ''admin''))
     \<lparr>ci_type = TypeSecureNote, ci_scope = ScopePersonal, ci_tags = [], ci_favorite = True,
      ci_payload = ''note1''\<rparr> None ?d))"
    by (meson r_into_rtranclp rtranclp_trans)
qed

end
