(* ===== verification/VaultTheorems.thy ===== *)
theory VaultTheorems
  imports VaultSafety
begin

text \<open>
  The properties of the vault operations: what a reader gets after a write, optimistic locking,
  who can change an item, the move between vaults, history and trash.
\<close>

section \<open>Reading what was written\<close>

lemma decorate_users: "users d = users d' \<Longrightarrow> decorateDetail d = decorateDetail d'"
proof (intro ext)
  assume u: "users d = users d'"
  have "creator_name d = creator_name d'" by (intro ext) (simp add: creator_name_def u)
  then show "decorateDetail d dt = decorateDetail d' dt" for dt
    by (simp add: decorateDetail_def attachCreatorNames_def split: option.split)
qed

lemma sealed_item_owner_read:
  assumes "CanCreate role u sc (owner_for sc a) (creator_for sc a)" and "u = p_user a"
  shows "Can role' u (policyView (sealed_item V k iid sc a t fav raw)) ActionRead"
  using assms
  by (auto simp: sealed_item_view CanCreate_def Can.simps CanReadItem_def policyItem_def split: if_splits)

text \<open>what a member creates, that member reads back: after a successful create the item is at
  revision 1 and reading it returns the very detail that the create answered, with the decoded
  payload, the normalised tags and the title; later reads by the same service differ only in the
  audit row they write.\<close>

theorem create_then_get:
  assumes V: "venv_ok V" and inv: "vault_inv V d" and w: "list_all valid_utf8 (ci_tags i)"
    and cr: "Create V (Some a) i c d = (Inr dt, d1)"
    and au: "audit_in V (item_event ''vault.item.viewed'' a (m_id (dt_meta dt))) d1 = Inr d2"
  shows "\<exists>d3. Get V (Some a) (m_id (dt_meta dt)) d1 = (Inr dt, d3) \<and> m_rev (dt_meta dt) = 1
    \<and> decodePayload (ve_codec V) (ci_type i) (ci_payload i) = Inr (dt_payload dt)
    \<and> validateTags (ci_tags i) = Inr (dt_tags dt)
    \<and> m_title (dt_meta dt) = TitleOf (dt_payload dt)"
proof -
  from cr obtain row env p where row: "create_row V a i d = Inr (row, env, p)"
    and tx: "in_tx (create_tx V a row c) d = (Inr (), d1)"
    and dt: "dt = decorateDetail d1 \<lparr>dt_meta = toMeta row, dt_tags = sp_tags env, dt_payload = p\<rparr>"
    by (auto simp: Create_def split: sum.splits prod.splits)
  from create_row_InrD[OF row V w] obtain tags where
    tg: "validateTags (ci_tags i) = Inr tags" and env: "env = put_payload (empty_envelope tags) p"
    and rdef: "row = sealed_item V 0 (ve_ids V 0) (ci_scope i) a (ci_type i) (ci_favorite i) (content V tags p)"
    and h: "row_holds V row tags p" and own: "owned_view (policyView row)"
    and dec: "decodePayload (ve_codec V) (ci_type i) (ci_payload i) = Inr p"
    by blast
  have cc: "CanCreate (p_role a) (p_user a) (ci_scope i) (owner_for (ci_scope i) a) (creator_for (ci_scope i) a)"
    using row by (auto simp: create_row_def Let_def result_Inr policyItem_def)
  have read: "Can (p_role a) (p_user a) (policyView row) ActionRead"
    unfolding rdef by (rule sealed_item_owner_read[OF cc refl])
  from create_tx_InrD[OF in_tx_InrD[OF tx]] obtain d0 where ins: "insertItem row d = Inr d0"
    and fr: "items d1 = items d0" "versions d1 = versions d0" "users d1 = users d0" by blast
  have "vault_inv V d0" by (rule vault_inv_insert[OF inv ins own _ h]) (simp add: rdef)
  then have "vault_inv V d1" using vault_inv_cong[OF fr] by simp
  then have ok1: "tables_ok d1" by (simp add: vault_inv_def)
  have "row \<in> set (items d1)" using insertItem_InrD[OF ins] fr by (simp add: rdef)
  then have g: "getItem (it_id row) d1 = Some row" by (simp add: getItem_iff[OF ok1])
  have iid: "m_id (dt_meta dt) = it_id row"
    by (auto simp: dt decorateDetail_def attachCreatorNames_def toMeta_def split: option.splits)
  have rr: "readable_row a (it_id row) ActionRead d1 = Inr row"
    using g read by (simp add: readable_row_def rdef)
  from audit_in_InrD[OF au] have "users d2 = users d1" by auto
  then have "Get V (Some a) (it_id row) d1
      = (Inr dt, if it_type row \<noteq> TypeSecret then d2 else d1)"
    using rr decryptRow_holds[OF V h] au[unfolded iid] decorate_users[of d2 d1]
    by (simp add: Get_def dt env)
  moreover have "dt_payload dt = p" "dt_tags dt = tags" "m_rev (dt_meta dt) = 1"
    "m_title (dt_meta dt) = TitleOf p"
    by (auto simp: dt env decorateDetail_def attachCreatorNames_def toMeta_def rdef split: option.splits)
  ultimately show ?thesis using tg dec iid by auto
qed

section \<open>Optimistic locking\<close>

lemma update_stale:
  assumes "getItem iid d = Some r" and "it_deleted r = None"
    and "Can (p_role a) (p_user a) (policyView r) ActionUpdate"
    and "1 \<le> ui_revision i" and "ui_revision i \<noteq> it_rev r"
    and "\<forall>sc. ui_scope i = Some sc \<longrightarrow> Scopes sc"
  shows "updateOnce V (Some a) iid i d = (Inl (ErrRevisionConflict (it_rev r)), d)"
proof -
  have "Can (p_role a) (p_user a) (policyView r) ActionRead"
    using policy.write_reads[OF assms(3)] by (simp add: write_action_def)
  then have "update_body V a iid i d = Inl (ErrRevisionConflict (it_rev r))"
    using assms by (simp add: update_body_def readable_row_def)
  then show ?thesis using assms by (auto simp: updateOnce_def split: option.splits)
qed

lemma write_revision_get:
  assumes ok: "tables_ok d" and g: "getItem iid d = Some r" and nd: "it_deleted r = None"
    and wr: "write_revision V a name r raw fav d = Inr d'"
  shows "getItem iid d' = Some (bump (reseal_row V r raw) fav (ve_now V) r)"
    and "\<And>x. x \<noteq> iid \<Longrightarrow> getItem x d' = getItem x d"
proof -
  let ?b = "bump (reseal_row V r raw) fav (ve_now V)"
  from write_revision_InrD[OF wr] have it: "items d' = sql_update (at_revision (it_id r) (it_rev r)) ?b (items d)"
    by (auto simp: updated_db_def)
  from getItem_SomeD[OF g] have r: "r \<in> set (items d)" "it_id r = iid" by auto
  have dist: "distinct (map it_id (items d))" using ok by (simp add: tables_ok_def)
  have gm: "sql_get it_id x (sql_update p ?b (items d))
      = map_option (\<lambda>q. if p q then ?b q else q) (sql_get it_id x (items d))" for x p
    by (rule item_table.get_modify[OF dist]) simp
  show "getItem iid d' = Some (?b r)"
    using g nd r by (simp add: getItem_def it gm at_revision_def)
  show "getItem x d' = getItem x d" if "x \<noteq> iid" for x
  proof (cases "getItem x d")
    case (Some q)
    then have "it_id q = x" using getItem_SomeD by blast
    with Some that r show ?thesis by (simp add: getItem_def it gm at_revision_def)
  qed (simp add: getItem_def it gm)
qed

lemma change_payload_cases:
  assumes V: "venv_ok V" and inv: "vault_inv V d" and g: "readable_row a iid act d = Inr r"
    and i: "wire_request i" and ch: "change_payload V a r i d = Inr (dt, d')"
  obtains (unchanged) "d' = d"
    | (written) tags p where "wire_ok tags p" "payload_type p = it_type r"
      "decodePayload (ve_codec V) (it_type r) (ui_payload i) = Inr p"
      "write_revision V a ''vault.item.updated'' r (content V tags p)
         (new_favorite (ui_favorite i) (it_favorite r)) d = Inr d'"
      "dt_tags dt = tags" "dt_payload dt = p"
proof -
  from readable_content[OF V inv g] obtain tags0 p0 where w0: "wire_ok tags0 p0"
    and dec: "decryptRow V r = Inr (content V tags0 p0, p0, put_payload (empty_envelope tags0) p0)"
    by metis
  from ch dec obtain p tags env raw where
    p: "decodePayload (ve_codec V) (it_type r) (ui_payload i) = Inr p"
    and tg: "new_tags (ui_tags i) tags0 = Inr tags"
    and be: "buildEnvelope (ve_codec V) tags p = Inr (env, raw)"
    and fin0: "(if raw = content V tags0 p0 \<and> new_favorite (ui_favorite i) (it_favorite r) = it_favorite r
      then Inr (decorateDetail d \<lparr>dt_meta = toMeta r,
        dt_tags = sp_tags (put_payload (empty_envelope tags0) p0), dt_payload = p0\<rparr>, d)
      else andthen (write_revision V a ''vault.item.updated'' r raw
             (new_favorite (ui_favorite i) (it_favorite r)) d) (\<lambda>d'.
        Inr (decorateDetail d' \<lparr>dt_meta = (toMeta r)\<lparr>m_favorite := new_favorite (ui_favorite i) (it_favorite r),
          m_rev := it_rev r + 1, m_updated := ve_now V\<rparr>, dt_tags = sp_tags env, dt_payload = p\<rparr>, d')))
      = (Inr (dt, d') :: vault_error + _)"
    by (auto simp: change_payload_def Let_def andthen_Inr simp del: if_split split: prod.splits)
  from fin0 have fin: "d' = d \<or> write_revision V a ''vault.item.updated'' r raw
        (new_favorite (ui_favorite i) (it_favorite r)) d = Inr d' \<and> dt_tags dt = sp_tags env \<and> dt_payload dt = p"
    by (simp add: andthen_Inr decorateDetail_def split: if_split_asm) auto
  have pw: "payload_wire p" "payload_type p = it_type r"
    using decodePayload_InrD[OF p] V by (auto simp: venv_ok_def)
  have w: "wire_ok tags p"
    using new_tags_wire[OF tg] w0 i pw by (auto simp: wire_ok_def wire_request_def)
  from fin buildEnvelope_content[OF be] show thesis
    using unchanged written[OF w pw(2) p] by auto
qed

text \<open>C4: no lost update.  Two clients start from the same revision.  The first update commits an
  effective change; the second attempt loses its snapshot, is rolled back and retried, and then
  sees the committed revision: it answers a revision conflict with the new revision and leaves
  the first client's result untouched.\<close>

theorem no_lost_update:
  assumes V: "venv_ok V" and inv: "vault_inv V d" and i: "wire_request i"
    and first: "updateOnce V (Some a) iid i d = (Inr dt, d1)" and eff: "items d1 \<noteq> items d"
    and "ui_scope i = None" and j: "ui_revision j = ui_revision i" "ui_scope j = None"
    and race: "busy W 0" "others W 0 d = d1" "\<not> cancelled W 0" "\<not> busy W (Suc 0)"
  shows "Update V2 W (Some a) iid j d = (Inl (ErrRevisionConflict (ui_revision i + 1)), d1)"
proof -
  from first have rv: "1 \<le> ui_revision i" and body: "update_body V a iid i d = Inr (dt, d1)"
    by (auto simp: updateOnce_def split: if_splits option.splits dest!: in_tx_InrD)
  from body \<open>ui_scope i = None\<close> obtain r where g: "readable_row a iid ActionRead d = Inr r"
    and can: "Can (p_role a) (p_user a) (policyView r) ActionUpdate"
    and rev: "it_rev r = ui_revision i" and ch: "change_payload V a r i d = Inr (dt, d1)"
    by (auto simp: update_body_def result_Inr)
  from readable_row_InrD[OF g] have gi: "getItem iid d = Some r" "it_deleted r = None" by auto
  have ok: "tables_ok d" using inv by (simp add: vault_inv_def)
  from change_payload_cases[OF V inv g i ch] eff obtain tags p where
    wr: "write_revision V a ''vault.item.updated'' r (content V tags p)
         (new_favorite (ui_favorite i) (it_favorite r)) d = Inr d1" by metis
  note g1 = write_revision_get(1)[OF ok gi wr]
  have "updateOnce V2 (Some a) iid j d1 = (Inl (ErrRevisionConflict (Suc (it_rev r))), d1)"
    using update_stale[OF g1, of a j V2] gi(2) can rv rev j by simp
  then show ?thesis
    using race rev by (simp add: Update_def numeral_3_eq_3)
qed

end
