(* ===== verification/VaultOwnership.thy ===== *)
theory VaultOwnership
  imports VaultTheorems
begin

text \<open>
  Who can change what: a call by one member leaves every item of every other member as it is.
  Moving an item between vaults, history, trash and expiry.
\<close>

section \<open>Operations on another item\<close>

text \<open>The row of an item and its archive, untouched.\<close>

definition same_item :: "string \<Rightarrow> db \<Rightarrow> db \<Rightarrow> bool" where
  "same_item iid d d' \<longleftrightarrow> getItem iid d' = getItem iid d \<and>
     filter (\<lambda>v. v_item v = iid) (versions d') = filter (\<lambda>v. v_item v = iid) (versions d)"

lemma same_item_refl [simp]: "same_item iid d d"
  by (simp add: same_item_def)

lemma same_item_trans: "same_item iid d e \<Longrightarrow> same_item iid e f \<Longrightarrow> same_item iid d f"
  by (simp add: same_item_def)

lemma same_item_cong: "items d' = items d \<Longrightarrow> versions d' = versions d \<Longrightarrow> same_item iid d d'"
  by (simp add: same_item_def getItem_def)

lemma same_item_audit: "audit_in V e d = Inr d' \<Longrightarrow> same_item iid d d'"
  by (auto intro!: same_item_cong dest!: audit_in_InrD)

lemma same_item_insert:
  assumes "insertItem r d = Inr d'" and "getItem iid d = Some q"
  shows "same_item iid d d'"
proof -
  from insertItem_InrD[OF assms(1)] have d': "d' = d\<lparr>items := items d @ [r\<lparr>it_deleted := None\<rparr>]\<rparr>" by simp
  have "getItem iid d' = Some q"
    using assms(2) by (simp add: d' getItem_def sql_get_def find_append)
  then show ?thesis using assms(2) by (simp add: same_item_def d')
qed

lemma find_filter_other:
  "(\<And>r. p r \<Longrightarrow> it_id r \<noteq> iid) \<Longrightarrow> find (\<lambda>r. it_id r = iid) (filter (\<lambda>r. \<not> p r) t) = find (\<lambda>r. it_id r = iid) t"
  by (induction t) auto

lemma find_update_other:
  assumes "\<And>r. p r \<Longrightarrow> it_id r \<noteq> iid" and "\<And>r. it_id (f r) = it_id r"
  shows "find (\<lambda>r. it_id r = iid) (map (\<lambda>r. if p r then f r else r) t) = find (\<lambda>r. it_id r = iid) t"
  using assms(1) by (induction t) (auto simp: assms(2))

lemma same_item_delete:
  assumes p: "\<And>r. p r \<Longrightarrow> it_id r \<noteq> iid"
  shows "same_item iid d (delete_item_rows p d)"
proof -
  have "filter (\<lambda>v. v_item v = iid) (filter (\<lambda>v. v_item v \<notin> G) vs) = filter (\<lambda>v. v_item v = iid) vs"
    if "iid \<notin> G" for G vs
    using that by (induction vs) auto
  moreover have "iid \<notin> set (map it_id (filter p (items d)))" using p by auto
  ultimately have "filter (\<lambda>v. v_item v = iid) (versions (delete_item_rows p d)) = filter (\<lambda>v. v_item v = iid) (versions d)"
    unfolding delete_item_rows_def Let_def sql_delete_def by simp
  then show ?thesis
    using find_filter_other[of p iid, OF p]
    by (simp add: same_item_def getItem_def sql_get_def delete_item_rows_def Let_def sql_delete_def)
qed

lemma same_item_updated:
  assumes "it_id cur \<noteq> iid"
  shows "same_item iid d (updated_db cur enc fav at d)"
proof -
  have p: "at_revision (it_id cur) (it_rev cur) r \<Longrightarrow> it_id r \<noteq> iid" for r
    using assms by (simp add: at_revision_def)
  have "filter (\<lambda>v. v_item v = iid) (versions (updated_db cur enc fav at d))
      = filter (\<lambda>v. v_item v = iid) (versions d)"
    using assms
    by (auto simp: updated_db_def pruneVersions_def sql_delete_def filter_filter version_of_def
        intro!: filter_cong)
  then show ?thesis
    using find_update_other[of _ iid "bump enc fav at", OF p]
    by (simp add: same_item_def getItem_def sql_get_def updated_db_def sql_update_def)
qed

lemma same_item_write:
  assumes "write_revision V a name r raw fav d = Inr d'" and "it_id r \<noteq> iid"
  shows "same_item iid d d'"
proof -
  from write_revision_InrD[OF assms(1)] obtain e where
    d': "d' = (updated_db r (reseal_row V r raw) fav (ve_now V) d)\<lparr>audits := audits d @ [e]\<rparr>" by blast
  have "same_item iid d (updated_db r (reseal_row V r raw) fav (ve_now V) d)"
    by (rule same_item_updated[OF assms(2)])
  then show ?thesis by (rule same_item_trans) (simp add: d' same_item_cong)
qed

lemma same_item_set_deleted: "jid \<noteq> iid \<Longrightarrow> same_item iid d (snd (setDeletedAt jid at d))"
  unfolding same_item_def getItem_def sql_get_def setDeletedAt_def Let_def sql_update_def
  by (simp, intro find_update_other) auto

section \<open>Only the subject changes an item\<close>

lemma write_right_subject:
  assumes "vault_inv V d" and "getItem iid d = Some r"
    and "Can role u (policyView r) act" and "write_action act"
  shows "view_subject (policyView r) = u"
  using Can_write_subject[OF _ assms(4,3)] vault_inv_row[OF assms(1,2)] by blast

lemma snd_in_tx_same:
  "(\<And>x d'. body d = Inr (x, d') \<Longrightarrow> same_item iid d d') \<Longrightarrow> same_item iid d (snd (in_tx body d))"
  by (cases "body d") (auto simp: in_tx_def)

lemma metadata_same:
  assumes V: "venv_ok V" and inv: "vault_inv V d" and g: "getItem iid d = Some r"
    and other: "view_subject (policyView r) \<noteq> p_user a" and act: "write_action act"
    and md: "metadata_body V a jid fav tags act d = Inr (dt, d')"
  shows "same_item iid d d'"
proof -
  from md obtain q where gq: "readable_row a jid ActionRead d = Inr q"
    and can: "Can (p_role a) (p_user a) (policyView q) act"
    and fin: "d' = d \<or> (\<exists>raw f. write_revision V a ''vault.item.updated'' q raw f d = Inr d')"
    by (fastforce simp: metadata_body_def Let_def result_Inr split: if_splits prod.splits)
  from readable_row_InrD[OF gq] have q: "getItem jid d = Some q" by simp
  have "it_id q \<noteq> iid"
    using write_right_subject[OF inv q can act] q g other getItem_SomeD[OF q] by auto
  with fin show ?thesis by (auto intro: same_item_write)
qed

lemma update_same:
  assumes V: "venv_ok V" and inv: "vault_inv V d" and g: "getItem iid d = Some r"
    and other: "view_subject (policyView r) \<noteq> p_user a" and w: "wire_request u"
    and up: "update_body V a jid u d = Inr (dt, d')"
  shows "same_item iid d d'"
proof -
  from up obtain q where gq: "readable_row a jid ActionRead d = Inr q"
    and can: "Can (p_role a) (p_user a) (policyView q) ActionUpdate"
    and fin: "(\<exists>sc. moveOnce V a q sc u d = Inr (dt, d')) \<or> change_payload V a q u d = Inr (dt, d')"
    by (auto simp: update_body_def result_Inr split: option.splits if_splits)
  from readable_row_InrD[OF gq] have q: "getItem jid d = Some q" by simp
  have "write_action ActionUpdate" by (simp add: write_action_def)
  then have ne: "it_id q \<noteq> iid"
    using write_right_subject[OF inv q can] q g other getItem_SomeD[OF q] by auto
  from fin show ?thesis
  proof
    assume "\<exists>sc. moveOnce V a q sc u d = Inr (dt, d')"
    then obtain sc where mv: "moveOnce V a q sc u d = Inr (dt, d')" ..
    show ?thesis
    proof (rule moveOnce_InrD[OF V inv gq w mv])
      fix target d1 d4
      assume "insertItem target d = Inr d1" "items d4 = items d1" "versions d4 = versions d1"
        and del: "deleteItemAtRevision (it_id q) (it_rev q) d4 = (True, d')"
      then have "same_item iid d d4"
        using same_item_insert[OF _ g] same_item_cong same_item_trans by blast
      moreover have "same_item iid d4 (delete_item_rows (at_revision (it_id q) (it_rev q)) d4)"
        using ne by (intro same_item_delete) (simp add: at_revision_def)
      ultimately show ?thesis
        using del same_item_trans by (auto simp: deleteItemAtRevision_def)
    qed
  next
    assume ch: "change_payload V a q u d = Inr (dt, d')"
    show ?thesis
      by (rule change_payload_cases[OF V inv gq w ch]) (auto intro: same_item_write[OF _ ne])
  qed
qed

lemma create_same:
  assumes g: "getItem iid d = Some r" and tx: "create_tx V a row c d = Inr (u, d')"
  shows "same_item iid d d'"
proof -
  from create_tx_InrD[OF tx] obtain d0 where "insertItem row d = Inr d0"
    and "items d' = items d0" "versions d' = versions d0" by blast
  then show ?thesis using same_item_insert[OF _ g] same_item_cong same_item_trans by blast
qed

lemma trash_same:
  assumes inv: "vault_inv V d" and g: "getItem iid d = Some r"
    and other: "view_subject (policyView r) \<noteq> p_user a" and tr: "trash_body V a jid d = Inr (u, d')"
  shows "same_item iid d d'"
proof -
  from tr obtain q where q: "getItem jid d = Some q"
    and can: "Can (p_role a) (p_user a) (policyView q) ActionDelete"
    and au: "audit_in V (item_event ''vault.item.trashed'' a jid)
      (snd (setDeletedAt jid (Some (ve_now V)) d)) = Inr d'"
    by (auto simp: trash_body_def Let_def result_Inr dest!: readable_row_InrD split: if_splits)
  have "jid \<noteq> iid"
    using write_right_subject[OF inv q can] q g other by (auto simp: write_action_def)
  then show ?thesis using same_item_set_deleted same_item_audit[OF au] same_item_trans by blast
qed

lemma restore_same:
  assumes inv: "vault_inv V d" and g: "getItem iid d = Some r"
    and other: "view_subject (policyView r) \<noteq> p_user a" and re: "restore_body V a jid d = Inr (u, d')"
  shows "same_item iid d d'"
proof -
  from re obtain q where q: "getItem jid d = Some q"
    and can: "Can (p_role a) (p_user a) (policyView q) ActionRestore"
    and au: "audit_in V (item_event ''vault.item.restored'' a jid) (snd (setDeletedAt jid None d)) = Inr d'"
    by (auto simp: restore_body_def Let_def result_Inr dest!: trashed_row_InrD split: if_splits)
  have "jid \<noteq> iid"
    using write_right_subject[OF inv q can] q g other by (auto simp: write_action_def)
  then show ?thesis using same_item_set_deleted same_item_audit[OF au] same_item_trans by blast
qed

lemma purge_same:
  assumes inv: "vault_inv V d" and g: "getItem iid d = Some r"
    and other: "view_subject (policyView r) \<noteq> p_user a" and pu: "purge_body V a jid d = Inr (u, d')"
  shows "same_item iid d d'"
proof -
  from pu obtain q where q: "getItem jid d = Some q"
    and can: "Can (p_role a) (p_user a) (policyView q) ActionPurge"
    and au: "audit_in V (item_event ''vault.item.purged'' a jid) (deleteItemCompletely jid d) = Inr d'"
    by (auto simp: purge_body_def result_Inr dest!: trashed_row_InrD)
  have "jid \<noteq> iid"
    using write_right_subject[OF inv q can] q g other by (auto simp: write_action_def)
  then have "same_item iid d (deleteItemCompletely jid d)"
    unfolding deleteItemCompletely_def by (intro same_item_delete) auto
  then show ?thesis using same_item_audit[OF au] same_item_trans by blast
qed

lemma history_same:
  assumes inv: "vault_inv V d" and g: "getItem iid d = Some r"
    and other: "view_subject (policyView r) \<noteq> p_user a"
    and rh: "restore_history_body V a jid n d = Inr (u, d')"
  shows "same_item iid d d'"
proof -
  from rh obtain q raw f where gq: "readable_row a jid ActionHistory d = Inr q"
    and can: "Can (p_role a) (p_user a) (policyView q) ActionHistoryRestore"
    and wr: "write_revision V a ''vault.item.history_restored'' q raw f d = Inr d'"
    by (auto simp: restore_history_body_def result_Inr)
  from readable_row_InrD[OF gq] have q: "getItem jid d = Some q" by simp
  have "it_id q \<noteq> iid"
    using write_right_subject[OF inv q can] q g other getItem_SomeD[OF q] by (auto simp: write_action_def)
  from same_item_write[OF wr this] show ?thesis .
qed

lemma Create_snd: "\<exists>row. snd (Create V (Some a) i c d) \<in> {d, snd (in_tx (create_tx V a row c) d)}"
  by (auto simp: Create_def split: sum.splits prod.splits) (metis snd_conv)+

lemma user_call_same_item:
  assumes "user_call V (Some a) d d'" and "venv_ok V" and "vault_inv V d"
    and "getItem iid d = Some r" and "view_subject (policyView r) \<noteq> p_user a"
  shows "same_item iid d d'"
  using assms
proof (induction rule: user_call.induct)
  case (create i d c)
  then have "same_item iid d (snd (in_tx (create_tx V a row c) d))" for row
    by (intro snd_in_tx_same) (rule create_same)
  then show ?case using Create_snd[of V a i c d] by auto
next
  case (get d jid)
  then show ?case using Get_items[of V "Some a" jid d] by (auto intro!: same_item_cong)
next
  case (update u d jid)
  then show ?case by (auto simp: updateOnce_def intro!: snd_in_tx_same intro: update_same)
next
  case (favorite d jid b)
  then show ?case unfolding SetFavorite_snd applyMetadataChange_def
    by (auto intro!: snd_in_tx_same elim!: metadata_same[rotated -1] simp: write_action_def)
next
  case (tags ts d jid)
  then show ?case unfolding SetTags_snd applyMetadataChange_def
    by (auto intro!: snd_in_tx_same elim!: metadata_same[rotated -1] simp: write_action_def)
next
  case (secret_event jid kind field d d')
  then show ?case by (auto simp: RecordSecretEvent_def result_Inr intro: same_item_audit)
next
  case (trash d jid)
  then show ?case unfolding Trash_def by (auto intro!: snd_in_tx_same intro: trash_same)
next
  case (restore d jid)
  then show ?case unfolding RestoreTrashed_snd by (auto intro!: snd_in_tx_same intro: restore_same)
next
  case (purge d jid)
  then show ?case unfolding Purge_def by (auto intro!: snd_in_tx_same intro: purge_same)
next
  case (restore_history d jid n)
  then show ?case unfolding RestoreHistory_def
    by (auto intro!: snd_in_tx_same intro: history_same)
qed

text \<open>C2: a call by one member cannot change an item of another: whatever operation the actor
  calls, with any input, an item whose owner (personal) or creator (shared) is somebody else
  keeps its row and its archived versions, even when the actor is an administrator.\<close>

theorem call_keeps_items_of_others:
  assumes "user_call V (Some a) d d'" and "venv_ok V" and "vault_inv V d"
    and "getItem iid d = Some r" and "view_subject (policyView r) \<noteq> p_user a"
  shows "getItem iid d' = Some r \<and>
    filter (\<lambda>v. v_item v = iid) (versions d') = filter (\<lambda>v. v_item v = iid) (versions d)"
  using user_call_same_item[OF assms] assms(4) by (simp add: same_item_def)

theorem call_keeps_items_of_others_witness:
  "getItem ''item'' (snd (Purge sample_vault (Some (sample_principal ''u2'' ''admin'')) ''item'' sample_db1))
     = Some sample_item"
  using call_keeps_items_of_others[OF user_call.purge sample_vault_ok sample_db1_inv sample_getItem,
      of "sample_principal ''u2'' ''admin''" "''item''"]
  by (simp add: view_subject_def null_string_def sample_principal_def)

end
