(* ===== verification/VaultLifecycle.thy ===== *)
theory VaultLifecycle
  imports VaultOwnership
begin

text \<open>
  The lifecycle of an item: the move between the vaults, the restore of an archived revision,
  the trash and its expiry.
\<close>

section \<open>Moving between vaults\<close>

lemma option_ext: "(\<And>q. x = Some q \<longleftrightarrow> y = Some q) \<Longrightarrow> x = y"
  by (cases x; cases y) auto

lemma getItem_delete:
  assumes ok: "tables_ok d"
  shows "getItem x (delete_item_rows p d) =
    (case getItem x d of None \<Rightarrow> None | Some r \<Rightarrow> if p r then None else Some r)"
proof (rule option_ext)
  fix q
  have "q \<in> set (items (delete_item_rows p d)) \<longleftrightarrow> q \<in> set (items d) \<and> \<not> p q"
    by (auto simp: delete_item_rows_def Let_def sql_simps)
  then have "getItem x (delete_item_rows p d) = Some q \<longleftrightarrow> getItem x d = Some q \<and> \<not> p q"
    using getItem_iff[OF ok, of x q] getItem_iff[OF tables_ok_delete_items[OF ok], of x p q] by auto
  also have "\<dots> \<longleftrightarrow> (case getItem x d of None \<Rightarrow> None | Some r \<Rightarrow> if p r then None else Some r) = Some q"
    by (auto split: option.splits)
  finally show "getItem x (delete_item_rows p d) = Some q \<longleftrightarrow>
    (case getItem x d of None \<Rightarrow> None | Some r \<Rightarrow> if p r then None else Some r) = Some q" .
qed

lemma getItem_None: "getItem iid d = None \<longleftrightarrow> iid \<notin> it_id ` set (items d)"
  unfolding getItem_def by (rule item_table.get_None)

lemma getItem_append:
  assumes it: "items d' = items d @ [t]" and fresh: "it_id t \<notin> it_id ` set (items d)"
  shows "getItem x d' = (if x = it_id t then Some t else getItem x d)"
proof (cases "getItem x d")
  case None
  then show ?thesis using it by (simp add: getItem_def sql_get_def find_append)
next
  case (Some q)
  then have "x \<noteq> it_id t" using fresh getItem_None[of x d] by (cases "x = it_id t") simp_all
  with Some it show ?thesis by (simp add: getItem_def sql_get_def find_append)
qed

lemma versions_delete:
  "set (versions (delete_item_rows p d)) =
     {v \<in> set (versions d). v_item v \<notin> it_id ` {r \<in> set (items d). p r}}"
  by (auto simp: delete_item_rows_def Let_def sql_simps)

text \<open>a move is one step: when an update names the other vault and succeeds, the source item
  and its whole history are gone, a new item with a fresh id exists at revision 1 in the target
  vault, owned by the actor and holding the submitted payload and tags under its own AAD, and
  no third item is touched.\<close>

theorem move_replaces_item:
  assumes V: "venv_ok V" and inv: "vault_inv V d" and w: "wire_request i"
    and g: "getItem iid d = Some r" and sc: "ui_scope i = Some sc" "sc \<noteq> it_scope r"
    and up: "updateOnce V (Some a) iid i d = (Inr dt, d')"
  shows "getItem iid d' = None \<and> (\<forall>v \<in> set (versions d'). v_item v \<noteq> iid) \<and>
    (\<exists>t. getItem (m_id (dt_meta dt)) d' = Some t \<and> getItem (m_id (dt_meta dt)) d = None
      \<and> it_rev t = 1 \<and> it_scope t = sc \<and> it_type t = it_type r
      \<and> view_subject (policyView t) = p_user a \<and> row_holds V t (dt_tags dt) (dt_payload dt)) \<and>
    (\<forall>x. x \<noteq> iid \<and> x \<noteq> m_id (dt_meta dt) \<longrightarrow> getItem x d' = getItem x d)"
proof -
  have body: "update_body V a iid i d = Inr (dt, d')"
    using up by (auto simp: updateOnce_def split: if_splits option.splits dest!: in_tx_InrD)
  then have rr: "readable_row a iid ActionRead d = Inr r" and mv: "moveOnce V a r sc i d = Inr (dt, d')"
    using g sc by (auto simp: update_body_def result_Inr readable_row_def)
  have ok: "tables_ok d" using inv by (simp add: vault_inv_def)
  have iid: "it_id r = iid" and nd: "it_deleted r = None"
    using getItem_SomeD[OF g] readable_row_InrD[OF rr] by auto
  have cc: "CanCreate (p_role a) (p_user a) sc (owner_for sc a) (creator_for sc a)"
    using mv by (auto simp: moveOnce_def Let_def result_Inr policyItem_def)
  show ?thesis
  proof (rule moveOnce_InrD[OF V inv rr w mv])
    fix tags p d1 d4 target
    assume t: "target = sealed_item V 0 (ve_ids V 0) sc a (it_type r)
        (new_favorite (ui_favorite i) (it_favorite r)) (content V tags p)"
      and h: "row_holds V target tags p" and ins: "insertItem target d = Inr d1"
      and fr: "items d4 = items d1" "versions d4 = versions d1"
      and inv4: "vault_inv V d4"
      and del: "deleteItemAtRevision (it_id r) (it_rev r) d4 = (True, d')"
      and dt: "dt_payload dt = p" "dt_tags dt = tags" "m_id (dt_meta dt) = it_id target"
    let ?n = "it_id target"
    have ok4: "tables_ok d4" using inv4 by (simp add: vault_inv_def)
    from insertItem_InrD[OF ins] t have it4: "items d4 = items d @ [target]"
      and fresh: "?n \<notin> it_id ` set (items d)" by (auto simp: fr)
    have g4: "getItem x d4 = (if x = ?n then Some target else getItem x d)" for x
      by (rule getItem_append[OF it4 fresh])
    have ne: "?n \<noteq> iid" using fresh getItem_SomeD[OF g] by auto
    have d': "d' = delete_item_rows (at_revision iid (it_rev r)) d4"
      using del iid by (simp add: deleteItemAtRevision_def)
    have gr: "getItem iid d4 = Some r" using g4 ne g by simp
    have gn: "getItem x d' = (if x = iid then None else getItem x d4)" for x
    proof (cases "getItem x d4")
      case (Some q)
      then have "it_id q = x" using getItem_SomeD by blast
      moreover have "q = r" if "x = iid" using that Some gr by simp
      ultimately show ?thesis
        using Some nd by (cases "x = iid") (simp_all add: d' getItem_delete[OF ok4] at_revision_def)
    qed (simp add: d' getItem_delete[OF ok4])
    have "r \<in> set (items d4)" using it4 getItem_SomeD[OF g] by simp
    then have "v_item v \<noteq> iid" if "v \<in> set (versions d')" for v
      using that nd iid by (auto simp: d' versions_delete at_revision_def)
    moreover have "getItem ?n d = None"
      using fresh by (simp add: getItem_None)
    moreover have "view_subject (policyView target) = p_user a"
      using CanCreate_owned[OF cc] by (simp add: t sealed_item_view)
    moreover have "it_rev target = 1" "it_scope target = sc" "it_type target = it_type r"
      by (simp_all add: t)
    ultimately show ?thesis
      unfolding dt using gn g4 h ne by simp
  qed
qed

section \<open>History\<close>

lemma version_in_history:
  assumes inv: "vault_inv V d" and g: "getItem iid d = Some r"
  shows "(\<exists>v. getHistoryVersion iid n d = Some v) \<longleftrightarrow> max 1 (it_rev r - 10) \<le> n \<and> n < it_rev r"
proof -
  from getItem_SomeD[OF g] inv have "archived_revisions iid d = {max 1 (it_rev r - 10) ..< it_rev r}"
    by (auto simp: vault_inv_def history_exact_def)
  moreover have "(\<exists>v. getHistoryVersion iid n d = Some v) \<longleftrightarrow> n \<in> archived_revisions iid d"
    unfolding getHistoryVersion_def archived_revisions_iff
    using version_table.get_None[of "(iid, n)" "versions d"]
    by (cases "sql_get version_key (iid, n) (versions d)")
       (auto simp: version_key_def image_iff dest: version_table.get_SomeD)
  ultimately show ?thesis by auto
qed

text \<open>The archive keeps exactly the last ten superseded revisions, and restoring one of them
  re-seals its content as a new revision: the item then holds, under the AAD of the next
  revision, the same tags and payload that the archived version holds, keeps its favorite
  flag, and the version that was current is archived.  Any other revision number is not found.\<close>

theorem restore_history_restores:
  assumes V: "venv_ok V" and inv: "vault_inv V d" and g: "getItem iid d = Some r"
    and rh: "RestoreHistory V (Some a) iid n d = (Inr dt, d')"
  shows "max 1 (it_rev r - 10) \<le> n \<and> n < it_rev r \<and>
    (\<exists>v r'. getHistoryVersion iid n d = Some v \<and> getItem iid d' = Some r'
      \<and> version_holds V r v (dt_tags dt) (dt_payload dt)
      \<and> row_holds V r' (dt_tags dt) (dt_payload dt)
      \<and> it_rev r' = it_rev r + 1 \<and> it_favorite r' = it_favorite r
      \<and> archived_revisions iid d' = {max 1 (it_rev r + 1 - 10) .. it_rev r})"
proof -
  from rh have body: "restore_history_body V a iid n d = Inr (dt, d')"
    by (auto simp: RestoreHistory_def split: if_splits dest!: in_tx_InrD)
  have inv': "vault_inv V d'" by (rule restore_history_inv[OF V inv body])
  have ok: "tables_ok d" using inv by (simp add: vault_inv_def)
  show ?thesis
  proof (rule restore_history_content[OF V inv body])
    fix q v tags p
    assume gq: "readable_row a iid ActionHistory d = Inr q" and v: "getHistoryVersion iid n d = Some v"
      and h: "version_holds V q v tags p" and dt: "dt_payload dt = p" "dt_tags dt = tags"
      and wr: "write_revision V a ''vault.item.history_restored'' q (content V tags p) (it_favorite q) d = Inr d'"
    from readable_row_InrD[OF gq] g have q: "q = r" and nd: "it_deleted r = None" by auto
    let ?r' = "bump (reseal_row V r (content V tags p)) (it_favorite r) (ve_now V) r"
    have g': "getItem iid d' = Some ?r'"
      using write_revision_get(1)[OF ok g nd] wr q by simp
    have w: "wire_ok tags p" "payload_type p = it_type r"
      using h q by (auto simp: version_holds_def holds_def)
    have "holds V (ep_version (reseal_row V r (content V tags p)))
       (ep_nonce (reseal_row V r (content V tags p))) (ep_ciphertext (reseal_row V r (content V tags p)))
       (row_aad r PayloadVersion (it_rev r + 1)) tags p"
      by (rule holds_Encrypt[OF V w(1)]) (simp add: reseal_row_def)
    then have "row_holds V ?r' tags p"
      using w(2) by (simp add: row_holds_def reseal_row_def)
    moreover have "archived_revisions iid d' = {max 1 (it_rev r + 1 - 10) ..< it_rev r + 1}"
      using inv' getItem_SomeD[OF g'] by (auto simp: vault_inv_def history_exact_def)
    then have "archived_revisions iid d' = {max 1 (it_rev r + 1 - 10) .. it_rev r}"
      by (simp add: atLeastLessThanSuc_atLeastAtMost)
    ultimately show ?thesis
      using version_in_history[OF inv g, of n] v g' h q dt by auto
  qed
qed

text \<open>The audit write of an operation cannot fail: no injected fault, a fresh event id, an
  event within the limits.\<close>

definition audit_ready :: "venv \<Rightarrow> db \<Rightarrow> bool" where
  "audit_ready V d \<longleftrightarrow> \<not> au_fault (ve_audit V) \<and>
     au_id (ve_audit V) (length (audits d)) \<notin> e_id ` set (audits d)"

definition short_ids :: "principal \<Rightarrow> string \<Rightarrow> bool" where
  "short_ids a iid \<longleftrightarrow> length (p_user a) \<le> 64 \<and> length iid \<le> 64"

lemma audit_in_ready:
  assumes "audit_ready V d" and "short_ids a iid" and "name \<in> set allowlist" and "length name \<le> 64"
    and "audits d1 = audits d"
  shows "\<exists>r. audit_in V (item_event name a iid) d1 = Inr (d1\<lparr>audits := audits d @ [r]\<rparr>)"
proof -
  have "event_error (item_event name a iid) = None"
    using assms by (simp add: event_error_def item_event_def mk_event_def ValidEventName_def short_ids_def)
  then show ?thesis
    using assms by (auto simp: audit_in_def Record_def audit_ready_def sql_insert_def event_row_def image_iff)
qed

lemma write_revision_ready:
  assumes inv: "vault_inv V d" and g: "getItem iid d = Some r" and nd: "it_deleted r = None"
    and au: "audit_ready V d" "short_ids a iid" "name \<in> set allowlist" "length name \<le> 64"
  shows "\<exists>d'. write_revision V a name r raw fav d = Inr d'"
proof -
  from inv have ok: "tables_ok d" and hist: "history_exact d" by (auto simp: vault_inv_def)
  let ?d1 = "updated_db r (reseal_row V r raw) fav (ve_now V) d"
  have "audits ?d1 = audits d" by (simp add: updated_db_def)
  from audit_in_ready[OF au this] obtain e where
    "audit_in V (item_event name a iid) ?d1 = Inr (?d1\<lparr>audits := audits d @ [e]\<rparr>)" by blast
  then show ?thesis
    using updateItem_applies[OF ok hist g nd] getItem_SomeD[OF g] by (simp add: write_revision_def)
qed

lemma restore_ready:
  assumes V: "venv_ok V" and inv: "vault_inv V d" and g: "getItem iid d = Some r"
    and nd: "it_deleted r = None" and own: "view_subject (policyView r) = p_user a"
    and n: "max 1 (it_rev r - 10) \<le> n" "n < it_rev r"
    and au: "audit_ready V d" "short_ids a iid"
  shows "\<exists>dt d'. RestoreHistory V (Some a) iid n d = (Inr dt, d')"
proof -
  from version_in_history[OF inv g] n obtain v where v: "getHistoryVersion iid n d = Some v" by blast
  have can: "Can (p_role a) (p_user a) (policyView r) ActionHistoryRestore"
    using own policy.write_iff[of "policyView r" ActionHistoryRestore] vault_inv_row[OF inv g]
    by (auto simp: write_action_def owned_view_def view_subject_def)
  then have read: "Can (p_role a) (p_user a) (policyView r) ActionHistory"
    using policy.write_reads[OF can, of "p_role a"] by (simp add: write_action_def Can.simps split: if_splits)
  from getItem_SomeD[OF g] have r: "r \<in> set (items d)" "it_id r = iid" by auto
  have "v \<in> set (versions d)" "v_item v = iid"
    using v by (auto simp: getHistoryVersion_def version_key_def dest!: version_table.get_SomeD)
  with inv r obtain tags p where h: "version_holds V r v tags p" by (fastforce simp: vault_inv_def)
  then have dec: "DecryptColumns (ve_aead V) (ve_key V) (v_pver v) (v_nonce v) (v_ct v)
      (row_aad r (v_pver v) (v_rev v)) = Inr (content V tags p)"
    and op: "open_envelope V (it_type r) (content V tags p)
      = Inr (content V tags p, p, put_payload (empty_envelope tags) p)"
    using open_content[OF V] by (auto simp: version_holds_def holds_def)
  obtain d' where "write_revision V a ''vault.item.history_restored'' r (content V tags p) (it_favorite r) d = Inr d'"
    using write_revision_ready[OF inv g nd au, of "''vault.item.history_restored''" "content V tags p" "it_favorite r"]
    by (auto simp: allowlist_def)
  then have "\<exists>dt. restore_history_body V a iid n d = Inr (dt, d')"
    using g nd read can v dec op by (simp add: restore_history_body_def readable_row_def)
  then show ?thesis using n by (auto simp: RestoreHistory_def)
qed


section \<open>Trash\<close>

lemma setDeletedAt_get:
  assumes ok: "tables_ok d" and g: "getItem iid d = Some r"
    and app: "case at of None \<Rightarrow> it_deleted r \<noteq> None | Some _ \<Rightarrow> it_deleted r = None"
  shows "fst (setDeletedAt iid at d)"
    and "items (snd (setDeletedAt iid at d)) = map (\<lambda>q. if it_id q = iid then q\<lparr>it_deleted := at\<rparr> else q) (items d)"
proof -
  from getItem_SomeD[OF g] have r: "r \<in> set (items d)" "it_id r = iid" by auto
  define p where "p = (\<lambda>r. it_id r = iid \<and>
    (case at of None \<Rightarrow> it_deleted r \<noteq> None | Some (_ :: time) \<Rightarrow> it_deleted (r :: item_row) = None))"
  have uniq: "p q \<longleftrightarrow> it_id q = iid" if "q \<in> set (items d)" for q
  proof -
    have "q = r" if "it_id q = iid"
      using that \<open>q \<in> set (items d)\<close> r ok distinct_key_unique[of it_id "items d" q r]
      by (simp add: tables_ok_def)
    then show ?thesis using app by (auto simp: p_def)
  qed
  have "sql_affected p (items d) \<le> 1"
    using ok by (intro sql_affected_le1[where key = it_id and k = iid]) (auto simp: tables_ok_def p_def)
  moreover have "0 < sql_affected p (items d)" using uniq r by (auto simp: sql_simps)
  ultimately have "sql_affected p (items d) = 1" by simp
  then show "fst (setDeletedAt iid at d)" by (simp add: setDeletedAt_def Let_def p_def)
  have "items (snd (setDeletedAt iid at d)) = map (\<lambda>q. if p q then q\<lparr>it_deleted := at\<rparr> else q) (items d)"
    by (simp add: setDeletedAt_def Let_def sql_update_def p_def)
  also have "\<dots> = map (\<lambda>q. if it_id q = iid then q\<lparr>it_deleted := at\<rparr> else q) (items d)"
    using uniq by (intro map_cong) auto
  finally show "items (snd (setDeletedAt iid at d))
    = map (\<lambda>q. if it_id q = iid then q\<lparr>it_deleted := at\<rparr> else q) (items d)" .
qed

text \<open>the trash is invisible and reversible.  After a successful trash call the item answers
  "not found" to every reader, every update and every history request; restoring it gives back
  exactly the tables of before, rows and history unchanged, with nothing re-encrypted.\<close>

theorem trash_then_restore:
  assumes inv: "vault_inv V d" and tr: "Trash V (Some a) iid d = (Inr (), d1)"
  shows "Get V2 (Some b) iid d1 = (Inl ErrNotFound, d1)
    \<and> (\<forall>n. RestoreHistory V2 (Some b) iid n d1 = (Inl ErrNotFound, d1))
    \<and> (RestoreTrashed V3 (Some a) iid d1 = (Inr dt, d2) \<longrightarrow> items d2 = items d \<and> versions d2 = versions d)"
proof -
  from tr obtain r where g: "getItem iid d = Some r" and nd: "it_deleted r = None"
    and au: "audit_in V (item_event ''vault.item.trashed'' a iid) (snd (setDeletedAt iid (Some (ve_now V)) d)) = Inr d1"
    by (auto simp: Trash_def trash_body_def Let_def result_Inr dest!: in_tx_InrD readable_row_InrD split: if_splits)
  have ok: "tables_ok d" using inv by (simp add: vault_inv_def)
  let ?del = "\<lambda>at q. if it_id q = iid then q\<lparr>it_deleted := at\<rparr> else q"
  have i1: "items d1 = map (?del (Some (ve_now V))) (items d)" and v1: "versions d1 = versions d"
    using setDeletedAt_get(2)[OF ok g, of "Some (ve_now V)"] nd audit_in_InrD[OF au]
    by (auto simp: setDeletedAt_def Let_def)
  have ok1: "tables_ok d1"
    using audit_in_inv[OF au, of V] vault_inv_set_deleted[OF inv] by (auto simp: vault_inv_def)
  from getItem_SomeD[OF g] have r: "r \<in> set (items d)" "it_id r = iid" by auto
  then have g1: "getItem iid d1 = Some (r\<lparr>it_deleted := Some (ve_now V)\<rparr>)"
    unfolding getItem_iff[OF ok1] i1 by (auto simp: image_iff intro!: bexI[of _ r])
  have same: "q = r" if "q \<in> set (items d)" "it_id q = iid" for q
    using that r ok distinct_key_unique[of it_id "items d" q r] by (simp add: tables_ok_def)
  have undo: "items d2 = items d \<and> versions d2 = versions d"
    if re: "RestoreTrashed V3 (Some a) iid d1 = (Inr dt, d2)"
  proof -
    from re obtain x where "in_tx (restore_body V3 a iid) d1 = (Inr x, d2)"
      by (auto simp: RestoreTrashed_def split: sum.splits prod.splits)
    then have au2: "audit_in V3 (item_event ''vault.item.restored'' a iid) (snd (setDeletedAt iid None d1)) = Inr d2"
      by (auto simp: restore_body_def Let_def result_Inr dest!: in_tx_InrD split: if_splits)
    have "items d2 = map (?del None) (items d1)" "versions d2 = versions d1"
      using setDeletedAt_get(2)[OF ok1 g1, of None] audit_in_InrD[OF au2]
      by (auto simp: setDeletedAt_def Let_def)
    moreover have "map (?del None) (map (?del (Some (ve_now V))) (items d)) = items d"
      using same nd by (auto intro!: map_idI)
    ultimately show ?thesis using i1 v1 by simp
  qed
  have "readable_row b iid act d1 = Inl ErrNotFound" for act
    using g1 by (simp add: readable_row_def)
  then show ?thesis
    using undo by (auto simp: Get_def RestoreHistory_def restore_history_body_def)
qed

lemma purge_all_effect:
  "purge_all V ids d = Inr d' \<Longrightarrow> items d' = filter (\<lambda>r. it_id r \<notin> set ids) (items d) \<and>
     set (versions d') \<subseteq> set (versions d)"
proof (induction V ids d rule: purge_all.induct)
  case (1 V d)
  then show ?case by simp
next
  case (2 V iid ids d)
  from 2(2) obtain d1 where
    au: "audit_in V (mk_event ''vault.item.purged'' Anonymous ''item'' iid ''success'') (deleteItemCompletely iid d) = Inr d1"
    and rest: "purge_all V ids d1 = Inr d'" by (auto simp: result_Inr)
  from audit_in_InrD[OF au] have "items d1 = filter (\<lambda>r. it_id r \<noteq> iid) (items d)"
    "set (versions d1) \<subseteq> set (versions d)"
    by (auto simp: deleteItemCompletely_def delete_item_rows_def Let_def sql_delete_def)
  with 2(1)[OF rest] show ?case by (auto simp: filter_filter conj_commute intro!: filter_cong)
qed

text \<open>the expiry job removes exactly the items that have been in the trash for thirty days or
  longer, and reports their number; an item that is not in the trash, or not long enough, keeps
  its row.\<close>

theorem purge_expired_exact:
  assumes inv: "vault_inv V d" and pu: "PurgeExpiredTrash V d = (Inr n, d')"
  shows "items d' = filter (\<lambda>r. case it_deleted r of None \<Rightarrow> True
       | Some t \<Rightarrow> ve_now V < t + 30 * day_ns) (items d) \<and> n + length (items d') = length (items d)"
proof -
  let ?old = "\<lambda>r. case it_deleted r of None \<Rightarrow> False | Some t \<Rightarrow> t \<le> ve_now V - 30 * day_ns"
  let ?ids = "expiredTrashIDs (ve_now V - 30 * day_ns) d"
  have dist: "distinct (map it_id (items d))" using inv by (simp add: vault_inv_def tables_ok_def)
  from pu have p: "purge_all V ?ids d = Inr d'" and n: "n = length ?ids"
    by (auto simp: PurgeExpiredTrash_def Let_def result_Inr TrashRetentionDays_def dest!: in_tx_InrD)
  have mem: "it_id r \<in> set ?ids \<longleftrightarrow> ?old r" if "r \<in> set (items d)" for r
    using that dist distinct_key_unique[of it_id "items d" r]
    by (auto simp: expiredTrashIDs_def image_iff)
  have it: "items d' = filter (\<lambda>r. \<not> ?old r) (items d)"
    using purge_all_effect[OF p] mem by (auto intro!: filter_cong)
  have "filter (\<lambda>r. \<not> ?old r) (items d) = filter (\<lambda>r. case it_deleted r of None \<Rightarrow> True
      | Some t \<Rightarrow> ve_now V < t + 30 * day_ns) (items d)"
    by (intro filter_cong) (auto split: option.splits)
  moreover have "length ?ids + length (items d') = length (items d)"
    unfolding it expiredTrashIDs_def using sum_length_filter_compl[of ?old "items d"] by simp
  ultimately show ?thesis using n it by simp
qed

end
