(* ===== verification/VaultWitness.thy ===== *)
theory VaultWitness
  imports VaultLifecycle
begin

text \<open>
  The sample vault in action: one member creates a note, updates it, moves it, trashes it.  The
  runs are evaluated from the definitions; the witnesses of the properties use them.
\<close>

abbreviation u1 :: principal where "u1 \<equiv> sample_principal ''u1'' ''admin''"

definition sample_create :: create_input where
  "sample_create = \<lparr>ci_type = TypeSecureNote, ci_scope = ScopePersonal, ci_tags = [''t''],
     ci_favorite = False, ci_payload = ''note1''\<rparr>"

lemma validate_sample_tags: "validateTags [''t''] = Inr [''t'']"
  by code_simp

lemma raw_samples: "\<not> blank ''note1''" "\<not> blank ''note2''"
  by (simp_all add: blank_def runes_def byte_values_def is_space_def)

lemma valid_samples: "validate_payload note1 = None" "validate_payload note2 = None"
  by (simp_all add: note1_def note2_def validateSecureNote_def requiredText_def optionalText_def
      rune_count_ascii ascii_def blank_def runes_def byte_values_def is_space_def)

lemma decode_samples:
  "decodePayload sample_codec TypeSecureNote ''note1'' = Inr note1"
  "decodePayload sample_codec TypeSecureNote ''note2'' = Inr note2"
  using raw_samples valid_samples
  by (simp_all add: decodePayload_def sample_codec_def sample_decode_def ItemTypes_def item_types_def)

lemma build_samples:
  "buildEnvelope sample_codec [''t''] note1 = Inr (env1, [1])"
  "buildEnvelope sample_codec [''t''] note2 = Inr (env2, [2])"
  using content_samples
  by (simp_all add: buildEnvelope_def Let_def content_def sample_vault_def MaxPayloadBytes_def
      env1_def env2_def)

lemma sample_vault_simps [simp]:
  "ve_codec sample_vault = sample_codec" "ve_ids sample_vault 0 = ''item''"
  "ve_now sample_vault = 7" "ve_audit sample_vault = sample_env"
  by (simp_all add: sample_vault_def)

lemma note_refs [simp]: "referenceTarget note1 = None" "referenceTarget note2 = None"
  by (simp_all add: note1_def note2_def)

lemma u1_simps [simp]: "p_user (sample_principal u r) = u" "p_role (sample_principal u r) = r"
  by (simp_all add: sample_principal_def)

lemma sample_sealed [simp]:
  "sealed_item sample_vault 0 ''item'' ScopePersonal u1 TypeSecureNote False [1] = sample_item"
  by (simp add: sample_item_def)

lemma sample_create_row: "create_row sample_vault u1 sample_create sample_db = Inr (sample_item, env1, note1)"
  using validate_sample_tags decode_samples build_samples
  by (simp add: create_row_def sample_create_def ItemTypes_def item_types_def Scopes_def CanCreate_def
      Let_def owner_for_def creator_for_def policyItem_def check_reference_of_def)

lemma sample_audit: "event_error e = None \<Longrightarrow> au_id sample_env (length (audits d)) \<notin> e_id ` set (audits d) \<Longrightarrow>
  audit_in sample_vault e d =
    Inr (d\<lparr>audits := audits d @ [event_row sample_env (au_id sample_env (length (audits d))) e]\<rparr>)"
  by (simp add: audit_in_def Record_def sample_env_def sql_insert_def event_row_def image_iff)

lemma item_event_ok [simp]:
  "name \<in> set allowlist \<Longrightarrow> length name \<le> 64 \<Longrightarrow> length iid \<le> 64 \<Longrightarrow> event_error (item_event name u1 iid) = None"
  by (simp add: event_error_def item_event_def mk_event_def ValidEventName_def sample_principal_def)

lemma sample_insert: "insertItem sample_item sample_db = Inr sample_db1"
  by (simp add: insertItem_def insert_item_row_def item_check_def item_refs_def sample_db_def
      empty_db_def sql_insert_def sample_db1_def sample_user_def item_types_def)

lemma sample_create_tx: "create_tx sample_vault u1 sample_item None sample_db = Inr ((), sample_db1
    \<lparr>audits := [event_row sample_env '''' (item_event ''vault.item.created'' u1 ''item'')]\<rparr>)"
  using sample_audit[of "item_event ''vault.item.created'' u1 ''item''" sample_db1]
  by (simp add: create_tx_def sample_insert complete_claim_def allowlist_def)
     (simp add: sample_db1_def sample_db_def empty_db_def sample_env_def)

text \<open>After the create, after the update of that note, after its move to the shared vault.\<close>

definition sample_db2 :: db where
  "sample_db2 = sample_db1\<lparr>audits :=
     [event_row sample_env '''' (item_event ''vault.item.created'' u1 ''item'')]\<rparr>"

definition sample_detail :: detail where
  "sample_detail = decorateDetail sample_db2 \<lparr>dt_meta = toMeta sample_item, dt_tags = [''t''], dt_payload = note1\<rparr>"

lemma env_tags: "sp_tags env1 = [''t'']" "sp_tags env2 = [''t'']"
  by (simp_all add: env1_def env2_def)

lemma sample_create_run: "Create sample_vault (Some u1) sample_create None sample_db = (Inr sample_detail, sample_db2)"
  by (simp add: Create_def sample_create_row in_tx_def sample_create_tx
      sample_detail_def sample_db2_def env_tags)

lemma sample_meta_id: "m_id (dt_meta sample_detail) = ''item''"
  by (simp add: sample_detail_def decorateDetail_def attachCreatorNames_def toMeta_def)

theorem create_then_get_witness:
  "\<exists>d3. Get sample_vault (Some u1) ''item'' sample_db2 = (Inr sample_detail, d3)"
proof -
  obtain d2 where "audit_in sample_vault (item_event ''vault.item.viewed'' u1 (m_id (dt_meta sample_detail))) sample_db2 = Inr d2"
    using audit_in_ready[of sample_vault sample_db2 u1 "''item''" "''vault.item.viewed''" sample_db2]
    by (auto simp: sample_meta_id audit_ready_def short_ids_def allowlist_def sample_env_def
        sample_db2_def event_row_def)
  from create_then_get[OF sample_vault_ok sample_db_inv _ sample_create_run this]
  show ?thesis by (auto simp: sample_create_def sample_meta_id valid_utf8_def byte_values_def)
qed

definition sample_update :: update_input where
  "sample_update = \<lparr>ui_revision = 1, ui_tags = None, ui_favorite = None, ui_payload = ''note2'',
     ui_scope = None, ui_claim = None\<rparr>"

lemma sample_ready: "audit_ready sample_vault sample_db1" "short_ids u1 ''item''"
  by (simp_all add: audit_ready_def short_ids_def sample_db1_def sample_db_def empty_db_def sample_env_def)

lemma sample_readable:
  "act \<in> {ActionRead, ActionHistory} \<Longrightarrow> readable_row u1 ''item'' act sample_db1 = Inr sample_item"
  by (auto simp: readable_row_def sample_getItem Can.simps CanReadItem_def null_string_def)

lemma sample_can: "Can ''admin'' ''u1'' (policyView sample_item) ActionUpdate"
  by (simp add: Can.simps IsSelf_def null_string_def)

lemma sample_decrypt: "decryptRow sample_vault sample_item = Inr ([1], note1, env1)"
  using decryptRow_holds[OF sample_vault_ok sample_item_holds] content_samples by (simp add: env1_def)

lemma sample_update_run:
  "\<exists>dt d'. updateOnce sample_vault (Some u1) ''item'' sample_update sample_db1 = (Inr dt, d') \<and>
     write_revision sample_vault u1 ''vault.item.updated'' sample_item [2] False sample_db1 = Inr d'"
proof -
  obtain d' where wr: "write_revision sample_vault u1 ''vault.item.updated'' sample_item [2] False sample_db1 = Inr d'"
    using write_revision_ready[OF sample_db1_inv sample_getItem _ sample_ready, of "''vault.item.updated''" "[2]" False]
    by (auto simp: allowlist_def)
  have "\<exists>dt. change_payload sample_vault u1 sample_item sample_update sample_db1 = Inr (dt, d')"
    using decode_samples build_samples
    by (simp add: change_payload_def sample_update_def check_reference_of_def sample_decrypt
        new_tags_def env_tags new_favorite_def wr)
  then show ?thesis
    using wr sample_readable sample_can
    by (auto simp: updateOnce_def update_body_def sample_update_def)
qed

theorem no_lost_update_witness:
  "\<exists>d1. Update sample_vault \<lparr>busy = (\<lambda>k. k = 0), others = (\<lambda>_ _. d1), cancelled = (\<lambda>_. False)\<rparr>
     (Some u1) ''item'' sample_update sample_db1 = (Inl (ErrRevisionConflict 2), d1)"
proof -
  obtain dt d1 where up: "updateOnce sample_vault (Some u1) ''item'' sample_update sample_db1 = (Inr dt, d1)"
    and wr: "write_revision sample_vault u1 ''vault.item.updated'' sample_item [2] False sample_db1 = Inr d1"
    using sample_update_run by blast
  have ok: "tables_ok sample_db1" using sample_db1_inv by (simp add: vault_inv_def)
  have "it_rev (bump e f t sample_item) \<noteq> it_rev sample_item" for e f t by simp
  then have ne: "items d1 \<noteq> items sample_db1"
    using write_revision_get(1)[OF ok sample_getItem _ wr] sample_getItem
    by (metis getItem_def option.inject sample_item_simps(7))
  have "Update sample_vault \<lparr>busy = (\<lambda>k. k = 0), others = (\<lambda>_ _. d1), cancelled = (\<lambda>_. False)\<rparr>
     (Some u1) ''item'' sample_update sample_db1 = (Inl (ErrRevisionConflict (ui_revision sample_update + 1)), d1)"
    by (rule no_lost_update[OF sample_vault_ok sample_db1_inv _ up ne])
       (simp_all add: sample_update_def wire_request_def)
  moreover have "ui_revision sample_update + 1 = 2" by (simp add: sample_update_def)
  ultimately show ?thesis by metis
qed

lemma sample_updated:
  obtains dt d' where "updateOnce sample_vault (Some u1) ''item'' sample_update sample_db1 = (Inr dt, d')"
    "vault_inv sample_vault d'" "\<exists>r. getItem ''item'' d' = Some r \<and> it_rev r = 2 \<and> it_deleted r = None
       \<and> view_subject (policyView r) = ''u1''"
    "length (audits d') = 1" "e_id ` set (audits d') = {''''}"
proof -
  obtain dt d1 where up: "updateOnce sample_vault (Some u1) ''item'' sample_update sample_db1 = (Inr dt, d1)"
    and wr: "write_revision sample_vault u1 ''vault.item.updated'' sample_item [2] False sample_db1 = Inr d1"
    using sample_update_run by blast
  have ok: "tables_ok sample_db1" using sample_db1_inv by (simp add: vault_inv_def)
  have "user_call sample_vault (Some u1) sample_db1 d1"
    using user_call.update[of sample_update sample_vault "Some u1" sample_db1 "''item''"] up
    by (simp add: wire_request_def sample_update_def)
  then have inv: "vault_inv sample_vault d1"
    by (rule user_call_keeps[OF _ sample_vault_ok sample_db1_inv])
  have aud: "audits (updated_db sample_item e f t sample_db1) = []" for e f t
    by (simp add: updated_db_def sample_db1_def sample_db_def empty_db_def)
  obtain d0 where "audit_in sample_vault (item_event ''vault.item.updated'' u1 ''item'') d0 = Inr d1" "audits d0 = []"
    using wr aud by (auto simp: write_revision_def result_Inr split: if_splits dest!: updateItem_InrD)
  then have "audits d1 = [event_row sample_env '''' (item_event ''vault.item.updated'' u1 ''item'')]"
    by (auto simp: audit_in_def map_err_Inr sample_env_def dest!: Record_InrD)
  then show thesis
    using that[OF up inv] write_revision_get(1)[OF ok sample_getItem _ wr]
    by (simp add: view_subject_def null_string_def event_row_def)
qed


theorem restore_history_restores_witness:
  "\<exists>d dt d' r'. RestoreHistory sample_vault (Some u1) ''item'' 1 d = (Inr dt, d')
     \<and> getItem ''item'' d' = Some r' \<and> it_rev r' = 3 \<and> archived_revisions ''item'' d' = {1..2}"
proof -
  obtain dt d r where inv: "vault_inv sample_vault d" and r: "getItem ''item'' d = Some r"
      "it_rev r = 2" "it_deleted r = None" "view_subject (policyView r) = ''u1''"
    and au: "length (audits d) = 1" "e_id ` set (audits d) = {''''}"
    using sample_updated by metis
  from version_in_history[OF inv r(1), of 1] obtain v where v: "getHistoryVersion ''item'' 1 d = Some v"
    using r by auto
  have "audit_ready sample_vault d" using au by (simp add: audit_ready_def sample_env_def)
  obtain dt2 d2 where rh: "RestoreHistory sample_vault (Some u1) ''item'' 1 d = (Inr dt2, d2)"
    using restore_ready[OF sample_vault_ok inv r(1,3) _ _ _ \<open>audit_ready sample_vault d\<close> sample_ready(2), of 1]
      r by auto
  from restore_history_restores[OF sample_vault_ok inv r(1) rh] rh r(2) show ?thesis
    by (auto simp: numeral_3_eq_3)
qed

lemma sample_trash: "\<exists>d1. Trash sample_vault (Some u1) ''item'' sample_db1 = (Inr (), d1)
    \<and> (\<exists>r. items d1 = [r] \<and> it_deleted r = Some 7)"
proof -
  have ok: "tables_ok sample_db1" using sample_db1_inv by (simp add: vault_inv_def)
  let ?s = "setDeletedAt ''item'' (Some 7) sample_db1"
  have s: "fst ?s" "items (snd ?s) = [sample_item\<lparr>it_deleted := Some 7\<rparr>]" "audits (snd ?s) = audits sample_db1"
    using setDeletedAt_get[OF ok sample_getItem, of "Some 7"]
    by (simp_all add: sample_db1_def) (simp add: setDeletedAt_def Let_def)
  obtain e where au: "audit_in sample_vault (item_event ''vault.item.trashed'' u1 ''item'') (snd ?s)
      = Inr ((snd ?s)\<lparr>audits := audits sample_db1 @ [e]\<rparr>)"
    using audit_in_ready[OF sample_ready, of "''vault.item.trashed''"] s(3) by (auto simp: allowlist_def)
  have can: "Can ''admin'' ''u1'' (policyView sample_item) ActionDelete"
    by (simp add: Can.simps IsSelf_def null_string_def)
  show ?thesis
    using s au by (simp add: Trash_def trash_body_def sample_readable can in_tx_def)
qed

theorem trash_then_restore_witness:
  "\<exists>d1. Trash sample_vault (Some u1) ''item'' sample_db1 = (Inr (), d1)
     \<and> Get sample_vault (Some u1) ''item'' d1 = (Inl ErrNotFound, d1)"
proof -
  obtain d1 where t: "Trash sample_vault (Some u1) ''item'' sample_db1 = (Inr (), d1)"
    using sample_trash by blast
  from trash_then_restore[OF sample_db1_inv t] t show ?thesis by blast
qed

text \<open>The same vault thirty days later, and with another id generator.\<close>

definition later_vault :: venv where
  "later_vault = sample_vault\<lparr>ve_now := 7 + 30 * day_ns, ve_ids := (\<lambda>i. ''new'')\<rparr>"

lemma later_vault_ok: "venv_ok later_vault"
  using sample_vault_ok by (simp add: venv_ok_def later_vault_def)

lemma later_vault_inv: "vault_inv later_vault d = vault_inv sample_vault d"
  by (rule vault_inv_same) (use later_vault_ok in \<open>simp add: same_vault_def later_vault_def\<close>)

lemma sample_trash_item: "\<exists>d1 r. Trash sample_vault (Some u1) ''item'' sample_db1 = (Inr (), d1)
    \<and> items d1 = [r] \<and> it_id r = ''item'' \<and> it_deleted r = Some 7 \<and> length (audits d1) = 1
    \<and> e_id ` set (audits d1) = {''''} \<and> vault_inv sample_vault d1"
proof -
  obtain d1 r where t: "Trash sample_vault (Some u1) ''item'' sample_db1 = (Inr (), d1)"
    and i: "items d1 = [r]" "it_deleted r = Some 7" using sample_trash by blast
  have inv: "vault_inv sample_vault d1"
    using user_call_keeps[OF user_call.trash sample_vault_ok sample_db1_inv, of "Some u1" "''item''"] t by simp
  from t have b: "trash_body sample_vault u1 ''item'' sample_db1 = Inr ((), d1)"
    by (auto simp: Trash_def dest!: in_tx_InrD)
  have a0: "audits (snd (setDeletedAt ''item'' (Some 7) sample_db1)) = []"
    by (simp add: setDeletedAt_def Let_def sample_db1_def sample_db_def empty_db_def)
  have "audits d1 = [event_row sample_env '''' (item_event ''vault.item.trashed'' u1 ''item'')]"
    and "items d1 = items (snd (setDeletedAt ''item'' (Some 7) sample_db1))"
    using b a0 by (auto simp: trash_body_def Let_def result_Inr audit_in_def map_err_Inr sample_env_def
        split: if_splits dest!: Record_InrD)
  moreover from this(2) have "it_id r = ''item''"
    using i by (auto simp: setDeletedAt_def Let_def sql_update_def sample_db1_def split: if_splits)
  ultimately show ?thesis
    using t i inv by (intro exI[of _ d1] exI[of _ r]) (simp add: event_row_def)
qed

theorem purge_expired_exact_witness:
  "\<exists>d1 d'. it_deleted (hd (items d1)) = Some 7 \<and> PurgeExpiredTrash later_vault d1 = (Inr 1, d') \<and> items d' = []"
proof -
  obtain d1 r where i: "items d1 = [r]" "it_id r = ''item''" "it_deleted r = Some 7"
    and a: "length (audits d1) = 1" "e_id ` set (audits d1) = {''''}" and inv: "vault_inv sample_vault d1"
    using sample_trash_item by blast
  let ?e = "mk_event ''vault.item.purged'' Anonymous ''item'' ''item'' ''success''"
  have ok: "event_error ?e = None"
    by (simp add: event_error_def mk_event_def ValidEventName_def allowlist_def)
  have ids: "expiredTrashIDs (ve_now later_vault - TrashRetentionDays * day_ns) d1 = [''item'']"
    using i by (simp add: expiredTrashIDs_def later_vault_def TrashRetentionDays_def)
  have "audits (deleteItemCompletely ''item'' d1) = audits d1"
    by (simp add: deleteItemCompletely_def frame_simps)
  then have "\<exists>d2. audit_in later_vault ?e (deleteItemCompletely ''item'' d1) = Inr d2"
    using a ok by (simp add: audit_in_def Record_def later_vault_def sample_env_def sql_insert_def event_row_def)
  then obtain d2 where "PurgeExpiredTrash later_vault d1 = (Inr 1, d2)"
    using ids by (auto simp: PurgeExpiredTrash_def Let_def in_tx_def)
  with purge_expired_exact[OF _ this] i show ?thesis
    by (auto simp: later_vault_inv inv) (metis list.sel(1))
qed

definition sample_move :: update_input where
  "sample_move = sample_update\<lparr>ui_scope := Some ScopeShared\<rparr>"

lemma sample_move_run: "\<exists>dt d'. updateOnce later_vault (Some u1) ''item'' sample_move sample_db1 = (Inr dt, d')"
proof -
  let ?t = "sealed_item later_vault 0 ''new'' ScopeShared u1 TypeSecureNote False [2]"
  have own: "it_owner ?t = None" "it_creator ?t = Some ''u1''" "it_pver ?t = PayloadVersion"
    by (simp_all add: sealed_item_def Let_def owner_for_def creator_for_def nullable_def Encrypt_def)
  have ins: "insertItem ?t sample_db1 = Inr (sample_db1\<lparr>items := [sample_item, ?t]\<rparr>)"
    using own by (simp add: insertItem_def insert_item_row_def item_check_def item_refs_def
        item_types_def sample_db1_def sample_db_def empty_db_def sample_user_def sql_insert_def)
  have dec: "decryptRow later_vault sample_item = Inr ([1], note1, env1)"
    using sample_decrypt by (simp add: decryptRow_def open_envelope_def[abs_def] later_vault_def)
  have vs: "ve_codec later_vault = sample_codec" "ve_audit later_vault = sample_env"
    "ve_ids later_vault 0 = ''new''"
    by (simp_all add: later_vault_def)
  have ev: "event_error (item_event ''vault.item.created'' u1 ''new'') = None"
    "event_error ((item_event ''vault.item.moved'' u1 ''new'')\<lparr>ev_source := ''item'',
       ev_source_scope := ScopePersonal, ev_target_scope := ScopeShared\<rparr>) = None"
    by (simp_all add: event_error_def item_event_def mk_event_def ValidEventName_def allowlist_def)
  have "\<exists>dt d'. moveOnce later_vault u1 sample_item ScopeShared sample_move sample_db1 = Inr (dt, d')"
    using decode_samples build_samples ins dec ev
    by (simp add: moveOnce_def Let_def CanCreate_def owner_for_def creator_for_def policyItem_def vs
        check_reference_of_def new_tags_def new_favorite_def sample_move_def sample_update_def env_tags
        audit_in_def Record_def sample_env_def sql_insert_def event_row_def complete_claim_def
        sample_db1_def sample_db_def empty_db_def deleteItemAtRevision_def sql_affected_def at_revision_def)
  then show ?thesis
    using sample_readable sample_can
    by (auto simp: updateOnce_def update_body_def sample_move_def sample_update_def Scopes_def in_tx_def)
qed

theorem move_replaces_item_witness:
  "\<exists>dt d' t. updateOnce later_vault (Some u1) ''item'' sample_move sample_db1 = (Inr dt, d')
     \<and> getItem ''item'' d' = None \<and> getItem (m_id (dt_meta dt)) d' = Some t \<and> it_scope t = ScopeShared"
proof -
  obtain dt d' where up: "updateOnce later_vault (Some u1) ''item'' sample_move sample_db1 = (Inr dt, d')"
    using sample_move_run by blast
  from move_replaces_item[OF later_vault_ok _ _ sample_getItem _ _ up, of ScopeShared] up
  show ?thesis
    by (auto simp: later_vault_inv sample_db1_inv sample_move_def wire_request_def sample_update_def)
qed

end
