(* ===== verification/VaultReads.thy ===== *)
theory VaultReads
  imports SampleVault
begin

text \<open>
  What the reads return: the SQL predicates select exactly what the policy admits, the batched
  scan returns what a scan of everything would, and the export is exactly the actor's own items.
\<close>

section \<open>Decrypted candidates\<close>

text \<open>The content of a row, as the invariant guarantees it.\<close>

definition row_tags :: "venv \<Rightarrow> item_row \<Rightarrow> string list" where
  "row_tags V r = (case decryptRow V r of Inl _ \<Rightarrow> [] | Inr (_, _, env) \<Rightarrow> sp_tags env)"

definition row_matches :: "venv \<Rightarrow> (payload \<Rightarrow> string list \<Rightarrow> bool) \<Rightarrow> item_row \<Rightarrow> bool" where
  "row_matches V m r = (case decryptRow V r of Inl _ \<Rightarrow> False | Inr (_, p, env) \<Rightarrow> m p (sp_tags env))"

definition titled :: "venv \<Rightarrow> item_row \<Rightarrow> meta" where
  "titled V r = (case decryptRow V r of Inl _ \<Rightarrow> toMeta r
     | Inr (_, p, env) \<Rightarrow> (toMeta r)\<lparr>m_title := TitleOf p\<rparr>)"

definition all_open :: "venv \<Rightarrow> item_row list \<Rightarrow> bool" where
  "all_open V rs \<longleftrightarrow> (\<forall>r \<in> set rs. \<exists>x. decryptRow V r = Inr x)"

lemma vault_inv_open:
  "venv_ok V \<Longrightarrow> vault_inv V d \<Longrightarrow> set rs \<subseteq> set (items d) \<Longrightarrow> all_open V rs"
  unfolding all_open_def vault_inv_def by (blast dest: decryptRow_holds)

lemma titled_id [simp]: "m_id (titled V r) = it_id r"
  by (simp add: titled_def toMeta_def split: sum.split prod.split)

lemma match_rows_open:
  "all_open V rs \<Longrightarrow> match_rows V m rs = Inr (map (titled V) (filter (row_matches V m) rs))"
proof (induction rs)
  case Nil
  then show ?case by simp
next
  case (Cons r rs)
  then obtain raw p env where "decryptRow V r = Inr (raw, p, env)" by (auto simp: all_open_def)
  with Cons show ?case by (simp add: all_open_def row_matches_def titled_def)
qed

lemma titled_rows_open:
  "all_open V rs \<Longrightarrow> titled_rows V uid rs
     = Inr (map (titled V) (filter (\<lambda>r. CanReadItem uid (policyView r)) rs))"
proof (induction rs)
  case Nil
  then show ?case by simp
next
  case (Cons r rs)
  then obtain raw p env where "decryptRow V r = Inr (raw, p, env)" by (auto simp: all_open_def)
  with Cons show ?case by (simp add: all_open_def titled_def)
qed

section \<open>The batched scan\<close>

definition matches_below ::
  "venv \<Rightarrow> (item_row \<Rightarrow> bool) \<Rightarrow> (payload \<Rightarrow> string list \<Rightarrow> bool) \<Rightarrow> (time \<times> string) option \<Rightarrow> db \<Rightarrow> meta list" where
  "matches_below V p m cur d = map (titled V) (filter (row_matches V m) (candidates p cur d))"

lemma scan_matches_spec:
  assumes "tables_ok d" and "all_open V (items d)"
  shows "\<exists>k. scan_matches V p m cur limit d acc = Inr (acc @ take k (matches_below V p m cur d)) \<and>
     (limit < length acc + k \<or> length (matches_below V p m cur d) \<le> k)"
  using assms
proof (induction V p m cur limit d acc rule: scan_matches.induct)
  case (1 V p m cur limit d acc)
  let ?C = "candidates p cur d" and ?rows = "listRows p cur searchBatchSize d"
  have rows: "?rows = take searchBatchSize ?C" by (simp add: listRows_take searchBatchSize_def)
  show ?case
  proof (cases "limit < length acc \<or> ?rows = []")
    case True
    then show ?thesis
    proof
      assume "limit < length acc"
      then show ?thesis by (subst scan_matches.simps) (auto intro!: exI[of _ 0])
    next
      assume e: "?rows = []"
      then have "?C = []" unfolding rows by (simp add: searchBatchSize_def)
      then show ?thesis using e
        by (subst scan_matches.simps) (auto simp: matches_below_def intro!: exI[of _ 0])
    qed
  next
    case False
    have sub: "set ?rows \<subseteq> set (items d)" by (auto dest: listRows_mem)
    have op: "all_open V ?rows" using "1.prems"(2) sub by (auto simp: all_open_def)
    define ms where "ms = map (titled V) (filter (row_matches V m) ?rows)"
    define rest where "rest = matches_below V p m (Some (item_pos (last ?rows))) d"
    have mr: "match_rows V m ?rows = Inr ms" unfolding ms_def by (rule match_rows_open[OF op])
    have "candidates p (Some (item_pos (last ?rows))) d = drop searchBatchSize ?C"
      using False candidates_after[OF "1.prems"(1), of searchBatchSize p cur] rows
      by (simp add: searchBatchSize_def)
    then have split: "matches_below V p m cur d = ms @ rest"
      unfolding matches_below_def ms_def rest_def rows
      by (metis append_take_drop_id filter_append map_append)
    have "\<not> limit < length acc" "?rows \<noteq> []" using False by auto
    then obtain k where k: "scan_matches V p m (Some (item_pos (last ?rows))) limit d (acc @ ms)
        = Inr ((acc @ ms) @ take k rest)"
      and fin: "limit < length (acc @ ms) + k \<or> length rest \<le> k"
      using "1.IH"[OF _ refl _ mr] "1.prems" unfolding rest_def by blast
    have "scan_matches V p m cur limit d acc = Inr (acc @ ms @ take k rest)"
      using False mr k by (subst scan_matches.simps) (simp add: Let_def)
    then show ?thesis
      using fin unfolding split by (intro exI[of _ "length ms + k"]) auto
  qed
qed



section \<open>List and export against the policy\<close>

lemma null_string_Some: "x \<noteq> None \<Longrightarrow> null_string x \<noteq> '''' \<Longrightarrow> x = Some (null_string x)"
  by (cases x) (auto simp: null_string_def)

lemma own_or_shared_policy:
  assumes "item_check r" and "owned_view (policyView r)" and "uid \<noteq> ''''"
  shows "own_or_shared uid r \<longleftrightarrow> CanReadItem uid (policyView r)"
  using assms
  by (auto simp: own_or_shared_def CanReadItem_def item_check_def owned_view_def null_string_def
      split: option.splits)

definition wanted :: "list_filter \<Rightarrow> item_row \<Rightarrow> bool" where
  "wanted f r \<longleftrightarrow> it_deleted r = None \<and> (lf_scope f = '''' \<or> it_scope r = lf_scope f) \<and>
     (lf_type f = '''' \<or> it_type r = lf_type f) \<and>
     (case lf_favorite f of None \<Rightarrow> True | Some b \<Rightarrow> it_favorite r = b)"

lemma list_where_policy:
  assumes "item_check r" and "owned_view (policyView r)" and "uid \<noteq> ''''"
    and "lf_scope f = '''' \<or> Scopes (lf_scope f)"
  shows "list_where uid f r \<longleftrightarrow> wanted f r \<and> CanReadItem uid (policyView r)"
  using assms own_or_shared_policy[OF assms(1-3)]
  by (auto simp: list_where_def wanted_def Scopes_def own_or_shared_def CanReadItem_def split: option.splits)

text \<open>A page of the list is exactly the policy's answer: for every filter without a tag, cursor
  and page size, the list returns, newest first, the live items below the cursor that match the
  filter and that the policy lets the actor read; the SQL narrowing neither hides nor leaks.\<close>

theorem list_page_is_policy:
  assumes V: "venv_ok V" and inv: "vault_inv V d" and u: "p_user a \<noteq> ''''"
    and f: "filter_error (lf_scope f) (lf_type f) = None" "lf_tag f = ''''" and n: "0 < limit"
  shows "\<exists>ms. List_items V (Some a) f before limit d = Inr ms \<and>
    map m_id ms = map it_id (take limit (filter (\<lambda>r. wanted f r \<and> CanReadItem (p_user a) (policyView r)
        \<and> below before r) (newest_first item_pos (items d))))"
proof -
  let ?w = "list_where (p_user a) f" and ?rd = "\<lambda>r. CanReadItem (p_user a) (policyView r)"
  have sc: "lf_scope f = '''' \<or> Scopes (lf_scope f)" using f by (auto simp: filter_error_def split: if_splits)
  have pol: "?w r \<longleftrightarrow> wanted f r \<and> ?rd r" if "r \<in> set (items d)" for r
    using that inv list_where_policy[OF _ _ u sc] by (auto simp: vault_inv_def tables_ok_def)
  have cand: "candidates ?w before d = filter (\<lambda>r. wanted f r \<and> ?rd r \<and> below before r)
      (newest_first item_pos (items d))"
    unfolding candidates_def by (intro filter_cong) (auto simp: pol below_def)
  have rows: "listRows ?w before limit d = take limit (candidates ?w before d)"
    by (rule listRows_take[OF n])
  have all: "filter ?rd (take limit (candidates ?w before d)) = take limit (candidates ?w before d)"
    unfolding cand by (auto simp: filter_id_conv dest: in_set_takeD)
  have "all_open V (listRows ?w before limit d)"
    by (rule vault_inv_open[OF V inv]) (auto dest: listRows_mem)
  from titled_rows_open[OF this, of "p_user a"]
  have t: "titled_rows V (p_user a) (listRows ?w before limit d)
      = Inr (map (titled V) (take limit (candidates ?w before d)))"
    by (simp add: rows all)
  have ids: "map m_id (attachCreatorNames d ms) = map m_id ms" for ms
    by (auto simp: attachCreatorNames_def split: option.split)
  show ?thesis
    using f t by (simp add: List_items_def ids cand[symmetric] comp_def)
qed

theorem list_page_is_policy_witness:
  "\<exists>ms. List_items sample_vault (Some (sample_principal ''u1'' ''admin''))
     \<lparr>lf_scope = '''', lf_type = '''', lf_favorite = Some False, lf_tag = ''''\<rparr> None 5 sample_db1 = Inr ms
     \<and> map m_id ms = [''item'']"
proof -
  let ?f = "\<lparr>lf_scope = '''', lf_type = '''', lf_favorite = Some False, lf_tag = ''''\<rparr>"
  have "filter (\<lambda>r. wanted ?f r \<and> CanReadItem ''u1'' (policyView r) \<and> below None r)
      (newest_first item_pos (items sample_db1)) = [sample_item]"
    by (simp add: sample_db1_def newest_first_def wanted_def CanReadItem_def below_def null_string_def)
  then show ?thesis
    using list_page_is_policy[OF sample_vault_ok sample_db1_inv, of "sample_principal ''u1'' ''admin''" ?f 5 None]
    by (auto simp: filter_error_def sample_principal_def)
qed

text \<open>An export contains exactly the actor's own live items (personal items owned, shared
  items created), each with its decrypted content, and never more than 510 of them; when there
  are more it is refused as a whole.\<close>

theorem export_is_own_items:
  assumes V: "venv_ok V" and inv: "vault_inv V d" and u: "p_user a \<noteq> ''''"
  shows "(let own = filter (\<lambda>r. it_deleted r = None \<and> view_subject (policyView r) = p_user a)
        (newest_first item_pos (items d))
    in if 510 < length own then ExportAll V (Some a) d = Inl ErrExportTooLarge
       else \<exists>xs. ExportAll V (Some a) d = Inr xs \<and> map (m_id \<circ> ex_meta) xs = map it_id own)"
proof -
  define own where "own = filter (\<lambda>r. it_deleted r = None \<and> view_subject (policyView r) = p_user a)
        (newest_first item_pos (items d))"
  have pol: "export_where (p_user a) r \<longleftrightarrow> it_deleted r = None \<and> view_subject (policyView r) = p_user a"
    and can: "Can (p_role a) (p_user a) (policyView r) ActionExport
      \<longleftrightarrow> view_subject (policyView r) = p_user a" if r: "r \<in> set (items d)" for r
  proof -
    from r inv have c: "item_check r" and o: "owned_view (policyView r)"
      by (auto simp: vault_inv_def tables_ok_def)
    then show "export_where (p_user a) r \<longleftrightarrow> it_deleted r = None \<and> view_subject (policyView r) = p_user a"
      using u by (auto simp: export_where_def item_check_def owned_view_def view_subject_def
          null_string_def split: option.splits)
    show "Can (p_role a) (p_user a) (policyView r) ActionExport \<longleftrightarrow> view_subject (policyView r) = p_user a"
      using policy.write_iff[OF o, of ActionExport] u by (auto simp: write_action_def)
  qed
  have cand: "candidates (export_where (p_user a)) None d = own"
    unfolding candidates_def own_def by (intro filter_cong) (auto simp: pol)
  then have rows: "listRows (export_where (p_user a)) None 511 d = take 511 own"
    by (simp add: listRows_take)
  have ex: "\<exists>xs. export_rows V a rs = Inr xs \<and> map (m_id \<circ> ex_meta) xs = map it_id rs"
    if "set rs \<subseteq> set own" for rs
    using that
  proof (induction rs)
    case Nil
    then show ?case by simp
  next
    case (Cons r rs)
    then have r: "r \<in> set (items d)" "view_subject (policyView r) = p_user a" by (auto simp: own_def)
    obtain raw p env where "decryptRow V r = Inr (raw, p, env)"
      using vault_inv_open[OF V inv, of "[r]"] r by (auto simp: all_open_def)
    with Cons can[OF r(1)] r(2) show ?case by (auto simp: toMeta_def)
  qed
  show ?thesis
  proof (cases "510 < length own")
    case True
    then show ?thesis
      by (simp add: ExportAll_def exportMaxItems_def rows flip: own_def)
  next
    case False
    then have "take 511 own = own" by simp
    with False ex[of own] show ?thesis
      by (simp add: ExportAll_def exportMaxItems_def rows flip: own_def)
  qed
qed

theorem export_is_own_items_witness:
  "\<exists>xs. ExportAll sample_vault (Some (sample_principal ''u1'' ''admin'')) sample_db1 = Inr xs
     \<and> map (m_id \<circ> ex_meta) xs = [''item'']"
proof -
  have "filter (\<lambda>r. it_deleted r = None \<and> view_subject (policyView r) = ''u1'')
      (newest_first item_pos (items sample_db1)) = [sample_item]"
    by (simp add: sample_db1_def newest_first_def view_subject_def null_string_def)
  then show ?thesis
    using export_is_own_items[OF sample_vault_ok sample_db1_inv, of "sample_principal ''u1'' ''admin''"]
    by (simp add: sample_principal_def)
qed

end
