(* ===== verification/GoEncode.thy ===== *)
theory GoEncode
  imports GoText
begin

text \<open>
  Text encodings of the Go standard library that the credentials and the cursors use:
  decimal numbers (\<open>%d\<close>, \<open>strconv\<close>), the scanning verbs of \<open>fmt.Sscanf\<close>, unpadded base64 in
  both alphabets and hexadecimal.
\<close>

section \<open>Decimal numbers\<close>

definition digit_char :: "nat \<Rightarrow> char" where
  "digit_char n = char_of (48 + n)"

fun dec :: "nat \<Rightarrow> string" where
  "dec n = (if n < 10 then [digit_char n] else dec (n div 10) @ [digit_char (n mod 10)])"

declare dec.simps [simp del]

lemma of_char_digit [simp]: "n < 10 \<Longrightarrow> of_char (digit_char n) = 48 + n"
  by (simp add: digit_char_def)

lemma is_digit_digit [simp]: "n < 10 \<Longrightarrow> is_digit (digit_char n)"
  by (simp add: is_digit_def)

lemma dec_digits: "\<forall>c \<in> set (dec n). is_digit c"
proof (induction n rule: dec.induct)
  case (1 n)
  then show ?case by (subst dec.simps) auto
qed

lemma dec_nonempty [simp]: "dec n \<noteq> []"
  by (subst dec.simps) simp

lemma digits_value_append: "digits_value acc (xs @ ys) = digits_value (digits_value acc xs) ys"
  by (induction xs arbitrary: acc) auto

lemma digits_value_dec [simp]: "digits_value 0 (dec n) = n"
proof (induction n rule: dec.induct)
  case (1 n)
  then show ?case by (subst dec.simps) (auto simp: digits_value_append)
qed

text \<open>\<open>strconv.ParseUint(s, 10, w)\<close>.\<close>

definition parse_uint :: "nat \<Rightarrow> string \<Rightarrow> nat option" where
  "parse_uint w s = (if s \<noteq> [] \<and> list_all is_digit s \<and> digits_value 0 s < 2 ^ w
     then Some (digits_value 0 s) else None)"

lemma parse_uint_dec: "n < 2 ^ w \<Longrightarrow> parse_uint w (dec n) = Some n"
  using dec_digits[of n] by (simp add: parse_uint_def list_all_iff)

section \<open>Sscanf\<close>

text \<open>\<open>SkipSpace\<close>: white space up to the next other rune; a newline is an error.\<close>

fun skip_space :: "string \<Rightarrow> string option" where
  "skip_space [] = Some []"
| "skip_space (c # cs) =
    (let b = of_char c in
     if b = 10 then None
     else if b < (128 :: nat) then (if is_space b then skip_space cs else Some (c # cs))
     else case utf8_tail b (byte_values cs) of
       Some (r, n) \<Rightarrow> if is_space r then skip_space (drop n cs) else Some (c # cs)
     | None \<Rightarrow> Some (c # cs))"

text \<open>The verb \<open>%d\<close> for an unsigned integer of \<open>w\<close> bits, and for \<open>int\<close>; the rest of the input is
  returned.\<close>

definition scan_digits :: "nat \<Rightarrow> string \<Rightarrow> (nat \<times> string) option" where
  "scan_digits bound s =
    (let ds = takeWhile is_digit s in
     if ds = [] \<or> bound \<le> digits_value 0 ds then None
     else Some (digits_value 0 ds, dropWhile is_digit s))"

definition scan_uint :: "nat \<Rightarrow> string \<Rightarrow> (nat \<times> string) option" where
  "scan_uint w s = (case skip_space s of None \<Rightarrow> None | Some r \<Rightarrow> scan_digits (2 ^ w) r)"

definition scan_int :: "string \<Rightarrow> (int \<times> string) option" where
  "scan_int s =
    (case skip_space s of None \<Rightarrow> None
     | Some [] \<Rightarrow> None
     | Some (c # cs) \<Rightarrow>
        if c = CHR ''-'' then map_option (\<lambda>(n, r). (- int n, r)) (scan_digits (2 ^ 63 + 1) cs)
        else map_option (\<lambda>(n, r). (int n, r))
          (scan_digits (2 ^ 63) (if c = CHR ''+'' then cs else c # cs)))"

definition scan_lit :: "string \<Rightarrow> string \<Rightarrow> string option" where
  "scan_lit lit s = (if has_prefix lit s then Some (drop (length lit) s) else None)"

lemma skip_space_digit: "is_digit c \<Longrightarrow> skip_space (c # cs) = Some (c # cs)"
  by (auto simp: is_digit_def is_space_def Let_def)

lemma takeWhile_digits:
  "\<forall>c \<in> set ds. is_digit c \<Longrightarrow> r = [] \<or> \<not> is_digit (hd r) \<Longrightarrow>
     takeWhile is_digit (ds @ r) = ds \<and> dropWhile is_digit (ds @ r) = r"
  by (cases r) (auto simp: takeWhile_append2 dropWhile_append2)

lemma scan_digits_dec:
  "n < bound \<Longrightarrow> r = [] \<or> \<not> is_digit (hd r) \<Longrightarrow> scan_digits bound (dec n @ r) = Some (n, r)"
  using takeWhile_digits[of "dec n" r] dec_digits[of n] by (simp add: scan_digits_def)

lemma dec_Cons: obtains c cs where "dec n = c # cs" "is_digit c"
  using dec_digits[of n] by (cases "dec n") auto

lemma scan_uint_dec:
  assumes "n < 2 ^ w" and "r = [] \<or> \<not> is_digit (hd r)"
  shows "scan_uint w (dec n @ r) = Some (n, r)"
proof -
  obtain c cs where "dec n = c # cs" "is_digit c" by (rule dec_Cons)
  then have "skip_space (dec n @ r) = Some (dec n @ r)" by (simp add: skip_space_digit del: skip_space.simps)
  then show ?thesis using scan_digits_dec[OF assms] by (simp add: scan_uint_def)
qed

lemma scan_int_dec:
  assumes "n < 2 ^ 63" and "r = [] \<or> \<not> is_digit (hd r)"
  shows "scan_int (dec n @ r) = Some (int n, r)"
proof -
  obtain c cs where c: "dec n = c # cs" "is_digit c" by (rule dec_Cons)
  then have "skip_space (dec n @ r) = Some (c # (cs @ r))" by (simp add: skip_space_digit del: skip_space.simps)
  moreover have "c \<noteq> CHR ''-''" "c \<noteq> CHR ''+''" using c(2) by (auto simp: is_digit_def)
  ultimately show ?thesis using scan_digits_dec[OF assms] c(1) by (simp add: scan_int_def)
qed

lemma scan_lit_append [simp]: "scan_lit lit (lit @ s) = Some s"
  by (auto simp: scan_lit_def has_prefix_iff)

section \<open>Base64 without padding\<close>

definition std_alphabet :: string where
  "std_alphabet = ''ABCDEFGHIJKLMNOPQRSTUVWXYZabcdefghijklmnopqrstuvwxyz0123456789+/''"

definition url_alphabet :: string where
  "url_alphabet = ''ABCDEFGHIJKLMNOPQRSTUVWXYZabcdefghijklmnopqrstuvwxyz0123456789-_''"

fun to_sextets :: "nat list \<Rightarrow> nat list" where
  "to_sextets [] = []"
| "to_sextets [a] = [a div 4, a mod 4 * 16]"
| "to_sextets [a, b] = [a div 4, a mod 4 * 16 + b div 16, b mod 16 * 4]"
| "to_sextets (a # b # c # r) =
    [a div 4, a mod 4 * 16 + b div 16, b mod 16 * 4 + c div 64, c mod 64] @ to_sextets r"

fun from_sextets :: "nat list \<Rightarrow> nat list option" where
  "from_sextets [] = Some []"
| "from_sextets [a] = None"
| "from_sextets [a, b] = Some [a * 4 + b div 16]"
| "from_sextets [a, b, c] = Some [a * 4 + b div 16, b mod 16 * 16 + c div 4]"
| "from_sextets (a # b # c # d # r) =
    map_option (\<lambda>t. [a * 4 + b div 16, b mod 16 * 16 + c div 4, c mod 4 * 64 + d] @ t) (from_sextets r)"

definition base64_encode :: "string \<Rightarrow> bytes \<Rightarrow> string" where
  "base64_encode alph bs = map ((!) alph) (to_sextets (map unat bs))"

fun index_of :: "char \<Rightarrow> string \<Rightarrow> nat option" where
  "index_of c [] = None"
| "index_of c (x # xs) = (if x = c then Some 0 else map_option Suc (index_of c xs))"

text \<open>The decoder skips carriage returns and line feeds and ignores the unused bits of the last
  character.\<close>

definition base64_decode :: "string \<Rightarrow> string \<Rightarrow> bytes option" where
  "base64_decode alph s =
    (let is = map (\<lambda>c. index_of c alph) (filter (\<lambda>c. c \<noteq> CHR 0x0D \<and> c \<noteq> CHR 0x0A) s) in
     if None \<in> set is then None else map_option (map of_nat) (from_sextets (map the is)))"

lemma div_add_small: "y < k \<Longrightarrow> (x * k + y) div k = x" for x y k :: nat
  by (cases "k = 0") auto

lemma mod_add_small: "y < k \<Longrightarrow> (x * k + y) mod k = y" for x y k :: nat
  by simp

lemma div_bound: "a < 256 \<Longrightarrow> a div 4 < 64" "a < 256 \<Longrightarrow> a div 16 < 16" "a < 256 \<Longrightarrow> a div 64 < 4" for a :: nat
  by linarith+

lemma mul_add_bound: "x < m \<Longrightarrow> y < k \<Longrightarrow> x * k + y < m * k" for x y k m :: nat
proof -
  assume "x < m" "y < k"
  then have "x * k + y < Suc x * k" by simp
  also have "\<dots> \<le> m * k" using \<open>x < m\<close> by (intro mult_right_mono) auto
  finally show ?thesis .
qed

lemma sextet_bound16: "b < 256 \<Longrightarrow> a mod 4 * 16 + b div 16 < 64" for a b :: nat
  using mul_add_bound[of "a mod 4" 4 "b div 16" 16] by simp

lemma sextet_bound4: "c < 256 \<Longrightarrow> b mod 16 * 4 + c div 64 < 64" for b c :: nat
  using mul_add_bound[of "b mod 16" 16 "c div 64" 4] by simp

lemmas sextet_bounds = sextet_bound16 sextet_bound4 sextet_bound16[where b = 0, simplified] sextet_bound4[where c = 0, simplified]

lemma from_to_sextets: "\<forall>b \<in> set bs. b < 256 \<Longrightarrow> from_sextets (to_sextets bs) = Some bs"
proof (induction bs rule: to_sextets.induct)
  case (4 a b c r)
  then have "a < 256" "b < 256" "c < 256" by auto
  with 4 show ?case
    by (cases "to_sextets r" rule: from_sextets.cases)
      (simp_all add: div_add_small mod_add_small div_bound del: div_mult_self1 div_mult_self2 div_mult_self3 div_mult_self4)
next
  case (3 a b)
  then have "a < 256" "b < 256" by auto
  then show ?case by (simp add: div_add_small mod_add_small div_bound)
qed simp_all

lemma to_sextets_bound: "\<forall>b \<in> set bs. b < 256 \<Longrightarrow> \<forall>x \<in> set (to_sextets bs). x < 64"
  by (induction bs rule: to_sextets.induct) (simp_all add: sextet_bounds div_bound)

lemma byte_lt: "unat b < 256" for b :: "8 word"
  using unsigned_less[where w = b] by simp

lemma index_of_nth: "distinct xs \<Longrightarrow> i < length xs \<Longrightarrow> index_of (xs ! i) xs = Some i"
  by (induction xs arbitrary: i) (auto simp: nth_Cons' gr0_conv_Suc)

definition base64_alphabet :: "string \<Rightarrow> bool" where
  "base64_alphabet alph \<longleftrightarrow> length alph = 64 \<and> distinct alph \<and> CHR 0x0D \<notin> set alph \<and> CHR 0x0A \<notin> set alph"

lemma std_alphabet_ok: "base64_alphabet std_alphabet"
  by (simp add: base64_alphabet_def std_alphabet_def)

lemma url_alphabet_ok: "base64_alphabet url_alphabet"
  by (simp add: base64_alphabet_def url_alphabet_def)

lemma base64_roundtrip:
  assumes alph: "base64_alphabet alph"
  shows "base64_decode alph (base64_encode alph bs) = Some bs"
proof -
  let ?x = "to_sextets (map unat bs)"
  have byte: "\<forall>b \<in> set (map unat bs). b < 256"
    using byte_lt by auto
  have lt: "\<forall>x \<in> set ?x. x < 64" by (rule to_sextets_bound[OF byte])
  have mem: "alph ! x \<in> set alph" if "x < 64" for x using alph that by (auto simp: base64_alphabet_def)
  have flt: "filter (\<lambda>c. c \<noteq> CHR 0x0D \<and> c \<noteq> CHR 0x0A) (map ((!) alph) ?x) = map ((!) alph) ?x"
  proof -
    have "c \<noteq> CHR 0x0D \<and> c \<noteq> CHR 0x0A" if "c \<in> set (map ((!) alph) ?x)" for c
      using that lt mem alph unfolding base64_alphabet_def by (metis (no_types, lifting) imageE list.set_map)
    then show ?thesis by (simp add: filter_id_conv)
  qed
  have idx: "map (\<lambda>c. index_of c alph) (map ((!) alph) ?x) = map Some ?x"
    using lt alph by (auto simp: base64_alphabet_def index_of_nth)
  have of: "map (of_nat \<circ> unat) bs = bs" by (simp add: map_idI)
  show ?thesis
    unfolding base64_decode_def base64_encode_def flt idx Let_def
    using from_to_sextets[OF byte] of by (auto simp: comp_def)
qed

lemma base64_encode_chars: "base64_alphabet alph \<Longrightarrow> c \<in> set (base64_encode alph bs) \<Longrightarrow> c \<in> set alph"
proof -
  assume alph: "base64_alphabet alph" and c: "c \<in> set (base64_encode alph bs)"
  have "\<forall>b \<in> set (map unat bs). b < 256" using byte_lt by auto
  from to_sextets_bound[OF this] c alph show ?thesis
    by (auto simp: base64_encode_def base64_alphabet_def)
qed

section \<open>Splitting\<close>

lemma split_on_single: "c \<notin> set a \<Longrightarrow> split_on c a = [a]"
  by (induction a) auto

lemma split_on_append: "c \<notin> set a \<Longrightarrow> split_on c (a @ c # b) = a # split_on c b"
  by (induction a) auto

lemma dec_no_sep: "\<not> is_digit c \<Longrightarrow> c \<notin> set (dec n)"
  using dec_digits[of n] by auto

end
