(* ===== verification/Password.thy ===== *)
theory Password
  imports GoEncode Schema
begin

text \<open>
  \<open>internal/auth/password.go\<close> and \<open>stored_hashes.go\<close>: the Argon2id parameters and the runtime
  policy, the password rules, the PHC string and its parser, hashing and verification, and the
  two resource gates (the slots channel and the memory gate) as a transition system.

  \<open>golang.org/x/crypto/argon2\<close> is a parameter: its version constant and \<open>IDKey\<close>.
\<close>

section \<open>Parameters and policy\<close>

definition MinPasswordChars :: nat where "MinPasswordChars = 12"
definition MaxPasswordBytes :: nat where "MaxPasswordBytes = 1024"
definition saltLength :: nat where "saltLength = 16"
definition hashKeyLength :: nat where "hashKeyLength = 32"

record hash_params =
  hp_memory :: "32 word"
  hp_iterations :: "32 word"
  hp_parallelism :: "8 word"

definition DefaultHashParams :: hash_params where
  "DefaultHashParams = \<lparr>hp_memory = 64 * 1024, hp_iterations = 3, hp_parallelism = 2\<rparr>"

definition hardMaxMemoryKiB :: "32 word" where "hardMaxMemoryKiB = push_bit 20 1"
definition hardMaxIterations :: "32 word" where "hardMaxIterations = 64"
definition hardMaxParallelism :: "8 word" where "hardMaxParallelism = 16"
definition minTargetMemoryKiB :: "32 word" where "minTargetMemoryKiB = 7 * 1024"
definition maxTargetMemoryKiB :: "32 word" where "maxTargetMemoryKiB = 256 * 1024"
definition maxTargetIterations :: "32 word" where "maxTargetIterations = 10"
definition maxTargetParallelism :: "8 word" where "maxTargetParallelism = 4"

lemmas hash_bounds = hardMaxMemoryKiB_def hardMaxIterations_def hardMaxParallelism_def
  minTargetMemoryKiB_def maxTargetMemoryKiB_def maxTargetIterations_def maxTargetParallelism_def

record hash_policy =
  TargetParams :: hash_params
  VerifyMaxMemoryKiB :: "32 word"
  VerifyMaxIterations :: "32 word"
  VerifyMaxParallelism :: "8 word"
  MemoryBudgetKiB :: "32 word"
  MaxConcurrency :: int

definition DefaultHashPolicy :: hash_policy where
  "DefaultHashPolicy = \<lparr>TargetParams = DefaultHashParams, VerifyMaxMemoryKiB = 128 * 1024,
     VerifyMaxIterations = 10, VerifyMaxParallelism = 4, MemoryBudgetKiB = 128 * 1024,
     MaxConcurrency = 2\<rparr>"

datatype policy_fault = TargetMemory | TargetIterations | TargetParallelism | VerifyMemory
  | VerifyIterations | VerifyParallelism | BudgetBelowTarget | BudgetTooLarge | Concurrency

definition ValidateHashPolicy :: "hash_policy \<Rightarrow> policy_fault + unit" where
  "ValidateHashPolicy p =
    (let t = TargetParams p in
     if hp_memory t < minTargetMemoryKiB \<or> maxTargetMemoryKiB < hp_memory t then Inl TargetMemory
     else if hp_iterations t < 1 \<or> maxTargetIterations < hp_iterations t then Inl TargetIterations
     else if hp_parallelism t < 1 \<or> maxTargetParallelism < hp_parallelism t then Inl TargetParallelism
     else if VerifyMaxMemoryKiB p < hp_memory t \<or> hardMaxMemoryKiB < VerifyMaxMemoryKiB p
       then Inl VerifyMemory
     else if VerifyMaxIterations p < hp_iterations t \<or> hardMaxIterations < VerifyMaxIterations p
       then Inl VerifyIterations
     else if VerifyMaxParallelism p < hp_parallelism t \<or> hardMaxParallelism < VerifyMaxParallelism p
       then Inl VerifyParallelism
     else if MemoryBudgetKiB p < hp_memory t then Inl BudgetBelowTarget
     else if hardMaxMemoryKiB < MemoryBudgetKiB p then Inl BudgetTooLarge
     else if MaxConcurrency p < 1 \<or> 32 < MaxConcurrency p then Inl Concurrency
     else Inr ())"

lemma default_policy_valid: "ValidateHashPolicy DefaultHashPolicy = Inr ()"
  by (simp add: ValidateHashPolicy_def DefaultHashPolicy_def DefaultHashParams_def hash_bounds)

section \<open>Password rules\<close>

datatype password_error = ErrPasswordPolicy | ErrHashFormat | SaltFailure

text \<open>\<open>strings.ContainsRune(password, 0)\<close> looks for the byte 0.\<close>

definition ValidateNewPassword :: "string \<Rightarrow> password_error + unit" where
  "ValidateNewPassword password =
    (if CHR 0x00 \<in> set password then Inl ErrPasswordPolicy
     else if rune_count password < MinPasswordChars then Inl ErrPasswordPolicy
     else if MaxPasswordBytes < length password then Inl ErrPasswordPolicy
     else Inr ())"

section \<open>The PHC string\<close>

record argon2 =
  ar_version :: nat
  ar_IDKey :: "string \<Rightarrow> bytes \<Rightarrow> 32 word \<Rightarrow> 32 word \<Rightarrow> 8 word \<Rightarrow> nat \<Rightarrow> bytes"

text \<open>The documented contract: a version that fits an \<open>int\<close>, a key of the requested length.\<close>

definition argon2_ok :: "argon2 \<Rightarrow> bool" where
  "argon2_ok A \<longleftrightarrow> ar_version A < 2 ^ 31 \<and> (\<forall>p s t m q n. length (ar_IDKey A p s t m q n) = n)"

definition encodeHash :: "argon2 \<Rightarrow> hash_params \<Rightarrow> bytes \<Rightarrow> bytes \<Rightarrow> string" where
  "encodeHash A p salt key =
     ''$argon2id$v='' @ dec (ar_version A) @ ''$m='' @ dec (unat (hp_memory p)) @
     '',t='' @ dec (unat (hp_iterations p)) @ '',p='' @ dec (unat (hp_parallelism p)) @
     ''$'' @ base64_encode std_alphabet salt @ ''$'' @ base64_encode std_alphabet key"

text \<open>\<open>fmt.Sscanf(s, "v=%d", &version)\<close> and \<open>fmt.Sscanf(s, "m=%d,t=%d,p=%d", ...)\<close>; input after the
  last verb is ignored.\<close>

definition scan_version :: "string \<Rightarrow> int option" where
  "scan_version s = Option.bind (scan_lit ''v='' s) (\<lambda>r. map_option fst (scan_int r))"

definition scan_params :: "string \<Rightarrow> hash_params option" where
  "scan_params s =
    Option.bind (scan_lit ''m='' s) (\<lambda>s1.
    Option.bind (scan_uint 32 s1) (\<lambda>(m, s2).
    Option.bind (scan_lit '',t='' s2) (\<lambda>s3.
    Option.bind (scan_uint 32 s3) (\<lambda>(t, s4).
    Option.bind (scan_lit '',p='' s4) (\<lambda>s5.
    Option.bind (scan_uint 8 s5) (\<lambda>(q, s6).
      Some \<lparr>hp_memory = of_nat m, hp_iterations = of_nat t, hp_parallelism = of_nat q\<rparr>))))))"

definition params_in_range :: "hash_params \<Rightarrow> bool" where
  "params_in_range p \<longleftrightarrow>
     \<not> (hp_memory p = 0 \<or> hardMaxMemoryKiB < hp_memory p \<or>
        hp_iterations p = 0 \<or> hardMaxIterations < hp_iterations p \<or>
        hp_parallelism p = 0 \<or> hardMaxParallelism < hp_parallelism p)"

definition parseHash :: "argon2 \<Rightarrow> string \<Rightarrow> password_error + (hash_params \<times> bytes \<times> bytes)" where
  "parseHash A encoded =
    (case split_on (CHR ''$'') encoded of
       [p0, p1, p2, p3, p4, p5] \<Rightarrow>
         if p0 \<noteq> '''' \<or> p1 \<noteq> ''argon2id'' then Inl ErrHashFormat
         else if scan_version p2 \<noteq> Some (int (ar_version A)) then Inl ErrHashFormat
         else (case scan_params p3 of None \<Rightarrow> Inl ErrHashFormat
           | Some params \<Rightarrow>
              if \<not> params_in_range params then Inl ErrHashFormat
              else (case base64_decode std_alphabet p4 of None \<Rightarrow> Inl ErrHashFormat
                | Some salt \<Rightarrow>
                   if length salt < 8 then Inl ErrHashFormat
                   else (case base64_decode std_alphabet p5 of None \<Rightarrow> Inl ErrHashFormat
                     | Some want \<Rightarrow>
                        if length want \<noteq> hashKeyLength then Inl ErrHashFormat
                        else Inr (params, salt, want))))
     | _ \<Rightarrow> Inl ErrHashFormat)"

section \<open>Hashing and verification\<close>

definition validateVerifyParams :: "hash_policy \<Rightarrow> hash_params \<Rightarrow> password_error + unit" where
  "validateVerifyParams h p =
    (if VerifyMaxMemoryKiB h < hp_memory p \<or> MemoryBudgetKiB h < hp_memory p \<or>
        VerifyMaxIterations h < hp_iterations p \<or> VerifyMaxParallelism h < hp_parallelism p
     then Inl ErrHashFormat else Inr ())"

definition derive ::
  "argon2 \<Rightarrow> hash_policy \<Rightarrow> string \<Rightarrow> bytes \<Rightarrow> hash_params \<Rightarrow> password_error + bytes" where
  "derive A h password salt p =
     andthen (validateVerifyParams h p) (\<lambda>_.
       Inr (ar_IDKey A password salt (hp_iterations p) (hp_memory p) (hp_parallelism p) hashKeyLength))"

text \<open>The salt is what \<open>rand.Read\<close> gives, \<open>None\<close> when it fails.\<close>

definition Hash :: "argon2 \<Rightarrow> hash_policy \<Rightarrow> bytes option \<Rightarrow> string \<Rightarrow> password_error + string" where
  "Hash A h salt password =
     andthen (ValidateNewPassword password) (\<lambda>_.
     andthen (from_option SaltFailure salt) (\<lambda>s.
     andthen (derive A h password s (TargetParams h)) (\<lambda>key.
       Inr (encodeHash A (TargetParams h) s key))))"

definition Verify :: "argon2 \<Rightarrow> hash_policy \<Rightarrow> string \<Rightarrow> string \<Rightarrow> password_error + bool" where
  "Verify A h password encoded =
     andthen (parseHash A encoded) (\<lambda>(p, salt, want).
     andthen (validateVerifyParams h p) (\<lambda>_.
     andthen (derive A h password salt p) (\<lambda>got. Inr (got = want))))"

definition NeedsRehash :: "argon2 \<Rightarrow> hash_policy \<Rightarrow> string \<Rightarrow> bool" where
  "NeedsRehash A h encoded =
    (case parseHash A encoded of Inl _ \<Rightarrow> False | Inr (p, _, _) \<Rightarrow> p \<noteq> TargetParams h)"

definition HashParamsOf :: "argon2 \<Rightarrow> string \<Rightarrow> password_error + hash_params" where
  "HashParamsOf A encoded = andthen (parseHash A encoded) (\<lambda>(p, _, _). Inr p)"

section \<open>The startup inspection\<close>

record hash_stats =
  hs_count :: nat
  hs_rehash :: nat
  hs_max_memory :: "32 word"

fun inspect_hashes ::
  "argon2 \<Rightarrow> hash_policy \<Rightarrow> hash_stats \<Rightarrow> string list \<Rightarrow> password_error + hash_stats" where
  "inspect_hashes A h st [] = Inr st"
| "inspect_hashes A h st (encoded # rest) =
    (case HashParamsOf A encoded of Inl e \<Rightarrow> Inl e
     | Inr p \<Rightarrow> (case validateVerifyParams h p of Inl e \<Rightarrow> Inl e
       | Inr _ \<Rightarrow> inspect_hashes A h
           \<lparr>hs_count = hs_count st + 1,
            hs_rehash = hs_rehash st + (if NeedsRehash A h encoded then 1 else 0),
            hs_max_memory = (if hs_max_memory st < hp_memory p then hp_memory p
              else hs_max_memory st)\<rparr> rest))"

definition InspectStoredHashes :: "argon2 \<Rightarrow> hash_policy \<Rightarrow> db \<Rightarrow> password_error + hash_stats" where
  "InspectStoredHashes A h d =
     inspect_hashes A h \<lparr>hs_count = 0, hs_rehash = 0, hs_max_memory = 0\<rparr> (map u_hash (users d))"

section \<open>Round trips\<close>

lemma std_alphabet_no_dollar: "CHR ''$'' \<notin> set (base64_encode std_alphabet bs)"
  using base64_encode_chars[OF std_alphabet_ok, of "CHR ''$''" bs] by (auto simp: std_alphabet_def)

lemma split_encodeHash:
  "split_on (CHR ''$'') (encodeHash A p salt key) =
     ['''', ''argon2id'', ''v='' @ dec (ar_version A),
      ''m='' @ dec (unat (hp_memory p)) @ '',t='' @ dec (unat (hp_iterations p)) @
        '',p='' @ dec (unat (hp_parallelism p)),
      base64_encode std_alphabet salt, base64_encode std_alphabet key]"
proof -
  let ?v = "''v='' @ dec (ar_version A)"
  let ?m = "''m='' @ dec (unat (hp_memory p)) @ '',t='' @ dec (unat (hp_iterations p)) @
    '',p='' @ dec (unat (hp_parallelism p))"
  let ?s = "base64_encode std_alphabet salt" and ?k = "base64_encode std_alphabet key"
  have e: "encodeHash A p salt key
      = '''' @ CHR ''$'' # ''argon2id'' @ CHR ''$'' # ?v @ CHR ''$'' # ?m @ CHR ''$'' # ?s @ CHR ''$'' # ?k"
    by (simp add: encodeHash_def)
  have no: "CHR ''$'' \<notin> set ?v" "CHR ''$'' \<notin> set ?m" "CHR ''$'' \<notin> set ''argon2id''"
    using dec_no_sep[of "CHR ''$''"] by (auto simp: is_digit_def)
  show ?thesis
    unfolding e
    by (subst split_on_append, simp, subst split_on_append[OF no(3)], subst split_on_append[OF no(1)],
        subst split_on_append[OF no(2)], subst split_on_append[OF std_alphabet_no_dollar],
        subst split_on_single[OF std_alphabet_no_dollar], rule refl)
qed

lemma scan_version_dec: "n < 2 ^ 31 \<Longrightarrow> scan_version (''v='' @ dec n) = Some (int n)"
  using scan_int_dec[of n "[]"] scan_lit_append[of "''v=''" "dec n"]
  by (simp add: scan_version_def del: scan_lit_append)

lemma unat_bounds: "unat (w :: 32 word) < 2 ^ 32" "unat (v :: 8 word) < 2 ^ 8"
  using unsigned_less[where w = w] unsigned_less[where w = v] by simp_all

lemma scan_params_dec:
  "scan_params (''m='' @ dec (unat (hp_memory p)) @ '',t='' @ dec (unat (hp_iterations p)) @
     '',p='' @ dec (unat (hp_parallelism p))) = Some p"
proof -
  have m: "scan_uint 32 (dec (unat (hp_memory p)) @ '','' @ r) = Some (unat (hp_memory p), '','' @ r)" for r
    by (rule scan_uint_dec[OF unat_bounds(1)]) (simp add: is_digit_def)
  have t: "scan_uint 32 (dec (unat (hp_iterations p)) @ '','' @ r) = Some (unat (hp_iterations p), '','' @ r)" for r
    by (rule scan_uint_dec[OF unat_bounds(1)]) (simp add: is_digit_def)
  have q: "scan_uint 8 (dec (unat (hp_parallelism p))) = Some (unat (hp_parallelism p), [])"
    using scan_uint_dec[OF unat_bounds(2), of "[]" "hp_parallelism p"] by simp
  show ?thesis
    unfolding scan_params_def using m t q by (simp add: scan_lit_def)
qed

lemma parse_encodeHash:
  assumes "ar_version A < 2 ^ 31" "params_in_range p" "8 \<le> length salt" "length key = hashKeyLength"
  shows "parseHash A (encodeHash A p salt key) = Inr (p, salt, key)"
  using assms unfolding parseHash_def split_encodeHash
  by (simp add: scan_version_dec[simplified] scan_params_dec[simplified]
      base64_roundtrip[OF std_alphabet_ok])

lemma valid_policy_target:
  assumes "ValidateHashPolicy h = Inr u"
  shows "params_in_range (TargetParams h)" and "validateVerifyParams h (TargetParams h) = Inr ()"
proof -
  let ?t = "TargetParams h"
  from assms have lo: "minTargetMemoryKiB \<le> hp_memory ?t" "hp_iterations ?t \<noteq> 0" "hp_parallelism ?t \<noteq> 0"
    and hi: "hp_memory ?t \<le> maxTargetMemoryKiB" "hp_iterations ?t \<le> maxTargetIterations"
      "hp_parallelism ?t \<le> maxTargetParallelism"
    and v: "hp_memory ?t \<le> VerifyMaxMemoryKiB h" "hp_iterations ?t \<le> VerifyMaxIterations h"
      "hp_parallelism ?t \<le> VerifyMaxParallelism h" "hp_memory ?t \<le> MemoryBudgetKiB h"
    by (auto simp: ValidateHashPolicy_def Let_def not_less split: if_splits)
  show "validateVerifyParams h ?t = Inr ()" using v by (simp add: validateVerifyParams_def not_less)
  have c: "maxTargetMemoryKiB \<le> hardMaxMemoryKiB" "maxTargetIterations \<le> hardMaxIterations"
    "maxTargetParallelism \<le> hardMaxParallelism" by (simp_all add: hash_bounds)
  have z: "hp_memory ?t \<noteq> 0" "hp_iterations ?t \<noteq> 0" "hp_parallelism ?t \<noteq> 0"
    using lo by (auto simp: hash_bounds)
  from order_trans[OF hi(1) c(1)] order_trans[OF hi(2) c(2)] order_trans[OF hi(3) c(3)] z
  show "params_in_range ?t" by (simp add: params_in_range_def not_less)
qed

text \<open>under a policy that validation accepts, every hash that \<open>Hash\<close> creates verifies with
  the password it was made from, does not ask for a rehash, and verifies with another password
  exactly when Argon2 derives the same key for it.\<close>

theorem hash_then_verify:
  assumes "argon2_ok A" and "ValidateHashPolicy h = Inr ()" and "length salt = saltLength"
    and "Hash A h (Some salt) password = Inr encoded"
  shows "Verify A h password encoded = Inr True \<and> \<not> NeedsRehash A h encoded
    \<and> Verify A h other encoded = Inr (derive A h other salt (TargetParams h)
        = derive A h password salt (TargetParams h))"
proof -
  note t = valid_policy_target[OF assms(2)]
  define key where "key = (\<lambda>w. ar_IDKey A w salt (hp_iterations (TargetParams h))
    (hp_memory (TargetParams h)) (hp_parallelism (TargetParams h)) hashKeyLength)"
  have d: "derive A h w salt (TargetParams h) = Inr (key w)" for w
    by (simp add: derive_def t key_def)
  have e: "encoded = encodeHash A (TargetParams h) salt (key password)"
    using assms(4) by (auto simp: Hash_def andthen_Inr d)
  have "parseHash A encoded = Inr (TargetParams h, salt, key password)"
    unfolding e using assms(1,3) t(1)
    by (intro parse_encodeHash) (simp_all add: argon2_ok_def saltLength_def key_def)
  then show ?thesis by (simp add: Verify_def NeedsRehash_def d t)
qed

definition sample_argon2 :: argon2 where
  "sample_argon2 = \<lparr>ar_version = 19, ar_IDKey = (\<lambda>p s t m q n. replicate n (of_nat (length p)))\<rparr>"

lemma sample_argon2_ok: "argon2_ok sample_argon2"
  by (simp add: argon2_ok_def sample_argon2_def)

lemma sample_password_ok: "ValidateNewPassword ''correct horse'' = Inr ()"
  by (simp add: ValidateNewPassword_def rune_count_ascii ascii_def MinPasswordChars_def MaxPasswordBytes_def)

theorem hash_then_verify_witness:
  "\<exists>encoded. Hash sample_argon2 DefaultHashPolicy (Some (replicate 16 7)) ''correct horse'' = Inr encoded
     \<and> Verify sample_argon2 DefaultHashPolicy ''correct horse'' encoded = Inr True
     \<and> Verify sample_argon2 DefaultHashPolicy ''wrong'' encoded = Inr False"
proof -
  note t = valid_policy_target(2)[OF default_policy_valid]
  obtain encoded where e:
    "Hash sample_argon2 DefaultHashPolicy (Some (replicate 16 7)) ''correct horse'' = Inr encoded"
    using t by (simp add: Hash_def sample_password_ok derive_def)
  from hash_then_verify[OF sample_argon2_ok default_policy_valid _ e, of "''wrong''"] t
  have "Verify sample_argon2 DefaultHashPolicy ''correct horse'' encoded = Inr True"
    and "Verify sample_argon2 DefaultHashPolicy ''wrong'' encoded = Inr False"
    by (simp_all add: saltLength_def derive_def sample_argon2_def hashKeyLength_def)
  with e show ?thesis by blast
qed

section \<open>The resource gates\<close>

text \<open>
  The memory gate counts in unsigned 32-bit arithmetic.  \<open>gate_ready\<close> is the negated guard of
  the wait loop in \<open>acquire\<close>.
\<close>

record memory_gate =
  mg_capacity :: "32 word"
  mg_used :: "32 word"

definition newMemoryGate :: "32 word \<Rightarrow> memory_gate" where
  "newMemoryGate cap = \<lparr>mg_capacity = cap, mg_used = 0\<rparr>"

definition gate_ready :: "memory_gate \<Rightarrow> 32 word \<Rightarrow> bool" where
  "gate_ready g a \<longleftrightarrow> \<not> (mg_capacity g - mg_used g < a)"

definition gate_acquire :: "32 word \<Rightarrow> memory_gate \<Rightarrow> memory_gate" where
  "gate_acquire a g = g\<lparr>mg_used := mg_used g + a\<rparr>"

definition gate_release :: "32 word \<Rightarrow> memory_gate \<Rightarrow> memory_gate" where
  "gate_release a g = g\<lparr>mg_used := mg_used g - a\<rparr>"

text \<open>
  The computations of \<open>derive\<close> that share a hasher, with their memory demand.  A computation
  first takes a slot, then its memory, and its deferred calls give back the memory and then
  the slot.
\<close>

datatype phase = Arrived | HasSlot | Running | Released | Finished

record hasher =
  hs_gate :: memory_gate
  hs_slots :: int
  hs_work :: "(phase \<times> 32 word) list"

definition NewPasswordHasher :: "hash_policy \<Rightarrow> policy_fault + hasher" where
  "NewPasswordHasher h = andthen (ValidateHashPolicy h) (\<lambda>_.
     Inr \<lparr>hs_gate = newMemoryGate (MemoryBudgetKiB h), hs_slots = 0, hs_work = []\<rparr>)"

inductive hasher_step :: "hash_policy \<Rightarrow> hasher \<Rightarrow> hasher \<Rightarrow> bool" for h where
  arrive: "validateVerifyParams h p = Inr () \<Longrightarrow>
     hasher_step h s (s\<lparr>hs_work := hs_work s @ [(Arrived, hp_memory p)]\<rparr>)"
| slot: "i < length (hs_work s) \<Longrightarrow> hs_work s ! i = (Arrived, a) \<Longrightarrow> hs_slots s < MaxConcurrency h \<Longrightarrow>
     hasher_step h s (s\<lparr>hs_slots := hs_slots s + 1, hs_work := (hs_work s)[i := (HasSlot, a)]\<rparr>)"
| acquire: "i < length (hs_work s) \<Longrightarrow> hs_work s ! i = (HasSlot, a) \<Longrightarrow> gate_ready (hs_gate s) a \<Longrightarrow>
     hasher_step h s (s\<lparr>hs_gate := gate_acquire a (hs_gate s), hs_work := (hs_work s)[i := (Running, a)]\<rparr>)"
| release: "i < length (hs_work s) \<Longrightarrow> hs_work s ! i = (Running, a) \<Longrightarrow>
     hasher_step h s (s\<lparr>hs_gate := gate_release a (hs_gate s), hs_work := (hs_work s)[i := (Released, a)]\<rparr>)"
| leave: "i < length (hs_work s) \<Longrightarrow> hs_work s ! i = (Released, a) \<Longrightarrow>
     hasher_step h s (s\<lparr>hs_slots := hs_slots s - 1, hs_work := (hs_work s)[i := (Finished, a)]\<rparr>)"

definition held_memory :: "phase \<times> 32 word \<Rightarrow> nat" where
  "held_memory w = (if fst w = Running then unat (snd w) else 0)"

definition held_slot :: "phase \<times> 32 word \<Rightarrow> nat" where
  "held_slot w = (if fst w \<in> {HasSlot, Running, Released} then 1 else 0)"

definition memory_in_use :: "hasher \<Rightarrow> nat" where
  "memory_in_use s = sum_list (map held_memory (hs_work s))"

definition slots_in_use :: "hasher \<Rightarrow> nat" where
  "slots_in_use s = sum_list (map held_slot (hs_work s))"

definition hasher_inv :: "hash_policy \<Rightarrow> hasher \<Rightarrow> bool" where
  "hasher_inv h s \<longleftrightarrow>
     mg_capacity (hs_gate s) = MemoryBudgetKiB h \<and> unat (mg_used (hs_gate s)) = memory_in_use s \<and>
     memory_in_use s \<le> unat (MemoryBudgetKiB h) \<and> hs_slots s = int (slots_in_use s) \<and>
     hs_slots s \<le> MaxConcurrency h \<and> (\<forall>w \<in> set (hs_work s). snd w \<le> MemoryBudgetKiB h)"

lemma sum_list_map_update:
  fixes f :: "'a \<Rightarrow> nat"
  assumes "i < length xs"
  shows "sum_list (map f (xs[i := y])) + f (xs ! i) = sum_list (map f xs) + f y"
proof -
  have "f (xs ! i) \<le> sum_list (map f xs)" using assms by (intro member_le_sum_list) simp_all
  then show ?thesis using sum_list_update[of i "map f xs" "f y"] assms by (simp add: map_update)
qed

lemma gate_arith:
  fixes cap used a :: "32 word"
  assumes "unat used \<le> unat cap" and "\<not> cap - used < a"
  shows "unat (used + a) = unat used + unat a" and "unat used + unat a \<le> unat cap"
proof -
  have "unat (cap - used) = unat cap - unat used"
    using assms(1) by (simp add: unat_sub word_le_nat_alt)
  with assms(2) have le: "unat a \<le> unat cap - unat used" by (simp add: word_less_nat_alt)
  then show *: "unat used + unat a \<le> unat cap" using assms(1) by simp
  moreover have "unat cap < 2 ^ LENGTH(32)" by (rule unsigned_less)
  ultimately have "unat used + unat a < 2 ^ LENGTH(32)" by linarith
  then show "unat (used + a) = unat used + unat a" by (rule iffD1[OF unat_add_lem])
qed

lemma gate_arith_release:
  fixes used a :: "32 word"
  shows "unat a \<le> unat used \<Longrightarrow> unat (used - a) = unat used - unat a"
  by (simp add: unat_sub word_le_nat_alt)

lemma in_use_update:
  assumes "i < length (hs_work s)" and "hs_work s ! i = (ph, a)"
  shows "memory_in_use (s\<lparr>hs_work := (hs_work s)[i := w]\<rparr>) + held_memory (ph, a) = memory_in_use s + held_memory w"
    and "slots_in_use (s\<lparr>hs_work := (hs_work s)[i := w]\<rparr>) + held_slot (ph, a) = slots_in_use s + held_slot w"
  using sum_list_map_update[OF assms(1), of held_memory w] sum_list_map_update[OF assms(1), of held_slot w] assms(2)
  by (simp_all add: memory_in_use_def slots_in_use_def)

lemma in_use_frame [simp]:
  "memory_in_use (s\<lparr>hs_gate := g\<rparr>) = memory_in_use s" "slots_in_use (s\<lparr>hs_gate := g\<rparr>) = slots_in_use s"
  "memory_in_use (s\<lparr>hs_slots := n\<rparr>) = memory_in_use s" "slots_in_use (s\<lparr>hs_slots := n\<rparr>) = slots_in_use s"
  "memory_in_use (s\<lparr>hs_gate := g, hs_work := w\<rparr>) = memory_in_use (s\<lparr>hs_work := w\<rparr>)"
  "slots_in_use (s\<lparr>hs_gate := g, hs_work := w\<rparr>) = slots_in_use (s\<lparr>hs_work := w\<rparr>)"
  "memory_in_use (s\<lparr>hs_slots := n, hs_work := w\<rparr>) = memory_in_use (s\<lparr>hs_work := w\<rparr>)"
  "slots_in_use (s\<lparr>hs_slots := n, hs_work := w\<rparr>) = slots_in_use (s\<lparr>hs_work := w\<rparr>)"
  by (simp_all add: memory_in_use_def slots_in_use_def)

lemma demand_update:
  "\<forall>w \<in> set xs. snd w \<le> c \<Longrightarrow> i < length xs \<Longrightarrow> xs ! i = (ph, a) \<Longrightarrow>
     \<forall>w \<in> set (xs[i := (ph', a)]). snd w \<le> (c :: 32 word)"
  by (metis in_set_conv_nth insert_iff nth_mem set_update_subset_insert snd_conv subset_iff)

lemma hasher_step_inv: "hasher_step h s t \<Longrightarrow> hasher_inv h s \<Longrightarrow> hasher_inv h t"
proof (induction rule: hasher_step.induct)
  case (arrive p s)
  then have "hp_memory p \<le> MemoryBudgetKiB h" by (simp add: validateVerifyParams_def not_less split: if_splits)
  with arrive show ?case
    by (simp add: hasher_inv_def memory_in_use_def slots_in_use_def held_memory_def held_slot_def)
next
  case (slot i s a)
  then show ?case
    using in_use_update[OF slot(1,2), of "(HasSlot, a)"] demand_update[OF _ slot(1,2)]
    by (simp add: hasher_inv_def held_memory_def held_slot_def)
next
  case (acquire i s a)
  from acquire have "unat (mg_used (hs_gate s)) \<le> unat (mg_capacity (hs_gate s))"
    "\<not> mg_capacity (hs_gate s) - mg_used (hs_gate s) < a"
    by (simp_all add: hasher_inv_def gate_ready_def)
  note g = gate_arith[OF this]
  show ?case
    using acquire in_use_update[OF acquire(1,2), of "(Running, a)"] demand_update[OF _ acquire(1,2)] g
    by (simp add: hasher_inv_def held_memory_def held_slot_def gate_acquire_def)
next
  case (release i s a)
  have u: "memory_in_use (s\<lparr>hs_work := (hs_work s)[i := (Released, a)]\<rparr>) + unat a = memory_in_use s"
    using in_use_update(1)[OF release(1,2), of "(Released, a)"] by (simp add: held_memory_def)
  with release have "unat a \<le> unat (mg_used (hs_gate s))" by (simp add: hasher_inv_def)
  note g = gate_arith_release[OF this]
  show ?case
    using release in_use_update(2)[OF release(1,2), of "(Released, a)"] demand_update[OF _ release(1,2)] g u
    by (simp add: hasher_inv_def held_slot_def gate_release_def)
next
  case (leave i s a)
  then show ?case
    using in_use_update[OF leave(1,2), of "(Finished, a)"] demand_update[OF _ leave(1,2)]
    by (simp add: hasher_inv_def held_memory_def held_slot_def)
qed

interpretation hasher_system: invariant_system "hasher_step h" "hasher_inv h" for h
  by unfold_locales (rule hasher_step_inv)

lemma NewPasswordHasher_inv: "NewPasswordHasher h = Inr s \<Longrightarrow> hasher_inv h s"
  by (auto simp: NewPasswordHasher_def andthen_Inr hasher_inv_def newMemoryGate_def memory_in_use_def
      slots_in_use_def ValidateHashPolicy_def Let_def split: if_splits)

text \<open>whatever the arrivals and the interleaving, the Argon2 memory of the running
  computations never exceeds the budget, the 32-bit counter of the gate equals that sum (it
  neither wraps nor underflows), and at most \<open>MaxConcurrency\<close> computations hold a slot.\<close>

theorem hasher_within_budget:
  assumes "NewPasswordHasher h = Inr s" and "(hasher_step h)\<^sup>*\<^sup>* s t"
  shows "memory_in_use t \<le> unat (MemoryBudgetKiB h) \<and> unat (mg_used (hs_gate t)) = memory_in_use t
    \<and> int (slots_in_use t) \<le> MaxConcurrency h"
  using hasher_system.reachable_inv[OF assms(2) NewPasswordHasher_inv[OF assms(1)]]
  by (simp add: hasher_inv_def)

text \<open>The gates cannot deadlock: while a computation is unfinished, one of the computations can
  take its next step, because every demand fits the budget alone.\<close>

lemma idle_gate_ready:
  "mg_used g = 0 \<Longrightarrow> a \<le> mg_capacity g \<Longrightarrow> gate_ready g a"
  by (simp add: gate_ready_def not_less)

definition no_phase :: "phase \<Rightarrow> hasher \<Rightarrow> bool" where
  "no_phase ph s \<longleftrightarrow> (\<forall>w \<in> set (hs_work s). fst w \<noteq> ph)"

lemma no_phase_index: "\<not> no_phase ph s \<Longrightarrow> \<exists>i a. i < length (hs_work s) \<and> hs_work s ! i = (ph, a)"
  by (metis in_set_conv_nth no_phase_def prod.collapse)

lemma sum_list_zero: "\<forall>x \<in> set xs. f x = 0 \<Longrightarrow> sum_list (map f xs) = (0 :: nat)"
  by (induction xs) auto

text \<open>No deadlock at the gates: in every reachable state with an unfinished computation,
  some computation can take its next step (a step that keeps the number of computations).\<close>

theorem hasher_progress:
  assumes "NewPasswordHasher h = Inr s" and "(hasher_step h)\<^sup>*\<^sup>* s t"
    and "w \<in> set (hs_work t)" and "fst w \<noteq> Finished"
  shows "\<exists>t'. hasher_step h t t' \<and> length (hs_work t') = length (hs_work t)"
proof -
  have inv: "hasher_inv h t"
    by (rule hasher_system.reachable_inv[OF assms(2) NewPasswordHasher_inv[OF assms(1)]])
  have one: "1 \<le> MaxConcurrency h"
    using assms(1) by (auto simp: NewPasswordHasher_def andthen_Inr ValidateHashPolicy_def Let_def split: if_splits)
  have nw: "\<not> no_phase (fst w) t" using assms(3) by (auto simp: no_phase_def)
  consider (run) "\<not> no_phase Running t" | (rel) "\<not> no_phase Released t"
    | (has) "no_phase Running t" "\<not> no_phase HasSlot t"
    | (arr) "no_phase Running t" "no_phase Released t" "no_phase HasSlot t" "\<not> no_phase Arrived t"
    using nw assms(4) by (cases "fst w") (simp_all, blast+)
  then show ?thesis
  proof cases
    case run
    then show ?thesis using hasher_step.release by (fastforce dest!: no_phase_index)
  next
    case rel
    then show ?thesis using hasher_step.leave by (fastforce dest!: no_phase_index)
  next
    case has
    from has(2) obtain i a where i: "i < length (hs_work t)" "hs_work t ! i = (HasSlot, a)"
      using no_phase_index by blast
    have "memory_in_use t = 0"
      using has(1) by (simp add: memory_in_use_def no_phase_def held_memory_def sum_list_zero)
    with inv have "mg_used (hs_gate t) = 0" by (simp add: hasher_inv_def unat_eq_0)
    moreover have "a \<le> mg_capacity (hs_gate t)"
      using inv nth_mem[OF i(1)] i(2) by (auto simp: hasher_inv_def)
    ultimately have "gate_ready (hs_gate t) a" by (rule idle_gate_ready)
    from hasher_step.acquire[OF i this] show ?thesis by fastforce
  next
    case arr
    from arr(4) obtain i a where i: "i < length (hs_work t)" "hs_work t ! i = (Arrived, a)"
      using no_phase_index by blast
    have "slots_in_use t = 0"
      using arr(1-3) by (simp add: slots_in_use_def no_phase_def held_slot_def sum_list_zero)
    with inv one have "hs_slots t < MaxConcurrency h" by (simp add: hasher_inv_def)
    from hasher_step.slot[OF i this] show ?thesis by fastforce
  qed
qed

definition tight_policy :: hash_policy where
  "tight_policy = DefaultHashPolicy\<lparr>MemoryBudgetKiB := 64 * 1024\<rparr>"

lemma tight_policy_valid: "ValidateHashPolicy tight_policy = Inr ()"
  by (simp add: ValidateHashPolicy_def tight_policy_def DefaultHashPolicy_def DefaultHashParams_def hash_bounds)

text \<open>Two concurrent logins: the first runs, the second has a slot and waits for memory.\<close>

definition tight_hasher :: "(phase \<times> 32 word) list \<Rightarrow> 32 word \<Rightarrow> int \<Rightarrow> hasher" where
  "tight_hasher w used n =
     \<lparr>hs_gate = \<lparr>mg_capacity = 64 * 1024, mg_used = used\<rparr>, hs_slots = n, hs_work = w\<rparr>"

lemma tight_new: "NewPasswordHasher tight_policy = Inr (tight_hasher [] 0 0)"
  by (simp add: NewPasswordHasher_def tight_policy_valid newMemoryGate_def tight_hasher_def)
    (simp add: tight_policy_def)

lemma tight_run:
  "(hasher_step tight_policy)\<^sup>*\<^sup>* (tight_hasher [] 0 0)
     (tight_hasher [(Running, 64 * 1024), (HasSlot, 64 * 1024)] (64 * 1024) 2)"
proof -
  note td = tight_hasher_def tight_policy_def
    DefaultHashPolicy_def DefaultHashParams_def
  let ?m = "64 * 1024 :: 32 word"
  have 1: "hasher_step tight_policy (tight_hasher w u n) (tight_hasher (w @ [(Arrived, ?m)]) u n)" for w u n
    using hasher_step.arrive[of tight_policy DefaultHashParams "tight_hasher w u n"]
    by (simp add: td validateVerifyParams_def)
  have 2: "hasher_step tight_policy (tight_hasher w u n) (tight_hasher (w[i := (HasSlot, ?m)]) u (n + 1))"
    if "i < length w" "w ! i = (Arrived, ?m)" "n < 2" for w u n i
    using hasher_step.slot[of i "tight_hasher w u n" ?m tight_policy] that by (simp add: td)
  have 3: "hasher_step tight_policy (tight_hasher w 0 n) (tight_hasher (w[i := (Running, ?m)]) ?m n)"
    if "i < length w" "w ! i = (HasSlot, ?m)" for w n i
    using hasher_step.acquire[of i "tight_hasher w 0 n" ?m tight_policy] that
    by (simp add: td gate_ready_def gate_acquire_def)
  have "(hasher_step tight_policy)\<^sup>*\<^sup>* (tight_hasher [] 0 0) (tight_hasher [(Arrived, ?m), (Arrived, ?m)] 0 0)"
    using 1[of "[]" 0 0] 1[of "[(Arrived, ?m)]" 0 0] by (simp add: rtranclp.rtrancl_into_rtrancl)
  also have "hasher_step tight_policy \<dots> (tight_hasher [(HasSlot, ?m), (Arrived, ?m)] 0 1)"
    using 2[of 0 "[(Arrived, ?m), (Arrived, ?m)]" 0 0] by simp
  also have "hasher_step tight_policy \<dots> (tight_hasher [(HasSlot, ?m), (HasSlot, ?m)] 0 2)"
    using 2[of 1 "[(HasSlot, ?m), (Arrived, ?m)]" 1 0] by simp
  also have "hasher_step tight_policy \<dots> (tight_hasher [(Running, ?m), (HasSlot, ?m)] ?m 2)"
    using 3[of 0 "[(HasSlot, ?m), (HasSlot, ?m)]" 2] by simp
  finally show ?thesis .
qed

theorem hasher_within_budget_witness:
  "memory_in_use (tight_hasher [(Running, 64 * 1024), (HasSlot, 64 * 1024)] (64 * 1024) 2)
     \<le> unat (MemoryBudgetKiB tight_policy)"
  using hasher_within_budget[OF tight_new tight_run] by blast

theorem hasher_progress_witness:
  "\<exists>t'. hasher_step tight_policy (tight_hasher [(Running, 64 * 1024), (HasSlot, 64 * 1024)] (64 * 1024) 2) t'"
  using hasher_progress[OF tight_new tight_run, of "(HasSlot, 64 * 1024)"]
  by (auto simp: tight_hasher_def)

end
