(* ===== verification/Sessions.thy ===== *)
theory Sessions
  imports Password AuditLog Idempotency
begin

text \<open>
  \<open>internal/auth\<close>: the admission limiter (\<open>limiter.go\<close>), login and password change
  (\<open>service.go\<close>), the session operations (\<open>sessions.go\<close>) and the cleanups (\<open>maintenance.go\<close>).

  A login verifies the password outside the write transaction; the model keeps the two parts
  apart (\<open>login_begin\<close> gives a ticket, \<open>login_finish\<close> is the transaction), so that other requests
  can commit between them.  Fresh randomness (tokens, public ids, salts) and the clock are
  arguments.  SHA-256, the Unicode part of \<open>strings.ToLower\<close> and the date arithmetic of SQLite
  (\<open>strftime(..., '+n minutes')\<close>) are fields of \<open>auth_env\<close>.
\<close>

section \<open>Environment\<close>

datatype auth_error = ErrUnauthorized | ErrAccountDisabled | ErrPasswordChangeRequired
  | ErrRateLimited | ErrNotFound | ErrInvalidIdleTimeout
  | AuthPassword password_error | AuthAudit audit_error | AuthSQL constraint_error | AuthNoRows
  | AuthRandom

record limits =
  l_username :: int
  l_source :: int
  l_global :: int

definition limit_defaults :: "limits \<Rightarrow> limits" where
  "limit_defaults l =
     \<lparr>l_username = (if l_username l \<le> 0 then 5 else l_username l),
      l_source = (if l_source l \<le> 0 then 20 else l_source l),
      l_global = (if l_global l \<le> 0 then 100 else l_global l)\<rparr>"

record auth_env =
  ae_sha256 :: "bytes \<Rightarrow> bytes"
  ae_argon :: argon2
  ae_policy :: hash_policy
  ae_limits :: limits
  ae_ulow :: "string \<Rightarrow> string"
  ae_dummy :: string
  ae_audit :: "audit_env option"
  ae_sqltime :: "time \<Rightarrow> int \<Rightarrow> time"

definition AbsoluteLifetime :: time where "AbsoluteLifetime = 24 * hour_ns"

definition digest :: "auth_env \<Rightarrow> string \<Rightarrow> string" where
  "digest E value = hex_encode (ae_sha256 E (bytes_of value))"

text \<open>\<open>NewService\<close>: the dummy hash for unknown accounts and the default limits.\<close>

definition NewAuthService ::
  "auth_env \<Rightarrow> string \<Rightarrow> bytes option \<Rightarrow> password_error + auth_env" where
  "NewAuthService E uuid salt =
     andthen (Hash (ae_argon E) (ae_policy E) salt (''unusable dummy password '' @ uuid)) (\<lambda>dummy.
       Inr (E\<lparr>ae_dummy := dummy, ae_limits := limit_defaults (ae_limits E)\<rparr>))"

definition auditRecord :: "auth_env \<Rightarrow> event \<Rightarrow> db \<Rightarrow> auth_error + db" where
  "auditRecord E e d =
     (case ae_audit E of None \<Rightarrow> Inr d | Some a \<Rightarrow> map_err AuthAudit (Record a e d))"

definition auditStandalone :: "auth_env \<Rightarrow> event \<Rightarrow> db \<Rightarrow> db" where
  "auditStandalone E e d = (case auditRecord E e d of Inl _ \<Rightarrow> d | Inr d' \<Rightarrow> d')"

section \<open>Admission\<close>

definition user_key :: "auth_env \<Rightarrow> string \<Rightarrow> string" where
  "user_key E username = digest E (''username:'' @ username)"

definition source_key :: "auth_env \<Rightarrow> string \<Rightarrow> string" where
  "source_key E source = digest E (''source:'' @ source)"

definition reserve_body ::
  "auth_env \<Rightarrow> time \<Rightarrow> string \<Rightarrow> string \<Rightarrow> db \<Rightarrow> auth_error + (unit \<times> db)" where
  "reserve_body E now username source d =
    (let cutoff = now - minute_ns;
         row = \<lparr>a_user = user_key E username, a_source = source_key E source, a_created = now\<rparr>;
         t = sql_delete (\<lambda>a. a_created a \<le> cutoff) (attempts d) @ [row];
         recent = filter (\<lambda>a. cutoff < a_created a) t;
         total = int (length recent);
         userCount = int (length (filter (\<lambda>a. a_user a = user_key E username) recent));
         sourceCount = int (length (filter (\<lambda>a. a_source a = source_key E source) recent)) in
     if l_username (ae_limits E) < userCount \<or> l_source (ae_limits E) < sourceCount
        \<or> l_global (ae_limits E) < total
     then Inl ErrRateLimited
     else Inr ((), d\<lparr>attempts := t\<rparr>))"

definition reserveAttempt ::
  "auth_env \<Rightarrow> time \<Rightarrow> string \<Rightarrow> string \<Rightarrow> db \<Rightarrow> (auth_error + unit) \<times> db" where
  "reserveAttempt E now username source = in_tx (reserve_body E now username source)"

definition CleanupLoginAttempts :: "time \<Rightarrow> db \<Rightarrow> db \<times> nat" where
  "CleanupLoginAttempts cutoff d =
    (d\<lparr>attempts := sql_delete (\<lambda>a. a_created a \<le> cutoff) (attempts d)\<rparr>,
     sql_affected (\<lambda>a. a_created a \<le> cutoff) (attempts d))"

section \<open>Tokens and authentication\<close>

definition session_token :: "bytes \<Rightarrow> string" where
  "session_token raw = base64_encode url_alphabet raw"

definition validTokenShape :: "string \<Rightarrow> bool" where
  "validTokenShape token =
    (case base64_decode url_alphabet token of None \<Rightarrow> False | Some raw \<Rightarrow> length raw = 32)"

definition CSRFToken :: "auth_env \<Rightarrow> string \<Rightarrow> string" where
  "CSRFToken E token =
     base64_encode url_alphabet (ae_sha256 E (bytes_of (''tiny-password/session-csrf/v1:'' @ token)))"

definition VerifyCSRF :: "auth_env \<Rightarrow> string \<Rightarrow> string \<Rightarrow> bool" where
  "VerifyCSRF E token presented \<longleftrightarrow> token \<noteq> '''' \<and> CSRFToken E token = presented"

text \<open>\<open>revoked_at IS NULL AND absolute_expires_at > ? AND idle_expires_at > ?\<close>\<close>

definition live_at :: "time \<Rightarrow> session_row \<Rightarrow> bool" where
  "live_at now s \<longleftrightarrow> s_revoked s = None \<and> now < s_abs s \<and> now < s_idle s"

definition user_by_id :: "string \<Rightarrow> db \<Rightarrow> user_row option" where
  "user_by_id uid d = sql_get u_id uid (users d)"

definition active_user :: "string \<Rightarrow> db \<Rightarrow> user_row option" where
  "active_user uid d = find (\<lambda>u. u_id u = uid \<and> u_status u = ''active'') (users d)"

definition live_session :: "auth_env \<Rightarrow> time \<Rightarrow> string \<Rightarrow> db \<Rightarrow> session_row option" where
  "live_session E now token d =
     find (\<lambda>s. s_id s = digest E token \<and> live_at now s) (sessions d)"

definition session_info_of :: "session_row \<Rightarrow> bool \<Rightarrow> session_info" where
  "session_info_of s cur = \<lparr>si_id = s_public s, si_created = s_created s, si_expires = s_abs s,
     si_idle = s_idle s, si_current = cur\<rparr>"

definition principal_of :: "user_row \<Rightarrow> session_row \<Rightarrow> principal" where
  "principal_of u s = \<lparr>p_user = u_id u, p_username = u_display u, p_role = u_role u,
     p_must_change = u_must_change u, p_idle = u_idle u, p_session = session_info_of s True\<rparr>"

definition Authenticate :: "auth_env \<Rightarrow> time \<Rightarrow> string \<Rightarrow> db \<Rightarrow> auth_error + principal" where
  "Authenticate E now token d =
    (if \<not> validTokenShape token then Inl ErrUnauthorized
     else case live_session E now token d of None \<Rightarrow> Inl ErrUnauthorized
       | Some s \<Rightarrow> (case active_user (s_user s) d of None \<Rightarrow> Inl ErrUnauthorized
           | Some u \<Rightarrow> Inr (principal_of u s)))"

definition new_session_row ::
  "auth_env \<Rightarrow> string \<Rightarrow> string \<Rightarrow> string \<Rightarrow> time \<Rightarrow> int \<Rightarrow> session_row" where
  "new_session_row E token pub uid now idle =
     \<lparr>s_id = digest E token, s_public = pub, s_user = uid, s_created = now,
      s_abs = now + AbsoluteLifetime, s_idle = now + idle * minute_ns, s_revoked = None\<rparr>"

section \<open>Login\<close>

record login_ticket =
  lt_id :: string
  lt_hash :: string
  lt_session_hash :: string
  lt_idle :: int

definition login_failure :: "string \<Rightarrow> event" where
  "login_failure actor = mk_event ''auth.login.failure'' actor '''' '''' ''failure''"

definition login_check ::
  "auth_env \<Rightarrow> string \<Rightarrow> string \<Rightarrow> bytes option \<Rightarrow> db \<Rightarrow> (auth_error + login_ticket) \<times> db" where
  "login_check E username password salt d =
    (if 64 < length username \<or> MaxPasswordBytes < length password then (Inl ErrUnauthorized, d)
     else
       let found = find (\<lambda>u. u_norm u = username) (users d);
           uid = (case found of None \<Rightarrow> '''' | Some u \<Rightarrow> u_id u);
           hash = (case found of None \<Rightarrow> ae_dummy E | Some u \<Rightarrow> u_hash u) in
       if Verify (ae_argon E) (ae_policy E) password hash \<noteq> Inr True \<or> uid = '''' then
         (Inl ErrUnauthorized,
          auditStandalone E (login_failure (if uid = '''' then Anonymous else uid)) d)
       else case found of None \<Rightarrow> (Inl ErrUnauthorized, d)
       | Some u \<Rightarrow>
          if u_status u \<noteq> ''active'' then
            (Inl ErrAccountDisabled, auditStandalone E (login_failure uid) d)
          else if NeedsRehash (ae_argon E) (ae_policy E) hash then
            (case Hash (ae_argon E) (ae_policy E) salt password of
               Inl e \<Rightarrow> (Inl (AuthPassword e), d)
             | Inr h \<Rightarrow> (Inr \<lparr>lt_id = uid, lt_hash = hash, lt_session_hash = h, lt_idle = u_idle u\<rparr>, d))
          else (Inr \<lparr>lt_id = uid, lt_hash = hash, lt_session_hash = hash, lt_idle = u_idle u\<rparr>, d))"

definition login_begin ::
  "auth_env \<Rightarrow> time \<Rightarrow> string \<Rightarrow> string \<Rightarrow> string \<Rightarrow> bytes option \<Rightarrow> db \<Rightarrow>
   (auth_error + login_ticket) \<times> db" where
  "login_begin E now username password source salt d =
    (let norm = to_lower (ae_ulow E) username in
     case reserveAttempt E now norm source d of
       (Inl e, d1) \<Rightarrow> (Inl e, d1)
     | (Inr _, d1) \<Rightarrow> login_check E norm password salt d1)"

definition may_login :: "login_ticket \<Rightarrow> string \<Rightarrow> user_row \<Rightarrow> bool" where
  "may_login tk hash u \<longleftrightarrow> u_id u = lt_id tk \<and> u_hash u = hash \<and> u_status u = ''active''"

text \<open>The rehash: a compare-and-swap on the hash that was verified.\<close>

definition login_rehash :: "time \<Rightarrow> login_ticket \<Rightarrow> db \<Rightarrow> auth_error + db" where
  "login_rehash now tk d =
    (if lt_session_hash tk = lt_hash tk then Inr d
     else if sql_affected (may_login tk (lt_hash tk)) (users d) \<noteq> 1 then Inl ErrUnauthorized
     else Inr (d\<lparr>users := sql_update (may_login tk (lt_hash tk))
            (\<lambda>u. u\<lparr>u_hash := lt_session_hash tk, u_updated := now\<rparr>) (users d)\<rparr>))"

text \<open>\<open>INSERT INTO sessions ... SELECT ... FROM users WHERE id=? AND password_hash=? AND active\<close>\<close>

definition login_insert ::
  "auth_env \<Rightarrow> time \<Rightarrow> login_ticket \<Rightarrow> string \<Rightarrow> string \<Rightarrow> db \<Rightarrow> auth_error + db" where
  "login_insert E now tk token pub d =
    (case filter (may_login tk (lt_session_hash tk)) (users d) of
       [] \<Rightarrow> Inl ErrUnauthorized
     | [u] \<Rightarrow> map_err AuthSQL
         (insert_session (new_session_row E token pub (u_id u) now (lt_idle tk)) d)
     | _ \<Rightarrow> Inl (AuthSQL UniqueViolation))"

definition set_idle_expiry :: "string \<Rightarrow> time \<Rightarrow> db \<Rightarrow> db" where
  "set_idle_expiry sid t d =
     d\<lparr>sessions := sql_update (\<lambda>s. s_id s = sid) (\<lambda>s. s\<lparr>s_idle := t\<rparr>) (sessions d)\<rparr>"

definition login_tx ::
  "auth_env \<Rightarrow> time \<Rightarrow> login_ticket \<Rightarrow> string \<Rightarrow> string \<Rightarrow> db \<Rightarrow>
   auth_error + ((string \<times> principal) \<times> db)" where
  "login_tx E now tk token pub d =
     andthen (login_rehash now tk d) (\<lambda>d1.
     andthen (login_insert E now tk token pub d1) (\<lambda>d2.
     andthen (from_option AuthNoRows (user_by_id (lt_id tk) d2)) (\<lambda>u.
     let idleExpiry = now + u_idle u * minute_ns;
         d3 = set_idle_expiry (digest E token) idleExpiry d2 in
     andthen (auditRecord E
       (mk_event ''auth.login.success'' (lt_id tk) ''session'' pub ''success'') d3) (\<lambda>d4.
     Inr ((token, principal_of u (new_session_row E token pub (u_id u) now (u_idle u))), d4)))))"

definition login_finish ::
  "auth_env \<Rightarrow> time \<Rightarrow> login_ticket \<Rightarrow> bytes option \<Rightarrow> string \<Rightarrow> db \<Rightarrow>
   (auth_error + (string \<times> principal)) \<times> db" where
  "login_finish E now tk raw pub d =
    (case raw of None \<Rightarrow> (Inl AuthRandom, d)
     | Some r \<Rightarrow> in_tx (login_tx E now tk (session_token r) pub) d)"

definition Login ::
  "auth_env \<Rightarrow> time \<Rightarrow> time \<Rightarrow> string \<Rightarrow> string \<Rightarrow> string \<Rightarrow> bytes option \<Rightarrow> bytes option \<Rightarrow> string \<Rightarrow>
   db \<Rightarrow> (auth_error + (string \<times> principal)) \<times> db" where
  "Login E t1 t2 username password source salt raw pub d =
    (case login_begin E t1 username password source salt d of
       (Inl e, d1) \<Rightarrow> (Inl e, d1)
     | (Inr tk, d1) \<Rightarrow> login_finish E t2 tk raw pub d1)"

section \<open>Changing the password\<close>

record change_ticket =
  ct_principal :: principal
  ct_old :: string
  ct_new :: string

definition change_begin ::
  "auth_env \<Rightarrow> time \<Rightarrow> string \<Rightarrow> string \<Rightarrow> string \<Rightarrow> string \<Rightarrow> bytes option \<Rightarrow> db \<Rightarrow>
   (auth_error + change_ticket) \<times> db" where
  "change_begin E now token current new_password source salt d =
    (case Authenticate E now token d of Inl e \<Rightarrow> (Inl e, d)
     | Inr p \<Rightarrow>
       (case reserveAttempt E now (''password:'' @ p_user p) source d of
          (Inl e, d1) \<Rightarrow> (Inl e, d1)
        | (Inr _, d1) \<Rightarrow>
           (if MaxPasswordBytes < length current then Inl ErrUnauthorized
            else andthen (map_err AuthPassword (ValidateNewPassword new_password)) (\<lambda>_.
              andthen (from_option AuthNoRows (user_by_id (p_user p) d1)) (\<lambda>u.
              if Verify (ae_argon E) (ae_policy E) current (u_hash u) \<noteq> Inr True
              then Inl ErrUnauthorized
              else if current = new_password then Inl (AuthPassword ErrPasswordPolicy)
              else andthen (map_err AuthPassword
                     (Hash (ae_argon E) (ae_policy E) salt new_password)) (\<lambda>h.
                Inr \<lparr>ct_principal = p, ct_old = u_hash u, ct_new = h\<rparr>))), d1)))"

definition may_change :: "auth_env \<Rightarrow> time \<Rightarrow> string \<Rightarrow> change_ticket \<Rightarrow> db \<Rightarrow> user_row \<Rightarrow> bool" where
  "may_change E now token tk d u \<longleftrightarrow>
     u_id u = p_user (ct_principal tk) \<and> u_hash u = ct_old tk \<and> u_status u = ''active'' \<and>
     (\<exists>s \<in> set (sessions d). s_id s = digest E token \<and> s_user s = u_id u \<and> live_at now s)"

definition revoke_where :: "(session_row \<Rightarrow> bool) \<Rightarrow> time \<Rightarrow> db \<Rightarrow> db" where
  "revoke_where p now d =
     d\<lparr>sessions := sql_update (\<lambda>s. p s \<and> s_revoked s = None) (\<lambda>s. s\<lparr>s_revoked := Some now\<rparr>) (sessions d)\<rparr>"

definition change_tx ::
  "auth_env \<Rightarrow> time \<Rightarrow> string \<Rightarrow> change_ticket \<Rightarrow> string \<Rightarrow> string \<Rightarrow> db \<Rightarrow>
   auth_error + ((string \<times> principal) \<times> db)" where
  "change_tx E now token tk new_token pub d =
    (let uid = p_user (ct_principal tk) in
     andthen (ensure (sql_affected (may_change E now token tk d) (users d) = 1) ErrUnauthorized) (\<lambda>_.
     let d1 = d\<lparr>users := sql_update (may_change E now token tk d)
           (\<lambda>u. u\<lparr>u_hash := ct_new tk, u_must_change := False, u_updated := now\<rparr>) (users d)\<rparr>;
         d2 = revoke_where (\<lambda>s. s_user s = uid) now d1 in
     andthen (from_option AuthNoRows (user_by_id uid d2)) (\<lambda>u.
     let row = new_session_row E new_token pub uid now (u_idle u) in
     andthen (map_err AuthSQL (insert_session row d2)) (\<lambda>d3.
     andthen (auditRecord E (mk_event ''auth.password.changed'' uid ''user'' uid ''success'') d3) (\<lambda>d4.
     Inr ((new_token, (ct_principal tk)\<lparr>p_must_change := False, p_idle := u_idle u,
             p_session := session_info_of row True\<rparr>), d4))))))"

definition change_finish ::
  "auth_env \<Rightarrow> time \<Rightarrow> string \<Rightarrow> change_ticket \<Rightarrow> bytes option \<Rightarrow> string \<Rightarrow> db \<Rightarrow>
   (auth_error + (string \<times> principal)) \<times> db" where
  "change_finish E now token tk raw pub d =
    (case raw of None \<Rightarrow> (Inl AuthRandom, d)
     | Some r \<Rightarrow> in_tx (change_tx E now token tk (session_token r) pub) d)"

definition ChangePassword ::
  "auth_env \<Rightarrow> time \<Rightarrow> time \<Rightarrow> string \<Rightarrow> string \<Rightarrow> string \<Rightarrow> string \<Rightarrow> bytes option \<Rightarrow> bytes option \<Rightarrow>
   string \<Rightarrow> db \<Rightarrow> (auth_error + (string \<times> principal)) \<times> db" where
  "ChangePassword E t1 t2 token current new_password source salt raw pub d =
    (case change_begin E t1 token current new_password source salt d of
       (Inl e, d1) \<Rightarrow> (Inl e, d1)
     | (Inr tk, d1) \<Rightarrow> change_finish E t2 token tk raw pub d1)"

section \<open>Operations on sessions\<close>

definition touch_row :: "auth_env \<Rightarrow> time \<Rightarrow> string \<Rightarrow> db \<Rightarrow> session_row \<Rightarrow> bool" where
  "touch_row E now token d s \<longleftrightarrow> s_id s = digest E token \<and> live_at now s \<and>
     (\<exists>u \<in> set (users d). u_id u = s_user s \<and> u_status u = ''active'' \<and> \<not> u_must_change u)"

definition Touch :: "auth_env \<Rightarrow> time \<Rightarrow> string \<Rightarrow> db \<Rightarrow> (auth_error + unit) \<times> db" where
  "Touch E now token d =
    (let idle = (\<lambda>s. case user_by_id (s_user s) d of None \<Rightarrow> 0 | Some u \<Rightarrow> u_idle u);
         d' = d\<lparr>sessions := sql_update (touch_row E now token d)
           (\<lambda>s. s\<lparr>s_idle := min (s_abs s) (ae_sqltime E now (idle s))\<rparr>) (sessions d)\<rparr> in
     (if sql_affected (touch_row E now token d) (sessions d) = 1 then Inr () else Inl ErrUnauthorized, d'))"

definition ListSessions :: "auth_env \<Rightarrow> time \<Rightarrow> time \<Rightarrow> string \<Rightarrow> db \<Rightarrow> auth_error + session_info list" where
  "ListSessions E t1 t2 token d =
     andthen (Authenticate E t1 token d) (\<lambda>p.
     if p_must_change p then Inl ErrPasswordChangeRequired
     else Inr (map (\<lambda>s. session_info_of s (s_public s = si_id (p_session p)))
       (sort_key (\<lambda>s. (- s_created s, s_public s))
         (filter (\<lambda>s. s_user s = p_user p \<and> live_at t2 s) (sessions d)))))"

definition logout_tx :: "auth_env \<Rightarrow> time \<Rightarrow> string \<Rightarrow> db \<Rightarrow> auth_error + (unit \<times> db)" where
  "logout_tx E now token d =
    (case find (\<lambda>s. s_id s = digest E token \<and> live_at now s \<and>
        (\<exists>u \<in> set (users d). u_id u = s_user s \<and> u_status u = ''active'')) (sessions d) of
       None \<Rightarrow> Inl ErrUnauthorized
     | Some s \<Rightarrow>
        let d1 = revoke_where (\<lambda>s. s_id s = digest E token) now d in
        andthen (auditRecord E
          (mk_event ''auth.logout'' (s_user s) ''session'' (s_public s) ''success'') d1) (\<lambda>d2.
        Inr ((), d2)))"

definition Logout :: "auth_env \<Rightarrow> time \<Rightarrow> string \<Rightarrow> db \<Rightarrow> (auth_error + unit) \<times> db" where
  "Logout E now token d =
    (if \<not> validTokenShape token then (Inl ErrUnauthorized, d) else in_tx (logout_tx E now token) d)"

definition revoke_tx :: "auth_env \<Rightarrow> time \<Rightarrow> string \<Rightarrow> string \<Rightarrow> db \<Rightarrow> auth_error + (unit \<times> db)" where
  "revoke_tx E now token pub d =
    (case find (touch_row E now token d) (sessions d) of
       None \<Rightarrow> Inl ErrUnauthorized
     | Some c \<Rightarrow>
        let mine = (\<lambda>s. s_public s = pub \<and> s_user s = s_user c) in
        if sql_affected (\<lambda>s. mine s \<and> s_revoked s = None) (sessions d) \<noteq> 1 then Inl ErrNotFound
        else andthen (auditRecord E
            (mk_event ''auth.session.revoked'' (s_user c) ''session'' pub ''success'')
            (revoke_where mine now d)) (\<lambda>d2. Inr ((), d2)))"

definition RevokeSession :: "auth_env \<Rightarrow> time \<Rightarrow> string \<Rightarrow> string \<Rightarrow> db \<Rightarrow> (auth_error + unit) \<times> db" where
  "RevokeSession E now token pub d =
    (if \<not> validTokenShape token then (Inl ErrNotFound, d) else in_tx (revoke_tx E now token pub) d)"

definition idle_row :: "auth_env \<Rightarrow> time \<Rightarrow> string \<Rightarrow> db \<Rightarrow> user_row \<Rightarrow> bool" where
  "idle_row E now token d u \<longleftrightarrow> u_status u = ''active'' \<and> \<not> u_must_change u \<and>
     (\<exists>s \<in> set (sessions d). s_id s = digest E token \<and> live_at now s \<and> s_user s = u_id u)"

definition set_idle_tx :: "auth_env \<Rightarrow> time \<Rightarrow> string \<Rightarrow> int \<Rightarrow> db \<Rightarrow> auth_error + (unit \<times> db)" where
  "set_idle_tx E now token minutes d =
     andthen (ensure (sql_affected (idle_row E now token d) (users d) = 1) ErrUnauthorized) (\<lambda>_.
     let d1 = d\<lparr>users := sql_update (idle_row E now token d)
           (\<lambda>u. u\<lparr>u_idle := minutes, u_updated := now\<rparr>) (users d)\<rparr>;
         uid = map_option s_user (sql_get s_id (digest E token) (sessions d1)) in
     Inr ((), d1\<lparr>sessions := sql_update (\<lambda>s. Some (s_user s) = uid \<and> live_at now s)
       (\<lambda>s. s\<lparr>s_idle := min (min (s_idle s) (s_abs s)) (ae_sqltime E now minutes)\<rparr>) (sessions d1)\<rparr>))"

definition SetIdleTimeout :: "auth_env \<Rightarrow> time \<Rightarrow> string \<Rightarrow> int \<Rightarrow> db \<Rightarrow> (auth_error + unit) \<times> db" where
  "SetIdleTimeout E now token minutes d =
    (if minutes < 5 \<or> 30 < minutes then (Inl ErrInvalidIdleTimeout, d)
     else in_tx (set_idle_tx E now token minutes) d)"

definition dead_at :: "time \<Rightarrow> session_row \<Rightarrow> bool" where
  "dead_at now s \<longleftrightarrow> s_revoked s \<noteq> None \<or> s_abs s \<le> now \<or> s_idle s \<le> now"

definition CleanupExpiredSessions :: "time \<Rightarrow> db \<Rightarrow> db \<times> nat" where
  "CleanupExpiredSessions now d =
    (d\<lparr>sessions := sql_delete (dead_at now) (sessions d)\<rparr>, sql_affected (dead_at now) (sessions d))"

definition sample_auth :: auth_env where
  "sample_auth = \<lparr>ae_sha256 = (\<lambda>b. b), ae_argon = sample_argon2, ae_policy = DefaultHashPolicy,
     ae_limits = limit_defaults \<lparr>l_username = 1, l_source = 0, l_global = 0\<rparr>, ae_ulow = (\<lambda>s. s),
     ae_dummy = '''', ae_audit = Some sample_env, ae_sqltime = (\<lambda>t n. t + n * minute_ns)\<rparr>"

end
