(* ===== verification/Admission.thy ===== *)
theory Admission
  imports Sessions
begin

text \<open>
  The login limiter as a rolling-window limiter: the calls of \<open>reserveAttempt\<close>, in the order of
  their transactions, interleaved with the maintenance cleanup, against the history of the
  admitted calls.
\<close>

definition window :: "time \<Rightarrow> attempt_row list \<Rightarrow> attempt_row list" where
  "window t H = filter (\<lambda>a. t - minute_ns < a_created a \<and> a_created a \<le> t) H"

definition admitted_by :: "(attempt_row \<Rightarrow> bool) \<Rightarrow> time \<Rightarrow> attempt_row list \<Rightarrow> int" where
  "admitted_by p t H = int (length (filter p (window t H)))"

definition of_username :: "auth_env \<Rightarrow> string \<Rightarrow> attempt_row \<Rightarrow> bool" where
  "of_username E username a = (a_user a = user_key E username)"

definition of_source :: "auth_env \<Rightarrow> string \<Rightarrow> attempt_row \<Rightarrow> bool" where
  "of_source E source a = (a_source a = source_key E source)"

definition attempt_of :: "auth_env \<Rightarrow> time \<Rightarrow> string \<Rightarrow> string \<Rightarrow> attempt_row" where
  "attempt_of E now username source =
     \<lparr>a_user = user_key E username, a_source = source_key E source, a_created = now\<rparr>"

record limiter =
  lm_db :: db
  lm_last :: time
  lm_admitted :: "attempt_row list"

inductive limiter_step :: "auth_env \<Rightarrow> limiter \<Rightarrow> limiter \<Rightarrow> bool" for E where
  admit: "lm_last s \<le> now \<Longrightarrow> reserveAttempt E now username source (lm_db s) = (Inr (), d') \<Longrightarrow>
     limiter_step E s \<lparr>lm_db = d', lm_last = now,
       lm_admitted = lm_admitted s @ [attempt_of E now username source]\<rparr>"
| deny: "lm_last s \<le> now \<Longrightarrow> reserveAttempt E now username source (lm_db s) = (Inl e, d') \<Longrightarrow>
     limiter_step E s (s\<lparr>lm_db := d', lm_last := now\<rparr>)"
| sweep: "lm_last s \<le> now \<Longrightarrow> cutoff \<le> now - minute_ns \<Longrightarrow>
     limiter_step E s (s\<lparr>lm_db := fst (CleanupLoginAttempts cutoff (lm_db s)), lm_last := now\<rparr>)"

definition limiter_start :: "db \<Rightarrow> time \<Rightarrow> limiter" where
  "limiter_start d t = \<lparr>lm_db = d\<lparr>attempts := []\<rparr>, lm_last = t, lm_admitted = []\<rparr>"

definition within_limits :: "auth_env \<Rightarrow> attempt_row list \<Rightarrow> bool" where
  "within_limits E H \<longleftrightarrow> (\<forall>t username source.
     admitted_by (of_username E username) t H \<le> l_username (ae_limits E) \<and>
     admitted_by (of_source E source) t H \<le> l_source (ae_limits E) \<and>
     admitted_by (\<lambda>_. True) t H \<le> l_global (ae_limits E))"

definition limiter_inv :: "auth_env \<Rightarrow> limiter \<Rightarrow> bool" where
  "limiter_inv E s \<longleftrightarrow>
     filter (\<lambda>a. lm_last s - minute_ns < a_created a) (attempts (lm_db s))
       = filter (\<lambda>a. lm_last s - minute_ns < a_created a) (lm_admitted s) \<and>
     (\<forall>a \<in> set (attempts (lm_db s)). a_created a \<le> lm_last s) \<and>
     (\<forall>a \<in> set (lm_admitted s). a_created a \<le> lm_last s) \<and> within_limits E (lm_admitted s)"

lemma minute_pos: "0 < minute_ns"
  by (simp add: duration_defs)

lemma filter_later:
  fixes t t' :: int
  assumes "filter (\<lambda>a. t < f a) xs = filter (\<lambda>a. t < f a) ys" and "t \<le> t'"
  shows "filter (\<lambda>a. t' < f a) xs = filter (\<lambda>a. t' < f a) ys"
proof -
  have "filter (\<lambda>a. t' < f a) zs = filter (\<lambda>a. t' < f a) (filter (\<lambda>a. t < f a) zs)" for zs
    using assms(2) by (induction zs) auto
  with assms(1) show ?thesis by metis
qed

lemma window_recent:
  assumes "\<forall>a \<in> set H. a_created a \<le> t"
  shows "window t H = filter (\<lambda>a. t - minute_ns < a_created a) H"
  using assms by (auto simp: window_def intro!: filter_cong)

lemma window_append: "window t (H @ [a]) = window t H @ (if t - minute_ns < a_created a \<and> a_created a \<le> t then [a] else [])"
  by (simp add: window_def)

lemma limiter_invD:
  assumes "limiter_inv E s"
  shows "filter (\<lambda>a. lm_last s - minute_ns < a_created a) (attempts (lm_db s))
      = filter (\<lambda>a. lm_last s - minute_ns < a_created a) (lm_admitted s)"
    and "a \<in> set (attempts (lm_db s)) \<Longrightarrow> a_created a \<le> lm_last s"
    and "a \<in> set (lm_admitted s) \<Longrightarrow> a_created a \<le> lm_last s"
    and "within_limits E (lm_admitted s)"
  using assms unfolding limiter_inv_def by blast+

lemma limiter_inv_later:
  assumes "limiter_inv E s" and "lm_last s \<le> now"
  shows "filter (\<lambda>a. now - minute_ns < a_created a) (attempts (lm_db s))
      = filter (\<lambda>a. now - minute_ns < a_created a) (lm_admitted s)"
  using assms(2) by (intro filter_later[OF limiter_invD(1)[OF assms(1)]]) simp

text \<open>What the transaction counts is the window of the history.\<close>

lemma recent_is_window:
  assumes "limiter_inv E s" and "lm_last s \<le> now"
  shows "filter (\<lambda>a. now - minute_ns < a_created a)
      (sql_delete (\<lambda>a. a_created a \<le> now - minute_ns) (attempts (lm_db s))) = window now (lm_admitted s)"
proof -
  have del: "filter (\<lambda>a. c < a_created a) (sql_delete (\<lambda>a. a_created a \<le> c) xs) = filter (\<lambda>a. c < a_created a) xs"
    for c xs by (simp add: sql_delete_def not_le)
  have "\<forall>a \<in> set (lm_admitted s). a_created a \<le> now" using assms by (auto simp: limiter_inv_def)
  then have "window now (lm_admitted s) = filter (\<lambda>a. now - minute_ns < a_created a) (lm_admitted s)"
    by (rule window_recent)
  also have "\<dots> = filter (\<lambda>a. now - minute_ns < a_created a) (attempts (lm_db s))"
    by (rule limiter_inv_later[OF assms, symmetric])
  finally show ?thesis unfolding del by (rule sym)
qed

definition admits :: "auth_env \<Rightarrow> time \<Rightarrow> string \<Rightarrow> string \<Rightarrow> attempt_row list \<Rightarrow> bool" where
  "admits E now username source H \<longleftrightarrow>
     admitted_by (of_username E username) now H < l_username (ae_limits E) \<and>
     admitted_by (of_source E source) now H < l_source (ae_limits E) \<and>
     admitted_by (\<lambda>_. True) now H < l_global (ae_limits E)"

lemma reserve_decision:
  assumes "limiter_inv E s" and "lm_last s \<le> now"
  shows "reserveAttempt E now username source (lm_db s) =
    (if admits E now username source (lm_admitted s)
     then (Inr (), (lm_db s)\<lparr>attempts := sql_delete (\<lambda>a. a_created a \<le> now - minute_ns) (attempts (lm_db s))
            @ [attempt_of E now username source]\<rparr>)
     else (Inl ErrRateLimited, lm_db s))"
proof -
  note rw = recent_is_window[OF assms]
  have row: "now - minute_ns < now" using minute_pos by simp
  have eqs: "of_username E username = (\<lambda>a. a_user a = user_key E username)"
    "of_source E source = (\<lambda>a. a_source a = source_key E source)"
    by (simp_all add: of_username_def of_source_def fun_eq_iff)
  show ?thesis
    unfolding reserveAttempt_def in_tx_def reserve_body_def Let_def
    using rw row
    by (auto simp: admits_def admitted_by_def eqs attempt_of_def)
qed

lemma admitted_by_mono:
  assumes "\<forall>a \<in> set H. a_created a \<le> now" and "now \<le> t"
  shows "admitted_by p t H \<le> admitted_by p now H"
proof -
  have "length (filter p (window t H)) \<le> length (filter p (window now H))"
    using assms by (induction H) (auto simp: window_def)
  then show ?thesis by (simp add: admitted_by_def)
qed

lemma admitted_by_append:
  "admitted_by p t (H @ [a]) = admitted_by p t H
     + (if t - minute_ns < a_created a \<and> a_created a \<le> t \<and> p a then 1 else 0)"
  by (simp add: admitted_by_def window_append)

lemma within_limits_append:
  assumes "within_limits E H" and "admits E now username source H"
    and "\<forall>a \<in> set H. a_created a \<le> now"
  shows "within_limits E (H @ [attempt_of E now username source])" (is "within_limits E ?H")
proof -
  let ?a = "attempt_of E now username source"
  have le: "\<forall>a \<in> set ?H. a_created a \<le> now" using assms(3) by (simp add: attempt_of_def)
  have early: "admitted_by p t ?H = admitted_by p t H" if "t < now" for p t
    using that by (simp add: admitted_by_append attempt_of_def)
  have user: "admitted_by (of_username E u) now ?H \<le> l_username (ae_limits E)" for u
  proof (cases "user_key E u = user_key E username")
    case True
    then have "of_username E u = of_username E username" by (simp add: of_username_def fun_eq_iff)
    with assms(2) show ?thesis by (simp add: admitted_by_append admits_def)
  next
    case False
    then have "\<not> of_username E u ?a" by (simp add: of_username_def attempt_of_def)
    with assms(1) show ?thesis by (simp add: admitted_by_append within_limits_def)
  qed
  have source: "admitted_by (of_source E v) now ?H \<le> l_source (ae_limits E)" for v
  proof (cases "source_key E v = source_key E source")
    case True
    then have "of_source E v = of_source E source" by (simp add: of_source_def fun_eq_iff)
    with assms(2) show ?thesis by (simp add: admitted_by_append admits_def)
  next
    case False
    then have "\<not> of_source E v ?a" by (simp add: of_source_def attempt_of_def)
    with assms(1) show ?thesis by (simp add: admitted_by_append within_limits_def)
  qed
  have "admitted_by (\<lambda>_. True) now ?H \<le> l_global (ae_limits E)"
    using assms(2) by (simp add: admitted_by_append admits_def)
  note at_now = user source this
  show ?thesis
    unfolding within_limits_def
  proof (intro allI)
    fix t u v
    show "admitted_by (of_username E u) t ?H \<le> l_username (ae_limits E)
      \<and> admitted_by (of_source E v) t ?H \<le> l_source (ae_limits E)
      \<and> admitted_by (\<lambda>_. True) t ?H \<le> l_global (ae_limits E)"
    proof (cases "t < now")
      case True
      then show ?thesis using assms(1) by (simp add: early within_limits_def)
    next
      case False
      then have "now \<le> t" by simp
      from admitted_by_mono[OF le this] at_now show ?thesis by (meson order_trans)
    qed
  qed
qed

lemma limiter_step_inv: "limiter_step E s t \<Longrightarrow> limiter_inv E s \<Longrightarrow> limiter_inv E t"
proof (induction rule: limiter_step.induct)
  case (admit s now username source d')
  let ?a = "attempt_of E now username source"
  note rd = reserve_decision[OF admit(3,1), of username source]
  from admit(2) rd have ok: "admits E now username source (lm_admitted s)"
    and d': "d' = (lm_db s)\<lparr>attempts := sql_delete (\<lambda>a. a_created a \<le> now - minute_ns) (attempts (lm_db s)) @ [?a]\<rparr>"
    by (auto split: if_splits)
  have le: "\<forall>a \<in> set (lm_admitted s). a_created a \<le> now" using admit(1,3) by (auto simp: limiter_inv_def)
  have "filter (\<lambda>a. now - minute_ns < a_created a) (attempts d')
      = filter (\<lambda>a. now - minute_ns < a_created a) (lm_admitted s @ [?a])"
    using recent_is_window[OF admit(3,1)] window_recent[OF le] by (simp add: d')
  moreover have "\<forall>a \<in> set (attempts d'). a_created a \<le> now"
    using admit(1,3) by (auto simp: d' limiter_inv_def attempt_of_def sql_delete_def)
  moreover have "within_limits E (lm_admitted s @ [?a])"
    using within_limits_append[OF _ ok le] admit(3) by (simp add: limiter_inv_def)
  ultimately show ?case using le by (simp add: limiter_inv_def attempt_of_def)
next
  case (deny s now username source e d')
  note rd = reserve_decision[OF deny(3,1), of username source]
  from deny(2) rd have "d' = lm_db s" by (auto split: if_splits)
  with limiter_inv_later[OF deny(3,1)] limiter_invD(2-4)[OF deny(3)] deny(1) show ?case
    by (fastforce simp: limiter_inv_def)
next
  case (sweep s now cutoff)
  let ?t = "sql_delete (\<lambda>a. a_created a \<le> cutoff) (attempts (lm_db s))"
  have "filter (\<lambda>a. now - minute_ns < a_created a) ?t
      = filter (\<lambda>a. now - minute_ns < a_created a) (attempts (lm_db s))"
    using sweep(2) by (auto simp: sql_delete_def intro: filter_cong)
  also have "\<dots> = filter (\<lambda>a. now - minute_ns < a_created a) (lm_admitted s)"
    by (rule limiter_inv_later[OF sweep(3,1)])
  finally have "filter (\<lambda>a. now - minute_ns < a_created a) ?t
      = filter (\<lambda>a. now - minute_ns < a_created a) (lm_admitted s)" .
  moreover have "\<forall>a \<in> set ?t. a_created a \<le> now"
    using sweep(1,3) by (auto simp: limiter_inv_def sql_delete_def)
  moreover have "\<forall>a \<in> set (lm_admitted s). a_created a \<le> now"
    using sweep(1,3) by (auto simp: limiter_inv_def)
  ultimately show ?case using sweep(3) by (simp add: limiter_inv_def CleanupLoginAttempts_def)
qed

interpretation limiter_system: invariant_system "limiter_step E" "limiter_inv E" for E
  by unfold_locales (rule limiter_step_inv)

lemma limiter_start_inv:
  "0 \<le> l_username (ae_limits E) \<Longrightarrow> 0 \<le> l_source (ae_limits E) \<Longrightarrow> 0 \<le> l_global (ae_limits E) \<Longrightarrow>
   limiter_inv E (limiter_start d t)"
  by (simp add: limiter_inv_def limiter_start_def within_limits_def admitted_by_def window_def)

lemma limit_defaults_pos:
  "0 \<le> l_username (limit_defaults l)" "0 \<le> l_source (limit_defaults l)" "0 \<le> l_global (limit_defaults l)"
  by (simp_all add: limit_defaults_def)

text \<open>the limiter is an exact rolling-window limiter: for a service with the configured or
  default limits, after any interleaving of attempts and cleanups, a call is admitted if and
  only if in the last minute fewer calls than the limit were admitted for its username, for
  its source and in total.  A denied call leaves the table as it was, so it does not extend
  the window.\<close>

theorem limiter_exact:
  assumes "ae_limits E = limit_defaults l" and "(limiter_step E)\<^sup>*\<^sup>* (limiter_start d t) s"
    and "lm_last s \<le> now"
  shows "fst (reserveAttempt E now username source (lm_db s)) =
      (if admits E now username source (lm_admitted s) then Inr () else Inl ErrRateLimited)
    \<and> (admits E now username source (lm_admitted s) \<or>
      snd (reserveAttempt E now username source (lm_db s)) = lm_db s)"
proof -
  have "limiter_inv E s"
    using limiter_system.reachable_inv[OF assms(2) limiter_start_inv] assms(1) by (simp add: limit_defaults_pos)
  from reserve_decision[OF this assms(3), of username source] show ?thesis by simp
qed

text \<open>In every window of one minute, at most the limit of calls was admitted for each
  username, for each source and in total.\<close>

theorem limiter_bounds:
  assumes "ae_limits E = limit_defaults l" and "(limiter_step E)\<^sup>*\<^sup>* (limiter_start d t) s"
  shows "admitted_by (of_username E username) any (lm_admitted s) \<le> l_username (ae_limits E)
    \<and> admitted_by (of_source E source) any (lm_admitted s) \<le> l_source (ae_limits E)
    \<and> admitted_by (\<lambda>_. True) any (lm_admitted s) \<le> l_global (ae_limits E)"
  using limiter_system.reachable_inv[OF assms(2) limiter_start_inv] assms(1)
  by (simp add: limit_defaults_pos limiter_inv_def within_limits_def)

section \<open>A run: the second attempt of one username in a minute is denied\<close>

definition once_admitted :: limiter where
  "once_admitted = \<lparr>lm_db = empty_db\<lparr>attempts := [attempt_of sample_auth 0 ''bob'' ''ip'']\<rparr>,
     lm_last = 0, lm_admitted = [attempt_of sample_auth 0 ''bob'' ''ip'']\<rparr>"

lemma sample_limits: "ae_limits sample_auth = limit_defaults \<lparr>l_username = 1, l_source = 0, l_global = 0\<rparr>"
  by (simp add: sample_auth_def)

lemma once_admitted_reached: "(limiter_step sample_auth)\<^sup>*\<^sup>* (limiter_start empty_db 0) once_admitted"
proof -
  have "limiter_inv sample_auth (limiter_start empty_db 0)"
    by (rule limiter_start_inv) (simp_all add: sample_limits limit_defaults_pos)
  from reserve_decision[OF this, of 0 "''bob''" "''ip''"]
  have "reserveAttempt sample_auth 0 ''bob'' ''ip'' (lm_db (limiter_start empty_db 0))
      = (Inr (), empty_db\<lparr>attempts := [attempt_of sample_auth 0 ''bob'' ''ip'']\<rparr>)"
    by (simp add: limiter_start_def admits_def admitted_by_def window_def sample_auth_def
        limit_defaults_def sql_delete_def empty_db_def)
  from limiter_step.admit[OF _ this] show ?thesis
    by (simp add: limiter_start_def once_admitted_def r_into_rtranclp)
qed

lemma second_not_admitted: "\<not> admits sample_auth 1 ''bob'' ''ip'' (lm_admitted once_admitted)"
  by (simp add: admits_def admitted_by_def window_def once_admitted_def of_username_def attempt_of_def
      sample_limits limit_defaults_def duration_defs)

theorem limiter_exact_witness:
  "fst (reserveAttempt sample_auth 1 ''bob'' ''ip'' (lm_db once_admitted)) = Inl ErrRateLimited"
  using limiter_exact[OF sample_limits once_admitted_reached, of 1 "''bob''" "''ip''"] second_not_admitted
  by (simp add: once_admitted_def)

theorem limiter_bounds_witness:
  "admitted_by (of_username sample_auth ''bob'') 0 (lm_admitted once_admitted) \<le> 1"
  using limiter_bounds[OF sample_limits once_admitted_reached, of "''bob''" 0 "''ip''"]
  by (simp add: sample_limits limit_defaults_def)

end
