(* ===== verification/Users.thy ===== *)
theory Users
  imports Sessions
begin

text \<open>
  \<open>internal/users/service.go\<close>: creation, listing, disabling, enabling, session revocation and
  deletion of members.  Every write runs in one transaction that first checks the live
  authority of the acting administrator (\<open>authorizeWrite\<close>).
\<close>

section \<open>Names\<close>

definition username_head :: "char \<Rightarrow> bool" where
  "username_head c \<longleftrightarrow> is_alnum c"

definition username_char :: "char \<Rightarrow> bool" where
  "username_char c \<longleftrightarrow> is_alnum c \<or> c \<in> set ''._-''"

text \<open>\<open>^[a-zA-Z0-9][a-zA-Z0-9._-]{2,63}$\<close>\<close>

definition usernamePattern :: "string \<Rightarrow> bool" where
  "usernamePattern name \<longleftrightarrow>
     (case name of [] \<Rightarrow> False
      | c # cs \<Rightarrow> username_head c \<and> list_all username_char cs \<and> 2 \<le> length cs \<and> length cs \<le> 63)"

definition valid_username :: "string \<Rightarrow> bool" where
  "valid_username name \<longleftrightarrow> 3 \<le> length name \<and> length name \<le> 64 \<and> usernamePattern name"

datatype user_error = ErrForbidden | ErrUserNotFound | ErrUsernameTaken | ErrLastAdminProtected
  | ErrConfirmationMismatch | ErrInvalidUsername | UserAuth auth_error
  | UserPassword password_error | UserAudit audit_error | UserClaim idem_error
  | UserSQL constraint_error

definition ValidateUsername :: "string \<Rightarrow> user_error + unit" where
  "ValidateUsername name = ensure (valid_username name) ErrInvalidUsername"

record user_env =
  us_argon :: argon2
  us_policy :: hash_policy
  us_ulow :: "string \<Rightarrow> string"
  us_audit :: audit_env
  us_idem :: idem_options

definition NormalizeUsername :: "user_env \<Rightarrow> string \<Rightarrow> string" where
  "NormalizeUsername E name = to_lower (us_ulow E) name"

section \<open>Views and authority\<close>

record user_view =
  uv_id :: string
  uv_username :: string
  uv_role :: string
  uv_status :: string
  uv_created :: time

definition derived_status :: "bool \<Rightarrow> string \<Rightarrow> string" where
  "derived_status first_login status =
    (if status = ''disabled'' then ''disabled''
     else if first_login then ''must_change_password'' else ''active'')"

definition scanUser :: "user_row \<Rightarrow> user_view" where
  "scanUser u = \<lparr>uv_id = u_id u, uv_username = u_display u, uv_role = u_role u,
     uv_status = derived_status (u_must_change u) (u_status u), uv_created = u_created u\<rparr>"

definition requireAdmin :: "principal option \<Rightarrow> user_error + principal" where
  "requireAdmin p =
    (case p of None \<Rightarrow> Inl ErrForbidden
     | Some a \<Rightarrow> if p_role a \<noteq> RoleAdmin then Inl ErrForbidden else Inr a)"

definition live_admin :: "time \<Rightarrow> principal \<Rightarrow> db \<Rightarrow> user_row \<Rightarrow> bool" where
  "live_admin now a d u \<longleftrightarrow>
     u_id u = p_user a \<and> u_role u = RoleAdmin \<and> u_status u = ''active'' \<and> \<not> u_must_change u \<and>
     (\<exists>s \<in> set (sessions d). s_public s = si_id (p_session a) \<and> s_user s = u_id u \<and> live_at now s)"

definition authorizeWrite :: "time \<Rightarrow> principal \<Rightarrow> db \<Rightarrow> user_error + unit" where
  "authorizeWrite now a d =
     ensure (sql_affected (live_admin now a d) (users d) = 1) (UserAuth ErrUnauthorized)"

definition audit_user :: "user_env \<Rightarrow> string \<Rightarrow> principal \<Rightarrow> string \<Rightarrow> db \<Rightarrow> user_error + db" where
  "audit_user E name a target d =
     map_err UserAudit (Record (us_audit E) (mk_event name (p_user a) ''user'' target ''success'') d)"

definition complete_user_claim :: "user_env \<Rightarrow> time \<Rightarrow> claim option \<Rightarrow> string \<Rightarrow> db \<Rightarrow> user_error + db" where
  "complete_user_claim E now c res d =
    (case c of None \<Rightarrow> Inr d
     | Some cl \<Rightarrow> (case Complete (us_idem E) now cl res (idem d) of
         Inl e \<Rightarrow> Inl (UserClaim e) | Inr t \<Rightarrow> Inr (d\<lparr>idem := t\<rparr>)))"

section \<open>Creation and reading\<close>

definition new_member :: "user_env \<Rightarrow> string \<Rightarrow> string \<Rightarrow> string \<Rightarrow> time \<Rightarrow> user_row" where
  "new_member E uid name hash now =
     \<lparr>u_id = uid, u_norm = NormalizeUsername E name, u_display = name, u_role = RoleMember,
      u_status = ''active'', u_must_change = True, u_hash = hash, u_created = now,
      u_updated = now, u_idle = 15\<rparr>"

definition create_user_tx ::
  "user_env \<Rightarrow> time \<Rightarrow> principal \<Rightarrow> string \<Rightarrow> string \<Rightarrow> string \<Rightarrow> claim option \<Rightarrow> db \<Rightarrow>
   user_error + (user_view \<times> db)" where
  "create_user_tx E now a uid name hash c d =
     andthen (authorizeWrite now a d) (\<lambda>_.
     andthen (map_err (\<lambda>e. if e = UniqueViolation then ErrUsernameTaken else UserSQL e)
        (insert_user (new_member E uid name hash now) d)) (\<lambda>d1.
     andthen (complete_user_claim E now c uid d1) (\<lambda>d2.
     andthen (audit_user E ''user.created'' a uid d2) (\<lambda>d3.
     Inr (scanUser (new_member E uid name hash now), d3)))))"

definition CreateUser ::
  "user_env \<Rightarrow> time \<Rightarrow> principal option \<Rightarrow> string \<Rightarrow> string \<Rightarrow> bytes option \<Rightarrow> string \<Rightarrow> claim option \<Rightarrow>
   db \<Rightarrow> (user_error + user_view) \<times> db" where
  "CreateUser E now admin name password salt uid c d =
    (case andthen (requireAdmin admin) (\<lambda>a.
          andthen (ValidateUsername name) (\<lambda>_.
          andthen (map_err UserPassword (ValidateNewPassword password)) (\<lambda>_.
          andthen (map_err UserPassword (Hash (us_argon E) (us_policy E) salt password)) (\<lambda>hash.
          Inr (a, hash))))) of
       Inl e \<Rightarrow> (Inl e, d)
     | Inr (a, hash) \<Rightarrow> in_tx (create_user_tx E now a uid name hash c) d)"

definition ReplayCreated ::
  "time \<Rightarrow> principal option \<Rightarrow> string \<Rightarrow> db \<Rightarrow> user_error + user_view" where
  "ReplayCreated now admin uid d =
     andthen (requireAdmin admin) (\<lambda>a.
     andthen (authorizeWrite now a d) (\<lambda>_.
     from_option ErrUserNotFound (map_option scanUser (user_by_id uid d))))"

definition GetUserByID :: "principal option \<Rightarrow> string \<Rightarrow> db \<Rightarrow> user_error + user_view" where
  "GetUserByID admin uid d =
     andthen (requireAdmin admin) (\<lambda>_.
     from_option ErrUserNotFound (map_option scanUser (user_by_id uid d)))"

definition user_pos :: "user_row \<Rightarrow> time \<times> string" where
  "user_pos u = (u_created u, u_id u)"

definition ListUsers ::
  "principal option \<Rightarrow> (time \<times> string) option \<Rightarrow> nat \<Rightarrow> db \<Rightarrow> user_error + user_view list" where
  "ListUsers admin before limit d =
     andthen (requireAdmin admin) (\<lambda>_.
     Inr (map scanUser (keyset_page user_pos (\<lambda>_. True) before limit (users d))))"

interpretation user_pages: keyset_listing user_pos "\<lambda>q :: unit. \<lambda>_. True"
  "\<lambda>q before limit t. keyset_page user_pos (\<lambda>_. True) before limit t"
  by (rule keyset_listing_page)

section \<open>Disabling, enabling, revoking\<close>

definition other_admins :: "string \<Rightarrow> db \<Rightarrow> user_row list" where
  "other_admins uid d =
     filter (\<lambda>w. u_role w = RoleAdmin \<and> u_status w = ''active'' \<and> u_id w \<noteq> uid) (users d)"

definition may_disable :: "string \<Rightarrow> db \<Rightarrow> user_row \<Rightarrow> bool" where
  "may_disable uid d u \<longleftrightarrow> u_id u = uid \<and> u_status u = ''active'' \<and>
     (u_role u \<noteq> RoleAdmin \<or> 1 \<le> length (other_admins (u_id u) d))"

definition disableBlockReason :: "string \<Rightarrow> db \<Rightarrow> user_error + unit" where
  "disableBlockReason uid d =
    (case user_by_id uid d of None \<Rightarrow> Inl ErrUserNotFound
     | Some u \<Rightarrow> if u_status u = ''disabled'' then Inr ()
         else if u_role u = RoleAdmin \<and> length (other_admins uid d) = 0 then Inl ErrLastAdminProtected
         else Inl ErrUserNotFound)"

definition set_status :: "(user_row \<Rightarrow> bool) \<Rightarrow> string \<Rightarrow> time \<Rightarrow> db \<Rightarrow> db" where
  "set_status p st now d =
     d\<lparr>users := sql_update p (\<lambda>u. u\<lparr>u_status := st, u_updated := now\<rparr>) (users d)\<rparr>"

definition revoke_user :: "string \<Rightarrow> time \<Rightarrow> db \<Rightarrow> db" where
  "revoke_user uid now = revoke_where (\<lambda>s. s_user s = uid) now"

text \<open>The transactions answer \<open>Some\<close> view when they end in the read-only no-op.\<close>

definition disable_tx ::
  "user_env \<Rightarrow> time \<Rightarrow> principal \<Rightarrow> string \<Rightarrow> db \<Rightarrow> user_error + (user_view option \<times> db)" where
  "disable_tx E now a uid d =
     andthen (authorizeWrite now a d) (\<lambda>_.
     if sql_affected (may_disable uid d) (users d) \<noteq> 1 then
       andthen (disableBlockReason uid d) (\<lambda>_.
       andthen (from_option ErrUserNotFound (user_by_id uid d)) (\<lambda>u. Inr (Some (scanUser u), d)))
     else
       andthen (audit_user E ''user.disabled'' a uid
         (revoke_user uid now (set_status (may_disable uid d) ''disabled'' now d))) (\<lambda>d1.
       Inr (None, d1)))"

definition may_enable :: "string \<Rightarrow> user_row \<Rightarrow> bool" where
  "may_enable uid u \<longleftrightarrow> u_id u = uid \<and> u_status u = ''disabled''"

definition enable_tx ::
  "user_env \<Rightarrow> time \<Rightarrow> principal \<Rightarrow> string \<Rightarrow> db \<Rightarrow> user_error + (user_view option \<times> db)" where
  "enable_tx E now a uid d =
     andthen (authorizeWrite now a d) (\<lambda>_.
     if sql_affected (may_enable uid) (users d) \<noteq> 1 then
       andthen (from_option ErrUserNotFound (user_by_id uid d)) (\<lambda>u.
       if u_status u = ''active'' then Inr (Some (scanUser u), d) else Inl ErrUserNotFound)
     else
       andthen (audit_user E ''user.enabled'' a uid (set_status (may_enable uid) ''active'' now d)) (\<lambda>d1.
       Inr (None, d1)))"

text \<open>\<open>finish_status\<close>: the no-op view, or the re-read after the commit.\<close>

definition finish_status ::
  "principal option \<Rightarrow> string \<Rightarrow> (user_error + user_view option) \<times> db \<Rightarrow> (user_error + user_view) \<times> db" where
  "finish_status admin uid r =
    (case r of (Inl e, d) \<Rightarrow> (Inl e, d)
     | (Inr (Some v), d) \<Rightarrow> (Inr v, d)
     | (Inr None, d) \<Rightarrow> (GetUserByID admin uid d, d))"

definition DisableUser ::
  "user_env \<Rightarrow> time \<Rightarrow> principal option \<Rightarrow> string \<Rightarrow> db \<Rightarrow> (user_error + user_view) \<times> db" where
  "DisableUser E now admin uid d =
    (case requireAdmin admin of Inl e \<Rightarrow> (Inl e, d)
     | Inr a \<Rightarrow> finish_status admin uid (in_tx (disable_tx E now a uid) d))"

definition EnableUser ::
  "user_env \<Rightarrow> time \<Rightarrow> principal option \<Rightarrow> string \<Rightarrow> db \<Rightarrow> (user_error + user_view) \<times> db" where
  "EnableUser E now admin uid d =
    (case requireAdmin admin of Inl e \<Rightarrow> (Inl e, d)
     | Inr a \<Rightarrow> finish_status admin uid (in_tx (enable_tx E now a uid) d))"

definition revoke_sessions_tx ::
  "user_env \<Rightarrow> time \<Rightarrow> principal \<Rightarrow> string \<Rightarrow> db \<Rightarrow> user_error + (nat \<times> db)" where
  "revoke_sessions_tx E now a uid d =
     andthen (authorizeWrite now a d) (\<lambda>_.
     andthen (audit_user E ''user.sessions.revoked'' a uid (revoke_user uid now d)) (\<lambda>d1.
     Inr (sql_affected (\<lambda>s. s_user s = uid \<and> s_revoked s = None) (sessions d), d1)))"

definition RevokeUserSessions ::
  "user_env \<Rightarrow> time \<Rightarrow> principal option \<Rightarrow> string \<Rightarrow> db \<Rightarrow> (user_error + nat) \<times> db" where
  "RevokeUserSessions E now admin uid d =
    (case andthen (requireAdmin admin) (\<lambda>a. andthen (GetUserByID admin uid d) (\<lambda>_. Inr a)) of
       Inl e \<Rightarrow> (Inl e, d)
     | Inr a \<Rightarrow> in_tx (revoke_sessions_tx E now a uid) d)"

section \<open>Deletion\<close>

text \<open>SQLite's \<open>LIKE\<close> on ASCII text: \<open>%\<close> any text, \<open>_\<close> one character, letters in either case.\<close>

fun sql_like :: "string \<Rightarrow> string \<Rightarrow> bool" where
  "sql_like [] s = (s = [])"
| "sql_like (p # ps) [] = (p = CHR ''%'' \<and> sql_like ps [])"
| "sql_like (p # ps) (c # cs) =
    (if p = CHR ''%'' then sql_like ps (c # cs) \<or> sql_like (p # ps) cs
     else (p = CHR ''_'' \<or> lower_char p = lower_char c) \<and> sql_like ps cs)"

definition may_delete :: "string \<Rightarrow> db \<Rightarrow> user_row \<Rightarrow> bool" where
  "may_delete uid d u \<longleftrightarrow> u_id u = uid \<and>
     (u_role u \<noteq> RoleAdmin \<or> 1 \<le> length (other_admins (u_id u) d))"

definition delete_user_tx ::
  "user_env \<Rightarrow> time \<Rightarrow> principal \<Rightarrow> string \<Rightarrow> db \<Rightarrow> user_error + (unit \<times> db)" where
  "delete_user_tx E now a uid d =
     andthen (authorizeWrite now a d) (\<lambda>_.
     if sql_affected (may_delete uid d) (users d) \<noteq> 1 then Inl ErrLastAdminProtected
     else
       let d1 = delete_user_row uid d;
           d2 = delete_item_rows (item_of_user uid) d1;
           d3 = d2\<lparr>idem := sql_delete (\<lambda>k. sql_like (''%:'' @ uid) (k_scope k)) (idem d2)\<rparr> in
       andthen (audit_user E ''user.deleted'' a uid d3) (\<lambda>d4. Inr ((), d4)))"

definition DeleteUser ::
  "user_env \<Rightarrow> time \<Rightarrow> principal option \<Rightarrow> string \<Rightarrow> string \<Rightarrow> db \<Rightarrow> (user_error + unit) \<times> db" where
  "DeleteUser E now admin uid confirm d =
    (case andthen (requireAdmin admin) (\<lambda>a.
          andthen (ensure (uid \<noteq> p_user a) ErrForbidden) (\<lambda>_.
          andthen (from_option ErrUserNotFound (user_by_id uid d)) (\<lambda>u.
          andthen (ensure (confirm = u_display u) ErrConfirmationMismatch) (\<lambda>_. Inr a)))) of
       Inl e \<Rightarrow> (Inl e, d)
     | Inr a \<Rightarrow> in_tx (delete_user_tx E now a uid) d)"

end
