(* ===== verification/Bootstrap.thy ===== *)
theory Bootstrap
  imports Users
begin

text \<open>
  \<open>internal/bootstrap\<close>: the setup token (\<open>token.go\<close>), the one-time initialization
  (\<open>service.go\<close>) and the readiness check of the master key (\<open>keys.go\<close>), with the key marker of
  \<open>platform/crypto/payload.go\<close>.
\<close>

section \<open>The key marker\<close>

definition markerDomain :: string where
  "markerDomain = ''tiny-password/master-key-verification/v1''"

definition Marker :: "(bytes \<Rightarrow> bytes \<Rightarrow> bytes) \<Rightarrow> bytes \<Rightarrow> string" where
  "Marker hmac key = base64_encode std_alphabet (hmac key (bytes_of markerDomain))"

definition VerifyMarker :: "(bytes \<Rightarrow> bytes \<Rightarrow> bytes) \<Rightarrow> bytes \<Rightarrow> string \<Rightarrow> bool" where
  "VerifyMarker hmac key marker =
    (case base64_decode std_alphabet marker of None \<Rightarrow> False
     | Some got \<Rightarrow> hmac key (bytes_of markerDomain) = got)"

lemma VerifyMarker_Marker: "VerifyMarker hmac key (Marker hmac key)"
  by (simp add: VerifyMarker_def Marker_def base64_roundtrip[OF std_alphabet_ok])

section \<open>The setup token\<close>

text \<open>A token holds the digest of its value; \<open>None\<close> after \<open>Destroy\<close>.  The service holds no token
  on an initialized instance.\<close>

type_synonym setup_token = "bytes option"

definition NewSetupToken :: "(bytes \<Rightarrow> bytes) \<Rightarrow> bytes \<Rightarrow> string \<times> setup_token" where
  "NewSetupToken sha raw =
    (let v = base64_encode url_alphabet raw in (v, Some (sha (bytes_of v))))"

definition Matches :: "(bytes \<Rightarrow> bytes) \<Rightarrow> setup_token option \<Rightarrow> string \<Rightarrow> bool" where
  "Matches sha t input =
    (case t of None \<Rightarrow> False | Some None \<Rightarrow> False | Some (Some dg) \<Rightarrow> sha (bytes_of input) = dg)"

definition Destroy :: "setup_token option \<Rightarrow> setup_token option" where
  "Destroy t = map_option (\<lambda>_. None) t"

section \<open>Initialization\<close>

datatype setup_error = ErrSetupTokenInvalid | ErrAlreadyInitialized | ErrSetupUsernameTaken
  | ErrSetupInvalidUsername | ErrMasterKeyUnavailable | ErrMasterKeyMismatch
  | SetupPassword password_error | SetupClaim idem_error | SetupSQL constraint_error | SetupLoad

record setup_env =
  se_sha256 :: "bytes \<Rightarrow> bytes"
  se_hmac :: "bytes \<Rightarrow> bytes \<Rightarrow> bytes"
  se_key :: "bytes option"
  se_argon :: argon2
  se_policy :: hash_policy
  se_ulow :: "string \<Rightarrow> string"
  se_audit :: audit_env
  se_idem :: idem_options

definition isInitialized :: "db \<Rightarrow> bool" where
  "isInitialized d = (kv_get ''initialized'' (sysstate d) = Some ''1'')"

text \<open>The state of the service is the database and its token.\<close>

record setup_state =
  st_db :: db
  st_token :: "setup_token option"

definition NewBootstrapService :: "(bytes \<Rightarrow> bytes) \<Rightarrow> bytes \<Rightarrow> db \<Rightarrow> setup_state" where
  "NewBootstrapService sha raw d =
    \<lparr>st_db = d, st_token = (if isInitialized d then None else Some (snd (NewSetupToken sha raw)))\<rparr>"

definition TokenRequired :: "setup_state \<Rightarrow> bool" where
  "TokenRequired s = (st_token s \<noteq> None)"

definition audit_failure :: "setup_env \<Rightarrow> db \<Rightarrow> db" where
  "audit_failure E d =
    (case Record (se_audit E) (mk_event ''setup.failure'' Anonymous '''' '''' ''failure'') d of
       Inl _ \<Rightarrow> d | Inr d' \<Rightarrow> d')"

record setup_input =
  in_token :: string
  in_username :: string
  in_password :: string
  in_claim :: "claim option"

definition first_admin :: "setup_env \<Rightarrow> string \<Rightarrow> string \<Rightarrow> string \<Rightarrow> time \<Rightarrow> user_row" where
  "first_admin E uid name hash now =
     \<lparr>u_id = uid, u_norm = to_lower (se_ulow E) name, u_display = name, u_role = RoleAdmin,
      u_status = ''active'', u_must_change = False, u_hash = hash, u_created = now,
      u_updated = now, u_idle = 15\<rparr>"

definition setup_audit_row :: "string \<Rightarrow> string \<Rightarrow> time \<Rightarrow> audit_row" where
  "setup_audit_row rid uid now =
     \<lparr>e_id = rid, e_event = ''setup.success'', e_actor = uid, e_ttype = ''user'', e_tid = uid,
      e_result = ''success'', e_req = '''', e_created = now, e_source = None,
      e_source_scope = None, e_target_scope = None\<rparr>"

definition initialize_tx ::
  "setup_env \<Rightarrow> time \<Rightarrow> bytes \<Rightarrow> setup_input \<Rightarrow> string \<Rightarrow> string \<Rightarrow> string \<Rightarrow> db \<Rightarrow>
   setup_error + (string \<times> db)" where
  "initialize_tx E now key i uid rid hash d =
    (if kv_get ''initialized'' (sysstate d) \<noteq> Some ''0'' then Inl ErrAlreadyInitialized
     else
       let d1 = d\<lparr>sysstate := kv_put ''initialized'' ''1'' (sysstate d)\<rparr> in
       case insert_user (first_admin E uid (in_username i) hash now) d1 of
         Inl _ \<Rightarrow> Inl ErrSetupUsernameTaken
       | Inr d2 \<Rightarrow>
           let d3 = d2\<lparr>sysstate := kv_put ''master_key_marker'' (Marker (se_hmac E) key) (sysstate d2)\<rparr> in
           andthen (from_option (SetupSQL UniqueViolation)
             (sql_insert e_id (setup_audit_row rid uid now) (audits d3))) (\<lambda>t.
           let d4 = d3\<lparr>audits := t\<rparr> in
           case in_claim i of None \<Rightarrow> Inr (uid, d4)
           | Some cl \<Rightarrow>
               andthen (map_err SetupClaim (Complete (se_idem E) now cl uid (idem d4))) (\<lambda>it.
               Inr (uid, d4\<lparr>idem := it\<rparr>))))"

text \<open>The checks before the transaction, on the state that the request sees then.\<close>

definition setup_check ::
  "setup_env \<Rightarrow> setup_input \<Rightarrow> bytes option \<Rightarrow> setup_state \<Rightarrow> (setup_error + (bytes \<times> string)) \<times> setup_state" where
  "setup_check E i salt s =
    (if isInitialized (st_db s) then (Inl ErrAlreadyInitialized, s)
     else case se_key E of None \<Rightarrow> (Inl ErrMasterKeyUnavailable, s)
     | Some key \<Rightarrow>
        if \<not> Matches (se_sha256 E) (st_token s) (in_token i) then
          (Inl ErrSetupTokenInvalid, s\<lparr>st_db := audit_failure E (st_db s)\<rparr>)
        else if \<not> valid_username (in_username i) then
          (Inl ErrSetupInvalidUsername, s\<lparr>st_db := audit_failure E (st_db s)\<rparr>)
        else (case ValidateNewPassword (in_password i) of
            Inl e \<Rightarrow> (Inl (SetupPassword e), s\<lparr>st_db := audit_failure E (st_db s)\<rparr>)
          | Inr _ \<Rightarrow>
             (case Hash (se_argon E) (se_policy E) salt (in_password i) of
                Inl e \<Rightarrow> (Inl (SetupPassword e), s)
              | Inr h \<Rightarrow> (Inr (key, h), s))))"

definition setup_commit ::
  "setup_env \<Rightarrow> time \<Rightarrow> setup_input \<Rightarrow> string \<Rightarrow> string \<Rightarrow> bytes \<times> string \<Rightarrow> setup_state \<Rightarrow>
   (setup_error + (string \<times> string)) \<times> setup_state" where
  "setup_commit E now i uid rid kh s =
    (case in_tx (initialize_tx E now (fst kh) i uid rid (snd kh)) (st_db s) of
       (Inl e, d) \<Rightarrow> (Inl e, s\<lparr>st_db := d\<rparr>)
     | (Inr u, d) \<Rightarrow> (Inr (u, in_username i), s\<lparr>st_db := d, st_token := Destroy (st_token s)\<rparr>))"

definition Initialize ::
  "setup_env \<Rightarrow> time \<Rightarrow> setup_input \<Rightarrow> bytes option \<Rightarrow> string \<Rightarrow> string \<Rightarrow> setup_state \<Rightarrow>
   (setup_error + (string \<times> string)) \<times> setup_state" where
  "Initialize E now i salt uid rid s =
    (case setup_check E i salt s of
       (Inl e, s1) \<Rightarrow> (Inl e, s1)
     | (Inr kh, s1) \<Rightarrow> setup_commit E now i uid rid kh s1)"

definition UsernameByID :: "string \<Rightarrow> db \<Rightarrow> string option" where
  "UsernameByID uid d = map_option u_display (user_by_id uid d)"

text \<open>The readiness check; the key is what loading gave.\<close>

definition MasterKeyCheck ::
  "(bytes \<Rightarrow> bytes \<Rightarrow> bytes) \<Rightarrow> bool \<Rightarrow> bytes option \<Rightarrow> db \<Rightarrow> setup_error + unit" where
  "MasterKeyCheck hmac loadFailed key d =
    (if loadFailed then Inl SetupLoad
     else case key of None \<Rightarrow> Inl ErrMasterKeyUnavailable
     | Some k \<Rightarrow>
        (case kv_get ''master_key_marker'' (sysstate d) of
           None \<Rightarrow> if isInitialized d then Inl ErrMasterKeyMismatch else Inr ()
         | Some m \<Rightarrow> if VerifyMarker hmac k m then Inr () else Inl ErrMasterKeyMismatch))"

end
