(* ===== verification/Accounts.thy ===== *)
theory Accounts
  imports Bootstrap
begin

text \<open>
  What every operation of \<open>auth\<close>, \<open>users\<close> and \<open>bootstrap\<close> may do to the user and session tables:
  the \<open>edit\<close> relation lists the kinds of change, the lemmas show each transaction to be a
  sequence of edits, and the invariants are proved once for the edits.
\<close>

section \<open>The invariant of the accounts\<close>

definition session_ok :: "db \<Rightarrow> session_row \<Rightarrow> bool" where
  "session_ok d s \<longleftrightarrow> s_user s \<in> user_ids d \<and> s_abs s = s_created s + AbsoluteLifetime \<and> s_idle s \<le> s_abs s"

definition account_inv :: "db \<Rightarrow> bool" where
  "account_inv d \<longleftrightarrow> distinct (map u_id (users d)) \<and> distinct (map s_id (sessions d)) \<and>
     distinct (map s_public (sessions d)) \<and> (\<forall>u \<in> set (users d). user_check u) \<and>
     (\<forall>s \<in> set (sessions d). session_ok d s)"

definition keeps_user :: "(user_row \<Rightarrow> user_row) \<Rightarrow> bool" where
  "keeps_user f \<longleftrightarrow> (\<forall>u. u_id (f u) = u_id u \<and> u_role (f u) = u_role u \<and> (user_check u \<longrightarrow> user_check (f u)))"

definition keeps_session :: "(session_row \<Rightarrow> session_row) \<Rightarrow> bool" where
  "keeps_session g \<longleftrightarrow> (\<forall>s. s_id (g s) = s_id s \<and> s_public (g s) = s_public s \<and> s_user (g s) = s_user s \<and>
     s_created (g s) = s_created s \<and> s_abs (g s) = s_abs s \<and>
     (s_idle s \<le> s_abs s \<longrightarrow> s_idle (g s) \<le> s_abs s) \<and> (s_revoked s \<noteq> None \<longrightarrow> s_revoked (g s) \<noteq> None))"

inductive edit :: "string set \<Rightarrow> db \<Rightarrow> db \<Rightarrow> bool" for M where
  other: "users d' = users d \<Longrightarrow> sessions d' = sessions d \<Longrightarrow> edit M d d'"
| modify_users: "keeps_user f \<Longrightarrow> users d' = sql_update p f (users d) \<Longrightarrow> sessions d' = sessions d \<Longrightarrow> edit M d d'"
| add_user: "users d' = users d @ [u] \<Longrightarrow> sessions d' = sessions d \<Longrightarrow> user_check u \<Longrightarrow> u_id u \<notin> user_ids d \<Longrightarrow>
     edit M d d'"
| modify_sessions: "keeps_session g \<Longrightarrow> users d' = users d \<Longrightarrow> sessions d' = sql_update p g (sessions d) \<Longrightarrow> edit M d d'"
| add_session: "users d' = users d \<Longrightarrow> sessions d' = sessions d @ [s] \<Longrightarrow> session_ok d s \<Longrightarrow> s_id s \<in> M \<Longrightarrow>
     s_id s \<notin> s_id ` set (sessions d) \<Longrightarrow> s_public s \<notin> s_public ` set (sessions d) \<Longrightarrow> edit M d d'"
| drop_sessions: "users d' = users d \<Longrightarrow> sessions d' = sql_delete p (sessions d) \<Longrightarrow> edit M d d'"
| drop_user: "users d' = sql_delete (\<lambda>u. u_id u = uid) (users d) \<Longrightarrow>
     sessions d' = sql_delete (\<lambda>s. s_user s = uid) (sessions d) \<Longrightarrow> edit M d d'"

lemma session_ok_cong: "user_ids d = user_ids d' \<Longrightarrow> session_ok d s = session_ok d' s"
  by (simp add: session_ok_def)

lemma user_ids_update: "keeps_user f \<Longrightarrow> users d' = sql_update p f (users d) \<Longrightarrow> user_ids d' = user_ids d"
  by (simp add: user_ids_def map_sql_update keeps_user_def flip: set_map)

lemma edit_inv: "edit M d d' \<Longrightarrow> account_inv d \<Longrightarrow> account_inv d'"
proof (induction rule: edit.induct)
  case (other d' d)
  then show ?case by (auto simp: account_inv_def session_ok_def user_ids_def)
next
  case (modify_users f d' p d)
  note ids = user_ids_update[OF modify_users(1,2)]
  have "map u_id (users d') = map u_id (users d)"
    using modify_users(1,2) by (simp add: map_sql_update keeps_user_def)
  moreover have "\<forall>u \<in> set (users d'). user_check u"
    using modify_users(1,2,4) by (auto simp: account_inv_def sql_simps keeps_user_def)
  ultimately show ?case using modify_users(3,4) ids by (auto simp: account_inv_def session_ok_def)
next
  case (add_user d' d u)
  then show ?case by (auto simp: account_inv_def session_ok_def user_ids_def)
next
  case (modify_sessions g d' d p)
  have "map s_id (sessions d') = map s_id (sessions d)" "map s_public (sessions d') = map s_public (sessions d)"
    using modify_sessions(1,3) by (simp_all add: map_sql_update keeps_session_def)
  moreover have "session_ok d' s" if s: "s \<in> set (sessions d')" for s
  proof -
    from s modify_sessions(3) obtain r where r: "r \<in> set (sessions d)" "s = (if p r then g r else r)"
      by (auto simp: sql_simps)
    with modify_sessions(4) have "session_ok d r" by (simp add: account_inv_def)
    with r(2) modify_sessions(1,2) show ?thesis
      by (auto simp: session_ok_def keeps_session_def user_ids_def)
  qed
  ultimately show ?case using modify_sessions(2,4) by (simp add: account_inv_def)
next
  case (add_session d' d s)
  then show ?case by (auto simp: account_inv_def session_ok_def user_ids_def)
next
  case (drop_sessions d' d p)
  then show ?case by (auto simp: account_inv_def session_ok_def user_ids_def sql_simps distinct_sql_delete)
next
  case (drop_user d' uid d)
  then show ?case by (auto simp: account_inv_def session_ok_def user_ids_def sql_simps distinct_sql_delete)
qed

text \<open>A session that is dead for good: revoked, or gone.\<close>

definition dead_token :: "string \<Rightarrow> db \<Rightarrow> bool" where
  "dead_token k d \<longleftrightarrow> (\<forall>s \<in> set (sessions d). s_id s = k \<longrightarrow> s_revoked s \<noteq> None)"

lemma edit_dead_token: "edit M d d' \<Longrightarrow> k \<notin> M \<Longrightarrow> dead_token k d \<Longrightarrow> dead_token k d'"
proof (induction rule: edit.induct)
  case (modify_sessions g d' d p)
  then show ?case by (auto simp: dead_token_def sql_simps keeps_session_def split: if_splits)
qed (auto simp: dead_token_def sql_simps)

lemma edits_inv: "(edit M)\<^sup>*\<^sup>* d d' \<Longrightarrow> account_inv d \<Longrightarrow> account_inv d'"
  by (induction rule: rtranclp_induct) (auto intro: edit_inv)

lemma edits_dead_token: "(edit M)\<^sup>*\<^sup>* d d' \<Longrightarrow> k \<notin> M \<Longrightarrow> dead_token k d \<Longrightarrow> dead_token k d'"
  by (induction rule: rtranclp_induct) (auto intro: edit_dead_token)

section \<open>The operations as edits\<close>

lemma edits_refl: "users d' = users d \<Longrightarrow> sessions d' = sessions d \<Longrightarrow> (edit M)\<^sup>*\<^sup>* d d'"
  by (rule r_into_rtranclp) (rule edit.other)

lemma auditRecord_InrD:
  "auditRecord E e d = Inr d' \<Longrightarrow> users d' = users d \<and> sessions d' = sessions d \<and> items d' = items d
     \<and> versions d' = versions d \<and> sysstate d' = sysstate d"
  by (auto simp: auditRecord_def map_err_Inr dest: Record_frame split: option.splits)

lemma auditStandalone_frame:
  "users (auditStandalone E e d) = users d \<and> sessions (auditStandalone E e d) = sessions d"
  by (auto simp: auditStandalone_def dest: auditRecord_InrD split: sum.splits)

lemma reserve_frame:
  "reserveAttempt E now u s d = (r, d') \<Longrightarrow> users d' = users d \<and> sessions d' = sessions d"
  unfolding reserveAttempt_def
  by (erule in_tx_cases) (auto simp: reserve_body_def Let_def split: if_splits)

lemma login_check_frame:
  "login_check E u pw salt d = (r, d') \<Longrightarrow> users d' = users d \<and> sessions d' = sessions d"
  using auditStandalone_frame[of E _ d]
  by (auto simp: login_check_def Let_def split: if_splits option.splits sum.splits)

lemma login_begin_frame:
  "login_begin E now u pw src salt d = (r, d') \<Longrightarrow> users d' = users d \<and> sessions d' = sessions d"
  by (auto simp: login_begin_def Let_def dest!: reserve_frame login_check_frame split: prod.splits sum.splits)

lemma change_begin_frame:
  "change_begin E now tok cur new src salt d = (r, d') \<Longrightarrow> users d' = users d \<and> sessions d' = sessions d"
  by (auto simp: change_begin_def dest!: reserve_frame split: prod.splits sum.splits)

lemma keeps_user_simps:
  "keeps_user (\<lambda>u. u\<lparr>u_hash := h, u_updated := t\<rparr>)"
  "keeps_user (\<lambda>u. u\<lparr>u_hash := h, u_must_change := b, u_updated := t\<rparr>)"
  "5 \<le> m \<Longrightarrow> m \<le> 30 \<Longrightarrow> keeps_user (\<lambda>u. u\<lparr>u_idle := m, u_updated := t\<rparr>)"
  "st \<in> {''active'', ''disabled''} \<Longrightarrow> keeps_user (\<lambda>u. u\<lparr>u_status := st, u_updated := t\<rparr>)"
  by (auto simp: keeps_user_def user_check_def)

lemma keeps_session_simps:
  "keeps_session (\<lambda>s. s\<lparr>s_revoked := Some t\<rparr>)"
  "(\<And>s. x s \<le> s_abs s) \<Longrightarrow> keeps_session (\<lambda>s. s\<lparr>s_idle := x s\<rparr>)"
  by (simp_all add: keeps_session_def)

lemma revoke_edit:
  "users d' = users d \<Longrightarrow> sessions d' = sessions (revoke_where p t d) \<Longrightarrow> edit M d d'"
  by (rule edit.modify_sessions[OF keeps_session_simps(1)]) (simp_all add: revoke_where_def)

lemma idle_in_lifetime: "user_check u \<Longrightarrow> u_idle u * minute_ns \<le> AbsoluteLifetime"
  by (simp add: user_check_def AbsoluteLifetime_def duration_defs)

lemma account_inv_user:
  "account_inv d \<Longrightarrow> user_by_id uid d = Some u \<Longrightarrow> u \<in> set (users d) \<and> u_id u = uid \<and> user_check u"
  by (auto simp: account_inv_def user_by_id_def dest: user_table.get_SomeD)

text \<open>The insert of a login and the correction of its expiry are one new session.\<close>

lemma set_idle_new:
  "k \<notin> s_id ` set t \<Longrightarrow> sql_update (\<lambda>s. s_id s = k) f (t @ [r]) = t @ [if s_id r = k then f r else r]"
  by (induction t) (auto simp: sql_update_def)

lemma login_insert_InrD:
  assumes "login_insert E now tk token pub d = Inr d'"
  obtains u where "filter (may_login tk (lt_session_hash tk)) (users d) = [u]"
    and "u \<in> set (users d)" and "may_login tk (lt_session_hash tk) u"
    and "insert_session (new_session_row E token pub (u_id u) now (lt_idle tk)) d = Inr d'"
proof -
  from assms obtain u where f: "filter (may_login tk (lt_session_hash tk)) (users d) = [u]"
    and i: "insert_session (new_session_row E token pub (u_id u) now (lt_idle tk)) d = Inr d'"
    by (auto simp: login_insert_def map_err_Inr split: list.splits)
  from f have "u \<in> set (filter (may_login tk (lt_session_hash tk)) (users d))" by simp
  then have "u \<in> set (users d)" "may_login tk (lt_session_hash tk) u" by simp_all
  with f i that show thesis by blast
qed

lemma login_rehash_InrD:
  "login_rehash now tk d = Inr d' \<Longrightarrow> edit M d d' \<and> sessions d' = sessions d"
  by (auto simp: login_rehash_def split: if_splits
      intro: edit.other edit.modify_users[OF keeps_user_simps(1)])

lemma login_tx_shape:
  assumes inv: "account_inv d" and tx: "login_tx E now tk token pub d = Inr (x, d')"
  obtains d1 u where "login_rehash now tk d = Inr d1" and "user_by_id (lt_id tk) d1 = Some u"
    and "may_login tk (lt_session_hash tk) u"
    and "users d' = users d1"
    and "sessions d' = sessions d @ [new_session_row E token pub (u_id u) now (u_idle u)]"
    and "digest E token \<notin> s_id ` set (sessions d)" and "pub \<notin> s_public ` set (sessions d)"
    and "x = (token, principal_of u (new_session_row E token pub (u_id u) now (u_idle u)))"
proof -
  from tx obtain d1 d2 u where rh: "login_rehash now tk d = Inr d1"
    and ins: "login_insert E now tk token pub d1 = Inr d2"
    and u: "user_by_id (lt_id tk) d2 = Some u"
    and aud: "auditRecord E (mk_event ''auth.login.success'' (lt_id tk) ''session'' pub ''success'')
        (set_idle_expiry (digest E token) (now + u_idle u * minute_ns) d2) = Inr d'"
    and x: "x = (token, principal_of u (new_session_row E token pub (u_id u) now (u_idle u)))"
    by (auto simp: login_tx_def Let_def result_Inr)
  have e: "edit {} d d1" "sessions d1 = sessions d" using login_rehash_InrD[OF rh] by blast+
  have inv1: "account_inv d1" by (rule edit_inv[OF e(1) inv])
  from ins obtain w where w: "w \<in> set (users d1)" "may_login tk (lt_session_hash tk) w"
    and i: "insert_session (new_session_row E token pub (u_id w) now (lt_idle tk)) d1 = Inr d2"
    by (rule login_insert_InrD)
  from insert_session_InrD[OF i] have d2: "users d2 = users d1"
    "sessions d2 = sessions d1 @ [new_session_row E token pub (u_id w) now (lt_idle tk)]"
    and fresh: "digest E token \<notin> s_id ` set (sessions d1)" "pub \<notin> s_public ` set (sessions d1)"
    by (auto simp: new_session_row_def)
  have u1: "user_by_id (lt_id tk) d1 = Some u" using u d2(1) by (simp add: user_by_id_def)
  have "u = w"
    using account_inv_user[OF inv1 u1] w inv1 distinct_key_unique[of u_id "users d1" u w]
    by (simp add: account_inv_def may_login_def)
  have "sessions (set_idle_expiry (digest E token) (now + u_idle u * minute_ns) d2)
      = sessions d @ [new_session_row E token pub (u_id u) now (u_idle u)]"
    using set_idle_new[OF fresh(1)] d2(2) e(2) \<open>u = w\<close>
    by (simp add: set_idle_expiry_def new_session_row_def)
  with auditRecord_InrD[OF aud] have "sessions d' = sessions d @ [new_session_row E token pub (u_id u) now (u_idle u)]"
    and "users d' = users d1"
    using d2(1) by (simp_all add: set_idle_expiry_def)
  with that rh u1 w(2) fresh x e(2) \<open>u = w\<close> show thesis by simp
qed

lemma new_session_ok:
  "user_check u \<Longrightarrow> uid \<in> user_ids d \<Longrightarrow> session_ok d (new_session_row E token pub uid now (u_idle u))"
  using idle_in_lifetime[of u] by (simp add: session_ok_def new_session_row_def)

lemma login_tx_edits:
  assumes inv: "account_inv d" and tx: "login_tx E now tk token pub d = Inr (x, d')" and M: "digest E token \<in> M"
  shows "(edit M)\<^sup>*\<^sup>* d d'"
proof -
  from inv tx obtain d1 u where rh: "login_rehash now tk d = Inr d1" and u: "user_by_id (lt_id tk) d1 = Some u"
    and d': "users d' = users d1" "sessions d' = sessions d @ [new_session_row E token pub (u_id u) now (u_idle u)]"
    and fresh: "digest E token \<notin> s_id ` set (sessions d)" "pub \<notin> s_public ` set (sessions d)"
    by (rule login_tx_shape)
  have e: "edit M d d1" "sessions d1 = sessions d" using login_rehash_InrD[OF rh] by blast+
  from account_inv_user[OF edit_inv[OF e(1) inv] u]
  have "session_ok d1 (new_session_row E token pub (u_id u) now (u_idle u))"
    by (intro new_session_ok) (auto simp: user_ids_def intro: rev_image_eqI)
  with d' fresh e(2) M have "edit M d1 d'"
    by (intro edit.add_session[where s = "new_session_row E token pub (u_id u) now (u_idle u)"])
      (simp_all add: new_session_row_def)
  with e(1) show ?thesis by (meson r_into_rtranclp rtranclp.rtrancl_into_rtrancl)
qed

lemma change_tx_shape:
  assumes inv: "account_inv d" and tx: "change_tx E now token tk new_token pub d = Inr (x, d')"
  obtains d2 u where
      "users d2 = sql_update (may_change E now token tk d)
        (\<lambda>u. u\<lparr>u_hash := ct_new tk, u_must_change := False, u_updated := now\<rparr>) (users d)"
    and "sessions d2 = sessions (revoke_where (\<lambda>s. s_user s = p_user (ct_principal tk)) now d)"
    and "user_by_id (p_user (ct_principal tk)) d2 = Some u"
    and "users d' = users d2"
    and "sessions d' = sessions d2 @ [new_session_row E new_token pub (p_user (ct_principal tk)) now (u_idle u)]"
    and "digest E new_token \<notin> s_id ` set (sessions d)" and "pub \<notin> s_public ` set (sessions d)"
    and "sql_affected (may_change E now token tk d) (users d) = 1" and "fst x = new_token"
proof -
  let ?uid = "p_user (ct_principal tk)"
  define d1 where "d1 = d\<lparr>users := sql_update (may_change E now token tk d)
    (\<lambda>u. u\<lparr>u_hash := ct_new tk, u_must_change := False, u_updated := now\<rparr>) (users d)\<rparr>"
  define d2 where "d2 = revoke_where (\<lambda>s. s_user s = ?uid) now d1"
  from tx obtain u d3 where one: "sql_affected (may_change E now token tk d) (users d) = 1"
    and u: "user_by_id ?uid d2 = Some u"
    and ins: "insert_session (new_session_row E new_token pub ?uid now (u_idle u)) d2 = Inr d3"
    and aud: "auditRecord E (mk_event ''auth.password.changed'' ?uid ''user'' ?uid ''success'') d3 = Inr d'"
    and x: "fst x = new_token"
    by (auto simp: change_tx_def Let_def result_Inr d1_def d2_def)
  have keys: "map s_id (sessions d2) = map s_id (sessions d)" "map s_public (sessions d2) = map s_public (sessions d)"
    by (simp_all add: d2_def d1_def revoke_where_def map_sql_update)
  then have fresh: "digest E new_token \<notin> s_id ` set (sessions d)" "pub \<notin> s_public ` set (sessions d)"
    using insert_session_InrD[OF ins] by (auto simp: new_session_row_def simp flip: set_map)
  have "users d' = users d2"
    "sessions d' = sessions d2 @ [new_session_row E new_token pub ?uid now (u_idle u)]"
    using insert_session_InrD[OF ins] auditRecord_InrD[OF aud] by simp_all
  moreover have "users d2 = sql_update (may_change E now token tk d)
      (\<lambda>u. u\<lparr>u_hash := ct_new tk, u_must_change := False, u_updated := now\<rparr>) (users d)"
    "sessions d2 = sessions (revoke_where (\<lambda>s. s_user s = ?uid) now d)"
    by (simp_all add: d2_def d1_def revoke_where_def)
  ultimately show thesis using that[of d2 u] u one x fresh by blast
qed

lemma change_tx_edits:
  assumes inv: "account_inv d" and tx: "change_tx E now token tk new_token pub d = Inr (x, d')"
    and M: "digest E new_token \<in> M"
  shows "(edit M)\<^sup>*\<^sup>* d d'"
proof -
  from inv tx obtain d2 u where users2: "users d2 = sql_update (may_change E now token tk d)
        (\<lambda>u. u\<lparr>u_hash := ct_new tk, u_must_change := False, u_updated := now\<rparr>) (users d)"
    and sess2: "sessions d2 = sessions (revoke_where (\<lambda>s. s_user s = p_user (ct_principal tk)) now d)"
    and u: "user_by_id (p_user (ct_principal tk)) d2 = Some u"
    and d': "users d' = users d2"
      "sessions d' = sessions d2 @ [new_session_row E new_token pub (p_user (ct_principal tk)) now (u_idle u)]"
    and fresh: "digest E new_token \<notin> s_id ` set (sessions d)" "pub \<notin> s_public ` set (sessions d)"
    by (rule change_tx_shape) blast
  define d1 where "d1 = d\<lparr>users := users d2\<rparr>"
  have e1: "edit M d d1"
    by (rule edit.modify_users[OF keeps_user_simps(2)]) (simp_all add: d1_def users2)
  have e2: "edit M d1 d2"
    by (rule edit.modify_sessions[OF keeps_session_simps(1)])
      (simp_all add: d1_def sess2 revoke_where_def)
  have keys: "s_id ` set (sessions d2) = s_id ` set (sessions d)"
    "s_public ` set (sessions d2) = s_public ` set (sessions d)"
    unfolding set_map[symmetric] by (simp_all add: sess2 revoke_where_def map_sql_update del: set_map)
  from account_inv_user[OF edit_inv[OF e2 edit_inv[OF e1 inv]] u]
  have "session_ok d2 (new_session_row E new_token pub (p_user (ct_principal tk)) now (u_idle u))"
    by (intro new_session_ok) (auto simp: user_ids_def intro: rev_image_eqI)
  with d' fresh keys M have "edit M d2 d'"
    by (intro edit.add_session[where s = "new_session_row E new_token pub (p_user (ct_principal tk)) now (u_idle u)"])
      (simp_all add: new_session_row_def)
  with e1 e2 show ?thesis by (meson r_into_rtranclp rtranclp.rtrancl_into_rtrancl)
qed

lemma Touch_edits: "Touch E now token d = (r, d') \<Longrightarrow> edit M d d'"
  by (rule edit.modify_sessions[where p = "touch_row E now token d", OF
        keeps_session_simps(2)[of "\<lambda>s. min (s_abs s) (ae_sqltime E now
          (case user_by_id (s_user s) d of None \<Rightarrow> 0 | Some u \<Rightarrow> u_idle u))"]])
    (auto simp: Touch_def Let_def)

lemma logout_tx_InrD:
  "logout_tx E now token d = Inr (x, d') \<Longrightarrow>
     users d' = users d \<and> sessions d' = sessions (revoke_where (\<lambda>s. s_id s = digest E token) now d)"
  by (auto simp: logout_tx_def Let_def result_Inr revoke_where_def dest: auditRecord_InrD split: option.splits)

lemma logout_tx_edits: "logout_tx E now token d = Inr (x, d') \<Longrightarrow> edit M d d'"
  by (drule logout_tx_InrD) (auto intro: revoke_edit)

lemma revoke_tx_InrD:
  "revoke_tx E now token pub d = Inr (x, d') \<Longrightarrow>
     \<exists>c. find (touch_row E now token d) (sessions d) = Some c \<and> users d' = users d \<and>
       sessions d' = sessions (revoke_where (\<lambda>s. s_public s = pub \<and> s_user s = s_user c) now d)"
  by (auto simp: revoke_tx_def Let_def result_Inr revoke_where_def dest: auditRecord_InrD
      split: option.splits if_splits)

lemma revoke_tx_edits: "revoke_tx E now token pub d = Inr (x, d') \<Longrightarrow> edit M d d'"
  by (drule revoke_tx_InrD) (auto intro: revoke_edit)

lemma set_idle_tx_edits:
  assumes "set_idle_tx E now token m d = Inr (x, d')" and "5 \<le> m" and "m \<le> 30"
  shows "(edit M)\<^sup>*\<^sup>* d d'"
proof -
  define d1 where "d1 = d\<lparr>users := sql_update (idle_row E now token d)
    (\<lambda>u. u\<lparr>u_idle := m, u_updated := now\<rparr>) (users d)\<rparr>"
  have "edit M d d1" by (rule edit.modify_users[OF keeps_user_simps(3)[OF assms(2,3)]]) (simp_all add: d1_def)
  moreover have "edit M d1 d'"
    by (rule edit.modify_sessions[OF keeps_session_simps(2)[of "\<lambda>s. min (min (s_idle s) (s_abs s)) (ae_sqltime E now m)"]])
      (use assms(1) in \<open>auto simp: set_idle_tx_def Let_def result_Inr d1_def\<close>)
  ultimately show ?thesis by (meson r_into_rtranclp rtranclp.rtrancl_into_rtrancl)
qed

lemma CleanupExpiredSessions_edits: "edit M d (fst (CleanupExpiredSessions now d))"
  by (rule edit.drop_sessions) (simp_all add: CleanupExpiredSessions_def)

section \<open>Member administration and setup as edits\<close>

lemma audit_user_InrD:
  "audit_user E n a t d = Inr d' \<Longrightarrow> users d' = users d \<and> sessions d' = sessions d \<and> items d' = items d
     \<and> versions d' = versions d \<and> idem d' = idem d \<and> sysstate d' = sysstate d"
  by (auto simp: audit_user_def map_err_Inr dest: Record_frame)

lemma complete_user_claim_InrD:
  "complete_user_claim E now c r d = Inr d' \<Longrightarrow> users d' = users d \<and> sessions d' = sessions d"
  by (auto simp: complete_user_claim_def split: option.splits sum.splits)

lemma create_user_tx_InrD:
  assumes "create_user_tx E now a uid name hash c d = Inr (v, d')"
  shows "users d' = users d @ [new_member E uid name hash now] \<and> sessions d' = sessions d
    \<and> user_check (new_member E uid name hash now) \<and> uid \<notin> user_ids d"
  using assms
  by (auto simp: create_user_tx_def result_Inr new_member_def
      dest!: insert_user_InrD audit_user_InrD complete_user_claim_InrD)

lemma create_user_tx_edits: "create_user_tx E now a uid name hash c d = Inr (v, d') \<Longrightarrow> edit M d d'"
  by (drule create_user_tx_InrD) (auto intro!: edit.add_user simp: new_member_def)

lemma disable_tx_InrD:
  assumes "disable_tx E now a uid d = Inr (v, d')"
  shows "(\<exists>u. v = Some u) \<and> d' = d \<or> v = None \<and> sql_affected (may_disable uid d) (users d) = 1
    \<and> users d' = users (set_status (may_disable uid d) ''disabled'' now d)
    \<and> sessions d' = sessions (revoke_user uid now d)"
  using assms
  by (auto simp: disable_tx_def result_Inr revoke_user_def revoke_where_def set_status_def
      dest!: audit_user_InrD split: if_splits)

lemma disable_tx_edits:
  assumes "disable_tx E now a uid d = Inr (v, d')"
  shows "(edit M)\<^sup>*\<^sup>* d d'"
proof (cases "d' = d")
  case False
  with disable_tx_InrD[OF assms] have d': "users d' = users (set_status (may_disable uid d) ''disabled'' now d)"
    "sessions d' = sessions (revoke_user uid now d)" by auto
  define d1 where "d1 = set_status (may_disable uid d) ''disabled'' now d"
  have "edit M d d1"
    by (rule edit.modify_users[OF keeps_user_simps(4)]) (simp_all add: d1_def set_status_def)
  moreover have "edit M d1 d'"
    by (rule revoke_edit[where p = "\<lambda>s. s_user s = uid" and t = now])
      (simp_all add: d' d1_def revoke_user_def revoke_where_def set_status_def)
  ultimately show ?thesis by (meson r_into_rtranclp rtranclp.rtrancl_into_rtrancl)
qed simp

lemma enable_tx_InrD:
  assumes "enable_tx E now a uid d = Inr (v, d')"
  shows "d' = d \<or> users d' = users (set_status (may_enable uid) ''active'' now d) \<and> sessions d' = sessions d"
  using assms by (auto simp: enable_tx_def result_Inr set_status_def dest!: audit_user_InrD split: if_splits)

lemma enable_tx_edits: "enable_tx E now a uid d = Inr (v, d') \<Longrightarrow> edit M d d'"
  by (drule enable_tx_InrD)
    (auto intro: edit.other edit.modify_users[OF keeps_user_simps(4)] simp: set_status_def)

lemma revoke_sessions_tx_InrD:
  "revoke_sessions_tx E now a uid d = Inr (n, d') \<Longrightarrow>
     users d' = users d \<and> sessions d' = sessions (revoke_user uid now d)"
  by (auto simp: revoke_sessions_tx_def result_Inr revoke_user_def revoke_where_def dest!: audit_user_InrD)

lemma revoke_sessions_tx_edits: "revoke_sessions_tx E now a uid d = Inr (n, d') \<Longrightarrow> edit M d d'"
  by (drule revoke_sessions_tx_InrD) (auto intro: revoke_edit simp: revoke_user_def)

lemma delete_user_tx_InrD:
  assumes "delete_user_tx E now a uid d = Inr (x, d')"
  shows "users d' = sql_delete (\<lambda>u. u_id u = uid) (users d) \<and>
    sessions d' = sql_delete (\<lambda>s. s_user s = uid) (sessions d) \<and>
    items d' = sql_delete (item_of_user uid) (items d) \<and>
    versions d' = sql_delete (\<lambda>v. v_item v \<in> it_id ` {r \<in> set (items d). item_of_user uid r}) (versions d) \<and>
    idem d' = sql_delete (\<lambda>k. sql_like (''%:'' @ uid) (k_scope k)) (idem d) \<and>
    sql_affected (may_delete uid d) (users d) = 1"
  using assms
  by (auto simp: delete_user_tx_def result_Inr Let_def delete_user_row_def delete_item_rows_def sql_delete_def
      dest!: audit_user_InrD split: if_splits)

lemma delete_user_tx_edits: "delete_user_tx E now a uid d = Inr (x, d') \<Longrightarrow> edit M d d'"
  by (drule delete_user_tx_InrD) (auto intro: edit.drop_user)

lemma initialize_tx_InrD:
  assumes "initialize_tx E now key i uid rid hash d = Inr (x, d')"
  shows "kv_get ''initialized'' (sysstate d) = Some ''0'' \<and> isInitialized d' \<and>
    kv_get ''master_key_marker'' (sysstate d') = Some (Marker (se_hmac E) key) \<and> x = uid \<and>
    users d' = users d @ [first_admin E uid (in_username i) hash now] \<and> sessions d' = sessions d \<and>
    user_check (first_admin E uid (in_username i) hash now) \<and> uid \<notin> user_ids d"
  using assms
  by (auto simp: initialize_tx_def Let_def result_Inr isInitialized_def user_ids_def first_admin_def
      dest!: insert_user_InrD split: if_splits option.splits sum.splits)

lemma initialize_tx_edits: "initialize_tx E now key i uid rid hash d = Inr (x, d') \<Longrightarrow> edit M d d'"
  by (drule initialize_tx_InrD) (auto intro!: edit.add_user simp: first_admin_def)

section \<open>Steps of the account operations\<close>

text \<open>
  Every transaction and every read-and-record part of the services, as one step; tickets,
  claims and arguments are arbitrary, so the relation contains all interleavings in which
  requests see stale data between their parts.  \<open>M\<close> bounds the credentials that the random
  generator hands out in the run.
\<close>

inductive account_step ::
  "auth_env \<Rightarrow> user_env \<Rightarrow> setup_env \<Rightarrow> string set \<Rightarrow> db \<Rightarrow> db \<Rightarrow> bool" for E U B M where
  login_begin: "login_begin E now u pw src salt d = (r1, d') \<Longrightarrow> account_step E U B M d d'"
| login_finish: "login_finish E now tk raw pub d = (r2, d') \<Longrightarrow>
     (\<forall>r. raw = Some r \<longrightarrow> digest E (session_token r) \<in> M) \<Longrightarrow> account_step E U B M d d'"
| change_begin: "change_begin E now tok cur new src salt d = (r3, d') \<Longrightarrow> account_step E U B M d d'"
| change_finish: "change_finish E now tok ct raw pub d = (r4, d') \<Longrightarrow>
     (\<forall>r. raw = Some r \<longrightarrow> digest E (session_token r) \<in> M) \<Longrightarrow> account_step E U B M d d'"
| touch: "Touch E now tok d = (r5, d') \<Longrightarrow> account_step E U B M d d'"
| logout: "Logout E now tok d = (r6, d') \<Longrightarrow> account_step E U B M d d'"
| revoke: "RevokeSession E now tok pub d = (r7, d') \<Longrightarrow> account_step E U B M d d'"
| idle_timeout: "SetIdleTimeout E now tok m d = (r8, d') \<Longrightarrow> account_step E U B M d d'"
| cleanup: "account_step E U B M d (fst (CleanupExpiredSessions now d))"
| sweep: "account_step E U B M d (fst (CleanupLoginAttempts now d))"
| create_user: "in_tx (create_user_tx U now a uid name hash c) d = (r9, d') \<Longrightarrow> account_step E U B M d d'"
| disable: "in_tx (disable_tx U now a uid) d = (r10, d') \<Longrightarrow> account_step E U B M d d'"
| enable: "in_tx (enable_tx U now a uid) d = (r11, d') \<Longrightarrow> account_step E U B M d d'"
| revoke_all: "in_tx (revoke_sessions_tx U now a uid) d = (r12, d') \<Longrightarrow> account_step E U B M d d'"
| delete_user: "in_tx (delete_user_tx U now a uid) d = (r13, d') \<Longrightarrow> account_step E U B M d d'"
| initialize: "in_tx (initialize_tx B now key i uid rid hash) d = (r14, d') \<Longrightarrow> account_step E U B M d d'"

lemma in_tx_edits:
  "in_tx body d = (r, d') \<Longrightarrow> (\<And>x t. body d = Inr (x, t) \<Longrightarrow> (edit M)\<^sup>*\<^sup>* d t) \<Longrightarrow> (edit M)\<^sup>*\<^sup>* d d'"
  by (erule in_tx_cases) auto

lemma account_step_edits:
  assumes "account_step E U B M d d'" and "account_inv d"
  shows "(edit M)\<^sup>*\<^sup>* d d'"
  using assms(1)
proof cases
  case login_begin
  then show ?thesis by (meson edits_refl login_begin_frame)
next
  case login_finish
  then show ?thesis
    using login_tx_edits[OF assms(2)] by (auto simp: login_finish_def split: option.splits elim!: in_tx_edits)
next
  case change_begin
  then show ?thesis by (meson edits_refl change_begin_frame)
next
  case change_finish
  then show ?thesis
    using change_tx_edits[OF assms(2)] by (auto simp: change_finish_def split: option.splits elim!: in_tx_edits)
next
  case touch
  then show ?thesis using Touch_edits by blast
next
  case logout
  then show ?thesis
    using logout_tx_edits by (fastforce simp: Logout_def split: if_splits elim!: in_tx_edits)
next
  case revoke
  then show ?thesis
    using revoke_tx_edits by (fastforce simp: RevokeSession_def split: if_splits elim!: in_tx_edits)
next
  case idle_timeout
  then show ?thesis
    using set_idle_tx_edits by (auto simp: SetIdleTimeout_def not_less split: if_splits elim!: in_tx_edits)
next
  case cleanup
  then show ?thesis using CleanupExpiredSessions_edits by blast
next
  case sweep
  then show ?thesis by (auto simp: CleanupLoginAttempts_def intro: edits_refl)
next
  case create_user
  from this(1) show ?thesis by (rule in_tx_edits) (use create_user_tx_edits in blast)
next
  case disable
  from this(1) show ?thesis by (rule in_tx_edits) (rule disable_tx_edits)
next
  case enable
  from this(1) show ?thesis by (rule in_tx_edits) (use enable_tx_edits in blast)
next
  case revoke_all
  from this(1) show ?thesis by (rule in_tx_edits) (use revoke_sessions_tx_edits in blast)
next
  case delete_user
  from this(1) show ?thesis by (rule in_tx_edits) (use delete_user_tx_edits in blast)
next
  case initialize
  from this(1) show ?thesis by (rule in_tx_edits) (use initialize_tx_edits in blast)
qed

interpretation account_system: invariant_system "account_step E U B M" account_inv for E U B M
  by unfold_locales (meson account_step_edits edits_inv)

lemma account_steps_dead_token:
  assumes "(account_step E U B M)\<^sup>*\<^sup>* d d'" and "account_inv d" and "k \<notin> M" and "dead_token k d"
  shows "dead_token k d'"
proof -
  have "account_inv d' \<and> dead_token k d'"
    using assms(1,2,4)
  proof (induction rule: rtranclp_induct)
    case base
    then show ?case by simp
  next
    case (step y z)
    then have "(edit M)\<^sup>*\<^sup>* y z" by (intro account_step_edits) auto
    with step assms(3) show ?case by (meson edits_inv edits_dead_token)
  qed
  then show ?thesis by simp
qed

lemma dead_token_unauthorized: "dead_token (digest E tok) d \<Longrightarrow> Authenticate E now tok d = Inl ErrUnauthorized"
  by (auto simp: Authenticate_def live_session_def dead_token_def live_at_def dest!: find_SomeD split: option.splits)

end
