(* ===== verification/AccountSafety.thy ===== *)
theory AccountSafety
  imports Accounts
begin

text \<open>
  What the account operations guarantee in every interleaving: sessions end when they should,
  a login matches the credentials at its commit, a password change and a disable leave no old
  session usable, an administrator remains, a deletion is complete and the setup happens once.
\<close>

section \<open>Sessions\<close>

lemma live_sessionD:
  "live_session E now token d = Some s \<Longrightarrow> s \<in> set (sessions d) \<and> s_id s = digest E token \<and> live_at now s"
  by (auto simp: live_session_def dest: find_SomeD)

lemma active_userD: "active_user uid d = Some u \<Longrightarrow> u \<in> set (users d) \<and> u_id u = uid \<and> u_status u = ''active''"
  by (auto simp: active_user_def dest: find_SomeD)

lemma Authenticate_InrD:
  assumes "Authenticate E now token d = Inr p"
  obtains s u where "s \<in> set (sessions d)" and "s_id s = digest E token" and "live_at now s"
    and "u \<in> set (users d)" and "u_id u = s_user s" and "u_status u = ''active''" and "p = principal_of u s"
  using assms that
  by (auto simp: Authenticate_def split: if_splits option.splits dest!: live_sessionD active_userD)

lemma Authenticate_intro:
  assumes inv: "account_inv d" and shape: "validTokenShape token"
    and s: "s \<in> set (sessions d)" "s_id s = digest E token" "live_at now s"
    and u: "u \<in> set (users d)" "u_id u = s_user s" "u_status u = ''active''"
  shows "Authenticate E now token d = Inr (principal_of u s)"
proof -
  have ds: "distinct (map s_id (sessions d))" and du: "distinct (map u_id (users d))"
    using inv by (simp_all add: account_inv_def)
  have "live_session E now token d = Some s"
  proof (cases "live_session E now token d")
    case None
    with s show ?thesis by (auto simp: live_session_def find_None_iff)
  next
    case (Some r)
    then show ?thesis using live_sessionD[OF Some] s distinct_key_unique[OF ds, of r s] by auto
  qed
  moreover have "active_user (s_user s) d = Some u"
  proof (cases "active_user (s_user s) d")
    case None
    with u show ?thesis by (auto simp: active_user_def find_None_iff)
  next
    case (Some r)
    then show ?thesis using active_userD[OF Some] u distinct_key_unique[OF du, of r u] by auto
  qed
  ultimately show ?thesis using shape by (simp add: Authenticate_def)
qed

text \<open>C7: in every reachable state a credential authenticates only an active account, before the
  idle expiry, and never longer than 24 hours after the session was created, however often the
  session was renewed.\<close>

theorem session_lifetime_bounded:
  assumes "account_inv d0" and "(account_step E U B M)\<^sup>*\<^sup>* d0 d" and "Authenticate E now token d = Inr p"
  shows "now < si_created (p_session p) + 24 * hour_ns \<and> now < si_idle (p_session p) \<and>
    si_idle (p_session p) \<le> si_expires (p_session p) \<and>
    si_expires (p_session p) = si_created (p_session p) + 24 * hour_ns \<and>
    (\<exists>u \<in> set (users d). u_id u = p_user p \<and> u_status u = ''active'')"
proof -
  have "account_inv d" by (rule account_system.reachable_inv[OF assms(2,1)])
  moreover obtain s u where "s \<in> set (sessions d)" "live_at now s" "u \<in> set (users d)" "u_status u = ''active''"
    "p = principal_of u s" by (rule Authenticate_InrD[OF assms(3)])
  ultimately show ?thesis
    by (auto simp: account_inv_def session_ok_def live_at_def principal_of_def session_info_of_def AbsoluteLifetime_def)
qed

lemma revoked_dead: "(\<And>s. s \<in> set (sessions d) \<Longrightarrow> s_id s = k \<Longrightarrow> p s) \<Longrightarrow>
   sessions d' = sessions (revoke_where p now d) \<Longrightarrow> dead_token k d'"
  by (auto simp: dead_token_def revoke_where_def sql_simps)

text \<open>C8: a logout is final: whatever runs afterwards, as long as the generator does not issue
  the same credential again, the credential is never accepted again, at no time.\<close>

theorem logout_is_final:
  assumes "account_inv d" and "Logout E now token d = (Inr (), d1)"
    and "(account_step E U B M)\<^sup>*\<^sup>* d1 d2" and "digest E token \<notin> M"
  shows "Authenticate E later token d2 = Inl ErrUnauthorized"
proof -
  from assms(2) have tx: "logout_tx E now token d = Inr ((), d1)"
    by (auto simp: Logout_def split: if_splits dest: in_tx_InrD)
  have "dead_token (digest E token) d1"
    by (rule revoked_dead[of d "digest E token" "\<lambda>s. s_id s = digest E token"]) (use logout_tx_InrD[OF tx] in auto)
  moreover have "account_inv d1" using logout_tx_edits[OF tx] assms(1) by (rule edit_inv)
  ultimately show ?thesis
    using account_steps_dead_token[OF assms(3) _ assms(4)] by (blast intro: dead_token_unauthorized)
qed

section \<open>Login\<close>

lemma login_begin_ticket:
  assumes "login_begin E now username password source salt d = (Inr tk, d1)"
  shows "\<exists>u \<in> set (users d). u_id u = lt_id tk \<and> u_norm u = to_lower (ae_ulow E) username \<and>
      u_hash u = lt_hash tk \<and> u_status u = ''active''"
    and "Verify (ae_argon E) (ae_policy E) password (lt_hash tk) = Inr True"
proof -
  let ?n = "to_lower (ae_ulow E) username"
  from assms obtain d' where r: "reserveAttempt E now ?n source d = (Inr (), d')"
    and c: "login_check E ?n password salt d' = (Inr tk, d1)"
    by (auto simp: login_begin_def Let_def split: prod.splits sum.splits)
  have us: "users d' = users d" using reserve_frame[OF r] by simp
  from c obtain u where u: "find (\<lambda>u. u_norm u = ?n) (users d) = Some u"
    by (auto simp: login_check_def Let_def us split: if_splits option.splits)
  with c have "Verify (ae_argon E) (ae_policy E) password (u_hash u) = Inr True"
    and "u_status u = ''active''" and "lt_id tk = u_id u" and "lt_hash tk = u_hash u"
    by (auto simp: login_check_def Let_def us split: if_splits sum.splits)
  with find_SomeD[OF u] show "\<exists>u \<in> set (users d). u_id u = lt_id tk \<and> u_norm u = ?n \<and>
      u_hash u = lt_hash tk \<and> u_status u = ''active''"
    and "Verify (ae_argon E) (ae_policy E) password (lt_hash tk) = Inr True" by auto
qed

lemma login_tx_checks_hash:
  assumes inv: "account_inv d" and tx: "login_tx E now tk token pub d = Inr (x, d')"
  shows "\<exists>u \<in> set (users d). u_id u = lt_id tk \<and> u_status u = ''active'' \<and> u_hash u = lt_hash tk"
proof -
  from inv tx obtain d1 u where rh: "login_rehash now tk d = Inr d1" and u: "user_by_id (lt_id tk) d1 = Some u"
    and m: "may_login tk (lt_session_hash tk) u" by (rule login_tx_shape)
  show ?thesis
  proof (cases "lt_session_hash tk = lt_hash tk")
    case True
    with rh have "d1 = d" by (simp add: login_rehash_def)
    with u m True account_inv_user[OF inv, of "lt_id tk" u] show ?thesis by (auto simp: may_login_def)
  next
    case False
    with rh have "sql_affected (may_login tk (lt_hash tk)) (users d) = Suc 0"
      by (simp add: login_rehash_def split: if_splits)
    from sql_affected_1D[OF this] show ?thesis by (auto simp: may_login_def)
  qed
qed

text \<open>C9: a login cannot race a password change or a disable.  Whatever commits between the
  password verification and the transaction of a login, a session is created only if at the
  commit the account is active and its stored hash is one that the presented password verifies
  against; the session belongs to the account whose name was submitted.\<close>

theorem login_current_credentials:
  assumes "account_inv d" and "login_begin E t1 username password source salt d = (Inr tk, d1)"
    and "(account_step E U B M)\<^sup>*\<^sup>* d1 d2" and "login_finish E t2 tk raw pub d2 = (Inr (token, p), d3)"
  shows "\<exists>u \<in> set (users d2). u_id u = p_user p \<and> u_status u = ''active'' \<and>
      Verify (ae_argon E) (ae_policy E) password (u_hash u) = Inr True \<and>
      (\<exists>u0 \<in> set (users d). u_id u0 = p_user p \<and> u_norm u0 = to_lower (ae_ulow E) username)"
proof -
  note tk = login_begin_ticket[OF assms(2)]
  have "users d1 = users d" "sessions d1 = sessions d" using login_begin_frame[OF assms(2)] by simp_all
  then have "account_inv d1" using assms(1) by (meson edit.other edit_inv)
  then have inv: "account_inv d2" by (rule account_system.reachable_inv[OF assms(3)])
  from assms(4) obtain r where tx: "login_tx E t2 tk (session_token r) pub d2 = Inr ((token, p), d3)"
    by (auto simp: login_finish_def split: option.splits dest: in_tx_InrD)
  from inv tx obtain d' u where u: "user_by_id (lt_id tk) d' = Some u"
    and p: "(token, p) = (session_token r, principal_of u (new_session_row E (session_token r) pub (u_id u) t2 (u_idle u)))"
    by (rule login_tx_shape)
  then have "p_user p = lt_id tk"
    by (auto simp: principal_of_def user_by_id_def dest: user_table.get_SomeD)
  with login_tx_checks_hash[OF inv tx] tk show ?thesis by metis
qed

section \<open>Password change\<close>

lemma session_token_shape: "length raw = 32 \<Longrightarrow> validTokenShape (session_token raw)"
  by (simp add: validTokenShape_def session_token_def base64_roundtrip[OF url_alphabet_ok])

lemma change_tx_user:
  assumes inv: "account_inv d" and tx: "change_tx E now token tk new_token pub d = Inr (x, d')"
  shows "\<exists>u \<in> set (users d'). u_id u = p_user (ct_principal tk) \<and> u_status u = ''active'' \<and>
      u_hash u = ct_new tk \<and> \<not> u_must_change u \<and> user_check u \<and>
      new_session_row E new_token pub (u_id u) now (u_idle u) \<in> set (sessions d')"
proof -
  let ?f = "\<lambda>u. u\<lparr>u_hash := ct_new tk, u_must_change := False, u_updated := now\<rparr>"
  from inv tx obtain d2 u where users2: "users d2 = sql_update (may_change E now token tk d) ?f (users d)"
    and u: "user_by_id (p_user (ct_principal tk)) d2 = Some u" and d': "users d' = users d2"
      "sessions d' = sessions d2 @ [new_session_row E new_token pub (p_user (ct_principal tk)) now (u_idle u)]"
    and one: "sql_affected (may_change E now token tk d) (users d) = 1" by (rule change_tx_shape) blast
  from one obtain r where r: "r \<in> set (users d)" "may_change E now token tk d r"
    using sql_affected_1D[of "may_change E now token tk d" "users d"] by auto
  then have fr: "?f r \<in> set (users d2)" "u_id (?f r) = p_user (ct_principal tk)"
    using users2 by (auto simp: sql_simps may_change_def)
  have "account_inv d'" using change_tx_edits[OF inv tx UNIV_I] inv by (rule edits_inv)
  then have "distinct (map u_id (users d2))" "\<forall>u \<in> set (users d2). user_check u"
    using d'(1) by (simp_all add: account_inv_def)
  moreover have ui: "u \<in> set (users d2)" "u_id u = p_user (ct_principal tk)"
    using u by (auto simp: user_by_id_def dest: user_table.get_SomeD)
  ultimately have "u = ?f r" and "user_check u"
    using distinct_key_unique[of u_id "users d2" u "?f r"] fr by simp_all
  with ui d' r(2) show ?thesis by (intro bexI[of _ u]) (auto simp: may_change_def)
qed

lemma change_tx_sessions:
  assumes inv: "account_inv d" and tx: "change_tx E now token tk new_token pub d = Inr (x, d')"
  shows "fst x = new_token \<and>
    (\<exists>n. sessions d' = sessions (revoke_where (\<lambda>s. s_user s = p_user (ct_principal tk)) now d)
        @ [new_session_row E new_token pub (p_user (ct_principal tk)) now n])"
  by (rule change_tx_shape[OF assms]) auto

lemma revoke_user_dead:
  assumes "s \<in> set (sessions (revoke_user uid now d))" and "s_user s = uid"
  shows "s_revoked s \<noteq> None"
proof -
  from assms(1) have "(\<exists>r. s = r\<lparr>s_revoked := Some now\<rparr>) \<or> (s_user s = uid \<longrightarrow> s_revoked s \<noteq> None)"
    unfolding revoke_user_def revoke_where_def by (simp add: set_sql_update image_iff) blast
  with assms(2) show ?thesis by (elim disjE exE) simp_all
qed

lemma principal_of_fields [simp]:
  "p_user (principal_of u s) = u_id u" "p_must_change (principal_of u s) = u_must_change u"
  by (simp_all add: principal_of_def)

text \<open>when a password change commits, the stored hash is the new one, the new credential is
  accepted for at least five minutes, and no other credential of the account is accepted any
  more, at any time.\<close>

theorem password_change_rotates:
  assumes "account_inv d" and "change_finish E now token tk (Some raw) pub d = (Inr (fresh, p), d')"
    and "length raw = 32"
  shows "(\<exists>u \<in> set (users d'). u_id u = p_user (ct_principal tk) \<and> u_hash u = ct_new tk) \<and>
    (\<exists>q. Authenticate E (now + 5 * minute_ns - 1) fresh d' = Inr q \<and>
       p_user q = p_user (ct_principal tk) \<and> \<not> p_must_change q) \<and>
    (\<forall>t old q. digest E old \<noteq> digest E fresh \<longrightarrow> Authenticate E t old d' = Inr q \<longrightarrow>
       p_user q \<noteq> p_user (ct_principal tk))"
proof -
  let ?uid = "p_user (ct_principal tk)"
  from assms(2) have tx: "change_tx E now token tk (session_token raw) pub d = Inr ((fresh, p), d')"
    by (auto simp: change_finish_def dest: in_tx_InrD)
  have inv: "account_inv d'" using change_tx_edits[OF assms(1) tx UNIV_I] assms(1) by (rule edits_inv)
  from change_tx_sessions[OF assms(1) tx] obtain n where
      d': "sessions d' = sessions (revoke_where (\<lambda>s. s_user s = ?uid) now d)
        @ [new_session_row E (session_token raw) pub ?uid now n]" and f: "fresh = session_token raw" by auto
  from change_tx_user[OF assms(1) tx] obtain w where w: "w \<in> set (users d')" "u_id w = ?uid"
    "u_status w = ''active''" "u_hash w = ct_new tk" "\<not> u_must_change w" "user_check w"
    "new_session_row E (session_token raw) pub (u_id w) now (u_idle w) \<in> set (sessions d')" by blast
  have live: "live_at (now + 5 * minute_ns - 1) (new_session_row E (session_token raw) pub (u_id w) now (u_idle w))"
    using w(6) by (auto simp: live_at_def new_session_row_def user_check_def AbsoluteLifetime_def duration_defs)
  have "Authenticate E (now + 5 * minute_ns - 1) (session_token raw) d'
      = Inr (principal_of w (new_session_row E (session_token raw) pub (u_id w) now (u_idle w)))"
    by (rule Authenticate_intro[OF inv session_token_shape[OF assms(3)] w(7) _ live w(1) _ w(3)])
      (simp_all add: new_session_row_def)
  moreover have "p_user q \<noteq> ?uid"
    if o: "digest E old \<noteq> digest E fresh" and a: "Authenticate E t old d' = Inr q" for t old q
  proof
    assume q: "p_user q = ?uid"
    obtain s v where s: "s \<in> set (sessions d')" "s_id s = digest E old" "live_at t s" "u_id v = s_user s"
      "q = principal_of v s" by (rule Authenticate_InrD[OF a])
    then have "s \<in> set (sessions (revoke_where (\<lambda>s. s_user s = ?uid) now d))"
      using d' o f by (auto simp: new_session_row_def)
    moreover have "s_user s = ?uid" using s(4,5) q by simp
    ultimately have "s_revoked s \<noteq> None" by (intro revoke_user_dead[of s ?uid now d]) (simp_all add: revoke_user_def)
    with s(3) show False by (simp add: live_at_def)
  qed
  ultimately show ?thesis using w f by (auto simp del: not_None_eq)
qed

section \<open>Member administration\<close>

lemma dead_after_disable:
  assumes "disable_tx U now a uid d = Inr (None, d1)" and "s \<in> set (sessions d)" and "s_user s = uid"
    and "distinct (map s_id (sessions d))"
  shows "dead_token (s_id s) d1"
proof (rule revoked_dead[of d "s_id s" "\<lambda>s. s_user s = uid" d1 now])
  show "sessions d1 = sessions (revoke_where (\<lambda>s. s_user s = uid) now d)"
    using disable_tx_InrD[OF assms(1)] by (auto simp: revoke_user_def)
  show "s_user r = uid" if "r \<in> set (sessions d)" "s_id r = s_id s" for r
    using distinct_key_unique[OF assms(4) that(1) assms(2) that(2)] assms(3) by simp
qed

text \<open>disabling is final for the sessions of the account: every session it had when it was
  disabled stays refused for ever, also after the account is enabled again; and directly
  after the disable no credential at all authenticates it.\<close>

theorem disable_kills_sessions:
  assumes "account_inv d" and "disable_tx U now a uid d = Inr (None, d1)"
    and "s \<in> set (sessions d)" and "s_user s = uid" and "s_id s = digest E token"
    and "(account_step E U B M)\<^sup>*\<^sup>* d1 d2" and "digest E token \<notin> M"
  shows "Authenticate E later token d2 = Inl ErrUnauthorized \<and>
    (\<forall>t k q. Authenticate E t k d1 = Inr q \<longrightarrow> p_user q \<noteq> uid)"
proof -
  have "distinct (map s_id (sessions d))" using assms(1) by (simp add: account_inv_def)
  from dead_after_disable[OF assms(2-4) this] have dead: "dead_token (digest E token) d1" by (simp add: assms(5))
  have inv1: "account_inv d1" using disable_tx_edits[OF assms(2)] assms(1) by (rule edits_inv)
  have "p_user q \<noteq> uid" if a: "Authenticate E t k d1 = Inr q" for t k q
  proof
    assume q: "p_user q = uid"
    obtain r u where r: "r \<in> set (sessions d1)" "live_at t r" "u_id u = s_user r" "q = principal_of u r"
      by (rule Authenticate_InrD[OF a])
    have "sessions d1 = sessions (revoke_user uid now d)" using disable_tx_InrD[OF assms(2)] by blast
    with r q have "s_revoked r \<noteq> None" by (intro revoke_user_dead[of r uid now d]) simp_all
    with r(2) show False by (simp add: live_at_def)
  qed
  with dead_token_unauthorized[OF account_steps_dead_token[OF assms(6) inv1 assms(7) dead]] show ?thesis
    by blast
qed

text \<open>An active administrator.\<close>

definition admin_row :: "user_row \<Rightarrow> bool" where
  "admin_row u \<longleftrightarrow> u_role u = RoleAdmin \<and> u_status u = ''active''"

definition has_admin :: "db \<Rightarrow> bool" where
  "has_admin d \<longleftrightarrow> (\<exists>u \<in> set (users d). admin_row u)"

lemma has_admin_users: "users d' = users d \<Longrightarrow> has_admin d \<Longrightarrow> has_admin d'"
  by (simp add: has_admin_def)

lemma has_admin_append: "users d' = users d @ t \<Longrightarrow> has_admin d \<Longrightarrow> has_admin d'"
  by (auto simp: has_admin_def)

lemma has_admin_update:
  assumes "users d' = sql_update p f (users d)" and "\<And>u. admin_row u \<Longrightarrow> p u \<Longrightarrow> admin_row (f u)" and "has_admin d"
  shows "has_admin d'"
proof -
  from assms(3) obtain u where u: "u \<in> set (users d)" "admin_row u" by (auto simp: has_admin_def)
  then have "(if p u then f u else u) \<in> set (users d')" by (simp add: assms(1) set_sql_update)
  moreover have "admin_row (if p u then f u else u)" using u(2) assms(2) by simp
  ultimately show ?thesis unfolding has_admin_def by blast
qed

lemma other_adminsD: "w \<in> set (other_admins uid d) \<Longrightarrow> w \<in> set (users d) \<and> admin_row w \<and> u_id w \<noteq> uid"
  by (auto simp: other_admins_def admin_row_def)

lemma one_admin_left:
  assumes "has_admin d" and "\<And>u. u \<in> set (users d) \<Longrightarrow> u_id u \<noteq> uid \<Longrightarrow> admin_row u \<Longrightarrow> has_admin d'"
    and "\<And>u. u \<in> set (users d) \<Longrightarrow> u_id u = uid \<Longrightarrow> admin_row u \<Longrightarrow> 1 \<le> length (other_admins uid d) \<or> has_admin d'"
  shows "has_admin d'"
proof -
  from assms(1) obtain u where u: "u \<in> set (users d)" "admin_row u" by (auto simp: has_admin_def)
  show ?thesis
  proof (cases "u_id u = uid")
    case True
    from assms(3)[OF u(1) True u(2)] show ?thesis
    proof
      assume "1 \<le> length (other_admins uid d)"
      then obtain w where "w \<in> set (other_admins uid d)" by (cases "other_admins uid d") auto
      with assms(2) show ?thesis by (auto dest: other_adminsD)
    qed
  qed (use assms(2) u in blast)
qed

lemma has_admin_disable:
  assumes "has_admin d" and "disable_tx U now a uid d = Inr (v, d')"
  shows "has_admin d'"
proof (cases "d' = d")
  case False
  with disable_tx_InrD[OF assms(2)]
  have d': "users d' = sql_update (may_disable uid d) (\<lambda>u. u\<lparr>u_status := ''disabled'', u_updated := now\<rparr>) (users d)"
    by (auto simp: set_status_def)
  have kept: "has_admin d'" if "u \<in> set (users d)" "\<not> may_disable uid d u" "admin_row u" for u
    using that by (force simp: has_admin_def d' sql_simps)
  show ?thesis
  proof (rule one_admin_left[OF assms(1), of uid])
    fix u assume u: "u \<in> set (users d)" "admin_row u"
    { assume "u_id u \<noteq> uid" then show "has_admin d'" using kept[of u] u by (simp add: may_disable_def) }
    { assume "u_id u = uid"
      then show "1 \<le> length (other_admins uid d) \<or> has_admin d'"
        using kept[of u] u by (auto simp: may_disable_def admin_row_def) }
  qed
qed (use assms in simp)

lemma has_admin_delete:
  assumes "account_inv d" and "has_admin d" and "delete_user_tx U now a uid d = Inr (x, d')"
  shows "has_admin d'"
proof -
  note h = delete_user_tx_InrD[OF assms(3)]
  then obtain r where r: "r \<in> set (users d)" "may_delete uid d r"
    using sql_affected_1D[of "may_delete uid d" "users d"] by auto
  show ?thesis
  proof (rule one_admin_left[OF assms(2), of uid])
    fix u assume u: "u \<in> set (users d)" "admin_row u"
    { assume "u_id u \<noteq> uid" then show "has_admin d'" using u h by (auto simp: has_admin_def sql_simps) }
    { assume "u_id u = uid"
      then have "u = r"
        using r assms(1) distinct_key_unique[of u_id "users d" u r] u(1) by (simp add: may_delete_def account_inv_def)
      with r u(2) show "1 \<le> length (other_admins uid d) \<or> has_admin d'"
        by (auto simp: may_delete_def admin_row_def) }
  qed
qed

lemma has_admin_enable: "has_admin d \<Longrightarrow> enable_tx U now a uid d = Inr (v, d') \<Longrightarrow> has_admin d'"
  by (drule enable_tx_InrD) (auto simp: set_status_def admin_row_def elim!: has_admin_update)

lemma has_admin_in_tx:
  "in_tx body d = (r, d') \<Longrightarrow> has_admin d \<Longrightarrow> (\<And>x t. body d = Inr (x, t) \<Longrightarrow> has_admin t) \<Longrightarrow> has_admin d'"
  by (erule in_tx_invariant)

lemma has_admin_rehash:
  assumes "login_rehash now tk d = Inr d1" and "has_admin d"
  shows "has_admin d1"
proof (cases "lt_session_hash tk = lt_hash tk")
  case False
  with assms(1) have "users d1 = sql_update (may_login tk (lt_hash tk))
      (\<lambda>u. u\<lparr>u_hash := lt_session_hash tk, u_updated := now\<rparr>) (users d)"
    by (auto simp: login_rehash_def split: if_splits)
  then show ?thesis by (rule has_admin_update[OF _ _ assms(2)]) (simp add: admin_row_def)
qed (use assms in \<open>simp add: login_rehash_def\<close>)

lemma has_admin_login:
  assumes "account_inv d" and "has_admin d" and "login_tx E now tk token pub d = Inr (x, d')"
  shows "has_admin d'"
proof -
  from assms(1,3) obtain d1 u where "login_rehash now tk d = Inr d1" "user_by_id (lt_id tk) d1 = Some u"
    and d': "users d' = users d1" by (rule login_tx_shape)
  then have "has_admin d1" using assms(2) has_admin_rehash by blast
  with d' show ?thesis by (simp add: has_admin_def)
qed

lemma has_admin_change:
  assumes "account_inv d" and "has_admin d" and "change_tx E now token tk new pub d = Inr (x, d')"
  shows "has_admin d'"
  by (rule change_tx_shape[OF assms(1,3)])
    (rule has_admin_update[OF _ _ assms(2), where p = "may_change E now token tk d"
        and f = "\<lambda>u. u\<lparr>u_hash := ct_new tk, u_must_change := False, u_updated := now\<rparr>"],
      simp_all add: admin_row_def)

lemma has_admin_idle:
  "set_idle_tx E now tok m d = Inr (x, d') \<Longrightarrow> has_admin d \<Longrightarrow> has_admin d'"
  by (rule has_admin_update[where p = "idle_row E now tok d" and f = "\<lambda>u. u\<lparr>u_idle := m, u_updated := now\<rparr>"])
    (auto simp: set_idle_tx_def Let_def result_Inr admin_row_def)

lemma account_step_has_admin:
  assumes "account_step E U B M d d'" and "account_inv d" and adm: "has_admin d"
  shows "has_admin d'"
  using assms(1)
proof cases
  case login_begin
  then show ?thesis using adm login_begin_frame has_admin_users by blast
next
  case login_finish
  then show ?thesis
    using adm has_admin_login[OF assms(2) adm]
    by (auto simp: login_finish_def split: option.splits elim!: has_admin_in_tx)
next
  case change_begin
  then show ?thesis using adm change_begin_frame has_admin_users by blast
next
  case change_finish
  then show ?thesis
    using adm has_admin_change[OF assms(2) adm]
    by (auto simp: change_finish_def split: option.splits elim!: has_admin_in_tx)
next
  case touch
  then show ?thesis using adm by (auto simp: Touch_def Let_def has_admin_def)
next
  case logout
  then show ?thesis
    using adm by (auto simp: Logout_def intro: has_admin_users dest!: logout_tx_InrD split: if_splits elim!: has_admin_in_tx)
next
  case revoke
  then show ?thesis
    using adm by (auto simp: RevokeSession_def intro: has_admin_users dest!: revoke_tx_InrD split: if_splits elim!: has_admin_in_tx)
next
  case idle_timeout
  then show ?thesis
    using adm by (auto simp: SetIdleTimeout_def intro: has_admin_idle split: if_splits elim!: has_admin_in_tx)
next
  case cleanup
  then show ?thesis using adm by (simp add: CleanupExpiredSessions_def has_admin_def)
next
  case sweep
  then show ?thesis using adm by (simp add: CleanupLoginAttempts_def has_admin_def)
next
  case create_user
  from this(1) adm show ?thesis
    by (rule has_admin_in_tx) (use adm in \<open>auto dest: create_user_tx_InrD intro: has_admin_append\<close>)
next
  case disable
  from this(1) adm show ?thesis by (rule has_admin_in_tx) (rule has_admin_disable[OF adm])
next
  case enable
  from this(1) adm show ?thesis by (rule has_admin_in_tx) (rule has_admin_enable[OF adm])
next
  case revoke_all
  from this(1) adm show ?thesis
    by (rule has_admin_in_tx) (use adm in \<open>auto dest!: revoke_sessions_tx_InrD intro: has_admin_users\<close>)
next
  case delete_user
  from this(1) adm show ?thesis by (rule has_admin_in_tx) (rule has_admin_delete[OF assms(2) adm])
next
  case initialize
  from this(1) adm show ?thesis
    by (rule has_admin_in_tx) (use adm in \<open>auto dest: initialize_tx_InrD intro: has_admin_append\<close>)
qed

definition admin_inv :: "db \<Rightarrow> bool" where
  "admin_inv d \<longleftrightarrow> account_inv d \<and> has_admin d"

interpretation admin_system: invariant_system "account_step E U B M" admin_inv for E U B M
  by unfold_locales
    (auto simp: admin_inv_def intro: account_step_has_admin account_system.step_keeps)

text \<open>C11: an instance that has an active administrator never loses the last one: no sequence of
  disables, deletions, enables, logins, password changes or setup calls removes it.\<close>

theorem last_admin_survives:
  assumes "account_inv d0" and "has_admin d0" and "(account_step E U B M)\<^sup>*\<^sup>* d0 d"
  shows "\<exists>u \<in> set (users d). u_role u = RoleAdmin \<and> u_status u = ''active''"
proof -
  have "admin_inv d0" using assms(1,2) by (simp add: admin_inv_def)
  from admin_system.reachable_inv[OF assms(3) this] show ?thesis
    by (auto simp: admin_inv_def has_admin_def admin_row_def)
qed

text \<open>a deletion is complete and touches nothing else: afterwards there is no row of the
  user, no session, no item owned or created by the user, no archived version of such an
  item and no idempotency claim of a scope that ends in the user's id, while every other
  row of these tables is kept.\<close>

theorem delete_is_complete:
  assumes "account_inv d" and "DeleteUser U now admin uid confirm d = (Inr (), d')"
  shows "users d' = filter (\<lambda>u. u_id u \<noteq> uid) (users d) \<and>
    sessions d' = filter (\<lambda>s. s_user s \<noteq> uid) (sessions d) \<and>
    items d' = filter (\<lambda>r. it_owner r \<noteq> Some uid \<and> it_creator r \<noteq> Some uid) (items d) \<and>
    (\<forall>v. v \<in> set (versions d') \<longleftrightarrow> v \<in> set (versions d) \<and>
       \<not> (\<exists>r \<in> set (items d). it_id r = v_item v \<and> (it_owner r = Some uid \<or> it_creator r = Some uid))) \<and>
    (\<forall>k \<in> set (idem d'). \<not> sql_like (''%:'' @ uid) (k_scope k)) \<and>
    (\<exists>u \<in> set (users d). u_id u = uid \<and> u_display u = confirm) \<and> map_option p_user admin \<noteq> Some uid"
proof -
  from assms(2) obtain a u where a: "requireAdmin admin = Inr a" "uid \<noteq> p_user a"
    "user_by_id uid d = Some u" "confirm = u_display u" and tx: "delete_user_tx U now a uid d = Inr ((), d')"
    by (auto simp: DeleteUser_def result_Inr split: sum.splits dest!: in_tx_InrD)
  note h = delete_user_tx_InrD[OF tx]
  have ad: "admin = Some a" using a(1) by (auto simp: requireAdmin_def split: option.splits if_splits)
  have ud: "\<exists>u \<in> set (users d). u_id u = uid \<and> u_display u = confirm"
    using account_inv_user[OF assms(1) a(3)] a(4) by blast
  have v: "v \<in> set (versions d') \<longleftrightarrow> v \<in> set (versions d) \<and>
       \<not> (\<exists>r \<in> set (items d). it_id r = v_item v \<and> (it_owner r = Some uid \<or> it_creator r = Some uid))" for v
    using h by (auto simp: sql_simps item_of_user_def image_iff)
  have k: "\<forall>k \<in> set (idem d'). \<not> sql_like (''%:'' @ uid) (k_scope k)" using h by (simp add: set_sql_delete)
  have "users d' = filter (\<lambda>u. u_id u \<noteq> uid) (users d)" "sessions d' = filter (\<lambda>s. s_user s \<noteq> uid) (sessions d)"
    "items d' = filter (\<lambda>r. it_owner r \<noteq> Some uid \<and> it_creator r \<noteq> Some uid) (items d)"
    using h by (simp_all add: sql_delete_def item_of_user_def)
  with v k ud ad a(2) show ?thesis by (auto simp del: not_None_eq)
qed

section \<open>Setup\<close>

lemma auditStandalone_sysstate: "sysstate (auditStandalone E e d) = sysstate d"
  by (auto simp: auditStandalone_def dest: auditRecord_InrD split: sum.splits)

lemma in_tx_sysstate:
  "in_tx body d = (r, d') \<Longrightarrow> (\<And>x t. body d = Inr (x, t) \<Longrightarrow> sysstate t = sysstate d) \<Longrightarrow> sysstate d' = sysstate d"
  by (erule in_tx_cases) auto

lemma reserve_sysstate: "reserveAttempt E now u s d = (r, d') \<Longrightarrow> sysstate d' = sysstate d"
  unfolding reserveAttempt_def by (erule in_tx_sysstate) (auto simp: reserve_body_def Let_def split: if_splits)

lemma login_begin_sysstate: "login_begin E now u pw src salt d = (r, d') \<Longrightarrow> sysstate d' = sysstate d"
  by (auto simp: login_begin_def login_check_def Let_def auditStandalone_sysstate
      dest!: reserve_sysstate split: prod.splits sum.splits if_splits option.splits)

lemma change_begin_sysstate: "change_begin E now tok cur new src salt d = (r, d') \<Longrightarrow> sysstate d' = sysstate d"
  by (auto simp: change_begin_def dest!: reserve_sysstate split: prod.splits sum.splits)

lemma login_tx_sysstate: "login_tx E now tk token pub d = Inr (x, d') \<Longrightarrow> sysstate d' = sysstate d"
  by (auto simp: login_tx_def login_rehash_def login_insert_def set_idle_expiry_def Let_def result_Inr
      dest!: auditRecord_InrD insert_session_InrD split: if_splits list.splits)

lemma change_tx_sysstate: "change_tx E now token tk new pub d = Inr (x, d') \<Longrightarrow> sysstate d' = sysstate d"
  by (auto simp: change_tx_def revoke_where_def Let_def result_Inr dest!: auditRecord_InrD insert_session_InrD)

lemma session_tx_sysstate:
  "logout_tx E now token d = Inr (x, d') \<Longrightarrow> sysstate d' = sysstate d"
  "revoke_tx E now token pub d = Inr (x, d') \<Longrightarrow> sysstate d' = sysstate d"
  "set_idle_tx E now token m d = Inr (x, d') \<Longrightarrow> sysstate d' = sysstate d"
  by (auto simp: logout_tx_def revoke_tx_def set_idle_tx_def revoke_where_def Let_def result_Inr
      dest!: auditRecord_InrD split: option.splits if_splits)

lemma complete_user_claim_sysstate: "complete_user_claim E now c r d = Inr d' \<Longrightarrow> sysstate d' = sysstate d"
  by (auto simp: complete_user_claim_def split: option.splits sum.splits)

lemma user_tx_sysstate:
  "create_user_tx U now a uid name hash c d = Inr (v, d') \<Longrightarrow> sysstate d' = sysstate d"
  "disable_tx U now a uid d = Inr (w, d') \<Longrightarrow> sysstate d' = sysstate d"
  "enable_tx U now a uid d = Inr (w, d') \<Longrightarrow> sysstate d' = sysstate d"
  "revoke_sessions_tx U now a uid d = Inr (n, d') \<Longrightarrow> sysstate d' = sysstate d"
  "delete_user_tx U now a uid d = Inr (x, d') \<Longrightarrow> sysstate d' = sysstate d"
  by (auto simp: create_user_tx_def disable_tx_def enable_tx_def revoke_sessions_tx_def delete_user_tx_def
      set_status_def revoke_user_def revoke_where_def delete_user_row_def delete_item_rows_def Let_def result_Inr
      dest!: audit_user_InrD complete_user_claim_sysstate insert_user_InrD split: if_splits)

lemma account_step_initialized:
  assumes "account_step E U B M d d'" and "isInitialized d"
  shows "isInitialized d'"
proof -
  have "sysstate d' = sysstate d"
    using assms(1)
  proof cases
    case login_finish
    then show ?thesis
      by (auto simp: login_finish_def split: option.splits elim!: in_tx_sysstate dest: login_tx_sysstate)
  next
    case change_finish
    then show ?thesis
      by (auto simp: change_finish_def split: option.splits elim!: in_tx_sysstate dest: change_tx_sysstate)
  next
    case logout
    then show ?thesis
      by (auto simp: Logout_def split: if_splits elim!: in_tx_sysstate dest: session_tx_sysstate)
  next
    case revoke
    then show ?thesis
      by (auto simp: RevokeSession_def split: if_splits elim!: in_tx_sysstate dest: session_tx_sysstate)
  next
    case idle_timeout
    then show ?thesis
      by (auto simp: SetIdleTimeout_def split: if_splits elim!: in_tx_sysstate dest: session_tx_sysstate)
  next
    case initialize
    then show ?thesis
      using assms(2) by (auto simp: isInitialized_def elim!: in_tx_sysstate dest!: initialize_tx_InrD)
  qed (auto simp: Touch_def CleanupExpiredSessions_def CleanupLoginAttempts_def Let_def
      dest: login_begin_sysstate change_begin_sysstate user_tx_sysstate elim!: in_tx_sysstate)
  with assms(2) show ?thesis by (simp add: isInitialized_def)
qed

interpretation setup_system: invariant_system "account_step E U B M" isInitialized for E U B M
  by unfold_locales (rule account_step_initialized)

text \<open>C10: setup happens at most once.  A setup call that commits creates the administrator with
  the given name, records the marker of the mounted key (so that the readiness check passes),
  and retires the token; after it, whatever runs, every later setup transaction (also one whose
  checks ran before) is refused as already initialized and changes nothing.\<close>

theorem setup_exactly_once:
  assumes "se_key B = Some key" and "Initialize B now i salt uid rid s = (Inr (u, name), s1)"
    and "(account_step E U B M)\<^sup>*\<^sup>* (st_db s1) d2"
  shows "(\<exists>w \<in> set (users (st_db s1)). u_id w = u \<and> u_display w = in_username i \<and> u_role w = RoleAdmin
      \<and> u_status w = ''active'') \<and>
    MasterKeyCheck (se_hmac B) False (Some key) (st_db s1) = Inr () \<and>
    \<not> Matches (se_sha256 B) (st_token s1) any \<and>
    in_tx (initialize_tx B later k j uid' rid' hash) d2 = (Inl ErrAlreadyInitialized, d2)"
proof -
  from assms(1,2) obtain h s0 where c: "setup_check B i salt s = (Inr (key, h), s0)"
    and m: "setup_commit B now i uid rid (key, h) s0 = (Inr (u, name), s1)"
    by (auto simp: Initialize_def setup_check_def split: prod.splits sum.splits if_splits)
  from m obtain d' where tx: "initialize_tx B now key i uid rid h (st_db s0) = Inr (u, d')"
    and s1: "s1 = s0\<lparr>st_db := d', st_token := Destroy (st_token s0)\<rparr>"
    by (auto simp: setup_commit_def split: prod.splits sum.splits dest!: in_tx_InrD)
  note h = initialize_tx_InrD[OF tx]
  have "isInitialized d2" using setup_system.reachable_inv[OF assms(3)] h s1 by simp
  then have "initialize_tx B later k j uid' rid' hash d2 = Inl ErrAlreadyInitialized"
    by (simp add: initialize_tx_def isInitialized_def)
  moreover have "MasterKeyCheck (se_hmac B) False (Some key) (st_db s1) = Inr ()"
    using h s1 by (simp add: MasterKeyCheck_def VerifyMarker_Marker)
  moreover have "\<not> Matches (se_sha256 B) (st_token s1) any"
    using s1 by (auto simp: Matches_def Destroy_def split: option.splits)
  moreover have "\<exists>w \<in> set (users (st_db s1)). u_id w = u \<and> u_display w = in_username i \<and> u_role w = RoleAdmin
      \<and> u_status w = ''active''"
    using h s1 by (intro bexI[of _ "first_admin B uid (in_username i) h now"]) (simp_all add: first_admin_def)
  ultimately show ?thesis by simp
qed

end
