(* ===== verification/AccountWitness.thy ===== *)
theory AccountWitness
  imports AccountSafety
begin

text \<open>Concrete runs of the account operations on small databases.\<close>

definition sample_hash :: string where
  "sample_hash = encodeHash sample_argon2 DefaultHashParams (replicate 16 7) (replicate 32 13)"

lemma sample_hash_parsed:
  "parseHash sample_argon2 sample_hash = Inr (DefaultHashParams, replicate 16 7, replicate 32 13)"
  unfolding sample_hash_def
  by (rule parse_encodeHash)
    (simp_all add: sample_argon2_def params_in_range_def DefaultHashParams_def hash_bounds hashKeyLength_def)

lemma sample_hash_verifies:
  "Verify sample_argon2 DefaultHashPolicy ''correct horse'' sample_hash = Inr True"
  "\<not> NeedsRehash sample_argon2 DefaultHashPolicy sample_hash"
proof -
  have t: "TargetParams DefaultHashPolicy = DefaultHashParams" by (simp add: DefaultHashPolicy_def)
  have k: "ar_IDKey sample_argon2 p s i m q n = replicate n (of_nat (length p))" for p s i m q n
    by (simp add: sample_argon2_def)
  have v: "validateVerifyParams DefaultHashPolicy DefaultHashParams = Inr ()"
    using valid_policy_target(2)[OF default_policy_valid] t by simp
  show "Verify sample_argon2 DefaultHashPolicy ''correct horse'' sample_hash = Inr True"
    by (simp add: Verify_def sample_hash_parsed v derive_def k hashKeyLength_def)
  show "\<not> NeedsRehash sample_argon2 DefaultHashPolicy sample_hash"
    by (simp add: NeedsRehash_def sample_hash_parsed t)
qed

definition root :: user_row where
  "root = \<lparr>u_id = ''a1'', u_norm = ''root'', u_display = ''Root'', u_role = RoleAdmin,
     u_status = ''active'', u_must_change = False, u_hash = sample_hash, u_created = 0,
     u_updated = 0, u_idle = 15\<rparr>"

definition bob :: user_row where
  "bob = \<lparr>u_id = ''m1'', u_norm = ''bob'', u_display = ''Bob'', u_role = RoleMember,
     u_status = ''active'', u_must_change = False, u_hash = sample_hash, u_created = 0,
     u_updated = 0, u_idle = 15\<rparr>"

definition sample_session :: "string \<Rightarrow> string \<Rightarrow> string \<Rightarrow> session_row" where
  "sample_session sid pub uid = \<lparr>s_id = sid, s_public = pub, s_user = uid, s_created = 0,
     s_abs = AbsoluteLifetime, s_idle = 15 * minute_ns, s_revoked = None\<rparr>"

definition tok0 :: string where
  "tok0 = session_token (replicate 32 1)"

definition accounts :: "session_row list \<Rightarrow> db" where
  "accounts t = empty_db\<lparr>users := [root, bob], sessions := t\<rparr>"

abbreviation "bob_live \<equiv> accounts [sample_session (digest sample_auth tok0) ''s0'' ''m1'']"
abbreviation "both_live \<equiv> accounts [sample_session '''' ''s0'' ''m1'', sample_session ''x'' ''s1'' ''a1'']"

lemma sample_session_ok: "uid \<in> {''a1'', ''m1''} \<Longrightarrow> session_ok (accounts t) (sample_session sid pub uid)"
  by (auto simp: session_ok_def sample_session_def accounts_def user_ids_def root_def bob_def
      AbsoluteLifetime_def duration_defs)

lemma accounts_inv:
  "account_inv (accounts [])" "account_inv bob_live" "account_inv both_live"
  unfolding account_inv_def
  using sample_session_ok[of "''a1''"] sample_session_ok[of "''m1''"]
  by (simp_all add: accounts_def)
    (simp_all add: root_def bob_def user_check_def sample_session_def)

lemma bob_live_authenticated:
  "Authenticate sample_auth 0 tok0 bob_live
     = Inr (principal_of bob (sample_session (digest sample_auth tok0) ''s0'' ''m1''))"
proof (rule Authenticate_intro[OF accounts_inv(2)])
  show "validTokenShape tok0" unfolding tok0_def by (rule session_token_shape) simp
qed (simp_all add: accounts_def sample_session_def bob_def live_at_def AbsoluteLifetime_def duration_defs)

theorem session_lifetime_bounded_witness:
  "0 < si_idle (p_session (principal_of bob (sample_session (digest sample_auth tok0) ''s0'' ''m1'')))"
  using session_lifetime_bounded[OF accounts_inv(2) rtranclp.rtrancl_refl bob_live_authenticated] by blast

lemma sample_audit_ok:
  assumes "event_error e = None" and "audits d = []"
  shows "\<exists>d'. auditRecord sample_auth e d = Inr d'"
  using assms by (simp add: auditRecord_def sample_auth_def Record_def sample_env_def sql_insert_def)

lemma bob_logout: "\<exists>d1. Logout sample_auth 1 tok0 bob_live = (Inr (), d1)"
proof -
  let ?s = "sample_session (digest sample_auth tok0) ''s0'' ''m1''"
  let ?d = "revoke_where (\<lambda>s. s_id s = digest sample_auth tok0) 1 bob_live"
  have "event_error (mk_event ''auth.logout'' ''m1'' ''session'' ''s0'' ''success'') = None"
    by (simp add: event_error_def mk_event_def ValidEventName_def allowlist_def)
  then obtain d1 where "auditRecord sample_auth (mk_event ''auth.logout'' ''m1'' ''session'' ''s0'' ''success'') ?d = Inr d1"
    using sample_audit_ok[of _ ?d] by (auto simp: revoke_where_def accounts_def empty_db_def)
  then have "logout_tx sample_auth 1 tok0 bob_live = Inr ((), d1)"
    by (simp add: logout_tx_def accounts_def sample_session_def live_at_def bob_def AbsoluteLifetime_def duration_defs)
  moreover have "validTokenShape tok0" unfolding tok0_def by (rule session_token_shape) simp
  ultimately show ?thesis by (simp add: Logout_def)
qed

theorem logout_is_final_witness:
  "\<exists>d1. Logout sample_auth 1 tok0 bob_live = (Inr (), d1)
     \<and> Authenticate sample_auth 2 tok0 d1 = Inl ErrUnauthorized"
proof -
  obtain d1 where d1: "Logout sample_auth 1 tok0 bob_live = (Inr (), d1)" using bob_logout by blast
  have "Authenticate sample_auth 2 tok0 d1 = Inl ErrUnauthorized"
    by (rule logout_is_final[OF accounts_inv(2) d1 rtranclp.rtrancl_refl, where M = "{}"]) simp
  with d1 show ?thesis by blast
qed

section \<open>A login\<close>

definition bob_ticket :: login_ticket where
  "bob_ticket = \<lparr>lt_id = ''m1'', lt_hash = sample_hash, lt_session_hash = sample_hash, lt_idle = 15\<rparr>"

definition after_reserve :: db where
  "after_reserve = accounts []\<lparr>attempts := [\<lparr>a_user = user_key sample_auth ''bob'',
     a_source = source_key sample_auth ''ip'', a_created = 0\<rparr>]\<rparr>"

lemma lower_bob: "to_lower ulow ''bob'' = ''bob''"
  by (simp add: to_lower_def ascii_def lower_char_def)

lemma sample_auth_fields:
  "ae_argon sample_auth = sample_argon2" "ae_policy sample_auth = DefaultHashPolicy"
  "ae_limits sample_auth = \<lparr>l_username = 1, l_source = 20, l_global = 100\<rparr>" "ae_audit sample_auth = Some sample_env"
  by (simp_all add: sample_auth_def limit_defaults_def)

lemma bob_reserved: "reserveAttempt sample_auth 0 ''bob'' ''ip'' (accounts []) = (Inr (), after_reserve)"
  by (simp add: reserveAttempt_def in_tx_def reserve_body_def Let_def sample_auth_fields accounts_def empty_db_def
      after_reserve_def sql_delete_def duration_defs)

lemma bob_begins:
  "login_begin sample_auth 0 ''bob'' ''correct horse'' ''ip'' None (accounts []) = (Inr bob_ticket, after_reserve)"
proof -
  have u: "users after_reserve = [root, bob]" by (simp add: after_reserve_def accounts_def)
  have n: "u_norm root = ''root''" "u_norm bob = ''bob''" "u_id bob = ''m1''" "u_hash bob = sample_hash"
    "u_status bob = ''active''" "u_idle bob = 15" by (simp_all add: root_def bob_def)
  show ?thesis
    by (simp add: login_begin_def lower_bob bob_reserved login_check_def Let_def u n sample_auth_fields
        sample_hash_verifies MaxPasswordBytes_def bob_ticket_def)
qed

lemma bob_finishes:
  "\<exists>token p d3. login_finish sample_auth 1 bob_ticket (Some (replicate 32 2)) ''s9'' after_reserve = (Inr (token, p), d3)"
proof -
  let ?tok = "session_token (replicate 32 2)"
  have u: "users after_reserve = [root, bob]" "sessions after_reserve = []" "audits after_reserve = []"
    by (simp_all add: after_reserve_def accounts_def empty_db_def)
  have n: "u_id root = ''a1''" "u_id bob = ''m1''" "u_hash bob = sample_hash" "u_status bob = ''active''"
    by (simp_all add: root_def bob_def)
  define d2 where "d2 = after_reserve\<lparr>sessions := [new_session_row sample_auth ?tok ''s9'' ''m1'' 1 15]\<rparr>"
  have "login_rehash 1 bob_ticket after_reserve = Inr after_reserve"
    by (simp add: login_rehash_def bob_ticket_def)
  moreover have "login_insert sample_auth 1 bob_ticket ?tok ''s9'' after_reserve = Inr d2"
    by (simp add: login_insert_def u may_login_def bob_ticket_def n insert_session_def new_session_row_def
        sql_insert_def d2_def)
  moreover have "user_by_id (lt_id bob_ticket) d2 = Some bob"
    by (simp add: user_by_id_def sql_get_def d2_def u bob_ticket_def n)
  moreover obtain d4 where
    "auditRecord sample_auth (mk_event ''auth.login.success'' ''m1'' ''session'' ''s9'' ''success'')
      (set_idle_expiry (digest sample_auth ?tok) (1 + u_idle bob * minute_ns) d2) = Inr d4"
    using sample_audit_ok[of "mk_event ''auth.login.success'' ''m1'' ''session'' ''s9'' ''success''"
      "set_idle_expiry (digest sample_auth ?tok) (1 + u_idle bob * minute_ns) d2"]
    by (auto simp: event_error_def mk_event_def ValidEventName_def allowlist_def set_idle_expiry_def d2_def u)
  ultimately show ?thesis by (auto simp: login_finish_def in_tx_def login_tx_def Let_def bob_ticket_def)
qed

theorem login_current_credentials_witness:
  "\<exists>token p d3. login_finish sample_auth 1 bob_ticket (Some (replicate 32 2)) ''s9'' after_reserve
      = (Inr (token, p), d3) \<and> (\<exists>u \<in> set (users after_reserve). u_id u = p_user p
      \<and> Verify sample_argon2 DefaultHashPolicy ''correct horse'' (u_hash u) = Inr True)"
proof -
  obtain token p d3 where f: "login_finish sample_auth 1 bob_ticket (Some (replicate 32 2)) ''s9'' after_reserve
      = (Inr (token, p), d3)" using bob_finishes by blast
  from login_current_credentials[OF accounts_inv(1) bob_begins rtranclp.rtrancl_refl f] f
  show ?thesis by (auto simp: sample_auth_fields)
qed

section \<open>A password change\<close>

definition bob_change :: change_ticket where
  "bob_change = \<lparr>ct_principal = principal_of bob (sample_session '''' ''s0'' ''m1''),
     ct_old = sample_hash, ct_new = ''new hash''\<rparr>"

lemma digest_empty: "digest sample_auth '''' = ''''"
  by (simp add: digest_def sample_auth_def hex_encode_def bytes_of_def byte_values_def)

lemma hex_encode_even: "even (length (hex_encode bs))"
  by (induction bs) (auto simp: hex_encode_def)

lemma fresh_digest: "digest sample_auth (session_token (replicate 32 2)) \<noteq> ''''"
proof
  assume "digest sample_auth (session_token (replicate 32 2)) = ''''"
  then have "session_token (replicate 32 2) = ''''"
    by (simp add: digest_def sample_auth_def hex_encode_def bytes_of_def byte_values_def)
  then have "base64_decode url_alphabet (session_token (replicate 32 2)) = Some []"
    by (simp add: base64_decode_def)
  then show False by (simp add: session_token_def base64_roundtrip[OF url_alphabet_ok])
qed

lemma both_live_fields:
  "users both_live = [root, bob]" "audits both_live = []"
  "sessions both_live = [sample_session '''' ''s0'' ''m1'', sample_session ''x'' ''s1'' ''a1'']"
  by (simp_all add: accounts_def empty_db_def)

lemma row_ids: "u_id root = ''a1''" "u_id bob = ''m1''" "u_hash bob = sample_hash" "u_status bob = ''active''"
  "u_status root = ''active''" "u_role root = RoleAdmin" "u_role bob = RoleMember" "\<not> u_must_change root"
  "u_display bob = ''Bob''"
  by (simp_all add: root_def bob_def)

lemma sample_live: "live_at 1 (sample_session i pub w)" "s_id (sample_session i pub w) = i"
  "s_user (sample_session i pub w) = w" "s_public (sample_session i pub w) = pub"
  "s_revoked (sample_session i pub w) = None"
  by (simp_all add: live_at_def sample_session_def AbsoluteLifetime_def duration_defs)

lemma bob_changes:
  "\<exists>p d'. change_finish sample_auth 1 '''' bob_change (Some (replicate 32 2)) ''s9'' both_live
     = (Inr (session_token (replicate 32 2), p), d')"
proof -
  let ?tok = "session_token (replicate 32 2)"
  let ?bob = "bob\<lparr>u_hash := ''new hash'', u_must_change := False, u_updated := 1\<rparr>"
  let ?p = "may_change sample_auth 1 '''' bob_change both_live"
  have uid: "p_user (ct_principal bob_change) = ''m1''" "ct_old bob_change = sample_hash" "ct_new bob_change = ''new hash''"
    by (simp_all add: bob_change_def row_ids)
  have m: "?p bob" "\<not> ?p root"
    by (simp_all add: may_change_def uid row_ids digest_empty both_live_fields sample_live)
  then have one: "sql_affected ?p (users both_live) = 1" by (simp add: both_live_fields sql_affected_def)
  have upd: "sql_update ?p (\<lambda>u. u\<lparr>u_hash := ''new hash'', u_must_change := False, u_updated := 1\<rparr>) (users both_live)
      = [root, ?bob]" using m by (simp add: both_live_fields sql_update_def)
  define d2 where "d2 = revoke_where (\<lambda>s. s_user s = ''m1'') 1 (both_live\<lparr>users := [root, ?bob]\<rparr>)"
  have s2: "sessions d2 = [(sample_session '''' ''s0'' ''m1'')\<lparr>s_revoked := Some 1\<rparr>, sample_session ''x'' ''s1'' ''a1'']"
    by (simp add: d2_def revoke_where_def both_live_fields sql_update_def sample_live)
  have f2: "users d2 = [root, ?bob]" "s_id ` set (sessions d2) = {'''', ''x''}"
    "s_public ` set (sessions d2) = {''s0'', ''s1''}" "audits d2 = []"
    by (simp_all add: s2 sample_live) (simp_all add: d2_def revoke_where_def both_live_fields)
  have byid: "user_by_id ''m1'' d2 = Some ?bob" by (simp add: user_by_id_def sql_get_def f2 row_ids)
  define d3 where "d3 = d2\<lparr>sessions := sessions d2 @ [new_session_row sample_auth ?tok ''s9'' ''m1'' 1 (u_idle bob)]\<rparr>"
  have "digest sample_auth ?tok \<noteq> ''x''"
  proof
    assume "digest sample_auth ?tok = ''x''"
    then have "even (length ''x'')" by (metis digest_def hex_encode_even)
    then show False by simp
  qed
  then have ins: "insert_session (new_session_row sample_auth ?tok ''s9'' ''m1'' 1 (u_idle bob)) d2 = Inr d3"
    using fresh_digest f2 by (simp add: insert_session_def sql_insert_def new_session_row_def row_ids d3_def)
  obtain d4 where aud: "auditRecord sample_auth (mk_event ''auth.password.changed'' ''m1'' ''user'' ''m1'' ''success'') d3 = Inr d4"
    using sample_audit_ok[of "mk_event ''auth.password.changed'' ''m1'' ''user'' ''m1'' ''success''" d3]
    by (auto simp: event_error_def mk_event_def ValidEventName_def allowlist_def d3_def f2)
  have idle: "u_idle ?bob = u_idle bob" by simp
  show ?thesis
    unfolding change_finish_def in_tx_def change_tx_def Let_def uid upd option.case
    using one byid ins aud by (simp add: d2_def[symmetric])
qed

theorem password_change_rotates_witness:
  "\<exists>fresh p d'. change_finish sample_auth 1 '''' bob_change (Some (replicate 32 2)) ''s9'' both_live
      = (Inr (fresh, p), d') \<and> (\<exists>u \<in> set (users d'). u_id u = ''m1'' \<and> u_hash u = ''new hash'')"
proof -
  obtain p d' where c: "change_finish sample_auth 1 '''' bob_change (Some (replicate 32 2)) ''s9'' both_live
     = (Inr (session_token (replicate 32 2), p), d')" using bob_changes by blast
  from password_change_rotates[OF accounts_inv(3) c] c show ?thesis
    by (auto simp: bob_change_def row_ids)
qed

section \<open>Administration\<close>

definition sample_users :: user_env where
  "sample_users = \<lparr>us_argon = sample_argon2, us_policy = DefaultHashPolicy, us_ulow = (\<lambda>s. s),
     us_audit = sample_env, us_idem = \<lparr>io_pending = 0, io_completed = 0\<rparr>\<rparr>"

definition root_acting :: principal where
  "root_acting = principal_of root (sample_session ''x'' ''s1'' ''a1'')"

lemma root_acting_fields: "p_user root_acting = ''a1''" "p_role root_acting = RoleAdmin"
  "si_id (p_session root_acting) = ''s1''" "requireAdmin (Some root_acting) = Inr root_acting"
  by (simp_all add: root_acting_def principal_of_def session_info_of_def row_ids sample_live requireAdmin_def)

lemma root_authorized: "authorizeWrite 1 root_acting both_live = Inr ()"
  by (simp add: authorizeWrite_def sql_affected_def live_admin_def both_live_fields row_ids
      root_acting_fields sample_live)

lemma sample_user_audit:
  assumes "event_error (mk_event n ''a1'' ''user'' ''m1'' ''success'') = None" and "audits d = []"
  shows "\<exists>d'. audit_user sample_users n root_acting ''m1'' d = Inr d'"
  using assms by (simp add: audit_user_def sample_users_def root_acting_fields Record_def sample_env_def sql_insert_def)

lemma bob_disabled: "\<exists>d1. disable_tx sample_users 1 root_acting ''m1'' both_live = Inr (None, d1)"
proof -
  let ?d = "revoke_user ''m1'' 1 (set_status (may_disable ''m1'' both_live) ''disabled'' 1 both_live)"
  have "sql_affected (may_disable ''m1'' both_live) (users both_live) = 1"
    by (simp add: sql_affected_def may_disable_def both_live_fields row_ids)
  moreover obtain d1 where "audit_user sample_users ''user.disabled'' root_acting ''m1'' ?d = Inr d1"
    using sample_user_audit[of "''user.disabled''" ?d]
    by (auto simp: event_error_def mk_event_def ValidEventName_def allowlist_def revoke_user_def
        revoke_where_def set_status_def both_live_fields)
  ultimately show ?thesis by (simp add: disable_tx_def root_authorized)
qed

theorem disable_kills_sessions_witness:
  "\<exists>d1. disable_tx sample_users 1 root_acting ''m1'' both_live = Inr (None, d1)
     \<and> Authenticate sample_auth 2 '''' d1 = Inl ErrUnauthorized"
proof -
  obtain d1 where d1: "disable_tx sample_users 1 root_acting ''m1'' both_live = Inr (None, d1)"
    using bob_disabled by blast
  have "Authenticate sample_auth 2 '''' d1 = Inl ErrUnauthorized"
    using disable_kills_sessions[OF accounts_inv(3) d1, of "sample_session '''' ''s0'' ''m1''" sample_auth "''''"]
    by (auto simp: both_live_fields sample_live digest_empty)
  with d1 show ?thesis by blast
qed

theorem last_admin_survives_witness:
  "\<exists>d1. disable_tx sample_users 1 root_acting ''m1'' both_live = Inr (None, d1)
     \<and> (\<exists>u \<in> set (users d1). u_role u = RoleAdmin \<and> u_status u = ''active'')"
proof -
  obtain d1 where d1: "disable_tx sample_users 1 root_acting ''m1'' both_live = Inr (None, d1)"
    using bob_disabled by blast
  then have "in_tx (disable_tx sample_users 1 root_acting ''m1'') both_live = (Inr None, d1)" by simp
  then have "(account_step sample_auth sample_users undefined {})\<^sup>*\<^sup>* both_live d1"
    by (intro r_into_rtranclp account_step.disable)
  moreover have "has_admin both_live" by (simp add: has_admin_def admin_row_def both_live_fields row_ids)
  ultimately have "\<exists>u \<in> set (users d1). u_role u = RoleAdmin \<and> u_status u = ''active''"
    using last_admin_survives[OF accounts_inv(3)] by blast
  with d1 show ?thesis by blast
qed

lemma bob_deleted: "\<exists>d1. DeleteUser sample_users 1 (Some root_acting) ''m1'' ''Bob'' both_live = (Inr (), d1)"
proof -
  have "sql_affected (may_delete ''m1'' both_live) (users both_live) = 1"
    by (simp add: sql_affected_def may_delete_def both_live_fields row_ids)
  moreover obtain d1 where "audit_user sample_users ''user.deleted'' root_acting ''m1''
      ((delete_item_rows (item_of_user ''m1'') (delete_user_row ''m1'' both_live))\<lparr>idem := sql_delete
        (\<lambda>k. sql_like (''%:'' @ ''m1'') (k_scope k)) (idem (delete_item_rows (item_of_user ''m1'') (delete_user_row ''m1'' both_live)))\<rparr>) = Inr d1"
    using sample_user_audit[of "''user.deleted''" "(delete_item_rows (item_of_user ''m1'') (delete_user_row ''m1'' both_live))\<lparr>idem := sql_delete
        (\<lambda>k. sql_like (''%:'' @ ''m1'') (k_scope k)) (idem (delete_item_rows (item_of_user ''m1'') (delete_user_row ''m1'' both_live)))\<rparr>"]
    by (auto simp: event_error_def mk_event_def ValidEventName_def allowlist_def frame_simps
        delete_user_row_def both_live_fields)
  ultimately have "delete_user_tx sample_users 1 root_acting ''m1'' both_live = Inr ((), d1)"
    by (simp add: delete_user_tx_def root_authorized Let_def)
  moreover have "user_by_id ''m1'' both_live = Some bob"
    by (simp add: user_by_id_def sql_get_def both_live_fields row_ids)
  ultimately show ?thesis by (simp add: DeleteUser_def root_acting_fields row_ids)
qed

theorem delete_is_complete_witness:
  "\<exists>d1. DeleteUser sample_users 1 (Some root_acting) ''m1'' ''Bob'' both_live = (Inr (), d1) \<and> users d1 = [root]"
proof -
  obtain d1 where d1: "DeleteUser sample_users 1 (Some root_acting) ''m1'' ''Bob'' both_live = (Inr (), d1)"
    using bob_deleted by blast
  from delete_is_complete[OF accounts_inv(3) d1] have "users d1 = [root]"
    by (simp add: both_live_fields row_ids)
  with d1 show ?thesis by blast
qed

section \<open>Setup\<close>

definition sample_setup :: setup_env where
  "sample_setup = \<lparr>se_sha256 = (\<lambda>b. b), se_hmac = (\<lambda>k m. k), se_key = Some (replicate 32 5),
     se_argon = sample_argon2, se_policy = DefaultHashPolicy, se_ulow = (\<lambda>s. s),
     se_audit = sample_env, se_idem = \<lparr>io_pending = 0, io_completed = 0\<rparr>\<rparr>"

definition setup_form :: setup_input where
  "setup_form = \<lparr>in_token = ''secret'', in_username = ''Root'', in_password = ''correct horse'', in_claim = None\<rparr>"

definition fresh_setup :: setup_state where
  "fresh_setup = \<lparr>st_db = empty_db, st_token = Some (Some (bytes_of ''secret''))\<rparr>"

lemma root_created:
  "\<exists>s1. Initialize sample_setup 1 setup_form (Some (replicate 16 7)) ''a1'' ''e1'' fresh_setup
     = (Inr (''a1'', ''Root''), s1)"
proof -
  have t: "TargetParams DefaultHashPolicy = DefaultHashParams" by (simp add: DefaultHashPolicy_def)
  obtain h where h: "Hash sample_argon2 DefaultHashPolicy (Some (replicate 16 7)) ''correct horse'' = Inr h"
    using valid_policy_target(2)[OF default_policy_valid] t by (simp add: Hash_def sample_password_ok derive_def)
  have ini: "kv_get ''initialized'' (sysstate empty_db) = Some ''0''" by (simp add: kv_get_def empty_db_def)
  have name: "valid_username ''Root''"
    by (simp add: valid_username_def usernamePattern_def username_head_def username_char_def is_alnum_def)
  have chk: "setup_check sample_setup setup_form (Some (replicate 16 7)) fresh_setup
      = (Inr (replicate 32 5, h), fresh_setup)"
    by (simp add: setup_check_def sample_setup_def setup_form_def fresh_setup_def isInitialized_def ini Matches_def
        name h sample_password_ok)
  have "\<exists>d'. initialize_tx sample_setup 1 (replicate 32 5) setup_form ''a1'' ''e1'' h empty_db = Inr (''a1'', d')"
    by (simp add: initialize_tx_def ini Let_def insert_user_def first_admin_def user_check_def setup_form_def
        sql_insert_def empty_db_def kv_get_def)
  moreover have "st_db fresh_setup = empty_db" "in_username setup_form = ''Root''"
    by (simp_all add: fresh_setup_def setup_form_def)
  ultimately show ?thesis by (auto simp: Initialize_def chk setup_commit_def in_tx_def)
qed

theorem setup_exactly_once_witness:
  "\<exists>s1. Initialize sample_setup 1 setup_form (Some (replicate 16 7)) ''a1'' ''e1'' fresh_setup
      = (Inr (''a1'', ''Root''), s1) \<and> \<not> Matches (\<lambda>b. b) (st_token s1) ''secret''"
proof -
  obtain s1 where s1: "Initialize sample_setup 1 setup_form (Some (replicate 16 7)) ''a1'' ''e1'' fresh_setup
      = (Inr (''a1'', ''Root''), s1)" using root_created by blast
  have key: "se_key sample_setup = Some (replicate 32 5)" by (simp add: sample_setup_def)
  from setup_exactly_once[OF key s1 rtranclp.rtrancl_refl, of "''secret''"] s1 show ?thesis
    by (auto simp: sample_setup_def)
qed

end
