(* ===== verification/Rekey.thy ===== *)
theory Rekey
  imports VaultInvariant Accounts
begin

text \<open>
  \<open>backup/rekey.go\<close> and the payload walk of \<open>backup/restore.go\<close>: a restored database is decrypted
  row by row with the key of the archive and re-encrypted under the mounted key, in one
  transaction, and then checked by decrypting everything again.

  The nonce of a re-encryption is drawn per row; \<open>rk_order\<close> is the order in which Go iterates the
  map of pending item updates, about which only that it visits every entry once is known.
\<close>

section \<open>Walking a list of fallible calls\<close>

fun traverse :: "('a \<Rightarrow> 'e + 'b) \<Rightarrow> 'a list \<Rightarrow> 'e + 'b list" where
  "traverse f [] = Inr []"
| "traverse f (x # xs) = andthen (f x) (\<lambda>y. andthen (traverse f xs) (\<lambda>ys. Inr (y # ys)))"

lemma traverse_Inr: "traverse f xs = Inr ys \<longleftrightarrow> list_all2 (\<lambda>x y. f x = Inr y) xs ys"
  by (induction xs arbitrary: ys) (auto simp: result_Inr list_all2_Cons1)

lemma traverse_map: "(\<And>x. x \<in> set xs \<Longrightarrow> f x = Inr (g x)) \<Longrightarrow> traverse f xs = Inr (map g xs)"
  by (induction xs) auto

section \<open>Row identities\<close>

record identity =
  idn_scope :: string
  idn_subject :: string

definition identity_of :: "item_row \<Rightarrow> identity" where
  "identity_of r = \<lparr>idn_scope = it_scope r,
     idn_subject = (if null_string (it_owner r) = '''' then null_string (it_creator r)
                    else null_string (it_owner r))\<rparr>"

definition identities :: "db \<Rightarrow> string \<Rightarrow> identity option" where
  "identities d = map_of (rev (map (\<lambda>r. (it_id r, identity_of r)) (items d)))"

definition identity_aad :: "string \<Rightarrow> identity \<Rightarrow> 16 word \<Rightarrow> nat \<Rightarrow> AAD" where
  "identity_aad iid i pv rv = AADFor iid (idn_scope i) (idn_subject i) '''' pv rv"

lemma identity_aad_row: "identity_aad (it_id r) (identity_of r) = row_aad r"
  by (intro ext) (simp add: identity_aad_def row_aad_def identity_of_def AADFor_def)

lemma identities_eq:
  assumes "distinct (map it_id (items d))" and "r \<in> set (items d)"
  shows "identities d (it_id r) = Some (identity_of r)"
proof -
  let ?ps = "rev (map (\<lambda>r. (it_id r, identity_of r)) (items d))"
  have "distinct (map fst ?ps)" using assms(1) by (simp add: rev_map[symmetric] comp_def)
  moreover have "(it_id r, identity_of r) \<in> set ?ps" using assms(2) by auto
  ultimately show ?thesis unfolding identities_def by (simp add: map_of_eq_Some_iff)
qed

lemma identities_cong:
  "map (\<lambda>r. (it_id r, identity_of r)) (items d') = map (\<lambda>r. (it_id r, identity_of r)) (items d) \<Longrightarrow>
     identities d' = identities d"
  by (simp only: identities_def)

section \<open>Re-encryption\<close>

record rekey_env =
  rk_aead :: aead
  rk_source :: bytes
  rk_target :: bytes
  rk_item_nonce :: "string \<Rightarrow> bytes"
  rk_version_nonce :: "string \<Rightarrow> nat \<Rightarrow> bytes"
  rk_order :: "item_row list \<Rightarrow> item_row list"

datatype rekey_error = RekeyMissingIdentity | RekeyDecryptItem crypto_error | RekeyTooShort
  | RekeyDecryptVersion crypto_error

record rekey_report =
  rr_items :: nat
  rr_versions :: nat
  rr_auth :: nat

definition reseal :: "rekey_env \<Rightarrow> bytes \<Rightarrow> 16 word \<Rightarrow> bytes \<Rightarrow> bytes \<Rightarrow> AAD \<Rightarrow> crypto_error + bytes" where
  "reseal R fresh pv nonce ct aad =
    andthen (DecryptColumns (rk_aead R) (rk_source R) pv nonce ct aad) (\<lambda>plain.
    Inr (EncryptEncoded (rk_aead R) (rk_target R) fresh plain aad))"

text \<open>The columns of an encoded envelope.\<close>

definition blob_nonce :: "bytes \<Rightarrow> bytes" where "blob_nonce enc = take nonceSize (drop 2 enc)"
definition blob_ct :: "bytes \<Rightarrow> bytes" where "blob_ct enc = drop (2 + nonceSize) enc"

definition rekeyItem :: "string \<Rightarrow> 16 word \<Rightarrow> bytes \<Rightarrow> db \<Rightarrow> rekey_error + db" where
  "rekeyItem iid pv enc d =
    (if length enc < 2 + nonceSize + 16 then Inl RekeyTooShort
     else Inr (d\<lparr>items := sql_update (\<lambda>r. it_id r = iid)
       (\<lambda>r. r\<lparr>it_pver := pv, it_nonce := blob_nonce enc, it_ct := blob_ct enc\<rparr>) (items d)\<rparr>))"

fun rekey_items :: "rekey_env \<Rightarrow> (string \<Rightarrow> identity option) \<Rightarrow> item_row list \<Rightarrow> db \<Rightarrow> rekey_error + db" where
  "rekey_items R idn [] d = Inr d"
| "rekey_items R idn (u # us) d =
    andthen (from_option RekeyMissingIdentity (idn (it_id u))) (\<lambda>i.
    andthen (map_err RekeyDecryptItem (reseal R (rk_item_nonce R (it_id u)) (it_pver u) (it_nonce u)
      (it_ct u) (identity_aad (it_id u) i (it_pver u) (it_rev u)))) (\<lambda>enc.
    andthen (rekeyItem (it_id u) (it_pver u) enc d) (\<lambda>d'. rekey_items R idn us d')))"

text \<open>The versions are re-encrypted in one pass over the query and written afterwards.\<close>

definition rekey_version ::
  "rekey_env \<Rightarrow> (string \<Rightarrow> identity option) \<Rightarrow> version_row \<Rightarrow> rekey_error + (version_row \<times> bytes)" where
  "rekey_version R idn v =
    andthen (from_option RekeyMissingIdentity (idn (v_item v))) (\<lambda>i.
    andthen (map_err RekeyDecryptVersion (reseal R (rk_version_nonce R (v_item v) (v_rev v)) (v_pver v)
      (v_nonce v) (v_ct v) (identity_aad (v_item v) i (v_pver v) (v_rev v)))) (\<lambda>enc.
    Inr (v, enc)))"

definition update_version :: "version_row \<times> bytes \<Rightarrow> version_row list \<Rightarrow> version_row list" where
  "update_version u vs =
    sql_update (\<lambda>v. v_item v = v_item (fst u) \<and> v_rev v = v_rev (fst u))
      (\<lambda>v. v\<lparr>v_pver := v_pver (fst u), v_nonce := blob_nonce (snd u), v_ct := blob_ct (snd u)\<rparr>) vs"

definition rekey_tx :: "rekey_env \<Rightarrow> db \<Rightarrow> rekey_error + (rekey_report \<times> db)" where
  "rekey_tx R d =
    (let idn = identities d; updates = rk_order R (items d) in
     andthen (rekey_items R idn updates d) (\<lambda>d1.
     andthen (traverse (rekey_version R idn) (versions d1)) (\<lambda>us.
     Inr (\<lparr>rr_items = length updates, rr_versions = length us, rr_auth = length (sessions d1)\<rparr>,
       d1\<lparr>versions := fold update_version us (versions d1), sessions := [], attempts := [], idem := []\<rparr>))))"

definition RekeyCandidate :: "rekey_env \<Rightarrow> db \<Rightarrow> (rekey_error + rekey_report) \<times> db" where
  "RekeyCandidate R d = in_tx (rekey_tx R) d"

section \<open>The payload walk\<close>

datatype verify_error = VerifyMissingIdentity | VerifyDecrypt crypto_error

type_synonym payload_columns = "string \<times> 16 word \<times> bytes \<times> bytes \<times> nat"

definition payload_columns_of :: "db \<Rightarrow> payload_columns list" where
  "payload_columns_of d =
     map (\<lambda>r. (it_id r, it_pver r, it_nonce r, it_ct r, it_rev r)) (items d) @
     map (\<lambda>v. (v_item v, v_pver v, v_nonce v, v_ct v, v_rev v)) (versions d)"

definition iteratePayloads ::
  "(16 word \<Rightarrow> bytes \<Rightarrow> bytes \<Rightarrow> AAD \<Rightarrow> crypto_error + 'a) \<Rightarrow> db \<Rightarrow> verify_error + unit" where
  "iteratePayloads visit d =
    (let idn = identities d in
     andthen (traverse (\<lambda>(iid, pv, nonce, ct, rv).
         andthen (from_option VerifyMissingIdentity (idn iid)) (\<lambda>i.
         map_err VerifyDecrypt (visit pv nonce ct (identity_aad iid i pv rv)))) (payload_columns_of d)) (\<lambda>_.
     Inr ()))"

definition verifyCandidate :: "aead \<Rightarrow> bytes \<Rightarrow> db \<Rightarrow> verify_error + unit" where
  "verifyCandidate A key d = iteratePayloads (DecryptColumns A key) d"

section \<open>The restore marker\<close>

definition restoreMarkerKey :: string where
  "restoreMarkerKey = ''restore_backup_id''"

definition stampRestoreMarker :: "string \<Rightarrow> db \<Rightarrow> db" where
  "stampRestoreMarker backupID d = d\<lparr>sysstate := kv_put restoreMarkerKey backupID (sysstate d)\<rparr>"

definition readRestoreMarker :: "db \<Rightarrow> string" where
  "readRestoreMarker d = (case kv_get restoreMarkerKey (sysstate d) of None \<Rightarrow> '''' | Some v \<Rightarrow> v)"

lemma readRestoreMarker_stamp [simp]: "readRestoreMarker (stampRestoreMarker b d) = b"
  by (simp add: readRestoreMarker_def stampRestoreMarker_def)


section \<open>A keyed batch of updates is a map\<close>

definition batch :: "('u \<Rightarrow> 'k) \<Rightarrow> ('r \<Rightarrow> 'k) \<Rightarrow> ('u \<Rightarrow> 'r \<Rightarrow> 'r) \<Rightarrow> 'u list \<Rightarrow> 'r list \<Rightarrow> 'r list" where
  "batch ukey key g us t = fold (\<lambda>u. sql_update (\<lambda>r. key r = ukey u) (g u)) us t"

lemma batch_miss:
  "(\<And>u r. key (g u r) = key r) \<Longrightarrow> k \<notin> ukey ` set us \<Longrightarrow> key r = k \<Longrightarrow>
   batch ukey key g us (r # t) = r # batch ukey key g us t"
  by (induction us arbitrary: t) (auto simp: batch_def sql_update_def)

lemma batch_hit:
  assumes "\<And>u r. key (g u r) = key r" and "distinct (map ukey us)" and "u \<in> set us" and "key r = ukey u"
  shows "batch ukey key g us (r # t) = g u r # batch ukey key g us t"
  using assms(2-)
proof (induction us arbitrary: t)
  case Nil
  then show ?case by simp
next
  case (Cons w us)
  let ?upd = "sql_update (\<lambda>r. key r = ukey w) (g w)"
  have split: "batch ukey key g (w # us) s = batch ukey key g us (?upd s)" for s
    by (simp add: batch_def)
  show ?case
  proof (cases "u = w")
    case True
    then have "?upd (r # t) = g u r # ?upd t" using Cons.prems by (simp add: sql_update_def)
    moreover have "batch ukey key g us (g u r # ?upd t) = g u r # batch ukey key g us (?upd t)"
      using Cons.prems True assms(1) by (intro batch_miss[of key g "ukey u"]) auto
    ultimately show ?thesis by (simp add: split)
  next
    case False
    then have u: "u \<in> set us" "ukey u \<noteq> ukey w" using Cons.prems by (auto simp: image_iff)
    then have "?upd (r # t) = r # ?upd t" using Cons.prems by (simp add: sql_update_def)
    then show ?thesis using Cons.IH[of "?upd t"] u Cons.prems by (simp add: split)
  qed
qed

lemma batch_map:
  assumes "\<And>u r. key (g u r) = key r" and "distinct (map ukey us)"
    and "\<And>r. r \<in> set t \<Longrightarrow> \<exists>u \<in> set us. ukey u = key r \<and> g u r = h r"
  shows "batch ukey key g us t = map h t"
  using assms(3)
proof (induction t)
  case Nil
  have "fold (\<lambda>u. sql_update (\<lambda>r. key r = ukey u) (g u)) us [] = []"
    by (induction us) (auto simp: sql_update_def)
  then show ?case by (simp add: batch_def)
next
  case (Cons r t)
  then obtain u where "u \<in> set us" "key r = ukey u" "g u r = h r" by fastforce
  then show ?case using batch_hit[of key g ukey us u r t] assms(1,2) Cons by simp
qed

section \<open>Re-encryption keeps the content\<close>

text \<open>The documented behaviour of the encryption that this part relies on: a sealed text is at
  least sixteen bytes longer, and nonces have their fixed length; and the map is visited once per
  entry.\<close>

definition aead_long :: "aead \<Rightarrow> bool" where
  "aead_long A \<longleftrightarrow> (\<forall>k n p a. length p + 16 \<le> length (seal A k n p a))"

definition rekey_env_ok :: "rekey_env \<Rightarrow> bool" where
  "rekey_env_ok R \<longleftrightarrow> aead_opens (rk_aead R) \<and> aead_long (rk_aead R) \<and>
     (\<forall>i. length (rk_item_nonce R i) = nonceSize) \<and>
     (\<forall>i n. length (rk_version_nonce R i n) = nonceSize) \<and>
     (\<forall>xs. distinct (map it_id xs) \<longrightarrow> set (rk_order R xs) = set xs \<and> distinct (map it_id (rk_order R xs)))"

definition serves :: "rekey_env \<Rightarrow> venv \<Rightarrow> bool" where
  "serves R V \<longleftrightarrow> rekey_env_ok R \<and> venv_ok V \<and> rk_aead R = ve_aead V \<and> rk_source R = ve_key V"

definition target_venv :: "rekey_env \<Rightarrow> venv \<Rightarrow> venv" where
  "target_venv R V = V\<lparr>ve_key := rk_target R\<rparr>"

lemma aead_longD: "aead_long A \<Longrightarrow> 16 \<le> length (seal A k n p a)"
  unfolding aead_long_def by (metis add_leD2)

lemma blob_of_encode:
  "length (ep_nonce e) = nonceSize \<Longrightarrow>
     blob_nonce (ep_encode e) = ep_nonce e \<and> blob_ct (ep_encode e) = ep_ciphertext e"
  by (simp add: blob_nonce_def blob_ct_def ep_encode_def)

lemma holds_version: "holds V pv nonce ct aad tags p \<Longrightarrow> pv = PayloadVersion"
  by (auto simp: holds_def DecryptColumns_def Decrypt_def split: if_splits)

lemma reseal_holds:
  assumes "serves R V" and h: "holds V pv nonce ct aad tags p" and n: "length fresh = nonceSize"
  shows "\<exists>enc. reseal R fresh pv nonce ct aad = Inr enc \<and> 2 + nonceSize + 16 \<le> length enc \<and>
     (\<forall>tags p. holds V pv nonce ct aad tags p \<longrightarrow>
        holds (target_venv R V) pv (blob_nonce enc) (blob_ct enc) aad tags p)"
proof -
  let ?e = "Encrypt (rk_aead R) (rk_target R) fresh (content V tags p) aad"
  from h assms(1) have dec: "DecryptColumns (rk_aead R) (rk_source R) pv nonce ct aad = Inr (content V tags p)"
    by (simp add: holds_def serves_def)
  have b: "blob_nonce (ep_encode ?e) = fresh" "blob_ct (ep_encode ?e) = ep_ciphertext ?e"
    using blob_of_encode[of ?e] n by (simp_all add: Encrypt_def)
  have len: "2 + nonceSize + 16 \<le> length (ep_encode ?e)"
    using assms(1) n aead_longD[of "rk_aead R" "rk_target R" fresh "content V tags p" "aad_encode aad"]
    by (auto simp: ep_encode_def Encrypt_def serves_def rekey_env_ok_def)
  have "DecryptColumns (rk_aead R) (rk_target R) PayloadVersion fresh (ep_ciphertext ?e) aad
      = Inr (content V tags p)"
    using DecryptColumns_Encrypt[of "rk_aead R" fresh "rk_target R" "content V tags p" aad] assms(1) n
    by (auto simp: serves_def rekey_env_ok_def Encrypt_def)
  moreover have "content (target_venv R V) t q = content V t q" for t q
    by (simp add: content_def target_venv_def)
  moreover have "content V t q = content V tags p" if "holds V pv nonce ct aad t q" for t q
    using that h by (simp add: holds_def)
  ultimately have "\<And>t q. holds V pv nonce ct aad t q \<Longrightarrow>
      DecryptColumns (rk_aead R) (rk_target R) PayloadVersion fresh (ep_ciphertext ?e) aad
        = Inr (content (target_venv R V) t q)"
    by simp
  note dec' = this
  have "holds (target_venv R V) pv (blob_nonce (ep_encode ?e)) (blob_ct (ep_encode ?e)) aad t q"
    if t: "holds V pv nonce ct aad t q" for t q
  proof -
    from t have "wire_ok t q" by (simp add: holds_def)
    moreover have "DecryptColumns (ve_aead (target_venv R V)) (ve_key (target_venv R V)) pv fresh
        (ep_ciphertext ?e) aad = Inr (content (target_venv R V) t q)"
      using dec'[OF t] holds_version[OF h] assms(1) by (simp add: target_venv_def serves_def)
    ultimately show ?thesis by (simp add: holds_def b)
  qed
  then show ?thesis
    using dec len by (intro exI[of _ "ep_encode ?e"]) (simp add: reseal_def EncryptEncoded_def)
qed

section \<open>The whole candidate\<close>

definition item_blob :: "rekey_env \<Rightarrow> item_row \<Rightarrow> bytes" where
  "item_blob R r = (case reseal R (rk_item_nonce R (it_id r)) (it_pver r) (it_nonce r) (it_ct r)
      (row_aad r (it_pver r) (it_rev r)) of Inl _ \<Rightarrow> [] | Inr enc \<Rightarrow> enc)"

definition rekeyed_item :: "rekey_env \<Rightarrow> item_row \<Rightarrow> item_row" where
  "rekeyed_item R r = r\<lparr>it_nonce := blob_nonce (item_blob R r), it_ct := blob_ct (item_blob R r)\<rparr>"

definition version_blob :: "rekey_env \<Rightarrow> (string \<Rightarrow> identity option) \<Rightarrow> version_row \<Rightarrow> bytes" where
  "version_blob R idn v = (case rekey_version R idn v of Inl _ \<Rightarrow> [] | Inr (_, enc) \<Rightarrow> enc)"

definition rekeyed_version :: "rekey_env \<Rightarrow> (string \<Rightarrow> identity option) \<Rightarrow> version_row \<Rightarrow> version_row" where
  "rekeyed_version R idn v =
     v\<lparr>v_nonce := blob_nonce (version_blob R idn v), v_ct := blob_ct (version_blob R idn v)\<rparr>"

definition rekeyed_db :: "rekey_env \<Rightarrow> db \<Rightarrow> db" where
  "rekeyed_db R d = d\<lparr>items := map (rekeyed_item R) (items d),
     versions := map (rekeyed_version R (identities d)) (versions d),
     sessions := [], attempts := [], idem := []\<rparr>"

definition write_item :: "rekey_env \<Rightarrow> item_row \<Rightarrow> item_row \<Rightarrow> item_row" where
  "write_item R u r =
     r\<lparr>it_pver := it_pver u, it_nonce := blob_nonce (item_blob R u), it_ct := blob_ct (item_blob R u)\<rparr>"

lemma rekeyed_item_simps [simp]:
  "it_id (rekeyed_item R r) = it_id r" "it_scope (rekeyed_item R r) = it_scope r"
  "it_owner (rekeyed_item R r) = it_owner r" "it_creator (rekeyed_item R r) = it_creator r"
  "it_type (rekeyed_item R r) = it_type r" "it_pver (rekeyed_item R r) = it_pver r"
  "it_rev (rekeyed_item R r) = it_rev r" "it_deleted (rekeyed_item R r) = it_deleted r"
  "policyView (rekeyed_item R r) = policyView r" "identity_of (rekeyed_item R r) = identity_of r"
  "row_aad (rekeyed_item R r) = row_aad r"
  by (simp_all add: rekeyed_item_def policyView_def policyItem_def identity_of_def
      row_aad_cong[of "r\<lparr>it_nonce := n, it_ct := c\<rparr>" r for n c])

lemma rekeyed_version_simps [simp]:
  "v_item (rekeyed_version R idn v) = v_item v" "v_rev (rekeyed_version R idn v) = v_rev v"
  "v_pver (rekeyed_version R idn v) = v_pver v"
  "version_key (rekeyed_version R idn v) = version_key v"
  by (simp_all add: rekeyed_version_def version_key_def)

lemma item_blob_ok:
  assumes "serves R V" and "row_holds V r tags p"
  shows "reseal R (rk_item_nonce R (it_id r)) (it_pver r) (it_nonce r) (it_ct r)
           (row_aad r (it_pver r) (it_rev r)) = Inr (item_blob R r)"
    and "2 + nonceSize + 16 \<le> length (item_blob R r)"
    and "row_holds V r tags p \<Longrightarrow> row_holds (target_venv R V) (rekeyed_item R r) tags p"
proof -
  have n: "length (rk_item_nonce R (it_id r)) = nonceSize"
    using assms(1) by (simp add: serves_def rekey_env_ok_def)
  have h: "holds V (it_pver r) (it_nonce r) (it_ct r) (row_aad r (it_pver r) (it_rev r)) tags p"
    using assms(2) by (simp add: row_holds_def)
  from reseal_holds[OF assms(1) h n] obtain enc where
    e: "reseal R (rk_item_nonce R (it_id r)) (it_pver r) (it_nonce r) (it_ct r)
           (row_aad r (it_pver r) (it_rev r)) = Inr enc" "2 + nonceSize + 16 \<le> length enc"
    and k: "holds (target_venv R V) (it_pver r) (blob_nonce enc) (blob_ct enc)
           (row_aad r (it_pver r) (it_rev r)) tags p"
    using h by blast
  from e(1) have b: "item_blob R r = enc" by (simp add: item_blob_def)
  show "reseal R (rk_item_nonce R (it_id r)) (it_pver r) (it_nonce r) (it_ct r)
           (row_aad r (it_pver r) (it_rev r)) = Inr (item_blob R r)"
    and "2 + nonceSize + 16 \<le> length (item_blob R r)" using e b by simp_all
  show "row_holds (target_venv R V) (rekeyed_item R r) tags p"
    using k b assms(2) by (simp add: row_holds_def) (simp add: rekeyed_item_def)
qed

lemma rekey_items_run:
  assumes "serves R V" and "\<And>u. u \<in> set us \<Longrightarrow> idn (it_id u) = Some (identity_of u)"
    and "\<And>u. u \<in> set us \<Longrightarrow> \<exists>tags p. row_holds V u tags p"
  shows "rekey_items R idn us d = Inr (d\<lparr>items := batch it_id it_id (write_item R) us (items d)\<rparr>)"
  using assms(2,3)
proof (induction us arbitrary: d)
  case Nil
  then show ?case by (simp add: batch_def)
next
  case (Cons u us)
  obtain tags p where h: "row_holds V u tags p" using Cons.prems(2)[of u] by auto
  note b = item_blob_ok(1,2)[OF assms(1) h]
  let ?t = "sql_update (\<lambda>r. it_id r = it_id u) (write_item R u) (items d)"
  have "rekeyItem (it_id u) (it_pver u) (item_blob R u) d = Inr (d\<lparr>items := ?t\<rparr>)"
    using b(2) by (simp add: rekeyItem_def write_item_def[abs_def])
  then show ?case
    using b(1) Cons by (simp add: identity_aad_row batch_def)
qed

lemma version_blob_ok:
  assumes "serves R V" and "idn (v_item v) = Some (identity_of r)" and "it_id r = v_item v"
    and h: "version_holds V r v tags p"
  shows "rekey_version R idn v = Inr (v, version_blob R idn v)"
    and "version_holds (target_venv R V) (rekeyed_item R r) (rekeyed_version R idn v) tags p"
proof -
  have n: "length (rk_version_nonce R (v_item v) (v_rev v)) = nonceSize"
    using assms(1) by (simp add: serves_def rekey_env_ok_def)
  have h': "holds V (v_pver v) (v_nonce v) (v_ct v) (row_aad r (v_pver v) (v_rev v)) tags p"
    using h by (simp add: version_holds_def)
  from reseal_holds[OF assms(1) h' n] obtain enc where
    e: "reseal R (rk_version_nonce R (v_item v) (v_rev v)) (v_pver v) (v_nonce v) (v_ct v)
           (row_aad r (v_pver v) (v_rev v)) = Inr enc"
    and k: "holds (target_venv R V) (v_pver v) (blob_nonce enc) (blob_ct enc)
           (row_aad r (v_pver v) (v_rev v)) tags p"
    using h' by blast
  have aad: "identity_aad (v_item v) (identity_of r) = row_aad r"
    using identity_aad_row[of r] assms(3) by simp
  from e assms(2) have run: "rekey_version R idn v = Inr (v, enc)"
    by (simp add: rekey_version_def aad)
  then have b: "version_blob R idn v = enc" by (simp add: version_blob_def)
  show "rekey_version R idn v = Inr (v, version_blob R idn v)" using run b by simp
  show "version_holds (target_venv R V) (rekeyed_item R r) (rekeyed_version R idn v) tags p"
    using k b h by (simp add: version_holds_def) (simp add: rekeyed_version_def)
qed

lemma rekey_order:
  assumes "serves R V" and "vault_inv V d"
  shows "set (rk_order R (items d)) = set (items d)" "distinct (map it_id (rk_order R (items d)))"
    and "length (rk_order R (items d)) = length (items d)"
proof -
  have d: "distinct (map it_id (items d))" using assms(2) by (simp add: vault_inv_def tables_ok_def)
  with assms(1) show s: "set (rk_order R (items d)) = set (items d)"
    and o: "distinct (map it_id (rk_order R (items d)))"
    by (auto simp: serves_def rekey_env_ok_def)
  show "length (rk_order R (items d)) = length (items d)"
    using s o d by (metis distinct_card distinct_map)
qed

lemma vault_inv_version:
  assumes "vault_inv V d" and "v \<in> set (versions d)"
  obtains r tags p where "r \<in> set (items d)" "it_id r = v_item v" "version_holds V r v tags p"
  using assms unfolding vault_inv_def tables_ok_def by metis

lemma rekey_run:
  assumes s: "serves R V" and inv: "vault_inv V d"
  shows "RekeyCandidate R d = (Inr \<lparr>rr_items = length (items d), rr_versions = length (versions d),
     rr_auth = length (sessions d)\<rparr>, rekeyed_db R d)"
proof -
  note ord = rekey_order[OF s inv]
  have ids: "distinct (map it_id (items d))" and vks: "distinct (map version_key (versions d))"
    using inv by (simp_all add: vault_inv_def tables_ok_def)
  note idn = identities_eq[OF ids]
  let ?vs = "map (\<lambda>v. (v, version_blob R (identities d) v)) (versions d)"
  let ?g = "\<lambda>u v. v\<lparr>v_pver := v_pver (fst u), v_nonce := blob_nonce (snd u), v_ct := blob_ct (snd u)\<rparr>"
  have "rekey_items R (identities d) (rk_order R (items d)) d
      = Inr (d\<lparr>items := batch it_id it_id (write_item R) (rk_order R (items d)) (items d)\<rparr>)"
    using ord(1) idn inv by (intro rekey_items_run[OF s]) (auto simp: vault_inv_def)
  moreover have "batch it_id it_id (write_item R) (rk_order R (items d)) (items d)
      = map (rekeyed_item R) (items d)"
    using ord(1,2) by (intro batch_map) (auto simp: write_item_def rekeyed_item_def intro!: bexI)
  moreover have "traverse (rekey_version R (identities d)) (versions d) = Inr ?vs"
  proof (rule traverse_map)
    fix v assume v: "v \<in> set (versions d)"
    obtain r tags p where "r \<in> set (items d)" "it_id r = v_item v" "version_holds V r v tags p"
      by (rule vault_inv_version[OF inv v])
    then show "rekey_version R (identities d) v = Inr (v, version_blob R (identities d) v)"
      using version_blob_ok(1)[OF s, of "identities d" v r] idn[of r] by simp
  qed
  moreover have "fold update_version ?vs (versions d) = map (rekeyed_version R (identities d)) (versions d)"
  proof -
    have "fold update_version ?vs (versions d)
        = batch (\<lambda>u. version_key (fst u)) version_key ?g ?vs (versions d)"
      by (simp add: batch_def update_version_def[abs_def] version_key_def)
    also have "\<dots> = map (rekeyed_version R (identities d)) (versions d)"
      using vks by (intro batch_map) (auto simp: version_key_def[abs_def] rekeyed_version_def comp_def
          intro!: bexI)
    finally show ?thesis .
  qed
  ultimately show ?thesis
    using ord(3) by (simp add: RekeyCandidate_def rekey_tx_def Let_def rekeyed_db_def)
qed

lemma rekeyed_db_frame [simp]:
  "users (rekeyed_db R d) = users d" "audits (rekeyed_db R d) = audits d"
  "settings (rekeyed_db R d) = settings d" "sysstate (rekeyed_db R d) = sysstate d"
  "sessions (rekeyed_db R d) = []" "attempts (rekeyed_db R d) = []" "idem (rekeyed_db R d) = []"
  "items (rekeyed_db R d) = map (rekeyed_item R) (items d)"
  "versions (rekeyed_db R d) = map (rekeyed_version R (identities d)) (versions d)"
  by (simp_all add: rekeyed_db_def)

lemma rekeyed_db_inv:
  assumes s: "serves R V" and inv: "vault_inv V d"
  shows "vault_inv (target_venv R V) (rekeyed_db R d)"
proof -
  let ?d = "rekeyed_db R d"
  have ids: "distinct (map it_id (items d))" using inv by (simp add: vault_inv_def tables_ok_def)
  have refs: "item_refs ?d (rekeyed_item R r) = item_refs d r" for r
    by (simp add: item_refs_def cong: option.case_cong)
  have chk: "item_check (rekeyed_item R r) = item_check r" for r by (simp add: item_check_def)
  have "tables_ok ?d"
    using inv by (simp add: vault_inv_def tables_ok_def refs chk comp_def)
  moreover have "archived_revisions x ?d = archived_revisions x d" for x
    by (simp add: archived_revisions_def revisions_of_def filter_map comp_def)
  then have "history_exact ?d" using inv by (simp add: vault_inv_def history_exact_def)
  moreover have "\<exists>tags p. row_holds (target_venv R V) (rekeyed_item R r) tags p" if "r \<in> set (items d)" for r
    using that inv item_blob_ok(3)[OF s] unfolding vault_inv_def by blast
  moreover have "\<exists>tags p. version_holds (target_venv R V) (rekeyed_item R r)
       (rekeyed_version R (identities d) v) tags p"
    if "v \<in> set (versions d)" "r \<in> set (items d)" "it_id r = v_item v" for v r
  proof -
    from that inv have "\<exists>tags p. version_holds V r v tags p" unfolding vault_inv_def by blast
    then obtain tags p where "version_holds V r v tags p" by blast
    then show ?thesis
      using version_blob_ok(2)[OF s, of "identities d" v r] identities_eq[OF ids that(2)] that(3) by auto
  qed
  ultimately show ?thesis using inv by (simp add: vault_inv_def)
qed

section \<open>The walk accepts exactly the readable databases\<close>

lemma traverse_ok_iff: "(\<exists>ys. traverse f xs = Inr ys) \<longleftrightarrow> (\<forall>x \<in> set xs. \<exists>y. f x = Inr y)"
  by (induction xs) (auto simp: result_Inr)

lemma verifyCandidate_iff:
  "verifyCandidate A key d = Inr () \<longleftrightarrow>
     (\<forall>(iid, pv, nonce, ct, rv) \<in> set (payload_columns_of d). \<exists>i x. identities d iid = Some i \<and>
        DecryptColumns A key pv nonce ct (identity_aad iid i pv rv) = Inr x)"
proof -
  let ?f = "\<lambda>(iid, pv, nonce, ct, rv). andthen (from_option VerifyMissingIdentity (identities d iid)) (\<lambda>i.
     map_err VerifyDecrypt (DecryptColumns A key pv nonce ct (identity_aad iid i pv rv)))"
  have "verifyCandidate A key d = Inr () \<longleftrightarrow> (\<exists>ys. traverse ?f (payload_columns_of d) = Inr ys)"
    by (cases "traverse ?f (payload_columns_of d)")
       (simp_all add: verifyCandidate_def iteratePayloads_def Let_def)
  moreover have "(\<exists>y. ?f x = Inr y) \<longleftrightarrow> (case x of (iid, pv, nonce, ct, rv) \<Rightarrow> \<exists>i y.
      identities d iid = Some i \<and> DecryptColumns A key pv nonce ct (identity_aad iid i pv rv) = Inr y)" for x
    by (cases x) (auto simp: result_Inr)
  ultimately show ?thesis unfolding traverse_ok_iff by simp
qed

lemma verifyCandidate_inv:
  assumes "vault_inv V d"
  shows "verifyCandidate (ve_aead V) (ve_key V) d = Inr ()"
proof -
  have ids: "distinct (map it_id (items d))" using assms by (simp add: vault_inv_def tables_ok_def)
  have "\<exists>x. DecryptColumns (ve_aead V) (ve_key V) (it_pver r) (it_nonce r) (it_ct r)
      (identity_aad (it_id r) (identity_of r) (it_pver r) (it_rev r)) = Inr x" if "r \<in> set (items d)" for r
    using assms that by (fastforce simp: vault_inv_def row_holds_def holds_def identity_aad_row)
  moreover have "\<exists>i x. identities d (v_item v) = Some i \<and> DecryptColumns (ve_aead V) (ve_key V) (v_pver v)
      (v_nonce v) (v_ct v) (identity_aad (v_item v) i (v_pver v) (v_rev v)) = Inr x"
    if v: "v \<in> set (versions d)" for v
  proof -
    obtain r tags p where r: "r \<in> set (items d)" "it_id r = v_item v" "version_holds V r v tags p"
      by (rule vault_inv_version[OF assms v])
    then show ?thesis
      using identities_eq[OF ids r(1)] identity_aad_row[of r]
      by (auto simp: version_holds_def holds_def)
  qed
  ultimately show ?thesis
    unfolding verifyCandidate_iff payload_columns_of_def using identities_eq[OF ids] by fastforce
qed

section \<open>What a failed or successful pass has read\<close>

definition opened :: "aead \<Rightarrow> bytes \<Rightarrow> db \<Rightarrow> payload_columns \<Rightarrow> bool" where
  "opened A key d c = (case c of (iid, pv, nonce, ct, rv) \<Rightarrow> \<exists>i x. identities d iid = Some i \<and>
     DecryptColumns A key pv nonce ct (identity_aad iid i pv rv) = Inr x)"

lemma verifyCandidate_opened:
  "verifyCandidate A key d = Inr () \<longleftrightarrow> (\<forall>c \<in> set (payload_columns_of d). opened A key d c)"
  unfolding verifyCandidate_iff opened_def by (simp add: case_prod_unfold)

lemma rekey_items_InrD:
  "rekey_items R idn us d = Inr d' \<Longrightarrow> versions d' = versions d \<and> sessions d' = sessions d \<and>
     (\<forall>u \<in> set us. \<exists>i x. idn (it_id u) = Some i \<and> DecryptColumns (rk_aead R) (rk_source R) (it_pver u)
        (it_nonce u) (it_ct u) (identity_aad (it_id u) i (it_pver u) (it_rev u)) = Inr x)"
proof (induction us arbitrary: d)
  case (Cons u us)
  then show ?case
    by (auto simp: result_Inr reseal_def rekeyItem_def split: if_splits)
qed simp

lemma rekey_tx_InrD:
  assumes "rekey_tx R d = Inr (rep, d')" and "set (rk_order R (items d)) = set (items d)"
  shows "verifyCandidate (rk_aead R) (rk_source R) d = Inr ()"
proof -
  from assms(1) obtain d1 us where
    a: "rekey_items R (identities d) (rk_order R (items d)) d = Inr d1"
    and b: "traverse (rekey_version R (identities d)) (versions d1) = Inr us"
    by (auto simp: rekey_tx_def Let_def result_Inr)
  note D = rekey_items_InrD[OF a]
  from b D have "\<forall>v \<in> set (versions d). \<exists>y. rekey_version R (identities d) v = Inr y"
    using traverse_ok_iff[of "rekey_version R (identities d)"] by metis
  then have "\<forall>v \<in> set (versions d). \<exists>i x. identities d (v_item v) = Some i \<and>
      DecryptColumns (rk_aead R) (rk_source R) (v_pver v) (v_nonce v) (v_ct v)
        (identity_aad (v_item v) i (v_pver v) (v_rev v)) = Inr x"
    by (fastforce simp: rekey_version_def result_Inr reseal_def)
  with D assms(2) show ?thesis
    unfolding verifyCandidate_opened payload_columns_of_def by (auto simp: opened_def)
qed

end
