(* ===== verification/Manifest.thy ===== *)
theory Manifest
  imports Idempotency "HOL-Library.Multiset"
begin

text \<open>
  \<open>backup/manifest.go\<close> and the verification of an extracted archive in \<open>backup/restore.go\<close>: the
  manifest and its checks, the digests of the archived files, the closed list of archive entries,
  and the instance id.  JSON decoding, SHA-256 and the parsing of RFC 3339 times are parameters; an
  extracted tree is the list of archive entries and the contents of its files.
\<close>

definition FormatVersion :: int where "FormatVersion = 1"

definition ManifestPath :: string where "ManifestPath = ''manifest.json''"
definition SnapshotPath :: string where "SnapshotPath = ''db/tiny-password.db''"
definition MasterKeyPath :: string where "MasterKeyPath = ''secrets/master_key''"

record manifest_file =
  mf_path :: string
  mf_size :: int
  mf_sha256 :: string

record manifest =
  mn_format :: int
  mn_app :: string
  mn_schema :: int
  mn_backup :: string
  mn_created :: string
  mn_instance :: string
  mn_arch :: string
  mn_files :: "manifest_file list"

datatype manifest_error = ManifestFormat | ManifestIds | ManifestTime | ManifestEmpty
  | ManifestPathNotAllowed string | ManifestTwice string | ManifestEntry string
  | ManifestMissing | ManifestUnreadable
  | UnexpectedEntry string | EntriesMissing | StageFile string | DigestMismatch string | Integrity

definition allowedManifestPaths :: "string list" where
  "allowedManifestPaths = [SnapshotPath, MasterKeyPath]"

fun check_files :: "string list \<Rightarrow> manifest_file list \<Rightarrow> manifest_error + unit" where
  "check_files seen [] = Inr ()"
| "check_files seen (f # fs) =
    (if mf_path f \<notin> set allowedManifestPaths then Inl (ManifestPathNotAllowed (mf_path f))
     else if mf_path f \<in> set seen then Inl (ManifestTwice (mf_path f))
     else if mf_size f \<le> 0 \<or> length (mf_sha256 f) \<noteq> 64 then Inl (ManifestEntry (mf_path f))
     else check_files (mf_path f # seen) fs)"

definition Check :: "(string \<Rightarrow> bool) \<Rightarrow> manifest \<Rightarrow> manifest_error + unit" where
  "Check validTime m =
    (if mn_format m \<noteq> FormatVersion then Inl ManifestFormat
     else if mn_backup m = '''' \<or> mn_instance m = '''' then Inl ManifestIds
     else if \<not> validTime (mn_created m) then Inl ManifestTime
     else if mn_files m = [] then Inl ManifestEmpty
     else check_files [] (mn_files m))"

section \<open>Extracted trees\<close>

record tree_env =
  te_sha256 :: "bytes \<Rightarrow> bytes"
  te_unmarshal :: "bytes \<Rightarrow> manifest option"
  te_validTime :: "string \<Rightarrow> bool"

record extracted =
  ex_entries :: "(string \<times> bool) list"
  ex_files :: "string \<Rightarrow> bytes option"
  ex_integrity :: bool

definition fileDigest :: "tree_env \<Rightarrow> extracted \<Rightarrow> string \<Rightarrow> manifest_error + manifest_file" where
  "fileDigest T x p =
    (case ex_files x p of None \<Rightarrow> Inl (StageFile p)
     | Some raw \<Rightarrow> Inr \<lparr>mf_path = p, mf_size = int (length raw), mf_sha256 = hex_encode (te_sha256 T raw)\<rparr>)"

definition readManifestFile :: "tree_env \<Rightarrow> extracted \<Rightarrow> manifest_error + manifest" where
  "readManifestFile T x =
    andthen (from_option ManifestMissing (ex_files x ManifestPath)) (\<lambda>raw.
    andthen (from_option ManifestUnreadable (te_unmarshal T raw)) (\<lambda>m.
    andthen (Check (te_validTime T) m) (\<lambda>_. Inr m)))"

text \<open>The whitelist: each wanted path is struck off when it is met.\<close>

fun strike_entries :: "string list \<Rightarrow> (string \<times> bool) list \<Rightarrow> manifest_error + string list" where
  "strike_entries want [] = Inr want"
| "strike_entries want ((p, isDir) # es) =
    (if isDir then strike_entries want es
     else if p \<notin> set want then Inl (UnexpectedEntry p)
     else strike_entries (remove1 p want) es)"

fun check_digests :: "tree_env \<Rightarrow> extracted \<Rightarrow> manifest_file list \<Rightarrow> manifest_error + unit" where
  "check_digests T x [] = Inr ()"
| "check_digests T x (f # fs) =
    andthen (fileDigest T x (mf_path f)) (\<lambda>entry.
    if mf_sha256 entry \<noteq> mf_sha256 f \<or> mf_size entry \<noteq> mf_size f then Inl (DigestMismatch (mf_path f))
    else check_digests T x fs)"

definition verifyRestoreTree :: "tree_env \<Rightarrow> extracted \<Rightarrow> manifest_error + unit" where
  "verifyRestoreTree T x =
    andthen (strike_entries [ManifestPath, SnapshotPath, MasterKeyPath] (ex_entries x)) (\<lambda>want.
    andthen (ensure (length want = 0) EntriesMissing) (\<lambda>_.
    andthen (readManifestFile T x) (\<lambda>m.
    andthen (check_digests T x (mn_files m)) (\<lambda>_.
    ensure (ex_integrity x) Integrity))))"

section \<open>The instance id\<close>

definition instanceIDKey :: string where "instanceIDKey = ''instance_id''"

text \<open>\<open>EnsureInstanceID\<close> with the fresh id it draws; between its read and its insert another process
  may have stored an id, which is the argument \<open>d1\<close> (the database at the insert).\<close>

definition kv_keep :: "string \<Rightarrow> string \<Rightarrow> (string \<times> string) list \<Rightarrow> (string \<times> string) list" where
  "kv_keep k v t = (if k \<in> fst ` set t then t else kv_put k v t)"

definition EnsureInstanceID :: "string \<Rightarrow> db \<Rightarrow> db \<Rightarrow> string option \<times> db" where
  "EnsureInstanceID fresh d d1 =
    (case kv_get instanceIDKey (sysstate d) of
       Some v \<Rightarrow> if v \<noteq> '''' then (Some v, d)
                 else (let d2 = d1\<lparr>sysstate := kv_keep instanceIDKey fresh (sysstate d1)\<rparr>
                       in (kv_get instanceIDKey (sysstate d2), d2))
     | None \<Rightarrow> (let d2 = d1\<lparr>sysstate := kv_keep instanceIDKey fresh (sysstate d1)\<rparr>
                 in (kv_get instanceIDKey (sysstate d2), d2)))"

section \<open>What an accepted tree is\<close>

lemma check_files_Inr:
  "check_files seen fs = Inr () \<longleftrightarrow> distinct (map mf_path fs) \<and> set seen \<inter> set (map mf_path fs) = {} \<and>
     (\<forall>f \<in> set fs. mf_path f \<in> set allowedManifestPaths \<and> 0 < mf_size f \<and> length (mf_sha256 f) = 64)"
  by (induction fs arbitrary: seen) (auto simp: not_le)

lemma Check_Inr:
  "Check vt m = Inr () \<longleftrightarrow> mn_format m = FormatVersion \<and> mn_backup m \<noteq> '''' \<and> mn_instance m \<noteq> '''' \<and>
     vt (mn_created m) \<and> mn_files m \<noteq> [] \<and> distinct (map mf_path (mn_files m)) \<and>
     (\<forall>f \<in> set (mn_files m). mf_path f \<in> set allowedManifestPaths \<and> 0 < mf_size f \<and> length (mf_sha256 f) = 64)"
  by (auto simp: Check_def check_files_Inr)

definition plain_entries :: "extracted \<Rightarrow> string list" where
  "plain_entries x = map fst (filter (\<lambda>e. \<not> snd e) (ex_entries x))"

lemma strike_entries_Inr:
  "strike_entries want es = Inr rest \<Longrightarrow>
     mset want = mset (map fst (filter (\<lambda>e. \<not> snd e) es)) + mset rest"
proof (induction want es rule: strike_entries.induct)
  case (2 want p isDir es)
  show ?case
  proof (cases isDir)
    case False
    then have p: "p \<in># mset want" and r: "strike_entries (remove1 p want) es = Inr rest"
      using 2(3) by (auto split: if_splits)
    have "mset want = add_mset p (mset (remove1 p want))" using p by simp
    also have "\<dots> = add_mset p (mset (map fst (filter (\<lambda>e. \<not> snd e) es)) + mset rest)"
      using 2(2)[OF False _ r] p by simp
    finally show ?thesis using False by simp
  qed (use 2 in simp)
qed simp

lemma strike_entries_ok:
  "mset want = mset (map fst (filter (\<lambda>e. \<not> snd e) es)) \<Longrightarrow> strike_entries want es = Inr []"
proof (induction want es rule: strike_entries.induct)
  case (2 want p isDir es)
  show ?case
  proof (cases isDir)
    case False
    then have m: "mset want = add_mset p (mset (map fst (filter (\<lambda>e. \<not> snd e) es)))"
      using 2(3) by simp
    then have "p \<in> set want" by (metis set_mset_mset union_single_eq_member)
    moreover have "mset (remove1 p want) = mset (map fst (filter (\<lambda>e. \<not> snd e) es))"
      using m by simp
    ultimately show ?thesis using 2(2) False by simp
  qed (use 2 in simp)
qed simp

lemma check_digests_Inr:
  "check_digests T x fs = Inr () \<longleftrightarrow> (\<forall>f \<in> set fs. \<exists>raw. ex_files x (mf_path f) = Some raw \<and>
     mf_size f = int (length raw) \<and> mf_sha256 f = hex_encode (te_sha256 T raw))"
  by (induction fs) (auto simp: result_Inr fileDigest_def split: option.splits)

lemma readManifestFile_Inr:
  "readManifestFile T x = Inr m \<longleftrightarrow> (\<exists>raw. ex_files x ManifestPath = Some raw \<and>
     te_unmarshal T raw = Some m \<and> Check (te_validTime T) m = Inr ())"
  by (auto simp: readManifestFile_def result_Inr)

text \<open>An extracted archive is accepted exactly when its plain entries are the manifest, the
  snapshot and the master key, each once and nothing else; the manifest decodes and is well formed
  (known format, ids, a time, only archivable paths, none twice); every file that it lists has the
  recorded size and digest; and the snapshot passes the integrity check.\<close>

theorem verifyRestoreTree_iff:
  "verifyRestoreTree T x = Inr () \<longleftrightarrow>
     mset (plain_entries x) = mset [ManifestPath, SnapshotPath, MasterKeyPath] \<and> ex_integrity x \<and>
     (\<exists>m. readManifestFile T x = Inr m \<and> mn_format m = FormatVersion \<and> mn_backup m \<noteq> '''' \<and>
        distinct (map mf_path (mn_files m)) \<and>
        (\<forall>f \<in> set (mn_files m). mf_path f \<in> {SnapshotPath, MasterKeyPath} \<and>
           (\<exists>raw. ex_files x (mf_path f) = Some raw \<and> mf_size f = int (length raw) \<and>
              mf_sha256 f = hex_encode (te_sha256 T raw))))"
  (is "?l \<longleftrightarrow> ?r")
proof
  assume ?l
  then obtain want m where w: "strike_entries [ManifestPath, SnapshotPath, MasterKeyPath] (ex_entries x) = Inr want"
    "want = []" and m: "readManifestFile T x = Inr m" "check_digests T x (mn_files m) = Inr ()" "ex_integrity x"
    by (auto simp: verifyRestoreTree_def result_Inr)
  then have "mset (plain_entries x) = mset [ManifestPath, SnapshotPath, MasterKeyPath]"
    using strike_entries_Inr[OF w(1)] by (simp add: plain_entries_def)
  with m show ?r
    by (auto simp: readManifestFile_Inr Check_Inr allowedManifestPaths_def check_digests_Inr)
next
  assume r: ?r
  then have "strike_entries [ManifestPath, SnapshotPath, MasterKeyPath] (ex_entries x) = Inr []"
    by (intro strike_entries_ok) (simp add: plain_entries_def)
  moreover from r obtain m where m: "readManifestFile T x = Inr m" and
    "\<forall>f \<in> set (mn_files m). \<exists>raw. ex_files x (mf_path f) = Some raw \<and>
       mf_size f = int (length raw) \<and> mf_sha256 f = hex_encode (te_sha256 T raw)" by blast
  moreover from this have "check_digests T x (mn_files m) = Inr ()" by (simp add: check_digests_Inr)
  ultimately show ?l using r by (simp add: verifyRestoreTree_def)
qed

end
