(* ===== verification/Migrate.thy ===== *)
theory Migrate
  imports GoEncode Sql
begin

text \<open>
  \<open>platform/sqlite/migrate.go\<close>: applying the embedded migrations, and the guarded upgrade at
  start-up.  A database file is its content (of any type \<open>'s\<close>) together with the table
  \<open>schema_migrations\<close>; what a migration's SQL text does to the content is a parameter, which may
  fail, and so is the number of application tables that the content has.
\<close>

section \<open>Database files and migration sets\<close>

record 's store =
  sr_data :: 's
  sr_applied :: "(int \<times> string) list option"

record 's sql_env =
  sq_exec :: "string \<Rightarrow> 's \<Rightarrow> 's option"
  sq_tables :: "'s \<Rightarrow> nat"

text \<open>The embedded files: names with their text.\<close>

type_synonym migrations = "(string \<times> string) list"

datatype migrate_error = MigrationName string | MigrationRead string | MigrationFailed string
  | SchemaNewer | SnapshotFailed

definition sql_suffix :: string where "sql_suffix = ''.sql''"

definition glob_sql :: "migrations \<Rightarrow> string list" where
  "glob_sql fs = filter (\<lambda>n. has_suffix sql_suffix n) (map fst fs)"

definition trim_sql :: "string \<Rightarrow> string" where
  "trim_sql n = (if has_suffix sql_suffix n then take (length n - length sql_suffix) n else n)"

definition versionFromName :: "string \<Rightarrow> migrate_error + int" where
  "versionFromName name =
    (case scan_int (trim_sql name) of None \<Rightarrow> Inl (MigrationName name) | Some (v, _) \<Rightarrow> Inr v)"

definition ensure_table :: "'s store \<Rightarrow> 's store" where
  "ensure_table s = s\<lparr>sr_applied := Some (case sr_applied s of None \<Rightarrow> [] | Some t \<Rightarrow> t)\<rparr>"

definition applied_rows :: "'s store \<Rightarrow> (int \<times> string) list" where
  "applied_rows s = (case sr_applied s of None \<Rightarrow> [] | Some t \<Rightarrow> t)"

definition appliedVersions :: "'s store \<Rightarrow> int list" where
  "appliedVersions s = map fst (applied_rows s)"

definition SchemaVersion :: "'s store \<Rightarrow> int" where
  "SchemaVersion s = (if appliedVersions s = [] then 0 else Max (set (appliedVersions s)))"

section \<open>Applying migrations\<close>

text \<open>The transaction of one migration: its statements, then the bookkeeping row, whose primary key
  is the version.\<close>

definition applyMigration ::
  "'s sql_env \<Rightarrow> int \<Rightarrow> string \<Rightarrow> string \<Rightarrow> 's store \<Rightarrow> (migrate_error + unit) \<times> 's store" where
  "applyMigration E version name body = in_tx (\<lambda>s.
    andthen (from_option (MigrationFailed name) (sq_exec E body (sr_data s))) (\<lambda>c.
    andthen (from_option (MigrationFailed name) (sql_insert fst (version, name) (applied_rows s))) (\<lambda>t.
    Inr ((), s\<lparr>sr_data := c, sr_applied := Some t\<rparr>))))"

fun migrate_loop ::
  "'s sql_env \<Rightarrow> migrations \<Rightarrow> int list \<Rightarrow> string list \<Rightarrow> 's store \<Rightarrow> (migrate_error + unit) \<times> 's store" where
  "migrate_loop E fs applied [] s = (Inr (), s)"
| "migrate_loop E fs applied (name # names) s =
    (case versionFromName name of
       Inl e \<Rightarrow> (Inl e, s)
     | Inr v \<Rightarrow>
        if v \<in> set applied then migrate_loop E fs applied names s
        else (case map_of fs name of
           None \<Rightarrow> (Inl (MigrationRead name), s)
         | Some body \<Rightarrow>
            (case applyMigration E v name body s of
               (Inl e, s') \<Rightarrow> (Inl e, s')
             | (Inr _, s') \<Rightarrow> migrate_loop E fs applied names s')))"

definition Migrate :: "'s sql_env \<Rightarrow> migrations \<Rightarrow> 's store \<Rightarrow> (migrate_error + unit) \<times> 's store" where
  "Migrate E fs s0 =
    (let s = ensure_table s0
     in migrate_loop E fs (appliedVersions s) (sort (glob_sql fs)) s)"

section \<open>The guarded upgrade\<close>

fun known_max :: "string list \<Rightarrow> int \<Rightarrow> int" where
  "known_max [] m = m"
| "known_max (n # ns) m =
    known_max ns (case versionFromName n of Inl _ \<Rightarrow> m | Inr v \<Rightarrow> if m < v then v else m)"

fun count_pending :: "int list \<Rightarrow> string list \<Rightarrow> migrate_error + nat" where
  "count_pending applied [] = Inr 0"
| "count_pending applied (n # ns) =
    (case versionFromName n of Inl e \<Rightarrow> Inl e
     | Inr v \<Rightarrow> map_sum id (\<lambda>k. if v \<in> set applied then k else Suc k) (count_pending applied ns))"

definition databaseIsEmpty :: "'s sql_env \<Rightarrow> 's store \<Rightarrow> bool" where
  "databaseIsEmpty E s = (sq_tables E (sr_data s) = 0)"

text \<open>The result: the error or the path of the snapshot (empty for none), the file after the call
  and the snapshot taken.  \<open>snapOk\<close> says whether writing and verifying a snapshot succeeds;
  \<open>onSuccess\<close> is the caller's hook.\<close>

record 's upgrade_result =
  up_result :: "migrate_error + string"
  up_store :: "'s store"
  up_snapshot :: "(string \<times> 's store) option"

definition run_upgrade ::
  "'s sql_env \<Rightarrow> migrations \<Rightarrow> (int \<Rightarrow> 's store \<Rightarrow> 's store) \<Rightarrow> string \<Rightarrow> (string \<times> 's store) option \<Rightarrow>
   's store \<Rightarrow> 's upgrade_result" where
  "run_upgrade E fs onSuccess path snap s =
    (case Migrate E fs s of
       (Inl e, s') \<Rightarrow> \<lparr>up_result = Inl e, up_store = s', up_snapshot = snap\<rparr>
     | (Inr _, s') \<Rightarrow> \<lparr>up_result = Inr path,
          up_store = onSuccess (known_max (glob_sql fs) 0) s', up_snapshot = snap\<rparr>)"

definition UpgradeWithHook ::
  "'s sql_env \<Rightarrow> migrations \<Rightarrow> string \<Rightarrow> bool \<Rightarrow> (int \<Rightarrow> 's store \<Rightarrow> 's store) \<Rightarrow> 's store \<Rightarrow> 's upgrade_result" where
  "UpgradeWithHook E fs path snapOk onSuccess s0 =
    (let s = ensure_table s0; names = glob_sql fs; applied = appliedVersions s;
         stop = (\<lambda>r. \<lparr>up_result = r, up_store = s, up_snapshot = None\<rparr>) in
     if \<exists>v \<in> set applied. known_max names 0 < v then stop (Inl SchemaNewer)
     else case count_pending applied names of
         Inl e \<Rightarrow> stop (Inl e)
       | Inr n \<Rightarrow>
          if n = 0 then stop (Inr '''')
          else if \<not> databaseIsEmpty E s then
            if \<not> snapOk then stop (Inl SnapshotFailed)
            else run_upgrade E fs onSuccess path (Some (path, s)) s
          else run_upgrade E fs onSuccess '''' None s)"

section \<open>Repeating and interrupting migrations\<close>

lemma applied_ensure [simp]: "applied_rows (ensure_table s) = applied_rows s"
  "sr_data (ensure_table s) = sr_data s" "appliedVersions (ensure_table s) = appliedVersions s"
  by (auto simp: applied_rows_def ensure_table_def appliedVersions_def split: option.splits)

lemma ensure_table_id: "sr_applied s \<noteq> None \<Longrightarrow> ensure_table s = s"
  by (auto simp: ensure_table_def)

lemma ensure_table_Some [simp]: "sr_applied (ensure_table s) \<noteq> None"
  by (simp add: ensure_table_def)

text \<open>The migrations that a list of names still has to run, and the content they make.\<close>

definition name_version :: "string \<Rightarrow> int" where
  "name_version n = (case versionFromName n of Inl _ \<Rightarrow> 0 | Inr v \<Rightarrow> v)"

fun run_bodies :: "'s sql_env \<Rightarrow> migrations \<Rightarrow> string list \<Rightarrow> 's \<Rightarrow> 's option" where
  "run_bodies E fs [] c = Some c"
| "run_bodies E fs (n # ns) c =
    (case map_of fs n of None \<Rightarrow> None
     | Some b \<Rightarrow> (case sq_exec E b c of None \<Rightarrow> None | Some c' \<Rightarrow> run_bodies E fs ns c'))"

definition pending_names :: "int list \<Rightarrow> string list \<Rightarrow> string list" where
  "pending_names applied names = filter (\<lambda>n. name_version n \<notin> set applied) names"

lemma applyMigration_Inr:
  "applyMigration E v name body s = (Inr (), s') \<longleftrightarrow> (\<exists>c. sq_exec E body (sr_data s) = Some c \<and>
     v \<notin> set (appliedVersions s) \<and>
     s' = s\<lparr>sr_data := c, sr_applied := Some (applied_rows s @ [(v, name)])\<rparr>)"
  by (auto simp: applyMigration_def in_tx_def appliedVersions_def result_Inr sql_simps from_option_def
      sql_insert_def split: sum.splits option.splits)

lemma applyMigration_Inl: "applyMigration E v name body s = (Inl e, s') \<Longrightarrow> s' = s"
  unfolding applyMigration_def by (drule in_tx_InlD) simp

lemma applied_rows_Some [simp]: "applied_rows (s\<lparr>sr_data := c, sr_applied := Some t\<rparr>) = t"
  by (simp add: applied_rows_def)

text \<open>However far the loop gets, the file is the result of a prefix of the pending migrations, each
  complete and recorded.\<close>

lemma migrate_loop_prefix:
  assumes "migrate_loop E fs applied names s = (r, s')"
  shows "\<exists>done rest. pending_names applied names = done @ rest \<and>
     run_bodies E fs done (sr_data s) = Some (sr_data s') \<and>
     applied_rows s' = applied_rows s @ map (\<lambda>n. (name_version n, n)) done \<and>
     (r = Inr () \<longrightarrow> rest = [])"
  using assms
proof (induction names arbitrary: s)
  case Nil
  then show ?case by (auto simp: pending_names_def)
next
  case (Cons n names)
  consider (bad) e where "versionFromName n = Inl e"
    | (skip) v where "versionFromName n = Inr v" "v \<in> set applied"
    | (run) v where "versionFromName n = Inr v" "v \<notin> set applied"
    by (cases "versionFromName n") auto
  then show ?case
  proof cases
    case bad
    then show ?thesis using Cons.prems
      by (intro exI[of _ "[]"] exI[of _ "pending_names applied (n # names)"]) auto
  next
    case (skip v)
    then show ?thesis using Cons by (simp add: pending_names_def name_version_def)
  next
    case (run v)
    then have nv: "name_version n = v" by (simp add: name_version_def)
    have stop: ?thesis if "s' = s" "\<exists>e. r = Inl e"
      using that by (intro exI[of _ "[]"] exI[of _ "pending_names applied (n # names)"]) auto
    show ?thesis
    proof (cases "map_of fs n")
      case None
      then show ?thesis using Cons.prems run by (intro stop) auto
    next
      case (Some body)
      show ?thesis
      proof (cases "applyMigration E v n body s")
        case (Pair q t)
        show ?thesis
        proof (cases q)
          case (Inl e)
          then have "s' = s \<and> r = Inl e"
            using Cons.prems run Some Pair applyMigration_Inl[of E v n body s e t] by simp
          then show ?thesis using stop by blast
        next
          case (Inr u)
          then obtain c where c: "sq_exec E body (sr_data s) = Some c"
            and t: "t = s\<lparr>sr_data := c, sr_applied := Some (applied_rows s @ [(v, n)])\<rparr>"
            using Pair by (auto simp: applyMigration_Inr)
          have "migrate_loop E fs applied names t = (r, s')"
            using Cons.prems run Some Pair Inr by simp
          from Cons.IH[OF this] obtain ds rest where
            d: "pending_names applied names = ds @ rest"
               "run_bodies E fs ds (sr_data t) = Some (sr_data s')"
               "applied_rows s' = applied_rows t @ map (\<lambda>n. (name_version n, n)) ds"
               "r = Inr () \<longrightarrow> rest = []" by blast
          show ?thesis
            using d run nv Some c t
            by (intro exI[of _ "n # ds"] exI[of _ rest]) (simp add: pending_names_def)
        qed
      qed
    qed
  qed
qed

lemma migrate_loop_versions:
  "migrate_loop E fs applied names s = (Inr (), s') \<Longrightarrow> n \<in> set names \<Longrightarrow>
     \<exists>v. versionFromName n = Inr v"
  by (induction names arbitrary: s)
     (auto split: sum.splits if_splits option.splits prod.splits)

lemma migrate_loop_skip:
  "(\<And>n. n \<in> set names \<Longrightarrow> \<exists>v \<in> set applied. versionFromName n = Inr v) \<Longrightarrow>
     migrate_loop E fs applied names s = (Inr (), s)"
proof (induction names)
  case (Cons n names)
  then obtain v where "v \<in> set applied" "versionFromName n = Inr v" by (meson list.set_intros(1))
  with Cons show ?case by simp
qed simp

lemma Migrate_done:
  assumes "Migrate E fs s0 = (Inr (), s)" and n: "n \<in> set (glob_sql fs)"
  shows "\<exists>v \<in> set (appliedVersions s). versionFromName n = Inr v"
proof -
  let ?s = "ensure_table s0"
  have run: "migrate_loop E fs (appliedVersions ?s) (sort (glob_sql fs)) ?s = (Inr (), s)"
    using assms(1) by (simp add: Migrate_def Let_def)
  obtain v where v: "versionFromName n = Inr v" using migrate_loop_versions[OF run] n by auto
  from migrate_loop_prefix[OF run]
  have rows: "applied_rows s = applied_rows ?s @ map (\<lambda>n. (name_version n, n))
      (pending_names (appliedVersions ?s) (sort (glob_sql fs)))" by auto
  have "v \<in> set (appliedVersions s)"
  proof (cases "v \<in> set (appliedVersions ?s)")
    case True
    then show ?thesis using rows by (auto simp: appliedVersions_def)
  next
    case False
    then have "n \<in> set (pending_names (appliedVersions ?s) (sort (glob_sql fs)))"
      using n v by (simp add: pending_names_def name_version_def)
    then show ?thesis using rows v by (force simp: appliedVersions_def name_version_def)
  qed
  with v show ?thesis by blast
qed

lemma Migrate_Some: "Migrate E fs s0 = (r, s) \<Longrightarrow> sr_applied s \<noteq> None"
proof -
  assume "Migrate E fs s0 = (r, s)"
  moreover have "migrate_loop E fs a ns t = (r, s) \<Longrightarrow> sr_applied t \<noteq> None \<Longrightarrow> sr_applied s \<noteq> None" for a ns t
  proof (induction ns arbitrary: t)
    case (Cons n ns)
    then show ?case
      by (auto split: sum.splits if_splits option.splits prod.splits dest!: applyMigration_Inl)
         (auto simp: applyMigration_Inr)
  qed simp
  ultimately show ?thesis unfolding Migrate_def Let_def by (metis ensure_table_Some)
qed

section \<open>Properties\<close>

text \<open>Migrating is idempotent.  After a successful \<open>Migrate\<close> every migration file of the set is
  recorded, and a second run with the same set changes nothing and succeeds.\<close>

theorem migrate_twice:
  assumes "Migrate E fs s0 = (Inr (), s)"
  shows "Migrate E fs s = (Inr (), s) \<and>
    (\<forall>n \<in> set (glob_sql fs). \<exists>v \<in> set (appliedVersions s). versionFromName n = Inr v)"
proof
  note complete = Migrate_done[OF assms]
  have "sr_applied s \<noteq> None" by (rule Migrate_Some[OF assms])
  then show "Migrate E fs s = (Inr (), s)"
    using complete by (auto simp: Migrate_def Let_def ensure_table_id intro!: migrate_loop_skip)
  show "\<forall>n \<in> set (glob_sql fs). \<exists>v \<in> set (appliedVersions s). versionFromName n = Inr v"
    using complete by blast
qed

text \<open>an interrupted migration leaves a complete schema.  Whatever \<open>Migrate\<close> returns, the file is
  the original one with a prefix of the pending migrations, in lexical order, applied whole and
  recorded; on success the prefix is all of them.\<close>

theorem migrate_leaves_prefix:
  assumes "Migrate E fs s0 = (r, s)"
  shows "\<exists>done rest. pending_names (appliedVersions s0) (sort (glob_sql fs)) = done @ rest \<and>
     run_bodies E fs done (sr_data s0) = Some (sr_data s) \<and>
     applied_rows s = applied_rows s0 @ map (\<lambda>n. (name_version n, n)) done \<and>
     (r = Inr () \<longrightarrow> rest = [])"
  using migrate_loop_prefix[of E fs "appliedVersions s0" "sort (glob_sql fs)" "ensure_table s0" r s] assms
  by (simp add: Migrate_def Let_def)

text \<open>the start-up upgrade is guarded.  A file with a version above the newest known one is
  refused and left alone (no downgrade); a file with application tables is changed only after a
  snapshot of exactly its previous state was written; and a successful upgrade reports the path of
  that snapshot, or none when nothing was changed or there was nothing to save.\<close>

theorem upgrade_is_guarded:
  assumes "res = UpgradeWithHook E fs path snapOk (\<lambda>_. hook) s0"
  shows "((\<exists>v \<in> set (appliedVersions s0). known_max (glob_sql fs) 0 < v) \<longrightarrow>
      res = \<lparr>up_result = Inl SchemaNewer, up_store = ensure_table s0, up_snapshot = None\<rparr>)
    \<and> (\<not> databaseIsEmpty E s0 \<and> up_snapshot res = None \<longrightarrow> up_store res = ensure_table s0)
    \<and> (up_snapshot res \<noteq> None \<longrightarrow> up_snapshot res = Some (path, ensure_table s0) \<and> snapOk
      \<and> \<not> databaseIsEmpty E s0 \<and> (\<exists>r t. Migrate E fs (ensure_table s0) = (r, t) \<and>
        (up_store res = t \<or> r = Inr () \<and> up_store res = hook t)))"
proof -
  have empty: "databaseIsEmpty E (ensure_table s0) = databaseIsEmpty E s0"
    by (simp add: databaseIsEmpty_def)
  show ?thesis
    unfolding assms
    by (auto simp: UpgradeWithHook_def Let_def empty run_upgrade_def split: sum.splits prod.splits if_splits)
qed

section \<open>Samples\<close>

definition sample_sql :: "string list sql_env" where
  "sample_sql = \<lparr>sq_exec = (\<lambda>b c. if b = ''bad'' then None else Some (c @ [b])), sq_tables = length\<rparr>"

definition sample_migrations :: migrations where
  "sample_migrations = [(''0002_b.sql'', ''two''), (''0001_a.sql'', ''one''), (''notes.txt'', ''x'')]"

definition sample_store :: "string list store" where
  "sample_store = \<lparr>sr_data = [''one''], sr_applied = Some [(1, ''0001_a.sql'')]\<rparr>"

definition sample_done :: "string list store" where
  "sample_done = \<lparr>sr_data = [''one'', ''two''],
     sr_applied = Some [(1, ''0001_a.sql''), (2, ''0002_b.sql'')]\<rparr>"

definition bad_migrations :: migrations where
  "bad_migrations = sample_migrations @ [(''0003.sql'', ''bad'')]"

lemma sample_names:
  "sort (glob_sql sample_migrations) = [''0001_a.sql'', ''0002_b.sql'']"
  "sort (glob_sql bad_migrations) = [''0001_a.sql'', ''0002_b.sql'', ''0003.sql'']"
  "glob_sql sample_migrations = [''0002_b.sql'', ''0001_a.sql'']"
  by (simp_all add: glob_sql_def sample_migrations_def bad_migrations_def has_suffix_def sql_suffix_def)

lemma sample_versions [simp]:
  "versionFromName ''0001_a.sql'' = Inr 1" "versionFromName ''0002_b.sql'' = Inr 2"
  "versionFromName ''0003.sql'' = Inr 3"
  by (simp_all add: versionFromName_def trim_sql_def has_suffix_def sql_suffix_def scan_int_def
      scan_digits_def is_digit_def is_space_def)

lemma sample_texts [simp]:
  "map_of sample_migrations ''0002_b.sql'' = Some ''two''" "map_of bad_migrations ''0002_b.sql'' = Some ''two''"
  "map_of bad_migrations ''0003.sql'' = Some ''bad''"
  by (simp_all add: sample_migrations_def bad_migrations_def)

lemmas sample_run = Migrate_def Let_def sample_names ensure_table_def appliedVersions_def
  applied_rows_def sample_store_def sample_done_def applyMigration_def in_tx_def sample_sql_def
  sql_insert_def

lemma sample_migrates: "Migrate sample_sql sample_migrations sample_store = (Inr (), sample_done)"
  by (simp add: sample_run)

lemma bad_migrates: "Migrate sample_sql bad_migrations sample_store = (Inl (MigrationFailed ''0003.sql''), sample_done)"
  by (simp add: sample_run)

theorem migrate_twice_witness:
  "Migrate sample_sql sample_migrations sample_done = (Inr (), sample_done)"
  by (rule conjunct1[OF migrate_twice[OF sample_migrates]])

theorem migrate_leaves_prefix_witness:
  "\<exists>done rest. pending_names (appliedVersions sample_store) (sort (glob_sql bad_migrations)) = done @ rest \<and>
     run_bodies sample_sql bad_migrations done (sr_data sample_store) = Some (sr_data sample_done)"
  using migrate_leaves_prefix[OF bad_migrates] by blast

theorem upgrade_is_guarded_witness:
  "UpgradeWithHook sample_sql [] ''p'' True (\<lambda>_ s. s) sample_store
     = \<lparr>up_result = Inl SchemaNewer, up_store = ensure_table sample_store, up_snapshot = None\<rparr>
   \<and> up_snapshot (UpgradeWithHook sample_sql sample_migrations ''p'' True (\<lambda>_ s. s) sample_store)
     = Some (''p'', ensure_table sample_store)"
proof -
  note T = upgrade_is_guarded[OF refl, where E = sample_sql and path = "''p''" and snapOk = True
    and hook = "\<lambda>s. s" and ?s0.0 = sample_store]
  have "\<exists>v \<in> set (appliedVersions sample_store). known_max (glob_sql []) 0 < v"
    by (simp add: sample_store_def appliedVersions_def applied_rows_def glob_sql_def)
  moreover have "up_snapshot (UpgradeWithHook sample_sql sample_migrations ''p'' True (\<lambda>_ s. s) sample_store) \<noteq> None"
    using sample_migrates
    by (simp add: UpgradeWithHook_def run_upgrade_def sample_names databaseIsEmpty_def)
       (simp add: sample_run databaseIsEmpty_def run_upgrade_def split: prod.split sum.split)
  ultimately show ?thesis using T[where fs = "[]"] T[where fs = sample_migrations] by blast
qed

end
