(* ===== verification/Restore.thy ===== *)
theory Restore
  imports Rekey Manifest Migrate
begin

text \<open>
  \<open>backup/restore.go\<close>, \<open>recovery_state.go\<close>: the offline restore.  The data directory is a record: the
  database files by name and the recovery state file.  An operation is a function on the directory
  that also returns every directory it makes on the way, in order: these are the states that a
  process death can leave behind.  A file that is being written is \<open>Torn\<close> until it is complete;
  the recovery state is written to a temporary file and renamed, so it changes in one step; a rename
  is one step.  Which input/output call fails is a parameter (one fault per call site), and so are
  the extracted tree, the SQL of the migrations and the fault-injection hooks.  \<open>os.Remove\<close> is
  taken to succeed.  A WAL beside the live file is its second component; removing the side files
  drops it, and closing the last connection moves it into the main file, as SQLite documents.
\<close>

section \<open>The data directory\<close>

record recovery_state =
  rs_stage :: string
  rs_backup :: string
  rs_archive :: string
  rs_presnap :: string
  rs_cand :: string
  rs_empty :: bool

definition StageSnapshot :: string where "StageSnapshot = ''snapshot''"
definition StageCandidate :: string where "StageCandidate = ''candidate''"
definition StageRekeyed :: string where "StageRekeyed = ''rekeyed''"
definition StageSwitchReady :: string where "StageSwitchReady = ''switch_ready''"
definition StageSwitched :: string where "StageSwitched = ''switched''"

lemmas stage_defs = StageSnapshot_def StageCandidate_def StageRekeyed_def StageSwitchReady_def
  StageSwitched_def

datatype state_file = StateAbsent | StateBroken | StateSaved recovery_state

type_synonym content = "db store"

datatype image = Torn | Whole content "content option"

fun view :: "image \<Rightarrow> content option" where
  "view Torn = None"
| "view (Whole main log) = Some (case log of None \<Rightarrow> main | Some c \<Rightarrow> c)"

fun drop_log :: "image \<Rightarrow> image" where
  "drop_log Torn = Torn"
| "drop_log (Whole main log) = Whole main None"

record disk =
  dk_file :: "string \<Rightarrow> image option"
  dk_state :: state_file

definition livePath :: string where "livePath = ''tiny-password.db''"
definition candidateName :: string where "candidateName = ''restore-candidate.db''"
definition presnapshotName :: "string \<Rightarrow> string" where
  "presnapshotName stamp = ''pre-restore-'' @ stamp @ ''.db''"

definition set_file :: "string \<Rightarrow> image option \<Rightarrow> disk \<Rightarrow> disk" where
  "set_file p x d = d\<lparr>dk_file := (dk_file d)(p := x)\<rparr>"

definition file_view :: "disk \<Rightarrow> string \<Rightarrow> content option" where
  "file_view d p = Option.bind (dk_file d p) view"

section \<open>Errors, faults and hooks\<close>

datatype restore_code = RestoreCodeDataDirLocked | RestoreCodePassphrase | RestoreCodeArchive
  | RestoreCodeFormat | RestoreCodeSchemaTooNew | RestoreCodeSpace | RestoreCodeTargetKey
  | RestoreCodeSnapshot | RestoreCodeRekey | RestoreCodeMigrate | RestoreCodeVerify
  | RestoreCodeSwitch | RestoreCodeRolledBack | RestoreCodeInternal | RestoreCodeStateUnreadable

type_synonym restore_error = "string \<times> restore_code"

datatype fault = FailSession | FailSpace | FailStatLive | FailOpenLive | FailSnapshot
  | FailIntegrity | FailStateSnapshot | FailCopy | FailStateCandidate | FailStateRekeyed
  | FailOpenCandidate | FailStamp | FailCheckpoint | FailStateMigrated | FailStateReady | FailRename
  | FailStateSwitched | FailStatCandidate | FailStatSwitched | FailCheckOpen | FailCheckIntegrity
  | FailRollbackRename | FailAuditOpen

datatype hook = AfterSnapshot | AfterRekey | AfterMigrate | BeforeSwitch | AfterSwitch

datatype hook_outcome = HookOk | HookCrash | HookError

record archive_tree =
  at_tree :: extracted
  at_content :: content

record restore_env =
  ro_passphrase :: string
  ro_target :: bytes
  ro_locked :: bool
  ro_archive :: string
  ro_extract :: "archive_tree option"
  ro_tree :: tree_env
  ro_files :: migrations
  ro_sql :: "db sql_env"
  ro_aead :: aead
  ro_item_nonce :: "string \<Rightarrow> bytes"
  ro_version_nonce :: "string \<Rightarrow> nat \<Rightarrow> bytes"
  ro_order :: "item_row list \<Rightarrow> item_row list"
  ro_stamp :: string
  ro_fault :: "fault \<Rightarrow> bool"
  ro_hook :: "hook \<Rightarrow> hook_outcome"
  ro_audit :: "audit_env option"

record restore_result =
  res_backup :: string
  res_items :: nat
  res_versions :: nat
  res_auth :: nat
  res_presnap :: string
  res_resumed :: bool

section \<open>Operations with their intermediate states\<close>

type_synonym 'a io = "disk \<Rightarrow> (restore_error + 'a) \<times> disk \<times> disk list"

definition give :: "'a \<Rightarrow> 'a io" where "give x d = (Inr x, d, [])"
definition stop :: "string \<Rightarrow> restore_code \<Rightarrow> 'a io" where "stop stage code d = (Inl (stage, code), d, [])"
definition effect :: "(disk \<Rightarrow> disk) \<Rightarrow> unit io" where "effect f d = (Inr (), f d, [f d])"
definition look :: "(disk \<Rightarrow> 'a) \<Rightarrow> 'a io" where "look f d = (Inr (f d), d, [])"
definition guard :: "bool \<Rightarrow> string \<Rightarrow> restore_code \<Rightarrow> unit io" where
  "guard b stage code = (if b then give () else stop stage code)"

definition seq :: "'a io \<Rightarrow> ('a \<Rightarrow> 'b io) \<Rightarrow> 'b io" where
  "seq m k d = (case m d of (Inl e, d1, t1) \<Rightarrow> (Inl e, d1, t1)
     | (Inr x, d1, t1) \<Rightarrow> (case k x d1 of (r, d2, t2) \<Rightarrow> (r, d2, t1 @ t2)))"

definition then_io :: "'a io \<Rightarrow> 'b io \<Rightarrow> 'b io" where
  "then_io m k = seq m (\<lambda>_. k)"

definition writeRecoveryState :: "bool \<Rightarrow> recovery_state \<Rightarrow> string \<Rightarrow> unit io" where
  "writeRecoveryState failed st stage =
    (if failed then stop stage RestoreCodeInternal else effect (\<lambda>d. d\<lparr>dk_state := StateSaved st\<rparr>))"

definition removeRecoveryState :: "unit io" where
  "removeRecoveryState = effect (\<lambda>d. d\<lparr>dk_state := StateAbsent\<rparr>)"

definition remove_file :: "string \<Rightarrow> unit io" where
  "remove_file p = effect (set_file p None)"

definition remove_sidecars :: "unit io" where
  "remove_sidecars = effect (\<lambda>d. set_file livePath (map_option drop_log (dk_file d livePath)) d)"

definition rename_file :: "string \<Rightarrow> string \<Rightarrow> unit io" where
  "rename_file p q = effect (\<lambda>d. set_file p None (set_file q (map_option drop_log (dk_file d p)) d))"

text \<open>A file written from scratch: torn, then complete.\<close>

definition write_file :: "string \<Rightarrow> content \<Rightarrow> unit io" where
  "write_file p c = then_io (effect (set_file p (Some Torn))) (effect (set_file p (Some (Whole c None))))"

text \<open>Opening a database file, using it and closing the last connection: the log is merged, and the
  new content is what the user left.\<close>

definition open_db :: "bool \<Rightarrow> string \<Rightarrow> string \<Rightarrow> restore_code \<Rightarrow> content io" where
  "open_db failed p stage code =
    (if failed then stop stage code
     else seq (look (\<lambda>d. file_view d p)) (\<lambda>v.
       case v of None \<Rightarrow> stop stage code | Some c \<Rightarrow> give c))"

definition close_db :: "string \<Rightarrow> content \<Rightarrow> unit io" where
  "close_db p c = effect (set_file p (Some (Whole c None)))"

definition run_hook :: "restore_env \<Rightarrow> hook \<Rightarrow> string \<Rightarrow> recovery_state \<Rightarrow> unit io" where
  "run_hook E h stage st =
    (case ro_hook E h of HookOk \<Rightarrow> give ()
     | HookCrash \<Rightarrow> stop stage RestoreCodeSwitch
     | HookError \<Rightarrow>
        if rs_stage st \<noteq> StageSwitched then
          then_io (if rs_cand st \<noteq> '''' then remove_file (rs_cand st) else give ())
            (then_io removeRecoveryState (stop stage RestoreCodeSwitch))
        else stop stage RestoreCodeSwitch)"

section \<open>The archive\<close>

text \<open>\<open>maxMigrationVersion\<close>.\<close>

fun max_version :: "string list \<Rightarrow> int \<Rightarrow> int" where
  "max_version [] m = m"
| "max_version (n # ns) m =
    max_version ns (case scan_int n of None \<Rightarrow> m | Some (v, _) \<Rightarrow> if m < v then v else m)"

definition maxMigrationVersion :: "migrations \<Rightarrow> int" where
  "maxMigrationVersion fs = max_version (glob_sql fs) 0"

text \<open>Step 1: extract, verify, check the versions and read the source key.\<close>

definition open_archive :: "restore_env \<Rightarrow> restore_error + (manifest \<times> bytes \<times> content)" where
  "open_archive E =
    andthen (from_option (''extract'', RestoreCodeArchive) (ro_extract E)) (\<lambda>a.
    andthen (map_err (\<lambda>_. (''extract'', RestoreCodeArchive)) (verifyRestoreTree (ro_tree E) (at_tree a))) (\<lambda>_.
    andthen (map_err (\<lambda>_. (''extract'', RestoreCodeArchive)) (readManifestFile (ro_tree E) (at_tree a))) (\<lambda>m.
    andthen (ensure (mn_format m = FormatVersion) (''extract'', RestoreCodeFormat)) (\<lambda>_.
    andthen (ensure (mn_schema m \<le> maxMigrationVersion (ro_files E)) (''extract'', RestoreCodeSchemaTooNew)) (\<lambda>_.
    andthen (from_option (''extract'', RestoreCodeArchive) (ex_files (at_tree a) MasterKeyPath)) (\<lambda>raw.
    andthen (from_option (''extract'', RestoreCodeArchive) (NewMasterKey raw)) (\<lambda>source.
    andthen (ensure (ex_files (at_tree a) SnapshotPath \<noteq> None) (''extract'', RestoreCodeArchive)) (\<lambda>_.
    Inr (m, source, at_content a)))))))))"

definition rekey_of :: "restore_env \<Rightarrow> bytes \<Rightarrow> rekey_env" where
  "rekey_of E source = \<lparr>rk_aead = ro_aead E, rk_source = source, rk_target = ro_target E,
     rk_item_nonce = ro_item_nonce E, rk_version_nonce = ro_version_nonce E, rk_order = ro_order E\<rparr>"

definition data_verify :: "restore_env \<Rightarrow> content \<Rightarrow> verify_error + unit" where
  "data_verify E c = verifyCandidate (ro_aead E) (ro_target E) (sr_data c)"

section \<open>Check and rollback\<close>

text \<open>\<open>postSwitchCheck\<close>: whether the database in its final place passes.\<close>

definition postSwitchCheck :: "restore_env \<Rightarrow> string \<Rightarrow> bool io" where
  "postSwitchCheck E backupID =
    (if ro_fault E FailCheckOpen then give False
     else seq (look (\<lambda>d. file_view d livePath)) (\<lambda>v.
       case v of None \<Rightarrow> give False
       | Some c \<Rightarrow>
          (case Migrate (ro_sql E) (ro_files E) c of
             (Inl _, c') \<Rightarrow> then_io (close_db livePath c') (give False)
           | (Inr _, c') \<Rightarrow> then_io (close_db livePath c')
               (give (\<not> ro_fault E FailCheckIntegrity \<and> data_verify E c' = Inr ()
                  \<and> readRestoreMarker (sr_data c') = backupID)))))"

definition rollbackRestore :: "restore_env \<Rightarrow> recovery_state \<Rightarrow> restore_result io" where
  "rollbackRestore E st =
    then_io remove_sidecars
    (then_io (if rs_empty st then remove_file livePath
              else if rs_presnap st \<noteq> '''' then
                seq (look (\<lambda>d. dk_file d (rs_presnap st))) (\<lambda>f.
                  if ro_fault E FailRollbackRename \<or> f = None then stop ''rollback'' RestoreCodeSwitch
                  else rename_file (rs_presnap st) livePath)
              else give ())
    (then_io removeRecoveryState (stop ''switch'' RestoreCodeRolledBack)))"

definition finish_restore :: "restore_env \<Rightarrow> recovery_state \<Rightarrow> string \<Rightarrow> restore_result \<Rightarrow> restore_result io" where
  "finish_restore E st backupID res =
    seq (postSwitchCheck E backupID) (\<lambda>ok.
      if \<not> ok then rollbackRestore E st else then_io removeRecoveryState (give res))"

section \<open>A fresh attempt\<close>

text \<open>Step 3: the pre-snapshot of an existing target.\<close>

definition take_presnapshot :: "restore_env \<Rightarrow> recovery_state \<Rightarrow> recovery_state io" where
  "take_presnapshot E st =
    seq (look (\<lambda>d. dk_file d livePath)) (\<lambda>live.
      if ro_fault E FailStatLive then stop ''presnapshot'' RestoreCodeSnapshot
      else if live = None then give (st\<lparr>rs_empty := True\<rparr>)
      else if rs_presnap st = '''' then
        seq (open_db (ro_fault E FailOpenLive) livePath ''presnapshot'' RestoreCodeSnapshot) (\<lambda>c.
        then_io (effect (set_file (presnapshotName (ro_stamp E)) (Some Torn)))
        (if ro_fault E FailSnapshot
         then then_io (close_db livePath c) (stop ''presnapshot'' RestoreCodeSnapshot)
         else then_io (effect (set_file (presnapshotName (ro_stamp E)) (Some (Whole c None))))
          (then_io (close_db livePath c)
          (then_io (guard (\<not> ro_fault E FailIntegrity) ''presnapshot'' RestoreCodeSnapshot)
          (give (st\<lparr>rs_presnap := presnapshotName (ro_stamp E)\<rparr>))))))
      else give st)"

text \<open>Steps 4 and 5: the candidate under the target key.\<close>

definition build_candidate ::
  "restore_env \<Rightarrow> recovery_state \<Rightarrow> bytes \<Rightarrow> content \<Rightarrow> (recovery_state \<times> rekey_report \<times> content) io" where
  "build_candidate E st source snap =
    (let st1 = st\<lparr>rs_cand := candidateName\<rparr>; st2 = st1\<lparr>rs_stage := StageCandidate\<rparr>;
         st3 = st2\<lparr>rs_stage := StageRekeyed\<rparr> in
     then_io (if ro_fault E FailCopy
              then then_io (effect (set_file candidateName (Some Torn))) (stop ''candidate'' RestoreCodeInternal)
              else write_file candidateName snap)
     (then_io (writeRecoveryState (ro_fault E FailStateCandidate) st2 ''candidate'')
     (case RekeyCandidate (rekey_of E source) (sr_data snap) of
        (Inl _, _) \<Rightarrow> stop ''rekey'' RestoreCodeRekey
      | (Inr report, data) \<Rightarrow>
         (let c = snap\<lparr>sr_data := data\<rparr> in
          then_io (close_db candidateName c)
          (then_io (writeRecoveryState (ro_fault E FailStateRekeyed) st3 ''rekey'')
          (then_io (run_hook E AfterRekey ''rekey'' st3)
          (give (st3, report, c))))))))"

text \<open>Step 6: migration, identity stamp and full verification of the candidate.\<close>

definition prepare_candidate :: "restore_env \<Rightarrow> recovery_state \<Rightarrow> string \<Rightarrow> content \<Rightarrow> unit io" where
  "prepare_candidate E st backupID c =
    then_io (guard (\<not> ro_fault E FailOpenCandidate) ''migrate'' RestoreCodeMigrate)
    (case Migrate (ro_sql E) (ro_files E) c of
       (Inl _, c1) \<Rightarrow> then_io (close_db candidateName c1) (stop ''migrate'' RestoreCodeMigrate)
     | (Inr _, c1) \<Rightarrow>
        if ro_fault E FailStamp then then_io (close_db candidateName c1) (stop ''migrate'' RestoreCodeInternal)
        else (let c2 = c1\<lparr>sr_data := stampRestoreMarker backupID (sr_data c1)\<rparr> in
          then_io (close_db candidateName c2)
          (then_io (guard (\<not> ro_fault E FailCheckpoint) ''migrate'' RestoreCodeMigrate)
          (then_io (guard (data_verify E c2 = Inr ()) ''verify'' RestoreCodeVerify)
          (then_io (writeRecoveryState (ro_fault E FailStateMigrated) (st\<lparr>rs_stage := StageRekeyed\<rparr>) ''migrate'')
          (run_hook E AfterMigrate ''migrate'' (st\<lparr>rs_stage := StageRekeyed\<rparr>)))))))"

text \<open>The rename and the state written after it.\<close>

definition switch_files :: "restore_env \<Rightarrow> recovery_state \<Rightarrow> string \<Rightarrow> unit io" where
  "switch_files E st from_path =
    then_io remove_sidecars
    (then_io (guard (\<not> ro_fault E FailRename) ''switch'' RestoreCodeSwitch)
    (then_io (rename_file from_path livePath)
    (writeRecoveryState (ro_fault E FailStateSwitched) (st\<lparr>rs_stage := StageSwitched\<rparr>) ''switch'')))"

text \<open>Steps 7 and 8.\<close>

definition switch_over ::
  "restore_env \<Rightarrow> recovery_state \<Rightarrow> string \<Rightarrow> rekey_report \<Rightarrow> restore_result io" where
  "switch_over E st backupID report =
    (let ready = st\<lparr>rs_stage := StageSwitchReady\<rparr>; switched = st\<lparr>rs_stage := StageSwitched\<rparr>;
         finish = finish_restore E switched backupID
           \<lparr>res_backup = backupID, res_items = rr_items report, res_versions = rr_versions report,
            res_auth = rr_auth report, res_presnap = rs_presnap st, res_resumed = False\<rparr> in
     then_io (writeRecoveryState (ro_fault E FailStateReady) ready ''switch'')
     (then_io (run_hook E BeforeSwitch ''switch'' ready)
     (then_io (switch_files E ready candidateName)
     (case ro_hook E AfterSwitch of
        HookCrash \<Rightarrow> stop ''switch'' RestoreCodeSwitch
      | HookError \<Rightarrow> rollbackRestore E switched
      | HookOk \<Rightarrow> finish))))"

definition initial_state :: "restore_env \<Rightarrow> recovery_state option \<Rightarrow> string \<Rightarrow> recovery_state" where
  "initial_state E existing backupID =
    (case existing of
       None \<Rightarrow> \<lparr>rs_stage = StageSnapshot, rs_backup = backupID, rs_archive = ro_archive E,
                rs_presnap = '''', rs_cand = '''', rs_empty = False\<rparr>
     | Some st \<Rightarrow> st\<lparr>rs_backup := backupID, rs_archive := ro_archive E\<rparr>)"

definition runRestore :: "restore_env \<Rightarrow> recovery_state option \<Rightarrow> restore_result io" where
  "runRestore E existing =
    then_io (guard (\<not> ro_fault E FailSession) ''start'' RestoreCodeInternal)
    (case open_archive E of Inl e \<Rightarrow> stop (fst e) (snd e)
     | Inr (m, source, snap) \<Rightarrow>
        then_io (guard (\<not> ro_fault E FailSpace) ''space'' RestoreCodeSpace)
        (seq (take_presnapshot E (initial_state E existing (mn_backup m))) (\<lambda>st0.
          let st = st0\<lparr>rs_stage := StageSnapshot\<rparr> in
          then_io (writeRecoveryState (ro_fault E FailStateSnapshot) st ''presnapshot'')
          (then_io (run_hook E AfterSnapshot ''snapshot'' st)
          (seq (build_candidate E st source snap) (\<lambda>(st1, report, c).
           then_io (prepare_candidate E st1 (mn_backup m) c)
           (switch_over E st1 (mn_backup m) report)))))))"

section \<open>Resuming\<close>

definition resume_switch :: "restore_env \<Rightarrow> recovery_state \<Rightarrow> recovery_state io" where
  "resume_switch E st =
    (if rs_stage st = StageSwitchReady \<and> rs_cand st \<noteq> '''' then
       seq (look (\<lambda>d. dk_file d (rs_cand st))) (\<lambda>f.
         if ro_fault E FailStatCandidate then stop ''switch'' RestoreCodeInternal
         else if f = None then give st
         else then_io (switch_files E st (rs_cand st)) (give (st\<lparr>rs_stage := StageSwitched\<rparr>)))
     else give st)"

definition resumeRestore :: "restore_env \<Rightarrow> recovery_state \<Rightarrow> restore_result io" where
  "resumeRestore E st =
    (if rs_stage st \<in> {StageSwitchReady, StageSwitched} then
       seq (resume_switch E st) (\<lambda>st1.
       seq (look (\<lambda>d. dk_file d livePath)) (\<lambda>live.
         if ro_fault E FailStatSwitched then stop ''switch'' RestoreCodeInternal
         else if live = None then rollbackRestore E st1
         else finish_restore E st1 (rs_backup st1)
           \<lparr>res_backup = rs_backup st1, res_items = 0, res_versions = 0, res_auth = 0,
            res_presnap = rs_presnap st1, res_resumed = True\<rparr>))
     else
       then_io (if rs_cand st \<noteq> '''' then remove_file (rs_cand st) else give ())
         (runRestore E (Some st)))"

section \<open>The command\<close>

definition audit_event :: "string \<Rightarrow> bool \<Rightarrow> event" where
  "audit_event backupID ok = mk_event ''backup.restore'' Anonymous ''backup'' backupID
     (if ok then ''success'' else ''failure'')"

definition recordRestoreAudit :: "restore_env \<Rightarrow> restore_error + restore_result \<Rightarrow> unit io" where
  "recordRestoreAudit E r =
    (case ro_audit E of None \<Rightarrow> give ()
     | Some A \<Rightarrow>
        seq (look (\<lambda>d. file_view d livePath)) (\<lambda>v.
          if v = None \<or> ro_fault E FailAuditOpen then give ()
          else (case Record A (audit_event (case r of Inl _ \<Rightarrow> '''' | Inr res \<Rightarrow> res_backup res)
                    (case r of Inl _ \<Rightarrow> False | Inr _ \<Rightarrow> True)) (sr_data (the v)) of
              Inl _ \<Rightarrow> close_db livePath (the v)
            | Inr data \<Rightarrow> close_db livePath ((the v)\<lparr>sr_data := data\<rparr>))))"

definition has_line_break :: "string \<Rightarrow> bool" where
  "has_line_break s \<longleftrightarrow> list_ex (\<lambda>c. of_char c = (10 :: nat) \<or> of_char c = (13 :: nat)) s"

definition restore_attempt :: "restore_env \<Rightarrow> restore_result io" where
  "restore_attempt E =
    seq (look dk_state) (\<lambda>s. case s of
        StateBroken \<Rightarrow> stop ''start'' RestoreCodeStateUnreadable
      | StateSaved st \<Rightarrow> resumeRestore E st
      | StateAbsent \<Rightarrow> runRestore E None)"

definition RestoreInstance :: "restore_env \<Rightarrow> restore_result io" where
  "RestoreInstance E d =
    (if NewMasterKey (ro_target E) = None then stop ''start'' RestoreCodeTargetKey d
     else if ro_passphrase E = '''' \<or> has_line_break (ro_passphrase E) then stop ''start'' RestoreCodePassphrase d
     else if ro_locked E then stop ''start'' RestoreCodeDataDirLocked d
     else (case restore_attempt E d of
       (r, d1, t1) \<Rightarrow> (case recordRestoreAudit E r d1 of (_, d2, t2) \<Rightarrow> (r, d2, t1 @ t2))))"

end
