(* ===== verification/RestoreInvariant.thy ===== *)
theory RestoreInvariant
  imports Restore
begin

text \<open>
  The crash invariant of the offline restore.  \<open>P\<close> describes what the live database may be before the
  switch (\<open>P None\<close>: there may be none), \<open>N\<close> what the switch may install.  The invariant is stated for
  every directory that a process death can leave behind, and is proved for all of them by rules for
  the sequencing of operations with intermediate states.
\<close>

section \<open>Triples\<close>

text \<open>From a directory with \<open>A\<close>, every intermediate directory has \<open>I\<close>, an error ends in \<open>I\<close>, and a
  result \<open>x\<close> ends in \<open>Q x\<close>.\<close>

definition triple :: "(disk \<Rightarrow> bool) \<Rightarrow> (disk \<Rightarrow> bool) \<Rightarrow> 'a io \<Rightarrow> ('a \<Rightarrow> disk \<Rightarrow> bool) \<Rightarrow> bool" where
  "triple I A m Q \<longleftrightarrow> (\<forall>d. A d \<longrightarrow> (case m d of (r, d', t) \<Rightarrow> (\<forall>x \<in> set t. I x) \<and>
     (case r of Inl _ \<Rightarrow> I d' | Inr y \<Rightarrow> Q y d')))"

lemma tripleD:
  assumes "triple I A m Q" and "m d = (r, d', t)" and "A d"
  shows "(\<forall>x \<in> set t. I x) \<and> (case r of Inl _ \<Rightarrow> I d' | Inr y \<Rightarrow> Q y d')"
  using assms unfolding triple_def by fastforce

lemma triple_give: "(\<And>d. A d \<Longrightarrow> Q x d) \<Longrightarrow> triple I A (give x) Q"
  by (simp add: triple_def give_def)

lemma triple_stop: "(\<And>d. A d \<Longrightarrow> I d) \<Longrightarrow> triple I A (stop s c) Q"
  by (simp add: triple_def stop_def)

lemma triple_effect: "(\<And>d. A d \<Longrightarrow> I (f d)) \<Longrightarrow> (\<And>d. A d \<Longrightarrow> Q () (f d)) \<Longrightarrow> triple I A (effect f) Q"
  by (simp add: triple_def effect_def)

lemma triple_look: "(\<And>d. A d \<Longrightarrow> Q (f d) d) \<Longrightarrow> triple I A (look f) Q"
  by (simp add: triple_def look_def)

lemma triple_seq:
  assumes "triple I A m R" and "\<And>x. triple I (R x) (k x) Q"
  shows "triple I A (seq m k) Q"
  unfolding triple_def
proof (intro allI impI)
  fix d assume "A d"
  obtain r d1 t1 where m: "m d = (r, d1, t1)" by (metis prod_cases3)
  note T = tripleD[OF assms(1) m \<open>A d\<close>]
  show "case seq m k d of (r, d', t) \<Rightarrow> (\<forall>x \<in> set t. I x) \<and> (case r of Inl _ \<Rightarrow> I d' | Inr y \<Rightarrow> Q y d')"
  proof (cases r)
    case (Inl e)
    then show ?thesis using T m by (simp add: seq_def)
  next
    case (Inr x)
    obtain q d2 t2 where k: "k x d1 = (q, d2, t2)" by (metis prod_cases3)
    have "R x d1" using T Inr by simp
    note U = tripleD[OF assms(2) k this]
    show ?thesis using T U m k Inr by (auto simp: seq_def)
  qed
qed

lemma triple_then:
  "triple I A m (\<lambda>_. B) \<Longrightarrow> triple I B k Q \<Longrightarrow> triple I A (then_io m k) Q"
  unfolding then_io_def by (rule triple_seq)

lemma triple_guard:
  "(\<And>d. A d \<Longrightarrow> \<not> b \<Longrightarrow> I d) \<Longrightarrow> (\<And>d. A d \<Longrightarrow> b \<Longrightarrow> Q () d) \<Longrightarrow> triple I A (guard b s c) Q"
  by (simp add: triple_def guard_def give_def stop_def)

lemma triple_weaken: "triple I B m Q \<Longrightarrow> (\<And>d. A d \<Longrightarrow> B d) \<Longrightarrow> triple I A m Q"
  by (simp add: triple_def)

lemma triple_post: "triple I A m R \<Longrightarrow> (\<And>x d. R x d \<Longrightarrow> Q x d) \<Longrightarrow> triple I A m Q"
  unfolding triple_def by (fastforce split: sum.splits)

lemma triple_conj: "(b \<Longrightarrow> triple I A m Q) \<Longrightarrow> triple I (\<lambda>d. A d \<and> b) m Q"
  by (auto simp: triple_def)

lemma triple_if: "(b \<Longrightarrow> triple I A m Q) \<Longrightarrow> (\<not> b \<Longrightarrow> triple I A n Q) \<Longrightarrow> triple I A (if b then m else n) Q"
  by simp

lemma triple_look_seq:
  assumes "\<And>x. triple I (\<lambda>d. A d \<and> f d = x) (k x) Q"
  shows "triple I A (seq (look f) k) Q"
proof (rule triple_seq)
  show "triple I A (look f) (\<lambda>x d. A d \<and> f d = x)" by (rule triple_look) simp
qed (rule assms)

section \<open>What a directory may look like\<close>

definition live_is :: "(content option \<Rightarrow> bool) \<Rightarrow> disk \<Rightarrow> bool" where
  "live_is P d \<longleftrightarrow> (case dk_file d livePath of None \<Rightarrow> P None
     | Some img \<Rightarrow> \<exists>c. view img = Some c \<and> P (Some c))"

definition live_new :: "(content \<Rightarrow> bool) \<Rightarrow> disk \<Rightarrow> bool" where
  "live_new N d \<longleftrightarrow> (\<exists>c. file_view d livePath = Some c \<and> N c)"

definition no_log :: "disk \<Rightarrow> bool" where
  "no_log d \<longleftrightarrow> (\<forall>c l. dk_file d livePath = Some (Whole c l) \<longrightarrow> l = None)"

definition snap_at :: "(content option \<Rightarrow> bool) \<Rightarrow> string \<Rightarrow> disk \<Rightarrow> bool" where
  "snap_at P p d \<longleftrightarrow> p \<notin> {'''', livePath, candidateName} \<and>
     (\<exists>c. dk_file d p = Some (Whole c None) \<and> P (Some c))"

definition covered :: "(content option \<Rightarrow> bool) \<Rightarrow> recovery_state \<Rightarrow> disk \<Rightarrow> bool" where
  "covered P st d \<longleftrightarrow> (if rs_empty st then P None else snap_at P (rs_presnap st) d)"

definition cand_ready :: "(content \<Rightarrow> bool) \<Rightarrow> disk \<Rightarrow> bool" where
  "cand_ready N d \<longleftrightarrow> (\<exists>c. dk_file d candidateName = Some (Whole c None) \<and> N c)"

text \<open>After the switch: the restored database and a way back, or already back.\<close>

definition switched_ok :: "(content option \<Rightarrow> bool) \<Rightarrow> (content \<Rightarrow> bool) \<Rightarrow> recovery_state \<Rightarrow> disk \<Rightarrow> bool" where
  "switched_ok P N st d \<longleftrightarrow> covered P st d \<and> (live_new N d \<or> live_is P d)
     \<or> live_is P d \<and> \<not> rs_empty st \<and> dk_file d (rs_presnap st) = None"

definition saved_ok :: "(content option \<Rightarrow> bool) \<Rightarrow> (content \<Rightarrow> bool) \<Rightarrow> recovery_state \<Rightarrow> disk \<Rightarrow> bool" where
  "saved_ok P N st d \<longleftrightarrow> no_log d \<and> rs_cand st \<in> {'''', candidateName} \<and>
    (if rs_stage st = StageSwitchReady then rs_cand st = candidateName \<and>
        (if dk_file d candidateName = None then switched_ok P N st d
         else cand_ready N d \<and> live_is P d \<and> covered P st d)
     else if rs_stage st = StageSwitched then switched_ok P N st d
     else live_is P d \<and> covered P st d)"

definition restore_inv :: "(content option \<Rightarrow> bool) \<Rightarrow> (content \<Rightarrow> bool) \<Rightarrow> disk \<Rightarrow> bool" where
  "restore_inv P N d \<longleftrightarrow>
    (case dk_state d of
       StateSaved st \<Rightarrow> saved_ok P N st d
     | StateAbsent \<Rightarrow> live_is P d \<or> live_new N d \<and> (P None \<or> (\<exists>p. snap_at P p d))
     | StateBroken \<Rightarrow> False)"

text \<open>A directory from which a restore is started or resumed.\<close>

definition startable :: "(content option \<Rightarrow> bool) \<Rightarrow> (content \<Rightarrow> bool) \<Rightarrow> disk \<Rightarrow> bool" where
  "startable P N d \<longleftrightarrow> restore_inv P N d \<and> (dk_state d = StateAbsent \<longrightarrow> live_is P d)"

section \<open>Frames\<close>

lemma path_neq [simp]: "livePath \<noteq> candidateName" "candidateName \<noteq> livePath" "candidateName \<noteq> ''''"
  "livePath \<noteq> ''''" "presnapshotName s \<noteq> livePath" "presnapshotName s \<noteq> candidateName"
  "livePath \<noteq> presnapshotName s" "candidateName \<noteq> presnapshotName s" "presnapshotName s \<noteq> ''''"
  by (auto simp: livePath_def candidateName_def presnapshotName_def)

lemma set_file_simps [simp]:
  "dk_file (set_file p x d) q = (if q = p then x else dk_file d q)"
  "dk_state (set_file p x d) = dk_state d"
  by (simp_all add: set_file_def)

lemma live_frame [simp]:
  "p \<noteq> livePath \<Longrightarrow> live_is P (set_file p x d) = live_is P d"
  "p \<noteq> livePath \<Longrightarrow> live_new N (set_file p x d) = live_new N d"
  "p \<noteq> livePath \<Longrightarrow> no_log (set_file p x d) = no_log d"
  "live_is P (d\<lparr>dk_state := s\<rparr>) = live_is P d" "live_new N (d\<lparr>dk_state := s\<rparr>) = live_new N d"
  "no_log (d\<lparr>dk_state := s\<rparr>) = no_log d"
  by (auto simp: live_is_def live_new_def no_log_def file_view_def)

lemma snap_frame [simp]:
  "snap_at P p (set_file candidateName x d) = snap_at P p d"
  "snap_at P p (set_file livePath x d) = snap_at P p d"
  "snap_at P p (d\<lparr>dk_state := s\<rparr>) = snap_at P p d"
  by (auto simp: snap_at_def)

lemma covered_frame [simp]:
  "covered P st (set_file candidateName x d) = covered P st d"
  "covered P st (set_file livePath x d) = covered P st d"
  "covered P st (d\<lparr>dk_state := s\<rparr>) = covered P st d"
  "covered P (st\<lparr>rs_stage := g\<rparr>) d = covered P st d" "covered P (st\<lparr>rs_cand := p\<rparr>) d = covered P st d"
  "covered P (st\<lparr>rs_backup := b, rs_archive := a\<rparr>) d = covered P st d"
  by (auto simp: covered_def)

lemma cand_frame [simp]:
  "cand_ready N (set_file livePath x d) = cand_ready N d" "cand_ready N (d\<lparr>dk_state := s\<rparr>) = cand_ready N d"
  by (simp_all add: cand_ready_def)

lemma live_written [simp]:
  "live_is P (set_file livePath (Some (Whole c None)) d) \<longleftrightarrow> P (Some c)"
  "live_new N (set_file livePath (Some (Whole c None)) d) \<longleftrightarrow> N c"
  "no_log (set_file livePath (Some (Whole c None)) d)"
  "live_is P (set_file livePath None d) \<longleftrightarrow> P None" "no_log (set_file livePath None d)"
  "file_view (set_file livePath (Some (Whole c None)) d) livePath = Some c"
  by (auto simp: live_is_def live_new_def no_log_def file_view_def)

lemma drop_log_same:
  "no_log d \<Longrightarrow> set_file livePath (map_option drop_log (dk_file d livePath)) d = d"
proof -
  assume n: "no_log d"
  have "map_option drop_log (dk_file d livePath) = dk_file d livePath"
  proof (cases "dk_file d livePath")
    case (Some img)
    then show ?thesis using n by (cases img) (auto simp: no_log_def)
  qed simp
  then show ?thesis by (simp add: set_file_def)
qed

lemma live_view_cases:
  assumes "live_is P d \<or> live_new N d"
  shows "file_view d livePath = None \<longleftrightarrow> dk_file d livePath = None"
  using assms by (auto simp: live_is_def live_new_def file_view_def split: option.splits)

lemma live_is_view: "file_view d livePath = Some c \<Longrightarrow> live_is P d \<longleftrightarrow> P (Some c)"
  by (auto simp: live_is_def file_view_def split: option.splits bind_splits)

lemma live_new_view: "file_view d livePath = Some c \<Longrightarrow> live_new N d \<longleftrightarrow> N c"
  by (simp add: live_new_def)

end
