(* ===== verification/RestoreRules.thy ===== *)
theory RestoreRules
  imports RestoreInvariant
begin

text \<open>
  The contract of one restore attempt: whatever the attempt does, every directory on the way has the
  crash invariant.  The locale states what the origin \<open>P\<close> and the restored content \<open>N\<close> have to be
  closed under.
\<close>

section \<open>How contents change\<close>

inductive evolves :: "db sql_env \<Rightarrow> migrations \<Rightarrow> content \<Rightarrow> content \<Rightarrow> bool" for S F where
  evolves_refl: "evolves S F c c"
| evolves_audit: "evolves S F c c1 \<Longrightarrow>
     evolves S F c (c1\<lparr>sr_data := (sr_data c1)\<lparr>audits := audits (sr_data c1) @ rows\<rparr>\<rparr>)"
| evolves_migrate: "evolves S F c c1 \<Longrightarrow> Migrate S F c1 = (r, c2) \<Longrightarrow> evolves S F c c2"

text \<open>What an attempt builds from its archive: the snapshot re-encrypted, migrated, stamped with the
  backup id, and verified.\<close>

definition built :: "restore_env \<Rightarrow> content \<Rightarrow> bool" where
  "built E c \<longleftrightarrow> (\<exists>m source snap rep data c1. open_archive E = Inr (m, source, snap) \<and>
     RekeyCandidate (rekey_of E source) (sr_data snap) = (Inr rep, data) \<and>
     Migrate (ro_sql E) (ro_files E) (snap\<lparr>sr_data := data\<rparr>) = (Inr (), c1) \<and>
     c = c1\<lparr>sr_data := stampRestoreMarker (mn_backup m) (sr_data c1)\<rparr> \<and> data_verify E c = Inr ())"

section \<open>Phases of an attempt\<close>

definition early :: "recovery_state \<Rightarrow> bool" where
  "early st \<longleftrightarrow> rs_stage st \<noteq> StageSwitchReady \<and> rs_stage st \<noteq> StageSwitched \<and>
     rs_cand st \<in> {'''', candidateName}"

definition calm :: "(content option \<Rightarrow> bool) \<Rightarrow> disk \<Rightarrow> bool" where
  "calm P d \<longleftrightarrow> live_is P d \<and> (case dk_state d of StateAbsent \<Rightarrow> True | StateBroken \<Rightarrow> False
     | StateSaved st \<Rightarrow> no_log d \<and> early st \<and> covered P st d)"

definition entry :: "(content option \<Rightarrow> bool) \<Rightarrow> recovery_state \<Rightarrow> disk \<Rightarrow> bool" where
  "entry P st d \<longleftrightarrow> calm P d \<and> rs_cand st \<in> {'''', candidateName} \<and>
     (dk_state d = StateAbsent \<and> rs_presnap st = '''' \<and> \<not> rs_empty st \<or>
      (\<exists>st'. dk_state d = StateSaved st' \<and> rs_presnap st = rs_presnap st' \<and> rs_empty st = rs_empty st'))"

definition building :: "(content option \<Rightarrow> bool) \<Rightarrow> recovery_state \<Rightarrow> disk \<Rightarrow> bool" where
  "building P st d \<longleftrightarrow> calm P d \<and> no_log d \<and> covered P st d \<and> early st"

definition pending :: "(content option \<Rightarrow> bool) \<Rightarrow> (content \<Rightarrow> bool) \<Rightarrow> recovery_state \<Rightarrow> disk \<Rightarrow> bool" where
  "pending P N st d \<longleftrightarrow> dk_state d = StateSaved st \<and> rs_stage st = StageSwitchReady \<and>
     rs_cand st = candidateName \<and> no_log d \<and> live_is P d \<and> covered P st d \<and> cand_ready N d"

definition after_switch :: "(content option \<Rightarrow> bool) \<Rightarrow> (content \<Rightarrow> bool) \<Rightarrow> recovery_state \<Rightarrow> disk \<Rightarrow> bool" where
  "after_switch P N st d \<longleftrightarrow> no_log d \<and> switched_ok P N st d \<and>
     (\<exists>st0. dk_state d = StateSaved st0 \<and> rs_presnap st0 = rs_presnap st \<and> rs_empty st0 = rs_empty st \<and>
        rs_cand st0 \<in> {'''', candidateName} \<and>
        (rs_stage st0 = StageSwitched \<or>
         rs_stage st0 = StageSwitchReady \<and> rs_cand st0 = candidateName \<and> dk_file d candidateName = None))"

definition completed :: "(content option \<Rightarrow> bool) \<Rightarrow> (content \<Rightarrow> bool) \<Rightarrow> restore_env \<Rightarrow> restore_result \<Rightarrow> disk \<Rightarrow> bool" where
  "completed P N E res d \<longleftrightarrow> restore_inv P N d \<and> dk_state d = StateAbsent \<and>
     (\<exists>c. file_view d livePath = Some c \<and> data_verify E c = Inr () \<and>
        readRestoreMarker (sr_data c) = res_backup res) \<and>
     (live_is P d \<or> P None \<or> snap_at P (res_presnap res) d)"

lemma stage_neq [simp]: "StageSwitchReady \<noteq> StageSwitched" "StageSwitched \<noteq> StageSwitchReady"
  "StageSnapshot \<noteq> StageSwitchReady" "StageSnapshot \<noteq> StageSwitched"
  "StageCandidate \<noteq> StageSwitchReady" "StageCandidate \<noteq> StageSwitched"
  "StageRekeyed \<noteq> StageSwitchReady" "StageRekeyed \<noteq> StageSwitched"
  by (simp_all add: stage_defs)

lemma switched_ok_cong:
  "rs_presnap st = rs_presnap st' \<Longrightarrow> rs_empty st = rs_empty st' \<Longrightarrow>
     switched_ok P N st d = switched_ok P N st' d"
  by (simp add: switched_ok_def covered_def)

lemma covered_cong:
  "rs_presnap st = rs_presnap st' \<Longrightarrow> rs_empty st = rs_empty st' \<Longrightarrow> covered P st d = covered P st' d"
  by (simp add: covered_def)

lemma calm_inv: "calm P d \<Longrightarrow> restore_inv P N d"
  by (auto simp: calm_def restore_inv_def saved_ok_def early_def split: state_file.splits)

lemma pending_inv: "pending P N st d \<Longrightarrow> restore_inv P N d"
  by (auto simp: pending_def restore_inv_def saved_ok_def cand_ready_def)

lemma after_switch_inv: "after_switch P N st d \<Longrightarrow> restore_inv P N d"
proof -
  assume a: "after_switch P N st d"
  then obtain st0 where s0: "dk_state d = StateSaved st0" "rs_presnap st0 = rs_presnap st"
    "rs_empty st0 = rs_empty st" "rs_cand st0 \<in> {'''', candidateName}"
    "rs_stage st0 = StageSwitched \<or>
       rs_stage st0 = StageSwitchReady \<and> rs_cand st0 = candidateName \<and> dk_file d candidateName = None"
    and n: "no_log d" and w: "switched_ok P N st d"
    by (auto simp: after_switch_def)
  have "switched_ok P N st0 d" using w switched_ok_cong[OF s0(2,3)] by simp
  with s0(1,4,5) n show ?thesis by (auto simp: restore_inv_def saved_ok_def)
qed

lemma building_calm: "building P st d \<Longrightarrow> calm P d" by (simp add: building_def)

lemma calm_candidate [simp]: "calm P (set_file candidateName x d) = calm P d"
  by (simp add: calm_def cong: state_file.case_cong)

lemma building_candidate [simp]: "building P st (set_file candidateName x d) = building P st d"
  by (simp add: building_def)

lemma building_save: "building P st d \<Longrightarrow> building P st (d\<lparr>dk_state := StateSaved st\<rparr>)"
  by (simp add: building_def calm_def)

lemma building_upd:
  "building P st d \<Longrightarrow> early (st\<lparr>rs_cand := p, rs_stage := g\<rparr>) \<Longrightarrow> building P (st\<lparr>rs_cand := p, rs_stage := g\<rparr>) d"
  by (simp add: building_def covered_def)

section \<open>The rules\<close>

locale restore_origin =
  fixes M :: "restore_env set" and P :: "content option \<Rightarrow> bool" and N :: "content \<Rightarrow> bool"
  assumes P_evolves: "E \<in> M \<Longrightarrow> P (Some c) \<Longrightarrow> evolves (ro_sql E) (ro_files E) c c' \<Longrightarrow> P (Some c')"
    and N_evolves: "E \<in> M \<Longrightarrow> N c \<Longrightarrow> evolves (ro_sql E) (ro_files E) c c' \<Longrightarrow> N c'"
    and N_built: "E \<in> M \<Longrightarrow> built E c \<Longrightarrow> N c"
begin

abbreviation "Inv \<equiv> restore_inv P N"

lemma live_write:
  assumes "E \<in> M" and "file_view d livePath = Some c" and "evolves (ro_sql E) (ro_files E) c c'"
  shows "live_is P d \<Longrightarrow> live_is P (set_file livePath (Some (Whole c' None)) d)"
    and "live_new N d \<Longrightarrow> live_new N (set_file livePath (Some (Whole c' None)) d)"
    and "switched_ok P N st d \<Longrightarrow> switched_ok P N st (set_file livePath (Some (Whole c' None)) d)"
    and "after_switch P N st d \<Longrightarrow> after_switch P N st (set_file livePath (Some (Whole c' None)) d)"
    and "Inv d \<Longrightarrow> Inv (set_file livePath (Some (Whole c' None)) d)"
proof -
  let ?d = "set_file livePath (Some (Whole c' None)) d"
  show li: "live_is P d \<Longrightarrow> live_is P ?d" and ln: "live_new N d \<Longrightarrow> live_new N ?d"
    using P_evolves[OF assms(1) _ assms(3)] N_evolves[OF assms(1) _ assms(3)]
    by (simp_all add: live_is_view[OF assms(2)] live_new_view[OF assms(2)])
  have eq: "rs_presnap st \<noteq> livePath" if "covered P st d" "\<not> rs_empty st" for st
    using that by (simp add: covered_def snap_at_def)
  have live: "dk_file d livePath \<noteq> None" using assms(2) by (auto simp: file_view_def split: bind_splits)
  show so: "switched_ok P N st d \<Longrightarrow> switched_ok P N st ?d" for st
    using li ln live by (auto simp: switched_ok_def)
  then show "after_switch P N st d \<Longrightarrow> after_switch P N st ?d" by (auto simp: after_switch_def)
  show "Inv d \<Longrightarrow> Inv ?d"
    using li ln so by (auto simp: restore_inv_def saved_ok_def split: state_file.splits)
qed

lemma rollback_triple: "triple Inv (after_switch P N st) (rollbackRestore E st) Q"
  unfolding rollbackRestore_def
proof (rule triple_then[where B = "after_switch P N st"])
  show "triple Inv (after_switch P N st) remove_sidecars (\<lambda>_. after_switch P N st)"
    unfolding remove_sidecars_def
    by (rule triple_effect) (auto simp: after_switch_def drop_log_same intro: after_switch_inv[of P N st])
  let ?rolled = "\<lambda>d. live_is P d \<and> Inv d"
  have step: "?rolled (set_file livePath None d)" if "after_switch P N st d" "rs_empty st" for d
    using that by (auto simp: after_switch_def switched_ok_def covered_def restore_inv_def saved_ok_def)
  have returned: "?rolled (set_file (rs_presnap st) None (set_file livePath (map_option drop_log (dk_file d (rs_presnap st))) d))"
    if a: "after_switch P N st d" and e: "\<not> rs_empty st" and f: "dk_file d (rs_presnap st) \<noteq> None" for d
  proof -
    from a e f have c: "snap_at P (rs_presnap st) d" by (auto simp: after_switch_def switched_ok_def covered_def)
    then obtain x where x: "dk_file d (rs_presnap st) = Some (Whole x None)" "P (Some x)"
      and n: "rs_presnap st \<noteq> livePath" "rs_presnap st \<noteq> candidateName" by (auto simp: snap_at_def)
    then show ?thesis
      using a e by (auto simp: after_switch_def restore_inv_def saved_ok_def switched_ok_def)
  qed
  have keep: "live_is P d" if "after_switch P N st d" "\<not> rs_empty st" "rs_presnap st = ''''" for d
    using that by (auto simp: after_switch_def switched_ok_def covered_def snap_at_def)
  show "triple Inv (after_switch P N st)
     (then_io (if rs_empty st then remove_file livePath
              else if rs_presnap st \<noteq> '''' then
                seq (look (\<lambda>d. dk_file d (rs_presnap st))) (\<lambda>f.
                  if ro_fault E FailRollbackRename \<or> f = None then stop ''rollback'' RestoreCodeSwitch
                  else rename_file (rs_presnap st) livePath)
              else give ())
    (then_io removeRecoveryState (stop ''switch'' RestoreCodeRolledBack))) Q"
  proof (rule triple_then[where B = ?rolled])
    show "triple Inv (after_switch P N st)
     (if rs_empty st then remove_file livePath
              else if rs_presnap st \<noteq> '''' then
                seq (look (\<lambda>d. dk_file d (rs_presnap st))) (\<lambda>f.
                  if ro_fault E FailRollbackRename \<or> f = None then stop ''rollback'' RestoreCodeSwitch
                  else rename_file (rs_presnap st) livePath)
              else give ()) (\<lambda>_. ?rolled)"
      unfolding remove_file_def rename_file_def
      by (intro triple_if triple_look_seq triple_effect triple_stop triple_give)
         (use step returned keep in \<open>auto intro: after_switch_inv[of P N st]\<close>)
    show "triple Inv ?rolled (then_io removeRecoveryState (stop ''switch'' RestoreCodeRolledBack)) Q"
      unfolding removeRecoveryState_def
      by (intro triple_then[where B = Inv] triple_effect triple_stop) (auto simp: restore_inv_def)
  qed
qed

lemma check_triple:
  assumes "E \<in> M"
  shows "triple Inv (after_switch P N st) (postSwitchCheck E b) (\<lambda>ok d. after_switch P N st d \<and>
     (ok \<longrightarrow> (\<exists>c. file_view d livePath = Some c \<and> data_verify E c = Inr () \<and> readRestoreMarker (sr_data c) = b)))"
  unfolding postSwitchCheck_def
proof (intro triple_if triple_look_seq)
  show "triple Inv (after_switch P N st) (give False) (\<lambda>ok d. after_switch P N st d \<and>
     (ok \<longrightarrow> (\<exists>c. file_view d livePath = Some c \<and> data_verify E c = Inr () \<and> readRestoreMarker (sr_data c) = b)))"
    by (rule triple_give) simp
  fix v
  show "triple Inv (\<lambda>d. after_switch P N st d \<and> file_view d livePath = v)
     (case v of None \<Rightarrow> give False
       | Some c \<Rightarrow>
          (case Migrate (ro_sql E) (ro_files E) c of
             (Inl _, c') \<Rightarrow> then_io (close_db livePath c') (give False)
           | (Inr _, c') \<Rightarrow> then_io (close_db livePath c')
               (give (\<not> ro_fault E FailCheckIntegrity \<and> data_verify E c' = Inr ()
                  \<and> readRestoreMarker (sr_data c') = b))))
     (\<lambda>ok d. after_switch P N st d \<and>
     (ok \<longrightarrow> (\<exists>c. file_view d livePath = Some c \<and> data_verify E c = Inr () \<and> readRestoreMarker (sr_data c) = b)))"
  proof (cases v)
    case None
    then show ?thesis by (auto intro!: triple_give)
  next
    case (Some c)
    obtain r c' where mig: "Migrate (ro_sql E) (ro_files E) c = (r, c')" by (metis surj_pair)
    have ev: "evolves (ro_sql E) (ro_files E) c c'" by (rule evolves_migrate[OF evolves_refl mig])
    have close: "triple Inv (\<lambda>d. after_switch P N st d \<and> file_view d livePath = v) (close_db livePath c')
        (\<lambda>_ d. after_switch P N st d \<and> file_view d livePath = Some c')"
      unfolding close_db_def
      by (rule triple_effect)
         (use live_write(4)[OF assms _ ev] Some in \<open>auto intro: after_switch_inv[of P N st]\<close>)
    show ?thesis
      unfolding Some mig option.case prod.case
      by (cases r) (simp_all only: sum.case, (rule triple_then[OF close[unfolded Some] triple_give]; auto)+)
  qed
qed

lemma evidence:
  assumes "switched_ok P N st d"
  shows "live_is P d \<or> live_new N d \<and> (P None \<or> snap_at P (rs_presnap st) d)"
  using assms by (auto simp: switched_ok_def covered_def split: if_splits)

lemma finish_triple:
  assumes "E \<in> M" and "res_backup res = b" and "res_presnap res = rs_presnap st"
  shows "triple Inv (after_switch P N st) (finish_restore E st b res) (completed P N E)"
  unfolding finish_restore_def
proof (rule triple_seq[OF check_triple[OF assms(1)]])
  fix ok
  let ?A = "\<lambda>d. after_switch P N st d \<and> (ok \<longrightarrow> (\<exists>c. file_view d livePath = Some c \<and>
      data_verify E c = Inr () \<and> readRestoreMarker (sr_data c) = b))"
  have fin: "completed P N E res (d\<lparr>dk_state := StateAbsent\<rparr>)" if "?A d" ok for d
    using evidence[of st d] that assms(2,3)
    by (auto simp: completed_def restore_inv_def after_switch_def file_view_def)
  show "triple Inv ?A
     (if \<not> ok then rollbackRestore E st else then_io removeRecoveryState (give res)) (completed P N E)"
    unfolding removeRecoveryState_def
    by (intro triple_if triple_weaken[OF rollback_triple] triple_then[where B = "completed P N E res"]
        triple_effect triple_give)
       (use fin in \<open>auto simp: completed_def\<close>)
qed

lemma switch_triple:
  "triple Inv (pending P N st) (switch_files E st candidateName)
     (\<lambda>_ d. after_switch P N st d \<and> after_switch P N (st\<lparr>rs_stage := StageSwitched\<rparr>) d)"
  unfolding switch_files_def
proof (rule triple_then[where B = "pending P N st"])
  show "triple Inv (pending P N st) remove_sidecars (\<lambda>_. pending P N st)"
    unfolding remove_sidecars_def
    by (rule triple_effect) (auto simp: pending_def drop_log_same intro: pending_inv[of P N st])
  let ?B = "\<lambda>d. no_log d \<and> switched_ok P N st d \<and> dk_state d = StateSaved st \<and> rs_stage st = StageSwitchReady \<and>
     rs_cand st = candidateName \<and> dk_file d candidateName = None"
  have moved: "?B (set_file candidateName None (set_file livePath (map_option drop_log (dk_file d candidateName)) d))"
    if "pending P N st d" for d
    using that by (auto simp: pending_def cand_ready_def switched_ok_def)
  have inv: "Inv d" if "?B d" for d
    by (rule after_switch_inv[of P N st]) (use that in \<open>auto simp: after_switch_def\<close>)
  have post: "after_switch P N st (d\<lparr>dk_state := StateSaved (st\<lparr>rs_stage := StageSwitched\<rparr>)\<rparr>)" if "?B d" for d
    using that by (auto simp: after_switch_def switched_ok_def)
  moreover have "after_switch P N (st\<lparr>rs_stage := StageSwitched\<rparr>) d = after_switch P N st d" for d
    using switched_ok_cong[of "st\<lparr>rs_stage := StageSwitched\<rparr>" st P N d] by (simp add: after_switch_def)
  ultimately have post2: "after_switch P N (st\<lparr>rs_stage := StageSwitched\<rparr>)
      (d\<lparr>dk_state := StateSaved (st\<lparr>rs_stage := StageSwitched\<rparr>)\<rparr>)" if "?B d" for d
    using that by simp
  show "triple Inv (pending P N st)
     (then_io (guard (\<not> ro_fault E FailRename) ''switch'' RestoreCodeSwitch)
     (then_io (rename_file candidateName livePath)
     (writeRecoveryState (ro_fault E FailStateSwitched) (st\<lparr>rs_stage := StageSwitched\<rparr>) ''switch'')))
     (\<lambda>_ d. after_switch P N st d \<and> after_switch P N (st\<lparr>rs_stage := StageSwitched\<rparr>) d)"
    unfolding rename_file_def writeRecoveryState_def
    by (intro triple_then[where B = "pending P N st"] triple_then[where B = ?B] triple_guard triple_effect
          triple_if triple_stop)
       (use moved inv post post2 in \<open>auto intro: pending_inv[of P N st] after_switch_inv[of P N st]\<close>)
qed

end

end
