(* ===== verification/RestoreAttempt.thy ===== *)
theory RestoreAttempt
  imports RestoreRules
begin

text \<open>The phases of a restore attempt, in the order of \<open>runRestore\<close>, up to the whole command.\<close>

text \<open>While a presnapshot is being written, nothing depends on presnapshot files yet.\<close>

definition loose :: "disk \<Rightarrow> bool" where
  "loose d \<longleftrightarrow> dk_state d = StateAbsent \<or> (\<exists>st. dk_state d = StateSaved st \<and> rs_empty st)"

lemma loose_frame [simp]: "loose (set_file p x d) = loose d"
  by (simp add: loose_def)

lemma calm_loose: "loose d \<Longrightarrow> p \<noteq> livePath \<Longrightarrow> calm P (set_file p x d) = calm P d"
  by (auto simp: loose_def calm_def covered_def)

definition snapping :: "(content option \<Rightarrow> bool) \<Rightarrow> recovery_state \<Rightarrow> content \<Rightarrow> disk \<Rightarrow> bool" where
  "snapping P st c d \<longleftrightarrow> calm P d \<and> loose d \<and> (rs_empty st \<longrightarrow> P None) \<and> P (Some c) \<and>
     rs_cand st \<in> {'''', candidateName} \<and> file_view d livePath = Some c"

lemma snapping_frame: "p \<noteq> livePath \<Longrightarrow> snapping P st c (set_file p x d) = snapping P st c d"
  using calm_loose by (auto simp: snapping_def file_view_def)

lemma snapping_close:
  "snapping P st c d \<Longrightarrow> snapping P st c (set_file livePath (Some (Whole c None)) d) \<and>
     no_log (set_file livePath (Some (Whole c None)) d)"
  by (simp add: snapping_def calm_def loose_def split: state_file.splits)

lemma entry_snapping:
  assumes "entry P st d" and "rs_presnap st = ''''" and v: "file_view d livePath = Some c"
  shows "snapping P st c d"
proof -
  have "P (Some c)" using assms(1) live_is_view[OF v] by (simp add: entry_def calm_def)
  then show ?thesis
    using assms by (auto simp: entry_def snapping_def loose_def calm_def covered_def snap_at_def)
qed

lemma snapping_building:
  assumes "snapping P st c d" and "no_log d" and "dk_file d p = Some (Whole c None)"
    and "p \<notin> {'''', livePath, candidateName}"
  shows "building P (st\<lparr>rs_presnap := p, rs_stage := StageSnapshot\<rparr>) d"
  using assms by (simp add: snapping_def building_def covered_def snap_at_def early_def)

context restore_origin begin

lemma calm_drop_state: "calm P d \<Longrightarrow> Inv (d\<lparr>dk_state := StateAbsent\<rparr>)"
  by (auto simp: calm_def restore_inv_def)

lemma building_Inv: "building P st d \<Longrightarrow> Inv d"
  by (rule calm_inv[OF building_calm])

lemma calm_removed: "calm P d \<Longrightarrow> Inv (set_file candidateName x d)"
  by (rule calm_inv) simp

lemma hook_frame:
  assumes "early st" and B: "\<And>d. B d \<Longrightarrow> calm P d"
  shows "triple Inv B (run_hook E h s st) (\<lambda>_. B)"
proof (cases "ro_hook E h")
  case HookError
  have a: "triple Inv (calm P) (then_io removeRecoveryState (stop s RestoreCodeSwitch)) (\<lambda>_. B)"
    unfolding removeRecoveryState_def
    by (intro triple_then[where B = Inv] triple_effect triple_stop) (auto intro: calm_drop_state)
  have b: "triple Inv B (if rs_cand st \<noteq> '''' then remove_file (rs_cand st) else give ()) (\<lambda>_. calm P)"
    unfolding remove_file_def
    by (intro triple_if triple_effect triple_give)
       (use assms in \<open>auto simp: early_def intro: calm_removed B\<close>)
  have "rs_stage st \<noteq> StageSwitched" using assms by (simp add: early_def)
  then show ?thesis
    unfolding run_hook_def HookError hook_outcome.case
    by (simp only: not_False_eq_True if_True) (rule triple_then[OF b a])
qed (auto simp: run_hook_def intro!: triple_give triple_stop intro: calm_inv B)

lemmas hook_triple = hook_frame[where B = "building P st" and st = st for st, OF _ building_calm]

lemma save_triple:
  "triple Inv (building P st) (writeRecoveryState b st s) (\<lambda>_. building P st)"
  unfolding writeRecoveryState_def
  by (intro triple_if triple_stop triple_effect)
     (auto intro: building_Inv building_save building_Inv[OF building_save])

lemma snapping_Inv: "snapping P st c d \<Longrightarrow> Inv d"
  by (auto simp: snapping_def intro: calm_inv)

lemma presnapshot_triple:
  fixes E :: restore_env
  defines "p \<equiv> presnapshotName (ro_stamp E)"
  shows "triple Inv (snapping P st c)
      (then_io (effect (set_file p (Some Torn)))
        (if ro_fault E FailSnapshot
         then then_io (close_db livePath c) (stop ''presnapshot'' RestoreCodeSnapshot)
         else then_io (effect (set_file p (Some (Whole c None))))
          (then_io (close_db livePath c)
          (then_io (guard (\<not> ro_fault E FailIntegrity) ''presnapshot'' RestoreCodeSnapshot)
          (give (st\<lparr>rs_presnap := p\<rparr>))))))
      (\<lambda>st0. building P (st0\<lparr>rs_stage := StageSnapshot\<rparr>))"
proof -
  let ?S = "\<lambda>d. snapping P st c d \<and> dk_file d p = Some (Whole c None)"
  have p: "p \<notin> {'''', livePath, candidateName}" by (simp add: p_def)
  have fin: "building P (st\<lparr>rs_presnap := p, rs_stage := StageSnapshot\<rparr>) d" if "?S d" "no_log d" for d
    by (rule snapping_building) (use that p in auto)
  show ?thesis
    unfolding close_db_def
    by (intro triple_then[where B = "snapping P st c"] triple_if triple_effect triple_stop
          triple_then[where B = ?S] triple_then[where B = "\<lambda>d. ?S d \<and> no_log d"] triple_guard triple_give)
       (use p fin in \<open>auto simp: snapping_frame dest: snapping_close intro: snapping_Inv[of st c]
          snapping_Inv[OF conjunct1[OF snapping_close]]\<close>)
qed

lemma take_triple:
  "triple Inv (entry P st) (take_presnapshot E st)
     (\<lambda>st0. building P (st0\<lparr>rs_stage := StageSnapshot\<rparr>))"
proof -
  let ?A = "\<lambda>v d. entry P st d \<and> dk_file d livePath = v"
  have inv: "Inv d" if "entry P st d" for d using that by (auto simp: entry_def intro: calm_inv)
  have none: "building P (st\<lparr>rs_empty := True, rs_stage := StageSnapshot\<rparr>) d" if "?A None d" for d
  proof -
    have "calm P d" "rs_cand st \<in> {'''', candidateName}" using that by (simp_all add: entry_def)
    moreover from this have "P None" using that by (simp add: calm_def live_is_def)
    moreover have "no_log d" using that by (simp add: no_log_def)
    ultimately show ?thesis by (simp add: building_def covered_def early_def)
  qed
  have kept: "building P (st\<lparr>rs_stage := StageSnapshot\<rparr>) d"
    if e: "entry P st d" and n: "rs_presnap st \<noteq> ''''" for d
  proof -
    from e n obtain st' where s: "dk_state d = StateSaved st'" "rs_presnap st = rs_presnap st'"
      "rs_empty st = rs_empty st'" by (auto simp: entry_def)
    then have "covered P st d" "no_log d"
      using e covered_cong[OF s(2,3), of P d] by (simp_all add: entry_def calm_def)
    with e show ?thesis by (simp add: entry_def building_def early_def)
  qed
  show ?thesis
    unfolding take_presnapshot_def
  proof (intro triple_look_seq triple_if)
    fix v
    show "triple Inv (?A v) (stop ''presnapshot'' RestoreCodeSnapshot) (\<lambda>st0. building P (st0\<lparr>rs_stage := StageSnapshot\<rparr>))"
      by (rule triple_stop) (auto intro: inv)
    show "triple Inv (?A v) (give (st\<lparr>rs_empty := True\<rparr>)) (\<lambda>st0. building P (st0\<lparr>rs_stage := StageSnapshot\<rparr>))" if "v = None"
      using none that by (intro triple_give) auto
    show "triple Inv (?A v) (give st) (\<lambda>st0. building P (st0\<lparr>rs_stage := StageSnapshot\<rparr>))"
      if "rs_presnap st \<noteq> ''''"
      using kept that by (intro triple_give) auto
    assume ns: "rs_presnap st = ''''"
    have op: "triple Inv (?A v) (open_db (ro_fault E FailOpenLive) livePath ''presnapshot'' RestoreCodeSnapshot)
        (\<lambda>c. snapping P st c)"
      unfolding open_db_def
    proof (intro triple_if triple_look_seq)
      show "triple Inv (?A v) (stop ''presnapshot'' RestoreCodeSnapshot) (\<lambda>c. snapping P st c)"
        by (rule triple_stop) (auto intro: inv)
      fix w
      show "triple Inv (\<lambda>d. ?A v d \<and> file_view d livePath = w)
        (case w of None \<Rightarrow> stop ''presnapshot'' RestoreCodeSnapshot | Some c \<Rightarrow> give c) (\<lambda>c. snapping P st c)"
        by (cases w) (auto intro!: triple_stop triple_give intro: inv entry_snapping[OF _ ns])
    qed
    show "triple Inv (?A v)
      (seq (open_db (ro_fault E FailOpenLive) livePath ''presnapshot'' RestoreCodeSnapshot) (\<lambda>c.
        then_io (effect (set_file (presnapshotName (ro_stamp E)) (Some Torn)))
        (if ro_fault E FailSnapshot
         then then_io (close_db livePath c) (stop ''presnapshot'' RestoreCodeSnapshot)
         else then_io (effect (set_file (presnapshotName (ro_stamp E)) (Some (Whole c None))))
          (then_io (close_db livePath c)
          (then_io (guard (\<not> ro_fault E FailIntegrity) ''presnapshot'' RestoreCodeSnapshot)
          (give (st\<lparr>rs_presnap := presnapshotName (ro_stamp E)\<rparr>)))))))
      (\<lambda>st0. building P (st0\<lparr>rs_stage := StageSnapshot\<rparr>))"
      by (rule triple_seq[OF op presnapshot_triple])
  qed
qed

lemma building_cand_effect:
  "triple Inv (building P st) (effect (set_file candidateName x)) (\<lambda>_. building P st)"
  by (rule triple_effect) (auto intro: building_Inv calm_removed building_calm)

lemma close_cand_triple:
  "triple Inv (building P st) (close_db candidateName c)
     (\<lambda>_ d. building P st d \<and> dk_file d candidateName = Some (Whole c None))"
  unfolding close_db_def
  by (rule triple_effect) (auto intro: building_Inv calm_removed building_calm)

lemma build_triple:
  assumes "early st" and "rs_stage st = StageSnapshot"
  shows "triple Inv (building P st) (build_candidate E st source snap) (\<lambda>(st1, rep, c) d.
     building P st1 d \<and> rs_cand st1 = candidateName \<and> early st1 \<and>
     (\<exists>data. RekeyCandidate (rekey_of E source) (sr_data snap) = (Inr rep, data) \<and> c = snap\<lparr>sr_data := data\<rparr>))"
proof -
  define st2 where "st2 = st\<lparr>rs_cand := candidateName, rs_stage := StageCandidate\<rparr>"
  define st3 where "st3 = st\<lparr>rs_cand := candidateName, rs_stage := StageRekeyed\<rparr>"
  have e: "early st2" "early st3" "rs_cand st3 = candidateName"
    by (simp_all add: st2_def st3_def early_def)
  have st2_eq: "st\<lparr>rs_cand := candidateName\<rparr>\<lparr>rs_stage := StageCandidate\<rparr> = st2"
    and st23: "st2\<lparr>rs_stage := StageRekeyed\<rparr> = st3"
    by (simp_all add: st2_def st3_def)
  have b2: "building P st2 d" if "building P st d" for d
    unfolding st2_def by (rule building_upd[OF that]) (simp add: early_def)
  have b3: "building P st3 d" if "building P st2 d" for d
    using that by (cases "rs_empty st") (simp_all add: building_def covered_def early_def st2_def st3_def)
  have copy: "triple Inv (building P st)
      (if ro_fault E FailCopy
       then then_io (effect (set_file candidateName (Some Torn))) (stop ''candidate'' RestoreCodeInternal)
       else write_file candidateName snap) (\<lambda>_. building P st2)"
    unfolding write_file_def
    by (intro triple_if triple_then[OF building_cand_effect] triple_stop
        triple_post[OF building_cand_effect]) (auto intro: building_Inv b2)
  show ?thesis
  proof (cases "RekeyCandidate (rekey_of E source) (sr_data snap)")
    case (Pair r data)
    let ?c = "snap\<lparr>sr_data := data\<rparr>"
    let ?Q = "\<lambda>(st1, rep, c) d. building P st1 d \<and> rs_cand st1 = candidateName \<and> early st1 \<and>
       (\<exists>data. RekeyCandidate (rekey_of E source) (sr_data snap) = (Inr rep, data) \<and> c = snap\<lparr>sr_data := data\<rparr>)"
    have close: "triple Inv (building P st2) (close_db candidateName ?c) (\<lambda>_. building P st3)"
      by (rule triple_post[OF close_cand_triple]) (auto intro: b3)
    have "triple Inv (building P st2) (case r of Inl _ \<Rightarrow> stop ''rekey'' RestoreCodeRekey
      | Inr report \<Rightarrow> then_io (close_db candidateName ?c)
          (then_io (writeRecoveryState (ro_fault E FailStateRekeyed) st3 ''rekey'')
          (then_io (run_hook E AfterRekey ''rekey'' st3) (give (st3, report, ?c))))) ?Q"
    proof (cases r)
      case (Inl x)
      then show ?thesis by (auto intro!: triple_stop intro: building_Inv)
    next
      case (Inr rep)
      then show ?thesis
        using Pair e by (auto intro!: triple_then[OF close] triple_then[OF save_triple]
            triple_then[OF hook_triple[OF e(2)]] triple_give)
    qed
    then show ?thesis
      unfolding build_candidate_def Let_def
      by (intro triple_then[OF copy])
         (simp only: Pair prod.case st2_eq st23 triple_then[OF save_triple])
  qed
qed

lemma prepare_triple:
  assumes "E \<in> M" and e: "early st"
    and arch: "open_archive E = Inr (m, source, snap)"
    and rk: "RekeyCandidate (rekey_of E source) (sr_data snap) = (Inr rep, data)"
  shows "triple Inv (building P st) (prepare_candidate E st (mn_backup m) (snap\<lparr>sr_data := data\<rparr>))
     (\<lambda>_ d. building P (st\<lparr>rs_stage := StageRekeyed\<rparr>) d \<and> cand_ready N d)"
proof -
  let ?c = "snap\<lparr>sr_data := data\<rparr>" and ?st = "st\<lparr>rs_stage := StageRekeyed\<rparr>"
  have e': "early ?st" using e by (simp add: early_def)
  have b: "building P ?st d" if "building P st d" for d
    using that e' by (simp add: building_def)
  obtain r c1 where mig: "Migrate (ro_sql E) (ro_files E) ?c = (r, c1)" by (metis surj_pair)
  let ?c2 = "c1\<lparr>sr_data := stampRestoreMarker (mn_backup m) (sr_data c1)\<rparr>"
  let ?R = "\<lambda>d. building P st d \<and> dk_file d candidateName = Some (Whole ?c2 None)"
  let ?B = "\<lambda>d. building P ?st d \<and> cand_ready N d"
  have n: "?B d" if "?R d" "data_verify E ?c2 = Inr ()" "r = Inr ()" for d
    using that b N_built[OF assms(1), of ?c2] arch rk mig by (auto simp: built_def cand_ready_def)
  have save: "triple Inv ?B (writeRecoveryState f ?st s) (\<lambda>_. ?B)" for f s
    unfolding writeRecoveryState_def
    by (intro triple_if triple_stop triple_effect)
       (auto intro: building_Inv[OF building_save] building_save building_Inv)
  have hook: "triple Inv ?B (run_hook E h s ?st) (\<lambda>_. ?B)" for h s
    by (rule hook_frame[OF e']) (auto intro: building_calm)
  show ?thesis
    unfolding prepare_candidate_def
  proof (rule triple_then[where B = "building P st"])
    show "triple Inv (building P st) (guard (\<not> ro_fault E FailOpenCandidate) ''migrate'' RestoreCodeMigrate) (\<lambda>_. building P st)"
      by (rule triple_guard) (auto intro: building_Inv)
    have stopped: "triple Inv (building P st) (then_io (close_db candidateName c1) (stop ''migrate'' code)) Q" for code and Q :: "unit \<Rightarrow> disk \<Rightarrow> bool"
      by (intro triple_then[OF close_cand_triple] triple_stop) (auto intro: building_Inv)
    have rest: "triple Inv (building P st)
       (then_io (close_db candidateName ?c2)
          (then_io (guard (\<not> ro_fault E FailCheckpoint) ''migrate'' RestoreCodeMigrate)
          (then_io (guard (data_verify E ?c2 = Inr ()) ''verify'' RestoreCodeVerify)
          (then_io (writeRecoveryState (ro_fault E FailStateMigrated) ?st ''migrate'')
          (run_hook E AfterMigrate ''migrate'' ?st))))) (\<lambda>_. ?B)" if "r = Inr ()"
      by (intro triple_then[OF close_cand_triple] triple_then[where B = ?R] triple_then[where B = ?B]
            triple_guard save hook)
         (use that n in \<open>auto intro: building_Inv\<close>)
    show "triple Inv (building P st)
     (case Migrate (ro_sql E) (ro_files E) ?c of
       (Inl _, c1) \<Rightarrow> then_io (close_db candidateName c1) (stop ''migrate'' RestoreCodeMigrate)
     | (Inr _, c1) \<Rightarrow>
        if ro_fault E FailStamp then then_io (close_db candidateName c1) (stop ''migrate'' RestoreCodeInternal)
        else (let c2 = c1\<lparr>sr_data := stampRestoreMarker (mn_backup m) (sr_data c1)\<rparr> in
          then_io (close_db candidateName c2)
          (then_io (guard (\<not> ro_fault E FailCheckpoint) ''migrate'' RestoreCodeMigrate)
          (then_io (guard (data_verify E c2 = Inr ()) ''verify'' RestoreCodeVerify)
          (then_io (writeRecoveryState (ro_fault E FailStateMigrated) ?st ''migrate'')
          (run_hook E AfterMigrate ''migrate'' ?st)))))) (\<lambda>_. ?B)"
      using stopped rest unfolding mig prod.case Let_def
      by (cases r) simp_all
  qed
qed

lemma pending_hook_triple:
  "triple Inv (pending P N st) (run_hook E BeforeSwitch ''switch'' st) (\<lambda>_. pending P N st)"
proof (cases "ro_hook E BeforeSwitch")
  case HookError
  let ?B = "\<lambda>d. live_is P d \<and> Inv d"
  have removed: "?B (set_file candidateName None d)" if "pending P N st d" for d
    using that by (auto simp: pending_def restore_inv_def saved_ok_def switched_ok_def)
  have unchanged: "?B d" if "pending P N st d" for d
    using that by (auto simp: pending_def intro: pending_inv[of P N st])
  have a: "triple Inv ?B (then_io removeRecoveryState (stop ''switch'' RestoreCodeSwitch)) (\<lambda>_. pending P N st)"
    unfolding removeRecoveryState_def
    by (intro triple_then[where B = Inv] triple_effect triple_stop) (auto simp: restore_inv_def)
  have b: "triple Inv (pending P N st) (if rs_cand st \<noteq> '''' then remove_file (rs_cand st) else give ()) (\<lambda>_. ?B)"
  proof (cases "rs_cand st = candidateName")
    case True
    then show ?thesis unfolding remove_file_def using removed by (simp add: triple_effect)
  next
    case False
    then show ?thesis by (auto simp: triple_def pending_def)
  qed
  have c: "triple Inv (pending P N st)
      (if rs_stage st \<noteq> StageSwitched then
          then_io (if rs_cand st \<noteq> '''' then remove_file (rs_cand st) else give ())
            (then_io removeRecoveryState (stop ''switch'' RestoreCodeSwitch))
        else stop ''switch'' RestoreCodeSwitch) (\<lambda>_. pending P N st)"
    by (intro triple_if triple_then[OF b a] triple_stop) (auto intro: pending_inv[of P N st])
  then show ?thesis unfolding run_hook_def HookError hook_outcome.case .
qed (auto simp: run_hook_def intro!: triple_give triple_stop intro: pending_inv[of P N st])

lemma switch_over_triple:
  assumes "E \<in> M" and "early st" and "rs_cand st = candidateName"
  shows "triple Inv (\<lambda>d. building P st d \<and> cand_ready N d) (switch_over E st b rep) (completed P N E)"
proof -
  define ready where "ready = st\<lparr>rs_stage := StageSwitchReady\<rparr>"
  define switched where "switched = st\<lparr>rs_stage := StageSwitched\<rparr>"
  have eq: "ready\<lparr>rs_stage := StageSwitched\<rparr> = switched" by (simp add: ready_def switched_def)
  let ?res = "\<lparr>res_backup = b, res_items = rr_items rep, res_versions = rr_versions rep,
     res_auth = rr_auth rep, res_presnap = rs_presnap st, res_resumed = False\<rparr>"
  have save: "triple Inv (\<lambda>d. building P st d \<and> cand_ready N d)
      (writeRecoveryState (ro_fault E FailStateReady) ready ''switch'') (\<lambda>_. pending P N ready)"
  proof -
    have p: "pending P N ready (d\<lparr>dk_state := StateSaved ready\<rparr>)" if "building P st d" "cand_ready N d" for d
      using that assms(3) by (simp add: pending_def building_def calm_def ready_def)
    then show ?thesis
      unfolding writeRecoveryState_def
      by (intro triple_if triple_stop triple_effect) (auto intro: building_Inv pending_inv[OF p])
  qed
  have fin: "triple Inv (\<lambda>d. after_switch P N ready d \<and> after_switch P N switched d)
     (case ro_hook E AfterSwitch of
        HookCrash \<Rightarrow> stop ''switch'' RestoreCodeSwitch
      | HookError \<Rightarrow> rollbackRestore E switched
      | HookOk \<Rightarrow> finish_restore E switched b ?res) (completed P N E)"
  proof (cases "ro_hook E AfterSwitch")
    case HookOk
    have "triple Inv (after_switch P N switched) (finish_restore E switched b ?res) (completed P N E)"
      by (rule finish_triple[OF assms(1)]) (simp_all add: switched_def)
    with HookOk show ?thesis by (auto intro: triple_weaken)
  next
    case HookCrash
    then show ?thesis by (auto intro!: triple_stop intro: after_switch_inv)
  next
    case HookError
    then show ?thesis by (auto intro: triple_weaken[OF rollback_triple])
  qed
  have sw: "triple Inv (pending P N ready) (switch_files E ready candidateName)
     (\<lambda>_ d. after_switch P N ready d \<and> after_switch P N switched d)"
    using switch_triple[of ready E] by (simp only: eq)
  show ?thesis
    unfolding switch_over_def Let_def ready_def[symmetric] switched_def[symmetric]
    by (rule triple_then[OF save triple_then[OF pending_hook_triple triple_then[OF sw fin]]])
qed

lemma run_triple:
  assumes "E \<in> M"
  shows "triple Inv (\<lambda>d. \<forall>b. entry P (initial_state E ex b) d) (runRestore E ex) (completed P N E)"
proof -
  let ?A = "\<lambda>d. \<forall>b. entry P (initial_state E ex b) d"
  have inv: "Inv d" if "?A d" for d using that by (auto simp: entry_def intro: calm_inv)
  have g: "triple Inv ?A (guard b s c) (\<lambda>_. ?A)" for b s c
    by (rule triple_guard) (use inv in auto)
  show ?thesis
  proof (cases "open_archive E")
    case (Inl e)
    then show ?thesis
      unfolding runRestore_def by (intro triple_then[OF g]) (simp add: triple_stop inv)
  next
    case (Inr x)
    then obtain m source snap where arch: "open_archive E = Inr (m, source, snap)" by (metis prod_cases3)
    have rest: "triple Inv (building P (st0\<lparr>rs_stage := StageSnapshot\<rparr>))
         (let st = st0\<lparr>rs_stage := StageSnapshot\<rparr> in
          then_io (writeRecoveryState (ro_fault E FailStateSnapshot) st ''presnapshot'')
          (then_io (run_hook E AfterSnapshot ''snapshot'' st)
          (seq (build_candidate E st source snap) (\<lambda>(st1, report, c).
           then_io (prepare_candidate E st1 (mn_backup m) c)
           (switch_over E st1 (mn_backup m) report))))) (completed P N E)" (is "triple _ (building P ?st) _ _")
      for st0
    proof -
      have last: "triple Inv (\<lambda>d. building P st1 d \<and> rs_cand st1 = candidateName \<and> early st1 \<and>
           (\<exists>data. RekeyCandidate (rekey_of E source) (sr_data snap) = (Inr rep, data) \<and> c = snap\<lparr>sr_data := data\<rparr>))
         (then_io (prepare_candidate E st1 (mn_backup m) c) (switch_over E st1 (mn_backup m) rep))
         (completed P N E)" for st1 rep c
      proof (cases "rs_cand st1 = candidateName \<and> early st1 \<and>
           (\<exists>data. RekeyCandidate (rekey_of E source) (sr_data snap) = (Inr rep, data) \<and> c = snap\<lparr>sr_data := data\<rparr>)")
        case True
        then obtain data where t: "rs_cand st1 = candidateName" "early st1"
          "RekeyCandidate (rekey_of E source) (sr_data snap) = (Inr rep, data)" "c = snap\<lparr>sr_data := data\<rparr>" by blast
        have "building P st1 d" if "building P (st1\<lparr>rs_stage := StageRekeyed\<rparr>) d" for d
          using that t(2) by (simp add: building_def)
        then have "triple Inv (building P st1) (prepare_candidate E st1 (mn_backup m) c)
           (\<lambda>_ d. building P st1 d \<and> cand_ready N d)"
          unfolding t(4) by (intro triple_post[OF prepare_triple[OF assms t(2) arch t(3)]]) auto
        then have "triple Inv (building P st1)
           (then_io (prepare_candidate E st1 (mn_backup m) c) (switch_over E st1 (mn_backup m) rep))
           (completed P N E)"
          by (rule triple_then) (rule switch_over_triple[OF assms t(2,1)])
        then show ?thesis by (rule triple_weaken) simp
      next
        case False
        then show ?thesis by (auto simp: triple_def)
      qed
      show ?thesis
      proof (cases "early ?st")
        case True
        have "triple Inv (building P ?st) (build_candidate E ?st source snap) (\<lambda>(st1, rep, c) d.
           building P st1 d \<and> rs_cand st1 = candidateName \<and> early st1 \<and>
           (\<exists>data. RekeyCandidate (rekey_of E source) (sr_data snap) = (Inr rep, data) \<and> c = snap\<lparr>sr_data := data\<rparr>))"
          by (rule build_triple[OF True]) simp
        then have "triple Inv (building P ?st) (seq (build_candidate E ?st source snap) (\<lambda>(st1, report, c).
           then_io (prepare_candidate E st1 (mn_backup m) c)
           (switch_over E st1 (mn_backup m) report))) (completed P N E)"
          by (rule triple_seq) (use last in \<open>auto simp: case_prod_unfold\<close>)
        then show ?thesis
          unfolding Let_def by (intro triple_then[OF save_triple] triple_then[OF hook_triple[OF True]])
      next
        case False
        then show ?thesis by (simp add: triple_def building_def)
      qed
    qed
    have "triple Inv ?A (seq (take_presnapshot E (initial_state E ex (mn_backup m))) (\<lambda>st0.
          let st = st0\<lparr>rs_stage := StageSnapshot\<rparr> in
          then_io (writeRecoveryState (ro_fault E FailStateSnapshot) st ''presnapshot'')
          (then_io (run_hook E AfterSnapshot ''snapshot'' st)
          (seq (build_candidate E st source snap) (\<lambda>(st1, report, c).
           then_io (prepare_candidate E st1 (mn_backup m) c)
           (switch_over E st1 (mn_backup m) report)))))) (completed P N E)"
      by (rule triple_seq[OF triple_weaken[OF take_triple] rest]) simp
    then show ?thesis
      unfolding runRestore_def arch sum.case prod.case by (intro triple_then[OF g])
  qed
qed

lemma after_switch_saved:
  "dk_state d = StateSaved st \<Longrightarrow> saved_ok P N st d \<Longrightarrow>
     rs_stage st = StageSwitched \<or> rs_stage st = StageSwitchReady \<and> dk_file d candidateName = None \<Longrightarrow>
     after_switch P N st d"
  by (auto simp: saved_ok_def after_switch_def)

lemma resume_switch_triple:
  assumes "rs_stage st \<in> {StageSwitchReady, StageSwitched}"
  shows "triple Inv (\<lambda>d. dk_state d = StateSaved st \<and> saved_ok P N st d) (resume_switch E st)
     (\<lambda>st1 d. after_switch P N st1 d \<and> rs_backup st1 = rs_backup st)"
proof -
  let ?A = "\<lambda>d. dk_state d = StateSaved st \<and> saved_ok P N st d"
  have inv: "Inv d" if "?A d" for d using that by (simp add: restore_inv_def)
  have keep: "triple Inv (\<lambda>d. ?A d \<and> (rs_stage st = StageSwitchReady \<longrightarrow> dk_file d candidateName = None))
      (give st) (\<lambda>st1 d. after_switch P N st1 d \<and> rs_backup st1 = rs_backup st)"
    using assms by (intro triple_give) (auto intro!: after_switch_saved)
  have go: "triple Inv (pending P N st) (then_io (switch_files E st candidateName) (give (st\<lparr>rs_stage := StageSwitched\<rparr>)))
      (\<lambda>st1 d. after_switch P N st1 d \<and> rs_backup st1 = rs_backup st)"
    by (intro triple_then[OF switch_triple] triple_give) simp
  show ?thesis
  proof (cases "rs_stage st = StageSwitchReady \<and> rs_cand st \<noteq> ''''")
    case False
    then show ?thesis unfolding resume_switch_def if_not_P[OF False]
      by (intro triple_weaken[OF keep]) (auto simp: saved_ok_def)
  next
    case True
    show ?thesis
    proof (cases "rs_cand st = candidateName")
      case False
      then show ?thesis using True by (auto simp: triple_def saved_ok_def)
    next
      case c: True
      have "triple Inv (\<lambda>d. ?A d \<and> dk_file d candidateName = f)
         (if ro_fault E FailStatCandidate then stop ''switch'' RestoreCodeInternal
          else if f = None then give st
          else then_io (switch_files E st candidateName) (give (st\<lparr>rs_stage := StageSwitched\<rparr>)))
         (\<lambda>st1 d. after_switch P N st1 d \<and> rs_backup st1 = rs_backup st)" for f
        by (intro triple_if triple_stop triple_weaken[OF keep] triple_weaken[OF go])
           (use True c inv in \<open>auto simp: pending_def saved_ok_def\<close>)
      then show ?thesis
        unfolding resume_switch_def if_P[OF True] unfolding c by (rule triple_look_seq)
    qed
  qed
qed

lemma resume_triple:
  assumes "E \<in> M"
  shows "triple Inv (\<lambda>d. dk_state d = StateSaved st \<and> saved_ok P N st d) (resumeRestore E st) (completed P N E)"
proof (cases "rs_stage st \<in> {StageSwitchReady, StageSwitched}")
  case True
  have "triple Inv (\<lambda>d. after_switch P N st1 d \<and> rs_backup st1 = rs_backup st)
     (seq (look (\<lambda>d. dk_file d livePath)) (\<lambda>live.
         if ro_fault E FailStatSwitched then stop ''switch'' RestoreCodeInternal
         else if live = None then rollbackRestore E st1
         else finish_restore E st1 (rs_backup st1)
           \<lparr>res_backup = rs_backup st1, res_items = 0, res_versions = 0, res_auth = 0,
            res_presnap = rs_presnap st1, res_resumed = True\<rparr>)) (completed P N E)" for st1
    by (intro triple_look_seq triple_if triple_stop triple_weaken[OF rollback_triple]
        triple_weaken[OF finish_triple[OF assms]]) (auto intro: after_switch_inv)
  then show ?thesis
    unfolding resumeRestore_def if_P[OF True]
    by (rule triple_seq[OF resume_switch_triple[OF True]])
next
  case False
  have ent: "entry P (initial_state E (Some st) b) d"
    if "dk_state d = StateSaved st \<and> saved_ok P N st d" for b d
    using that False by (auto simp: entry_def calm_def initial_state_def saved_ok_def early_def)
  have ent2: "entry P (initial_state E (Some st) b) (set_file candidateName None d)"
    if "dk_state d = StateSaved st \<and> saved_ok P N st d" for b d
    using ent[OF that, of b] by (simp add: entry_def)
  have inv: "Inv (set_file candidateName None d)" if "dk_state d = StateSaved st \<and> saved_ok P N st d" for d
    using ent2[OF that] by (auto simp: entry_def intro: calm_inv)
  have drop: "triple Inv (\<lambda>d. dk_state d = StateSaved st \<and> saved_ok P N st d)
      (if rs_cand st \<noteq> '''' then remove_file (rs_cand st) else give ())
      (\<lambda>_ d. \<forall>b. entry P (initial_state E (Some st) b) d)"
  proof (cases "rs_cand st \<in> {'''', candidateName}")
    case True
    then show ?thesis
      unfolding remove_file_def
      by (intro triple_if triple_effect triple_give) (use ent ent2 inv in auto)
  qed (auto simp: triple_def saved_ok_def)
  show ?thesis
    unfolding resumeRestore_def if_not_P[OF False]
    by (rule triple_then[OF drop run_triple[OF assms]])
qed

lemma body_triple:
  assumes "E \<in> M"
  shows "triple Inv (startable P N) (restore_attempt E) (completed P N E)"
  unfolding restore_attempt_def
proof (rule triple_look_seq)
  fix s
  show "triple Inv (\<lambda>d. startable P N d \<and> dk_state d = s)
     (case s of StateAbsent \<Rightarrow> runRestore E None
      | StateBroken \<Rightarrow> stop ''start'' RestoreCodeStateUnreadable
      | StateSaved st \<Rightarrow> resumeRestore E st) (completed P N E)"
  proof (cases s)
    case StateAbsent
    then show ?thesis
      by (auto intro!: triple_weaken[OF run_triple[OF assms]]
          simp: startable_def entry_def calm_def initial_state_def)
  next
    case StateBroken
    then show ?thesis by (auto simp: startable_def restore_inv_def triple_def)
  next
    case (StateSaved st)
    then show ?thesis
      by (auto intro!: triple_weaken[OF resume_triple[OF assms]] simp: startable_def restore_inv_def)
  qed
qed

lemma snap_live [simp]: "snap_at P p (set_file livePath x d) = snap_at P p d"
  by (auto simp: snap_at_def)

lemma completed_write:
  assumes "E \<in> M" and c: "completed P N E res d" and v: "file_view d livePath = Some c"
    and d': "data' = (sr_data c)\<lparr>audits := audits (sr_data c) @ rows\<rparr>"
  shows "completed P N E res (set_file livePath (Some (Whole (c\<lparr>sr_data := data'\<rparr>) None)) d)"
proof -
  have ev: "evolves (ro_sql E) (ro_files E) c (c\<lparr>sr_data := data'\<rparr>)"
    unfolding d' by (rule evolves_audit[OF evolves_refl])
  have "data_verify E (c\<lparr>sr_data := data'\<rparr>) = data_verify E c"
    by (simp add: data_verify_def verifyCandidate_def iteratePayloads_def identities_def payload_columns_of_def d')
  moreover have "readRestoreMarker data' = readRestoreMarker (sr_data c)"
    by (simp add: readRestoreMarker_def d')
  ultimately show ?thesis
    using c v live_write(1,5)[OF assms(1) v ev] by (auto simp: completed_def)
qed

lemma audit_triple:
  assumes "E \<in> M" and R: "\<And>d. R d \<Longrightarrow> Inv d"
    and W: "\<And>d c rows. R d \<Longrightarrow> file_view d livePath = Some c \<Longrightarrow>
      R (set_file livePath (Some (Whole (c\<lparr>sr_data := (sr_data c)\<lparr>audits := audits (sr_data c) @ rows\<rparr>\<rparr>) None)) d)"
  shows "triple Inv R (recordRestoreAudit E r) (\<lambda>_. R)"
proof (cases "ro_audit E")
  case None
  then show ?thesis by (simp add: recordRestoreAudit_def triple_give)
next
  case (Some A)
  have w0: "R (set_file livePath (Some (Whole c None)) d)" if "R d" "file_view d livePath = Some c" for d c
    using W[OF that, of "[]"] by simp
  show ?thesis
    unfolding recordRestoreAudit_def Some option.case
  proof (intro triple_look_seq triple_if)
    fix v
    show "triple Inv (\<lambda>d. R d \<and> file_view d livePath = v) (give ()) (\<lambda>_. R)" by (rule triple_give) simp
    assume v: "\<not> (v = None \<or> ro_fault E FailAuditOpen)"
    then obtain c where c: "v = Some c" by auto
    show "triple Inv (\<lambda>d. R d \<and> file_view d livePath = v)
      (case Record A (audit_event (case r of Inl _ \<Rightarrow> '''' | Inr res \<Rightarrow> res_backup res)
                    (case r of Inl _ \<Rightarrow> False | Inr _ \<Rightarrow> True)) (sr_data (the v)) of
              Inl _ \<Rightarrow> close_db livePath (the v)
            | Inr data \<Rightarrow> close_db livePath ((the v)\<lparr>sr_data := data\<rparr>)) (\<lambda>_. R)"
      unfolding close_db_def c option.sel
      using w0 W R by (auto intro!: triple_effect split: sum.split dest!: Record_InrD)
  qed
qed

lemma audit_returns: "fst (recordRestoreAudit E r d) = Inr ()"
  by (auto simp: recordRestoreAudit_def give_def seq_def look_def close_db_def effect_def
      split: option.splits sum.splits)

lemma command_safe:
  assumes "E \<in> M" and "startable P N d" and run: "RestoreInstance E d = (r, d', t)"
  shows "\<forall>x \<in> set t. Inv x" and "Inv d'" and "r = Inr res \<Longrightarrow> completed P N E res d'"
proof -
  have d: "Inv d" using assms(2) by (simp add: startable_def)
  obtain r1 d1 t1 where body: "restore_attempt E d = (r1, d1, t1)" by (metis prod_cases3)
  obtain u d2 t2 where aud: "recordRestoreAudit E r1 d1 = (u, d2, t2)" by (metis prod_cases3)
  have "(\<forall>x \<in> set t. Inv x) \<and> Inv d' \<and> (\<forall>res. r = Inr res \<longrightarrow> completed P N E res d')"
  proof (cases "NewMasterKey (ro_target E) = None \<or> (ro_passphrase E = '''' \<or> has_line_break (ro_passphrase E)) \<or> ro_locked E")
    case True
    then have "d' = d \<and> t = [] \<and> (\<exists>e. r = Inl e)" using run by (auto simp: RestoreInstance_def stop_def split: if_splits)
    with d show ?thesis by auto
  next
    case False
    then have eq: "r = r1" "d' = d2" "t = t1 @ t2" using run body aud by (auto simp: RestoreInstance_def)
    note B = tripleD[OF body_triple[OF assms(1)] body assms(2)]
    have i1: "Inv d1" using B by (auto simp: completed_def split: sum.splits)
    have "triple Inv Inv (recordRestoreAudit E r1) (\<lambda>_. Inv)"
      by (rule audit_triple[OF assms(1)])
         (auto intro: live_write(5)[OF assms(1)] evolves_audit[OF evolves_refl])
    note A = tripleD[OF this aud i1]
    have "completed P N E res d2" if "r1 = Inr res" for res
    proof -
      have c1: "completed P N E res d1" using B that by simp
      have "triple Inv (completed P N E res) (recordRestoreAudit E r1) (\<lambda>_. completed P N E res)"
      proof (rule audit_triple[OF assms(1)])
        show "completed P N E res x \<Longrightarrow> Inv x" for x by (simp add: completed_def)
      qed (rule completed_write[OF assms(1)], assumption, assumption, rule refl)
      from tripleD[OF this aud c1] audit_returns[of E r1 d1] show ?thesis using aud by simp
    qed
    then show ?thesis using eq A B by (auto split: sum.splits)
  qed
  then show "\<forall>x \<in> set t. Inv x" "Inv d'" "r = Inr res \<Longrightarrow> completed P N E res d'" by blast+
qed

end

end
