(* ===== verification/RestoreSafety.thy ===== *)
theory RestoreSafety
  imports RestoreAttempt
begin

text \<open>
  What the offline restore promises: at every point where the process can die, over any number of
  attempts, the live database is the previous one or one built from an archive; a reported success
  is the recorded backup, readable under the mounted key; and without faults a valid archive is
  restored.
\<close>

section \<open>The origin and the restored content\<close>

definition same_binary :: "db sql_env \<Rightarrow> migrations \<Rightarrow> restore_env set \<Rightarrow> restore_env set" where
  "same_binary S F R = {E \<in> R. ro_sql E = S \<and> ro_files E = F}"

definition from_old :: "db sql_env \<Rightarrow> migrations \<Rightarrow> content option \<Rightarrow> content option \<Rightarrow> bool" where
  "from_old S F old x \<longleftrightarrow>
     (case old of None \<Rightarrow> x = None | Some c0 \<Rightarrow> \<exists>c. x = Some c \<and> evolves S F c0 c)"

definition from_archive :: "db sql_env \<Rightarrow> migrations \<Rightarrow> restore_env set \<Rightarrow> content \<Rightarrow> bool" where
  "from_archive S F R c \<longleftrightarrow> (\<exists>E \<in> same_binary S F R. \<exists>c0. built E c0 \<and> evolves S F c0 c)"

lemma evolves_trans: "evolves S F b c \<Longrightarrow> evolves S F a b \<Longrightarrow> evolves S F a c"
  by (induction rule: evolves.induct) (auto intro: evolves.intros)

interpretation attempt: restore_origin "same_binary S F R" "from_old S F old" "from_archive S F R"
  for S F R old
  by unfold_locales
     (auto simp: same_binary_def from_old_def from_archive_def split: option.splits
       intro: evolves_trans evolves_refl)

section \<open>Any number of attempts\<close>

text \<open>The directories that interrupted or finished attempts leave behind, starting from \<open>d0\<close>.  A
  further attempt is made while a recovery state exists or the live database is still the old one.\<close>

inductive reached :: "db sql_env \<Rightarrow> migrations \<Rightarrow> restore_env set \<Rightarrow> disk \<Rightarrow> disk \<Rightarrow> bool"
  for S F R d0 where
  reached_start: "reached S F R d0 d0"
| reached_attempt: "reached S F R d0 d \<Longrightarrow>
     dk_state d \<noteq> StateAbsent \<or> live_is (from_old S F (file_view d0 livePath)) d \<Longrightarrow>
     E \<in> same_binary S F R \<Longrightarrow> RestoreInstance E d = (r, d', t) \<Longrightarrow> x \<in> insert d' (set t) \<Longrightarrow>
     reached S F R d0 x"

definition fresh_disk :: "disk \<Rightarrow> bool" where
  "fresh_disk d \<longleftrightarrow> dk_state d = StateAbsent \<and> dk_file d livePath \<noteq> Some Torn"

lemma fresh_live: "fresh_disk d \<Longrightarrow> live_is (from_old S F (file_view d livePath)) d"
proof (cases "dk_file d livePath")
  case (Some img)
  assume "fresh_disk d"
  with Some obtain c where "view img = Some c" by (cases img) (auto simp: fresh_disk_def)
  with Some show ?thesis by (auto simp: live_is_def file_view_def from_old_def intro: evolves_refl)
qed (simp add: live_is_def file_view_def from_old_def)

lemma reached_inv:
  assumes "reached S F R d0 d" and "fresh_disk d0"
  shows "restore_inv (from_old S F (file_view d0 livePath)) (from_archive S F R) d"
  using assms(1)
proof (induction rule: reached.induct)
  case reached_start
  then show ?case using fresh_live[OF assms(2)] assms(2) by (simp add: restore_inv_def fresh_disk_def)
next
  case (reached_attempt d E r d' t x)
  then have "startable (from_old S F (file_view d0 livePath)) (from_archive S F R) d"
    by (auto simp: startable_def)
  from attempt.command_safe(1,2)[OF reached_attempt(3) this reached_attempt(4)] reached_attempt(5)
  show ?case by auto
qed

definition still_old :: "db sql_env \<Rightarrow> migrations \<Rightarrow> content option \<Rightarrow> disk \<Rightarrow> bool" where
  "still_old S F old d \<longleftrightarrow> (case old of None \<Rightarrow> dk_file d livePath = None
     | Some c0 \<Rightarrow> \<exists>c. file_view d livePath = Some c \<and> evolves S F c0 c)"

definition kept_old :: "db sql_env \<Rightarrow> migrations \<Rightarrow> content option \<Rightarrow> disk \<Rightarrow> bool" where
  "kept_old S F old d \<longleftrightarrow> (case old of None \<Rightarrow> True
     | Some c0 \<Rightarrow> \<exists>p c. dk_file d p = Some (Whole c None) \<and> evolves S F c0 c)"

lemma live_is_old: "live_is (from_old S F old) d \<Longrightarrow> still_old S F old d"
  by (auto simp: live_is_def from_old_def still_old_def file_view_def split: option.splits)

lemma snap_kept: "snap_at (from_old S F old) p d \<Longrightarrow> kept_old S F old d"
  by (cases old) (auto simp: snap_at_def from_old_def kept_old_def)

lemma none_kept: "from_old S F old None \<Longrightarrow> kept_old S F old d"
  by (cases old) (auto simp: from_old_def kept_old_def)

lemma inv_live:
  assumes "restore_inv (from_old S F old) (from_archive S F R) d"
  shows "still_old S F old d \<or> (\<exists>c. file_view d livePath = Some c \<and> from_archive S F R c) \<and> kept_old S F old d"
proof -
  let ?P = "from_old S F old" and ?N = "from_archive S F R"
  have "live_is ?P d \<or> live_new ?N d \<and> (?P None \<or> (\<exists>p. snap_at ?P p d))"
    using assms
    by (auto simp: restore_inv_def saved_ok_def switched_ok_def covered_def split: state_file.splits if_splits)
  then show ?thesis by (auto simp: live_new_def dest: live_is_old snap_kept none_kept)
qed


text \<open>C5: a reported success is the recorded backup.  When an attempt, fresh or resumed after any
  crashes, returns a result, the live database carries the reported backup id, every payload in it
  decrypts under the mounted key, no recovery state is left, and the previous database is retained
  (in the reported pre-snapshot if the live database was replaced).\<close>

theorem restore_success_verified:
  assumes "fresh_disk d0" and "reached S F R d0 d" and "E \<in> same_binary S F R"
    and "dk_state d \<noteq> StateAbsent \<or> live_is (from_old S F (file_view d0 livePath)) d"
    and "RestoreInstance E d = (Inr res, d', t)"
  shows "dk_state d' = StateAbsent \<and> (\<exists>c. file_view d' livePath = Some c \<and>
      verifyCandidate (ro_aead E) (ro_target E) (sr_data c) = Inr () \<and>
      readRestoreMarker (sr_data c) = res_backup res) \<and>
    (still_old S F (file_view d0 livePath) d' \<or> file_view d0 livePath = None \<or>
     (\<exists>c0 c. file_view d0 livePath = Some c0 \<and> dk_file d' (res_presnap res) = Some (Whole c None) \<and>
        evolves S F c0 c))"
proof -
  let ?P = "from_old S F (file_view d0 livePath)"
  have "startable ?P (from_archive S F R) d"
    using reached_inv[OF assms(2,1)] assms(4) by (auto simp: startable_def)
  then have "completed ?P (from_archive S F R) E res d'"
    using attempt.command_safe(3)[OF assms(3) _ assms(5)] by blast
  then show ?thesis
    by (auto simp: completed_def data_verify_def snap_at_def from_old_def dest: live_is_old split: option.splits)
qed

end
