(* ===== verification/RekeyTheorems.thy ===== *)
theory RekeyTheorems
  imports Rekey SampleVault
begin

text \<open>
  What the re-encryption of a restored database promises, and what it leaves behind.
\<close>

definition kept_item :: "venv \<Rightarrow> venv \<Rightarrow> item_row \<Rightarrow> item_row \<Rightarrow> bool" where
  "kept_item V V' r r' \<longleftrightarrow> r' = r\<lparr>it_nonce := it_nonce r', it_ct := it_ct r'\<rparr> \<and>
     (\<forall>tags p. row_holds V r tags p \<longrightarrow> row_holds V' r' tags p)"

definition kept_version :: "venv \<Rightarrow> venv \<Rightarrow> db \<Rightarrow> version_row \<Rightarrow> version_row \<Rightarrow> bool" where
  "kept_version V V' d v v' \<longleftrightarrow> v' = v\<lparr>v_nonce := v_nonce v', v_ct := v_ct v'\<rparr> \<and>
     (\<forall>r \<in> set (items d). it_id r = v_item v \<longrightarrow>
        (\<forall>tags p. version_holds V r v tags p \<longrightarrow> version_holds V' r v' tags p))"

lemma version_holds_rekeyed [simp]: "version_holds V (rekeyed_item R r) = version_holds V r"
  by (intro ext) (simp add: version_holds_def)

lemma rekeyed_kept_item:
  assumes "serves R V" shows "kept_item V (target_venv R V) r (rekeyed_item R r)"
  using item_blob_ok(3)[OF assms] by (simp add: kept_item_def) (simp add: rekeyed_item_def)

lemma rekeyed_kept_version:
  assumes "serves R V" and "vault_inv V d"
  shows "kept_version V (target_venv R V) d v (rekeyed_version R (identities d) v)"
proof -
  have ids: "distinct (map it_id (items d))" using assms(2) by (simp add: vault_inv_def tables_ok_def)
  have "version_holds (target_venv R V) r (rekeyed_version R (identities d) v) tags p"
    if "r \<in> set (items d)" "it_id r = v_item v" "version_holds V r v tags p" for r tags p
    using version_blob_ok(2)[OF assms(1) _ that(2,3), of "identities d"] identities_eq[OF ids that(1)] that(2)
    by simp
  then show ?thesis by (simp add: kept_version_def) (simp add: rekeyed_version_def)
qed

text \<open>C6: re-encryption refines the identity on content.  On a database that satisfies the vault
  invariant under the source key, \<open>RekeyCandidate\<close> succeeds and reports the number of rows; the
  result satisfies the invariant under the target key and passes \<open>verifyCandidate\<close>; every item and
  every archived version keeps all its columns but nonce and ciphertext and holds the same tags and
  payload; users, audit log, settings and system state are untouched; sessions, login attempts and
  idempotency claims are gone.\<close>

theorem rekey_preserves_content:
  assumes "serves R V" and "vault_inv V d"
  shows "\<exists>d'. RekeyCandidate R d = (Inr \<lparr>rr_items = length (items d), rr_versions = length (versions d),
        rr_auth = length (sessions d)\<rparr>, d')
    \<and> vault_inv (target_venv R V) d' \<and> verifyCandidate (rk_aead R) (rk_target R) d' = Inr ()
    \<and> list_all2 (kept_item V (target_venv R V)) (items d) (items d')
    \<and> list_all2 (kept_version V (target_venv R V) d) (versions d) (versions d')
    \<and> users d' = users d \<and> audits d' = audits d \<and> settings d' = settings d \<and> sysstate d' = sysstate d
    \<and> sessions d' = [] \<and> attempts d' = [] \<and> idem d' = []"
proof -
  have inv: "vault_inv (target_venv R V) (rekeyed_db R d)" by (rule rekeyed_db_inv[OF assms])
  then have "verifyCandidate (rk_aead R) (rk_target R) (rekeyed_db R d) = Inr ()"
    using verifyCandidate_inv[OF inv] assms(1) by (simp add: target_venv_def serves_def)
  then show ?thesis
    using rekey_run[OF assms] inv rekeyed_kept_item[OF assms(1)] rekeyed_kept_version[OF assms]
    by (intro exI[of _ "rekeyed_db R d"])
       (simp add: list_all2_map2 list_all2_same)
qed

text \<open>an unreadable archive is refused whole.  If the payload walk under the source key fails on
  some current row or archived version, \<open>RekeyCandidate\<close> returns an error and the candidate database
  is left as it was; if it succeeds, everything was readable.\<close>

theorem rekey_all_or_nothing:
  assumes "set (rk_order R (items d)) = set (items d)"
  shows "(\<exists>e. verifyCandidate (rk_aead R) (rk_source R) d = Inl e) \<Longrightarrow>
     \<exists>e. RekeyCandidate R d = (Inl e, d)"
proof -
  assume bad: "\<exists>e. verifyCandidate (rk_aead R) (rk_source R) d = Inl e"
  show ?thesis
  proof (cases "rekey_tx R d")
    case (Inl e)
    then show ?thesis by (simp add: RekeyCandidate_def)
  next
    case (Inr x)
    then have "verifyCandidate (rk_aead R) (rk_source R) d = Inr ()"
      using rekey_tx_InrD[of R d "fst x" "snd x"] assms by simp
    with bad show ?thesis by simp
  qed
qed

text \<open>The key marker is not part of the re-encryption.  After a restore under a key whose
  marker digest differs, the candidate still carries the marker of the source instance, so the
  readiness check of the restored instance reports a master key mismatch.\<close>

theorem rekey_leaves_stale_key_marker:
  assumes "RekeyCandidate R d = (Inr rep, d')"
    and "kv_get ''master_key_marker'' (sysstate d) = Some (Marker hmac (rk_source R))"
    and "hmac (rk_target R) (bytes_of markerDomain) \<noteq> hmac (rk_source R) (bytes_of markerDomain)"
  shows "MasterKeyCheck hmac False (Some (rk_target R)) (stampRestoreMarker backupID d')
    = Inl ErrMasterKeyMismatch"
proof -
  have frame: "rekey_items R idn us e = Inr e' \<Longrightarrow> sysstate e' = sysstate e" for idn us e e'
    by (induction us arbitrary: e) (auto simp: result_Inr rekeyItem_def split: if_splits)
  from assms(1) have "rekey_tx R d = Inr (rep, d')" unfolding RekeyCandidate_def by (rule in_tx_InrD)
  then have "sysstate d' = sysstate d"
    by (auto simp: rekey_tx_def Let_def result_Inr dest!: frame)
  then have "kv_get ''master_key_marker'' (sysstate (stampRestoreMarker backupID d'))
      = Some (Marker hmac (rk_source R))"
    using assms(2) by (simp add: stampRestoreMarker_def restoreMarkerKey_def)
  moreover have "\<not> VerifyMarker hmac (rk_target R) (Marker hmac (rk_source R))"
    using assms(3) by (simp add: VerifyMarker_def Marker_def base64_roundtrip[OF std_alphabet_ok])
  ultimately show ?thesis by (simp add: MasterKeyCheck_def)
qed

section \<open>A sample restore\<close>

definition sample_rekey :: rekey_env where
  "sample_rekey = \<lparr>rk_aead = toy_aead, rk_source = replicate 32 1, rk_target = replicate 32 2,
     rk_item_nonce = (\<lambda>_. replicate 24 5), rk_version_nonce = (\<lambda>_ _. replicate 24 6), rk_order = rev\<rparr>"

lemma toy_long: "aead_long toy_aead"
  by (simp add: aead_long_def toy_aead_def toy_seal_def)

lemma sample_serves: "serves sample_rekey sample_vault"
  using sample_vault_ok toy_opens toy_long
  by (simp add: serves_def rekey_env_ok_def sample_rekey_def nonceSize_def rev_map[symmetric])
     (simp add: sample_vault_def)

theorem rekey_preserves_content_witness:
  "\<exists>d'. RekeyCandidate sample_rekey sample_db1 = (Inr \<lparr>rr_items = length (items sample_db1),
        rr_versions = length (versions sample_db1), rr_auth = length (sessions sample_db1)\<rparr>, d')
    \<and> vault_inv (target_venv sample_rekey sample_vault) d'
    \<and> verifyCandidate (rk_aead sample_rekey) (rk_target sample_rekey) d' = Inr ()"
  using rekey_preserves_content[OF sample_serves sample_db1_inv] by blast

definition broken_db :: db where
  "broken_db = sample_db\<lparr>items := [sample_item\<lparr>it_nonce := []\<rparr>]\<rparr>"

theorem rekey_all_or_nothing_witness: "\<exists>e. RekeyCandidate sample_rekey broken_db = (Inl e, broken_db)"
proof (rule rekey_all_or_nothing)
  show "set (rk_order sample_rekey (items broken_db)) = set (items broken_db)"
    by (simp add: sample_rekey_def)
  have "verifyCandidate (rk_aead sample_rekey) (rk_source sample_rekey) broken_db \<noteq> Inr ()"
    by (simp add: verifyCandidate_opened payload_columns_of_def broken_db_def opened_def
        DecryptColumns_def nonceSize_def)
  then show "\<exists>e. verifyCandidate (rk_aead sample_rekey) (rk_source sample_rekey) broken_db = Inl e"
    by (cases "verifyCandidate (rk_aead sample_rekey) (rk_source sample_rekey) broken_db") auto
qed

definition marked_db :: db where
  "marked_db = sample_db1\<lparr>sysstate := [(''initialized'', ''1''),
     (''master_key_marker'', Marker (\<lambda>k m. k) (replicate 32 1))]\<rparr>"

lemma marked_db_inv: "vault_inv sample_vault marked_db"
  using sample_db1_inv by (simp add: marked_db_def vault_inv_cong[of "sample_db1\<lparr>sysstate := x\<rparr>" sample_db1 for x])

theorem rekey_leaves_stale_key_marker_witness:
  "MasterKeyCheck (\<lambda>k m. k) False (Some (rk_target sample_rekey))
     (stampRestoreMarker ''b1'' (rekeyed_db sample_rekey marked_db)) = Inl ErrMasterKeyMismatch"
proof (rule rekey_leaves_stale_key_marker)
  show "RekeyCandidate sample_rekey marked_db = (Inr \<lparr>rr_items = length (items marked_db),
      rr_versions = length (versions marked_db), rr_auth = length (sessions marked_db)\<rparr>,
      rekeyed_db sample_rekey marked_db)"
    by (rule rekey_run[OF sample_serves marked_db_inv])
  show "kv_get ''master_key_marker'' (sysstate marked_db) = Some (Marker (\<lambda>k m. k) (rk_source sample_rekey))"
    by (simp add: kv_get_def marked_db_def sample_rekey_def)
  show "rk_target sample_rekey \<noteq> rk_source sample_rekey" by (simp add: sample_rekey_def)
qed

end
