(* ===== verification/RestoreProgress.thy ===== *)
theory RestoreProgress
  imports RestoreSafety RekeyTheorems
begin

text \<open>
  Without faults the restore succeeds, and what exactly it leaves on disk: the restored database,
  and every other file as it was before the switch.
\<close>

section \<open>Runs that return\<close>

definition yields :: "(disk \<Rightarrow> bool) \<Rightarrow> 'a io \<Rightarrow> 'a \<Rightarrow> (disk \<Rightarrow> bool) \<Rightarrow> bool" where
  "yields A m x B \<longleftrightarrow> (\<forall>d. A d \<longrightarrow> (\<exists>d' t. m d = (Inr x, d', t) \<and> B d'))"

lemma yields_give: "(\<And>d. A d \<Longrightarrow> B d) \<Longrightarrow> yields A (give x) x B"
  by (simp add: yields_def give_def)

lemma yields_effect: "(\<And>d. A d \<Longrightarrow> B (f d)) \<Longrightarrow> yields A (effect f) () B"
  by (simp add: yields_def effect_def)

lemma yields_guard: "b \<Longrightarrow> (\<And>d. A d \<Longrightarrow> B d) \<Longrightarrow> yields A (guard b s c) () B"
  by (simp add: yields_def guard_def give_def)

lemma yields_seq: "yields A m x C \<Longrightarrow> yields C (k x) y B \<Longrightarrow> yields A (seq m k) y B"
  unfolding yields_def seq_def by fastforce

lemma yields_then: "yields A m x C \<Longrightarrow> yields C k y B \<Longrightarrow> yields A (then_io m k) y B"
  unfolding then_io_def by (rule yields_seq)

lemma yields_look:
  assumes "\<And>x. yields (\<lambda>d. A d \<and> f d = x) (k x) y B"
  shows "yields A (seq (look f) k) y B"
  unfolding yields_def
proof (intro allI impI)
  fix d assume "A d"
  then obtain d' t where "k (f d) d = (Inr y, d', t) \<and> B d'"
    using assms[of "f d"] unfolding yields_def by blast
  then show "\<exists>d' t. seq (look f) k d = (Inr y, d', t) \<and> B d'" by (simp add: seq_def look_def)
qed

lemma yields_weaken: "yields A m x B \<Longrightarrow> (\<And>d. A' d \<Longrightarrow> A d) \<Longrightarrow> yields A' m x B"
  by (simp add: yields_def)

lemma yields_void: "(\<And>d. \<not> A d) \<Longrightarrow> yields A m x B"
  by (simp add: yields_def)

section \<open>Without faults\<close>

definition unhindered :: "restore_env \<Rightarrow> bool" where
  "unhindered E \<longleftrightarrow> (\<forall>f. \<not> ro_fault E f) \<and> (\<forall>h. ro_hook E h = HookOk) \<and> \<not> ro_locked E \<and>
     NewMasterKey (ro_target E) \<noteq> None \<and> ro_passphrase E \<noteq> '''' \<and> \<not> has_line_break (ro_passphrase E)"

definition others :: "(string \<Rightarrow> image option) \<Rightarrow> disk \<Rightarrow> bool" where
  "others f d \<longleftrightarrow> (\<forall>p. p \<notin> {livePath, candidateName} \<longrightarrow> dk_file d p = f p)"

lemma others_frame [simp]:
  "others f (set_file livePath x d) = others f d" "others f (set_file candidateName x d) = others f d"
  "others f (d\<lparr>dk_state := s\<rparr>) = others f d"
  by (auto simp: others_def)

lemma yields_save: "\<not> b \<Longrightarrow> (\<And>d. A d \<Longrightarrow> B (d\<lparr>dk_state := StateSaved st\<rparr>)) \<Longrightarrow>
    yields A (writeRecoveryState b st s) () B"
  by (simp add: writeRecoveryState_def yields_effect)

lemma yields_hook: "ro_hook E h = HookOk \<Longrightarrow> (\<And>d. A d \<Longrightarrow> B d) \<Longrightarrow> yields A (run_hook E h s st) () B"
  by (simp add: run_hook_def yields_give)

lemma Migrate_stable:
  assumes "Migrate S F s0 = (Inr (), s)" and "sr_applied t = sr_applied s"
  shows "Migrate S F t = (Inr (), t)"
proof -
  have a: "appliedVersions t = appliedVersions s" using assms(2) by (simp add: appliedVersions_def applied_rows_def)
  have "ensure_table t = t" using Migrate_Some[OF assms(1)] assms(2) by (intro ensure_table_id) simp
  then show ?thesis
    using Migrate_done[OF assms(1)] by (auto simp: Migrate_def Let_def a intro!: migrate_loop_skip)
qed

definition result_of :: "manifest \<Rightarrow> rekey_report \<Rightarrow> string \<Rightarrow> restore_result" where
  "result_of m rep p = \<lparr>res_backup = mn_backup m, res_items = rr_items rep,
     res_versions = rr_versions rep, res_auth = rr_auth rep, res_presnap = p, res_resumed = False\<rparr>"

definition installed :: "(string \<Rightarrow> image option) \<Rightarrow> content \<Rightarrow> disk \<Rightarrow> bool" where
  "installed f c d \<longleftrightarrow> others f d \<and> dk_file d livePath = Some (Whole c None) \<and>
     dk_file d candidateName = None \<and> dk_state d = StateAbsent"

lemma build_yields:
  assumes "unhindered E" and "RekeyCandidate (rekey_of E source) (sr_data snap) = (Inr rep, data)"
  shows "yields (\<lambda>d. others f d \<and> no_log d) (build_candidate E st source snap)
     (st\<lparr>rs_cand := candidateName, rs_stage := StageRekeyed\<rparr>, rep, snap\<lparr>sr_data := data\<rparr>)
     (\<lambda>d. others f d \<and> no_log d)"
  unfolding build_candidate_def Let_def assms(2) prod.case sum.case write_file_def close_db_def
  using assms(1)
  by (intro yields_then[where C = "\<lambda>d. others f d \<and> no_log d"])
     (auto simp: unhindered_def intro!: yields_effect yields_save yields_hook yields_give
       yields_then[where C = "\<lambda>d. others f d \<and> no_log d"])

lemma prepare_yields:
  assumes "unhindered E" and mig: "Migrate (ro_sql E) (ro_files E) c = (Inr (), c1)"
    and c0: "c0 = c1\<lparr>sr_data := stampRestoreMarker b (sr_data c1)\<rparr>" and v: "data_verify E c0 = Inr ()"
  shows "yields (\<lambda>d. others f d \<and> no_log d) (prepare_candidate E st b c) ()
     (\<lambda>d. others f d \<and> no_log d \<and> dk_file d candidateName = Some (Whole c0 None))"
proof -
  let ?A = "\<lambda>d. others f d \<and> no_log d" and ?B = "\<lambda>d. others f d \<and> no_log d \<and> dk_file d candidateName = Some (Whole c0 None)"
  have s: "\<not> ro_fault E FailStamp" "\<not> ro_fault E FailOpenCandidate" "\<not> ro_fault E FailCheckpoint"
    "\<not> ro_fault E FailStateMigrated" "ro_hook E AfterMigrate = HookOk"
    using assms(1) by (simp_all add: unhindered_def)
  show ?thesis
    unfolding prepare_candidate_def mig prod.case sum.case Let_def c0[symmetric] if_not_P[OF s(1)] close_db_def
    by (rule yields_then[OF yields_guard[where B = ?A] yields_then[OF yields_effect[where B = ?B]
        yields_then[OF yields_guard[where B = ?B] yields_then[OF yields_guard[where B = ?B]
        yields_then[OF yields_save[where B = ?B] yields_hook]]]]])
       (use s v in auto)
qed

lemma finish_yields:
  assumes "unhindered E" and mig: "Migrate (ro_sql E) (ro_files E) c0 = (Inr (), c0)"
    and v: "data_verify E c0 = Inr ()" and b: "readRestoreMarker (sr_data c0) = b"
  shows "yields (\<lambda>d. others f d \<and> dk_file d livePath = Some (Whole c0 None) \<and> dk_file d candidateName = None)
     (finish_restore E st b res) res (installed f c0)"
proof -
  let ?A = "\<lambda>d. others f d \<and> dk_file d livePath = Some (Whole c0 None) \<and> dk_file d candidateName = None"
  have s: "\<not> ro_fault E FailCheckOpen" "\<not> ro_fault E FailCheckIntegrity"
    using assms(1) by (simp_all add: unhindered_def)
  have "yields ?A (postSwitchCheck E b) True ?A"
    unfolding postSwitchCheck_def if_not_P[OF s(1)] close_db_def
  proof (rule yields_look)
    fix w
    show "yields (\<lambda>d. ?A d \<and> file_view d livePath = w)
      (case w of None \<Rightarrow> give False
       | Some c \<Rightarrow>
          (case Migrate (ro_sql E) (ro_files E) c of
             (Inl _, c') \<Rightarrow> then_io (effect (set_file livePath (Some (Whole c' None)))) (give False)
           | (Inr _, c') \<Rightarrow> then_io (effect (set_file livePath (Some (Whole c' None))))
               (give (\<not> ro_fault E FailCheckIntegrity \<and> data_verify E c' = Inr ()
                  \<and> readRestoreMarker (sr_data c') = b)))) True ?A"
    proof (cases "w = Some c0")
      case True
      have "(\<not> ro_fault E FailCheckIntegrity \<and> data_verify E c0 = Inr () \<and> readRestoreMarker (sr_data c0) = b) = True"
        using s v b by simp
      then show ?thesis
        unfolding True option.case mig prod.case sum.case
        by (simp only:) (auto intro!: yields_then[where C = ?A] yields_effect yields_give)
    next
      case False
      then show ?thesis by (intro yields_void) (auto simp: file_view_def)
    qed
  qed
  then show ?thesis
    unfolding finish_restore_def removeRecoveryState_def
    by (rule yields_seq) (auto intro!: yields_then[where C = "installed f c0"] yields_effect yields_give simp: installed_def)
qed

lemma switch_yields:
  assumes "unhindered E" and mig: "Migrate (ro_sql E) (ro_files E) c0 = (Inr (), c0)"
    and v: "data_verify E c0 = Inr ()" and b: "readRestoreMarker (sr_data c0) = mn_backup m"
  shows "yields (\<lambda>d. others f d \<and> no_log d \<and> dk_file d candidateName = Some (Whole c0 None))
     (switch_over E st (mn_backup m) rep) (result_of m rep (rs_presnap st)) (installed f c0)"
proof -
  let ?B = "\<lambda>d. others f d \<and> no_log d \<and> dk_file d candidateName = Some (Whole c0 None)"
  let ?C = "\<lambda>d. others f d \<and> dk_file d livePath = Some (Whole c0 None) \<and> dk_file d candidateName = None"
  have s: "\<not> ro_fault E FailStateReady" "\<not> ro_fault E FailRename" "\<not> ro_fault E FailStateSwitched"
    "ro_hook E BeforeSwitch = HookOk" "ro_hook E AfterSwitch = HookOk"
    using assms(1) by (simp_all add: unhindered_def)
  have side: "yields ?B remove_sidecars () ?B"
    unfolding remove_sidecars_def by (rule yields_effect) (auto simp: drop_log_same)
  have ren: "yields ?B (rename_file candidateName livePath) () ?C"
    unfolding rename_file_def by (rule yields_effect) simp
  have sw: "yields ?B (switch_files E st' candidateName) () ?C" for st'
    unfolding switch_files_def
    by (rule yields_then[OF side yields_then[OF yields_guard yields_then[OF ren yields_save]]])
       (use s in auto)
  show ?thesis
    unfolding switch_over_def Let_def s(5) hook_outcome.case result_of_def[symmetric]
    by (rule yields_then[OF yields_save yields_then[OF yields_hook yields_then[OF sw finish_yields[OF assms]]]])
       (use s in auto)
qed

lemma run_yields:
  assumes u: "unhindered E" and arch: "open_archive E = Inr (m, source, snap)"
    and rk: "RekeyCandidate (rekey_of E source) (sr_data snap) = (Inr rep, data)"
    and mig: "Migrate (ro_sql E) (ro_files E) (snap\<lparr>sr_data := data\<rparr>) = (Inr (), c1)"
    and c0: "c0 = c1\<lparr>sr_data := stampRestoreMarker (mn_backup m) (sr_data c1)\<rparr>"
    and v: "data_verify E c0 = Inr ()"
    and take_it: "yields A (take_presnapshot E (initial_state E ex (mn_backup m))) st0 (\<lambda>d. others f d \<and> no_log d)"
  shows "yields A (runRestore E ex) (result_of m rep (rs_presnap st0)) (installed f c0)"
proof -
  let ?A = "\<lambda>d. others f d \<and> no_log d"
  have s: "\<not> ro_fault E FailSession" "\<not> ro_fault E FailSpace" "\<not> ro_fault E FailStateSnapshot"
    "ro_hook E AfterSnapshot = HookOk" using u by (simp_all add: unhindered_def)
  have mig0: "Migrate (ro_sql E) (ro_files E) c0 = (Inr (), c0)"
    by (rule Migrate_stable[OF mig]) (simp add: c0)
  have mark: "readRestoreMarker (sr_data c0) = mn_backup m" by (simp add: c0)
  let ?st = "st0\<lparr>rs_stage := StageSnapshot\<rparr>"
  let ?st1 = "?st\<lparr>rs_cand := candidateName, rs_stage := StageRekeyed\<rparr>"
  have "yields ?A (seq (build_candidate E ?st source snap) (\<lambda>(st1, report, c).
           then_io (prepare_candidate E st1 (mn_backup m) c) (switch_over E st1 (mn_backup m) report)))
        (result_of m rep (rs_presnap ?st1)) (installed f c0)"
    by (rule yields_seq[OF build_yields[OF u rk]], unfold prod.case)
       (rule yields_then[OF prepare_yields[OF u mig c0 v] switch_yields[OF u mig0 v mark]])
  then have rest: "yields ?A (let st = st0\<lparr>rs_stage := StageSnapshot\<rparr> in
          then_io (writeRecoveryState (ro_fault E FailStateSnapshot) st ''presnapshot'')
          (then_io (run_hook E AfterSnapshot ''snapshot'' st)
          (seq (build_candidate E st source snap) (\<lambda>(st1, report, c).
           then_io (prepare_candidate E st1 (mn_backup m) c)
           (switch_over E st1 (mn_backup m) report))))) (result_of m rep (rs_presnap st0)) (installed f c0)"
    unfolding Let_def using s
    by (intro yields_then[OF yields_save[where B = ?A] yields_then[OF yields_hook[where B = ?A]]]) auto
  have g: "yields A (guard (\<not> ro_fault E FailSession) z q) () A" "yields A (guard (\<not> ro_fault E FailSpace) z q) () A" for z q
    using s by (auto intro!: yields_guard)
  show ?thesis
    unfolding runRestore_def arch sum.case prod.case
    apply (rule yields_then[OF g(1)])
    apply (rule yields_then[OF g(2)])
    apply (rule yields_seq[OF take_it])
    apply (rule rest)
    done
qed

lemma take_fresh_yields:
  assumes u: "unhindered E" and "dk_file d0 livePath \<noteq> Some Torn"
  shows "\<exists>st0 f. yields (\<lambda>d. d = d0) (take_presnapshot E (initial_state E None b)) st0 (\<lambda>d. others f d \<and> no_log d) \<and>
     (\<forall>c. file_view d0 livePath = Some c \<longrightarrow> rs_presnap st0 = presnapshotName (ro_stamp E) \<and>
        f (rs_presnap st0) = Some (Whole c None))"
proof (cases "dk_file d0 livePath")
  case None
  have "yields (\<lambda>d. d = d0) (take_presnapshot E (initial_state E None b))
      ((initial_state E None b)\<lparr>rs_empty := True\<rparr>) (\<lambda>d. others (dk_file d0) d \<and> no_log d)"
    using u None
    by (auto simp: yields_def take_presnapshot_def seq_def look_def give_def unhindered_def others_def no_log_def)
  moreover have "file_view d0 livePath = None" using None by (simp add: file_view_def)
  ultimately show ?thesis by auto
next
  case (Some img)
  then obtain c where c: "view img = Some c" using assms(2) by (cases img) auto
  let ?p = "presnapshotName (ro_stamp E)"
  let ?st = "(initial_state E None b)\<lparr>rs_presnap := ?p\<rparr>"
  let ?f = "(dk_file d0)(?p := Some (Whole c None))"
  have pre: "rs_presnap (initial_state E None b) = ''''" by (simp add: initial_state_def)
  have "yields (\<lambda>d. d = d0) (take_presnapshot E (initial_state E None b)) ?st (\<lambda>d. others ?f d \<and> no_log d)"
    using u Some c
    by (auto simp: yields_def take_presnapshot_def seq_def look_def give_def unhindered_def others_def
        pre open_db_def file_view_def then_io_def effect_def close_db_def guard_def)
  then show ?thesis
    using Some c by (intro exI[of _ ?st] exI[of _ ?f]) (auto simp: file_view_def)
qed

lemma take_resumed_yields:
  assumes "unhindered E" and "rs_presnap st \<noteq> ''''" and "dk_file d0 livePath = Some (Whole c None)"
  shows "yields (\<lambda>d. d = d0) (take_presnapshot E (initial_state E (Some st) b)) (initial_state E (Some st) b)
     (\<lambda>d. others (dk_file d0) d \<and> no_log d)"
  using assms
  by (auto simp: yields_def take_presnapshot_def seq_def look_def give_def unhindered_def others_def no_log_def
      initial_state_def)

definition audited :: "content \<Rightarrow> content \<Rightarrow> bool" where
  "audited c0 c \<longleftrightarrow> (\<exists>rows. c = c0\<lparr>sr_data := (sr_data c0)\<lparr>audits := audits (sr_data c0) @ rows\<rparr>\<rparr>)"

lemma audited_refl: "audited c c"
  unfolding audited_def by (rule exI[of _ "[]"]) simp

lemma audit_yields:
  assumes "installed f c0 d"
  shows "\<exists>d' t c. recordRestoreAudit E r d = (Inr (), d', t) \<and> installed f c d' \<and> audited c0 c"
proof (cases "ro_audit E")
  case None
  then show ?thesis using assms audited_refl by (auto simp: recordRestoreAudit_def give_def)
next
  case (Some A)
  have v: "file_view d livePath = Some c0" using assms by (simp add: installed_def file_view_def)
  have close: "installed f c (set_file livePath (Some (Whole c None)) d)" for c
    using assms by (simp add: installed_def)
  show ?thesis
  proof (cases "ro_fault E FailAuditOpen")
    case True
    then show ?thesis using Some v assms audited_refl
      by (auto simp: recordRestoreAudit_def give_def seq_def look_def)
  next
    case False
    obtain q where q: "Record A (audit_event (case r of Inl _ \<Rightarrow> '''' | Inr res \<Rightarrow> res_backup res)
                    (case r of Inl _ \<Rightarrow> False | Inr _ \<Rightarrow> True)) (sr_data c0) = q" by blast
    show ?thesis
    proof (cases q)
      case (Inl e)
      then show ?thesis using Some False v q close audited_refl[of c0]
        by (auto simp: recordRestoreAudit_def seq_def look_def close_db_def effect_def)
    next
      case (Inr data)
      then obtain row where "data = (sr_data c0)\<lparr>audits := audits (sr_data c0) @ [row]\<rparr>"
        using q by (auto dest!: Record_InrD)
      then have "audited c0 (c0\<lparr>sr_data := data\<rparr>)" unfolding audited_def by blast
      then show ?thesis using Some False v q Inr close
        by (auto simp: recordRestoreAudit_def seq_def look_def close_db_def effect_def)
    qed
  qed
qed

lemma command_yields:
  assumes "unhindered E" and "yields (\<lambda>x. x = d) (restore_attempt E) res (installed f c0)"
  shows "\<exists>d' t c. RestoreInstance E d = (Inr res, d', t) \<and> installed f c d' \<and> audited c0 c"
proof -
  from assms(2) obtain d1 t1 where b: "restore_attempt E d = (Inr res, d1, t1)" "installed f c0 d1"
    unfolding yields_def by blast
  from audit_yields[OF b(2), of E "Inr res"] obtain d2 t2 c where
    a: "recordRestoreAudit E (Inr res) d1 = (Inr (), d2, t2)" "installed f c d2" "audited c0 c" by blast
  have "RestoreInstance E d = (Inr res, d2, t1 @ t2)"
    using assms(1) a(1) b(1) by (auto simp: RestoreInstance_def unhindered_def)
  with a show ?thesis by blast
qed

section \<open>A valid backup is restored\<close>

definition schema_current :: "migrations \<Rightarrow> content \<Rightarrow> bool" where
  "schema_current F c \<longleftrightarrow> sr_applied c \<noteq> None \<and>
     (\<forall>n \<in> set (glob_sql F). \<exists>v \<in> set (appliedVersions c). versionFromName n = Inr v)"

lemma schema_current_migrate: "schema_current F c \<Longrightarrow> Migrate S F c = (Inr (), c)"
  by (auto simp: schema_current_def Migrate_def Let_def ensure_table_id intro!: migrate_loop_skip)

lemma schema_current_data [simp]: "schema_current F (c\<lparr>sr_data := x\<rparr>) = schema_current F c"
  by (simp add: schema_current_def appliedVersions_def applied_rows_def)

definition restored :: "restore_env \<Rightarrow> manifest \<Rightarrow> bytes \<Rightarrow> content \<Rightarrow> content" where
  "restored E m source snap = snap\<lparr>sr_data :=
     stampRestoreMarker (mn_backup m) (rekeyed_db (rekey_of E source) (sr_data snap))\<rparr>"

lemma vault_inv_stamp [simp]: "vault_inv V (stampRestoreMarker b d) = vault_inv V d"
  by (rule vault_inv_cong) (simp_all add: stampRestoreMarker_def)

lemma vault_inv_audits [simp]: "vault_inv V (d\<lparr>audits := a\<rparr>) = vault_inv V d"
  by (rule vault_inv_cong) simp_all

lemma restored_facts:
  assumes "serves (rekey_of E source) V" and "vault_inv V (sr_data snap)" and "schema_current (ro_files E) snap"
  defines "data \<equiv> rekeyed_db (rekey_of E source) (sr_data snap)"
  shows "RekeyCandidate (rekey_of E source) (sr_data snap) = (Inr \<lparr>rr_items = length (items (sr_data snap)),
      rr_versions = length (versions (sr_data snap)), rr_auth = length (sessions (sr_data snap))\<rparr>, data)"
    and "Migrate (ro_sql E) (ro_files E) (snap\<lparr>sr_data := data\<rparr>) = (Inr (), snap\<lparr>sr_data := data\<rparr>)"
    and "vault_inv (target_venv (rekey_of E source) V) (sr_data (restored E m source snap))"
    and "data_verify E (restored E m source snap) = Inr ()"
proof -
  show "RekeyCandidate (rekey_of E source) (sr_data snap) = (Inr \<lparr>rr_items = length (items (sr_data snap)),
      rr_versions = length (versions (sr_data snap)), rr_auth = length (sessions (sr_data snap))\<rparr>, data)"
    unfolding data_def by (rule rekey_run[OF assms(1,2)])
  show "Migrate (ro_sql E) (ro_files E) (snap\<lparr>sr_data := data\<rparr>) = (Inr (), snap\<lparr>sr_data := data\<rparr>)"
    by (rule schema_current_migrate) (simp add: assms(3))
  show inv: "vault_inv (target_venv (rekey_of E source) V) (sr_data (restored E m source snap))"
    using rekeyed_db_inv[OF assms(1,2)] by (simp add: restored_def)
  have "ve_aead (target_venv (rekey_of E source) V) = ro_aead E"
    "ve_key (target_venv (rekey_of E source) V) = ro_target E"
    using assms(1) by (simp_all add: serves_def rekey_of_def target_venv_def)
  then show "data_verify E (restored E m source snap) = Inr ()"
    using verifyCandidate_inv[OF inv] by (simp add: data_verify_def)
qed

end
