(* ===== verification/RestoreTheorems.thy ===== *)
theory RestoreTheorems
  imports RestoreProgress
begin

text \<open>The restore of a valid backup, the reuse of an old pre-snapshot by a resumed restore, and the
  samples that the statements about the restore are applied to.\<close>

lemma audited_facts:
  assumes "audited c0 c"
  shows "items (sr_data c) = items (sr_data c0)" "versions (sr_data c) = versions (sr_data c0)"
    "users (sr_data c) = users (sr_data c0)" "vault_inv V (sr_data c) = vault_inv V (sr_data c0)"
    "sr_applied c = sr_applied c0" "sysstate (sr_data c) = sysstate (sr_data c0)"
    "sessions (sr_data c) = sessions (sr_data c0)"
  using assms by (auto simp: audited_def)

lemma valid_run:
  assumes "unhindered E" and "fresh_disk d" and "open_archive E = Inr (m, source, snap)"
    and "serves (rekey_of E source) V" and "vault_inv V (sr_data snap)"
    and "schema_current (ro_files E) snap"
  shows "\<exists>p f d' t c. RestoreInstance E d = (Inr (result_of m \<lparr>rr_items = length (items (sr_data snap)),
       rr_versions = length (versions (sr_data snap)), rr_auth = length (sessions (sr_data snap))\<rparr> p), d', t) \<and>
     installed f c d' \<and> audited (restored E m source snap) c \<and>
     (\<forall>old. file_view d livePath = Some old \<longrightarrow> p = presnapshotName (ro_stamp E) \<and> f p = Some (Whole old None))"
proof -
  let ?c0 = "restored E m source snap"
  note facts = restored_facts[OF assms(4,5,6)]
  obtain st0 f where
    take_it: "yields (\<lambda>x. x = d) (take_presnapshot E (initial_state E None (mn_backup m))) st0
       (\<lambda>x. others f x \<and> no_log x)"
    and snap: "\<forall>c. file_view d livePath = Some c \<longrightarrow> rs_presnap st0 = presnapshotName (ro_stamp E) \<and>
        f (rs_presnap st0) = Some (Whole c None)"
    using take_fresh_yields[OF assms(1), of d "mn_backup m"] assms(2) by (auto simp: fresh_disk_def)
  let ?rep = "\<lparr>rr_items = length (items (sr_data snap)), rr_versions = length (versions (sr_data snap)),
     rr_auth = length (sessions (sr_data snap))\<rparr>"
  have "yields (\<lambda>x. x = d) (runRestore E None) (result_of m ?rep (rs_presnap st0)) (installed f ?c0)"
    by (rule run_yields[OF assms(1,3) facts(1,2) _ facts(4) take_it]) (simp add: restored_def)
  then have body: "yields (\<lambda>x. x = d) (restore_attempt E) (result_of m ?rep (rs_presnap st0)) (installed f ?c0)"
    using assms(2) by (simp add: yields_def restore_attempt_def seq_def look_def fresh_disk_def)
  from command_yields[OF assms(1) body] snap show ?thesis by blast
qed

text \<open>C32: a valid backup is restored.  Without faults, from a directory without recovery state, a
  readable archive whose database satisfies the vault invariant under the archived key and has the
  current schema is restored: the command succeeds and reports the number of items and versions;
  the live database satisfies the vault invariant under the mounted key; every item and archived
  version is there with the same tags and payload; the users are the archived ones, no session
  survives; and the previous database is the reported pre-snapshot.\<close>

theorem restore_of_valid_backup:
  assumes "unhindered E" and "fresh_disk d" and "open_archive E = Inr (m, source, snap)"
    and "serves (rekey_of E source) V" and "vault_inv V (sr_data snap)"
    and "schema_current (ro_files E) snap" and W: "W = target_venv (rekey_of E source) V"
  shows "\<exists>res d' t c. RestoreInstance E d = (Inr res, d', t) \<and> dk_state d' = StateAbsent \<and>
     res_backup res = mn_backup m \<and> res_items res = length (items (sr_data snap)) \<and>
     res_versions res = length (versions (sr_data snap)) \<and>
     file_view d' livePath = Some c \<and> vault_inv W (sr_data c) \<and>
     list_all2 (kept_item V W) (items (sr_data snap)) (items (sr_data c)) \<and>
     list_all2 (kept_version V W (sr_data snap)) (versions (sr_data snap)) (versions (sr_data c)) \<and>
     users (sr_data c) = users (sr_data snap) \<and> sessions (sr_data c) = [] \<and>
     (\<forall>old. file_view d livePath = Some old \<longrightarrow> dk_file d' (res_presnap res) = Some (Whole old None))"
proof -
  let ?c0 = "restored E m source snap" and ?R = "rekey_of E source"
  have inv: "vault_inv W (sr_data ?c0)" unfolding W by (rule restored_facts(3)[OF assms(4,5,6)])
  obtain p f d' t c where run: "RestoreInstance E d = (Inr (result_of m \<lparr>rr_items = length (items (sr_data snap)),
       rr_versions = length (versions (sr_data snap)), rr_auth = length (sessions (sr_data snap))\<rparr> p), d', t)"
    and i: "installed f c d'" and a: "audited ?c0 c"
    and snap: "\<forall>old. file_view d livePath = Some old \<longrightarrow> p = presnapshotName (ro_stamp E) \<and> f p = Some (Whole old None)"
    using valid_run[OF assms(1-6)] by blast
  have content: "items (sr_data ?c0) = map (rekeyed_item ?R) (items (sr_data snap))"
    "versions (sr_data ?c0) = map (rekeyed_version ?R (identities (sr_data snap))) (versions (sr_data snap))"
    "users (sr_data ?c0) = users (sr_data snap)" "sessions (sr_data ?c0) = []"
    by (simp_all add: restored_def stampRestoreMarker_def)
  have "list_all2 (kept_item V W) (items (sr_data snap)) (items (sr_data c))"
    using rekeyed_kept_item[OF assms(4)]
    by (simp add: W audited_facts[OF a] content list_all2_map2 list_all2_same)
  moreover have "list_all2 (kept_version V W (sr_data snap)) (versions (sr_data snap)) (versions (sr_data c))"
    using rekeyed_kept_version[OF assms(4,5)]
    by (simp add: W audited_facts[OF a] content list_all2_map2 list_all2_same)
  moreover have "dk_file d' p = Some (Whole old None)" if "file_view d livePath = Some old" for old
    using i snap that by (auto simp: installed_def others_def)
  ultimately show ?thesis
    using run i inv content
    by (intro exI[of _ "result_of m \<lparr>rr_items = length (items (sr_data snap)),
       rr_versions = length (versions (sr_data snap)), rr_auth = length (sessions (sr_data snap))\<rparr> p"]
       exI[of _ d'] exI[of _ t] exI[of _ c])
       (auto simp: result_of_def installed_def file_view_def audited_facts[OF a])
qed

text \<open>A resumed restore relies on the first attempt's pre-snapshot.  When the recovery state of an
  interrupted attempt names a pre-snapshot, the next attempt takes no new one, whatever the live
  database holds by then: the attempt succeeds, reports the old pre-snapshot file, which is
  unchanged, and besides the live database and the candidate no file differs, so content written to
  the live database between the attempts is on no file afterwards.\<close>

theorem resumed_restore_keeps_first_snapshot:
  assumes "unhindered E" and "open_archive E = Inr (m, source, snap)"
    and "serves (rekey_of E source) V" and "vault_inv V (sr_data snap)" and "schema_current (ro_files E) snap"
    and "dk_state d = StateSaved st" and "rs_stage st \<notin> {StageSwitchReady, StageSwitched}"
    and "rs_cand st \<in> {'''', candidateName}" and "rs_presnap st \<noteq> ''''"
    and "dk_file d livePath = Some (Whole current None)"
  shows "\<exists>res d' t c. RestoreInstance E d = (Inr res, d', t) \<and> res_presnap res = rs_presnap st \<and>
     dk_file d' livePath = Some (Whole c None) \<and> audited (restored E m source snap) c \<and>
     dk_file d' candidateName = None \<and>
     (\<forall>p. p \<notin> {livePath, candidateName} \<longrightarrow> dk_file d' p = dk_file d p)"
proof -
  let ?c0 = "restored E m source snap"
  note facts = restored_facts[OF assms(3,4,5)]
  let ?rep = "\<lparr>rr_items = length (items (sr_data snap)), rr_versions = length (versions (sr_data snap)),
     rr_auth = length (sessions (sr_data snap))\<rparr>"
  have run: "yields (\<lambda>x. x = d0) (runRestore E (Some st)) (result_of m ?rep (rs_presnap st)) (installed (dk_file d0) ?c0)"
    if "dk_file d0 livePath = Some (Whole current None)" for d0
    using run_yields[OF assms(1,2) facts(1,2) _ facts(4) take_resumed_yields[OF assms(1,9) that]]
    by (simp add: restored_def initial_state_def)
  let ?d0 = "if rs_cand st = '''' then d else set_file candidateName None d"
  have "yields (\<lambda>x. x = ?d0) (runRestore E (Some st)) (result_of m ?rep (rs_presnap st)) (installed (dk_file ?d0) ?c0)"
    using assms(10) by (intro run) simp
  then have "yields (\<lambda>x. x = d) (restore_attempt E) (result_of m ?rep (rs_presnap st)) (installed (dk_file ?d0) ?c0)"
    using assms(6-8)
    by (auto simp: yields_def restore_attempt_def seq_def look_def resumeRestore_def then_io_def give_def
        remove_file_def effect_def split: if_splits)
  from command_yields[OF assms(1) this] obtain d' t c where
    r: "RestoreInstance E d = (Inr (result_of m ?rep (rs_presnap st)), d', t)"
    "installed (dk_file ?d0) c d'" "audited ?c0 c" by blast
  then show ?thesis
    by (intro exI[of _ "result_of m ?rep (rs_presnap st)"] exI[of _ d'] exI[of _ t] exI[of _ c])
       (auto simp: result_of_def installed_def others_def split: if_splits)
qed

section \<open>A sample backup\<close>

definition sample_manifest :: manifest where
  "sample_manifest = \<lparr>mn_format = 1, mn_app = '''', mn_schema = 0, mn_backup = ''b1'', mn_created = '''',
     mn_instance = ''i1'', mn_arch = '''', mn_files = [\<lparr>mf_path = SnapshotPath, mf_size = 1,
       mf_sha256 = hex_encode (replicate 32 0)\<rparr>]\<rparr>"

definition sample_tree :: extracted where
  "sample_tree = \<lparr>ex_entries = [(''db'', True), (ManifestPath, False), (SnapshotPath, False), (MasterKeyPath, False)],
     ex_files = (\<lambda>p. if p = MasterKeyPath then Some (replicate 32 1) else Some [7]), ex_integrity = True\<rparr>"

definition sample_tree_env :: tree_env where
  "sample_tree_env = \<lparr>te_sha256 = (\<lambda>_. replicate 32 0), te_unmarshal = (\<lambda>_. Some sample_manifest),
     te_validTime = (\<lambda>_. True)\<rparr>"

definition sample_snapshot :: content where
  "sample_snapshot = \<lparr>sr_data = sample_db1, sr_applied = Some []\<rparr>"

definition sample_restore :: restore_env where
  "sample_restore = \<lparr>ro_passphrase = ''p'', ro_target = replicate 32 2, ro_locked = False,
     ro_archive = ''a'', ro_extract = Some \<lparr>at_tree = sample_tree, at_content = sample_snapshot\<rparr>,
     ro_tree = sample_tree_env, ro_files = [], ro_sql = \<lparr>sq_exec = (\<lambda>_ _. None), sq_tables = (\<lambda>_. 1)\<rparr>,
     ro_aead = toy_aead, ro_item_nonce = (\<lambda>_. replicate 24 5), ro_version_nonce = (\<lambda>_ _. replicate 24 6),
     ro_order = rev, ro_stamp = ''t'', ro_fault = (\<lambda>_. False), ro_hook = (\<lambda>_. HookOk), ro_audit = None\<rparr>"

definition sample_disk :: disk where
  "sample_disk = \<lparr>dk_file = (\<lambda>p. if p = livePath then Some (Whole \<lparr>sr_data = sample_db, sr_applied = Some []\<rparr> None) else None),
     dk_state = StateAbsent\<rparr>"

lemma sample_unhindered: "unhindered sample_restore"
  by (simp add: unhindered_def sample_restore_def NewMasterKey_def keySize_def has_line_break_def)

lemma sample_fresh: "fresh_disk sample_disk"
  by (simp add: fresh_disk_def sample_disk_def)

lemma hex_encode_length: "length (hex_encode bs) = 2 * length bs"
  by (induction bs) (simp_all add: hex_encode_def)

lemma sample_paths [simp]: "SnapshotPath \<noteq> MasterKeyPath" "MasterKeyPath \<noteq> SnapshotPath"
  "ManifestPath \<noteq> MasterKeyPath" "ManifestPath \<noteq> SnapshotPath" "SnapshotPath \<noteq> ManifestPath" "MasterKeyPath \<noteq> ManifestPath"
  by (simp_all add: SnapshotPath_def MasterKeyPath_def ManifestPath_def)

lemma sample_read: "readManifestFile sample_tree_env sample_tree = Inr sample_manifest"
  by (simp add: readManifestFile_Inr Check_Inr)
     (simp add: sample_tree_def sample_tree_env_def sample_manifest_def FormatVersion_def
       allowedManifestPaths_def hex_encode_length)

lemma sample_tree_ok: "verifyRestoreTree sample_tree_env sample_tree = Inr ()"
proof -
  have strike: "strike_entries [ManifestPath, SnapshotPath, MasterKeyPath] (ex_entries sample_tree) = Inr []"
    by (simp add: sample_tree_def)
  have "check_digests sample_tree_env sample_tree (mn_files sample_manifest) = Inr ()"
    by (simp add: sample_manifest_def fileDigest_def sample_tree_def sample_tree_env_def)
  then show ?thesis
    by (simp add: verifyRestoreTree_def sample_read strike) (simp add: sample_tree_def)
qed

lemma sample_archive: "open_archive sample_restore = Inr (sample_manifest, replicate 32 1, sample_snapshot)"
  using sample_tree_ok
  by (simp add: open_archive_def sample_restore_def sample_read)
     (simp add: sample_tree_def sample_manifest_def FormatVersion_def NewMasterKey_def keySize_def
       maxMigrationVersion_def glob_sql_def)

theorem verifyRestoreTree_iff_witness:
  "verifyRestoreTree sample_tree_env sample_tree = Inr () \<and>
     mset (plain_entries sample_tree) = mset [ManifestPath, SnapshotPath, MasterKeyPath]"
  using verifyRestoreTree_iff[of sample_tree_env sample_tree] sample_tree_ok by blast

lemma sample_restore_serves: "serves (rekey_of sample_restore (replicate 32 1)) sample_vault"
  using sample_serves by (simp add: rekey_of_def sample_restore_def sample_rekey_def)

lemma sample_schema: "schema_current (ro_files sample_restore) sample_snapshot"
  by (simp add: schema_current_def sample_restore_def sample_snapshot_def glob_sql_def)

lemma sample_snapshot_inv: "vault_inv sample_vault (sr_data sample_snapshot)"
  by (simp add: sample_snapshot_def sample_db1_inv)

lemmas sample_valid = sample_restore_serves sample_snapshot_inv sample_schema

theorem restore_of_valid_backup_witness:
  "\<exists>res d' t c. RestoreInstance sample_restore sample_disk = (Inr res, d', t) \<and> res_backup res = ''b1'' \<and>
     file_view d' livePath = Some c \<and> sessions (sr_data c) = []"
  using restore_of_valid_backup[OF sample_unhindered sample_fresh sample_archive sample_valid refl]
  by (auto simp: sample_manifest_def)

definition sample_program :: "db sql_env" where
  "sample_program = ro_sql sample_restore"

lemma sample_binary: "sample_restore \<in> same_binary sample_program [] {sample_restore}"
  by (simp add: same_binary_def sample_program_def) (simp add: sample_restore_def)

lemma sample_attempt: "\<exists>res d' t. RestoreInstance sample_restore sample_disk = (Inr res, d', t) \<and>
    dk_file d' livePath \<noteq> None"
  using valid_run[OF sample_unhindered sample_fresh sample_archive sample_valid]
  by (fastforce simp: installed_def)

lemma sample_disk_live: "live_is (from_old sample_program [] (file_view sample_disk livePath)) sample_disk"
  by (rule fresh_live[OF sample_fresh])


theorem restore_success_verified_witness:
  "\<exists>res d' t c. RestoreInstance sample_restore sample_disk = (Inr res, d', t) \<and>
     file_view d' livePath = Some c \<and> verifyCandidate toy_aead (replicate 32 2) (sr_data c) = Inr () \<and>
     readRestoreMarker (sr_data c) = res_backup res"
proof -
  obtain res d' t where run: "RestoreInstance sample_restore sample_disk = (Inr res, d', t)"
    using sample_attempt by blast
  have env: "ro_aead sample_restore = toy_aead" "ro_target sample_restore = replicate 32 2"
    by (simp_all add: sample_restore_def)
  from restore_success_verified[OF sample_fresh reached_start sample_binary disjI2[OF sample_disk_live] run] run
  show ?thesis unfolding env by blast
qed

definition interrupted_disk :: disk where
  "interrupted_disk = \<lparr>dk_file = (\<lambda>p. if p = livePath then Some (Whole sample_snapshot None)
       else if p = ''pre-restore-old.db'' then Some (Whole \<lparr>sr_data = sample_db, sr_applied = Some []\<rparr> None) else None),
     dk_state = StateSaved \<lparr>rs_stage = StageSnapshot, rs_backup = ''b1'', rs_archive = ''a'',
       rs_presnap = ''pre-restore-old.db'', rs_cand = '''', rs_empty = False\<rparr>\<rparr>"

theorem resumed_restore_keeps_first_snapshot_witness:
  "\<exists>res d' t. RestoreInstance sample_restore interrupted_disk = (Inr res, d', t) \<and>
     res_presnap res = ''pre-restore-old.db'' \<and>
     dk_file d' ''pre-restore-old.db'' = Some (Whole \<lparr>sr_data = sample_db, sr_applied = Some []\<rparr> None)"
proof -
  let ?st = "\<lparr>rs_stage = StageSnapshot, rs_backup = ''b1'', rs_archive = ''a'',
       rs_presnap = ''pre-restore-old.db'', rs_cand = '''', rs_empty = False\<rparr>"
  have "dk_state interrupted_disk = StateSaved ?st" "rs_stage ?st \<notin> {StageSwitchReady, StageSwitched}"
    "rs_cand ?st \<in> {'''', candidateName}" "rs_presnap ?st \<noteq> ''''"
    "dk_file interrupted_disk livePath = Some (Whole sample_snapshot None)"
    by (simp_all add: interrupted_disk_def)
  from resumed_restore_keeps_first_snapshot[OF sample_unhindered sample_archive sample_valid this]
  show ?thesis by (fastforce simp: interrupted_disk_def livePath_def candidateName_def)
qed

end
