(* ===== verification/VaultImport.thy ===== *)
theory VaultImport
  imports VaultWitness
begin

text \<open>
  The import of \<open>vault/service.go\<close>: the validation of the whole set and of its reference graph, the
  assignment of ids, the rewriting of billing references and the insertion, in one transaction.

  What JSON does with a payload beyond the typed decoding is the record \<open>import_json\<close>: the billing
  reference that the helper struct decodes, the value under the exact key, and the payload with
  that value replaced.
\<close>

section \<open>Definitions\<close>

record import_item =
  im_id :: string
  im_type :: string
  im_scope :: string
  im_tags :: "string list"
  im_favorite :: bool
  im_payload :: string

datatype raw_field = FieldMissing | FieldNull | FieldNotText | FieldText string

record import_json =
  ij_billing :: "string \<Rightarrow> string option"
  ij_object :: "string \<Rightarrow> raw_field option"
  ij_rewrite :: "string \<Rightarrow> string option \<Rightarrow> string"

definition billingReference :: "import_json \<Rightarrow> string \<Rightarrow> string option" where
  "billingReference J raw =
    (case ij_billing J raw of None \<Rightarrow> None | Some r \<Rightarrow> if r = '''' then None else Some r)"

text \<open>The items validated so far; an id may occur once.\<close>

fun check_items :: "venv \<Rightarrow> import_item list \<Rightarrow> import_item list \<Rightarrow> vault_error + import_item list" where
  "check_items V seen [] = Inr seen"
| "check_items V seen (i # is) =
    (if \<not> ItemTypes (im_type i) then Inl ErrPayloadInvalid
     else if \<not> Scopes (im_scope i) then Inl ErrPayloadInvalid
     else andthen (decodePayload (ve_codec V) (im_type i) (im_payload i)) (\<lambda>_.
          andthen (validateTags (im_tags i)) (\<lambda>_.
          if im_id i = '''' then check_items V seen is
          else if im_id i \<in> im_id ` set seen then Inl ErrPayloadInvalid
          else check_items V (i # seen) is)))"

definition reference_allowed :: "import_json \<Rightarrow> import_item list \<Rightarrow> import_item \<Rightarrow> bool" where
  "reference_allowed J archive i =
    (case billingReference J (im_payload i) of None \<Rightarrow> True
     | Some ref \<Rightarrow>
        (case find (\<lambda>t. im_id t = ref) archive of None \<Rightarrow> True
         | Some t \<Rightarrow> im_type t = TypeIdentity \<and> (im_scope i = ScopeShared \<longrightarrow> im_scope t = ScopeShared)))"

definition check_import :: "venv \<Rightarrow> import_json \<Rightarrow> import_item list \<Rightarrow> vault_error + unit" where
  "check_import V J is =
    andthen (check_items V [] is) (\<lambda>archive.
    ensure (list_all (reference_allowed J archive) is) ErrReferenceForbidden)"

text \<open>Pass 1: the original id when it is free, a fresh one otherwise.\<close>

fun final_ids :: "venv \<Rightarrow> db \<Rightarrow> nat \<Rightarrow> import_item list \<Rightarrow> string list" where
  "final_ids V d k [] = []"
| "final_ids V d k (i # is) =
    (if IDExists (im_id i) d \<or> im_id i = '''' then ve_ids V k # final_ids V d (Suc k) is
     else im_id i # final_ids V d k is)"

definition id_map :: "import_item list \<Rightarrow> string list \<Rightarrow> string \<Rightarrow> string option" where
  "id_map is fin = map_of (filter (\<lambda>p. fst p \<noteq> '''') (zip (map im_id is) fin))"

text \<open>Pass 2: the new payload of an item and whether its reference was remapped.\<close>

definition rewrite_item :: "import_json \<Rightarrow> (string \<Rightarrow> string option) \<Rightarrow> import_item \<Rightarrow> vault_error + (import_item \<times> bool)" where
  "rewrite_item J ids i =
    (if im_type i \<noteq> TypeCreditCard then Inr (i, False)
     else case ij_object J (im_payload i) of
       None \<Rightarrow> Inl ErrPayloadInvalid
     | Some (FieldText ref) \<Rightarrow>
         if ref = '''' then Inr (i, False)
         else (case ids ref of
             None \<Rightarrow> Inr (i\<lparr>im_payload := ij_rewrite J (im_payload i) None\<rparr>, False)
           | Some n \<Rightarrow> Inr (i\<lparr>im_payload := ij_rewrite J (im_payload i) (Some n)\<rparr>, n \<noteq> ref))
     | Some _ \<Rightarrow> Inr (i, False))"

fun rewrite_all :: "import_json \<Rightarrow> (string \<Rightarrow> string option) \<Rightarrow> import_item list \<Rightarrow> vault_error + (import_item list \<times> nat)" where
  "rewrite_all J ids [] = Inr ([], 0)"
| "rewrite_all J ids (i # is) =
    andthen (rewrite_item J ids i) (\<lambda>(i', b).
    andthen (rewrite_all J ids is) (\<lambda>(is', n). Inr (i' # is', (if b then Suc n else n))))"

text \<open>Pass 3.\<close>

definition imported_row :: "venv \<Rightarrow> principal \<Rightarrow> nat \<Rightarrow> string \<Rightarrow> import_item \<Rightarrow> vault_error + item_row" where
  "imported_row V a k iid i =
    andthen (decodePayload (ve_codec V) (im_type i) (im_payload i)) (\<lambda>p.
    andthen (validateTags (im_tags i)) (\<lambda>tags.
    andthen (buildEnvelope (ve_codec V) tags p) (\<lambda>(env, plaintext).
    Inr (sealed_item V k iid (im_scope i) a (im_type i) (im_favorite i) plaintext))))"

fun insert_imported :: "venv \<Rightarrow> principal \<Rightarrow> nat \<Rightarrow> (string \<times> import_item) list \<Rightarrow> db \<Rightarrow> vault_error + db" where
  "insert_imported V a k [] d = Inr d"
| "insert_imported V a k ((iid, i) # is) d =
    andthen (imported_row V a k iid i) (\<lambda>row.
    andthen (map_err ErrDatabase (insertItem row d)) (\<lambda>d'.
    insert_imported V a (Suc k) is d'))"

definition import_tx ::
  "venv \<Rightarrow> import_json \<Rightarrow> principal \<Rightarrow> import_item list \<Rightarrow> (db \<Rightarrow> vault_error + unit) \<Rightarrow> db \<Rightarrow>
   vault_error + ((nat \<times> nat) \<times> db)" where
  "import_tx V J a is hook d =
    (let fin = final_ids V d 0 is in
     andthen (rewrite_all J (id_map is fin) is) (\<lambda>(is', remapped).
     andthen (hook d) (\<lambda>_.
     andthen (insert_imported V a 0 (zip fin is') d) (\<lambda>d1.
     andthen (audit_in V (mk_event ''transfer.imported'' (p_user a) ''user'' (p_user a) ''success'') d1) (\<lambda>d2.
     Inr ((length is', remapped), d2))))))"

definition ImportAllWithHook ::
  "venv \<Rightarrow> import_json \<Rightarrow> principal option \<Rightarrow> import_item list \<Rightarrow> (db \<Rightarrow> vault_error + unit) \<Rightarrow> db \<Rightarrow>
   (vault_error + (nat \<times> nat)) \<times> db" where
  "ImportAllWithHook V J actor is hook d =
    (case actor of None \<Rightarrow> (Inl ErrForbidden, d)
     | Some a \<Rightarrow> (case check_import V J is of Inl e \<Rightarrow> (Inl e, d)
        | Inr _ \<Rightarrow> in_tx (import_tx V J a is hook) d))"

definition ImportAll ::
  "venv \<Rightarrow> import_json \<Rightarrow> principal option \<Rightarrow> import_item list \<Rightarrow> db \<Rightarrow> (vault_error + (nat \<times> nat)) \<times> db" where
  "ImportAll V J actor is d = ImportAllWithHook V J actor is (\<lambda>_. Inr ()) d"

section \<open>The inserted rows\<close>

lemma imported_row_InrD:
  assumes "imported_row V a k iid i = Inr row" and "venv_ok V" and "list_all valid_utf8 (im_tags i)"
  shows "\<exists>tags p. validateTags (im_tags i) = Inr tags \<and>
     decodePayload (ve_codec V) (im_type i) (im_payload i) = Inr p \<and> row_holds V row tags p \<and>
     row = sealed_item V k iid (im_scope i) a (im_type i) (im_favorite i) (content V tags p)"
proof -
  from assms(1) obtain p tags env raw where
    dec: "decodePayload (ve_codec V) (im_type i) (im_payload i) = Inr p"
    and tg: "validateTags (im_tags i) = Inr tags" and be: "buildEnvelope (ve_codec V) tags p = Inr (env, raw)"
    and row0: "row = sealed_item V k iid (im_scope i) a (im_type i) (im_favorite i) raw"
    by (auto simp: imported_row_def result_Inr split: prod.splits)
  from buildEnvelope_InrD[OF be] have raw: "raw = content V tags p" by (simp add: content_def)
  have pw: "payload_wire p" "payload_type p = im_type i"
    using decodePayload_InrD[OF dec] assms(2) by (auto simp: venv_ok_def)
  then have w: "wire_ok tags p" using validateTags_wire[OF tg assms(3)] by (simp add: wire_ok_def)
  have "row_holds V row tags p"
    unfolding row0 raw by (rule sealed_item_holds[OF assms(2) w pw(2) refl])
  with dec tg row0 raw show ?thesis by blast
qed

lemma sealed_owned:
  assumes "item_check (sealed_item V k iid sc a t fav raw)"
  shows "owned_view (policyView (sealed_item V k iid sc a t fav raw))"
    and "view_subject (policyView (sealed_item V k iid sc a t fav raw)) = p_user a"
  using assms
  by (auto simp: item_check_def sealed_item_view owned_view_def policyItem_def view_subject_def
      sealed_item_def Let_def owner_for_def creator_for_def nullable_def null_string_def split: if_splits)

text \<open>What the rows of an import are, relative to the items they come from.\<close>

definition row_of_import :: "venv \<Rightarrow> principal \<Rightarrow> string \<times> import_item \<Rightarrow> item_row \<Rightarrow> bool" where
  "row_of_import V a x r \<longleftrightarrow> it_id r = fst x \<and> it_type r = im_type (snd x) \<and> it_scope r = im_scope (snd x) \<and>
     it_favorite r = im_favorite (snd x) \<and> it_rev r = 1 \<and> it_deleted r = None \<and>
     view_subject (policyView r) = p_user a \<and>
     (\<exists>tags p. validateTags (im_tags (snd x)) = Inr tags \<and>
        decodePayload (ve_codec V) (im_type (snd x)) (im_payload (snd x)) = Inr p \<and> row_holds V r tags p)"

lemma insert_imported_InrD:
  assumes "insert_imported V a k xs d = Inr d'" and "venv_ok V" and "vault_inv V d"
    and "\<forall>x \<in> set xs. list_all valid_utf8 (im_tags (snd x))"
  shows "\<exists>rows. d' = d\<lparr>items := items d @ rows\<rparr> \<and> list_all2 (row_of_import V a) xs rows \<and> vault_inv V d'"
  using assms
proof (induction xs arbitrary: k d)
  case Nil
  then show ?case by (intro exI[of _ "[]"]) simp
next
  case (Cons x xs)
  obtain iid i where x: "x = (iid, i)" by (cases x)
  from Cons.prems(1) x obtain row d1 where
    row: "imported_row V a k iid i = Inr row" and ins: "insertItem row d = Inr d1"
    and rest: "insert_imported V a (Suc k) xs d1 = Inr d'"
    by (auto simp: result_Inr)
  from imported_row_InrD[OF row Cons.prems(2)] Cons.prems(4) x obtain tags p where
    tp: "validateTags (im_tags i) = Inr tags" "decodePayload (ve_codec V) (im_type i) (im_payload i) = Inr p"
    and h: "row_holds V row tags p"
    and r: "row = sealed_item V k iid (im_scope i) a (im_type i) (im_favorite i) (content V tags p)"
    by auto
  have same: "row\<lparr>it_deleted := None\<rparr> = row" unfolding r by simp
  from ins have "insert_item_row row d = Inr d1" by (simp add: insertItem_def same)
  from insert_item_row_InrD[OF this] have d1: "d1 = d\<lparr>items := items d @ [row]\<rparr>" and chk: "item_check row" by auto
  note own = sealed_owned[OF chk[unfolded r], folded r]
  have inv1: "vault_inv V d1"
    by (rule vault_inv_insert[OF Cons.prems(3) ins own(1) _ h]) (simp add: r)
  from Cons.IH[OF rest Cons.prems(2) inv1] Cons.prems(4) obtain rows where
    rows: "d' = d1\<lparr>items := items d1 @ rows\<rparr>" "list_all2 (row_of_import V a) xs rows" "vault_inv V d'" by auto
  have "row_of_import V a x row"
    using tp h own(2) by (simp add: row_of_import_def x) (simp add: r)
  with rows d1 show ?case by (intro exI[of _ "row # rows"]) simp
qed

lemma rewrite_item_same:
  "rewrite_item J ids i = Inr (i', b) \<Longrightarrow> im_id i' = im_id i \<and> im_type i' = im_type i \<and> im_scope i' = im_scope i \<and>
     im_tags i' = im_tags i \<and> im_favorite i' = im_favorite i"
  by (auto simp: rewrite_item_def split: if_splits option.splits raw_field.splits)

lemma rewrite_all_InrD:
  "rewrite_all J ids is = Inr (is', n) \<Longrightarrow>
     list_all2 (\<lambda>i i'. \<exists>b. rewrite_item J ids i = Inr (i', b)) is is'"
  by (induction "is" arbitrary: is' n) (auto simp: result_Inr)

lemma length_final_ids [simp]: "length (final_ids V d k is) = length is"
  by (induction V d k "is" rule: final_ids.induct) auto

lemma import_tx_InrD:
  assumes "import_tx V J a is hook d = Inr ((n, m), d')" and "venv_ok V" and "vault_inv V d"
    and "\<forall>i \<in> set is. list_all valid_utf8 (im_tags i)"
  shows "\<exists>is' rows. rewrite_all J (id_map is (final_ids V d 0 is)) is = Inr (is', m) \<and>
     n = length is \<and> items d' = items d @ rows \<and> versions d' = versions d \<and> users d' = users d \<and>
     list_all2 (row_of_import V a) (zip (final_ids V d 0 is) is') rows \<and> vault_inv V d'"
proof -
  let ?fin = "final_ids V d 0 is"
  from assms(1) obtain is' d1 where
    rw: "rewrite_all J (id_map is ?fin) is = Inr (is', m)" and n: "n = length is'"
    and ins: "insert_imported V a 0 (zip ?fin is') d = Inr d1"
    and aud: "audit_in V (mk_event ''transfer.imported'' (p_user a) ''user'' (p_user a) ''success'') d1 = Inr d'"
    by (auto simp: import_tx_def Let_def result_Inr split: prod.splits)
  note L = rewrite_all_InrD[OF rw]
  have len: "length is' = length is" using list_all2_lengthD[OF L] by simp
  have "im_tags i' \<in> im_tags ` set is" if "i' \<in> set is'" for i'
    using L that rewrite_item_same by (fastforce simp: list_all2_conv_all_nth in_set_conv_nth image_iff)
  then have utf: "\<forall>x \<in> set (zip ?fin is'). list_all valid_utf8 (im_tags (snd x))"
    using assms(4) by (fastforce dest: set_zip_rightD)
  from insert_imported_InrD[OF ins assms(2,3) utf] obtain rows where
    r: "d1 = d\<lparr>items := items d @ rows\<rparr>" "list_all2 (row_of_import V a) (zip ?fin is') rows" "vault_inv V d1"
    by blast
  from audit_in_InrD[OF aud] obtain row where "d' = d1\<lparr>audits := audits d1 @ [row]\<rparr>" by blast
  with r rw n len audit_in_inv[OF aud, of V] show ?thesis by auto
qed

section \<open>The whole import\<close>

lemma check_items_InrD:
  assumes "check_items V seen is = Inr archive"
  shows "archive = rev (filter (\<lambda>i. im_id i \<noteq> '''') is) @ seen"
    and "distinct (map im_id seen) \<Longrightarrow> distinct (map im_id archive)"
    and "\<forall>i \<in> set is. \<exists>p. decodePayload (ve_codec V) (im_type i) (im_payload i) = Inr p"
  using assms
  by (induction V seen "is" arbitrary: archive rule: check_items.induct)
     (auto simp: result_Inr image_iff split: if_splits)

lemma check_import_InrD:
  assumes "check_import V J is = Inr u" and "i \<in> set is"
  shows "\<exists>p. decodePayload (ve_codec V) (im_type i) (im_payload i) = Inr p"
    and "billingReference J (im_payload i) = Some ref \<Longrightarrow> t \<in> set is \<Longrightarrow> im_id t = ref \<Longrightarrow>
       im_type t = TypeIdentity \<and> (im_scope i = ScopeShared \<longrightarrow> im_scope t = ScopeShared)"
proof -
  from assms(1) obtain archive where ci: "check_items V [] is = Inr archive"
    and ok: "\<forall>i \<in> set is. reference_allowed J archive i"
    by (auto simp: check_import_def result_Inr list_all_iff)
  note D = check_items_InrD[OF ci]
  show "\<exists>p. decodePayload (ve_codec V) (im_type i) (im_payload i) = Inr p" using D(3) assms(2) by blast
  show "im_type t = TypeIdentity \<and> (im_scope i = ScopeShared \<longrightarrow> im_scope t = ScopeShared)"
    if b: "billingReference J (im_payload i) = Some ref" and t: "t \<in> set is" "im_id t = ref"
  proof -
    have ne: "ref \<noteq> ''''" using b by (auto simp: billingReference_def split: option.splits if_splits)
    with t D(1) have ta: "t \<in> set archive" by simp
    obtain u where u: "find (\<lambda>t. im_id t = ref) archive = Some u"
      using ta t(2) by (cases "find (\<lambda>t. im_id t = ref) archive") (auto simp: find_None_iff)
    then have "u \<in> set archive" "im_id u = ref" by (auto simp: find_Some_iff)
    with D(2) ta t(2) have "u = t" by (auto simp: distinct_map dest: inj_onD)
    with ok assms(2) b u show ?thesis by (auto simp: reference_allowed_def)
  qed
qed

lemma final_ids_nth:
  "j < length is \<Longrightarrow> im_id (is ! j) \<noteq> '''' \<Longrightarrow> \<not> IDExists (im_id (is ! j)) d \<Longrightarrow>
     final_ids V d k is ! j = im_id (is ! j)"
  by (induction V d k "is" arbitrary: j rule: final_ids.induct) (auto simp: nth_Cons split: nat.splits)

lemma ImportAllWithHook_InrD:
  assumes "ImportAllWithHook V J actor is hook d = (Inr (n, m), d')"
  shows "\<exists>a. actor = Some a \<and> check_import V J is = Inr () \<and> import_tx V J a is hook d = Inr ((n, m), d')"
  using assms
  by (auto simp: ImportAllWithHook_def in_tx_def split: option.splits sum.splits)

lemma ImportAllWithHook_InlD: "ImportAllWithHook V J actor is hook d = (Inl e, d') \<Longrightarrow> d' = d"
  by (auto simp: ImportAllWithHook_def in_tx_def split: option.splits sum.splits)


text \<open>The JSON of a card whose billing key occurs once and is spelled exactly: the helper struct and
  the raw object see the reference that the typed decoding sees, and the payload with the value
  replaced decodes to the same card with the new reference.\<close>

definition billing_exact :: "venv \<Rightarrow> import_json \<Rightarrow> import_item \<Rightarrow> bool" where
  "billing_exact V J i \<longleftrightarrow> (\<forall>c. decode_strict (ve_codec V) TypeCreditCard (im_payload i) = Some (CreditCard c) \<longrightarrow>
     ij_billing J (im_payload i) = cc_billing c \<and>
     (\<forall>f s. ij_object J (im_payload i) = Some f \<longrightarrow> (f = FieldText s \<longleftrightarrow> cc_billing c = Some s)) \<and>
     (\<forall>new. (\<forall>x. new = Some x \<longrightarrow> valid_utf8 x) \<longrightarrow>
        decode_strict (ve_codec V) TypeCreditCard (ij_rewrite J (im_payload i) new)
        = Some (CreditCard (c\<lparr>cc_billing := new\<rparr>))))"

lemma decodePayload_strict: "decodePayload C t raw = Inr p \<Longrightarrow> decode_strict C t raw = Some p"
  by (auto simp: decodePayload_def split: if_splits option.splits)

lemma card_reference:
  assumes dec: "decodePayload (ve_codec V) (im_type i) (im_payload i) = Inr q" and V: "venv_ok V"
    and ex: "billing_exact V J i" and rw: "rewrite_item J ids i = Inr (i', b)"
    and dec': "decodePayload (ve_codec V) (im_type i') (im_payload i') = Inr p"
    and ref: "referenceTarget p = Some new" "new \<noteq> ''''" and ids: "\<And>x y. ids x = Some y \<Longrightarrow> valid_utf8 y"
  shows "\<exists>old. billingReference J (im_payload i) = Some old \<and> ids old = Some new"
proof -
  note same = rewrite_item_same[OF rw]
  from ref(1) obtain c' where p: "p = CreditCard c'" "cc_billing c' = Some new" by (cases p) auto
  with dec' V same have t: "im_type i = TypeCreditCard"
    using decodePayload_InrD[OF dec'] by (simp add: venv_ok_def)
  from decodePayload_strict[OF dec] decodePayload_InrD[OF dec] t V obtain c where
    c: "decode_strict (ve_codec V) TypeCreditCard (im_payload i) = Some (CreditCard c)"
    by (cases q) (auto simp: venv_ok_def)
  note E = ex[unfolded billing_exact_def, rule_format, OF c]
  have d': "decode_strict (ve_codec V) TypeCreditCard (im_payload i') = Some (CreditCard c')"
    using decodePayload_strict[OF dec'] same t p(1) by simp
  show ?thesis
  proof (cases "im_payload i' = im_payload i")
    case True
    with d' c p(2) have b: "cc_billing c = Some new" by simp
    from rw t obtain f where f: "ij_object J (im_payload i) = Some f" by (auto simp: rewrite_item_def split: option.splits)
    with E b have "f = FieldText new" by blast
    with rw f t ref(2) obtain n where n: "ids new = None \<or> ids new = Some n" by (cases "ids new") auto
    have unchanged: "decode_strict (ve_codec V) TypeCreditCard (ij_rewrite J (im_payload i) x)
        = Some (CreditCard (c\<lparr>cc_billing := x\<rparr>))" if "\<And>y. x = Some y \<Longrightarrow> valid_utf8 y" for x using E that by blast
    from rw f \<open>f = FieldText new\<close> t ref(2)
    have "im_payload i' = ij_rewrite J (im_payload i) (ids new)"
      by (auto simp: rewrite_item_def split: option.splits)
    with unchanged[of "ids new"] ids[of new] d' p(2) have "ids new = Some new" by auto
    with E b ref(2) show ?thesis by (intro exI[of _ new]) (simp add: billingReference_def)
  next
    case False
    with rw t obtain old where old: "ij_object J (im_payload i) = Some (FieldText old)" "old \<noteq> ''''"
      and i': "im_payload i' = ij_rewrite J (im_payload i) (ids old)"
      by (auto simp: rewrite_item_def split: option.splits raw_field.splits if_splits)
    from E old have b: "cc_billing c = Some old" by blast
    have "decode_strict (ve_codec V) TypeCreditCard (im_payload i') = Some (CreditCard (c\<lparr>cc_billing := ids old\<rparr>))"
      unfolding i' using E ids[of old] by blast
    with d' have "c' = c\<lparr>cc_billing := ids old\<rparr>" by simp
    with p(2) have "ids old = Some new" by simp
    with E b old(2) show ?thesis by (intro exI[of _ old]) (simp add: billingReference_def)
  qed
qed

lemma row_holds_unique:
  "venv_ok V \<Longrightarrow> row_holds V r tags p \<Longrightarrow> row_holds V r tags' p' \<Longrightarrow> p = p'"
  using decryptRow_holds[of V r tags p] decryptRow_holds[of V r tags' p'] by simp

lemma final_ids_utf8:
  "\<forall>k. valid_utf8 (ve_ids V k) \<Longrightarrow> \<forall>i \<in> set is. valid_utf8 (im_id i) \<Longrightarrow> list_all valid_utf8 (final_ids V d k is)"
  by (induction V d k "is" rule: final_ids.induct) auto

lemma id_map_SomeD:
  assumes "id_map is fin old = Some new" and "length fin = length is"
  shows "\<exists>j < length is. im_id (is ! j) = old \<and> fin ! j = new"
  using map_of_SomeD[OF assms(1)[unfolded id_map_def]] assms(2) by (auto simp: set_zip)

text \<open>No imported card points outside its archive.  After a successful import the billing reference
  stored in a new row, if it has one, is the id of another new row that is an identity, and a shared
  card refers to a shared identity: references inside the archive have followed their target to its
  new id, every other reference has been cleared.\<close>

theorem import_references_closed:
  assumes "ImportAllWithHook V J actor is hook d = (Inr (n, m), d')" and "venv_ok V" and "vault_inv V d"
    and "\<forall>i \<in> set is. list_all valid_utf8 (im_tags i) \<and> valid_utf8 (im_id i) \<and> billing_exact V J i"
    and "\<forall>k. valid_utf8 (ve_ids V k)" and "r \<in> set (drop (length (items d)) (items d'))" and "row_holds V r tags p"
    and "referenceTarget p = Some ref" and "ref \<noteq> ''''"
  shows "\<exists>t \<in> set (drop (length (items d)) (items d')). it_id t = ref \<and> it_type t = TypeIdentity \<and>
     (it_scope r = ScopeShared \<longrightarrow> it_scope t = ScopeShared)"
proof -
  from ImportAllWithHook_InrD[OF assms(1)] obtain a where chk: "check_import V J is = Inr ()"
    and tx: "import_tx V J a is hook d = Inr ((n, m), d')" by blast
  let ?fin = "final_ids V d 0 is" and ?ids = "id_map is (final_ids V d 0 is)"
  from import_tx_InrD[OF tx assms(2,3)] assms(4) obtain is' rows where
    rw: "rewrite_all J ?ids is = Inr (is', m)" and it: "items d' = items d @ rows"
    and rows: "list_all2 (row_of_import V a) (zip ?fin is') rows" by blast
  note L = rewrite_all_InrD[OF rw]
  have len: "length is' = length is" "length rows = length is"
    using list_all2_lengthD[OF L] list_all2_lengthD[OF rows] by auto
  have row: "row_of_import V a (?fin ! j, is' ! j) (rows ! j)" if "j < length is" for j
    using list_all2_nthD[OF rows, of j] that len by simp
  have same: "im_type (is' ! j) = im_type (is ! j)" "im_scope (is' ! j) = im_scope (is ! j)"
    if "j < length is" for j
    using list_all2_nthD[OF L, of j] that len rewrite_item_same by fastforce+
  have utf: "valid_utf8 y" if "?ids x = Some y" for x y
  proof -
    from id_map_SomeD[OF that] obtain k where k: "k < length is" "y = ?fin ! k" by auto
    with final_ids_utf8[of V "is" d 0] assms(4,5) show ?thesis by (simp add: list_all_length)
  qed
  from assms(6) it len obtain j where j: "j < length is" "r = rows ! j"
    by (auto simp: in_set_conv_nth)
  from list_all2_nthD[OF L] j(1) obtain b where ri: "rewrite_item J ?ids (is ! j) = Inr (is' ! j, b)" by blast
  from row[OF j(1)] j(2) obtain tags' p' where
    dec': "decodePayload (ve_codec V) (im_type (is' ! j)) (im_payload (is' ! j)) = Inr p'" and h: "row_holds V r tags' p'"
    by (auto simp: row_of_import_def)
  have p: "p' = p" by (rule row_holds_unique[OF assms(2) h assms(7)])
  have mem: "is ! j \<in> set is" using j(1) by simp
  from check_import_InrD(1)[OF chk mem] obtain q where
    dec: "decodePayload (ve_codec V) (im_type (is ! j)) (im_payload (is ! j)) = Inr q" by blast
  have ex: "billing_exact V J (is ! j)" using assms(4) mem by blast
  have "\<exists>old. billingReference J (im_payload (is ! j)) = Some old \<and> ?ids old = Some ref"
    by (rule card_reference[OF dec assms(2) ex ri dec'[unfolded p] assms(8,9)]) (rule utf)
  then obtain old where
    old: "billingReference J (im_payload (is ! j)) = Some old" "?ids old = Some ref" by blast
  from id_map_SomeD[OF old(2)] obtain k where k: "k < length is" "im_id (is ! k) = old" "?fin ! k = ref" by auto
  have "im_type (is ! k) = TypeIdentity \<and> (im_scope (is ! j) = ScopeShared \<longrightarrow> im_scope (is ! k) = ScopeShared)"
    by (rule check_import_InrD(2)[OF chk mem old(1) _ k(2)]) (use k(1) in simp)
  with row[OF k(1)] row[OF j(1)] same k j len it show ?thesis
    by (intro bexI[of _ "rows ! k"]) (auto simp: row_of_import_def)
qed

section \<open>A sample import\<close>

text \<open>Two items, an identity whose id is taken and a shared card that refers to it, and a toy JSON for them.\<close>

definition sample_identity :: payload where
  "sample_identity = Identity \<lparr>id_name = ''n'', id_full_name = '''', id_company = '''', id_phone = '''',
     id_email = '''', id_country = '''', id_state = '''', id_city = '''', id_district = '''',
     id_address_line = '''', id_postal_code = '''', id_notes = ''''\<rparr>"

definition sample_card :: "string option \<Rightarrow> credit_card_payload" where
  "sample_card b = \<lparr>cc_name = ''n'', cc_cardholder = ''h'', cc_number = ''1'', cc_exp_month = 1, cc_exp_year = 2030,
     cc_cvv = '''', cc_pin = '''', cc_billing = b, cc_notes = ''''\<rparr>"

fun card_text :: "string option \<Rightarrow> string" where
  "card_text None = ''-''"
| "card_text (Some s) = CHR ''+'' # s"

fun card_ref :: "string \<Rightarrow> string option option" where
  "card_ref [] = None"
| "card_ref (c # s) = (if c = CHR ''-'' then Some None else if valid_utf8 s then Some (Some s) else None)"

definition import_decode :: "string \<Rightarrow> string \<Rightarrow> payload option" where
  "import_decode t raw =
    (if t = TypeIdentity then Some sample_identity
     else if t = TypeCreditCard then map_option (\<lambda>b. CreditCard (sample_card b)) (card_ref raw)
     else None)"

definition sample_json :: import_json where
  "sample_json = \<lparr>ij_billing = (\<lambda>raw. Option.bind (card_ref raw) (\<lambda>b. b)),
     ij_object = (\<lambda>raw. map_option (\<lambda>b. case b of None \<Rightarrow> FieldNull | Some s \<Rightarrow> FieldText s) (card_ref raw)),
     ij_rewrite = (\<lambda>_ b. card_text b)\<rparr>"

definition env_identity :: stored_payload where
  "env_identity = put_payload (empty_envelope [''t'']) sample_identity"

definition env_card :: stored_payload where
  "env_card = put_payload (empty_envelope []) (CreditCard (sample_card (Some ''new'')))"

definition import_marshal :: "stored_payload \<Rightarrow> bytes" where
  "import_marshal e = (if e = env_identity then [1] else if e = env_card then [2] else 0 # replicate (to_nat e) 0)"

fun import_unmarshal :: "bytes \<Rightarrow> stored_payload option" where
  "import_unmarshal [] = None"
| "import_unmarshal (b # bs) =
    (if b = 1 then Some env_identity else if b = 2 then Some env_card else Some (from_nat (length bs)))"

definition import_vault :: venv where
  "import_vault = sample_vault\<lparr>ve_codec := \<lparr>marshal = import_marshal, unmarshal = import_unmarshal,
       decode_strict = import_decode\<rparr>,
     ve_ids := (\<lambda>i. ''new'' @ replicate i (CHR ''x''))\<rparr>"

definition sample_archive :: "import_item list" where
  "sample_archive =
    [\<lparr>im_id = ''item'', im_type = TypeIdentity, im_scope = ScopeShared, im_tags = [''t''], im_favorite = False,
       im_payload = ''-''\<rparr>,
     \<lparr>im_id = ''card'', im_type = TypeCreditCard, im_scope = ScopeShared, im_tags = [], im_favorite = True,
       im_payload = ''+item''\<rparr>]"

lemma import_codec_ok: "codec_ok \<lparr>marshal = import_marshal, unmarshal = import_unmarshal, decode_strict = import_decode\<rparr>"
proof -
  have "payload_wire (CreditCard (sample_card b))" if "card_ref raw = Some b" for raw b
    using that
    by (cases raw) (auto simp: payload_wire_def sample_card_def valid_utf8_def byte_values_def split: if_splits)
  moreover have "payload_wire sample_identity" by code_simp
  ultimately show ?thesis
    by (auto simp: codec_ok_def import_marshal_def import_decode_def sample_identity_def split: if_splits)
qed

lemma import_vault_ok: "venv_ok import_vault"
  using sample_vault_ok import_codec_ok by (simp add: venv_ok_def import_vault_def)

text \<open>An identity of the importer already has the id of the first item.\<close>

definition import_row :: item_row where
  "import_row = sealed_item import_vault 0 ''item'' ScopeShared u1 TypeIdentity False [1]"

definition import_db :: db where
  "import_db = sample_db\<lparr>items := [import_row]\<rparr>"

lemma import_owned:
  "owned_view (policyView (sealed_item import_vault k iid ScopeShared u1 t fav raw))"
  by (simp add: sealed_item_view owned_view_def policyItem_def sealed_item_def Let_def owner_for_def
      creator_for_def nullable_def null_string_def)

lemma import_content:
  "content import_vault [''t''] sample_identity = [1]"
  "content import_vault [] (CreditCard (sample_card (Some ''new''))) = [2]"
proof -
  have "env_card \<noteq> env_identity" by (simp add: env_card_def env_identity_def empty_envelope_def sample_identity_def)
  then show "content import_vault [''t''] sample_identity = [1]"
    "content import_vault [] (CreditCard (sample_card (Some ''new''))) = [2]"
    by (simp_all add: content_def import_vault_def import_marshal_def env_identity_def[symmetric]
        env_card_def[symmetric] del: put_payload.simps)
qed

lemma import_row_holds: "row_holds import_vault import_row [''t''] sample_identity"
  unfolding import_row_def
  by (rule sealed_item_holds[OF import_vault_ok]) (code_simp, simp add: sample_identity_def, simp add: import_content)

lemma import_db_inv: "vault_inv import_vault import_db"
proof -
  have "insertItem import_row sample_db = Inr import_db"
    by (simp add: insertItem_def insert_item_row_def item_check_def item_refs_def sample_db_def
        empty_db_def sql_insert_def import_db_def sample_user_def item_types_def import_row_def sealed_item_def
        Let_def owner_for_def creator_for_def nullable_def import_vault_def Encrypt_def)
  from vault_inv_insert[OF sample_db_inv this _ _ import_row_holds] import_owned show ?thesis
    by (simp add: import_row_def)
qed

lemma import_decodes:
  "decodePayload (ve_codec import_vault) TypeIdentity ''-'' = Inr sample_identity"
  "decodePayload (ve_codec import_vault) TypeCreditCard ''+item'' = Inr (CreditCard (sample_card (Some ''item'')))"
  "decodePayload (ve_codec import_vault) TypeCreditCard ''+new'' = Inr (CreditCard (sample_card (Some ''new'')))"
  by (simp_all add: decodePayload_def import_vault_def import_decode_def blank_def runes_def byte_values_def is_space_def
      ItemTypes_def item_types_def sample_identity_def sample_card_def validateCreditCard_def validateIdentity_def
      requiredText_def optionalText_def rune_count_ascii ascii_def valid_utf8_def)

lemma import_tags: "validateTags [''t''] = Inr [''t'']" "validateTags [] = Inr []"
  by code_simp+

lemma import_checked: "check_import import_vault sample_json sample_archive = Inr ()"
  using import_decodes import_tags
  by (simp add: check_import_def sample_archive_def ItemTypes_def item_types_def Scopes_def reference_allowed_def
      billingReference_def sample_json_def valid_utf8_def byte_values_def)

lemma import_fin: "final_ids import_vault (import_db\<lparr>sessions := ss\<rparr>) 0 sample_archive = [''new'', ''card'']"
  by (simp add: sample_archive_def IDExists_def import_db_def import_row_def sealed_item_def Let_def import_vault_def)

lemma import_ids: "id_map sample_archive [''new'', ''card''] = [''item'' \<mapsto> ''new'', ''card'' \<mapsto> ''card'']"
  by (auto simp: id_map_def sample_archive_def fun_eq_iff)

lemma import_rewritten:
  "rewrite_all sample_json (id_map sample_archive [''new'', ''card'']) sample_archive =
     Inr ([sample_archive ! 0, (sample_archive ! 1)\<lparr>im_payload := ''+new''\<rparr>], 1)"
  unfolding import_ids
  by (simp add: sample_archive_def rewrite_item_def sample_json_def valid_utf8_def byte_values_def)

definition import_row1 :: item_row where
  "import_row1 = sealed_item import_vault 0 ''new'' ScopeShared u1 TypeIdentity False [1]"

definition import_row2 :: item_row where
  "import_row2 = sealed_item import_vault 1 ''card'' ScopeShared u1 TypeCreditCard True [2]"

lemma import_rows:
  "imported_row import_vault u1 0 ''new'' (sample_archive ! 0) = Inr import_row1"
  "imported_row import_vault u1 1 ''card'' ((sample_archive ! 1)\<lparr>im_payload := ''+new''\<rparr>) = Inr import_row2"
  using import_content
  by (simp_all add: imported_row_def sample_archive_def import_decodes import_tags buildEnvelope_def Let_def
      content_def MaxPayloadBytes_def import_row1_def import_row2_def)

lemma import_inserts:
  "insertItem import_row1 (import_db\<lparr>sessions := ss\<rparr>) = Inr (import_db\<lparr>items := [import_row, import_row1], sessions := ss\<rparr>)"
  "insertItem import_row2 (import_db\<lparr>items := [import_row, import_row1], sessions := ss\<rparr>) =
     Inr (import_db\<lparr>items := [import_row, import_row1, import_row2], sessions := ss\<rparr>)"
  by (simp_all add: insertItem_def insert_item_row_def item_check_def item_refs_def sample_db_def
      empty_db_def sql_insert_def import_db_def sample_user_def item_types_def import_row_def import_row1_def
      import_row2_def sealed_item_def Let_def owner_for_def creator_for_def nullable_def import_vault_def Encrypt_def)

text \<open>The run, with any sessions in the database and any hook that agrees.\<close>

lemma import_run_with:
  assumes hook: "hook (import_db\<lparr>sessions := ss\<rparr>) = Inr ()"
  shows "\<exists>d'. ImportAllWithHook import_vault sample_json (Some u1) sample_archive hook (import_db\<lparr>sessions := ss\<rparr>) = (Inr (2, 1), d') \<and>
     items d' = [import_row, import_row1, import_row2]"
proof -
  let ?d = "import_db\<lparr>items := [import_row, import_row1, import_row2], sessions := ss\<rparr>"
  let ?e = "mk_event ''transfer.imported'' ''u1'' ''user'' ''u1'' ''success''"
  have ev: "event_error ?e = None" by code_simp
  have "audit_in import_vault ?e ?d = audit_in sample_vault ?e ?d" by (simp add: audit_in_def import_vault_def)
  also have "\<dots> = Inr (?d\<lparr>audits := [event_row sample_env '''' ?e]\<rparr>)"
    using sample_audit[OF ev, of ?d] by (simp add: import_db_def sample_db_def empty_db_def sample_env_def)
  finally have aud: "audit_in import_vault ?e ?d = \<dots>" .
  have z: "zip [''new'', ''card''] [sample_archive ! 0, (sample_archive ! 1)\<lparr>im_payload := ''+new''\<rparr>] =
    [(''new'', sample_archive ! 0), (''card'', (sample_archive ! 1)\<lparr>im_payload := ''+new''\<rparr>)]" by simp
  have "insert_imported import_vault u1 0 (zip [''new'', ''card''] [sample_archive ! 0,
      (sample_archive ! 1)\<lparr>im_payload := ''+new''\<rparr>]) (import_db\<lparr>sessions := ss\<rparr>) = Inr ?d"
    unfolding z by (simp add: import_rows[simplified] import_inserts)
  then show ?thesis
    using aud hook by (simp add: ImportAllWithHook_def import_checked in_tx_def import_tx_def import_fin import_rewritten
      del: zip_Cons_Cons)
qed

lemma import_run:
  "\<exists>d'. ImportAllWithHook import_vault sample_json (Some u1) sample_archive (\<lambda>_. Inr ()) import_db = (Inr (2, 1), d') \<and>
     items d' = [import_row, import_row1, import_row2]"
proof -
  have "import_db\<lparr>sessions := []\<rparr> = import_db" by (simp add: import_db_def sample_db_def empty_db_def)
  with import_run_with[of "\<lambda>_. Inr ()" "[]"] show ?thesis by simp
qed

lemma card_ref_text: "(\<forall>x. b = Some x \<longrightarrow> valid_utf8 x) \<Longrightarrow> card_ref (card_text b) = Some b"
  by (cases b) auto

lemma import_exact:
  "\<forall>i \<in> set sample_archive. list_all valid_utf8 (im_tags i) \<and> valid_utf8 (im_id i) \<and>
     billing_exact import_vault sample_json i"
  by (simp add: sample_archive_def billing_exact_def import_vault_def import_decode_def sample_json_def
      sample_card_def card_ref_text) (simp add: valid_utf8_def byte_values_def)

lemma utf8_ascii_bytes: "\<forall>b \<in> set bs. b < 128 \<Longrightarrow> utf8_bytes bs"
  by (induction bs) auto

lemma import_new_ids: "\<forall>k. valid_utf8 (ve_ids import_vault k)"
  by (auto simp: import_vault_def valid_utf8_def byte_values_def intro!: utf8_ascii_bytes)


theorem import_references_closed_witness:
  "\<exists>t \<in> set [import_row1, import_row2]. it_id t = ''new'' \<and> it_type t = TypeIdentity \<and> it_scope t = ScopeShared"
proof -
  from import_run obtain d' where
    run: "ImportAllWithHook import_vault sample_json (Some u1) sample_archive (\<lambda>_. Inr ()) import_db = (Inr (2, 1), d')"
    and new: "drop (length (items import_db)) (items d') = [import_row1, import_row2]"
    by (auto simp: import_db_def)
  have "row_holds import_vault import_row2 [] (CreditCard (sample_card (Some ''new'')))"
    unfolding import_row2_def
    by (rule sealed_item_holds[OF import_vault_ok])
       (simp_all add: wire_ok_def payload_wire_def sample_card_def valid_utf8_def byte_values_def
          import_content[unfolded sample_card_def])
  from import_references_closed[OF run import_vault_ok import_db_inv import_exact import_new_ids _ this, unfolded new]
  show ?thesis by (simp add: sample_card_def import_row2_def sealed_item_def Let_def)
qed

end
