(* ===== verification/Clock.thy ===== *)
theory Clock
  imports Schema GoEncode
begin

text \<open>
  \<open>scheduler/daily.go\<close> and the part of package \<open>time\<close> that it and the retention use: the calendar of
  a UTC day number, time zones, \<open>time.Date\<close>, and the daily schedule.

  An instant counts nanoseconds (theory \<open>Schema\<close>); seconds and days are counted from the Unix
  epoch.  A loaded location is its lookup function: the offset in force at a second, and the
  first second and the end of the span with that offset.  The data of the zones is a parameter.
\<close>

section \<open>Calendar\<close>

text \<open>The proleptic Gregorian date of a day number, counted in eras of 400 years from March 1.\<close>

definition civil_month :: "int \<Rightarrow> int" where
  "civil_month mp = (if mp < 10 then mp + 3 else mp - 9)"

definition civil_date :: "int \<Rightarrow> int \<Rightarrow> int \<Rightarrow> int \<times> nat \<times> nat" where
  "civil_date y doy mp =
    (y + (if 10 \<le> mp then 1 else 0), nat (civil_month mp), nat (doy - (153 * mp + 2) div 5 + 1))"

definition civil_of_day :: "int \<Rightarrow> int \<Rightarrow> int \<times> nat \<times> nat" where
  "civil_of_day y doy = civil_date y doy ((5 * doy + 2) div 153)"

definition civil_of_year :: "int \<Rightarrow> int \<Rightarrow> int \<Rightarrow> int \<times> nat \<times> nat" where
  "civil_of_year era doe yoe =
    civil_of_day (yoe + era * 400) (doe - (365 * yoe + yoe div 4 - yoe div 100))"

definition civil_of_era :: "int \<Rightarrow> int \<Rightarrow> int \<times> nat \<times> nat" where
  "civil_of_era era doe =
    civil_of_year era doe ((doe - doe div 1460 + doe div 36524 - doe div 146096) div 365)"

definition civil :: "int \<Rightarrow> int \<times> nat \<times> nat" where
  "civil day = civil_of_era ((day + 719468) div 146097) ((day + 719468) mod 146097)"

lemmas civil_defs = civil_def civil_of_era_def civil_of_year_def civil_of_day_def civil_date_def civil_month_def

definition pad :: "nat \<Rightarrow> nat \<Rightarrow> string" where
  "pad w n = replicate (w - length (dec n)) (CHR ''0'') @ dec n"

text \<open>The layouts \<open>2006-01-02\<close> and \<open>2006-01\<close>, for the years that they can show.\<close>

definition month_text :: "int \<Rightarrow> string" where
  "month_text day = (case civil day of (y, m, d) \<Rightarrow> pad 4 (nat y) @ ''-'' @ pad 2 m)"

definition date_text :: "int \<Rightarrow> string" where
  "date_text day = (case civil day of (y, m, d) \<Rightarrow> pad 4 (nat y) @ ''-'' @ pad 2 m @ ''-'' @ pad 2 d)"

text \<open>\<open>ISOWeek\<close>: the year of the Thursday of the week, and the number of that Thursday in its year.
  Weeks begin on Monday; day 0 was a Thursday.  \<open>jan1\<close> is the day number of the first of January.\<close>

definition jan1 :: "int \<Rightarrow> int" where
  "jan1 y = 365 * (y - 1970) + (y - 1) div 4 - (y - 1) div 100 + (y - 1) div 400 - 477"

definition week_of :: "int \<Rightarrow> int \<Rightarrow> int \<times> int" where
  "week_of y th = (y, (th - jan1 y) div 7 + 1)"

definition iso_week :: "int \<Rightarrow> int \<times> int" where
  "iso_week day = week_of (fst (civil ((day + 3) div 7 * 7))) ((day + 3) div 7 * 7)"

lemma digit_chars:
  "digit_char 0 = CHR ''0''" "digit_char 1 = CHR ''1''" "digit_char 2 = CHR ''2''" "digit_char 3 = CHR ''3''"
  "digit_char 4 = CHR ''4''" "digit_char 5 = CHR ''5''" "digit_char 6 = CHR ''6''" "digit_char 7 = CHR ''7''"
  "digit_char 8 = CHR ''8''" "digit_char 9 = CHR ''9''" "digit_char (Suc 0) = CHR ''1''"
  by code_simp+

lemma calendar_samples:
  "date_text 0 = ''1970-01-01''" "date_text 20512 = ''2026-02-28''" "date_text 20513 = ''2026-03-01''"
  "date_text 11016 = ''2000-02-29''" "month_text 20819 = ''2027-01''" "month_text (-1) = ''1969-12''"
  "iso_week 20819 = (2026, 53)" "iso_week 20822 = (2027, 1)" "iso_week 20450 = (2025, 52)"
  by (simp_all add: date_text_def month_text_def iso_week_def week_of_def jan1_def civil_defs pad_def
      dec.simps digit_chars)

section \<open>Locations\<close>

record zone_span =
  zs_offset :: int
  zs_start :: int
  zs_end :: int

type_synonym location = "int \<Rightarrow> zone_span"

definition UTC :: location where
  "UTC t = \<lparr>zs_offset = 0, zs_start = - (2 ^ 63), zs_end = 2 ^ 63 - 1\<rparr>"

definition unix :: "time \<Rightarrow> int" where "unix t = t div second_ns"

definition wall_seconds :: "location \<Rightarrow> time \<Rightarrow> int" where
  "wall_seconds loc t = unix t + zs_offset (loc (unix t))"

definition local_day :: "location \<Rightarrow> time \<Rightarrow> int" where
  "local_day loc t = wall_seconds loc t div 86400"

definition local_minute :: "location \<Rightarrow> time \<Rightarrow> int" where
  "local_minute loc t = wall_seconds loc t mod 86400 div 60"

text \<open>\<open>time.Date\<close>: the wall time is looked up as if it were UTC, and once more when the instant that
  results is not in the span that was found.\<close>

definition Date :: "location \<Rightarrow> int \<Rightarrow> int \<Rightarrow> int \<Rightarrow> time" where
  "Date loc day hh mm =
    (let u = day * 86400 + hh * 3600 + mm * 60; z = loc u; utc = u - zs_offset z;
         off = (if zs_offset z = 0 then 0
                else if utc < zs_start z \<or> zs_end z \<le> utc then zs_offset (loc utc) else zs_offset z)
     in (u - off) * second_ns)"

section \<open>The daily schedule\<close>

fun advance :: "location \<Rightarrow> int \<Rightarrow> nat \<Rightarrow> time \<Rightarrow> time" where
  "advance loc want 0 runAt = runAt"
| "advance loc want (Suc n) runAt =
    (let wall = local_minute loc runAt in
     if want \<le> wall then runAt else advance loc want n (runAt + (want - wall) * minute_ns))"

definition DailyRunAt :: "time \<Rightarrow> int \<Rightarrow> int \<Rightarrow> location \<Rightarrow> time" where
  "DailyRunAt now hh mm loc =
    advance loc (hh * 60 + mm) 4 (Date loc (local_day loc now) hh mm)"

text \<open>\<open>strconv.Atoi\<close>: an optional sign and decimal digits, in 64 bits.\<close>

definition Atoi :: "string \<Rightarrow> int option" where
  "Atoi s =
    (let neg = (case s of [] \<Rightarrow> False | c # _ \<Rightarrow> c = CHR ''-'');
         ds = (case s of [] \<Rightarrow> [] | c # r \<Rightarrow> if c = CHR ''-'' \<or> c = CHR ''+'' then r else s);
         v = int (digits_value 0 ds); n = (if neg then - v else v)
     in if ds = [] \<or> \<not> list_all is_digit ds \<or> n < - (2 ^ 63) \<or> 2 ^ 63 \<le> n then None else Some n)"

datatype schedule_error = TimeNotHHMM | HourRange | MinuteRange | UnknownZone | BadJobName | NoFunction
  | EmptyPrefix | OutsidePrefix | DuplicateJob | MarkerUnreadable

definition ParseDailyTime :: "string \<Rightarrow> schedule_error + (int \<times> int)" where
  "ParseDailyTime v =
    (case split_on (CHR '':'') v of
       [a, b] \<Rightarrow>
        (case Atoi a of None \<Rightarrow> Inl HourRange
         | Some hh \<Rightarrow> if hh < 0 \<or> 23 < hh \<or> length a \<noteq> 2 then Inl HourRange
            else (case Atoi b of None \<Rightarrow> Inl MinuteRange
              | Some mm \<Rightarrow> if mm < 0 \<or> 59 < mm \<or> length b \<noteq> 2 then Inl MinuteRange else Inr (hh, mm)))
     | _ \<Rightarrow> Inl TimeNotHHMM)"

text \<open>\<open>LoadLocation\<close> over the database of zones.\<close>

definition LoadLocation :: "(string \<Rightarrow> location option) \<Rightarrow> string \<Rightarrow> schedule_error + location" where
  "LoadLocation zones name =
    (if name = '''' \<or> name = ''UTC'' then Inr UTC else from_option UnknownZone (zones name))"


section \<open>When the schedule runs\<close>

text \<open>A location around a change of its offset at second \<open>T\<close>, from \<open>a\<close> to \<open>b\<close>; between \<open>lo\<close> and \<open>hi\<close> there
  is no other change.\<close>

definition one_change :: "location \<Rightarrow> int \<Rightarrow> int \<Rightarrow> int \<Rightarrow> int \<Rightarrow> int \<Rightarrow> bool" where
  "one_change loc T a b lo hi \<longleftrightarrow> lo \<le> T \<and> T \<le> hi \<and>
     (\<forall>u. lo \<le> u \<and> u < T \<longrightarrow> zs_offset (loc u) = a \<and> zs_end (loc u) = T \<and> zs_start (loc u) \<le> lo) \<and>
     (\<forall>u. T \<le> u \<and> u < hi \<longrightarrow> zs_offset (loc u) = b \<and> zs_start (loc u) = T \<and> hi \<le> zs_end (loc u))"

lemma unix_seconds [simp]: "unix (u * second_ns) = u"
  by (simp add: unix_def second_ns_def)

lemma Date_one_change:
  assumes c: "one_change loc T a b lo hi" and L: "L = day * 86400 + hh * 3600 + mm * 60"
    and w: "lo + 86400 \<le> L" "L + 86400 < hi" "\<bar>a\<bar> < 86400" "\<bar>b\<bar> < 86400"
  shows "Date loc day hh mm = (L - (if L < T then (if L - a < T then a else b)
     else (if T \<le> L - b then b else a))) * second_ns"
proof (cases "L < T")
  case True
  then have z: "zs_offset (loc L) = a" "zs_end (loc L) = T" "zs_start (loc L) \<le> lo"
    using c w unfolding one_change_def by auto
  have "zs_offset (loc (L - a)) = b" if "\<not> L - a < T"
    using c w that unfolding one_change_def by auto
  then show ?thesis using True z w by (auto simp: Date_def Let_def L[symmetric])
next
  case False
  then have z: "zs_offset (loc L) = b" "zs_start (loc L) = T" "hi \<le> zs_end (loc L)"
    using c w unfolding one_change_def by auto
  have "zs_offset (loc (L - b)) = a" if "L - b < T"
    using c w that unfolding one_change_def by auto
  then show ?thesis using False z w by (auto simp: Date_def Let_def L[symmetric])
qed

lemma wall_one_change:
  assumes "one_change loc T a b lo hi" and "lo \<le> u" "u < hi"
  shows "wall_seconds loc (u * second_ns) = u + (if u < T then a else b)"
  using assms unfolding one_change_def wall_seconds_def by auto

lemma minute_of_wall:
  assumes "wall_seconds loc t = day * 86400 + m * 60" and "0 \<le> m" "m < 1440"
  shows "local_minute loc t = m" and "local_day loc t = day"
  using assms by (simp_all add: local_minute_def local_day_def)

lemma advance_done: "want \<le> local_minute loc t \<Longrightarrow> advance loc want n t = t"
  by (cases n) auto

lemma advance_step:
  "local_minute loc t < want \<Longrightarrow> t + (want - local_minute loc t) * minute_ns = t' \<Longrightarrow> want \<le> local_minute loc t' \<Longrightarrow>
     advance loc want 4 t = t'"
  by (simp add: numeral_eq_Suc Let_def)

text \<open>The daily run time around a change of the zone.  If the requested wall time exists on the local
  day, the job runs exactly then (once; of two occurrences the first one is taken when the wall time
  read as UTC lies before the change, the second one otherwise).  If it is skipped, and the skipped
  hour lies within the day, the job runs when the old clock would have shown it, later by the gap.\<close>

theorem daily_run_time:
  assumes c: "one_change loc T a b lo hi" and day: "local_day loc now = day"
    and t: "0 \<le> hh" "hh < 24" "0 \<le> mm" "mm < 60" and L: "L = day * 86400 + hh * 3600 + mm * 60"
    and w: "lo + 172800 \<le> L" "L + 172800 < hi" "\<bar>a\<bar> < 86400" "\<bar>b\<bar> < 86400"
  shows "if L - a < T \<or> T \<le> L - b
     then unix (DailyRunAt now hh mm loc) = (if L < T then (if L - a < T then L - a else L - b)
            else (if T \<le> L - b then L - b else L - a)) \<and>
          wall_seconds loc (DailyRunAt now hh mm loc) = L
     else (b - a) mod 60 = 0 \<and> day * 86400 \<le> L - (b - a) \<and> L + (b - a) < (day + 1) * 86400 \<longrightarrow>
          unix (DailyRunAt now hh mm loc) = L - a \<and>
          wall_seconds loc (DailyRunAt now hh mm loc) = L + (b - a)"
proof -
  let ?want = "hh * 60 + mm"
  have Lw: "L = day * 86400 + ?want * 60" using L by simp
  have want: "0 \<le> ?want" "?want < 1440" using t by auto
  note D = Date_one_change[OF c L] and W = wall_one_change[OF c]
  show ?thesis
  proof (cases "L - a < T \<or> T \<le> L - b")
    case True
    let ?off = "if L < T then (if L - a < T then a else b) else (if T \<le> L - b then b else a)"
    have date: "Date loc day hh mm = (L - ?off) * second_ns" using D w by simp
    have off: "?off = a \<and> L - a < T \<or> ?off = b \<and> T \<le> L - b" using True by auto
    have in_range: "lo \<le> L - ?off" "L - ?off < hi" using w by auto
    have wall: "wall_seconds loc ((L - ?off) * second_ns) = L" using W[OF in_range] off by auto
    have lm: "local_minute loc ((L - ?off) * second_ns) = ?want"
      by (rule minute_of_wall(1)[OF wall[unfolded Lw[symmetric], THEN trans, OF Lw] want])
    have "DailyRunAt now hh mm loc = (L - ?off) * second_ns"
      unfolding DailyRunAt_def day date by (rule advance_done) (simp only: lm order_refl)
    then have r: "unix (DailyRunAt now hh mm loc) = L - ?off" "wall_seconds loc (DailyRunAt now hh mm loc) = L"
      using wall by simp_all
    have "L - ?off = (if L < T then (if L - a < T then L - a else L - b) else (if T \<le> L - b then L - b else L - a))"
      by simp
    with r True show ?thesis by simp
  next
    case False
    show ?thesis
    proof (simp only: False if_False, intro impI)
      assume g: "(b - a) mod 60 = 0 \<and> day * 86400 \<le> L - (b - a) \<and> L + (b - a) < (day + 1) * 86400"
      have gap: "0 < b - a" using False by auto
      obtain k where k: "b - a = k * 60" using g by (metis dvd_div_mult_self mod_0_imp_dvd)
      have late: "wall_seconds loc ((L - a) * second_ns) = day * 86400 + (?want + k) * 60"
        using W[of "L - a"] w False k Lw by auto
      have lm: "local_minute loc ((L - a) * second_ns) = ?want + k"
        by (rule minute_of_wall(1)[OF late]) (use g gap k Lw want in auto)
      have "DailyRunAt now hh mm loc = (L - a) * second_ns"
      proof (cases "L < T")
        case True
        have date: "Date loc day hh mm = (L - b) * second_ns" using D w True False by simp
        have early: "wall_seconds loc ((L - b) * second_ns) = day * 86400 + (?want - k) * 60"
          using W[of "L - b"] w False k Lw by auto
        have em: "local_minute loc ((L - b) * second_ns) = ?want - k"
          by (rule minute_of_wall(1)[OF early]) (use g gap k Lw want in auto)
        have step: "(L - b) * second_ns + (?want - (?want - k)) * minute_ns = (L - a) * second_ns"
          using k by (simp add: minute_ns_def second_ns_def algebra_simps)
        show ?thesis unfolding DailyRunAt_def day date
          by (rule advance_step) (use em lm gap k step in auto)
      next
        case F2: False
        have date: "Date loc day hh mm = (L - a) * second_ns" using D w F2 False by simp
        show ?thesis unfolding DailyRunAt_def day date
          by (rule advance_done) (use lm gap k in simp)
      qed
      then show "unix (DailyRunAt now hh mm loc) = L - a \<and>
          wall_seconds loc (DailyRunAt now hh mm loc) = L + (b - a)"
        using late k Lw by simp
    qed
  qed
qed

section \<open>Two changes of offset\<close>

definition change_zone :: "int \<Rightarrow> int \<Rightarrow> int \<Rightarrow> location" where
  "change_zone T a b u =
    (if u < T then \<lparr>zs_offset = a, zs_start = - (2 ^ 62), zs_end = T\<rparr>
     else \<lparr>zs_offset = b, zs_start = T, zs_end = 2 ^ 62\<rparr>)"

lemma change_zone_one: "- (2 ^ 62) \<le> T \<Longrightarrow> T \<le> 2 ^ 62 \<Longrightarrow> one_change (change_zone T a b) T a b (- (2 ^ 62)) (2 ^ 62)"
  by (simp add: one_change_def change_zone_def)

text \<open>New York on 8 March 2026 (day 20520): at 07:00 UTC the clock goes from 02:00 to 03:00.  Berlin on
  25 October 2026 (day 20751): at 01:00 UTC it goes from 03:00 back to 02:00.\<close>

definition new_york :: location where "new_york = change_zone (20520 * 86400 + 25200) (- 18000) (- 14400)"
definition berlin :: location where "berlin = change_zone (20751 * 86400 + 3600) 7200 3600"

text \<open>A job of 02:30 runs at 03:30 in New York, and in Berlin at the second 02:30, in winter time.\<close>

theorem daily_run_time_witness:
  "unix (DailyRunAt ((20520 * 86400 + 50000) * second_ns) 2 30 new_york) = 20520 * 86400 + 7 * 3600 + 1800 \<and>
   unix (DailyRunAt ((20751 * 86400 + 50000) * second_ns) 2 30 berlin) = 20751 * 86400 + 1 * 3600 + 1800"
proof -
  have ny: "one_change new_york (20520 * 86400 + 25200) (- 18000) (- 14400) (- (2 ^ 62)) (2 ^ 62)"
    unfolding new_york_def by (rule change_zone_one) simp_all
  have be: "one_change berlin (20751 * 86400 + 3600) 7200 3600 (- (2 ^ 62)) (2 ^ 62)"
    unfolding berlin_def by (rule change_zone_one) simp_all
  have d1: "local_day new_york ((20520 * 86400 + 50000) * second_ns) = 20520"
    by (simp only: local_day_def wall_seconds_def unix_seconds) (simp add: new_york_def change_zone_def)
  have d2: "local_day berlin ((20751 * 86400 + 50000) * second_ns) = 20751"
    by (simp only: local_day_def wall_seconds_def unix_seconds) (simp add: berlin_def change_zone_def)
  show ?thesis
    using daily_run_time[OF ny d1, of 2 30 "20520 * 86400 + 9000"]
      daily_run_time[OF be d2, of 2 30 "20751 * 86400 + 9000"] by simp
qed

section \<open>The schedule in UTC\<close>

lemma wall_UTC [simp]: "wall_seconds UTC t = unix t"
  by (simp add: wall_seconds_def UTC_def)

lemma DailyRunAt_UTC:
  assumes "0 \<le> hh" "hh < 24" "0 \<le> mm" "mm < 60"
  shows "DailyRunAt now hh mm UTC = (local_day UTC now * 86400 + hh * 3600 + mm * 60) * second_ns"
proof -
  let ?t = "(local_day UTC now * 86400 + hh * 3600 + mm * 60) * second_ns"
  have "Date UTC (local_day UTC now) hh mm = ?t" by (simp add: Date_def UTC_def)
  moreover have "wall_seconds UTC ?t = local_day UTC now * 86400 + (hh * 60 + mm) * 60" by simp
  from minute_of_wall(1)[OF this] assms have "local_minute UTC ?t = hh * 60 + mm" by simp
  ultimately show ?thesis unfolding DailyRunAt_def by (simp add: advance_done)
qed

end
