(* ===== verification/Scheduler.thy ===== *)
theory Scheduler
  imports Clock
begin

text \<open>
  \<open>scheduler/scheduler.go\<close>: job registration, the reload of a group of jobs, the decision whether a job
  is due, the evaluation of a job under its guard, and the marker of the last run in
  \<open>app_settings\<close>.  An evaluation is split where other goroutines can run: before the function of
  the job, after it, after the marker was stored.  What the function of a job does is its outcome
  and its effect on the database; clock readings and faults of the two marker statements are
  arguments.
\<close>

section \<open>Jobs\<close>

record job =
  jb_name :: string
  jb_tz :: string
  jb_daily :: string
  jb_fn :: bool

record run_result =
  rr_job :: string
  rr_status :: string
  rr_ran :: bool
  rr_started :: time
  rr_finished :: time
  rr_detail :: string

record sched =
  sc_jobs :: "(string \<times> job) list"
  sc_running :: "string list"
  sc_last :: "(string \<times> run_result) list"
  sc_db :: db

record sched_env =
  se_zones :: "string \<Rightarrow> location option"
  se_prefix :: string

definition New :: "db \<Rightarrow> sched" where
  "New d = \<lparr>sc_jobs = [], sc_running = [], sc_last = [], sc_db = d\<rparr>"

definition validateJob :: "sched_env \<Rightarrow> job \<Rightarrow> schedule_error + unit" where
  "validateJob E j =
    (if jb_name j = '''' \<or> list_ex (\<lambda>c. c \<in> set [CHR '' '', CHR 0x09, CHR 0x0A]) (jb_name j) then Inl BadJobName
     else if \<not> jb_fn j then Inl NoFunction
     else andthen (if jb_daily j = '''' then Inr (0, 0) else ParseDailyTime (jb_daily j)) (\<lambda>_.
          andthen (LoadLocation (se_zones E) (jb_tz j)) (\<lambda>_. Inr ())))"

definition job_put :: "job \<Rightarrow> (string \<times> job) list \<Rightarrow> (string \<times> job) list" where
  "job_put j js = (jb_name j, j) # filter (\<lambda>e. fst e \<noteq> jb_name j) js"

definition Register :: "sched_env \<Rightarrow> job \<Rightarrow> sched \<Rightarrow> schedule_error + sched" where
  "Register E j s = andthen (validateJob E j) (\<lambda>_. Inr (s\<lparr>sc_jobs := job_put j (sc_jobs s)\<rparr>))"

fun replacement :: "sched_env \<Rightarrow> string \<Rightarrow> (string \<times> job) list \<Rightarrow> job list \<Rightarrow> schedule_error + (string \<times> job) list" where
  "replacement E prefix acc [] = Inr acc"
| "replacement E prefix acc (j # js) =
    (if \<not> has_prefix prefix (jb_name j) then Inl OutsidePrefix
     else andthen (validateJob E j) (\<lambda>_.
          if jb_name j \<in> fst ` set acc then Inl DuplicateJob
          else replacement E prefix ((jb_name j, j) # acc) js))"

definition ReloadPrefix :: "sched_env \<Rightarrow> string \<Rightarrow> job list \<Rightarrow> sched \<Rightarrow> schedule_error + sched" where
  "ReloadPrefix E prefix js s =
    (if prefix = '''' then Inl EmptyPrefix
     else andthen (replacement E prefix [] js) (\<lambda>new.
       Inr (s\<lparr>sc_jobs := new @ filter (\<lambda>e. \<not> has_prefix prefix (fst e)) (sc_jobs s),
              sc_last := filter (\<lambda>e. has_prefix prefix (fst e) \<longrightarrow> fst e \<in> fst ` set new) (sc_last s)\<rparr>)))"

section \<open>The marker of the last run\<close>

definition markerKey :: "sched_env \<Rightarrow> string \<Rightarrow> string" where
  "markerKey E name = se_prefix E @ ''.lastrun.'' @ name"

text \<open>\<open>rd\<close> and \<open>wr\<close> say that the statement succeeds.\<close>

definition lastRunKey :: "sched_env \<Rightarrow> bool \<Rightarrow> string \<Rightarrow> db \<Rightarrow> schedule_error + string" where
  "lastRunKey E rd name d =
    (if \<not> rd then Inl MarkerUnreadable
     else case kv_get (markerKey E name) (settings d) of None \<Rightarrow> Inr '''' | Some v \<Rightarrow> Inr v)"

definition rememberRun :: "sched_env \<Rightarrow> bool \<Rightarrow> string \<Rightarrow> string \<Rightarrow> db \<Rightarrow> db" where
  "rememberRun E wr name key d =
    (if wr then d\<lparr>settings := kv_put (markerKey E name) key (settings d)\<rparr> else d)"

definition isDue :: "sched_env \<Rightarrow> bool \<Rightarrow> job \<Rightarrow> time \<Rightarrow> db \<Rightarrow> schedule_error + (bool \<times> string)" where
  "isDue E rd j now d =
    (if jb_daily j = '''' then Inr (False, '''')
     else andthen (ParseDailyTime (jb_daily j)) (\<lambda>(hh, mm).
          andthen (LoadLocation (se_zones E) (jb_tz j)) (\<lambda>loc.
          let runAt = DailyRunAt now hh mm loc; key = date_text (local_day loc runAt) in
          if now < runAt then Inr (False, key)
          else andthen (lastRunKey E rd (jb_name j) d) (\<lambda>last. Inr (key \<noteq> last, key)))))"

section \<open>Evaluation\<close>

definition record_result :: "string \<Rightarrow> run_result \<Rightarrow> sched \<Rightarrow> sched" where
  "record_result name r s = s\<lparr>sc_last := (name, r) # filter (\<lambda>e. fst e \<noteq> name) (sc_last s)\<rparr>"

definition bookkeeping :: "job \<Rightarrow> string \<Rightarrow> string \<Rightarrow> time \<Rightarrow> run_result" where
  "bookkeeping j status detail now = \<lparr>rr_job = jb_name j, rr_status = status, rr_ran = False,
     rr_started = now, rr_finished = now, rr_detail = detail\<rparr>"

datatype begun = Answered run_result | NotDue | Started string

definition evaluate_begin :: "sched_env \<Rightarrow> bool \<Rightarrow> job \<Rightarrow> time \<Rightarrow> sched \<Rightarrow> begun \<times> sched" where
  "evaluate_begin E rd j now s =
    (if jb_name j \<in> set (sc_running s) then
       let r = bookkeeping j ''skipped'' ''busy'' now in (Answered r, record_result (jb_name j) r s)
     else case isDue E rd j now (sc_db s) of
       Inl _ \<Rightarrow> let r = bookkeeping j ''failed'' ''schedule evaluation failed'' now
                in (Answered r, record_result (jb_name j) r s)
     | Inr (due, key) \<Rightarrow>
         if \<not> due then (NotDue, s)
         else (Started key, s\<lparr>sc_running := jb_name j # sc_running s\<rparr>))"

datatype job_outcome = JobReturns | JobBusy | JobFails | JobPanics

definition runJob :: "job \<Rightarrow> job_outcome \<Rightarrow> time \<Rightarrow> time \<Rightarrow> run_result" where
  "runJob j oc t0 t1 =
    (case oc of
       JobReturns \<Rightarrow> \<lparr>rr_job = jb_name j, rr_status = ''succeeded'', rr_ran = True, rr_started = t0, rr_finished = t1, rr_detail = ''''\<rparr>
     | JobBusy \<Rightarrow> \<lparr>rr_job = jb_name j, rr_status = ''skipped'', rr_ran = False, rr_started = t0, rr_finished = t1, rr_detail = ''busy''\<rparr>
     | JobFails \<Rightarrow> \<lparr>rr_job = jb_name j, rr_status = ''failed'', rr_ran = True, rr_started = t0, rr_finished = t1, rr_detail = ''job failed''\<rparr>
     | JobPanics \<Rightarrow> \<lparr>rr_job = jb_name j, rr_status = ''failed'', rr_ran = True, rr_started = t0, rr_finished = t1,
           rr_detail = ''background job panicked''\<rparr>)"

definition evaluate_remember :: "sched_env \<Rightarrow> bool \<Rightarrow> job \<Rightarrow> string \<Rightarrow> run_result \<Rightarrow> sched \<Rightarrow> sched" where
  "evaluate_remember E wr j key r s =
    (if rr_ran r then s\<lparr>sc_db := rememberRun E wr (jb_name j) key (sc_db s)\<rparr> else s)"

definition evaluate_release :: "job \<Rightarrow> sched \<Rightarrow> sched" where
  "evaluate_release j s = s\<lparr>sc_running := removeAll (jb_name j) (sc_running s)\<rparr>"

text \<open>The whole evaluation of a job, and of all jobs in some order, when nothing else runs.\<close>

record evaluation =
  ev_rd :: bool
  ev_wr :: bool
  ev_now :: time
  ev_t0 :: time
  ev_t1 :: time

definition evaluateJob ::
  "sched_env \<Rightarrow> (string \<Rightarrow> db \<Rightarrow> job_outcome \<times> db) \<Rightarrow> evaluation \<Rightarrow> job \<Rightarrow> sched \<Rightarrow> run_result option \<times> sched" where
  "evaluateJob E fn v j s =
    (case evaluate_begin E (ev_rd v) j (ev_now v) s of
       (Answered r, s1) \<Rightarrow> (Some r, s1)
     | (NotDue, s1) \<Rightarrow> (None, s1)
     | (Started key, s1) \<Rightarrow>
        (let (oc, d) = fn (jb_name j) (sc_db s1); r = runJob j oc (ev_t0 v) (ev_t1 v);
             s2 = record_result (jb_name j) r (s1\<lparr>sc_db := d\<rparr>)
         in (Some r, evaluate_release j (evaluate_remember E (ev_wr v) j key r s2))))"

fun evaluate_all ::
  "sched_env \<Rightarrow> (string \<Rightarrow> db \<Rightarrow> job_outcome \<times> db) \<Rightarrow> evaluation \<Rightarrow> job list \<Rightarrow> sched \<Rightarrow> run_result list \<times> sched" where
  "evaluate_all E fn v [] s = ([], s)"
| "evaluate_all E fn v (j # js) s =
    (let (r, s1) = evaluateJob E fn v j s; (rs, s2) = evaluate_all E fn v js s1
     in ((case r of None \<Rightarrow> rs | Some x \<Rightarrow> x # rs), s2))"

definition Evaluate ::
  "sched_env \<Rightarrow> (string \<Rightarrow> db \<Rightarrow> job_outcome \<times> db) \<Rightarrow> evaluation \<Rightarrow> sched \<Rightarrow> run_result list \<times> sched" where
  "Evaluate E fn v s = evaluate_all E fn v (map snd (sc_jobs s)) s"

definition Results :: "sched \<Rightarrow> run_result list" where
  "Results s = map (\<lambda>n. the (map_of (sc_last s) n)) (sort (map fst (sc_last s)))"

definition LastResult :: "string \<Rightarrow> sched \<Rightarrow> run_result option" where
  "LastResult name s = map_of (sc_last s) name"

section \<open>Concurrent evaluations\<close>

text \<open>
  A call of \<open>evaluateJob\<close> in flight is its job, its key and its stage.  The log lists the executed runs,
  newest first: job, key, and whether the marker was stored.  Jobs may be registered or reloaded, the
  rest of the program may write everything but the markers, and the process may die and
  start again with the database as it is.
\<close>

datatype stage = Busy | Returned run_result | Stored

type_synonym flight = "(job \<times> string \<times> stage) list"
type_synonym runlog = "(string \<times> string \<times> bool) list"

definition same_markers :: "sched_env \<Rightarrow> db \<Rightarrow> db \<Rightarrow> bool" where
  "same_markers E d d' \<longleftrightarrow> (\<forall>n. kv_get (markerKey E n) (settings d') = kv_get (markerKey E n) (settings d))"

inductive sched_step :: "sched_env \<Rightarrow> sched \<times> flight \<times> runlog \<Rightarrow> sched \<times> flight \<times> runlog \<Rightarrow> bool" for E where
  start: "evaluate_begin E rd j now s = (Started key, s') \<Longrightarrow>
     sched_step E (s, fl, log) (s', (j, key, Busy) # fl, log)"
| answer: "evaluate_begin E rd j now s = (b, s') \<Longrightarrow> \<forall>key. b \<noteq> Started key \<Longrightarrow>
     sched_step E (s, fl, log) (s', fl, log)"
| return: "i < length fl \<Longrightarrow> fl ! i = (j, key, Busy) \<Longrightarrow> same_markers E (sc_db s) d \<Longrightarrow>
     r = runJob j oc t0 t1 \<Longrightarrow>
     sched_step E (s, fl, log) (record_result (jb_name j) r (s\<lparr>sc_db := d\<rparr>), fl[i := (j, key, Returned r)], log)"
| remember: "i < length fl \<Longrightarrow> fl ! i = (j, key, Returned r) \<Longrightarrow>
     sched_step E (s, fl, log) (evaluate_remember E wr j key r s, fl[i := (j, key, Stored)],
       if rr_ran r then (jb_name j, key, wr) # log else log)"
| release: "i < length fl \<Longrightarrow> fl ! i = (j, key, Stored) \<Longrightarrow>
     sched_step E (s, fl, log) (evaluate_release j s, take i fl @ drop (Suc i) fl, log)"
| register: "Register E j s = Inr s' \<Longrightarrow> sched_step E (s, fl, log) (s', fl, log)"
| reload: "ReloadPrefix E prefix js s = Inr s' \<Longrightarrow> sched_step E (s, fl, log) (s', fl, log)"
| work: "same_markers E (sc_db s) d \<Longrightarrow> sched_step E (s, fl, log) (s\<lparr>sc_db := d\<rparr>, fl, log)"
| restart: "sched_step E (s, fl, log) (New (sc_db s), [], log)"

fun flight_name :: "job \<times> string \<times> stage \<Rightarrow> string" where
  "flight_name (j, key, st) = jb_name j"

definition runs_of :: "string \<Rightarrow> runlog \<Rightarrow> (string \<times> bool) list" where
  "runs_of n log = map snd (filter (\<lambda>e. fst e = n) log)"

text \<open>No two neighbours with the same key, unless the marker of the earlier one was lost.\<close>

fun no_rerun :: "(string \<times> bool) list \<Rightarrow> bool" where
  "no_rerun (a # b # r) \<longleftrightarrow> (fst a = fst b \<longrightarrow> \<not> snd b) \<and> no_rerun (b # r)"
| "no_rerun _ \<longleftrightarrow> True"

definition sched_inv :: "sched_env \<Rightarrow> sched \<times> flight \<times> runlog \<Rightarrow> bool" where
  "sched_inv E x \<longleftrightarrow> (case x of (s, fl, log) \<Rightarrow>
     distinct (map flight_name fl) \<and> set (sc_running s) = flight_name ` set fl \<and>
     (\<forall>j key st. (j, key, st) \<in> set fl \<longrightarrow> st \<noteq> Stored \<longrightarrow>
        kv_get (markerKey E (jb_name j)) (settings (sc_db s)) \<noteq> Some key) \<and>
     (\<forall>n. no_rerun (runs_of n log)) \<and>
     (\<forall>n key rest. runs_of n log = (key, True) # rest \<longrightarrow>
        kv_get (markerKey E n) (settings (sc_db s)) = Some key))"

lemma markerKey_inject [simp]: "markerKey E n = markerKey E m \<longleftrightarrow> n = m"
  by (simp add: markerKey_def)

lemma evaluate_begin_StartedD:
  assumes "evaluate_begin E rd j now s = (Started key, s')"
  shows "jb_name j \<notin> set (sc_running s) \<and> s' = s\<lparr>sc_running := jb_name j # sc_running s\<rparr> \<and>
     kv_get (markerKey E (jb_name j)) (settings (sc_db s)) \<noteq> Some key"
  using assms
  by (auto simp: evaluate_begin_def isDue_def lastRunKey_def Let_def result_Inr
      split: if_splits sum.splits prod.splits option.splits)

lemma evaluate_begin_other:
  "evaluate_begin E rd j now s = (b, s') \<Longrightarrow> \<forall>key. b \<noteq> Started key \<Longrightarrow>
     sc_running s' = sc_running s \<and> sc_db s' = sc_db s"
  by (auto simp: evaluate_begin_def Let_def record_result_def split: if_splits sum.splits prod.splits)

lemma Register_frame: "Register E j s = Inr s' \<Longrightarrow> sc_running s' = sc_running s \<and> sc_db s' = sc_db s"
  by (auto simp: Register_def result_Inr)

lemma ReloadPrefix_frame: "ReloadPrefix E prefix js s = Inr s' \<Longrightarrow> sc_running s' = sc_running s \<and> sc_db s' = sc_db s"
  by (auto simp: ReloadPrefix_def result_Inr split: if_splits)

lemma sched_inv_frame:
  "sched_inv E (s, fl, log) \<Longrightarrow> sc_running s' = sc_running s \<Longrightarrow> same_markers E (sc_db s) (sc_db s') \<Longrightarrow>
     sched_inv E (s', fl, log)"
  by (simp add: sched_inv_def same_markers_def)

lemma same_markers_refl [simp]: "same_markers E d d" by (simp add: same_markers_def)

lemma update_stage:
  assumes "i < length fl" and "fl ! i = (j, key, st)"
  shows "map flight_name (fl[i := (j, key, st')]) = map flight_name fl"
    and "set (fl[i := (j, key, st')]) \<subseteq> insert (j, key, st') (set fl)"
    and "distinct (map flight_name fl) \<Longrightarrow> y \<in> set (fl[i := (j, key, st')]) \<Longrightarrow>
       y \<noteq> (j, key, st') \<Longrightarrow> y \<in> set fl \<and> flight_name y \<noteq> jb_name j"
proof -
  show m: "map flight_name (fl[i := (j, key, st')]) = map flight_name fl"
    using assms by (simp add: list_update_same_conv map_update)
  show "set (fl[i := (j, key, st')]) \<subseteq> insert (j, key, st') (set fl)"
    by (rule set_update_subset_insert)
  assume d: "distinct (map flight_name fl)" and y: "y \<in> set (fl[i := (j, key, st')])" "y \<noteq> (j, key, st')"
  from y obtain k where k: "k < length fl" "y = fl[i := (j, key, st')] ! k" by (auto simp: in_set_conv_nth)
  with y(2) assms have "k \<noteq> i" "y = fl ! k" by (auto simp: nth_list_update split: if_splits)
  with d k assms have "map flight_name fl ! k \<noteq> map flight_name fl ! i"
    by (simp only: distinct_conv_nth length_map) blast
  then have "flight_name y \<noteq> flight_name (fl ! i)" using \<open>y = fl ! k\<close> k assms by simp
  with \<open>y = fl ! k\<close> k assms show "y \<in> set fl \<and> flight_name y \<noteq> jb_name j" by simp
qed

lemma sched_step_inv:
  assumes "sched_step E x y" and "sched_inv E x"
  shows "sched_inv E y"
  using assms
proof (induction rule: sched_step.induct)
  case (start rd j now s key s' fl log)
  from evaluate_begin_StartedD[OF start(1)] start(2) show ?case
    by (auto simp: sched_inv_def)
next
  case (answer rd j now s b s' fl log)
  show ?case by (rule sched_inv_frame[OF answer(3)]) (use evaluate_begin_other[OF answer(1,2)] in auto)
next
  case (return i fl j key s d r oc t0 t1 log)
  note U = update_stage[OF return(1,2), where st' = "Returned r"]
  have old: "(j, key, Busy) \<in> set fl" using return(1,2) nth_mem by metis
  from return(5) have inv: "sched_inv E (s\<lparr>sc_db := d\<rparr>, fl, log)"
    by (rule sched_inv_frame) (use return(3) in simp_all)
  have "kv_get (markerKey E (jb_name j')) (settings d) \<noteq> Some key'"
    if "(j', key', st) \<in> set (fl[i := (j, key, Returned r)])" "st \<noteq> Stored" for j' key' st
    using that U(2) old inv by (auto simp: sched_inv_def)
  moreover have "flight_name ` set (fl[i := (j, key, Returned r)]) = flight_name ` set fl"
    using U(1) by (metis list.set_map)
  ultimately show ?case using inv U(1) by (auto simp: sched_inv_def record_result_def)
next
  case (remember i fl j key r s log wr)
  note U = update_stage[OF remember(1,2), where st' = Stored]
  have old: "(j, key, Returned r) \<in> set fl" using remember(1,2) nth_mem by metis
  let ?s = "evaluate_remember E wr j key r s" and ?log = "if rr_ran r then (jb_name j, key, wr) # log else log"
  have d: "distinct (map flight_name fl)" using remember(3) by (simp add: sched_inv_def)
  have mk: "kv_get (markerKey E n) (settings (sc_db ?s)) =
      (if n = jb_name j \<and> rr_ran r \<and> wr then Some key else kv_get (markerKey E n) (settings (sc_db s)))" for n
    by (simp add: evaluate_remember_def rememberRun_def)
  have fresh: "kv_get (markerKey E (jb_name j)) (settings (sc_db s)) \<noteq> Some key"
    using remember(3) old by (auto simp: sched_inv_def)
  have "kv_get (markerKey E (jb_name j')) (settings (sc_db ?s)) \<noteq> Some key'"
    if "(j', key', st) \<in> set (fl[i := (j, key, Stored)])" "st \<noteq> Stored" for j' key' st
    using U(3)[OF d that(1)] that(2) remember(3) unfolding mk by (auto simp: sched_inv_def)
  moreover have "no_rerun (runs_of n ?log) \<and> (\<forall>k rest. runs_of n ?log = (k, True) # rest \<longrightarrow>
           kv_get (markerKey E n) (settings (sc_db ?s)) = Some k)" for n
  proof (cases "n = jb_name j \<and> rr_ran r")
    case False
    then have "runs_of n ?log = runs_of n log" by (auto simp: runs_of_def)
    moreover have "kv_get (markerKey E n) (settings (sc_db ?s)) = kv_get (markerKey E n) (settings (sc_db s))"
      using False unfolding mk by auto
    ultimately show ?thesis using remember(3) by (simp add: sched_inv_def)
  next
    case True
    then have l: "runs_of n ?log = (key, wr) # runs_of n log" by (simp add: runs_of_def)
    from remember(3) have p: "no_rerun (runs_of n log)" "\<And>k rest. runs_of n log = (k, True) # rest \<Longrightarrow>
           kv_get (markerKey E n) (settings (sc_db s)) = Some k" by (auto simp: sched_inv_def)
    have "no_rerun ((key, wr) # runs_of n log)"
    proof (cases "runs_of n log")
      case (Cons e r)
      with p(1) p(2)[of "fst e" r] fresh True show ?thesis by (cases e) auto
    qed simp
    then show ?thesis using True unfolding l mk by simp
  qed
  moreover have "flight_name ` set (fl[i := (j, key, Stored)]) = flight_name ` set fl"
    using U(1) by (metis list.set_map)
  moreover have "sc_running ?s = sc_running s" by (simp add: evaluate_remember_def)
  ultimately show ?case using remember(3) U(1) d by (auto simp: sched_inv_def)
next
  case (release i fl j key s log)
  from release(3) have d: "distinct (map flight_name fl)" by (simp add: sched_inv_def)
  have fl: "fl = take i fl @ (j, key, Stored) # drop (Suc i) fl"
    using release(1,2) by (metis id_take_nth_drop)
  from d have "jb_name j \<notin> flight_name ` set (take i fl @ drop (Suc i) fl)"
    by (subst (asm) fl) auto
  moreover have "set fl = insert (j, key, Stored) (set (take i fl @ drop (Suc i) fl))"
    by (subst fl) auto
  moreover have "distinct (map flight_name (take i fl @ drop (Suc i) fl))"
    using d by (subst (asm) fl) auto
  ultimately show ?case using release(3)
    by (auto simp: sched_inv_def evaluate_release_def)
next
  case (register j s s' fl log)
  show ?case by (rule sched_inv_frame[OF register(2)]) (use Register_frame[OF register(1)] in auto)
next
  case (reload prefix js s s' fl log)
  show ?case by (rule sched_inv_frame[OF reload(2)]) (use ReloadPrefix_frame[OF reload(1)] in auto)
next
  case (work s d fl log)
  show ?case by (rule sched_inv_frame[OF work(2)]) (use work(1) in auto)
next
  case (restart s fl log)
  then show ?case by (auto simp: sched_inv_def New_def)
qed

interpretation scheduler: invariant_system "sched_step E" "sched_inv E" for E
  by unfold_locales (rule sched_step_inv)

lemma sched_inv_New: "sched_inv E (New d, [], [])"
  by (simp add: sched_inv_def New_def runs_of_def)

section \<open>Properties\<close>

lemma no_rerun_distinct:
  assumes "no_rerun l" and "\<forall>e \<in> set l. snd e" and "sorted (rev (map fst l))"
  shows "distinct (map fst l)"
proof -
  have "sorted_wrt (\<lambda>a b. b < a) (map fst l)"
    using assms
  proof (induction l rule: no_rerun.induct)
    case (1 a b r)
    then have s: "sorted_wrt (\<lambda>a b. b < a) (map fst (b # r))"
      by (simp add: sorted_append)
    moreover have "fst b \<le> fst a" using 1(4) by (simp add: sorted_append)
    moreover have "fst a \<noteq> fst b" using 1(2,3) by auto
    ultimately have s: "sorted_wrt (\<lambda>a b. b < a) (map fst (b # r))" and "fst b < fst a" by auto
    then show ?case by (auto intro: less_trans)
  qed auto
  then show ?thesis by (induction l) auto
qed


lemma isDue_when:
  assumes "jb_daily j \<noteq> ''''" and "ParseDailyTime (jb_daily j) = Inr (hh, mm)"
    and "LoadLocation (se_zones E) (jb_tz j) = Inr loc" and "DailyRunAt now hh mm loc \<le> now"
    and "key = date_text (local_day loc (DailyRunAt now hh mm loc))"
  shows "isDue E True j now d = Inr (kv_get (markerKey E (jb_name j)) (settings d) \<noteq> Some key, key)"
proof -
  have "key \<noteq> ''''" unfolding assms(5) date_text_def by (simp split: prod.splits)
  then show ?thesis using assms by (auto simp: isDue_def Let_def lastRunKey_def split: option.splits)
qed

text \<open>A run that was missed is caught up, once.  When the run time of today has passed, the job is not
  running and the marker is not today's (after downtime of any length, too), the evaluation executes the
  job and leaves today's marker, and from then on every evaluation for the same date does nothing,
  whatever the job returned (only a busy one is tried again).\<close>

theorem missed_run_caught_up:
  assumes "jb_daily j \<noteq> ''''" and "ParseDailyTime (jb_daily j) = Inr (hh, mm)"
    and "LoadLocation (se_zones E) (jb_tz j) = Inr loc" and "DailyRunAt (ev_now v) hh mm loc \<le> ev_now v"
    and "key = date_text (local_day loc (DailyRunAt (ev_now v) hh mm loc))"
    and "kv_get (markerKey E (jb_name j)) (settings (sc_db s)) \<noteq> Some key" and "jb_name j \<notin> set (sc_running s)"
    and "ev_rd v" and "ev_wr v" and "fst (fn (jb_name j) (sc_db s)) \<noteq> JobBusy"
    and "evaluateJob E fn v j s = (res, s')"
  shows "(\<exists>r. res = Some r \<and> rr_ran r) \<and> sc_running s' = sc_running s \<and>
     kv_get (markerKey E (jb_name j)) (settings (sc_db s')) = Some key \<and>
     (\<forall>v'. ev_rd v' \<and> DailyRunAt (ev_now v') hh mm loc \<le> ev_now v' \<and>
        date_text (local_day loc (DailyRunAt (ev_now v') hh mm loc)) = key \<longrightarrow> evaluateJob E fn v' j s' = (None, s'))"
proof -
  obtain oc d where f: "fn (jb_name j) (sc_db s) = (oc, d)" and oc: "oc \<noteq> JobBusy"
    using assms(10) by (cases "fn (jb_name j) (sc_db s)") auto
  have ran: "rr_ran (runJob j oc t0 t1)" for t0 t1 using oc by (cases oc) (auto simp: runJob_def)
  have "evaluate_begin E (ev_rd v) j (ev_now v) s = (Started key, s\<lparr>sc_running := jb_name j # sc_running s\<rparr>)"
    using isDue_when[OF assms(1-5), of "sc_db s"] assms(6-8) by (simp add: evaluate_begin_def)
  then have s': "res = Some (runJob j oc (ev_t0 v) (ev_t1 v))" "sc_running s' = sc_running s"
    "kv_get (markerKey E (jb_name j)) (settings (sc_db s')) = Some key"
    using assms(7,9,11) f ran
    by (auto simp: evaluateJob_def Let_def evaluate_release_def evaluate_remember_def record_result_def
        rememberRun_def)
  have "evaluateJob E fn v' j s' = (None, s')"
    if "ev_rd v'" "DailyRunAt (ev_now v') hh mm loc \<le> ev_now v'"
      "date_text (local_day loc (DailyRunAt (ev_now v') hh mm loc)) = key" for v'
    using isDue_when[OF assms(1-3) that(2) that(3)[symmetric], of "sc_db s'"] that(1) s' assms(7)
    by (simp add: evaluateJob_def evaluate_begin_def)
  with s' ran show ?thesis by auto
qed

lemma replacement_InrD:
  assumes "replacement E p acc js = Inr new"
  shows "new = rev (map (\<lambda>j. (jb_name j, j)) js) @ acc \<and> (\<forall>j \<in> set js. has_prefix p (jb_name j) \<and> validateJob E j = Inr ()) \<and>
     (distinct (map fst acc) \<longrightarrow> distinct (map fst new))"
  using assms
proof (induction E p acc js rule: replacement.induct)
  case (2 E prefix acc j js)
  from 2(2) have p: "has_prefix prefix (jb_name j)" and v: "validateJob E j = Inr ()"
    and n: "jb_name j \<notin> fst ` set acc" and r: "replacement E prefix ((jb_name j, j) # acc) js = Inr new"
    by (auto simp: result_Inr split: if_splits)
  have p': "\<not> \<not> has_prefix prefix (jb_name j)" using p by simp
  note IH = 2(1)[OF p' n r]
  from IH have "distinct (map fst ((jb_name j, j) # acc)) \<longrightarrow> distinct (map fst new)" by blast
  with n have "distinct (map fst acc) \<longrightarrow> distinct (map fst new)"
    by (simp only: list.map distinct.simps fst_conv list.set_map) blast
  moreover have "new = rev (map (\<lambda>j. (jb_name j, j)) (j # js)) @ acc" using IH by simp
  moreover have "\<forall>j \<in> set (j # js). has_prefix prefix (jb_name j) \<and> validateJob E j = Inr ()" using IH p v by simp
  ultimately show ?case by blast
qed simp

lemma map_of_filter_fst: "map_of (filter (\<lambda>e. P (fst e)) l) n = (if P n then map_of l n else None)"
  by (induction l) auto

lemma ReloadPrefix_InrD:
  assumes "ReloadPrefix E prefix js s = Inr s'"
  obtains new where "s' = s\<lparr>sc_jobs := new @ filter (\<lambda>e. \<not> has_prefix prefix (fst e)) (sc_jobs s),
              sc_last := filter (\<lambda>e. has_prefix prefix (fst e) \<longrightarrow> fst e \<in> fst ` set new) (sc_last s)\<rparr>"
    and "fst ` set new = jb_name ` set js" and "map_of new = map_of (map (\<lambda>j. (jb_name j, j)) js)"
    and "\<forall>j \<in> set js. has_prefix prefix (jb_name j) \<and> validateJob E j = Inr ()" and "distinct (map jb_name js)"
proof -
  from assms obtain new where r: "replacement E prefix [] js = Inr new"
    and s': "s' = s\<lparr>sc_jobs := new @ filter (\<lambda>e. \<not> has_prefix prefix (fst e)) (sc_jobs s),
              sc_last := filter (\<lambda>e. has_prefix prefix (fst e) \<longrightarrow> fst e \<in> fst ` set new) (sc_last s)\<rparr>"
    by (auto simp: ReloadPrefix_def result_Inr split: if_splits)
  from replacement_InrD[OF r] have new: "new = rev (map (\<lambda>j. (jb_name j, j)) js)"
    and ok: "\<forall>j \<in> set js. has_prefix prefix (jb_name j) \<and> validateJob E j = Inr ()" and d: "distinct (map fst new)"
    by auto
  have d': "distinct (map fst (map (\<lambda>j. (jb_name j, j)) js))"
    using d unfolding new rev_map[symmetric] by (simp del: map_map)
  have m: "map_of new = map_of (map (\<lambda>j. (jb_name j, j)) js)"
    unfolding new by (rule map_of_inject_set[THEN iffD2]) (use d' d new in \<open>simp_all\<close>)
  have keys: "fst ` set new = jb_name ` set js" by (auto simp: new image_iff)
  have "distinct (map jb_name js)" using d' by (simp add: comp_def)
  with that s' keys m ok show ?thesis by blast
qed

lemma reload_jobs:
  assumes "ReloadPrefix E prefix js s = Inr s'"
  shows "map_of (sc_jobs s') n =
       (if has_prefix prefix n then map_of (map (\<lambda>j. (jb_name j, j)) js) n else map_of (sc_jobs s) n)"
  using assms
proof (rule ReloadPrefix_InrD)
  fix new
  assume s': "s' = s\<lparr>sc_jobs := new @ filter (\<lambda>e. \<not> has_prefix prefix (fst e)) (sc_jobs s),
              sc_last := filter (\<lambda>e. has_prefix prefix (fst e) \<longrightarrow> fst e \<in> fst ` set new) (sc_last s)\<rparr>"
    and m: "map_of new = map_of (map (\<lambda>j. (jb_name j, j)) js)"
    and ok: "\<forall>j \<in> set js. has_prefix prefix (jb_name j) \<and> validateJob E j = Inr ()"
  have out: "map_of new n = None" if "\<not> has_prefix prefix n"
    using that ok by (auto simp: m map_of_eq_None_iff)
  then show ?thesis
    by (auto simp: s' map_add_def map_of_filter_fst[where P = "\<lambda>n. \<not> has_prefix prefix n"] m split: option.splits)
qed

text \<open>A reload replaces its group and nothing else: after it, the jobs under the prefix are exactly the
  given ones (each valid, no name twice), every other registered job is as before, and nothing changes
  about running jobs, markers or the last results of the others.\<close>

theorem reload_replaces_group:
  assumes "ReloadPrefix E prefix js s = Inr s'"
  shows "(\<forall>n. map_of (sc_jobs s') n =
       (if has_prefix prefix n then map_of (map (\<lambda>j. (jb_name j, j)) js) n else map_of (sc_jobs s) n)) \<and>
     (\<forall>j \<in> set js. validateJob E j = Inr () \<and> has_prefix prefix (jb_name j)) \<and> distinct (map jb_name js) \<and>
     (\<forall>n. map_of (sc_last s') n =
       (if has_prefix prefix n \<and> n \<notin> jb_name ` set js then None else map_of (sc_last s) n)) \<and>
     sc_running s' = sc_running s \<and> sc_db s' = sc_db s"
  using assms
proof (rule ReloadPrefix_InrD)
  fix new
  assume s': "s' = s\<lparr>sc_jobs := new @ filter (\<lambda>e. \<not> has_prefix prefix (fst e)) (sc_jobs s),
              sc_last := filter (\<lambda>e. has_prefix prefix (fst e) \<longrightarrow> fst e \<in> fst ` set new) (sc_last s)\<rparr>"
    and keys: "fst ` set new = jb_name ` set js"
    and ok: "\<forall>j \<in> set js. has_prefix prefix (jb_name j) \<and> validateJob E j = Inr ()" "distinct (map jb_name js)"
  have "map_of (sc_last s') n =
       (if has_prefix prefix n \<and> n \<notin> jb_name ` set js then None else map_of (sc_last s) n)" for n
    using map_of_filter_fst[where P = "\<lambda>n. has_prefix prefix n \<longrightarrow> n \<in> fst ` set new" and l = "sc_last s" and n = n]
    by (auto simp: s' keys)
  then show ?thesis using reload_jobs[OF assms] ok by (simp add: s')
qed

section \<open>Sample jobs\<close>

definition havana :: location where
  "havana = change_zone (20520 * 86400 + 18000) (- 18000) (- 14400)"

definition sample_zones :: sched_env where
  "sample_zones = \<lparr>se_zones = (\<lambda>n. if n = ''America/Havana'' then Some havana else None),
     se_prefix = ''scheduler''\<rparr>"

definition nightly :: job where
  "nightly = \<lparr>jb_name = ''backup.local'', jb_tz = '''', jb_daily = ''02:30'', jb_fn = True\<rparr>"

definition midnight :: job where
  "midnight = \<lparr>jb_name = ''backup.local'', jb_tz = ''America/Havana'', jb_daily = ''00:00'', jb_fn = True\<rparr>"

lemma sample_times: "ParseDailyTime ''02:30'' = Inr (2, 30)" "ParseDailyTime ''00:00'' = Inr (0, 0)"
  by (simp_all add: ParseDailyTime_def Atoi_def is_digit_def Let_def)

definition noon :: time where "noon = (20512 * 86400 + 43200) * second_ns"

lemma nightly_due:
  "DailyRunAt noon 2 30 UTC \<le> noon" "date_text (local_day UTC (DailyRunAt noon 2 30 UTC)) = ''2026-02-28''"
proof -
  have d: "local_day UTC noon = 20512" by (simp add: local_day_def noon_def)
  have r: "DailyRunAt noon 2 30 UTC = (20512 * 86400 + 9000) * second_ns"
    using DailyRunAt_UTC[of 2 30 noon] d by simp
  show "DailyRunAt noon 2 30 UTC \<le> noon" unfolding r by (simp add: noon_def second_ns_def)
  show "date_text (local_day UTC (DailyRunAt noon 2 30 UTC)) = ''2026-02-28''"
    using calendar_samples(2) unfolding r by (simp add: local_day_def)
qed

definition sample_evaluation :: evaluation where
  "sample_evaluation = \<lparr>ev_rd = True, ev_wr = True, ev_now = noon, ev_t0 = noon, ev_t1 = noon\<rparr>"

theorem missed_run_caught_up_witness:
  "\<exists>r s'. evaluateJob sample_zones (\<lambda>_ d. (JobFails, d)) sample_evaluation nightly (New empty_db) = (Some r, s') \<and>
     kv_get ''scheduler.lastrun.backup.local'' (settings (sc_db s')) = Some ''2026-02-28''"
proof -
  obtain res s' where e: "evaluateJob sample_zones (\<lambda>_ d. (JobFails, d)) sample_evaluation nightly (New empty_db) = (res, s')"
    by (cases "evaluateJob sample_zones (\<lambda>_ d. (JobFails, d)) sample_evaluation nightly (New empty_db)") auto
  have "(\<exists>r. res = Some r \<and> rr_ran r) \<and> kv_get (markerKey sample_zones (jb_name nightly)) (settings (sc_db s')) = Some ''2026-02-28''"
    using missed_run_caught_up[of nightly 2 30 sample_zones UTC sample_evaluation "''2026-02-28''" "New empty_db", OF _ _ _ _ _ _ _ _ _ _ e]
      sample_times(1) nightly_due
    by (simp add: nightly_def LoadLocation_def sample_evaluation_def New_def empty_db_def kv_get_def)
  with e show ?thesis by (auto simp: markerKey_def sample_zones_def nightly_def)
qed

lemma nightly_start:
  "evaluate_begin sample_zones True nightly noon (New empty_db) =
     (Started ''2026-02-28'', (New empty_db)\<lparr>sc_running := [''backup.local'']\<rparr>)"
  using isDue_when[of nightly 2 30 sample_zones UTC noon "''2026-02-28''" empty_db] sample_times(1) nightly_due
  by (simp add: evaluate_begin_def nightly_def LoadLocation_def New_def empty_db_def kv_get_def)


theorem reload_replaces_group_witness:
  "\<exists>s'. ReloadPrefix sample_zones ''backup.'' [nightly] (New empty_db) = Inr s' \<and> map_of (sc_jobs s') ''backup.local'' = Some nightly"
proof -
  have e: "ReloadPrefix sample_zones ''backup.'' [nightly] (New empty_db) =
      Inr ((New empty_db)\<lparr>sc_jobs := [(''backup.local'', nightly)]\<rparr>)"
    using sample_times(1)
    by (simp add: ReloadPrefix_def validateJob_def nightly_def LoadLocation_def New_def)
  from reload_replaces_group[OF e] e show ?thesis by (simp add: nightly_def)
qed

text \<open>A schedule inside a gap that spans midnight is lost.  In Havana the clock goes from 00:00 to
  01:00 on 8 March 2026: the run time of a 00:00 job on that day is computed as 23:00 of the day
  before, so once the run of 7 March is marked the job is not due at any instant of 8 March.\<close>

theorem midnight_gap_skips_day:
  assumes "0 \<le> s" and "s < 82800" and "now = (20520 * 86400 + 18000 + s) * second_ns"
    and "kv_get (markerKey sample_zones (jb_name midnight)) (settings d) = Some ''2026-03-07''"
  shows "local_day havana now = 20520 \<and> date_text 20520 = ''2026-03-08'' \<and>
     isDue sample_zones True midnight now d = Inr (False, ''2026-03-07'')"
proof -
  have loc: "LoadLocation (se_zones sample_zones) (jb_tz midnight) = Inr havana"
    by (simp add: LoadLocation_def midnight_def sample_zones_def)
  have day: "local_day havana now = 20520"
    using assms(1,2) by (simp only: assms(3) local_day_def wall_seconds_def unix_seconds) (simp add: havana_def change_zone_def)
  let ?t = "(20520 * 86400 + 14400) * second_ns"
  have date: "Date havana 20520 0 0 = ?t" by (simp add: Date_def Let_def havana_def change_zone_def)
  have w: "wall_seconds havana ?t = 20519 * 86400 + 1380 * 60"
    by (simp only: wall_seconds_def unix_seconds) (simp add: havana_def change_zone_def)
  from minute_of_wall[OF w] have m: "local_minute havana ?t = 1380" "local_day havana ?t = 20519" by simp_all
  have run: "DailyRunAt now 0 0 havana = ?t"
    unfolding DailyRunAt_def day date by (rule advance_done) (use m in simp)
  have "?t \<le> now" using assms(1) by (simp add: assms(3) second_ns_def)
  moreover have "date_text 20519 = ''2026-03-07''" "date_text 20520 = ''2026-03-08''"
    by (simp_all add: date_text_def civil_defs pad_def dec.simps digit_chars)
  ultimately show ?thesis
    using isDue_when[OF _ _ loc, of 0 0 now "''2026-03-07''" d] assms(4) sample_times(2) run m day
    by (simp add: midnight_def)
qed

theorem midnight_gap_skips_day_witness:
  "isDue sample_zones True midnight ((20520 * 86400 + 18000 + 40000) * second_ns)
     (empty_db\<lparr>settings := [(''scheduler.lastrun.backup.local'', ''2026-03-07'')]\<rparr>) = Inr (False, ''2026-03-07'')"
  using midnight_gap_skips_day[of 40000 "(20520 * 86400 + 18000 + 40000) * second_ns"
      "empty_db\<lparr>settings := [(''scheduler.lastrun.backup.local'', ''2026-03-07'')]\<rparr>"]
  by (simp add: markerKey_def sample_zones_def midnight_def kv_get_def)

end
