(* ===== verification/Retention.thy ===== *)
theory Retention
  imports Clock
begin

text \<open>
  \<open>backup/retention.go\<close>: the grandfather-father-son keep set over the delivered backups of one target.
  Buckets are calendar days, ISO weeks and months in UTC.
\<close>

section \<open>The keep set\<close>

record candidate =
  rc_ref :: string
  rc_at :: time

definition utc_day :: "time \<Rightarrow> int" where "utc_day t = unix t div 86400"

definition day_bucket :: "time \<Rightarrow> string" where "day_bucket t = date_text (utc_day t)"
definition month_bucket :: "time \<Rightarrow> string" where "month_bucket t = month_text (utc_day t)"
definition week_bucket :: "time \<Rightarrow> string" where
  "week_bucket t = (case iso_week (utc_day t) of (y, w) \<Rightarrow> dec (nat y) @ ''-W'' @ dec (nat w))"

text \<open>Newest first, ties by reference.\<close>

definition newest_candidates :: "candidate list \<Rightarrow> candidate list" where
  "newest_candidates cs = newest_first (\<lambda>c. (rc_at c, rc_ref c)) cs"

fun bucket_keep :: "(time \<Rightarrow> string) \<Rightarrow> nat \<Rightarrow> string list \<Rightarrow> candidate list \<Rightarrow> string list" where
  "bucket_keep key limit seen [] = []"
| "bucket_keep key limit seen (c # cs) =
    (if key (rc_at c) \<in> set seen then bucket_keep key limit seen cs
     else rc_ref c # (if Suc (length seen) = limit then []
                      else bucket_keep key limit (key (rc_at c) # seen) cs))"

definition level_keep :: "(time \<Rightarrow> string) \<Rightarrow> int \<Rightarrow> candidate list \<Rightarrow> string list" where
  "level_keep key limit sorted_cs = (if limit \<le> 0 then [] else bucket_keep key (nat limit) [] sorted_cs)"

definition RetentionKeepSet :: "candidate list \<Rightarrow> int \<Rightarrow> int \<Rightarrow> int \<Rightarrow> string list" where
  "RetentionKeepSet cs daily weekly monthly =
    (if cs = [] then []
     else let s = newest_candidates cs in
       level_keep day_bucket daily s @ level_keep week_bucket weekly s @ level_keep month_bucket monthly s)"

section \<open>What is kept\<close>

lemma set_newest_candidates [simp]: "set (newest_candidates cs) = set cs"
  by (simp add: newest_candidates_def)

lemma sorted_newest_candidates:
  "sorted_wrt (\<lambda>c d. (rc_at d, rc_ref d) \<le> (rc_at c, rc_ref c)) (newest_candidates cs)"
  unfolding newest_candidates_def newest_first_def sorted_wrt_rev
  using sorted_sort_key[of "\<lambda>c. (rc_at c, rc_ref c)" cs] unfolding sorted_map .

lemma bucket_keep_length: "length seen < limit \<Longrightarrow> length (bucket_keep key limit seen cs) \<le> limit - length seen"
proof (induction cs arbitrary: seen)
  case (Cons c cs)
  show ?case
  proof (cases "key (rc_at c) \<in> set seen \<or> Suc (length seen) = limit")
    case True
    then show ?thesis using Cons by auto
  next
    case False
    then have "length (bucket_keep key limit (key (rc_at c) # seen) cs) \<le> limit - length (key (rc_at c) # seen)"
      using Cons.prems by (intro Cons.IH) simp
    with False Cons.prems show ?thesis by auto
  qed
qed simp

text \<open>The newest of each bucket is kept as long as fewer than \<open>limit\<close> buckets lie before it.\<close>

definition bucket_rank :: "(time \<Rightarrow> string) \<Rightarrow> candidate list \<Rightarrow> candidate \<Rightarrow> nat" where
  "bucket_rank key cs c =
    card {key (rc_at d) | d. d \<in> set cs \<and> (rc_at c, rc_ref c) < (rc_at d, rc_ref d)}"

definition newest_of_bucket :: "(time \<Rightarrow> string) \<Rightarrow> candidate list \<Rightarrow> candidate \<Rightarrow> bool" where
  "newest_of_bucket key cs c \<longleftrightarrow> c \<in> set cs \<and>
     (\<forall>d \<in> set cs. key (rc_at d) = key (rc_at c) \<longrightarrow> (rc_at d, rc_ref d) \<le> (rc_at c, rc_ref c))"

lemma bucket_keep_prefix:
  assumes "length seen < limit" and "distinct seen"
  shows "r \<in> set (bucket_keep key limit seen cs) \<longleftrightarrow>
     (\<exists>xs c ys. cs = xs @ c # ys \<and> rc_ref c = r \<and> key (rc_at c) \<notin> set seen \<union> (\<lambda>d. key (rc_at d)) ` set xs \<and>
        card (set seen \<union> (\<lambda>d. key (rc_at d)) ` set xs) < limit)"
  using assms
proof (induction cs arbitrary: seen)
  case (Cons c cs)
  let ?k = "\<lambda>d. key (rc_at d)"
  let ?P = "\<lambda>seen cs xs c ys. cs = xs @ c # ys \<and> rc_ref c = r \<and> ?k c \<notin> set seen \<union> ?k ` set xs \<and>
        card (set seen \<union> ?k ` set xs) < limit"
  have split: "(\<exists>xs d ys. ?P seen (c # cs) xs d ys) \<longleftrightarrow>
      (rc_ref c = r \<and> ?k c \<notin> set seen \<and> card (set seen) < limit) \<or>
      (\<exists>xs d ys. ?P (?k c # seen) cs xs d ys)" (is "?l \<longleftrightarrow> ?a \<or> ?b")
  proof
    assume ?l
    then obtain xs d ys where p: "?P seen (c # cs) xs d ys" by blast
    show "?a \<or> ?b"
    proof (cases xs)
      case Nil
      with p show ?thesis by simp
    next
      case (Cons x zs)
      with p have "?P (?k c # seen) cs zs d ys" by simp
      then show ?thesis by blast
    qed
  next
    assume "?a \<or> ?b"
    then show ?l
    proof
      assume ?a
      then have "?P seen (c # cs) [] c cs" by simp
      then show ?l by blast
    next
      assume ?b
      then obtain xs d ys where "?P (?k c # seen) cs xs d ys" by blast
      then have "?P seen (c # cs) (c # xs) d ys" by simp
      then show ?l by blast
    qed
  qed
  have card: "card (set seen) < limit" using Cons.prems by (simp add: distinct_card)
  show ?case
  proof (cases "?k c \<in> set seen")
    case True
    then have "set (?k c # seen) = set seen" by auto
    then show ?thesis unfolding split using True Cons.IH[OF Cons.prems] by simp
  next
    case new: False
    show ?thesis
    proof (cases "Suc (length seen) = limit")
      case True
      have "\<not> card (set (?k c # seen) \<union> ?k ` set xs) < limit" for xs
      proof -
        have "card (set (?k c # seen)) = limit" using new True Cons.prems(2) by (simp add: distinct_card)
        moreover have "card (set (?k c # seen)) \<le> card (set (?k c # seen) \<union> ?k ` set xs)"
          by (rule card_mono) auto
        ultimately show ?thesis by simp
      qed
      then show ?thesis unfolding split using new True card by auto
    next
      case False
      then have l: "length (?k c # seen) < limit" and d: "distinct (?k c # seen)" using new Cons.prems by auto
      show ?thesis unfolding split using new False Cons.IH[OF l d] card by auto
    qed
  qed
qed simp

lemma newer_prefix:
  assumes "distinct (map rc_ref cs)" and "newest_candidates cs = xs @ c # ys"
  shows "set xs = {d \<in> set cs. (rc_at c, rc_ref c) < (rc_at d, rc_ref d)}"
proof
  have d: "distinct (map rc_ref (newest_candidates cs))"
    using assms(1) by (simp add: newest_candidates_def newest_first_def distinct_map)
  have s: "sorted_wrt (\<lambda>c d. (rc_at d, rc_ref d) \<le> (rc_at c, rc_ref c)) (xs @ c # ys)"
    using sorted_newest_candidates[of cs] assms(2) by simp
  have cs: "set cs = set (xs @ c # ys)" using set_newest_candidates assms(2) by metis
  show "set xs \<subseteq> {d \<in> set cs. (rc_at c, rc_ref c) < (rc_at d, rc_ref d)}"
  proof
    fix e assume e: "e \<in> set xs"
    with s have "(rc_at c, rc_ref c) \<le> (rc_at e, rc_ref e)" by (simp add: sorted_wrt_append)
    moreover have "rc_ref e \<noteq> rc_ref c" using d e assms(2) by (auto simp: image_iff)
    ultimately show "e \<in> {d \<in> set cs. (rc_at c, rc_ref c) < (rc_at d, rc_ref d)}"
      using e cs by auto
  qed
  show "{d \<in> set cs. (rc_at c, rc_ref c) < (rc_at d, rc_ref d)} \<subseteq> set xs"
  proof
    fix e assume "e \<in> {d \<in> set cs. (rc_at c, rc_ref c) < (rc_at d, rc_ref d)}"
    with cs have "e \<in> set (xs @ c # ys)" "(rc_at c, rc_ref c) < (rc_at e, rc_ref e)" by auto
    with s show "e \<in> set xs" by (auto simp: sorted_wrt_append)
  qed
qed

lemma max_alt:
  fixes f :: "'a \<Rightarrow> 'b::linorder"
  shows "(\<forall>d \<in> S. k d = x \<longrightarrow> f d \<le> f c) \<longleftrightarrow> x \<notin> k ` {d \<in> S. f c < f d}"
  by (auto simp: image_iff not_le[symmetric])

lemma level_keep_iff:
  assumes "distinct (map rc_ref cs)"
  shows "r \<in> set (level_keep key limit (newest_candidates cs)) \<longleftrightarrow>
     (\<exists>c. rc_ref c = r \<and> newest_of_bucket key cs c \<and> int (bucket_rank key cs c) < limit)"
proof (cases "limit \<le> 0")
  case True
  then show ?thesis by (auto simp: level_keep_def)
next
  case False
  let ?k = "\<lambda>d. key (rc_at d)"
  let ?newer = "\<lambda>c. {d \<in> set cs. (rc_at c, rc_ref c) < (rc_at d, rc_ref d)}"
  have rank: "bucket_rank key cs c = card (?k ` ?newer c)" for c
    unfolding bucket_rank_def by (rule arg_cong[where f = card]) auto
  have fresh: "newest_of_bucket key cs c \<longleftrightarrow> c \<in> set cs \<and> ?k c \<notin> ?k ` ?newer c" for c
    unfolding newest_of_bucket_def max_alt[where f = "\<lambda>d. (rc_at d, rc_ref d)" and k = ?k] ..
  have "r \<in> set (level_keep key limit (newest_candidates cs)) \<longleftrightarrow>
     (\<exists>xs c ys. newest_candidates cs = xs @ c # ys \<and> rc_ref c = r \<and> ?k c \<notin> ?k ` set xs \<and> card (?k ` set xs) < nat limit)"
    using False bucket_keep_prefix[of "[]" "nat limit" r key "newest_candidates cs"] by (simp add: level_keep_def)
  also have "\<dots> \<longleftrightarrow> (\<exists>c. rc_ref c = r \<and> newest_of_bucket key cs c \<and> int (bucket_rank key cs c) < limit)"
  proof
    assume "\<exists>xs c ys. newest_candidates cs = xs @ c # ys \<and> rc_ref c = r \<and> ?k c \<notin> ?k ` set xs \<and> card (?k ` set xs) < nat limit"
    then obtain xs c ys where p: "newest_candidates cs = xs @ c # ys" "rc_ref c = r" "?k c \<notin> ?k ` set xs"
      "card (?k ` set xs) < nat limit" by blast
    note N = newer_prefix[OF assms p(1)]
    have "c \<in> set cs" using set_newest_candidates[of cs] p(1) by (metis in_set_conv_decomp)
    then show "\<exists>c. rc_ref c = r \<and> newest_of_bucket key cs c \<and> int (bucket_rank key cs c) < limit"
      using p by (intro exI[of _ c]) (simp add: fresh rank N)
  next
    assume "\<exists>c. rc_ref c = r \<and> newest_of_bucket key cs c \<and> int (bucket_rank key cs c) < limit"
    then obtain c where c: "rc_ref c = r" "newest_of_bucket key cs c" "int (bucket_rank key cs c) < limit" by blast
    then have "c \<in> set (newest_candidates cs)" by (simp add: fresh)
    then obtain xs ys where l: "newest_candidates cs = xs @ c # ys" by (meson split_list)
    note N = newer_prefix[OF assms l]
    show "\<exists>xs c ys. newest_candidates cs = xs @ c # ys \<and> rc_ref c = r \<and> ?k c \<notin> ?k ` set xs \<and> card (?k ` set xs) < nat limit"
      using c l by (intro exI[of _ xs] exI[of _ c] exI[of _ ys]) (simp add: fresh rank N)
  qed
  finally show ?thesis .
qed

lemma keep_set_exact_iff:
  assumes "distinct (map rc_ref cs)"
  shows "r \<in> set (RetentionKeepSet cs daily weekly monthly) \<longleftrightarrow>
       (\<exists>c. rc_ref c = r \<and>
          (newest_of_bucket day_bucket cs c \<and> int (bucket_rank day_bucket cs c) < daily \<or>
           newest_of_bucket week_bucket cs c \<and> int (bucket_rank week_bucket cs c) < weekly \<or>
           newest_of_bucket month_bucket cs c \<and> int (bucket_rank month_bucket cs c) < monthly))"
proof (cases "cs = []")
  case True
  then show ?thesis by (simp add: RetentionKeepSet_def newest_of_bucket_def)
next
  case False
  then have keep: "RetentionKeepSet cs daily weekly monthly = level_keep day_bucket daily (newest_candidates cs)
      @ level_keep week_bucket weekly (newest_candidates cs) @ level_keep month_bucket monthly (newest_candidates cs)"
    by (simp add: RetentionKeepSet_def Let_def)
  show ?thesis unfolding keep set_append Un_iff level_keep_iff[OF assms] by blast
qed

text \<open>C38: The keep set is the grandfather-father-son set.  A backup is kept exactly when, for the days, the
  ISO weeks or the months, it is the newest of its bucket and fewer buckets than the limit of that level
  hold a newer backup; with a limit of zero or less a level keeps nothing.  The set has at
  most as many members as the limits together allow, and the newest backup is in it if any limit is positive.\<close>

theorem keep_set_exact:
  assumes "distinct (map rc_ref cs)"
  shows "(\<forall>r. r \<in> set (RetentionKeepSet cs daily weekly monthly) \<longleftrightarrow>
       (\<exists>c. rc_ref c = r \<and>
          (newest_of_bucket day_bucket cs c \<and> int (bucket_rank day_bucket cs c) < daily \<or>
           newest_of_bucket week_bucket cs c \<and> int (bucket_rank week_bucket cs c) < weekly \<or>
           newest_of_bucket month_bucket cs c \<and> int (bucket_rank month_bucket cs c) < monthly))) \<and>
     length (RetentionKeepSet cs daily weekly monthly) \<le> nat daily + nat weekly + nat monthly \<and>
     (\<forall>c \<in> set cs. (\<forall>d \<in> set cs. (rc_at d, rc_ref d) \<le> (rc_at c, rc_ref c)) \<and> (0 < daily \<or> 0 < weekly \<or> 0 < monthly) \<longrightarrow>
        rc_ref c \<in> set (RetentionKeepSet cs daily weekly monthly))"
proof (cases "cs = []")
  case True
  then show ?thesis by (simp add: RetentionKeepSet_def newest_of_bucket_def)
next
  case False
  then have keep: "RetentionKeepSet cs daily weekly monthly = level_keep day_bucket daily (newest_candidates cs)
      @ level_keep week_bucket weekly (newest_candidates cs) @ level_keep month_bucket monthly (newest_candidates cs)"
    by (simp add: RetentionKeepSet_def Let_def)
  have len: "length (level_keep key limit s) \<le> nat limit" for key limit s
    using bucket_keep_length[of "[]" "nat limit" key s] by (simp add: level_keep_def)
  have newest: "newest_of_bucket key cs c" "bucket_rank key cs c = 0"
    if "c \<in> set cs" "\<forall>d \<in> set cs. (rc_at d, rc_ref d) \<le> (rc_at c, rc_ref c)" for c key
  proof -
    show "newest_of_bucket key cs c" using that by (simp add: newest_of_bucket_def)
    have "{key (rc_at d) | d. d \<in> set cs \<and> (rc_at c, rc_ref c) < (rc_at d, rc_ref d)} = {}"
      using that(2) leD by blast
    then show "bucket_rank key cs c = 0" unfolding bucket_rank_def by (metis card.empty)
  qed
  note iff = keep_set_exact_iff[OF assms]
  moreover have "length (RetentionKeepSet cs daily weekly monthly) \<le> nat daily + nat weekly + nat monthly"
    unfolding keep using len[of day_bucket daily "newest_candidates cs"] len[of week_bucket weekly "newest_candidates cs"]
      len[of month_bucket monthly "newest_candidates cs"] by simp
  moreover have "rc_ref c \<in> set (RetentionKeepSet cs daily weekly monthly)"
    if "c \<in> set cs" "\<forall>d \<in> set cs. (rc_at d, rc_ref d) \<le> (rc_at c, rc_ref c)" "0 < daily \<or> 0 < weekly \<or> 0 < monthly" for c
    unfolding iff using newest[OF that(1,2)] that(3) by (intro exI[of _ c]) auto
  ultimately show ?thesis by blast
qed


text \<open>What retention dropped it never wants back: later backups only push older ones out.\<close>

theorem dropped_stays_dropped:
  assumes "distinct (map rc_ref (n # cs))" and "\<forall>c \<in> set cs. (rc_at c, rc_ref c) < (rc_at n, rc_ref n)"
    and "r \<in> rc_ref ` set cs" and "r \<notin> set (RetentionKeepSet cs daily weekly monthly)"
  shows "r \<notin> set (RetentionKeepSet (n # cs) daily weekly monthly)"
proof
  assume k: "r \<in> set (RetentionKeepSet (n # cs) daily weekly monthly)"
  have d: "distinct (map rc_ref cs)" using assms(1) by simp
  have lower: "newest_of_bucket key cs c \<and> int (bucket_rank key cs c) < limit"
    if "rc_ref c = r" "newest_of_bucket key (n # cs) c" "int (bucket_rank key (n # cs) c) < limit" for c key limit
  proof -
    have "c \<noteq> n" using that(1) assms(1,3) by auto
    with that(2) have c: "c \<in> set cs" by (simp add: newest_of_bucket_def)
    then have "newest_of_bucket key cs c" using that(2) unfolding newest_of_bucket_def by auto
    moreover have "bucket_rank key cs c \<le> bucket_rank key (n # cs) c"
      unfolding bucket_rank_def by (rule card_mono) auto
    ultimately show ?thesis using that(3) by simp
  qed
  from k keep_set_exact_iff[OF assms(1)] obtain c where "rc_ref c = r" and
    "newest_of_bucket day_bucket (n # cs) c \<and> int (bucket_rank day_bucket (n # cs) c) < daily \<or>
     newest_of_bucket week_bucket (n # cs) c \<and> int (bucket_rank week_bucket (n # cs) c) < weekly \<or>
     newest_of_bucket month_bucket (n # cs) c \<and> int (bucket_rank month_bucket (n # cs) c) < monthly" by blast
  with lower have "r \<in> set (RetentionKeepSet cs daily weekly monthly)"
    unfolding keep_set_exact_iff[OF d] by blast
  with assms(4) show False by simp
qed

section \<open>Sample\<close>

definition sample_candidates :: "candidate list" where
  "sample_candidates = [\<lparr>rc_ref = ''a'', rc_at = 20512 * day_ns\<rparr>, \<lparr>rc_ref = ''b'', rc_at = 20512 * day_ns + 5\<rparr>,
     \<lparr>rc_ref = ''c'', rc_at = 20513 * day_ns\<rparr>]"

theorem keep_set_exact_witness: "RetentionKeepSet sample_candidates 1 0 0 = [''c'']"
proof -
  have d: "distinct (map rc_ref sample_candidates)" by (simp add: sample_candidates_def)
  have "''c'' \<in> set (RetentionKeepSet sample_candidates 1 0 0)"
    and "length (RetentionKeepSet sample_candidates 1 0 0) \<le> 1"
    using keep_set_exact[OF d, of 1 0 0] by (auto simp: sample_candidates_def day_ns_def duration_defs)
  then show ?thesis by (cases "RetentionKeepSet sample_candidates 1 0 0") (auto simp: le_Suc_eq)
qed

end
