(* ===== verification/BackupJobs.thy ===== *)
theory BackupJobs
  imports Scheduler Retention Manifest AuditLog
begin

text \<open>
  \<open>backup/jobs.go\<close>, \<open>backup/runs.go\<close> and the tables \<open>backup_jobs\<close> and \<open>backup_runs\<close>: the job
  configuration, the lifecycle rows of the runs, the listing, the recovery of interrupted rows, and the
  scheduler jobs.  The instants of a run are stored as text (\<open>RFC3339Nano\<close>); how an instant is
  written is a parameter.
\<close>

abbreviation TargetLocal :: string where "TargetLocal \<equiv> ''local''"
abbreviation TargetR2 :: string where "TargetR2 \<equiv> ''r2''"
abbreviation TriggerManual :: string where "TriggerManual \<equiv> ''manual''"
abbreviation TriggerScheduled :: string where "TriggerScheduled \<equiv> ''scheduled''"

section \<open>Tables\<close>

record job_row =
  bj_target :: string
  bj_enabled :: bool
  bj_time :: "string option"
  bj_tz :: "string option"
  bj_daily :: int
  bj_weekly :: int
  bj_monthly :: int

record run_row =
  br_id :: string
  br_target :: string
  br_status :: string
  br_trigger :: string
  br_started :: string
  br_finished :: "string option"
  br_size :: "int option"
  br_sha :: "string option"
  br_code :: "string option"

record backup_db =
  bd_main :: db
  bd_jobs :: "job_row list"
  bd_runs :: "run_row list"

text \<open>\<open>CHECK\<close> constraints; the \<open>GLOB\<close> of the schedule time is \<open>[0-2][0-9]:[0-5][0-9]\<close>.\<close>

definition in_range :: "char \<Rightarrow> char \<Rightarrow> char \<Rightarrow> bool" where
  "in_range lo hi c \<longleftrightarrow> (of_char lo :: nat) \<le> of_char c \<and> (of_char c :: nat) \<le> of_char hi"

definition time_glob :: "string \<Rightarrow> bool" where
  "time_glob s \<longleftrightarrow> (case s of [a, b, c, d, e] \<Rightarrow>
      in_range (CHR ''0'') (CHR ''2'') a \<and> in_range (CHR ''0'') (CHR ''9'') b \<and> c = CHR '':'' \<and>
      in_range (CHR ''0'') (CHR ''5'') d \<and> in_range (CHR ''0'') (CHR ''9'') e
    | _ \<Rightarrow> False)"

definition job_check :: "job_row \<Rightarrow> bool" where
  "job_check j \<longleftrightarrow> bj_target j \<in> set [TargetLocal, TargetR2] \<and>
     (case bj_time j of None \<Rightarrow> True | Some t \<Rightarrow> time_glob t) \<and>
     0 \<le> bj_daily j \<and> 0 \<le> bj_weekly j \<and> 0 \<le> bj_monthly j"

definition run_statuses :: "string list" where
  "run_statuses = [''pending'', ''running'', ''succeeded'', ''failed'', ''interrupted'']"

definition run_check :: "run_row \<Rightarrow> bool" where
  "run_check r \<longleftrightarrow> br_target r \<in> set [TargetLocal, TargetR2] \<and> br_status r \<in> set run_statuses \<and>
     br_trigger r \<in> set [TriggerManual, TriggerScheduled]"

definition insert_run :: "run_row \<Rightarrow> backup_db \<Rightarrow> constraint_error + backup_db" where
  "insert_run r d =
    (if \<not> run_check r then Inl CheckViolation
     else case sql_insert br_id r (bd_runs d) of None \<Rightarrow> Inl UniqueViolation
       | Some t \<Rightarrow> Inr (d\<lparr>bd_runs := t\<rparr>))"

section \<open>Job configuration\<close>

record job_config =
  jc_target :: string
  jc_enabled :: bool
  jc_time :: string
  jc_tz :: string
  jc_daily :: int
  jc_weekly :: int
  jc_monthly :: int

definition default_job :: "string \<Rightarrow> job_row" where
  "default_job target = \<lparr>bj_target = target, bj_enabled = False, bj_time = None, bj_tz = None,
     bj_daily = 7, bj_weekly = 4, bj_monthly = 6\<rparr>"

text \<open>\<open>ON CONFLICT(target) DO NOTHING\<close> and \<open>DO UPDATE\<close>; the id of a job is determined by its target.\<close>

definition seed_job :: "string \<Rightarrow> job_row list \<Rightarrow> job_row list" where
  "seed_job target t = (if target \<in> set (map bj_target t) then t else t @ [default_job target])"

definition put_job :: "job_row \<Rightarrow> job_row list \<Rightarrow> job_row list" where
  "put_job j t =
    (if bj_target j \<in> set (map bj_target t) then sql_update (\<lambda>x. bj_target x = bj_target j) (\<lambda>_. j) t else t @ [j])"

definition config_of :: "job_row \<Rightarrow> job_config" where
  "config_of j = \<lparr>jc_target = bj_target j, jc_enabled = bj_enabled j,
     jc_time = (case bj_time j of None \<Rightarrow> '''' | Some t \<Rightarrow> t),
     jc_tz = (case bj_tz j of None \<Rightarrow> '''' | Some t \<Rightarrow> t),
     jc_daily = bj_daily j, jc_weekly = bj_weekly j, jc_monthly = bj_monthly j\<rparr>"

definition LoadJobConfigs :: "backup_db \<Rightarrow> job_config list \<times> backup_db" where
  "LoadJobConfigs d =
    (let t = seed_job TargetR2 (seed_job TargetLocal (bd_jobs d)) in
     (map config_of (sort_key bj_target t), d\<lparr>bd_jobs := t\<rparr>))"

datatype job_error = UnsupportedTarget | BadSchedule schedule_error | BadTimezone | BadRetention | JobConstraint

definition nullIfEmpty :: "string \<Rightarrow> string option" where
  "nullIfEmpty s = (if s = '''' then None else Some s)"

definition validateJobUpdate :: "sched_env \<Rightarrow> job_config \<Rightarrow> job_error + unit" where
  "validateJobUpdate E u =
    andthen (ensure (jc_target u \<in> set [TargetLocal, TargetR2]) UnsupportedTarget) (\<lambda>_.
    andthen (if jc_time u = '''' then Inr (0, 0) else map_err BadSchedule (ParseDailyTime (jc_time u))) (\<lambda>_.
    andthen (map_err (\<lambda>_. BadTimezone) (LoadLocation (se_zones E) (jc_tz u))) (\<lambda>_.
    ensure (list_all (\<lambda>n. 0 \<le> n \<and> n \<le> 999) [jc_daily u, jc_weekly u, jc_monthly u]) BadRetention)))"

definition row_of_config :: "job_config \<Rightarrow> job_row" where
  "row_of_config u = \<lparr>bj_target = jc_target u, bj_enabled = jc_enabled u, bj_time = nullIfEmpty (jc_time u),
     bj_tz = nullIfEmpty (jc_tz u), bj_daily = jc_daily u, bj_weekly = jc_weekly u, bj_monthly = jc_monthly u\<rparr>"

definition updateJobConfig :: "sched_env \<Rightarrow> job_config \<Rightarrow> backup_db \<Rightarrow> job_error + backup_db" where
  "updateJobConfig E u d =
    andthen (validateJobUpdate E u) (\<lambda>_.
    andthen (ensure (job_check (row_of_config u)) JobConstraint) (\<lambda>_.
    Inr (d\<lparr>bd_jobs := put_job (row_of_config u) (bd_jobs d)\<rparr>)))"

section \<open>Runs\<close>

definition MarkInterruptedRuns :: "string \<Rightarrow> backup_db \<Rightarrow> nat \<times> backup_db" where
  "MarkInterruptedRuns now d =
    (let p = (\<lambda>r. br_status r \<in> set [''pending'', ''running'']) in
     (sql_affected p (bd_runs d),
      d\<lparr>bd_runs := sql_update p (\<lambda>r. r\<lparr>br_status := ''interrupted'', br_finished := Some now,
          br_code := (case br_code r of None \<Rightarrow> Some ''BACKUP_INTERRUPTED'' | Some c \<Rightarrow> Some c)\<rparr>) (bd_runs d)\<rparr>))"

definition run_pos :: "run_row \<Rightarrow> string \<times> string" where
  "run_pos r = (br_started r, br_id r)"

definition run_sel :: "string \<Rightarrow> run_row \<Rightarrow> bool" where
  "run_sel target r \<longleftrightarrow> target = '''' \<or> br_target r = target"

definition ListRuns :: "string \<Rightarrow> string \<Rightarrow> string \<Rightarrow> nat \<Rightarrow> backup_db \<Rightarrow> run_row list" where
  "ListRuns target beforeCreated beforeID limit d =
    keyset_page run_pos (run_sel target)
      (if beforeCreated = '''' then None else Some (beforeCreated, beforeID)) limit (bd_runs d)"

text \<open>An audit write is best effort: its failure is only logged.\<close>

definition backup_audit :: "audit_env option \<Rightarrow> string \<Rightarrow> string \<Rightarrow> string \<Rightarrow> backup_db \<Rightarrow> backup_db" where
  "backup_audit A name target result d =
    (case A of None \<Rightarrow> d
     | Some E \<Rightarrow> (case Record E (mk_event name '''' ''backup'' target result) (bd_main d) of
          Inl _ \<Rightarrow> d | Inr m \<Rightarrow> d\<lparr>bd_main := m\<rparr>))"

definition auditRun :: "audit_env option \<Rightarrow> string \<Rightarrow> string \<Rightarrow> backup_db \<Rightarrow> backup_db" where
  "auditRun A runID result d = backup_audit A ''backup.run'' runID result d"

definition insertRunningRow :: "bool \<Rightarrow> string \<Rightarrow> string \<Rightarrow> string \<Rightarrow> string \<Rightarrow> backup_db \<Rightarrow> backup_db option" where
  "insertRunningRow ok now runID target trigger d =
    (if \<not> ok then None
     else case insert_run \<lparr>br_id = runID, br_target = target, br_status = ''running'', br_trigger = trigger,
            br_started = now, br_finished = None, br_size = None, br_sha = None, br_code = None\<rparr> d of
       Inl _ \<Rightarrow> None | Inr d' \<Rightarrow> Some d')"

definition update_run :: "bool \<Rightarrow> string \<Rightarrow> (run_row \<Rightarrow> run_row) \<Rightarrow> backup_db \<Rightarrow> backup_db" where
  "update_run ok runID f d =
    (if ok then d\<lparr>bd_runs := sql_update (\<lambda>r. br_id r = runID) f (bd_runs d)\<rparr> else d)"

definition succeedRun ::
  "audit_env option \<Rightarrow> bool \<Rightarrow> string \<Rightarrow> string \<Rightarrow> int \<Rightarrow> string \<Rightarrow> backup_db \<Rightarrow> backup_db" where
  "succeedRun A ok now runID sz sha d =
    auditRun A runID ''success'' (update_run ok runID (\<lambda>r. r\<lparr>br_status := ''succeeded'', br_finished := Some now,
      br_size := Some sz, br_sha := Some sha\<rparr>) d)"

definition failRun :: "audit_env option \<Rightarrow> bool \<Rightarrow> string \<Rightarrow> string \<Rightarrow> string \<Rightarrow> backup_db \<Rightarrow> backup_db" where
  "failRun A ok now runID code d =
    auditRun A runID ''failure'' (update_run ok runID (\<lambda>r. r\<lparr>br_status := ''failed'', br_finished := Some now,
      br_code := Some code\<rparr>) d)"

fun recordFailures ::
  "audit_env option \<Rightarrow> (string \<Rightarrow> bool) \<Rightarrow> string \<Rightarrow> (string \<Rightarrow> string) \<Rightarrow> string \<Rightarrow> string \<Rightarrow> string list \<Rightarrow> backup_db \<Rightarrow> backup_db" where
  "recordFailures A ok now fresh trigger code [] d = d"
| "recordFailures A ok now fresh trigger code (t # ts) d =
    (let r = \<lparr>br_id = fresh t, br_target = t, br_status = ''failed'', br_trigger = trigger, br_started = now,
              br_finished = Some now, br_size = None, br_sha = None, br_code = Some code\<rparr>;
         d1 = (if ok t then (case insert_run r d of Inl _ \<Rightarrow> d | Inr d' \<Rightarrow> d') else d)
     in recordFailures A ok now fresh trigger code ts (auditRun A (fresh t) ''failure'' d1))"

section \<open>Scheduler jobs\<close>

fun scheduled_jobs :: "job_config list \<Rightarrow> job list" where
  "scheduled_jobs [] = []"
| "scheduled_jobs (c # cs) =
    (if \<not> jc_enabled c \<or> jc_time c = '''' then scheduled_jobs cs
     else \<lparr>jb_name = ''backup.'' @ jc_target c, jb_tz = jc_tz c, jb_daily = jc_time c, jb_fn = True\<rparr>
          # scheduled_jobs cs)"

definition ScheduledJobs :: "backup_db \<Rightarrow> job list \<times> backup_db" where
  "ScheduledJobs d = (let (cs, d') = LoadJobConfigs d in (scheduled_jobs cs, d'))"

text \<open>The maintenance jobs, one for each collaborator that is present.\<close>

record maintenance_deps =
  md_vault :: bool
  md_db :: bool
  md_idem :: bool
  md_r2 :: bool

definition maintenanceDailyAt :: string where "maintenanceDailyAt = ''03:30''"

definition maintenance_job :: "string \<Rightarrow> job" where
  "maintenance_job name = \<lparr>jb_name = name, jb_tz = ''UTC'', jb_daily = maintenanceDailyAt, jb_fn = True\<rparr>"

definition MaintenanceJobs :: "maintenance_deps \<Rightarrow> job list" where
  "MaintenanceJobs m =
    (if md_vault m then [maintenance_job ''maintenance.trash''] else []) @
    (if md_db m then [maintenance_job ''maintenance.sessions'', maintenance_job ''maintenance.login_attempts'',
        maintenance_job ''maintenance.wal_checkpoint''] else []) @
    (if md_idem m then [maintenance_job ''maintenance.idempotency''] else []) @
    (if md_r2 m then [maintenance_job ''maintenance.r2_incoming''] else [])"

section \<open>Interrupted runs\<close>

definition open_run :: "run_row \<Rightarrow> bool" where
  "open_run r \<longleftrightarrow> br_status r = ''pending'' \<or> br_status r = ''running''"

text \<open>No run claims to be running after a start.  The recovery closes exactly the rows that were pending or
  running, as interrupted, with a finish time and the recorded error code (or the code for an
  interruption when there was none); every other row, and the number and ids of the rows, are unchanged.\<close>

theorem interrupted_runs_closed:
  assumes "MarkInterruptedRuns now d = (n, d')"
  shows "(\<forall>r \<in> set (bd_runs d'). \<not> open_run r) \<and> n = length (filter open_run (bd_runs d)) \<and>
     map br_id (bd_runs d') = map br_id (bd_runs d) \<and>
     list_all2 (\<lambda>r r'. if open_run r
        then r' = r\<lparr>br_status := ''interrupted'', br_finished := Some now, br_code := br_code r'\<rparr> \<and>
             br_code r' = Some (case br_code r of None \<Rightarrow> ''BACKUP_INTERRUPTED'' | Some c \<Rightarrow> c)
        else r' = r) (bd_runs d) (bd_runs d') \<and>
     bd_main d' = bd_main d \<and> bd_jobs d' = bd_jobs d"
proof -
  let ?p = "\<lambda>r. br_status r \<in> set [''pending'', ''running'']"
  let ?f = "\<lambda>r. r\<lparr>br_status := ''interrupted'', br_finished := Some now,
          br_code := (case br_code r of None \<Rightarrow> Some ''BACKUP_INTERRUPTED'' | Some c \<Rightarrow> Some c)\<rparr>"
  have p: "?p = open_run" by (auto simp: open_run_def)
  from assms have n: "n = sql_affected ?p (bd_runs d)" and d': "d' = d\<lparr>bd_runs := sql_update ?p ?f (bd_runs d)\<rparr>"
    by (simp_all add: MarkInterruptedRuns_def Let_def)
  have closed: "\<not> open_run (?f r)" for r by (simp add: open_run_def)
  have "\<forall>r \<in> set (bd_runs d'). \<not> open_run r" unfolding d' p by (auto simp: sql_simps closed)
  moreover have "map br_id (bd_runs d') = map br_id (bd_runs d)" by (simp add: d' map_sql_update)
  moreover have "list_all2 (\<lambda>r r'. if open_run r
        then r' = r\<lparr>br_status := ''interrupted'', br_finished := Some now, br_code := br_code r'\<rparr> \<and>
             br_code r' = Some (case br_code r of None \<Rightarrow> ''BACKUP_INTERRUPTED'' | Some c \<Rightarrow> c)
        else r' = r) (bd_runs d) (bd_runs d')"
    unfolding d' p by (auto simp: sql_update_def list_all2_conv_all_nth split: option.split)
  moreover have "n = length (filter open_run (bd_runs d))" unfolding n sql_affected_def p ..
  ultimately show ?thesis by (simp add: d')
qed

section \<open>Stored jobs can be scheduled\<close>

definition jobs_ok :: "sched_env \<Rightarrow> job_row list \<Rightarrow> bool" where
  "jobs_ok E t \<longleftrightarrow> distinct (map bj_target t) \<and>
     (\<forall>j \<in> set t. bj_target j \<in> {TargetLocal, TargetR2} \<and> job_check j \<and>
        (\<forall>x. bj_time j = Some x \<longrightarrow> (\<exists>hm. ParseDailyTime x = Inr hm)) \<and>
        (\<exists>l. LoadLocation (se_zones E) (case bj_tz j of None \<Rightarrow> '''' | Some z \<Rightarrow> z) = Inr l))"

lemma jobs_ok_seed: "jobs_ok E t \<Longrightarrow> target \<in> {TargetLocal, TargetR2} \<Longrightarrow> jobs_ok E (seed_job target t)"
  by (auto simp: jobs_ok_def seed_job_def default_job_def job_check_def LoadLocation_def)

lemma jobs_ok_load: "jobs_ok E (bd_jobs d) \<Longrightarrow> jobs_ok E (bd_jobs (snd (LoadJobConfigs d)))"
  by (simp add: LoadJobConfigs_def Let_def jobs_ok_seed)

lemma jobs_ok_update:
  assumes "updateJobConfig E u d = Inr d'" and "jobs_ok E (bd_jobs d)"
  shows "jobs_ok E (bd_jobs d')"
proof -
  let ?r = "row_of_config u"
  from assms(1) obtain hm l where u: "jc_target u \<in> {TargetLocal, TargetR2}" "job_check ?r"
    "jc_time u \<noteq> '''' \<longrightarrow> ParseDailyTime (jc_time u) = Inr hm" "LoadLocation (se_zones E) (jc_tz u) = Inr l"
    and d': "d' = d\<lparr>bd_jobs := put_job ?r (bd_jobs d)\<rparr>"
    by (auto simp: updateJobConfig_def validateJobUpdate_def result_Inr split: if_splits)
  have row: "bj_target ?r \<in> {TargetLocal, TargetR2} \<and> job_check ?r \<and>
        (\<forall>x. bj_time ?r = Some x \<longrightarrow> (\<exists>hm. ParseDailyTime x = Inr hm)) \<and>
        (\<exists>l. LoadLocation (se_zones E) (case bj_tz ?r of None \<Rightarrow> '''' | Some z \<Rightarrow> z) = Inr l)"
    using u by (auto simp: row_of_config_def nullIfEmpty_def)
  show ?thesis
  proof (cases "bj_target ?r \<in> set (map bj_target (bd_jobs d))")
    case True
    have "map bj_target (sql_update (\<lambda>x. bj_target x = bj_target ?r) (\<lambda>_. ?r) (bd_jobs d)) = map bj_target (bd_jobs d)"
      by (simp add: sql_update_def)
    with True assms(2) row show ?thesis by (auto simp: d' put_job_def jobs_ok_def set_sql_update)
  next
    case False
    with assms(2) row show ?thesis by (auto simp: d' put_job_def jobs_ok_def)
  qed
qed

lemma scheduled_jobs_valid:
  assumes "\<forall>c \<in> set cs. jc_target c \<in> {TargetLocal, TargetR2} \<and>
      (jc_time c \<noteq> '''' \<longrightarrow> (\<exists>hm. ParseDailyTime (jc_time c) = Inr hm)) \<and> (\<exists>l. LoadLocation (se_zones E) (jc_tz c) = Inr l)"
    and "distinct (map jc_target cs)"
  shows "list_all (\<lambda>j. validateJob E j = Inr () \<and> has_prefix ''backup.'' (jb_name j)) (scheduled_jobs cs)"
    and "distinct (map jb_name (scheduled_jobs cs))" and "jb_name ` set (scheduled_jobs cs) \<subseteq> (\<lambda>c. ''backup.'' @ jc_target c) ` set cs"
  using assms by (induction cs rule: scheduled_jobs.induct) (auto simp: validateJob_def)

lemma replacement_total:
  "list_all (\<lambda>j. validateJob E j = Inr () \<and> has_prefix p (jb_name j)) js \<Longrightarrow> distinct (map jb_name js) \<Longrightarrow>
     fst ` set acc \<inter> jb_name ` set js = {} \<Longrightarrow> \<exists>new. replacement E p acc js = Inr new"
  by (induction js arbitrary: acc) (auto simp: image_iff)

lemma jobs_ok_reload:
  assumes "jobs_ok E (bd_jobs d')"
  shows "\<exists>s'. ReloadPrefix E ''backup.'' (fst (ScheduledJobs d')) s = Inr s'"
proof -
  obtain cs d2 where l: "LoadJobConfigs d' = (cs, d2)" by (cases "LoadJobConfigs d'") auto
  then have "cs = map config_of (sort_key bj_target (bd_jobs d2))" by (auto simp: LoadJobConfigs_def Let_def)
  moreover have "jobs_ok E (bd_jobs d2)" using jobs_ok_load[OF assms] l by simp
  ultimately have cs: "\<forall>c \<in> set cs. jc_target c \<in> {TargetLocal, TargetR2} \<and>
      (jc_time c \<noteq> '''' \<longrightarrow> (\<exists>hm. ParseDailyTime (jc_time c) = Inr hm)) \<and> (\<exists>l. LoadLocation (se_zones E) (jc_tz c) = Inr l)"
    and d: "distinct (map jc_target cs)"
    by (auto simp: jobs_ok_def config_of_def comp_def distinct_map inj_on_def split: option.splits)
  note V = scheduled_jobs_valid[OF cs d]
  obtain new where "replacement E ''backup.'' [] (scheduled_jobs cs) = Inr new"
    using replacement_total[OF V(1,2), of "[]"] by auto
  then show ?thesis by (simp add: ReloadPrefix_def ScheduledJobs_def l)
qed

inductive job_updates :: "sched_env \<Rightarrow> backup_db \<Rightarrow> backup_db \<Rightarrow> bool" for E where
  none: "job_updates E d d"
| update: "job_updates E d d1 \<Longrightarrow> updateJobConfig E u d1 = Inr d2 \<Longrightarrow> job_updates E d d2"
| load: "job_updates E d d1 \<Longrightarrow> LoadJobConfigs d1 = (cs, d2) \<Longrightarrow> job_updates E d d2"

lemma job_updates_ok: "job_updates E d d' \<Longrightarrow> jobs_ok E (bd_jobs d) \<Longrightarrow> jobs_ok E (bd_jobs d')"
  by (induction rule: job_updates.induct) (auto dest: jobs_ok_update jobs_ok_load)

text \<open>C39: What the settings accept can be scheduled.  Whatever sequence of configuration updates succeeded,
  the stored jobs reload into the scheduler without an error, so an accepted update can never leave the
  backup group in the scheduler stale.\<close>

theorem stored_jobs_schedulable:
  assumes "job_updates E d d'" and "bd_jobs d = []"
  shows "\<exists>s'. ReloadPrefix E ''backup.'' (fst (ScheduledJobs d')) s = Inr s'"
  using job_updates_ok[OF assms(1)] assms(2) by (intro jobs_ok_reload) (simp add: jobs_ok_def)

section \<open>Samples\<close>

definition empty_backup :: backup_db where
  "empty_backup = \<lparr>bd_main = empty_db, bd_jobs = [], bd_runs = []\<rparr>"

definition sample_update_job :: job_config where
  "sample_update_job = \<lparr>jc_target = TargetLocal, jc_enabled = True, jc_time = ''02:30'', jc_tz = '''',
     jc_daily = 7, jc_weekly = 4, jc_monthly = 6\<rparr>"

theorem stored_jobs_schedulable_witness:
  "\<exists>d' s'. updateJobConfig sample_zones sample_update_job empty_backup = Inr d' \<and>
     ReloadPrefix sample_zones ''backup.'' (fst (ScheduledJobs d')) (New empty_db) = Inr s' \<and>
     map_of (sc_jobs s') ''backup.local'' \<noteq> None"
proof -
  have ck: "job_check (row_of_config sample_update_job)" by code_simp
  have u: "updateJobConfig sample_zones sample_update_job empty_backup =
      Inr (empty_backup\<lparr>bd_jobs := [row_of_config sample_update_job]\<rparr>)"
    using sample_times(1) ck
    by (simp add: updateJobConfig_def validateJobUpdate_def sample_update_job_def LoadLocation_def put_job_def empty_backup_def)
  have "job_updates sample_zones empty_backup (empty_backup\<lparr>bd_jobs := [row_of_config sample_update_job]\<rparr>)"
    by (rule job_updates.update[OF job_updates.none u])
  from stored_jobs_schedulable[OF this, of "New empty_db"] obtain s' where
    r: "ReloadPrefix sample_zones ''backup.'' (fst (ScheduledJobs (empty_backup\<lparr>bd_jobs := [row_of_config sample_update_job]\<rparr>)))
      (New empty_db) = Inr s'" by (auto simp: empty_backup_def)
  have "jb_name ` set (fst (ScheduledJobs (empty_backup\<lparr>bd_jobs := [row_of_config sample_update_job]\<rparr>))) = {''backup.local''}"
    by (simp add: ScheduledJobs_def LoadJobConfigs_def Let_def seed_job_def empty_backup_def row_of_config_def
        sample_update_job_def default_job_def config_of_def nullIfEmpty_def)
  then have "map_of (map (\<lambda>j. (jb_name j, j))
      (fst (ScheduledJobs (empty_backup\<lparr>bd_jobs := [row_of_config sample_update_job]\<rparr>)))) ''backup.local'' \<noteq> None"
    by (simp add: map_of_eq_None_iff image_image)
  then have "map_of (sc_jobs s') ''backup.local'' \<noteq> None"
    unfolding reload_jobs[OF r] by simp
  with u r show ?thesis by blast
qed

definition sample_runs :: backup_db where
  "sample_runs = empty_backup\<lparr>bd_runs := [\<lparr>br_id = ''r1'', br_target = TargetLocal, br_status = ''running'',
     br_trigger = TriggerManual, br_started = ''s'', br_finished = None, br_size = None, br_sha = None, br_code = None\<rparr>]\<rparr>"

theorem interrupted_runs_closed_witness:
  "\<exists>d'. MarkInterruptedRuns ''now'' sample_runs = (1, d') \<and> (\<forall>r \<in> set (bd_runs d'). \<not> open_run r)"
proof -
  obtain n d' where m: "MarkInterruptedRuns ''now'' sample_runs = (n, d')"
    by (cases "MarkInterruptedRuns ''now'' sample_runs") auto
  from interrupted_runs_closed[OF m] have "n = 1" "\<forall>r \<in> set (bd_runs d'). \<not> open_run r"
    by (simp_all add: sample_runs_def open_run_def)
  with m show ?thesis by auto
qed

end
