(* ===== verification/BackupRun.thy ===== *)
theory BackupRun
  imports BackupJobs
begin

text \<open>
  \<open>backup/runner.go\<close>, \<open>local.go\<close>, \<open>r2.go\<close> (delivery) and \<open>retention_apply.go\<close>: one backup run over its
  targets.  An error is the list of the sentinels that \<open>errors.Is\<close> finds in it.  Every call into the
  operating system, 7-Zip or the database that can fail has a step in \<open>build_step\<close> or \<open>publish_step\<close>
  and may return an error there.  Packing and extracting, hashing, the JSON of the
  manifest, the bytes of a database snapshot and the object store are parameters.
\<close>

section \<open>Errors and codes\<close>

datatype sentinel = CtxCanceled | SCanceled | SPassphrase | SSpace | SSnapshot | SArchive | SVerify
  | SPublish | SUploadVerify | SUpload | SInternal | SBusy | SInput | SRow

type_synonym run_error = "sentinel list"

datatype step_code = CodeSnapshot | CodeSpaceStep | CodeArchive | CodeVerify | CodePublish | CodeOther

definition classifyStep :: "run_error \<Rightarrow> step_code \<Rightarrow> run_error" where
  "classifyStep err code =
    (if code \<in> {CodeSnapshot, CodeArchive, CodeVerify} \<and> CtxCanceled \<in> set err then SCanceled # err
     else (case code of CodeSnapshot \<Rightarrow> SSnapshot | CodeSpaceStep \<Rightarrow> SSpace | CodeArchive \<Rightarrow> SArchive
       | CodeVerify \<Rightarrow> SVerify | CodePublish \<Rightarrow> SPublish | CodeOther \<Rightarrow> SInternal) # err)"

definition errorCode :: "run_error \<Rightarrow> string" where
  "errorCode err =
    (if CtxCanceled \<in> set err \<or> SCanceled \<in> set err then ''BACKUP_CANCELED''
     else if SPassphrase \<in> set err then ''BACKUP_PASSPHRASE_INVALID''
     else if SSpace \<in> set err then ''BACKUP_INSUFFICIENT_SPACE''
     else if SSnapshot \<in> set err then ''BACKUP_SNAPSHOT_FAILED''
     else if SArchive \<in> set err then ''BACKUP_ARCHIVE_FAILED''
     else if SVerify \<in> set err then ''BACKUP_VERIFY_FAILED''
     else if SPublish \<in> set err then ''BACKUP_PUBLISH_FAILED''
     else if SUploadVerify \<in> set err then ''BACKUP_UPLOAD_VERIFY_FAILED''
     else if SUpload \<in> set err then ''BACKUP_UPLOAD_FAILED''
     else ''BACKUP_INTERNAL'')"

section \<open>The local store\<close>

record local_file =
  lf_name :: string
  lf_bytes :: bytes
  lf_mod :: time

datatype publish_step = PubMkdir | PubOpen | PubRead | PubSeek | PubCreate | PubCopy | PubSync | PubClose | PubRename

record publish_env =
  pe_fault :: "publish_step \<Rightarrow> bool"
  pe_tmp :: string
  pe_mod :: time
  pe_second :: "bytes \<Rightarrow> bytes"

definition put_local :: "local_file \<Rightarrow> local_file list \<Rightarrow> local_file list" where
  "put_local f t = filter (\<lambda>x. lf_name x \<noteq> lf_name f) t @ [f]"

definition remove_local :: "string \<Rightarrow> local_file list \<Rightarrow> local_file list" where
  "remove_local n t = filter (\<lambda>x. lf_name x \<noteq> n) t"

text \<open>The staged file is read twice: once for the digest, once for the copy.\<close>

definition Publish ::
  "(bytes \<Rightarrow> bytes) \<Rightarrow> publish_env \<Rightarrow> string \<Rightarrow> bytes \<Rightarrow> string \<Rightarrow> local_file list \<Rightarrow>
   (run_error + (string \<times> int \<times> string)) \<times> local_file list" where
  "Publish sha P dir staged name t =
    (let tmp = ''.publish-'' @ pe_tmp P; want = hex_encode (sha staged); copy = pe_second P staged;
         t1 = put_local \<lparr>lf_name = tmp, lf_bytes = copy, lf_mod = pe_mod P\<rparr> t
     in if pe_fault P PubMkdir \<or> pe_fault P PubOpen \<or> pe_fault P PubRead \<or> pe_fault P PubSeek then (Inl [SPublish], t)
        else if pe_fault P PubCreate \<or> tmp \<in> lf_name ` set t then (Inl [SPublish], t)
        else if pe_fault P PubCopy \<or> pe_fault P PubSync \<or> pe_fault P PubClose then (Inl [SPublish], remove_local tmp t1)
        else if hex_encode (sha copy) \<noteq> want then (Inl [SPublish], remove_local tmp t1)
        else if pe_fault P PubRename then (Inl [SPublish], remove_local tmp t1)
        else (Inr (dir @ ''/'' @ name, int (length staged), want),
              put_local \<lparr>lf_name = name, lf_bytes = copy, lf_mod = pe_mod P\<rparr> (remove_local tmp t1)))"

section \<open>The object store\<close>

type_synonym r2_store = "(string \<times> bytes \<times> time) list"

record r2_delivery =
  rd_put :: "string \<Rightarrow> bytes \<Rightarrow> r2_store \<Rightarrow> bool \<times> r2_store"
  rd_get :: "string \<Rightarrow> r2_store \<Rightarrow> bytes option"
  rd_head :: "string \<Rightarrow> r2_store \<Rightarrow> int option"
  rd_copy :: "string \<Rightarrow> string \<Rightarrow> r2_store \<Rightarrow> bool \<times> r2_store"
  rd_delete :: "string \<Rightarrow> r2_store \<Rightarrow> bool \<times> r2_store"
  rd_list :: "string \<Rightarrow> r2_store \<Rightarrow> (string \<times> time) list option"
  rd_prefix :: string
  rd_ttl :: time
  rd_now :: time
  rd_fresh :: string

definition ttl :: "r2_delivery \<Rightarrow> time" where
  "ttl D = (if 0 < rd_ttl D then rd_ttl D else 24 * hour_ns)"

definition incomingKey :: "r2_delivery \<Rightarrow> string \<Rightarrow> string" where
  "incomingKey D backupID = rd_prefix D @ ''/incoming/'' @ backupID @ ''-'' @ rd_fresh D @ ''.7z''"

definition finalKey :: "r2_delivery \<Rightarrow> string \<Rightarrow> string" where
  "finalKey D backupID = rd_prefix D @ ''/'' @ backupID @ ''.7z''"

definition Deliver ::
  "(bytes \<Rightarrow> bytes) \<Rightarrow> r2_delivery \<Rightarrow> bytes \<Rightarrow> int \<Rightarrow> string \<Rightarrow> string \<Rightarrow> r2_store \<Rightarrow>
   (run_error + string) \<times> r2_store" where
  "Deliver sha D staged sz want backupID s =
    (let tmp = incomingKey D backupID; fin = finalKey D backupID; (ok, s1) = rd_put D tmp staged s in
     if \<not> ok then (Inl [SUpload], s1)
     else case rd_get D tmp s1 of None \<Rightarrow> (Inl [SUploadVerify], s1)
     | Some back \<Rightarrow>
       if hex_encode (sha back) \<noteq> want then (Inl [SUploadVerify], s1)
       else let (ok2, s2) = rd_copy D tmp fin s1 in
       if \<not> ok2 then (Inl [SUploadVerify], s2)
       else case rd_head D fin s2 of None \<Rightarrow> (Inl [SUploadVerify], s2)
       | Some n \<Rightarrow>
         if n \<noteq> sz then (Inl [SUploadVerify], s2)
         else case rd_get D fin s2 of None \<Rightarrow> (Inl [SUploadVerify], s2)
         | Some final \<Rightarrow>
           (let got = take (nat sz + 1) final in
            if int (length got) \<noteq> sz then (Inl [SUploadVerify], s2)
            else if hex_encode (sha got) \<noteq> want then (Inl [SUploadVerify], s2)
            else (Inr fin, snd (rd_delete D tmp s2))))"

fun cleanup_objects :: "r2_delivery \<Rightarrow> time \<Rightarrow> (string \<times> time) list \<Rightarrow> nat \<times> bool \<Rightarrow> r2_store \<Rightarrow> (nat \<times> bool) \<times> r2_store" where
  "cleanup_objects D cutoff [] acc s = (acc, s)"
| "cleanup_objects D cutoff ((key, at) # os) (removed, failed) s =
    (if \<not> at < cutoff then cleanup_objects D cutoff os (removed, failed) s
     else let (ok, s') = rd_delete D key s in
          cleanup_objects D cutoff os (if ok then (Suc removed, failed) else (removed, True)) s')"

definition CleanupIncoming :: "r2_delivery \<Rightarrow> r2_store \<Rightarrow> (run_error + (nat \<times> bool)) \<times> r2_store" where
  "CleanupIncoming D s =
    (case rd_list D (rd_prefix D @ ''/incoming/'') s of None \<Rightarrow> (Inl [SUpload], s)
     | Some os \<Rightarrow> (let (r, s') = cleanup_objects D (rd_now D - ttl D) os (0, False) s in (Inr r, s')))"

section \<open>Building the archive\<close>

datatype build_step = StagingDir | InstanceID | SnapshotStep | SnapshotStat | SpaceWork | SpaceLocal | KeyCopy
  | SchemaRead | DigestRead | ManifestWrite | ArchiveCreate | HookStep | ExtractStep | HashStep

record run_env =
  re_fault :: "build_step \<Rightarrow> run_error option"
  re_app :: string
  re_arch :: string
  re_key :: bytes
  re_now :: string
  re_parse :: "string \<Rightarrow> time option"
  re_run_id :: "string \<Rightarrow> string"
  re_backup_id :: string
  re_instance :: string
  re_schema :: "backup_db \<Rightarrow> int"
  re_snapshot :: "backup_db \<Rightarrow> bytes"
  re_tree :: tree_env
  re_marshal :: "manifest \<Rightarrow> bytes"
  re_pack :: "(string \<times> bytes) list \<Rightarrow> string \<Rightarrow> bytes"
  re_hook :: "bytes \<Rightarrow> bytes"
  re_extract :: "bytes \<Rightarrow> string \<Rightarrow> extracted option"
  re_row_ok :: "string \<Rightarrow> bool"
  re_config_ok :: bool
  re_audit :: "audit_env option"
  re_publish :: publish_env
  re_removes :: "string \<Rightarrow> bool"

definition build_check :: "run_env \<Rightarrow> build_step \<Rightarrow> step_code \<Rightarrow> run_error + unit" where
  "build_check E s code = (case re_fault E s of None \<Rightarrow> Inr () | Some err \<Rightarrow> Inl (classifyStep err code))"

definition digest_of :: "run_env \<Rightarrow> string \<Rightarrow> bytes \<Rightarrow> manifest_file" where
  "digest_of E p raw = \<lparr>mf_path = p, mf_size = int (length raw), mf_sha256 = hex_encode (te_sha256 (re_tree E) raw)\<rparr>"

definition verifyArchive :: "run_env \<Rightarrow> bytes \<Rightarrow> string \<Rightarrow> manifest \<Rightarrow> run_error + unit" where
  "verifyArchive E archive pass m =
    andthen (build_check E ExtractStep CodeVerify) (\<lambda>_.
    andthen (from_option (classifyStep [] CodeVerify) (re_extract E archive pass)) (\<lambda>x.
    let want = ManifestPath # map mf_path (mn_files m); got = plain_entries x in
    andthen (ensure (list_all (\<lambda>p. p \<in> set want) got) [SVerify]) (\<lambda>_.
    andthen (ensure (list_all (\<lambda>p. p \<in> set got) want) [SVerify]) (\<lambda>_.
    andthen (map_err (\<lambda>_. classifyStep [] CodeVerify) (readManifestFile (re_tree E) x)) (\<lambda>m'.
    andthen (ensure (mn_backup m' = mn_backup m) [SVerify]) (\<lambda>_.
    andthen (map_err (\<lambda>_. [SVerify]) (check_digests (re_tree E) x (mn_files m'))) (\<lambda>_.
    ensure (ex_integrity x) [SVerify])))))))"

definition build_manifest :: "run_env \<Rightarrow> backup_db \<Rightarrow> string \<Rightarrow> bytes \<Rightarrow> manifest" where
  "build_manifest E d instance_id snap =
    \<lparr>mn_format = FormatVersion, mn_app = re_app E, mn_schema = re_schema E d, mn_backup = re_backup_id E,
      mn_created = re_now E, mn_instance = instance_id, mn_arch = re_arch E,
      mn_files = [digest_of E SnapshotPath snap, digest_of E MasterKeyPath (re_key E)]\<rparr>"

definition pack_and_verify ::
  "run_env \<Rightarrow> string list \<Rightarrow> string \<Rightarrow> string \<Rightarrow> backup_db \<Rightarrow> run_error + (bytes \<times> manifest)" where
  "pack_and_verify E targets pass instance_id d =
    andthen (build_check E SnapshotStep CodeSnapshot) (\<lambda>_.
    andthen (build_check E SnapshotStat CodeSnapshot) (\<lambda>_.
    andthen (build_check E SpaceWork CodeSpaceStep) (\<lambda>_.
    andthen (if TargetLocal \<in> set targets then build_check E SpaceLocal CodeSpaceStep else Inr ()) (\<lambda>_.
    andthen (build_check E KeyCopy CodeOther) (\<lambda>_.
    andthen (build_check E SchemaRead CodeOther) (\<lambda>_.
    andthen (build_check E DigestRead CodeOther) (\<lambda>_.
    andthen (build_check E ManifestWrite CodeOther) (\<lambda>_.
    andthen (build_check E ArchiveCreate CodeArchive) (\<lambda>_.
    andthen (build_check E HookStep CodeVerify) (\<lambda>_.
    let snap = re_snapshot E d; m = build_manifest E d instance_id snap;
        archive = re_hook E (re_pack E [(SnapshotPath, snap), (MasterKeyPath, re_key E),
                    (ManifestPath, re_marshal E m)] pass) in
    andthen (verifyArchive E archive pass m) (\<lambda>_.
    andthen (build_check E HashStep CodeOther) (\<lambda>_. Inr (archive, m)))))))))))))"

definition buildAndVerifyArchive ::
  "run_env \<Rightarrow> string list \<Rightarrow> string \<Rightarrow> backup_db \<Rightarrow> (run_error + (bytes \<times> manifest)) \<times> backup_db" where
  "buildAndVerifyArchive E targets pass d =
    (case re_fault E StagingDir of Some _ \<Rightarrow> (Inl [SInternal], d)
     | None \<Rightarrow>
       (case re_fault E InstanceID of Some err \<Rightarrow> (Inl (classifyStep err CodeOther), d)
        | None \<Rightarrow>
          (case EnsureInstanceID (re_instance E) (bd_main d) (bd_main d) of
             (None, m) \<Rightarrow> (Inl (classifyStep [] CodeOther), d\<lparr>bd_main := m\<rparr>)
           | (Some i, m) \<Rightarrow> (pack_and_verify E targets pass i (d\<lparr>bd_main := m\<rparr>), d\<lparr>bd_main := m\<rparr>))))"

section \<open>Retention on a target\<close>

record world =
  wd_db :: backup_db
  wd_local :: "local_file list"
  wd_r2 :: r2_store

definition trim_suffix :: "string \<Rightarrow> string \<Rightarrow> string" where
  "trim_suffix suf s = (if has_suffix suf s then take (length s - length suf) s else s)"

definition auditRetention :: "audit_env option \<Rightarrow> string \<Rightarrow> backup_db \<Rightarrow> backup_db" where
  "auditRetention A ref d = backup_audit A ''backup.retention.deleted'' ref ''success'' d"

text \<open>The listing newest first; the first file is always spared.\<close>

definition local_archives :: "local_file list \<Rightarrow> local_file list" where
  "local_archives t = rev (sort_key lf_mod (filter (\<lambda>f. has_suffix ''.7z'' (lf_name f)) t))"

fun reconcile_files :: "run_env \<Rightarrow> string list \<Rightarrow> local_file list \<Rightarrow> world \<Rightarrow> world" where
  "reconcile_files E keep [] w = w"
| "reconcile_files E keep (f # fs) w =
    (if trim_suffix ''.7z'' (lf_name f) \<in> set keep then reconcile_files E keep fs w
     else if \<not> re_removes E (lf_name f) then reconcile_files E keep fs w
     else reconcile_files E keep fs
       (w\<lparr>wd_local := remove_local (lf_name f) (wd_local w),
          wd_db := auditRetention (re_audit E) (trim_suffix ''.7z'' (lf_name f)) (wd_db w)\<rparr>))"

definition reconcileLocal :: "run_env \<Rightarrow> string list \<Rightarrow> world \<Rightarrow> world" where
  "reconcileLocal E keep w = reconcile_files E keep (drop 1 (local_archives (wd_local w))) w"

definition final_stem :: "string \<Rightarrow> string \<Rightarrow> string option" where
  "final_stem prefix key =
    (let p = trim_suffix ''/'' prefix @ ''/''; rel = drop (length p) key in
     if \<not> has_prefix p key \<or> CHR ''/'' \<in> set rel \<or> \<not> has_suffix ''.7z'' rel then None
     else Some (trim_suffix ''.7z'' rel))"

fun reconcile_objects :: "run_env \<Rightarrow> r2_delivery \<Rightarrow> string list \<Rightarrow> bool \<Rightarrow> string list \<Rightarrow> world \<Rightarrow> world" where
  "reconcile_objects E D keep first [] w = w"
| "reconcile_objects E D keep first (k # ks) w =
    (case final_stem (rd_prefix D) k of
       None \<Rightarrow> reconcile_objects E D keep first ks w
     | Some stem \<Rightarrow>
         if first \<or> stem \<in> set keep then reconcile_objects E D keep False ks w
         else (let (ok, s) = rd_delete D k (wd_r2 w) in
           reconcile_objects E D keep False ks
             (if ok then w\<lparr>wd_r2 := s, wd_db := auditRetention (re_audit E) k (wd_db w)\<rparr> else w\<lparr>wd_r2 := s\<rparr>)))"

definition reconcileR2 :: "run_env \<Rightarrow> r2_delivery \<Rightarrow> string list \<Rightarrow> world \<Rightarrow> world" where
  "reconcileR2 E D keep w =
    (case rd_list D (rd_prefix D @ ''/'') (wd_r2 w) of None \<Rightarrow> w
     | Some os \<Rightarrow> reconcile_objects E D keep True (map fst (rev (sort_key snd os))) w)"

record run_input =
  ri_targets :: "string list"
  ri_trigger :: string
  ri_pass :: string
  ri_dir :: string
  ri_r2 :: "r2_delivery option"

fun parsed_runs :: "run_env \<Rightarrow> run_row list \<Rightarrow> candidate list" where
  "parsed_runs E [] = []"
| "parsed_runs E (r # rs) =
    (case re_parse E (br_started r) of None \<Rightarrow> parsed_runs E rs
     | Some t \<Rightarrow> \<lparr>rc_ref = br_id r, rc_at = t\<rparr> # parsed_runs E rs)"

definition ApplyRetention :: "run_env \<Rightarrow> string \<Rightarrow> run_input \<Rightarrow> world \<Rightarrow> world" where
  "ApplyRetention E target inp w =
    (if \<not> re_config_ok E then w
     else let (cs, d) = LoadJobConfigs (wd_db w); w1 = w\<lparr>wd_db := d\<rparr> in
     case find (\<lambda>c. jc_target c = target) cs of None \<Rightarrow> w1
     | Some cfg \<Rightarrow>
        (let runs = parsed_runs E (filter (\<lambda>r. br_target r = target \<and> br_status r = ''succeeded'') (bd_runs d));
             keep = RetentionKeepSet runs (jc_daily cfg) (jc_weekly cfg) (jc_monthly cfg) in
         if runs = [] then w1
         else if target = TargetLocal then reconcileLocal E keep w1
         else if target = TargetR2 then
           (case ri_r2 inp of None \<Rightarrow> w1 | Some D \<Rightarrow> reconcileR2 E D keep w1)
         else w1))"

section \<open>Delivery and the run\<close>

record target_result =
  tr_target :: string
  tr_path :: string
  tr_size :: int
  tr_sha :: string
  tr_err :: "run_error option"

definition deliverTarget ::
  "run_env \<Rightarrow> run_input \<Rightarrow> bytes \<Rightarrow> string \<Rightarrow> world \<Rightarrow> target_result \<times> world" where
  "deliverTarget E inp archive target w =
    (let sha = te_sha256 (re_tree E); runID = re_run_id E target;
         sz = int (length archive); digest = hex_encode (sha archive);
         (res, w1) =
           (if target = TargetLocal then
              (let (r, t) = Publish sha (re_publish E) (ri_dir inp) archive (runID @ ''.7z'') (wd_local w)
               in (map_err id r, w\<lparr>wd_local := t\<rparr>))
            else if target = TargetR2 then
              (case ri_r2 inp of None \<Rightarrow> (Inl [SInput], w)
               | Some D \<Rightarrow> (let (r, s) = Deliver sha D archive sz digest runID (wd_r2 w)
                   in (andthen r (\<lambda>k. Inr (k, sz, digest)), w\<lparr>wd_r2 := s\<rparr>)))
            else (Inl [SInput], w))
     in case res of
       Inl err \<Rightarrow> (\<lparr>tr_target = target, tr_path = '''', tr_size = (if target = TargetLocal then 0 else sz),
                     tr_sha = (if target = TargetLocal then '''' else digest), tr_err = Some err\<rparr>,
                   w1\<lparr>wd_db := failRun (re_audit E) (re_row_ok E runID) (re_now E) runID (errorCode err) (wd_db w1)\<rparr>)
     | Inr (path, n, d) \<Rightarrow>
        (\<lparr>tr_target = target, tr_path = path, tr_size = n, tr_sha = d, tr_err = None\<rparr>,
         ApplyRetention E target inp
           (w1\<lparr>wd_db := succeedRun (re_audit E) (re_row_ok E runID) (re_now E) runID n d (wd_db w1)\<rparr>)))"

fun deliver_all :: "run_env \<Rightarrow> run_input \<Rightarrow> bytes \<Rightarrow> string list \<Rightarrow> world \<Rightarrow> target_result list \<times> world" where
  "deliver_all E inp archive [] w = ([], w)"
| "deliver_all E inp archive (t # ts) w =
    (let (r, w1) = deliverTarget E inp archive t w; (rs, w2) = deliver_all E inp archive ts w1 in (r # rs, w2))"

fun open_rows :: "run_env \<Rightarrow> string \<Rightarrow> string list \<Rightarrow> backup_db \<Rightarrow> bool \<times> backup_db" where
  "open_rows E trigger [] d = (True, d)"
| "open_rows E trigger (t # ts) d =
    (case insertRunningRow (re_row_ok E (re_run_id E t)) (re_now E) (re_run_id E t) t trigger d of
       None \<Rightarrow> (False, d) | Some d' \<Rightarrow> open_rows E trigger ts d')"

fun fail_rows :: "run_env \<Rightarrow> string \<Rightarrow> string list \<Rightarrow> backup_db \<Rightarrow> backup_db" where
  "fail_rows E code [] d = d"
| "fail_rows E code (t # ts) d =
    fail_rows E code ts (failRun (re_audit E) (re_row_ok E (re_run_id E t)) (re_now E) (re_run_id E t) code d)"

fun dedup_from :: "string list \<Rightarrow> string list \<Rightarrow> string list" where
  "dedup_from seen [] = []"
| "dedup_from seen (t # ts) =
    (if t \<in> set seen then dedup_from seen ts else t # dedup_from (t # seen) ts)"

definition dedupTargets :: "string list \<Rightarrow> string list" where
  "dedupTargets ts = dedup_from [] ts"

record run_summary =
  sm_backup :: string
  sm_results :: "target_result list"

definition run_body :: "run_env \<Rightarrow> run_input \<Rightarrow> world \<Rightarrow> (run_error + run_summary) \<times> world" where
  "run_body E inp w =
    (let ts = dedupTargets (ri_targets inp); (ok, d1) = open_rows E (ri_trigger inp) ts (wd_db w) in
     if \<not> ok then (Inl [SRow], w\<lparr>wd_db := d1\<rparr>)
     else case buildAndVerifyArchive E ts (ri_pass inp) d1 of
       (Inl err, d2) \<Rightarrow> (Inl err, w\<lparr>wd_db := fail_rows E (errorCode err) ts d2\<rparr>)
     | (Inr (archive, m), d2) \<Rightarrow>
        (let (rs, w3) = deliver_all E inp archive (ri_targets inp) (w\<lparr>wd_db := d2\<rparr>)
         in (Inr \<lparr>sm_backup = mn_backup m, sm_results = rs\<rparr>, w3)))"

definition hasLineBreak :: "string \<Rightarrow> bool" where
  "hasLineBreak s \<longleftrightarrow> list_ex (\<lambda>c. c = CHR 0x0A \<or> c = CHR 0x0D) s"

fun check_targets :: "run_input \<Rightarrow> string list \<Rightarrow> run_error + unit" where
  "check_targets inp [] = Inr ()"
| "check_targets inp (t # ts) =
    (if t = TargetLocal then (if ri_dir inp = '''' then Inl [SInput] else check_targets inp ts)
     else if t = TargetR2 then (if ri_r2 inp = None then Inl [SInput] else check_targets inp ts)
     else Inl [SInput])"

definition check_shape :: "run_input \<Rightarrow> run_error + unit" where
  "check_shape inp =
    andthen (ensure (ri_trigger inp = TriggerManual \<or> ri_trigger inp = TriggerScheduled) [SInput]) (\<lambda>_.
    andthen (ensure (ri_targets inp \<noteq> []) [SInput]) (\<lambda>_.
    check_targets inp (dedupTargets (ri_targets inp))))"

definition ValidateRunInput :: "run_input \<Rightarrow> run_error + unit" where
  "ValidateRunInput inp =
    andthen (check_shape inp) (\<lambda>_.
    ensure (ri_pass inp \<noteq> '''' \<and> \<not> hasLineBreak (ri_pass inp)) [SPassphrase])"

text \<open>\<open>busy\<close>: another run holds the process mutex.\<close>

definition Run :: "run_env \<Rightarrow> bool \<Rightarrow> run_input \<Rightarrow> world \<Rightarrow> (run_error + run_summary) \<times> world" where
  "Run E busy inp w =
    (let inp' = inp\<lparr>ri_targets := dedupTargets (ri_targets inp)\<rparr> in
     case check_shape inp' of Inl err \<Rightarrow> (Inl err, w)
     | Inr _ \<Rightarrow>
       if ri_pass inp' = '''' \<or> hasLineBreak (ri_pass inp') then
         (Inl [SPassphrase], w\<lparr>wd_db := recordFailures (re_audit E) (\<lambda>t. re_row_ok E (re_run_id E t)) (re_now E)
            (re_run_id E) (ri_trigger inp') (errorCode [SPassphrase]) (dedupTargets (ri_targets inp')) (wd_db w)\<rparr>)
       else if busy then (Inl [SBusy], w)
       else run_body E inp' w)"

text \<open>\<open>RunAsync\<close>: whether a run is started, and the run itself.\<close>

definition RunAsync :: "bool \<Rightarrow> run_input \<Rightarrow> run_error + bool" where
  "RunAsync busy inp =
    andthen (ValidateRunInput (inp\<lparr>ri_targets := dedupTargets (ri_targets inp)\<rparr>)) (\<lambda>_. Inr (\<not> busy))"

definition scheduledInput ::
  "string \<Rightarrow> string \<Rightarrow> (run_error + r2_delivery option) option \<Rightarrow> string \<Rightarrow> run_error + run_input" where
  "scheduledInput pass dir resolver target =
    (let base = \<lparr>ri_targets = [target], ri_trigger = TriggerScheduled, ri_pass = pass, ri_dir = '''', ri_r2 = None\<rparr> in
     if pass = '''' then Inl [SInput]
     else if target = TargetLocal then Inr (base\<lparr>ri_dir := dir\<rparr>)
     else if target = TargetR2 then
       (case resolver of None \<Rightarrow> Inl [SInput] | Some (Inl e) \<Rightarrow> Inl e | Some (Inr None) \<Rightarrow> Inl [SInput]
        | Some (Inr (Some D)) \<Rightarrow> Inr (base\<lparr>ri_r2 := Some D\<rparr>))
     else Inl [SInput])"

end
