(* ===== verification/BackupSafety.thy ===== *)
theory BackupSafety
  imports BackupRun
begin

text \<open>
  What a backup run leaves behind: the rows of the run, the published archive and the files that
  the retention removed.
\<close>

section \<open>Frames\<close>

lemma backup_audit_frame [simp]:
  "bd_runs (backup_audit A n t r d) = bd_runs d" "bd_jobs (backup_audit A n t r d) = bd_jobs d"
  by (auto simp: backup_audit_def split: option.splits sum.splits)

lemma auditRun_frame [simp]: "bd_runs (auditRun A i r d) = bd_runs d"
  by (simp add: auditRun_def)

lemma auditRetention_frame [simp]: "bd_runs (auditRetention A i d) = bd_runs d"
  by (simp add: auditRetention_def)

lemma LoadJobConfigs_runs [simp]: "bd_runs (snd (LoadJobConfigs d)) = bd_runs d"
  by (simp add: LoadJobConfigs_def Let_def)

lemma reconcile_files_runs [simp]: "bd_runs (wd_db (reconcile_files E keep fs w)) = bd_runs (wd_db w)"
  by (induction E keep fs w rule: reconcile_files.induct) auto

lemma reconcile_objects_frame [simp]:
  "bd_runs (wd_db (reconcile_objects E D keep first ks w)) = bd_runs (wd_db w)"
  "wd_local (reconcile_objects E D keep first ks w) = wd_local w"
  by (induction E D keep first ks w rule: reconcile_objects.induct)
     (auto simp: split_beta split: option.splits)

lemma reconcileR2_frame [simp]:
  "bd_runs (wd_db (reconcileR2 E D keep w)) = bd_runs (wd_db w)" "wd_local (reconcileR2 E D keep w) = wd_local w"
  by (auto simp: reconcileR2_def split: option.splits)

lemma ApplyRetention_runs [simp]: "bd_runs (wd_db (ApplyRetention E t inp w)) = bd_runs (wd_db w)"
  by (auto simp: ApplyRetention_def Let_def split_beta reconcileLocal_def split: option.splits)

lemma ApplyRetention_other: "t \<noteq> TargetLocal \<Longrightarrow> wd_local (ApplyRetention E t inp w) = wd_local w"
  by (auto simp: ApplyRetention_def Let_def split_beta split: option.splits)

text \<open>Whether the reconciliation removes a file of the listing.\<close>

definition removes :: "run_env \<Rightarrow> string list \<Rightarrow> string \<Rightarrow> bool" where
  "removes E keep n \<longleftrightarrow> trim_suffix ''.7z'' n \<notin> set keep \<and> re_removes E n"

lemma reconcile_files_local:
  "wd_local (reconcile_files E keep fs w) =
     filter (\<lambda>f. \<not> (removes E keep (lf_name f) \<and> lf_name f \<in> lf_name ` set fs)) (wd_local w)"
proof (induction fs arbitrary: w)
  case (Cons f fs)
  show ?case
  proof (cases "removes E keep (lf_name f)")
    case True
    then show ?thesis
      by (simp add: Cons removes_def remove_local_def filter_filter) (rule filter_cong, auto)
  next
    case False
    then have "wd_local (reconcile_files E keep (f # fs) w) = wd_local (reconcile_files E keep fs w)"
      by (auto simp: removes_def)
    also have "\<dots> = filter (\<lambda>g. \<not> (removes E keep (lf_name g) \<and> lf_name g \<in> lf_name ` set (f # fs))) (wd_local w)"
      unfolding Cons by (rule filter_cong) (use False in auto)
    finally show ?thesis .
  qed
qed simp

section \<open>The run rows\<close>

lemma update_middle:
  assumes "br_id r = i" and "i \<notin> br_id ` set (xs @ ys)"
  shows "sql_update (\<lambda>r. br_id r = i) f (xs @ r # ys) = xs @ f r # ys"
proof -
  have keep: "map (\<lambda>r. if br_id r = i then f r else r) zs = zs" if "i \<notin> br_id ` set zs" for zs
    using that by (intro map_idI) (auto simp: image_iff)
  from assms(2) have "i \<notin> br_id ` set xs" "i \<notin> br_id ` set ys" by auto
  with assms(1) show ?thesis by (simp add: sql_update_def keep)
qed

definition result_row :: "target_result \<Rightarrow> run_row \<Rightarrow> bool" where
  "result_row t r \<longleftrightarrow> br_target r = tr_target t \<and>
     (case tr_err t of
       None \<Rightarrow> br_status r = ''succeeded'' \<and> br_size r = Some (tr_size t) \<and> br_sha r = Some (tr_sha t)
     | Some e \<Rightarrow> br_status r = ''failed'' \<and> br_code r = Some (errorCode e))"

definition running_row :: "run_env \<Rightarrow> string \<Rightarrow> string \<Rightarrow> run_row" where
  "running_row E trigger t = \<lparr>br_id = re_run_id E t, br_target = t, br_status = ''running'', br_trigger = trigger,
     br_started = re_now E, br_finished = None, br_size = None, br_sha = None, br_code = None\<rparr>"

lemma running_row_simps [simp]:
  "br_id (running_row E trg t) = re_run_id E t" "br_target (running_row E trg t) = t"
  by (simp_all add: running_row_def)

lemma insertRunningRow_SomeD:
  "insertRunningRow ok (re_now E) (re_run_id E t) t trigger d = Some d' \<Longrightarrow>
     bd_runs d' = bd_runs d @ [running_row E trigger t]"
  by (auto simp: insertRunningRow_def insert_run_def sql_simps running_row_def split: if_splits option.splits sum.splits)

lemma open_rows_True:
  "open_rows E trigger ts d = (True, d') \<Longrightarrow> bd_runs d' = bd_runs d @ map (running_row E trigger) ts"
proof (induction ts arbitrary: d)
  case (Cons t ts)
  from Cons.prems obtain d1 where "insertRunningRow (re_row_ok E (re_run_id E t)) (re_now E) (re_run_id E t) t trigger d = Some d1"
    and "open_rows E trigger ts d1 = (True, d')" by (auto split: option.splits)
  with Cons.IH[OF this(2)] show ?case by (simp add: insertRunningRow_SomeD)
qed simp

text \<open>The two halves of \<open>deliverTarget\<close>: delivery to the target, and the bookkeeping.\<close>

lemma deliverTarget_cases:
  assumes "deliverTarget E inp archive t w = (r, w')"
  obtains (failed) err w1 where "tr_err r = Some err" "wd_db w1 = wd_db w" "tr_target r = t"
      "w' = w1\<lparr>wd_db := failRun (re_audit E) (re_row_ok E (re_run_id E t)) (re_now E) (re_run_id E t) (errorCode err) (wd_db w)\<rparr>"
      "t \<noteq> TargetLocal \<longrightarrow> wd_local w1 = wd_local w"
    | (delivered) n d w1 where "tr_err r = None" "wd_db w1 = wd_db w" "tr_target r = t" "tr_size r = n" "tr_sha r = d"
      "w' = ApplyRetention E t inp (w1\<lparr>wd_db := succeedRun (re_audit E) (re_row_ok E (re_run_id E t)) (re_now E) (re_run_id E t) n d (wd_db w)\<rparr>)"
      "t \<noteq> TargetLocal \<longrightarrow> wd_local w1 = wd_local w"
      "t = TargetLocal \<longrightarrow> (\<exists>p. Publish (te_sha256 (re_tree E)) (re_publish E) (ri_dir inp) archive (re_run_id E t @ ''.7z'') (wd_local w)
         = (Inr (p, n, d), wd_local w1))"
proof (cases "t = TargetLocal")
  case True
  obtain x u where p: "Publish (te_sha256 (re_tree E)) (re_publish E) (ri_dir inp) archive (re_run_id E t @ ''.7z'') (wd_local w) = (x, u)"
    by (cases "Publish (te_sha256 (re_tree E)) (re_publish E) (ri_dir inp) archive (re_run_id E t @ ''.7z'') (wd_local w)") auto
  show thesis
  proof (cases x)
    case (Inl err)
    show thesis
      by (rule failed[of err "w\<lparr>wd_local := u\<rparr>"]) (use assms p Inl True in \<open>auto simp: deliverTarget_def Let_def\<close>)
  next
    case (Inr y)
    obtain q n d where y: "y = (q, n, d)" by (cases y)
    show thesis
      by (rule delivered[of "w\<lparr>wd_local := u\<rparr>" n d])
         (use assms p Inr True in \<open>auto simp: deliverTarget_def Let_def y\<close>)
  qed
next
  case F: False
  show thesis
  proof (cases "t = TargetR2 \<and> ri_r2 inp \<noteq> None")
    case False
    then have no: "(if t = TargetR2 then case ri_r2 inp of None \<Rightarrow> (Inl [SInput], w) | Some D \<Rightarrow> f D
        else (Inl [SInput], w)) = (Inl [SInput], w)" for f :: "r2_delivery \<Rightarrow> (run_error + string \<times> int \<times> string) \<times> world"
      by auto
    show thesis
      by (rule failed[of "[SInput]" w]) (use assms F in \<open>auto simp: deliverTarget_def Let_def no\<close>)
  next
    case True
    then obtain D where D: "t = TargetR2" "ri_r2 inp = Some D" by auto
    let ?sha = "te_sha256 (re_tree E)"
    obtain x s where p: "Deliver ?sha D archive (int (length archive)) (hex_encode (?sha archive)) (re_run_id E t) (wd_r2 w) = (x, s)"
      by (cases "Deliver ?sha D archive (int (length archive)) (hex_encode (?sha archive)) (re_run_id E t) (wd_r2 w)") auto
    show thesis
    proof (cases x)
      case (Inl err)
      show thesis
        by (rule failed[of err "w\<lparr>wd_r2 := s\<rparr>"]) (use assms p Inl D in \<open>auto simp: deliverTarget_def Let_def\<close>)
    next
      case (Inr k)
      show thesis
        by (rule delivered[of "w\<lparr>wd_r2 := s\<rparr>" "int (length archive)" "hex_encode (?sha archive)"])
           (use assms p Inr D in \<open>auto simp: deliverTarget_def Let_def\<close>)
    qed
  qed
qed

lemma deliverTarget_row:
  assumes d: "deliverTarget E inp archive t w = (r, w')"
    and runs: "bd_runs (wd_db w) = xs @ running_row E trg t # ys"
    and fresh: "re_run_id E t \<notin> br_id ` set (xs @ ys)" and ok: "re_row_ok E (re_run_id E t)"
  shows "\<exists>row. bd_runs (wd_db w') = xs @ row # ys \<and> br_id row = re_run_id E t \<and> result_row r row"
proof -
  have up: "bd_runs (update_run True (re_run_id E t) f (wd_db w)) = xs @ f (running_row E trg t) # ys" for f
    using update_middle[of "running_row E trg t" "re_run_id E t" xs ys f] fresh runs
    by (simp add: update_run_def running_row_def)
  from d show ?thesis
  proof (cases rule: deliverTarget_cases)
    case (failed err w1)
    then show ?thesis using up ok by (auto simp: failRun_def running_row_def result_row_def)
  next
    case (delivered n dg w1)
    then show ?thesis using up ok by (auto simp: succeedRun_def running_row_def result_row_def)
  qed
qed

lemma deliver_all_rows:
  assumes "deliver_all E inp archive ts w = (rs, w')"
    and "bd_runs (wd_db w) = xs @ map (running_row E trg) ts"
    and "distinct (map (re_run_id E) ts)" and "re_run_id E ` set ts \<inter> br_id ` set xs = {}"
    and "\<forall>t \<in> set ts. re_row_ok E (re_run_id E t)"
  shows "\<exists>rows. bd_runs (wd_db w') = xs @ rows \<and> map br_id rows = map (re_run_id E) ts \<and> list_all2 result_row rs rows"
  using assms
proof (induction ts arbitrary: w xs rs)
  case Nil
  then show ?case by simp
next
  case (Cons t ts)
  obtain r w1 rs' where d: "deliverTarget E inp archive t w = (r, w1)" and rest: "deliver_all E inp archive ts w1 = (rs', w')"
    and rs: "rs = r # rs'" using Cons.prems(1) by (auto split: prod.splits)
  have runs: "bd_runs (wd_db w) = xs @ running_row E trg t # map (running_row E trg) ts" using Cons.prems(2) by simp
  have fresh: "re_run_id E t \<notin> br_id ` set (xs @ map (running_row E trg) ts)"
    using Cons.prems(3,4) by (auto simp: running_row_def)
  from deliverTarget_row[OF d runs fresh] Cons.prems(5) obtain row where
    row: "bd_runs (wd_db w1) = xs @ row # map (running_row E trg) ts" "br_id row = re_run_id E t" "result_row r row" by auto
  have "\<exists>rows. bd_runs (wd_db w') = (xs @ [row]) @ rows \<and> map br_id rows = map (re_run_id E) ts \<and> list_all2 result_row rs' rows"
    by (rule Cons.IH[OF rest]) (use row Cons.prems(3,4,5) in auto)
  with row(2,3) rs show ?case by (metis append_Cons append_assoc append_Nil list.rel_intros(2) list.simps(9))
qed

lemma fail_rows_rows:
  assumes "bd_runs d = xs @ map (running_row E trg) ts" and "distinct (map (re_run_id E) ts)"
    and "re_run_id E ` set ts \<inter> br_id ` set xs = {}" and "\<forall>t \<in> set ts. re_row_ok E (re_run_id E t)"
  shows "\<exists>rows. bd_runs (fail_rows E code ts d) = xs @ rows \<and> map br_id rows = map (re_run_id E) ts \<and>
     (\<forall>r \<in> set rows. br_status r = ''failed'' \<and> br_code r = Some code)"
  using assms
proof (induction ts arbitrary: d xs)
  case (Cons t ts)
  let ?d = "failRun (re_audit E) (re_row_ok E (re_run_id E t)) (re_now E) (re_run_id E t) code d"
  let ?r = "running_row E trg t\<lparr>br_status := ''failed'', br_finished := Some (re_now E), br_code := Some code\<rparr>"
  have fresh: "re_run_id E t \<notin> br_id ` set (xs @ map (running_row E trg) ts)"
    using Cons.prems(2,3) by (auto simp: running_row_def)
  have "bd_runs ?d = xs @ ?r # map (running_row E trg) ts"
    using update_middle[OF running_row_simps(1) fresh] Cons.prems(1,4) by (simp add: failRun_def update_run_def)
  then have "\<exists>rows. bd_runs (fail_rows E code ts ?d) = (xs @ [?r]) @ rows \<and> map br_id rows = map (re_run_id E) ts \<and>
     (\<forall>r \<in> set rows. br_status r = ''failed'' \<and> br_code r = Some code)"
    by (intro Cons.IH) (use Cons.prems in auto)
  then obtain rows where "bd_runs (fail_rows E code ts ?d) = xs @ ?r # rows" "map br_id rows = map (re_run_id E) ts"
    "\<forall>r \<in> set rows. br_status r = ''failed'' \<and> br_code r = Some code" by auto
  then show ?case by (intro exI[of _ "?r # rows"]) simp
qed simp

lemma dedup_from_spec:
  "distinct (dedup_from seen ts) \<and> set (dedup_from seen ts) = set ts - set seen"
  by (induction seen ts rule: dedup_from.induct) auto

lemma dedup_from_id: "distinct ts \<Longrightarrow> set ts \<inter> set seen = {} \<Longrightarrow> dedup_from seen ts = ts"
  by (induction seen ts rule: dedup_from.induct) auto

lemma dedupTargets_spec [simp]: "distinct (dedupTargets ts)" "set (dedupTargets ts) = set ts"
  using dedup_from_spec[of "[]" ts] by (simp_all add: dedupTargets_def)

lemma dedupTargets_idem [simp]: "dedupTargets (dedupTargets ts) = dedupTargets ts"
  using dedup_from_id[of "dedupTargets ts" "[]"] by (simp add: dedupTargets_def[of "dedupTargets ts"])

lemma check_targets_set: "check_targets i l = Inr () \<Longrightarrow> t \<in> set l \<Longrightarrow> t = TargetLocal \<or> t = TargetR2"
  by (induction i l rule: check_targets.induct) (auto split: if_splits)

lemma check_shape_dedup: "check_shape (inp\<lparr>ri_targets := dedupTargets (ri_targets inp)\<rparr>) = check_shape inp"
proof -
  have "check_targets (inp\<lparr>ri_targets := x\<rparr>) l = check_targets inp l" for x l by (induction l) auto
  moreover have "dedupTargets (ri_targets inp) = [] \<longleftrightarrow> ri_targets inp = []"
    by (metis dedupTargets_spec(2) set_empty)
  ultimately show ?thesis by (simp add: check_shape_def)
qed

lemma buildAndVerifyArchive_runs: "bd_runs (snd (buildAndVerifyArchive E ts pass d)) = bd_runs d"
  by (auto simp: buildAndVerifyArchive_def split: option.splits prod.splits)

text \<open>C25: No run is left open.  When the row statements succeed, a started run adds one row for each target, with
  its fresh id, and closes all of them: if the archive could not be built and verified every one is
  failed with the code of that error, otherwise each is succeeded with the delivered size and digest
  or failed with its own delivery error, independently of the other targets.  The earlier rows do not change.\<close>

theorem run_rows_settled:
  assumes run: "Run E False inp w = (res, w')" and ok: "check_shape inp = Inr ()" "ri_pass inp \<noteq> ''''" "\<not> hasLineBreak (ri_pass inp)"
    and ts: "ts = dedupTargets (ri_targets inp)" and ids: "inj_on (re_run_id E) (set ts)"
    and fresh: "re_run_id E ` set ts \<inter> br_id ` set (bd_runs (wd_db w)) = {}"
    and rows_ok: "\<forall>t \<in> set ts. re_row_ok E (re_run_id E t)"
  shows "\<exists>rows. bd_runs (wd_db w') = bd_runs (wd_db w) @ rows \<and> map br_id rows = map (re_run_id E) ts \<and>
     (case res of Inl err \<Rightarrow> (\<forall>r \<in> set rows. br_status r = ''failed'' \<and> br_code r = Some (errorCode err))
      | Inr sm \<Rightarrow> list_all2 result_row (sm_results sm) rows)"
proof -
  let ?inp = "inp\<lparr>ri_targets := ts\<rparr>"
  have dd: "dedupTargets ts = ts" and dist: "distinct ts" by (simp_all add: ts)
  then have di: "distinct (map (re_run_id E) ts)" using ids by (simp add: distinct_map)
  have targets: "set ts \<subseteq> {TargetLocal, TargetR2}" and trig: "ri_trigger inp \<in> {TriggerManual, TriggerScheduled}"
    using ok(1) check_targets_set[of inp "dedupTargets (ri_targets inp)"] by (auto simp: check_shape_def result_Inr ts)
  have shape: "check_shape ?inp = Inr ()" using ok(1) by (simp add: ts check_shape_dedup)
  with run ok(2,3) have body: "run_body E ?inp w = (res, w')" by (simp add: Run_def ts)
  have open_ok: "\<exists>d'. open_rows E (ri_trigger inp) us d = (True, d')"
    if "set us \<subseteq> set ts" "distinct us" "re_run_id E ` set us \<inter> br_id ` set (bd_runs d) = {}" for us d
    using that
  proof (induction us arbitrary: d)
    case (Cons t us)
    have "run_check (running_row E (ri_trigger inp) t)"
      using targets trig Cons.prems(1) by (auto simp: run_check_def running_row_def run_statuses_def)
    then have "insertRunningRow (re_row_ok E (re_run_id E t)) (re_now E) (re_run_id E t) t (ri_trigger inp) d =
        Some (d\<lparr>bd_runs := bd_runs d @ [running_row E (ri_trigger inp) t]\<rparr>)"
      using rows_ok Cons.prems(1,3)
      by (auto simp: insertRunningRow_def insert_run_def sql_insert_def running_row_def)
    moreover have "re_run_id E t \<notin> re_run_id E ` set us"
      using Cons.prems(1,2) ids by (auto simp: inj_on_def)
    ultimately show ?case using Cons.IH[of "d\<lparr>bd_runs := bd_runs d @ [running_row E (ri_trigger inp) t]\<rparr>"] Cons.prems
      by (auto simp: running_row_def)
  qed simp
  from open_ok[OF subset_refl dist fresh] obtain d1 where o: "open_rows E (ri_trigger inp) ts (wd_db w) = (True, d1)" by blast
  note R1 = open_rows_True[OF o]
  obtain b d2 where b: "buildAndVerifyArchive E ts (ri_pass inp) d1 = (b, d2)" by (cases "buildAndVerifyArchive E ts (ri_pass inp) d1") auto
  then have R2: "bd_runs d2 = bd_runs (wd_db w) @ map (running_row E (ri_trigger inp)) ts"
    using buildAndVerifyArchive_runs[of E ts "ri_pass inp" d1] R1 by simp
  show ?thesis
  proof (cases b)
    case (Inl err)
    with body o b have "res = Inl err" "wd_db w' = fail_rows E (errorCode err) ts d2"
      by (auto simp: run_body_def Let_def dd)
    with fail_rows_rows[OF R2 di fresh rows_ok] show ?thesis by simp
  next
    case (Inr am)
    obtain archive m where am: "am = (archive, m)" by (cases am)
    obtain rs w3 where dl: "deliver_all E ?inp archive ts (w\<lparr>wd_db := d2\<rparr>) = (rs, w3)"
      by (cases "deliver_all E ?inp archive ts (w\<lparr>wd_db := d2\<rparr>)") auto
    with body o b Inr am have "res = Inr \<lparr>sm_backup = mn_backup m, sm_results = rs\<rparr>" "w' = w3"
      by (auto simp: run_body_def Let_def dd)
    with deliver_all_rows[OF dl _ di fresh rows_ok, of "ri_trigger inp"] R2 show ?thesis by simp
  qed
qed


section \<open>A published archive can be restored\<close>

lemma verifyArchive_tree:
  assumes "verifyArchive E archive pass (build_manifest E d i snap) = Inr ()"
    and "\<And>x. re_extract E archive pass = Some x \<Longrightarrow> distinct (plain_entries x)"
  shows "\<exists>x m. re_extract E archive pass = Some x \<and> verifyRestoreTree (re_tree E) x = Inr () \<and>
     readManifestFile (re_tree E) x = Inr m \<and> mn_backup m = re_backup_id E"
proof -
  let ?want = "[ManifestPath, SnapshotPath, MasterKeyPath]"
  have w: "ManifestPath # map mf_path (mn_files (build_manifest E d i snap)) = ?want"
    by (simp add: build_manifest_def digest_of_def)
  from assms(1) obtain x m where x: "re_extract E archive pass = Some x"
    and got: "\<forall>p \<in> set (plain_entries x). p \<in> set ?want" "\<forall>p \<in> set ?want. p \<in> set (plain_entries x)"
    and m: "readManifestFile (re_tree E) x = Inr m" "mn_backup m = mn_backup (build_manifest E d i snap)"
    and dg: "check_digests (re_tree E) x (mn_files m) = Inr ()" "ex_integrity x"
    unfolding verifyArchive_def Let_def w by (auto simp: result_Inr list_all_iff)
  have "set ?want = set (plain_entries x)" using got by blast
  moreover have "distinct ?want" by (simp add: ManifestPath_def SnapshotPath_def MasterKeyPath_def)
  ultimately have "mset ?want = mset (plain_entries x)"
    using assms(2)[OF x] by (simp only: set_eq_iff_mset_eq_distinct)
  then have "strike_entries ?want (ex_entries x) = Inr []"
    by (intro strike_entries_ok) (simp add: plain_entries_def)
  with m(1) dg have "verifyRestoreTree (re_tree E) x = Inr ()" by (simp add: verifyRestoreTree_def)
  with x m show ?thesis by (simp add: build_manifest_def)
qed

lemma buildAndVerifyArchive_InrD:
  assumes "buildAndVerifyArchive E targets pass d = (Inr (archive, m), d')"
  shows "\<exists>i dd snap. m = build_manifest E dd i snap \<and> verifyArchive E archive pass m = Inr ()"
  using assms
  by (auto simp: buildAndVerifyArchive_def pack_and_verify_def Let_def result_Inr split: option.splits prod.splits)

lemma Publish_InrD:
  assumes "Publish sha P dir staged name t = (Inr (p, n, d), t')"
  shows "d = hex_encode (sha staged) \<and> hex_encode (sha (pe_second P staged)) = d \<and>
     t' = put_local \<lparr>lf_name = name, lf_bytes = pe_second P staged, lf_mod = pe_mod P\<rparr>
       (remove_local (''.publish-'' @ pe_tmp P) (put_local \<lparr>lf_name = ''.publish-'' @ pe_tmp P,
          lf_bytes = pe_second P staged, lf_mod = pe_mod P\<rparr> t))"
  using assms by (auto simp: Publish_def Let_def split: if_splits)

lemma sort_newest:
  fixes key :: "'a \<Rightarrow> 'k::linorder"
  assumes "f \<in> set l" and "\<And>g. g \<in> set l \<Longrightarrow> g \<noteq> f \<Longrightarrow> key g < key f"
  shows "hd (rev (sort_key key l)) = f"
proof -
  let ?s = "sort_key key l"
  have ne: "?s \<noteq> []" using assms(1) by (metis empty_iff set_empty set_sort)
  have "last ?s \<in> set l" using last_in_set[OF ne] by simp
  moreover have "key f \<le> key (last ?s)"
  proof -
    have "f \<in> set ?s" using assms(1) by simp
    then obtain i where i: "i < length ?s" "?s ! i = f" by (metis in_set_conv_nth)
    have "sorted (map key ?s)" by simp
    then have "map key ?s ! i \<le> map key ?s ! (length ?s - 1)"
      by (rule sorted_nth_mono) (use i ne in auto)
    then show ?thesis using i ne by (simp add: last_conv_nth)
  qed
  ultimately have "last ?s = f" using assms(2) leD by blast
  then show ?thesis by (simp add: hd_rev)
qed

text \<open>The newest archive of the directory survives the retention of its target.\<close>

lemma reconcileLocal_keeps_newest:
  assumes f: "f \<in> set (wd_local w)" "has_suffix ''.7z'' (lf_name f)"
    and newest: "\<And>g. g \<in> set (wd_local w) \<Longrightarrow> has_suffix ''.7z'' (lf_name g) \<Longrightarrow> g \<noteq> f \<Longrightarrow> lf_mod g < lf_mod f"
    and names: "distinct (map lf_name (wd_local w))"
  shows "f \<in> set (wd_local (reconcileLocal E keep w))"
proof -
  let ?a = "local_archives (wd_local w)"
  have fa: "f \<in> set ?a" using f by (simp add: local_archives_def)
  have "hd ?a = f" unfolding local_archives_def by (rule sort_newest) (use f newest in auto)
  with fa obtain rest where a: "?a = f # rest" by (cases ?a) auto
  have "distinct (map lf_name ?a)"
    using distinct_map_filter_key[OF names] by (simp add: local_archives_def distinct_map)
  with a have "lf_name f \<notin> lf_name ` set rest" by simp
  then show ?thesis using f(1) a by (simp add: reconcileLocal_def reconcile_files_local)
qed

lemma put_local_names: "distinct (map lf_name t) \<Longrightarrow> distinct (map lf_name (put_local f t))"
  by (auto simp: put_local_def distinct_map_filter_key)

lemma remove_local_names: "distinct (map lf_name t) \<Longrightarrow> distinct (map lf_name (remove_local n t))"
  by (simp add: remove_local_def distinct_map_filter_key)

lemma ApplyRetention_local:
  "\<exists>keep w1. wd_local w1 = wd_local w \<and>
     (wd_local (ApplyRetention E t inp w) = wd_local w \<or>
      wd_local (ApplyRetention E t inp w) = wd_local (reconcileLocal E keep w1))"
  by (auto simp: ApplyRetention_def Let_def split_beta split: option.splits intro!: exI[of _ "w\<lparr>wd_db := _\<rparr>"])

lemma deliverTarget_published:
  assumes d: "deliverTarget E inp archive TargetLocal w = (r, w')" and ok: "tr_err r = None"
    and names: "distinct (map lf_name (wd_local w))"
    and newer: "\<forall>g \<in> set (wd_local w). has_suffix ''.7z'' (lf_name g) \<longrightarrow> lf_mod g < pe_mod (re_publish E)"
  shows "\<exists>f \<in> set (wd_local w'). lf_name f = re_run_id E TargetLocal @ ''.7z'' \<and>
     tr_sha r = hex_encode (te_sha256 (re_tree E) archive) \<and> hex_encode (te_sha256 (re_tree E) (lf_bytes f)) = tr_sha r"
  using d
proof (cases rule: deliverTarget_cases)
  case (failed err w1)
  with ok show ?thesis by simp
next
  case (delivered n dg w1)
  let ?P = "re_publish E" and ?name = "re_run_id E TargetLocal @ ''.7z''"
  let ?f = "\<lparr>lf_name = ?name, lf_bytes = pe_second ?P archive, lf_mod = pe_mod ?P\<rparr>"
  let ?tmp = "\<lparr>lf_name = ''.publish-'' @ pe_tmp ?P, lf_bytes = pe_second ?P archive, lf_mod = pe_mod ?P\<rparr>"
  from delivered(8) obtain p where "Publish (te_sha256 (re_tree E)) ?P (ri_dir inp) archive ?name (wd_local w) = (Inr (p, n, dg), wd_local w1)"
    by auto
  from Publish_InrD[OF this] have dg: "dg = hex_encode (te_sha256 (re_tree E) archive)"
    "hex_encode (te_sha256 (re_tree E) (pe_second ?P archive)) = dg"
    and t: "wd_local w1 = put_local ?f (remove_local (''.publish-'' @ pe_tmp ?P) (put_local ?tmp (wd_local w)))" by auto
  have names1: "distinct (map lf_name (wd_local w1))"
    unfolding t by (intro put_local_names remove_local_names names)
  have f: "?f \<in> set (wd_local w1)" by (simp add: t put_local_def)
  have newest: "lf_mod g < lf_mod ?f" if "g \<in> set (wd_local w1)" "has_suffix ''.7z'' (lf_name g)" "g \<noteq> ?f" for g
    using that newer by (auto simp: t put_local_def remove_local_def)
  let ?w2 = "w1\<lparr>wd_db := succeedRun (re_audit E) (re_row_ok E (re_run_id E TargetLocal)) (re_now E) (re_run_id E TargetLocal) n dg (wd_db w)\<rparr>"
  obtain keep w3 where "wd_local w3 = wd_local w1" and
    "wd_local w' = wd_local w1 \<or> wd_local w' = wd_local (reconcileLocal E keep w3)"
    using ApplyRetention_local[of ?w2 E TargetLocal inp] delivered(6) by auto
  moreover from this(1) have "?f \<in> set (wd_local (reconcileLocal E keep w3))"
    by (intro reconcileLocal_keeps_newest) (use f newest names1 in \<open>auto simp: has_suffix_iff\<close>)
  ultimately have "?f \<in> set (wd_local w')" using f by auto
  then show ?thesis using dg delivered(5) by (intro bexI[of _ ?f]) simp_all
qed


lemma deliverTarget_other:
  assumes "deliverTarget E inp archive t w = (r, w')"
  shows "tr_target r = t" and "t \<noteq> TargetLocal \<Longrightarrow> wd_local w' = wd_local w"
  using assms by (cases rule: deliverTarget_cases; simp add: ApplyRetention_other)+

lemma deliver_all_others:
  "deliver_all E inp archive ts w = (rs, w') \<Longrightarrow> map tr_target rs = ts \<and> (TargetLocal \<notin> set ts \<longrightarrow> wd_local w' = wd_local w)"
  by (induction ts arbitrary: w rs) (auto split: prod.splits dest: deliverTarget_other)

lemma deliver_all_published:
  assumes "deliver_all E inp archive ts w = (rs, w')" and "distinct ts"
    and "r \<in> set rs" "tr_target r = TargetLocal" "tr_err r = None"
    and "distinct (map lf_name (wd_local w))"
    and "\<forall>g \<in> set (wd_local w). has_suffix ''.7z'' (lf_name g) \<longrightarrow> lf_mod g < pe_mod (re_publish E)"
  shows "\<exists>f \<in> set (wd_local w'). lf_name f = re_run_id E TargetLocal @ ''.7z'' \<and>
     tr_sha r = hex_encode (te_sha256 (re_tree E) archive) \<and> hex_encode (te_sha256 (re_tree E) (lf_bytes f)) = tr_sha r"
  using assms
proof (induction ts arbitrary: w rs)
  case Nil
  then show ?case by simp
next
  case (Cons t ts)
  obtain r1 w1 rs' where d: "deliverTarget E inp archive t w = (r1, w1)" and rest: "deliver_all E inp archive ts w1 = (rs', w')"
    and rs: "rs = r1 # rs'" using Cons.prems(1) by (auto split: prod.splits)
  note O = deliver_all_others[OF rest]
  show ?case
  proof (cases "t = TargetLocal")
    case True
    then have "TargetLocal \<notin> set ts" using Cons.prems(2) by simp
    with O have same: "wd_local w' = wd_local w1" and "TargetLocal \<notin> tr_target ` set rs'" by (simp_all flip: set_map)
    then have "r \<notin> set rs'" using Cons.prems(4) by (metis imageI)
    with rs Cons.prems(3) have "r1 = r" by simp
    with deliverTarget_published[OF d[unfolded True]] Cons.prems(5,6,7) same show ?thesis by simp
  next
    case False
    with deliverTarget_other[OF d] Cons.prems(3,4) rs have "r \<in> set rs'" "wd_local w1 = wd_local w" by auto
    with Cons.IH[OF rest] Cons.prems show ?thesis by simp
  qed
qed

text \<open>C24: A delivered local backup was verified.  When a run reports success for the local target, the
  backup directory holds the file of that run, also after the retention pass; the reported digest is the
  digest of its bytes and of an archive that the run has packed, extracted with the passphrase and checked:
  the extracted tree is one that the restore accepts, and its manifest carries the reported backup id.
  The hypotheses: an extraction never yields two entries of one path (the archive layer rejects that),
  the names in the directory are distinct and its archives are older than the new file.\<close>

theorem published_backup_verified:
  assumes run: "Run E False inp w = (Inr sm, w')" and r: "r \<in> set (sm_results sm)" "tr_target r = TargetLocal" "tr_err r = None"
    and unique: "\<forall>a p x. re_extract E a p = Some x \<longrightarrow> distinct (plain_entries x)"
    and distinct_names: "distinct (map lf_name (wd_local w))"
    and newer: "\<forall>g \<in> set (wd_local w). has_suffix ''.7z'' (lf_name g) \<longrightarrow> lf_mod g < pe_mod (re_publish E)"
  shows "\<exists>f archive x m. f \<in> set (wd_local w') \<and> lf_name f = re_run_id E TargetLocal @ ''.7z'' \<and>
     hex_encode (te_sha256 (re_tree E) (lf_bytes f)) = tr_sha r \<and> tr_sha r = hex_encode (te_sha256 (re_tree E) archive) \<and>
     re_extract E archive (ri_pass inp) = Some x \<and> verifyRestoreTree (re_tree E) x = Inr () \<and>
     readManifestFile (re_tree E) x = Inr m \<and> mn_backup m = sm_backup sm"
proof -
  let ?inp = "inp\<lparr>ri_targets := dedupTargets (ri_targets inp)\<rparr>"
  from run have body: "run_body E ?inp w = (Inr sm, w')"
    by (auto simp: Run_def Let_def split: sum.splits if_splits)
  then obtain d1 archive m d2 where b: "buildAndVerifyArchive E (dedupTargets (ri_targets inp)) (ri_pass inp) d1 = (Inr (archive, m), d2)"
    and dl: "deliver_all E ?inp archive (dedupTargets (ri_targets inp)) (w\<lparr>wd_db := d2\<rparr>) = (sm_results sm, w')"
    and id: "sm_backup sm = mn_backup m"
    by (auto simp: run_body_def Let_def split: prod.splits if_splits sum.splits)
  from buildAndVerifyArchive_InrD[OF b] obtain i dd snap where m: "m = build_manifest E dd i snap"
    and v: "verifyArchive E archive (ri_pass inp) m = Inr ()" by blast
  from verifyArchive_tree[OF v[unfolded m]] unique obtain x m' where
    x: "re_extract E archive (ri_pass inp) = Some x" "verifyRestoreTree (re_tree E) x = Inr ()"
      "readManifestFile (re_tree E) x = Inr m'" "mn_backup m' = re_backup_id E" by blast
  from deliver_all_published[OF dl dedupTargets_spec(1) r] distinct_names newer obtain f where
    f: "f \<in> set (wd_local w')" "lf_name f = re_run_id E TargetLocal @ ''.7z''"
      "tr_sha r = hex_encode (te_sha256 (re_tree E) archive)"
      "hex_encode (te_sha256 (re_tree E) (lf_bytes f)) = tr_sha r" by auto
  with x id m show ?thesis by (intro exI[of _ f] exI[of _ archive] exI[of _ x] exI[of _ m']) (simp add: build_manifest_def)
qed

end
