(* ===== verification/BackupWitness.thy ===== *)
theory BackupWitness
  imports BackupSafety RestoreTheorems
begin

text \<open>A complete backup run on sample data, the input that the statements about backup runs are applied
  to.\<close>

section \<open>A sample run\<close>

definition sample_backup_manifest :: manifest where
  "sample_backup_manifest = \<lparr>mn_format = 1, mn_app = '''', mn_schema = 0, mn_backup = ''b1'', mn_created = '''',
     mn_instance = ''i1'', mn_arch = '''', mn_files = [\<lparr>mf_path = SnapshotPath, mf_size = 1,
       mf_sha256 = hex_encode (replicate 32 0)\<rparr>, \<lparr>mf_path = MasterKeyPath, mf_size = 32,
       mf_sha256 = hex_encode (replicate 32 0)\<rparr>]\<rparr>"

definition sample_backup_tree_env :: tree_env where
  "sample_backup_tree_env = \<lparr>te_sha256 = (\<lambda>_. replicate 32 0), te_unmarshal = (\<lambda>_. Some sample_backup_manifest),
     te_validTime = (\<lambda>_. True)\<rparr>"

definition sample_run_env :: run_env where
  "sample_run_env = \<lparr>re_fault = (\<lambda>_. None), re_app = '''', re_arch = '''', re_key = replicate 32 1, re_now = '''',
     re_parse = (\<lambda>_. Some 0), re_run_id = (\<lambda>t. ''run-'' @ t), re_backup_id = ''b1'', re_instance = ''i1'',
     re_schema = (\<lambda>_. 0), re_snapshot = (\<lambda>_. [7]), re_tree = sample_backup_tree_env, re_marshal = (\<lambda>_. [7]),
     re_pack = (\<lambda>_ _. [9, 9]), re_hook = id, re_extract = (\<lambda>_ _. Some sample_tree), re_row_ok = (\<lambda>_. True),
     re_config_ok = True, re_audit = None,
     re_publish = \<lparr>pe_fault = (\<lambda>_. False), pe_tmp = ''x'', pe_mod = 1, pe_second = id\<rparr>,
     re_removes = (\<lambda>_. True)\<rparr>"

definition sample_run_input :: run_input where
  "sample_run_input = \<lparr>ri_targets = [TargetLocal, TargetLocal], ri_trigger = TriggerManual, ri_pass = ''p'',
     ri_dir = ''/b'', ri_r2 = None\<rparr>"

definition sample_world :: world where
  "sample_world = \<lparr>wd_db = empty_backup, wd_local = [], wd_r2 = []\<rparr>"

lemma sample_backup_read: "readManifestFile sample_backup_tree_env sample_tree = Inr sample_backup_manifest"
  by (simp add: readManifestFile_Inr Check_Inr)
     (simp add: sample_tree_def sample_backup_tree_env_def sample_backup_manifest_def FormatVersion_def
       allowedManifestPaths_def hex_encode_length)

lemma sample_verify: "verifyArchive sample_run_env a p sample_backup_manifest = Inr ()"
proof -
  have "check_digests sample_backup_tree_env sample_tree (mn_files sample_backup_manifest) = Inr ()"
    by (simp add: sample_backup_manifest_def fileDigest_def sample_tree_def sample_backup_tree_env_def)
  moreover have "re_tree sample_run_env = sample_backup_tree_env" "build_check sample_run_env s c = Inr ()"
    "re_extract sample_run_env a p = Some sample_tree" for s c
    by (simp_all add: sample_run_env_def build_check_def)
  moreover have "plain_entries sample_tree = [ManifestPath, SnapshotPath, MasterKeyPath]" "ex_integrity sample_tree"
    by (simp_all add: plain_entries_def sample_tree_def)
  moreover have "map mf_path (mn_files sample_backup_manifest) = [SnapshotPath, MasterKeyPath]"
    by (simp add: sample_backup_manifest_def)
  ultimately show ?thesis by (simp add: verifyArchive_def sample_backup_read)
qed

lemma sample_build:
  assumes "kv_get instanceIDKey (sysstate (bd_main d)) = None"
  shows "\<exists>a d'. buildAndVerifyArchive sample_run_env ts p d = (Inr (a, sample_backup_manifest), d') \<and> bd_jobs d' = bd_jobs d \<and> bd_runs d' = bd_runs d"
proof -
  have ok: "build_check sample_run_env s c = Inr ()" for s c by (simp add: sample_run_env_def build_check_def)
  have m: "build_manifest sample_run_env d' ''i1'' (re_snapshot sample_run_env d') = sample_backup_manifest" for d'
    by (simp add: build_manifest_def digest_of_def sample_run_env_def sample_backup_manifest_def sample_backup_tree_env_def FormatVersion_def)
  have "instanceIDKey \<notin> fst ` set (sysstate (bd_main d))"
    using assms by (simp add: kv_get_def map_of_eq_None_iff)
  then have "\<exists>d1. EnsureInstanceID ''i1'' (bd_main d) (bd_main d) = (Some ''i1'', d1)"
    using assms by (simp add: EnsureInstanceID_def kv_keep_def Let_def)
  then obtain d1 where "EnsureInstanceID ''i1'' (bd_main d) (bd_main d) = (Some ''i1'', d1)" by blast
  moreover have "re_fault sample_run_env s = None" "re_instance sample_run_env = ''i1''" for s
    by (simp_all add: sample_run_env_def)
  ultimately show ?thesis
    by (simp add: buildAndVerifyArchive_def pack_and_verify_def ok m sample_verify Let_def)
qed

lemma sample_run: "\<exists>sm w'. Run sample_run_env False sample_run_input sample_world = (Inr sm, w') \<and>
    map tr_target (sm_results sm) = [TargetLocal] \<and> map tr_err (sm_results sm) = [None]"
proof -
  let ?i = "sample_run_input\<lparr>ri_targets := [TargetLocal]\<rparr>"
  have dd: "dedupTargets [TargetLocal, TargetLocal] = [TargetLocal]" "dedupTargets [TargetLocal] = [TargetLocal]" by code_simp+
  have "check_shape ?i = Inr ()" "ri_pass ?i = ''p''" "\<not> hasLineBreak ''p''" "ri_targets sample_run_input = [TargetLocal, TargetLocal]"
    by code_simp+
  then have body: "Run sample_run_env False sample_run_input sample_world = run_body sample_run_env ?i sample_world"
    by (simp add: Run_def dd)
  define row where "row = running_row sample_run_env TriggerManual TargetLocal"
  define d where "d = empty_backup\<lparr>bd_runs := [row]\<rparr>"
  have "run_check row" unfolding row_def by code_simp
  then have "insertRunningRow (re_row_ok sample_run_env (re_run_id sample_run_env TargetLocal)) (re_now sample_run_env)
      (re_run_id sample_run_env TargetLocal) TargetLocal TriggerManual empty_backup = Some d"
    by (simp add: insertRunningRow_def insert_run_def sql_insert_def row_def d_def running_row_def)
       (simp add: empty_backup_def sample_run_env_def)
  then have o: "open_rows sample_run_env TriggerManual [TargetLocal] empty_backup = (True, d)" "bd_main d = empty_db"
    by (simp_all add: d_def empty_backup_def)
  have "kv_get instanceIDKey (sysstate (bd_main d)) = None" unfolding o(2) by code_simp
  from sample_build[OF this] obtain a d' where
    b: "buildAndVerifyArchive sample_run_env [TargetLocal] ''p'' d = (Inr (a, sample_backup_manifest), d')" by blast
  obtain r w' where dt: "deliverTarget sample_run_env ?i a TargetLocal \<lparr>wd_db = d', wd_local = [], wd_r2 = []\<rparr> = (r, w')" by fastforce
  moreover have "tr_err r = None"
  proof -
    obtain p n g t where "Publish (te_sha256 (re_tree sample_run_env)) (re_publish sample_run_env) ''/b'' a
       (re_run_id sample_run_env TargetLocal @ ''.7z'') [] = (Inr (p, n, g), t)"
      by (simp add: Publish_def sample_run_env_def Let_def)
    with dt show ?thesis by (auto simp: deliverTarget_def sample_run_input_def Let_def)
  qed
  moreover have "tr_target r = TargetLocal" using deliverTarget_other(1)[OF dt] .
  ultimately show ?thesis
    using b unfolding body
    by (simp add: run_body_def sample_run_input_def sample_world_def dd o(1) Let_def del: open_rows.simps)
qed

theorem run_rows_settled_witness:
  "\<exists>sm w' rows. Run sample_run_env False sample_run_input sample_world = (Inr sm, w') \<and> bd_runs (wd_db w') = rows \<and>
     length rows = 1 \<and> list_all2 result_row (sm_results sm) rows"
proof -
  obtain sm w' where run: "Run sample_run_env False sample_run_input sample_world = (Inr sm, w')" using sample_run by blast
  have shape: "check_shape sample_run_input = Inr ()" "ri_pass sample_run_input \<noteq> ''''" "\<not> hasLineBreak (ri_pass sample_run_input)"
    by code_simp+
  have ts: "[TargetLocal] = dedupTargets (ri_targets sample_run_input)" by code_simp
  have "bd_runs (wd_db sample_world) = []" "re_row_ok sample_run_env x" for x
    by (simp_all add: sample_world_def empty_backup_def sample_run_env_def)
  with run_rows_settled[OF run shape ts] obtain rows where
    "bd_runs (wd_db w') = rows" "map br_id rows = [re_run_id sample_run_env TargetLocal]" "list_all2 result_row (sm_results sm) rows"
    by auto
  moreover from this(2) have "length rows = 1" by (metis length_map length_Cons list.size(3) One_nat_def)
  ultimately show ?thesis using run by blast
qed

theorem published_backup_verified_witness:
  "\<exists>sm w' f. Run sample_run_env False sample_run_input sample_world = (Inr sm, w') \<and> f \<in> set (wd_local w') \<and>
     lf_name f = ''run-local.7z'' \<and> sm_backup sm = ''b1''"
proof -
  obtain sm w' r where run: "Run sample_run_env False sample_run_input sample_world = (Inr sm, w')"
    and r: "r \<in> set (sm_results sm)" "tr_target r = TargetLocal" "tr_err r = None"
    using sample_run by (auto simp: map_eq_Cons_conv)
  have unique: "\<forall>a p x. re_extract sample_run_env a p = Some x \<longrightarrow> distinct (plain_entries x)"
    by (simp add: sample_run_env_def plain_entries_def sample_tree_def)
  have "distinct (map lf_name (wd_local sample_world))"
    "\<forall>g \<in> set (wd_local sample_world). has_suffix ''.7z'' (lf_name g) \<longrightarrow> lf_mod g < pe_mod (re_publish sample_run_env)"
    by (simp_all add: sample_world_def)
  from published_backup_verified[OF run r unique this] obtain f archive x m where
    f: "f \<in> set (wd_local w')" "lf_name f = re_run_id sample_run_env TargetLocal @ ''.7z''"
    and x: "re_extract sample_run_env archive (ri_pass sample_run_input) = Some x"
      "readManifestFile (re_tree sample_run_env) x = Inr m" "mn_backup m = sm_backup sm" by blast
  have "x = sample_tree" "re_tree sample_run_env = sample_backup_tree_env" using x(1) by (simp_all add: sample_run_env_def)
  with x(2,3) have "sm_backup sm = ''b1''" by (auto simp: sample_backup_read sample_backup_manifest_def)
  moreover have "re_run_id sample_run_env TargetLocal @ ''.7z'' = ''run-local.7z''" by (simp add: sample_run_env_def)
  ultimately show ?thesis using run f by metis
qed

end
