(* ===== verification/GoPath.thy ===== *)
theory GoPath
  imports GoEncode
begin

text \<open>
  Parts of the Go library that the archive and transfer code is written with: \<open>strings.TrimSpace\<close>,
  \<open>strings.Split\<close> on a longer separator, the text after a last occurrence, \<open>path.Clean\<close> (on Unix
  \<open>path/filepath.Clean\<close> is the same function), and 64-bit signed arithmetic.
\<close>

section \<open>Signed 64-bit integers\<close>

definition wrap64 :: "int \<Rightarrow> int" where
  "wrap64 x = (x + 2 ^ 63) mod 2 ^ 64 - 2 ^ 63"

lemma wrap64_id: "- (2 ^ 63) \<le> x \<Longrightarrow> x < 2 ^ 63 \<Longrightarrow> wrap64 x = x"
  by (simp add: wrap64_def)

lemma wrap64_add [simp]: "wrap64 (wrap64 x + y) = wrap64 (x + y)" "wrap64 (x + wrap64 y) = wrap64 (x + y)"
proof -
  have "(wrap64 x + y + 2 ^ 63) mod 2 ^ 64 = (x + y + 2 ^ 63) mod 2 ^ 64" for x y
    unfolding wrap64_def by (simp add: algebra_simps mod_simps)
  then have left: "wrap64 (wrap64 x + y) = wrap64 (x + y)" for x y by (simp add: wrap64_def)
  then show "wrap64 (wrap64 x + y) = wrap64 (x + y)" .
  show "wrap64 (x + wrap64 y) = wrap64 (x + y)" using left[of y x] by (simp add: add.commute)
qed

section \<open>Trimming and splitting\<close>

text \<open>The bytes of a string, cut into the sequences that decode to one rune each.\<close>

fun rune_cut :: "string \<Rightarrow> (nat \<times> string) list" where
  "rune_cut [] = []"
| "rune_cut (c # cs) =
    (if of_char c < (128 :: nat) then (of_char c, [c]) # rune_cut cs
     else case utf8_tail (of_char c) (byte_values cs) of
            None \<Rightarrow> (65533, [c]) # rune_cut cs
          | Some (r, n) \<Rightarrow> (r, c # take n cs) # rune_cut (drop n cs))"

definition trim_space :: "string \<Rightarrow> string" where
  "trim_space s =
    (let cut = dropWhile (\<lambda>p. is_space (fst p)) (rune_cut s)
     in concat (map snd (rev (dropWhile (\<lambda>p. is_space (fst p)) (rev cut)))))"

lemma rune_cut_concat: "concat (map snd (rune_cut s)) = s"
  by (induction s rule: rune_cut.induct) (auto split: option.splits)

lemma rune_cut_ascii: "ascii s \<Longrightarrow> rune_cut s = map (\<lambda>c. (of_char c, [c])) s"
  by (induction s) (auto simp: ascii_def)

definition graphic :: "char \<Rightarrow> bool" where
  "graphic c \<longleftrightarrow> 32 < (of_char c :: nat) \<and> (of_char c :: nat) < 128"

lemma trim_space_id:
  assumes "ascii s" and "s \<noteq> '''' \<Longrightarrow> graphic (hd s)" and "s \<noteq> '''' \<Longrightarrow> graphic (last s)"
  shows "trim_space s = s"
proof (cases "s = ''''")
  case True
  then show ?thesis by (simp add: trim_space_def)
next
  case False
  have graphic: "\<not> is_space (of_char c)" if "graphic c" for c
    using that by (auto simp: graphic_def is_space_def)
  have drop: "dropWhile p xs = xs" if "xs \<noteq> []" "\<not> p (hd xs)" for p :: "nat \<times> string \<Rightarrow> bool" and xs
    using that by (cases xs) auto
  have "hd (rune_cut s) = (of_char (hd s), [hd s])" "last (rune_cut s) = (of_char (last s), [last s])" "rune_cut s \<noteq> []"
    using False by (simp_all add: rune_cut_ascii[OF assms(1)] hd_map last_map)
  with False assms graphic show ?thesis
    by (simp add: trim_space_def drop hd_rev rune_cut_concat)
qed

text \<open>\<open>strings.Split\<close>: non-overlapping separators from the left; the separator is not empty.\<close>

function split_str :: "string \<Rightarrow> string \<Rightarrow> string list" where
  "split_str sep [] = [[]]"
| "split_str sep (c # cs) =
    (if sep \<noteq> [] \<and> has_prefix sep (c # cs) then [] # split_str sep (drop (length sep) (c # cs))
     else case split_str sep cs of [] \<Rightarrow> [[c]] | y # ys \<Rightarrow> (c # y) # ys)"
  by pat_completeness auto
termination
  by (relation "measure (length \<circ> snd)") (auto simp: neq_Nil_conv)

text \<open>The text after the last occurrence of a separator, if there is one (\<open>strings.LastIndex\<close>).\<close>

fun after_last :: "string \<Rightarrow> string \<Rightarrow> string option" where
  "after_last sep [] = (if sep = [] then Some [] else None)"
| "after_last sep (c # cs) =
    (case after_last sep cs of Some r \<Rightarrow> Some r
     | None \<Rightarrow> if has_prefix sep (c # cs) then Some (drop (length sep) (c # cs)) else None)"

section \<open>Clean paths\<close>

text \<open>\<open>clean_segs rooted out segs\<close>: the lexical processing of the elements of a path; \<open>out\<close> is the output
  so far, innermost element first.\<close>

fun clean_segs :: "bool \<Rightarrow> string list \<Rightarrow> string list \<Rightarrow> string list" where
  "clean_segs rooted out [] = rev out"
| "clean_segs rooted out (s # ss) =
    (if s = '''' \<or> s = ''.'' then clean_segs rooted out ss
     else if s = ''..'' then
       (if out \<noteq> [] \<and> hd out \<noteq> ''..'' then clean_segs rooted (tl out) ss
        else if rooted then clean_segs rooted out ss
        else clean_segs rooted (s # out) ss)
     else clean_segs rooted (s # out) ss)"

definition Clean :: "string \<Rightarrow> string" where
  "Clean p =
    (let rooted = has_prefix ''/'' p; segs = clean_segs rooted [] (split_on (CHR ''/'') p)
     in if rooted then ''/'' @ join_with ''/'' segs
        else if segs = [] then ''.'' else join_with ''/'' segs)"

definition plain_seg :: "string \<Rightarrow> bool" where
  "plain_seg s \<longleftrightarrow> s \<noteq> '''' \<and> s \<noteq> ''.'' \<and> s \<noteq> ''..''"

lemma clean_segs_plain: "list_all plain_seg ss \<Longrightarrow> clean_segs rooted out ss = rev out @ ss"
  by (induction ss arbitrary: out) (auto simp: plain_seg_def)

lemma clean_segs_all:
  assumes "list_all P out" and "\<forall>s \<in> set ss. s \<noteq> '''' \<and> s \<noteq> ''.'' \<and> (s = ''..'' \<longrightarrow> \<not> rooted) \<longrightarrow> P s"
  shows "list_all P (clean_segs rooted out ss)"
  using assms
proof (induction rooted out ss rule: clean_segs.induct)
  case (2 rooted out s ss)
  have "list_all P (tl out)" using "2.prems"(1) by (cases out) auto
  moreover have "list_all P (s # out)" if "s \<noteq> ''''" "s \<noteq> ''.''" "s = ''..'' \<longrightarrow> \<not> rooted"
    using that "2.prems" by simp
  moreover have "\<forall>s \<in> set ss. s \<noteq> '''' \<and> s \<noteq> ''.'' \<and> (s = ''..'' \<longrightarrow> \<not> rooted) \<longrightarrow> P s" using "2.prems"(2) by simp
  ultimately show ?case using "2.IH" "2.prems"(1) by (cases "s = ''..''"; cases rooted; cases "out = []"; simp)
qed simp

lemma clean_segs_range: "s \<in> set (clean_segs rooted [] ss) \<Longrightarrow> s = ''..'' \<or> plain_seg s"
  using clean_segs_all[of "\<lambda>s. s = ''..'' \<or> plain_seg s" "[]" ss rooted] by (auto simp: plain_seg_def list_all_iff)

lemma clean_segs_rooted: "s \<in> set (clean_segs True [] ss) \<Longrightarrow> plain_seg s"
  using clean_segs_all[of plain_seg "[]" ss True] by (auto simp: plain_seg_def list_all_iff)

lemma clean_segs_from: "s \<in> set (clean_segs rooted [] ss) \<Longrightarrow> s \<in> set ss"
  using clean_segs_all[of "\<lambda>s. s \<in> set ss" "[]" ss rooted] by (auto simp: list_all_iff)

lemma split_join: "ss \<noteq> [] \<Longrightarrow> \<forall>s \<in> set ss. c \<notin> set s \<Longrightarrow> split_on c (join_with [c] ss) = ss"
proof (induction ss rule: induct_list012)
  case (3 x y zs)
  then show ?case by (simp add: split_on_append)
qed (simp_all add: split_on_single)

text \<open>The elements of a relative path that \<open>Clean\<close> does not change are plain, unless it climbs.\<close>

lemma Clean_fixed_segs:
  assumes "Clean p = p" and "\<not> has_prefix ''/'' p" and "p \<noteq> ''.''"
  shows "\<forall>s \<in> set (split_on (CHR ''/'') p). s = ''..'' \<or> plain_seg s"
proof -
  let ?segs = "clean_segs False [] (split_on (CHR ''/'') p)"
  from assms have p: "p = join_with ''/'' ?segs" and ne: "?segs \<noteq> []"
    by (auto simp: Clean_def Let_def split: if_splits)
  have "\<forall>s \<in> set ?segs. CHR ''/'' \<notin> set s"
    using clean_segs_from[of _ False] split_on_no_sep by fastforce
  with ne have "split_on (CHR ''/'') (join_with ''/'' ?segs) = ?segs" by (rule split_join)
  with p have "split_on (CHR ''/'') p = ?segs" by simp
  then show ?thesis using clean_segs_range[of _ False "split_on (CHR ''/'') p"] by auto
qed

lemma Clean_plain:
  assumes "list_all plain_seg (split_on (CHR ''/'') p)"
  shows "Clean p = p"
proof -
  obtain s ss where s: "split_on (CHR ''/'') p = s # ss" by (cases "split_on (CHR ''/'') p") auto
  have "\<not> has_prefix ''/'' p"
  proof
    assume "has_prefix ''/'' p"
    then obtain r where "p = CHR ''/'' # r" by (auto simp: has_prefix_iff)
    then show False using assms by (simp add: plain_seg_def)
  qed
  then show ?thesis
    using clean_segs_plain[OF assms, of False "[]"] split_join_inverse[of "CHR ''/''" p]
    by (simp add: Clean_def s)
qed

lemma split_on_append_sep: "split_on c (a @ c # b) = split_on c a @ split_on c b"
proof (induction a)
  case (Cons x a)
  obtain y ys where "split_on c a = y # ys" by (cases "split_on c a") auto
  with Cons show ?case by simp
qed simp

lemma join_with_append: "xs \<noteq> [] \<Longrightarrow> ys \<noteq> [] \<Longrightarrow> join_with sep (xs @ ys) = join_with sep xs @ sep @ join_with sep ys"
proof (induction xs rule: induct_list012)
  case (2 x)
  then show ?case by (cases ys) auto
qed auto

text \<open>A clean relative path below a clean absolute directory: nothing is left to normalise.\<close>

lemma Clean_join:
  assumes "has_prefix ''/'' d" and "Clean d = d" and "d \<noteq> ''/''" and "list_all plain_seg (split_on (CHR ''/'') p)"
  shows "Clean (d @ ''/'' @ p) = d @ ''/'' @ p"
proof -
  let ?segs = "clean_segs True [] (split_on (CHR ''/'') d)"
  have d: "d = ''/'' @ join_with ''/'' ?segs" using assms(1,2) by (simp add: Clean_def)
  with assms(3) have ne: "?segs \<noteq> []" by auto
  have "\<forall>s \<in> set ?segs. CHR ''/'' \<notin> set s"
    using clean_segs_from[of _ True] split_on_no_sep by fastforce
  with ne have "split_on (CHR ''/'') (join_with ''/'' ?segs) = ?segs" by (rule split_join)
  with d have sd: "split_on (CHR ''/'') d = '''' # ?segs" by (metis append_Cons append_Nil split_on.simps(2))
  have plain: "list_all plain_seg (?segs @ split_on (CHR ''/'') p)"
    using assms(4) clean_segs_rooted by (auto simp: list_all_iff)
  have "split_on (CHR ''/'') (d @ ''/'' @ p) = '''' # ?segs @ split_on (CHR ''/'') p"
    using split_on_append_sep[of "CHR ''/''" d p] sd by simp
  then have "clean_segs True [] (split_on (CHR ''/'') (d @ ''/'' @ p)) = ?segs @ split_on (CHR ''/'') p"
    using clean_segs_plain[OF plain, of True "[]"] by simp
  moreover have "has_prefix ''/'' (d @ ''/'' @ p)" using assms(1) unfolding has_prefix_iff by (metis append_assoc)
  ultimately have "Clean (d @ ''/'' @ p) = ''/'' @ join_with ''/'' (?segs @ split_on (CHR ''/'') p)"
    by (simp only: Clean_def Let_def if_True)
  also have "\<dots> = ''/'' @ join_with ''/'' ?segs @ ''/'' @ p"
    using join_with_append[OF ne, of "split_on (CHR ''/'') p" "''/''"] split_join_inverse[of "CHR ''/''" p] by simp
  finally show ?thesis using d by (metis append_assoc)
qed

lemma path_samples:
  "Clean ''a/./b//c/../d'' = ''a/b/d''" "Clean '''' = ''.''" "Clean ''/../a'' = ''/a''" "Clean ''a/../..'' = ''..''"
  "split_str ''ab'' ''xabyaabz'' = [''x'', ''ya'', ''z'']" "after_last ''aa'' ''aaab'' = Some ''b''"
  "trim_space '' a b  '' = ''a b''"
  by (simp_all add: Clean_def trim_space_def is_space_def)

end
