(* ===== verification/Archive.thy ===== *)
theory Archive
  imports GoPath
begin

text \<open>
  \<open>platform/archive/archive.go\<close>: the 7-Zip adapter of backups and transfers.  The parser of the file
  table, the whitelist of its entries with the size limits, and the extraction with its second
  check on disk.  The \<open>7zz\<close> process is a parameter: its output on each command and the tree that an
  extraction leaves; what it prints is only classified.
\<close>

section \<open>Limits and entries\<close>

record archive_limits =
  li_archive :: int
  li_extract :: int
  li_files :: int
  li_timeout :: int

definition personalLimits :: archive_limits where
  "personalLimits = \<lparr>li_archive = 64 * 2 ^ 20, li_extract = 128 * 2 ^ 20, li_files = 512, li_timeout = 120 * 10 ^ 9\<rparr>"

definition withDefaults :: "archive_limits \<Rightarrow> archive_limits" where
  "withDefaults l =
    \<lparr>li_archive = (if li_archive l \<le> 0 then li_archive personalLimits else li_archive l),
     li_extract = (if li_extract l \<le> 0 then li_extract personalLimits else li_extract l),
     li_files = (if li_files l \<le> 0 then li_files personalLimits else li_files l),
     li_timeout = (if li_timeout l \<le> 0 then li_timeout personalLimits else li_timeout l)\<rparr>"

record Entry =
  en_path :: string
  en_size :: int
  en_dir :: bool
  en_attr :: string

datatype archive_error = WrongPassphrase | BadArchive | TooLarge | NoWorkspace

section \<open>The output of 7-Zip\<close>

definition LF :: string where "LF = [CHR 0x0A]"

definition classify :: "(string \<Rightarrow> string) \<Rightarrow> string \<Rightarrow> bool \<Rightarrow> archive_error" where
  "classify ulow output canceled =
    (if canceled then BadArchive
     else let msg = to_lower ulow output in
       if has_infix ''wrong password'' msg \<or> has_infix ''enter password'' msg then WrongPassphrase
       else if has_infix ''cannot open'' msg \<and> has_infix ''as archive'' msg then BadArchive
       else BadArchive)"

text \<open>The three regular expressions: the first line of a block that has the form, and its group.\<close>

definition sltName :: "string \<Rightarrow> string option" where
  "sltName block = map_option (drop 7)
    (find (\<lambda>l. has_prefix ''Path = '' l \<and> 7 < length l) (split_on (CHR 0x0A) block))"

definition sltSize :: "string \<Rightarrow> string option" where
  "sltSize block = map_option (drop 7)
    (find (\<lambda>l. has_prefix ''Size = '' l \<and> 7 < length l \<and> list_all is_digit (drop 7 l)) (split_on (CHR 0x0A) block))"

definition sltAttributes :: "string \<Rightarrow> string option" where
  "sltAttributes block = map_option (drop 13)
    (find (\<lambda>l. has_prefix ''Attributes = '' l \<and> 1 \<le> rune_count (drop 13 l) \<and> rune_count (drop 13 l) \<le> 40)
      (split_on (CHR 0x0A) block))"

text \<open>\<open>Sscanf\<close> with \<open>%d\<close> into an \<open>int64\<close>: a number out of range is an error that leaves the size at zero.\<close>

definition scan_size :: "string \<Rightarrow> int" where
  "scan_size ds = (let v = int (digits_value 0 ds) in if v < 2 ^ 63 then v else 0)"

definition parse_block :: "string \<Rightarrow> Entry option" where
  "parse_block block =
    (if \<not> has_infix ''Path = '' block then None
     else case sltName block of None \<Rightarrow> None
     | Some name \<Rightarrow>
        (let attr = (case sltAttributes block of None \<Rightarrow> '''' | Some a \<Rightarrow> trim_space a)
         in Some \<lparr>en_path = trim_space name,
                  en_size = (case sltSize block of None \<Rightarrow> 0 | Some ds \<Rightarrow> scan_size ds),
                  en_dir = has_infix ''D'' attr, en_attr = attr\<rparr>))"

definition parseSLT :: "string \<Rightarrow> Entry list" where
  "parseSLT out =
    (let body = (case after_last (LF @ ''----------'' @ LF) out of None \<Rightarrow> out | Some r \<Rightarrow> r)
     in List.map_filter parse_block (split_str (LF @ LF) body))"

section \<open>The whitelist\<close>

text \<open>The suffixes of \<open>nestedArchiveSuffix\<close>.  Case folding also maps the letter s to U+017F.\<close>

definition nested_suffixes :: "string list" where
  "nested_suffixes = [''.7z'', ''.zip'', ''.tar'', ''.gz'', ''.bz2'', ''.xz'', ''.rar'', ''.cab'', ''.iso'',
     ''.i'' @ [CHR 0xC5, CHR 0xBF] @ ''o'', ''.dmg'', ''.jar'']"

definition nestedArchiveSuffix :: "string \<Rightarrow> bool" where
  "nestedArchiveSuffix p \<longleftrightarrow> list_ex (\<lambda>x. has_suffix x (map lower_char p)) nested_suffixes"

fun scan_entries :: "string list \<Rightarrow> int \<Rightarrow> Entry list \<Rightarrow> archive_error + int" where
  "scan_entries seen acc [] = Inr acc"
| "scan_entries seen acc (e # es) =
    (if en_path e = '''' then Inl BadArchive
     else if has_infix [CHR 0x5C] (en_path e) \<or> has_prefix ''/'' (en_path e) \<or> has_infix ''../'' (en_path e)
       \<or> en_path e = ''..'' \<or> has_prefix ''../'' (en_path e) then Inl BadArchive
     else if Clean (en_path e) = ''..'' \<or> has_prefix ''../'' (Clean (en_path e)) \<or> Clean (en_path e) \<noteq> en_path e
       then Inl BadArchive
     else if en_path e \<in> set seen then Inl BadArchive
     else if en_dir e then scan_entries (en_path e # seen) acc es
     else if nestedArchiveSuffix (en_path e) then Inl BadArchive
     else if has_infix ''lnx'' (en_attr e) then Inl BadArchive
     else scan_entries (en_path e # seen) (wrap64 (acc + en_size e)) es)"

definition validateEntries :: "Entry list \<Rightarrow> archive_limits \<Rightarrow> archive_error + unit" where
  "validateEntries es lim =
    (if es = [] then Inl BadArchive
     else if li_files (withDefaults lim) < int (length es) then Inl TooLarge
     else andthen (scan_entries [] 0 es) (\<lambda>acc.
          ensure (\<not> li_extract (withDefaults lim) < acc) TooLarge))"

definition ValidateEntries :: "Entry list \<Rightarrow> archive_error + unit" where
  "ValidateEntries es = validateEntries es personalLimits"

section \<open>Creation and extraction\<close>

datatype node = NodeDir | NodeFile bytes | NodeOther | NodeUnreadable | NodeNoInfo

type_synonym tree = "(string \<times> node) list"

text \<open>One invocation: its output, or a failure with the output so far and whether the context ended.\<close>

datatype run_out = Finished string | Failed string bool

datatype work_step = WorkCreate | WorkList | WorkExtract

record sevenzip =
  sv_lower :: "string \<Rightarrow> string"
  sv_work :: "work_step \<Rightarrow> bool"
  sv_add :: "tree \<Rightarrow> string \<Rightarrow> run_out \<times> bytes"
  sv_list :: "bytes \<Rightarrow> string \<Rightarrow> run_out"
  sv_extract :: "bytes \<Rightarrow> string \<Rightarrow> run_out \<times> tree"

definition ListArchive :: "sevenzip \<Rightarrow> bytes \<Rightarrow> string \<Rightarrow> archive_error + Entry list" where
  "ListArchive S archive pass =
    (if \<not> sv_work S WorkList then Inl NoWorkspace
     else case sv_list S archive (pass @ LF) of
       Failed out canceled \<Rightarrow> Inl (classify (sv_lower S) out canceled)
     | Finished out \<Rightarrow> Inr (parseSLT out))"

definition CreateArchive :: "sevenzip \<Rightarrow> tree \<Rightarrow> string \<Rightarrow> archive_error + bytes" where
  "CreateArchive S src pass =
    (if pass = '''' then Inl BadArchive
     else if list_ex (\<lambda>c. c = CHR 0x0D \<or> c = CHR 0x0A) pass then Inl BadArchive
     else if \<not> sv_work S WorkCreate then Inl NoWorkspace
     else case sv_add S src (pass @ LF) of
       (Failed out canceled, _) \<Rightarrow> Inl (classify (sv_lower S) out canceled)
     | (Finished _, archive) \<Rightarrow> andthen (ListArchive S archive pass) (\<lambda>_. Inr archive))"

fun verify_nodes :: "archive_limits \<Rightarrow> int \<Rightarrow> int \<Rightarrow> tree \<Rightarrow> archive_error + unit" where
  "verify_nodes lim files acc [] = Inr ()"
| "verify_nodes lim files acc ((p, n) # t) =
    (case n of
       NodeUnreadable \<Rightarrow> Inl BadArchive
     | NodeDir \<Rightarrow> verify_nodes lim files acc t
     | NodeNoInfo \<Rightarrow> Inl NoWorkspace
     | NodeOther \<Rightarrow> Inl BadArchive
     | NodeFile raw \<Rightarrow>
        (let acc' = wrap64 (acc + int (length raw)) in
         if li_files lim < files + 1 \<or> li_extract lim < acc' then Inl TooLarge
         else verify_nodes lim (files + 1) acc' t))"

definition verifyExtracted :: "tree \<Rightarrow> archive_limits \<Rightarrow> archive_error + unit" where
  "verifyExtracted t lim = verify_nodes (withDefaults lim) 0 0 t"

definition unpack_checked :: "sevenzip \<Rightarrow> bytes \<Rightarrow> string \<Rightarrow> archive_limits \<Rightarrow> Entry list \<Rightarrow> archive_error + (tree \<times> Entry list)" where
  "unpack_checked S archive pass l entries =
    (case sv_extract S archive (pass @ LF) of
       (Failed out canceled, _) \<Rightarrow> Inl (classify (sv_lower S) out canceled)
     | (Finished _, t) \<Rightarrow> andthen (verifyExtracted t l) (\<lambda>_. Inr (t, entries)))"

text \<open>\<open>file\<close>: the archive file, if it can be read.\<close>

definition ExtractLimited ::
  "sevenzip \<Rightarrow> bytes option \<Rightarrow> string \<Rightarrow> archive_limits \<Rightarrow> archive_error + (tree \<times> Entry list)" where
  "ExtractLimited S file pass lim =
    (let l = withDefaults lim in
     andthen (from_option BadArchive file) (\<lambda>archive.
     andthen (ensure (\<not> li_archive l < int (length archive)) TooLarge) (\<lambda>_.
     andthen (ListArchive S archive pass) (\<lambda>entries.
     andthen (validateEntries entries l) (\<lambda>_.
     andthen (ensure (sv_work S WorkExtract) NoWorkspace) (\<lambda>_.
     unpack_checked S archive pass l entries))))))"

definition Extract :: "sevenzip \<Rightarrow> bytes option \<Rightarrow> string \<Rightarrow> archive_error + (tree \<times> Entry list)" where
  "Extract S file pass = ExtractLimited S file pass personalLimits"

definition InstanceLimits :: "int \<Rightarrow> archive_limits" where
  "InstanceLimits maxArchive =
    (let m = (if maxArchive \<le> 0 then 2 ^ 30 else maxArchive)
     in \<lparr>li_archive = m, li_extract = wrap64 (2 * m), li_files = 16, li_timeout = 600 * 10 ^ 9\<rparr>)"

section \<open>What passes\<close>

lemma withDefaults_idem [simp]: "withDefaults (withDefaults l) = withDefaults l"
  by (simp add: withDefaults_def personalLimits_def)

definition entry_ok :: "Entry \<Rightarrow> bool" where
  "entry_ok e \<longleftrightarrow> CHR 0x5C \<notin> set (en_path e) \<and> \<not> has_infix ''../'' (en_path e) \<and>
     (en_path e = ''.'' \<or> list_all plain_seg (split_on (CHR ''/'') (en_path e))) \<and>
     (en_dir e \<or> \<not> nestedArchiveSuffix (en_path e) \<and> \<not> has_infix ''lnx'' (en_attr e))"

text \<open>In a cleaned relative path every climbing element is at the front.\<close>

lemma climbs_first:
  "list_all (\<lambda>s. s = ''..'') (dropWhile (\<lambda>s. s \<noteq> ''..'') out) \<Longrightarrow>
   list_all (\<lambda>s. s = ''..'') (dropWhile (\<lambda>s. s \<noteq> ''..'') (rev (clean_segs False out ss)))"
proof (induction ss arbitrary: out)
  case (Cons s ss)
  show ?case
  proof (cases "s = ''..''")
    case True
    show ?thesis
    proof (cases "out \<noteq> [] \<and> hd out \<noteq> ''..''")
      case pop: True
      then obtain x xs where "out = x # xs" "x \<noteq> ''..''" by (cases out) auto
      with Cons True show ?thesis by simp
    next
      case False
      then have "list_all (\<lambda>s. s = ''..'') out" using Cons.prems by (cases out) auto
      then have "list_all (\<lambda>s. s = ''..'') (''..'' # out)" by simp
      with Cons.IH[of "''..'' # out"] True False show ?thesis by (cases "out = []") simp_all
    qed
  next
    case False
    with Cons.IH[of "s # out"] Cons.IH[of out] Cons.prems show ?thesis by simp
  qed
qed simp

lemma climbs_at_front:
  assumes "''..'' \<in> set (clean_segs False [] ss)"
  shows "hd (clean_segs False [] ss) = ''..''"
proof -
  let ?r = "clean_segs False [] ss"
  let ?d = "dropWhile (\<lambda>s. s \<noteq> ''..'') (rev ?r)"
  have ne: "?d \<noteq> []" using assms unfolding dropWhile_eq_Nil_conv by (metis set_rev)
  have "list_all (\<lambda>s. s = ''..'') ?d" by (rule climbs_first) simp
  with ne have "last ?d = ''..''" unfolding list_all_iff by (meson last_in_set)
  moreover have "last ?d = last (rev ?r)" using ne by (metis last_appendR takeWhile_dropWhile_id)
  moreover have "?r \<noteq> []" using assms by (metis empty_iff list.set(1))
  ultimately show ?thesis by (metis last_rev)
qed

definition path_passes :: "string \<Rightarrow> bool" where
  "path_passes p \<longleftrightarrow> p \<noteq> '''' \<and> \<not> (has_infix [CHR 0x5C] p \<or> has_prefix ''/'' p \<or> has_infix ''../'' p \<or> p = ''..'' \<or> has_prefix ''../'' p)
     \<and> \<not> (Clean p = ''..'' \<or> has_prefix ''../'' (Clean p) \<or> Clean p \<noteq> p)"

lemma infix_single: "has_infix [c] p \<longleftrightarrow> c \<in> set p"
  by (induction p) auto

lemma prefix_infix: "has_prefix q p \<Longrightarrow> has_infix q p"
  unfolding has_prefix_iff has_infix_iff by (metis append_Nil)

lemma path_passes_iff:
  "path_passes p \<longleftrightarrow> CHR 0x5C \<notin> set p \<and> \<not> has_infix ''../'' p \<and> (p = ''.'' \<or> list_all plain_seg (split_on (CHR ''/'') p))"
proof
  assume p: "path_passes p"
  then have c: "Clean p = p" "\<not> has_prefix ''/'' p" "p \<noteq> ''..''" "\<not> has_prefix ''../'' p" by (auto simp: path_passes_def)
  have "list_all plain_seg (split_on (CHR ''/'') p)" if "p \<noteq> ''.''"
  proof -
    let ?segs = "split_on (CHR ''/'') p"
    have pj: "p = join_with ''/'' (clean_segs False [] ?segs)" and ne: "clean_segs False [] ?segs \<noteq> []"
      using c(1,2) that by (auto simp: Clean_def Let_def split: if_splits)
    have "''..'' \<notin> set ?segs"
    proof
      assume "''..'' \<in> set ?segs"
      moreover have eq: "?segs = clean_segs False [] ?segs"
      proof -
        have "\<forall>s \<in> set (clean_segs False [] ?segs). CHR ''/'' \<notin> set s"
          using clean_segs_from[of _ False] split_on_no_sep by fastforce
        with ne have "split_on (CHR ''/'') (join_with ''/'' (clean_segs False [] ?segs)) = clean_segs False [] ?segs"
          by (rule split_join)
        with pj show ?thesis by simp
      qed
      ultimately have "hd ?segs = ''..''" using climbs_at_front[of ?segs] by simp
      then obtain r where r: "?segs = ''..'' # r" by (cases ?segs) auto
      have "p = join_with ''/'' (''..'' # r)" using split_join_inverse[of "CHR ''/''" p] r by simp
      then show False using c(3,4) by (cases r) (auto simp: has_prefix_iff)
    qed
    with Clean_fixed_segs[OF c(1,2) that] show ?thesis by (auto simp: list_all_iff)
  qed
  with p show "CHR 0x5C \<notin> set p \<and> \<not> has_infix ''../'' p \<and> (p = ''.'' \<or> list_all plain_seg (split_on (CHR ''/'') p))"
    by (auto simp: path_passes_def infix_single)
next
  assume a: "CHR 0x5C \<notin> set p \<and> \<not> has_infix ''../'' p \<and> (p = ''.'' \<or> list_all plain_seg (split_on (CHR ''/'') p))"
  show "path_passes p"
  proof (cases "p = ''.''")
    case True
    have "path_passes ''.''" by (simp add: path_passes_def Clean_def)
    with True show ?thesis by simp
  next
    case False
    with a have plain: "list_all plain_seg (split_on (CHR ''/'') p)" by simp
    have "p \<noteq> ''..''" "p \<noteq> ''''" using plain by (auto simp: plain_seg_def)
    moreover have "\<not> has_prefix ''/'' p" using plain by (auto simp: plain_seg_def has_prefix_iff)
    moreover have "\<not> has_prefix ''../'' p" using a prefix_infix by blast
    ultimately show ?thesis
      using a Clean_plain[OF plain] by (simp add: path_passes_def infix_single)
  qed
qed

lemma scan_entries_step:
  "scan_entries seen t (e # es) =
    (if \<not> path_passes (en_path e) \<or> en_path e \<in> set seen then Inl BadArchive
     else if en_dir e then scan_entries (en_path e # seen) t es
     else if nestedArchiveSuffix (en_path e) \<or> has_infix ''lnx'' (en_attr e) then Inl BadArchive
     else scan_entries (en_path e # seen) (wrap64 (t + en_size e)) es)"
  by (auto simp: path_passes_def)

definition declared :: "Entry list \<Rightarrow> int" where
  "declared es = sum_list (map en_size (filter (\<lambda>e. \<not> en_dir e) es))"

lemma scan_entries_Inr:
  "wrap64 t = t \<Longrightarrow> scan_entries seen t es = Inr u \<longleftrightarrow>
     list_all entry_ok es \<and> distinct (map en_path es) \<and> set seen \<inter> en_path ` set es = {} \<and> u = wrap64 (t + declared es)"
proof (induction es arbitrary: seen t)
  case Nil
  then show ?case by (auto simp: declared_def)
next
  case (Cons e es)
  have ok: "entry_ok e \<longleftrightarrow> path_passes (en_path e) \<and>
      (en_dir e \<or> \<not> nestedArchiveSuffix (en_path e) \<and> \<not> has_infix ''lnx'' (en_attr e))"
    unfolding entry_ok_def path_passes_iff by blast
  have "wrap64 (wrap64 (t + en_size e)) = wrap64 (t + en_size e)"
    using wrap64_add(1)[of "t + en_size e" 0] by simp
  note IH = Cons.IH[OF Cons.prems] Cons.IH[OF this]
  show ?case
    unfolding scan_entries_step using IH[of "en_path e # seen"]
    by (auto simp: ok declared_def algebra_simps)
qed

text \<open>What the whitelist lets through.  A file table passes exactly when it is not empty, has at most
  the allowed number of entries, each path is distinct, has no backslash and no \<open>../\<close> and consists of
  plain elements (or is the directory \<open>.\<close>), no file is a nested archive or carries the link attribute,
  and the declared sizes, added up in 64 bits, do not exceed the limit.\<close>

theorem validateEntries_exact:
  "validateEntries es lim = Inr () \<longleftrightarrow> es \<noteq> [] \<and> int (length es) \<le> li_files (withDefaults lim) \<and>
     distinct (map en_path es) \<and> list_all entry_ok es \<and> wrap64 (declared es) \<le> li_extract (withDefaults lim)"
  using scan_entries_Inr[of 0 "[]" es] wrap64_id[of 0]
  by (auto simp: validateEntries_def result_Inr)

lemma verify_nodes_Inr:
  assumes "verify_nodes lim files acc t = Inr ()" and "li_extract lim < 2 ^ 62" and "acc \<le> li_extract lim" "0 \<le> acc"
    and "\<forall>(p, n) \<in> set t. case n of NodeFile raw \<Rightarrow> int (length raw) < 2 ^ 62 | _ \<Rightarrow> True" and "files \<le> li_files lim"
  shows "(\<forall>(p, n) \<in> set t. n = NodeDir \<or> (\<exists>raw. n = NodeFile raw)) \<and>
     files + int (length [n \<leftarrow> map snd t. n \<noteq> NodeDir]) \<le> li_files lim \<and>
     acc + sum_list (map (\<lambda>(p, n). case n of NodeFile raw \<Rightarrow> int (length raw) | _ \<Rightarrow> 0) t) \<le> li_extract lim"
  using assms
proof (induction lim files acc t rule: verify_nodes.induct)
  case (2 lim files acc p n t)
  show ?case
  proof (cases n)
    case (NodeFile raw)
    with 2 have w: "wrap64 (acc + int (length raw)) = acc + int (length raw)" by (intro wrap64_id) auto
    with 2 NodeFile have "files + 1 \<le> li_files lim" "acc + int (length raw) \<le> li_extract lim"
      and rest: "verify_nodes lim (files + 1) (acc + int (length raw)) t = Inr ()"
      by (auto simp: Let_def split: if_splits)
    then have "\<not> (li_files lim < files + 1 \<or> li_extract lim < wrap64 (acc + int (length raw)))" by (simp add: w)
    from "2.IH"(2)[OF NodeFile refl this] 2(4-) NodeFile w rest \<open>files + 1 \<le> li_files lim\<close>
      \<open>acc + int (length raw) \<le> li_extract lim\<close> show ?thesis by (simp add: o_def)
  qed (use 2 in auto)
qed simp

lemma ExtractLimited_InrD:
  assumes "ExtractLimited S file pass lim = Inr (t, es)"
  shows "validateEntries es (withDefaults lim) = Inr () \<and> verifyExtracted t (withDefaults lim) = Inr ()"
proof -
  from assms obtain archive es' where v: "validateEntries es' (withDefaults lim) = Inr ()"
    and x: "unpack_checked S archive pass (withDefaults lim) es' = Inr (t, es)"
    by (auto simp: ExtractLimited_def Let_def result_Inr)
  obtain r u where "sv_extract S archive (pass @ LF) = (r, u)" by fastforce
  with x v show ?thesis by (cases r) (auto simp: unpack_checked_def result_Inr)
qed

text \<open>C23: An extraction stays inside its directory.  When \<open>ExtractLimited\<close> accepts an archive, every path of the
  file table, joined to the destination directory and cleaned, is below that directory, no path occurs
  twice, and no file is a nested archive; the tree on disk holds only directories and regular
  files, and the number of its files and their real total size are within the limits.\<close>

theorem extraction_confined:
  assumes "ExtractLimited S file pass lim = Inr (t, es)" and "has_prefix ''/'' dest" and "Clean dest = dest" and "dest \<noteq> ''/''"
    and "li_extract (withDefaults lim) < 2 ^ 62"
    and "\<forall>(p, n) \<in> set t. case n of NodeFile raw \<Rightarrow> int (length raw) < 2 ^ 62 | _ \<Rightarrow> True"
  shows "(\<forall>e \<in> set es. en_path e = ''.'' \<or> Clean (dest @ ''/'' @ en_path e) = dest @ ''/'' @ en_path e) \<and>
     distinct (map en_path es) \<and> (\<forall>e \<in> set es. en_dir e \<or> \<not> nestedArchiveSuffix (en_path e)) \<and>
     (\<forall>(p, n) \<in> set t. n = NodeDir \<or> (\<exists>raw. n = NodeFile raw)) \<and>
     int (length [n \<leftarrow> map snd t. n \<noteq> NodeDir]) \<le> li_files (withDefaults lim) \<and>
     sum_list (map (\<lambda>(p, n). case n of NodeFile raw \<Rightarrow> int (length raw) | _ \<Rightarrow> 0) t) \<le> li_extract (withDefaults lim)"
proof -
  from assms(1) have v: "validateEntries es (withDefaults lim) = Inr ()" and x: "verifyExtracted t (withDefaults lim) = Inr ()"
    using ExtractLimited_InrD by blast+
  from v[unfolded validateEntries_exact] have es: "distinct (map en_path es)" "list_all entry_ok es" by auto
  have pos: "0 < li_extract (withDefaults lim)" "0 < li_files (withDefaults lim)"
    by (auto simp: withDefaults_def personalLimits_def)
  have "en_path e = ''.'' \<or> Clean (dest @ ''/'' @ en_path e) = dest @ ''/'' @ en_path e" if "e \<in> set es" for e
    using es(2) that Clean_join[OF assms(2-4)] by (auto simp: list_all_iff entry_ok_def)
  moreover have "en_dir e \<or> \<not> nestedArchiveSuffix (en_path e)" if "e \<in> set es" for e
    using es(2) that by (auto simp: list_all_iff entry_ok_def)
  moreover note verify_nodes_Inr[OF x[unfolded verifyExtracted_def withDefaults_idem] assms(5) _ _ assms(6)] pos
  ultimately show ?thesis using es(1) by simp
qed

section \<open>Samples\<close>

definition sample_block :: "string \<Rightarrow> string \<Rightarrow> string \<Rightarrow> string" where
  "sample_block name sz attr = ''Path = '' @ name @ LF @ ''Size = '' @ sz @ LF @ ''Attributes = '' @ attr"

definition sample_listing :: "string \<Rightarrow> string" where
  "sample_listing sz = ''Type = 7z'' @ LF @ LF @ ''----------'' @ LF @
     sample_block ''m.json'' sz ''A'' @ LF @ LF @ sample_block ''d'' ''0'' ''D'' @ LF @ LF @
     sample_block ''d/x'' sz ''A rw'' @ LF"

definition sample_entries :: "int \<Rightarrow> Entry list" where
  "sample_entries n =
    [\<lparr>en_path = ''m.json'', en_size = n, en_dir = False, en_attr = ''A''\<rparr>,
     \<lparr>en_path = ''d'', en_size = 0, en_dir = True, en_attr = ''D''\<rparr>,
     \<lparr>en_path = ''d/x'', en_size = n, en_dir = False, en_attr = ''A rw''\<rparr>]"

lemmas sample_parse = sample_listing_def sample_block_def sample_entries_def LF_def parseSLT_def parse_block_def
  sltName_def sltSize_def sltAttributes_def scan_size_def trim_space_def is_space_def is_digit_def rune_count_def
  runes_def byte_values_def List.map_filter_def

lemma sample_listing_parsed:
  "parseSLT (sample_listing ''2'') = sample_entries 2"
  "parseSLT (sample_listing ''9223372036854775807'') = sample_entries (2 ^ 63 - 1)"
  by (simp add: sample_parse, simp add: sample_parse)

lemma sample_entries_ok: "list_all entry_ok (sample_entries n)" "distinct (map en_path (sample_entries n))"
  by (simp_all add: sample_entries_def entry_ok_def plain_seg_def nestedArchiveSuffix_def nested_suffixes_def has_suffix_def
      lower_char_def)

text \<open>The declared sizes are added in 64 bits without an overflow check.  The file table of this listing
  declares two files of \<open>2 ^ 63 - 1\<close> bytes each, and it passes the personal limit of 128 MiB: the sum
  wraps around to a negative number.  Only the check of the extracted tree refuses such an archive,
  after \<open>7zz\<close> has written it.\<close>

theorem declared_size_wraps:
  "ValidateEntries (parseSLT (sample_listing ''9223372036854775807'')) = Inr () \<and>
   declared (parseSLT (sample_listing ''9223372036854775807'')) = 2 ^ 64 - 2"
proof -
  have d: "declared (sample_entries (2 ^ 63 - 1)) = 2 ^ 64 - 2" by (simp add: declared_def sample_entries_def)
  have "wrap64 (2 ^ 64 - 2) = - 2" by (simp add: wrap64_def)
  then show ?thesis
    using sample_entries_ok[of "2 ^ 63 - 1"] d
    by (simp add: sample_listing_parsed ValidateEntries_def validateEntries_exact)
       (simp add: sample_entries_def withDefaults_def personalLimits_def)
qed

definition sample_7z :: sevenzip where
  "sample_7z = \<lparr>sv_lower = id, sv_work = (\<lambda>_. True), sv_add = (\<lambda>_ _. (Finished '''', [1])),
     sv_list = (\<lambda>_ _. Finished (sample_listing ''2'')),
     sv_extract = (\<lambda>_ _. (Finished '''', [('''', NodeDir), (''d'', NodeDir), (''d/x'', NodeFile [1, 2]),
       (''m.json'', NodeFile [3, 4])]))\<rparr>"

lemma sample_extraction:
  "ExtractLimited sample_7z (Some [1]) ''p'' personalLimits =
     Inr ([('''', NodeDir), (''d'', NodeDir), (''d/x'', NodeFile [1, 2]), (''m.json'', NodeFile [3, 4])],
       sample_entries 2)"
proof -
  have d: "declared (sample_entries 2) = 4" by (simp add: declared_def sample_entries_def)
  have p: "withDefaults personalLimits = personalLimits" by (simp add: withDefaults_def personalLimits_def)
  have "validateEntries (sample_entries 2) personalLimits = Inr ()"
    using sample_entries_ok[of 2] d unfolding validateEntries_exact p
    by (simp add: wrap64_def) (simp add: sample_entries_def personalLimits_def)
  moreover have "ListArchive sample_7z [1] ''p'' = Inr (sample_entries 2)"
    by (simp add: ListArchive_def sample_7z_def sample_listing_parsed)
  moreover have "verifyExtracted [('''', NodeDir), (''d'', NodeDir), (''d/x'', NodeFile [1, 2]),
      (''m.json'', NodeFile [3, 4])] personalLimits = Inr ()"
    by (simp add: verifyExtracted_def p wrap64_def) (simp add: personalLimits_def)
  ultimately show ?thesis
    by (simp add: ExtractLimited_def unpack_checked_def p Let_def) (simp add: sample_7z_def personalLimits_def)
qed

theorem extraction_confined_witness:
  "Clean (''/tmp/w'' @ ''/'' @ ''d/x'') = ''/tmp/w/d/x'' \<and>
   distinct (map en_path (sample_entries 2))"
proof -
  have d: "has_prefix ''/'' ''/tmp/w''" "Clean ''/tmp/w'' = ''/tmp/w''" "''/tmp/w'' \<noteq> ''/''" by (simp_all add: Clean_def)
  have l: "li_extract (withDefaults personalLimits) < 2 ^ 62" by (simp add: withDefaults_def personalLimits_def)
  have "\<exists>e \<in> set (sample_entries 2). en_path e = ''d/x''" by (simp add: sample_entries_def)
  moreover note extraction_confined[OF sample_extraction d l]
  ultimately show ?thesis by fastforce
qed

end
