(* ===== verification/Transfers.thy ===== *)
theory Transfers
  imports VaultImport Archive Clock
begin

text \<open>
  \<open>transfer/format.go\<close>, \<open>transfer/bitwarden.go\<close> and the export and preview of \<open>transfer/transfer.go\<close>:
  the manifest of a personal archive and its checks, the tree that an export packs, the items that a
  preview accepts, and the Bitwarden conversion.  JSON, SHA-256 and the 7-Zip process are
  parameters; the files of an archive are a \<open>tree\<close>.
\<close>

section \<open>The format\<close>

definition TransferVersion :: int where "TransferVersion = 1"

record transfer_file =
  tf_id :: string
  tf_type :: string
  tf_scope :: string
  tf_path :: string
  tf_sha256 :: string

text \<open>The counts are a Go map: an association list sorted by its distinct keys, or \<open>nil\<close>.\<close>

record transfer_manifest =
  tm_version :: int
  tm_files :: "transfer_file list"
  tm_counts :: "(string \<times> int) list option"

record item_file =
  pf_type :: string
  pf_tags :: "string list"
  pf_favorite :: bool
  pf_payload :: string

datatype format_error = BadVersion | NoItems | CountsMissing | BadItemID | UnsafeItemPath | DuplicateItemID
  | DuplicateItemPath | BadItemDigest | UnknownItemType | UnknownItemScope | CountMismatch

definition MaxPassphraseBytes :: nat where "MaxPassphraseBytes = 1024"

definition hex_lower :: "char \<Rightarrow> bool" where
  "hex_lower c \<longleftrightarrow> is_digit c \<or> 97 \<le> (of_char c :: nat) \<and> (of_char c :: nat) \<le> 102"

definition hex_char :: "char \<Rightarrow> bool" where
  "hex_char c \<longleftrightarrow> hex_lower c \<or> 65 \<le> (of_char c :: nat) \<and> (of_char c :: nat) \<le> 70"

definition uuid7_classes :: "(char \<Rightarrow> bool) list" where
  "uuid7_classes = replicate 8 hex_lower @ [\<lambda>c. c = CHR ''-''] @ replicate 4 hex_lower @ [\<lambda>c. c = CHR ''-'', \<lambda>c. c = CHR ''7'']
     @ replicate 3 hex_lower @ [\<lambda>c. c = CHR ''-'', \<lambda>c. c \<in> set ''89ab''] @ replicate 3 hex_lower
     @ [\<lambda>c. c = CHR ''-''] @ replicate 12 hex_lower"

definition transferIDPattern :: "string \<Rightarrow> bool" where
  "transferIDPattern s \<longleftrightarrow> list_all2 (\<lambda>p c. p c) uuid7_classes s"

definition item_path :: "string \<Rightarrow> string" where
  "item_path iid = ''items/'' @ iid @ ''.json''"

definition checkedManifestPath :: "transfer_file \<Rightarrow> format_error + string" where
  "checkedManifestPath f =
    (if \<not> transferIDPattern (tf_id f) then Inl BadItemID
     else if tf_path f \<noteq> item_path (tf_id f) \<or> tf_path f = ''.'' \<or> has_prefix ''/'' (tf_path f)
       \<or> has_infix [CHR 0x5C] (tf_path f) \<or> Clean (tf_path f) \<noteq> tf_path f then Inl UnsafeItemPath
     else Inr (tf_path f))"

fun check_transfer_files :: "string list \<Rightarrow> string list \<Rightarrow> transfer_file list \<Rightarrow> format_error + unit" where
  "check_transfer_files ids paths [] = Inr ()"
| "check_transfer_files ids paths (f # fs) =
    andthen (checkedManifestPath f) (\<lambda>_.
    if tf_id f \<in> set ids then Inl DuplicateItemID
    else if tf_path f \<in> set paths then Inl DuplicateItemPath
    else if length (tf_sha256 f) \<noteq> 64 then Inl BadItemDigest
    else if \<not> list_all hex_char (tf_sha256 f) then Inl BadItemDigest
    else if tf_type f \<notin> set [''login'', ''ssh_key'', ''credit_card'', ''identity'', ''secure_note'', ''secret''] then Inl UnknownItemType
    else if tf_scope f \<notin> set [''personal'', ''shared''] then Inl UnknownItemScope
    else check_transfer_files (tf_id f # ids) (tf_path f # paths) fs)"

definition count_of :: "string list \<Rightarrow> string \<Rightarrow> int" where
  "count_of ts t = int (length (filter (\<lambda>x. x = t) ts))"

definition ManifestSelfCheck :: "transfer_manifest \<Rightarrow> format_error + unit" where
  "ManifestSelfCheck m =
    (if tm_version m \<noteq> TransferVersion then Inl BadVersion
     else if tm_files m = [] then Inl NoItems
     else case tm_counts m of None \<Rightarrow> Inl CountsMissing
     | Some counts \<Rightarrow>
        andthen (check_transfer_files [] [] (tm_files m)) (\<lambda>_.
        let types = map tf_type (tm_files m) in
        if length counts \<noteq> length (remdups types) then Inl CountMismatch
        else if list_ex (\<lambda>(t, n). n \<le> 0 \<or> count_of types t \<noteq> n) counts then Inl CountMismatch
        else if sum_list (map snd counts) \<noteq> int (length (tm_files m)) then Inl CountMismatch
        else Inr ()))"

section \<open>Errors and surroundings\<close>

datatype transfer_error = TransferInput | TransferUnauthorized | TransferArchive archive_error
  | TransferVault vault_error | TransferFiles | TransferAudit audit_error | TransferCheck | CommitUnknown

datatype transfer_step = ExportWork | ExportWrite | ExportStat | PreviewUpload | StageMkdir | StageMeta | StagePayload

record transfer_env =
  xe_zip :: sevenzip
  xe_sha :: "bytes \<Rightarrow> bytes"
  xe_hmac :: "bytes \<Rightarrow> bytes \<Rightarrow> bytes"
  xe_key :: bytes
  xe_fault :: "transfer_step \<Rightarrow> bool"
  xe_now :: time
  xe_nonce :: "bytes option"
  xe_manifest_enc :: "transfer_manifest \<Rightarrow> bytes"
  xe_manifest_dec :: "bytes \<Rightarrow> transfer_manifest option"
  xe_item_enc :: "item_file \<Rightarrow> bytes"
  xe_item_dec :: "bytes \<Rightarrow> item_file option"
  xe_items_enc :: "import_item list \<Rightarrow> bytes"
  xe_items_dec :: "bytes \<Rightarrow> import_item list option"
  xe_payload_enc :: "payload \<Rightarrow> string"
  xe_json :: import_json
  xe_vault :: venv
  xe_audit :: audit_env

definition sha256Hex :: "transfer_env \<Rightarrow> bytes \<Rightarrow> string" where
  "sha256Hex T raw = hex_encode (xe_sha T raw)"

section \<open>Export\<close>

definition ValidateExportInput :: "string \<Rightarrow> string \<Rightarrow> transfer_error + unit" where
  "ValidateExportInput pass confirm =
    (if pass \<noteq> confirm then Inl TransferInput
     else if length pass < 12 \<or> MaxPassphraseBytes < length pass then Inl TransferInput
     else if list_ex (\<lambda>c. c = CHR 0x0D \<or> c = CHR 0x0A) pass then Inl TransferInput
     else Inr ())"

definition payload_file :: "transfer_env \<Rightarrow> export_item \<Rightarrow> item_file" where
  "payload_file T x = \<lparr>pf_type = m_type (ex_meta x), pf_tags = ex_tags x, pf_favorite = m_favorite (ex_meta x),
     pf_payload = xe_payload_enc T (ex_payload x)\<rparr>"

definition export_entry :: "transfer_env \<Rightarrow> export_item \<Rightarrow> transfer_file" where
  "export_entry T x = \<lparr>tf_id = m_id (ex_meta x), tf_type = m_type (ex_meta x), tf_scope = m_scope (ex_meta x),
     tf_path = item_path (m_id (ex_meta x)), tf_sha256 = sha256Hex T (xe_item_enc T (payload_file T x))\<rparr>"

definition export_manifest :: "transfer_env \<Rightarrow> export_item list \<Rightarrow> transfer_manifest" where
  "export_manifest T xs = \<lparr>tm_version = TransferVersion, tm_files = map (export_entry T) xs,
     tm_counts = Some (let ts = map (m_type \<circ> ex_meta) xs in map (\<lambda>t. (t, count_of ts t)) (sort (remdups ts)))\<rparr>"

definition export_tree :: "transfer_env \<Rightarrow> export_item list \<Rightarrow> tree" where
  "export_tree T xs = (''items'', NodeDir)
     # map (\<lambda>x. (item_path (m_id (ex_meta x)), NodeFile (xe_item_enc T (payload_file T x)))) xs
     @ [(''manifest.json'', NodeFile (xe_manifest_enc T (export_manifest T xs)))]"

definition export_archive :: "transfer_env \<Rightarrow> principal option \<Rightarrow> string \<Rightarrow> string \<Rightarrow> db \<Rightarrow> transfer_error + bytes" where
  "export_archive T actor pass confirm d =
    andthen (ValidateExportInput pass confirm) (\<lambda>_.
    andthen (map_err TransferVault (ExportAll (xe_vault T) actor d)) (\<lambda>xs.
    andthen (ensure (\<not> xe_fault T ExportWork) TransferFiles) (\<lambda>_.
    andthen (ensure (\<not> xe_fault T ExportWrite) (TransferArchive BadArchive)) (\<lambda>_.
    andthen (map_err TransferArchive (CreateArchive (xe_zip T) (export_tree T xs) pass)) (\<lambda>archive.
    andthen (ensure (\<not> xe_fault T ExportStat) TransferFiles) (\<lambda>_.
    andthen (ensure (\<not> li_archive personalLimits < int (length archive)) (TransferArchive TooLarge)) (\<lambda>_.
    Inr archive)))))))"

definition Export :: "transfer_env \<Rightarrow> principal option \<Rightarrow> string \<Rightarrow> string \<Rightarrow> db \<Rightarrow> (transfer_error + bytes) \<times> db" where
  "Export T actor pass confirm d =
    (case export_archive T actor pass confirm d of Inl e \<Rightarrow> (Inl e, d)
     | Inr archive \<Rightarrow>
        (let uid = (case actor of None \<Rightarrow> '''' | Some a \<Rightarrow> p_user a)
         in case Record (xe_audit T) (mk_event ''transfer.exported'' uid ''user'' uid ''success'') d of
              Inl e \<Rightarrow> (Inl (TransferAudit e), d) | Inr d' \<Rightarrow> (Inr archive, d')))"

section \<open>Reading an archive\<close>

definition read_file :: "tree \<Rightarrow> string \<Rightarrow> bytes option" where
  "read_file t p = (case map_of t p of Some (NodeFile raw) \<Rightarrow> Some raw | _ \<Rightarrow> None)"

fun staged_items :: "transfer_env \<Rightarrow> tree \<Rightarrow> transfer_file list \<Rightarrow> transfer_error + import_item list" where
  "staged_items T t [] = Inr []"
| "staged_items T t (f # fs) =
    andthen (map_err (\<lambda>_. TransferArchive BadArchive) (checkedManifestPath f)) (\<lambda>p.
    andthen (from_option (TransferArchive BadArchive) (read_file t p)) (\<lambda>raw.
    andthen (ensure (sha256Hex T raw = tf_sha256 f) (TransferArchive BadArchive)) (\<lambda>_.
    andthen (from_option (TransferArchive BadArchive) (xe_item_dec T raw)) (\<lambda>pf.
    andthen (ensure (pf_type pf = tf_type f) (TransferArchive BadArchive)) (\<lambda>_.
    andthen (map_err (\<lambda>_. TransferArchive BadArchive) (decodePayload (ve_codec (xe_vault T)) (tf_type f) (pf_payload pf))) (\<lambda>_.
    andthen (staged_items T t fs) (\<lambda>is.
    Inr (\<lparr>im_id = tf_id f, im_type = tf_type f, im_scope = tf_scope f, im_tags = pf_tags pf,
          im_favorite = pf_favorite pf, im_payload = pf_payload pf\<rparr> # is))))))))"

definition archive_items :: "transfer_env \<Rightarrow> principal option \<Rightarrow> bytes \<Rightarrow> string \<Rightarrow> transfer_error + import_item list" where
  "archive_items T actor archive pass =
    andthen (ensure (actor \<noteq> None) TransferUnauthorized) (\<lambda>_.
    andthen (ensure (\<not> li_archive personalLimits < int (length archive)) (TransferArchive TooLarge)) (\<lambda>_.
    andthen (ensure (length pass \<le> MaxPassphraseBytes) TransferInput) (\<lambda>_.
    andthen (ensure (\<not> xe_fault T PreviewUpload) TransferFiles) (\<lambda>_.
    andthen (map_err TransferArchive (Extract (xe_zip T) (Some archive) pass)) (\<lambda>(t, es).
    andthen (from_option (TransferArchive BadArchive) (read_file t ''manifest.json'')) (\<lambda>raw.
    andthen (from_option (TransferArchive BadArchive) (xe_manifest_dec T raw)) (\<lambda>m.
    andthen (map_err (\<lambda>_. TransferArchive BadArchive) (ManifestSelfCheck m)) (\<lambda>_.
    staged_items T t (tm_files m)))))))))"

section \<open>Bitwarden\<close>

record bitwarden_login =
  bl_username :: string
  bl_password :: string
  bl_uris :: "string list"

record bitwarden_item =
  bi_id :: string
  bi_type :: int
  bi_name :: string
  bi_login :: "bitwarden_login option"

record bitwarden_export =
  be_encrypted :: "bool option"
  be_items :: "bitwarden_item list"

definition convertBitwardenLogin :: "bitwarden_item \<Rightarrow> bitwarden_login \<Rightarrow> login_payload" where
  "convertBitwardenLogin s l = \<lparr>lp_name = bi_name s, lp_username = bl_username l, lp_password = bl_password l,
     lp_urls = filter (\<lambda>u. u \<noteq> '''') (bl_uris l), lp_notes = '''', lp_updated_at = None,
     lp_expires_at = None\<rparr>"

definition convertBitwardenItem :: "transfer_env \<Rightarrow> bitwarden_item \<Rightarrow> import_item option" where
  "convertBitwardenItem T s =
    (if bi_type s \<noteq> 1 then None
     else case bi_login s of None \<Rightarrow> None
     | Some l \<Rightarrow>
        (let raw = xe_payload_enc T (Login (convertBitwardenLogin s l)) in
         case decodePayload (ve_codec (xe_vault T)) TypeLogin raw of Inl _ \<Rightarrow> None
         | Inr _ \<Rightarrow> Some \<lparr>im_id = '''', im_type = TypeLogin, im_scope = ScopePersonal, im_tags = [],
             im_favorite = False, im_payload = raw\<rparr>))"

fun bitwarden_items :: "transfer_env \<Rightarrow> string list \<Rightarrow> bitwarden_item list \<Rightarrow> import_item list option" where
  "bitwarden_items T seen [] = Some []"
| "bitwarden_items T seen (s # ss) =
    (if bi_type s \<noteq> 1 then bitwarden_items T seen ss
     else if bi_id s = '''' then None
     else if bi_id s \<in> set seen then None
     else case convertBitwardenItem T s of None \<Rightarrow> None
       | Some i \<Rightarrow> map_option ((#) i) (bitwarden_items T (bi_id s # seen) ss))"

text \<open>\<open>decode\<close>: the JSON decoder with the check that nothing follows the document.\<close>

definition ParseBitwardenJSON ::
  "transfer_env \<Rightarrow> (bytes \<Rightarrow> bitwarden_export option) \<Rightarrow> bytes \<Rightarrow> import_item list option" where
  "ParseBitwardenJSON T decode raw =
    (if raw = [] \<or> 64 * 2 ^ 20 < length raw then None
     else case decode raw of None \<Rightarrow> None
     | Some x \<Rightarrow>
        (if be_encrypted x \<noteq> Some False \<or> be_items x = [] then None
         else case bitwarden_items T [] (be_items x) of None \<Rightarrow> None
           | Some is \<Rightarrow> if is = [] then None else Some is))"

end
