(* ===== verification/TransferSafety.thy ===== *)
theory TransferSafety
  imports Transfers VaultReads
begin

text \<open>What an export contains and that a preview reads it back: the exported items, the checks that the manifest
  passes, and the round trip through the archive.\<close>

section \<open>JSON\<close>

definition file_wire :: "transfer_file \<Rightarrow> bool" where
  "file_wire f \<longleftrightarrow> list_all valid_utf8 [tf_id f, tf_type f, tf_scope f, tf_path f, tf_sha256 f]"

definition manifest_wire :: "transfer_manifest \<Rightarrow> bool" where
  "manifest_wire m \<longleftrightarrow> list_all file_wire (tm_files m) \<and>
     (case tm_counts m of None \<Rightarrow> True | Some c \<Rightarrow> list_all (\<lambda>x. valid_utf8 (fst x)) c \<and> sorted (map fst c) \<and> distinct (map fst c))"

definition item_wire :: "transfer_env \<Rightarrow> item_file \<Rightarrow> bool" where
  "item_wire T f \<longleftrightarrow> list_all valid_utf8 (pf_type f # pf_tags f) \<and> (\<exists>p. payload_wire p \<and> pf_payload f = xe_payload_enc T p)"

text \<open>The documented behaviour of \<open>encoding/json\<close>: values made of valid UTF-8 come back.\<close>

definition json_ok :: "transfer_env \<Rightarrow> bool" where
  "json_ok T \<longleftrightarrow> (\<forall>m. manifest_wire m \<longrightarrow> xe_manifest_dec T (xe_manifest_enc T m) = Some m) \<and>
     (\<forall>f. item_wire T f \<longrightarrow> xe_item_dec T (xe_item_enc T f) = Some f) \<and>
     (\<forall>p. payload_wire p \<longrightarrow> \<not> blank (xe_payload_enc T p) \<and>
        decode_strict (ve_codec (xe_vault T)) (payload_type p) (xe_payload_enc T p) = Some p)"

section \<open>Texts\<close>

lemma utf8_bytes_ascii: "\<forall>b \<in> set bs. b < 128 \<Longrightarrow> utf8_bytes bs"
  by (induction bs) auto

lemma valid_utf8_ascii: "ascii s \<Longrightarrow> valid_utf8 s"
  by (simp add: valid_utf8_def byte_values_def ascii_def utf8_bytes_ascii)

lemma ascii_append [simp]: "ascii (a @ b) \<longleftrightarrow> ascii a \<and> ascii b"
  by (auto simp: ascii_def)

lemma hexdigit_char: "n < 16 \<Longrightarrow> hexdigits ! n \<in> set hexdigits"
  by (rule nth_mem) (simp add: hexdigits_def)

lemma hex_encode_chars: "c \<in> set (hex_encode bs) \<Longrightarrow> c \<in> set hexdigits"
proof -
  have "unat b div 16 < 16" for b :: "8 word" using byte_lt[of b] by simp
  then show "c \<in> set (hex_encode bs) \<Longrightarrow> c \<in> set hexdigits"
    by (auto simp: hex_encode_def intro!: hexdigit_char)
qed

lemma hexdigits_ok: "c \<in> set hexdigits \<Longrightarrow> hex_char c" "c \<in> set hexdigits \<Longrightarrow> (of_char c :: nat) < 128"
  by (auto simp: hexdigits_def hex_char_def hex_lower_def is_digit_def)

lemma hex_encode_text: "list_all hex_char (hex_encode bs)" "ascii (hex_encode bs)" "length (hex_encode bs) = 2 * length bs"
proof -
  show "list_all hex_char (hex_encode bs)" using hex_encode_chars hexdigits_ok(1) by (fastforce simp: list_all_iff)
  show "ascii (hex_encode bs)" using hex_encode_chars hexdigits_ok(2) by (fastforce simp: ascii_def)
  show "length (hex_encode bs) = 2 * length bs" by (induction bs) (simp_all add: hex_encode_def)
qed

lemma uuid7_chars:
  assumes "transferIDPattern s" and "c \<in> set s"
  shows "hex_lower c \<or> c = CHR ''-''"
proof -
  from assms obtain i where i: "i < length s" "s ! i = c" by (auto simp: in_set_conv_nth)
  with assms(1) have "(uuid7_classes ! i) c" "i < length uuid7_classes"
    by (auto simp: transferIDPattern_def dest: list_all2_nthD2 list_all2_lengthD)
  then obtain p where "p \<in> set uuid7_classes" "p c" by (meson nth_mem)
  then show ?thesis by (auto simp: uuid7_classes_def hex_lower_def is_digit_def)
qed

lemma uuid7_text:
  assumes "transferIDPattern s"
  shows "ascii s" "CHR ''/'' \<notin> set s" "CHR 0x5C \<notin> set s" "length s = 36"
proof -
  have "(of_char c :: nat) < 128 \<and> c \<noteq> CHR ''/'' \<and> c \<noteq> CHR 0x5C" if "c \<in> set s" for c
    using uuid7_chars[OF assms that] by (auto simp: hex_lower_def is_digit_def)
  then show "ascii s" "CHR ''/'' \<notin> set s" "CHR 0x5C \<notin> set s" by (auto simp: ascii_def)
  show "length s = 36"
    using assms by (auto simp: transferIDPattern_def uuid7_classes_def dest: list_all2_lengthD)
qed

lemma item_path_ok:
  assumes "transferIDPattern iid"
  shows "checkedManifestPath \<lparr>tf_id = iid, tf_type = t, tf_scope = sc, tf_path = item_path iid, tf_sha256 = h\<rparr> = Inr (item_path iid)"
proof -
  note U = uuid7_text[OF assms]
  have "split_on (CHR ''/'') (item_path iid) = [''items'', iid @ ''.json'']"
    using U(2) by (simp add: item_path_def split_on_single)
  moreover have "plain_seg (iid @ ''.json'')" using U(4) by (auto simp: plain_seg_def dest: arg_cong[where f = length])
  ultimately have "Clean (item_path iid) = item_path iid" by (intro Clean_plain) (simp add: plain_seg_def)
  with assms U(3) show ?thesis by (simp add: checkedManifestPath_def infix_single) (simp add: item_path_def)
qed

section \<open>What an export contains\<close>

definition exports_row :: "venv \<Rightarrow> item_row \<Rightarrow> export_item \<Rightarrow> bool" where
  "exports_row V r x \<longleftrightarrow> ex_meta x = (toMeta r)\<lparr>m_title := TitleOf (ex_payload x)\<rparr> \<and> row_holds V r (ex_tags x) (ex_payload x)"

lemma export_rows_InrD:
  assumes "export_rows V a rs = Inr xs" and V: "venv_ok V" and rs: "\<forall>r \<in> set rs. \<exists>tags p. row_holds V r tags p"
    and dist: "distinct (map it_id rs)"
  shows "(\<forall>x \<in> set xs. \<exists>r \<in> set rs. exports_row V r x) \<and> distinct (map (\<lambda>x. m_id (ex_meta x)) xs)"
  using assms(1) rs dist
proof (induction rs arbitrary: xs)
  case (Cons r rs)
  show ?case
  proof (cases "Can (p_role a) (p_user a) (policyView r) ActionExport")
    case False
    with Cons show ?thesis by auto
  next
    case True
    obtain tags p where h: "row_holds V r tags p" using Cons.prems(2) by auto
    with decryptRow_holds[OF V h] True Cons.prems(1) obtain ys where
      xs: "xs = \<lparr>ex_meta = (toMeta r)\<lparr>m_title := TitleOf p\<rparr>, ex_tags = tags, ex_payload = p\<rparr> # ys"
      and ys: "export_rows V a rs = Inr ys" by (auto simp: result_Inr empty_envelope_def)
    from Cons.IH[OF ys] Cons.prems(2,3)
    have I: "\<forall>x \<in> set ys. \<exists>r \<in> set rs. exports_row V r x" "distinct (map (\<lambda>x. m_id (ex_meta x)) ys)" by auto
    have "m_id (ex_meta x) \<in> it_id ` set rs" if "x \<in> set ys" for x
      using I(1) that by (auto simp: exports_row_def toMeta_def)
    with Cons.prems(3) I h show ?thesis by (fastforce simp: xs exports_row_def toMeta_def)
  qed
qed simp

lemma listRows_distinct:
  assumes "tables_ok d" and "0 < n"
  shows "distinct (map it_id (listRows p cur n d))"
proof -
  have "distinct (map it_id (items d))" using assms(1) by (simp add: tables_ok_def)
  then have "distinct (map it_id (newest_first item_pos (items d)))"
    by (simp add: newest_first_def rev_map[symmetric] distinct_map)
  then show ?thesis
    unfolding listRows_take[OF assms(2)] candidates_def
    by (simp add: distinct_map_filter_key distinct_take flip: take_map)
qed

lemma ExportAll_InrD:
  assumes "ExportAll V (Some a) d = Inr xs" and "venv_ok V" and inv: "vault_inv V d"
  shows "(\<forall>x \<in> set xs. \<exists>r \<in> set (items d). it_deleted r = None \<and> exports_row V r x) \<and> distinct (map (\<lambda>x. m_id (ex_meta x)) xs)"
proof -
  let ?rs = "listRows (export_where (p_user a)) None (exportMaxItems + 1) d"
  from assms(1) have x: "export_rows V a ?rs = Inr xs" by (auto simp: ExportAll_def Let_def split: if_splits)
  have mem: "r \<in> set (items d) \<and> it_deleted r = None" if "r \<in> set ?rs" for r
    using listRows_mem[OF that] by (auto simp: export_where_def)
  then have "\<forall>r \<in> set ?rs. \<exists>tags p. row_holds V r tags p" using inv by (auto simp: vault_inv_def)
  from export_rows_InrD[OF x assms(2) this listRows_distinct] inv mem show ?thesis by (fastforce simp: vault_inv_def)
qed

section \<open>The manifest of an export\<close>

lemma check_transfer_files_ok:
  assumes "\<forall>f \<in> set fs. transferIDPattern (tf_id f) \<and> tf_path f = item_path (tf_id f) \<and> length (tf_sha256 f) = 64 \<and>
       list_all hex_char (tf_sha256 f) \<and> tf_type f \<in> set item_types \<and> tf_scope f \<in> set [''personal'', ''shared'']"
    and "distinct (map tf_id fs)" and "set ids \<inter> tf_id ` set fs = {}" and "paths = map item_path ids"
  shows "check_transfer_files ids paths fs = Inr ()"
  using assms
proof (induction fs arbitrary: ids paths)
  case (Cons f fs)
  have inj: "item_path a = item_path b \<longleftrightarrow> a = b" for a b by (simp add: item_path_def)
  have "checkedManifestPath f = Inr (tf_path f)"
    using item_path_ok[of "tf_id f" "tf_type f" "tf_scope f" "tf_sha256 f"] Cons.prems(1) by (cases f) auto
  moreover have "tf_id f \<notin> set ids" "item_path (tf_id f) \<notin> set paths" using Cons.prems(3,4) inj by auto
  moreover have "check_transfer_files (tf_id f # ids) (tf_path f # paths) fs = Inr ()"
    using Cons.prems by (intro Cons.IH) auto
  ultimately show ?case using Cons.prems(1) by (auto simp: item_types_def)
qed simp

lemma counts_sum: "sum_list (map (count_of ts) (sort (remdups ts))) = int (length ts)"
proof -
  have "sum_list (map (count_of ts) (sort (remdups ts))) = (\<Sum>t \<in> set ts. count_of ts t)"
    by (subst sum_list_distinct_conv_sum_set) simp_all
  also have "\<dots> = int (\<Sum>t \<in> set ts. count_list ts t)"
    by (simp add: count_of_def count_list_eq_length_filter eq_commute)
  finally show ?thesis by (simp add: sum_count_set)
qed

definition exportable :: "transfer_env \<Rightarrow> export_item \<Rightarrow> bool" where
  "exportable T x \<longleftrightarrow> transferIDPattern (m_id (ex_meta x)) \<and> m_type (ex_meta x) \<in> set item_types \<and>
     m_scope (ex_meta x) \<in> set [''personal'', ''shared''] \<and> payload_type (ex_payload x) = m_type (ex_meta x) \<and>
     payload_wire (ex_payload x) \<and> list_all valid_utf8 (ex_tags x)"

lemma export_manifest_checks:
  assumes "\<forall>x \<in> set xs. exportable T x" and "distinct (map (\<lambda>x. m_id (ex_meta x)) xs)" and "xs \<noteq> []"
    and sha: "\<forall>raw. length (xe_sha T raw) = 32"
  shows "ManifestSelfCheck (export_manifest T xs) = Inr ()"
proof -
  let ?ts = "map (m_type \<circ> ex_meta) xs"
  have "check_transfer_files [] [] (map (export_entry T) xs) = Inr ()"
    using assms by (intro check_transfer_files_ok)
      (auto simp: export_entry_def exportable_def sha256Hex_def hex_encode_text o_def)
  moreover have types: "map tf_type (map (export_entry T) xs) = ?ts" by (simp add: export_entry_def)
  moreover have "\<not> list_ex (\<lambda>(t, n). n \<le> 0 \<or> count_of ?ts t \<noteq> n) (map (\<lambda>t. (t, count_of ?ts t)) (sort (remdups ?ts)))"
  proof -
    have "0 < count_of ts t" if "t \<in> set ts" for ts t
      using that by (auto simp: count_of_def filter_empty_conv)
    then have "0 < count_of ?ts t" if "t \<in> set (sort (remdups ?ts))" for t using that by auto
    then show ?thesis unfolding list_ex_iff by (auto simp: not_le)
  qed
  moreover have "sum_list (map snd (map (\<lambda>t. (t, count_of ?ts t)) (sort (remdups ?ts)))) = int (length xs)"
    using counts_sum[of ?ts] by (simp add: o_def)
  ultimately show ?thesis
    using assms(3)
    unfolding ManifestSelfCheck_def export_manifest_def Let_def transfer_manifest.simps option.case types
    by (simp del: map_map)
qed

lemma export_manifest_wire:
  assumes "\<forall>x \<in> set xs. exportable T x"
  shows "manifest_wire (export_manifest T xs)"
proof -
  have lit: "valid_utf8 t" if "t \<in> set (item_types @ [''personal'', ''shared''])" for t
    using that by (auto simp: item_types_def ascii_def intro!: valid_utf8_ascii)
  have path: "valid_utf8 (item_path i)" if "ascii i" for i
    using that by (intro valid_utf8_ascii) (simp add: item_path_def, simp add: ascii_def)
  have "file_wire (export_entry T x)" if "x \<in> set xs" for x
    using assms that lit path uuid7_text(1) hex_encode_text(2)
    by (auto simp: file_wire_def export_entry_def exportable_def sha256Hex_def intro: valid_utf8_ascii)
  moreover have "list_all (\<lambda>x. valid_utf8 (fst x)) (map (\<lambda>t. (t, c t)) (sort (remdups (map (m_type \<circ> ex_meta) xs))))" for c :: "string \<Rightarrow> int"
    using assms lit by (auto simp: list_all_iff exportable_def)
  ultimately show ?thesis
    by (simp add: manifest_wire_def export_manifest_def list_all_iff Let_def o_def)
qed

section \<open>The round trip\<close>

definition import_of :: "transfer_env \<Rightarrow> export_item \<Rightarrow> import_item" where
  "import_of T x = \<lparr>im_id = m_id (ex_meta x), im_type = m_type (ex_meta x), im_scope = m_scope (ex_meta x),
     im_tags = ex_tags x, im_favorite = m_favorite (ex_meta x), im_payload = xe_payload_enc T (ex_payload x)\<rparr>"

lemma read_export_tree:
  assumes "distinct (map (\<lambda>x. m_id (ex_meta x)) xs)" and "x \<in> set xs"
  shows "read_file (export_tree T xs) (item_path (m_id (ex_meta x))) = Some (xe_item_enc T (payload_file T x))"
proof -
  let ?l = "map (\<lambda>x. (item_path (m_id (ex_meta x)), NodeFile (xe_item_enc T (payload_file T x)))) xs"
  have "distinct (map fst ?l)"
    using assms(1) by (auto simp: distinct_map inj_on_def item_path_def o_def)
  moreover have "(item_path (m_id (ex_meta x)), NodeFile (xe_item_enc T (payload_file T x))) \<in> set ?l" using assms(2) by force
  ultimately have "map_of ?l (item_path (m_id (ex_meta x))) = Some (NodeFile (xe_item_enc T (payload_file T x)))"
    by (rule map_of_is_SomeI)
  moreover have "item_path i \<noteq> ''items''" for i by (simp add: item_path_def)
  ultimately show ?thesis by (simp add: read_file_def export_tree_def map_add_def)
qed

lemma read_export_manifest:
  "read_file (export_tree T xs) ''manifest.json'' = Some (xe_manifest_enc T (export_manifest T xs))"
proof -
  have "item_path i \<noteq> ''manifest.json''" "''manifest.json'' \<noteq> item_path i" for i by (simp_all add: item_path_def)
  then have "map_of (map (\<lambda>x. (item_path (m_id (ex_meta x)), NodeFile (xe_item_enc T (payload_file T x)))) xs) ''manifest.json'' = None"
    by (induction xs) simp_all
  then show ?thesis by (simp add: read_file_def export_tree_def map_add_def)
qed

lemma staged_items_export:
  assumes "\<forall>x \<in> set ys. read_file t (item_path (m_id (ex_meta x))) = Some (xe_item_enc T (payload_file T x))"
    and "json_ok T" and "\<forall>x \<in> set ys. exportable T x \<and> validate_payload (ex_payload x) = None"
  shows "staged_items T t (map (export_entry T) ys) = Inr (map (import_of T) ys)"
  using assms(1,3)
proof (induction ys)
  case (Cons x ys)
  have ex: "exportable T x" and valid: "validate_payload (ex_payload x) = None" using Cons.prems by auto
  have "xe_item_dec T (xe_item_enc T (payload_file T x)) = Some (payload_file T x)"
  proof -
    have "valid_utf8 (m_type (ex_meta x))"
      using ex by (auto simp: exportable_def item_types_def ascii_def intro!: valid_utf8_ascii)
    with ex have "item_wire T (payload_file T x)" by (auto simp: item_wire_def payload_file_def exportable_def)
    with assms(2) show ?thesis by (simp add: json_ok_def)
  qed
  moreover have "decodePayload (ve_codec (xe_vault T)) (m_type (ex_meta x)) (xe_payload_enc T (ex_payload x)) = Inr (ex_payload x)"
    using ex valid assms(2) unfolding decodePayload_def json_ok_def exportable_def ItemTypes_def by auto
  moreover have "checkedManifestPath (export_entry T x) = Inr (item_path (m_id (ex_meta x)))"
    unfolding export_entry_def using ex by (intro item_path_ok) (simp add: exportable_def)
  ultimately show ?case using Cons
    by (simp add: export_entry_def[of T x] payload_file_def[of T x] import_of_def)
qed simp

lemma Export_InrD:
  assumes "Export T (Some a) pass pass2 d = (Inr archive, d')"
  shows "\<exists>xs. ExportAll (xe_vault T) (Some a) d = Inr xs \<and> CreateArchive (xe_zip T) (export_tree T xs) pass = Inr archive \<and>
     length pass \<le> MaxPassphraseBytes \<and> int (length archive) \<le> li_archive personalLimits \<and>
     (\<exists>e. audits d' = audits d @ [e]) \<and> items d' = items d"
  using assms
  by (auto simp: Export_def export_archive_def result_Inr ValidateExportInput_def Let_def
      split: sum.splits if_splits dest!: Record_InrD)

text \<open>C22: What a member exports, a preview reads back.  The archive holds exactly the live items of the
  member; when its files come back from 7-Zip with the same passphrase, the preview accepts it and stages
  for each item the same id, type, scope, tags and favorite mark and a payload that decodes to the exported
  content.  The one exception is an export without items: its archive is created, and every preview
  refuses it.  The hypotheses are the documented behaviour of JSON, SHA-256 and 7-Zip, the vault
  invariant, item ids of the form that the service draws, and stored payloads within the limits.\<close>

theorem export_then_preview:
  assumes run: "Export T (Some a) pass pass2 d = (Inr archive, d')"
    and V: "venv_ok (xe_vault T)" and inv: "vault_inv (xe_vault T) d"
    and json: "json_ok T" and sha: "\<forall>raw. length (xe_sha T raw) = 32" and up: "\<not> xe_fault T PreviewUpload"
    and ids: "\<forall>r \<in> set (items d). transferIDPattern (it_id r)"
    and valid: "\<forall>r \<in> set (items d). \<forall>tags p. row_holds (xe_vault T) r tags p \<longrightarrow> validate_payload p = None"
    and zip: "\<forall>t. CreateArchive (xe_zip T) t pass = Inr archive \<longrightarrow>
       (\<exists>t' es. Extract (xe_zip T) (Some archive) pass = Inr (t', es) \<and> (\<forall>p. read_file t' p = read_file t p))"
  shows "\<exists>xs. ExportAll (xe_vault T) (Some a) d = Inr xs \<and>
     archive_items T (Some b) archive pass = (if xs = [] then Inl (TransferArchive BadArchive) else Inr (map (import_of T) xs)) \<and>
     (\<forall>x \<in> set xs. decodePayload (ve_codec (xe_vault T)) (im_type (import_of T x)) (im_payload (import_of T x)) = Inr (ex_payload x))"
proof -
  from Export_InrD[OF run] obtain xs where xs: "ExportAll (xe_vault T) (Some a) d = Inr xs"
    and c: "CreateArchive (xe_zip T) (export_tree T xs) pass = Inr archive"
    and lim: "length pass \<le> MaxPassphraseBytes" "int (length archive) \<le> li_archive personalLimits" by blast
  from zip c obtain t es where ext: "Extract (xe_zip T) (Some archive) pass = Inr (t, es)"
    and same: "\<And>p. read_file t p = read_file (export_tree T xs) p" by blast
  note X = ExportAll_InrD[OF xs V inv]
  have each: "exportable T x \<and> validate_payload (ex_payload x) = None" if "x \<in> set xs" for x
  proof -
    from X that obtain r where r: "r \<in> set (items d)" "exports_row (xe_vault T) r x" by blast
    with inv have "item_check r" by (simp add: vault_inv_def tables_ok_def)
    with r ids valid show ?thesis
      by (auto simp: exports_row_def exportable_def toMeta_def item_check_def row_holds_def holds_def wire_ok_def)
  qed
  have dec: "decodePayload (ve_codec (xe_vault T)) (im_type (import_of T x)) (im_payload (import_of T x)) = Inr (ex_payload x)"
    if "x \<in> set xs" for x
    using each[OF that] json
    unfolding decodePayload_def json_ok_def exportable_def ItemTypes_def import_of_def by auto
  have man: "xe_manifest_dec T (xe_manifest_enc T (export_manifest T xs)) = Some (export_manifest T xs)"
    using json export_manifest_wire[of xs T] each by (simp add: json_ok_def)
  have "staged_items T t (map (export_entry T) xs) = Inr (map (import_of T) xs)"
    by (rule staged_items_export[OF _ json]) (use each read_export_tree X same in auto)
  moreover have "tm_files (export_manifest T xs) = map (export_entry T) xs" by (simp add: export_manifest_def)
  moreover have "ManifestSelfCheck (export_manifest T xs) = (if xs = [] then Inl NoItems else Inr ())"
    using export_manifest_checks[OF _ _ _ sha, of xs] each X
    by (auto simp: ManifestSelfCheck_def export_manifest_def)
  ultimately have "archive_items T (Some b) archive pass =
      (if xs = [] then Inl (TransferArchive BadArchive) else Inr (map (import_of T) xs))"
    using lim ext same[of "''manifest.json''"] man up
    by (simp add: archive_items_def read_export_manifest)
  with xs dec show ?thesis by blast
qed

end
