(* ===== verification/Previews.thy ===== *)
theory Previews
  imports Transfers Sessions
begin

text \<open>
  The staging of imports in \<open>transfer/transfer.go\<close>: a preview puts its payloads and meta data into
  \<open>preview-<digest of the token>\<close> below the work directory; a confirmation claims that directory by
  renaming it to \<open>consuming-<digest>\<close>, checks session and token, imports in one transaction, and
  either drops the claim or renames it back; a sweep removes what is expired, orphaned or stale.
  The work directory is modelled by its two families of directories; removing one does not fail.  \<open>Confirm\<close> is split where other
  requests can run.
\<close>

section \<open>The work directory\<close>

record preview_meta =
  pm_actor :: string
  pm_session :: string
  pm_nonce :: string
  pm_expiry :: "time option"

text \<open>A staged directory: its meta data and payloads, if they can be read, and its modification time.\<close>

record stage_dir =
  sd_meta :: "preview_meta option"
  sd_payload :: "bytes option"
  sd_mod :: time

record workdir =
  wk_preview :: "string \<Rightarrow> stage_dir option"
  wk_consuming :: "string \<Rightarrow> stage_dir option"

definition empty_workdir :: workdir where
  "empty_workdir = \<lparr>wk_preview = (\<lambda>_. None), wk_consuming = (\<lambda>_. None)\<rparr>"

definition PreviewTTL :: time where "PreviewTTL = 10 * minute_ns"
definition previewCreationGrace :: time where "previewCreationGrace = 30 * second_ns"
definition consumingLease :: time where "consumingLease = hour_ns"

section \<open>Tokens and sessions\<close>

definition int_text :: "int \<Rightarrow> string" where
  "int_text n = (if n < 0 then CHR ''-'' # dec (nat (- n)) else dec (nat n))"

definition signToken :: "transfer_env \<Rightarrow> string \<Rightarrow> string \<Rightarrow> string \<Rightarrow> bytes \<Rightarrow> time \<Rightarrow> string" where
  "signToken T actor session nonce payload expiry =
    hex_encode (xe_hmac T (xe_key T)
      (bytes_of (actor @ LF @ session @ LF @ nonce @ LF @ int_text (unix expiry) @ LF) @ payload))"

definition verifyToken :: "transfer_env \<Rightarrow> string \<Rightarrow> string \<Rightarrow> string \<Rightarrow> string \<Rightarrow> time \<Rightarrow> bytes \<Rightarrow> transfer_error + unit" where
  "verifyToken T actor session nonce token expiry payload =
    ensure (signToken T actor session nonce payload expiry = token) (TransferArchive BadArchive)"

text \<open>The directory of a token: the first eight bytes of its SHA-256.\<close>

definition token_dir :: "transfer_env \<Rightarrow> string \<Rightarrow> string" where
  "token_dir T token = hex_encode (take 8 (xe_sha T (bytes_of token)))"

definition live_count :: "time \<Rightarrow> string \<Rightarrow> string \<Rightarrow> db \<Rightarrow> nat" where
  "live_count now actor session d =
    length (filter (\<lambda>(s, u). u_id u = s_user s \<and> s_public s = session \<and> s_user s = actor \<and> live_at now s \<and>
      u_status u = ''active'') (List.product (sessions d) (users d)))"

text \<open>\<open>ok\<close>: the query succeeds.\<close>

definition requireLiveSession :: "bool \<Rightarrow> time \<Rightarrow> string \<Rightarrow> string \<Rightarrow> db \<Rightarrow> transfer_error + unit" where
  "requireLiveSession ok now actor session d =
    (if \<not> ok then Inl TransferCheck
     else if live_count now actor session d \<noteq> 1 then Inl (TransferArchive BadArchive)
     else Inr ())"

section \<open>The sweep\<close>

definition sweep_preview :: "bool \<Rightarrow> time \<Rightarrow> db \<Rightarrow> stage_dir \<Rightarrow> stage_dir option" where
  "sweep_preview ok now d s =
    (let old = previewCreationGrace < now - sd_mod s; orphan = (if old then None else Some s) in
     case sd_meta s of None \<Rightarrow> orphan
     | Some m \<Rightarrow>
        (case pm_expiry m of None \<Rightarrow> orphan
         | Some expiry \<Rightarrow>
            if expiry < now then None
            else if pm_session m \<noteq> '''' \<and> ok \<and> live_count now (pm_actor m) (pm_session m) d \<noteq> 1 then None
            else if sd_payload s = None then orphan
            else Some s))"

definition sweep_consuming :: "time \<Rightarrow> stage_dir \<Rightarrow> stage_dir option" where
  "sweep_consuming now s = (if consumingLease < now - sd_mod s then None else Some s)"

definition sweepExpiredPreviews :: "bool \<Rightarrow> time \<Rightarrow> db \<Rightarrow> workdir \<Rightarrow> workdir" where
  "sweepExpiredPreviews ok now d w =
    \<lparr>wk_preview = (\<lambda>k. Option.bind (wk_preview w k) (sweep_preview ok now d)),
     wk_consuming = (\<lambda>k. Option.bind (wk_consuming w k) (sweep_consuming now))\<rparr>"

definition removeStagedPreviews :: "workdir \<Rightarrow> workdir" where
  "removeStagedPreviews w = empty_workdir"

section \<open>Preview\<close>

record preview_result =
  pv_token :: string
  pv_counts :: "(string \<times> int) list"
  pv_conflicts :: nat
  pv_missing :: "string list"

definition billingRef :: "transfer_env \<Rightarrow> string \<Rightarrow> string option" where
  "billingRef T payload =
    (case ij_billing (xe_json T) payload of None \<Rightarrow> None | Some r \<Rightarrow> if r = '''' then None else Some r)"

definition missing_references :: "transfer_env \<Rightarrow> import_item list \<Rightarrow> string list" where
  "missing_references T is =
    (let ids = filter (\<lambda>i. i \<noteq> '''') (map im_id is)
     in filter (\<lambda>r. r \<notin> set ids) (List.map_filter (\<lambda>i. billingRef T (im_payload i)) is))"

definition conflicts :: "import_item list \<Rightarrow> db \<Rightarrow> nat" where
  "conflicts is d = length (filter (\<lambda>i. im_id i \<noteq> '''' \<and> IDExists (im_id i) d) is)"

definition preview_dir :: "transfer_env \<Rightarrow> principal \<Rightarrow> string \<Rightarrow> bytes \<Rightarrow> stage_dir" where
  "preview_dir T a nonce payload = \<lparr>sd_meta = Some \<lparr>pm_actor = p_user a, pm_session = si_id (p_session a), pm_nonce = nonce,
     pm_expiry = Some (xe_now T + PreviewTTL)\<rparr>, sd_payload = Some payload, sd_mod = xe_now T\<rparr>"

text \<open>\<open>ok\<close> is for the session query of the sweep that ends a preview.\<close>

definition previewItems ::
  "transfer_env \<Rightarrow> bool \<Rightarrow> principal option \<Rightarrow> import_item list \<Rightarrow> db \<Rightarrow> workdir \<Rightarrow> (transfer_error + preview_result) \<times> workdir" where
  "previewItems T ok actor is d w =
    (case actor of None \<Rightarrow> (Inl TransferUnauthorized, w)
     | Some a \<Rightarrow>
       if is = [] then (Inl (TransferArchive BadArchive), w)
       else case xe_nonce T of None \<Rightarrow> (Inl TransferFiles, w)
       | Some raw \<Rightarrow>
         (let nonce = hex_encode raw; payload = xe_items_enc T is; expiry = xe_now T + PreviewTTL;
              token = signToken T (p_user a) (si_id (p_session a)) nonce payload expiry;
              k = token_dir T token; types = map im_type is
          in if xe_fault T StageMkdir then (Inl TransferFiles, w)
             else if xe_fault T StageMeta \<or> xe_fault T StagePayload then
               (Inl TransferFiles, w\<lparr>wk_preview := (wk_preview w)(k := None)\<rparr>)
             else (Inr \<lparr>pv_token = token, pv_counts = map (\<lambda>t. (t, count_of types t)) (sort (remdups types)),
                     pv_conflicts = conflicts is d, pv_missing = missing_references T is\<rparr>,
                   sweepExpiredPreviews ok (xe_now T) d
                     (w\<lparr>wk_preview := (wk_preview w)(k \<mapsto> preview_dir T a nonce payload)\<rparr>))))"

definition Preview ::
  "transfer_env \<Rightarrow> bool \<Rightarrow> principal option \<Rightarrow> bytes \<Rightarrow> string \<Rightarrow> db \<Rightarrow> workdir \<Rightarrow> (transfer_error + preview_result) \<times> workdir" where
  "Preview T ok actor archive pass d w =
    (case archive_items T actor archive pass of Inl e \<Rightarrow> (Inl e, w) | Inr is \<Rightarrow> previewItems T ok actor is d w)"

definition PreviewBitwarden ::
  "transfer_env \<Rightarrow> bool \<Rightarrow> (bytes \<Rightarrow> bitwarden_export option) \<Rightarrow> principal option \<Rightarrow> bytes \<Rightarrow> db \<Rightarrow> workdir \<Rightarrow>
   (transfer_error + preview_result) \<times> workdir" where
  "PreviewBitwarden T ok decode actor raw d w =
    (if actor = None then (Inl TransferUnauthorized, w)
     else case ParseBitwardenJSON T decode raw of None \<Rightarrow> (Inl (TransferArchive BadArchive), w)
       | Some is \<Rightarrow> previewItems T ok actor is d w)"

section \<open>Claims\<close>

text \<open>The rename that claims a preview fails when there is nothing to rename or the claim exists.\<close>

definition claimPreview :: "string \<Rightarrow> workdir \<Rightarrow> workdir option" where
  "claimPreview k w =
    (case wk_preview w k of None \<Rightarrow> None
     | Some s \<Rightarrow> if wk_consuming w k \<noteq> None then None
         else Some (w\<lparr>wk_preview := (wk_preview w)(k := None), wk_consuming := (wk_consuming w)(k \<mapsto> s)\<rparr>))"

definition releasePreview :: "string \<Rightarrow> workdir \<Rightarrow> workdir" where
  "releasePreview k w =
    (if wk_preview w k \<noteq> None then w
     else case wk_consuming w k of None \<Rightarrow> w
       | Some s \<Rightarrow> w\<lparr>wk_preview := (wk_preview w)(k \<mapsto> s), wk_consuming := (wk_consuming w)(k := None)\<rparr>)"

definition drop_claim :: "string \<Rightarrow> workdir \<Rightarrow> workdir" where
  "drop_claim k w = w\<lparr>wk_consuming := (wk_consuming w)(k := None)\<rparr>"

text \<open>The first part of a confirmation: meta data, ownership, expiry, claim.\<close>

definition confirm_begin ::
  "transfer_env \<Rightarrow> principal option \<Rightarrow> string \<Rightarrow> workdir \<Rightarrow> (transfer_error + (preview_meta \<times> time)) \<times> workdir" where
  "confirm_begin T actor token w =
    (case actor of None \<Rightarrow> (Inl TransferUnauthorized, w)
     | Some a \<Rightarrow>
       (case Option.bind (wk_preview w (token_dir T token)) sd_meta of None \<Rightarrow> (Inl (TransferArchive BadArchive), w)
        | Some m \<Rightarrow>
          if pm_actor m \<noteq> p_user a then (Inl (TransferArchive BadArchive), w)
          else if pm_session m \<noteq> '''' \<and> pm_session m \<noteq> si_id (p_session a) then (Inl (TransferArchive BadArchive), w)
          else case pm_expiry m of None \<Rightarrow> (Inl (TransferArchive BadArchive), w)
          | Some expiry \<Rightarrow>
            if expiry < xe_now T then (Inl (TransferArchive BadArchive), w)
            else case claimPreview (token_dir T token) w of None \<Rightarrow> (Inl (TransferArchive BadArchive), w)
            | Some w' \<Rightarrow> (Inr (m, expiry), w')))"

definition session_check :: "bool \<Rightarrow> time \<Rightarrow> preview_meta \<Rightarrow> db \<Rightarrow> transfer_error + unit" where
  "session_check ok now m d =
    (if pm_session m = '''' then Inr () else requireLiveSession ok now (pm_actor m) (pm_session m) d)"

text \<open>The second part, up to the transaction: the session, the payloads and the token.\<close>

definition confirm_load ::
  "transfer_env \<Rightarrow> bool \<Rightarrow> principal \<Rightarrow> string \<Rightarrow> preview_meta \<times> time \<Rightarrow> db \<Rightarrow> workdir \<Rightarrow> transfer_error + import_item list" where
  "confirm_load T ok a token c d w =
    (case c of (m, expiry) \<Rightarrow>
     andthen (session_check ok (xe_now T) m d) (\<lambda>_.
     andthen (from_option (TransferArchive BadArchive) (Option.bind (wk_consuming w (token_dir T token)) sd_payload)) (\<lambda>raw.
     andthen (verifyToken T (p_user a) (si_id (p_session a)) (pm_nonce m) token expiry raw) (\<lambda>_.
     andthen (from_option (TransferArchive BadArchive) (xe_items_dec T raw)) (\<lambda>is.
     andthen (session_check ok (xe_now T) m d) (\<lambda>_. Inr is))))))"

text \<open>The hook of the import transaction, whose error passes through the vault service.\<close>

definition confirm_hook :: "bool \<Rightarrow> time \<Rightarrow> preview_meta \<Rightarrow> db \<Rightarrow> vault_error + unit" where
  "confirm_hook ok now m d =
    map_err (\<lambda>e. ErrHook (if e = TransferCheck then ''check'' else ''session'')) (session_check ok now m d)"

fun import_error :: "vault_error \<Rightarrow> transfer_error" where
  "import_error (ErrHook s) = (if s = ''check'' then TransferCheck else TransferArchive BadArchive)"
| "import_error e = TransferVault e"

text \<open>The import and the end of the claim.  \<open>lost\<close>: the commit reported an error, and whether it took
  effect.\<close>

definition confirm_import ::
  "transfer_env \<Rightarrow> bool \<Rightarrow> bool option \<Rightarrow> principal \<Rightarrow> string \<Rightarrow> preview_meta \<Rightarrow> import_item list \<Rightarrow> db \<times> workdir \<Rightarrow>
   (transfer_error + (nat \<times> nat)) \<times> db \<times> workdir" where
  "confirm_import T ok lost a k m is s =
    (case s of (d, w) \<Rightarrow>
     (case ImportAllWithHook (xe_vault T) (xe_json T) (Some a) is (confirm_hook ok (xe_now T) m) d of
        (Inl e, _) \<Rightarrow> (Inl (import_error e), d, releasePreview k w)
      | (Inr n, d') \<Rightarrow>
          (case lost of None \<Rightarrow> (Inr n, d', drop_claim k w)
           | Some effect \<Rightarrow> (Inl CommitUnknown, if effect then d' else d, drop_claim k w))))"

definition confirm_rest ::
  "transfer_env \<Rightarrow> bool \<Rightarrow> bool option \<Rightarrow> principal \<Rightarrow> string \<Rightarrow> preview_meta \<times> time \<Rightarrow> db \<times> workdir \<Rightarrow>
   (transfer_error + (nat \<times> nat)) \<times> db \<times> workdir" where
  "confirm_rest T ok lost a token c s =
    (case confirm_load T ok a token c (fst s) (snd s) of
       Inl e \<Rightarrow> (Inl e, fst s, releasePreview (token_dir T token) (snd s))
     | Inr is \<Rightarrow> confirm_import T ok lost a (token_dir T token) (fst c) is s)"

definition Confirm ::
  "transfer_env \<Rightarrow> bool \<Rightarrow> bool option \<Rightarrow> principal option \<Rightarrow> string \<Rightarrow> db \<times> workdir \<Rightarrow>
   (transfer_error + (nat \<times> nat)) \<times> db \<times> workdir" where
  "Confirm T ok lost actor token s =
    (case actor of None \<Rightarrow> (Inl TransferUnauthorized, s)
     | Some a \<Rightarrow>
        (case confirm_begin T actor token (snd s) of (Inl e, w) \<Rightarrow> (Inl e, fst s, w)
         | (Inr c, w) \<Rightarrow> confirm_rest T ok lost a token c (fst s, w)))"

definition CancelPreview :: "transfer_env \<Rightarrow> principal option \<Rightarrow> string \<Rightarrow> workdir \<Rightarrow> (transfer_error + unit) \<times> workdir" where
  "CancelPreview T actor token w =
    (case confirm_begin T actor token w of (Inl e, w') \<Rightarrow> (Inl e, w')
     | (Inr _, w') \<Rightarrow> (Inr (), drop_claim (token_dir T token) w'))"

definition invalidate :: "(preview_meta \<Rightarrow> bool) \<Rightarrow> workdir \<Rightarrow> workdir" where
  "invalidate p w = w\<lparr>wk_preview := (\<lambda>k. case wk_preview w k of None \<Rightarrow> None
     | Some s \<Rightarrow> (case sd_meta s of None \<Rightarrow> Some s | Some m \<Rightarrow> if p m then None else Some s))\<rparr>"

definition InvalidateSession :: "string \<Rightarrow> string \<Rightarrow> workdir \<Rightarrow> workdir" where
  "InvalidateSession actor session w = invalidate (\<lambda>m. pm_actor m = actor \<and> pm_session m = session) w"

definition InvalidateUser :: "string \<Rightarrow> workdir \<Rightarrow> workdir" where
  "InvalidateUser actor w = invalidate (\<lambda>m. pm_actor m = actor) w"

end
