(* ===== verification/PreviewSafety.thy ===== *)
theory PreviewSafety
  imports Previews VaultImport
begin

text \<open>What the staging of imports guarantees: a preview is imported at most once in every interleaving of
  requests and sweeps, only by its owner in a live session, and a failed confirmation can be repeated.\<close>

section \<open>Single calls\<close>

lemma confirm_begin_InrD:
  assumes "confirm_begin T actor token w = (Inr (m, expiry), w')"
  shows "\<exists>a s. actor = Some a \<and> wk_preview w (token_dir T token) = Some s \<and> sd_meta s = Some m \<and> pm_actor m = p_user a \<and>
     (pm_session m = '''' \<or> pm_session m = si_id (p_session a)) \<and> pm_expiry m = Some expiry \<and> xe_now T \<le> expiry \<and>
     wk_consuming w (token_dir T token) = None \<and>
     w' = w\<lparr>wk_preview := (wk_preview w)(token_dir T token := None),
            wk_consuming := (wk_consuming w)(token_dir T token \<mapsto> s)\<rparr>"
  using assms
  by (auto simp: confirm_begin_def claimPreview_def bind_eq_Some_conv split: option.splits if_splits)

lemma confirm_begin_InlD: "confirm_begin T actor token w = (Inl e, w') \<Longrightarrow> w' = w"
  by (auto simp: confirm_begin_def split: option.splits if_splits)

lemma release_claim:
  assumes "wk_preview w k = Some s" and "wk_consuming w k = None"
  shows "releasePreview k (w\<lparr>wk_preview := (wk_preview w)(k := None), wk_consuming := (wk_consuming w)(k \<mapsto> s)\<rparr>) = w"
  using assms by (cases w) (auto simp: releasePreview_def fun_upd_idem)

lemma live_count_pos:
  "live_count now actor session d = 1 \<Longrightarrow>
     \<exists>s \<in> set (sessions d). \<exists>u \<in> set (users d). u_id u = actor \<and> u_status u = ''active'' \<and> s_public s = session \<and>
        s_user s = actor \<and> live_at now s"
proof -
  assume "live_count now actor session d = 1"
  then have "filter (\<lambda>(s, u). u_id u = s_user s \<and> s_public s = session \<and> s_user s = actor \<and> live_at now s \<and>
      u_status u = ''active'') (List.product (sessions d) (users d)) \<noteq> []" by (auto simp: live_count_def)
  then show ?thesis by (auto simp: filter_empty_conv)
qed

lemma session_check_InrD:
  "session_check ok now m d = Inr () \<Longrightarrow> pm_session m \<noteq> '''' \<Longrightarrow>
     \<exists>s \<in> set (sessions d). \<exists>u \<in> set (users d). u_id u = pm_actor m \<and> u_status u = ''active'' \<and> s_public s = pm_session m \<and>
        s_user s = pm_actor m \<and> live_at now s"
  using live_count_pos[of now "pm_actor m" "pm_session m" d]
  by (auto simp: session_check_def requireLiveSession_def split: if_splits)

lemma confirm_load_InrD:
  assumes "confirm_load T ok a token (m, expiry) d w = Inr is"
  shows "\<exists>raw. Option.bind (wk_consuming w (token_dir T token)) sd_payload = Some raw \<and>
     signToken T (p_user a) (si_id (p_session a)) (pm_nonce m) raw expiry = token \<and> xe_items_dec T raw = Some is \<and>
     session_check ok (xe_now T) m d = Inr ()"
  using assms by (auto simp: confirm_load_def result_Inr verifyToken_def)

lemma confirm_import_InrD:
  assumes "confirm_import T ok lost a k m is (d, w) = (Inr n, d', w')"
  shows "ImportAllWithHook (xe_vault T) (xe_json T) (Some a) is (confirm_hook ok (xe_now T) m) d = (Inr n, d') \<and>
     w' = drop_claim k w \<and> lost = None"
  using assms by (auto simp: confirm_import_def split: prod.splits sum.splits option.splits)

text \<open>C21: Only the owner of a preview imports it, in a live session, before it expires, and exactly what was
  staged.  When a confirmation reports success, the token led to a staged preview of the caller and of the
  session of the caller, not expired; the token is the keyed digest of the caller, session, nonce,
  expiry and of the staged bytes; the session belongs to an active account and was live when the
  transaction ran; the change of the database is one import of the decoded items; and the preview is
  gone while all other previews are untouched.\<close>

theorem confirm_authorised:
  assumes "Confirm T ok lost actor token (d, w) = (Inr n, d', w')"
  shows "\<exists>a s m expiry raw is. actor = Some a \<and> wk_preview w (token_dir T token) = Some s \<and> sd_meta s = Some m \<and>
     sd_payload s = Some raw \<and> pm_actor m = p_user a \<and> (pm_session m = '''' \<or> pm_session m = si_id (p_session a)) \<and>
     pm_expiry m = Some expiry \<and> xe_now T \<le> expiry \<and>
     token = signToken T (p_user a) (si_id (p_session a)) (pm_nonce m) raw expiry \<and> xe_items_dec T raw = Some is \<and>
     (pm_session m = '''' \<or> (\<exists>r \<in> set (sessions d). \<exists>u \<in> set (users d). s_public r = si_id (p_session a) \<and> s_user r = p_user a \<and>
        live_at (xe_now T) r \<and> u_id u = p_user a \<and> u_status u = ''active'')) \<and>
     ImportAllWithHook (xe_vault T) (xe_json T) (Some a) is (confirm_hook ok (xe_now T) m) d = (Inr n, d') \<and>
     w' = w\<lparr>wk_preview := (wk_preview w)(token_dir T token := None)\<rparr>"
proof -
  let ?k = "token_dir T token"
  from assms obtain a m expiry w1 where a: "actor = Some a" and b: "confirm_begin T actor token w = (Inr (m, expiry), w1)"
    and r: "confirm_rest T ok lost a token (m, expiry) (d, w1) = (Inr n, d', w')"
    by (auto simp: Confirm_def split: option.splits prod.splits sum.splits)
  from confirm_begin_InrD[OF b] a obtain s where s: "wk_preview w ?k = Some s" "sd_meta s = Some m" "pm_actor m = p_user a"
    "pm_session m = '''' \<or> pm_session m = si_id (p_session a)" "pm_expiry m = Some expiry" "xe_now T \<le> expiry"
    and none: "wk_consuming w ?k = None"
    and w1: "w1 = w\<lparr>wk_preview := (wk_preview w)(?k := None), wk_consuming := (wk_consuming w)(?k \<mapsto> s)\<rparr>" by auto
  from r obtain "is" where l: "confirm_load T ok a token (m, expiry) d w1 = Inr is"
    and i: "confirm_import T ok lost a ?k m is (d, w1) = (Inr n, d', w')"
    by (auto simp: confirm_rest_def split: sum.splits)
  from confirm_load_InrD[OF l] w1 obtain raw where raw: "sd_payload s = Some raw"
    "token = signToken T (p_user a) (si_id (p_session a)) (pm_nonce m) raw expiry" "xe_items_dec T raw = Some is"
    and live: "session_check ok (xe_now T) m d = Inr ()" by auto
  have "w' = w\<lparr>wk_preview := (wk_preview w)(?k := None)\<rparr>"
    using confirm_import_InrD[OF i] none by (cases w) (auto simp: w1 drop_claim_def fun_upd_idem)
  moreover have "pm_session m = '''' \<or> (\<exists>r \<in> set (sessions d). \<exists>u \<in> set (users d). s_public r = si_id (p_session a) \<and>
      s_user r = p_user a \<and> live_at (xe_now T) r \<and> u_id u = p_user a \<and> u_status u = ''active'')"
    using session_check_InrD[OF live] s(3,4) by fastforce
  ultimately show ?thesis using a s raw confirm_import_InrD[OF i] by blast
qed

text \<open>A confirmation that fails changes nothing, so it can be repeated.  Every error but a lost commit leaves
  the database as it was and the preview staged, with the same content; a lost commit is never
  retried: the preview is gone, and the import is complete or did not happen.\<close>

theorem failed_confirm_repeatable:
  assumes "Confirm T ok lost actor token (d, w) = (Inl e, d', w')"
  shows "if e = CommitUnknown
     then wk_preview w' (token_dir T token) = None \<and>
       (\<exists>a m is n d1. ImportAllWithHook (xe_vault T) (xe_json T) (Some a) is (confirm_hook ok (xe_now T) m) d = (Inr n, d1) \<and>
          (d' = d \<or> d' = d1))
     else d' = d \<and> w' = w"
proof (cases "\<exists>a c w1. actor = Some a \<and> confirm_begin T actor token w = (Inr c, w1)")
  case False
  show ?thesis
  proof (cases actor)
    case None
    with assms show ?thesis by (simp add: Confirm_def)
  next
    case (Some a)
    obtain r w1 where b: "confirm_begin T actor token w = (r, w1)" by fastforce
    with False Some obtain e1 where r: "r = Inl e1" by (cases r) auto
    with b Some assms have "e = e1 \<and> d' = d \<and> w' = w1" by (simp add: Confirm_def)
    moreover have "e1 \<noteq> CommitUnknown"
      using b r Some by (auto simp: confirm_begin_def split: option.splits if_splits)
    ultimately show ?thesis using confirm_begin_InlD[of T actor token w] b r by simp
  qed
next
  case True
  let ?k = "token_dir T token"
  from True obtain a m expiry w1 where a: "actor = Some a" and b: "confirm_begin T actor token w = (Inr (m, expiry), w1)" by auto
  from confirm_begin_InrD[OF b] obtain s where s: "wk_preview w ?k = Some s" and none: "wk_consuming w ?k = None"
    and w1: "w1 = w\<lparr>wk_preview := (wk_preview w)(?k := None), wk_consuming := (wk_consuming w)(?k \<mapsto> s)\<rparr>" by auto
  have returned: "releasePreview ?k w1 = w" unfolding w1 by (rule release_claim[OF s none])
  from assms a b have r: "confirm_rest T ok lost a token (m, expiry) (d, w1) = (Inl e, d', w')"
    by (simp add: Confirm_def)
  show ?thesis
  proof (cases "confirm_load T ok a token (m, expiry) d w1")
    case (Inl err)
    then have "err \<noteq> CommitUnknown"
      by (auto simp: confirm_load_def session_check_def requireLiveSession_def verifyToken_def andthen_def ensure_def
          from_option_def split: sum.splits option.splits if_splits)
    with Inl r returned show ?thesis by (auto simp: confirm_rest_def)
  next
    case (Inr "is")
    with r have i: "confirm_import T ok lost a ?k m is (d, w1) = (Inl e, d', w')" by (simp add: confirm_rest_def)
    have known: "import_error x \<noteq> CommitUnknown" for x by (cases x) auto
    obtain res d1 where I: "ImportAllWithHook (xe_vault T) (xe_json T) (Some a) is (confirm_hook ok (xe_now T) m) d = (res, d1)"
      by fastforce
    show ?thesis
    proof (cases res)
      case (Inl x)
      with i I returned known show ?thesis by (auto simp: confirm_import_def)
    next
      case n: (Inr n)
      with i I have "e = CommitUnknown" "wk_preview w' ?k = None" "d' = d \<or> d' = d1"
        by (auto simp: confirm_import_def drop_claim_def w1 split: option.splits)
      moreover have "ImportAllWithHook (xe_vault T) (xe_json T) (Some a) is (confirm_hook ok (xe_now T) m) d = (Inr n, d1)"
        using I n by simp
      ultimately show ?thesis by (simp del: split_paired_Ex) blast
    qed
  qed
qed

section \<open>All interleavings\<close>

text \<open>The state of the system: the work directory, the database, the confirmations under way (caller,
  token, claim, and the items once they are loaded), the directories whose import took effect, and the
  directories that were ever staged.  A token directory is never staged twice: the nonce is fresh.\<close>

type_synonym confirm_flight = "principal \<times> string \<times> (preview_meta \<times> time) \<times> import_item list option"

record transfer_state =
  ts_work :: workdir
  ts_db :: db
  ts_flights :: "confirm_flight list"
  ts_imported :: "string list"
  ts_used :: "string set"

definition effective :: "transfer_error + 'a \<Rightarrow> bool option \<Rightarrow> bool" where
  "effective r lost \<longleftrightarrow> (case r of Inr _ \<Rightarrow> True | Inl e \<Rightarrow> e = CommitUnknown \<and> lost = Some True)"

inductive preview_step :: "(bytes \<Rightarrow> bytes) \<Rightarrow> transfer_state \<Rightarrow> transfer_state \<Rightarrow> bool" for sha where
  stage: "xe_sha T = sha \<Longrightarrow> previewItems T ok actor is (ts_db s) (ts_work s) = (Inr r, w') \<Longrightarrow>
    token_dir T (pv_token r) \<notin> ts_used s \<Longrightarrow>
    preview_step sha s (s\<lparr>ts_work := w', ts_used := insert (token_dir T (pv_token r)) (ts_used s)\<rparr>)"
| claim: "xe_sha T = sha \<Longrightarrow> confirm_begin T (Some a) token (ts_work s) = (Inr c, w') \<Longrightarrow>
    preview_step sha s (s\<lparr>ts_work := w', ts_flights := (a, token, c, None) # ts_flights s\<rparr>)"
| load_fails: "xe_sha T = sha \<Longrightarrow> ts_flights s = fs1 @ (a, token, c, None) # fs2 \<Longrightarrow>
    confirm_load T ok a token c (ts_db s) (ts_work s) = Inl e \<Longrightarrow>
    preview_step sha s (s\<lparr>ts_work := releasePreview (token_dir T token) (ts_work s), ts_flights := fs1 @ fs2\<rparr>)"
| load: "xe_sha T = sha \<Longrightarrow> ts_flights s = fs1 @ (a, token, c, None) # fs2 \<Longrightarrow>
    confirm_load T ok a token c (ts_db s) (ts_work s) = Inr is \<Longrightarrow>
    preview_step sha s (s\<lparr>ts_flights := fs1 @ (a, token, c, Some is) # fs2\<rparr>)"
| finish: "xe_sha T = sha \<Longrightarrow> ts_flights s = fs1 @ (a, token, c, Some is) # fs2 \<Longrightarrow>
    confirm_import T ok lost a (token_dir T token) (fst c) is (ts_db s, ts_work s) = (r, d', w') \<Longrightarrow>
    preview_step sha s (s\<lparr>ts_work := w', ts_db := d', ts_flights := fs1 @ fs2,
      ts_imported := (if effective r lost then [token_dir T token] else []) @ ts_imported s\<rparr>)"
| cancel: "xe_sha T = sha \<Longrightarrow> CancelPreview T actor token (ts_work s) = (r, w') \<Longrightarrow> preview_step sha s (s\<lparr>ts_work := w'\<rparr>)"
| sweep: "preview_step sha s (s\<lparr>ts_work := sweepExpiredPreviews ok now (ts_db s) (ts_work s)\<rparr>)"
| session_ended: "preview_step sha s (s\<lparr>ts_work := InvalidateSession u x (ts_work s)\<rparr>)"
| user_ended: "preview_step sha s (s\<lparr>ts_work := InvalidateUser u (ts_work s)\<rparr>)"
| stop: "preview_step sha s (s\<lparr>ts_work := removeStagedPreviews (ts_work s)\<rparr>)"
| database: "preview_step sha s (s\<lparr>ts_db := d'\<rparr>)"

definition flight_dir :: "(bytes \<Rightarrow> bytes) \<Rightarrow> confirm_flight \<Rightarrow> string" where
  "flight_dir sha f = hex_encode (take 8 (sha (bytes_of (fst (snd f)))))"

lemma flight_dir_simp [simp]: "xe_sha T = sha \<Longrightarrow> flight_dir sha (a, token, x) = token_dir T token"
  by (simp add: flight_dir_def token_dir_def)

definition staged :: "workdir \<Rightarrow> string set" where
  "staged w = {k. wk_preview w k \<noteq> None}"

definition transfer_inv :: "(bytes \<Rightarrow> bytes) \<Rightarrow> transfer_state \<Rightarrow> bool" where
  "transfer_inv sha s \<longleftrightarrow> distinct (map (flight_dir sha) (ts_flights s) @ ts_imported s) \<and>
     staged (ts_work s) \<inter> set (map (flight_dir sha) (ts_flights s) @ ts_imported s) = {} \<and>
     staged (ts_work s) \<union> set (map (flight_dir sha) (ts_flights s) @ ts_imported s) \<subseteq> ts_used s"

lemma staged_sweep: "staged (sweepExpiredPreviews ok now d w) \<subseteq> staged w"
  by (auto simp: staged_def sweepExpiredPreviews_def bind_eq_Some_conv)

lemma staged_invalidate: "staged (invalidate p w) \<subseteq> staged w"
  by (auto simp: staged_def invalidate_def split: option.splits)

lemma staged_release: "staged (releasePreview k w) \<subseteq> insert k (staged w)"
  by (auto simp: staged_def releasePreview_def split: option.splits if_splits)

lemma staged_drop [simp]: "staged (drop_claim k w) = staged w"
  by (simp add: staged_def drop_claim_def)

lemma staged_claim:
  assumes "confirm_begin T actor token w = (Inr c, w')"
  shows "token_dir T token \<in> staged w" and "staged w' = staged w - {token_dir T token}"
  using assms confirm_begin_InrD[of T actor token w "fst c" "snd c" w'] by (auto simp: staged_def split: if_splits)

lemma staged_cancel: "CancelPreview T actor token w = (r, w') \<Longrightarrow> staged w' \<subseteq> staged w"
proof -
  assume c: "CancelPreview T actor token w = (r, w')"
  obtain x w1 where b: "confirm_begin T actor token w = (x, w1)" by fastforce
  show ?thesis
  proof (cases x)
    case (Inl e)
    with b c have "w' = w1" by (simp add: CancelPreview_def)
    with b Inl show ?thesis using confirm_begin_InlD[of T actor token w e w1] by simp
  next
    case (Inr y)
    with b c have "staged w' = staged w1" by (auto simp: CancelPreview_def)
    with b Inr show ?thesis using staged_claim(2)[of T actor token w y w1] by auto
  qed
qed

lemma staged_preview:
  assumes "previewItems T ok actor is d w = (Inr r, w')"
  shows "staged w' \<subseteq> insert (token_dir T (pv_token r)) (staged w)"
proof -
  from assms obtain a nonce where "w' = sweepExpiredPreviews ok (xe_now T) d
      (w\<lparr>wk_preview := (wk_preview w)(token_dir T (pv_token r) \<mapsto> preview_dir T a nonce (xe_items_enc T is))\<rparr>)"
    by (auto simp: previewItems_def Let_def split: option.splits if_splits)
  with staged_sweep show ?thesis by (fastforce simp: staged_def split: if_splits)
qed

lemma staged_import:
  assumes "confirm_import T ok lost a k m is (d, w) = (r, d', w')"
  shows "staged w' \<subseteq> (if effective r lost then staged w else insert k (staged w))"
proof -
  obtain res d1 where I: "ImportAllWithHook (xe_vault T) (xe_json T) (Some a) is (confirm_hook ok (xe_now T) m) d = (res, d1)"
    by fastforce
  show ?thesis
  proof (cases res)
    case (Inl e)
    with assms I have "r = Inl (import_error e)" "w' = releasePreview k w" by (auto simp: confirm_import_def)
    moreover have "import_error e \<noteq> CommitUnknown" by (cases e) auto
    ultimately show ?thesis using staged_release by (simp add: effective_def)
  next
    case (Inr n)
    with assms I show ?thesis by (auto simp: confirm_import_def split: option.splits)
  qed
qed

lemma preview_step_inv: "preview_step sha s t \<Longrightarrow> transfer_inv sha s \<Longrightarrow> transfer_inv sha t"
proof (induction rule: preview_step.induct)
  case (stage T ok actor "is" s r w')
  with staged_preview[OF stage(2)] show ?case unfolding transfer_inv_def by (simp del: set_append set_map) blast
next
  case (claim T a token s c w')
  with staged_claim[OF claim(2)] show ?case by (auto simp: transfer_inv_def)
next
  case (load_fails T s fs1 a token c fs2 ok e)
  with staged_release[of "token_dir T token" "ts_work s"] show ?case
    by (simp add: transfer_inv_def del: set_map) blast
next
  case (finish T s fs1 a token c "is" fs2 ok lost r d' w')
  define F1 F2 where "F1 = map (flight_dir sha) fs1" and "F2 = map (flight_dir sha) fs2"
  let ?k = "token_dir T token" and ?I = "ts_imported s"
  from finish have inv: "distinct (F1 @ ?k # F2 @ ?I)" "staged (ts_work s) \<inter> set (F1 @ ?k # F2 @ ?I) = {}"
    "staged (ts_work s) \<union> set (F1 @ ?k # F2 @ ?I) \<subseteq> ts_used s" by (simp_all add: transfer_inv_def F1_def F2_def)
  note w = staged_import[OF finish(3)]
  have goal: "transfer_inv sha (s\<lparr>ts_work := w', ts_db := d', ts_flights := fs1 @ fs2,
      ts_imported := (if effective r lost then [?k] else []) @ ?I\<rparr>) \<longleftrightarrow>
    (let new = F1 @ F2 @ (if effective r lost then [?k] else []) @ ?I in
     distinct new \<and> staged w' \<inter> set new = {} \<and> staged w' \<union> set new \<subseteq> ts_used s)"
    by (simp add: transfer_inv_def F1_def F2_def)
  show ?case unfolding goal
  proof (cases "effective r lost")
    case True
    with w have "staged w' \<subseteq> staged (ts_work s)" by simp
    with inv True show "let new = F1 @ F2 @ (if effective r lost then [?k] else []) @ ?I in
     distinct new \<and> staged w' \<inter> set new = {} \<and> staged w' \<union> set new \<subseteq> ts_used s" by (simp add: Let_def) blast
  next
    case False
    with w have "staged w' \<subseteq> insert ?k (staged (ts_work s))" by simp
    with inv False show "let new = F1 @ F2 @ (if effective r lost then [?k] else []) @ ?I in
     distinct new \<and> staged w' \<inter> set new = {} \<and> staged w' \<union> set new \<subseteq> ts_used s" by (simp add: Let_def) blast
  qed
next
  case (cancel T actor token s r w')
  with staged_cancel[OF cancel(2)] show ?case by (auto simp: transfer_inv_def)
next
  case (sweep s ok now)
  with staged_sweep[of ok now "ts_db s" "ts_work s"] show ?case by (auto simp: transfer_inv_def)
next
  case (session_ended s u x)
  with staged_invalidate show ?case by (fastforce simp: transfer_inv_def InvalidateSession_def)
next
  case (user_ended s u)
  with staged_invalidate show ?case by (fastforce simp: transfer_inv_def InvalidateUser_def)
next
  case (stop s)
  then show ?case by (auto simp: transfer_inv_def removeStagedPreviews_def staged_def empty_workdir_def)
qed (auto simp: transfer_inv_def)

interpretation previews: invariant_system "preview_step sha" "transfer_inv sha" for sha
  by unfold_locales (rule preview_step_inv)

text \<open>C20: A preview is imported at most once.  In every interleaving of previews, confirmations (each a claim, a
  load and an import, with any failure in between), cancellations, sweeps, revocations, shutdowns and
  other database changes, no staged directory has two imports that took effect, and none is staged
  again after its import.\<close>

theorem imported_at_most_once:
  assumes "(preview_step sha)\<^sup>*\<^sup>* s t"
    and "ts_work s = empty_workdir" "ts_flights s = []" "ts_imported s = []"
  shows "distinct (ts_imported t) \<and> (\<forall>k \<in> set (ts_imported t). wk_preview (ts_work t) k = None \<and> k \<in> ts_used t)"
proof -
  have "transfer_inv sha s" using assms(2-4) by (simp add: transfer_inv_def staged_def empty_workdir_def)
  from previews.reachable_inv[OF assms(1) this] show ?thesis by (auto simp: transfer_inv_def staged_def)
qed

end
