(* ===== verification/TransferWitness.thy ===== *)
theory TransferWitness
  imports TransferSafety PreviewSafety
begin

text \<open>Runs of the personal transfer: an export that a preview reads back, and a staged import that is confirmed,
  that fails and is confirmed again, and that is imported once.\<close>

section \<open>A toy JSON\<close>

definition toy_enc :: "'a :: countable \<Rightarrow> 'a \<Rightarrow> bytes" where
  "toy_enc x0 x = (if x = x0 then [1] else 0 # replicate (to_nat x) 0)"

fun toy_dec :: "'a :: countable \<Rightarrow> bytes \<Rightarrow> 'a option" where
  "toy_dec x0 [] = None"
| "toy_dec x0 (b # bs) = (if b = 1 then Some x0 else Some (from_nat (length bs)))"

lemma toy_dec_enc [simp]: "toy_dec x0 (toy_enc x0 x) = Some x"
  by (simp add: toy_enc_def)

instance transfer_file_ext :: (countable) countable
proof (rule countable_classI)
  fix r r' :: "'a transfer_file_scheme"
  let ?f = "\<lambda>r :: 'a transfer_file_scheme. to_nat (tf_id r, tf_type r, tf_scope r, tf_path r, tf_sha256 r, transfer_file.more r)"
  assume "?f r = ?f r'"
  then show "r = r'" by (cases r; cases r') simp
qed

instance transfer_manifest_ext :: (countable) countable
proof (rule countable_classI)
  fix r r' :: "'a transfer_manifest_scheme"
  let ?f = "\<lambda>r :: 'a transfer_manifest_scheme. to_nat (tm_version r, tm_files r, tm_counts r, transfer_manifest.more r)"
  assume "?f r = ?f r'"
  then show "r = r'" by (cases r; cases r') simp
qed

instance item_file_ext :: (countable) countable
proof (rule countable_classI)
  fix r r' :: "'a item_file_scheme"
  let ?f = "\<lambda>r :: 'a item_file_scheme. to_nat (pf_type r, pf_tags r, pf_favorite r, pf_payload r, item_file.more r)"
  assume "?f r = ?f r'"
  then show "r = r'" by (cases r; cases r') simp
qed

instance payload :: countable
  by countable_datatype

definition note_text :: "payload \<Rightarrow> string" where
  "note_text p = (if p = note1 then ''note1'' else CHR ''x'' # replicate (to_nat p) (CHR ''x''))"

fun text_note :: "string \<Rightarrow> payload" where
  "text_note [] = note1"
| "text_note (c # s) = (if c = CHR ''n'' then note1 else from_nat (length s))"

lemma text_note [simp]: "text_note (note_text p) = p"
  by (simp add: note_text_def)

definition note_decode :: "string \<Rightarrow> string \<Rightarrow> payload option" where
  "note_decode t raw = (if payload_type (text_note raw) = t \<and> payload_wire (text_note raw) then Some (text_note raw) else None)"

definition note_codec :: codec where
  "note_codec = \<lparr>marshal = sample_marshal, unmarshal = sample_unmarshal, decode_strict = note_decode\<rparr>"

lemma note_text_blank: "\<not> blank (note_text p)"
  by (simp add: note_text_def blank_def runes_def byte_values_def is_space_def)

definition note_vault :: venv where
  "note_vault = sample_vault\<lparr>ve_codec := note_codec\<rparr>"

lemma note_vault_ok: "venv_ok note_vault"
proof -
  have "codec_ok note_codec"
    using sample_codec_ok by (auto simp: codec_ok_def note_codec_def sample_codec_def note_decode_def split: if_splits)
  with sample_vault_ok show ?thesis by (simp add: venv_ok_def note_vault_def)
qed

section \<open>An export\<close>

definition note_id :: string where
  "note_id = ''00000000-0000-7000-8000-000000000000''"

lemma note_id_pattern: "transferIDPattern note_id"
  by (simp add: transferIDPattern_def uuid7_classes_def note_id_def hex_lower_def is_digit_def numeral_eq_Suc)

definition note_row :: item_row where
  "note_row = sealed_item note_vault 0 note_id ScopePersonal u1 TypeSecureNote False [1]"

definition note_db :: db where
  "note_db = sample_db\<lparr>items := [note_row]\<rparr>"

lemma note_content: "content note_vault [''t''] note1 = [1]"
  using content_samples(1) by (simp add: content_def note_vault_def note_codec_def sample_codec_def)

lemma note_row_holds: "row_holds note_vault note_row [''t''] note1"
  unfolding note_row_def
  by (rule sealed_item_holds[OF note_vault_ok wire_samples(1)]) (simp_all add: note_content, simp add: note1_def)

lemma note_row_simps [simp]:
  "it_id note_row = note_id" "it_scope note_row = ScopePersonal" "it_owner note_row = Some ''u1''" "it_creator note_row = None"
  "it_type note_row = TypeSecureNote" "it_deleted note_row = None"
  by (simp_all add: note_row_def sealed_item_def Let_def owner_for_def creator_for_def nullable_def sample_principal_def
      Encrypt_def)

lemma note_db_inv: "vault_inv note_vault note_db"
proof -
  have "insertItem note_row sample_db = Inr note_db"
    by (simp add: insertItem_def insert_item_row_def item_check_def item_refs_def sample_db_def
        empty_db_def sql_insert_def note_db_def sample_user_def item_types_def)
       (simp add: note_row_def sealed_item_def Let_def Encrypt_def note_vault_def sample_vault_def)
  moreover have "owned_view (policyView note_row)" by (simp add: owned_view_def null_string_def)
  ultimately show ?thesis
    by (rule vault_inv_insert[OF sample_db_inv _ _ _ note_row_holds]) (simp add: note_row_def)
qed

definition note_export :: export_item where
  "note_export = \<lparr>ex_meta = (toMeta note_row)\<lparr>m_title := TitleOf note1\<rparr>, ex_tags = [''t''], ex_payload = note1\<rparr>"

lemma note_export_all: "ExportAll note_vault (Some u1) note_db = Inr [note_export]"
proof -
  have "Can ''admin'' ''u1'' (policyView note_row) ActionExport"
    by (simp add: Can.simps IsSelf_def null_string_def)
  moreover have "listRows (export_where ''u1'') None (Suc exportMaxItems) note_db = [note_row]"
    by (simp add: listRows_take candidates_def note_db_def newest_first_def export_where_def)
  ultimately show ?thesis
    using decryptRow_holds[OF note_vault_ok note_row_holds]
    by (simp add: ExportAll_def note_export_def empty_envelope_def exportMaxItems_def note1_def)
qed

section \<open>An archive\<close>

definition note_file :: item_file where
  "note_file = \<lparr>pf_type = TypeSecureNote, pf_tags = [''t''], pf_favorite = False, pf_payload = ''note1''\<rparr>"

definition note_manifest :: transfer_manifest where
  "note_manifest = \<lparr>tm_version = 1, tm_files = [\<lparr>tf_id = note_id, tf_type = TypeSecureNote, tf_scope = ScopePersonal,
       tf_path = item_path note_id, tf_sha256 = hex_encode (replicate 32 0)\<rparr>], tm_counts = Some [(TypeSecureNote, 1)]\<rparr>"

definition note_tree :: tree where
  "note_tree = [(''items'', NodeDir), (item_path note_id, NodeFile [1]), (''manifest.json'', NodeFile [1])]"

definition note_7z :: sevenzip where
  "note_7z = sample_7z\<lparr>sv_add := (\<lambda>t _. if t = note_tree then (run_out.Finished '''', [9]) else (run_out.Failed '''' False, [])),
     sv_extract := (\<lambda>_ _. (run_out.Finished '''', note_tree))\<rparr>"

definition note_env :: transfer_env where
  "note_env = \<lparr>xe_zip = note_7z, xe_sha = (\<lambda>_. replicate 32 0), xe_hmac = (\<lambda>_ _. [7]), xe_key = [5], xe_fault = (\<lambda>_. False),
     xe_now = 7, xe_nonce = Some [4], xe_manifest_enc = toy_enc note_manifest, xe_manifest_dec = toy_dec note_manifest,
     xe_item_enc = toy_enc note_file, xe_item_dec = toy_dec note_file, xe_items_enc = (\<lambda>_. [3]),
     xe_items_dec = (\<lambda>_. Some sample_archive), xe_payload_enc = note_text, xe_json = sample_json, xe_vault = note_vault,
     xe_audit = sample_env\<rparr>"

lemma note_json_ok: "json_ok note_env"
  by (simp add: json_ok_def note_env_def note_text_blank note_vault_def note_codec_def note_decode_def)

lemma note_export_simps:
  "payload_file note_env note_export = note_file"
  "export_manifest note_env [note_export] = note_manifest"
  "export_tree note_env [note_export] = note_tree"
proof -
  have type: "m_type (ex_meta note_export) = TypeSecureNote" "m_favorite (ex_meta note_export) = False"
    "m_id (ex_meta note_export) = note_id" "m_scope (ex_meta note_export) = ScopePersonal"
    by (simp_all add: note_export_def toMeta_def) (simp add: note_row_def sealed_item_def Let_def)
  show pf: "payload_file note_env note_export = note_file"
    unfolding payload_file_def type note_file_def by (simp add: note_env_def note_export_def note_text_def)
  show mf: "export_manifest note_env [note_export] = note_manifest"
    unfolding export_manifest_def export_entry_def list.map comp_def type pf note_manifest_def
    by (simp add: sha256Hex_def note_env_def TransferVersion_def count_of_def)
  show "export_tree note_env [note_export] = note_tree"
    unfolding export_tree_def mf note_tree_def list.map type pf by (simp add: note_env_def toy_enc_def)
qed

lemma note_listing: "ListArchive note_7z a p = Inr (sample_entries 2)"
  by (simp add: ListArchive_def note_7z_def sample_7z_def sample_listing_parsed)

lemma note_extraction: "Extract note_7z (Some [9]) p = Inr (note_tree, sample_entries 2)"
proof -
  have d: "declared (sample_entries 2) = 4" by (simp add: declared_def sample_entries_def)
  have w: "withDefaults personalLimits = personalLimits" by (simp add: withDefaults_def personalLimits_def)
  have "validateEntries (sample_entries 2) personalLimits = Inr ()"
    using sample_entries_ok[of 2] d unfolding validateEntries_exact w
    by (simp add: wrap64_def) (simp add: sample_entries_def personalLimits_def)
  moreover have "verifyExtracted note_tree personalLimits = Inr ()"
    by (simp add: verifyExtracted_def w wrap64_def note_tree_def) (simp add: personalLimits_def)
  ultimately show ?thesis
    by (simp add: Extract_def ExtractLimited_def unpack_checked_def w Let_def note_listing)
       (simp add: note_7z_def sample_7z_def personalLimits_def)
qed

definition note_pass :: string where "note_pass = ''correct horse''"

lemma note_create: "CreateArchive note_7z t note_pass = Inr a \<longleftrightarrow> t = note_tree \<and> a = [9]"
  using note_listing by (auto simp: CreateArchive_def note_pass_def note_7z_def sample_7z_def)

lemma note_export_run: "\<exists>d'. Export note_env (Some u1) note_pass note_pass note_db = (Inr [9], d')"
proof -
  have ev: "event_error (mk_event ''transfer.exported'' ''u1'' ''user'' ''u1'' ''success'') = None" by code_simp
  have "\<exists>d'. Record sample_env (mk_event ''transfer.exported'' ''u1'' ''user'' ''u1'' ''success'') note_db = Inr d'"
    using ev by (simp add: Record_def sample_env_def sql_insert_def note_db_def sample_db_def empty_db_def)
  moreover have "export_archive note_env (Some u1) note_pass note_pass note_db = Inr [9]"
  proof -
    have "ValidateExportInput note_pass note_pass = Inr ()"
      by (simp add: ValidateExportInput_def note_pass_def MaxPassphraseBytes_def)
    moreover have "ExportAll (xe_vault note_env) (Some u1) note_db = Inr [note_export]"
      using note_export_all by (simp add: note_env_def)
    moreover have "CreateArchive (xe_zip note_env) note_tree note_pass = Inr [9]"
      using note_create by (simp add: note_env_def)
    ultimately show ?thesis
      by (simp add: export_archive_def note_export_simps) (simp add: note_env_def personalLimits_def)
  qed
  ultimately show ?thesis by (auto simp: Export_def note_env_def)
qed

theorem export_then_preview_witness:
  "archive_items note_env (Some (sample_principal ''u2'' ''member'')) [9] note_pass = Inr [import_of note_env note_export]"
proof -
  from note_export_run obtain d' where run: "Export note_env (Some u1) note_pass note_pass note_db = (Inr [9], d')" by blast
  have env: "xe_vault note_env = note_vault" "xe_zip note_env = note_7z" by (simp_all add: note_env_def)
  have "\<exists>xs. ExportAll (xe_vault note_env) (Some u1) note_db = Inr xs \<and>
     archive_items note_env (Some (sample_principal ''u2'' ''member'')) [9] note_pass =
       (if xs = [] then Inl (TransferArchive BadArchive) else Inr (map (import_of note_env) xs)) \<and>
     (\<forall>x \<in> set xs. decodePayload (ve_codec (xe_vault note_env)) (im_type (import_of note_env x))
        (im_payload (import_of note_env x)) = Inr (ex_payload x))"
  proof (rule export_then_preview[OF run])
    show "venv_ok (xe_vault note_env)" "vault_inv (xe_vault note_env) note_db" "json_ok note_env"
      by (simp_all add: env note_vault_ok note_db_inv note_json_ok)
    show "\<forall>raw. length (xe_sha note_env raw) = 32" "\<not> xe_fault note_env PreviewUpload" by (simp_all add: note_env_def)
    show "\<forall>r \<in> set (items note_db). transferIDPattern (it_id r)" by (simp add: note_db_def note_id_pattern)
    have "validate_payload p = None" if "row_holds note_vault note_row tags p" for tags p
      using decryptRow_holds[OF note_vault_ok that] decryptRow_holds[OF note_vault_ok note_row_holds] by (simp add: valid_samples)
    then show "\<forall>r \<in> set (items note_db). \<forall>tags p. row_holds (xe_vault note_env) r tags p \<longrightarrow> validate_payload p = None"
      by (auto simp: note_db_def env)
    show "\<forall>t. CreateArchive (xe_zip note_env) t note_pass = Inr [9] \<longrightarrow>
       (\<exists>t' es. Extract (xe_zip note_env) (Some [9]) note_pass = Inr (t', es) \<and> (\<forall>p. read_file t' p = read_file t p))"
      by (simp add: env note_create note_extraction)
  qed
  then show ?thesis using note_export_all by (simp add: env)
qed

section \<open>A staged import\<close>

definition confirm_env :: transfer_env where
  "confirm_env = note_env\<lparr>xe_vault := import_vault\<rparr>"

definition confirm_db :: db where
  "confirm_db = import_db\<lparr>sessions := [\<lparr>s_id = ''d'', s_public = ''s'', s_user = ''u1'', s_created = 0, s_abs = 100,
     s_idle = 50, s_revoked = None\<rparr>]\<rparr>"

definition note_token :: string where "note_token = hex_encode [7]"
definition note_dir :: string where "note_dir = hex_encode (replicate 8 0)"

definition staged_note :: stage_dir where
  "staged_note = \<lparr>sd_meta = Some \<lparr>pm_actor = ''u1'', pm_session = ''s'', pm_nonce = hex_encode [4], pm_expiry = Some (7 + PreviewTTL)\<rparr>,
     sd_payload = Some [3], sd_mod = 7\<rparr>"

definition staged_work :: workdir where
  "staged_work = \<lparr>wk_preview = [note_dir \<mapsto> staged_note], wk_consuming = Map.empty\<rparr>"

lemma confirm_env_simps [simp]:
  "xe_now confirm_env = 7" "xe_vault confirm_env = import_vault" "xe_json confirm_env = sample_json"
  "signToken confirm_env a s n p e = note_token" "token_dir confirm_env token = note_dir"
  "xe_items_enc confirm_env is = [3]" "xe_items_dec confirm_env raw = Some sample_archive" "xe_nonce confirm_env = Some [4]"
  "xe_fault confirm_env x = False"
  by (simp_all add: confirm_env_def note_env_def signToken_def note_token_def token_dir_def note_dir_def)

lemma u1_session [simp]: "si_id (p_session (sample_principal u r)) = ''s''"
  by (simp add: sample_principal_def)

lemma confirm_live [simp]: "live_count 7 ''u1'' ''s'' confirm_db = 1"
  by (simp add: live_count_def confirm_db_def import_db_def sample_db_def sample_user_def live_at_def)

lemma preview_run: "\<exists>r. previewItems confirm_env True (Some u1) sample_archive confirm_db empty_workdir = (Inr r, staged_work) \<and>
   pv_token r = note_token"
proof -
  have d: "preview_dir confirm_env u1 (hex_encode [4]) [3] = staged_note" by (simp add: preview_dir_def staged_note_def)
  have "sweep_preview True 7 confirm_db staged_note = Some staged_note"
    by (simp add: sweep_preview_def staged_note_def PreviewTTL_def minute_ns_def second_ns_def Let_def)
  then have "sweepExpiredPreviews True 7 confirm_db (empty_workdir\<lparr>wk_preview := (wk_preview empty_workdir)(note_dir \<mapsto> staged_note)\<rparr>) =
      staged_work"
    by (auto simp: sweepExpiredPreviews_def empty_workdir_def staged_work_def)
  moreover have "sample_archive \<noteq> []" by (simp add: sample_archive_def)
  ultimately show ?thesis by (simp add: previewItems_def Let_def d)
qed

abbreviation "note_meta \<equiv> the (sd_meta staged_note)"

lemma begin_run: "confirm_begin confirm_env (Some u1) note_token staged_work =
   (Inr (note_meta, 7 + PreviewTTL), \<lparr>wk_preview = Map.empty, wk_consuming = [note_dir \<mapsto> staged_note]\<rparr>)"
proof -
  have "claimPreview note_dir staged_work = Some \<lparr>wk_preview = Map.empty, wk_consuming = [note_dir \<mapsto> staged_note]\<rparr>"
    by (simp add: claimPreview_def staged_work_def)
  then show ?thesis
    by (simp add: confirm_begin_def) (simp add: staged_work_def staged_note_def PreviewTTL_def minute_ns_def second_ns_def)
qed

lemma check_run [simp]: "session_check True 7 note_meta confirm_db = Inr ()"
  by (simp add: session_check_def requireLiveSession_def) (simp add: staged_note_def)

lemma load_run: "confirm_load confirm_env True u1 note_token (note_meta, 7 + PreviewTTL) confirm_db
   \<lparr>wk_preview = Map.empty, wk_consuming = [note_dir \<mapsto> staged_note]\<rparr> = Inr sample_archive"
  by (simp add: confirm_load_def verifyToken_def) (simp add: staged_note_def)

lemma import_confirm_run: "\<exists>d'. confirm_import confirm_env True None u1 note_dir note_meta sample_archive
   (confirm_db, \<lparr>wk_preview = Map.empty, wk_consuming = [note_dir \<mapsto> staged_note]\<rparr>) = (Inr (2, 1), d', empty_workdir)"
proof -
  have "confirm_hook True 7 note_meta confirm_db = Inr ()" by (simp add: confirm_hook_def)
  from import_run_with[of "confirm_hook True 7 note_meta" "sessions confirm_db"] this obtain d' where
    "ImportAllWithHook import_vault sample_json (Some u1) sample_archive (confirm_hook True 7 note_meta) confirm_db = (Inr (2, 1), d')"
    by (auto simp: confirm_db_def)
  then show ?thesis by (auto simp: confirm_import_def drop_claim_def empty_workdir_def)
qed

lemma confirm_run: "\<exists>d'. Confirm confirm_env True None (Some u1) note_token (confirm_db, staged_work) = (Inr (2, 1), d', empty_workdir)"
  using import_confirm_run by (simp add: Confirm_def begin_run confirm_rest_def load_run)

theorem confirm_authorised_witness:
  "\<exists>d' r. Confirm confirm_env True None (Some u1) note_token (confirm_db, staged_work) = (Inr (2, 1), d', empty_workdir) \<and>
     r \<in> set (sessions confirm_db) \<and> s_public r = ''s'' \<and> live_at 7 r"
proof -
  from confirm_run obtain d' where run:
    "Confirm confirm_env True None (Some u1) note_token (confirm_db, staged_work) = (Inr (2, 1), d', empty_workdir)" by blast
  from confirm_authorised[OF run] run show ?thesis by (auto simp: staged_work_def staged_note_def)
qed

text \<open>The session query fails once.\<close>

theorem failed_confirm_repeatable_witness:
  "Confirm confirm_env False None (Some u1) note_token (confirm_db, staged_work) = (Inl TransferCheck, confirm_db, staged_work)"
proof -
  have "fst (Confirm confirm_env False None (Some u1) note_token (confirm_db, staged_work)) = Inl TransferCheck"
    by (simp add: Confirm_def begin_run confirm_rest_def confirm_load_def session_check_def requireLiveSession_def)
       (simp add: staged_note_def)
  then obtain d' w' where run:
    "Confirm confirm_env False None (Some u1) note_token (confirm_db, staged_work) = (Inl TransferCheck, d', w')"
    by (metis prod.collapse)
  from failed_confirm_repeatable[OF run] run show ?thesis by simp
qed

definition import_system :: "string list \<Rightarrow> workdir \<Rightarrow> db \<Rightarrow> confirm_flight list \<Rightarrow> string set \<Rightarrow> transfer_state" where
  "import_system im w d fs used = \<lparr>ts_work = w, ts_db = d, ts_flights = fs, ts_imported = im, ts_used = used\<rparr>"

theorem imported_at_most_once_witness:
  "\<exists>t. (preview_step (\<lambda>_. replicate 32 0))\<^sup>*\<^sup>* (import_system [] empty_workdir confirm_db [] {}) t \<and>
     ts_imported t = [note_dir] \<and> wk_preview (ts_work t) note_dir = None"
proof -
  let ?sha = "\<lambda>_ :: bytes. replicate 32 0 :: bytes"
  let ?w = "\<lparr>wk_preview = Map.empty, wk_consuming = [note_dir \<mapsto> staged_note]\<rparr>" and ?c = "(note_meta, 7 + PreviewTTL)"
  have sha: "xe_sha confirm_env = ?sha" by (simp add: confirm_env_def note_env_def)
  from preview_run obtain r where r: "previewItems confirm_env True (Some u1) sample_archive confirm_db empty_workdir = (Inr r, staged_work)"
    "pv_token r = note_token" by blast
  from import_confirm_run obtain d' where i: "confirm_import confirm_env True None u1 note_dir note_meta sample_archive
     (confirm_db, ?w) = (Inr (2, 1), d', empty_workdir)" by blast
  let ?s0 = "import_system [] empty_workdir confirm_db [] {}"
  let ?s1 = "import_system [] staged_work confirm_db [] {note_dir}"
  let ?s2 = "import_system [] ?w confirm_db [(u1, note_token, ?c, None)] {note_dir}"
  let ?s3 = "import_system [] ?w confirm_db [(u1, note_token, ?c, Some sample_archive)] {note_dir}"
  let ?s4 = "import_system [note_dir] empty_workdir d' [] {note_dir}"
  have 1: "preview_step ?sha ?s0 ?s1"
    using preview_step.stage[OF sha, of True "Some u1" sample_archive ?s0 r staged_work] r by (simp add: import_system_def)
  have 2: "preview_step ?sha ?s1 ?s2"
    using preview_step.claim[OF sha, of u1 note_token ?s1 ?c ?w] begin_run by (simp add: import_system_def)
  have 3: "preview_step ?sha ?s2 ?s3"
    using preview_step.load[OF sha, of ?s2 "[]" u1 note_token ?c "[]" True sample_archive] load_run by (simp add: import_system_def)
  have 4: "preview_step ?sha ?s3 ?s4"
    using preview_step.finish[OF sha, of ?s3 "[]" u1 note_token ?c sample_archive "[]" True None "Inr (2, 1)" d' empty_workdir] i
    by (simp add: import_system_def effective_def)
  have run: "(preview_step ?sha)\<^sup>*\<^sup>* ?s0 ?s4" using 1 2 3 4 by (meson converse_rtranclp_into_rtranclp rtranclp.rtrancl_refl)
  from imported_at_most_once[OF run] have "wk_preview (ts_work ?s4) note_dir = None" by (simp add: import_system_def)
  with run show ?thesis by (auto simp: import_system_def)
qed

end
