(* ===== verification/GoSort.thy ===== *)
theory GoSort
  imports Prelude "HOL-Library.Multiset"
begin

text \<open>
  \<open>sort.Slice\<close> and \<open>container/heap\<close> of the standard library.  Sorting is modelled for strict orders that
  decide between any two of the elements: there the result does not depend on the algorithm.  The
  heap operations are those of the library, on a list, with a comparison as parameter.
\<close>

section \<open>Sorting\<close>

fun insert_by :: "('a \<Rightarrow> 'a \<Rightarrow> bool) \<Rightarrow> 'a \<Rightarrow> 'a list \<Rightarrow> 'a list" where
  "insert_by lt x [] = [x]"
| "insert_by lt x (y # ys) = (if lt y x then y # insert_by lt x ys else x # y # ys)"

definition sort_by :: "('a \<Rightarrow> 'a \<Rightarrow> bool) \<Rightarrow> 'a list \<Rightarrow> 'a list" where
  "sort_by lt xs = foldr (insert_by lt) xs []"

lemma set_insert_by [simp]: "set (insert_by lt x ys) = insert x (set ys)"
  by (induction ys) auto

lemma set_sort_by [simp]: "set (sort_by lt xs) = set xs"
  by (induction xs) (auto simp: sort_by_def)

lemma length_insert_by [simp]: "length (insert_by lt x ys) = Suc (length ys)"
  by (induction ys) auto

lemma length_sort_by [simp]: "length (sort_by lt xs) = length xs"
  by (induction xs) (auto simp: sort_by_def)

lemma sort_by_distinct: "distinct xs \<Longrightarrow> distinct (sort_by lt xs)"
  by (simp add: distinct_card card_distinct)

text \<open>An order that decides between the elements of a set.\<close>

definition decides :: "('a \<Rightarrow> 'a \<Rightarrow> bool) \<Rightarrow> 'a set \<Rightarrow> bool" where
  "decides lt A \<longleftrightarrow> (\<forall>x \<in> A. \<forall>y \<in> A. x \<noteq> y \<longrightarrow> lt x y \<or> lt y x) \<and> (\<forall>x y. lt x y \<longrightarrow> \<not> lt y x) \<and>
     (\<forall>x y z. lt x y \<longrightarrow> lt y z \<longrightarrow> lt x z)"

lemma decides_subset: "decides lt A \<Longrightarrow> B \<subseteq> A \<Longrightarrow> decides lt B"
  unfolding decides_def by blast

lemma decidesD:
  assumes "decides lt A"
  shows "x \<in> A \<Longrightarrow> y \<in> A \<Longrightarrow> x \<noteq> y \<Longrightarrow> \<not> lt x y \<Longrightarrow> lt y x" and "lt x y \<Longrightarrow> \<not> lt y x"
    and "lt x y \<Longrightarrow> lt y z \<Longrightarrow> lt x z"
  using assms unfolding decides_def by blast+

lemma sorted_insert_by:
  "sorted_wrt lt ys \<Longrightarrow> decides lt (insert x (set ys)) \<Longrightarrow> x \<notin> set ys \<Longrightarrow> sorted_wrt lt (insert_by lt x ys)"
proof (induction ys)
  case (Cons y ys)
  have sub: "decides lt (insert x (set ys))" using decides_subset[OF Cons.prems(2)] by auto
  have ys: "sorted_wrt lt ys" "\<forall>z \<in> set ys. lt y z" using Cons.prems(1) by simp_all
  show ?case
  proof (cases "lt y x")
    case True
    have "sorted_wrt lt (insert_by lt x ys)" using Cons.IH[OF ys(1) sub] Cons.prems(3) by simp
    with True ys(2) show ?thesis by simp
  next
    case False
    have xy: "lt x y" using decidesD(1)[OF Cons.prems(2), of y x] False Cons.prems(3) by auto
    have "\<forall>z \<in> set ys. lt x z" using decidesD(3)[OF Cons.prems(2) xy] ys(2) by blast
    with xy ys False show ?thesis by simp
  qed
qed simp

lemma sorted_sort_by:
  "distinct xs \<Longrightarrow> decides lt (set xs) \<Longrightarrow> sorted_wrt lt (sort_by lt xs)"
proof (induction xs)
  case (Cons x xs)
  then have "sorted_wrt lt (sort_by lt xs)" by (auto intro: decides_subset)
  with Cons.prems show ?case using sorted_insert_by[of lt "sort_by lt xs" x] by (simp add: sort_by_def[of _ "x # xs"] flip: sort_by_def)
qed (simp add: sort_by_def)

lemma sorted_unique:
  assumes asym: "\<And>x y. lt x y \<Longrightarrow> \<not> lt y x"
  shows "sorted_wrt lt xs \<Longrightarrow> sorted_wrt lt ys \<Longrightarrow> set xs = set ys \<Longrightarrow> xs = ys"
proof (induction xs arbitrary: ys)
  case (Cons x xs)
  then obtain y zs where ys: "ys = y # zs" by (cases ys) auto
  have irr: "\<not> lt z z" for z using asym by blast
  have "x = y"
  proof (rule ccontr)
    assume "x \<noteq> y"
    then have "x \<in> set zs" "y \<in> set xs" using Cons.prems(3) ys by auto
    then have "lt x y" "lt y x" using Cons.prems(1,2) ys by auto
    with asym show False by blast
  qed
  moreover have "x \<notin> set xs" "y \<notin> set zs" using Cons.prems(1,2) ys irr by auto
  ultimately have "set xs = set zs" using Cons.prems(3) ys by auto
  with Cons ys \<open>x = y\<close> show ?case by auto
qed simp

lemma sort_by_unique:
  assumes "decides lt (set xs)" and "distinct xs" and "sorted_wrt lt ys" and "set ys = set xs"
  shows "sort_by lt xs = ys"
proof (rule sorted_unique[of lt])
  show "\<And>x y. lt x y \<Longrightarrow> \<not> lt y x" using decidesD(2)[OF assms(1)] .
  show "sorted_wrt lt (sort_by lt xs)" by (rule sorted_sort_by[OF assms(2,1)])
qed (use assms(3,4) in simp_all)

text \<open>The first \<open>n\<close> of a sorted list are the \<open>n\<close> elements that come before all others.\<close>

lemma take_sorted_best:
  assumes s: "sorted_wrt lt ys" "distinct ys" and B: "B \<subseteq> set ys" "card B = min n (length ys)"
    and best: "\<And>b y. b \<in> B \<Longrightarrow> y \<in> set ys - B \<Longrightarrow> lt b y" and asym: "\<And>x y. lt x y \<Longrightarrow> \<not> lt y x"
  shows "B = set (take n ys)"
proof -
  have card: "card (set (take n ys)) = min n (length ys)" using s(2) by (simp add: distinct_card)
  have fin: "finite B" using B(1) finite_subset by blast
  have "B \<subseteq> set (take n ys)"
  proof (rule ccontr)
    assume "\<not> B \<subseteq> set (take n ys)"
    then obtain b where b: "b \<in> B" "b \<notin> set (take n ys)" by blast
    have "\<not> set (take n ys) \<subseteq> B"
    proof
      assume "set (take n ys) \<subseteq> B"
      then have "set (take n ys) = B" using card_subset_eq[OF fin] card B(2) by simp
      with b show False by simp
    qed
    then obtain y where y: "y \<in> set (take n ys)" "y \<notin> B" by blast
    have "set ys = set (take n ys) \<union> set (drop n ys)" by (metis append_take_drop_id set_append)
    with b B(1) have "b \<in> set (drop n ys)" by blast
    moreover have "sorted_wrt lt (take n ys @ drop n ys)" using s(1) by simp
    ultimately have "lt y b" using y(1) unfolding sorted_wrt_append by blast
    moreover have "lt b y" using best[OF b(1), of y] y in_set_takeD[of y n ys] by simp
    ultimately show False using asym by blast
  qed
  then show ?thesis using card_subset_eq[of "set (take n ys)" B] card B(2) by simp
qed

lemma filter_after:
  assumes asym: "\<And>x y. lt x y \<Longrightarrow> \<not> lt y x"
  shows "sorted_wrt lt xs \<Longrightarrow> k < length xs \<Longrightarrow> filter (lt (xs ! k)) xs = drop (Suc k) xs"
proof (induction xs arbitrary: k)
  case (Cons x xs)
  have irr: "\<not> lt z z" for z using asym by blast
  show ?case
  proof (cases k)
    case 0
    with Cons.prems irr show ?thesis by (simp add: filter_id_conv)
  next
    case (Suc m)
    with Cons.prems have "lt x (xs ! m)" by simp
    with Suc Cons asym show ?thesis by simp
  qed
qed simp

lemma filter_sort_by:
  assumes "distinct xs" and "decides lt (set xs)"
  shows "filter P (sort_by lt xs) = sort_by lt (filter P xs)"
proof (rule sym, rule sort_by_unique)
  show "decides lt (set (filter P xs))" by (rule decides_subset[OF assms(2)]) auto
  show "sorted_wrt lt (filter P (sort_by lt xs))" by (rule sorted_wrt_filter[OF sorted_sort_by[OF assms]])
qed (use assms(1) in auto)

section \<open>Heaps\<close>

definition swap :: "'a list \<Rightarrow> nat \<Rightarrow> nat \<Rightarrow> 'a list" where
  "swap xs i j = xs[i := xs ! j, j := xs ! i]"

function heap_up :: "('a \<Rightarrow> 'a \<Rightarrow> bool) \<Rightarrow> 'a list \<Rightarrow> nat \<Rightarrow> 'a list" where
  "heap_up lt xs j =
    (let i = (j - 1) div 2 in if i = j \<or> \<not> lt (xs ! j) (xs ! i) then xs else heap_up lt (swap xs i j) i)"
  by pat_completeness auto
termination by (relation "measure (\<lambda>(lt, xs, j). j)") auto

function heap_down :: "('a \<Rightarrow> 'a \<Rightarrow> bool) \<Rightarrow> 'a list \<Rightarrow> nat \<Rightarrow> nat \<Rightarrow> 'a list \<times> nat" where
  "heap_down lt xs i n =
    (let j1 = 2 * i + 1 in
     if n \<le> j1 then (xs, i)
     else let j = (if j1 + 1 < n \<and> lt (xs ! (j1 + 1)) (xs ! j1) then j1 + 1 else j1) in
       if \<not> lt (xs ! j) (xs ! i) then (xs, i) else heap_down lt (swap xs i j) j n)"
  by pat_completeness auto
termination by (relation "measure (\<lambda>(lt, xs, i, n). n - i)") (auto split: if_splits)

declare heap_up.simps [simp del] heap_down.simps [simp del]

definition heap_push :: "('a \<Rightarrow> 'a \<Rightarrow> bool) \<Rightarrow> 'a list \<Rightarrow> 'a \<Rightarrow> 'a list" where
  "heap_push lt xs x = heap_up lt (xs @ [x]) (length xs)"

definition heap_fix :: "('a \<Rightarrow> 'a \<Rightarrow> bool) \<Rightarrow> 'a list \<Rightarrow> nat \<Rightarrow> 'a list" where
  "heap_fix lt xs i =
    (case heap_down lt xs i (length xs) of (ys, i') \<Rightarrow> if i < i' then ys else heap_up lt ys i)"

abbreviation parent :: "nat \<Rightarrow> nat" where "parent k \<equiv> (k - 1) div 2"

definition heap_ok :: "('a \<Rightarrow> 'a \<Rightarrow> bool) \<Rightarrow> 'a list \<Rightarrow> bool" where
  "heap_ok lt xs \<longleftrightarrow> (\<forall>k < length xs. 0 < k \<longrightarrow> \<not> lt (xs ! k) (xs ! parent k))"

text \<open>The heap order but for one position that may be too small for its place, or too large.\<close>

definition up_ok :: "('a \<Rightarrow> 'a \<Rightarrow> bool) \<Rightarrow> 'a list \<Rightarrow> nat \<Rightarrow> bool" where
  "up_ok lt xs j \<longleftrightarrow> (\<forall>k < length xs. 0 < k \<and> k \<noteq> j \<longrightarrow> \<not> lt (xs ! k) (xs ! parent k)) \<and>
     (\<forall>k < length xs. 0 < k \<and> parent k = j \<and> 0 < j \<longrightarrow> \<not> lt (xs ! k) (xs ! parent j))"

definition down_ok :: "('a \<Rightarrow> 'a \<Rightarrow> bool) \<Rightarrow> 'a list \<Rightarrow> nat \<Rightarrow> bool" where
  "down_ok lt xs i \<longleftrightarrow> (\<forall>k < length xs. 0 < k \<and> parent k \<noteq> i \<longrightarrow> \<not> lt (xs ! k) (xs ! parent k)) \<and>
     (\<forall>k < length xs. 0 < k \<and> parent k = i \<and> 0 < i \<longrightarrow> \<not> lt (xs ! k) (xs ! parent i))"

lemma length_swap [simp]: "length (swap xs i j) = length xs"
  by (simp add: swap_def)

lemma mset_swap_eq: "i < length xs \<Longrightarrow> j < length xs \<Longrightarrow> mset (swap xs i j) = mset xs"
  by (simp add: swap_def mset_swap)

lemma nth_swap: "i < length xs \<Longrightarrow> j < length xs \<Longrightarrow> i \<noteq> j \<Longrightarrow>
   swap xs i j ! k = (if k = i then xs ! j else if k = j then xs ! i else xs ! k)"
  by (auto simp: swap_def nth_list_update)

lemma mset_heap_up: "j < length xs \<Longrightarrow> mset (heap_up lt xs j) = mset xs"
proof (induction lt xs j rule: heap_up.induct)
  case (1 lt xs j)
  then have "parent j < length xs" by linarith
  with 1 show ?case
    by (cases "parent j = j \<or> \<not> lt (xs ! j) (xs ! parent j)") (simp_all add: heap_up.simps[of lt xs j] mset_swap_eq Let_def)
qed

lemma length_heap_up [simp]: "j < length xs \<Longrightarrow> length (heap_up lt xs j) = length xs"
  by (metis mset_heap_up size_mset)

definition smaller_child :: "('a \<Rightarrow> 'a \<Rightarrow> bool) \<Rightarrow> 'a list \<Rightarrow> nat \<Rightarrow> nat" where
  "smaller_child lt xs i =
    (if 2 * i + 2 < length xs \<and> lt (xs ! (2 * i + 2)) (xs ! (2 * i + 1)) then 2 * i + 2 else 2 * i + 1)"

lemma heap_down_step: "heap_down lt xs i (length xs) =
    (if length xs \<le> 2 * i + 1 then (xs, i)
     else if \<not> lt (xs ! smaller_child lt xs i) (xs ! i) then (xs, i)
     else heap_down lt (swap xs i (smaller_child lt xs i)) (smaller_child lt xs i) (length xs))"
  by (subst heap_down.simps) (simp add: smaller_child_def Let_def)

lemma smaller_child_bound: "2 * i + 1 < length xs \<Longrightarrow> smaller_child lt xs i < length xs \<and> i < smaller_child lt xs i \<and>
   parent (smaller_child lt xs i) = i"
  by (auto simp: smaller_child_def)

lemma heap_down_props:
  "i < length xs \<Longrightarrow> n = length xs \<Longrightarrow> mset (fst (heap_down lt xs i n)) = mset xs \<and> i \<le> snd (heap_down lt xs i n) \<and>
     (snd (heap_down lt xs i n) = i \<longrightarrow> fst (heap_down lt xs i n) = xs)"
proof (induction "n - i" arbitrary: xs i rule: less_induct)
  case less
  let ?j = "smaller_child lt xs i"
  show ?case
  proof (cases "length xs \<le> 2 * i + 1 \<or> \<not> lt (xs ! ?j) (xs ! i)")
    case True
    with less.prems show ?thesis by (auto simp: heap_down_step[of lt xs i])
  next
    case False
    then have j: "?j < length xs" "i < ?j" using smaller_child_bound[of i xs lt] by auto
    from False less.prems have eq: "heap_down lt xs i n = heap_down lt (swap xs i ?j) ?j n"
      by (simp only: heap_down_step[of lt xs i] if_False de_Morgan_disj not_not simp_thms)
    have "n - ?j < n - i" using j less.prems by auto
    from less.hyps[OF this, of "swap xs i ?j"] j less.prems show ?thesis unfolding eq by (simp add: mset_swap_eq)
  qed
qed

lemma mset_heap_push [simp]: "mset (heap_push lt xs x) = add_mset x (mset xs)"
  by (simp add: heap_push_def mset_heap_up)

lemma mset_heap_fix: "i < length xs \<Longrightarrow> mset (heap_fix lt xs i) = mset xs"
proof -
  assume i: "i < length xs"
  obtain ys i' where d: "heap_down lt xs i (length xs) = (ys, i')" by fastforce
  with heap_down_props[OF i refl, of lt] have "mset ys = mset xs" by simp
  moreover from this have "length ys = length xs" by (metis size_mset)
  ultimately show ?thesis using i by (simp add: heap_fix_def d mset_heap_up)
qed

locale heap_order =
  fixes lt :: "'a \<Rightarrow> 'a \<Rightarrow> bool"
  assumes asym: "lt x y \<Longrightarrow> \<not> lt y x"
    and neg_trans: "\<not> lt x y \<Longrightarrow> \<not> lt y z \<Longrightarrow> \<not> lt x z"
begin

lemma heap_up_ok: "j < length xs \<Longrightarrow> up_ok lt xs j \<Longrightarrow> heap_ok lt (heap_up lt xs j)"
proof (induction j arbitrary: xs rule: less_induct)
  case (less j)
  define i where "i = parent j"
  then have pj: "(j - Suc 0) div 2 = i" by simp
  show ?case
  proof (cases "i = j \<or> \<not> lt (xs ! j) (xs ! i)")
    case True
    then have "j = 0 \<or> \<not> lt (xs ! j) (xs ! parent j)" unfolding i_def by linarith
    moreover have "heap_up lt xs j = xs" using True by (subst heap_up.simps) (auto simp: i_def)
    ultimately show ?thesis using less.prems by (auto simp: heap_ok_def up_ok_def)
  next
    case False
    then have i: "i < j" "i < length xs" using less.prems unfolding i_def by linarith+
    note sw = nth_swap[OF i(2) less.prems(1) less_imp_neq[OF i(1)]]
    have first: "\<And>k. k < length xs \<Longrightarrow> 0 < k \<Longrightarrow> k \<noteq> j \<Longrightarrow> \<not> lt (xs ! k) (xs ! parent k)"
      and second: "\<And>k. k < length xs \<Longrightarrow> 0 < k \<Longrightarrow> parent k = j \<Longrightarrow> 0 < j \<Longrightarrow> \<not> lt (xs ! k) (xs ! parent j)"
      using less.prems(2) unfolding up_ok_def by blast+
    have down: "\<not> lt (xs ! i) (xs ! j)" using False asym by blast
    have "\<not> lt (swap xs i j ! k) (swap xs i j ! parent k)" if k: "k < length xs" "0 < k" "k \<noteq> i" for k
    proof (cases "k = j")
      case True
      then show ?thesis using down i(1) by (simp add: sw pj)
    next
      case kj: False
      show ?thesis
      proof (cases "parent k = i")
        case True
        then show ?thesis using neg_trans[OF first[OF k(1,2) kj, unfolded True] down] k kj unfolding True by (simp add: sw)
      next
        case ki: False
        show ?thesis
        proof (cases "parent k = j")
          case True
          then show ?thesis using second[OF k(1,2) True] i k kj unfolding True by (simp add: sw pj)
        next
          case False
          then show ?thesis using first[OF k(1,2) kj] k kj ki by (simp add: sw)
        qed
      qed
    qed
    moreover have "\<not> lt (swap xs i j ! k) (swap xs i j ! parent i)"
      if k: "k < length xs" "0 < k" "parent k = i" "0 < i" for k
    proof -
      have p: "parent i \<noteq> i" "parent i \<noteq> j" using k(4) i(1) by linarith+
      have up: "\<not> lt (xs ! i) (xs ! parent i)" using first[OF i(2) k(4)] i(1) by simp
      show ?thesis
      proof (cases "k = j")
        case True
        then show ?thesis using up p i(1) by (simp add: sw)
      next
        case False
        have "k \<noteq> i" using k by linarith
        with False show ?thesis using neg_trans[OF first[OF k(1,2) False, unfolded k(3)] up] p by (simp add: sw)
      qed
    qed
    ultimately have "up_ok lt (swap xs i j) i" unfolding up_ok_def by simp
    with less.IH[OF i(1)] i(2) have "heap_ok lt (heap_up lt (swap xs i j) i)" by simp
    with False show ?thesis by (subst heap_up.simps) (simp add: Let_def pj)
  qed
qed


lemma heap_down_ok: "i < length xs \<Longrightarrow> down_ok lt xs i \<Longrightarrow> heap_ok lt (fst (heap_down lt xs i (length xs)))"
proof (induction "length xs - i" arbitrary: xs i rule: less_induct)
  case less
  define j where "j = smaller_child lt xs i"
  have first: "\<And>k. k < length xs \<Longrightarrow> 0 < k \<Longrightarrow> parent k \<noteq> i \<Longrightarrow> \<not> lt (xs ! k) (xs ! parent k)"
    and second: "\<And>k. k < length xs \<Longrightarrow> 0 < k \<Longrightarrow> parent k = i \<Longrightarrow> 0 < i \<Longrightarrow> \<not> lt (xs ! k) (xs ! parent i)"
    using less.prems(2) unfolding down_ok_def by blast+
  have child: "k = 2 * i + 1 \<or> k = 2 * i + 2" if "0 < k" "parent k = i" for k using that by linarith
  have least: "\<not> lt (xs ! k) (xs ! j)" if "k < length xs" "0 < k" "parent k = i" for k
    using child[OF that(2,3)] that(1) asym unfolding j_def smaller_child_def by (auto split: if_splits)
  show ?case
  proof (cases "length xs \<le> 2 * i + 1 \<or> \<not> lt (xs ! j) (xs ! i)")
    case True
    have "\<not> lt (xs ! k) (xs ! parent k)" if k: "k < length xs" "0 < k" for k
    proof (cases "parent k = i")
      case eq: True
      with child[OF k(2)] k(1) have "\<not> length xs \<le> 2 * i + 1" by auto
      with True have "\<not> lt (xs ! j) (xs ! i)" by simp
      from neg_trans[OF least[OF k eq] this] show ?thesis unfolding eq .
    qed (use first k in blast)
    with True show ?thesis by (auto simp: heap_down_step[of lt xs i] heap_ok_def simp flip: j_def)
  next
    case False
    have j: "j < length xs" "i < j" and pj: "parent j = i"
      using smaller_child_bound[of i xs lt] False unfolding j_def by auto
    note sw = nth_swap[OF less.prems(1) j(1) less_imp_neq[OF j(2)]]
    have up: "\<not> lt (xs ! i) (xs ! j)" using False asym by blast
    have "\<not> lt (swap xs i j ! k) (swap xs i j ! parent k)" if k: "k < length xs" "0 < k" "parent k \<noteq> j" for k
    proof (cases "parent k = i")
      case True
      then have "k \<noteq> i" using k(2) by linarith
      then show ?thesis using least[OF k(1,2) True] up unfolding True by (simp add: sw)
    next
      case pk: False
      then have "k \<noteq> j" using pj by blast
      then show ?thesis
        using second[OF j(1) _ pj] first[OF k(1,2) pk] pk k j(2) by (cases "k = i") (simp_all add: sw)
    qed
    moreover have "\<not> lt (swap xs i j ! k) (swap xs i j ! parent j)" if k: "k < length xs" "0 < k" "parent k = j" for k
    proof -
      have "k \<noteq> i" "k \<noteq> j" using k j(2) by linarith+
      moreover have "parent k \<noteq> i" using k(3) j(2) by simp
      ultimately show ?thesis using first[OF k(1,2)] unfolding pj by (simp add: sw k(3)[simplified])
    qed
    ultimately have "down_ok lt (swap xs i j) j" unfolding down_ok_def by simp
    moreover have "heap_down lt xs i (length xs) = heap_down lt (swap xs i j) j (length xs)"
      using False by (simp only: heap_down_step[of lt xs i] flip: j_def) simp
    ultimately show ?thesis using less.hyps[of "swap xs i j" j] j by simp
  qed
qed

lemma heap_push_ok: "heap_ok lt xs \<Longrightarrow> heap_ok lt (heap_push lt xs x)"
proof -
  assume h: "heap_ok lt xs"
  have "up_ok lt (xs @ [x]) (length xs)" unfolding up_ok_def
  proof safe
    fix k assume k: "k < length (xs @ [x])" "0 < k" "k \<noteq> length xs" and "lt ((xs @ [x]) ! k) ((xs @ [x]) ! parent k)"
    then have "k < length xs" "parent k < length xs" by auto
    with h k(2) \<open>lt _ _\<close> show False by (simp add: heap_ok_def nth_append)
  next
    fix k assume "k < length (xs @ [x])" "0 < k" "parent k = length xs"
    then have False by simp
    then show "lt ((xs @ [x]) ! k) ((xs @ [x]) ! parent (length xs)) \<Longrightarrow> False" .
  qed
  from heap_up_ok[OF _ this] show ?thesis by (simp add: heap_push_def)
qed

lemma heap_fix_ok: "heap_ok lt xs \<Longrightarrow> xs \<noteq> [] \<Longrightarrow> heap_ok lt (heap_fix lt (xs[0 := x]) 0)"
proof -
  assume h: "heap_ok lt xs" and ne: "xs \<noteq> []"
  let ?xs = "xs[0 := x]"
  have "down_ok lt ?xs 0" unfolding down_ok_def
  proof safe
    fix k assume k: "k < length ?xs" "0 < k" "0 < parent k" and l: "lt (?xs ! k) (?xs ! parent k)"
    then have "\<not> lt (xs ! k) (xs ! parent k)" using h by (simp add: heap_ok_def)
    with k l show False by simp
  qed
  from heap_down_ok[OF _ this] ne have d: "heap_ok lt (fst (heap_down lt ?xs 0 (length ?xs)))" by simp
  have "heap_up lt ys 0 = ys" for ys by (subst heap_up.simps) simp
  with d show ?thesis by (auto simp: heap_fix_def split: prod.splits)
qed

lemma heap_root: "heap_ok lt xs \<Longrightarrow> k < length xs \<Longrightarrow> \<not> lt (xs ! k) (xs ! 0)"
proof (induction k rule: less_induct)
  case (less k)
  show ?case
  proof (cases "k = 0")
    case True
    then show ?thesis using asym by blast
  next
    case False
    then have "parent k < k" by linarith
    with less have "\<not> lt (xs ! parent k) (xs ! 0)" by simp
    moreover have "\<not> lt (xs ! k) (xs ! parent k)" using less.prems False by (simp add: heap_ok_def)
    ultimately show ?thesis using neg_trans by blast
  qed
qed

end

end
