(* ===== verification/Browse.thy ===== *)
theory Browse
  imports VaultScan GoSort
begin

text \<open>
  \<open>vault/browse.go\<close>: pages of the readable items, ordered by a timestamp in SQL or by the encrypted
  title in memory, where a heap keeps the best matches of the whole scan; and the tags in use.
\<close>

section \<open>Keys and orders\<close>

text \<open>
  The key of a position: a timestamp in the fixed-width form of the database, which orders as the
  instant, or a lower-case title.  A cursor carries the sort order, so keys of both kinds are never
  compared.
\<close>

datatype browse_key = TimeKey time | TitleKey string

instantiation browse_key :: linorder
begin

fun less_browse_key :: "browse_key \<Rightarrow> browse_key \<Rightarrow> bool" where
  "less_browse_key (TimeKey a) (TimeKey b) \<longleftrightarrow> a < b"
| "less_browse_key (TimeKey a) (TitleKey b) \<longleftrightarrow> True"
| "less_browse_key (TitleKey a) (TimeKey b) \<longleftrightarrow> False"
| "less_browse_key (TitleKey a) (TitleKey b) \<longleftrightarrow> a < b"

definition less_eq_browse_key :: "browse_key \<Rightarrow> browse_key \<Rightarrow> bool" where
  "less_eq_browse_key a b \<longleftrightarrow> a = b \<or> a < b"

instance
proof
  fix x y z :: browse_key
  show "x < y \<longleftrightarrow> x \<le> y \<and> \<not> y \<le> x" by (cases x; cases y) (auto simp: less_eq_browse_key_def)
  show "x \<le> y \<Longrightarrow> y \<le> z \<Longrightarrow> x \<le> z" by (cases x; cases y; cases z) (auto simp: less_eq_browse_key_def)
  show "x \<le> y \<Longrightarrow> y \<le> x \<Longrightarrow> x = y" by (cases x; cases y) (auto simp: less_eq_browse_key_def)
  show "x \<le> y \<or> y \<le> x" by (cases x; cases y) (auto simp: less_eq_browse_key_def)
qed (simp add: less_eq_browse_key_def)

end

record browse_input =
  bw_query :: string
  bw_scope :: string
  bw_type :: string
  bw_tag :: string
  bw_favorite :: "bool option"
  bw_sort :: string

record browse_item =
  br_meta :: meta
  br_tags :: "string list"

definition title_order :: "string \<Rightarrow> bool" where
  "title_order order \<longleftrightarrow> order = ''title_asc'' \<or> order = ''title_desc''"

definition BrowseKey :: "venv \<Rightarrow> string \<Rightarrow> browse_item \<Rightarrow> browse_key" where
  "BrowseKey V order x =
    (if title_order order then TitleKey (to_lower (ve_ulow V) (m_title (br_meta x)))
     else if order = ''created_desc'' then TimeKey (m_created (br_meta x))
     else TimeKey (m_updated (br_meta x)))"

definition browseLess :: "string \<Rightarrow> browse_key \<times> string \<Rightarrow> browse_key \<times> string \<Rightarrow> bool" where
  "browseLess order p q =
    (case (p, q) of ((key, iid), (other, other_id)) \<Rightarrow>
     if key = other then iid < other_id
     else if order = ''title_asc'' \<or> order = ''updated_asc'' then key < other
     else other < key)"

definition browse_pos :: "venv \<Rightarrow> string \<Rightarrow> browse_item \<Rightarrow> browse_key \<times> string" where
  "browse_pos V order x = (BrowseKey V order x, m_id (br_meta x))"

definition browse_before :: "venv \<Rightarrow> string \<Rightarrow> browse_item \<Rightarrow> browse_item \<Rightarrow> bool" where
  "browse_before V order x y \<longleftrightarrow> browseLess order (browse_pos V order x) (browse_pos V order y)"

section \<open>Candidates\<close>

definition browse_orders :: "string list" where
  "browse_orders = ['''', ''updated_desc'', ''updated_asc'', ''created_desc'', ''title_asc'', ''title_desc'']"

definition browse_where :: "string \<Rightarrow> browse_input \<Rightarrow> item_row \<Rightarrow> bool" where
  "browse_where uid i r \<longleftrightarrow> it_deleted r = None \<and> own_or_shared uid r \<and>
     (bw_scope i = '''' \<or> it_scope r = bw_scope i) \<and> (bw_type i = '''' \<or> it_type r = bw_type i) \<and>
     (case bw_favorite i of None \<Rightarrow> True | Some b \<Rightarrow> it_favorite r = b)"

definition browseWhere :: "principal option \<Rightarrow> browse_input \<Rightarrow> vault_error + (item_row \<Rightarrow> bool)" where
  "browseWhere actor i =
    (case actor of None \<Rightarrow> Inl ErrForbidden
     | Some a \<Rightarrow>
       if bw_scope i \<noteq> '''' \<and> \<not> Scopes (bw_scope i) then Inl ErrInvalidScope
       else if bw_type i \<noteq> '''' \<and> \<not> ItemTypes (bw_type i) then Inl ErrInvalidItemType
       else if bw_sort i \<notin> set browse_orders then Inl ErrPayloadInvalid
       else Inr (browse_where (p_user a) i))"

text \<open>One batch: the column and direction of the order, the rows after the position, ties by id.\<close>

definition row_column :: "string \<Rightarrow> item_row \<Rightarrow> time" where
  "row_column order r = (if order = ''created_desc'' then it_created r else it_updated r)"

definition row_after :: "string \<Rightarrow> (browse_key \<times> string) option \<Rightarrow> item_row \<Rightarrow> bool" where
  "row_after order after r =
    (case after of None \<Rightarrow> True
     | Some (key, iid) \<Rightarrow>
        (let k = TimeKey (row_column order r)
         in (if order = ''updated_asc'' then key < k else k < key) \<or> k = key \<and> iid < it_id r))"

definition row_rank :: "string \<Rightarrow> item_row \<Rightarrow> time \<times> string" where
  "row_rank order r = ((if order = ''updated_asc'' then row_column order r else - row_column order r), it_id r)"

definition listBrowseRows ::
  "(item_row \<Rightarrow> bool) \<Rightarrow> string \<Rightarrow> (browse_key \<times> string) option \<Rightarrow> nat \<Rightarrow> db \<Rightarrow> item_row list" where
  "listBrowseRows p order after limit d =
    take limit (sort_key (row_rank order) (filter (\<lambda>r. p r \<and> row_after order after r) (items d)))"

section \<open>The scan\<close>

definition browseBatchSize :: nat where "browseBatchSize = 64"

text \<open>A match that the title order considers: a new member of the heap, or in place of its root, the worst
  of the kept ones.\<close>

definition keep_title :: "venv \<Rightarrow> string \<Rightarrow> nat \<Rightarrow> browse_item \<Rightarrow> browse_item list \<Rightarrow> browse_item list" where
  "keep_title V order limit x cands =
    (let worse = (\<lambda>a b. browse_before V order b a) in
     if length cands < limit then heap_push worse cands x
     else if browse_before V order x (cands ! 0) then heap_fix worse (cands[0 := x]) 0
     else cands)"

definition browse_item_of :: "item_row \<Rightarrow> payload \<Rightarrow> stored_payload \<Rightarrow> browse_item" where
  "browse_item_of r p env = \<lparr>br_meta = (toMeta r)\<lparr>m_title := TitleOf p\<rparr>, br_tags = sp_tags env\<rparr>"

fun browse_rows ::
  "venv \<Rightarrow> browse_input \<Rightarrow> (browse_key \<times> string) option \<Rightarrow> nat \<Rightarrow> item_row list \<Rightarrow> browse_item list \<Rightarrow>
   vault_error + browse_item list" where
  "browse_rows V i after limit [] cands = Inr cands"
| "browse_rows V i after limit (r # rs) cands =
    andthen (decryptRow V r) (\<lambda>(raw, p, env).
    if \<not> matchQuery V (bw_query i) (bw_tag i) p (sp_tags env) then browse_rows V i after limit rs cands
    else let x = browse_item_of r p env in
      if title_order (bw_sort i) then
        (if (case after of None \<Rightarrow> False | Some pos \<Rightarrow> \<not> browseLess (bw_sort i) pos (browse_pos V (bw_sort i) x))
         then browse_rows V i after limit rs cands
         else browse_rows V i after limit rs (keep_title V (bw_sort i) limit x cands))
      else if length (cands @ [x]) = limit then Inr (cands @ [x])
      else browse_rows V i after limit rs (cands @ [x]))"

text \<open>The last clause of the condition only makes the recursion end for a batch size of zero, which does
  not occur.\<close>

function browse_scan ::
  "venv \<Rightarrow> browse_input \<Rightarrow> (item_row \<Rightarrow> bool) \<Rightarrow> (browse_key \<times> string) option \<Rightarrow> nat \<Rightarrow> nat \<Rightarrow> db \<Rightarrow>
   (browse_key \<times> string) option \<Rightarrow> browse_item list \<Rightarrow> vault_error + browse_item list" where
  "browse_scan V i p after limit batch d pos cands =
    (let byTitle = title_order (bw_sort i); order = (if byTitle then ''updated_desc'' else bw_sort i);
         rows = listBrowseRows p order pos batch d
     in case browse_rows V i after limit rows cands of Inl e \<Rightarrow> Inl e
     | Inr cands' \<Rightarrow>
        if \<not> byTitle \<and> length cands' = limit \<or> length rows < batch \<or> rows = [] then Inr cands'
        else browse_scan V i p after limit batch d (Some (TimeKey (row_column order (last rows)), it_id (last rows))) cands')"
  by pat_completeness auto

text \<open>Every batch moves the position: fewer rows come after the last row of the batch.\<close>

definition row_pos :: "string \<Rightarrow> item_row \<Rightarrow> browse_key \<times> string" where
  "row_pos order r = (TimeKey (row_column order r), it_id r)"

lemma TimeKey_trans:
  "a < TimeKey t \<Longrightarrow> t < u \<Longrightarrow> a < TimeKey u" "TimeKey t < a \<Longrightarrow> u < t \<Longrightarrow> TimeKey u < a"
  by (cases a; simp)+

lemma row_after_trans:
  assumes "row_after order after r" and "row_after order (Some (row_pos order r)) x"
  shows "row_after order after x"
  using assms
  by (cases after) (auto simp: row_after_def row_pos_def Let_def split: if_splits dest: TimeKey_trans)

lemma row_after_irrefl: "\<not> row_after order (Some (row_pos order r)) r"
  by (simp add: row_after_def row_pos_def Let_def)

lemma listBrowseRows_mem:
  "r \<in> set (listBrowseRows p order after n d) \<Longrightarrow> r \<in> set (items d) \<and> p r \<and> row_after order after r"
  by (auto simp: listBrowseRows_def dest!: in_set_takeD)

lemma rows_left:
  assumes "r \<in> set (items d)" and "row_after order after r"
  shows "length (filter (row_after order (Some (row_pos order r))) (items d)) < length (filter (row_after order after) (items d))"
proof -
  have "filter (row_after order (Some (row_pos order r))) (items d)
      = filter (row_after order (Some (row_pos order r))) (filter (row_after order after) (items d))"
    using row_after_trans[OF assms(2)] by (auto simp: filter_filter intro: filter_cong)
  also have "length \<dots> < length (filter (row_after order after) (items d))"
    using assms row_after_irrefl by (intro length_filter_less[of r]) auto
  finally show ?thesis .
qed

lemma last_rows_left:
  assumes "rows = listBrowseRows p order after n d" and "rows \<noteq> []"
  shows "length (filter (row_after order (Some (row_pos order (last rows)))) (items d)) < length (filter (row_after order after) (items d))"
  using assms last_in_set[of rows] listBrowseRows_mem[of "last rows" p order after n d] by (intro rows_left) simp_all

abbreviation scan_order :: "browse_input \<Rightarrow> string" where
  "scan_order i \<equiv> (if title_order (bw_sort i) then ''updated_desc'' else bw_sort i)"

termination browse_scan
proof (relation "measure (\<lambda>(V, i, p, after, limit, batch, d, pos, cands). length (filter (row_after (scan_order i) pos) (items d)))",
    goal_cases)
  case 1
  show ?case by (rule wf_measure)
next
  case (2 V i p after limit batch d pos cands byTitle order rows cands')
  then have "rows = listBrowseRows p (scan_order i) pos batch d" "rows \<noteq> []" "order = scan_order i" by auto
  with last_rows_left[OF this(1,2)] show ?case by (simp add: row_pos_def)
qed

declare browse_scan.simps [simp del]

definition Browse ::
  "venv \<Rightarrow> principal option \<Rightarrow> browse_input \<Rightarrow> (browse_key \<times> string) option \<Rightarrow> int \<Rightarrow> db \<Rightarrow> vault_error + browse_item list" where
  "Browse V actor i after limit d =
    andthen (browseWhere actor i) (\<lambda>p.
    if limit < 1 then Inl ErrPayloadInvalid
    else let n = nat limit; byTitle = title_order (bw_sort i);
             batch = (if \<not> byTitle \<and> bw_query i = '''' \<and> bw_tag i = '''' then n else browseBatchSize)
      in andthen (browse_scan V i p after n batch d (if byTitle then None else after) []) (\<lambda>cands.
         let found = (if byTitle then sort_by (browse_before V (bw_sort i)) cands else cands);
             metas = attachCreatorNames d (map br_meta found)
         in Inr (map2 (\<lambda>x m. x\<lparr>br_meta := m\<rparr>) found metas)))"

section \<open>Tags\<close>

fun row_tag_union :: "venv \<Rightarrow> item_row list \<Rightarrow> string list \<Rightarrow> vault_error + string list" where
  "row_tag_union V [] tags = Inr tags"
| "row_tag_union V (r # rs) tags =
    andthen (decryptRow V r) (\<lambda>(raw, p, env). row_tag_union V rs (tags @ sp_tags env))"

function tag_scan ::
  "venv \<Rightarrow> (item_row \<Rightarrow> bool) \<Rightarrow> db \<Rightarrow> (browse_key \<times> string) option \<Rightarrow> string list \<Rightarrow> vault_error + string list" where
  "tag_scan V p d pos tags =
    (let rows = listBrowseRows p ''updated_desc'' pos browseBatchSize d
     in case row_tag_union V rows tags of Inl e \<Rightarrow> Inl e
     | Inr tags' \<Rightarrow>
        if length rows < browseBatchSize then Inr tags'
        else tag_scan V p d (Some (TimeKey (it_updated (last rows)), it_id (last rows))) tags')"
  by pat_completeness auto
termination
proof (relation "measure (\<lambda>(V, p, d, pos, tags). length (filter (row_after ''updated_desc'' pos) (items d)))", goal_cases)
  case 1
  show ?case by (rule wf_measure)
next
  case (2 V p d pos tags rows tags')
  then have "rows \<noteq> []" by (auto simp: browseBatchSize_def)
  with 2(1) last_rows_left[OF 2(1)] show ?case by (simp add: row_pos_def row_column_def)
qed

declare tag_scan.simps [simp del]

text \<open>The keys of a Go map, sorted.\<close>

definition BrowseTags :: "venv \<Rightarrow> principal option \<Rightarrow> browse_input \<Rightarrow> db \<Rightarrow> vault_error + string list" where
  "BrowseTags V actor i d =
    andthen (browseWhere actor i) (\<lambda>p. andthen (tag_scan V p d None []) (\<lambda>tags. Inr (sort (remdups tags))))"

end
