(* ===== verification/BrowseTheorems.thy ===== *)
theory BrowseTheorems
  imports Browse VaultReads
begin

text \<open>The browse pages against their definition by sorting: whatever the order, the batch size and the page
  size, a page is the first items of the sorted list of all readable matches after the cursor.\<close>

section \<open>The order\<close>

lemma browseLess_asym: "browseLess order p q \<Longrightarrow> \<not> browseLess order q p"
  by (auto simp: browseLess_def split: prod.splits if_splits)

lemma browseLess_total: "p \<noteq> q \<Longrightarrow> browseLess order p q \<or> browseLess order q p"
  by (auto simp: browseLess_def split: prod.splits)

lemma browseLess_trans: "browseLess order p q \<Longrightarrow> browseLess order q r \<Longrightarrow> browseLess order p r"
  by (auto simp: browseLess_def split: prod.splits if_splits)

lemma browseLess_neg_trans: "\<not> browseLess order p q \<Longrightarrow> \<not> browseLess order q r \<Longrightarrow> \<not> browseLess order p r"
  using browseLess_total[of p q order] browseLess_total[of q r order] browseLess_trans[of order] browseLess_asym[of order] by blast

lemma browse_before_asym: "browse_before V order x y \<Longrightarrow> \<not> browse_before V order y x"
  using browseLess_asym by (simp add: browse_before_def)

lemma browse_decides:
  assumes "inj_on (\<lambda>x. m_id (br_meta x)) A"
  shows "decides (browse_before V order) A"
proof -
  have "browse_pos V order x \<noteq> browse_pos V order y" if "x \<in> A" "y \<in> A" "x \<noteq> y" for x y
    using assms that by (auto simp: browse_pos_def inj_on_def)
  then have "\<forall>x \<in> A. \<forall>y \<in> A. x \<noteq> y \<longrightarrow> browse_before V order x y \<or> browse_before V order y x"
    using browseLess_total by (simp add: browse_before_def)
  moreover have "\<forall>x y. browse_before V order x y \<longrightarrow> \<not> browse_before V order y x" using browse_before_asym by blast
  moreover have "\<forall>x y z. browse_before V order x y \<longrightarrow> browse_before V order y z \<longrightarrow> browse_before V order x z"
    unfolding browse_before_def by (intro allI impI) (rule browseLess_trans)
  ultimately show ?thesis unfolding decides_def by (intro conjI)
qed

text \<open>The heap of the title orders: its root is the worst of the kept items.\<close>

interpretation title_heap: heap_order "\<lambda>x y. browse_before V order y x" for V order
proof (unfold_locales, goal_cases)
  case (1 x y)
  then show ?case by (rule browse_before_asym)
next
  case (2 x y z)
  show ?case unfolding browse_before_def
    by (rule browseLess_neg_trans[OF 2(2)[unfolded browse_before_def] 2(1)[unfolded browse_before_def]])
qed

section \<open>Keeping the best\<close>

definition best_of :: "venv \<Rightarrow> string \<Rightarrow> nat \<Rightarrow> browse_item list \<Rightarrow> browse_item list \<Rightarrow> bool" where
  "best_of V order limit seen cands \<longleftrightarrow> heap_ok (\<lambda>x y. browse_before V order y x) cands \<and> distinct cands \<and>
     set cands \<subseteq> set seen \<and> length cands = min limit (length seen) \<and>
     (\<forall>b \<in> set cands. \<forall>y \<in> set seen - set cands. browse_before V order b y)"

lemma keep_title_best:
  assumes best: "best_of V order limit seen cands" and new: "x \<notin> set seen" and n: "0 < limit" and d: "distinct seen"
    and dec: "decides (browse_before V order) (set (seen @ [x]))"
  shows "best_of V order limit (seen @ [x]) (keep_title V order limit x cands)"
proof -
  let ?lt = "browse_before V order" and ?worse = "\<lambda>a b. browse_before V order b a"
  have b: "heap_ok ?worse cands" "distinct cands" "set cands \<subseteq> set seen" "length cands = min limit (length seen)"
    and first: "\<And>c y. c \<in> set cands \<Longrightarrow> y \<in> set seen \<Longrightarrow> y \<notin> set cands \<Longrightarrow> ?lt c y"
    using best by (auto simp: best_of_def)
  have out: "x \<notin> set cands" using b(3) new by blast
  show ?thesis
  proof (cases "length cands < limit")
    case True
    have m: "mset (heap_push ?worse cands x) = mset (x # cands)" by simp
    from b(4) True have "card (set cands) = card (set seen)" using b(2) d by (simp add: distinct_card)
    with b(3) have "set cands = set seen" by (simp add: card_subset_eq)
    moreover have "set (heap_push ?worse cands x) = insert x (set cands)" using mset_eq_setD[OF m] by simp
    moreover have "distinct (heap_push ?worse cands x)" using mset_eq_imp_distinct_iff[OF m] b(2) out by simp
    moreover have "length (heap_push ?worse cands x) = Suc (length cands)" using mset_eq_length[OF m] by simp
    moreover have "keep_title V order limit x cands = heap_push ?worse cands x" using True by (simp add: keep_title_def Let_def)
    moreover have "Suc (length cands) = min limit (length (seen @ [x]))" using True b(4) by auto
    ultimately show ?thesis
      using title_heap.heap_push_ok[OF b(1), of x] unfolding best_of_def by auto
  next
    case full: False
    then have ne: "cands \<noteq> []" and len: "length cands = limit" "limit \<le> length seen" using n b(4) by auto
    define w where "w = cands ! 0"
    have w: "w \<in> set cands" using ne by (simp add: w_def)
    have worst: "?lt c w" if c: "c \<in> set cands" "c \<noteq> w" for c
    proof -
      from c(1) obtain k where "k < length cands" "cands ! k = c" by (auto simp: in_set_conv_nth)
      then have "\<not> ?lt w c" using title_heap.heap_root[OF b(1)] by (auto simp: w_def)
      then show ?thesis using decidesD(1)[OF dec, of w c] c w b(3) by auto
    qed
    show ?thesis
    proof (cases "?lt x w")
      case True
      let ?c = "cands[0 := x]" and ?h = "heap_fix ?worse (cands[0 := x]) 0"
      have m: "mset ?h = mset ?c" using ne by (simp add: mset_heap_fix)
      have "set ?c = insert x (set cands - {w})" "distinct ?c"
        using b(2) ne out by (cases cands; auto simp: w_def)+
      then have h: "set ?h = insert x (set cands - {w})" "distinct ?h" "length ?h = length cands"
        using mset_eq_setD[OF m] mset_eq_imp_distinct_iff[OF m] mset_eq_length[OF m] by auto
      have "?lt c y" if c: "c \<in> set ?h" and y: "y \<in> set (seen @ [x]) - set ?h" for c y
      proof -
        have ys: "y = w \<or> y \<in> set seen \<and> y \<notin> set cands" using y h(1) by auto
        have lw: "?lt c w" using c h(1) worst True by auto
        show ?thesis using ys lw first[OF w] decidesD(3)[OF dec lw] by auto
      qed
      moreover have "heap_ok ?worse ?h" by (rule title_heap.heap_fix_ok[OF b(1) ne])
      ultimately show ?thesis
        using h full True len b(3) unfolding best_of_def keep_title_def Let_def w_def by auto
    next
      case False
      then have wx: "?lt w x" using decidesD(1)[OF dec, of x w] w b(3) new by auto
      have "?lt c x" if "c \<in> set cands" for c
        using worst[OF that] decidesD(3)[OF dec _ wx] wx by (cases "c = w") auto
      then show ?thesis
        using b full False len first unfolding best_of_def keep_title_def Let_def w_def by auto
    qed
  qed
qed

section \<open>The rows of a scan\<close>

definition shown :: "venv \<Rightarrow> item_row \<Rightarrow> browse_item" where
  "shown V r = (case decryptRow V r of Inl _ \<Rightarrow> \<lparr>br_meta = toMeta r, br_tags = []\<rparr> | Inr (_, p, env) \<Rightarrow> browse_item_of r p env)"

lemma shown_simps [simp]:
  "m_id (br_meta (shown V r)) = it_id r" "m_created (br_meta (shown V r)) = it_created r"
  "m_updated (br_meta (shown V r)) = it_updated r"
  by (simp_all add: shown_def browse_item_of_def toMeta_def split: sum.split prod.split)

definition row_hits :: "venv \<Rightarrow> browse_input \<Rightarrow> item_row \<Rightarrow> bool" where
  "row_hits V i = row_matches V (matchQuery V (bw_query i) (bw_tag i))"

definition shown_after :: "venv \<Rightarrow> browse_input \<Rightarrow> (browse_key \<times> string) option \<Rightarrow> browse_item \<Rightarrow> bool" where
  "shown_after V i after x \<longleftrightarrow> (case after of None \<Rightarrow> True | Some pos \<Rightarrow> browseLess (bw_sort i) pos (browse_pos V (bw_sort i) x))"

lemma browse_rows_step:
  assumes "decryptRow V r = Inr (raw, p, env)"
  shows "browse_rows V i after limit (r # rs) cands =
    (if \<not> row_hits V i r then browse_rows V i after limit rs cands
     else if title_order (bw_sort i) then
       browse_rows V i after limit rs (if shown_after V i after (shown V r) then keep_title V (bw_sort i) limit (shown V r) cands else cands)
     else if Suc (length cands) = limit then Inr (cands @ [shown V r])
     else browse_rows V i after limit rs (cands @ [shown V r]))"
  using assms by (cases after) (auto simp: row_hits_def row_matches_def shown_def shown_after_def Let_def)

lemma browse_rows_prefix:
  assumes t: "\<not> title_order (bw_sort i)"
  shows "all_open V rows \<Longrightarrow> length cands < limit \<Longrightarrow>
     browse_rows V i after limit rows cands = Inr (take limit (cands @ map (shown V) (filter (row_hits V i) rows)))"
proof (induction rows arbitrary: cands)
  case (Cons r rs)
  then obtain raw p env where dec: "decryptRow V r = Inr (raw, p, env)" by (fastforce simp: all_open_def)
  have op: "all_open V rs" using Cons.prems by (simp add: all_open_def)
  show ?case
  proof (cases "row_hits V i r")
    case False
    then show ?thesis using Cons.IH[OF op Cons.prems(2)] by (simp only: browse_rows_step[OF dec]) simp
  next
    case True
    show ?thesis
    proof (cases "Suc (length cands) = limit")
      case full: True
      then have "limit - length cands = Suc 0" by simp
      then show ?thesis using True t full by (simp only: browse_rows_step[OF dec]) simp
    next
      case False
      then have "length (cands @ [shown V r]) < limit" using Cons.prems(2) by simp
      from Cons.IH[OF op this] show ?thesis using True t False by (simp only: browse_rows_step[OF dec]) simp
    qed
  qed
qed simp

definition wanted_rows :: "venv \<Rightarrow> browse_input \<Rightarrow> (browse_key \<times> string) option \<Rightarrow> item_row list \<Rightarrow> browse_item list" where
  "wanted_rows V i after rows = filter (shown_after V i after) (map (shown V) (filter (row_hits V i) rows))"

lemma browse_rows_best:
  assumes t: "title_order (bw_sort i)" and n: "0 < limit"
  shows "all_open V rows \<Longrightarrow> best_of V (bw_sort i) limit seen cands \<Longrightarrow>
     distinct (map (\<lambda>x. m_id (br_meta x)) seen @ map it_id rows) \<Longrightarrow>
     \<exists>cands'. browse_rows V i after limit rows cands = Inr cands' \<and>
       best_of V (bw_sort i) limit (seen @ wanted_rows V i after rows) cands'"
proof (induction rows arbitrary: seen cands)
  case Nil
  then show ?case by (simp add: wanted_rows_def)
next
  case (Cons r rs)
  then obtain raw p env where dec: "decryptRow V r = Inr (raw, p, env)" by (fastforce simp: all_open_def)
  have op: "all_open V rs" using Cons.prems by (simp add: all_open_def)
  show ?case
  proof (cases "row_hits V i r \<and> shown_after V i after (shown V r)")
    case False
    then have "wanted_rows V i after (r # rs) = wanted_rows V i after rs" by (auto simp: wanted_rows_def)
    moreover have "browse_rows V i after limit (r # rs) cands = browse_rows V i after limit rs cands"
      using False t by (simp only: browse_rows_step[OF dec]) auto
    ultimately show ?thesis using Cons.IH[OF op Cons.prems(2)] Cons.prems(3) by simp
  next
    case True
    let ?x = "shown V r"
    have new: "?x \<notin> set seen" using Cons.prems(3) by force
    have d: "distinct (map (\<lambda>x. m_id (br_meta x)) (seen @ [?x]))" using Cons.prems(3) by auto
    have ds: "distinct seen" using Cons.prems(3) by (simp add: distinct_map)
    have dec2: "decides (browse_before V (bw_sort i)) (set (seen @ [?x]))"
      using d by (intro browse_decides) (simp only: distinct_map)
    note best = keep_title_best[OF Cons.prems(2) new n ds dec2]
    have "distinct (map (\<lambda>x. m_id (br_meta x)) (seen @ [?x]) @ map it_id rs)" using Cons.prems(3) by auto
    from Cons.IH[OF op best this] True t show ?thesis
      by (simp only: browse_rows_step[OF dec]) (simp add: wanted_rows_def)
  qed
qed

section \<open>Batches\<close>

definition rest_rows :: "(item_row \<Rightarrow> bool) \<Rightarrow> string \<Rightarrow> (browse_key \<times> string) option \<Rightarrow> db \<Rightarrow> item_row list" where
  "rest_rows p order pos d = sort_key (row_rank order) (filter (\<lambda>r. p r \<and> row_after order pos r) (items d))"

lemma listBrowseRows_rest: "listBrowseRows p order pos n d = take n (rest_rows p order pos d)"
  by (simp add: listBrowseRows_def rest_rows_def)

lemma rest_rows_mem: "r \<in> set (rest_rows p order pos d) \<Longrightarrow> r \<in> set (items d) \<and> p r \<and> row_after order pos r"
  by (simp add: rest_rows_def)

lemma row_after_rank: "row_after order (Some (row_pos order r)) x \<longleftrightarrow> row_rank order r < row_rank order x"
  by (auto simp: row_after_def row_pos_def row_rank_def Let_def)

lemma rest_rows_sorted:
  assumes "tables_ok d"
  shows "sorted_wrt (\<lambda>a b. row_rank order a < row_rank order b) (rest_rows p order pos d)"
proof -
  have "distinct (map it_id (items d))" using assms by (simp add: tables_ok_def)
  then have "distinct (map (row_rank order) (filter (\<lambda>r. p r \<and> row_after order pos r) (items d)))"
    by (auto simp: distinct_map row_rank_def inj_on_def)
  then have "distinct (map (row_rank order) (rest_rows p order pos d))" by (simp add: rest_rows_def distinct_map)
  moreover have "sorted (map (row_rank order) (rest_rows p order pos d))" by (simp add: rest_rows_def)
  ultimately have "sorted_wrt (<) (map (row_rank order) (rest_rows p order pos d))" by (simp add: strict_sorted_iff)
  then show ?thesis by (simp add: sorted_wrt_map)
qed

lemma rest_rows_next:
  assumes "tables_ok d" and k: "k < length (rest_rows p order pos d)"
  shows "rest_rows p order (Some (row_pos order (rest_rows p order pos d ! k))) d = drop (Suc k) (rest_rows p order pos d)"
proof -
  let ?R = "rest_rows p order pos d" and ?r = "rest_rows p order pos d ! k"
  have a: "row_after order pos ?r" using rest_rows_mem nth_mem[OF k] by blast
  have "rest_rows p order (Some (row_pos order ?r)) d = sort_key (row_rank order)
      (filter (row_after order (Some (row_pos order ?r))) (filter (\<lambda>r. p r \<and> row_after order pos r) (items d)))"
    using row_after_trans[OF a] unfolding rest_rows_def filter_filter by (metis (no_types, lifting))
  also have "\<dots> = filter (row_after order (Some (row_pos order ?r))) ?R" by (simp add: rest_rows_def filter_sort)
  also have "\<dots> = filter (\<lambda>x. row_rank order ?r < row_rank order x) ?R"
    by (rule filter_cong) (simp_all add: row_after_rank)
  also have "\<dots> = drop (Suc k) ?R"
    using filter_after[of "\<lambda>a b. row_rank order a < row_rank order b", OF _ rest_rows_sorted[OF assms(1)] k] by auto
  finally show ?thesis .
qed

lemma rest_rows_batch:
  assumes "tables_ok d" and "0 < n" and "rows = take n (rest_rows p order pos d)" and "rows \<noteq> []"
  shows "rows @ rest_rows p order (Some (row_pos order (last rows))) d = rest_rows p order pos d"
proof -
  let ?R = "rest_rows p order pos d"
  define k where "k = length rows - 1"
  have len: "length rows \<le> length ?R" "0 < length rows" "length rows \<le> n" using assms(3,4) by simp_all
  then have k: "k < length ?R" "Suc k = length rows" "k < n" unfolding k_def by linarith+
  have "last rows = rows ! k" using assms(4) by (simp add: last_conv_nth k_def)
  then have "last rows = ?R ! k" using k(3) assms(3) by simp
  with rest_rows_next[OF assms(1) k(1)] have "rest_rows p order (Some (row_pos order (last rows))) d = drop (length rows) ?R"
    using k(2) by simp
  moreover have "rows = take (length rows) ?R" using assms(3) by (metis append_eq_conv_conj append_take_drop_id)
  ultimately show ?thesis by (metis append_take_drop_id)
qed

lemma take_short: "length (take n xs) \<noteq> n \<Longrightarrow> take n xs = xs \<and> length xs < n"
  by (auto simp: min_def split: if_splits)

lemma browse_scan_prefix:
  assumes "\<not> title_order (bw_sort i)" and "0 < batch" and "tables_ok d" and "all_open V (items d)" and "length cands < limit"
  shows "browse_scan V i p after limit batch d pos cands =
     Inr (take limit (cands @ map (shown V) (filter (row_hits V i) (rest_rows p (bw_sort i) pos d))))"
  using assms
proof (induction V i p after limit batch d pos cands rule: browse_scan.induct)
  case (1 V i p after limit batch d pos cands)
  let ?rows = "listBrowseRows p (bw_sort i) pos batch d" and ?R = "rest_rows p (bw_sort i) pos d"
  let ?hits = "\<lambda>rs. map (shown V) (filter (row_hits V i) rs)"
  have rows: "?rows = take batch ?R" by (rule listBrowseRows_rest)
  have "all_open V ?rows"
    using "1.prems"(4) rest_rows_mem unfolding all_open_def rows by (meson in_set_takeD)
  from browse_rows_prefix[OF "1.prems"(1) this "1.prems"(5)]
  have br: "browse_rows V i after limit ?rows cands = Inr (take limit (cands @ ?hits ?rows))" .
  let ?c = "take limit (cands @ ?hits ?rows)"
  show ?case
  proof (cases "length ?c = limit \<or> length ?rows < batch \<or> ?rows = []")
    case True
    then have "browse_scan V i p after limit batch d pos cands = Inr ?c"
      using "1.prems"(1) br by (subst browse_scan.simps) (auto simp: Let_def)
    moreover have "?c = take limit (cands @ ?hits ?R)"
    proof (cases "length ?c = limit")
      case full: True
      have "?R = ?rows @ drop batch ?R" by (simp add: rows)
      then have "cands @ ?hits ?R = (cands @ ?hits ?rows) @ ?hits (drop batch ?R)" by (metis append_assoc filter_append map_append)
      moreover have "limit \<le> length (cands @ ?hits ?rows)" using full unfolding length_take by (metis min.cobounded1)
      ultimately show ?thesis by (simp only: take_append[of limit "cands @ ?hits ?rows"]) simp
    next
      case False
      with True "1.prems"(2) have "?rows = ?R" by (auto simp: rows)
      then show ?thesis by simp
    qed
    ultimately show ?thesis by simp
  next
    case False
    have more: "?rows @ rest_rows p (bw_sort i) (Some (row_pos (bw_sort i) (last ?rows))) d = ?R"
      using False by (intro rest_rows_batch[OF "1.prems"(3,2) rows]) blast
    have c: "?c = cands @ ?hits ?rows" "length ?c < limit" using take_short[of limit "cands @ ?hits ?rows"] False by metis+
    have step: "browse_scan V i p after limit batch d pos cands =
        browse_scan V i p after limit batch d (Some (row_pos (bw_sort i) (last ?rows))) ?c"
      using "1.prems"(1) br False by (subst browse_scan.simps) (simp add: Let_def row_pos_def)
    have "browse_scan V i p after limit batch d (Some (row_pos (bw_sort i) (last ?rows))) ?c =
        Inr (take limit (?c @ ?hits (rest_rows p (bw_sort i) (Some (row_pos (bw_sort i) (last ?rows))) d)))"
      using "1.IH"[OF refl _ _ br _ "1.prems"(1-4) c(2)] False "1.prems"(1) by (simp add: row_pos_def)
    also have "?c @ ?hits (rest_rows p (bw_sort i) (Some (row_pos (bw_sort i) (last ?rows))) d) = cands @ ?hits ?R"
      unfolding c(1) by (metis append_assoc filter_append map_append more)
    finally show ?thesis by (simp only: step)
  qed
qed

lemma distinct_inner: "distinct D \<Longrightarrow> distinct (A @ B @ C) \<Longrightarrow> set D \<subseteq> set B \<Longrightarrow> distinct (A @ D @ C)"
  by auto

lemma wanted_ids: "distinct (map it_id rows) \<Longrightarrow> distinct (map (\<lambda>x. m_id (br_meta x)) (wanted_rows V i after rows))"
  by (induction rows) (auto simp: wanted_rows_def)

lemma browse_scan_best:
  assumes "title_order (bw_sort i)" and "0 < batch" and "0 < limit" and "tables_ok d" and "all_open V (items d)"
    and "best_of V (bw_sort i) limit seen cands"
    and "distinct (map (\<lambda>x. m_id (br_meta x)) seen @ map it_id (rest_rows p ''updated_desc'' pos d))"
  shows "\<exists>cands'. browse_scan V i p after limit batch d pos cands = Inr cands' \<and>
     best_of V (bw_sort i) limit (seen @ wanted_rows V i after (rest_rows p ''updated_desc'' pos d)) cands'"
  using assms
proof (induction V i p after limit batch d pos cands arbitrary: seen rule: browse_scan.induct)
  case (1 V i p after limit batch d pos cands)
  let ?o = "''updated_desc''"
  let ?rows = "listBrowseRows p ?o pos batch d" and ?R = "rest_rows p ?o pos d"
  have rows: "?rows = take batch ?R" by (rule listBrowseRows_rest)
  have op: "all_open V ?rows"
    using "1.prems"(5) rest_rows_mem unfolding all_open_def rows by (meson in_set_takeD)
  have split: "?R = ?rows @ drop batch ?R" by (simp add: rows)
  have dist: "distinct (map (\<lambda>x. m_id (br_meta x)) seen @ map it_id ?rows @ map it_id (drop batch ?R))"
    using "1.prems"(7) split by (metis map_append)
  then have "distinct (map (\<lambda>x. m_id (br_meta x)) seen @ map it_id ?rows)" by (metis append_assoc distinct_append)
  from browse_rows_best[OF "1.prems"(1,3) op "1.prems"(6) this] obtain c where
    br: "browse_rows V i after limit ?rows cands = Inr c"
    and best: "best_of V (bw_sort i) limit (seen @ wanted_rows V i after ?rows) c" by blast
  show ?case
  proof (cases "length ?rows < batch \<or> ?rows = []")
    case True
    with "1.prems"(2) have "?rows = ?R" by (auto simp: rows)
    moreover have "browse_scan V i p after limit batch d pos cands = Inr c"
      using True "1.prems"(1) br by (subst browse_scan.simps) (auto simp: Let_def)
    ultimately show ?thesis using best by simp
  next
    case False
    let ?pos = "Some (row_pos ?o (last ?rows))"
    have more: "?rows @ rest_rows p ?o ?pos d = ?R"
      using False by (intro rest_rows_batch[OF "1.prems"(4,2) rows]) blast
    have w: "wanted_rows V i after ?R = wanted_rows V i after ?rows @ wanted_rows V i after (rest_rows p ?o ?pos d)"
      unfolding wanted_rows_def by (metis filter_append map_append more)
    have sub: "set (map (\<lambda>x. m_id (br_meta x)) (wanted_rows V i after ?rows)) \<subseteq> set (map it_id ?rows)"
      by (auto simp: wanted_rows_def)
    have "distinct (map (\<lambda>x. m_id (br_meta x)) (wanted_rows V i after ?rows))"
      using dist by (intro wanted_ids) simp
    moreover have "distinct (map (\<lambda>x. m_id (br_meta x)) seen @ map it_id ?rows @ map it_id (rest_rows p ?o ?pos d))"
      unfolding map_append[symmetric] more by (rule "1.prems"(7))
    ultimately have "distinct (map (\<lambda>x. m_id (br_meta x)) seen @ map (\<lambda>x. m_id (br_meta x)) (wanted_rows V i after ?rows) @
        map it_id (rest_rows p ?o ?pos d))"
      by (rule distinct_inner[OF _ _ sub])
    then have next_distinct: "distinct (map (\<lambda>x. m_id (br_meta x)) (seen @ wanted_rows V i after ?rows) @
        map it_id (rest_rows p ?o ?pos d))"
      by (simp only: map_append append_assoc)
    have step: "browse_scan V i p after limit batch d pos cands = browse_scan V i p after limit batch d ?pos c"
      using "1.prems"(1) br False by (subst browse_scan.simps) (simp add: Let_def row_pos_def)
    have "\<exists>cands'. browse_scan V i p after limit batch d ?pos c = Inr cands' \<and> best_of V (bw_sort i) limit
        ((seen @ wanted_rows V i after ?rows) @ wanted_rows V i after (rest_rows p ?o ?pos d)) cands'"
      using "1.IH"[OF refl _ _ br _ "1.prems"(1-5) best] next_distinct False "1.prems"(1) by (simp add: row_pos_def)
    then show ?thesis by (simp add: step w)
  qed
qed

section \<open>The pages\<close>

text \<open>The definition of a page by sorting: all readable matches, sorted, after the cursor.\<close>

definition all_matches :: "venv \<Rightarrow> string \<Rightarrow> browse_input \<Rightarrow> db \<Rightarrow> browse_item list" where
  "all_matches V uid i d = map (shown V) (filter (\<lambda>r. browse_where uid i r \<and> row_hits V i r) (items d))"

definition sorted_matches :: "venv \<Rightarrow> string \<Rightarrow> browse_input \<Rightarrow> (browse_key \<times> string) option \<Rightarrow> db \<Rightarrow> browse_item list" where
  "sorted_matches V uid i after d =
    filter (shown_after V i after) (sort_by (browse_before V (bw_sort i)) (all_matches V uid i d))"

definition named :: "db \<Rightarrow> browse_item \<Rightarrow> browse_item" where
  "named d x = x\<lparr>br_meta := hd (attachCreatorNames d [br_meta x])\<rparr>"

lemma named_all: "map2 (\<lambda>x m. x\<lparr>br_meta := m\<rparr>) xs (attachCreatorNames d (map br_meta xs)) = map (named d) xs"
  by (induction xs) (simp_all add: attachCreatorNames_def named_def)

lemma all_matches_ids:
  assumes "tables_ok d"
  shows "distinct (map (\<lambda>x. m_id (br_meta x)) (all_matches V uid i d))"
proof -
  have "distinct (map it_id (items d))" using assms by (simp add: tables_ok_def)
  then show ?thesis by (simp add: all_matches_def o_def distinct_map_filter)
qed

lemma ids_decide:
  assumes "distinct (map (\<lambda>x. m_id (br_meta x)) xs)"
  shows "distinct xs \<and> decides (browse_before V order) (set xs)"
  using assms browse_decides[of "set xs" V order] by (simp add: distinct_map)

lemma time_key:
  assumes "\<not> title_order order"
  shows "browse_pos V order (shown V r) = row_pos order r"
    and "browseLess order (k, a) (l, b) \<longleftrightarrow> (if k = l then a < b else if order = ''updated_asc'' then k < l else l < k)"
  using assms by (simp_all add: browse_pos_def BrowseKey_def row_pos_def row_column_def browseLess_def title_order_def)

lemma browse_before_rank:
  assumes "\<not> title_order order"
  shows "browse_before V order (shown V a) (shown V b) \<longleftrightarrow> row_rank order a < row_rank order b"
  unfolding browse_before_def time_key(1)[OF assms] unfolding row_pos_def time_key(2)[OF assms] row_rank_def by auto

lemma shown_after_row:
  assumes "\<not> title_order (bw_sort i)"
  shows "shown_after V i after (shown V r) \<longleftrightarrow> row_after (bw_sort i) after r"
proof (cases after)
  case (Some pos)
  obtain k a where pos: "pos = (k, a)" by fastforce
  show ?thesis
    unfolding shown_after_def row_after_def Some option.case pos time_key(1)[OF assms] prod.case Let_def
    unfolding row_pos_def time_key(2)[OF assms] by auto
qed (simp add: shown_after_def row_after_def)

lemma sorted_matches_time:
  assumes "tables_ok d" and t: "\<not> title_order (bw_sort i)"
  shows "map (shown V) (filter (row_hits V i) (rest_rows (browse_where uid i) (bw_sort i) after d)) = sorted_matches V uid i after d"
proof -
  let ?lt = "browse_before V (bw_sort i)" and ?all = "filter (shown_after V i after) (all_matches V uid i d)"
  let ?R = "map (shown V) (filter (row_hits V i) (rest_rows (browse_where uid i) (bw_sort i) after d))"
  note dd = ids_decide[OF all_matches_ids[OF assms(1)]]
  have "sorted_wrt ?lt ?R"
    using sorted_wrt_filter[OF rest_rows_sorted[OF assms(1)]] by (simp add: sorted_wrt_map browse_before_rank[OF t])
  moreover have "set ?R = set ?all" using t by (auto simp: rest_rows_def all_matches_def shown_after_row)
  moreover have "decides ?lt (set ?all)" by (rule decides_subset[of _ "set (all_matches V uid i d)"]) (use dd in auto)
  ultimately have "sort_by ?lt ?all = ?R" using dd by (intro sort_by_unique) auto
  then show ?thesis using filter_sort_by[of "all_matches V uid i d" ?lt] dd by (simp add: sorted_matches_def)
qed

lemma sorted_matches_title:
  assumes "tables_ok d" and t: "title_order (bw_sort i)"
    and best: "best_of V (bw_sort i) n (wanted_rows V i after (rest_rows (browse_where uid i) ''updated_desc'' None d)) cands"
  shows "sort_by (browse_before V (bw_sort i)) cands = take n (sorted_matches V uid i after d)"
proof -
  let ?lt = "browse_before V (bw_sort i)" and ?seen = "wanted_rows V i after (rest_rows (browse_where uid i) ''updated_desc'' None d)"
  let ?S = "sorted_matches V uid i after d"
  note dd = ids_decide[OF all_matches_ids[OF assms(1)]]
  have "mset (rest_rows (browse_where uid i) ''updated_desc'' None d) = mset (filter (browse_where uid i) (items d))"
    by (simp add: rest_rows_def row_after_def)
  then have M: "mset ?seen = mset (filter (shown_after V i after) (all_matches V uid i d))"
    unfolding wanted_rows_def all_matches_def
    by (simp add: mset_filter multiset.map_comp filter_filter_mset conj_commute)
  then have seen: "set ?seen = set ?S" "length ?seen = length (filter (shown_after V i after) (all_matches V uid i d))"
    using mset_eq_setD[OF M] mset_eq_length[OF M] by (simp_all add: sorted_matches_def)
  have S: "?S = sort_by ?lt (filter (shown_after V i after) (all_matches V uid i d))"
    using filter_sort_by[of "all_matches V uid i d" ?lt] dd by (simp add: sorted_matches_def)
  have sorted: "sorted_wrt ?lt ?S" unfolding sorted_matches_def using dd by (intro sorted_wrt_filter sorted_sort_by) simp_all
  have distinct: "distinct ?S"
    unfolding S using dd by (metis distinct_filter sort_by_distinct)
  have "length ?seen = length ?S" using seen(2) by (simp only: S length_sort_by)
  then have b: "distinct cands" "set cands \<subseteq> set ?S" "length cands = min n (length ?S)"
    and ball: "\<forall>c \<in> set cands. \<forall>y \<in> set ?S - set cands. ?lt c y"
    using best unfolding best_of_def seen(1) by simp_all
  have "set cands = set (take n ?S)"
    by (rule take_sorted_best[OF sorted distinct b(2) _ _ browse_before_asym]) (use b(1,3) ball in \<open>simp_all add: distinct_card\<close>)
  moreover have "decides ?lt (set cands)"
  proof (rule decides_subset[OF conjunct2[OF dd]])
    show "set cands \<subseteq> set (all_matches V uid i d)" using b(2) unfolding S set_sort_by by auto
  qed
  ultimately show ?thesis using sort_by_unique[OF _ b(1) sorted_wrt_take[OF sorted]] by simp
qed

lemma browseWhere_Inr: "browseWhere (Some a) i = Inr p \<Longrightarrow> p = browse_where (p_user a) i"
  by (auto simp: browseWhere_def split: if_splits)

lemma sorted_matches_next:
  assumes "tables_ok d" and k: "k < length (sorted_matches V uid i after d)"
  shows "sorted_matches V uid i (Some (browse_pos V (bw_sort i) (sorted_matches V uid i after d ! k))) d =
     drop (Suc k) (sorted_matches V uid i after d)"
proof -
  let ?lt = "browse_before V (bw_sort i)" and ?S = "sorted_matches V uid i after d"
  define x where "x = ?S ! k"
  note dd = ids_decide[OF all_matches_ids[OF assms(1)]]
  have sorted: "sorted_wrt ?lt ?S" unfolding sorted_matches_def using dd by (intro sorted_wrt_filter sorted_sort_by) simp_all
  have x: "shown_after V i after x" using nth_mem[OF k] by (simp add: sorted_matches_def x_def)
  have "shown_after V i (Some (browse_pos V (bw_sort i) x)) = (\<lambda>y. shown_after V i after y \<and> ?lt x y)"
  proof (rule ext, cases after)
    fix y pos
    assume "after = Some pos"
    with x browseLess_trans[of "bw_sort i" pos "browse_pos V (bw_sort i) x" "browse_pos V (bw_sort i) y"]
    show "shown_after V i (Some (browse_pos V (bw_sort i) x)) y = (shown_after V i after y \<and> ?lt x y)"
      by (auto simp: shown_after_def browse_before_def)
  qed (simp add: shown_after_def browse_before_def)
  then have "sorted_matches V uid i (Some (browse_pos V (bw_sort i) x)) d = filter (?lt x) ?S"
    by (simp add: sorted_matches_def conj_commute)
  also have "\<dots> = drop (Suc k) ?S" unfolding x_def by (rule filter_after[OF browse_before_asym sorted k])
  finally show ?thesis by (simp only: x_def)
qed

text \<open>C36: A browse page is the sorted list of all readable matches, cut to size.  For each of the five orders,
  every filter, query, tag, cursor and page size, \<open>Browse\<close> returns the first items after the cursor of
  the list that one gets by decrypting everything, filtering and sorting; each belongs to a live item
  that the policy lets the caller read; and the position of an item continues exactly behind it, so
  following the cursors shows every match once.  The batches in SQL and the bounded heap of the title
  orders do not show.\<close>

theorem browse_page_exact:
  assumes V: "venv_ok V" and inv: "vault_inv V d" and u: "p_user a \<noteq> ''''" and w: "browseWhere (Some a) i = Inr p" and n: "0 < limit"
  shows "Browse V (Some a) i after limit d =
       Inr (map (named d) (take (nat limit) (sorted_matches V (p_user a) i after d))) \<and>
     (\<forall>x \<in> set (sorted_matches V (p_user a) i after d). \<exists>r \<in> set (items d). x = shown V r \<and> it_deleted r = None \<and>
        CanReadItem (p_user a) (policyView r)) \<and>
     (\<forall>k < length (sorted_matches V (p_user a) i after d).
        sorted_matches V (p_user a) i (Some (browse_pos V (bw_sort i) (sorted_matches V (p_user a) i after d ! k))) d =
        drop (Suc k) (sorted_matches V (p_user a) i after d))"
proof -
  let ?S = "sorted_matches V (p_user a) i after d"
  have ok: "tables_ok d" and op: "all_open V (items d)"
    using inv vault_inv_open[OF V inv] by (auto simp: vault_inv_def)
  have p: "p = browse_where (p_user a) i" by (rule browseWhere_Inr[OF w])
  have lim: "0 < nat limit" using n by simp
  have page: "Browse V (Some a) i after limit d = Inr (map (named d) (take (nat limit) ?S))"
  proof (cases "title_order (bw_sort i)")
    case True
    have "distinct (map it_id (rest_rows p ''updated_desc'' None d))"
      using ok by (auto simp: rest_rows_def tables_ok_def distinct_map intro: inj_on_subset)
    moreover have "best_of V (bw_sort i) (nat limit) [] []" by (simp add: best_of_def heap_ok_def)
    ultimately obtain cands where "browse_scan V i p after (nat limit) browseBatchSize d None [] = Inr cands"
      and "best_of V (bw_sort i) (nat limit) ([] @ wanted_rows V i after (rest_rows p ''updated_desc'' None d)) cands"
      using browse_scan_best[OF True _ lim ok op, of browseBatchSize "[]" "[]" p None after]
      by (auto simp: browseBatchSize_def)
    with sorted_matches_title[OF ok True] p True w n show ?thesis by (simp add: Browse_def Let_def named_all)
  next
    case False
    have "browse_scan V i p after (nat limit) batch d after [] = Inr (take (nat limit) ?S)" if "0 < batch" for batch
      using browse_scan_prefix[OF False that ok op, of "[]" "nat limit" p after after] lim
        sorted_matches_time[OF ok False, of V "p_user a" after] p by simp
    with False w n show ?thesis by (simp add: Browse_def Let_def browseBatchSize_def named_all)
  qed
  have "\<exists>r \<in> set (items d). x = shown V r \<and> it_deleted r = None \<and> CanReadItem (p_user a) (policyView r)" if "x \<in> set ?S" for x
  proof -
    from that obtain r where r: "r \<in> set (items d)" "x = shown V r" "browse_where (p_user a) i r"
      by (auto simp: sorted_matches_def all_matches_def)
    with inv have "item_check r" "owned_view (policyView r)" by (auto simp: vault_inv_def tables_ok_def)
    with r own_or_shared_policy[of r "p_user a"] u show ?thesis by (auto simp: browse_where_def)
  qed
  with page sorted_matches_next[OF ok] show ?thesis by blast
qed

theorem browse_page_exact_witness:
  "\<exists>x. Browse sample_vault (Some (sample_principal ''u1'' ''admin''))
     \<lparr>bw_query = ''A'', bw_scope = '''', bw_type = TypeSecureNote, bw_tag = ''t'', bw_favorite = None, bw_sort = ''title_asc''\<rparr>
     None 5 sample_db1 = Inr [x] \<and> m_id (br_meta x) = ''item''"
proof -
  let ?i = "\<lparr>bw_query = ''A'', bw_scope = '''', bw_type = TypeSecureNote, bw_tag = ''t'', bw_favorite = None, bw_sort = ''title_asc''\<rparr>"
  have dec: "decryptRow sample_vault sample_item = Inr ([1], note1, env1)"
    using decryptRow_holds[OF sample_vault_ok sample_item_holds] content_samples by (simp add: env1_def)
  have A: "lower_char (CHR ''A'') = CHR ''a''" "lower_char (CHR ''a'') = CHR ''a''" by code_simp+
  have "matchQuery sample_vault ''A'' ''t'' note1 (sp_tags env1)"
    by (simp add: A matchQuery_def containsTag_def env1_def note1_def searchableText_def to_lower_def
        ascii_def newline_def)
  then have "row_hits sample_vault ?i sample_item" by (simp add: row_hits_def row_matches_def dec)
  moreover have "browse_where ''u1'' ?i sample_item" by (simp add: browse_where_def own_or_shared_def)
  ultimately have S: "sorted_matches sample_vault ''u1'' ?i None sample_db1 = [shown sample_vault sample_item]"
    by (simp add: sorted_matches_def all_matches_def sample_db1_def sort_by_def shown_after_def)
  have w: "browseWhere (Some (sample_principal ''u1'' ''admin'')) ?i = Inr (browse_where ''u1'' ?i)"
    by (simp add: browseWhere_def ItemTypes_def item_types_def browse_orders_def sample_principal_def)
  have "m_id (br_meta (named d x)) = m_id (br_meta x)" for d x
    by (simp add: named_def attachCreatorNames_def split: option.split)
  then show ?thesis
    using browse_page_exact[OF sample_vault_ok sample_db1_inv _ w, of 5 None] S by (simp add: sample_principal_def)
qed

section \<open>The tags in use\<close>

lemma row_tag_union_open: "all_open V rows \<Longrightarrow> row_tag_union V rows tags = Inr (tags @ concat (map (row_tags V) rows))"
proof (induction rows arbitrary: tags)
  case (Cons r rs)
  then obtain raw p env where "decryptRow V r = Inr (raw, p, env)" by (fastforce simp: all_open_def)
  with Cons show ?case by (simp add: all_open_def row_tags_def)
qed simp

lemma tag_scan_all:
  assumes "tables_ok d" and "all_open V (items d)"
  shows "tag_scan V p d pos tags = Inr (tags @ concat (map (row_tags V) (rest_rows p ''updated_desc'' pos d)))"
  using assms
proof (induction V p d pos tags rule: tag_scan.induct)
  case (1 V p d pos tags)
  let ?rows = "listBrowseRows p ''updated_desc'' pos browseBatchSize d" and ?R = "rest_rows p ''updated_desc'' pos d"
  have rows: "?rows = take browseBatchSize ?R" by (rule listBrowseRows_rest)
  have "all_open V ?rows"
    using "1.prems"(2) rest_rows_mem unfolding all_open_def rows by (meson in_set_takeD)
  note u = row_tag_union_open[OF this, of tags]
  show ?case
  proof (cases "length ?rows < browseBatchSize")
    case True
    then have "?rows = ?R" by (auto simp: rows)
    with True u show ?thesis by (subst tag_scan.simps) (simp add: Let_def)
  next
    case False
    then have ne: "?rows \<noteq> []" by (auto simp: browseBatchSize_def)
    let ?pos = "Some (row_pos ''updated_desc'' (last ?rows))"
    have "?rows @ rest_rows p ''updated_desc'' ?pos d = ?R"
      by (rule rest_rows_batch[OF "1.prems"(1) _ rows ne]) (simp add: browseBatchSize_def)
    then have "concat (map (row_tags V) ?R) = concat (map (row_tags V) ?rows) @ concat (map (row_tags V) (rest_rows p ''updated_desc'' ?pos d))"
      by (metis concat_append map_append)
    moreover have "tag_scan V p d pos tags = tag_scan V p d ?pos (tags @ concat (map (row_tags V) ?rows))"
      using False u by (subst tag_scan.simps) (simp add: Let_def row_pos_def row_column_def)
    ultimately show ?thesis
      using "1.IH"[OF refl u False "1.prems"] by (simp add: row_pos_def row_column_def)
  qed
qed

text \<open>The tag options are the tags of all items that the filters admit, each once, sorted.\<close>

theorem browse_tags_exact:
  assumes "venv_ok V" and "vault_inv V d" and "browseWhere (Some a) i = Inr p"
  shows "\<exists>tags. BrowseTags V (Some a) i d = Inr tags \<and> sorted tags \<and> distinct tags \<and>
     set tags = (\<Union>r \<in> {r \<in> set (items d). browse_where (p_user a) i r}. set (row_tags V r))"
proof -
  have "tables_ok d" "all_open V (items d)" using assms(2) vault_inv_open[OF assms(1,2)] by (auto simp: vault_inv_def)
  from tag_scan_all[OF this, of p None "[]"] assms(3) browseWhere_Inr[OF assms(3)] show ?thesis
    by (auto simp: BrowseTags_def rest_rows_def row_after_def)
qed

end
