(* ===== verification/Health.thy ===== *)
theory Health
  imports VaultReads
begin

text \<open>\<open>vault/health.go\<close>: the report on weak, reused and expired passwords of the readable login items.\<close>

section \<open>The report\<close>

record health_item =
  hi_id :: string
  hi_title :: string
  hi_reasons :: "string list"

record health_report =
  hr_weak :: nat
  hr_reused :: nat
  hr_expired :: nat
  hr_items :: "health_item list"

definition WeakPasswordRunes :: nat where "WeakPasswordRunes = 12"

definition reasonWeak :: string where "reasonWeak = ''weak''"
definition reasonReused :: string where "reasonReused = ''reused''"
definition reasonExpired :: string where "reasonExpired = ''expired''"

definition weakPassword :: "string \<Rightarrow> bool" where
  "weakPassword password \<longleftrightarrow> rune_count password < WeakPasswordRunes"

definition expiredPasswordDate :: "string option \<Rightarrow> string \<Rightarrow> bool" where
  "expiredPasswordDate expires today =
    (case expires of None \<Rightarrow> False | Some e \<Rightarrow> if e = '''' then False else e < today)"

definition health_where :: "string \<Rightarrow> item_row \<Rightarrow> bool" where
  "health_where uid r \<longleftrightarrow> it_deleted r = None \<and> it_type r = TypeLogin \<and> own_or_shared uid r"

text \<open>The first loop: the findings, and the owners of each password as pairs.\<close>

fun health_rows :: "venv \<Rightarrow> string \<Rightarrow> item_row list \<Rightarrow> vault_error + (health_item list \<times> (string \<times> string) list)" where
  "health_rows V today [] = Inr ([], [])"
| "health_rows V today (r # rs) =
    andthen (decryptRow V r) (\<lambda>(raw, p, env).
    andthen (health_rows V today rs) (\<lambda>(findings, owners).
    case p of
      Login l \<Rightarrow> Inr (\<lparr>hi_id = it_id r, hi_title = lp_name l,
          hi_reasons = (if weakPassword (lp_password l) then [reasonWeak] else []) @
            (if expiredPasswordDate (lp_expires_at l) today then [reasonExpired] else [])\<rparr> # findings,
        (if lp_password l \<noteq> '''' then [(lp_password l, it_id r)] else []) @ owners)
    | _ \<Rightarrow> Inr (findings, owners)))"

definition reused_ids :: "(string \<times> string) list \<Rightarrow> string list" where
  "reused_ids owners = map snd (filter (\<lambda>(pw, iid). 2 \<le> length (filter (\<lambda>(q, _). q = pw) owners)) owners)"

definition health_order :: "string list \<Rightarrow> string list" where
  "health_order reasons = filter (\<lambda>w. w \<in> set reasons) [reasonWeak, reasonReused, reasonExpired]"

definition health_finding :: "string list \<Rightarrow> health_item \<Rightarrow> health_item option" where
  "health_finding reused f =
    (let reasons = hi_reasons f @ (if hi_id f \<in> set reused then [reasonReused] else [])
     in if reasons = [] then None else Some (f\<lparr>hi_reasons := health_order reasons\<rparr>))"

definition reason_count :: "string \<Rightarrow> health_item list \<Rightarrow> nat" where
  "reason_count w xs = length (filter (\<lambda>x. w \<in> set (hi_reasons x)) xs)"

definition Health :: "venv \<Rightarrow> principal option \<Rightarrow> string \<Rightarrow> db \<Rightarrow> vault_error + health_report" where
  "Health V actor today d =
    andthen (from_option ErrForbidden actor) (\<lambda>a.
    andthen (health_rows V today (listRows (health_where (p_user a)) None 0 d)) (\<lambda>(findings, owners).
    let found = List.map_filter (health_finding (reused_ids owners)) findings
    in Inr \<lparr>hr_weak = reason_count reasonWeak found, hr_reused = reason_count reasonReused found,
        hr_expired = reason_count reasonExpired found, hr_items = found\<rparr>))"

section \<open>Against the definition of each reason\<close>

definition row_login :: "venv \<Rightarrow> item_row \<Rightarrow> login_payload option" where
  "row_login V r = (case decryptRow V r of Inr (raw, Login l, env) \<Rightarrow> Some l | _ \<Rightarrow> None)"

definition row_password :: "venv \<Rightarrow> item_row \<Rightarrow> string" where
  "row_password V r = (case row_login V r of None \<Rightarrow> '''' | Some l \<Rightarrow> lp_password l)"

definition row_reason :: "venv \<Rightarrow> string \<Rightarrow> item_row list \<Rightarrow> item_row \<Rightarrow> string \<Rightarrow> bool" where
  "row_reason V today rows r w \<longleftrightarrow>
     w = reasonWeak \<and> rune_count (row_password V r) < 12 \<or>
     w = reasonReused \<and> row_password V r \<noteq> '''' \<and> (\<exists>s \<in> set rows. it_id s \<noteq> it_id r \<and> row_password V s = row_password V r) \<or>
     w = reasonExpired \<and> expiredPasswordDate (case row_login V r of None \<Rightarrow> None | Some l \<Rightarrow> lp_expires_at l) today"

definition row_reasons :: "venv \<Rightarrow> string \<Rightarrow> item_row list \<Rightarrow> item_row \<Rightarrow> string list" where
  "row_reasons V today rows r = filter (row_reason V today rows r) [reasonWeak, reasonReused, reasonExpired]"

definition health_row :: "venv \<Rightarrow> string \<Rightarrow> item_row list \<Rightarrow> item_row \<Rightarrow> health_item" where
  "health_row V today rows r = \<lparr>hi_id = it_id r, hi_title = (case row_login V r of None \<Rightarrow> '''' | Some l \<Rightarrow> lp_name l),
     hi_reasons = row_reasons V today rows r\<rparr>"

definition all_logins :: "venv \<Rightarrow> item_row list \<Rightarrow> bool" where
  "all_logins V rows \<longleftrightarrow> (\<forall>r \<in> set rows. \<exists>raw l env. decryptRow V r = Inr (raw, Login l, env))"

lemmas reason_names = reasonWeak_def reasonReused_def reasonExpired_def

definition own_reasons :: "venv \<Rightarrow> string \<Rightarrow> item_row \<Rightarrow> health_item" where
  "own_reasons V today r = (health_row V today [] r)\<lparr>hi_reasons := filter (row_reason V today [] r) [reasonWeak, reasonExpired]\<rparr>"

lemma health_rows_logins:
  "all_logins V rows \<Longrightarrow> health_rows V today rows = Inr (map (own_reasons V today) rows,
     map (\<lambda>r. (row_password V r, it_id r)) (filter (\<lambda>r. row_password V r \<noteq> '''') rows))"
proof (induction rows)
  case (Cons r rs)
  then obtain raw l env where dec: "decryptRow V r = Inr (raw, Login l, env)" by (fastforce simp: all_logins_def)
  then have l: "row_login V r = Some l" by (simp add: row_login_def)
  have "own_reasons V today r = \<lparr>hi_id = it_id r, hi_title = lp_name l,
          hi_reasons = (if weakPassword (lp_password l) then [reasonWeak] else []) @
            (if expiredPasswordDate (lp_expires_at l) today then [reasonExpired] else [])\<rparr>"
    by (simp add: own_reasons_def health_row_def l row_reason_def row_password_def weakPassword_def WeakPasswordRunes_def reason_names)
  with Cons dec l show ?case by (simp add: all_logins_def row_password_def)
qed simp

lemma two_in_filter:
  assumes "distinct (map f xs)" and "x \<in> set xs" and "P x"
  shows "2 \<le> length (filter P xs) \<longleftrightarrow> (\<exists>y \<in> set xs. f y \<noteq> f x \<and> P y)"
proof -
  have d: "distinct (filter P xs)" using assms(1) by (simp add: distinct_map)
  then have c: "length (filter P xs) = card {y \<in> set xs. P y}" by (metis distinct_card set_filter)
  have inj: "y = x \<longleftrightarrow> f y = f x" if "y \<in> set xs" for y using assms(1,2) that by (auto simp: distinct_map inj_on_def)
  show ?thesis
  proof
    assume "2 \<le> length (filter P xs)"
    then have "{y \<in> set xs. P y} \<noteq> {x}" using c by auto
    with assms(2,3) inj show "\<exists>y \<in> set xs. f y \<noteq> f x \<and> P y" by auto
  next
    assume "\<exists>y \<in> set xs. f y \<noteq> f x \<and> P y"
    then obtain y where "y \<in> set xs" "y \<noteq> x" "P y" by auto
    then have "{x, y} \<subseteq> {y \<in> set xs. P y}" "card {x, y} = 2" using assms(2,3) by auto
    then show "2 \<le> length (filter P xs)" using card_mono[of "{y \<in> set xs. P y}" "{x, y}"] by (simp add: c)
  qed
qed

lemma reused_exact:
  assumes "distinct (map it_id rows)" and r: "r \<in> set rows"
  shows "it_id r \<in> set (reused_ids (map (\<lambda>r. (row_password V r, it_id r)) (filter (\<lambda>r. row_password V r \<noteq> '''') rows))) \<longleftrightarrow>
     row_reason V today rows r reasonReused"
proof -
  let ?own = "map (\<lambda>r. (row_password V r, it_id r)) (filter (\<lambda>r. row_password V r \<noteq> '''') rows)"
  have id: "s = r" if "it_id r = it_id s" "s \<in> set rows" for s
    using assms that by (auto simp: distinct_map inj_on_def)
  have len: "length (filter (\<lambda>(q, _). q = row_password V r) ?own) = length (filter (\<lambda>s. row_password V s = row_password V r) rows)"
    if "row_password V r \<noteq> ''''"
    using that by (simp add: filter_map o_def conj_commute) (metis (mono_tags, lifting) filter_cong)
  have "it_id r \<in> set (reused_ids ?own) \<longleftrightarrow>
      row_password V r \<noteq> '''' \<and> 2 \<le> length (filter (\<lambda>(q, _). q = row_password V r) ?own)"
    using r by (auto simp: reused_ids_def image_iff dest: id)
  also have "\<dots> \<longleftrightarrow> row_password V r \<noteq> '''' \<and> (\<exists>s \<in> set rows. it_id s \<noteq> it_id r \<and> row_password V s = row_password V r)"
    using len two_in_filter[OF assms, of "\<lambda>s. row_password V s = row_password V r"] by auto
  finally show ?thesis by (simp add: row_reason_def reason_names)
qed

lemma health_finding_exact:
  assumes "distinct (map it_id rows)" and r: "r \<in> set rows"
  shows "health_finding (reused_ids (map (\<lambda>r. (row_password V r, it_id r)) (filter (\<lambda>r. row_password V r \<noteq> '''') rows)))
     (own_reasons V today r) = (if row_reasons V today rows r = [] then None else Some (health_row V today rows r))"
proof -
  let ?reused = "reused_ids (map (\<lambda>r. (row_password V r, it_id r)) (filter (\<lambda>r. row_password V r \<noteq> '''') rows))"
  have own: "row_reason V today [] r reasonWeak = row_reason V today rows r reasonWeak"
    "row_reason V today [] r reasonExpired = row_reason V today rows r reasonExpired"
    by (auto simp: row_reason_def reason_names)
  have mem: "it_id r \<in> set ?reused \<longleftrightarrow> row_reason V today rows r reasonReused"
    using reused_exact[OF assms, of V today] by simp
  have ne: "reasonWeak \<noteq> reasonReused" "reasonWeak \<noteq> reasonExpired" "reasonReused \<noteq> reasonExpired"
    by (simp_all add: reason_names)
  have o: "own_reasons V today r = (health_row V today rows r)\<lparr>hi_reasons := filter (row_reason V today rows r) [reasonWeak, reasonExpired]\<rparr>"
    by (simp add: own_reasons_def health_row_def own)
  show ?thesis
    unfolding o health_finding_def row_reasons_def health_order_def health_row_def Let_def
    using ne by (cases "row_reason V today rows r reasonWeak"; cases "row_reason V today rows r reasonReused";
      cases "row_reason V today rows r reasonExpired") (simp_all add: mem ne ne[symmetric])
qed

definition readable_logins :: "string \<Rightarrow> db \<Rightarrow> item_row list" where
  "readable_logins uid d = filter (\<lambda>r. it_deleted r = None \<and> it_type r = TypeLogin \<and> CanReadItem uid (policyView r))
     (newest_first item_pos (items d))"

lemma Login_type: "payload_type p = TypeLogin \<Longrightarrow> \<exists>l. p = Login l"
  by (cases p) auto

text \<open>C37: The health report says exactly what is wrong.  It lists, newest first, the live login items that the
  policy lets the caller read and that have a reason, each with its reasons in the fixed order:
  weak for fewer than twelve code points, reused when another of these items has the same non-empty
  password, expired when the expiry date is before today; the three totals count the listed items.\<close>

theorem health_exact:
  assumes V: "venv_ok V" and inv: "vault_inv V d" and u: "p_user a \<noteq> ''''"
  shows "\<exists>rep. Health V (Some a) today d = Inr rep \<and>
     hr_items rep = map (health_row V today (readable_logins (p_user a) d))
       (filter (\<lambda>r. row_reasons V today (readable_logins (p_user a) d) r \<noteq> []) (readable_logins (p_user a) d)) \<and>
     hr_weak rep = reason_count reasonWeak (hr_items rep) \<and> hr_reused rep = reason_count reasonReused (hr_items rep) \<and>
     hr_expired rep = reason_count reasonExpired (hr_items rep)"
proof -
  let ?rows = "listRows (health_where (p_user a)) None 0 d"
  have pol: "health_where (p_user a) r \<longleftrightarrow> it_deleted r = None \<and> it_type r = TypeLogin \<and> CanReadItem (p_user a) (policyView r)"
    if "r \<in> set (items d)" for r
    using that inv own_or_shared_policy[OF _ _ u] by (auto simp: health_where_def vault_inv_def tables_ok_def)
  have rows: "?rows = readable_logins (p_user a) d"
    unfolding listRows_all candidates_def readable_logins_def by (intro filter_cong) (auto simp: pol)
  have login: "\<exists>raw l env. decryptRow V r = Inr (raw, Login l, env)" if "r \<in> set ?rows" for r
  proof -
    from that have r: "r \<in> set (items d)" "it_type r = TypeLogin" by (auto simp: rows readable_logins_def)
    with inv obtain tags p where h: "row_holds V r tags p" by (auto simp: vault_inv_def)
    with r(2) obtain l where "p = Login l" using Login_type by (auto simp: row_holds_def)
    with decryptRow_holds[OF V h] show ?thesis by blast
  qed
  then have hr: "health_rows V today ?rows = Inr (map (own_reasons V today) ?rows,
      map (\<lambda>r. (row_password V r, it_id r)) (filter (\<lambda>r. row_password V r \<noteq> '''') ?rows))"
    by (intro health_rows_logins) (simp add: all_logins_def)
  have "distinct (map it_id (newest_first item_pos (items d)))"
    using inv by (simp add: newest_first_def rev_map[symmetric] distinct_map vault_inv_def tables_ok_def)
  then have dist: "distinct (map it_id ?rows)" by (simp add: rows readable_logins_def distinct_map_filter)
  have "List.map_filter (health_finding (reused_ids (map (\<lambda>r. (row_password V r, it_id r)) (filter (\<lambda>r. row_password V r \<noteq> '''') ?rows))))
      (map (own_reasons V today) xs) = map (health_row V today ?rows) (filter (\<lambda>r. row_reasons V today ?rows r \<noteq> []) xs)"
    if "set xs \<subseteq> set ?rows" for xs
    using that by (induction xs) (simp_all add: List.map_filter_simps health_finding_exact[OF dist])
  from this[of ?rows] hr show ?thesis by (simp add: Health_def Let_def rows)
qed

section \<open>A vault with a reused password\<close>

definition login_sample :: payload where
  "login_sample = Login \<lparr>lp_name = ''L'', lp_username = '''', lp_password = ''pw'', lp_urls = [], lp_notes = '''',
     lp_updated_at = None, lp_expires_at = Some ''2024-01-01''\<rparr>"

definition login_row :: "string \<Rightarrow> item_row" where
  "login_row iid = sealed_item sample_vault 0 iid ScopePersonal (sample_principal ''u1'' ''admin'')
     TypeLogin False (content sample_vault [] login_sample)"

definition logins_db :: db where
  "logins_db = sample_db\<lparr>items := [login_row ''i1'', login_row ''i2'']\<rparr>"

lemma login_row_simps [simp]:
  "it_id (login_row i) = i" "it_scope (login_row i) = ScopePersonal" "it_rev (login_row i) = 1"
  "it_owner (login_row i) = Some ''u1''" "it_creator (login_row i) = None"
  "it_type (login_row i) = TypeLogin" "it_deleted (login_row i) = None"
  "it_pver (login_row i) = PayloadVersion" "it_updated (login_row i) = 7"
  by (simp_all add: login_row_def sealed_item_def Let_def owner_for_def creator_for_def nullable_def
      sample_principal_def sample_vault_def Encrypt_def)

lemma login_row_holds: "row_holds sample_vault (login_row i) [] login_sample"
proof -
  have "wire_ok [] login_sample" by code_simp
  from sealed_item_holds[OF sample_vault_ok this] show ?thesis by (simp add: login_row_def login_sample_def)
qed

lemma logins_db_inv: "vault_inv sample_vault logins_db"
proof -
  have o: "owned_view (policyView (login_row i))" for i by (simp add: owned_view_def null_string_def)
  have "insertItem (login_row ''i1'') sample_db = Inr (sample_db\<lparr>items := [login_row ''i1'']\<rparr>)"
    by (simp add: insertItem_def insert_item_row_def item_check_def item_refs_def sample_db_def
        empty_db_def sql_insert_def sample_user_def item_types_def)
  from vault_inv_insert[OF sample_db_inv this o _ login_row_holds]
  have "vault_inv sample_vault (sample_db\<lparr>items := [login_row ''i1'']\<rparr>)" by simp
  moreover have "insertItem (login_row ''i2'') (sample_db\<lparr>items := [login_row ''i1'']\<rparr>) = Inr logins_db"
    by (simp add: insertItem_def insert_item_row_def item_check_def item_refs_def sample_db_def
        empty_db_def sql_insert_def sample_user_def item_types_def logins_db_def)
  ultimately show ?thesis using vault_inv_insert[OF _ _ o _ login_row_holds] by simp
qed

theorem health_exact_witness:
  "\<exists>rep. Health sample_vault (Some (sample_principal ''u1'' ''admin'')) ''2024-06-01'' logins_db = Inr rep \<and>
     map hi_reasons (hr_items rep) = [[''weak'', ''reused'', ''expired''], [''weak'', ''reused'', ''expired'']] \<and>
     hr_weak rep = 2 \<and> hr_reused rep = 2 \<and> hr_expired rep = 2"
proof -
  have l: "row_login sample_vault (login_row i) = Some \<lparr>lp_name = ''L'', lp_username = '''', lp_password = ''pw'', lp_urls = [],
      lp_notes = '''', lp_updated_at = None, lp_expires_at = Some ''2024-01-01''\<rparr>" for i
    using decryptRow_holds[OF sample_vault_ok login_row_holds] by (simp add: row_login_def login_sample_def)
  have lt: "(''2024-01-01'' :: string) < ''2024-06-01''" by code_simp
  have "(''i1'' :: string) \<le> ''i2''" "\<not> (''i2'' :: string) \<le> ''i1''" by code_simp+
  then have pos: "item_pos (login_row ''i1'') \<le> item_pos (login_row ''i2'')" "\<not> item_pos (login_row ''i2'') \<le> item_pos (login_row ''i1'')"
    by (simp_all add: item_pos_def)
  let ?R = "readable_logins ''u1'' logins_db"
  have R: "?R = [login_row ''i2'', login_row ''i1'']"
    by (simp add: readable_logins_def logins_db_def newest_first_def CanReadItem_def policyView_def policyItem_def null_string_def pos)
  have pw: "row_password sample_vault (login_row i) = ''pw''" for i by (simp add: row_password_def l)
  have weak: "rune_count ''pw'' < 12" by code_simp
  have re: "row_reason sample_vault ''2024-06-01'' ?R (login_row i) w" if "i = ''i1'' \<or> i = ''i2''" "w \<in> {reasonWeak, reasonReused, reasonExpired}" for i w
    using that lt unfolding row_reason_def R
    by (elim insertE disjE emptyE) (simp_all add: pw l expiredPasswordDate_def weak)
  have rr: "row_reasons sample_vault ''2024-06-01'' ?R (login_row ''i1'') = [reasonWeak, reasonReused, reasonExpired]"
    "row_reasons sample_vault ''2024-06-01'' ?R (login_row ''i2'') = [reasonWeak, reasonReused, reasonExpired]"
    by (simp_all add: row_reasons_def re)
  have u: "p_user (sample_principal ''u1'' ''admin'') = ''u1''" by (simp add: sample_principal_def)
  then have ne: "p_user (sample_principal ''u1'' ''admin'') \<noteq> ''''" by simp
  obtain rep where rep: "Health sample_vault (Some (sample_principal ''u1'' ''admin'')) ''2024-06-01'' logins_db = Inr rep"
    "hr_items rep = map (health_row sample_vault ''2024-06-01'' ?R) (filter (\<lambda>r. row_reasons sample_vault ''2024-06-01'' ?R r \<noteq> []) ?R)"
    "hr_weak rep = reason_count reasonWeak (hr_items rep)" "hr_reused rep = reason_count reasonReused (hr_items rep)"
    "hr_expired rep = reason_count reasonExpired (hr_items rep)"
    using health_exact[OF sample_vault_ok logins_db_inv ne, of "''2024-06-01''", unfolded u] by blast
  have "filter (\<lambda>r. row_reasons sample_vault ''2024-06-01'' ?R r \<noteq> []) ?R = [login_row ''i2'', login_row ''i1'']"
    using rr by (subst (2) R) simp
  with rep(2) rr have "map hi_reasons (hr_items rep) = [[reasonWeak, reasonReused, reasonExpired], [reasonWeak, reasonReused, reasonExpired]]"
    by (simp add: health_row_def)
  moreover have "reason_count w (hr_items rep) = length (filter (\<lambda>ws. w \<in> set ws) (map hi_reasons (hr_items rep)))" for w
    by (simp add: reason_count_def filter_map o_def)
  ultimately show ?thesis using rep by (simp add: reason_names)
qed

end
