(* ===== verification/Generators.thy ===== *)
theory Generators
  imports GoText GoSort
begin

text \<open>
  \<open>generator/password.go\<close>, \<open>generator/passphrase.go\<close> and the options of \<open>httpapi/generators.go\<close>: random
  passwords and passphrases.  The random source is a parameter: the answers to the successive requests for an
  integer below a bound and for two bytes.  The passphrase rejects draws, so it may not return: its
  functions are partial.
\<close>

section \<open>The random source\<close>

record gen_source =
  gs_int :: "nat \<Rightarrow> nat \<Rightarrow> nat option"
  gs_bytes :: "nat \<Rightarrow> (8 word \<times> 8 word) option"

text \<open>\<open>rand.Int\<close> is documented to answer in \<open>[0, max)\<close>; a working source always answers.\<close>

definition source_works :: "gen_source \<Rightarrow> bool" where
  "source_works S \<longleftrightarrow> (\<forall>k m. 0 < m \<longrightarrow> (\<exists>n < m. gs_int S k m = Some n))"

datatype gen_error = LengthRange | NoClass | TooManyClasses | RandUnavailable | RandPanic | WordsRange | SeparatorLong | EmptyWord

section \<open>Passwords\<close>

definition ambiguous :: string where "ambiguous = ''0O1lI|''"
definition lowerClass :: string where "lowerClass = ''abcdefghijklmnopqrstuvwxyz''"
definition upperClass :: string where "upperClass = ''ABCDEFGHIJKLMNOPQRSTUVWXYZ''"
definition digitClass :: string where "digitClass = ''0123456789''"
definition symbolClass :: string where "symbolClass = ''!@#$%^&*()-_=+[]{};:,.?/''"

record password_options =
  po_length :: int
  po_lowercase :: bool
  po_uppercase :: bool
  po_digits :: bool
  po_symbols :: bool
  po_exclude :: bool

definition DefaultPasswordOptions :: password_options where
  "DefaultPasswordOptions = \<lparr>po_length = 20, po_lowercase = True, po_uppercase = True, po_digits = True,
     po_symbols = True, po_exclude = False\<rparr>"

definition removeAmbiguous :: "string \<Rightarrow> string" where
  "removeAmbiguous class = filter (\<lambda>c. c \<notin> set ambiguous) class"

definition addClass :: "password_options \<Rightarrow> string \<Rightarrow> bool \<Rightarrow> string list \<Rightarrow> string list" where
  "addClass opts class enabled required =
    (if \<not> enabled then required
     else let filtered = (if po_exclude opts then removeAmbiguous class else class)
       in if filtered = '''' then required else required @ [filtered])"

definition required_classes :: "password_options \<Rightarrow> string list" where
  "required_classes opts =
    addClass opts symbolClass (po_symbols opts) (addClass opts digitClass (po_digits opts)
      (addClass opts upperClass (po_uppercase opts) (addClass opts lowerClass (po_lowercase opts) [])))"

definition sampleChar :: "gen_source \<Rightarrow> string \<Rightarrow> nat \<Rightarrow> gen_error + (char \<times> nat)" where
  "sampleChar S alphabet k = (case gs_int S k (length alphabet) of
      None \<Rightarrow> Inl RandUnavailable | Some n \<Rightarrow> Inr (alphabet ! n, Suc k))"

fun fill :: "gen_source \<Rightarrow> string \<Rightarrow> nat \<Rightarrow> nat \<Rightarrow> gen_error + (string \<times> nat)" where
  "fill S chars 0 k = Inr ([], k)"
| "fill S chars (Suc n) k = andthen (sampleChar S chars k) (\<lambda>(c, k). andthen (fill S chars n k) (\<lambda>(cs, k). Inr (c # cs, k)))"

text \<open>The Fisher-Yates loop from the last index down to 1.\<close>

fun shuffle_from :: "gen_source \<Rightarrow> nat \<Rightarrow> nat list \<Rightarrow> nat \<Rightarrow> gen_error + (nat list \<times> nat)" where
  "shuffle_from S 0 xs k = Inr (xs, k)"
| "shuffle_from S (Suc i) xs k = (case gs_int S k (Suc (Suc i)) of
      None \<Rightarrow> Inl RandPanic | Some j \<Rightarrow> shuffle_from S i (swap xs (Suc i) j) (Suc k))"

definition shuffle :: "gen_source \<Rightarrow> nat list \<Rightarrow> nat \<Rightarrow> gen_error + (nat list \<times> nat)" where
  "shuffle S xs k = shuffle_from S (length xs - 1) xs k"

fun place_required :: "gen_source \<Rightarrow> string list \<Rightarrow> nat list \<Rightarrow> string \<Rightarrow> nat \<Rightarrow> gen_error + (string \<times> nat)" where
  "place_required S (class # cs) (p # ps) out k = andthen (sampleChar S class k) (\<lambda>(c, k). place_required S cs ps (out[p := c]) k)"
| "place_required S _ _ out k = Inr (out, k)"

definition Password :: "gen_source \<Rightarrow> password_options \<Rightarrow> nat \<Rightarrow> gen_error + (string \<times> nat)" where
  "Password S opts k =
    (if po_length opts < 8 \<or> po_length opts > 128 then Inl LengthRange
     else let required = required_classes opts; pool = concat required in
       if pool = '''' then Inl NoClass
       else if int (length required) > po_length opts then Inl TooManyClasses
       else andthen (fill S pool (nat (po_length opts)) k) (\<lambda>(out, k).
         andthen (shuffle S [0..<length out] k) (\<lambda>(positions, k).
           place_required S required positions out k)))"

section \<open>Passphrases\<close>

definition WordCount :: nat where "WordCount = 1296"

record passphrase_options =
  pp_words :: int
  pp_separator :: string
  pp_capitalize :: bool

definition DefaultPassphraseOptions :: passphrase_options where
  "DefaultPassphraseOptions = \<lparr>pp_words = 5, pp_separator = ''-'', pp_capitalize = False\<rparr>"

text \<open>The embedded list, one word per line; the program does not start with another number of words.\<close>

definition load_words :: "string \<Rightarrow> string list option" where
  "load_words raw = (let ws = split_on (CHR 0x0A) (rev (dropWhile (\<lambda>c. c = CHR 0x0A) (rev raw)))
     in if length ws \<noteq> WordCount then None else Some ws)"

definition draw_value :: "8 word \<Rightarrow> 8 word \<Rightarrow> 16 word" where
  "draw_value b0 b1 = or (push_bit 8 (ucast b0)) (ucast b1)"

definition threshold :: nat where "threshold = 65536 - 65536 mod WordCount"

partial_function (option) sampleWord :: "string list \<Rightarrow> gen_source \<Rightarrow> nat \<Rightarrow> (gen_error + (string \<times> nat)) option" where
  "sampleWord ws S k = (case gs_bytes S k of
      None \<Rightarrow> Some (Inl RandUnavailable)
    | Some b \<Rightarrow> (let v = draw_value (fst b) (snd b) in
        if unat v < threshold then Some (Inr (ws ! (unat (v mod of_nat WordCount)), Suc k)) else sampleWord ws S (Suc k)))"

definition capitalise :: "string \<Rightarrow> gen_error + string" where
  "capitalise w = (case w of [] \<Rightarrow> Inl EmptyWord
    | c # cs \<Rightarrow> Inr ((if c \<in> set lowerClass then char_of (of_char c - of_char (CHR ''a'') + (of_char (CHR ''A'') :: nat)) else c) # cs))"

fun phrase_words :: "string list \<Rightarrow> gen_source \<Rightarrow> bool \<Rightarrow> nat \<Rightarrow> nat \<Rightarrow> (gen_error + (string list \<times> nat)) option" where
  "phrase_words ws S cap 0 k = Some (Inr ([], k))"
| "phrase_words ws S cap (Suc n) k = (case sampleWord ws S k of
      None \<Rightarrow> None
    | Some (Inl e) \<Rightarrow> Some (Inl e)
    | Some (Inr (w, k)) \<Rightarrow> (case (if cap then capitalise w else Inr w) of
          Inl e \<Rightarrow> Some (Inl e)
        | Inr w \<Rightarrow> (case phrase_words ws S cap n k of
              None \<Rightarrow> None
            | Some r \<Rightarrow> Some (andthen r (\<lambda>(xs, k). Inr (w # xs, k))))))"

definition phrase_sep :: "passphrase_options \<Rightarrow> string" where
  "phrase_sep opts = (if pp_separator opts = '''' then ''-'' else pp_separator opts)"

definition Passphrase :: "string list \<Rightarrow> gen_source \<Rightarrow> passphrase_options \<Rightarrow> nat \<Rightarrow> (gen_error + (string \<times> nat)) option" where
  "Passphrase ws S opts k =
    (if pp_words opts < 3 \<or> pp_words opts > 10 then Some (Inl WordsRange)
     else if 8 < rune_count (phrase_sep opts) then Some (Inl SeparatorLong)
     else case phrase_words ws S (pp_capitalize opts) (nat (pp_words opts)) k of
        None \<Rightarrow> None
      | Some r \<Rightarrow> Some (andthen r (\<lambda>(xs, k). Inr (join_with (phrase_sep opts) xs, k))))"

section \<open>A password has what was asked for\<close>

lemma sampleChar_works:
  assumes "source_works S" and "alphabet \<noteq> ''''"
  obtains c where "sampleChar S alphabet k = Inr (c, Suc k)" and "c \<in> set alphabet"
proof -
  have "0 < length alphabet" using assms(2) by simp
  then obtain n where n: "n < length alphabet" "gs_int S k (length alphabet) = Some n"
    using assms(1) unfolding source_works_def by blast
  show thesis by (rule that[of "alphabet ! n"]) (use n in \<open>simp_all add: sampleChar_def\<close>)
qed

lemma fill_works:
  assumes "source_works S" and "chars \<noteq> ''''"
  shows "\<exists>cs k'. fill S chars n k = Inr (cs, k') \<and> length cs = n \<and> set cs \<subseteq> set chars"
proof (induction n arbitrary: k)
  case (Suc n)
  obtain c where c: "sampleChar S chars k = Inr (c, Suc k)" "c \<in> set chars" using sampleChar_works[OF assms] .
  obtain cs k' where "fill S chars n (Suc k) = Inr (cs, k')" "length cs = n" "set cs \<subseteq> set chars" using Suc by blast
  with c show ?case by simp
qed simp

lemma shuffle_from_works:
  assumes "source_works S"
  shows "i < length xs \<Longrightarrow> \<exists>ys k'. shuffle_from S i xs k = Inr (ys, k') \<and> mset ys = mset xs"
proof (induction i arbitrary: xs k)
  case (Suc i)
  obtain j where j: "j < Suc (Suc i)" "gs_int S k (Suc (Suc i)) = Some j" using assms by (auto simp: source_works_def)
  with Suc.prems have m: "mset (swap xs (Suc i) j) = mset xs" by (intro mset_swap_eq) simp_all
  show ?case using Suc.IH[of "swap xs (Suc i) j" "Suc k"] Suc.prems j m by simp
qed simp

lemma shuffle_works:
  assumes "source_works S"
  shows "\<exists>ys k'. shuffle S xs k = Inr (ys, k') \<and> mset ys = mset xs"
  using shuffle_from_works[OF assms, of "length xs - 1" xs k] by (cases xs) (auto simp: shuffle_def)

lemma place_required_works:
  assumes "source_works S"
  shows "'''' \<notin> set cs \<Longrightarrow> length cs \<le> length ps \<Longrightarrow> distinct ps \<Longrightarrow> set ps \<subseteq> {..<length out} \<Longrightarrow>
    \<exists>out' k'. place_required S cs ps out k = Inr (out', k') \<and> length out' = length out \<and>
      set out' \<subseteq> set out \<union> set (concat cs) \<and> (\<forall>p. p \<notin> set ps \<longrightarrow> out' ! p = out ! p) \<and>
      (\<forall>cl \<in> set cs. \<exists>c \<in> set out'. c \<in> set cl)"
proof (induction cs arbitrary: ps out k)
  case (Cons cl cs)
  then obtain p qs where ps: "ps = p # qs" by (cases ps) auto
  obtain c where c: "sampleChar S cl k = Inr (c, Suc k)" "c \<in> set cl"
    using sampleChar_works[OF assms] Cons.prems(1) by (metis list.set_intros(1))
  obtain out' k' where o: "place_required S cs qs (out[p := c]) (Suc k) = Inr (out', k')" "length out' = length out"
      "set out' \<subseteq> set (out[p := c]) \<union> set (concat cs)" "\<forall>q. q \<notin> set qs \<longrightarrow> out' ! q = out[p := c] ! q"
      "\<forall>cl \<in> set cs. \<exists>c \<in> set out'. c \<in> set cl"
    using Cons.IH[of qs "out[p := c]" "Suc k"] Cons.prems ps by auto
  have p: "p < length out" "p \<notin> set qs" using Cons.prems ps by auto
  then have "out' ! p = c" using o(4) by simp
  then have "c \<in> set out'" using p(1) o(2) by (metis nth_mem)
  moreover have "set out' \<subseteq> set out \<union> set (concat (cl # cs))"
    using o(3) set_update_subset_insert[of out p c] c(2) by auto
  moreover have "\<forall>q. q \<notin> set ps \<longrightarrow> out' ! q = out ! q" using o(4) ps by auto
  ultimately show ?case using o(1,2,5) c ps by auto
qed simp

definition kept :: "password_options \<Rightarrow> string \<Rightarrow> string" where
  "kept opts class = (if po_exclude opts then removeAmbiguous class else class)"

lemma kept_sets: "set (kept opts class) = {c \<in> set class. po_exclude opts \<longrightarrow> c \<notin> set ambiguous}"
  by (auto simp: kept_def removeAmbiguous_def)

lemma kept_nonempty:
  "kept opts lowerClass \<noteq> ''''" "kept opts upperClass \<noteq> ''''" "kept opts digitClass \<noteq> ''''" "kept opts symbolClass \<noteq> ''''"
  by (simp_all add: kept_def removeAmbiguous_def ambiguous_def lowerClass_def upperClass_def digitClass_def symbolClass_def)

lemma required_classes_eq:
  "required_classes opts = map (kept opts) ((if po_lowercase opts then [lowerClass] else []) @ (if po_uppercase opts then [upperClass] else []) @
     (if po_digits opts then [digitClass] else []) @ (if po_symbols opts then [symbolClass] else []))"
  using kept_nonempty[of opts] by (simp add: required_classes_def addClass_def kept_def[symmetric] Let_def)

text \<open>A generated password has exactly the requested length, consists of characters of the enabled classes
  only, contains a character of every enabled class, and none of the ambiguous ones when these are excluded.
  With a working random source the generator answers exactly when the length is between 8 and 128 and
  some class is enabled; otherwise it refuses.\<close>

theorem password_exact:
  assumes "source_works S"
  shows "if 8 \<le> po_length opts \<and> po_length opts \<le> 128 \<and> (po_lowercase opts \<or> po_uppercase opts \<or> po_digits opts \<or> po_symbols opts)
    then \<exists>p k'. Password S opts k = Inr (p, k') \<and> int (length p) = po_length opts \<and>
      set p \<subseteq> (if po_lowercase opts then set lowerClass else {}) \<union> (if po_uppercase opts then set upperClass else {}) \<union>
        (if po_digits opts then set digitClass else {}) \<union> (if po_symbols opts then set symbolClass else {}) \<and>
      (po_exclude opts \<longrightarrow> set p \<inter> set ambiguous = {}) \<and>
      (po_lowercase opts \<longrightarrow> set p \<inter> set lowerClass \<noteq> {}) \<and> (po_uppercase opts \<longrightarrow> set p \<inter> set upperClass \<noteq> {}) \<and>
      (po_digits opts \<longrightarrow> set p \<inter> set digitClass \<noteq> {}) \<and> (po_symbols opts \<longrightarrow> set p \<inter> set symbolClass \<noteq> {})
    else \<exists>e. Password S opts k = Inl e"
proof -
  let ?req = "required_classes opts" and ?n = "nat (po_length opts)"
  have four: "length ?req \<le> 4" "'''' \<notin> set ?req" using kept_nonempty[of opts] by (auto simp: required_classes_eq)
  have none: "concat ?req = '''' \<longleftrightarrow> \<not> (po_lowercase opts \<or> po_uppercase opts \<or> po_digits opts \<or> po_symbols opts)"
    using kept_nonempty[of opts] by (auto simp: required_classes_eq)
  show ?thesis
  proof (cases "8 \<le> po_length opts \<and> po_length opts \<le> 128 \<and> concat ?req \<noteq> ''''")
    case False
    then show ?thesis using none by (auto simp: Password_def Let_def)
  next
    case True
    obtain out k1 where f: "fill S (concat ?req) ?n k = Inr (out, k1)" "length out = ?n" "set out \<subseteq> set (concat ?req)"
      using fill_works[OF assms] True by blast
    obtain ps k2 where s: "shuffle S [0..<length out] k1 = Inr (ps, k2)" "mset ps = mset [0..<length out]"
      using shuffle_works[OF assms] by blast
    have ps: "length ps = ?n" "distinct ps" "set ps = {..<length out}"
      using s(2) f(2) mset_eq_length[OF s(2)] mset_eq_setD[OF s(2)] mset_eq_imp_distinct_iff[OF s(2)] by (simp_all add: atLeast0LessThan)
    have le: "length ?req \<le> length ps" using four(1) True ps(1) by linarith
    obtain p k3 where p: "place_required S ?req ps out k2 = Inr (p, k3)" "length p = ?n"
        "set p \<subseteq> set (concat ?req)" "\<forall>class \<in> set ?req. \<exists>c \<in> set p. c \<in> set class"
      using place_required_works[OF assms four(2) le ps(2), of out k2] ps(3) f(2,3) by (metis Un_absorb1 order_refl)
    have "Password S opts k = Inr (p, k3)" using True four f s p by (simp add: Password_def Let_def)
    moreover have "int (length p) = po_length opts" using p True by simp
    moreover have has: "set p \<inter> set cl \<noteq> {}" if "kept opts cl \<in> set ?req" for cl
    proof -
      from p(4) that obtain c where "c \<in> set p" "c \<in> set (kept opts cl)" by blast
      then show ?thesis unfolding kept_sets by blast
    qed
    have "po_lowercase opts \<longrightarrow> set p \<inter> set lowerClass \<noteq> {}" "po_uppercase opts \<longrightarrow> set p \<inter> set upperClass \<noteq> {}"
      "po_digits opts \<longrightarrow> set p \<inter> set digitClass \<noteq> {}" "po_symbols opts \<longrightarrow> set p \<inter> set symbolClass \<noteq> {}"
      by (intro impI has; simp add: required_classes_eq)+
    moreover have pool: "set (concat ?req) = {c \<in> (if po_lowercase opts then set lowerClass else {}) \<union> (if po_uppercase opts then set upperClass else {}) \<union>
        (if po_digits opts then set digitClass else {}) \<union> (if po_symbols opts then set symbolClass else {}). po_exclude opts \<longrightarrow> c \<notin> set ambiguous}"
      by (auto simp: required_classes_eq kept_sets)
    moreover have "po_exclude opts \<longrightarrow> set p \<inter> set ambiguous = {}" using p(3) unfolding pool by blast
    moreover have "po_lowercase opts \<or> po_uppercase opts \<or> po_digits opts \<or> po_symbols opts" using True none by blast
    ultimately show ?thesis using True p(3) by (simp add: subset_iff)
  qed
qed

text \<open>A source that always answers 0 and the bytes \<open>FF FF\<close>, \<open>00 00\<close> in turn.\<close>

definition zero_source :: gen_source where
  "zero_source = \<lparr>gs_int = (\<lambda>k m. Some 0), gs_bytes = (\<lambda>k. Some (if even k then (255, 255) else (0, 0)))\<rparr>"

lemma zero_source_works: "source_works zero_source"
  by (auto simp: source_works_def zero_source_def)

theorem password_exact_witness:
  "\<exists>p k'. Password zero_source (DefaultPasswordOptions\<lparr>po_exclude := True\<rparr>) 0 = Inr (p, k') \<and> length p = 20 \<and> set p \<inter> set ambiguous = {} \<and>
     set p \<inter> set digitClass \<noteq> {}"
  using password_exact[OF zero_source_works, of "DefaultPasswordOptions\<lparr>po_exclude := True\<rparr>" 0]
  by (simp add: DefaultPasswordOptions_def) blast

section \<open>A passphrase returns, and its draws are fair\<close>

lemma draw_value: "unat (draw_value b0 b1) = 256 * unat b0 + unat b1"
proof -
  let ?a = "take_bit 8 (unat b0)" and ?b = "take_bit 8 (unat b1)"
  have t: "?a = unat b0" "?b = unat b1" "take_bit 16 (unat b1) = unat b1"
    using unsigned_less[where 'a = nat, of b0] unsigned_less[where 'a = nat, of b1] by (simp_all add: take_bit_nat_eq_self)
  have "unat (draw_value b0 b1) = or (push_bit 8 ?a) ?b"
    by (simp add: draw_value_def unsigned_or_eq unsigned_push_bit_eq unsigned_ucast_eq take_bit_push_bit t)
  also have "\<dots> = push_bit 8 ?a + ?b"
    by (rule disjunctive_add_eq_or[symmetric]) (auto simp: bit_eq_iff bit_simps)
  finally show ?thesis by (simp add: t push_bit_eq_mult)
qed

definition rejected :: "gen_source \<Rightarrow> nat \<Rightarrow> bool" where
  "rejected S k \<longleftrightarrow> (\<exists>b0 b1. gs_bytes S k = Some (b0, b1) \<and> \<not> unat (draw_value b0 b1) < threshold)"

lemma sampleWord_step:
  "sampleWord ws S k = (if rejected S k then sampleWord ws S (Suc k) else Some (case gs_bytes S k of
     None \<Rightarrow> Inl RandUnavailable | Some b \<Rightarrow> Inr (ws ! (unat (draw_value (fst b) (snd b) mod of_nat WordCount)), Suc k)))"
  by (subst sampleWord.simps) (auto simp: rejected_def Let_def split: option.split)

lemma sampleWord_returns:
  assumes "\<exists>j \<ge> k. \<not> rejected S j"
  shows "sampleWord ws S k \<noteq> None"
proof -
  obtain d where "\<not> rejected S (k + d)" using assms by (metis le_Suc_ex)
  then show ?thesis
  proof (induction d arbitrary: k)
    case (Suc d)
    then show ?case by (subst sampleWord_step) (simp add: Suc.IH[of "Suc k"])
  qed (subst sampleWord_step, simp)
qed

lemma sampleWord_stuck:
  assumes "sampleWord ws S k = Some r"
  shows "\<exists>j \<ge> k. \<not> rejected S j"
proof (rule sampleWord.raw_induct[where P = "\<lambda>ws S k r. \<exists>j \<ge> k. \<not> rejected S j", OF _ assms])
  fix f :: "string list \<Rightarrow> gen_source \<Rightarrow> nat \<Rightarrow> (gen_error + string \<times> nat) option" and ws S k r
  assume IH: "\<And>ws S k r. f ws S k = Some r \<Longrightarrow> \<exists>j \<ge> k. \<not> rejected S j"
    and eq: "(case gs_bytes S k of None \<Rightarrow> Some (Inl RandUnavailable)
      | Some b \<Rightarrow> (let v = draw_value (fst b) (snd b) in
        if unat v < threshold then Some (Inr (ws ! (unat (v mod of_nat WordCount)), Suc k)) else f ws S (Suc k))) = Some r"
  show "\<exists>j \<ge> k. \<not> rejected S j"
  proof (cases "rejected S k")
    case True
    with eq have "f ws S (Suc k) = Some r" by (auto simp: rejected_def Let_def)
    from IH[OF this] show ?thesis using Suc_leD by blast
  qed auto
qed

lemma sampleWord_None_iff: "sampleWord ws S k = None \<longleftrightarrow> (\<forall>j \<ge> k. rejected S j)"
  using sampleWord_returns sampleWord_stuck by (metis not_None_eq)

lemma sampleWord_first:
  assumes "k \<le> j" and "\<not> rejected S j" and "\<And>i. k \<le> i \<Longrightarrow> i < j \<Longrightarrow> rejected S i"
  shows "sampleWord ws S k = Some (case gs_bytes S j of None \<Rightarrow> Inl RandUnavailable
    | Some b \<Rightarrow> Inr (ws ! (unat (draw_value (fst b) (snd b) mod of_nat WordCount)), Suc j))"
  using assms
proof (induction "j - k" arbitrary: k)
  case 0
  then have "j = k" by simp
  with 0 show ?case unfolding \<open>j = k\<close> by (subst sampleWord_step) simp
next
  case (Suc d)
  then have "sampleWord ws S k = sampleWord ws S (Suc k)" by (subst sampleWord_step) simp
  with Suc.hyps(1)[of "Suc k"] Suc.hyps(2) Suc.prems show ?case by simp
qed

lemma first_accepted:
  assumes "k \<le> j" and "\<not> rejected S j"
  obtains i where "k \<le> i" "i \<le> j" "\<not> rejected S i" "\<And>x. k \<le> x \<Longrightarrow> x < i \<Longrightarrow> rejected S x"
proof -
  let ?P = "\<lambda>i. k \<le> i \<and> \<not> rejected S i"
  have "?P (LEAST i. ?P i)" "(LEAST i. ?P i) \<le> j" using assms LeastI[of ?P j] Least_le[of ?P j] by auto
  then show thesis using not_less_Least[of _ ?P] that by blast
qed

definition enough_draws :: "gen_source \<Rightarrow> nat \<Rightarrow> nat \<Rightarrow> bool" where
  "enough_draws S n k \<longleftrightarrow> (\<exists>js. length js = n \<and> sorted_wrt (<) js \<and> (\<forall>j \<in> set js. k \<le> j \<and> \<not> rejected S j))"

lemma enough_draws_0 [simp]: "enough_draws S 0 k"
  by (simp add: enough_draws_def)

lemma enough_draws_Suc: "enough_draws S (Suc n) k \<longleftrightarrow> (\<exists>i \<ge> k. \<not> rejected S i \<and> enough_draws S n (Suc i))"
proof
  assume "enough_draws S (Suc n) k"
  then obtain j js where "k \<le> j" "\<not> rejected S j" "length js = n" "sorted_wrt (<) js" "\<forall>x \<in> set js. j < x \<and> \<not> rejected S x"
    by (auto simp: enough_draws_def length_Suc_conv)
  then show "\<exists>i \<ge> k. \<not> rejected S i \<and> enough_draws S n (Suc i)" by (auto simp: enough_draws_def Suc_le_eq)
next
  assume "\<exists>i \<ge> k. \<not> rejected S i \<and> enough_draws S n (Suc i)"
  then obtain i js where "k \<le> i" "\<not> rejected S i" "length js = n" "sorted_wrt (<) js" "\<forall>x \<in> set js. Suc i \<le> x \<and> \<not> rejected S x"
    by (auto simp: enough_draws_def)
  then show "enough_draws S (Suc n) k" unfolding enough_draws_def by (intro exI[of _ "i # js"]) auto
qed

lemma enough_draws_mono: "enough_draws S n k \<Longrightarrow> k' \<le> k \<Longrightarrow> enough_draws S n k'"
  unfolding enough_draws_def by (blast intro: order_trans)

definition printed :: "bool \<Rightarrow> string \<Rightarrow> string \<Rightarrow> bool" where
  "printed cap w x \<longleftrightarrow> (if cap then capitalise w else Inr w) = Inr x"

lemma word_index: "length ws = WordCount \<Longrightarrow> ws ! (unat (v mod of_nat WordCount :: 16 word)) \<in> set ws"
  by (simp add: WordCount_def unat_mod) 

lemma phrase_words_exact:
  assumes ws: "length ws = WordCount" "'''' \<notin> set ws" and reads: "\<And>k. gs_bytes S k \<noteq> None"
  shows "(phrase_words ws S cap n k = None \<longleftrightarrow> \<not> enough_draws S n k) \<and>
    (\<forall>r. phrase_words ws S cap n k = Some r \<longrightarrow> (\<exists>chosen out k'. r = Inr (out, k') \<and> length chosen = n \<and>
       set chosen \<subseteq> set ws \<and> list_all2 (printed cap) chosen out))"
proof (induction n arbitrary: k)
  case (Suc n)
  show ?case
  proof (cases "\<exists>j \<ge> k. \<not> rejected S j")
    case False
    then have "sampleWord ws S k = None" by (simp add: sampleWord_None_iff)
    with False show ?thesis by (simp add: enough_draws_Suc)
  next
    case True
    then obtain i where i: "k \<le> i" "\<not> rejected S i" "\<And>x. k \<le> x \<Longrightarrow> x < i \<Longrightarrow> rejected S x"
      using first_accepted by metis
    obtain w where w: "sampleWord ws S k = Some (Inr (w, Suc i))" "w \<in> set ws"
      using sampleWord_first[OF i] reads[of i] word_index[OF ws(1)] by auto
    obtain x where x: "(if cap then capitalise w else Inr w) = Inr x"
    proof -
      have "w \<noteq> ''''" using w(2) ws(2) by metis
      then show ?thesis using that by (cases w; cases cap) (simp_all add: capitalise_def)
    qed
    have iff: "enough_draws S (Suc n) k \<longleftrightarrow> enough_draws S n (Suc i)"
      using i enough_draws_mono unfolding enough_draws_Suc by (metis not_less Suc_le_mono)
    show ?thesis
    proof (cases "phrase_words ws S cap n (Suc i)")
      case None
      then show ?thesis using w x iff Suc.IH[of "Suc i"] by simp
    next
      case (Some r)
      then obtain chosen out k' where "r = Inr (out, k')" "length chosen = n" "set chosen \<subseteq> set ws" "list_all2 (printed cap) chosen out"
        using Suc.IH[of "Suc i"] by blast
      moreover have "printed cap w x" using x by (simp add: printed_def)
      ultimately have "phrase_words ws S cap (Suc n) k = Some (Inr (x # out, k'))" "length (w # chosen) = Suc n"
          "set (w # chosen) \<subseteq> set ws" "list_all2 (printed cap) (w # chosen) (x # out)"
        using w x Some by simp_all
      moreover have "enough_draws S n (Suc i)" using Some Suc.IH[of "Suc i"] by simp
      ultimately show ?thesis using iff by (metis option.distinct(1) option.inject)
    qed
  qed
qed (simp add: enough_draws_def)

lemma draws_fair:
  assumes "i < WordCount"
  shows "card {(b0, b1). unat (draw_value b0 b1) < threshold \<and> unat (draw_value b0 b1 mod of_nat WordCount) = i} = 50"
proof -
  let ?g = "\<lambda>q. (of_nat ((1296 * q + i) div 256) :: 8 word, of_nat ((1296 * q + i) mod 256) :: 8 word)"
  let ?A = "{(b0, b1). unat (draw_value b0 b1) < threshold \<and> unat (draw_value b0 b1 mod of_nat WordCount) = i}"
  have t: "threshold = 64800" by (simp add: threshold_def WordCount_def)
  have md: "unat (draw_value b0 b1 mod of_nat WordCount) = (256 * unat b0 + unat b1) mod 1296" for b0 b1
    by (simp add: unat_mod_distrib WordCount_def draw_value)
  have g: "unat (draw_value (fst (?g q)) (snd (?g q))) = 1296 * q + i" if "q < 50" for q
  proof -
    have "1296 * q + i < 64800" using that assms by (simp add: WordCount_def)
    then show ?thesis by (simp add: draw_value unat_of_nat)
  qed
  have "?A = ?g ` {..<50}"
  proof (intro equalityI subsetI)
    fix b assume "b \<in> ?A"
    then obtain b0 b1 where b: "b = (b0, b1)" "256 * unat b0 + unat b1 < 64800" "(256 * unat b0 + unat b1) mod 1296 = i"
      by (auto simp: draw_value t md)
    let ?q = "(256 * unat b0 + unat b1) div 1296"
    have q: "?q < 50" using b(2) by (simp add: div_less_iff_less_mult)
    have "1296 * ?q + i = 256 * unat b0 + unat b1" using b(3) by (metis mult_div_mod_eq)
    moreover have "unat b1 < 256" using unsigned_less[where 'a = nat, of b1] by simp
    ultimately have "?g ?q = b" unfolding b(1) by (simp add: of_nat_unat ucast_id)
    with q show "b \<in> ?g ` {..<50}" by blast
  next
    fix b assume "b \<in> ?g ` {..<50}"
    then obtain q where q: "q < 50" "b = ?g q" by auto
    obtain b0 b1 where b: "b = (b0, b1)" by (cases b)
    with g[OF q(1)] q(2) have v: "256 * unat b0 + unat b1 = 1296 * q + i" by (simp add: draw_value)
    have "unat (draw_value b0 b1 mod of_nat WordCount) = i" unfolding md v using assms by (simp add: WordCount_def)
    moreover have "unat (draw_value b0 b1) < threshold" unfolding draw_value t v using assms q(1) by (simp add: WordCount_def)
    ultimately show "b \<in> ?A" unfolding b by simp
  qed
  moreover have "inj_on ?g {..<50}"
  proof (rule inj_onI)
    fix p q assume "p \<in> {..<50}" "q \<in> {..<50}" "?g p = ?g q"
    then show "p = q" using g[of p] g[of q] by simp
  qed
  ultimately show ?thesis by (simp add: card_image)
qed

text \<open>C40: The passphrase generator returns exactly when its source eventually delivers enough accepted draws (the loop
  of \<open>sampleWord\<close> rejects values from 64800 on and draws again), and what it then answers is the requested
  number of words of the list, capitalised if asked, joined by the separator; for every index of the list exactly
  50 of the 65536 two-byte draws are accepted, so every word is equally likely.\<close>

theorem passphrase_returns:
  assumes "length ws = WordCount" and "'''' \<notin> set ws" and "\<And>k. gs_bytes S k \<noteq> None"
    and "3 \<le> pp_words opts" and "pp_words opts \<le> 10" and "rune_count (phrase_sep opts) \<le> 8" and "i < WordCount"
  shows "(Passphrase ws S opts k \<noteq> None \<longleftrightarrow> enough_draws S (nat (pp_words opts)) k) \<and>
    (\<forall>r. Passphrase ws S opts k = Some r \<longrightarrow> (\<exists>chosen out k'. r = Inr (join_with (phrase_sep opts) out, k') \<and>
       int (length chosen) = pp_words opts \<and> set chosen \<subseteq> set ws \<and> list_all2 (printed (pp_capitalize opts)) chosen out)) \<and>
    card {(b0, b1). unat (draw_value b0 b1) < threshold \<and> unat (draw_value b0 b1 mod of_nat WordCount) = i} = 50"
proof -
  note w = phrase_words_exact[OF assms(1-3), of "pp_capitalize opts" "nat (pp_words opts)" k]
  have P: "Passphrase ws S opts k = (case phrase_words ws S (pp_capitalize opts) (nat (pp_words opts)) k of None \<Rightarrow> None
      | Some r \<Rightarrow> Some (andthen r (\<lambda>(xs, k). Inr (join_with (phrase_sep opts) xs, k))))"
    using assms(4-6) by (simp add: Passphrase_def)
  have "Passphrase ws S opts k \<noteq> None \<longleftrightarrow> enough_draws S (nat (pp_words opts)) k" 
    using conjunct1[OF w] unfolding P by (cases "phrase_words ws S (pp_capitalize opts) (nat (pp_words opts)) k") simp_all
  moreover have "\<exists>chosen out k'. r = Inr (join_with (phrase_sep opts) out, k') \<and> int (length chosen) = pp_words opts \<and>
      set chosen \<subseteq> set ws \<and> list_all2 (printed (pp_capitalize opts)) chosen out" if "Passphrase ws S opts k = Some r" for r
  proof -
    from that P obtain r' where r': "phrase_words ws S (pp_capitalize opts) (nat (pp_words opts)) k = Some r'"
        "r = andthen r' (\<lambda>(xs, k). Inr (join_with (phrase_sep opts) xs, k))"
      by (auto split: option.splits)
    with w obtain chosen out k' where "r' = Inr (out, k')" "length chosen = nat (pp_words opts)" "set chosen \<subseteq> set ws"
        "list_all2 (printed (pp_capitalize opts)) chosen out" by blast
    moreover from this r'(2) have "r = Inr (join_with (phrase_sep opts) out, k')" by simp
    moreover have "int (nat (pp_words opts)) = pp_words opts" using assms(4) by simp
    ultimately show ?thesis by metis
  qed
  ultimately show ?thesis using draws_fair[OF assms(7)] by blast
qed

text \<open>A list of 1296 different words.\<close>

definition sample_words :: "string list" where
  "sample_words = map (\<lambda>i. replicate (Suc i) (CHR ''w'')) [0..<1296]"

theorem passphrase_returns_witness:
  "\<exists>p k'. Passphrase sample_words zero_source DefaultPassphraseOptions 0 = Some (Inr (p, k'))"
proof -
  have "\<not> rejected zero_source k" if "odd k" for k
    using that by (simp add: rejected_def zero_source_def draw_value threshold_def WordCount_def)
  then have "enough_draws zero_source 5 0"
    unfolding enough_draws_def by (intro exI[of _ "[1, 3, 5, 7, 9]"]) simp
  moreover have "rune_count ''-'' \<le> 8" by code_simp
  ultimately show ?thesis
    using passphrase_returns[of sample_words zero_source DefaultPassphraseOptions 0 0]
    by (auto simp: sample_words_def zero_source_def DefaultPassphraseOptions_def phrase_sep_def WordCount_def)
qed

end
