(* ===== verification/Idents.thy ===== *)
theory Idents
  imports Transfers
begin

text \<open>
  \<open>platform/ident/uuid.go\<close>: time-ordered identifiers.  The process keeps the last millisecond and a 16-bit
  counter; the clock and the eight random bytes are arguments.
\<close>

record mono =
  mono_last :: int
  mono_seq :: "16 word"

definition mono_start :: mono where "mono_start = \<lparr>mono_last = 0, mono_seq = 0\<rparr>"

definition mono_tick :: "int \<Rightarrow> mono \<Rightarrow> mono" where
  "mono_tick now st = (if now \<le> mono_last st then st\<lparr>mono_seq := mono_seq st + 1\<rparr> else \<lparr>mono_last = now, mono_seq = 0\<rparr>)"

definition hexdigit :: "8 word \<Rightarrow> char" where
  "hexdigit n = ''0123456789abcdef'' ! unat n"

fun format_from :: "nat \<Rightarrow> 8 word list \<Rightarrow> string" where
  "format_from i [] = []"
| "format_from i (b # bs) =
    (if i = 4 \<or> i = 6 \<or> i = 8 \<or> i = 10 then ''-'' else '''') @ [hexdigit (drop_bit 4 b), hexdigit (and b 0x0f)] @ format_from (Suc i) bs"

definition formatUUID :: "8 word list \<Rightarrow> string" where
  "formatUUID u = format_from 0 u"

definition version_bits :: "16 word \<Rightarrow> 8 word" where
  "version_bits seq = or 0x70 (ucast (and (drop_bit 8 seq) 0x0f))"

definition variant_bits :: "8 word \<Rightarrow> 8 word" where
  "variant_bits b = or (and b 0x3f) 0x80"

definition uuid_bytes :: "int \<Rightarrow> 16 word \<Rightarrow> 8 word list \<Rightarrow> 8 word list" where
  "uuid_bytes ms seq r =
    [of_int (drop_bit 40 ms), of_int (drop_bit 32 ms), of_int (drop_bit 24 ms), of_int (drop_bit 16 ms),
     of_int (drop_bit 8 ms), of_int ms, version_bits seq, ucast seq,
     variant_bits (hd r)] @ tl r"

definition NewUUIDv7 :: "int \<Rightarrow> 8 word list \<Rightarrow> mono \<Rightarrow> string \<times> mono" where
  "NewUUIDv7 now r st = (let st' = mono_tick now st in (formatUUID (uuid_bytes (mono_last st') (mono_seq st') r), st'))"

section \<open>The canonical form\<close>

lemma hex_digits: "n < 16 \<Longrightarrow> hex_lower (''0123456789abcdef'' ! n)"
  "n < 16 \<Longrightarrow> m < n \<Longrightarrow> ''0123456789abcdef'' ! m < ''0123456789abcdef'' ! n"
proof -
  have "\<forall>n \<in> set [0..<16]. hex_lower (''0123456789abcdef'' ! n) \<and> (\<forall>m \<in> set [0..<n]. ''0123456789abcdef'' ! m < ''0123456789abcdef'' ! n)"
    by code_simp
  then show "n < 16 \<Longrightarrow> hex_lower (''0123456789abcdef'' ! n)" "n < 16 \<Longrightarrow> m < n \<Longrightarrow> ''0123456789abcdef'' ! m < ''0123456789abcdef'' ! n"
    by simp_all
qed

lemma nibbles:
  fixes b :: "8 word"
  shows "unat (drop_bit 4 b) = unat b div 16" and "unat (and b 0x0f) = unat b mod 16" and "unat b div 16 < 16"
proof -
  have "and b 0x0f = take_bit 4 b" by (simp add: take_bit_eq_mask mask_eq_exp_minus_1)
  then show "unat (and b 0x0f) = unat b mod 16" by (simp only: unsigned_take_bit_eq) (simp add: take_bit_eq_mod)
  have "take_bit 8 (unat b) = unat b" by (rule take_bit_nat_eq_self) (use unsigned_less[where 'a = nat, of b] in simp)
  then show "unat (drop_bit 4 b) = unat b div 16" by (simp only: unsigned_drop_bit_eq) (simp add: drop_bit_eq_div)
  show "unat b div 16 < 16" using unsigned_less[where 'a = nat, of b] by (simp add: div_less_iff_less_mult)
qed

lemma hexdigit_lower [simp]: "hex_lower (hexdigit (drop_bit 4 b))" "hex_lower (hexdigit (and b 0x0f))"
  by (simp_all add: hexdigit_def nibbles hex_digits)

lemma or_split: "or (push_bit n a) (take_bit n b) = push_bit n a + take_bit n b" for a b :: nat
  by (rule disjunctive_add_eq_or[symmetric]) (auto simp: bit_eq_iff bit_simps)

lemma version_byte: "unat (version_bits seq) = 112 + unat seq div 256 mod 16"
proof -
  have e: "and (drop_bit 8 seq) 0x0f = take_bit 4 (drop_bit 8 seq)" by (simp add: take_bit_eq_mask mask_eq_exp_minus_1)
  have "take_bit 16 (unat seq) = unat seq" by (rule take_bit_nat_eq_self) (use unsigned_less[where 'a = nat, of seq] in simp)
  then have d: "unat (drop_bit 8 seq) = unat seq div 256" by (simp only: unsigned_drop_bit_eq) (simp add: drop_bit_eq_div)
  have "unat (ucast (take_bit 4 (drop_bit 8 seq)) :: 8 word) = take_bit 4 (unat seq div 256)"
    by (simp only: unsigned_ucast_eq unsigned_take_bit_eq d) (simp add: take_bit_eq_mod mod_mod_cancel)
  moreover have "unat (0x70 :: 8 word) = push_bit 4 7" by (simp add: push_bit_eq_mult)
  ultimately show ?thesis
    using or_split[of 4 7 "unat seq div 256"] by (simp only: version_bits_def unsigned_or_eq e) (simp add: push_bit_eq_mult take_bit_eq_mod)
qed

lemma variant_byte: "unat (variant_bits b) = 128 + unat b mod 64"
proof -
  have e: "and b 0x3f = take_bit 6 b" by (simp add: take_bit_eq_mask mask_eq_exp_minus_1)
  have "unat (0x80 :: 8 word) = push_bit 6 2" by (simp add: push_bit_eq_mult)
  then show ?thesis using or_split[of 6 2 "unat b"]
    by (simp only: variant_bits_def unsigned_or_eq e unsigned_take_bit_eq) (simp add: push_bit_eq_mult take_bit_eq_mod or.commute)
qed

lemma uuid_form:
  assumes "length r = 8"
  shows "transferIDPattern (formatUUID (uuid_bytes ms seq r))"
proof -
  obtain a b c d e f g h where r: "r = [a, b, c, d, e, f, g, h]" using assms by (auto simp: length_Suc_conv numeral_eq_Suc)
  have v: "hexdigit (drop_bit 4 (version_bits seq)) = CHR ''7''"
    unfolding hexdigit_def nibbles(1) version_byte by simp
  have "128 + unat a mod 64 < 192" by simp
  then have "(128 + unat a mod 64) div 16 \<in> {8, 9, 10, 11}" by auto
  then have w: "hexdigit (drop_bit 4 (variant_bits a)) \<in> set ''89ab''"
    unfolding hexdigit_def nibbles(1) variant_byte by auto
  define hi lo where "hi = (\<lambda>b. hexdigit (drop_bit 4 b))" and "lo = (\<lambda>b. hexdigit (and b 0x0f))"
  have h: "hex_lower (hi x)" "hex_lower (lo x)" for x by (simp_all add: hi_def lo_def)
  have f: "formatUUID [x0, x1, x2, x3, x4, x5, x6, x7, x8, x9, xa, xb, xc, xd, xe, xf] =
      [hi x0, lo x0, hi x1, lo x1, hi x2, lo x2, hi x3, lo x3, CHR ''-'', hi x4, lo x4, hi x5, lo x5, CHR ''-'', hi x6, lo x6, hi x7, lo x7,
       CHR ''-'', hi x8, lo x8, hi x9, lo x9, CHR ''-'', hi xa, lo xa, hi xb, lo xb, hi xc, lo xc, hi xd, lo xd, hi xe, lo xe, hi xf, lo xf]"
    for x0 x1 x2 x3 x4 x5 x6 x7 x8 x9 xa xb xc xd xe xf by (simp add: formatUUID_def hi_def lo_def)
  have "hi (version_bits seq) = CHR ''7''" "hi (variant_bits a) \<in> set ''89ab''" using v w by (simp_all add: hi_def)
  then show ?thesis
    by (simp add: transferIDPattern_def uuid7_classes_def uuid_bytes_def r f h numeral_eq_Suc del: formatUUID_def)
qed

section \<open>The order of identifiers\<close>

lemma div_mod_less: "m < n \<Longrightarrow> m div k < n div k \<or> m div k = n div k \<and> m mod k < n mod k" for m n k :: nat
proof (cases "m div k = n div k")
  case True
  assume "m < n"
  then have "m div k * k + m mod k < n div k * k + n mod k" by (simp only: div_mult_mod_eq)
  with True show ?thesis by (simp only: add_less_cancel_left simp_thms)
next
  case False
  assume "m < n"
  then have "m div k \<le> n div k" by (intro div_le_mono) simp
  with False show ?thesis by simp
qed

lemma append_less: "p @ xs < p @ ys \<longleftrightarrow> xs < ys" for xs ys :: "'a::linorder list"
  by (induction p) simp_all

lemma less_append: "length xs = length ys \<Longrightarrow> xs < ys \<Longrightarrow> xs @ u < ys @ v" for xs ys :: "'a::linorder list"
  by (induction xs ys rule: list_induct2) auto

lemma format_less: "length bs = length cs \<Longrightarrow> bs < cs \<Longrightarrow> format_from i bs < format_from i cs"
proof (induction bs arbitrary: cs i)
  case (Cons b bs)
  then obtain c ds where cs: "cs = c # ds" by (cases cs) auto
  have less: "b < c \<or> b = c \<and> bs < ds" using Cons.prems(2) by (simp add: cs)
  show ?case
  proof (cases "b = c")
    case True
    with less Cons.IH[of ds "Suc i"] Cons.prems(1) show ?thesis by (simp add: cs append_less)
  next
    case False
    with less have "unat b < unat c" by (simp add: word_less_nat_alt)
    then have "unat b div 16 < unat c div 16 \<or> unat b div 16 = unat c div 16 \<and> unat b mod 16 < unat c mod 16"
      by (rule div_mod_less)
    then have "hexdigit (drop_bit 4 b) < hexdigit (drop_bit 4 c) \<or>
        hexdigit (drop_bit 4 b) = hexdigit (drop_bit 4 c) \<and> hexdigit (and b 0x0f) < hexdigit (and c 0x0f)"
    proof (elim disjE conjE)
      assume "unat b div 16 < unat c div 16"
      from hex_digits(2)[OF nibbles(3) this] show ?thesis by (simp only: hexdigit_def nibbles simp_thms)
    next
      assume e: "unat b div 16 = unat c div 16" "unat b mod 16 < unat c mod 16"
      have "unat c mod 16 < 16" by simp
      from hex_digits(2)[OF this e(2)] e(1) show ?thesis by (simp only: hexdigit_def nibbles simp_thms)
    qed
    then show ?thesis unfolding cs format_from.simps append_less append_Cons append_Nil Cons_less_Cons by blast
  qed
qed simp

fun big_endian :: "nat \<Rightarrow> int \<Rightarrow> 8 word list" where
  "big_endian 0 x = []"
| "big_endian (Suc n) x = of_int (x div 256 ^ n) # big_endian n x"

lemma length_big_endian [simp]: "length (big_endian n x) = n"
  by (induction n) simp_all

lemma be_bytes_less:
  "x mod 256 ^ n < y mod 256 ^ n \<Longrightarrow> big_endian n x < big_endian n y"
proof (induction n)
  case (Suc n)
  let ?X = "x div 256 ^ n mod 256" and ?Y = "y div 256 ^ n mod 256"
  have u: "uint (of_int (z div 256 ^ n) :: 8 word) = z div 256 ^ n mod 256" for z :: int
    by (simp add: uint_word_of_int)
  have e: "z mod 256 ^ Suc n = 256 ^ n * (z div 256 ^ n mod 256) + z mod 256 ^ n" for z :: int
    by (simp add: zmod_zmult2_eq mult.commute[of 256])
  show ?case
  proof (cases "?X < ?Y")
    case True
    then show ?thesis by (simp add: word_less_alt u)
  next
    case False
    have "?X = ?Y"
    proof (rule ccontr)
      assume "?X \<noteq> ?Y"
      with False have "?Y + 1 \<le> ?X" by simp
      then have "256 ^ n * (?Y + 1) \<le> 256 ^ n * ?X" by (intro mult_left_mono) simp_all
      moreover have "y mod 256 ^ n < 256 ^ n" "0 \<le> x mod 256 ^ n" by simp_all
      ultimately show False using Suc.prems unfolding e by (simp add: algebra_simps)
    qed
    moreover from this have "x mod 256 ^ n < y mod 256 ^ n" using Suc.prems unfolding e by simp
    moreover have "(of_int (x div 256 ^ n) :: 8 word) = of_int (y div 256 ^ n)"
      using calculation(1) u by (metis word_uint_eqI)
    ultimately show ?thesis using Suc.IH by simp
  qed
qed simp

text \<open>A new identifier has the form of a version-7 UUID that the transfer format accepts, and it sorts after the previous
  one exactly if the clock moved on or the counter did not wrap: only twelve bits of the counter reach the
  identifier, so after 4096 identifiers within one millisecond the order is lost.\<close>

theorem uuid_order_exact:
  assumes "0 \<le> mono_last st" and "mono_last st < 2 ^ 48" and "now < 2 ^ 48" and "length r = 8" and "length r' = 8"
  shows "transferIDPattern (fst (NewUUIDv7 now r' st)) \<and>
    (formatUUID (uuid_bytes (mono_last st) (mono_seq st) r) < fst (NewUUIDv7 now r' st) \<longleftrightarrow>
       mono_last st < now \<or> unat (mono_seq st) mod 4096 \<noteq> 4095)"
proof -
  have parts: "uuid_bytes ms seq r = big_endian 6 ms @ [version_bits seq, ucast seq] @ variant_bits (hd r) # tl r" for ms seq r
    by (simp add: uuid_bytes_def drop_bit_eq_div eval_nat_numeral)
  have seq: "[version_bits s, ucast s] @ x # xs < [version_bits t, ucast t] @ y # ys"
    if "unat s mod 4096 < unat t mod 4096" for s t :: "16 word" and x y xs ys
  proof -
    have "z mod 4096 div 256 = z div 256 mod 16" "z mod 4096 mod 256 = z mod 256" for z :: nat
      using mod_mult2_eq[of z 256 16] by (simp_all add: mod_mod_cancel)
    with div_mod_less[OF that, of 256] consider "version_bits s < version_bits t"
      | "version_bits s = version_bits t" "unat s mod 256 < unat t mod 256"
      by (auto simp: word_less_nat_alt word_unat_eq_iff version_byte)
    then show ?thesis by cases (simp_all add: word_less_nat_alt unsigned_ucast_eq take_bit_eq_mod)
  qed
  have ms: "big_endian 6 x < big_endian 6 y" if "0 \<le> x" "x < y" "y < 2 ^ 48" for x y
    using that by (intro be_bytes_less) simp
  have less: "formatUUID (uuid_bytes x s u) < formatUUID (uuid_bytes y t v)"
    if "big_endian 6 x < big_endian 6 y \<or> x = y \<and> unat s mod 4096 < unat t mod 4096" "length u = 8" "length v = 8" for x y s t u v
    unfolding formatUUID_def
  proof (rule format_less)
    show "length (uuid_bytes x s u) = length (uuid_bytes y t v)" using that by (simp add: uuid_bytes_def)
    show "uuid_bytes x s u < uuid_bytes y t v"
      unfolding parts
    proof (cases "big_endian 6 x < big_endian 6 y")
      case True
      then show "big_endian 6 x @ [version_bits s, ucast s] @ variant_bits (hd u) # tl u < big_endian 6 y @ [version_bits t, ucast t] @ variant_bits (hd v) # tl v"
        by (intro less_append) simp_all
    next
      case False
      with that(1) have "x = y" "unat s mod 4096 < unat t mod 4096" by simp_all
      then show "big_endian 6 x @ [version_bits s, ucast s] @ variant_bits (hd u) # tl u < big_endian 6 y @ [version_bits t, ucast t] @ variant_bits (hd v) # tl v"
        using seq[of s t] by (simp only: append_less)
    qed
  qed
  let ?st = "mono_tick now st"
  have "formatUUID (uuid_bytes (mono_last st) (mono_seq st) r) < formatUUID (uuid_bytes (mono_last ?st) (mono_seq ?st) r') \<longleftrightarrow>
       mono_last st < now \<or> unat (mono_seq st) mod 4096 \<noteq> 4095" (is "?id < ?id' \<longleftrightarrow> _")
  proof (cases "mono_last st < now")
    case True
    then have "mono_last ?st = now" by (simp add: mono_tick_def)
    with ms[OF assms(1) True assms(3)] True assms(4,5) show ?thesis by (simp add: less)
  next
    case False
    then have t: "mono_last ?st = mono_last st" "mono_seq ?st = mono_seq st + 1" by (simp_all add: mono_tick_def)
    have n: "unat (mono_seq st + 1) mod 4096 = (if unat (mono_seq st) mod 4096 = 4095 then 0 else unat (mono_seq st) mod 4096 + 1)"
    proof -
      have "unat (mono_seq st + 1) mod 4096 = (unat (mono_seq st) + 1) mod 65536 mod 4096" by (simp add: unat_word_ariths)
      also have "\<dots> = (unat (mono_seq st) + 1) mod 4096" by (rule mod_mod_cancel) simp
      finally show ?thesis by (simp add: mod_Suc)
    qed
    show ?thesis
    proof (cases "unat (mono_seq st) mod 4096 = 4095")
      case wrap: True
      with n t assms(4,5) have "?id' < ?id" by (simp add: less)
      with wrap False show ?thesis by auto
    next
      case no_wrap: False
      with n t assms(4,5) have "?id < ?id'" by (simp add: less)
      with no_wrap show ?thesis by simp
    qed
  qed
  then show ?thesis using uuid_form[OF assms(5)] by (simp add: NewUUIDv7_def Let_def)
qed

text \<open>The 4097th identifier of one millisecond sorts before the 4096th.\<close>

theorem uuid_order_exact_witness:
  "let st = \<lparr>mono_last = 1700000000000, mono_seq = 4095\<rparr>; r = replicate 8 0
   in transferIDPattern (fst (NewUUIDv7 1700000000000 r st)) \<and>
     \<not> formatUUID (uuid_bytes (mono_last st) (mono_seq st) r) < fst (NewUUIDv7 1700000000000 r st)"
  using uuid_order_exact[of "\<lparr>mono_last = 1700000000000, mono_seq = 4095\<rparr>" 1700000000000 "replicate 8 0" "replicate 8 0"]
  by (simp add: Let_def)

end
