(* ===== verification/Http.thy ===== *)
theory Http
  imports GoPath GoEncode
begin

text \<open>
  Requests as the handlers see them, \<open>httpapi/origin.go\<close> and the address resolution of
  \<open>httpapi/middleware.go\<close>.  \<open>url.Parse\<close>, \<open>net.ParseIP\<close>, \<open>net.ParseCIDR\<close> and Unicode case folding are
  parameters; \<open>net.SplitHostPort\<close> is modelled.
\<close>

section \<open>Requests\<close>

text \<open>The values of a header in the order of its lines; \<open>Header.Get\<close> answers with the first one.\<close>

record request =
  rq_method :: string
  rq_remote :: string
  rq_tls :: bool
  rq_host :: string
  rq_headers :: "string \<Rightarrow> string list"
  rq_cookies :: "string \<Rightarrow> string option"

definition header :: "request \<Rightarrow> string \<Rightarrow> string" where
  "header r h = (case rq_headers r h of [] \<Rightarrow> '''' | v # vs \<Rightarrow> v)"

section \<open>Host and port\<close>

definition first_index :: "char \<Rightarrow> string \<Rightarrow> nat option" where
  "first_index c s = (if c \<in> set s then Some (length (takeWhile (\<lambda>x. x \<noteq> c) s)) else None)"

definition last_index :: "char \<Rightarrow> string \<Rightarrow> nat option" where
  "last_index c s = (if c \<in> set s then Some (length s - 1 - length (takeWhile (\<lambda>x. x \<noteq> c) (rev s))) else None)"

datatype addr_error = MissingPort | TooManyColons | MissingBracket | UnexpectedBracket

definition split_rest :: "string \<Rightarrow> string \<Rightarrow> nat \<Rightarrow> nat \<Rightarrow> nat \<Rightarrow> addr_error + (string \<times> string)" where
  "split_rest s host j k i =
    (if CHR ''['' \<in> set (drop j s) \<or> CHR '']'' \<in> set (drop k s) then Inl UnexpectedBracket else Inr (host, drop (Suc i) s))"

definition SplitHostPort :: "string \<Rightarrow> addr_error + (string \<times> string)" where
  "SplitHostPort s = (case last_index (CHR '':'') s of
      None \<Rightarrow> Inl MissingPort
    | Some i \<Rightarrow>
        if hd s = CHR ''['' then (case first_index (CHR '']'') s of
            None \<Rightarrow> Inl MissingBracket
          | Some e \<Rightarrow>
              if Suc e = length s then Inl MissingPort
              else if Suc e = i then split_rest s (take (e - 1) (drop 1 s)) 1 (Suc e) i
              else if s ! (Suc e) = CHR '':'' then Inl TooManyColons else Inl MissingPort)
        else if CHR '':'' \<in> set (take i s) then Inl TooManyColons
        else split_rest s (take i s) 0 0 i)"

section \<open>The parameters of the network libraries\<close>

record url =
  ur_scheme :: string
  ur_host :: string
  ur_path :: string
  ur_query :: string
  ur_fragment :: string
  ur_user :: bool

text \<open>An address after \<open>To4\<close>: IPv4-mapped addresses count as IPv4.\<close>

datatype ip = IP4 "32 word" | IP6 "128 word"

type_synonym cidr = "ip \<times> nat"

record net_env =
  ne_url :: "string \<Rightarrow> url option"
  ne_ip :: "string \<Rightarrow> ip option"
  ne_cidr :: "string \<Rightarrow> cidr option"
  ne_fold :: "string \<Rightarrow> string \<Rightarrow> bool"

definition EqualFold :: "net_env \<Rightarrow> string \<Rightarrow> string \<Rightarrow> bool" where
  "EqualFold N a b = (if ascii a \<and> ascii b then map lower_char a = map lower_char b else ne_fold N a b)"

section \<open>The same-origin rule\<close>

definition splitAuthority :: "string \<Rightarrow> (string \<times> string) option" where
  "splitAuthority a =
    (if CHR ''/'' \<in> set a \<or> CHR ''@'' \<in> set a then None
     else case SplitHostPort a of Inr hp \<Rightarrow> Some hp | Inl MissingPort \<Rightarrow> Some (a, '''') | Inl e \<Rightarrow> None)"

definition defaultPort :: "string \<Rightarrow> string" where
  "defaultPort scheme = (if scheme = ''https'' then ''443'' else ''80'')"

definition effectivePort :: "string \<Rightarrow> string \<Rightarrow> string" where
  "effectivePort scheme port = (if port = '''' then defaultPort scheme else port)"

definition sameAuthority :: "net_env \<Rightarrow> url \<Rightarrow> string \<Rightarrow> bool" where
  "sameAuthority N u requestHost = (case splitAuthority (ur_host u) of None \<Rightarrow> False
    | Some (host, port) \<Rightarrow> (case splitAuthority requestHost of None \<Rightarrow> False
      | Some (reqHost, reqPort) \<Rightarrow>
          if \<not> EqualFold N host reqHost then False
          else effectivePort (ur_scheme u) port = effectivePort (ur_scheme u) reqPort))"

definition originAllowed :: "net_env \<Rightarrow> request \<Rightarrow> bool" where
  "originAllowed N r =
    (let origin = header r ''Origin'' in
     if origin = '''' then True
     else case ne_url N origin of None \<Rightarrow> False
       | Some u \<Rightarrow>
          if ur_host u = '''' \<or> ur_path u \<noteq> '''' \<or> ur_query u \<noteq> '''' \<or> ur_fragment u \<noteq> '''' \<or> ur_user u then False
          else if ur_scheme u \<noteq> ''http'' \<and> ur_scheme u \<noteq> ''https'' then False
          else sameAuthority N u (rq_host r))"

lemma originAllowedD:
  assumes "originAllowed N r" and "header r ''Origin'' \<noteq> ''''"
  shows "\<exists>u host port reqHost reqPort. ne_url N (header r ''Origin'') = Some u \<and>
    ur_scheme u \<in> {''http'', ''https''} \<and> ur_path u = '''' \<and> \<not> ur_user u \<and>
    splitAuthority (ur_host u) = Some (host, port) \<and> splitAuthority (rq_host r) = Some (reqHost, reqPort) \<and>
    EqualFold N host reqHost \<and> effectivePort (ur_scheme u) port = effectivePort (ur_scheme u) reqPort"
proof -
  from assms obtain u where u: "ne_url N (header r ''Origin'') = Some u" "ur_path u = ''''" "\<not> ur_user u"
    "ur_scheme u \<in> {''http'', ''https''}" "sameAuthority N u (rq_host r)"
    by (auto simp: originAllowed_def Let_def split: option.splits if_splits)
  from u(5) obtain x y where xy: "splitAuthority (ur_host u) = Some x" "splitAuthority (rq_host r) = Some y"
    by (cases "splitAuthority (ur_host u)"; cases "splitAuthority (rq_host r)") (simp_all add: sameAuthority_def)
  with u(5) have "EqualFold N (fst x) (fst y)" "effectivePort (ur_scheme u) (snd x) = effectivePort (ur_scheme u) (snd y)"
    by (simp_all add: sameAuthority_def split: prod.splits if_splits)
  with xy have "\<exists>host port reqHost reqPort. splitAuthority (ur_host u) = Some (host, port) \<and> splitAuthority (rq_host r) = Some (reqHost, reqPort) \<and>
      EqualFold N host reqHost \<and> effectivePort (ur_scheme u) port = effectivePort (ur_scheme u) reqPort"
    by (metis prod.collapse)
  with u show ?thesis by blast
qed

definition secFetchSiteAllowed :: "request \<Rightarrow> bool" where
  "secFetchSiteAllowed r \<longleftrightarrow> header r ''Sec-Fetch-Site'' \<in> {'''', ''same-origin'', ''none''}"

section \<open>The client address\<close>

fun itoa_from :: "nat \<Rightarrow> string \<Rightarrow> string" where
  "itoa_from n buf = (if n = 0 then buf else itoa_from (n div 10) (digit_char (n mod 10) # buf))"

declare itoa_from.simps [simp del]

definition itoa :: "nat \<Rightarrow> string" where
  "itoa n = (if n = 0 then ''0'' else itoa_from n '''')"

definition single_address :: "net_env \<Rightarrow> string \<Rightarrow> string" where
  "single_address N part =
    (if CHR ''/'' \<in> set part then part
     else case ne_ip N part of None \<Rightarrow> part
       | Some (IP4 a) \<Rightarrow> part @ ''/'' @ itoa 32
       | Some (IP6 a) \<Rightarrow> part @ ''/'' @ itoa 128)"

fun parse_proxies :: "net_env \<Rightarrow> string list \<Rightarrow> unit + cidr list" where
  "parse_proxies N [] = Inr []"
| "parse_proxies N (p # ps) =
    (let part = trim_space p in
     if part = '''' then parse_proxies N ps
     else case ne_cidr N (single_address N part) of None \<Rightarrow> Inl ()
       | Some c \<Rightarrow> andthen (parse_proxies N ps) (\<lambda>cs. Inr (c # cs)))"

definition ParseTrustedProxies :: "net_env \<Rightarrow> string \<Rightarrow> unit + cidr list" where
  "ParseTrustedProxies N spec =
    (let spec = trim_space spec in if spec = '''' then Inr [] else parse_proxies N (split_on (CHR '','') spec))"

text \<open>\<open>IPNet.Contains\<close>: the leading bits agree, within one family.\<close>

fun net_contains :: "cidr \<Rightarrow> ip \<Rightarrow> bool" where
  "net_contains (IP4 n, m) (IP4 a) = (drop_bit (32 - m) a = drop_bit (32 - m) n)"
| "net_contains (IP6 n, m) (IP6 a) = (drop_bit (128 - m) a = drop_bit (128 - m) n)"
| "net_contains _ _ = False"

definition trusted :: "cidr list \<Rightarrow> ip option \<Rightarrow> bool" where
  "trusted nets x = (case x of None \<Rightarrow> False | Some a \<Rightarrow> \<exists>n \<in> set nets. net_contains n a)"

definition maxForwardedHops :: nat where "maxForwardedHops = 64"

definition stripPort :: "string \<Rightarrow> string" where
  "stripPort hp = (case SplitHostPort hp of Inr (host, port) \<Rightarrow> host | Inl e \<Rightarrow> hp)"

text \<open>The loop over the forwarded entries, given from the last to the first.\<close>

fun first_untrusted :: "net_env \<Rightarrow> cidr list \<Rightarrow> string list \<Rightarrow> string option" where
  "first_untrusted N nets [] = None"
| "first_untrusted N nets (e # es) =
    (let candidate = stripPort (trim_space e); a = ne_ip N candidate in
     if a \<noteq> None \<and> \<not> trusted nets a then Some candidate else first_untrusted N nets es)"

definition peer_host :: "request \<Rightarrow> string" where
  "peer_host r = (case SplitHostPort (rq_remote r) of Inr (h, p) \<Rightarrow> h | Inl e \<Rightarrow> rq_remote r)"

definition Resolve :: "net_env \<Rightarrow> cidr list \<Rightarrow> request \<Rightarrow> string \<times> string" where
  "Resolve N nets r =
    (let proto = (if rq_tls r then ''https'' else ''http'');
         peerHost = peer_host r in
     if \<not> trusted nets (ne_ip N peerHost) then (peerHost, proto)
     else let xfp = header r ''X-Forwarded-Proto'';
              proto = (if xfp = ''https'' \<or> xfp = ''http'' then xfp else proto);
              xff = header r ''X-Forwarded-For'' in
       if xff = '''' then (peerHost, proto)
       else let entries = split_on (CHR '','') xff;
                entries = drop (length entries - maxForwardedHops) entries in
         case first_untrusted N nets (rev entries) of
           Some c \<Rightarrow> (c, proto) | None \<Rightarrow> (stripPort (trim_space (hd entries)), proto))"

definition sourceKey :: "net_env \<Rightarrow> cidr list \<Rightarrow> request \<Rightarrow> string" where
  "sourceKey N nets r = fst (Resolve N nets r)"

section \<open>Nobody chooses the address\<close>

lemma first_untrusted_append:
  "first_untrusted N nets (xs @ ys) = (case first_untrusted N nets xs of None \<Rightarrow> first_untrusted N nets ys | Some c \<Rightarrow> Some c)"
  by (induction xs) (simp_all add: Let_def)

lemma first_untrusted_SomeD:
  "first_untrusted N nets es = Some c \<Longrightarrow> ne_ip N c \<noteq> None \<and> \<not> trusted nets (ne_ip N c)"
  by (induction es) (auto simp: Let_def split: if_splits)

lemma Resolve_untrusted:
  "\<not> trusted nets (ne_ip N (peer_host r)) \<Longrightarrow> Resolve N nets r = (peer_host r, if rq_tls r then ''https'' else ''http'')"
  by (simp add: Resolve_def Let_def)

text \<open>The address that the rate limits count cannot be chosen by the client.  From a peer that is not a
  trusted proxy it is the address of the peer, whatever the headers say; from a trusted one it is the last
  untrusted address of the chain that the proxies wrote, whatever the client had put before it in that header.\<close>

theorem client_address_not_spoofable:
  assumes "header r ''X-Forwarded-For'' = spoof @ CHR '','' # chain" and "length (split_on (CHR '','') chain) \<le> 64"
    and "first_untrusted N nets (rev (split_on (CHR '','') chain)) = Some c"
  shows "sourceKey N nets r = (if trusted nets (ne_ip N (peer_host r)) then c else peer_host r)
    \<and> ne_ip N c \<noteq> None \<and> \<not> trusted nets (ne_ip N c)"
proof -
  let ?A = "split_on (CHR '','') spoof" and ?B = "split_on (CHR '','') chain"
  have e: "split_on (CHR '','') (header r ''X-Forwarded-For'') = ?A @ ?B"
    unfolding assms(1) by (rule split_on_append_sep)
  have d: "drop (length (?A @ ?B) - maxForwardedHops) (?A @ ?B) = drop (length (?A @ ?B) - maxForwardedHops) ?A @ ?B"
    using assms(2) by (simp add: maxForwardedHops_def)
  have "first_untrusted N nets (rev (drop (length (?A @ ?B) - maxForwardedHops) (?A @ ?B))) = Some c"
    unfolding d by (simp add: first_untrusted_append assms(3))
  then have fu: "first_untrusted N nets (rev (drop (length (split_on (CHR '','') (header r ''X-Forwarded-For'')) - maxForwardedHops)
      (split_on (CHR '','') (header r ''X-Forwarded-For'')))) = Some c" unfolding e .
  have "header r ''X-Forwarded-For'' \<noteq> ''''" by (simp add: assms(1))
  with fu have "sourceKey N nets r = c" if "trusted nets (ne_ip N (peer_host r))"
    using that by (simp add: sourceKey_def Resolve_def Let_def)
  moreover have "sourceKey N nets r = peer_host r" if "\<not> trusted nets (ne_ip N (peer_host r))"
    using Resolve_untrusted[OF that] by (simp add: sourceKey_def)
  ultimately show ?thesis using first_untrusted_SomeD[OF assms(3)] by simp
qed

text \<open>A network with the proxy \<open>10.0.0.1\<close>.\<close>

definition sample_net :: net_env where
  "sample_net = \<lparr>ne_url = (\<lambda>s. None), ne_ip = (\<lambda>s. if s = ''10.0.0.1'' then Some (IP4 0x0A000001)
       else if s = ''9.9.9.9'' then Some (IP4 0x09090909) else if s = ''6.6.6.6'' then Some (IP4 0x06060606) else None),
     ne_cidr = (\<lambda>s. None), ne_fold = (=)\<rparr>"

definition proxied :: "string list \<Rightarrow> request" where
  "proxied xff = \<lparr>rq_method = ''POST'', rq_remote = ''10.0.0.1:443'', rq_tls = False, rq_host = ''h'',
     rq_headers = (\<lambda>h. if h = ''X-Forwarded-For'' then xff else []), rq_cookies = (\<lambda>c. None)\<rparr>"

lemma proxy_samples:
  "trusted [(IP4 0x0A000000, 8)] (ne_ip sample_net ''10.0.0.1'')" "\<not> trusted [(IP4 0x0A000000, 8)] (ne_ip sample_net ''9.9.9.9'')"
  "\<not> trusted [(IP4 0x0A000000, 8)] (ne_ip sample_net ''6.6.6.6'')"
  "stripPort ''10.0.0.1'' = ''10.0.0.1''" "stripPort ''9.9.9.9'' = ''9.9.9.9''" "stripPort ''6.6.6.6'' = ''6.6.6.6''"
  "trim_space ''10.0.0.1'' = ''10.0.0.1''" "trim_space ''9.9.9.9'' = ''9.9.9.9''" "trim_space ''6.6.6.6'' = ''6.6.6.6''"
  "ne_ip sample_net ''9.9.9.9'' \<noteq> None" "ne_ip sample_net ''6.6.6.6'' \<noteq> None"
  "peer_host (proxied x) = ''10.0.0.1''"
  by (simp_all add: trusted_def sample_net_def stripPort_def SplitHostPort_def last_index_def split_rest_def peer_host_def proxied_def
      trim_space_id ascii_def graphic_def)

theorem client_address_not_spoofable_witness:
  "sourceKey sample_net [(IP4 0x0A000000, 8)] (proxied [''6.6.6.6,9.9.9.9,10.0.0.1'']) = ''9.9.9.9''"
proof -
  have "first_untrusted sample_net [(IP4 0x0A000000, 8)] (rev (split_on (CHR '','') ''9.9.9.9,10.0.0.1'')) = Some ''9.9.9.9''"
    using proxy_samples by (simp add: Let_def)
  moreover have "header (proxied [''6.6.6.6,9.9.9.9,10.0.0.1'']) ''X-Forwarded-For'' = ''6.6.6.6'' @ CHR '','' # ''9.9.9.9,10.0.0.1''"
    by (simp add: header_def proxied_def)
  moreover have "length (split_on (CHR '','') ''9.9.9.9,10.0.0.1'') \<le> 64" by simp
  ultimately show ?thesis using client_address_not_spoofable proxy_samples(1,12) by metis
qed

text \<open>Only the first line of the header is read: a proxy that appends its own line instead of extending the
  client's leaves the choice of the address to the client.\<close>

lemma second_line_ignored:
  "sourceKey sample_net [(IP4 0x0A000000, 8)] (proxied [''6.6.6.6'', ''9.9.9.9'']) = ''6.6.6.6''"
proof -
  have "header (proxied [''6.6.6.6'', ''9.9.9.9'']) ''X-Forwarded-For'' = ''6.6.6.6''"
    "header (proxied [''6.6.6.6'', ''9.9.9.9'']) ''X-Forwarded-Proto'' = ''''" by (simp_all add: header_def proxied_def)
  then show ?thesis using proxy_samples by (simp add: sourceKey_def Resolve_def Let_def maxForwardedHops_def)
qed

end
