(* ===== verification/HttpGuard.thy ===== *)
theory HttpGuard
  imports Http AccountWitness
begin

text \<open>
  \<open>httpapi/csrf.go\<close>, the guards of \<open>httpapi/auth.go\<close> and \<open>httpapi/audit.go\<close>, the error responses: which
  requests reach a handler.  The clock and the random bytes are arguments.
\<close>

section \<open>Responses\<close>

datatype 'b resp = Problem nat string | Reply nat 'b

text \<open>The outcome of \<open>decodeJSONBody\<close>: the strict decoder is the library's.\<close>

datatype 'a body = BodyTooLarge | BodyMalformed | Body 'a

definition decodeJSONBody :: "'a body \<Rightarrow> 'b resp + 'a" where
  "decodeJSONBody b = (case b of
      BodyTooLarge \<Rightarrow> Inl (Problem 413 ''PAYLOAD_TOO_LARGE'')
    | BodyMalformed \<Rightarrow> Inl (Problem 400 ''VALIDATION_ERROR'')
    | Body x \<Rightarrow> Inr x)"

definition writeAuthError :: "auth_error \<Rightarrow> 'b resp" where
  "writeAuthError e = (case e of
      ErrUnauthorized \<Rightarrow> Problem 401 ''UNAUTHORIZED''
    | ErrAccountDisabled \<Rightarrow> Problem 403 ''ACCOUNT_DISABLED''
    | ErrPasswordChangeRequired \<Rightarrow> Problem 403 ''PASSWORD_CHANGE_REQUIRED''
    | ErrRateLimited \<Rightarrow> Problem 429 ''RATE_LIMITED''
    | auth_error.ErrNotFound \<Rightarrow> Problem 404 ''NOT_FOUND''
    | AuthPassword ErrPasswordPolicy \<Rightarrow> Problem 400 ''VALIDATION_ERROR''
    | ErrInvalidIdleTimeout \<Rightarrow> Problem 400 ''VALIDATION_ERROR''
    | _ \<Rightarrow> Problem 500 ''INTERNAL'')"

section \<open>The guards\<close>

definition sessionCookieName :: string where "sessionCookieName = ''tiny_password_session''"

definition sessionToken :: "request \<Rightarrow> string" where
  "sessionToken r = (case rq_cookies r sessionCookieName of None \<Rightarrow> '''' | Some v \<Rightarrow> v)"

definition reads_only :: "request \<Rightarrow> bool" where
  "reads_only r \<longleftrightarrow> rq_method r = ''GET'' \<or> rq_method r = ''HEAD''"

definition RequireSession :: "net_env \<Rightarrow> auth_env \<Rightarrow> time \<Rightarrow> bool \<Rightarrow> request \<Rightarrow> db \<Rightarrow> 'b resp + principal" where
  "RequireSession N E now allow r d = (case Authenticate E now (sessionToken r) d of
      Inl e \<Rightarrow> Inl (writeAuthError e)
    | Inr p \<Rightarrow>
        if p_must_change p \<and> \<not> allow then Inl (writeAuthError ErrPasswordChangeRequired)
        else if \<not> reads_only r \<and> (\<not> originAllowed N r \<or> \<not> secFetchSiteAllowed r) then Inl (Problem 403 ''FORBIDDEN'')
        else if \<not> reads_only r \<and> \<not> VerifyCSRF E (sessionToken r) (header r ''X-CSRF-Token'') then Inl (Problem 403 ''FORBIDDEN'')
        else Inr p)"

definition RequireAdmin :: "net_env \<Rightarrow> auth_env \<Rightarrow> time \<Rightarrow> bool \<Rightarrow> request \<Rightarrow> db \<Rightarrow> 'b resp + principal" where
  "RequireAdmin N E now allow r d =
    andthen (RequireSession N E now allow r d) (\<lambda>p. if p_role p \<noteq> ''admin'' then Inl (Problem 403 ''FORBIDDEN'') else Inr p)"

section \<open>Contexts before the login\<close>

definition preAuthCookieName :: string where "preAuthCookieName = ''tiny_password_preauth''"
definition preAuthTTL :: time where "preAuthTTL = 15 * minute_ns"

record preauth_entry =
  pe_sha :: bytes
  pe_expires :: time

type_synonym preauth = "bytes \<rightharpoonup> preauth_entry"

definition pruneLocked :: "time \<Rightarrow> preauth \<Rightarrow> preauth" where
  "pruneLocked now m = (\<lambda>k. case m k of None \<Rightarrow> None | Some e \<Rightarrow> if pe_expires e < now then None else Some e)"

text \<open>The token, the value of the cookie, and the new contexts.\<close>

definition Issue :: "auth_env \<Rightarrow> time \<Rightarrow> bytes \<Rightarrow> bytes \<Rightarrow> preauth \<Rightarrow> string \<times> string \<times> preauth" where
  "Issue E now ctx raw m =
    (let token = base64_encode url_alphabet raw in
     (token, base64_encode url_alphabet ctx,
      (pruneLocked now m)(ctx \<mapsto> \<lparr>pe_sha = ae_sha256 E (bytes_of token), pe_expires = now + preAuthTTL\<rparr>)))"

definition preauth_ctx :: "request \<Rightarrow> bytes option" where
  "preauth_ctx r = (case rq_cookies r preAuthCookieName of None \<Rightarrow> None
    | Some v \<Rightarrow> if v = '''' then None else base64_decode url_alphabet v)"

definition preauth_Verify :: "auth_env \<Rightarrow> time \<Rightarrow> request \<Rightarrow> preauth \<Rightarrow> bool \<times> preauth" where
  "preauth_Verify E now r m = (case preauth_ctx r of None \<Rightarrow> (False, m)
    | Some ctx \<Rightarrow>
        let presented = header r ''X-CSRF-Token'' in
        if presented = '''' then (False, m)
        else let sum = ae_sha256 E (bytes_of presented) in
          case m ctx of None \<Rightarrow> (False, m(ctx := None))
          | Some e \<Rightarrow> if pe_expires e < now then (False, m(ctx := None))
              else (list_all (\<lambda>i. pe_sha e ! i = sum ! i) [0..<length (pe_sha e)], m))"

definition Consume :: "request \<Rightarrow> preauth \<Rightarrow> preauth" where
  "Consume r m = (case preauth_ctx r of None \<Rightarrow> m | Some ctx \<Rightarrow> m(ctx := None))"

section \<open>The rate limiter before the login\<close>

record rate_limiter =
  rl_hits :: "string \<Rightarrow> time list"
  rl_limit :: nat
  rl_window :: time

definition NewRateLimiter :: "nat \<Rightarrow> time \<Rightarrow> rate_limiter" where
  "NewRateLimiter limit window = \<lparr>rl_hits = (\<lambda>k. []), rl_limit = limit, rl_window = window\<rparr>"

definition Allow :: "time \<Rightarrow> string \<Rightarrow> rate_limiter \<Rightarrow> bool \<times> rate_limiter" where
  "Allow now key l =
    (let recent = filter (\<lambda>t. now - t < rl_window l) (rl_hits l key) in
     if rl_limit l \<le> length recent then (False, l\<lparr>rl_hits := (rl_hits l)(key := recent)\<rparr>)
     else (True, l\<lparr>rl_hits := (rl_hits l)(key := recent @ [now])\<rparr>))"

section \<open>What passes the guards\<close>

text \<open>C14: A state-changing request that reaches an administrator handler comes from a live session of an active
  administrator without a pending password change, carries the CSRF token of exactly this session, and has
  no cross-origin mark: \<open>Sec-Fetch-Site\<close> is absent or of the site itself, and an \<open>Origin\<close> names an http or https
  origin with the host and the effective port of the request.\<close>

theorem admin_write_guarded:
  assumes "RequireAdmin N E now False r d = (Inr p :: 'b resp + principal)" and "\<not> reads_only r"
  shows "(\<exists>s \<in> set (sessions d). \<exists>u \<in> set (users d). s_id s = digest E (sessionToken r) \<and> live_at now s \<and> u_id u = s_user s \<and>
      u_status u = ''active'' \<and> u_role u = ''admin'' \<and> \<not> u_must_change u \<and> p = principal_of u s) \<and>
    sessionToken r \<noteq> '''' \<and> header r ''X-CSRF-Token'' = CSRFToken E (sessionToken r) \<and>
    header r ''Sec-Fetch-Site'' \<in> {'''', ''same-origin'', ''none''} \<and>
    (header r ''Origin'' = '''' \<or> (\<exists>u host port reqHost reqPort. ne_url N (header r ''Origin'') = Some u \<and>
       ur_scheme u \<in> {''http'', ''https''} \<and> ur_path u = '''' \<and> \<not> ur_user u \<and>
       splitAuthority (ur_host u) = Some (host, port) \<and> splitAuthority (rq_host r) = Some (reqHost, reqPort) \<and> EqualFold N host reqHost \<and>
       effectivePort (ur_scheme u) port = effectivePort (ur_scheme u) reqPort))"
proof -
  from assms(1) have s: "RequireSession N E now False r d = (Inr p :: 'b resp + principal)" and role: "p_role p = ''admin''"
    by (auto simp: RequireAdmin_def andthen_Inr split: if_splits)
  from s assms(2) have a: "Authenticate E now (sessionToken r) d = Inr p" and change: "\<not> p_must_change p"
    and o: "originAllowed N r" "secFetchSiteAllowed r" and c: "VerifyCSRF E (sessionToken r) (header r ''X-CSRF-Token'')"
    by (auto simp: RequireSession_def split: sum.splits if_splits)
  obtain s u where su: "s \<in> set (sessions d)" "s_id s = digest E (sessionToken r)" "live_at now s" "u \<in> set (users d)" "u_id u = s_user s"
    "u_status u = ''active''" "p = principal_of u s" by (rule Authenticate_InrD[OF a])
  have "u_role u = ''admin''" "\<not> u_must_change u" using role change su(7) by (simp_all add: principal_of_def)
  then have "\<exists>s \<in> set (sessions d). \<exists>u \<in> set (users d). s_id s = digest E (sessionToken r) \<and> live_at now s \<and> u_id u = s_user s \<and>
      u_status u = ''active'' \<and> u_role u = ''admin'' \<and> \<not> u_must_change u \<and> p = principal_of u s" using su by blast
  moreover have "sessionToken r \<noteq> ''''" "header r ''X-CSRF-Token'' = CSRFToken E (sessionToken r)"
    using c by (simp_all add: VerifyCSRF_def)
  moreover have "header r ''Sec-Fetch-Site'' \<in> {'''', ''same-origin'', ''none''}" using o(2) by (simp only: secFetchSiteAllowed_def)
  moreover have "header r ''Origin'' = '''' \<or> (\<exists>u host port reqHost reqPort. ne_url N (header r ''Origin'') = Some u \<and>
       ur_scheme u \<in> {''http'', ''https''} \<and> ur_path u = '''' \<and> \<not> ur_user u \<and>
       splitAuthority (ur_host u) = Some (host, port) \<and> splitAuthority (rq_host r) = Some (reqHost, reqPort) \<and> EqualFold N host reqHost \<and>
       effectivePort (ur_scheme u) port = effectivePort (ur_scheme u) reqPort)"
    using originAllowedD[OF o(1)] by blast
  ultimately show ?thesis by blast
qed

section \<open>A context before the login is fresh and used once\<close>

datatype csrf_op = CIssue time bytes bytes | CVerify time request | CConsume request

fun csrf_step :: "auth_env \<Rightarrow> csrf_op \<Rightarrow> preauth \<Rightarrow> preauth" where
  "csrf_step E (CIssue now ctx raw) m = snd (snd (Issue E now ctx raw m))"
| "csrf_step E (CVerify now r) m = snd (preauth_Verify E now r m)"
| "csrf_step E (CConsume r) m = Consume r m"

definition csrf_run :: "auth_env \<Rightarrow> csrf_op list \<Rightarrow> preauth" where
  "csrf_run E ops = foldl (\<lambda>m q. csrf_step E q m) Map.empty ops"

fun ends_ctx :: "bytes \<Rightarrow> csrf_op \<Rightarrow> bool" where
  "ends_ctx ctx (CIssue now c raw) \<longleftrightarrow> c = ctx"
| "ends_ctx ctx (CVerify now r) \<longleftrightarrow> False"
| "ends_ctx ctx (CConsume r) \<longleftrightarrow> preauth_ctx r = Some ctx"

lemma csrf_entry_issued:
  "csrf_run E ops ctx = Some e \<Longrightarrow> \<exists>before t raw after. ops = before @ CIssue t ctx raw # after \<and>
     e = \<lparr>pe_sha = ae_sha256 E (bytes_of (base64_encode url_alphabet raw)), pe_expires = t + preAuthTTL\<rparr> \<and> (\<forall>q \<in> set after. \<not> ends_ctx ctx q)"
proof (induction ops rule: rev_induct)
  case (snoc q ops)
  let ?m = "csrf_run E ops"
  have now: "csrf_step E q ?m ctx = Some e" using snoc.prems by (simp add: csrf_run_def)
  show ?case
  proof (cases "\<exists>t raw. q = CIssue t ctx raw")
    case True
    then obtain t raw where q: "q = CIssue t ctx raw" by blast
    with now show ?thesis
      by (intro exI[of _ ops] exI[of _ t] exI[of _ raw] exI[of _ "[]"]) (simp add: Issue_def Let_def)
  next
    case False
    have "?m ctx = Some e \<and> \<not> ends_ctx ctx q"
      using now False by (cases q) (auto simp: Issue_def Let_def pruneLocked_def preauth_Verify_def Consume_def
        split: option.splits if_splits)
    with snoc.IH obtain before t raw after where "ops = before @ CIssue t ctx raw # after" "\<forall>q \<in> set after. \<not> ends_ctx ctx q"
      "e = \<lparr>pe_sha = ae_sha256 E (bytes_of (base64_encode url_alphabet raw)), pe_expires = t + preAuthTTL\<rparr>" by blast
    with \<open>?m ctx = Some e \<and> \<not> ends_ctx ctx q\<close> show ?thesis
      by (intro exI[of _ before] exI[of _ t] exI[of _ raw] exI[of _ "after @ [q]"]) auto
  qed
qed (simp add: csrf_run_def)

text \<open>A pre-login CSRF token is accepted only for the context of its cookie, within fifteen minutes of the issue of
  that context, with the digest of the token issued for it, and never again after the context was consumed by a
  login or setup (or replaced by a new issue).\<close>

theorem preauth_token_fresh:
  assumes "fst (preauth_Verify E now r (csrf_run E ops))" and "\<And>b. length (ae_sha256 E b) = 32"
  shows "\<exists>ctx before t raw after. preauth_ctx r = Some ctx \<and> ops = before @ CIssue t ctx raw # after \<and>
     now \<le> t + 15 * minute_ns \<and> ae_sha256 E (bytes_of (header r ''X-CSRF-Token'')) = ae_sha256 E (bytes_of (base64_encode url_alphabet raw)) \<and>
     (\<forall>q \<in> set after. \<not> ends_ctx ctx q)"
proof -
  from assms(1) obtain ctx e where c: "preauth_ctx r = Some ctx" "csrf_run E ops ctx = Some e" "now \<le> pe_expires e"
    "list_all (\<lambda>i. pe_sha e ! i = ae_sha256 E (bytes_of (header r ''X-CSRF-Token'')) ! i) [0..<length (pe_sha e)]"
    by (auto simp: preauth_Verify_def Let_def split: option.splits if_splits)
  obtain before t raw after where i: "ops = before @ CIssue t ctx raw # after" "\<forall>q \<in> set after. \<not> ends_ctx ctx q"
    "e = \<lparr>pe_sha = ae_sha256 E (bytes_of (base64_encode url_alphabet raw)), pe_expires = t + preAuthTTL\<rparr>"
    using csrf_entry_issued[OF c(2)] by blast
  have "pe_sha e = ae_sha256 E (bytes_of (header r ''X-CSRF-Token''))"
    using c(4) by (intro nth_equalityI) (simp_all add: i(3) assms(2) list_all_iff)
  then have "now \<le> t + 15 * minute_ns \<and> ae_sha256 E (bytes_of (header r ''X-CSRF-Token'')) = ae_sha256 E (bytes_of (base64_encode url_alphabet raw))"
    using c(3) i(3) by (simp add: preAuthTTL_def)
  with c(1) i(1,2) show ?thesis by blast
qed

section \<open>The limiter is a rolling window\<close>

fun allow_run :: "(time \<times> string) list \<Rightarrow> rate_limiter \<Rightarrow> bool list" where
  "allow_run [] l = []"
| "allow_run ((now, key) # cs) l = (case Allow now key l of (ok, l') \<Rightarrow> ok # allow_run cs l')"

text \<open>The reference: a call is admitted if fewer than the limit were admitted for its key within the window.\<close>

definition within :: "time \<Rightarrow> time \<Rightarrow> string \<Rightarrow> (time \<times> string) list \<Rightarrow> time list" where
  "within w T key adm = map fst (filter (\<lambda>(t, k). k = key \<and> T - t < w \<and> t \<le> T) adm)"

fun rolling :: "nat \<Rightarrow> time \<Rightarrow> (time \<times> string) list \<Rightarrow> (time \<times> string) list \<Rightarrow> bool list" where
  "rolling limit w [] adm = []"
| "rolling limit w ((now, key) # cs) adm =
    (let ok = length (within w now key adm) < limit in ok # rolling limit w cs (if ok then adm @ [(now, key)] else adm))"

definition admitted :: "(time \<times> string) list \<Rightarrow> bool list \<Rightarrow> (time \<times> string) list" where
  "admitted cs bs = map fst (filter snd (zip cs bs))"

lemma within_snoc: "within w T key (adm @ [(t, k)]) = within w T key adm @ (if k = key \<and> T - t < w \<and> t \<le> T then [t] else [])"
  by (simp add: within_def)

lemma allow_run_rolling:
  assumes "sorted (map fst cs)" and "\<forall>c \<in> set cs. \<forall>a \<in> set adm. fst a \<le> fst c"
    and "\<forall>c \<in> set cs. \<forall>k. filter (\<lambda>t. fst c - t < w) (h k) = within w (fst c) k adm"
  shows "allow_run cs \<lparr>rl_hits = h, rl_limit = limit, rl_window = w\<rparr> = rolling limit w cs adm"
  using assms
proof (induction cs arbitrary: h adm)
  case (Cons c cs)
  obtain now key where c: "c = (now, key)" by (cases c)
  let ?recent = "filter (\<lambda>t. now - t < w) (h key)"
  have r: "filter (\<lambda>t. now - t < w) (h k) = within w now k adm" for k using Cons.prems(3) by (simp add: c)
  let ?ok = "length (within w now key adm) < limit"
  let ?h = "h(key := if ?ok then ?recent @ [now] else ?recent)" and ?adm = "if ?ok then adm @ [(now, key)] else adm"
  have later: "now \<le> fst x" if "x \<in> set cs" for x using Cons.prems(1) that by (auto simp: c)
  have keep: "filter (\<lambda>t. fst x - t < w) ?recent = filter (\<lambda>t. fst x - t < w) (h key)" if "x \<in> set cs" for x
    unfolding filter_filter using later[OF that] by (intro filter_cong) auto
  have "allow_run cs \<lparr>rl_hits = ?h, rl_limit = limit, rl_window = w\<rparr> = rolling limit w cs ?adm"
  proof (rule Cons.IH)
    show "sorted (map fst cs)" using Cons.prems(1) by simp
    show "\<forall>x \<in> set cs. \<forall>a \<in> set ?adm. fst a \<le> fst x" using Cons.prems(2) later by (auto split: if_splits)
    show "\<forall>x \<in> set cs. \<forall>k. filter (\<lambda>t. fst x - t < w) (?h k) = within w (fst x) k ?adm"
    proof (intro ballI allI)
      fix x k assume x: "x \<in> set cs"
      have "filter (\<lambda>t. fst x - t < w) (h k) = within w (fst x) k adm" using Cons.prems(3) x by simp
      then show "filter (\<lambda>t. fst x - t < w) (?h k) = within w (fst x) k ?adm"
        using keep[OF x] later[OF x] by (auto simp: within_snoc)
    qed
  qed
  then show ?case unfolding c using r[of key] by (cases ?ok) (simp_all add: Allow_def Let_def not_less)
qed simp

lemma rolling_bound:
  assumes "sorted (map fst cs)" and "\<forall>c \<in> set cs. \<forall>a \<in> set adm. fst a \<le> fst c" and "\<And>T. length (within w T key adm) \<le> limit"
  shows "length (within w T key (adm @ admitted cs (rolling limit w cs adm))) \<le> limit"
  using assms
proof (induction cs arbitrary: adm)
  case (Cons c cs)
  obtain now k where c: "c = (now, k)" by (cases c)
  let ?ok = "length (within w now k adm) < limit" and ?adm = "if length (within w now k adm) < limit then adm @ [(now, k)] else adm"
  have "length (within w T key ?adm) \<le> limit" for T
  proof (cases "?ok \<and> k = key \<and> T - now < w \<and> now \<le> T")
    case True
    have "within w T key adm = map fst (filter (\<lambda>(t, k). k = key \<and> T - t < w \<and> t \<le> T) (filter (\<lambda>(t, k). k = key \<and> now - t < w \<and> t \<le> now) adm))"
      unfolding within_def filter_filter using Cons.prems(2) True by (intro arg_cong[where f = "map fst"] filter_cong) (auto simp: c)
    then have "length (within w T key adm) \<le> length (within w now key adm)"
      by (simp only: within_def length_map length_filter_le)
    with True show ?thesis by (auto simp: within_snoc)
  next
    case False
    with Cons.prems(3) show ?thesis by (auto simp: within_snoc)
  qed
  moreover have "\<forall>x \<in> set cs. \<forall>a \<in> set ?adm. fst a \<le> fst x" using Cons.prems(1,2) by (auto simp: c split: if_splits)
  moreover have "sorted (map fst cs)" using Cons.prems(1) by simp
  ultimately have "length (within w T key (?adm @ admitted cs (rolling limit w cs ?adm))) \<le> limit" by (intro Cons.IH)
  moreover have "adm @ admitted (c # cs) (rolling limit w (c # cs) adm) = ?adm @ admitted cs (rolling limit w cs ?adm)"
    by (simp add: c admitted_def Let_def)
  ultimately show ?case by simp
qed (simp add: admitted_def)

text \<open>The limiter before the login admits exactly the calls of a rolling window: with a clock that does not go back, a call passes
  if fewer than the limit passed for its source within the window, and in no window do more than the limit pass.\<close>

theorem rate_limiter_exact:
  assumes "sorted (map fst cs)"
  shows "allow_run cs (NewRateLimiter limit w) = rolling limit w cs [] \<and>
    length (within w T key (admitted cs (allow_run cs (NewRateLimiter limit w)))) \<le> limit"
proof -
  have "allow_run cs (NewRateLimiter limit w) = rolling limit w cs []"
    unfolding NewRateLimiter_def by (rule allow_run_rolling[OF assms]) (simp_all add: within_def)
  then show ?thesis using rolling_bound[OF assms, of "[]" w key limit T] by (simp add: within_def)
qed

theorem rate_limiter_exact_witness:
  "allow_run [(0, ''a''), (1, ''a''), (1, ''b''), (2, ''a''), (10, ''a'')] (NewRateLimiter 2 10) = [True, True, True, False, True]"
  using rate_limiter_exact[of "[(0, ''a''), (1, ''a''), (1, ''b''), (2, ''a''), (10, ''a'')]" 2 10] by (simp add: within_def Let_def)

section \<open>Samples\<close>

definition root_row :: session_row where
  "root_row = sample_session (digest sample_auth tok0) ''s0'' ''a1''"

definition root_request :: request where
  "root_request = \<lparr>rq_method = ''POST'', rq_remote = ''10.0.0.1:443'', rq_tls = True, rq_host = ''h'',
     rq_headers = (\<lambda>h. if h = ''X-CSRF-Token'' then [CSRFToken sample_auth tok0] else []),
     rq_cookies = (\<lambda>c. if c = sessionCookieName then Some tok0 else None)\<rparr>"

lemma tok0_nonempty: "tok0 \<noteq> ''''"
proof
  assume "tok0 = ''''"
  moreover have "validTokenShape tok0" unfolding tok0_def by (rule session_token_shape) simp
  moreover have "base64_decode url_alphabet '''' = Some []"
    using base64_roundtrip[OF url_alphabet_ok, of "[]"] by (simp add: base64_encode_def)
  ultimately show False by (simp add: validTokenShape_def)
qed

lemma root_guarded: "RequireAdmin sample_net sample_auth 0 False root_request (accounts [root_row]) = Inr (principal_of root root_row)"
proof -
  have inv: "account_inv (accounts [root_row])"
    unfolding account_inv_def root_row_def using sample_session_ok[of "''a1''"]
    by (simp add: accounts_def) (simp add: root_def bob_def user_check_def sample_session_def)
  have "Authenticate sample_auth 0 tok0 (accounts [root_row]) = Inr (principal_of root root_row)"
  proof (rule Authenticate_intro[OF inv])
    show "validTokenShape tok0" unfolding tok0_def by (rule session_token_shape) simp
  qed (simp_all add: root_row_def accounts_def sample_session_def root_def live_at_def AbsoluteLifetime_def duration_defs)
  then show ?thesis using tok0_nonempty
    by (simp add: RequireAdmin_def RequireSession_def sessionToken_def reads_only_def originAllowed_def secFetchSiteAllowed_def header_def
        VerifyCSRF_def root_request_def sessionCookieName_def principal_of_def root_def)
qed

theorem admin_write_guarded_witness:
  "header root_request ''X-CSRF-Token'' = CSRFToken sample_auth (sessionToken root_request) \<and> sessionToken root_request \<noteq> ''''"
  using admin_write_guarded[OF root_guarded] by (simp add: reads_only_def root_request_def)

definition preauth_request :: request where
  "preauth_request = \<lparr>rq_method = ''POST'', rq_remote = ''10.0.0.1:443'', rq_tls = True, rq_host = ''h'',
     rq_headers = (\<lambda>h. if h = ''X-CSRF-Token'' then [base64_encode url_alphabet [1, 2, 3]] else []),
     rq_cookies = (\<lambda>c. if c = preAuthCookieName then Some (base64_encode url_alphabet [7, 8, 9]) else None)\<rparr>"

definition hashing :: auth_env where
  "hashing = sample_auth\<lparr>ae_sha256 := (\<lambda>b. take 32 (b @ replicate 32 0))\<rparr>"

theorem preauth_token_fresh_witness:
  "\<exists>ctx. preauth_ctx preauth_request = Some ctx \<and>
     fst (preauth_Verify hashing 5 preauth_request (csrf_run hashing [CIssue 0 [7, 8, 9] [1, 2, 3]]))"
proof -
  have n: "base64_encode url_alphabet [1, 2, 3] \<noteq> ''''" "base64_encode url_alphabet [7, 8, 9] \<noteq> ''''"
    by (simp_all add: base64_encode_def to_sextets.simps)
  have ctx: "preauth_ctx preauth_request = Some [7, 8, 9]"
    using n by (simp add: preauth_ctx_def preauth_request_def base64_roundtrip[OF url_alphabet_ok])
  have v: "fst (preauth_Verify hashing 5 preauth_request (csrf_run hashing [CIssue 0 [7, 8, 9] [1, 2, 3]]))"
    using n by (simp add: preauth_Verify_def ctx csrf_run_def Issue_def Let_def preAuthTTL_def duration_defs list_all_iff)
      (simp add: preauth_request_def header_def)
  have "length (ae_sha256 hashing b) = 32" for b by (simp add: hashing_def)
  from preauth_token_fresh[OF v this] v show ?thesis by blast
qed

end
