(* ===== verification/Cursors.thy ===== *)
theory Cursors
  imports HttpGuard Clock SampleVault
begin

text \<open>
  \<open>httpapi/cursor.go\<close>: authenticated pagination cursors.  HMAC-SHA-256, the JSON encoding of the payload and the text
  of an instant are parameters.
\<close>

section \<open>The codec\<close>

record cursor_payload =
  cp_version :: nat
  cp_actor :: string
  cp_filters :: string
  cp_sort :: "string list"
  cp_expires :: int

record cursor_codec =
  cu_key :: bytes
  cu_ttl :: time
  cu_hmac :: "bytes \<Rightarrow> bytes \<Rightarrow> bytes"
  cu_json :: "cursor_payload \<Rightarrow> bytes"
  cu_parse :: "bytes \<Rightarrow> cursor_payload option"
  cu_time :: "time \<Rightarrow> string"
  cu_untime :: "string \<Rightarrow> time"

definition cursorVersion :: nat where "cursorVersion = 1"

definition NewCursorCodec :: "cursor_codec \<Rightarrow> bytes \<Rightarrow> time \<Rightarrow> cursor_codec option" where
  "NewCursorCodec C macKey ttl =
    (if length macKey < 32 then None
     else Some (C\<lparr>cu_key := macKey, cu_ttl := (if ttl \<le> 0 then 15 * minute_ns else ttl)\<rparr>))"

definition cursor_sign :: "cursor_codec \<Rightarrow> string \<Rightarrow> string" where
  "cursor_sign C b = base64_encode url_alphabet (cu_hmac C (cu_key C) (bytes_of b))"

definition unix_seconds :: "time \<Rightarrow> int" where "unix_seconds t = t div 1000000000"

definition EncodeCursor :: "cursor_codec \<Rightarrow> time \<Rightarrow> string \<Rightarrow> string \<Rightarrow> string list \<Rightarrow> string" where
  "EncodeCursor C now actor filters srt =
    (let b = base64_encode url_alphabet (cu_json C \<lparr>cp_version = cursorVersion, cp_actor = actor, cp_filters = filters,
        cp_sort = srt, cp_expires = unix_seconds (now + cu_ttl C)\<rparr>)
     in b @ ''.'' @ cursor_sign C b)"

definition maxCursorTokenBytes :: nat where "maxCursorTokenBytes = 4096"

definition DecodeCursor :: "cursor_codec \<Rightarrow> time \<Rightarrow> string \<Rightarrow> string \<Rightarrow> string \<Rightarrow> unit + string list" where
  "DecodeCursor C now token actor filters =
    (if maxCursorTokenBytes < length token then Inl ()
     else case cut_at (CHR ''.'') token of None \<Rightarrow> Inl ()
       | Some (b, sig) \<Rightarrow>
          if b = '''' \<or> sig = '''' then Inl ()
          else if sig \<noteq> cursor_sign C b then Inl ()
          else case base64_decode url_alphabet b of None \<Rightarrow> Inl ()
            | Some raw \<Rightarrow> (case cu_parse C raw of None \<Rightarrow> Inl ()
                | Some p \<Rightarrow>
                    if cp_version p \<noteq> cursorVersion then Inl ()
                    else if cp_actor p \<noteq> actor \<or> cp_filters p \<noteq> filters then Inl ()
                    else if cp_expires p < unix_seconds now then Inl ()
                    else if 8 < length (cp_sort p) then Inl ()
                    else Inr (cp_sort p)))"

section \<open>Page parameters\<close>

definition defaultPageSize :: nat where "defaultPageSize = 50"
definition maxPageSize :: nat where "maxPageSize = 100"

text \<open>The position of the last row of the previous page; an empty id means the first page.\<close>

definition position :: "cursor_codec \<Rightarrow> string list \<Rightarrow> (time \<times> string) option" where
  "position C srt = (case srt of [c, i] \<Rightarrow> if i = '''' then None else Some (cu_untime C c, i) | _ \<Rightarrow> None)"

definition page_limit :: "string \<Rightarrow> nat option" where
  "page_limit raw = (if raw = '''' then Some defaultPageSize
    else case Atoi raw of None \<Rightarrow> None | Some n \<Rightarrow> if n < 1 \<or> int maxPageSize < n then None else Some (nat n))"

definition DecodeCursorParams ::
  "cursor_codec \<Rightarrow> time \<Rightarrow> string \<Rightarrow> string \<Rightarrow> string \<Rightarrow> string \<Rightarrow> 'b resp + (string list \<times> nat)" where
  "DecodeCursorParams C now limit cursor actor filters =
    (case page_limit limit of None \<Rightarrow> Inl (Problem 400 ''VALIDATION_ERROR'')
     | Some n \<Rightarrow>
        if cursor = '''' then Inr ([], n)
        else case DecodeCursor C now cursor actor filters of
            Inl _ \<Rightarrow> Inl (Problem 400 ''VALIDATION_ERROR'')
          | Inr srt \<Rightarrow> if length srt \<noteq> 2 then Inl (Problem 400 ''VALIDATION_ERROR'') else Inr (srt, n))"

definition CursorPageResponse ::
  "cursor_codec \<Rightarrow> time \<Rightarrow> string \<Rightarrow> string \<Rightarrow> 'a \<Rightarrow> string \<Rightarrow> string \<Rightarrow> 'a \<times> string option" where
  "CursorPageResponse C now actor filters page lastCreated lastID =
    (page, if lastCreated = '''' then None else Some (EncodeCursor C now actor filters [lastCreated, lastID]))"

section \<open>Cursors are bound\<close>

text \<open>What is assumed of the libraries: valid text survives JSON, the digest has 32 bytes, and the text of an instant is not empty,
  is ASCII and determines the instant.\<close>

definition payload_text :: "cursor_payload \<Rightarrow> bool" where
  "payload_text p \<longleftrightarrow> valid_utf8 (cp_actor p) \<and> valid_utf8 (cp_filters p) \<and> list_all valid_utf8 (cp_sort p)"

definition codec_laws :: "cursor_codec \<Rightarrow> bool" where
  "codec_laws C \<longleftrightarrow> (\<forall>p. payload_text p \<longrightarrow> cu_parse C (cu_json C p) = Some p) \<and> (\<forall>p. cu_json C p \<noteq> []) \<and>
     (\<forall>k b. length (cu_hmac C k b) = 32) \<and>
     (\<forall>t. cu_time C t \<noteq> '''' \<and> valid_utf8 (cu_time C t) \<and> cu_untime C (cu_time C t) = t)"

lemma base64_nonempty: "bs \<noteq> [] \<Longrightarrow> base64_encode url_alphabet bs \<noteq> ''''"
  using base64_roundtrip[OF url_alphabet_ok, of bs] base64_roundtrip[OF url_alphabet_ok, of "[]"]
  by (metis base64_encode_def list.simps(8) option.inject to_sextets.simps(1))

lemma cursor_decode:
  assumes "codec_laws C" and "valid_utf8 actor" and "valid_utf8 filters" and "list_all valid_utf8 srt" and "length srt \<le> 8"
    and "length (EncodeCursor C t0 actor filters srt) \<le> maxCursorTokenBytes"
  shows "DecodeCursor C now (EncodeCursor C t0 actor filters srt) actor' filters' =
      (if actor' = actor \<and> filters' = filters \<and> unix_seconds now \<le> unix_seconds (t0 + cu_ttl C) then Inr srt else Inl ())"
proof -
  define p where "p = \<lparr>cp_version = cursorVersion, cp_actor = actor, cp_filters = filters, cp_sort = srt,
      cp_expires = unix_seconds (t0 + cu_ttl C)\<rparr>"
  let ?b = "base64_encode url_alphabet (cu_json C p)"
  have tok: "EncodeCursor C t0 actor filters srt = ?b @ CHR ''.'' # cursor_sign C ?b"
    by (simp add: EncodeCursor_def Let_def p_def)
  have "CHR ''.'' \<notin> set ?b"
    using base64_encode_chars[OF url_alphabet_ok] by (auto simp: url_alphabet_def)
  then have cut: "cut_at (CHR ''.'') (EncodeCursor C t0 actor filters srt) = Some (?b, cursor_sign C ?b)"
    unfolding tok by (rule cut_at_append)
  have parse: "cu_parse C (cu_json C p) = Some p" "cu_json C p \<noteq> []"
    using assms(1-4) by (simp_all add: codec_laws_def payload_text_def p_def)
  have "length (cu_hmac C k x) = 32" for k x using assms(1) unfolding codec_laws_def by blast
  then have "cu_hmac C k x \<noteq> []" for k x by (metis list.size(3) numeral_eq_Suc nat.distinct(1))
  then have ne: "?b \<noteq> ''''" "cursor_sign C ?b \<noteq> ''''" using parse(2) by (simp_all add: base64_nonempty cursor_sign_def)
  show ?thesis
    using assms(5,6) ne by (simp add: DecodeCursor_def cut base64_roundtrip[OF url_alphabet_ok] parse) (simp add: p_def not_less)
qed

lemma cursor_decodes:
  assumes "codec_laws C" and "valid_utf8 actor" and "valid_utf8 filters" and "list_all valid_utf8 srt" and "length srt \<le> 8"
    and "length (EncodeCursor C t0 actor filters srt) \<le> maxCursorTokenBytes" and "unix_seconds now \<le> unix_seconds (t0 + cu_ttl C)"
  shows "DecodeCursor C now (EncodeCursor C t0 actor filters srt) actor filters = Inr srt"
  using cursor_decode[OF assms(1-6), of now actor filters] assms(7) by simp

text \<open>C30: A cursor gives back the position it was issued with to the actor and the filters it was issued for, until it expires (by
  whole seconds) and never to anyone else; and every accepted token carries the codec's signature of its own body.\<close>

theorem cursor_bound:
  assumes "codec_laws C" and "valid_utf8 actor" and "valid_utf8 filters" and "list_all valid_utf8 srt" and "length srt \<le> 8"
    and "length (EncodeCursor C t0 actor filters srt) \<le> maxCursorTokenBytes"
  shows "DecodeCursor C now (EncodeCursor C t0 actor filters srt) actor' filters' =
      (if actor' = actor \<and> filters' = filters \<and> unix_seconds now \<le> unix_seconds (t0 + cu_ttl C) then Inr srt else Inl ()) \<and>
    (\<forall>token s. DecodeCursor C now token actor' filters' = Inr s \<longrightarrow> (\<exists>b. token = b @ ''.'' @ cursor_sign C b))"
proof -
  have "\<exists>b. token = b @ ''.'' @ cursor_sign C b" if "DecodeCursor C now token actor' filters' = Inr s" for token s
    using that by (auto simp: DecodeCursor_def split: if_splits option.splits dest!: cut_at_Some)
  with cursor_decode[OF assms] show ?thesis by blast
qed

section \<open>A codec\<close>

definition first_payload :: cursor_payload where
  "first_payload = \<lparr>cp_version = 1, cp_actor = ''u1'', cp_filters = ''f'', cp_sort = [''x'', ''i''], cp_expires = 900\<rparr>"

definition payload_nat :: "cursor_payload \<Rightarrow> nat" where
  "payload_nat p = to_nat (cp_version p, cp_actor p, cp_filters p, cp_sort p, cp_expires p)"

definition nat_payload :: "nat \<Rightarrow> cursor_payload" where
  "nat_payload n = (case from_nat n of (v, a, f, s, e) \<Rightarrow> \<lparr>cp_version = v, cp_actor = a, cp_filters = f, cp_sort = s, cp_expires = e\<rparr>)"

definition sample_cursor :: cursor_codec where
  "sample_cursor = \<lparr>cu_key = replicate 32 7, cu_ttl = 900000000000, cu_hmac = (\<lambda>k b. replicate 32 (of_nat (length b))),
     cu_json = (\<lambda>p. if p = first_payload then [1] else 0 # replicate (payload_nat p) 0),
     cu_parse = (\<lambda>b. case b of [] \<Rightarrow> None | x # xs \<Rightarrow> if x = 1 then Some first_payload else Some (nat_payload (length xs))),
     cu_time = (\<lambda>t. replicate (Suc (to_nat t)) (CHR ''x'')), cu_untime = (\<lambda>s. from_nat (length s - 1))\<rparr>"

lemma sample_cursor_laws: "codec_laws sample_cursor"
proof -
  have "nat_payload (payload_nat p) = p" for p by (simp add: nat_payload_def payload_nat_def)
  moreover have "utf8_bytes (replicate n 120)" for n by (induction n) simp_all
  then have "valid_utf8 (replicate n (CHR ''x''))" for n by (simp add: valid_utf8_def byte_values_def)
  ultimately show ?thesis by (simp add: codec_laws_def sample_cursor_def del: replicate.simps)
qed

lemma sextets_length: "length (to_sextets bs) \<le> 2 * length bs"
  by (induction bs rule: to_sextets.induct) simp_all

lemma sample_token_short: "length (EncodeCursor sample_cursor 0 ''u1'' ''f'' [''x'', ''i'']) \<le> maxCursorTokenBytes"
proof -
  have "\<lparr>cp_version = cursorVersion, cp_actor = ''u1'', cp_filters = ''f'', cp_sort = [''x'', ''i''],
      cp_expires = unix_seconds (0 + cu_ttl sample_cursor)\<rparr> = first_payload"
    by (simp add: first_payload_def cursorVersion_def unix_seconds_def sample_cursor_def)
  then have e: "EncodeCursor sample_cursor 0 ''u1'' ''f'' [''x'', ''i''] =
      base64_encode url_alphabet [1] @ ''.'' @ base64_encode url_alphabet (replicate 32 (of_nat (length (base64_encode url_alphabet [1]))))"
    unfolding EncodeCursor_def cursor_sign_def Let_def by (simp add: sample_cursor_def)
  have "length (base64_encode url_alphabet bs) \<le> 2 * length bs" for bs
    using sextets_length[of "map unat bs"] by (simp add: base64_encode_def)
  from this[of "[1]"] this[of "replicate 32 (of_nat (length (base64_encode url_alphabet [1])))"]
  show ?thesis unfolding e by (simp add: maxCursorTokenBytes_def)
qed

theorem cursor_bound_witness:
  "DecodeCursor sample_cursor 5 (EncodeCursor sample_cursor 0 ''u1'' ''f'' [''x'', ''i'']) ''u1'' ''f'' = Inr [''x'', ''i'']
   \<and> DecodeCursor sample_cursor 5 (EncodeCursor sample_cursor 0 ''u1'' ''f'' [''x'', ''i'']) ''u2'' ''f'' = Inl ()"
proof -
  have v: "valid_utf8 ''u1''" "valid_utf8 ''f''" "list_all valid_utf8 [''x'', ''i'']" by code_simp+
  note c = cursor_bound[OF sample_cursor_laws v _ sample_token_short, of 5]
  show ?thesis using c[of "''u1''" "''f''"] c[of "''u2''" "''f''"] by (simp add: unix_seconds_def sample_cursor_def)
qed

end
