(* ===== verification/ItemsApi.thy ===== *)
theory ItemsApi
  imports Cursors BrowseTheorems Health VaultWitness
begin

text \<open>
  \<open>httpapi/items.go\<close>, \<open>items_browse.go\<close> and \<open>idempotency.go\<close>: the handlers of the item endpoints behind the session
  guard.  The decoding of JSON bodies and the JSON encodings that enter fingerprints and filters are parameters.
\<close>

section \<open>Environment and responses\<close>

record api_env =
  ai_net :: net_env
  ai_auth :: auth_env
  ai_cursor :: cursor_codec
  ai_idem :: bool
  ai_fp :: "string list \<Rightarrow> string"
  ai_compact :: "string \<Rightarrow> string"
  ai_tags_json :: "string list \<Rightarrow> string"
  ai_browse_json :: "browse_input \<Rightarrow> bytes"

datatype item_reply = RNone | RDetail detail | RMetas "meta list \<times> string option" | RHistory "(nat \<times> time) list \<times> string option"
  | RBrowse "browse_item list \<times> string option" | RTags "string list" | RHealth health_report

definition writeItemsError :: "vault_error \<Rightarrow> 'b resp" where
  "writeItemsError e = (case e of
      vault_error.ErrNotFound \<Rightarrow> Problem 404 ''NOT_FOUND''
    | vault_error.ErrForbidden \<Rightarrow> Problem 403 ''FORBIDDEN''
    | ErrRevisionConflict n \<Rightarrow> Problem 409 ''REVISION_CONFLICT''
    | ErrPayloadTooLarge \<Rightarrow> Problem 413 ''PAYLOAD_TOO_LARGE''
    | ErrReferenceForbidden \<Rightarrow> Problem 409 ''REFERENCE_FORBIDDEN''
    | ErrInvalidItemType \<Rightarrow> Problem 400 ''VALIDATION_ERROR''
    | ErrInvalidScope \<Rightarrow> Problem 400 ''VALIDATION_ERROR''
    | ErrPayloadInvalid \<Rightarrow> Problem 400 ''VALIDATION_ERROR''
    | ErrBusy \<Rightarrow> Problem 503 ''DATABASE_BUSY''
    | _ \<Rightarrow> Problem 500 ''INTERNAL'')"

section \<open>Idempotency keys\<close>

definition key_char :: "char \<Rightarrow> bool" where
  "key_char c \<longleftrightarrow> is_alnum c \<or> c = CHR ''_'' \<or> c = CHR ''-''"

definition idempotencyKeyPattern :: "string \<Rightarrow> bool" where
  "idempotencyKeyPattern s \<longleftrightarrow> 16 \<le> length s \<and> length s \<le> 128 \<and> list_all key_char s"

text \<open>The key, whether one is present, whether it is invalid.\<close>

definition IdempotencyKey :: "request \<Rightarrow> string \<times> bool \<times> bool" where
  "IdempotencyKey r =
    (let key = header r ''Idempotency-Key'' in
     if key = '''' then ('''', False, False)
     else if \<not> idempotencyKeyPattern key then ('''', True, True) else (key, True, False))"

definition ScopeFor :: "string \<Rightarrow> string \<Rightarrow> string" where
  "ScopeFor operation actorID = operation @ '':'' @ actorID"

text \<open>The claim that the creating handlers open: the claim to complete, or the answer.  \<open>replay\<close> renders the resource
  of the original request.\<close>

definition open_claim ::
  "idem_options \<Rightarrow> time \<Rightarrow> string \<Rightarrow> string \<Rightarrow> string \<Rightarrow> (string \<Rightarrow> db \<Rightarrow> 'b resp \<times> db) \<Rightarrow> db \<Rightarrow> ('b resp + claim option) \<times> db" where
  "open_claim q now scope key fp replay d =
    (case Claim q (\<lambda>_. now) scope key fp (idem d) of
       (Inl e, t) \<Rightarrow> (Inl (Problem 500 ''INTERNAL''), d\<lparr>idem := t\<rparr>)
     | (Inr (c, outcome), t) \<Rightarrow>
        let d1 = d\<lparr>idem := t\<rparr> in
        (case outcome of
           OutcomeFresh \<Rightarrow> (Inr c, d1)
         | OutcomeInFlight \<Rightarrow> (Inl (Problem 409 ''CONFLICT''), d1)
         | OutcomeConflict \<Rightarrow> (Inl (Problem 409 ''IDEMPOTENCY_KEY_CONFLICT''), d1)
         | OutcomeReplay \<Rightarrow> (case ReplayResourceID scope key fp t of
              Inl e \<Rightarrow> (Inl (Problem 409 ''CONFLICT''), d1)
            | Inr res \<Rightarrow> (case replay res d1 of (r, d2) \<Rightarrow> (Inl r, d2)))))"

definition release_claim :: "claim option \<Rightarrow> db \<Rightarrow> db" where
  "release_claim c d = (case c of None \<Rightarrow> d | Some cl \<Rightarrow> d\<lparr>idem := Release cl (idem d)\<rparr>)"

text \<open>The replay of an item: it is read again with the access rights of the caller.\<close>

definition replay_item :: "venv \<Rightarrow> principal \<Rightarrow> nat \<Rightarrow> string \<Rightarrow> db \<Rightarrow> item_reply resp \<times> db" where
  "replay_item V p status res d = (case Get V (Some p) res d of
      (Inl e, d') \<Rightarrow> (Problem 409 ''CONFLICT'', d') | (Inr dt, d') \<Rightarrow> (Reply status (RDetail dt), d'))"

section \<open>Create and update\<close>

record create_request =
  cq_type :: string
  cq_scope :: string
  cq_tags :: "string list"
  cq_favorite :: bool
  cq_payload :: string

definition itemsCreateScope :: string where "itemsCreateScope = ''items.create''"
definition itemsMoveIdempotencyScope :: string where "itemsMoveIdempotencyScope = ''items.move''"

definition FormatBool :: "bool \<Rightarrow> string" where "FormatBool b = (if b then ''true'' else ''false'')"

definition createFingerprint :: "api_env \<Rightarrow> create_request \<Rightarrow> string" where
  "createFingerprint A i = ai_fp A [itemsCreateScope, cq_type i, cq_scope i, FormatBool (cq_favorite i),
     join_with [CHR 0x00] (cq_tags i), ai_compact A (cq_payload i)]"

definition create_rest :: "venv \<Rightarrow> principal \<Rightarrow> create_request \<Rightarrow> claim option \<Rightarrow> db \<Rightarrow> item_reply resp \<times> db" where
  "create_rest V p i c d =
    (case Create V (Some p) \<lparr>ci_type = cq_type i, ci_scope = cq_scope i, ci_tags = cq_tags i, ci_favorite = cq_favorite i,
        ci_payload = cq_payload i\<rparr> c d of
       (Inl e, d') \<Rightarrow> (writeItemsError e, release_claim c d')
     | (Inr dt, d') \<Rightarrow> (Reply 201 (RDetail dt), d'))"

definition items_create :: "api_env \<Rightarrow> venv \<Rightarrow> principal \<Rightarrow> request \<Rightarrow> create_request body \<Rightarrow> db \<Rightarrow> item_reply resp \<times> db" where
  "items_create A V p r b d = (case decodeJSONBody b of Inl resp \<Rightarrow> (resp, d)
    | Inr i \<Rightarrow>
      if cq_payload i = '''' then (Problem 400 ''VALIDATION_ERROR'', d)
      else if \<not> ai_idem A then create_rest V p i None d
      else (case IdempotencyKey r of (key, present, invalid) \<Rightarrow>
        if invalid then (Problem 400 ''VALIDATION_ERROR'', d)
        else if \<not> present then create_rest V p i None d
        else (case open_claim (ve_idem V) (ve_now V) (ScopeFor itemsCreateScope (p_user p)) key (createFingerprint A i)
            (replay_item V p 201) d of
          (Inl resp, d1) \<Rightarrow> (resp, d1) | (Inr c, d1) \<Rightarrow> create_rest V p i c d1)))"

record update_request =
  uq_revision :: nat
  uq_scope :: "string option"
  uq_tags :: "string list option"
  uq_favorite :: "bool option"
  uq_payload :: string

definition present_or_absent :: "('a \<Rightarrow> string) \<Rightarrow> 'a option \<Rightarrow> string" where
  "present_or_absent f x = (case x of None \<Rightarrow> ''absent'' | Some v \<Rightarrow> ''present:'' @ f v)"

definition updateFingerprint :: "api_env \<Rightarrow> string \<Rightarrow> update_request \<Rightarrow> string" where
  "updateFingerprint A itemID i = ai_fp A [itemsMoveIdempotencyScope, itemID, dec (uq_revision i), present_or_absent id (uq_scope i),
     present_or_absent (ai_tags_json A) (uq_tags i), present_or_absent FormatBool (uq_favorite i), ai_compact A (uq_payload i)]"

text \<open>\<open>claim.ResourceID\<close> is set exactly by a completion.\<close>

definition claim_completed :: "claim \<Rightarrow> db \<Rightarrow> bool" where
  "claim_completed c d \<longleftrightarrow> (case idem_get (cl_scope c) (cl_key c) (idem d) of None \<Rightarrow> False | Some r \<Rightarrow> k_status r = ''completed'')"

definition update_rest :: "venv \<Rightarrow> contention \<Rightarrow> principal \<Rightarrow> string \<Rightarrow> update_request \<Rightarrow> claim option \<Rightarrow> db \<Rightarrow> item_reply resp \<times> db" where
  "update_rest V W p itemID i c d =
    (case Update V W (Some p) itemID \<lparr>ui_revision = uq_revision i, ui_tags = uq_tags i, ui_favorite = uq_favorite i,
        ui_payload = uq_payload i, ui_scope = uq_scope i, ui_claim = c\<rparr> d of
       (Inl e, d') \<Rightarrow> (writeItemsError e, release_claim c d')
     | (Inr dt, d') \<Rightarrow> (Reply 200 (RDetail dt),
          case c of None \<Rightarrow> d' | Some cl \<Rightarrow> if claim_completed cl d' then d' else release_claim c d'))"

definition items_put ::
  "api_env \<Rightarrow> venv \<Rightarrow> contention \<Rightarrow> principal \<Rightarrow> request \<Rightarrow> string \<Rightarrow> update_request body \<Rightarrow> db \<Rightarrow> item_reply resp \<times> db" where
  "items_put A V W p r itemID b d = (case decodeJSONBody b of Inl resp \<Rightarrow> (resp, d)
    | Inr i \<Rightarrow>
      if uq_payload i = '''' then (Problem 400 ''VALIDATION_ERROR'', d)
      else if uq_scope i = None \<or> \<not> ai_idem A then update_rest V W p itemID i None d
      else (case IdempotencyKey r of (key, present, invalid) \<Rightarrow>
        if invalid then (Problem 400 ''VALIDATION_ERROR'', d)
        else if \<not> present then update_rest V W p itemID i None d
        else (case open_claim (ve_idem V) (ve_now V) (ScopeFor itemsMoveIdempotencyScope (p_user p)) key (updateFingerprint A itemID i)
            (replay_item V p 200) d of
          (Inl resp, d1) \<Rightarrow> (resp, d1) | (Inr c, d1) \<Rightarrow> update_rest V W p itemID i c d1)))"

section \<open>Pages\<close>

text \<open>The rest of every paging handler: one item more than the page was fetched, and its presence decides the next cursor.\<close>

definition page_reply ::
  "cursor_codec \<Rightarrow> time \<Rightarrow> string \<Rightarrow> string \<Rightarrow> nat \<Rightarrow> ('m \<Rightarrow> string \<times> string) \<Rightarrow> 'm list \<Rightarrow> 'm list \<times> string option" where
  "page_reply C now actor filters limit key ms =
    (if limit < length ms
     then let page = take limit ms; (lastCreated, lastID) = key (last page) in CursorPageResponse C now actor filters page lastCreated lastID
     else CursorPageResponse C now actor filters ms '''' '''')"

definition meta_key :: "cursor_codec \<Rightarrow> meta \<Rightarrow> string \<times> string" where
  "meta_key C m = (cu_time C (m_updated m), m_id m)"

definition itemsListFilters :: string where "itemsListFilters = ''v1:items''"
definition itemsTrashFilters :: string where "itemsTrashFilters = ''v1:trash''"
definition itemsHistoryFilters :: string where "itemsHistoryFilters = ''v1:history:''"
definition itemsSearchFilters :: string where "itemsSearchFilters = ''v1:search''"

definition ParseBool :: "string \<Rightarrow> bool option" where
  "ParseBool s = (if s \<in> set [''1'', ''t'', ''T'', ''TRUE'', ''true'', ''True''] then Some True
    else if s \<in> set [''0'', ''f'', ''F'', ''FALSE'', ''false'', ''False''] then Some False else None)"

definition parse_favorite :: "string \<Rightarrow> bool option option" where
  "parse_favorite raw = (if raw = '''' then Some None else case ParseBool raw of None \<Rightarrow> None | Some b \<Rightarrow> Some (Some b))"

definition list_filters :: "list_filter \<Rightarrow> string" where
  "list_filters f = itemsListFilters @ '':scope='' @ lf_scope f @ '':type='' @ lf_type f @
    (case lf_favorite f of None \<Rightarrow> '''' | Some b \<Rightarrow> '':favorite='' @ FormatBool b) @ '':tag='' @ lf_tag f"

definition items_list :: "cursor_codec \<Rightarrow> venv \<Rightarrow> time \<Rightarrow> principal \<Rightarrow> (string \<Rightarrow> string) \<Rightarrow> db \<Rightarrow> item_reply resp" where
  "items_list C V now p query d =
    (case parse_favorite (query ''favorite'') of None \<Rightarrow> Problem 400 ''VALIDATION_ERROR''
     | Some favorite \<Rightarrow>
      let f = \<lparr>lf_scope = query ''scope'', lf_type = query ''type'', lf_favorite = favorite, lf_tag = query ''tag''\<rparr> in
      if 64 < rune_count (lf_tag f) then Problem 400 ''VALIDATION_ERROR''
      else (case DecodeCursorParams C now (query ''limit'') (query ''cursor'') (p_user p) (list_filters f) of
          Inl resp \<Rightarrow> resp
        | Inr (srt, limit) \<Rightarrow> (case List_items V (Some p) f (position C srt) (Suc limit) d of
              Inl e \<Rightarrow> writeItemsError e
            | Inr ms \<Rightarrow> Reply 200 (RMetas (page_reply C now (p_user p) (list_filters f) limit (meta_key C) ms)))))"

record search_body =
  sb_input :: search_input
  sb_cursor :: string
  sb_limit :: "int option"

definition body_limit :: "int option \<Rightarrow> nat option" where
  "body_limit l = (case l of None \<Rightarrow> Some defaultPageSize
    | Some n \<Rightarrow> if n < 1 \<or> int maxPageSize < n then None else Some (nat n))"

definition body_position :: "cursor_codec \<Rightarrow> time \<Rightarrow> string \<Rightarrow> string \<Rightarrow> string \<Rightarrow> string list option" where
  "body_position C now token actor filters =
    (if token = '''' then Some []
     else case DecodeCursor C now token actor filters of Inl _ \<Rightarrow> None | Inr srt \<Rightarrow> if length srt \<noteq> 2 then None else Some srt)"

definition search_filters :: "search_input \<Rightarrow> string" where
  "search_filters i = itemsSearchFilters @ '':q='' @ qi_query i @ '':scope='' @ qi_scope i @ '':type='' @ qi_type i @ '':tag='' @ qi_tag i"

definition items_search :: "cursor_codec \<Rightarrow> venv \<Rightarrow> time \<Rightarrow> principal \<Rightarrow> search_body body \<Rightarrow> db \<Rightarrow> item_reply resp" where
  "items_search C V now p b d = (case decodeJSONBody b of Inl resp \<Rightarrow> resp
    | Inr q \<Rightarrow> let i = sb_input q in
      if trim_space (qi_query i) = '''' \<or> 256 < rune_count (qi_query i) \<or> 64 < rune_count (qi_tag i) then Problem 400 ''VALIDATION_ERROR''
      else (case body_limit (sb_limit q) of None \<Rightarrow> Problem 400 ''VALIDATION_ERROR''
        | Some limit \<Rightarrow> (case body_position C now (sb_cursor q) (p_user p) (search_filters i) of None \<Rightarrow> Problem 400 ''VALIDATION_ERROR''
          | Some srt \<Rightarrow> (case Search V (Some p) i (position C srt) (Suc limit) d of
              Inl e \<Rightarrow> writeItemsError e
            | Inr ms \<Rightarrow> Reply 200 (RMetas (page_reply C now (p_user p) (search_filters i) limit (meta_key C) ms))))))"

definition items_trash :: "cursor_codec \<Rightarrow> venv \<Rightarrow> time \<Rightarrow> principal \<Rightarrow> (string \<Rightarrow> string) \<Rightarrow> db \<Rightarrow> item_reply resp" where
  "items_trash C V now p query d =
    (case DecodeCursorParams C now (query ''limit'') (query ''cursor'') (p_user p) itemsTrashFilters of
       Inl resp \<Rightarrow> resp
     | Inr (srt, limit) \<Rightarrow> (case ListTrash V (Some p) (position C srt) (Suc limit) d of
           Inl e \<Rightarrow> writeItemsError e
         | Inr ms \<Rightarrow> Reply 200 (RMetas (page_reply C now (p_user p) itemsTrashFilters limit (meta_key C) ms))))"

text \<open>The history pages carry the revision as the position; it is parsed again by the service.\<close>

definition history_position :: "string list \<Rightarrow> nat option option" where
  "history_position srt = (case srt of [] \<Rightarrow> None | c # _ \<Rightarrow> if c = '''' then None else Some (parse_uint 64 c))"

definition items_history :: "cursor_codec \<Rightarrow> venv \<Rightarrow> time \<Rightarrow> principal \<Rightarrow> string \<Rightarrow> (string \<Rightarrow> string) \<Rightarrow> db \<Rightarrow> item_reply resp" where
  "items_history C V now p itemID query d =
    (let filters = itemsHistoryFilters @ itemID in
     case DecodeCursorParams C now (query ''limit'') (query ''cursor'') (p_user p) filters of
       Inl resp \<Rightarrow> resp
     | Inr (srt, limit) \<Rightarrow> (case ListHistory V (Some p) itemID (history_position srt) (Suc limit) d of
           Inl e \<Rightarrow> writeItemsError e
         | Inr es \<Rightarrow> Reply 200 (RHistory (page_reply C now (p_user p) filters limit (\<lambda>e. (dec (fst e), '''')) es))))"

record browse_body =
  bb_input :: browse_input
  bb_cursor :: string
  bb_limit :: "int option"

definition key_text :: "cursor_codec \<Rightarrow> browse_key \<Rightarrow> string" where
  "key_text C k = (case k of TimeKey t \<Rightarrow> cu_time C t | TitleKey s \<Rightarrow> s)"

definition browse_position :: "cursor_codec \<Rightarrow> string \<Rightarrow> string list \<Rightarrow> (browse_key \<times> string) option" where
  "browse_position C srt_order srt = (case srt of
      [c, i] \<Rightarrow> if i = '''' then None else Some (if title_order srt_order then TitleKey c else TimeKey (cu_untime C c), i)
    | _ \<Rightarrow> None)"

definition items_browse :: "api_env \<Rightarrow> venv \<Rightarrow> time \<Rightarrow> principal \<Rightarrow> browse_body body \<Rightarrow> db \<Rightarrow> item_reply resp" where
  "items_browse A V now p b d = (case decodeJSONBody b of Inl resp \<Rightarrow> resp
    | Inr q \<Rightarrow> let i = bb_input q; C = ai_cursor A in
      if 256 < rune_count (bw_query i) \<or> 64 < rune_count (bw_tag i) then Problem 400 ''VALIDATION_ERROR''
      else (case body_limit (bb_limit q) of None \<Rightarrow> Problem 400 ''VALIDATION_ERROR''
        | Some limit \<Rightarrow> let filters = ''v1:browse:'' @ hex_encode (ae_sha256 (ai_auth A) (ai_browse_json A i)) in
          (case body_position C now (bb_cursor q) (p_user p) filters of None \<Rightarrow> Problem 400 ''VALIDATION_ERROR''
          | Some srt \<Rightarrow> (case Browse V (Some p) i (browse_position C (bw_sort i) srt) (int (Suc limit)) d of
              Inl e \<Rightarrow> writeItemsError e
            | Inr xs \<Rightarrow> Reply 200 (RBrowse (if limit < length xs
                then let page = take limit xs; l = last page in
                  (page, Some (EncodeCursor C now (p_user p) filters [key_text C (BrowseKey V (bw_sort i) l), m_id (br_meta l)]))
                else (xs, None)))))))"

record tags_body =
  tb_scope :: string
  tb_type :: string
  tb_favorite :: "bool option"

definition items_browse_tags :: "venv \<Rightarrow> principal \<Rightarrow> tags_body body \<Rightarrow> db \<Rightarrow> item_reply resp" where
  "items_browse_tags V p b d = (case decodeJSONBody b of Inl resp \<Rightarrow> resp
    | Inr q \<Rightarrow> (case BrowseTags V (Some p) \<lparr>bw_query = '''', bw_scope = tb_scope q, bw_type = tb_type q, bw_tag = '''',
          bw_favorite = tb_favorite q, bw_sort = ''''\<rparr> d of
        Inl e \<Rightarrow> writeItemsError e | Inr tags \<Rightarrow> Reply 200 (RTags tags)))"

section \<open>The other item endpoints\<close>

definition item_reply_of :: "('a \<Rightarrow> item_reply resp) \<Rightarrow> (vault_error + 'a) \<times> db \<Rightarrow> item_reply resp \<times> db" where
  "item_reply_of ok x = (case x of (Inl e, d) \<Rightarrow> (writeItemsError e, d) | (Inr v, d) \<Rightarrow> (ok v, d))"

definition no_content :: "'a \<Rightarrow> item_reply resp" where "no_content x = Reply 204 RNone"
definition ok_detail :: "detail \<Rightarrow> item_reply resp" where "ok_detail dt = Reply 200 (RDetail dt)"

definition items_secret :: "venv \<Rightarrow> principal \<Rightarrow> string \<Rightarrow> string \<Rightarrow> string body \<Rightarrow> db \<Rightarrow> item_reply resp \<times> db" where
  "items_secret V p itemID kind b d = (case decodeJSONBody b of Inl resp \<Rightarrow> (resp, d)
    | Inr field \<Rightarrow> (case RecordSecretEvent V (Some p) itemID kind field d of
        Inl e \<Rightarrow> (writeItemsError e, d) | Inr d' \<Rightarrow> (Reply 204 RNone, d')))"

definition items_favorite :: "venv \<Rightarrow> principal \<Rightarrow> string \<Rightarrow> bool option body \<Rightarrow> db \<Rightarrow> item_reply resp \<times> db" where
  "items_favorite V p itemID b d = (case decodeJSONBody b of Inl resp \<Rightarrow> (resp, d)
    | Inr None \<Rightarrow> (Problem 400 ''VALIDATION_ERROR'', d)
    | Inr (Some fav) \<Rightarrow> item_reply_of no_content (SetFavorite V (Some p) itemID fav d))"

definition items_tags :: "venv \<Rightarrow> principal \<Rightarrow> string \<Rightarrow> string list body \<Rightarrow> db \<Rightarrow> item_reply resp \<times> db" where
  "items_tags V p itemID b d = (case decodeJSONBody b of Inl resp \<Rightarrow> (resp, d)
    | Inr tags \<Rightarrow> item_reply_of no_content (SetTags V (Some p) itemID tags d))"

definition items_restore_history :: "venv \<Rightarrow> principal \<Rightarrow> string \<Rightarrow> string \<Rightarrow> db \<Rightarrow> item_reply resp \<times> db" where
  "items_restore_history V p itemID raw d = (case parse_uint 64 raw of
      None \<Rightarrow> (Problem 400 ''VALIDATION_ERROR'', d)
    | Some revision \<Rightarrow> if revision = 0 then (Problem 400 ''VALIDATION_ERROR'', d)
        else item_reply_of ok_detail (RestoreHistory V (Some p) itemID revision d))"

definition items_health :: "venv \<Rightarrow> principal \<Rightarrow> string \<Rightarrow> db \<Rightarrow> item_reply resp" where
  "items_health V p today d = (case Health V (Some p) today d of
      Inl e \<Rightarrow> writeItemsError e | Inr rep \<Rightarrow> Reply 200 (RHealth rep))"

text \<open>The routes of \<open>registerItems\<close>, each behind the session guard.\<close>

datatype item_route =
    RtBrowse "browse_body body" | RtBrowseTags "tags_body body" | RtCreate "create_request body" | RtList "string \<Rightarrow> string"
  | RtGet string | RtUpdate string "update_request body" | RtTrashItem string | RtRestore string | RtPurge string
  | RtSearch "search_body body" | RtHealth | RtReveal string "string body" | RtCopy string "string body"
  | RtFavorite string "bool option body" | RtTags string "string list body" | RtTrash "string \<Rightarrow> string"
  | RtHistory string "string \<Rightarrow> string" | RtRestoreHistory string string

fun route_items :: "api_env \<Rightarrow> venv \<Rightarrow> contention \<Rightarrow> string \<Rightarrow> request \<Rightarrow> principal \<Rightarrow> item_route \<Rightarrow> db \<Rightarrow> item_reply resp \<times> db" where
  "route_items A V W today r p (RtBrowse b) d = (items_browse A V (ve_now V) p b d, d)"
| "route_items A V W today r p (RtBrowseTags b) d = (items_browse_tags V p b d, d)"
| "route_items A V W today r p (RtCreate b) d = items_create A V p r b d"
| "route_items A V W today r p (RtList q) d = (items_list (ai_cursor A) V (ve_now V) p q d, d)"
| "route_items A V W today r p (RtGet i) d = item_reply_of ok_detail (Get V (Some p) i d)"
| "route_items A V W today r p (RtUpdate i b) d = items_put A V W p r i b d"
| "route_items A V W today r p (RtTrashItem i) d = item_reply_of no_content (Trash V (Some p) i d)"
| "route_items A V W today r p (RtRestore i) d = item_reply_of ok_detail (RestoreTrashed V (Some p) i d)"
| "route_items A V W today r p (RtPurge i) d = item_reply_of no_content (Purge V (Some p) i d)"
| "route_items A V W today r p (RtSearch b) d = (items_search (ai_cursor A) V (ve_now V) p b d, d)"
| "route_items A V W today r p RtHealth d = (items_health V p today d, d)"
| "route_items A V W today r p (RtReveal i b) d = items_secret V p i ''reveal'' b d"
| "route_items A V W today r p (RtCopy i b) d = items_secret V p i ''copy'' b d"
| "route_items A V W today r p (RtFavorite i b) d = items_favorite V p i b d"
| "route_items A V W today r p (RtTags i b) d = items_tags V p i b d"
| "route_items A V W today r p (RtTrash q) d = (items_trash (ai_cursor A) V (ve_now V) p q d, d)"
| "route_items A V W today r p (RtHistory i q) d = (items_history (ai_cursor A) V (ve_now V) p i q d, d)"
| "route_items A V W today r p (RtRestoreHistory i raw) d = items_restore_history V p i raw d"

definition serve_items :: "api_env \<Rightarrow> venv \<Rightarrow> contention \<Rightarrow> string \<Rightarrow> request \<Rightarrow> item_route \<Rightarrow> db \<Rightarrow> item_reply resp \<times> db" where
  "serve_items A V W today r route d =
    (case RequireSession (ai_net A) (ai_auth A) (ve_now V) False r d of
       Inl resp \<Rightarrow> (resp, d) | Inr p \<Rightarrow> route_items A V W today r p route d)"

end
