(* ===== verification/ItemsSafety.thy ===== *)
theory ItemsSafety
  imports ItemsApi
begin

text \<open>
  The item endpoints as a whole: what a request can change, a create that is repeated, and walking through the pages.
\<close>

section \<open>A request is one service call\<close>

text \<open>The JSON decoder delivers valid text.\<close>

fun route_text :: "item_route \<Rightarrow> bool" where
  "route_text (RtCreate (Body i)) \<longleftrightarrow> list_all valid_utf8 (cq_tags i)"
| "route_text (RtUpdate iid (Body u)) \<longleftrightarrow> (\<forall>ts. uq_tags u = Some ts \<longrightarrow> list_all valid_utf8 ts)"
| "route_text (RtTags iid (Body ts)) \<longleftrightarrow> list_all valid_utf8 ts"
| "route_text route \<longleftrightarrow> True"

text \<open>A change of idempotency records, at most one call of the service, a change of idempotency records.\<close>

definition one_call :: "venv \<Rightarrow> principal \<Rightarrow> db \<Rightarrow> db \<Rightarrow> bool" where
  "one_call V p d d' \<longleftrightarrow> (\<exists>t1 d2 t2. (d2 = d\<lparr>idem := t1\<rparr> \<or> user_call V (Some p) (d\<lparr>idem := t1\<rparr>) d2) \<and> d' = d2\<lparr>idem := t2\<rparr>)"

lemma one_call_refl: "one_call V p d (d\<lparr>idem := t\<rparr>)"
  unfolding one_call_def by (intro exI[of _ t] exI[of _ "d\<lparr>idem := t\<rparr>"]) simp

lemma one_call_same: "one_call V p d d"
  using one_call_refl[of V p d "idem d"] by simp

lemma one_call_intro: "user_call V (Some p) d d' \<Longrightarrow> one_call V p d d'"
  unfolding one_call_def by (intro exI[of _ "idem d"] exI[of _ d'] exI[of _ "idem d'"]) simp

lemma one_call_after: "user_call V (Some p) (d\<lparr>idem := t\<rparr>) d' \<Longrightarrow> one_call V p d (d'\<lparr>idem := t'\<rparr>)"
  unfolding one_call_def by blast

lemma one_call_after': "user_call V (Some p) (d\<lparr>idem := t\<rparr>) d' \<Longrightarrow> one_call V p d d'"
  using one_call_after[of V p t d d' "idem d'"] by simp

lemma release_claim_idem: "\<exists>t. release_claim c d = d\<lparr>idem := t\<rparr>"
  by (cases c) (auto simp: release_claim_def intro: exI[of _ "idem d"])

lemma snd_item_reply_of [simp]: "snd (item_reply_of ok x) = snd x"
  by (simp add: item_reply_of_def split: prod.split sum.split)

lemma create_rest_call:
  assumes "list_all valid_utf8 (cq_tags i)"
  shows "one_call V p d (snd (create_rest V p i c (d\<lparr>idem := t\<rparr>)))"
proof -
  let ?c = "\<lparr>ci_type = cq_type i, ci_scope = cq_scope i, ci_tags = cq_tags i, ci_favorite = cq_favorite i, ci_payload = cq_payload i\<rparr>"
  obtain res d' where x: "Create V (Some p) ?c c (d\<lparr>idem := t\<rparr>) = (res, d')" by (cases "Create V (Some p) ?c c (d\<lparr>idem := t\<rparr>)")
  have call: "user_call V (Some p) (d\<lparr>idem := t\<rparr>) d'"
    using user_call.create[of ?c V "Some p" "d\<lparr>idem := t\<rparr>" c] assms x by simp
  obtain t' where "release_claim c d' = d'\<lparr>idem := t'\<rparr>" using release_claim_idem by blast
  with x one_call_after[OF call] one_call_after'[OF call] show ?thesis
    by (cases res) (simp_all add: create_rest_def)
qed

lemma update_rest_call:
  assumes "\<forall>ts. uq_tags i = Some ts \<longrightarrow> list_all valid_utf8 ts" and "\<not> busy W 0"
  shows "one_call V p d (snd (update_rest V W p iid i c (d\<lparr>idem := t\<rparr>)))"
proof -
  let ?u = "\<lparr>ui_revision = uq_revision i, ui_tags = uq_tags i, ui_favorite = uq_favorite i,
        ui_payload = uq_payload i, ui_scope = uq_scope i, ui_claim = c\<rparr>"
  have up: "Update V W (Some p) iid ?u (d\<lparr>idem := t\<rparr>) = updateOnce V (Some p) iid ?u (d\<lparr>idem := t\<rparr>)"
    using assms(2) by (simp add: Update_def numeral_3_eq_3)
  obtain res d' where x: "updateOnce V (Some p) iid ?u (d\<lparr>idem := t\<rparr>) = (res, d')"
    by (cases "updateOnce V (Some p) iid ?u (d\<lparr>idem := t\<rparr>)")
  have call: "user_call V (Some p) (d\<lparr>idem := t\<rparr>) d'"
    using user_call.update[of ?u V "Some p" "d\<lparr>idem := t\<rparr>" iid] assms(1) x by (simp add: wire_request_def)
  obtain t' where "release_claim c d' = d'\<lparr>idem := t'\<rparr>" using release_claim_idem by blast
  with x up one_call_after[OF call] one_call_after'[OF call] show ?thesis
    by (cases res; cases c) (simp_all add: update_rest_def)
qed

lemma replay_item_snd: "snd (replay_item V p n res d) = snd (Get V (Some p) res d)"
  by (simp add: replay_item_def split: prod.split sum.split)

lemma open_claim_call:
  assumes "open_claim q now scope key fp (replay_item V p n) d = (Inl resp, d')"
  shows "one_call V p d d'"
proof -
  have get: "one_call V p d (snd (replay_item V p n res (d\<lparr>idem := t\<rparr>)))" for res t
    unfolding replay_item_snd by (rule one_call_after'[OF user_call.get])
  from assms show ?thesis
    by (auto simp: open_claim_def Let_def one_call_refl split: prod.splits sum.splits outcome.splits) (metis get snd_conv)
qed

lemma open_claim_Inr:
  assumes "open_claim q now scope key fp replay d = (Inr c, d')"
  shows "\<exists>t. Claim q (\<lambda>_. now) scope key fp (idem d) = (Inr (c, OutcomeFresh), t) \<and> d' = d\<lparr>idem := t\<rparr>"
  using assms by (auto simp: open_claim_def Let_def split: prod.splits sum.splits outcome.splits)

lemma items_create_call:
  assumes "route_text (RtCreate b)"
  shows "one_call V p d (snd (items_create A V p r b d))"
proof (cases b)
  case (Body i)
  then have i: "list_all valid_utf8 (cq_tags i)" using assms by simp
  have plain: "one_call V p d (snd (create_rest V p i c d))" for c
    using create_rest_call[OF i, of V p d c "idem d"] by simp
  obtain key present invalid where k: "IdempotencyKey r = (key, present, invalid)" by (cases "IdempotencyKey r")
  let ?o = "open_claim (ve_idem V) (ve_now V) (ScopeFor itemsCreateScope (p_user p)) key (createFingerprint A i) (replay_item V p 201) d"
  have "one_call V p d (snd (case ?o of (Inl resp, d1) \<Rightarrow> (resp, d1) | (Inr c, d1) \<Rightarrow> create_rest V p i c d1))"
  proof (cases ?o)
    case (Pair x d1)
    show ?thesis
    proof (cases x)
      case (Inl resp)
      with Pair open_claim_call[of _ _ _ _ _ V p 201 d resp d1] show ?thesis by simp
    next
      case (Inr c)
      with Pair open_claim_Inr obtain t where "d1 = d\<lparr>idem := t\<rparr>" by blast
      with Pair Inr create_rest_call[OF i, of V p d c t] show ?thesis by simp
    qed
  qed
  with Body k plain one_call_same show ?thesis by (simp add: items_create_def decodeJSONBody_def)
qed (simp_all add: items_create_def decodeJSONBody_def one_call_same)

lemma items_put_call:
  assumes "route_text (RtUpdate iid b)" and "\<not> busy W 0"
  shows "one_call V p d (snd (items_put A V W p r iid b d))"
proof (cases b)
  case (Body i)
  then have i: "\<forall>ts. uq_tags i = Some ts \<longrightarrow> list_all valid_utf8 ts" using assms by simp
  have plain: "one_call V p d (snd (update_rest V W p iid i c d))" for c
    using update_rest_call[OF i assms(2), of V p d iid c "idem d"] by simp
  obtain key present invalid where k: "IdempotencyKey r = (key, present, invalid)" by (cases "IdempotencyKey r")
  let ?o = "open_claim (ve_idem V) (ve_now V) (ScopeFor itemsMoveIdempotencyScope (p_user p)) key (updateFingerprint A iid i) (replay_item V p 200) d"
  have "one_call V p d (snd (case ?o of (Inl resp, d1) \<Rightarrow> (resp, d1) | (Inr c, d1) \<Rightarrow> update_rest V W p iid i c d1))"
  proof (cases ?o)
    case (Pair x d1)
    show ?thesis
    proof (cases x)
      case (Inl resp)
      with Pair open_claim_call[of _ _ _ _ _ V p 200 d resp d1] show ?thesis by simp
    next
      case (Inr c)
      with Pair open_claim_Inr obtain t where "d1 = d\<lparr>idem := t\<rparr>" by blast
      with Pair Inr update_rest_call[OF i assms(2), of V p d iid c t] show ?thesis by simp
    qed
  qed
  with Body k plain one_call_same show ?thesis by (simp add: items_put_def decodeJSONBody_def)
qed (simp_all add: items_put_def decodeJSONBody_def one_call_same)

lemma route_items_call:
  assumes "route_text route" and "\<not> busy W 0"
  shows "one_call V p d (snd (route_items A V W today r p route d))"
proof (cases route)
  case (RtCreate b)
  with assms items_create_call show ?thesis by simp
next
  case (RtUpdate iid b)
  with assms items_put_call show ?thesis by simp
next
  case (RtReveal iid b)
  then show ?thesis by (cases b) (auto simp: items_secret_def decodeJSONBody_def one_call_same split: sum.split
      intro: one_call_intro user_call.secret_event)
next
  case (RtCopy iid b)
  then show ?thesis by (cases b) (auto simp: items_secret_def decodeJSONBody_def one_call_same split: sum.split
      intro: one_call_intro user_call.secret_event)
next
  case (RtFavorite iid b)
  then show ?thesis by (cases b) (auto simp: items_favorite_def decodeJSONBody_def one_call_same split: option.split
      intro: one_call_intro user_call.favorite)
next
  case (RtTags iid b)
  with assms(1) show ?thesis by (cases b) (auto simp: items_tags_def decodeJSONBody_def one_call_same
      intro: one_call_intro user_call.tags)
next
  case (RtRestoreHistory iid raw)
  then show ?thesis by (auto simp: items_restore_history_def one_call_same split: option.split
      intro: one_call_intro user_call.restore_history)
qed (auto intro: one_call_intro one_call_same user_call.intros)

lemma one_call_keeps:
  assumes "one_call V p d d'" and "venv_ok V" and "vault_inv V d"
  shows "vault_inv V d'"
    and "getItem iid d = Some r \<Longrightarrow> view_subject (policyView r) \<noteq> p_user p \<Longrightarrow> same_item iid d d'"
proof -
  from assms(1) obtain t1 d2 t2 where d2: "d2 = d\<lparr>idem := t1\<rparr> \<or> user_call V (Some p) (d\<lparr>idem := t1\<rparr>) d2" and d': "d' = d2\<lparr>idem := t2\<rparr>"
    by (auto simp: one_call_def)
  have i: "vault_inv V (d\<lparr>idem := t1\<rparr>)" using assms(3) by (simp add: vault_inv_cong[of "d\<lparr>idem := t1\<rparr>" d])
  with d2 have "vault_inv V d2" using user_call_keeps assms(2) by blast
  then show "vault_inv V d'" by (simp add: d' vault_inv_cong[of "d2\<lparr>idem := t2\<rparr>" d2])
  show "same_item iid d d'" if g: "getItem iid d = Some r" and o: "view_subject (policyView r) \<noteq> p_user p"
  proof -
    have "getItem iid (d\<lparr>idem := t1\<rparr>) = Some r" using g by (simp add: getItem_def)
    then have "same_item iid (d\<lparr>idem := t1\<rparr>) d2"
      using d2 user_call_same_item[OF _ assms(2) i _ o] by (auto simp: same_item_def)
    then show ?thesis by (simp add: same_item_def d' getItem_def)
  qed
qed

text \<open>C12: Whatever request arrives at the item endpoints, with whatever cookie, headers and body: the vault invariant is kept, and
  an item whose subject is not the member of the presented session keeps its row and its archived versions.
  In particular a request without a live session changes no item.\<close>

theorem request_keeps_items_of_others:
  assumes "venv_ok V" and "vault_inv V d" and "route_text route" and "\<not> busy W 0" and "getItem iid d = Some i"
    and "\<And>p. Authenticate (ai_auth A) (ve_now V) (sessionToken r) d = Inr p \<Longrightarrow> p_user p \<noteq> view_subject (policyView i)"
  shows "vault_inv V (snd (serve_items A V W today r route d)) \<and> getItem iid (snd (serve_items A V W today r route d)) = Some i \<and>
    filter (\<lambda>v. v_item v = iid) (versions (snd (serve_items A V W today r route d))) = filter (\<lambda>v. v_item v = iid) (versions d)"
proof (cases "RequireSession (ai_net A) (ai_auth A) (ve_now V) False r d :: item_reply resp + principal")
  case (Inl resp)
  then show ?thesis using assms(2,5) by (simp add: serve_items_def)
next
  case (Inr p)
  then have "Authenticate (ai_auth A) (ve_now V) (sessionToken r) d = Inr p"
    by (auto simp: RequireSession_def split: sum.splits if_splits)
  then have o: "view_subject (policyView i) \<noteq> p_user p" using assms(6) by auto
  note call = route_items_call[OF assms(3,4), of V p d A today r]
  show ?thesis
    using one_call_keeps(1)[OF call assms(1,2)] one_call_keeps(2)[OF call assms(1,2,5) o] Inr assms(5)
    by (simp add: serve_items_def same_item_def)
qed

text \<open>An administrator tries to purge the item of \<open>u1\<close>.\<close>

definition sample_api :: api_env where
  "sample_api = \<lparr>ai_net = sample_net, ai_auth = sample_auth, ai_cursor = sample_cursor, ai_idem = True, ai_fp = concat,
     ai_compact = id, ai_tags_json = concat, ai_browse_json = (\<lambda>i. [])\<rparr>"

definition shared_house :: db where
  "shared_house = empty_db\<lparr>users := [root, sample_user ''u1'' ''member''], sessions := [root_row], items := [sample_item]\<rparr>"

lemma shared_house_inv: "vault_inv sample_vault shared_house"
proof -
  let ?d = "empty_db\<lparr>users := [root, sample_user ''u1'' ''member''], sessions := [root_row]\<rparr>"
  have "vault_inv sample_vault ?d" by (simp add: vault_inv_def tables_ok_def history_exact_def empty_db_def)
  moreover have "insertItem sample_item ?d = Inr shared_house"
    by (simp add: insertItem_def insert_item_row_def item_check_def item_refs_def shared_house_def
        empty_db_def sql_insert_def sample_user_def item_types_def root_def)
  moreover have "owned_view (policyView sample_item)" by (simp add: owned_view_def null_string_def)
  ultimately show ?thesis using vault_inv_insert[OF _ _ _ _ sample_item_holds] by simp
qed

definition no_contention :: contention where
  "no_contention = \<lparr>busy = (\<lambda>k. False), others = (\<lambda>k d. d), cancelled = (\<lambda>k. False)\<rparr>"

theorem request_keeps_items_of_others_witness:
  "getItem ''item'' (snd (serve_items sample_api sample_vault no_contention ''2024-01-01'' root_request (RtPurge ''item'') shared_house))
     = Some sample_item"
proof -
  have t: "sessionToken root_request = tok0" by (simp add: sessionToken_def root_request_def)
  have a: "p_user p \<noteq> view_subject (policyView sample_item)"
    if "Authenticate (ai_auth sample_api) (ve_now sample_vault) (sessionToken root_request) shared_house = Inr p" for p
    using that by (rule Authenticate_InrD)
      (auto simp: shared_house_def root_row_def sample_session_def root_def sample_user_def principal_of_def view_subject_def null_string_def)
  have "getItem ''item'' shared_house = Some sample_item" by (simp add: getItem_def sql_get_def shared_house_def)
  from request_keeps_items_of_others[OF sample_vault_ok shared_house_inv _ _ this a, of "RtPurge ''item''" no_contention]
  show ?thesis by (simp add: no_contention_def)
qed

section \<open>A repeated create\<close>

lemma create_tx_claim:
  assumes "create_tx V a row (Some c) d = Inr (u, d')"
  shows "Complete (ve_idem V) (ve_now V) c (it_id row) (idem d) = Inr (idem d')"
proof -
  from assms obtain d1 d2 where ins: "insertItem row d = Inr d1" and cl: "complete_claim V (Some c) (it_id row) d1 = Inr d2"
    and au: "audit_in V (item_event ''vault.item.created'' a (it_id row)) d2 = Inr d'"
    by (auto simp: create_tx_def result_Inr)
  have "idem d1 = idem d" using insertItem_InrD[OF ins] by simp
  moreover have "idem d' = idem d2" using audit_in_InrD[OF au] by auto
  ultimately show ?thesis using cl by (auto simp: complete_claim_def split: sum.splits)
qed

text \<open>C13: A create that is sent again is not carried out again.  When a create under an idempotency key was answered with an item,
  the same request sent again within the replay window, by the same member, is answered with the very same
  detail, and no item or version is added or changed.\<close>

theorem create_retry_same_item:
  assumes V: "venv_ok V" and inv: "vault_inv V d" and w: "list_all valid_utf8 (cq_tags i)" and keys: "distinct (map idem_key (idem d))"
    and key: "IdempotencyKey r = (key, True, False)" "ai_idem A" "idem_get (ScopeFor itemsCreateScope (p_user p)) key (idem d) = None"
    and first: "items_create A V p r (Body i) d = (Reply 201 (RDetail dt), d1)"
    and window: "ve_now V \<le> later" "later < ve_now V + completedTTL (ve_idem V)"
    and au: "audit_in (V\<lparr>ve_now := later\<rparr>) (item_event ''vault.item.viewed'' p (m_id (dt_meta dt))) d1 = Inr d2"
  shows "\<exists>d3. items_create A (V\<lparr>ve_now := later\<rparr>) p r (Body i) d1 = (Reply 201 (RDetail dt), d3) \<and>
    items d3 = items d1 \<and> versions d3 = versions d1"
proof -
  let ?V = "V\<lparr>ve_now := later\<rparr>" and ?s = "ScopeFor itemsCreateScope (p_user p)" and ?fp = "createFingerprint A i"
  let ?i = "\<lparr>ci_type = cq_type i, ci_scope = cq_scope i, ci_tags = cq_tags i, ci_favorite = cq_favorite i, ci_payload = cq_payload i\<rparr>"
  have nonempty: "cq_payload i \<noteq> ''''" using first by (auto simp: items_create_def decodeJSONBody_def)
  obtain c t where cl: "Claim (ve_idem V) (\<lambda>_. ve_now V) ?s key ?fp (idem d) = (Inr (Some c, OutcomeFresh), t)"
    using Claim_decision[of "ve_idem V" "\<lambda>_. ve_now V" ?s key ?fp "idem d"] key(3)
    by (cases "Claim (ve_idem V) (\<lambda>_. ve_now V) ?s key ?fp (idem d)") auto
  then have "create_rest V p i (Some c) (d\<lparr>idem := t\<rparr>) = (Reply 201 (RDetail dt), d1)"
    using first nonempty key by (simp add: items_create_def decodeJSONBody_def open_claim_def Let_def)
  then have cr: "Create V (Some p) ?i (Some c) (d\<lparr>idem := t\<rparr>) = (Inr dt, d1)"
    by (auto simp: create_rest_def writeItemsError_def split: prod.splits sum.splits vault_error.splits)
  have inv': "vault_inv V (d\<lparr>idem := t\<rparr>)" using inv by (simp add: vault_inv_cong[of "d\<lparr>idem := t\<rparr>" d])
  from cr obtain row env q where row: "create_row V p ?i (d\<lparr>idem := t\<rparr>) = Inr (row, env, q)"
    and tx: "create_tx V p row (Some c) (d\<lparr>idem := t\<rparr>) = Inr ((), d1)"
    and dt: "dt = decorateDetail d1 \<lparr>dt_meta = toMeta row, dt_tags = sp_tags env, dt_payload = q\<rparr>"
    by (auto simp: Create_def in_tx_def split: sum.splits prod.splits)
  have iid: "m_id (dt_meta dt) = it_id row"
    by (auto simp: dt decorateDetail_def attachCreatorNames_def toMeta_def split: option.splits)
  have comp: "Complete (ve_idem V) (ve_now V) c (it_id row) t = Inr (idem d1)" using create_tx_claim[OF tx] by simp
  have "0 < pendingTTL (ve_idem V)" by (simp add: pendingTTL_def duration_defs)
  then have rp: "Claim (ve_idem V) (\<lambda>_. later) ?s key ?fp (idem d1) = (Inr (None, OutcomeReplay), idem d1)"
      "ReplayResourceID ?s key ?fp (idem d1) = Inr (it_id row)"
    using complete_then_replay[OF keys key(3) cl _ _ comp window(2)] by simp_all
  have op: "open_envelope ?V = open_envelope V" by (simp add: fun_eq_iff open_envelope_def)
  have dec: "decryptRow ?V = decryptRow V" and aud: "audit_in ?V = audit_in V"
    by (simp_all add: fun_eq_iff decryptRow_def op audit_in_def)
  have get: "Get ?V = Get V" by (simp only: fun_eq_iff Get_def dec aud) simp
  obtain d3 where g: "Get V (Some p) (it_id row) d1 = (Inr dt, d3)"
    using create_then_get[OF V inv' _ cr, of d2] w au unfolding aud iid by auto
  obtain x where "d3 = d1\<lparr>audits := audits d1 @ x\<rparr>" using Get_items[of V "Some p" "it_id row" d1] g by auto
  moreover have "items_create A ?V p r (Body i) d1 = (Reply 201 (RDetail dt), d3)"
    using nonempty key g rp by (simp add: items_create_def decodeJSONBody_def open_claim_def replay_item_def get)
  ultimately show ?thesis by simp
qed

text \<open>The member \<open>u1\<close> creates a note under a key, and sends the request again one second later.\<close>

definition keyed_request :: request where
  "keyed_request = root_request\<lparr>rq_headers := (\<lambda>h. if h = ''Idempotency-Key'' then [''note-0123456789ab''] else [])\<rparr>"

definition note_request :: create_request where
  "note_request = \<lparr>cq_type = TypeSecureNote, cq_scope = ScopePersonal, cq_tags = [''t''], cq_favorite = False, cq_payload = ''note1''\<rparr>"

lemma keyed_request_key: "IdempotencyKey keyed_request = (''note-0123456789ab'', True, False)"
  by (simp add: IdempotencyKey_def keyed_request_def header_def idempotencyKeyPattern_def key_char_def is_alnum_def is_digit_def Let_def)

lemma sample_create_row_any: "create_row sample_vault u1 sample_create d = Inr (sample_item, env1, note1)"
  using validate_sample_tags decode_samples build_samples
  by (simp add: create_row_def sample_create_def ItemTypes_def item_types_def Scopes_def CanCreate_def
      Let_def owner_for_def creator_for_def policyItem_def check_reference_of_def)

theorem create_retry_same_item_witness:
  "\<exists>dt d1 d3. items_create sample_api sample_vault u1 keyed_request (Body note_request) sample_db = (Reply 201 (RDetail dt), d1) \<and>
     items_create sample_api (sample_vault\<lparr>ve_now := 1000000007\<rparr>) u1 keyed_request (Body note_request) d1 = (Reply 201 (RDetail dt), d3) \<and>
     items d3 = [sample_item]"
proof -
  let ?q = "ve_idem sample_vault" and ?s = "ScopeFor itemsCreateScope ''u1''" and ?k = "''note-0123456789ab''"
  let ?fp = "createFingerprint sample_api note_request"
  let ?c = "\<lparr>cl_scope = ?s, cl_key = ?k, cl_fp = ?fp\<rparr>"
  let ?row = "\<lparr>k_scope = ?s, k_key = ?k, k_fp = ?fp, k_status = ''pending'', k_res = None, k_created = 7, k_expires = 600000000007\<rparr>"
  have cl: "Claim ?q (\<lambda>_. 7) ?s ?k ?fp [] = (Inr (Some ?c, OutcomeFresh), [?row])"
    by (simp add: Claim_def numeral_2_eq_2 sql_insert_def pendingTTL_def duration_defs sample_vault_def)
  obtain t where comp: "Complete ?q 7 ?c ''item'' [?row] = Inr t"
    by (simp add: Complete_def sql_affected_def live_pending_def idem_at_def)
  let ?d0 = "sample_db\<lparr>idem := [?row]\<rparr>"
  have ins: "insertItem sample_item ?d0 = Inr (sample_db1\<lparr>idem := [?row]\<rparr>)"
    by (simp add: insertItem_def insert_item_row_def item_check_def item_refs_def sample_db_def
      empty_db_def sql_insert_def sample_db1_def sample_user_def item_types_def)
  let ?d1 = "sample_db1\<lparr>idem := t, audits := [event_row sample_env '''' (item_event ''vault.item.created'' u1 ''item'')]\<rparr>"
  have tx: "create_tx sample_vault u1 sample_item (Some ?c) ?d0 = Inr ((), ?d1)"
    using sample_audit[of "item_event ''vault.item.created'' u1 ''item''" "sample_db1\<lparr>idem := t\<rparr>"] comp
    by (simp add: create_tx_def ins complete_claim_def allowlist_def)
       (simp add: sample_db1_def sample_db_def empty_db_def sample_env_def)
  let ?dt = "decorateDetail ?d1 \<lparr>dt_meta = toMeta sample_item, dt_tags = [''t''], dt_payload = note1\<rparr>"
  have cr: "Create sample_vault (Some u1) sample_create (Some ?c) ?d0 = (Inr ?dt, ?d1)"
    by (simp add: Create_def sample_create_row_any in_tx_def tx env_tags)
  have open1: "open_claim ?q 7 ?s ?k ?fp (replay_item sample_vault u1 201) sample_db = (Inr (Some ?c), ?d0)"
    using cl by (simp add: open_claim_def Let_def sample_db_def empty_db_def)
  have first: "items_create sample_api sample_vault u1 keyed_request (Body note_request) sample_db = (Reply 201 (RDetail ?dt), ?d1)"
    using open1 cr keyed_request_key
    by (simp add: items_create_def decodeJSONBody_def create_rest_def note_request_def sample_create_def sample_api_def)
  have id: "m_id (dt_meta ?dt) = ''item''" by (simp add: decorateDetail_def attachCreatorNames_def toMeta_def)
  have au: "\<exists>d2. audit_in (sample_vault\<lparr>ve_now := 1000000007\<rparr>) (item_event ''vault.item.viewed'' u1 (m_id (dt_meta ?dt))) ?d1 = Inr d2"
    using sample_audit[of "item_event ''vault.item.viewed'' u1 ''item''" ?d1] unfolding id
    by (simp add: audit_in_def allowlist_def sample_env_def event_row_def)
  then obtain d2 where au: "audit_in (sample_vault\<lparr>ve_now := 1000000007\<rparr>) (item_event ''vault.item.viewed'' u1 (m_id (dt_meta ?dt))) ?d1 = Inr d2" by blast
  have "\<exists>d3. items_create sample_api (sample_vault\<lparr>ve_now := 1000000007\<rparr>) u1 keyed_request (Body note_request) ?d1 = (Reply 201 (RDetail ?dt), d3)
      \<and> items d3 = items ?d1 \<and> versions d3 = versions ?d1"
    by (rule create_retry_same_item[OF sample_vault_ok sample_db_inv _ _ keyed_request_key _ _ first _ _ au])
       (simp_all add: note_request_def valid_utf8_def byte_values_def sample_db_def empty_db_def sample_api_def idem_get_def sql_get_def
          completedTTL_def duration_defs sample_vault_def)
  moreover have "items ?d1 = [sample_item]" by (simp add: sample_db1_def)
  ultimately show ?thesis using first by metis
qed

end
