(* ===== verification/LoginProbe.thy ===== *)
theory LoginProbe
  imports HttpGuard
begin

text \<open>
  \<open>httpapi/login_probe.go\<close>: the server looks for the login page of a site that a member names.  The addresses it
  may connect to, the redirects it follows, the pages it visits and the ranking.  URL parsing and printing, the regular
  expressions, name resolution and the network are parameters; what the network answers may depend on everything that
  was asked before, so a name can resolve differently the second time.
\<close>

section \<open>Addresses that are refused\<close>

definition Unmap :: "ip \<Rightarrow> ip" where
  "Unmap a = (case a of IP4 w \<Rightarrow> IP4 w | IP6 w \<Rightarrow> if drop_bit 32 w = 0xffff then IP4 (ucast w) else IP6 w)"

definition IsLoopback :: "ip \<Rightarrow> bool" where
  "IsLoopback a \<longleftrightarrow> net_contains (IP4 0x7F000000, 8) a \<or> a = IP6 1"

definition IsPrivate :: "ip \<Rightarrow> bool" where
  "IsPrivate a \<longleftrightarrow> net_contains (IP4 0x0A000000, 8) a \<or> net_contains (IP4 0xAC100000, 12) a \<or> net_contains (IP4 0xC0A80000, 16) a
     \<or> net_contains (IP6 0xFC000000000000000000000000000000, 7) a"

definition IsLinkLocalUnicast :: "ip \<Rightarrow> bool" where
  "IsLinkLocalUnicast a \<longleftrightarrow> net_contains (IP4 0xA9FE0000, 16) a \<or> net_contains (IP6 0xFE800000000000000000000000000000, 10) a"

definition IsLinkLocalMulticast :: "ip \<Rightarrow> bool" where
  "IsLinkLocalMulticast a \<longleftrightarrow> (case a of IP4 w \<Rightarrow> net_contains (IP4 0xE0000000, 24) a
     | IP6 w \<Rightarrow> and (drop_bit 112 w) 0xff0f = 0xff02)"

definition IsUnspecified :: "ip \<Rightarrow> bool" where "IsUnspecified a \<longleftrightarrow> a = IP4 0 \<or> a = IP6 0"

definition IsMulticast :: "ip \<Rightarrow> bool" where
  "IsMulticast a \<longleftrightarrow> net_contains (IP4 0xE0000000, 4) a \<or> net_contains (IP6 0xFF000000000000000000000000000000, 8) a"

definition probe_prefixes :: "cidr list" where
  "probe_prefixes = [(IP4 0x64400000, 10), (IP4 0xC0000000, 24), (IP4 0xC6120000, 15), (IP4 0xC6336400, 24), (IP4 0xCB007100, 24)]"

definition blockedLoginProbeIP :: "ip \<Rightarrow> bool" where
  "blockedLoginProbeIP addr =
    (let a = Unmap addr in
     if IsLoopback a \<or> IsPrivate a \<or> IsLinkLocalUnicast a \<or> IsLinkLocalMulticast a \<or> IsUnspecified a \<or> IsMulticast a then True
     else \<exists>p \<in> set probe_prefixes. net_contains p a)"

section \<open>The environment\<close>

record probe_url =
  pu_scheme :: string
  pu_host :: string
  pu_path :: string
  pu_rawpath :: string
  pu_query :: string
  pu_fragment :: string
  pu_user :: bool

text \<open>What the probe did so far: names it asked for, addresses it tried to connect to, requests it sent.\<close>

datatype probe_event = Looked string | Dialled ip string | Sent probe_url

datatype probe_reply = Redirect probe_url | Answer nat string string

record probe_env =
  pe_net :: net_env
  pe_ulow :: "string \<Rightarrow> string"
  pe_parse :: "string \<Rightarrow> probe_url option"
  pe_str :: "probe_url \<Rightarrow> string"
  pe_ref :: "probe_url \<Rightarrow> string \<Rightarrow> probe_url option"
  pe_port_ok :: "string \<Rightarrow> bool"
  pe_ip :: "string \<Rightarrow> ip option"
  pe_addr :: "probe_url \<Rightarrow> string"
  pe_resolve :: "probe_event list \<Rightarrow> string \<Rightarrow> ip list option"
  pe_connect :: "probe_event list \<Rightarrow> ip \<Rightarrow> string \<Rightarrow> bool"
  pe_serve :: "probe_event list \<Rightarrow> probe_url \<Rightarrow> probe_reply option"
  pe_unescape :: "string \<Rightarrow> string option"
  pe_html :: "string \<Rightarrow> string"
  re_password :: "string \<Rightarrow> bool"
  re_current :: "string \<Rightarrow> bool"
  re_identity :: "string \<Rightarrow> bool"
  re_words :: "string \<Rightarrow> bool"
  re_chinese :: "string \<Rightarrow> bool"
  re_action :: "string \<Rightarrow> bool"
  re_negative :: "string \<Rightarrow> bool"
  re_chinese_negative :: "string \<Rightarrow> bool"
  re_new :: "string \<Rightarrow> bool"
  re_untag :: "string \<Rightarrow> string"
  re_anchors :: "string \<Rightarrow> (string \<times> string) list"

text \<open>\<open>URL.Hostname\<close> and \<open>URL.Port\<close>: a valid port is cut off, then the brackets.\<close>

definition valid_optional_port :: "string \<Rightarrow> bool" where
  "valid_optional_port s \<longleftrightarrow> s = '''' \<or> (hd s = CHR '':'' \<and> list_all is_digit (tl s))"

definition host_port :: "string \<Rightarrow> string \<times> string" where
  "host_port hp =
    (let (host, port) = (case last_index (CHR '':'') hp of None \<Rightarrow> (hp, '''')
        | Some i \<Rightarrow> if valid_optional_port (drop i hp) then (take i hp, drop (Suc i) hp) else (hp, '''')) in
     if has_prefix ''['' host \<and> has_suffix '']'' host then (take (length host - 2) (drop 1 host), port) else (host, port))"

definition Hostname :: "probe_url \<Rightarrow> string" where "Hostname u = fst (host_port (pu_host u))"
definition Port :: "probe_url \<Rightarrow> string" where "Port u = snd (host_port (pu_host u))"

section \<open>The URL of the member\<close>

datatype probe_error = ProbeBlocked | ProbeInvalid

definition loginProbeMaxURLBytes :: nat where "loginProbeMaxURLBytes = 2048"
definition loginProbeMaxBodyBytes :: nat where "loginProbeMaxBodyBytes = 262144"
definition loginProbeMaxCandidates :: nat where "loginProbeMaxCandidates = 8"

definition scheme_char :: "char \<Rightarrow> bool" where
  "scheme_char c \<longleftrightarrow> 97 \<le> (of_char c :: nat) \<and> (of_char c :: nat) \<le> 122 \<or> is_digit c \<or> c \<in> {CHR ''+'', CHR ''.'', CHR ''-''}"

definition loginProbeSchemeRE :: "string \<Rightarrow> bool" where
  "loginProbeSchemeRE s \<longleftrightarrow> s \<noteq> '''' \<and> 97 \<le> (of_char (hd s) :: nat) \<and> (of_char (hd s) :: nat) \<le> 122
     \<and> (case dropWhile scheme_char (tl s) of [] \<Rightarrow> False | c # cs \<Rightarrow> c = CHR '':'')"

definition trim_suffix :: "string \<Rightarrow> string \<Rightarrow> string" where
  "trim_suffix suf s = (if has_suffix suf s then take (length s - length suf) s else s)"

definition blockedLoginProbeHost :: "probe_env \<Rightarrow> string \<Rightarrow> bool" where
  "blockedLoginProbeHost E host =
    (let lower = to_lower (pe_ulow E) (trim_suffix ''.'' host) in
     if lower = ''localhost'' \<or> has_suffix ''.localhost'' lower \<or> has_suffix ''.local'' lower \<or> has_suffix ''.internal'' lower then True
     else case pe_ip E lower of Some a \<Rightarrow> blockedLoginProbeIP a | None \<Rightarrow> False)"

definition probe_text :: "string \<Rightarrow> string" where
  "probe_text value = (if has_prefix ''//'' value then ''https:'' @ value
     else if \<not> has_infix ''://'' value then ''https://'' @ value else value)"

definition normalizeLoginProbeURL :: "probe_env \<Rightarrow> string \<Rightarrow> probe_error + probe_url" where
  "normalizeLoginProbeURL E raw =
    (if length raw = 0 \<or> length raw > loginProbeMaxURLBytes then Inl ProbeInvalid
     else let value = trim_space raw; low = to_lower (pe_ulow E) value in
       if value = '''' \<or> CHR 0x00 \<in> set value \<or> CHR 0x0D \<in> set value \<or> CHR 0x0A \<in> set value then Inl ProbeInvalid
       else if loginProbeSchemeRE value \<and> \<not> has_prefix ''http://'' low \<and> \<not> has_prefix ''https://'' low \<and> \<not> has_prefix ''//'' value
         then Inl ProbeInvalid
       else case pe_parse E (probe_text value) of None \<Rightarrow> Inl ProbeInvalid
         | Some u \<Rightarrow>
            if Hostname u = '''' \<or> pu_user u then Inl ProbeInvalid
            else if pu_scheme u \<noteq> ''http'' \<and> pu_scheme u \<noteq> ''https'' then Inl ProbeInvalid
            else if Port u = '''' \<and> CHR '':'' \<in> set (pu_host u) \<and> CHR '']'' \<notin> set (pu_host u) then Inl ProbeInvalid
            else if Port u \<noteq> '''' \<and> \<not> pe_port_ok E (Port u) then Inl ProbeInvalid
            else if blockedLoginProbeHost E (Hostname u) then Inl ProbeBlocked
            else Inr (u\<lparr>pu_path := (if pu_path u = '''' then ''/'' else pu_path u), pu_fragment := ''''\<rparr>))"

section \<open>Connections and redirects\<close>

fun dial_ips :: "probe_env \<Rightarrow> string \<Rightarrow> ip list \<Rightarrow> probe_event list \<Rightarrow> bool \<times> probe_event list" where
  "dial_ips E port [] h = (False, h)"
| "dial_ips E port (a # as) h =
    (let h' = h @ [Dialled a port] in if pe_connect E h a port then (True, h') else dial_ips E port as h')"

definition safeLoginProbeDialContext :: "probe_env \<Rightarrow> string \<Rightarrow> probe_event list \<Rightarrow> bool \<times> probe_event list" where
  "safeLoginProbeDialContext E address h = (case SplitHostPort address of Inl e \<Rightarrow> (False, h)
    | Inr (host, port) \<Rightarrow>
       if blockedLoginProbeHost E host then (False, h)
       else (case (case pe_ip E host of Some a \<Rightarrow> (Some [a], h) | None \<Rightarrow> (pe_resolve E h host, h @ [Looked host])) of
          (None, h1) \<Rightarrow> (False, h1)
        | (Some ips, h1) \<Rightarrow>
            if ips = [] \<or> (\<exists>a \<in> set ips. blockedLoginProbeIP a) then (False, h1) else dial_ips E port ips h1))"

definition CheckRedirect :: "probe_env \<Rightarrow> probe_url \<Rightarrow> probe_url list \<Rightarrow> bool" where
  "CheckRedirect E u via =
    (if length via \<ge> 3 \<or> blockedLoginProbeHost E (Hostname u) then False
     else let previous = last via in
       if \<not> EqualFold (pe_net E) (Hostname previous) (Hostname u) \<or> Port previous \<noteq> Port u then False
       else if pu_scheme previous = ''https'' \<and> pu_scheme u \<noteq> ''https'' then False
       else pu_scheme u = ''http'' \<or> pu_scheme u = ''https'')"

text \<open>\<open>Client.Do\<close>: the request, and the redirects as long as the policy accepts them.\<close>

function client_do :: "probe_env \<Rightarrow> probe_url list \<Rightarrow> probe_url \<Rightarrow> probe_event list
    \<Rightarrow> (nat \<times> string \<times> string) option \<times> probe_event list" where
  "client_do E via u h = (case safeLoginProbeDialContext E (pe_addr E u) h of
      (False, h1) \<Rightarrow> (None, h1)
    | (True, h1) \<Rightarrow>
        let h2 = h1 @ [Sent u] in
        (case pe_serve E h1 u of
           None \<Rightarrow> (None, h2)
         | Some (Answer status ctype page) \<Rightarrow> (Some (status, ctype, page), h2)
         | Some (Redirect v) \<Rightarrow> if CheckRedirect E v (via @ [u]) then client_do E (via @ [u]) v h2 else (None, h2)))"
  by pat_completeness auto
termination
  by (relation "measure (\<lambda>(E, via, u, h). 3 - length via)") (auto simp: CheckRedirect_def split: if_splits)

declare client_do.simps [simp del]

section \<open>Reading a page\<close>

datatype probe_reason = PasswordInput | CurrentPassword | IdentityInput | LoginText | SubmitButton | NegativeText | NewPassword

record probe_analysis =
  pa_score :: int
  pa_password :: bool
  pa_login :: bool
  pa_reasons :: "probe_reason list"

definition signal :: "bool \<Rightarrow> int \<Rightarrow> probe_reason \<Rightarrow> probe_analysis \<Rightarrow> probe_analysis" where
  "signal b n r a = (if b then a\<lparr>pa_score := pa_score a + n, pa_reasons := pa_reasons a @ [r]\<rparr> else a)"

definition analyzeLoginHTML :: "probe_env \<Rightarrow> string \<Rightarrow> probe_analysis" where
  "analyzeLoginHTML E text =
    (let visible = pe_html E (re_untag E text);
         words = re_words E visible \<or> re_words E text \<or> re_chinese E visible \<or> re_chinese E text;
         a0 = \<lparr>pa_score = 0, pa_password = re_password E text, pa_login = words, pa_reasons = []\<rparr>;
         a1 = signal (re_password E text) 5 PasswordInput a0;
         a2 = signal (re_current E text) 2 CurrentPassword a1;
         a3 = signal (re_identity E text) 2 IdentityInput a2;
         a4 = signal words 2 LoginText a3;
         a5 = signal (re_action E text) 1 SubmitButton a4;
         a6 = signal (re_negative E visible \<or> re_chinese_negative E visible) (- 3) NegativeText a5 in
     signal (re_new E text) (- 4) NewPassword a6)"

record probe_result =
  pr_analysis :: probe_analysis
  pr_status :: nat
  pr_body :: string

definition no_analysis :: probe_analysis where
  "no_analysis = \<lparr>pa_score = 0, pa_password = False, pa_login = False, pa_reasons = []\<rparr>"

definition html_type :: "probe_env \<Rightarrow> string \<Rightarrow> bool" where
  "html_type E ctype \<longleftrightarrow>
    to_lower (pe_ulow E) (trim_space (hd (split_on (CHR '';'') ctype))) \<in> {'''', ''text/html'', ''application/xhtml+xml''}"

definition fetchLoginProbe :: "probe_env \<Rightarrow> probe_url \<Rightarrow> probe_event list \<Rightarrow> probe_result option \<times> probe_event list" where
  "fetchLoginProbe E u h = (case pe_parse E (pe_str E u) of None \<Rightarrow> (None, h)
    | Some v \<Rightarrow> (case client_do E [] v h of
        (None, h') \<Rightarrow> (None, h')
      | (Some (status, ctype, page), h') \<Rightarrow>
          if length page > loginProbeMaxBodyBytes then (None, h')
          else if \<not> html_type E ctype then (Some \<lparr>pr_analysis = no_analysis, pr_status = status, pr_body = ''''\<rparr>, h')
          else (Some \<lparr>pr_analysis = analyzeLoginHTML E page, pr_status = status, pr_body = page\<rparr>, h')))"

text \<open>The links that look like a login, at most four.\<close>

definition link_target :: "probe_env \<Rightarrow> probe_url \<Rightarrow> string \<times> string \<Rightarrow> probe_url option" where
  "link_target E base m = (case pe_unescape E (fst m) of None \<Rightarrow> None
    | Some href \<Rightarrow>
       if \<not> re_words E (re_untag E (snd m)) \<and> \<not> re_words E href then None
       else (case pe_ref E base (trim_space (pe_html E href)) of None \<Rightarrow> None
         | Some c \<Rightarrow>
            if Hostname c = '''' \<or> pu_scheme c \<noteq> pu_scheme base \<or> \<not> EqualFold (pe_net E) (Hostname c) (Hostname base)
               \<or> Port c \<noteq> Port base \<or> blockedLoginProbeHost E (Hostname c) then None
            else Some (c\<lparr>pu_fragment := ''''\<rparr>)))"

fun link_scan :: "probe_env \<Rightarrow> probe_url \<Rightarrow> (string \<times> string) list \<Rightarrow> string list \<Rightarrow> probe_url list \<Rightarrow> probe_url list" where
  "link_scan E base [] seen links = links"
| "link_scan E base (m # ms) seen links = (case link_target E base m of
      None \<Rightarrow> link_scan E base ms seen links
    | Some c \<Rightarrow>
       let new = pe_str E c \<notin> set seen;
           seen' = (if new then pe_str E c # seen else seen);
           links' = (if new then links @ [c] else links) in
       if length links' \<ge> 4 then links' else link_scan E base ms seen' links')"

definition loginProbeLinks :: "probe_env \<Rightarrow> string \<Rightarrow> probe_url \<Rightarrow> probe_url list" where
  "loginProbeLinks E page base = link_scan E base (re_anchors E page) [] []"

section \<open>The probe\<close>

record probe_candidate =
  pc_url :: string
  pc_score :: int
  pc_password :: bool
  pc_reasons :: "probe_reason list"

definition pathCandidates :: "string list" where
  "pathCandidates = [''/login'', ''/signin'', ''/sign-in'', ''/auth/login'', ''/account/login'', ''/user/login'', ''/users/sign_in'']"

definition at_path :: "probe_url \<Rightarrow> string \<Rightarrow> probe_url" where
  "at_path base p = base\<lparr>pu_path := p, pu_rawpath := '''', pu_query := '''', pu_fragment := ''''\<rparr>"

fun enqueue :: "probe_env \<Rightarrow> probe_url list \<Rightarrow> probe_url list \<times> string list \<Rightarrow> probe_url list \<times> string list" where
  "enqueue E [] qs = qs"
| "enqueue E (u # us) (q, seen) =
    enqueue E us (if pe_str E u \<in> set seen then (q, seen) else (q @ [u], pe_str E u # seen))"

definition candidate_of :: "probe_env \<Rightarrow> probe_url \<Rightarrow> probe_url \<Rightarrow> probe_result \<Rightarrow> probe_candidate list" where
  "candidate_of E base u r =
    (if 200 \<le> pr_status r \<and> pr_status r < 400
        \<and> (pa_score (pr_analysis r) \<ge> 3 \<or> pe_str E u = pe_str E base \<and> pa_login (pr_analysis r))
     then [\<lparr>pc_url = pe_str E u, pc_score = pa_score (pr_analysis r), pc_password = pa_password (pr_analysis r),
            pc_reasons = pa_reasons (pr_analysis r)\<rparr>] else [])"

text \<open>The first argument counts the iterations that are left of the eight, the second is \<open>i\<close>.\<close>

fun probe_loop :: "probe_env \<Rightarrow> probe_url \<Rightarrow> nat \<Rightarrow> nat \<Rightarrow> probe_url list \<Rightarrow> string list \<Rightarrow> probe_candidate list \<Rightarrow> probe_event list
    \<Rightarrow> probe_candidate list \<times> probe_event list" where
  "probe_loop E base 0 i urls seen results h = (results, h)"
| "probe_loop E base (Suc n) i [] seen results h = (results, h)"
| "probe_loop E base (Suc n) i (u # urls) seen results h = (case fetchLoginProbe E u h of
      (None, h') \<Rightarrow> probe_loop E base n (Suc i) urls seen results h'
    | (Some r, h') \<Rightarrow>
       let (q1, s1) = (if i = 0 \<and> pr_body r \<noteq> '''' then enqueue E (loginProbeLinks E (pr_body r) base) (urls, seen) else (urls, seen));
           (q2, s2) = (if i < length pathCandidates then enqueue E [at_path base (pathCandidates ! i)] (q1, s1) else (q1, s1)) in
       probe_loop E base n (Suc i) q2 s2 (results @ candidate_of E base u r) h')"

definition probe_start :: "probe_env \<Rightarrow> probe_url \<Rightarrow> probe_url list \<times> string list" where
  "probe_start E base = enqueue E [at_path base ''''] ([base], [pe_str E base])"

definition probeLoginPage :: "probe_env \<Rightarrow> string \<Rightarrow> (probe_error + string \<times> probe_candidate list) \<times> probe_event list" where
  "probeLoginPage E raw = (case normalizeLoginProbeURL E raw of Inl e \<Rightarrow> (Inl e, [])
    | Inr base \<Rightarrow> (case probe_start E base of (urls, seen) \<Rightarrow>
       (case probe_loop E base loginProbeMaxCandidates 0 urls seen [] [] of (results, h) \<Rightarrow>
         (Inr (pe_str E base, sort_key (\<lambda>c. - pc_score c) results), h))))"

definition items_login_probe :: "probe_env \<Rightarrow> string body \<Rightarrow> (string \<times> probe_candidate list) resp \<times> probe_event list" where
  "items_login_probe E b = (case decodeJSONBody b of Inl resp \<Rightarrow> (resp, [])
    | Inr raw \<Rightarrow> (case probeLoginPage E raw of
        (Inl ProbeBlocked, h) \<Rightarrow> (Problem 400 ''URL_NOT_ALLOWED'', h)
      | (Inl ProbeInvalid, h) \<Rightarrow> (Problem 400 ''VALIDATION_ERROR'', h)
      | (Inr result, h) \<Rightarrow> (Reply 200 result, h)))"

section \<open>No connection into the internal network\<close>

text \<open>The address ranges as half-open intervals of numbers.\<close>

definition internal_ranges :: "(nat \<times> nat) list" where
  "internal_ranges = [(0, 1), (0x0A000000, 0x0B000000), (0x64400000, 0x64800000), (0x7F000000, 0x80000000), (0xA9FE0000, 0xA9FF0000),
     (0xAC100000, 0xAC200000), (0xC0000000, 0xC0000100), (0xC0A80000, 0xC0A90000), (0xC6120000, 0xC6140000),
     (0xC6336400, 0xC6336500), (0xCB007100, 0xCB007200), (0xE0000000, 0xF0000000)]"

definition internal_v4 :: "nat \<Rightarrow> bool" where
  "internal_v4 n \<longleftrightarrow> list_ex (\<lambda>(lo, hi). lo \<le> n \<and> n < hi) internal_ranges"

definition internal_ip :: "ip \<Rightarrow> bool" where
  "internal_ip a \<longleftrightarrow> (case a of IP4 w \<Rightarrow> internal_v4 (unat w)
     | IP6 w \<Rightarrow> unat w < 2 \<or> unat w div 2 ^ 32 = 0xffff \<and> internal_v4 (unat w mod 2 ^ 32)
        \<or> unat w div 2 ^ 121 = 0x7e \<or> unat w div 2 ^ 118 = 0x3fa \<or> unat w div 2 ^ 120 = 0xff)"

lemma drop_bit_eq_iff:
  fixes a b :: "'a::len word"
  shows "drop_bit k a = drop_bit k b \<longleftrightarrow> unat a div 2 ^ k = unat b div 2 ^ k"
  by (simp only: word_unat_eq_iff unat_drop_bit_eq) (simp only: drop_bit_eq_div)

lemma contains_v4: "net_contains (IP4 n, m) (IP4 a) \<longleftrightarrow> unat a div 2 ^ (32 - m) = unat n div 2 ^ (32 - m)"
  by (simp add: drop_bit_eq_iff)

lemma contains_v6: "net_contains (IP6 n, m) (IP6 a) \<longleftrightarrow> unat a div 2 ^ (128 - m) = unat n div 2 ^ (128 - m)"
  by (simp add: drop_bit_eq_iff)

lemma div_eq_interval: "0 < q \<Longrightarrow> (n::nat) div q = c \<longleftrightarrow> c * q \<le> n \<and> n < Suc c * q"
  by (metis div_nat_eqI div_times_less_eq_dividend dividend_less_div_times lessI mult.commute mult_Suc add.commute)

lemma blocked_v4: "blockedLoginProbeIP (IP4 w) \<longleftrightarrow> internal_v4 (unat w)"
proof -
  have z: "w = 0 \<longleftrightarrow> unat w < 1" by (simp add: unat_eq_zero)
  let ?n = "unat w"
  have "blockedLoginProbeIP (IP4 w) \<longleftrightarrow> ?n < 1 \<or> net_contains (IP4 0x0A000000, 8) (IP4 w) \<or> net_contains (IP4 0x64400000, 10) (IP4 w)
     \<or> net_contains (IP4 0x7F000000, 8) (IP4 w) \<or> net_contains (IP4 0xA9FE0000, 16) (IP4 w) \<or> net_contains (IP4 0xAC100000, 12) (IP4 w)
     \<or> net_contains (IP4 0xC0000000, 24) (IP4 w) \<or> net_contains (IP4 0xC0A80000, 16) (IP4 w) \<or> net_contains (IP4 0xC6120000, 15) (IP4 w)
     \<or> net_contains (IP4 0xC6336400, 24) (IP4 w) \<or> net_contains (IP4 0xCB007100, 24) (IP4 w) \<or> net_contains (IP4 0xE0000000, 24) (IP4 w)
     \<or> net_contains (IP4 0xE0000000, 4) (IP4 w)"
    unfolding blockedLoginProbeIP_def Let_def Unmap_def ip.case IsLoopback_def IsPrivate_def IsLinkLocalUnicast_def
      IsLinkLocalMulticast_def IsUnspecified_def IsMulticast_def probe_prefixes_def z[symmetric]
    by (simp del: net_contains.simps(1))
  moreover have "net_contains (IP4 0xE0000000, 24) (IP4 w) \<Longrightarrow> net_contains (IP4 0xE0000000, 4) (IP4 w)"
    unfolding contains_v4 by (simp add: div_eq_interval)
  moreover have "internal_v4 ?n \<longleftrightarrow> ?n < 1 \<or> net_contains (IP4 0x0A000000, 8) (IP4 w) \<or> net_contains (IP4 0x64400000, 10) (IP4 w)
     \<or> net_contains (IP4 0x7F000000, 8) (IP4 w) \<or> net_contains (IP4 0xA9FE0000, 16) (IP4 w) \<or> net_contains (IP4 0xAC100000, 12) (IP4 w)
     \<or> net_contains (IP4 0xC0000000, 24) (IP4 w) \<or> net_contains (IP4 0xC0A80000, 16) (IP4 w) \<or> net_contains (IP4 0xC6120000, 15) (IP4 w)
     \<or> net_contains (IP4 0xC6336400, 24) (IP4 w) \<or> net_contains (IP4 0xCB007100, 24) (IP4 w) \<or> net_contains (IP4 0xE0000000, 4) (IP4 w)"
    unfolding contains_v4 internal_v4_def internal_ranges_def by (simp add: div_eq_interval)
  ultimately show ?thesis by blast
qed

lemma link_local_multicast: "and (drop_bit 112 w) 0xff0f = (0xff02 :: 128 word) \<Longrightarrow> unat w div 2 ^ 120 = 0xff"
proof -
  assume a: "and (drop_bit 112 w) 0xff0f = (0xff02 :: 128 word)"
  have "drop_bit 8 (and (drop_bit 112 w) 0xff0f) = drop_bit 8 (0xff02 :: 128 word)" by (simp only: a)
  then have "and (drop_bit 120 w) 0xff = (0xff :: 128 word)" by simp
  then have "unat (and (drop_bit 120 w) 0xff) = unat (0xff :: 128 word)" by simp
  then have "and (unat w div 2 ^ 120) 0xff = (0xff :: nat)"
    by (simp only: unsigned_and_eq unat_drop_bit_eq) (simp add: drop_bit_eq_div)
  moreover have "and (unat w div 2 ^ 120) 0xff = unat w div 2 ^ 120 mod 2 ^ 8"
    using take_bit_eq_mask[of 8 "unat w div 2 ^ 120"] by (simp add: take_bit_eq_mod mask_eq_exp_minus_1)
  moreover have l: "unat w < 2 ^ 128" by (rule order_less_le_trans[OF unsigned_less]) simp
  have "unat w div 2 ^ 120 < 2 ^ 8" using l by (simp add: less_mult_imp_div_less)
  ultimately show ?thesis by simp
qed

lemma mapped_iff: "drop_bit 32 (w :: 128 word) = 0xffff \<longleftrightarrow> unat w div 2 ^ 32 = 0xffff"
  using drop_bit_eq_iff[where k = 32 and a = w and b = "0xffff00000000"] by simp

lemma blocked_mapped:
  assumes "drop_bit 32 w = (0xffff :: 128 word)"
  shows "blockedLoginProbeIP (IP6 w) \<longleftrightarrow> internal_ip (IP6 w)"
proof -
  have m: "unat w div 2 ^ 32 = 0xffff" using assms mapped_iff by blast
  have n: "unat (ucast w :: 32 word) = unat w mod 2 ^ 32" by (simp add: unsigned_ucast_eq take_bit_eq_mod)
  have b: "blockedLoginProbeIP (IP6 w) \<longleftrightarrow> internal_v4 (unat w mod 2 ^ 32)"
    using blocked_v4[of "ucast w"] assms n by (simp add: blockedLoginProbeIP_def Unmap_def)
  have lo: "2 \<le> unat w" and hi: "unat w < 2 ^ 48" using m by (simp_all add: div_eq_interval)
  have "unat w div 2 ^ 121 = 0" "unat w div 2 ^ 118 = 0" "unat w div 2 ^ 120 = 0" using hi by simp_all
  with m b lo show ?thesis by (simp add: internal_ip_def)
qed

lemma blocked_v6:
  assumes "drop_bit 32 w \<noteq> (0xffff :: 128 word)"
  shows "blockedLoginProbeIP (IP6 w) \<longleftrightarrow> internal_ip (IP6 w)"
proof -
  have z: "w = 0 \<or> w = 1 \<longleftrightarrow> unat w < 2" by (simp add: word_unat_eq_iff) arith
  have m: "unat w div 2 ^ 32 \<noteq> 0xffff" using assms mapped_iff by blast
  have "blockedLoginProbeIP (IP6 w) \<longleftrightarrow> (w = 0 \<or> w = 1) \<or> net_contains (IP6 0xFC000000000000000000000000000000, 7) (IP6 w)
     \<or> net_contains (IP6 0xFE800000000000000000000000000000, 10) (IP6 w) \<or> and (drop_bit 112 w) 0xff0f = 0xff02
     \<or> net_contains (IP6 0xFF000000000000000000000000000000, 8) (IP6 w)"
    using assms unfolding blockedLoginProbeIP_def Let_def Unmap_def IsLoopback_def IsPrivate_def IsLinkLocalUnicast_def
      IsLinkLocalMulticast_def IsUnspecified_def IsMulticast_def probe_prefixes_def
    by (simp del: net_contains.simps(2))
  moreover have "net_contains (IP6 0xFC000000000000000000000000000000, 7) (IP6 w) \<longleftrightarrow> unat w div 2 ^ 121 = 0x7e"
    "net_contains (IP6 0xFE800000000000000000000000000000, 10) (IP6 w) \<longleftrightarrow> unat w div 2 ^ 118 = 0x3fa"
    "net_contains (IP6 0xFF000000000000000000000000000000, 8) (IP6 w) \<longleftrightarrow> unat w div 2 ^ 120 = 0xff"
    unfolding contains_v6 by simp_all
  ultimately show ?thesis using m z link_local_multicast[of w] unfolding internal_ip_def ip.case by blast
qed

lemma blocked_iff: "blockedLoginProbeIP a \<longleftrightarrow> internal_ip a"
  using blocked_v4 blocked_mapped blocked_v6 by (cases a) (simp add: internal_ip_def, blast)

fun is_sent :: "probe_event \<Rightarrow> bool" where
  "is_sent (Sent u) = True" | "is_sent e = False"

definition dials_ok :: "probe_event list \<Rightarrow> bool" where
  "dials_ok h \<longleftrightarrow> (\<forall>a p. Dialled a p \<in> set h \<longrightarrow> \<not> blockedLoginProbeIP a)"

definition sent :: "probe_event list \<Rightarrow> nat" where "sent h = length (filter is_sent h)"

lemma sent_simps [simp]: "sent [] = 0" "sent (h @ h') = sent h + sent h'" "sent [Sent u] = 1" "sent [Dialled a p] = 0" "sent [Looked n] = 0"
  by (simp_all add: sent_def)

lemma dials_simps [simp]: "dials_ok []" "dials_ok (h @ h') \<longleftrightarrow> dials_ok h \<and> dials_ok h'" "dials_ok [Sent u]" "dials_ok [Looked n]"
  "dials_ok [Dialled a p] \<longleftrightarrow> \<not> blockedLoginProbeIP a"
  by (auto simp: dials_ok_def)

lemma dial_ips_ok:
  "(\<forall>a \<in> set as. \<not> blockedLoginProbeIP a) \<Longrightarrow> dials_ok h \<Longrightarrow> dials_ok (snd (dial_ips E port as h)) \<and> sent (snd (dial_ips E port as h)) = sent h"
  by (induction as arbitrary: h) (simp_all add: Let_def)

lemma dial_ok:
  assumes "safeLoginProbeDialContext E address h = (ok, h')" and "dials_ok h"
  shows "dials_ok h' \<and> sent h' = sent h"
proof (cases "SplitHostPort address")
  case (Inl e)
  with assms show ?thesis by (simp add: safeLoginProbeDialContext_def)
next
  case (Inr hp)
  obtain host port where hp: "hp = (host, port)" by (cases hp)
  let ?x = "case pe_ip E host of Some a \<Rightarrow> (Some [a], h) | None \<Rightarrow> (pe_resolve E h host, h @ [Looked host])"
  obtain ips h1 where x: "?x = (ips, h1)" by (cases ?x)
  have h1: "dials_ok h1" "sent h1 = sent h" using x assms(2) by (auto split: option.splits)
  show ?thesis
  proof (cases ips)
    case None
    with assms Inr hp x h1 show ?thesis by (simp add: safeLoginProbeDialContext_def split: if_splits)
  next
    case (Some as)
    with assms Inr hp x have "h' = h \<or> h' = h1 \<or> (\<forall>a \<in> set as. \<not> blockedLoginProbeIP a) \<and> h' = snd (dial_ips E port as h1)"
      by (simp add: safeLoginProbeDialContext_def split: if_splits)
    with dial_ips_ok[of as h1 E port] assms(2) h1 show ?thesis by auto
  qed
qed

lemma client_do_ok:
  "client_do E via u h = (res, h') \<Longrightarrow> dials_ok h \<Longrightarrow> length via < 3 \<Longrightarrow> dials_ok h' \<and> sent h' \<le> sent h + (3 - length via)"
proof (induction E via u h arbitrary: res h' rule: client_do.induct)
  case (1 E via u h)
  obtain ok h1 where d: "safeLoginProbeDialContext E (pe_addr E u) h = (ok, h1)" by (cases "safeLoginProbeDialContext E (pe_addr E u) h")
  note h1 = dial_ok[OF d 1(3)]
  show ?case
  proof (cases ok)
    case False
    with 1(2) d h1 show ?thesis by (simp add: client_do.simps[of E via])
  next
    case ok: True
    show ?thesis
    proof (cases "pe_serve E h1 u")
      case None
      with 1(2,4) d h1 ok show ?thesis by (auto simp: client_do.simps[of E via] Let_def)
    next
      case (Some r)
      show ?thesis
      proof (cases r)
        case (Answer s c p)
        with 1(2,4) d h1 ok Some show ?thesis by (auto simp: client_do.simps[of E via] Let_def)
      next
        case (Redirect v)
        show ?thesis
        proof (cases "CheckRedirect E v (via @ [u])")
          case False
          with 1(2,4) d h1 ok Some Redirect show ?thesis by (auto simp: client_do.simps[of E via] Let_def)
        next
          case True
          then have l: "length (via @ [u]) < 3" by (simp add: CheckRedirect_def split: if_splits)
          have "client_do E (via @ [u]) v (h1 @ [Sent u]) = (res, h')"
            using 1(2) d ok Some Redirect True by (simp add: client_do.simps[of E via] Let_def)
          from 1(1)[OF d[symmetric] _ refl Some Redirect True this] ok h1 l show ?thesis by (auto simp: not_less_eq) 
        qed
      qed
    qed
  qed
qed

lemma fetch_ok:
  assumes "fetchLoginProbe E u h = (res, h')" and "dials_ok h"
  shows "dials_ok h' \<and> sent h' \<le> sent h + 3"
proof (cases "pe_parse E (pe_str E u)")
  case None
  with assms show ?thesis by (simp add: fetchLoginProbe_def)
next
  case (Some v)
  obtain r h1 where c: "client_do E [] v h = (r, h1)" by (cases "client_do E [] v h")
  with assms(1) Some have "h1 = h'" by (auto simp: fetchLoginProbe_def split: option.splits if_splits prod.splits)
  with client_do_ok[OF c assms(2)] show ?thesis by simp
qed

lemma probe_loop_ok:
  "probe_loop E base n i urls seen results h = (r, h') \<Longrightarrow> dials_ok h \<Longrightarrow> dials_ok h' \<and> sent h' \<le> sent h + 3 * n"
proof (induction E base n i urls seen results h arbitrary: r h' rule: probe_loop.induct)
  case (3 E base n i u urls seen results h)
  obtain f h1 where f: "fetchLoginProbe E u h = (f, h1)" by (cases "fetchLoginProbe E u h")
  note h1 = fetch_ok[OF f 3(4)]
  show ?case
  proof (cases f)
    case None
    with 3(3) f have "probe_loop E base n (Suc i) urls seen results h1 = (r, h')" by simp
    from 3(1)[OF f[symmetric] None this] h1 show ?thesis by simp
  next
    case (Some x)
    let ?q1 = "if i = 0 \<and> pr_body x \<noteq> '''' then enqueue E (loginProbeLinks E (pr_body x) base) (urls, seen) else (urls, seen)"
    obtain q1 s1 where q1: "?q1 = (q1, s1)" by fastforce
    let ?q2 = "if i < length pathCandidates then enqueue E [at_path base (pathCandidates ! i)] (q1, s1) else (q1, s1)"
    obtain q2 s2 where q2: "?q2 = (q2, s2)" by fastforce
    have "probe_loop E base n (Suc i) q2 s2 (results @ candidate_of E base u x) h1 = (r, h')"
      using 3(3) f Some q1 q2 by simp
    from 3(2)[OF f[symmetric] Some q1[symmetric] refl q2[symmetric] refl this] h1 show ?thesis by simp
  qed
qed simp_all


section \<open>The probe stays on the site\<close>

definition same_site :: "probe_env \<Rightarrow> probe_url \<Rightarrow> probe_url \<Rightarrow> bool" where
  "same_site E b u \<longleftrightarrow> EqualFold (pe_net E) (Hostname b) (Hostname u) \<and> Port u = Port b
     \<and> (pu_scheme b = ''https'' \<longrightarrow> pu_scheme u = ''https'')"

text \<open>\<open>strings.EqualFold\<close> is an equivalence; a URL whose host came from the parser keeps scheme and host when it is
  printed and parsed again; a resolved reference has the host of a parsed URL.\<close>

definition parsed_hosts :: "probe_env \<Rightarrow> string set" where
  "parsed_hosts E = {pu_host u | s u. pe_parse E s = Some u}"

definition probe_laws :: "probe_env \<Rightarrow> bool" where
  "probe_laws E \<longleftrightarrow> equivp (EqualFold (pe_net E)) \<and>
    (\<forall>u v. pu_host u \<in> parsed_hosts E \<longrightarrow> pu_scheme u \<in> {''http'', ''https''} \<longrightarrow> pe_parse E (pe_str E u) = Some v \<longrightarrow>
       pu_host v = pu_host u \<and> pu_scheme v = pu_scheme u) \<and>
    (\<forall>b s u. pu_host b \<in> parsed_hosts E \<longrightarrow> pe_ref E b s = Some u \<longrightarrow> pu_host u \<in> parsed_hosts E)"

definition sent_ok :: "(probe_url \<Rightarrow> bool) \<Rightarrow> probe_event list \<Rightarrow> bool" where
  "sent_ok P h \<longleftrightarrow> (\<forall>u. Sent u \<in> set h \<longrightarrow> P u)"

lemma sent_ok_simps [simp]: "sent_ok P []" "sent_ok P (h @ h') \<longleftrightarrow> sent_ok P h \<and> sent_ok P h'" "sent_ok P [Sent u] \<longleftrightarrow> P u"
  "sent_ok P [Dialled a p]" "sent_ok P [Looked n]"
  by (auto simp: sent_ok_def)

lemma dial_ips_sent: "sent_ok P (snd (dial_ips E port as h)) \<longleftrightarrow> sent_ok P h"
  by (induction as arbitrary: h) (simp_all add: Let_def)

lemma dial_sent:
  assumes "safeLoginProbeDialContext E address h = (ok, h')"
  shows "sent_ok P h' \<longleftrightarrow> sent_ok P h"
proof -
  have "sent_ok P (snd (safeLoginProbeDialContext E address h)) \<longleftrightarrow> sent_ok P h"
    by (simp add: safeLoginProbeDialContext_def dial_ips_sent Let_def split: sum.split prod.split option.split)
  with assms show ?thesis by simp
qed

lemma probe_lawsD:
  assumes "probe_laws E"
  shows "EqualFold (pe_net E) a a"
    and "EqualFold (pe_net E) a b \<Longrightarrow> EqualFold (pe_net E) b a"
    and "EqualFold (pe_net E) a b \<Longrightarrow> EqualFold (pe_net E) b c \<Longrightarrow> EqualFold (pe_net E) a c"
    and "pu_host u \<in> parsed_hosts E \<Longrightarrow> pu_scheme u \<in> {''http'', ''https''} \<Longrightarrow> pe_parse E (pe_str E u) = Some v \<Longrightarrow>
       pu_host v = pu_host u \<and> pu_scheme v = pu_scheme u"
    and "pu_host w \<in> parsed_hosts E \<Longrightarrow> pe_ref E w s = Some u \<Longrightarrow> pu_host u \<in> parsed_hosts E"
proof -
  from assms have e: "equivp (EqualFold (pe_net E))" by (simp add: probe_laws_def)
  show "EqualFold (pe_net E) a a" using equivp_reflp[OF e] .
  show "EqualFold (pe_net E) a b \<Longrightarrow> EqualFold (pe_net E) b a" using equivp_symp[OF e] .
  show "EqualFold (pe_net E) a b \<Longrightarrow> EqualFold (pe_net E) b c \<Longrightarrow> EqualFold (pe_net E) a c" using equivp_transp[OF e] .
next
  note laws = assms[unfolded probe_laws_def, THEN conjunct2]
  show "pu_host u \<in> parsed_hosts E \<Longrightarrow> pu_scheme u \<in> {''http'', ''https''} \<Longrightarrow> pe_parse E (pe_str E u) = Some v \<Longrightarrow>
       pu_host v = pu_host u \<and> pu_scheme v = pu_scheme u"
    using laws[THEN conjunct1] by blast
  show "pu_host w \<in> parsed_hosts E \<Longrightarrow> pe_ref E w s = Some u \<Longrightarrow> pu_host u \<in> parsed_hosts E"
    using laws[THEN conjunct2] by blast
qed

definition on_site :: "probe_env \<Rightarrow> probe_url \<Rightarrow> probe_url \<Rightarrow> bool" where
  "on_site E b u \<longleftrightarrow> pu_host u \<in> parsed_hosts E \<and> pu_scheme u \<in> {''http'', ''https''} \<and> pu_scheme u = pu_scheme b \<and>
     EqualFold (pe_net E) (Hostname b) (Hostname u) \<and> Port u = Port b"

lemma CheckRedirect_same_site:
  assumes "CheckRedirect E v (via @ [u])" and "same_site E b u" and "probe_laws E"
  shows "same_site E b v"
proof -
  have "EqualFold (pe_net E) (Hostname u) (Hostname v)" "Port u = Port v" "pu_scheme u = ''https'' \<longrightarrow> pu_scheme v = ''https''"
    using assms(1) by (simp_all add: CheckRedirect_def Let_def split: if_splits)
  with assms(2) probe_lawsD(3)[OF assms(3)] show ?thesis unfolding same_site_def by metis
qed

lemma client_do_site:
  "client_do E via u h = (res, h') \<Longrightarrow> probe_laws E \<Longrightarrow> same_site E b u \<Longrightarrow> sent_ok (same_site E b) h \<Longrightarrow> sent_ok (same_site E b) h'"
proof (induction E via u h arbitrary: res h' rule: client_do.induct)
  case (1 E via u h)
  obtain ok h1 where d: "safeLoginProbeDialContext E (pe_addr E u) h = (ok, h1)" by (cases "safeLoginProbeDialContext E (pe_addr E u) h")
  have h1: "sent_ok (same_site E b) h1" using dial_sent[OF d] 1(5) by blast
  consider (no) "\<not> ok \<or> pe_serve E h1 u = None \<or> (\<exists>s c p. pe_serve E h1 u = Some (Answer s c p))
      \<or> (\<exists>v. pe_serve E h1 u = Some (Redirect v) \<and> \<not> CheckRedirect E v (via @ [u]))"
    | (go) v where "ok" "pe_serve E h1 u = Some (Redirect v)" "CheckRedirect E v (via @ [u])"
    by (cases "pe_serve E h1 u"; cases "the (pe_serve E h1 u)") auto
  then show ?case
  proof cases
    case no
    with 1(2,4) d h1 have "h' = h1 \<or> h' = h1 @ [Sent u]" by (auto simp: client_do.simps[of E via] Let_def split: bool.splits)
    with h1 1(4) show ?thesis by auto
  next
    case go
    have c: "client_do E (via @ [u]) v (h1 @ [Sent u]) = (res, h')" using 1(2) d go by (simp add: client_do.simps[of E via] Let_def)
    have "same_site E b v" using CheckRedirect_same_site[OF go(3) 1(4,3)] .
    with 1(1)[OF d[symmetric] _ refl go(2) refl go(3) c 1(3)] go h1 1(4) show ?thesis by simp
  qed
qed

lemma fetch_site:
  assumes "fetchLoginProbe E u h = (res, h')" and "probe_laws E" and "on_site E b u" and "sent_ok (same_site E b) h"
  shows "sent_ok (same_site E b) h'"
proof (cases "pe_parse E (pe_str E u)")
  case None
  with assms show ?thesis by (simp add: fetchLoginProbe_def)
next
  case (Some v)
  obtain r h1 where c: "client_do E [] v h = (r, h1)" by (cases "client_do E [] v h")
  with assms(1) Some have "h1 = h'" by (auto simp: fetchLoginProbe_def split: option.splits if_splits prod.splits)
  moreover have "pu_host v = pu_host u \<and> pu_scheme v = pu_scheme u"
    using probe_lawsD(4)[OF assms(2) _ _ Some] assms(3) by (auto simp: on_site_def)
  then have "same_site E b v" using assms(3) by (auto simp: same_site_def on_site_def Hostname_def Port_def)
  ultimately show ?thesis using client_do_site[OF c assms(2) _ assms(4)] by simp
qed

lemma link_target_site:
  assumes "link_target E b m = Some c" and "probe_laws E" and "on_site E b b"
  shows "on_site E b c"
proof -
  from assms(1) obtain s v where v: "pe_ref E b s = Some v" "pu_scheme v = pu_scheme b" "EqualFold (pe_net E) (Hostname v) (Hostname b)"
    "Port v = Port b" "c = v\<lparr>pu_fragment := ''''\<rparr>"
    by (auto simp: link_target_def split: option.splits if_splits)
  have "pu_host v \<in> parsed_hosts E" using probe_lawsD(5)[OF assms(2) _ v(1)] assms(3) by (simp add: on_site_def)
  moreover have "EqualFold (pe_net E) (Hostname b) (Hostname v)" using probe_lawsD(2)[OF assms(2) v(3)] .
  ultimately show ?thesis using v assms(3) by (simp add: on_site_def Hostname_def Port_def)
qed

lemma link_scan_site:
  "probe_laws E \<Longrightarrow> on_site E b b \<Longrightarrow> list_all (on_site E b) links \<Longrightarrow> list_all (on_site E b) (link_scan E b ms seen links)"
  by (induction E b ms seen links rule: link_scan.induct) (auto simp: Let_def link_target_site split: option.split)

lemma enqueue_site: "list_all P us \<Longrightarrow> list_all P (fst qs) \<Longrightarrow> list_all P (fst (enqueue E us qs))"
  by (induction E us qs rule: enqueue.induct) auto

lemma at_path_site: "on_site E b b \<Longrightarrow> on_site E b (at_path b p)"
  by (simp add: on_site_def at_path_def Hostname_def Port_def)

lemma probe_loop_site:
  "probe_loop E b n i urls seen results h = (r, h') \<Longrightarrow> probe_laws E \<Longrightarrow> on_site E b b \<Longrightarrow> list_all (on_site E b) urls
    \<Longrightarrow> sent_ok (same_site E b) h \<Longrightarrow> sent_ok (same_site E b) h'"
proof (induction E b n i urls seen results h arbitrary: r h' rule: probe_loop.induct)
  case (3 E b n i u urls seen results h)
  obtain f h1 where f: "fetchLoginProbe E u h = (f, h1)" by (cases "fetchLoginProbe E u h")
  have h1: "sent_ok (same_site E b) h1" using fetch_site[OF f 3(4) _ 3(7)] 3(6) by simp
  show ?case
  proof (cases f)
    case None
    with 3(3) f have "probe_loop E b n (Suc i) urls seen results h1 = (r, h')" by simp
    from 3(1)[OF f[symmetric] None this 3(4,5) _ h1] 3(6) show ?thesis by simp
  next
    case (Some x)
    let ?q1 = "if i = 0 \<and> pr_body x \<noteq> '''' then enqueue E (loginProbeLinks E (pr_body x) b) (urls, seen) else (urls, seen)"
    obtain q1 s1 where q1: "?q1 = (q1, s1)" by fastforce
    let ?q2 = "if i < length pathCandidates then enqueue E [at_path b (pathCandidates ! i)] (q1, s1) else (q1, s1)"
    obtain q2 s2 where q2: "?q2 = (q2, s2)" by fastforce
    have "list_all (on_site E b) (fst ?q1)"
      using enqueue_site[of "on_site E b" "loginProbeLinks E (pr_body x) b" "(urls, seen)" E] link_scan_site[OF 3(4,5)] 3(6)
      by (simp add: loginProbeLinks_def)
    then have "list_all (on_site E b) q1" by (simp only: q1 fst_conv)
    then have "list_all (on_site E b) (fst ?q2)"
      using enqueue_site[of "on_site E b" "[at_path b (pathCandidates ! i)]" "(q1, s1)" E] at_path_site[OF 3(5)] by simp
    then have s2: "list_all (on_site E b) q2" by (simp only: q2 fst_conv)
    have "probe_loop E b n (Suc i) q2 s2 (results @ candidate_of E b u x) h1 = (r, h')"
      using 3(3) f Some q1 q2 by simp
    from 3(2)[OF f[symmetric] Some q1[symmetric] refl q2[symmetric] refl this 3(4,5) s2 h1] show ?thesis .
  qed
qed simp_all

lemma normalize_on_site:
  assumes "normalizeLoginProbeURL E raw = Inr b" and "probe_laws E"
  shows "on_site E b b"
proof -
  from assms(1) obtain s u where u: "pe_parse E s = Some u" "pu_scheme u = ''http'' \<or> pu_scheme u = ''https''"
    "b = u\<lparr>pu_path := (if pu_path u = '''' then ''/'' else pu_path u), pu_fragment := ''''\<rparr>"
    by (simp add: normalizeLoginProbeURL_def Let_def split: option.splits if_split_asm)
  have "pu_host u \<in> parsed_hosts E" using u(1) by (auto simp: parsed_hosts_def)
  with u show ?thesis by (auto simp: on_site_def probe_lawsD(1)[OF assms(2)])
qed


section \<open>A site\<close>

text \<open>The site \<open>a.de\<close> answers every path with a page that has a password field.\<close>

definition site_url :: "string \<Rightarrow> string \<Rightarrow> probe_url" where
  "site_url scheme p = \<lparr>pu_scheme = scheme, pu_host = ''a.de'', pu_path = p, pu_rawpath = '''', pu_query = '''',
     pu_fragment = '''', pu_user = False\<rparr>"

definition sample_probe :: probe_env where
  "sample_probe = \<lparr>pe_net = sample_net, pe_ulow = id,
     pe_parse = (\<lambda>s. if has_prefix ''https://a.de'' s then Some (site_url ''https'' (drop 12 s))
        else if has_prefix ''http://a.de'' s then Some (site_url ''http'' (drop 11 s)) else None),
     pe_str = (\<lambda>u. pu_scheme u @ ''://a.de'' @ pu_path u), pe_ref = (\<lambda>b s. None), pe_port_ok = (\<lambda>s. True),
     pe_ip = (\<lambda>s. None), pe_addr = (\<lambda>u. ''a.de:443''), pe_resolve = (\<lambda>h n. Some [IP4 0x09090909]),
     pe_connect = (\<lambda>h a p. True), pe_serve = (\<lambda>h u. Some (Answer 200 ''text/html'' ''page'')),
     pe_unescape = Some, pe_html = id, re_password = (\<lambda>s. True), re_current = (\<lambda>s. False), re_identity = (\<lambda>s. False),
     re_words = (\<lambda>s. False), re_chinese = (\<lambda>s. False), re_action = (\<lambda>s. False), re_negative = (\<lambda>s. False),
     re_chinese_negative = (\<lambda>s. False), re_new = (\<lambda>s. False), re_untag = id, re_anchors = (\<lambda>s. [])\<rparr>"

lemma sample_parsed: "pe_parse sample_probe s = Some u \<Longrightarrow> pu_host u = ''a.de''"
  by (auto simp: sample_probe_def site_url_def split: if_splits)

lemma sample_probe_laws: "probe_laws sample_probe"
proof -
  have n: "pe_net sample_probe = sample_net" by (simp add: sample_probe_def)
  have "EqualFold sample_net = (\<lambda>a b. ascii a = ascii b \<and> (if ascii a then map lower_char a = map lower_char b else a = b))"
    by (auto simp: fun_eq_iff EqualFold_def sample_net_def)
  then have "equivp (EqualFold (pe_net sample_probe))" unfolding n by (auto intro!: equivpI reflpI sympI transpI split: if_splits)
  moreover have "pu_host v = pu_host u \<and> pu_scheme v = pu_scheme u"
    if h: "pu_host u \<in> parsed_hosts sample_probe" and s: "pu_scheme u \<in> {''http'', ''https''}"
      and p: "pe_parse sample_probe (pe_str sample_probe u) = Some v" for u v
  proof -
    have "pu_host u = ''a.de''" using h sample_parsed by (auto simp: parsed_hosts_def)
    moreover have "pu_host v = ''a.de''" using sample_parsed[OF p] .
    moreover have "pu_scheme v = pu_scheme u" using s p by (auto simp: sample_probe_def site_url_def)
    ultimately show ?thesis by simp
  qed
  moreover have "pe_ref sample_probe b s = Some u \<Longrightarrow> pu_host u \<in> parsed_hosts sample_probe" for b s u
    by (simp add: sample_probe_def)
  ultimately show ?thesis unfolding probe_laws_def by blast
qed

lemma probe_samples:
  "trim_space ''a.de'' = ''a.de''" "trim_space ''text/html'' = ''text/html''" "SplitHostPort ''a.de:443'' = Inr (''a.de'', ''443'')"
  "host_port ''a.de'' = (''a.de'', '''')"
proof -
  show "trim_space ''a.de'' = ''a.de''" "trim_space ''text/html'' = ''text/html''"
    by (rule trim_space_id; simp add: ascii_def graphic_def)+
qed (simp_all add: SplitHostPort_def last_index_def split_rest_def host_port_def valid_optional_port_def)

lemma public_address: "\<not> blockedLoginProbeIP (IP4 0x09090909)"
  by (simp add: blocked_v4 internal_v4_def internal_ranges_def)

lemma host_allowed: "\<not> blockedLoginProbeHost sample_probe ''a.de''"
  by (simp add: blockedLoginProbeHost_def trim_suffix_def to_lower_def sample_probe_def has_suffix_def ascii_def lower_char_def)

lemma site_parts:
  "Hostname (site_url s p) = ''a.de''" "Port (site_url s p) = ''''" "pu_scheme (site_url s p) = s" "pu_user (site_url s p) = False"
  "pu_host (site_url s p) = ''a.de''" "pu_path (site_url s p) = p"
  "(site_url s p)\<lparr>pu_path := q, pu_fragment := ''''\<rparr> = site_url s q"
  "pe_parse sample_probe ''https://a.de'' = Some (site_url ''https'' '''')"
  by (simp_all add: Hostname_def Port_def site_url_def probe_samples sample_probe_def)

lemma sample_normalize: "normalizeLoginProbeURL sample_probe ''a.de'' = Inr (site_url ''https'' ''/'')"
  using host_allowed
  by (simp add: normalizeLoginProbeURL_def loginProbeMaxURLBytes_def probe_samples loginProbeSchemeRE_def scheme_char_def is_digit_def
      probe_text_def Let_def site_parts)

definition site_visit :: "string \<Rightarrow> probe_event list" where
  "site_visit p = [Looked ''a.de'', Dialled (IP4 0x09090909) ''443'', Sent (site_url ''https'' p)]"

definition site_page :: probe_result where
  "site_page = \<lparr>pr_analysis = \<lparr>pa_score = 5, pa_password = True, pa_login = False, pa_reasons = [PasswordInput]\<rparr>,
     pr_status = 200, pr_body = ''page''\<rparr>"

lemma sample_fetch: "fetchLoginProbe sample_probe (site_url ''https'' p) h = (Some site_page, h @ site_visit p)"
proof -
  have d: "safeLoginProbeDialContext sample_probe ''a.de:443'' h = (True, h @ [Looked ''a.de'', Dialled (IP4 0x09090909) ''443''])"
    using host_allowed public_address by (simp add: safeLoginProbeDialContext_def probe_samples) (simp add: sample_probe_def)
  have v: "pe_parse sample_probe (pe_str sample_probe (site_url ''https'' p)) = Some (site_url ''https'' p)"
    "pe_addr sample_probe u = ''a.de:443''" "pe_serve sample_probe h' u = Some (Answer 200 ''text/html'' ''page'')" for u h'
    by (simp_all add: sample_probe_def site_url_def)
  have c: "client_do sample_probe [] (site_url ''https'' p) h = (Some (200, ''text/html'', ''page''), h @ site_visit p)"
    by (simp add: client_do.simps[of sample_probe] v d site_visit_def)
  have t: "html_type sample_probe ''text/html''"
    by (simp add: html_type_def probe_samples to_lower_def ascii_def lower_char_def)
  have a: "analyzeLoginHTML sample_probe ''page'' = pr_analysis site_page"
    by (simp add: analyzeLoginHTML_def sample_probe_def signal_def site_page_def)
  show ?thesis by (simp add: fetchLoginProbe_def v c t a loginProbeMaxBodyBytes_def) (simp add: site_page_def)
qed

definition sent_paths :: "probe_event list \<Rightarrow> string list" where
  "sent_paths h = concat (map (\<lambda>e. case e of Sent u \<Rightarrow> [pu_path u] | _ \<Rightarrow> []) h)"

lemma sent_paths_simps [simp]: "sent_paths [] = []" "sent_paths (h @ h') = sent_paths h @ sent_paths h'" "sent_paths (site_visit p) = [p]"
  by (simp_all add: sent_paths_def site_visit_def site_url_def)

lemma site_simps [simp]: "at_path (site_url s p) q = site_url s q" "pe_str sample_probe (site_url s p) = s @ ''://a.de'' @ p"
  "loginProbeLinks sample_probe page b = []"
  by (simp_all add: at_path_def site_url_def sample_probe_def loginProbeLinks_def)

text \<open>The root page is asked for twice, as \<open>/\<close> and as the empty path, and the last of the seven login paths never.\<close>

lemma last_login_path_never_tried:
  "sent_paths (snd (probeLoginPage sample_probe ''a.de'')) =
     [''/'', '''', ''/login'', ''/signin'', ''/sign-in'', ''/auth/login'', ''/account/login'', ''/user/login'']"
  by (simp add: probeLoginPage_def sample_normalize probe_start_def loginProbeMaxCandidates_def eval_nat_numeral
      sample_fetch pathCandidates_def)

text \<open>A host with a port but without a scheme is taken for an unknown scheme.\<close>

lemma host_with_port_refused: "normalizeLoginProbeURL E ''a.de:8443'' = Inl ProbeInvalid"
proof -
  have "trim_space ''a.de:8443'' = ''a.de:8443''" by (rule trim_space_id; simp add: ascii_def graphic_def)
  then show ?thesis
    by (simp add: normalizeLoginProbeURL_def loginProbeMaxURLBytes_def loginProbeSchemeRE_def scheme_char_def is_digit_def
      to_lower_def ascii_def lower_char_def Let_def)
qed


end
