(* ===== verification/AccountsApi.thy ===== *)
theory AccountsApi
  imports ItemsApi Previews
begin

text \<open>
  \<open>httpapi/setup.go\<close>, the routes of \<open>httpapi/auth.go\<close> and \<open>httpapi/users.go\<close>: setup, login, sessions, password and the
  administration of members.  The state of the process is the database with the setup token, the contexts before login, the
  two rate limiters of the setup endpoints and the work directory of the import previews.
\<close>

section \<open>State, environment and replies\<close>

record server =
  sv_db :: db
  sv_token :: "setup_token option"
  sv_csrf :: preauth
  sv_csrf_limiter :: rate_limiter
  sv_setup_limiter :: rate_limiter
  sv_work :: workdir

record account_api =
  aa_net :: net_env
  aa_proxies :: "cidr list"
  aa_auth :: auth_env
  aa_users :: user_env
  aa_setup :: setup_env
  aa_cursor :: cursor_codec
  aa_idem :: bool
  aa_fp :: "string list \<Rightarrow> string"
  aa_cleanup :: bool

text \<open>What one request draws: the clock at its two stages, salt, token and identifiers.\<close>

record chance =
  ch_now :: time
  ch_later :: time
  ch_salt :: "bytes option"
  ch_raw :: "bytes option"
  ch_pub :: string
  ch_uid :: string
  ch_rid :: string
  ch_ctx :: bytes
  ch_csrf :: bytes

datatype account_reply = ANone | ACsrf string string | AInitialized bool | ASetup string | ALogin string string principal
  | ASession principal string | ACookie string string | ACleared | ASessions "session_info list"
  | AUsers "user_view list \<times> string option" | AUser user_view

type_synonym handled = "account_reply resp \<times> server"

definition RateLimit :: "nat \<Rightarrow> nat" where "RateLimit n = (if n = 0 then 10 else n)"

definition registerSetup :: "nat \<Rightarrow> setup_state \<Rightarrow> server" where
  "registerSetup rate s = \<lparr>sv_db = st_db s, sv_token = st_token s, sv_csrf = Map.empty,
     sv_csrf_limiter = NewRateLimiter 30 minute_ns, sv_setup_limiter = NewRateLimiter (RateLimit rate) minute_ns,
     sv_work = empty_workdir\<rparr>"

section \<open>Setup\<close>

definition writeSetupError :: "setup_error \<Rightarrow> 'b resp" where
  "writeSetupError e = (case e of
      ErrAlreadyInitialized \<Rightarrow> Problem 409 ''SETUP_ALREADY_DONE''
    | ErrMasterKeyUnavailable \<Rightarrow> Problem 503 ''MAINTENANCE''
    | ErrSetupTokenInvalid \<Rightarrow> Problem 401 ''SETUP_TOKEN_INVALID''
    | ErrSetupUsernameTaken \<Rightarrow> Problem 409 ''USERNAME_TAKEN''
    | ErrSetupInvalidUsername \<Rightarrow> Problem 400 ''VALIDATION_ERROR''
    | SetupPassword ErrPasswordPolicy \<Rightarrow> Problem 400 ''VALIDATION_ERROR''
    | _ \<Rightarrow> Problem 500 ''INTERNAL'')"

definition api_csrf :: "account_api \<Rightarrow> chance \<Rightarrow> request \<Rightarrow> server \<Rightarrow> handled" where
  "api_csrf A x r s =
    (case Allow (ch_now x) (sourceKey (aa_net A) (aa_proxies A) r) (sv_csrf_limiter s) of
       (False, l) \<Rightarrow> (Problem 429 ''RATE_LIMITED'', s\<lparr>sv_csrf_limiter := l\<rparr>)
     | (True, l) \<Rightarrow> (case Issue (aa_auth A) (ch_now x) (ch_ctx x) (ch_csrf x) (sv_csrf s) of
          (token, cookie, m) \<Rightarrow> (Reply 200 (ACsrf token cookie), s\<lparr>sv_csrf_limiter := l, sv_csrf := m\<rparr>)))"

definition api_setup_status :: "server \<Rightarrow> account_reply resp" where
  "api_setup_status s = Reply 200 (AInitialized (isInitialized (sv_db s)))"

definition setupIdempotencyScope :: string where "setupIdempotencyScope = ''setup.init''"

definition renderSetupReplay :: "string \<Rightarrow> db \<Rightarrow> account_reply resp \<times> db" where
  "renderSetupReplay res d = ((case UsernameByID res d of None \<Rightarrow> Problem 409 ''CONFLICT'' | Some name \<Rightarrow> Reply 200 (ASetup name)), d)"

text \<open>The claim of the setup; \<open>Inr None\<close> when no key is presented.\<close>

definition claimSetupIdempotency ::
  "account_api \<Rightarrow> time \<Rightarrow> request \<Rightarrow> string \<times> string \<times> string \<Rightarrow> db \<Rightarrow> (account_reply resp + claim option) \<times> db" where
  "claimSetupIdempotency A now r i d =
    (if \<not> aa_idem A then (Inr None, d)
     else let (key, present, invalid) = IdempotencyKey r; (token, username, password) = i in
       if invalid then (Inl (Problem 400 ''VALIDATION_ERROR''), d)
       else if \<not> present then (Inr None, d)
       else open_claim (se_idem (aa_setup A)) now setupIdempotencyScope key
           (aa_fp A [setupIdempotencyScope, token, username, password]) renderSetupReplay d)"

text \<open>The service call of the setup, the claim in hand.\<close>

definition setup_rest ::
  "account_api \<Rightarrow> chance \<Rightarrow> request \<Rightarrow> string \<times> string \<times> string \<Rightarrow> claim option \<Rightarrow> server \<Rightarrow> handled" where
  "setup_rest A x r i c s = (case i of (token, username, password) \<Rightarrow>
     (case Initialize (aa_setup A) (ch_now x) \<lparr>in_token = token, in_username = username, in_password = password, in_claim = c\<rparr>
        (ch_salt x) (ch_uid x) (ch_rid x) \<lparr>st_db = sv_db s, st_token = sv_token s\<rparr> of
      (Inl e, t) \<Rightarrow> (writeSetupError e, s\<lparr>sv_db := release_claim c (st_db t), sv_token := st_token t\<rparr>)
    | (Inr (uid, name), t) \<Rightarrow>
        (Reply 200 (ASetup name), s\<lparr>sv_db := st_db t, sv_token := st_token t, sv_csrf := Consume r (sv_csrf s)\<rparr>)))"

definition setup_claimed ::
  "account_api \<Rightarrow> chance \<Rightarrow> request \<Rightarrow> string \<times> string \<times> string \<Rightarrow> server \<Rightarrow> handled" where
  "setup_claimed A x r i s = (case claimSetupIdempotency A (ch_now x) r i (sv_db s) of
      (Inl resp, d) \<Rightarrow> (resp, s\<lparr>sv_db := d\<rparr>) | (Inr c, d) \<Rightarrow> setup_rest A x r i c (s\<lparr>sv_db := d\<rparr>))"

definition setup_verified ::
  "account_api \<Rightarrow> chance \<Rightarrow> request \<Rightarrow> string \<times> string \<times> string \<Rightarrow> server \<Rightarrow> handled" where
  "setup_verified A x r i s =
    (let (good, m) = preauth_Verify (aa_auth A) (ch_now x) r (sv_csrf s); s1 = s\<lparr>sv_csrf := m\<rparr> in
     if \<not> good then (Problem 403 ''FORBIDDEN'', s1)
     else if \<not> originAllowed (aa_net A) r \<or> \<not> secFetchSiteAllowed r then (Problem 403 ''FORBIDDEN'', s1)
     else setup_claimed A x r i s1)"

definition api_setup_init :: "account_api \<Rightarrow> chance \<Rightarrow> request \<Rightarrow> (string \<times> string \<times> string) body \<Rightarrow> server \<Rightarrow> handled" where
  "api_setup_init A x r b s0 =
    (let (ok, l) = Allow (ch_now x) (sourceKey (aa_net A) (aa_proxies A) r) (sv_setup_limiter s0);
         s = s0\<lparr>sv_setup_limiter := l\<rparr> in
     if \<not> ok then (Problem 429 ''RATE_LIMITED'', s)
     else (case decodeJSONBody b of Inl resp \<Rightarrow> (resp, s) | Inr i \<Rightarrow> setup_verified A x r i s))"

section \<open>Login and sessions\<close>

definition login_rest :: "account_api \<Rightarrow> chance \<Rightarrow> request \<Rightarrow> string \<times> string \<Rightarrow> server \<Rightarrow> handled" where
  "login_rest A x r i s =
    (case Sessions.Login (aa_auth A) (ch_now x) (ch_later x) (fst i) (snd i) (sourceKey (aa_net A) (aa_proxies A) r)
        (ch_salt x) (ch_raw x) (ch_pub x) (sv_db s) of
      (Inl e, d) \<Rightarrow> (writeAuthError e, s\<lparr>sv_db := d\<rparr>)
    | (Inr (token, p), d) \<Rightarrow>
        (Reply 200 (ALogin token (CSRFToken (aa_auth A) token) p), s\<lparr>sv_db := d, sv_csrf := Consume r (sv_csrf s)\<rparr>))"

definition api_login :: "account_api \<Rightarrow> chance \<Rightarrow> request \<Rightarrow> (string \<times> string) body \<Rightarrow> server \<Rightarrow> handled" where
  "api_login A x r b s =
    (if \<not> originAllowed (aa_net A) r \<or> \<not> secFetchSiteAllowed r then (Problem 403 ''FORBIDDEN'', s)
     else let (good, m) = preauth_Verify (aa_auth A) (ch_now x) r (sv_csrf s); s1 = s\<lparr>sv_csrf := m\<rparr> in
       if \<not> good then (Problem 403 ''FORBIDDEN'', s1)
       else (case decodeJSONBody b of Inl resp \<Rightarrow> (resp, s1) | Inr i \<Rightarrow> login_rest A x r i s1))"

definition clean_session :: "account_api \<Rightarrow> principal \<Rightarrow> string \<Rightarrow> server \<Rightarrow> server" where
  "clean_session A p sid s = (if aa_cleanup A then s\<lparr>sv_work := InvalidateSession (p_user p) sid (sv_work s)\<rparr> else s)"

definition clean_user :: "account_api \<Rightarrow> string \<Rightarrow> server \<Rightarrow> server" where
  "clean_user A uid s = (if aa_cleanup A then s\<lparr>sv_work := InvalidateUser uid (sv_work s)\<rparr> else s)"

definition api_session :: "account_api \<Rightarrow> request \<Rightarrow> principal \<Rightarrow> account_reply resp" where
  "api_session A r p = Reply 200 (ASession p (CSRFToken (aa_auth A) (sessionToken r)))"

definition api_logout :: "account_api \<Rightarrow> chance \<Rightarrow> request \<Rightarrow> principal \<Rightarrow> server \<Rightarrow> handled" where
  "api_logout A x r p s = (case Logout (aa_auth A) (ch_now x) (sessionToken r) (sv_db s) of
      (Inl e, d) \<Rightarrow> (writeAuthError e, s\<lparr>sv_db := d\<rparr>)
    | (Inr _, d) \<Rightarrow> (Reply 204 ACleared, clean_session A p (si_id (p_session p)) (s\<lparr>sv_db := d\<rparr>)))"

definition api_password :: "account_api \<Rightarrow> chance \<Rightarrow> request \<Rightarrow> principal \<Rightarrow> (string \<times> string) body \<Rightarrow> server \<Rightarrow> handled" where
  "api_password A x r p b s = (case decodeJSONBody b of Inl resp \<Rightarrow> (resp, s)
    | Inr (current, new_password) \<Rightarrow>
       (case ChangePassword (aa_auth A) (ch_now x) (ch_later x) (sessionToken r) current new_password
           (sourceKey (aa_net A) (aa_proxies A) r) (ch_salt x) (ch_raw x) (ch_pub x) (sv_db s) of
         (Inl e, d) \<Rightarrow> (writeAuthError e, s\<lparr>sv_db := d\<rparr>)
       | (Inr (token, q), d) \<Rightarrow>
           (Reply 204 (ACookie token (CSRFToken (aa_auth A) token)), clean_user A (p_user p) (s\<lparr>sv_db := d\<rparr>))))"

definition api_sessions :: "account_api \<Rightarrow> chance \<Rightarrow> request \<Rightarrow> server \<Rightarrow> account_reply resp" where
  "api_sessions A x r s = (case ListSessions (aa_auth A) (ch_now x) (ch_later x) (sessionToken r) (sv_db s) of
      Inl e \<Rightarrow> writeAuthError e | Inr is \<Rightarrow> Reply 200 (ASessions is))"

definition api_revoke :: "account_api \<Rightarrow> chance \<Rightarrow> request \<Rightarrow> principal \<Rightarrow> string \<Rightarrow> server \<Rightarrow> handled" where
  "api_revoke A x r p sid s = (case RevokeSession (aa_auth A) (ch_now x) (sessionToken r) sid (sv_db s) of
      (Inl e, d) \<Rightarrow> (writeAuthError e, s\<lparr>sv_db := d\<rparr>)
    | (Inr _, d) \<Rightarrow> (Reply 204 (if sid = si_id (p_session p) then ACleared else ANone), clean_session A p sid (s\<lparr>sv_db := d\<rparr>)))"

definition auth_call :: "(auth_error + unit) \<times> db \<Rightarrow> server \<Rightarrow> handled" where
  "auth_call y s = (case y of (Inl e, d) \<Rightarrow> (writeAuthError e, s\<lparr>sv_db := d\<rparr>) | (Inr _, d) \<Rightarrow> (Reply 204 ANone, s\<lparr>sv_db := d\<rparr>))"

definition api_activity :: "account_api \<Rightarrow> chance \<Rightarrow> request \<Rightarrow> server \<Rightarrow> handled" where
  "api_activity A x r s = auth_call (Touch (aa_auth A) (ch_now x) (sessionToken r) (sv_db s)) s"

definition api_preferences :: "account_api \<Rightarrow> chance \<Rightarrow> request \<Rightarrow> int body \<Rightarrow> server \<Rightarrow> handled" where
  "api_preferences A x r b s = (case decodeJSONBody b of Inl resp \<Rightarrow> (resp, s)
    | Inr minutes \<Rightarrow> auth_call (SetIdleTimeout (aa_auth A) (ch_now x) (sessionToken r) minutes (sv_db s)) s)"

section \<open>Members\<close>

definition writeUsersError :: "user_error \<Rightarrow> 'b resp" where
  "writeUsersError e = (case e of
      UserAuth ErrUnauthorized \<Rightarrow> writeAuthError ErrUnauthorized
    | user_error.ErrForbidden \<Rightarrow> Problem 403 ''FORBIDDEN''
    | ErrUserNotFound \<Rightarrow> Problem 404 ''NOT_FOUND''
    | ErrUsernameTaken \<Rightarrow> Problem 409 ''USERNAME_TAKEN''
    | ErrLastAdminProtected \<Rightarrow> Problem 409 ''LAST_ADMIN_PROTECTED''
    | ErrConfirmationMismatch \<Rightarrow> Problem 409 ''CONFIRMATION_MISMATCH''
    | ErrInvalidUsername \<Rightarrow> Problem 400 ''VALIDATION_ERROR''
    | UserPassword ErrPasswordPolicy \<Rightarrow> Problem 400 ''VALIDATION_ERROR''
    | _ \<Rightarrow> Problem 500 ''INTERNAL'')"

definition usersCreateScope :: string where "usersCreateScope = ''users.create''"
definition usersListFilters :: string where "usersListFilters = ''v1:users''"

definition api_users :: "account_api \<Rightarrow> chance \<Rightarrow> principal \<Rightarrow> (string \<Rightarrow> string) \<Rightarrow> server \<Rightarrow> account_reply resp" where
  "api_users A x p query s =
    (case DecodeCursorParams (aa_cursor A) (ch_now x) (query ''limit'') (query ''cursor'') (p_user p) usersListFilters of
       Inl resp \<Rightarrow> resp
     | Inr (srt, limit) \<Rightarrow> (case ListUsers (Some p) (position (aa_cursor A) srt) (Suc limit) (sv_db s) of
           Inl e \<Rightarrow> writeUsersError e
         | Inr us \<Rightarrow> Reply 200 (AUsers (page_reply (aa_cursor A) (ch_now x) (p_user p) usersListFilters limit
               (\<lambda>u. (cu_time (aa_cursor A) (uv_created u), uv_id u)) us))))"

text \<open>A replay renders the member again, after the administrator was checked again.\<close>

definition replay_user :: "time \<Rightarrow> principal \<Rightarrow> string \<Rightarrow> db \<Rightarrow> account_reply resp \<times> db" where
  "replay_user now p res d = ((case ReplayCreated now (Some p) res d of
      Inl ErrUserNotFound \<Rightarrow> Problem 409 ''CONFLICT''
    | Inl e \<Rightarrow> writeUsersError e
    | Inr u \<Rightarrow> Reply 201 (AUser u)), d)"

definition create_user_rest :: "account_api \<Rightarrow> chance \<Rightarrow> principal \<Rightarrow> string \<times> string \<Rightarrow> claim option \<Rightarrow> db \<Rightarrow> account_reply resp \<times> db" where
  "create_user_rest A x p i c d =
    (case CreateUser (aa_users A) (ch_now x) (Some p) (fst i) (snd i) (ch_salt x) (ch_uid x) c d of
       (Inl e, d') \<Rightarrow> (writeUsersError e, release_claim c d')
     | (Inr u, d') \<Rightarrow> (Reply 201 (AUser u), d'))"

definition create_user_body :: "account_api \<Rightarrow> chance \<Rightarrow> request \<Rightarrow> principal \<Rightarrow> string \<times> string \<Rightarrow> db \<Rightarrow> account_reply resp \<times> db" where
  "create_user_body A x r p i d =
    (if \<not> aa_idem A \<and> header r ''Idempotency-Key'' \<noteq> '''' then (Problem 503 ''MAINTENANCE'', d)
     else if \<not> aa_idem A then create_user_rest A x p i None d
     else let (key, present, invalid) = IdempotencyKey r; scope = ScopeFor usersCreateScope (p_user p) in
       if invalid then (Problem 400 ''VALIDATION_ERROR'', d)
       else if \<not> present then create_user_rest A x p i None d
       else (case open_claim (us_idem (aa_users A)) (ch_now x) scope key (aa_fp A [scope, fst i, snd i]) (replay_user (ch_now x) p) d of
            (Inl resp, d1) \<Rightarrow> (resp, d1) | (Inr c, d1) \<Rightarrow> create_user_rest A x p i c d1))"

definition api_create_user :: "account_api \<Rightarrow> chance \<Rightarrow> request \<Rightarrow> principal \<Rightarrow> (string \<times> string) body \<Rightarrow> server \<Rightarrow> handled" where
  "api_create_user A x r p b s = (case decodeJSONBody b of Inl resp \<Rightarrow> (resp, s)
    | Inr i \<Rightarrow> (case create_user_body A x r p i (sv_db s) of (resp, d) \<Rightarrow> (resp, s\<lparr>sv_db := d\<rparr>)))"

definition api_disable :: "account_api \<Rightarrow> chance \<Rightarrow> principal \<Rightarrow> string \<Rightarrow> server \<Rightarrow> handled" where
  "api_disable A x p uid s = (case DisableUser (aa_users A) (ch_now x) (Some p) uid (sv_db s) of
      (Inl e, d) \<Rightarrow> (writeUsersError e, s\<lparr>sv_db := d\<rparr>)
    | (Inr u, d) \<Rightarrow> (Reply 200 (AUser u), clean_user A uid (s\<lparr>sv_db := d\<rparr>)))"

definition api_enable :: "account_api \<Rightarrow> chance \<Rightarrow> principal \<Rightarrow> string \<Rightarrow> server \<Rightarrow> handled" where
  "api_enable A x p uid s = (case EnableUser (aa_users A) (ch_now x) (Some p) uid (sv_db s) of
      (Inl e, d) \<Rightarrow> (writeUsersError e, s\<lparr>sv_db := d\<rparr>) | (Inr u, d) \<Rightarrow> (Reply 200 (AUser u), s\<lparr>sv_db := d\<rparr>))"

definition api_revoke_all :: "account_api \<Rightarrow> chance \<Rightarrow> principal \<Rightarrow> string \<Rightarrow> server \<Rightarrow> handled" where
  "api_revoke_all A x p uid s = (case RevokeUserSessions (aa_users A) (ch_now x) (Some p) uid (sv_db s) of
      (Inl e, d) \<Rightarrow> (writeUsersError e, s\<lparr>sv_db := d\<rparr>)
    | (Inr n, d) \<Rightarrow> (Reply 204 ANone, clean_user A uid (s\<lparr>sv_db := d\<rparr>)))"

definition api_delete_user :: "account_api \<Rightarrow> chance \<Rightarrow> principal \<Rightarrow> string \<Rightarrow> string body \<Rightarrow> server \<Rightarrow> handled" where
  "api_delete_user A x p uid b s = (case decodeJSONBody b of Inl resp \<Rightarrow> (resp, s)
    | Inr confirm \<Rightarrow> (case DeleteUser (aa_users A) (ch_now x) (Some p) uid confirm (sv_db s) of
        (Inl e, d) \<Rightarrow> (writeUsersError e, s\<lparr>sv_db := d\<rparr>)
      | (Inr _, d) \<Rightarrow> (Reply 204 ANone, clean_user A uid (s\<lparr>sv_db := d\<rparr>))))"

section \<open>The routes\<close>

datatype account_route = AtCsrf | AtSetupStatus | AtSetupInit "(string \<times> string \<times> string) body"
  | AtLogin "(string \<times> string) body" | AtSession | AtLogout | AtPassword "(string \<times> string) body" | AtSessions
  | AtRevoke string | AtActivity | AtPreferences "int body"
  | AtUsers "string \<Rightarrow> string" | AtCreateUser "(string \<times> string) body" | AtDisable string | AtEnable string
  | AtRevokeAll string | AtDeleteUser string "string body"

definition guarded :: "account_api \<Rightarrow> chance \<Rightarrow> bool \<Rightarrow> request \<Rightarrow> (principal \<Rightarrow> server \<Rightarrow> handled) \<Rightarrow> server \<Rightarrow> handled" where
  "guarded A x allow r handler s =
    (case RequireSession (aa_net A) (aa_auth A) (ch_now x) allow r (sv_db s) of Inl resp \<Rightarrow> (resp, s) | Inr p \<Rightarrow> handler p s)"

definition admin_only :: "account_api \<Rightarrow> chance \<Rightarrow> request \<Rightarrow> (principal \<Rightarrow> server \<Rightarrow> handled) \<Rightarrow> server \<Rightarrow> handled" where
  "admin_only A x r handler s =
    (case RequireAdmin (aa_net A) (aa_auth A) (ch_now x) False r (sv_db s) of Inl resp \<Rightarrow> (resp, s) | Inr p \<Rightarrow> handler p s)"

fun serve_account :: "account_api \<Rightarrow> chance \<Rightarrow> request \<Rightarrow> account_route \<Rightarrow> server \<Rightarrow> handled" where
  "serve_account A x r AtCsrf s = api_csrf A x r s"
| "serve_account A x r AtSetupStatus s = (api_setup_status s, s)"
| "serve_account A x r (AtSetupInit b) s = api_setup_init A x r b s"
| "serve_account A x r (AtLogin b) s = api_login A x r b s"
| "serve_account A x r AtSession s = guarded A x True r (\<lambda>p s. (api_session A r p, s)) s"
| "serve_account A x r AtLogout s = guarded A x True r (api_logout A x r) s"
| "serve_account A x r (AtPassword b) s = guarded A x True r (\<lambda>p. api_password A x r p b) s"
| "serve_account A x r AtSessions s = guarded A x False r (\<lambda>p s. (api_sessions A x r s, s)) s"
| "serve_account A x r (AtRevoke sid) s = guarded A x False r (\<lambda>p. api_revoke A x r p sid) s"
| "serve_account A x r AtActivity s = guarded A x False r (\<lambda>p. api_activity A x r) s"
| "serve_account A x r (AtPreferences b) s = guarded A x False r (\<lambda>p. api_preferences A x r b) s"
| "serve_account A x r (AtUsers q) s = admin_only A x r (\<lambda>p s. (api_users A x p q s, s)) s"
| "serve_account A x r (AtCreateUser b) s = admin_only A x r (\<lambda>p. api_create_user A x r p b) s"
| "serve_account A x r (AtDisable uid) s = admin_only A x r (\<lambda>p. api_disable A x p uid) s"
| "serve_account A x r (AtEnable uid) s = admin_only A x r (\<lambda>p. api_enable A x p uid) s"
| "serve_account A x r (AtRevokeAll uid) s = admin_only A x r (\<lambda>p. api_revoke_all A x p uid) s"
| "serve_account A x r (AtDeleteUser uid b) s = admin_only A x r (\<lambda>p. api_delete_user A x p uid b) s"

end
