(* ===== verification/AccountRequests.thy ===== *)
theory AccountRequests
  imports AccountsApi
begin

text \<open>
  What any sequence of requests to the setup, login and member endpoints can do: every request is a sequence of the
  account operations of \<open>Accounts\<close> and of changes that leave users, sessions and the system state alone.
\<close>

section \<open>Moves of a request\<close>

definition quiet :: "db \<Rightarrow> db \<Rightarrow> bool" where
  "quiet d d' \<longleftrightarrow> users d' = users d \<and> sessions d' = sessions d \<and> sysstate d' = sysstate d"

definition account_move :: "account_api \<Rightarrow> db \<Rightarrow> db \<Rightarrow> bool" where
  "account_move A d d' \<longleftrightarrow> account_step (aa_auth A) (aa_users A) (aa_setup A) UNIV d d' \<or> quiet d d'"

abbreviation moves :: "account_api \<Rightarrow> db \<Rightarrow> db \<Rightarrow> bool" where
  "moves A \<equiv> (account_move A)\<^sup>*\<^sup>*"

lemma moves_step: "account_step (aa_auth A) (aa_users A) (aa_setup A) UNIV d d' \<Longrightarrow> moves A d d'"
  by (rule r_into_rtranclp) (simp add: account_move_def)

lemma moves_quiet: "quiet d d' \<Longrightarrow> moves A d d'"
  by (rule r_into_rtranclp) (simp add: account_move_def)

lemma moves_trans: "moves A d d' \<Longrightarrow> moves A d' d'' \<Longrightarrow> moves A d d''"
  by (rule rtranclp_trans)

lemma quiet_idem [simp]: "quiet d (d\<lparr>idem := t\<rparr>)"
  by (simp add: quiet_def)

lemma quiet_refl [simp]: "quiet d d"
  by (simp add: quiet_def)

lemma quiet_release: "quiet d (release_claim c d)"
  by (simp add: release_claim_def split: option.split)

lemma moves_release: "moves A d d' \<Longrightarrow> moves A d (release_claim c d')"
  using moves_trans moves_quiet[OF quiet_release] by blast

section \<open>The services\<close>

lemma Login_moves:
  assumes "Sessions.Login (aa_auth A) t1 t2 username password source salt raw pub d = (res, d')"
  shows "moves A d d'"
proof -
  obtain x d1 where b: "login_begin (aa_auth A) t1 username password source salt d = (x, d1)"
    by (cases "login_begin (aa_auth A) t1 username password source salt d")
  have m: "moves A d d1" by (rule moves_step[OF account_step.login_begin[OF b]])
  show ?thesis
  proof (cases x)
    case (Inl e)
    with b assms m show ?thesis by (simp add: Sessions.Login_def)
  next
    case (Inr tk)
    with b assms have "login_finish (aa_auth A) t2 tk raw pub d1 = (res, d')" by (simp add: Sessions.Login_def)
    from moves_trans[OF m moves_step[OF account_step.login_finish[OF this]]] show ?thesis by simp
  qed
qed

lemma ChangePassword_moves:
  assumes "ChangePassword (aa_auth A) t1 t2 token current new_password source salt raw pub d = (res, d')"
  shows "moves A d d'"
proof -
  obtain x d1 where b: "change_begin (aa_auth A) t1 token current new_password source salt d = (x, d1)"
    by (cases "change_begin (aa_auth A) t1 token current new_password source salt d")
  have m: "moves A d d1" by (rule moves_step[OF account_step.change_begin[OF b]])
  show ?thesis
  proof (cases x)
    case (Inl e)
    with b assms m show ?thesis by (simp add: ChangePassword_def)
  next
    case (Inr tk)
    with b assms have "change_finish (aa_auth A) t2 token tk raw pub d1 = (res, d')" by (simp add: ChangePassword_def)
    from moves_trans[OF m moves_step[OF account_step.change_finish[OF this]]] show ?thesis by simp
  qed
qed

lemma audit_failure_quiet: "quiet d (audit_failure B d)"
  by (auto simp: audit_failure_def quiet_def dest: Record_frame split: sum.split)

lemma Initialize_moves:
  assumes "Initialize (aa_setup A) now i salt uid rid s = (res, s')"
  shows "moves A (st_db s) (st_db s')"
proof -
  obtain x s1 where c: "setup_check (aa_setup A) i salt s = (x, s1)" by (cases "setup_check (aa_setup A) i salt s")
  then have "quiet (st_db s) (st_db s1)"
    using audit_failure_quiet[of "st_db s" "aa_setup A"]
    by (auto simp: setup_check_def split: if_splits option.splits sum.splits)
  then have m: "moves A (st_db s) (st_db s1)" by (rule moves_quiet)
  show ?thesis
  proof (cases x)
    case (Inl e)
    with c assms m show ?thesis by (simp add: Initialize_def)
  next
    case (Inr kh)
    obtain y d where t: "in_tx (initialize_tx (aa_setup A) now (fst kh) i uid rid (snd kh)) (st_db s1) = (y, d)"
      by (cases "in_tx (initialize_tx (aa_setup A) now (fst kh) i uid rid (snd kh)) (st_db s1)")
    then have "st_db s' = d" using assms c Inr by (auto simp: Initialize_def setup_commit_def split: sum.splits)
    with moves_trans[OF m moves_step[OF account_step.initialize[OF t]]] show ?thesis by simp
  qed
qed

lemma user_service_moves:
  "CreateUser (aa_users A) now p name password salt uid c d = (r1, d') \<Longrightarrow> moves A d d'"
  "DisableUser (aa_users A) now p uid d = (r2, d') \<Longrightarrow> moves A d d'"
  "EnableUser (aa_users A) now p uid d = (r3, d') \<Longrightarrow> moves A d d'"
  "RevokeUserSessions (aa_users A) now p uid d = (r4, d') \<Longrightarrow> moves A d d'"
  "DeleteUser (aa_users A) now p uid confirm d = (r5, d') \<Longrightarrow> moves A d d'"
  by (auto simp: CreateUser_def DisableUser_def EnableUser_def RevokeUserSessions_def DeleteUser_def finish_status_def
      split: sum.splits prod.splits option.splits
      intro: moves_step account_step.create_user account_step.disable account_step.enable account_step.revoke_all account_step.delete_user)

lemma auth_service_moves:
  "Logout (aa_auth A) now token d = (r1, d') \<Longrightarrow> moves A d d'"
  "RevokeSession (aa_auth A) now token pub d = (r1, d') \<Longrightarrow> moves A d d'"
  "Touch (aa_auth A) now token d = (r1, d') \<Longrightarrow> moves A d d'"
  "SetIdleTimeout (aa_auth A) now token m d = (r1, d') \<Longrightarrow> moves A d d'"
  by (blast intro: moves_step account_step.logout account_step.revoke account_step.touch account_step.idle_timeout)+

lemma open_claim_quiet:
  assumes "open_claim q now scope key fp replay d = (res, d')" and "\<And>x e. snd (replay x e) = e"
  shows "quiet d d'"
proof -
  obtain t where "d' = d\<lparr>idem := t\<rparr>" using assms
    by (auto simp: open_claim_def Let_def split: prod.splits sum.splits outcome.splits) (metis snd_conv)+
  then show ?thesis by simp
qed

section \<open>Every request\<close>

lemma clean_db [simp]: "sv_db (clean_session A p sid s) = sv_db s" "sv_db (clean_user A uid s) = sv_db s"
  by (simp_all add: clean_session_def clean_user_def)

lemma setup_rest_moves: "moves A (sv_db s) (sv_db (snd (setup_rest A x r i c s)))"
proof -
  obtain token username password where i: "i = (token, username, password)" by (cases i)
  let ?in = "\<lparr>in_token = token, in_username = username, in_password = password, in_claim = c\<rparr>"
  let ?s = "\<lparr>st_db = sv_db s, st_token = sv_token s\<rparr>"
  obtain res t where ini: "Initialize (aa_setup A) (ch_now x) ?in (ch_salt x) (ch_uid x) (ch_rid x) ?s = (res, t)"
    by (cases "Initialize (aa_setup A) (ch_now x) ?in (ch_salt x) (ch_uid x) (ch_rid x) ?s")
  with Initialize_moves[OF ini] show ?thesis
    by (cases res) (auto simp: setup_rest_def i moves_release)
qed

lemma setup_moves: "moves A (sv_db s) (sv_db (snd (api_setup_init A x r b s)))"
proof -
  have claim: "quiet d d'" if "claimSetupIdempotency A now r i d = (res, d')" for now i d res d'
    using that open_claim_quiet[of _ _ _ _ _ renderSetupReplay d res d']
    by (auto simp: claimSetupIdempotency_def Let_def renderSetupReplay_def split: prod.splits if_splits)
  have claimed: "moves A (sv_db s) (sv_db (snd (setup_claimed A x r i s)))" for i s
  proof -
    obtain res d where c: "claimSetupIdempotency A (ch_now x) r i (sv_db s) = (res, d)"
      by (cases "claimSetupIdempotency A (ch_now x) r i (sv_db s)")
    with claim[OF c] setup_rest_moves[of A "s\<lparr>sv_db := d\<rparr>" x r i] show ?thesis
      by (cases res) (auto simp: setup_claimed_def intro: moves_quiet moves_trans)
  qed
  have verified: "moves A (sv_db s) (sv_db (snd (setup_verified A x r i s)))" for i s
    using claimed[of "s\<lparr>sv_csrf := _\<rparr>" i] by (auto simp: setup_verified_def Let_def split: prod.split)
  show ?thesis using verified[of "s\<lparr>sv_setup_limiter := _\<rparr>"]
    by (auto simp: api_setup_init_def Let_def split: prod.split sum.split)
qed

lemma login_moves: "moves A (sv_db s) (sv_db (snd (api_login A x r b s)))"
proof -
  have rest: "moves A (sv_db s) (sv_db (snd (login_rest A x r i s)))" for i s
    using Login_moves[of A] by (auto simp: login_rest_def split: prod.split sum.split)
  show ?thesis using rest[of "s\<lparr>sv_csrf := _\<rparr>"]
    by (auto simp: api_login_def Let_def split: prod.split sum.split)
qed

lemma session_moves:
  "moves A (sv_db s) (sv_db (snd (api_logout A x r p s)))"
  "moves A (sv_db s) (sv_db (snd (api_password A x r p b s)))"
  "moves A (sv_db s) (sv_db (snd (api_revoke A x r p sid s)))"
  "moves A (sv_db s) (sv_db (snd (api_activity A x r s)))"
  "moves A (sv_db s) (sv_db (snd (api_preferences A x r m s)))"
  using auth_service_moves[of A] ChangePassword_moves[of A]
  by (auto simp: api_logout_def api_password_def api_revoke_def api_activity_def api_preferences_def auth_call_def
      split: prod.split sum.split)

lemma create_user_moves: "moves A (sv_db s) (sv_db (snd (api_create_user A x r p b s)))"
proof -
  have rest: "moves A d (snd (create_user_rest A x p i c d))" for d i c
    using user_service_moves(1)[of A] by (auto simp: create_user_rest_def moves_release split: prod.split sum.split)
  have body: "moves A d (snd (create_user_body A x r p i d))" for d i
  proof -
    let ?scope = "ScopeFor usersCreateScope (p_user p)"
    let ?o = "open_claim (us_idem (aa_users A)) (ch_now x) ?scope (fst (IdempotencyKey r)) (aa_fp A [?scope, fst i, snd i]) (replay_user (ch_now x) p) d"
    obtain res d1 where o: "?o = (res, d1)" by (cases ?o)
    have "moves A d d1" by (rule moves_quiet, rule open_claim_quiet[OF o]) (simp add: replay_user_def)
    with o rest[of d1 i] have "moves A d (snd (case ?o of (Inl resp, d1) \<Rightarrow> (resp, d1) | (Inr c, d1) \<Rightarrow> create_user_rest A x p i c d1))"
      by (cases res) (auto intro: moves_trans)
    then show ?thesis using rest[of d i None]
      by (cases "IdempotencyKey r") (simp add: create_user_body_def Let_def)
  qed
  show ?thesis using body by (auto simp: api_create_user_def split: prod.split sum.split) (metis snd_conv)
qed

lemma user_moves:
  "moves A (sv_db s) (sv_db (snd (api_disable A x p uid s)))"
  "moves A (sv_db s) (sv_db (snd (api_enable A x p uid s)))"
  "moves A (sv_db s) (sv_db (snd (api_revoke_all A x p uid s)))"
  "moves A (sv_db s) (sv_db (snd (api_delete_user A x p uid b s)))"
  using user_service_moves[of A]
  by (auto simp: api_disable_def api_enable_def api_revoke_all_def api_delete_user_def split: prod.split sum.split)

lemma guarded_moves:
  assumes "\<And>p. moves A (sv_db s) (sv_db (snd (h p s)))"
  shows "moves A (sv_db s) (sv_db (snd (guarded A x allow r h s)))" "moves A (sv_db s) (sv_db (snd (admin_only A x r h s)))"
  using assms by (auto simp: guarded_def admin_only_def split: sum.split)

lemma serve_account_moves: "moves A (sv_db s) (sv_db (snd (serve_account A x r route s)))"
  by (cases route)
    (auto intro!: guarded_moves session_moves user_moves create_user_moves setup_moves login_moves
      simp: api_csrf_def Let_def split: prod.split bool.split)

section \<open>Nobody becomes an administrator\<close>

definition admin_ids :: "db \<Rightarrow> string set" where
  "admin_ids d = {u_id u | u. u \<in> set (users d) \<and> u_role u = RoleAdmin}"

lemma admin_ids_users: "users d' = users d \<Longrightarrow> admin_ids d' \<subseteq> admin_ids d"
  by (simp add: admin_ids_def)

lemma admin_ids_update:
  "users d' = sql_update p f (users d) \<Longrightarrow> (\<And>u. u_id (f u) = u_id u \<and> u_role (f u) = u_role u) \<Longrightarrow> admin_ids d' \<subseteq> admin_ids d"
  by (auto simp: admin_ids_def sql_simps split: if_splits)

lemma admin_ids_in_tx:
  "in_tx body d = (r, d') \<Longrightarrow> (\<And>x t. body d = Inr (x, t) \<Longrightarrow> admin_ids t \<subseteq> admin_ids d) \<Longrightarrow> admin_ids d' \<subseteq> admin_ids d"
  by (erule in_tx_cases) auto

lemma admin_ids_rehash:
  assumes "login_rehash now tk d = Inr d1"
  shows "admin_ids d1 \<subseteq> admin_ids d"
proof (cases "lt_session_hash tk = lt_hash tk")
  case False
  with assms have "users d1 = sql_update (may_login tk (lt_hash tk))
      (\<lambda>u. u\<lparr>u_hash := lt_session_hash tk, u_updated := now\<rparr>) (users d)"
    by (auto simp: login_rehash_def split: if_splits)
  then show ?thesis by (rule admin_ids_update) simp
qed (use assms in \<open>simp add: login_rehash_def\<close>)

lemma admin_ids_login:
  assumes "account_inv d" and "login_tx E now tk token pub d = Inr (x, d')"
  shows "admin_ids d' \<subseteq> admin_ids d"
proof -
  from assms obtain d1 u where "login_rehash now tk d = Inr d1" "user_by_id (lt_id tk) d1 = Some u"
    and d': "users d' = users d1" by (rule login_tx_shape)
  then show ?thesis using admin_ids_rehash admin_ids_users[OF d'] by blast
qed

lemma admin_ids_change:
  assumes "account_inv d" and "change_tx E now token tk new pub d = Inr (x, d')"
  shows "admin_ids d' \<subseteq> admin_ids d"
  by (rule change_tx_shape[OF assms])
    (rule admin_ids_update[where p = "may_change E now token tk d"
        and f = "\<lambda>u. u\<lparr>u_hash := ct_new tk, u_must_change := False, u_updated := now\<rparr>"], simp_all)

lemma admin_ids_idle: "set_idle_tx E now tok m d = Inr (x, d') \<Longrightarrow> admin_ids d' \<subseteq> admin_ids d"
  by (rule admin_ids_update[where p = "idle_row E now tok d" and f = "\<lambda>u. u\<lparr>u_idle := m, u_updated := now\<rparr>"])
    (auto simp: set_idle_tx_def Let_def result_Inr)

lemma admin_ids_member: "create_user_tx U now a uid name hash c d = Inr (v, d') \<Longrightarrow> admin_ids d' \<subseteq> admin_ids d"
  by (drule create_user_tx_InrD) (auto simp: admin_ids_def new_member_def)

lemma admin_ids_status:
  "disable_tx U now a uid d = Inr (v, d') \<Longrightarrow> admin_ids d' \<subseteq> admin_ids d"
  "enable_tx U now a uid d = Inr (v, d') \<Longrightarrow> admin_ids d' \<subseteq> admin_ids d"
  by (auto dest!: disable_tx_InrD enable_tx_InrD simp: set_status_def admin_ids_def sql_simps split: if_splits) blast+

lemma admin_ids_delete: "delete_user_tx U now a uid d = Inr (x, d') \<Longrightarrow> admin_ids d' \<subseteq> admin_ids d"
  by (drule delete_user_tx_InrD) (auto simp: admin_ids_def sql_simps)

lemma account_step_admin_ids:
  assumes "account_step E U B M d d'" and "account_inv d" and "isInitialized d"
  shows "admin_ids d' \<subseteq> admin_ids d"
  using assms(1)
proof cases
  case login_begin
  then show ?thesis using login_begin_frame admin_ids_users by blast
next
  case login_finish
  then show ?thesis
    using admin_ids_login[OF assms(2)] by (auto simp: login_finish_def split: option.splits elim!: in_tx_cases) blast
next
  case change_begin
  then show ?thesis using change_begin_frame admin_ids_users by blast
next
  case change_finish
  then show ?thesis
    using admin_ids_change[OF assms(2)] by (auto simp: change_finish_def split: option.splits elim!: in_tx_cases) blast
next
  case touch
  then show ?thesis by (auto simp: Touch_def Let_def admin_ids_def)
next
  case (logout now tok r)
  then have "users d' = users d"
    by (auto simp: Logout_def dest!: logout_tx_InrD split: if_splits elim!: in_tx_cases)
  then show ?thesis by (rule admin_ids_users)
next
  case (revoke now tok pub r)
  then have "users d' = users d"
    by (auto simp: RevokeSession_def dest!: revoke_tx_InrD split: if_splits elim!: in_tx_cases)
  then show ?thesis by (rule admin_ids_users)
next
  case idle_timeout
  then show ?thesis
    using admin_ids_idle by (auto simp: SetIdleTimeout_def split: if_splits elim!: in_tx_cases) blast
next
  case cleanup
  then show ?thesis by (simp add: CleanupExpiredSessions_def admin_ids_def)
next
  case sweep
  then show ?thesis by (simp add: CleanupLoginAttempts_def admin_ids_def)
next
  case create_user
  from admin_ids_in_tx[OF this(1)] show ?thesis using admin_ids_member by blast
next
  case disable
  from admin_ids_in_tx[OF this(1)] show ?thesis using admin_ids_status by blast
next
  case enable
  from admin_ids_in_tx[OF this(1)] show ?thesis using admin_ids_status by blast
next
  case revoke_all
  from admin_ids_in_tx[OF this(1)] show ?thesis
    using admin_ids_users by (blast dest: revoke_sessions_tx_InrD)
next
  case delete_user
  from admin_ids_in_tx[OF this(1)] show ?thesis using admin_ids_delete by blast
next
  case initialize
  show ?thesis by (rule admin_ids_in_tx[OF initialize]) (use assms(3) in \<open>auto simp: isInitialized_def dest!: initialize_tx_InrD\<close>)
qed

definition roles_inv :: "string set \<Rightarrow> db \<Rightarrow> bool" where
  "roles_inv S d \<longleftrightarrow> admin_inv d \<and> isInitialized d \<and> admin_ids d \<subseteq> S"

lemma admin_inv_quiet: "quiet d d' \<Longrightarrow> admin_inv d \<Longrightarrow> admin_inv d'"
  by (auto simp: quiet_def admin_inv_def account_inv_def has_admin_def session_ok_def user_ids_def)

interpretation request_system: invariant_system "account_move A" "roles_inv S" for A S
proof
  fix d d'
  assume m: "account_move A d d'" and i: "roles_inv S d"
  have d: "admin_inv d" "isInitialized d" "admin_ids d \<subseteq> S" "account_inv d"
    using i by (simp_all add: roles_inv_def admin_inv_def)
  show "roles_inv S d'"
  proof (cases "quiet d d'")
    case True
    then show ?thesis
      using d admin_inv_quiet[OF True] by (auto simp: roles_inv_def quiet_def isInitialized_def admin_ids_def)
  next
    case False
    with m have st: "account_step (aa_auth A) (aa_users A) (aa_setup A) UNIV d d'" by (simp add: account_move_def)
    with admin_system.step_keeps[OF st d(1)] account_step_initialized[OF st d(2)] account_step_admin_ids[OF st d(4,2)] d(3)
    show ?thesis by (simp add: roles_inv_def)
  qed
qed

fun serve_requests :: "account_api \<Rightarrow> (chance \<times> request \<times> account_route) list \<Rightarrow> server \<Rightarrow> server" where
  "serve_requests A [] s = s"
| "serve_requests A ((x, r, route) # qs) s = serve_requests A qs (snd (serve_account A x r route s))"

lemma serve_requests_moves: "moves A (sv_db s) (sv_db (serve_requests A qs s))"
proof (induction A qs s rule: serve_requests.induct)
  case (2 A x r route qs s)
  from moves_trans[OF serve_account_moves 2] show ?case by simp
qed simp

text \<open>C15: No escalation over HTTP.  Whatever requests arrive at an initialized instance, with whatever cookies, bodies and
  random draws, and whatever they are answered: the account tables stay well formed, the instance stays initialized, an
  active administrator remains, and every administrator was one before.\<close>

theorem requests_keep_roles:
  assumes "account_inv (sv_db s)" and "has_admin (sv_db s)" and "isInitialized (sv_db s)"
  shows "let d = sv_db (serve_requests A qs s) in account_inv d \<and> isInitialized d \<and>
     (\<exists>u \<in> set (users d). u_role u = RoleAdmin \<and> u_status u = ''active'') \<and> admin_ids d \<subseteq> admin_ids (sv_db s)"
proof -
  have "roles_inv (admin_ids (sv_db s)) (sv_db s)" using assms by (simp add: roles_inv_def admin_inv_def)
  from request_system.reachable_inv[OF serve_requests_moves this]
  show ?thesis by (auto simp: roles_inv_def admin_inv_def has_admin_def admin_row_def Let_def)
qed

section \<open>A login opens a session\<close>

lemma login_finish_authenticates:
  assumes inv: "account_inv d" and f: "login_finish E now tk (Some raw) pub d = (Inr (token, p), d')" and raw: "length raw = 32"
    and t: "now \<le> t" "t < now + 5 * minute_ns"
  shows "Authenticate E t token d' = Inr p"
proof -
  have tx: "login_tx E now tk (session_token raw) pub d = Inr ((token, p), d')"
    using f by (auto simp: login_finish_def dest: in_tx_InrD)
  from inv tx obtain d1 u where rh: "login_rehash now tk d = Inr d1" and u: "user_by_id (lt_id tk) d1 = Some u"
    and m: "may_login tk (lt_session_hash tk) u"
    and d': "users d' = users d1" "sessions d' = sessions d @ [new_session_row E (session_token raw) pub (u_id u) now (u_idle u)]"
    and x: "(token, p) = (session_token raw, principal_of u (new_session_row E (session_token raw) pub (u_id u) now (u_idle u)))"
    by (rule login_tx_shape)
  have inv1: "account_inv d1" using edit_inv[of "{}" d d1] login_rehash_InrD[OF rh] inv by blast
  from account_inv_user[OF inv1 u] have row: "u \<in> set (users d1)" "user_check u" by simp_all
  have inv': "account_inv d'" using edits_inv[OF login_tx_edits[OF inv tx UNIV_I] inv] .
  let ?s = "new_session_row E (session_token raw) pub (u_id u) now (u_idle u)"
  have five: "5 * minute_ns \<le> u_idle u * minute_ns" "u_idle u * minute_ns \<le> AbsoluteLifetime"
    using row(2) idle_in_lifetime[OF row(2)] by (simp_all add: user_check_def duration_defs)
  have "t < now + u_idle u * minute_ns" "t < now + AbsoluteLifetime" using t five by linarith+
  then have "live_at t ?s" by (simp add: live_at_def new_session_row_def)
  moreover have "s_id ?s = digest E (session_token raw)" "u_id u = s_user ?s" by (simp_all add: new_session_row_def)
  moreover have "u_status u = ''active''" using m by (simp add: may_login_def)
  ultimately have "Authenticate E t (session_token raw) d' = Inr (principal_of u ?s)"
    using Authenticate_intro[OF inv' session_token_shape[OF raw], where s = ?s and now = t and u = u and E = E] d' row(1) by simp
  with x show ?thesis by simp
qed

text \<open>C16: After a login the returned cookie and token work: a request that carries both passes the session guard for at least
  five minutes (also a write, from the own origin), as the member that logged in, unless the initial password still has to be
  changed and the route does not allow that; the token of the login page cannot be used a second time.\<close>

theorem login_then_accepted:
  assumes "account_inv (sv_db s)" and "api_login A x r b s = (Reply 200 (ALogin token csrf p), s')"
    and "ch_raw x = Some raw" and "length raw = 32" and "ch_later x \<le> t" and "t < ch_later x + 5 * minute_ns"
    and "rq_cookies q sessionCookieName = Some token" and "header q ''X-CSRF-Token'' = csrf"
    and "originAllowed (aa_net A) q" and "secFetchSiteAllowed q"
  shows "RequireSession (aa_net A) (aa_auth A) t allow q (sv_db s') =
      (if p_must_change p \<and> \<not> allow then Inl (Problem 403 ''PASSWORD_CHANGE_REQUIRED'') else Inr p)
    \<and> \<not> fst (preauth_Verify (aa_auth A) t r (sv_csrf s'))"
proof -
  let ?E = "aa_auth A"
  from assms(2) obtain good m i where v: "preauth_Verify ?E (ch_now x) r (sv_csrf s) = (good, m)" "good"
    and l: "login_rest A x r i (s\<lparr>sv_csrf := m\<rparr>) = (Reply 200 (ALogin token csrf p), s')"
    by (auto simp: api_login_def Let_def decodeJSONBody_def split: if_splits prod.splits body.splits)
  from l obtain d where lg: "Sessions.Login ?E (ch_now x) (ch_later x) (fst i) (snd i) (sourceKey (aa_net A) (aa_proxies A) r)
        (ch_salt x) (ch_raw x) (ch_pub x) (sv_db s) = (Inr (token, p), d)"
    and s': "s' = s\<lparr>sv_db := d, sv_csrf := Consume r m\<rparr>" and csrf: "csrf = CSRFToken ?E token"
    by (auto simp: login_rest_def writeAuthError_def split: prod.splits sum.splits auth_error.splits password_error.splits)
  from lg obtain tk d1 where b: "login_begin ?E (ch_now x) (fst i) (snd i) (sourceKey (aa_net A) (aa_proxies A) r) (ch_salt x) (sv_db s) = (Inr tk, d1)"
    and f: "login_finish ?E (ch_later x) tk (Some raw) (ch_pub x) d1 = (Inr (token, p), d)"
    using assms(3) by (auto simp: Sessions.Login_def split: prod.splits sum.splits)
  have inv1: "account_inv d1" using assms(1) login_begin_frame[OF b] by (meson edit.other edit_inv)
  have a: "Authenticate ?E t token d = Inr p" by (rule login_finish_authenticates[OF inv1 f assms(4-6)])
  have "token \<noteq> ''''"
  proof
    assume "token = ''''"
    then have "validTokenShape ''''" using a by (auto simp: Authenticate_def split: if_splits)
    moreover have "base64_decode url_alphabet '''' = Some []"
      using base64_roundtrip[OF url_alphabet_ok, of "[]"] by (simp add: base64_encode_def)
    ultimately show False by (simp add: validTokenShape_def)
  qed
  then have "RequireSession (aa_net A) ?E t allow q (sv_db s') =
      (if p_must_change p \<and> \<not> allow then Inl (Problem 403 ''PASSWORD_CHANGE_REQUIRED'') else Inr p)"
    using a assms(7-10) by (simp add: RequireSession_def sessionToken_def s' VerifyCSRF_def csrf writeAuthError_def)
  moreover have "\<not> fst (preauth_Verify ?E t r (Consume r m))"
    by (auto simp: preauth_Verify_def Consume_def Let_def split: option.splits)
  ultimately show ?thesis by (simp add: s')
qed

section \<open>Samples\<close>

definition sample_accounts :: account_api where
  "sample_accounts = \<lparr>aa_net = sample_net, aa_proxies = [], aa_auth = sample_auth, aa_users = sample_users,
     aa_setup = sample_setup, aa_cursor = sample_cursor, aa_idem = False, aa_fp = concat, aa_cleanup = True\<rparr>"

definition sample_chance :: chance where
  "sample_chance = \<lparr>ch_now = 0, ch_later = 1, ch_salt = None, ch_raw = Some (replicate 32 2), ch_pub = ''s9'',
     ch_uid = ''m9'', ch_rid = ''e9'', ch_ctx = [], ch_csrf = []\<rparr>"

definition sample_server :: "db \<Rightarrow> server" where
  "sample_server d = (registerSetup 0 \<lparr>st_db = d, st_token = None\<rparr>)
     \<lparr>sv_csrf := [[7, 8, 9] \<mapsto> \<lparr>pe_sha = ae_sha256 sample_auth (bytes_of (base64_encode url_alphabet [1, 2, 3])), pe_expires = 10\<rparr>]\<rparr>"

text \<open>The only administrator tries to disable itself.\<close>

theorem requests_keep_roles_witness:
  "\<exists>u \<in> set (users (sv_db (serve_requests sample_accounts [(sample_chance, root_request, AtDisable ''a1'')]
      (sample_server ((accounts [root_row])\<lparr>sysstate := [(''initialized'', ''1'')]\<rparr>))))). u_role u = RoleAdmin \<and> u_status u = ''active''"
proof -
  let ?d = "(accounts [root_row])\<lparr>sysstate := [(''initialized'', ''1'')]\<rparr>"
  have "account_inv (accounts [root_row])"
    unfolding account_inv_def root_row_def using sample_session_ok[of "''a1''"]
    by (simp add: accounts_def) (simp add: root_def bob_def user_check_def sample_session_def)
  then have "account_inv ?d" using edit_inv[OF edit.other[of ?d "accounts [root_row]"]] by simp
  moreover have "has_admin ?d" by (simp add: has_admin_def accounts_def admin_row_def root_def)
  moreover have "isInitialized ?d" by (simp add: isInitialized_def kv_get_def)
  moreover have "sv_db (sample_server ?d) = ?d" by (simp add: sample_server_def registerSetup_def)
  ultimately show ?thesis
    using requests_keep_roles[of "sample_server ?d" sample_accounts "[(sample_chance, root_request, AtDisable ''a1'')]"]
    by (simp add: Let_def)
qed

definition bob_login :: request where
  "bob_login = preauth_request\<lparr>rq_remote := ''ip''\<rparr>"

definition bob_request :: "string \<Rightarrow> string \<Rightarrow> request" where
  "bob_request token csrf = \<lparr>rq_method = ''POST'', rq_remote = ''ip'', rq_tls = True, rq_host = ''h'',
     rq_headers = (\<lambda>h. if h = ''X-CSRF-Token'' then [csrf] else []),
     rq_cookies = (\<lambda>c. if c = sessionCookieName then Some token else None)\<rparr>"

lemma bob_logs_in:
  "\<exists>token csrf p s'. api_login sample_accounts sample_chance bob_login (Body (''bob'', ''correct horse'')) (sample_server (accounts []))
     = (Reply 200 (ALogin token csrf p), s')"
proof -
  obtain token p d3 where f: "login_finish sample_auth 1 bob_ticket (Some (replicate 32 2)) ''s9'' after_reserve = (Inr (token, p), d3)"
    using bob_finishes by blast
  have n: "base64_encode url_alphabet [1, 2, 3] \<noteq> ''''" "base64_encode url_alphabet [7, 8, 9] \<noteq> ''''"
    by (simp_all add: base64_encode_def to_sextets.simps)
  have ctx: "preauth_ctx bob_login = Some [7, 8, 9]"
    using n by (simp add: preauth_ctx_def preauth_request_def bob_login_def base64_roundtrip[OF url_alphabet_ok])
  have h: "header bob_login ''X-CSRF-Token'' = base64_encode url_alphabet [1, 2, 3]"
    by (simp add: bob_login_def preauth_request_def header_def)
  have v: "preauth_Verify sample_auth 0 bob_login (sv_csrf (sample_server (accounts []))) = (True, sv_csrf (sample_server (accounts [])))"
    using n(1) by (simp add: preauth_Verify_def ctx h sample_server_def list_all_iff)
  have src: "sourceKey sample_net [] bob_login = ''ip''"
    by (simp add: sourceKey_def Resolve_def trusted_def peer_host_def bob_login_def SplitHostPort_def last_index_def Let_def split: option.split)
  have o: "originAllowed sample_net bob_login" "secFetchSiteAllowed bob_login"
    by (simp_all add: originAllowed_def secFetchSiteAllowed_def header_def bob_login_def preauth_request_def)
  have l: "Sessions.Login sample_auth 0 1 ''bob'' ''correct horse'' ''ip'' None (Some (replicate 32 2)) ''s9'' (accounts []) = (Inr (token, p), d3)"
    by (simp add: Sessions.Login_def bob_begins f)
  have "sv_db (sample_server (accounts [])) = accounts []" by (simp add: sample_server_def registerSetup_def)
  then show ?thesis using v o l src
    by (simp add: api_login_def login_rest_def decodeJSONBody_def sample_accounts_def sample_chance_def)
qed

theorem login_then_accepted_witness:
  "\<exists>token csrf p s'. api_login sample_accounts sample_chance bob_login (Body (''bob'', ''correct horse'')) (sample_server (accounts []))
       = (Reply 200 (ALogin token csrf p), s') \<and>
     RequireSession sample_net sample_auth 2 True (bob_request token csrf) (sv_db s') = (Inr p :: account_reply resp + principal)"
proof -
  obtain token csrf p s' where l: "api_login sample_accounts sample_chance bob_login (Body (''bob'', ''correct horse'')) (sample_server (accounts []))
     = (Reply 200 (ALogin token csrf p), s')" using bob_logs_in by blast
  have q: "rq_cookies (bob_request token csrf) sessionCookieName = Some token" "header (bob_request token csrf) ''X-CSRF-Token'' = csrf"
    "originAllowed (aa_net sample_accounts) (bob_request token csrf)" "secFetchSiteAllowed (bob_request token csrf)"
    by (simp_all add: bob_request_def originAllowed_def secFetchSiteAllowed_def header_def)
  have inv: "account_inv (sv_db (sample_server (accounts [])))" using accounts_inv(1) by (simp add: sample_server_def registerSetup_def)
  have "ch_raw sample_chance = Some (replicate 32 2)" "length (replicate 32 (2 :: 8 word)) = 32" "ch_later sample_chance \<le> 2"
    "2 < ch_later sample_chance + 5 * minute_ns" by (simp_all add: sample_chance_def duration_defs)
  from login_then_accepted[OF inv l this q, of True] l show ?thesis by (auto simp: sample_accounts_def)
qed

end
