(* ===== verification/ObjectStore.thy ===== *)
theory ObjectStore
  imports BackupRun GoPath
begin

text \<open>
  \<open>platform/objectstore/r2.go\<close>: the client of the object store.  Requests are built, signed (AWS signature version 4) and
  sent with bounded retries.  The service is a parameter: what it answers to the n-th request of a call, and the objects it
  holds afterwards; so are \<open>url.Parse\<close>, HMAC, SHA-256, the XML decoder, the clock, the random part of a pause and the
  cancellation of the context.  Path and query escaping are modelled.
\<close>

section \<open>Escaping\<close>

definition hex_upper :: "nat \<Rightarrow> char" where
  "hex_upper n = ''0123456789ABCDEF'' ! n"

definition percent :: "char \<Rightarrow> string" where
  "percent c = [CHR ''%'', hex_upper (of_char c div 16), hex_upper (of_char c mod 16)]"

definition unreserved :: "char \<Rightarrow> bool" where
  "unreserved c \<longleftrightarrow> is_alnum c \<or> c \<in> set ''-_.~''"

definition path_char :: "char \<Rightarrow> string" where
  "path_char c = (if unreserved c \<or> c \<in> set ''$&+=:@'' then [c] else percent c)"

definition PathEscape :: "string \<Rightarrow> string" where
  "PathEscape s = concat (map path_char s)"

definition query_char :: "char \<Rightarrow> string" where
  "query_char c = (if unreserved c then [c] else if c = CHR '' '' then ''+'' else percent c)"

definition QueryEscape :: "string \<Rightarrow> string" where
  "QueryEscape s = concat (map query_char s)"

text \<open>\<open>url.Values.Encode\<close>: the parameters in the order of their names.\<close>

definition query_encode :: "(string \<times> string) list \<Rightarrow> string" where
  "query_encode q = join_with ''&'' (map (\<lambda>(k, v). QueryEscape k @ ''='' @ QueryEscape v) (sort_key fst q))"

definition escapeKey :: "string \<Rightarrow> string" where
  "escapeKey key = join_with ''/'' (map PathEscape (split_on (CHR ''/'') key))"

section \<open>Client, requests and the network\<close>

record s3_config =
  so_endpoint :: string
  so_region :: string
  so_bucket :: string
  so_access :: string
  so_secret :: string
  so_timeout :: time

record s3_client =
  cl_cfg :: s3_config
  cl_timeout :: time
  cl_attempts :: nat

definition NewClient :: "s3_config \<Rightarrow> s3_client option" where
  "NewClient cfg =
    (if so_endpoint cfg = '''' \<or> so_bucket cfg = '''' \<or> so_access cfg = '''' \<or> so_secret cfg = '''' then None
     else Some \<lparr>cl_cfg = (if so_region cfg = '''' then cfg\<lparr>so_region := ''auto''\<rparr> else cfg),
       cl_timeout = (if so_timeout cfg \<le> 0 then 60 * second_ns else so_timeout cfg), cl_attempts = 4\<rparr>)"

text \<open>\<open>EndpointPanic\<close> is the panic on an endpoint that does not parse.\<close>

datatype store_error = ObjNotFound | ObjPermanent | ObjUnavailable | ObjCanceled | ObjUnexpected | ObjRequest | EndpointPanic

record s3_request =
  sq_method :: string
  sq_host :: string
  sq_path :: string
  sq_query :: string
  sq_headers :: "(string \<times> string) list"
  sq_auth :: string
  sq_body :: "bytes option"
  sq_length :: int

record http_reply =
  hr_status :: nat
  hr_length :: int
  hr_header :: "string \<Rightarrow> string"
  hr_body :: bytes
  hr_complete :: bool

datatype http_outcome = NetFailed | NetCanceled | HttpReply http_reply

text \<open>One page of a listing: keys with their size and time, the truncation mark and the next token.\<close>

record list_page =
  lp_contents :: "(string \<times> int \<times> time) list"
  lp_truncated :: bool
  lp_next :: string

text \<open>What is used of a parsed URL: host, escaped path and raw query.\<close>

type_synonym s3_url = "string \<times> string \<times> string"

record os_env =
  oe_url :: "string \<Rightarrow> s3_url option"
  oe_request :: "string \<Rightarrow> string \<Rightarrow> string \<Rightarrow> bool"
  oe_sha :: "bytes \<Rightarrow> bytes"
  oe_hmac :: "bytes \<Rightarrow> bytes \<Rightarrow> bytes"
  oe_stamp :: "nat \<Rightarrow> string"
  oe_rand :: "nat \<Rightarrow> int \<Rightarrow> int"
  oe_awake :: "nat \<Rightarrow> bool"
  oe_http :: "nat \<Rightarrow> s3_request \<Rightarrow> r2_store \<Rightarrow> http_outcome \<times> r2_store"
  oe_time :: "string \<Rightarrow> time option"
  oe_copy_error :: "bytes \<Rightarrow> string option"
  oe_listing :: "bytes \<Rightarrow> list_page option"

text \<open>The objects of the service, the requests sent and the pauses made during one call.\<close>

record net_world =
  nw_store :: r2_store
  nw_sent :: "s3_request list"
  nw_slept :: "time list"

definition sha256_hex :: "os_env \<Rightarrow> bytes \<Rightarrow> string" where
  "sha256_hex E b = hex_encode (oe_sha E b)"

definition emptySHA256 :: "os_env \<Rightarrow> string" where
  "emptySHA256 E = sha256_hex E []"

definition endpointURL :: "os_env \<Rightarrow> s3_client \<Rightarrow> string \<Rightarrow> (string \<times> string) list option \<Rightarrow> store_error + s3_url" where
  "endpointURL E C path query =
    (case oe_url E (trim_suffix ''/'' (so_endpoint (cl_cfg C)) @ path) of None \<Rightarrow> Inl EndpointPanic
     | Some (host, escaped, raw) \<Rightarrow>
         Inr (host, escaped, case query of None \<Rightarrow> raw | Some q \<Rightarrow> query_encode q))"

section \<open>Signing\<close>

text \<open>Headers by their lower-case names: the date, the digest of the body, the extra ones and the host.\<close>

definition canonical_headers :: "(string \<times> string) list \<Rightarrow> string" where
  "canonical_headers hs = concat (map (\<lambda>(k, v). k @ '':'' @ trim_space v @ [CHR 0x0A]) hs)"

definition signing_key :: "os_env \<Rightarrow> s3_config \<Rightarrow> string \<Rightarrow> bytes" where
  "signing_key E cfg day =
    oe_hmac E (oe_hmac E (oe_hmac E (oe_hmac E (bytes_of (''AWS4'' @ so_secret cfg)) (bytes_of day))
      (bytes_of (so_region cfg))) (bytes_of ''s3'')) (bytes_of ''aws4_request'')"

definition signedRequest ::
  "os_env \<Rightarrow> s3_client \<Rightarrow> nat \<Rightarrow> string \<Rightarrow> s3_url \<Rightarrow> (bytes \<times> int) option \<Rightarrow> string \<Rightarrow>
   (string \<times> string) list \<Rightarrow> store_error + s3_request" where
  "signedRequest E C n method u b payloadHash extra =
    (let cfg = cl_cfg C; (host, path, query) = u; amzDate = oe_stamp E n; day = take 8 amzDate; nl = [CHR 0x0A];
         hs = sort_key fst ([(''x-amz-date'', amzDate), (''x-amz-content-sha256'', payloadHash)] @ extra @ [(''host'', host)]);
         signedHeaders = join_with '';'' (map fst hs);
         canonicalURI = (if path = '''' then ''/'' else path);
         canonicalRequest = join_with nl [method, canonicalURI, query, canonical_headers hs, signedHeaders, payloadHash];
         scope = day @ ''/'' @ so_region cfg @ ''/s3/aws4_request'';
         stringToSign = join_with nl [''AWS4-HMAC-SHA256'', amzDate, scope, sha256_hex E (bytes_of canonicalRequest)];
         signature = hex_encode (oe_hmac E (signing_key E cfg day) (bytes_of stringToSign))
     in if \<not> oe_request E host path query then Inl ObjRequest
        else Inr \<lparr>sq_method = method, sq_host = host, sq_path = path, sq_query = query, sq_headers = hs,
          sq_auth = ''AWS4-HMAC-SHA256 Credential='' @ so_access cfg @ ''/'' @ scope @ '', SignedHeaders='' @ signedHeaders @
            '', Signature='' @ signature,
          sq_body = map_option fst b, sq_length = (case b of None \<Rightarrow> 0 | Some (x, l) \<Rightarrow> l)\<rparr>)"

section \<open>Sending with retries\<close>

definition retryableStatus :: "nat \<Rightarrow> bool" where
  "retryableStatus code \<longleftrightarrow> code = 429 \<or> code = 500 \<or> code = 502 \<or> code = 503 \<or> code = 504"

text \<open>The body of an attempt: none, or a reader that is opened again each time, with its declared size.\<close>

type_synonym body_provider = "(nat \<Rightarrow> (bytes \<times> int) option) option"

record s3_call =
  sc_method :: string
  sc_url :: s3_url
  sc_hash :: string
  sc_extra :: "(string \<times> string) list"
  sc_body :: body_provider

definition open_body :: "s3_call \<Rightarrow> nat \<Rightarrow> store_error + (bytes \<times> int) option" where
  "open_body q n = (case sc_body q of None \<Rightarrow> Inr None
    | Some f \<Rightarrow> (case f n of None \<Rightarrow> Inl ObjUnexpected | Some b \<Rightarrow> Inr (Some b)))"

definition send :: "os_env \<Rightarrow> s3_request \<Rightarrow> net_world \<Rightarrow> http_outcome \<times> net_world" where
  "send E q w = (case oe_http E (length (nw_sent w)) q (nw_store w) of
     (out, s) \<Rightarrow> (out, w\<lparr>nw_store := s, nw_sent := nw_sent w @ [q]\<rparr>))"

text \<open>The pause after an attempt, in nanoseconds.\<close>

definition backoff :: "os_env \<Rightarrow> nat \<Rightarrow> time" where
  "backoff E attempt = (let b = 250 * 2 ^ (attempt - 1) * 1000000 in b + oe_rand E attempt (b div 4))"

text \<open>What ends the loop: a canceled context or an answer that is not worth a retry.\<close>

fun settled :: "http_outcome \<Rightarrow> (store_error + http_reply) option" where
  "settled NetFailed = None"
| "settled NetCanceled = Some (Inl ObjCanceled)"
| "settled (HttpReply r) = (if retryableStatus (hr_status r) then None else Some (Inr r))"

definition attempt_request :: "os_env \<Rightarrow> s3_client \<Rightarrow> s3_call \<Rightarrow> nat \<Rightarrow> store_error + s3_request" where
  "attempt_request E C q n = andthen (open_body q n) (\<lambda>b.
     signedRequest E C n (sc_method q) (sc_url q) b (sc_hash q) (sc_extra q))"

fun send_attempts :: "os_env \<Rightarrow> s3_client \<Rightarrow> s3_call \<Rightarrow> nat \<Rightarrow> nat \<Rightarrow> net_world \<Rightarrow> (store_error + http_reply) \<times> net_world" where
  "send_attempts E C q 0 attempt w = (Inl ObjUnavailable, w)"
| "send_attempts E C q (Suc left) attempt w =
    (case attempt_request E C q (length (nw_sent w)) of Inl e \<Rightarrow> (Inl e, w)
     | Inr rq \<Rightarrow> (case send E rq w of (out, w1) \<Rightarrow>
         (case settled out of Some res \<Rightarrow> (res, w1)
          | None \<Rightarrow>
              if left = 0 then (Inl ObjUnavailable, w1)
              else (let w2 = w1\<lparr>nw_slept := nw_slept w1 @ [backoff E attempt]\<rparr> in
                    if oe_awake E attempt then send_attempts E C q left (Suc attempt) w2 else (Inl ObjCanceled, w2)))))"

definition do_call :: "os_env \<Rightarrow> s3_client \<Rightarrow> s3_call \<Rightarrow> net_world \<Rightarrow> (store_error + http_reply) \<times> net_world" where
  "do_call E C q w = send_attempts E C q (if cl_attempts C = 0 then 4 else cl_attempts C) 1 w"

definition statusError :: "http_reply \<Rightarrow> store_error" where
  "statusError r =
    (if hr_status r = 404 then ObjNotFound
     else if hr_status r = 401 \<or> hr_status r = 403 then ObjPermanent
     else if 400 \<le> hr_status r \<and> hr_status r < 500 then ObjPermanent
     else ObjUnexpected)"

section \<open>Operations\<close>

definition object_path :: "s3_client \<Rightarrow> string \<Rightarrow> string" where
  "object_path C key = ''/'' @ so_bucket (cl_cfg C) @ ''/'' @ escapeKey key"

text \<open>A call with its URL, or the panic.\<close>

definition call_object ::
  "os_env \<Rightarrow> s3_client \<Rightarrow> string \<Rightarrow> string \<Rightarrow> string \<Rightarrow> (string \<times> string) list \<Rightarrow> body_provider \<Rightarrow> net_world \<Rightarrow>
   (store_error + http_reply) \<times> net_world" where
  "call_object E C method key hash extra b w =
    (case endpointURL E C (object_path C key) None of Inl e \<Rightarrow> (Inl e, w)
     | Inr u \<Rightarrow> do_call E C \<lparr>sc_method = method, sc_url = u, sc_hash = hash, sc_extra = extra, sc_body = b\<rparr> w)"

definition PutObject ::
  "os_env \<Rightarrow> s3_client \<Rightarrow> string \<Rightarrow> (nat \<Rightarrow> bytes option) \<Rightarrow> int \<Rightarrow> string \<Rightarrow> net_world \<Rightarrow> (store_error + unit) \<times> net_world" where
  "PutObject E C key file sz hash w =
    (case call_object E C ''PUT'' key hash [] (Some (\<lambda>n. map_option (\<lambda>b. (b, sz)) (file n))) w of
       (Inl e, w1) \<Rightarrow> (Inl e, w1)
     | (Inr r, w1) \<Rightarrow> (if hr_status r \<noteq> 200 then Inl (statusError r) else Inr (), w1))"

text \<open>The reader of the body: its bytes, and whether it reaches the end.\<close>

definition GetObject :: "os_env \<Rightarrow> s3_client \<Rightarrow> string \<Rightarrow> net_world \<Rightarrow> (store_error + bytes \<times> bool) \<times> net_world" where
  "GetObject E C key w =
    (case call_object E C ''GET'' key (emptySHA256 E) [] None w of
       (Inl e, w1) \<Rightarrow> (Inl e, w1)
     | (Inr r, w1) \<Rightarrow> (if hr_status r \<noteq> 200 then Inl (statusError r) else Inr (hr_body r, hr_complete r), w1))"

record head_info =
  hi_size :: int
  hi_etag :: string
  hi_modified :: "time option"

definition HeadObject :: "os_env \<Rightarrow> s3_client \<Rightarrow> string \<Rightarrow> net_world \<Rightarrow> (store_error + head_info) \<times> net_world" where
  "HeadObject E C key w =
    (case call_object E C ''HEAD'' key (emptySHA256 E) [] None w of
       (Inl e, w1) \<Rightarrow> (Inl e, w1)
     | (Inr r, w1) \<Rightarrow> (if hr_status r \<noteq> 200 then Inl (statusError r)
         else Inr \<lparr>hi_size = hr_length r, hi_etag = hr_header r ''ETag'',
           hi_modified = (let lm = hr_header r ''Last-Modified'' in if lm = '''' then None else oe_time E lm)\<rparr>, w1))"

definition DeleteObject :: "os_env \<Rightarrow> s3_client \<Rightarrow> string \<Rightarrow> net_world \<Rightarrow> (store_error + unit) \<times> net_world" where
  "DeleteObject E C key w =
    (case call_object E C ''DELETE'' key (emptySHA256 E) [] None w of
       (Inl e, w1) \<Rightarrow> (Inl e, w1)
     | (Inr r, w1) \<Rightarrow> (if hr_status r = 204 \<or> hr_status r = 200 \<or> hr_status r = 404 then Inr () else Inl (statusError r), w1))"

definition copySourceHeader :: string where "copySourceHeader = ''x-amz-copy-source''"

text \<open>A copy can fail inside an answer with status 200.\<close>

definition CopyObject :: "os_env \<Rightarrow> s3_client \<Rightarrow> string \<Rightarrow> string \<Rightarrow> net_world \<Rightarrow> (store_error + unit) \<times> net_world" where
  "CopyObject E C src dst w =
    (case call_object E C ''PUT'' dst (emptySHA256 E) [(copySourceHeader, object_path C src)] None w of
       (Inl e, w1) \<Rightarrow> (Inl e, w1)
     | (Inr r, w1) \<Rightarrow> (if hr_status r \<noteq> 200 then Inl (statusError r)
         else case oe_copy_error E (take 65536 (hr_body r)) of Some code \<Rightarrow> Inl ObjUnexpected | None \<Rightarrow> Inr (), w1))"

definition list_query :: "string \<Rightarrow> string option \<Rightarrow> (string \<times> string) list" where
  "list_query prefix token = [(''list-type'', ''2''), (''prefix'', prefix)] @
     (case token of None \<Rightarrow> [] | Some t \<Rightarrow> [(''continuation-token'', t)])"

definition list_call :: "os_env \<Rightarrow> s3_client \<Rightarrow> string \<Rightarrow> string option \<Rightarrow> net_world \<Rightarrow> (store_error + http_reply) \<times> net_world" where
  "list_call E C prefix token w =
    (case endpointURL E C (''/'' @ so_bucket (cl_cfg C)) (Some (list_query prefix token)) of Inl e \<Rightarrow> (Inl e, w)
     | Inr u \<Rightarrow> do_call E C \<lparr>sc_method = ''GET'', sc_url = u, sc_hash = emptySHA256 E, sc_extra = [], sc_body = None\<rparr> w)"

definition maxListPages :: nat where "maxListPages = 1001"

definition list_reply :: "os_env \<Rightarrow> http_reply \<Rightarrow> store_error + list_page" where
  "list_reply E r =
    (if hr_status r \<noteq> 200 then Inl (statusError r)
     else if \<not> hr_complete r \<and> length (hr_body r) < 8388608 then Inl ObjUnexpected
     else from_option ObjUnexpected (oe_listing E (take 8388608 (hr_body r))))"

fun list_pages ::
  "os_env \<Rightarrow> s3_client \<Rightarrow> string \<Rightarrow> nat \<Rightarrow> string option \<Rightarrow> (string \<times> int \<times> time) list \<Rightarrow> net_world \<Rightarrow>
   (store_error + (string \<times> int \<times> time) list) \<times> net_world" where
  "list_pages E C prefix 0 token acc w = (Inr acc, w)"
| "list_pages E C prefix (Suc left) token acc w =
    (case list_call E C prefix token w of
       (Inl e, w1) \<Rightarrow> (Inl e, w1)
     | (Inr r, w1) \<Rightarrow> (case list_reply E r of Inl e \<Rightarrow> (Inl e, w1)
         | Inr p \<Rightarrow> (let acc1 = acc @ lp_contents p in
             if \<not> lp_truncated p \<or> lp_next p = '''' \<or> left = 0 then (Inr acc1, w1)
             else list_pages E C prefix left (Some (lp_next p)) acc1 w1)))"

definition ListObjects ::
  "os_env \<Rightarrow> s3_client \<Rightarrow> string \<Rightarrow> net_world \<Rightarrow> (store_error + (string \<times> int \<times> time) list) \<times> net_world" where
  "ListObjects E C prefix w = list_pages E C prefix maxListPages None [] w"

section \<open>The client as a delivery\<close>

text \<open>\<open>R2Delivery\<close> with this client: what a call answers and the objects afterwards, the log of each call being its own.\<close>

definition fresh_world :: "r2_store \<Rightarrow> net_world" where
  "fresh_world s = \<lparr>nw_store = s, nw_sent = [], nw_slept = []\<rparr>"

definition succeeds :: "(store_error + 'a) \<times> net_world \<Rightarrow> bool \<times> r2_store" where
  "succeeds x = ((case fst x of Inl e \<Rightarrow> False | Inr y \<Rightarrow> True), nw_store (snd x))"

definition R2Client :: "os_env \<Rightarrow> s3_client \<Rightarrow> string \<Rightarrow> time \<Rightarrow> time \<Rightarrow> string \<Rightarrow> r2_delivery" where
  "R2Client E C prefix lifetime now fresh =
    \<lparr>rd_put = (\<lambda>key b s. succeeds (PutObject E C key (\<lambda>_. Some b) (int (length b)) (sha256_hex E b) (fresh_world s))),
     rd_get = (\<lambda>key s. case fst (GetObject E C key (fresh_world s)) of Inr (b, True) \<Rightarrow> Some b | _ \<Rightarrow> None),
     rd_head = (\<lambda>key s. case fst (HeadObject E C key (fresh_world s)) of Inr i \<Rightarrow> Some (hi_size i) | Inl _ \<Rightarrow> None),
     rd_copy = (\<lambda>src dst s. succeeds (CopyObject E C src dst (fresh_world s))),
     rd_delete = (\<lambda>key s. succeeds (DeleteObject E C key (fresh_world s))),
     rd_list = (\<lambda>p s. case fst (ListObjects E C p (fresh_world s)) of Inr os \<Rightarrow> Some (map (\<lambda>(k, n, t). (k, t)) os) | Inl _ \<Rightarrow> None),
     rd_prefix = prefix, rd_ttl = lifetime, rd_now = now, rd_fresh = fresh\<rparr>"

end
