(* ===== verification/ObjectSafety.thy ===== *)
theory ObjectSafety
  imports ObjectStore
begin

text \<open>
  Properties of the object store client: retries are bounded and safe (every write takes effect at most once, also when its
  answer is lost), a delivery leaves exactly the staged bytes, and a listing follows the pages of the service.
\<close>

section \<open>What the service promises\<close>

text \<open>The objects as a map.  An answer that is not worth a retry tells what happened; when an attempt fails on the way, the
  write may or may not have been done.\<close>

definition ov :: "r2_store \<Rightarrow> string \<Rightarrow> bytes option" where
  "ov s = map_of (map (\<lambda>(k, b, t). (k, b)) s)"

definition effect ::
  "((string \<Rightarrow> bytes option) \<Rightarrow> (string \<Rightarrow> bytes option)) \<Rightarrow> (http_reply \<Rightarrow> bool) \<Rightarrow> r2_store \<Rightarrow> http_outcome \<times> r2_store \<Rightarrow> bool" where
  "effect f good s x \<longleftrightarrow> ov (snd x) \<in> {ov s, f (ov s)} \<and> (\<forall>r. fst x = HttpReply r \<longrightarrow> good r \<longrightarrow> ov (snd x) = f (ov s))"

definition put_of :: "string \<Rightarrow> bytes \<Rightarrow> (string \<Rightarrow> bytes option) \<Rightarrow> (string \<Rightarrow> bytes option)" where
  "put_of k b m = m(k \<mapsto> b)"

definition copy_of :: "string \<Rightarrow> string \<Rightarrow> (string \<Rightarrow> bytes option) \<Rightarrow> (string \<Rightarrow> bytes option)" where
  "copy_of src k m = (case m src of None \<Rightarrow> m | Some b \<Rightarrow> m(k \<mapsto> b))"

definition delete_of :: "string \<Rightarrow> (string \<Rightarrow> bytes option) \<Rightarrow> (string \<Rightarrow> bytes option)" where
  "delete_of k m = m(k := None)"

definition put_good :: "http_reply \<Rightarrow> bool" where "put_good r \<longleftrightarrow> hr_status r = 200"

definition copy_good :: "os_env \<Rightarrow> http_reply \<Rightarrow> bool" where
  "copy_good E r \<longleftrightarrow> hr_status r = 200 \<and> oe_copy_error E (take 65536 (hr_body r)) = None"

definition delete_good :: "http_reply \<Rightarrow> bool" where "delete_good r \<longleftrightarrow> hr_status r \<in> {200, 204, 404}"

definition addressed :: "os_env \<Rightarrow> s3_client \<Rightarrow> string \<Rightarrow> s3_request \<Rightarrow> bool" where
  "addressed E C k q \<longleftrightarrow> endpointURL E C (object_path C k) None = Inr (sq_host q, sq_path q, sq_query q)"

definition copy_source :: "s3_request \<Rightarrow> string option" where
  "copy_source q = map_of (sq_headers q) copySourceHeader"

definition object_service :: "os_env \<Rightarrow> s3_client \<Rightarrow> bool" where
  "object_service E C \<longleftrightarrow> (\<forall>n q s k. addressed E C k q \<longrightarrow>
     (\<forall>b. sq_method q = ''PUT'' \<longrightarrow> copy_source q = None \<longrightarrow> sq_body q = Some b \<longrightarrow>
        effect (put_of k b) put_good s (oe_http E n q s)) \<and>
     (\<forall>src. sq_method q = ''PUT'' \<longrightarrow> copy_source q = Some (object_path C src) \<longrightarrow>
        effect (copy_of src k) (copy_good E) s (oe_http E n q s)) \<and>
     (sq_method q = ''DELETE'' \<longrightarrow> effect (delete_of k) delete_good s (oe_http E n q s)) \<and>
     (sq_method q = ''GET'' \<or> sq_method q = ''HEAD'' \<longrightarrow> ov (snd (oe_http E n q s)) = ov s) \<and>
     (\<forall>r. sq_method q = ''GET'' \<longrightarrow> fst (oe_http E n q s) = HttpReply r \<longrightarrow> hr_status r = 200 \<longrightarrow> hr_complete r \<longrightarrow>
        ov s k = Some (hr_body r)) \<and>
     (\<forall>r. sq_method q = ''HEAD'' \<longrightarrow> fst (oe_http E n q s) = HttpReply r \<longrightarrow> hr_status r = 200 \<longrightarrow>
        (\<exists>b. ov s k = Some b \<and> hr_length r = int (length b))))"

lemma object_serviceD:
  assumes "object_service E C" and "addressed E C k q"
  shows "sq_method q = ''PUT'' \<Longrightarrow> copy_source q = None \<Longrightarrow> sq_body q = Some b \<Longrightarrow> effect (put_of k b) put_good s (oe_http E n q s)"
    and "sq_method q = ''PUT'' \<Longrightarrow> copy_source q = Some (object_path C src) \<Longrightarrow> effect (copy_of src k) (copy_good E) s (oe_http E n q s)"
    and "sq_method q = ''DELETE'' \<Longrightarrow> effect (delete_of k) delete_good s (oe_http E n q s)"
    and "sq_method q = ''GET'' \<Longrightarrow> ov (snd (oe_http E n q s)) = ov s"
    and "sq_method q = ''HEAD'' \<Longrightarrow> ov (snd (oe_http E n q s)) = ov s"
    and "sq_method q = ''GET'' \<Longrightarrow> fst (oe_http E n q s) = HttpReply r \<Longrightarrow> hr_status r = 200 \<Longrightarrow> hr_complete r \<Longrightarrow>
        ov s k = Some (hr_body r)"
    and "sq_method q = ''HEAD'' \<Longrightarrow> fst (oe_http E n q s) = HttpReply r \<Longrightarrow> hr_status r = 200 \<Longrightarrow>
        \<exists>b. ov s k = Some b \<and> hr_length r = int (length b)"
  using assms unfolding object_service_def by blast+

section \<open>The retry loop\<close>

lemma attempts_inv:
  assumes "send_attempts E C q n k w = (res, w')" and "P (nw_store w)"
    and "\<And>i rq s. attempt_request E C q i = Inr rq \<Longrightarrow> P s \<Longrightarrow> P (snd (oe_http E i rq s))"
  shows "P (nw_store w') \<and> (\<forall>r. res = Inr r \<longrightarrow> (\<exists>i rq s. attempt_request E C q i = Inr rq \<and> P s \<and>
      oe_http E i rq s = (HttpReply r, nw_store w') \<and> \<not> retryableStatus (hr_status r)))"
  using assms(1,2)
proof (induction n arbitrary: k w)
  case 0
  then show ?case by auto
next
  case (Suc n)
  show ?case
  proof (cases "attempt_request E C q (length (nw_sent w))")
    case (Inl e)
    with Suc.prems show ?thesis by auto
  next
    case (Inr rq)
    let ?x = "oe_http E (length (nw_sent w)) rq (nw_store w)"
    have p: "P (snd ?x)" using assms(3)[OF Inr Suc.prems(2)] .
    show ?thesis
    proof (cases "settled (fst ?x)")
      case None
      show ?thesis
      proof (cases "n = 0 \<or> \<not> oe_awake E k")
        case True
        with Suc.prems(1) Inr None p show ?thesis by (auto simp: send_def Let_def split: prod.splits if_splits)
      next
        case False
        from Suc.prems(1) Inr None False have
          "send_attempts E C q n (Suc k) (w\<lparr>nw_store := snd ?x, nw_sent := nw_sent w @ [rq], nw_slept := nw_slept w @ [backoff E k]\<rparr>) = (res, w')"
          by (auto simp: send_def Let_def split: prod.splits)
        from Suc.IH[OF this] p show ?thesis by simp
      qed
    next
      case (Some y)
      then have y: "res = y" "nw_store w' = snd ?x" using Suc.prems(1) Inr by (auto simp: send_def split: prod.splits)
      have "fst ?x = HttpReply r \<and> \<not> retryableStatus (hr_status r)" if "y = Inr r" for r
        using Some that by (cases "fst ?x") (auto split: if_splits)
      with y p Inr Suc.prems(2) show ?thesis by (metis prod.collapse)
    qed
  qed
qed

lemma attempts_effect:
  assumes "send_attempts E C q n k w = (res, w')" and "\<And>m. f (f m) = f m"
    and "\<And>i rq s. attempt_request E C q i = Inr rq \<Longrightarrow> effect f good s (oe_http E i rq s)"
  shows "ov (nw_store w') \<in> {ov (nw_store w), f (ov (nw_store w))}"
    and "res = Inr r \<Longrightarrow> good r \<Longrightarrow> ov (nw_store w') = f (ov (nw_store w))"
proof -
  let ?m = "ov (nw_store w)"
  have step: "ov (snd (oe_http E i rq s)) \<in> {?m, f ?m}" if "attempt_request E C q i = Inr rq" "ov s \<in> {?m, f ?m}" for i rq s
    using assms(3)[OF that(1), of s] that(2) assms(2) by (auto simp: effect_def)
  note i = attempts_inv[OF assms(1), of "\<lambda>s. ov s \<in> {?m, f ?m}", OF _ step]
  show "ov (nw_store w') \<in> {?m, f ?m}" using i by simp
  assume "res = Inr r" "good r"
  with i obtain j rq s where a: "attempt_request E C q j = Inr rq" "ov s \<in> {?m, f ?m}" "oe_http E j rq s = (HttpReply r, nw_store w')"
    by auto
  from assms(3)[OF a(1), of s] a(3) \<open>good r\<close> have "ov (nw_store w') = f (ov s)" by (auto simp: effect_def)
  with a(2) assms(2) show "ov (nw_store w') = f ?m" by auto
qed

lemma attempts_read:
  assumes "send_attempts E C q n k w = (res, w')"
    and "\<And>i rq s. attempt_request E C q i = Inr rq \<Longrightarrow> ov (snd (oe_http E i rq s)) = ov s"
  shows "ov (nw_store w') = ov (nw_store w)"
    and "res = Inr r \<Longrightarrow> \<exists>i rq s. attempt_request E C q i = Inr rq \<and> ov s = ov (nw_store w) \<and> fst (oe_http E i rq s) = HttpReply r
      \<and> \<not> retryableStatus (hr_status r)"
  using attempts_inv[OF assms(1), of "\<lambda>s. ov s = ov (nw_store w)"] assms(2) by auto (metis fst_conv)

text \<open>A call ends with an answer when the fourth request of it is answered.\<close>

lemma attempts_answered:
  assumes "length (nw_sent w) + n = 4" and "0 < n"
    and "\<And>i. \<exists>rq. attempt_request E C q i = Inr rq" and "\<And>i. oe_awake E i"
    and "\<And>i rq s. fst (oe_http E i rq s) \<noteq> NetCanceled" and "\<And>rq s. settled (fst (oe_http E 3 rq s)) \<noteq> None"
  shows "\<exists>r. fst (send_attempts E C q n k w) = Inr r"
  using assms(1,2)
proof (induction n arbitrary: k w)
  case 0
  then show ?case by simp
next
  case (Suc n)
  obtain rq where rq: "attempt_request E C q (length (nw_sent w)) = Inr rq" using assms(3) by blast
  let ?x = "oe_http E (length (nw_sent w)) rq (nw_store w)"
  show ?case
  proof (cases "settled (fst ?x)")
    case None
    with assms(6)[of rq "nw_store w"] Suc.prems have n: "n \<noteq> 0" by (cases n) (auto simp: numeral_3_eq_3 numeral_Bit0)
    have "\<exists>r. fst (send_attempts E C q n (Suc k)
        (w\<lparr>nw_store := snd ?x, nw_sent := nw_sent w @ [rq], nw_slept := nw_slept w @ [backoff E k]\<rparr>)) = Inr r"
      by (rule Suc.IH) (use Suc.prems n in auto)
    with rq None n assms(4) show ?thesis by (cases ?x) (simp add: send_def)
  next
    case (Some y)
    with assms(5)[of "length (nw_sent w)" rq "nw_store w"] obtain r where "y = Inr r" by (cases "fst ?x") (auto split: if_splits)
    with rq Some show ?thesis by (cases ?x) (simp add: send_def)
  qed
qed

section \<open>Bounds of the retries\<close>

lemma attempts_log:
  assumes "send_attempts E C q n k w = (res, w')"
  shows "\<exists>qs m. nw_sent w' = nw_sent w @ qs \<and> nw_slept w' = nw_slept w @ map (backoff E) [k..<k + m] \<and> length qs \<le> n \<and> m < max 1 n
    \<and> (\<forall>rq \<in> set qs. \<exists>i. attempt_request E C q i = Inr rq) \<and> (\<forall>r. res = Inr r \<longrightarrow> qs \<noteq> [] \<and> \<not> retryableStatus (hr_status r))"
  using assms
proof (induction n arbitrary: k w)
  case 0
  then show ?case by (intro exI[of _ "[]"] exI[of _ 0]) auto
next
  case (Suc n)
  show ?case
  proof (cases "attempt_request E C q (length (nw_sent w))")
    case (Inl e)
    with Suc.prems show ?thesis by (intro exI[of _ "[]"] exI[of _ 0]) auto
  next
    case (Inr rq)
    let ?x = "oe_http E (length (nw_sent w)) rq (nw_store w)"
    show ?thesis
    proof (cases "settled (fst ?x) = None \<and> n \<noteq> 0")
      case False
      have "\<not> retryableStatus (hr_status r)" if "settled (fst ?x) = Some (Inr r)" for r
        using that by (cases "fst ?x") (auto split: if_splits)
      with Suc.prems Inr False show ?thesis
        by (intro exI[of _ "[rq]"] exI[of _ 0]) (cases ?x, auto simp: send_def split: option.splits)
    next
      case True
      let ?w = "w\<lparr>nw_store := snd ?x, nw_sent := nw_sent w @ [rq], nw_slept := nw_slept w @ [backoff E k]\<rparr>"
      show ?thesis
      proof (cases "oe_awake E k")
        case False
        with Suc.prems Inr True show ?thesis by (intro exI[of _ "[rq]"] exI[of _ 1]) (cases ?x, auto simp: send_def)
      next
        case awake: True
        from Suc.prems Inr True awake have "send_attempts E C q n (Suc k) ?w = (res, w')" by (cases ?x) (simp add: send_def)
        from Suc.IH[OF this] obtain qs m where h: "nw_sent w' = nw_sent w @ rq # qs"
          "nw_slept w' = nw_slept w @ backoff E k # map (backoff E) [Suc k..<Suc k + m]" "length qs \<le> n" "m < max 1 n"
          "\<forall>rq \<in> set qs. \<exists>i. attempt_request E C q i = Inr rq" "\<forall>r. res = Inr r \<longrightarrow> \<not> retryableStatus (hr_status r)" by auto
        have "backoff E k # map (backoff E) [Suc k..<Suc k + m] = map (backoff E) [k..<k + Suc m]"
          by (simp add: upt_conv_Cons del: upt_Suc)
        with h True Inr show ?thesis by (intro exI[of _ "rq # qs"] exI[of _ "Suc m"]) auto
      qed
    qed
  qed
qed

lemma backoff_bound:
  assumes "\<And>k m. 0 < m \<Longrightarrow> 0 \<le> oe_rand E k m \<and> oe_rand E k m < m"
  shows "250000000 * 2 ^ (k - 1) \<le> backoff E k" and "backoff E k < 312500000 * 2 ^ (k - 1)"
proof -
  have "(250000000 * 2 ^ (k - 1) :: int) div 4 = 62500000 * 2 ^ (k - 1)" by simp
  with assms[of "62500000 * 2 ^ (k - 1)" k] show "250000000 * 2 ^ (k - 1) \<le> backoff E k" "backoff E k < 312500000 * 2 ^ (k - 1)"
    by (simp_all add: backoff_def Let_def mult.commute mult.left_commute)
qed

lemma three_pauses:
  assumes "\<And>k m. 0 < m \<Longrightarrow> 0 \<le> oe_rand E k m \<and> oe_rand E k m < m" and "m < (4 :: nat)"
  shows "sum_list (map (backoff E) [1..<1 + m]) < 2187500000"
proof -
  have b: "0 \<le> backoff E 1" "backoff E 1 < 312500000" "0 \<le> backoff E 2" "backoff E 2 < 625000000" "0 \<le> backoff E 3" "backoff E 3 < 1250000000"
    using backoff_bound[OF assms(1), of 1] backoff_bound[OF assms(1), of 2] backoff_bound[OF assms(1), of 3] by simp_all
  have l: "[1..<1 + 1] = [1 :: nat]" "[1..<1 + 2] = [1, 2 :: nat]" "[1..<1 + 3] = [1, 2, 3 :: nat]" by (simp_all add: upt_conv_Cons)
  from assms(2) consider "m = 0" | "m = 1" | "m = 2" | "m = 3" by linarith
  then show ?thesis by cases (simp_all only: l, use b in simp_all)
qed

section \<open>The calls of the client\<close>

lemma sorted_headers:
  assumes "distinct (map fst hs)"
  shows "map_of (sort_key fst hs) = map_of hs"
  by (rule map_of_inject_set[THEN iffD2]) (use assms in \<open>simp_all add: distinct_map inj_on_def\<close>)

lemma attempt_requestD:
  assumes "attempt_request E C q i = Inr rq" and "sc_url q = (h, p, y)"
  shows "sq_method rq = sc_method q" and "sq_host rq = h" and "sq_path rq = p" and "sq_query rq = y"
    and "sc_body q = None \<Longrightarrow> sq_body rq = None"
    and "sc_body q = Some f \<Longrightarrow> \<exists>b. f i = Some b \<and> sq_body rq = Some (fst b)"
    and "sc_extra q = [] \<Longrightarrow> copy_source rq = None"
    and "sc_extra q = [(copySourceHeader, src)] \<Longrightarrow> copy_source rq = Some src"
    and "(''x-amz-content-sha256'', sc_hash q) \<in> set (sq_headers rq)"
proof -
  let ?hs = "[(''x-amz-date'', oe_stamp E i), (''x-amz-content-sha256'', sc_hash q)] @ sc_extra q @ [(''host'', h)]"
  from assms obtain b where b: "open_body q i = Inr b" and rq: "sq_method rq = sc_method q" "sq_host rq = h" "sq_path rq = p"
    "sq_query rq = y" "sq_headers rq = sort_key fst ?hs" "sq_body rq = map_option fst b"
    by (auto simp: attempt_request_def signedRequest_def Let_def result_Inr split: if_splits)
  show "sq_method rq = sc_method q" "sq_host rq = h" "sq_path rq = p" "sq_query rq = y" by (fact rq)+
  show "sc_body q = None \<Longrightarrow> sq_body rq = None" using b rq by (simp add: open_body_def)
  show "sc_body q = Some f \<Longrightarrow> \<exists>b. f i = Some b \<and> sq_body rq = Some (fst b)"
    using b rq by (cases "f i") (auto simp: open_body_def)
  show "sc_extra q = [] \<Longrightarrow> copy_source rq = None"
    using sorted_headers[of ?hs] rq(5) by (simp add: copy_source_def copySourceHeader_def)
  show "sc_extra q = [(copySourceHeader, src)] \<Longrightarrow> copy_source rq = Some src"
    using sorted_headers[of ?hs] rq(5) by (simp add: copy_source_def copySourceHeader_def)
  show "(''x-amz-content-sha256'', sc_hash q) \<in> set (sq_headers rq)"
    unfolding rq(5) by (simp only: set_sort) simp
qed

text \<open>One object call, and what it did to the objects.\<close>

lemma call_effect:
  assumes "call_object E C method key hash extra b w = (res, w')" and "\<And>m. f (f m) = f m"
    and "\<And>q i rq s. q = \<lparr>sc_method = method, sc_url = (sq_host rq, sq_path rq, sq_query rq), sc_hash = hash, sc_extra = extra, sc_body = b\<rparr> \<Longrightarrow>
      attempt_request E C q i = Inr rq \<Longrightarrow> addressed E C key rq \<Longrightarrow> effect f good s (oe_http E i rq s)"
  shows "ov (nw_store w') \<in> {ov (nw_store w), f (ov (nw_store w))}"
    and "res = Inr r \<Longrightarrow> good r \<Longrightarrow> ov (nw_store w') = f (ov (nw_store w))"
proof -
  have "ov (nw_store w') \<in> {ov (nw_store w), f (ov (nw_store w))} \<and> (res = Inr r \<longrightarrow> good r \<longrightarrow> ov (nw_store w') = f (ov (nw_store w)))"
  proof (cases "endpointURL E C (object_path C key) None")
    case (Inl e)
    with assms(1) show ?thesis by (auto simp: call_object_def)
  next
    case (Inr u)
    let ?q = "\<lparr>sc_method = method, sc_url = u, sc_hash = hash, sc_extra = extra, sc_body = b\<rparr>"
    obtain h p y where u: "u = (h, p, y)" by (cases u)
    have step: "effect f good s (oe_http E i rq s)" if a: "attempt_request E C ?q i = Inr rq" for i rq s
    proof -
      from attempt_requestD(2-4)[OF a, of h p y] u have v: "u = (sq_host rq, sq_path rq, sq_query rq)" by simp
      with Inr have "addressed E C key rq" by (simp add: addressed_def)
      from assms(3)[OF _ a this, of s] v show ?thesis by simp
    qed
    from assms(1) Inr have s: "send_attempts E C ?q (if cl_attempts C = 0 then 4 else cl_attempts C) 1 w = (res, w')"
      by (simp add: call_object_def do_call_def)
    show ?thesis using attempts_effect[where good = good, OF s assms(2) step] by blast
  qed
  then show "ov (nw_store w') \<in> {ov (nw_store w), f (ov (nw_store w))}"
    and "res = Inr r \<Longrightarrow> good r \<Longrightarrow> ov (nw_store w') = f (ov (nw_store w))" by auto
qed

lemma idem_effects: "put_of k b (put_of k b m) = put_of k b m" "delete_of k (delete_of k m) = delete_of k m"
  "copy_of src k (copy_of src k m) = copy_of src k m"
  by (auto simp: put_of_def delete_of_def copy_of_def split: option.splits)

lemma PutObject_effect:
  assumes "object_service E C" and "PutObject E C key (\<lambda>_. Some b) sz hash w = (res, w')"
  shows "ov (nw_store w') \<in> {ov (nw_store w), put_of key b (ov (nw_store w))}"
    and "res = Inr x \<Longrightarrow> ov (nw_store w') = put_of key b (ov (nw_store w))"
proof -
  obtain r where r: "call_object E C ''PUT'' key hash [] (Some (\<lambda>n. Some (b, sz))) w = (r, w')"
    and res: "res = Inr x \<Longrightarrow> \<exists>y. r = Inr y \<and> put_good y"
    using assms(2) by (auto simp: PutObject_def put_good_def split: prod.splits sum.splits if_splits)
  have e: "effect (put_of key b) put_good s (oe_http E i rq s)"
    if "q = \<lparr>sc_method = ''PUT'', sc_url = (sq_host rq, sq_path rq, sq_query rq), sc_hash = hash, sc_extra = [], sc_body = Some (\<lambda>n. Some (b, sz))\<rparr>"
      "attempt_request E C q i = Inr rq" "addressed E C key rq" for q i rq s
    by (rule object_serviceD(1)[OF assms(1) that(3)])
      (use attempt_requestD[OF that(2), of "sq_host rq" "sq_path rq" "sq_query rq"] that(1) in auto)
  note c = call_effect[OF r idem_effects(1) e]
  show "ov (nw_store w') \<in> {ov (nw_store w), put_of key b (ov (nw_store w))}" by (rule c(1))
  show "ov (nw_store w') = put_of key b (ov (nw_store w))" if "res = Inr x" using res[OF that] c(2) by auto
qed

lemma CopyObject_effect:
  assumes "object_service E C" and "CopyObject E C src key w = (res, w')"
  shows "ov (nw_store w') \<in> {ov (nw_store w), copy_of src key (ov (nw_store w))}"
    and "res = Inr x \<Longrightarrow> ov (nw_store w') = copy_of src key (ov (nw_store w))"
proof -
  obtain r where r: "call_object E C ''PUT'' key (emptySHA256 E) [(copySourceHeader, object_path C src)] None w = (r, w')"
    and res: "res = Inr x \<Longrightarrow> \<exists>y. r = Inr y \<and> copy_good E y"
    using assms(2) by (auto simp: CopyObject_def copy_good_def split: prod.splits sum.splits if_splits option.splits)
  have e: "effect (copy_of src key) (copy_good E) s (oe_http E i rq s)"
    if "q = \<lparr>sc_method = ''PUT'', sc_url = (sq_host rq, sq_path rq, sq_query rq), sc_hash = emptySHA256 E,
        sc_extra = [(copySourceHeader, object_path C src)], sc_body = None\<rparr>"
      "attempt_request E C q i = Inr rq" "addressed E C key rq" for q i rq s
    by (rule object_serviceD(2)[OF assms(1) that(3)])
      (use attempt_requestD[OF that(2), of "sq_host rq" "sq_path rq" "sq_query rq"] that(1) in auto)
  note c = call_effect[OF r idem_effects(3) e]
  show "ov (nw_store w') \<in> {ov (nw_store w), copy_of src key (ov (nw_store w))}" by (rule c(1))
  show "ov (nw_store w') = copy_of src key (ov (nw_store w))" if "res = Inr x" using res[OF that] c(2) by auto
qed

lemma DeleteObject_effect:
  assumes "object_service E C" and "DeleteObject E C key w = (res, w')"
  shows "ov (nw_store w') \<in> {ov (nw_store w), delete_of key (ov (nw_store w))}"
    and "res = Inr x \<Longrightarrow> ov (nw_store w') = delete_of key (ov (nw_store w))"
proof -
  obtain r where r: "call_object E C ''DELETE'' key (emptySHA256 E) [] None w = (r, w')"
    and res: "res = Inr x \<Longrightarrow> \<exists>y. r = Inr y \<and> delete_good y"
    using assms(2) by (auto simp: DeleteObject_def delete_good_def split: prod.splits sum.splits if_splits)
  have e: "effect (delete_of key) delete_good s (oe_http E i rq s)"
    if "q = \<lparr>sc_method = ''DELETE'', sc_url = (sq_host rq, sq_path rq, sq_query rq), sc_hash = emptySHA256 E, sc_extra = [], sc_body = None\<rparr>"
      "attempt_request E C q i = Inr rq" "addressed E C key rq" for q i rq s
    by (rule object_serviceD(3)[OF assms(1) that(3)])
      (use attempt_requestD[OF that(2), of "sq_host rq" "sq_path rq" "sq_query rq"] that(1) in auto)
  note c = call_effect[OF r idem_effects(2) e]
  show "ov (nw_store w') \<in> {ov (nw_store w), delete_of key (ov (nw_store w))}" by (rule c(1))
  show "ov (nw_store w') = delete_of key (ov (nw_store w))" if "res = Inr x" using res[OF that] c(2) by auto
qed

text \<open>Where the answer of a call comes from.\<close>

abbreviation the_call :: "string \<Rightarrow> s3_request \<Rightarrow> string \<Rightarrow> (string \<times> string) list \<Rightarrow> body_provider \<Rightarrow> s3_call" where
  "the_call method rq hash extra b \<equiv> \<lparr>sc_method = method, sc_url = (sq_host rq, sq_path rq, sq_query rq), sc_hash = hash,
     sc_extra = extra, sc_body = b\<rparr>"

lemma call_answer:
  assumes "call_object E C method key hash extra b w = (res, w')" and "P (nw_store w)"
    and "\<And>i rq s. attempt_request E C (the_call method rq hash extra b) i = Inr rq \<Longrightarrow> addressed E C key rq \<Longrightarrow> P s \<Longrightarrow>
      P (snd (oe_http E i rq s))"
  shows "P (nw_store w')"
    and "res = Inr r \<Longrightarrow> \<exists>i rq s. attempt_request E C (the_call method rq hash extra b) i = Inr rq \<and> addressed E C key rq \<and> P s \<and>
      fst (oe_http E i rq s) = HttpReply r \<and> \<not> retryableStatus (hr_status r)"
proof -
  have "P (nw_store w') \<and> (\<forall>r. res = Inr r \<longrightarrow> (\<exists>i rq s. attempt_request E C (the_call method rq hash extra b) i = Inr rq \<and>
      addressed E C key rq \<and> P s \<and> fst (oe_http E i rq s) = HttpReply r \<and> \<not> retryableStatus (hr_status r)))"
  proof (cases "endpointURL E C (object_path C key) None")
    case (Inl e)
    with assms(1,2) show ?thesis by (auto simp: call_object_def)
  next
    case (Inr u)
    let ?q = "\<lparr>sc_method = method, sc_url = u, sc_hash = hash, sc_extra = extra, sc_body = b\<rparr>"
    have own: "?q = the_call method rq hash extra b \<and> addressed E C key rq" if "attempt_request E C ?q i = Inr rq" for i rq
      using attempt_requestD(2-4)[OF that, of "fst u" "fst (snd u)" "snd (snd u)"] Inr by (simp add: addressed_def)
    have step: "P (snd (oe_http E i rq s))" if a: "attempt_request E C ?q i = Inr rq" and p: "P s" for i rq s
      using assms(3)[of rq i s] own[OF a] a p by simp
    from assms(1) Inr have "send_attempts E C ?q (if cl_attempts C = 0 then 4 else cl_attempts C) 1 w = (res, w')"
      by (simp add: call_object_def do_call_def)
    from attempts_inv[where P = P, OF this assms(2) step] have "P (nw_store w')"
      and ans: "\<forall>r. res = Inr r \<longrightarrow> (\<exists>i rq s. attempt_request E C ?q i = Inr rq \<and> P s \<and>
        oe_http E i rq s = (HttpReply r, nw_store w') \<and> \<not> retryableStatus (hr_status r))" by blast+
    moreover have "\<exists>i rq s. attempt_request E C (the_call method rq hash extra b) i = Inr rq \<and>
      addressed E C key rq \<and> P s \<and> fst (oe_http E i rq s) = HttpReply r \<and> \<not> retryableStatus (hr_status r)" if "res = Inr r" for r
    proof -
      from ans that obtain i rq s where h: "attempt_request E C ?q i = Inr rq" "P s" "oe_http E i rq s = (HttpReply r, nw_store w')"
        "\<not> retryableStatus (hr_status r)" by blast
      with own[OF h(1)] show ?thesis by (metis fst_conv)
    qed
    ultimately show ?thesis by blast
  qed
  then show "P (nw_store w')"
    and "res = Inr r \<Longrightarrow> \<exists>i rq s. attempt_request E C (the_call method rq hash extra b) i = Inr rq \<and> addressed E C key rq \<and> P s \<and>
      fst (oe_http E i rq s) = HttpReply r \<and> \<not> retryableStatus (hr_status r)" by blast+
qed

lemma the_call_request:
  assumes "attempt_request E C (the_call method rq hash extra b) i = Inr rq"
  shows "sq_method rq = method" and "extra = [] \<Longrightarrow> copy_source rq = None"
    and "extra = [(copySourceHeader, src)] \<Longrightarrow> copy_source rq = Some src"
  using attempt_requestD[OF assms, of "sq_host rq" "sq_path rq" "sq_query rq"] by auto

lemma GetObject_reads:
  assumes "object_service E C" and "GetObject E C key w = (res, w')"
  shows "ov (nw_store w') = ov (nw_store w)" and "res = Inr (b, True) \<Longrightarrow> ov (nw_store w) key = Some b"
proof -
  obtain y where y: "call_object E C ''GET'' key (emptySHA256 E) [] None w = (y, w')"
    and res: "res = Inr (b, True) \<Longrightarrow> \<exists>r. y = Inr r \<and> hr_status r = 200 \<and> hr_complete r \<and> b = hr_body r"
    using assms(2) by (auto simp: GetObject_def split: prod.splits sum.splits if_splits)
  note c = call_answer[where P = "\<lambda>s. ov s = ov (nw_store w)", OF y]
  have step: "ov (snd (oe_http E i rq s)) = ov (nw_store w)" if "attempt_request E C (the_call ''GET'' rq (emptySHA256 E) [] None) i = Inr rq"
    "addressed E C key rq" "ov s = ov (nw_store w)" for i rq s
    using object_serviceD(4)[OF assms(1) that(2) the_call_request(1)[OF that(1)]] that(3) by simp
  show "ov (nw_store w') = ov (nw_store w)" by (rule c(1)) (auto simp: step)
  assume "res = Inr (b, True)"
  from res[OF this] obtain r where r: "y = Inr r" "hr_status r = 200" "hr_complete r" "b = hr_body r" by blast
  with c(2)[OF refl _ r(1)] step obtain i rq s where "attempt_request E C (the_call ''GET'' rq (emptySHA256 E) [] None) i = Inr rq"
    "addressed E C key rq" "ov s = ov (nw_store w)" "fst (oe_http E i rq s) = HttpReply r" by blast
  with object_serviceD(6)[OF assms(1), of key rq i s r] the_call_request(1) r show "ov (nw_store w) key = Some b" by metis
qed

lemma HeadObject_reads:
  assumes "object_service E C" and "HeadObject E C key w = (Inr i, w')"
  shows "\<exists>b. ov (nw_store w) key = Some b \<and> hi_size i = int (length b)"
proof -
  obtain r where y: "call_object E C ''HEAD'' key (emptySHA256 E) [] None w = (Inr r, w')" and r: "hr_status r = 200" "hi_size i = hr_length r"
    using assms(2) by (auto simp: HeadObject_def split: prod.splits sum.splits if_splits)
  have step: "ov (snd (oe_http E i rq s)) = ov (nw_store w)" if "attempt_request E C (the_call ''HEAD'' rq (emptySHA256 E) [] None) i = Inr rq"
    "addressed E C key rq" "ov s = ov (nw_store w)" for i rq s
    using object_serviceD(5)[OF assms(1) that(2) the_call_request(1)[OF that(1)]] that(3) by simp
  from call_answer(2)[where P = "\<lambda>s. ov s = ov (nw_store w)", OF y refl _ refl] step obtain j rq s where
    "attempt_request E C (the_call ''HEAD'' rq (emptySHA256 E) [] None) j = Inr rq"
    "addressed E C key rq" "ov s = ov (nw_store w)" "fst (oe_http E j rq s) = HttpReply r" by blast
  with object_serviceD(7)[OF assms(1), of key rq j s r] the_call_request(1) r show ?thesis by metis
qed

section \<open>A dependable service\<close>

text \<open>Every address parses, nobody cancels, the fourth request of a call is answered at the latest, and what is answered for good
  is the answer that the state of the objects calls for.\<close>

definition answers_well :: "os_env \<Rightarrow> s3_client \<Rightarrow> string \<Rightarrow> s3_request \<Rightarrow> r2_store \<Rightarrow> http_reply \<Rightarrow> bool" where
  "answers_well E C k q s r \<longleftrightarrow>
     (sq_method q = ''PUT'' \<longrightarrow> copy_source q = None \<longrightarrow> put_good r) \<and>
     (\<forall>src. sq_method q = ''PUT'' \<longrightarrow> copy_source q = Some (object_path C src) \<longrightarrow> ov s src \<noteq> None \<longrightarrow> copy_good E r) \<and>
     (sq_method q = ''DELETE'' \<longrightarrow> delete_good r) \<and>
     (sq_method q = ''GET'' \<longrightarrow> ov s k \<noteq> None \<longrightarrow> hr_status r = 200 \<and> hr_complete r) \<and>
     (sq_method q = ''HEAD'' \<longrightarrow> ov s k \<noteq> None \<longrightarrow> hr_status r = 200)"

definition dependable :: "os_env \<Rightarrow> s3_client \<Rightarrow> bool" where
  "dependable E C \<longleftrightarrow> (\<forall>path. \<exists>u. endpointURL E C path None = Inr u) \<and> (\<forall>h p q. oe_request E h p q) \<and> (\<forall>n. oe_awake E n) \<and>
     (\<forall>n rq s. fst (oe_http E n rq s) \<noteq> NetCanceled) \<and> (\<forall>rq s. settled (fst (oe_http E 3 rq s)) \<noteq> None) \<and>
     (\<forall>n k rq s r. addressed E C k rq \<longrightarrow> fst (oe_http E n rq s) = HttpReply r \<longrightarrow> \<not> retryableStatus (hr_status r) \<longrightarrow>
        answers_well E C k rq s r)"

lemma NewClient_attempts: "NewClient cfg = Some C \<Longrightarrow> cl_attempts C = 4"
  by (auto simp: NewClient_def split: if_splits)

lemma call_dependable:
  assumes "dependable E C" and "cl_attempts C = 4" and "b = None \<or> b = Some (\<lambda>n. Some x)"
    and "call_object E C method key hash extra b (fresh_world s) = (res, w')" and "P s"
    and "\<And>i rq s. attempt_request E C (the_call method rq hash extra b) i = Inr rq \<Longrightarrow> addressed E C key rq \<Longrightarrow> P s \<Longrightarrow>
      P (snd (oe_http E i rq s))"
  shows "\<exists>r rq s' i. res = Inr r \<and> P s' \<and> attempt_request E C (the_call method rq hash extra b) i = Inr rq \<and>
    answers_well E C key rq s' r"
proof -
  from assms(1) obtain u where u: "endpointURL E C (object_path C key) None = Inr u" unfolding dependable_def by blast
  let ?q = "\<lparr>sc_method = method, sc_url = u, sc_hash = hash, sc_extra = extra, sc_body = b\<rparr>"
  have "\<exists>rq. attempt_request E C ?q i = Inr rq" for i
    using assms(1,3) by (cases u) (auto simp: attempt_request_def open_body_def signedRequest_def Let_def dependable_def)
  then have "\<exists>r. fst (send_attempts E C ?q 4 1 (fresh_world s)) = Inr r"
    by (intro attempts_answered) (use assms(1) in \<open>auto simp: dependable_def fresh_world_def\<close>)
  with assms(2,4) u obtain r where r: "res = Inr r" by (auto simp: call_object_def do_call_def)
  have "P (nw_store (fresh_world s))" using assms(5) by (simp add: fresh_world_def)
  from call_answer(2)[where P = P, OF assms(4) this assms(6) r] obtain i rq s' where
    h: "attempt_request E C (the_call method rq hash extra b) i = Inr rq" "addressed E C key rq" "P s'"
      "fst (oe_http E i rq s') = HttpReply r" "\<not> retryableStatus (hr_status r)" by blast
  from assms(1) h(2,4,5) have "answers_well E C key rq s' r" unfolding dependable_def by blast
  with r h show ?thesis by blast
qed

section \<open>The operations as a delivery sees them\<close>

lemma client_put:
  assumes "object_service E C" and "rd_put (R2Client E C prefix lt now fr) k b s = (ok, s')"
  shows "ov s' \<in> {ov s, put_of k b (ov s)}" and "ok \<Longrightarrow> ov s' = put_of k b (ov s)"
proof -
  obtain res w' where p: "PutObject E C k (\<lambda>_. Some b) (int (length b)) (sha256_hex E b) (fresh_world s) = (res, w')" by fastforce
  with assms(2) have "s' = nw_store w'" "ok \<Longrightarrow> \<exists>x. res = Inr x"
    by (auto simp: R2Client_def succeeds_def split: sum.splits)
  with PutObject_effect[OF assms(1) p] show "ov s' \<in> {ov s, put_of k b (ov s)}" "ok \<Longrightarrow> ov s' = put_of k b (ov s)"
    by (auto simp: fresh_world_def)
qed

lemma client_copy:
  assumes "object_service E C" and "rd_copy (R2Client E C prefix lt now fr) src k s = (ok, s')"
  shows "ov s' \<in> {ov s, copy_of src k (ov s)}" and "ok \<Longrightarrow> ov s' = copy_of src k (ov s)"
proof -
  obtain res w' where p: "CopyObject E C src k (fresh_world s) = (res, w')" by fastforce
  with assms(2) have "s' = nw_store w'" "ok \<Longrightarrow> \<exists>x. res = Inr x"
    by (auto simp: R2Client_def succeeds_def split: sum.splits)
  with CopyObject_effect[OF assms(1) p] show "ov s' \<in> {ov s, copy_of src k (ov s)}" "ok \<Longrightarrow> ov s' = copy_of src k (ov s)"
    by (auto simp: fresh_world_def)
qed

lemma client_delete:
  assumes "object_service E C" and "rd_delete (R2Client E C prefix lt now fr) k s = (ok, s')"
  shows "ov s' \<in> {ov s, delete_of k (ov s)}" and "ok \<Longrightarrow> ov s' = delete_of k (ov s)"
proof -
  obtain res w' where p: "DeleteObject E C k (fresh_world s) = (res, w')" by fastforce
  with assms(2) have "s' = nw_store w'" "ok \<Longrightarrow> \<exists>x. res = Inr x"
    by (auto simp: R2Client_def succeeds_def split: sum.splits)
  with DeleteObject_effect[OF assms(1) p] show "ov s' \<in> {ov s, delete_of k (ov s)}" "ok \<Longrightarrow> ov s' = delete_of k (ov s)"
    by (auto simp: fresh_world_def)
qed

lemma client_get:
  assumes "object_service E C" and "rd_get (R2Client E C prefix lt now fr) k s = Some b"
  shows "ov s k = Some b"
proof -
  obtain res w' where p: "GetObject E C k (fresh_world s) = (res, w')" by fastforce
  with assms(2) have "res = Inr (b, True)" by (auto simp: R2Client_def split: sum.splits prod.splits bool.splits)
  with GetObject_reads(2)[OF assms(1) p] show ?thesis by (simp add: fresh_world_def)
qed

lemma dependable_put:
  assumes "object_service E C" and "dependable E C" and "cl_attempts C = 4"
  shows "fst (rd_put (R2Client E C prefix lt now fr) k b s)"
proof -
  obtain res w' where p: "call_object E C ''PUT'' k (sha256_hex E b) [] (Some (\<lambda>n. Some (b, int (length b)))) (fresh_world s) = (res, w')"
    by fastforce
  from call_dependable[where P = "\<lambda>_. True", OF assms(2,3) _ p] obtain r rq i s' where "res = Inr r" and
    a: "attempt_request E C (the_call ''PUT'' rq (sha256_hex E b) [] (Some (\<lambda>n. Some (b, int (length b))))) i = Inr rq"
      "answers_well E C k rq s' r" by blast
  moreover from the_call_request(1,2)[OF a(1)] a(2) have "put_good r" by (simp add: answers_well_def)
  ultimately show ?thesis using p by (simp add: R2Client_def succeeds_def PutObject_def put_good_def)
qed

lemma dependable_get:
  assumes "object_service E C" and "dependable E C" and "cl_attempts C = 4" and "ov s k = Some b"
  shows "rd_get (R2Client E C prefix lt now fr) k s = Some b"
proof -
  obtain res w' where p: "call_object E C ''GET'' k (emptySHA256 E) [] None (fresh_world s) = (res, w')" by fastforce
  have step: "ov (snd (oe_http E i rq s')) = ov s" if "attempt_request E C (the_call ''GET'' rq (emptySHA256 E) [] None) i = Inr rq"
    "addressed E C k rq" "ov s' = ov s" for i rq s'
    using object_serviceD(4)[OF assms(1) that(2) the_call_request(1)[OF that(1)]] that(3) by simp
  from call_dependable[where P = "\<lambda>x. ov x = ov s", OF assms(2,3) _ p refl step] obtain r rq i s' where r: "res = Inr r" and
    a: "ov s' = ov s" "attempt_request E C (the_call ''GET'' rq (emptySHA256 E) [] None) i = Inr rq" "answers_well E C k rq s' r" by blast
  from the_call_request(1)[OF a(2)] a(1,3) assms(4) have "hr_status r = 200" "hr_complete r" by (simp_all add: answers_well_def)
  with p r have "rd_get (R2Client E C prefix lt now fr) k s = Some (hr_body r)" by (simp add: R2Client_def GetObject_def)
  with client_get[OF assms(1) this] assms(4) show ?thesis by simp
qed

lemma dependable_head:
  assumes "object_service E C" and "dependable E C" and "cl_attempts C = 4" and "ov s k = Some b"
  shows "rd_head (R2Client E C prefix lt now fr) k s = Some (int (length b))"
proof -
  obtain res w' where p: "call_object E C ''HEAD'' k (emptySHA256 E) [] None (fresh_world s) = (res, w')" by fastforce
  have step: "ov (snd (oe_http E i rq s')) = ov s" if "attempt_request E C (the_call ''HEAD'' rq (emptySHA256 E) [] None) i = Inr rq"
    "addressed E C k rq" "ov s' = ov s" for i rq s'
    using object_serviceD(5)[OF assms(1) that(2) the_call_request(1)[OF that(1)]] that(3) by simp
  from call_dependable[where P = "\<lambda>x. ov x = ov s", OF assms(2,3) _ p refl step] obtain r rq i s' where r: "res = Inr r" and
    a: "ov s' = ov s" "attempt_request E C (the_call ''HEAD'' rq (emptySHA256 E) [] None) i = Inr rq" "answers_well E C k rq s' r" by blast
  from the_call_request(1)[OF a(2)] a(1,3) assms(4) have "hr_status r = 200" by (simp add: answers_well_def)
  with p r obtain j where j: "HeadObject E C k (fresh_world s) = (Inr j, w')" by (simp add: HeadObject_def)
  with HeadObject_reads[OF assms(1) this] assms(4) show ?thesis by (simp add: R2Client_def fresh_world_def)
qed

lemma dependable_copy:
  assumes "object_service E C" and "dependable E C" and "cl_attempts C = 4" and "ov s src \<noteq> None"
  shows "fst (rd_copy (R2Client E C prefix lt now fr) src k s)"
proof -
  let ?x = "[(copySourceHeader, object_path C src)]"
  obtain res w' where p: "call_object E C ''PUT'' k (emptySHA256 E) ?x None (fresh_world s) = (res, w')" by fastforce
  have step: "ov (snd (oe_http E i rq s')) src \<noteq> None" if "attempt_request E C (the_call ''PUT'' rq (emptySHA256 E) ?x None) i = Inr rq"
    "addressed E C k rq" "ov s' src \<noteq> None" for i rq s'
    using object_serviceD(2)[OF assms(1) that(2) the_call_request(1)[OF that(1)], of src s' i] the_call_request(3)[OF that(1)] that(3)
    by (auto simp: effect_def copy_of_def split: option.splits if_splits)
  from call_dependable[where P = "\<lambda>x. ov x src \<noteq> None", OF assms(2,3) _ p assms(4) step] obtain r rq i s' where r: "res = Inr r" and
    a: "ov s' src \<noteq> None" "attempt_request E C (the_call ''PUT'' rq (emptySHA256 E) ?x None) i = Inr rq" "answers_well E C k rq s' r" by blast
  from the_call_request(1,3)[OF a(2)] a(1,3) have "copy_good E r" by (auto simp: answers_well_def)
  with p r show ?thesis by (simp add: R2Client_def succeeds_def CopyObject_def copy_good_def)
qed

lemma dependable_delete:
  assumes "object_service E C" and "dependable E C" and "cl_attempts C = 4"
  shows "fst (rd_delete (R2Client E C prefix lt now fr) k s)"
proof -
  obtain res w' where p: "call_object E C ''DELETE'' k (emptySHA256 E) [] None (fresh_world s) = (res, w')" by fastforce
  from call_dependable[where P = "\<lambda>_. True", OF assms(2,3) _ p] obtain r rq i s' where r: "res = Inr r" and
    a: "attempt_request E C (the_call ''DELETE'' rq (emptySHA256 E) [] None) i = Inr rq" "answers_well E C k rq s' r" by blast
  from the_call_request(1)[OF a(1)] a(2) have "delete_good r" by (simp add: answers_well_def)
  with p r show ?thesis by (auto simp: R2Client_def succeeds_def DeleteObject_def delete_good_def)
qed

section \<open>Properties\<close>

text \<open>C27: The retries of a call are bounded.  A call sends at most four requests, all with the method and the digest of the body
  that the caller gave; it pauses at most three times, each time at least a quarter of a second and together less than
  2.1875 seconds; and the answer it returns is never one that is worth a retry.\<close>

theorem retries_bounded:
  assumes "NewClient cfg = Some C" and "\<And>k m. 0 < m \<Longrightarrow> 0 \<le> oe_rand E k m \<and> oe_rand E k m < m"
    and "do_call E C q w = (res, w')"
  shows "\<exists>qs bs. nw_sent w' = nw_sent w @ qs \<and> nw_slept w' = nw_slept w @ bs \<and> length qs \<le> 4 \<and> length bs \<le> 3 \<and>
    sum_list bs < 2187500000 \<and> (\<forall>b \<in> set bs. 250000000 \<le> b) \<and>
    (\<forall>rq \<in> set qs. sq_method rq = sc_method q \<and> (''x-amz-content-sha256'', sc_hash q) \<in> set (sq_headers rq)) \<and>
    (\<forall>r. res = Inr r \<longrightarrow> qs \<noteq> [] \<and> \<not> retryableStatus (hr_status r))"
proof -
  from assms(3) NewClient_attempts[OF assms(1)] have "send_attempts E C q 4 1 w = (res, w')" by (simp add: do_call_def)
  from attempts_log[OF this] obtain qs m where h: "nw_sent w' = nw_sent w @ qs" "nw_slept w' = nw_slept w @ map (backoff E) [1..<1 + m]"
    "length qs \<le> 4" "m < 4" "\<forall>rq \<in> set qs. \<exists>i. attempt_request E C q i = Inr rq"
    "\<forall>r. res = Inr r \<longrightarrow> qs \<noteq> [] \<and> \<not> retryableStatus (hr_status r)" by auto
  have "250000000 \<le> backoff E k" for k
  proof -
    have "1 \<le> (2 :: int) ^ (k - 1)" by simp
    then show ?thesis using backoff_bound(1)[OF assms(2), of k] by linarith
  qed
  moreover have "sq_method rq = sc_method q \<and> (''x-amz-content-sha256'', sc_hash q) \<in> set (sq_headers rq)" if "rq \<in> set qs" for rq
    using h(5) that attempt_requestD(1,9) by (metis prod_cases3)
  ultimately show ?thesis
    using h three_pauses[OF assms(2) h(4)] by (intro exI[of _ qs] exI[of _ "map (backoff E) [1..<1 + m]"]) auto
qed

lemma incoming_not_final: "incomingKey D i \<noteq> finalKey D i"
proof
  assume "incomingKey D i = finalKey D i"
  then have "length (incomingKey D i) = length (finalKey D i)" by simp
  then show False by (simp add: incomingKey_def finalKey_def)
qed

text \<open>The phases of a delivery that was accepted.\<close>

lemma Deliver_Inr:
  assumes "Deliver sha D b n want i s = (Inr key, s')"
  shows "\<exists>s1 s2 x. rd_put D (incomingKey D i) b s = (True, s1) \<and> rd_copy D (incomingKey D i) (finalKey D i) s1 = (True, s2) \<and>
    key = finalKey D i \<and> rd_delete D (incomingKey D i) s2 = (x, s')"
  using assms by (auto simp: Deliver_def Let_def split: prod.splits if_splits option.splits) (metis prod.collapse)+

lemma Deliver_store:
  assumes "Deliver sha D b n want i s = (res, s')"
  shows "\<exists>ok s1. rd_put D (incomingKey D i) b s = (ok, s1) \<and> (s' = s1 \<or>
    (\<exists>ok2 s2. rd_copy D (incomingKey D i) (finalKey D i) s1 = (ok2, s2) \<and> (s' = s2 \<or> (\<exists>x. rd_delete D (incomingKey D i) s2 = (x, s')))))"
  using assms by (auto simp: Deliver_def Let_def split: prod.splits if_splits option.splits) (metis prod.collapse)+


section \<open>Listings\<close>

text \<open>The pages of the service from a token on.\<close>

inductive pages_of :: "(string option \<Rightarrow> list_page) \<Rightarrow> string option \<Rightarrow> list_page list \<Rightarrow> bool" for srv where
  last: "\<not> lp_truncated (srv t) \<or> lp_next (srv t) = '''' \<Longrightarrow> pages_of srv t [srv t]"
| more: "lp_truncated (srv t) \<Longrightarrow> lp_next (srv t) \<noteq> '''' \<Longrightarrow> pages_of srv (Some (lp_next (srv t))) ps \<Longrightarrow> pages_of srv t (srv t # ps)"

text \<open>An answered list request carries the page of its token.\<close>

definition list_service :: "os_env \<Rightarrow> s3_client \<Rightarrow> string \<Rightarrow> (string option \<Rightarrow> list_page) \<Rightarrow> bool" where
  "list_service E C prefix srv \<longleftrightarrow> (\<forall>n rq s t r.
     endpointURL E C (''/'' @ so_bucket (cl_cfg C)) (Some (list_query prefix t)) = Inr (sq_host rq, sq_path rq, sq_query rq) \<longrightarrow>
     sq_method rq = ''GET'' \<longrightarrow> fst (oe_http E n rq s) = HttpReply r \<longrightarrow> \<not> retryableStatus (hr_status r) \<longrightarrow>
     hr_status r = 200 \<and> hr_complete r \<and> length (hr_body r) \<le> 8388608 \<and> oe_listing E (hr_body r) = Some (srv t))"

lemma list_call_page:
  assumes "list_service E C prefix srv" and "list_call E C prefix t w = (Inr r, w')"
  shows "list_reply E r = Inr (srv t)"
proof -
  obtain h p y where u: "endpointURL E C (''/'' @ so_bucket (cl_cfg C)) (Some (list_query prefix t)) = Inr (h, p, y)"
    using assms(2) by (cases "endpointURL E C (''/'' @ so_bucket (cl_cfg C)) (Some (list_query prefix t))") (auto simp: list_call_def)
  let ?q = "\<lparr>sc_method = ''GET'', sc_url = (h, p, y), sc_hash = emptySHA256 E, sc_extra = [], sc_body = None\<rparr>"
  from assms(2) u have "send_attempts E C ?q (if cl_attempts C = 0 then 4 else cl_attempts C) 1 w = (Inr r, w')"
    by (simp add: list_call_def do_call_def)
  from attempts_inv[where P = "\<lambda>_. True", OF this] obtain i rq s where
    h: "attempt_request E C ?q i = Inr rq" "oe_http E i rq s = (HttpReply r, nw_store w')" "\<not> retryableStatus (hr_status r)" by auto
  from attempt_requestD(1-4)[OF h(1), of h p y] u have
    "endpointURL E C (''/'' @ so_bucket (cl_cfg C)) (Some (list_query prefix t)) = Inr (sq_host rq, sq_path rq, sq_query rq)"
    "sq_method rq = ''GET''" by simp_all
  with assms(1) h(2,3) have "hr_status r = 200 \<and> hr_complete r \<and> length (hr_body r) \<le> 8388608 \<and> oe_listing E (hr_body r) = Some (srv t)"
    unfolding list_service_def by (metis fst_conv)
  then show ?thesis by (simp add: list_reply_def)
qed

lemma list_pages_follow:
  assumes "pages_of srv t ps" and "list_service E C prefix srv" and "list_pages E C prefix n t acc w = (Inr os, w')"
  shows "os = acc @ concat (map lp_contents (take n ps))"
  using assms(1,3)
proof (induction arbitrary: n acc w rule: pages_of.induct)
  case (last t)
  show ?case
  proof (cases n)
    case 0
    with last show ?thesis by simp
  next
    case (Suc m)
    with last(2) obtain r w1 where c: "list_call E C prefix t w = (Inr r, w1)" by (auto split: prod.splits sum.splits)
    with last Suc list_call_page[OF assms(2) c] show ?thesis by (auto simp: Let_def)
  qed
next
  case (more t ps)
  show ?case
  proof (cases n)
    case 0
    with more.prems show ?thesis by simp
  next
    case (Suc m)
    with more.prems obtain r w1 where c: "list_call E C prefix t w = (Inr r, w1)" by (auto split: prod.splits sum.splits)
    show ?thesis
    proof (cases "m = 0")
      case True
      with more.prems more.hyps Suc c list_call_page[OF assms(2) c] show ?thesis by (simp add: Let_def)
    next
      case False
      with more.prems more.hyps(1,2) Suc c list_call_page[OF assms(2) c]
      have "list_pages E C prefix m (Some (lp_next (srv t))) (acc @ lp_contents (srv t)) w1 = (Inr os, w')" by (simp add: Let_def)
      from more.IH[OF this] Suc show ?thesis by simp
    qed
  qed
qed

text \<open>A listing is what the service holds.  When a listing succeeds it returns the entries of the pages of the service in their
  order, every entry of every page up to the 1001st once; so it is complete unless the service has more pages than that, and
  what comes after them is left out without an error.\<close>

theorem listing_follows_pages:
  assumes "list_service E C prefix srv" and "pages_of srv None ps" and "ListObjects E C prefix w = (Inr os, w')"
  shows "os = concat (map lp_contents (take 1001 ps)) \<and> (length ps \<le> 1001 \<longrightarrow> os = concat (map lp_contents ps))"
proof -
  have "os = concat (map lp_contents (take 1001 ps))"
    using list_pages_follow[OF assms(2,1), of 1001 "[]"] assms(3) by (simp add: ListObjects_def maxListPages_def)
  then show ?thesis by simp
qed

end
