(* ===== verification/ObjectWitness.thy ===== *)
theory ObjectWitness
  imports ObjectSafety
begin

text \<open>
  Samples of the object store client: a service in memory that loses the first answer of every call, with keys decoded from
  the escaped path, and a listing of two pages.
\<close>

section \<open>Keys survive escaping\<close>

fun unhex :: "char \<Rightarrow> nat" where
  "unhex c = (if is_digit c then of_char c - 48 else of_char c - 55)"

fun unescape :: "string \<Rightarrow> string" where
  "unescape [] = []"
| "unescape (c # cs) =
    (if c = CHR ''%'' then (case cs of a # b # r \<Rightarrow> char_of (unhex a * 16 + unhex b) # unescape (drop 2 cs) | _ \<Rightarrow> c # unescape cs)
     else c # unescape cs)"

lemma unhex_upper: "d < 16 \<Longrightarrow> unhex (hex_upper d) = d"
proof -
  have "list_all (\<lambda>d. unhex (hex_upper d) = d) [0..<16]" by code_simp
  then show "d < 16 \<Longrightarrow> unhex (hex_upper d) = d" by (simp add: list_all_iff)
qed

lemma unescape_percent: "unescape (percent c @ r) = c # unescape r"
proof -
  have lt: "(of_char c :: nat) < 256" by (metis of_char_of nat_of_char_less_256 char_of_take_bit_eq of_char_mod_256 order_refl)
  then have "unhex (hex_upper (of_char c div 16)) * 16 + unhex (hex_upper (of_char c mod 16)) = of_char c"
    by (simp only: unhex_upper) simp
  then show ?thesis by (simp add: percent_def del: unhex.simps)
qed

lemma unreserved_not_percent: "unreserved c \<or> c \<in> set ''$&+=:@/'' \<Longrightarrow> c \<noteq> CHR ''%''"
  by (auto simp: unreserved_def is_alnum_def is_digit_def)

definition key_char_path :: "char \<Rightarrow> string" where
  "key_char_path c = (if c = CHR ''/'' then [c] else path_char c)"

lemma unescape_key_char: "unescape (key_char_path c @ r) = c # unescape r"
  using unreserved_not_percent[of c] by (auto simp: key_char_path_def path_char_def unescape_percent)

lemma escapeKey_chars: "escapeKey k = concat (map key_char_path k)"
proof (induction k)
  case Nil
  then show ?case by (simp add: escapeKey_def PathEscape_def)
next
  case (Cons c k)
  obtain y ys where y: "split_on (CHR ''/'') k = y # ys" by (meson neq_Nil_conv split_on_nonempty)
  with Cons show ?case by (cases ys) (auto simp: escapeKey_def PathEscape_def key_char_path_def)
qed

lemma unescape_escapeKey: "unescape (escapeKey k) = k"
  unfolding escapeKey_chars by (induction k) (simp_all add: unescape_key_char)

lemma escapeKey_inj: "escapeKey a = escapeKey b \<Longrightarrow> a = b"
  by (metis unescape_escapeKey)

section \<open>A service in memory\<close>

definition s3_reply :: "nat \<Rightarrow> bytes \<Rightarrow> http_reply" where
  "s3_reply st b = \<lparr>hr_status = st, hr_length = int (length b), hr_header = (\<lambda>_. ''''), hr_body = b, hr_complete = True\<rparr>"

text \<open>The first answer of a call is lost.\<close>

definition lossy :: "nat \<Rightarrow> http_reply \<Rightarrow> http_outcome" where
  "lossy n r = (if n = 0 then NetFailed else HttpReply r)"

definition key_of_path :: "string \<Rightarrow> string" where "key_of_path p = unescape (drop 3 p)"

definition memory_http :: "nat \<Rightarrow> s3_request \<Rightarrow> r2_store \<Rightarrow> http_outcome \<times> r2_store" where
  "memory_http n q s =
    (let k = key_of_path (sq_path q) in
     if sq_path q = ''/b'' then
       (lossy n (s3_reply 200 (if sq_query q = query_encode (list_query ''p'' None) then [0] else [1])), s)
     else if sq_method q = ''PUT'' then
       (case copy_source q of
          None \<Rightarrow> (lossy n (s3_reply 200 []), (k, case sq_body q of None \<Rightarrow> [] | Some b \<Rightarrow> b, 0) # s)
        | Some src \<Rightarrow> (case ov s (key_of_path src) of
             None \<Rightarrow> (lossy n (s3_reply 404 []), s)
           | Some b \<Rightarrow> (lossy n (s3_reply 200 []), (k, b, 0) # s)))
     else if sq_method q = ''DELETE'' then (lossy n (s3_reply 204 []), filter (\<lambda>e. fst e \<noteq> k) s)
     else (case ov s k of None \<Rightarrow> (lossy n (s3_reply 404 []), s) | Some b \<Rightarrow> (lossy n (s3_reply 200 b), s)))"

definition first_page :: list_page where
  "first_page = \<lparr>lp_contents = [(''p/a'', 1, 0)], lp_truncated = True, lp_next = ''t''\<rparr>"

definition second_page :: list_page where
  "second_page = \<lparr>lp_contents = [(''p/b'', 2, 0)], lp_truncated = False, lp_next = ''''\<rparr>"

definition memory_env :: os_env where
  "memory_env = \<lparr>oe_url = (\<lambda>u. if has_prefix ''https://h'' u then Some (''h'', drop 9 u, '''') else None),
     oe_request = (\<lambda>_ _ _. True), oe_sha = (\<lambda>b. b), oe_hmac = (\<lambda>k b. k @ b), oe_stamp = (\<lambda>_. ''20260101T000000Z''),
     oe_rand = (\<lambda>_ _. 0), oe_awake = (\<lambda>_. True), oe_http = memory_http, oe_time = (\<lambda>_. None), oe_copy_error = (\<lambda>_. None),
     oe_listing = (\<lambda>b. Some (if b = [0] then first_page else second_page))\<rparr>"

definition memory_config :: s3_config where
  "memory_config = \<lparr>so_endpoint = ''https://h/'', so_region = '''', so_bucket = ''b'', so_access = ''a'', so_secret = ''s'', so_timeout = 0\<rparr>"

definition memory_client :: s3_client where
  "memory_client = \<lparr>cl_cfg = memory_config\<lparr>so_region := ''auto''\<rparr>, cl_timeout = 60 * second_ns, cl_attempts = 4\<rparr>"

lemma memory_client_new: "NewClient memory_config = Some memory_client"
  by (simp add: NewClient_def memory_config_def memory_client_def)

lemma memory_client_attempts: "cl_attempts memory_client = 4"
  by (simp add: memory_client_def)

lemma memory_endpoint: "endpointURL memory_env memory_client path q =
    Inr (''h'', path, case q of None \<Rightarrow> '''' | Some l \<Rightarrow> query_encode l)"
  by (simp add: endpointURL_def memory_env_def memory_client_def memory_config_def trim_suffix_def has_suffix_def)

lemma object_path_key: "object_path memory_client k = ''/b/'' @ escapeKey k" "key_of_path (object_path memory_client k) = k"
  by (simp_all add: object_path_def key_of_path_def memory_client_def memory_config_def unescape_escapeKey)

lemma memory_addressed:
  assumes "addressed memory_env memory_client k q"
  shows "key_of_path (sq_path q) = k" and "sq_path q \<noteq> ''/b''"
  using assms object_path_key[of k] by (auto simp: addressed_def memory_endpoint)

lemma ov_simps: "ov ((k, b, t) # s) = (ov s)(k \<mapsto> b)" "ov (filter (\<lambda>e. fst e \<noteq> k) s) = (ov s)(k := None)"
proof -
  show "ov ((k, b, t) # s) = (ov s)(k \<mapsto> b)" by (simp add: ov_def)
  show "ov (filter (\<lambda>e. fst e \<noteq> k) s) = (ov s)(k := None)"
    by (induction s) (auto simp: ov_def fun_eq_iff)
qed

lemma lossy_reply: "lossy n r = HttpReply x \<longleftrightarrow> n \<noteq> 0 \<and> x = r"
  by (auto simp: lossy_def)

lemma s3_reply_simps [simp]: "hr_status (s3_reply st b) = st" "hr_body (s3_reply st b) = b" "hr_complete (s3_reply st b)"
  "hr_length (s3_reply st b) = int (length b)"
  by (simp_all add: s3_reply_def)

lemma memory_service: "object_service memory_env memory_client"
  unfolding object_service_def
proof (intro allI impI)
  fix n q s k assume a: "addressed memory_env memory_client k q"
  note k = memory_addressed[OF a]
  have h: "oe_http memory_env = memory_http" by (simp add: memory_env_def)
  show "(\<forall>b. sq_method q = ''PUT'' \<longrightarrow> copy_source q = None \<longrightarrow> sq_body q = Some b \<longrightarrow>
        effect (put_of k b) put_good s (oe_http memory_env n q s)) \<and>
     (\<forall>src. sq_method q = ''PUT'' \<longrightarrow> copy_source q = Some (object_path memory_client src) \<longrightarrow>
        effect (copy_of src k) (copy_good memory_env) s (oe_http memory_env n q s)) \<and>
     (sq_method q = ''DELETE'' \<longrightarrow> effect (delete_of k) delete_good s (oe_http memory_env n q s)) \<and>
     (sq_method q = ''GET'' \<or> sq_method q = ''HEAD'' \<longrightarrow> ov (snd (oe_http memory_env n q s)) = ov s) \<and>
     (\<forall>r. sq_method q = ''GET'' \<longrightarrow> fst (oe_http memory_env n q s) = HttpReply r \<longrightarrow> hr_status r = 200 \<longrightarrow> hr_complete r \<longrightarrow>
        ov s k = Some (hr_body r)) \<and>
     (\<forall>r. sq_method q = ''HEAD'' \<longrightarrow> fst (oe_http memory_env n q s) = HttpReply r \<longrightarrow> hr_status r = 200 \<longrightarrow>
        (\<exists>b. ov s k = Some b \<and> hr_length r = int (length b)))"
    unfolding h
    by (auto simp: memory_http_def Let_def k object_path_key(2) effect_def put_of_def copy_of_def delete_of_def ov_simps lossy_reply
        copy_good_def split: option.split option.split_asm)
qed

lemma memory_dependable: "dependable memory_env memory_client"
  unfolding dependable_def
proof (intro conjI allI impI)
  fix n k rq s r assume a: "addressed memory_env memory_client k rq" and o: "fst (oe_http memory_env n rq s) = HttpReply r"
  note k = memory_addressed[OF a]
  have h: "oe_http memory_env = memory_http" "oe_copy_error memory_env = (\<lambda>_. None)" by (simp_all add: memory_env_def)
  show "answers_well memory_env memory_client k rq s r"
    using o unfolding h
    by (auto simp: answers_well_def memory_http_def Let_def k object_path_key(2) lossy_reply put_good_def copy_good_def delete_good_def h
        split: option.split_asm if_split_asm)
next
  fix rq s show "settled (fst (oe_http memory_env 3 rq s)) \<noteq> None"
    by (auto simp: memory_env_def memory_http_def Let_def lossy_def retryableStatus_def split: option.split)
next
  fix n rq s show "fst (oe_http memory_env n rq s) \<noteq> NetCanceled"
    by (auto simp: memory_env_def memory_http_def Let_def lossy_def split: option.split)
qed (auto simp: memory_endpoint, simp_all add: memory_env_def)

section \<open>The properties on the samples\<close>

theorem retries_bounded_witness:
  "\<exists>qs. nw_sent (snd (do_call memory_env memory_client (the_call ''GET'' \<lparr>sq_method = '''', sq_host = ''h'', sq_path = ''/b/k'', sq_query = '''',
      sq_headers = [], sq_auth = '''', sq_body = None, sq_length = 0\<rparr> '''' [] None) (fresh_world []))) = qs \<and> length qs \<le> 4"
proof -
  let ?q = "the_call ''GET'' \<lparr>sq_method = '''', sq_host = ''h'', sq_path = ''/b/k'', sq_query = '''',
      sq_headers = [], sq_auth = '''', sq_body = None, sq_length = 0\<rparr> '''' [] None"
  obtain res w' where c: "do_call memory_env memory_client ?q (fresh_world []) = (res, w')" by fastforce
  have "0 < m \<Longrightarrow> 0 \<le> oe_rand memory_env k m \<and> oe_rand memory_env k m < m" for k m by (simp add: memory_env_def)
  from retries_bounded[OF memory_client_new this c] have "length (nw_sent w') \<le> 4" by (auto simp: fresh_world_def)
  then show ?thesis by (simp only: c snd_conv) blast
qed


definition two_pages :: "string option \<Rightarrow> list_page" where
  "two_pages t = (if query_encode (list_query ''p'' t) = query_encode (list_query ''p'' None) then first_page else second_page)"

lemma memory_bucket: "so_bucket (cl_cfg memory_client) = ''b''"
  by (simp add: memory_client_def memory_config_def)

lemma memory_lists: "list_service memory_env memory_client ''p'' two_pages"
  unfolding list_service_def
proof (intro allI impI)
  fix n rq s t r
  assume "endpointURL memory_env memory_client (''/'' @ so_bucket (cl_cfg memory_client)) (Some (list_query ''p'' t)) =
      Inr (sq_host rq, sq_path rq, sq_query rq)" and o: "fst (oe_http memory_env n rq s) = HttpReply r"
  then have "sq_path rq = ''/b''" "sq_query rq = query_encode (list_query ''p'' t)"
    using memory_bucket by (simp_all add: memory_endpoint)
  with o have "r = s3_reply 200 (if query_encode (list_query ''p'' t) = query_encode (list_query ''p'' None) then [0] else [1])"
    by (simp add: memory_env_def memory_http_def lossy_reply)
  then show "hr_status r = 200 \<and> hr_complete r \<and> length (hr_body r) \<le> 8388608 \<and> oe_listing memory_env (hr_body r) = Some (two_pages t)"
    by (simp add: two_pages_def memory_env_def)
qed

lemma two_pages_simps: "two_pages None = first_page" "two_pages (Some ''t'') = second_page"
proof -
  show "two_pages None = first_page" by (simp add: two_pages_def)
  have "query_encode (list_query ''p'' (Some ''t'')) \<noteq> query_encode (list_query ''p'' None)" by code_simp
  then show "two_pages (Some ''t'') = second_page" by (simp add: two_pages_def)
qed

lemma two_pages_chain: "pages_of two_pages None [first_page, second_page]"
proof -
  have "pages_of two_pages (Some ''t'') [two_pages (Some ''t'')]"
    by (rule pages_of.last) (simp add: two_pages_simps second_page_def)
  then have "pages_of two_pages None (two_pages None # [second_page])"
    by (intro pages_of.more) (simp_all add: two_pages_simps first_page_def)
  then show ?thesis by (simp add: two_pages_simps)
qed

definition page_reply_of :: "string option \<Rightarrow> http_reply" where
  "page_reply_of t = s3_reply 200 (if query_encode (list_query ''p'' t) = query_encode (list_query ''p'' None) then [0] else [1])"

lemma memory_attempts:
  assumes "\<And>n. \<exists>rq. attempt_request memory_env memory_client q n = Inr rq \<and> (\<forall>s. oe_http memory_env n rq s = (lossy n R, s))"
    and "\<not> retryableStatus (hr_status R)"
  shows "\<exists>w1. send_attempts memory_env memory_client q (Suc (Suc m)) k w = (Inr R, w1)"
proof -
  have a: "oe_awake memory_env k" by (simp add: memory_env_def)
  obtain rq where r: "attempt_request memory_env memory_client q (length (nw_sent w)) = Inr rq"
    "oe_http memory_env (length (nw_sent w)) rq s = (lossy (length (nw_sent w)) R, s)" for s using assms(1) by blast
  obtain rq2 where r2: "attempt_request memory_env memory_client q (Suc (length (nw_sent w))) = Inr rq2"
    "oe_http memory_env (Suc (length (nw_sent w))) rq2 s = (lossy (Suc (length (nw_sent w))) R, s)" for s using assms(1) by blast
  show ?thesis
  proof (cases "nw_sent w = []")
    case True
    with r r2 a assms(2) show ?thesis by (simp add: send_def lossy_def Let_def)
  next
    case False
    with r assms(2) show ?thesis by (simp add: send_def lossy_def)
  qed
qed

lemma memory_list_call: "\<exists>w1. list_call memory_env memory_client ''p'' t w = (Inr (page_reply_of t), w1)"
proof -
  let ?q = "\<lparr>sc_method = ''GET'', sc_url = (''h'', ''/b'', query_encode (list_query ''p'' t)), sc_hash = emptySHA256 memory_env,
      sc_extra = [], sc_body = None\<rparr>"
  have "\<exists>rq. attempt_request memory_env memory_client ?q n = Inr rq \<and> (\<forall>s. oe_http memory_env n rq s = (lossy n (page_reply_of t), s))" for n
  proof -
    obtain rq where a: "attempt_request memory_env memory_client ?q n = Inr rq"
      by (auto simp: attempt_request_def open_body_def signedRequest_def Let_def memory_env_def)
    have "oe_http memory_env n rq s = (lossy n (page_reply_of t), s)" for s
      using attempt_requestD(3,4)[OF a, of "''h''" "''/b''"] by (simp add: memory_env_def memory_http_def page_reply_of_def)
    with a show ?thesis by blast
  qed
  from memory_attempts[of ?q, OF this, of 2 1 w] show ?thesis
    by (simp add: list_call_def do_call_def memory_endpoint memory_bucket memory_client_attempts page_reply_of_def retryableStatus_def
        numeral_eq_Suc)
qed

lemma two_pages_listed: "\<exists>os. fst (ListObjects memory_env memory_client ''p'' (fresh_world [])) = Inr os"
proof -
  have m: "maxListPages = Suc (Suc 999)" by (simp add: maxListPages_def)
  have l: "list_reply memory_env (page_reply_of t) = Inr (two_pages t)" for t
    by (simp add: list_reply_def page_reply_of_def two_pages_def memory_env_def)
  obtain w1 where c1: "list_call memory_env memory_client ''p'' None (fresh_world []) = (Inr (page_reply_of None), w1)"
    using memory_list_call by blast
  obtain w2 where c2: "list_call memory_env memory_client ''p'' (Some ''t'') w1 = (Inr (page_reply_of (Some ''t'')), w2)"
    using memory_list_call by blast
  have "fst (list_pages memory_env memory_client ''p'' (Suc (Suc n)) None [] (fresh_world [])) =
      Inr [(''p/a'', 1, 0), (''p/b'', 2, 0)]" for n
    by (simp add: c1 l two_pages_simps first_page_def c2 Let_def) (simp add: second_page_def)
  from this[of 999] show ?thesis unfolding ListObjects_def m by blast
qed

theorem listing_follows_pages_witness:
  "fst (ListObjects memory_env memory_client ''p'' (fresh_world [])) = Inr [(''p/a'', 1, 0), (''p/b'', 2, 0)]"
proof -
  obtain os w' where l: "ListObjects memory_env memory_client ''p'' (fresh_world []) = (Inr os, w')"
    using two_pages_listed by (metis prod.collapse)
  from listing_follows_pages[OF memory_lists two_pages_chain l] l show ?thesis
    by (simp add: first_page_def second_page_def)
qed

end
