(* ===== verification/Settings.thy ===== *)
theory Settings
  imports ObjectStore Http
begin

text \<open>
  \<open>settings/service.go\<close> and \<open>backup/r2resolve.go\<close>: the runtime settings that an administrator may change, and the object
  store delivery that is built from them and from the credentials of the deployment.  The JSON of the settings,
  \<open>url.Parse\<close>, environment variables and files are parameters.
\<close>

section \<open>Settings\<close>

record runtime_settings =
  rs_endpoint :: string
  rs_bucket :: string
  rs_prefix :: string

definition settingsKey :: string where "settingsKey = ''settings.runtime''"

record settings_env =
  sn_url :: "string \<Rightarrow> url option"
  sn_json :: "runtime_settings \<Rightarrow> string"
  sn_parse :: "string \<Rightarrow> runtime_settings option"

datatype settings_error = BadEndpoint | BadBucket | BadPrefix | SettingsStore | SettingsParse

text \<open>The patterns \<open>[a-zA-Z0-9][a-zA-Z0-9._-]{1,62}\<close> and \<open>[a-zA-Z0-9][a-zA-Z0-9/._-]{0,120}\<close>, on the whole text.\<close>

definition bucketPattern :: "string \<Rightarrow> bool" where
  "bucketPattern s \<longleftrightarrow> (case s of [] \<Rightarrow> False | c # cs \<Rightarrow>
     is_alnum c \<and> list_all (\<lambda>x. is_alnum x \<or> x \<in> set ''._-'') cs \<and> 1 \<le> length cs \<and> length cs \<le> 62)"

definition prefixPattern :: "string \<Rightarrow> bool" where
  "prefixPattern s \<longleftrightarrow> (case s of [] \<Rightarrow> False | c # cs \<Rightarrow>
     is_alnum c \<and> list_all (\<lambda>x. is_alnum x \<or> x \<in> set ''/._-'') cs \<and> length cs \<le> 120)"

definition endpoint_ok :: "settings_env \<Rightarrow> string \<Rightarrow> bool" where
  "endpoint_ok N s \<longleftrightarrow> (case sn_url N s of None \<Rightarrow> False | Some u \<Rightarrow> ur_scheme u = ''https'' \<and> ur_host u \<noteq> '''')"

definition validate_settings :: "settings_env \<Rightarrow> runtime_settings \<Rightarrow> settings_error + unit" where
  "validate_settings N st =
    andthen (ensure (rs_endpoint st = '''' \<or> endpoint_ok N (rs_endpoint st)) BadEndpoint) (\<lambda>_.
    andthen (ensure (rs_bucket st = '''' \<or> bucketPattern (rs_bucket st)) BadBucket) (\<lambda>_.
    ensure (rs_prefix st = '''' \<or> prefixPattern (rs_prefix st)) BadPrefix))"

definition empty_settings :: runtime_settings where
  "empty_settings = \<lparr>rs_endpoint = '''', rs_bucket = '''', rs_prefix = ''''\<rparr>"

text \<open>\<open>ok\<close>: the statement succeeds.\<close>

definition GetSettings :: "settings_env \<Rightarrow> bool \<Rightarrow> db \<Rightarrow> settings_error + runtime_settings" where
  "GetSettings N ok d =
    (if \<not> ok then Inl SettingsStore
     else case kv_get settingsKey (settings d) of None \<Rightarrow> Inr empty_settings
     | Some raw \<Rightarrow> from_option SettingsParse (sn_parse N raw))"

definition UpdateSettings :: "settings_env \<Rightarrow> bool \<Rightarrow> runtime_settings \<Rightarrow> db \<Rightarrow> settings_error + db" where
  "UpdateSettings N ok st d =
    andthen (validate_settings N st) (\<lambda>_.
    andthen (ensure ok SettingsStore) (\<lambda>_.
    Inr (d\<lparr>settings := kv_put settingsKey (sn_json N st) (settings d)\<rparr>)))"

section \<open>Credentials and the delivery\<close>

datatype secret_file = Absent | Unreadable | Content string

definition ReadOptionalSecretFile :: "secret_file \<Rightarrow> unit + string" where
  "ReadOptionalSecretFile f = (case f of Absent \<Rightarrow> Inr '''' | Unreadable \<Rightarrow> Inl () | Content raw \<Rightarrow> Inr (trim_space raw))"

text \<open>A credential: its environment variable and its file.\<close>

type_synonym credential = "string \<times> secret_file"

definition readR2Credential :: "credential \<Rightarrow> unit + string" where
  "readR2Credential c =
    (let v = trim_space (fst c) in if v \<noteq> '''' then Inr v else ReadOptionalSecretFile (snd c))"

definition DefaultR2Prefix :: string where "DefaultR2Prefix = ''tiny-password''"

datatype resolve_error = ResolveSettings settings_error | ResolveCredential | ResolveClient

definition resolved_config :: "runtime_settings \<Rightarrow> string \<Rightarrow> string \<Rightarrow> s3_config" where
  "resolved_config st access secret = \<lparr>so_endpoint = rs_endpoint st, so_region = ''auto'', so_bucket = rs_bucket st,
     so_access = access, so_secret = secret, so_timeout = 0\<rparr>"

definition NewSettingsR2Resolver ::
  "settings_env \<Rightarrow> os_env \<Rightarrow> bool \<Rightarrow> credential \<Rightarrow> credential \<Rightarrow> time \<Rightarrow> string \<Rightarrow> db \<Rightarrow> resolve_error + r2_delivery option" where
  "NewSettingsR2Resolver N E ok access secret now fresh d =
    andthen (map_err ResolveSettings (GetSettings N ok d)) (\<lambda>st.
    andthen (map_err (\<lambda>_. ResolveCredential) (readR2Credential access)) (\<lambda>a.
    andthen (map_err (\<lambda>_. ResolveCredential) (readR2Credential secret)) (\<lambda>k.
    if rs_endpoint st = '''' \<or> rs_bucket st = '''' \<or> a = '''' \<or> k = '''' then Inr None
    else andthen (from_option ResolveClient (NewClient (resolved_config st a k))) (\<lambda>C.
      Inr (Some (R2Client E C (if rs_prefix st = '''' then DefaultR2Prefix else rs_prefix st) 0 now fresh))))))"

definition R2CredentialsPresent :: "credential \<Rightarrow> credential \<Rightarrow> bool" where
  "R2CredentialsPresent access secret \<longleftrightarrow>
     (case readR2Credential access of Inl _ \<Rightarrow> False | Inr a \<Rightarrow> a \<noteq> '''' \<and>
       (case readR2Credential secret of Inl _ \<Rightarrow> False | Inr k \<Rightarrow> k \<noteq> ''''))"

section \<open>Settings take effect\<close>

lemma GetSettings_update:
  assumes "UpdateSettings N True st d = Inr d'" and "sn_parse N (sn_json N st) = Some st"
  shows "GetSettings N True d' = Inr st"
  using assms by (auto simp: UpdateSettings_def GetSettings_def result_Inr)

text \<open>Accepted settings are used by the next delivery.  After an update succeeded, and with both credentials readable, the
  delivery that a run resolves signs for exactly the endpoint and the bucket that were stored, under the stored prefix or the
  default one; without an endpoint, a bucket or a credential there is no delivery and no error; and nothing but the
  one document of the settings changes.\<close>

theorem updated_settings_used:
  assumes "UpdateSettings N True st d = Inr d'" and "sn_parse N (sn_json N st) = Some st"
    and "readR2Credential access = Inr a" and "readR2Credential secret = Inr k"
  shows "NewSettingsR2Resolver N E True access secret now fresh d' =
      (if rs_endpoint st = '''' \<or> rs_bucket st = '''' \<or> a = '''' \<or> k = '''' then Inr None
       else Inr (Some (R2Client E \<lparr>cl_cfg = resolved_config st a k, cl_timeout = 60 * second_ns, cl_attempts = 4\<rparr>
         (if rs_prefix st = '''' then ''tiny-password'' else rs_prefix st) 0 now fresh)))
    \<and> (rs_endpoint st = '''' \<or> endpoint_ok N (rs_endpoint st))
    \<and> (\<forall>key. key \<noteq> settingsKey \<longrightarrow> kv_get key (settings d') = kv_get key (settings d))
    \<and> d' = d\<lparr>settings := settings d'\<rparr>"
proof -
  from assms(1) have d': "d' = d\<lparr>settings := kv_put settingsKey (sn_json N st) (settings d)\<rparr>"
    and ok: "rs_endpoint st = '''' \<or> endpoint_ok N (rs_endpoint st)"
    by (auto simp: UpdateSettings_def validate_settings_def result_Inr)
  have "NewSettingsR2Resolver N E True access secret now fresh d' =
      (if rs_endpoint st = '''' \<or> rs_bucket st = '''' \<or> a = '''' \<or> k = '''' then Inr None
       else Inr (Some (R2Client E \<lparr>cl_cfg = resolved_config st a k, cl_timeout = 60 * second_ns, cl_attempts = 4\<rparr>
         (if rs_prefix st = '''' then ''tiny-password'' else rs_prefix st) 0 now fresh)))"
    using assms(3,4) by (simp add: NewSettingsR2Resolver_def GetSettings_update[OF assms(1,2)] NewClient_def resolved_config_def
        DefaultR2Prefix_def map_err_def)
  moreover have "\<forall>key. key \<noteq> settingsKey \<longrightarrow> kv_get key (settings d') = kv_get key (settings d)" by (simp add: d')
  ultimately show ?thesis using ok by (simp add: d')
qed

end
