(* ===== verification/AdminApi.thy ===== *)
theory AdminApi
  imports ItemsApi Settings
begin

text \<open>
  \<open>httpapi/backups.go\<close>, \<open>settings.go\<close> and the routes of \<open>audit.go\<close>: backup jobs and runs, the runtime settings, the audit
  log.  The state is the database with the backup tables, the scheduler, and whether a backup run is under way.  Instants of
  the audit filters are compared as instants; the code compares their fixed-width texts.
\<close>

section \<open>State, environment and replies\<close>

record admin_api =
  dm_net :: net_env
  dm_auth :: auth_env
  dm_cursor :: cursor_codec
  dm_sched :: sched_env
  dm_settings :: settings_env
  dm_audit :: "audit_env option"
  dm_has_sched :: bool
  dm_pass :: string
  dm_dir :: string
  dm_r2 :: "(db \<Rightarrow> resolve_error + r2_delivery option) option"
  dm_time :: "string \<Rightarrow> time option"
  dm_version :: string
  dm_ready :: "((string \<times> bool) list \<times> bool) option"
  dm_present :: bool

record admin_state =
  as_db :: backup_db
  as_sched :: sched
  as_run :: "run_input option"

text \<open>What one request meets: the clock, and whether the transaction begins and commits and the settings statement succeeds.\<close>

record admin_chance =
  xn_now :: time
  xn_begin :: bool
  xn_commit :: bool
  xn_settings :: bool

record settings_view =
  sw_version :: string
  sw_ready :: bool
  sw_checks :: "(string \<times> bool) list"
  sw_settings :: runtime_settings
  sw_present :: bool
  sw_results :: "(string \<times> run_result) list"

datatype admin_reply = DJobs "(job_config \<times> bool) list" | DRuns "run_row list \<times> string option" | DUpdated | DStarted
  | DSettings settings_view | DAudit "audit_row list \<times> string option"

type_synonym admin_handled = "admin_reply resp \<times> admin_state"

section \<open>Backup jobs\<close>

definition resolveR2 :: "admin_api \<Rightarrow> db \<Rightarrow> resolve_error + r2_delivery option" where
  "resolveR2 A d = (case dm_r2 A of None \<Rightarrow> Inr None | Some f \<Rightarrow> f d)"

definition delivery_ready :: "admin_api \<Rightarrow> db \<Rightarrow> job_config \<Rightarrow> bool" where
  "delivery_ready A d c =
    (if jc_target c = TargetR2 then (case resolveR2 A d of Inr (Some D) \<Rightarrow> True | _ \<Rightarrow> False) else dm_dir A \<noteq> '''')"

definition backup_jobs :: "admin_api \<Rightarrow> admin_state \<Rightarrow> admin_handled" where
  "backup_jobs A s = (let (cs, d) = LoadJobConfigs (as_db s) in
     (Reply 200 (DJobs (map (\<lambda>c. (c, delivery_ready A (bd_main d) c)) cs)), s\<lparr>as_db := d\<rparr>))"

record job_input =
  ji_target :: string
  ji_enabled :: bool
  ji_time :: string
  ji_tz :: string
  ji_daily :: "int option"
  ji_weekly :: "int option"
  ji_monthly :: "int option"

definition derefOr :: "int option \<Rightarrow> int \<Rightarrow> int" where
  "derefOr v fallback = (case v of None \<Rightarrow> fallback | Some n \<Rightarrow> n)"

definition job_update_of :: "job_input \<Rightarrow> job_config" where
  "job_update_of i = \<lparr>jc_target = ji_target i, jc_enabled = ji_enabled i, jc_time = ji_time i, jc_tz = ji_tz i,
     jc_daily = derefOr (ji_daily i) 7, jc_weekly = derefOr (ji_weekly i) 4, jc_monthly = derefOr (ji_monthly i) 6\<rparr>"

definition config_event :: "principal \<Rightarrow> job_config \<Rightarrow> string \<Rightarrow> event" where
  "config_event p u result = mk_event ''backup.config.updated'' (p_user p) ''backup'' (jc_target u) result"

text \<open>The event of a refused update is best effort; the one of an accepted update belongs to the transaction.\<close>

definition refused_update :: "admin_api \<Rightarrow> principal \<Rightarrow> job_config \<Rightarrow> backup_db \<Rightarrow> backup_db" where
  "refused_update A p u d =
    (case dm_audit A of None \<Rightarrow> d
     | Some E \<Rightarrow> if jc_target u \<noteq> TargetLocal \<and> jc_target u \<noteq> TargetR2 then d
         else (case Record E (config_event p u ''failure'') (bd_main d) of Inl _ \<Rightarrow> d | Inr m \<Rightarrow> d\<lparr>bd_main := m\<rparr>))"

definition accepted_update :: "admin_api \<Rightarrow> principal \<Rightarrow> job_config \<Rightarrow> backup_db \<Rightarrow> backup_db option" where
  "accepted_update A p u d =
    (case dm_audit A of None \<Rightarrow> Some d
     | Some E \<Rightarrow> (case Record E (config_event p u ''success'') (bd_main d) of Inl _ \<Rightarrow> None | Inr m \<Rightarrow> Some (d\<lparr>bd_main := m\<rparr>)))"

definition reload_backups :: "admin_api \<Rightarrow> admin_state \<Rightarrow> admin_handled" where
  "reload_backups A s =
    (if \<not> dm_has_sched A then (Reply 200 DUpdated, s)
     else let (js, d) = ScheduledJobs (as_db s); s1 = s\<lparr>as_db := d\<rparr> in
       (case ReloadPrefix (dm_sched A) ''backup.'' js (as_sched s1) of
          Inl _ \<Rightarrow> (Problem 500 ''INTERNAL'', s1)
        | Inr sch \<Rightarrow> (Reply 200 DUpdated, s1\<lparr>as_sched := sch\<rparr>)))"

definition update_job :: "admin_api \<Rightarrow> admin_chance \<Rightarrow> principal \<Rightarrow> job_config \<Rightarrow> admin_state \<Rightarrow> admin_handled" where
  "update_job A x p u s =
    (if \<not> xn_begin x then (Problem 500 ''INTERNAL'', s)
     else case updateJobConfig (dm_sched A) u (as_db s) of
       Inl e \<Rightarrow> (Problem 400 ''VALIDATION_ERROR'', s\<lparr>as_db := refused_update A p u (as_db s)\<rparr>)
     | Inr d1 \<Rightarrow> (case accepted_update A p u d1 of
           None \<Rightarrow> (Problem 500 ''INTERNAL'', s)
         | Some d2 \<Rightarrow> if \<not> xn_commit x then (Problem 500 ''INTERNAL'', s) else reload_backups A (s\<lparr>as_db := d2\<rparr>)))"

definition put_backup_job :: "admin_api \<Rightarrow> admin_chance \<Rightarrow> principal \<Rightarrow> job_input body \<Rightarrow> admin_state \<Rightarrow> admin_handled" where
  "put_backup_job A x p b s = (case decodeJSONBody b of Inl resp \<Rightarrow> (resp, s) | Inr i \<Rightarrow> update_job A x p (job_update_of i) s)"

section \<open>Backup runs\<close>

definition known_target :: "string \<Rightarrow> bool" where
  "known_target t \<longleftrightarrow> t = '''' \<or> t = TargetLocal \<or> t = TargetR2"

definition runs_filters :: "string \<Rightarrow> string" where
  "runs_filters target = ''v1:backups-runs:target='' @ target"

text \<open>Position texts of a page request; empty on the first page.\<close>

definition text_position :: "string list \<Rightarrow> string \<times> string" where
  "text_position srt = (case srt of [c, i] \<Rightarrow> (c, i) | _ \<Rightarrow> ('''', ''''))"

definition backup_runs :: "admin_api \<Rightarrow> admin_chance \<Rightarrow> principal \<Rightarrow> (string \<Rightarrow> string) \<Rightarrow> admin_state \<Rightarrow> admin_reply resp" where
  "backup_runs A x p query s =
    (let target = query ''target''; filters = runs_filters target in
     if \<not> known_target target then Problem 400 ''VALIDATION_ERROR''
     else case DecodeCursorParams (dm_cursor A) (xn_now x) (query ''limit'') (query ''cursor'') (p_user p) filters of
       Inl resp \<Rightarrow> resp
     | Inr (srt, limit) \<Rightarrow> (case text_position srt of (c, i) \<Rightarrow>
         Reply 200 (DRuns (page_reply (dm_cursor A) (xn_now x) (p_user p) filters limit (\<lambda>r. (br_started r, br_id r))
           (ListRuns target c i (Suc limit) (as_db s))))))"

fun run_targets :: "admin_api \<Rightarrow> db \<Rightarrow> string list \<Rightarrow> run_input \<Rightarrow> admin_reply resp + run_input" where
  "run_targets A d [] inp = Inr inp"
| "run_targets A d (t # ts) inp =
    (if t = TargetLocal then run_targets A d ts (inp\<lparr>ri_targets := ri_targets inp @ [t]\<rparr>)
     else if t = TargetR2 then
       (case resolveR2 A d of
          Inl _ \<Rightarrow> Inl (Problem 500 ''INTERNAL'')
        | Inr None \<Rightarrow> Inl (Problem 503 ''MAINTENANCE'')
        | Inr (Some D) \<Rightarrow> run_targets A d ts (inp\<lparr>ri_r2 := Some D, ri_targets := ri_targets inp @ [t]\<rparr>))
     else Inl (Problem 400 ''VALIDATION_ERROR''))"

definition run_backup :: "admin_api \<Rightarrow> string list body \<Rightarrow> admin_state \<Rightarrow> admin_handled" where
  "run_backup A b s = (case decodeJSONBody b of Inl resp \<Rightarrow> (resp, s)
    | Inr ts \<Rightarrow> (case run_targets A (bd_main (as_db s)) ts
          \<lparr>ri_targets = [], ri_trigger = TriggerManual, ri_pass = dm_pass A, ri_dir = dm_dir A, ri_r2 = None\<rparr> of
        Inl resp \<Rightarrow> (resp, s)
      | Inr inp \<Rightarrow> (case RunAsync (as_run s \<noteq> None) inp of
            Inl err \<Rightarrow> (if err = [SPassphrase] then Problem 503 ''MAINTENANCE'' else Problem 400 ''VALIDATION_ERROR'', s)
          | Inr started \<Rightarrow> if started then (Reply 202 DStarted, s\<lparr>as_run := Some inp\<rparr>) else (Problem 409 ''BACKUP_BUSY'', s))))"

section \<open>Settings\<close>

definition get_settings :: "admin_api \<Rightarrow> admin_chance \<Rightarrow> admin_state \<Rightarrow> admin_reply resp" where
  "get_settings A x s = (case GetSettings (dm_settings A) (xn_settings x) (bd_main (as_db s)) of
      Inl _ \<Rightarrow> Problem 500 ''INTERNAL''
    | Inr st \<Rightarrow> (case (case dm_ready A of None \<Rightarrow> ([], False) | Some y \<Rightarrow> y) of (checks, ready) \<Rightarrow>
        Reply 200 (DSettings \<lparr>sw_version = dm_version A, sw_ready = ready, sw_checks = checks, sw_settings = st,
          sw_present = dm_present A, sw_results = sc_last (as_sched s)\<rparr>)))"

definition put_settings :: "admin_api \<Rightarrow> admin_chance \<Rightarrow> runtime_settings body \<Rightarrow> admin_state \<Rightarrow> admin_handled" where
  "put_settings A x b s = (case decodeJSONBody b of Inl resp \<Rightarrow> (resp, s)
    | Inr st \<Rightarrow> (case UpdateSettings (dm_settings A) (xn_settings x) st (bd_main (as_db s)) of
        Inl _ \<Rightarrow> (Problem 400 ''VALIDATION_ERROR'', s)
      | Inr d \<Rightarrow> (Reply 200 DUpdated, s\<lparr>as_db := (as_db s)\<lparr>bd_main := d\<rparr>\<rparr>)))"

section \<open>The audit log\<close>

definition activityFilters :: string where "activityFilters = ''v1:activity''"
definition systemFilters :: string where "systemFilters = ''v1:system''"

definition audit_page ::
  "cursor_codec \<Rightarrow> time \<Rightarrow> string \<Rightarrow> string \<Rightarrow> audit_row list \<times> (time \<times> string) option \<Rightarrow> audit_row list \<times> string option" where
  "audit_page C now actor filters pg = (case snd pg of
      None \<Rightarrow> CursorPageResponse C now actor filters (fst pg) '''' ''''
    | Some (t, i) \<Rightarrow> CursorPageResponse C now actor filters (fst pg) (cu_time C t) i)"

definition audit_activity :: "admin_api \<Rightarrow> admin_chance \<Rightarrow> principal \<Rightarrow> (string \<Rightarrow> string) \<Rightarrow> admin_state \<Rightarrow> admin_reply resp" where
  "audit_activity A x p query s =
    (case DecodeCursorParams (dm_cursor A) (xn_now x) (query ''limit'') (query ''cursor'') (p_user p) activityFilters of
       Inl resp \<Rightarrow> resp
     | Inr (srt, limit) \<Rightarrow> Reply 200 (DAudit (audit_page (dm_cursor A) (xn_now x) (p_user p) activityFilters
         (Activity (p_user p) (position (dm_cursor A) srt) limit (bd_main (as_db s))))))"

definition parseAuditTime :: "admin_api \<Rightarrow> string \<Rightarrow> unit + time option" where
  "parseAuditTime A raw = (if raw = '''' then Inr None else case dm_time A raw of None \<Rightarrow> Inl () | Some t \<Rightarrow> Inr (Some t))"

definition stamp_text :: "cursor_codec \<Rightarrow> time option \<Rightarrow> string" where
  "stamp_text C t = (case t of None \<Rightarrow> '''' | Some x \<Rightarrow> cu_time C x)"

definition system_filters :: "cursor_codec \<Rightarrow> string \<Rightarrow> string \<Rightarrow> time option \<Rightarrow> time option \<Rightarrow> string" where
  "system_filters C ev res lo hi =
    systemFilters @ '':event='' @ ev @ '':result='' @ res @ '':from='' @ stamp_text C lo @ '':to='' @ stamp_text C hi"

definition reversed :: "time option \<Rightarrow> time option \<Rightarrow> bool" where
  "reversed lo hi \<longleftrightarrow> (case (lo, hi) of (Some a, Some b) \<Rightarrow> b < a | _ \<Rightarrow> False)"

definition audit_system :: "admin_api \<Rightarrow> admin_chance \<Rightarrow> principal \<Rightarrow> (string \<Rightarrow> string) \<Rightarrow> admin_state \<Rightarrow> admin_reply resp" where
  "audit_system A x p query s =
    (let ev = query ''event''; res = query ''result'' in
     if ev \<noteq> '''' \<and> \<not> ValidEventName ev then Problem 400 ''VALIDATION_ERROR''
     else if res \<noteq> '''' \<and> res \<noteq> ''success'' \<and> res \<noteq> ''failure'' then Problem 400 ''VALIDATION_ERROR''
     else case (parseAuditTime A (query ''from''), parseAuditTime A (query ''to'')) of
       (Inr lo, Inr hi) \<Rightarrow>
         (let filters = system_filters (dm_cursor A) ev res lo hi in
          if reversed lo hi then Problem 400 ''VALIDATION_ERROR''
          else (case DecodeCursorParams (dm_cursor A) (xn_now x) (query ''limit'') (query ''cursor'') (p_user p) filters of
              Inl resp \<Rightarrow> resp
            | Inr (srt, limit) \<Rightarrow> Reply 200 (DAudit (audit_page (dm_cursor A) (xn_now x) (p_user p) filters
                (SystemInRange ev res lo hi (position (dm_cursor A) srt) limit (bd_main (as_db s)))))))
     | _ \<Rightarrow> Problem 400 ''VALIDATION_ERROR'')"

section \<open>The routes\<close>

datatype admin_route = AtJobs | AtPutJob "job_input body" | AtRuns "string \<Rightarrow> string" | AtRun "string list body"
  | AtSettings | AtPutSettings "runtime_settings body" | AtSystem "string \<Rightarrow> string"

fun route_admin :: "admin_api \<Rightarrow> admin_chance \<Rightarrow> principal \<Rightarrow> admin_route \<Rightarrow> admin_state \<Rightarrow> admin_handled" where
  "route_admin A x p AtJobs s = backup_jobs A s"
| "route_admin A x p (AtPutJob b) s = put_backup_job A x p b s"
| "route_admin A x p (AtRuns q) s = (backup_runs A x p q s, s)"
| "route_admin A x p (AtRun b) s = run_backup A b s"
| "route_admin A x p AtSettings s = (get_settings A x s, s)"
| "route_admin A x p (AtPutSettings b) s = put_settings A x b s"
| "route_admin A x p (AtSystem q) s = (audit_system A x p q s, s)"

definition serve_admin :: "admin_api \<Rightarrow> admin_chance \<Rightarrow> request \<Rightarrow> admin_route \<Rightarrow> admin_state \<Rightarrow> admin_handled" where
  "serve_admin A x r route s =
    (case RequireAdmin (dm_net A) (dm_auth A) (xn_now x) False r (bd_main (as_db s)) of
       Inl resp \<Rightarrow> (resp, s) | Inr p \<Rightarrow> route_admin A x p route s)"

definition serve_activity :: "admin_api \<Rightarrow> admin_chance \<Rightarrow> request \<Rightarrow> (string \<Rightarrow> string) \<Rightarrow> admin_state \<Rightarrow> admin_reply resp" where
  "serve_activity A x r query s =
    (case RequireSession (dm_net A) (dm_auth A) (xn_now x) False r (bd_main (as_db s)) of
       Inl resp \<Rightarrow> resp | Inr p \<Rightarrow> audit_activity A x p query s)"

end
