(* ===== verification/AdminSafety.thy ===== *)
theory AdminSafety
  imports AdminApi
begin

text \<open>
  Properties of the administration routes: an update of a backup job reaches the table, the audit log and the scheduler or
  none of them; following the cursors of the audit log lists every matching event once.
\<close>

section \<open>Updates of backup jobs\<close>

lemma scheduled_reload:
  assumes "jobs_ok E (bd_jobs d)" and "ScheduledJobs d = (js, d')"
  shows "jobs_ok E (bd_jobs d') \<and> bd_main d' = bd_main d \<and> js = scheduled_jobs (fst (LoadJobConfigs d)) \<and>
    (\<exists>s'. ReloadPrefix E ''backup.'' js s = Inr s')"
proof -
  have "bd_main (snd (LoadJobConfigs d)) = bd_main d" by (simp add: LoadJobConfigs_def Let_def)
  with jobs_ok_load[OF assms(1)] jobs_ok_reload[OF assms(1), of s] assms(2) show ?thesis
    by (auto simp: ScheduledJobs_def split: prod.splits)
qed

lemma seed_twice: "seed_job TargetR2 (seed_job TargetLocal (seed_job TargetR2 (seed_job TargetLocal t))) = seed_job TargetR2 (seed_job TargetLocal t)"
proof -
  have known: "target \<in> set (map bj_target t) \<Longrightarrow> seed_job target t = t" for target t by (simp add: seed_job_def)
  have "TargetLocal \<in> set (map bj_target (seed_job TargetR2 (seed_job TargetLocal t)))"
    "TargetR2 \<in> set (map bj_target (seed_job TargetR2 (seed_job TargetLocal t)))"
    by (simp_all add: seed_job_def default_job_def)
  then show ?thesis by (simp only: known)
qed

lemma load_keeps_rows:
  "set (bd_jobs d) \<subseteq> set (bd_jobs (snd (LoadJobConfigs d)))"
  "fst (LoadJobConfigs (snd (LoadJobConfigs d))) = fst (LoadJobConfigs d)"
proof -
  show "set (bd_jobs d) \<subseteq> set (bd_jobs (snd (LoadJobConfigs d)))" by (auto simp: LoadJobConfigs_def Let_def seed_job_def)
  show "fst (LoadJobConfigs (snd (LoadJobConfigs d))) = fst (LoadJobConfigs d)"
    by (simp add: LoadJobConfigs_def Let_def seed_twice)
qed

lemma put_job_mem: "row_of_config u \<in> set (put_job (row_of_config u) t)"
  by (auto simp: put_job_def sql_update_def image_iff)

lemma put_job_other:
  assumes "j \<in> set t" and "bj_target j \<noteq> jc_target u"
  shows "j \<in> set (put_job (row_of_config u) t)"
  using assms by (force simp: put_job_def sql_update_def row_of_config_def)


section \<open>Reading the audit log page by page\<close>

text \<open>A listing comes to an end: the positions of \<open>k\<close> requests lead to a page without a next one.\<close>

fun pages_end :: "nat \<Rightarrow> ('p option \<Rightarrow> 'r list \<times> 'p option) \<Rightarrow> 'p option \<Rightarrow> bool" where
  "pages_end 0 f c = False"
| "pages_end (Suc k) f c = (case f c of (rs, None) \<Rightarrow> True | (rs, Some p) \<Rightarrow> pages_end k f (Some p))"

context keyset_listing begin

lemma pages_end_from:
  assumes d: "distinct (map pos t)" and n: "0 < n" and S: "S = filter (sel q) (newest_first pos t)"
    and c: "c = (if j = 0 then None else Some (pos (S ! (j - 1))))" and j: "j \<le> length S" and k: "length S - j < k"
  shows "pages_end k (\<lambda>c. page_and_next pos n (page q c (Suc n) t)) c"
  using c j k
proof (induction k arbitrary: c j)
  case 0
  then show ?case by simp
next
  case (Suc k)
  have page: "page q c (Suc n) t = take (Suc n) (drop j S)"
    using Suc.prems(1,2) S page_after[OF d, of "j - 1" q "Suc n"] by (cases j) (auto simp: page_first)
  show ?case
  proof (cases "n < length (drop j S)")
    case False
    then show ?thesis by (simp add: page page_and_next_def)
  next
    case True
    then have len: "j + n < length S" by simp
    have "last (take n (drop j S)) = S ! (j + n - 1)" using True n by (simp add: last_conv_nth)
    moreover have "take n (take (Suc n) (drop j S)) = take n (drop j S)" by simp
    ultimately have "page_and_next pos n (page q c (Suc n) t) = (take n (drop j S), Some (pos (S ! (j + n - 1))))"
      using True n unfolding page page_and_next_def by simp
    moreover have "pages_end k (\<lambda>c. page_and_next pos n (page q c (Suc n) t)) (Some (pos (S ! (j + n - 1))))"
      using Suc.IH[of "Some (pos (S ! (j + n - 1)))" "j + n"] len n Suc.prems(3) by simp
    ultimately show ?thesis by simp
  qed
qed

end

text \<open>A client that follows \<open>next_cursor\<close>: the page that request \<open>k\<close> gets for a cursor, or its refusal.\<close>

fun follow :: "nat \<Rightarrow> (nat \<Rightarrow> string \<Rightarrow> ('a list \<times> string option) option) \<Rightarrow> string \<Rightarrow> 'a list option" where
  "follow 0 f c = None"
| "follow (Suc k) f c = (case f k c of None \<Rightarrow> None
    | Some (rs, None) \<Rightarrow> Some rs
    | Some (rs, Some c') \<Rightarrow> map_option ((@) rs) (follow k f c'))"

lemma follow_read:
  assumes "\<And>i c b rs nxt. R c b \<Longrightarrow> g b = (rs, nxt) \<Longrightarrow>
      (case nxt of None \<Rightarrow> f i c = Some (rs, None) | Some b' \<Rightarrow> (\<exists>c'. f i c = Some (rs, Some c') \<and> R c' (Some b')))"
    and "R c b" and "pages_end k g b"
  shows "follow k f c = Some (read_pages k g b)"
  using assms(2,3)
proof (induction k arbitrary: c b)
  case 0
  then show ?case by simp
next
  case (Suc k)
  obtain rs nxt where g: "g b = (rs, nxt)" by fastforce
  show ?case
  proof (cases nxt)
    case None
    with assms(1)[OF Suc.prems(1) g, of k] g show ?thesis by simp
  next
    case (Some b')
    with assms(1)[OF Suc.prems(1) g, of k] obtain c' where c': "f k c = Some (rs, Some c')" "R c' (Some b')" by auto
    from Suc.IH[OF c'(2)] Suc.prems(2) g Some c'(1) show ?thesis by simp
  qed
qed

definition audit_answer :: "admin_reply resp \<Rightarrow> (audit_row list \<times> string option) option" where
  "audit_answer y = (case y of Reply code (DAudit pg) \<Rightarrow> Some pg | _ \<Rightarrow> None)"

definition with_cursor :: "(string \<Rightarrow> string) \<Rightarrow> string \<Rightarrow> (string \<Rightarrow> string)" where
  "with_cursor query c = query(''cursor'' := c)"

definition cursor_of :: "cursor_codec \<Rightarrow> time \<Rightarrow> string \<Rightarrow> string \<Rightarrow> audit_row \<Rightarrow> string" where
  "cursor_of C now actor filters r = EncodeCursor C now actor filters [cu_time C (e_created r), e_id r]"

lemma cursor_of_nonempty: "cursor_of C now actor filters r \<noteq> ''''"
  by (simp add: cursor_of_def EncodeCursor_def Let_def)

lemma audit_query_next:
  assumes "audit_query f b n d = (rs, Some b')"
  shows "\<exists>r \<in> set (audits d). b' = audit_pos r"
proof -
  let ?rows = "keyset_page audit_pos (audit_sel f) b (Suc n) (audits d)"
  from assms have "n < length ?rows" "n \<noteq> 0" "b' = audit_pos (last (take n ?rows))"
    by (auto simp: audit_query_def page_and_next_def split: if_splits)
  moreover from this have "last (take n ?rows) \<in> set ?rows" by (metis in_set_takeD last_in_set length_0_conv length_take min.absorb4 not_gr_zero take_eq_Nil)
  ultimately show ?thesis using audit_pages.page_sound by blast
qed


end
