(* ===== verification/AdminWitness.thy ===== *)
theory AdminWitness
  imports AdminSafety AccountWitness ObjectWitness
begin

text \<open>
  Samples of the administration routes: a job update with an audit log and a scheduler, two audit events read with pages of
  one, and settings that a delivery picks up.
\<close>

section \<open>An instance\<close>

definition admin_member :: principal where
  "admin_member = principal_of root root_row"

lemma admin_name: "p_user admin_member = ''a1''"
  by (simp add: admin_member_def principal_of_def root_def)

definition every_filter :: string where
  "every_filter = ''v1:system:event=:result=:from=:to=''"

definition time_text :: "time \<Rightarrow> string" where
  "time_text t = replicate (Suc (to_nat t)) (CHR ''x'')"

definition event_payload :: "string \<Rightarrow> cursor_payload" where
  "event_payload i = \<lparr>cp_version = 1, cp_actor = p_user admin_member, cp_filters = every_filter, cp_sort = [time_text 5, i], cp_expires = 900\<rparr>"

definition event_cursor :: cursor_codec where
  "event_cursor = sample_cursor\<lparr>cu_time := time_text,
     cu_json := (\<lambda>p. if p = event_payload ''a'' then [1] else if p = event_payload ''b'' then [2] else 0 # replicate (payload_nat p) 0),
     cu_parse := (\<lambda>b. case b of [] \<Rightarrow> None | x # xs \<Rightarrow>
       if x = 1 then Some (event_payload ''a'') else if x = 2 then Some (event_payload ''b'') else Some (nat_payload (length xs)))\<rparr>"

lemma event_cursor_laws: "codec_laws event_cursor"
proof -
  have "nat_payload (payload_nat p) = p" for p by (simp add: nat_payload_def payload_nat_def)
  moreover have "utf8_bytes (replicate n 120)" for n by (induction n) simp_all
  then have "valid_utf8 (replicate n (CHR ''x''))" for n by (simp add: valid_utf8_def byte_values_def)
  ultimately show ?thesis by (simp add: codec_laws_def event_cursor_def sample_cursor_def time_text_def del: replicate.simps)
qed

definition admin_sample :: admin_api where
  "admin_sample = \<lparr>dm_net = \<lparr>ne_url = (\<lambda>_. None), ne_ip = (\<lambda>_. None), ne_cidr = (\<lambda>_. None), ne_fold = (\<lambda>a b. a = b)\<rparr>, dm_auth = sample_auth,
     dm_cursor = event_cursor, dm_sched = sample_zones,
     dm_settings = \<lparr>sn_url = (\<lambda>_. None), sn_json = (\<lambda>_. ''''), sn_parse = (\<lambda>_. None)\<rparr>, dm_audit = Some sample_env, dm_has_sched = True,
     dm_pass = '''', dm_dir = ''/b'', dm_r2 = None, dm_time = (\<lambda>_. None), dm_version = '''', dm_ready = None, dm_present = False\<rparr>"

definition quiet_chance :: admin_chance where
  "quiet_chance = \<lparr>xn_now = 0, xn_begin = True, xn_commit = True, xn_settings = True\<rparr>"

definition admin_start :: admin_state where
  "admin_start = \<lparr>as_db = empty_backup, as_sched = New empty_db, as_run = None\<rparr>"


definition page_of_one :: "string \<Rightarrow> string" where
  "page_of_one k = (if k = ''limit'' then ''1'' else '''')"

definition logged_start :: admin_state where
  "logged_start = admin_start\<lparr>as_db := empty_backup\<lparr>bd_main := sample_log\<rparr>\<rparr>"

lemma event_token_short:
  assumes "i = ''a'' \<or> i = ''b''"
  shows "length (EncodeCursor event_cursor 0 (p_user admin_member) every_filter [time_text 5, i]) \<le> maxCursorTokenBytes"
proof -
  have j: "length (cu_json event_cursor (event_payload i)) = 1" using assms by (auto simp: event_cursor_def)
  have p: "\<lparr>cp_version = cursorVersion, cp_actor = p_user admin_member, cp_filters = every_filter, cp_sort = [time_text 5, i],
      cp_expires = unix_seconds (0 + cu_ttl event_cursor)\<rparr> = event_payload i"
    by (simp add: event_payload_def cursorVersion_def unix_seconds_def event_cursor_def sample_cursor_def)
  have b: "length (base64_encode url_alphabet bs) \<le> 2 * length bs" for bs
    using sextets_length[of "map unat bs"] by (simp add: base64_encode_def)
  have h: "length (cu_hmac event_cursor k bs) = 32" for k bs by (simp add: event_cursor_def sample_cursor_def)
  let ?b = "base64_encode url_alphabet (cu_json event_cursor (event_payload i))"
  have "length (cursor_sign event_cursor ?b) \<le> 64" using b[of "cu_hmac event_cursor (cu_key event_cursor) (bytes_of ?b)"]
    by (simp only: cursor_sign_def h)
  moreover have "length ?b \<le> 2" using b[of "cu_json event_cursor (event_payload i)"] by (simp only: j)
  moreover have "EncodeCursor event_cursor 0 (p_user admin_member) every_filter [time_text 5, i] = ?b @ ''.'' @ cursor_sign event_cursor ?b"
    unfolding EncodeCursor_def p Let_def ..
  ultimately show ?thesis by (simp only: length_append maxCursorTokenBytes_def) simp
qed


section \<open>Settings\<close>

definition bucket_settings :: runtime_settings where
  "bucket_settings = \<lparr>rs_endpoint = ''https://h'', rs_bucket = ''b1'', rs_prefix = ''''\<rparr>"

definition bucket_env :: settings_env where
  "bucket_env = \<lparr>sn_url = (\<lambda>_. Some \<lparr>ur_scheme = ''https'', ur_host = ''h'', ur_path = '''', ur_query = '''', ur_fragment = '''', ur_user = False\<rparr>),
     sn_json = (\<lambda>_. ''{}''), sn_parse = (\<lambda>_. Some bucket_settings)\<rparr>"

theorem updated_settings_used_witness:
  "\<exists>d'. UpdateSettings bucket_env True bucket_settings empty_db = Inr d' \<and>
     NewSettingsR2Resolver bucket_env memory_env True (''k'', Absent) ('''', Content ''s'') 0 ''x'' d' =
       Inr (Some (R2Client memory_env \<lparr>cl_cfg = resolved_config bucket_settings ''k'' ''s'', cl_timeout = 60 * second_ns, cl_attempts = 4\<rparr>
         ''tiny-password'' 0 0 ''x''))"
proof -
  have v: "validate_settings bucket_env bucket_settings = Inr ()" by code_simp
  then obtain d' where d: "UpdateSettings bucket_env True bucket_settings empty_db = Inr d'" by (simp add: UpdateSettings_def)
  have p: "sn_parse bucket_env (sn_json bucket_env bucket_settings) = Some bucket_settings" by (simp add: bucket_env_def)
  have "trim_space ''k'' = ''k''" "trim_space ''s'' = ''s''" "trim_space '''' = ''''"
    by (simp_all add: trim_space_id ascii_def graphic_def)
  then have c: "readR2Credential (''k'', Absent) = Inr ''k''" "readR2Credential ('''', Content ''s'') = Inr ''s''"
    by (simp_all add: readR2Credential_def ReadOptionalSecretFile_def)
  from updated_settings_used[OF d p c, of memory_env 0 "''x''"] d show ?thesis by (simp add: bucket_settings_def)
qed

end
