(* ===== verification/Spec2Isabelle.thy ===== *)
theory Spec2Isabelle
  imports VaultWitness VaultReads Admission AccountWitness RestoreTheorems VaultImport BackupWitness TransferWitness BrowseTheorems Health
    Generators Idents ItemsSafety LoginProbe AccountRequests ObjectWitness AdminWitness
begin

text \<open>
  Tiny Password: a model of the server (\<open>internal/\<close>, Go) and of the theorems that make it correct.

  The program is one process over one SQLite database: members log in (\<open>auth\<close>), administrators
  manage members (\<open>users\<close>), the first administrator comes from a one-time setup (\<open>bootstrap\<close>), and
  every member keeps encrypted items (\<open>vault\<close>) that are personal or shared for reading.  Payloads are
  sealed under the master key and bound to their row by additional authenticated data
  (\<open>platform/crypto\<close>).  Changes write an audit event (\<open>audit\<close>) and complete an idempotency claim
  (\<open>idempotency\<close>) in the same transaction.  The offline command restores a whole instance from an
  encrypted archive (\<open>backup\<close>), and the schema is installed and upgraded by numbered migrations
  (\<open>platform/sqlite\<close>).

  Conventions.  A Go function that returns an error is a function into \<open>'e + 'a\<close>; a service method
  takes the database (record \<open>db\<close> of \<open>Schema\<close>, one list of row records per table) and returns the
  result and the new database; a transaction is its body under \<open>in_tx\<close>, so an error leaves the
  database unchanged.  Where the code leaves the database between two transactions (login, password
  change, setup), the operation is split at that point, and other operations may come in between.
  Instants are integers (nanoseconds), byte strings lists of 8-bit words, text a list of 8-bit
  characters.  Code outside the repository is a parameter: the AEAD, HMAC, SHA-256, Argon2, JSON,
  the Unicode case tables, SQLite's \<open>strftime\<close> arithmetic, the text of the migrations; what is
  assumed of it is a named predicate (\<open>aead_opens\<close>, \<open>codec_ok\<close>, \<open>venv_ok\<close> and so on), and the sample
  theories instantiate every one of them with concrete functions.

  Theories, in the order of the code:
  \<^item> \<open>Prelude\<close>, \<open>GoText\<close>, \<open>GoEncode\<close>, \<open>Sql\<close>: errors and transactions, strings and UTF-8 as Go has
    them, decimal, base64, hexadecimal and \<open>Sscanf\<close>, tables with their statements.  Locales:
    \<open>invariant_system\<close>, \<open>keyed_table\<close>, \<open>keyset_listing\<close>, interpreted on the model's own tables and
    steps in \<open>Schema\<close>, \<open>AuditLog\<close>, \<open>VaultSafety\<close>, \<open>Accounts\<close> and others.
  \<^item> \<open>Schema\<close> (\<open>migrations/\<close>): the tables, constraints and cascades.  \<open>Policy\<close> (\<open>vault/policy.go\<close>),
    \<open>AuditLog\<close> (\<open>audit/\<close>), \<open>Crypto\<close> (\<open>platform/crypto/\<close>), \<open>Idempotency\<close> (\<open>idempotency/\<close>),
    \<open>Payloads\<close> (\<open>vault/payloads.go\<close>, \<open>types.go\<close>, \<open>validation.go\<close>).
  \<^item> \<open>VaultRepo\<close>, \<open>VaultService\<close>, \<open>VaultWrite\<close>, \<open>VaultScan\<close> (\<open>vault/repository.go\<close>, \<open>service.go\<close>,
    \<open>trash.go\<close>, \<open>history.go\<close>, \<open>search.go\<close>): the operations on items.  \<open>VaultInvariant\<close> and
    \<open>VaultSafety\<close> prove the invariant \<open>vault_inv\<close> for every reachable database: constraints, exact
    history of ten revisions, and every row and version decrypting under its own AAD.
    \<open>VaultTheorems\<close>, \<open>VaultOwnership\<close>, \<open>VaultLifecycle\<close>, \<open>VaultReads\<close> hold the properties,
    \<open>SampleVault\<close> and \<open>VaultWitness\<close> the samples.
  \<^item> \<open>Password\<close>, \<open>Sessions\<close>, \<open>Admission\<close>, \<open>Users\<close>, \<open>Bootstrap\<close> (\<open>auth/\<close>, \<open>users/\<close>, \<open>bootstrap/\<close>):
    password hashes and the memory gate, login, sessions, the rolling-window limiter, members,
    setup.  \<open>Accounts\<close> states every operation as an edit of the session and user tables, and
    \<open>AccountSafety\<close> proves the properties over all interleavings; \<open>AccountWitness\<close> has the samples.
  \<^item> \<open>Migrate\<close> (\<open>platform/sqlite/migrate.go\<close>), \<open>Manifest\<close> (\<open>backup/manifest.go\<close>), \<open>Rekey\<close> and
    \<open>RekeyTheorems\<close> (\<open>backup/rekey.go\<close>), \<open>Restore\<close> (\<open>backup/restore.go\<close>, \<open>recovery_state.go\<close>,
    \<open>restore_marker.go\<close>).  A restore operation returns, besides its result, every data directory it
    makes on the way: these are the points where the process can die.  \<open>RestoreInvariant\<close> has the
    crash invariant and the rules, \<open>RestoreRules\<close> and \<open>RestoreAttempt\<close> prove it for each phase inside
    the locale \<open>restore_origin\<close>, \<open>RestoreSafety\<close> interprets it and has the properties over any number
    of interrupted attempts, \<open>RestoreProgress\<close> and \<open>RestoreTheorems\<close> show that a valid backup is
    restored.

  \<^item> \<open>VaultImport\<close> (\<open>vault/service.go\<close>): the checks, the three passes and the transaction of an import.
  \<^item> \<open>Clock\<close>, \<open>Scheduler\<close> (\<open>scheduler/\<close>): daily times in a zone with arbitrary offsets, registration,
    reload and evaluation of jobs, each evaluation split where another can run.
  \<^item> \<open>Retention\<close>, \<open>BackupJobs\<close>, \<open>BackupRun\<close> (\<open>backup/retention.go\<close>, \<open>retention_apply.go\<close>, \<open>jobs.go\<close>,
    \<open>runs.go\<close>, \<open>runner.go\<close>, \<open>local.go\<close>, \<open>r2.go\<close>): which archives are kept, the job table, one backup run
    with its rows, archive, verification, deliveries and retention against a local directory and an
    object store.  \<open>BackupSafety\<close> has the properties, \<open>BackupWitness\<close> the samples.
  \<^item> \<open>ObjectStore\<close> (\<open>platform/objectstore/r2.go\<close>): the signed requests, the retries and the operations of the object
    store client over a service that may lose answers.  \<open>ObjectSafety\<close> shows that retries are bounded and that a delivery
    through this client is exact, \<open>ObjectWitness\<close> has a service in memory.
  \<^item> \<open>GoPath\<close>, \<open>Archive\<close> (\<open>platform/archive/archive.go\<close>): path cleaning and string searches of the
    standard library; the file table of 7-Zip, its whitelist, extraction and the check on disk.
  \<^item> \<open>Transfers\<close>, \<open>Previews\<close> (\<open>transfer/\<close>): personal export, manifest, reading an archive, the Bitwarden
    conversion; staged previews in the work directory, confirmation, cancellation, sweeps and
    revocation.  \<open>TransferSafety\<close> has the round trip, \<open>PreviewSafety\<close> the step relation of all
    interleavings and its invariant, \<open>TransferWitness\<close> the samples.

  \<^item> \<open>GoSort\<close>: sorting and the binary heap of the standard library.  \<open>Browse\<close>, \<open>BrowseTheorems\<close>
    (\<open>vault/browse.go\<close>): sorted pages over decrypted titles with a bounded heap, the tags in use;
    \<open>Health\<close> (\<open>vault/health.go\<close>): weak, reused and expired passwords.
  \<^item> \<open>Generators\<close> (\<open>generator/\<close>): passwords and passphrases by rejection sampling over a source of random
    numbers; \<open>Idents\<close> (\<open>platform/ident\<close>): the time-ordered identifiers.
  \<^item> \<open>Http\<close> (\<open>httpapi/origin.go\<close>, \<open>middleware.go\<close>): the request, same-origin rule, trusted proxies and the client
    address.  \<open>HttpGuard\<close> (\<open>csrf.go\<close>, guards of \<open>auth.go\<close> and \<open>audit.go\<close>, \<open>errors.go\<close>): session and
    administrator guard, tokens before login, rate limiter.  \<open>Cursors\<close> (\<open>cursor.go\<close>): sealed page positions.
    \<open>ItemsApi\<close> (\<open>items.go\<close>, \<open>items_browse.go\<close>, \<open>idempotency.go\<close>): every route of the items;
    \<open>ItemsSafety\<close> shows that a request is one service call between two changes of idempotency records, and carries the
    ownership and the create properties of the vault to the HTTP interface.
    \<open>AccountsApi\<close> (\<open>setup.go\<close>, \<open>auth.go\<close>, \<open>users.go\<close>): setup, login, sessions and members, each route over the state of the
    process; \<open>AccountRequests\<close> has the properties over every sequence of requests.
    \<open>Settings\<close> (\<open>settings/\<close>, \<open>backup/r2resolve.go\<close>): the runtime settings and the delivery built from them; \<open>AdminApi\<close>
    (\<open>backups.go\<close>, \<open>settings.go\<close>, \<open>audit.go\<close>): the routes of administrators over database, scheduler and the run under way;
    \<open>AdminSafety\<close> has their properties, \<open>AdminWitness\<close> the samples.
    \<open>LoginProbe\<close> (\<open>login_probe.go\<close>): the search for a login page on a site named by a member, with its checks of
    names and addresses; what it looked up, dialled and sent is part of the result.

  Bounds.  No fuel is used: the retry loops of the code (three attempts of an update, two of a
  claim, four requests of a call to the object store, 1001 pages of a listing) are modelled with their own counters, and the batched scans recurse on the remaining rows.
  Revisions are natural numbers in the tables and 64-bit words in the AAD; lengths in the AAD are
  32-bit; the memory gates of the hasher are counted in 64-bit words as the code computes them; the
  sums of archive sizes wrap at 64 bits.

  Not modelled.  JSON decoding and encoding, logging and security headers, the remaining handlers (transfer,
  generators, readiness) and the generation of SSH keys.  Operating-system locks,
  free-space queries, temporary directories, environment variables and the wiring in \<open>cmd/\<close> are input
  and output without logic of their own.
  Time-dependent side channels, failures of single SQL statements other than constraint violations,
  and failing removals of directories are outside the model.
\<close>

end
